(* ===== verification/Prelude.thy ===== *)
theory Prelude
  imports Main "HOL-Library.Word" "HOL-Library.Multiset"
begin

text \<open>
  Shared vocabulary of the development: the machine-integer types of the Rust sources, the
  arithmetic of the Rust core library that the sources use (saturating and checked addition),
  the slice and iterator operations they use (\<open>position\<close>, \<open>swap_remove\<close>, writing a prefix of a
  buffer), fixed-capacity sequences, and the generic transition-system locale that every
  component with a step function is an instance of.

  A container of the \<open>heapless\<close> crate is represented by the list of its elements together with
  an explicit capacity argument (the const generic of the source): an insertion that does not
  fit is reported by \<open>None\<close>, which is the documented contract of \<open>push\<close>, \<open>push_back\<close> and
  \<open>insert\<close>.
\<close>

section \<open>Machine integers and results\<close>

type_synonym u8 = "8 word"
type_synonym u16 = "16 word"
type_synonym u32 = "32 word"
type_synonym u64 = "64 word"

text \<open>\<open>Result<T, E>\<close> of the source is a sum: \<^term>\<open>Inl e\<close> is \<open>Err(e)\<close>, \<^term>\<open>Inr x\<close> is \<open>Ok(x)\<close>.\<close>

type_synonym ('e, 'a) result = "'e + 'a"

named_theorems prelude_simps "equations of the shared container operations"
named_theorems inv_lemmas "preservation of component invariants"

definition saturating_add :: "'a::len word \<Rightarrow> 'a word \<Rightarrow> 'a word" where
  "saturating_add a b = (if unat a + unat b < 2 ^ LENGTH('a) then a + b else - 1)"

definition checked_add :: "'a::len word \<Rightarrow> 'a word \<Rightarrow> 'a word option" where
  "checked_add a b = (if unat a + unat b < 2 ^ LENGTH('a) then Some (a + b) else None)"

lemma unat_word_max: "unat (- 1 :: 'a::len word) = 2 ^ LENGTH('a) - 1"
  by (simp add: unsigned_minus_1_eq_mask mask_eq_exp_minus_1)

lemma unat_saturating_add:
  "unat (saturating_add a b :: 'a::len word) = min (unat a + unat b) (2 ^ LENGTH('a) - 1)"
  by (auto simp: saturating_add_def unat_word_ariths unat_word_max min_def)

lemma saturating_add_0 [simp]: "saturating_add a 0 = (a :: 'a::len word)"
proof -
  have "unat a < 2 ^ LENGTH('a)" by (rule unsigned_less)
  then show ?thesis by (simp add: saturating_add_def)
qed

lemma saturating_add_ge: "(a :: 'a::len word) \<le> saturating_add a b"
proof -
  have "unat a < 2 ^ LENGTH('a)" by (rule unsigned_less)
  then have "unat a \<le> 2 ^ LENGTH('a) - 1" by linarith
  then have "unat a \<le> unat (saturating_add a b)"
    unfolding unat_saturating_add by (rule min.boundedI [rotated]) simp
  then show ?thesis by (simp add: word_le_nat_alt)
qed

lemma checked_add_SomeD: "checked_add a b = Some c \<Longrightarrow> unat c = unat a + unat b"
  by (auto simp: checked_add_def unat_word_ariths split: if_splits)

lemma unat_of_nat_u8 [simp]: "n < 256 \<Longrightarrow> unat (of_nat n :: u8) = n"
  by (simp add: unat_of_nat take_bit_nat_eq_self)

section \<open>Slices and iterators\<close>

text \<open>The index loops of the sources: peel the first index off a range.\<close>

lemma all_from_split:
  "i < (n :: nat) \<Longrightarrow>
     (\<forall>k. i \<le> k \<and> k < n \<longrightarrow> P k) \<longleftrightarrow> P i \<and> (\<forall>k. Suc i \<le> k \<and> k < n \<longrightarrow> P k)"
  by (metis Suc_le_eq le_eq_less_or_eq)

text \<open>\<open>slice.iter().position(p)\<close>: the index of the first element that satisfies \<open>p\<close>.\<close>

fun position :: "('a \<Rightarrow> bool) \<Rightarrow> 'a list \<Rightarrow> nat option" where
  "position p [] = None"
| "position p (x # xs) = (if p x then Some 0 else map_option Suc (position p xs))"

lemma position_None_iff: "position p xs = None \<longleftrightarrow> (\<forall>x \<in> set xs. \<not> p x)"
  by (induction xs) auto

lemma position_SomeD: "position p xs = Some i \<Longrightarrow> i < length xs \<and> p (xs ! i)"
  by (induction xs arbitrary: i) (auto split: if_splits)

lemma position_first: "position p xs = Some i \<Longrightarrow> j < i \<Longrightarrow> \<not> p (xs ! j)"
proof (induction xs arbitrary: i j)
  case (Cons x xs)
  then show ?case by (cases j) (auto split: if_splits)
qed simp

lemma find_position: "find p xs = map_option ((!) xs) (position p xs)"
  by (induction xs) (auto simp: option.map_comp comp_def)

lemma position_distinct:
  assumes "distinct (map f xs)" "i < length xs"
  shows "position (\<lambda>x. f x = f (xs ! i)) xs = Some i"
proof -
  have "position (\<lambda>x. f x = f (xs ! i)) xs \<noteq> None"
    using assms(2) by (auto simp: position_None_iff dest: bspec [OF _ nth_mem])
  then obtain j where j: "position (\<lambda>x. f x = f (xs ! i)) xs = Some j" by blast
  then have "j < length xs" "f (xs ! j) = f (xs ! i)"
    by (auto dest: position_SomeD)
  then have "j = i"
    using assms nth_eq_iff_index_eq [of "map f xs" j i] by simp
  with j show ?thesis by simp
qed

lemma position_map_cong: "map f xs = map f ys \<Longrightarrow> position (\<lambda>x. f x = k) xs = position (\<lambda>x. f x = k) ys"
proof (induction xs arbitrary: ys)
  case (Cons x xs)
  then show ?case by (cases ys) auto
qed simp

text \<open>\<open>Vec::swap_remove(i)\<close>: the last element takes the place of element \<open>i\<close>.\<close>

definition swap_remove :: "nat \<Rightarrow> 'a list \<Rightarrow> 'a list" where
  "swap_remove i xs = butlast (xs[i := last xs])"

lemma length_swap_remove [simp]: "length (swap_remove i xs) = length xs - 1"
  by (simp add: swap_remove_def)

lemma mset_swap_remove:
  assumes "i < length xs"
  shows "mset xs = add_mset (xs ! i) (mset (swap_remove i xs))"
proof -
  obtain ys y where xs: "xs = ys @ [y]"
    using assms by (cases xs rule: rev_exhaust) auto
  show ?thesis
  proof (cases "i < length ys")
    case True
    then have "swap_remove i xs = ys[i := y]"
      by (simp add: swap_remove_def xs list_update_append)
    with True show ?thesis
      by (simp add: xs nth_append mset_update)
  next
    case False
    with assms have "i = length ys" by (simp add: xs)
    then show ?thesis by (simp add: xs swap_remove_def)
  qed
qed

lemma set_swap_remove_subset: "i < length xs \<Longrightarrow> set (swap_remove i xs) \<subseteq> set xs"
  using mset_swap_remove [of i xs] by (metis set_mset_mset set_mset_add_mset_insert subset_insertI)

text \<open>
  \<open>buf[at..at + bytes.len()].copy_from_slice(bytes)\<close> on a buffer that is long enough; the
  callers check the length first.
\<close>

definition write_at :: "nat \<Rightarrow> 'a list \<Rightarrow> 'a list \<Rightarrow> 'a list" where
  "write_at at bytes buf = take at buf @ bytes @ drop (at + length bytes) buf"

lemma length_write_at [simp]:
  "at + length bytes \<le> length buf \<Longrightarrow> length (write_at at bytes buf) = length buf"
  by (simp add: write_at_def)

lemma write_at_0: "write_at 0 bytes buf = bytes @ drop (length bytes) buf"
  by (simp add: write_at_def)

lemma take_drop_write_at:
  "at + length bytes \<le> length buf \<Longrightarrow> take (length bytes) (drop at (write_at at bytes buf)) = bytes"
  by (simp add: write_at_def)

lemma take_write_at_below:
  "n \<le> at \<Longrightarrow> at \<le> length buf \<Longrightarrow> take n (write_at at bytes buf) = take n buf"
  by (simp add: write_at_def)

section \<open>Fixed-capacity sequences\<close>

definition push_cap :: "nat \<Rightarrow> 'a list \<Rightarrow> 'a \<Rightarrow> 'a list option" where
  "push_cap cap xs x = (if length xs < cap then Some (xs @ [x]) else None)"

text \<open>\<open>let _ = v.push(x)\<close>: an element that does not fit is dropped.\<close>

definition push_or_drop :: "nat \<Rightarrow> 'a list \<Rightarrow> 'a \<Rightarrow> 'a list" where
  "push_or_drop cap xs x = (case push_cap cap xs x of None \<Rightarrow> xs | Some xs' \<Rightarrow> xs')"

definition push_front_cap :: "nat \<Rightarrow> 'a list \<Rightarrow> 'a \<Rightarrow> 'a list option" where
  "push_front_cap cap xs x = (if length xs < cap then Some (x # xs) else None)"

lemma push_or_drop_room [prelude_simps]: "length xs < cap \<Longrightarrow> push_or_drop cap xs x = xs @ [x]"
  by (simp add: push_or_drop_def push_cap_def)

lemma push_or_drop_full [prelude_simps]: "cap \<le> length xs \<Longrightarrow> push_or_drop cap xs x = xs"
  by (simp add: push_or_drop_def push_cap_def)

lemma length_push_or_drop: "length (push_or_drop cap xs x) \<le> max cap (length xs)"
  by (simp add: push_or_drop_def push_cap_def)

lemma foldl_push_or_drop:
  "length acc + length xs \<le> cap \<Longrightarrow> foldl (push_or_drop cap) acc xs = acc @ xs"
  by (induction xs arbitrary: acc) (auto simp: prelude_simps)

lemma length_foldl_push_or_drop:
  "length (foldl (push_or_drop cap) acc xs) \<le> max cap (length acc)"
proof (induction xs arbitrary: acc)
  case (Cons x xs)
  show ?case
    using Cons [of "push_or_drop cap acc x"] length_push_or_drop [of cap acc x] by simp
qed simp

section \<open>Transition systems with outputs\<close>

text \<open>
  A machine is a step function from a state and an input to the next state and the outputs of
  the step; a run feeds it a list of inputs and concatenates the outputs. A state is reachable
  from another when some input list leads there.
\<close>

fun run :: "('s \<Rightarrow> 'i \<Rightarrow> 's \<times> 'o list) \<Rightarrow> 's \<Rightarrow> 'i list \<Rightarrow> 's \<times> 'o list" where
  "run f s [] = (s, [])"
| "run f s (i # is) = (let (s1, o1) = f s i; (s2, o2) = run f s1 is in (s2, o1 @ o2))"

inductive reaches :: "('s \<Rightarrow> 'i \<Rightarrow> 's \<times> 'o list) \<Rightarrow> 's \<Rightarrow> 's \<Rightarrow> bool" for f s where
  reaches_refl: "reaches f s s"
| reaches_step: "reaches f s t \<Longrightarrow> reaches f s (fst (f t i))"

lemma fst_run_Cons: "fst (run f s (i # is)) = fst (run f (fst (f s i)) is)"
  by (simp add: Let_def split: prod.split)

lemma snd_run_Cons: "snd (run f s (i # is)) = snd (f s i) @ snd (run f (fst (f s i)) is)"
  by (simp add: Let_def split: prod.split)

lemmas run_Cons = fst_run_Cons snd_run_Cons

lemma fst_run_snoc: "fst (run f s (is @ [i])) = fst (f (fst (run f s is)) i)"
proof (induction "is" arbitrary: s)
  case Nil
  show ?case by (simp add: Let_def split: prod.split)
next
  case (Cons j "is")
  then show ?case by (simp only: append_Cons fst_run_Cons)
qed

lemma run_append:
  "run f s (is @ js) = (let (s1, o1) = run f s is; (s2, o2) = run f s1 js in (s2, o1 @ o2))"
  by (induction "is" arbitrary: s) (auto simp: Let_def split: prod.splits)

lemma reaches_iff_run: "reaches f s t \<longleftrightarrow> (\<exists>is. t = fst (run f s is))"
proof
  assume "reaches f s t"
  then show "\<exists>is. t = fst (run f s is)"
  proof (induction rule: reaches.induct)
    case reaches_refl
    show ?case by (rule exI [of _ "[]"]) simp
  next
    case (reaches_step t i)
    then obtain "is" where "t = fst (run f s is)" by blast
    then have "fst (f t i) = fst (run f s (is @ [i]))"
      by (simp only: fst_run_snoc)
    then show ?case by blast
  qed
next
  assume "\<exists>is. t = fst (run f s is)"
  then obtain "is" where t: "t = fst (run f s is)" by blast
  show "reaches f s t"
    unfolding t
  proof (induction "is" rule: rev_induct)
    case Nil
    show ?case by (simp add: reaches_refl)
  next
    case (snoc i "is")
    from reaches_step [OF this] show ?case by (simp only: fst_run_snoc)
  qed
qed

text \<open>
  An invariant machine: every step keeps \<open>inv\<close>. A monitored machine carries in addition a
  ghost state that is updated by each output and a relation \<open>rel\<close> between machine and ghost
  that every step keeps, with each output admitted by the ghost state it meets; then the whole
  output trace of every run is admitted.
\<close>

locale invariant_machine =
  fixes mstep :: "'s \<Rightarrow> 'i \<Rightarrow> 's \<times> 'o list"
    and inv :: "'s \<Rightarrow> bool"
  assumes step_inv: "inv s \<Longrightarrow> inv (fst (mstep s i))"
begin

lemma run_inv: "inv s \<Longrightarrow> inv (fst (run mstep s is))"
proof (induction "is" arbitrary: s)
  case (Cons i "is")
  from step_inv [OF Cons.prems, of i] have "inv (fst (run mstep (fst (mstep s i)) is))"
    by (rule Cons.IH)
  then show ?case by (simp only: fst_run_Cons)
qed simp

lemma reaches_inv: "reaches mstep s t \<Longrightarrow> inv s \<Longrightarrow> inv t"
  by (induction rule: reaches.induct) (auto intro: step_inv)

end

fun admitted :: "('g \<Rightarrow> 'o \<Rightarrow> bool) \<Rightarrow> ('g \<Rightarrow> 'o \<Rightarrow> 'g) \<Rightarrow> 'g \<Rightarrow> 'o list \<Rightarrow> bool" where
  "admitted ok upd g [] = True"
| "admitted ok upd g (e # es) = (ok g e \<and> admitted ok upd (upd g e) es)"

lemma admitted_append [simp]:
  "admitted ok upd g (es @ fs) \<longleftrightarrow> admitted ok upd g es \<and> admitted ok upd (foldl upd g es) fs"
  by (induction es arbitrary: g) auto

locale monitored_machine = invariant_machine mstep inv
  for mstep :: "'s \<Rightarrow> 'i \<Rightarrow> 's \<times> 'o list" and inv :: "'s \<Rightarrow> bool" +
  fixes ok :: "'g \<Rightarrow> 'o \<Rightarrow> bool"
    and upd :: "'g \<Rightarrow> 'o \<Rightarrow> 'g"
    and rel :: "'s \<Rightarrow> 'g \<Rightarrow> bool"
  assumes step_rel:
      "inv s \<Longrightarrow> rel s g \<Longrightarrow> rel (fst (mstep s i)) (foldl upd g (snd (mstep s i)))"
    and step_ok: "inv s \<Longrightarrow> rel s g \<Longrightarrow> admitted ok upd g (snd (mstep s i))"
begin

lemma run_admitted: "inv s \<Longrightarrow> rel s g \<Longrightarrow> admitted ok upd g (snd (run mstep s is))"
proof (induction "is" arbitrary: s g)
  case (Cons i "is")
  have "admitted ok upd (foldl upd g (snd (mstep s i))) (snd (run mstep (fst (mstep s i)) is))"
    using Cons.prems by (intro Cons.IH step_inv step_rel)
  with step_ok [OF Cons.prems] show ?case
    by (simp only: snd_run_Cons admitted_append)
qed simp

end

end
