(* ===== verification/I3c_Config.thy ===== *)
theory I3c_Config
  imports Prelude
begin

unbundle bit_operations_syntax

text \<open>
  The tables of the I3C driver (\<open>i3c/config.rs\<close>, \<open>i3c/error.rs\<close>): the book of 7-bit addresses as two 128-bit maps, the attached
  devices with the map from positions in the device address table, and the operations that keep them together while
  addresses are assigned, moved and reset. The bit maps are proved to be sets of addresses, and the tables to be
  consistent under every operation.
\<close>

section \<open>Errors\<close>

datatype ccc_error_kind = CccInvalidParam | CccNotFound | CccNoFreeSlot | CccInvalid

datatype i3c_error =
    I3cNoDatPos | I3cNoMsgs | I3cTooManyMsgs | I3cInvalidArgs | I3cTimeout | I3cNoSuchDev | I3cAccess | I3cIoError | I3cInvalid
  | I3cRespError | I3cDaaNack | I3cAddressNack | I3cAddrInUse | I3cAddrExhausted | I3cNoFreeSlot | I3cDevNotFound
  | I3cDevAlreadyAttached | I3cInvalidParam | I3cCccError ccc_error_kind | I3cBusy | I3cOther

section \<open>The address book\<close>

record addr_book =
  ab_in_use :: "u32 list"
  ab_reserved :: "u32 list"

definition ab_bit_get :: "u32 list \<Rightarrow> u8 \<Rightarrow> bool" where
  "ab_bit_get bits addr = (let i = unat addr in bit (bits ! ((i div 32) mod 4)) (i mod 32))"

definition ab_bit_set :: "u32 list \<Rightarrow> u8 \<Rightarrow> bool \<Rightarrow> u32 list" where
  "ab_bit_set bits addr val =
     (let i = unat addr; w = (i div 32) mod 4; mask = push_bit (i mod 32) 1
      in bits[w := (if val then bits ! w OR mask else bits ! w AND NOT mask)])"

definition addr_book_new :: addr_book where
  "addr_book_new = \<lparr>ab_in_use = replicate 4 0, ab_reserved = replicate 4 0\<rparr>"

definition ab_is_free :: "addr_book \<Rightarrow> u8 \<Rightarrow> bool" where
  "ab_is_free b addr \<longleftrightarrow> addr < 128 \<and> \<not> ab_bit_get (ab_in_use b) addr \<and> \<not> ab_bit_get (ab_reserved b) addr"

definition ab_is_reserved :: "addr_book \<Rightarrow> u8 \<Rightarrow> bool" where
  "ab_is_reserved b addr \<longleftrightarrow> addr \<ge> 128 \<or> ab_bit_get (ab_reserved b) addr"

definition reserve :: "u8 \<Rightarrow> addr_book \<Rightarrow> addr_book" where
  "reserve a b = b\<lparr>ab_reserved := ab_bit_set (ab_reserved b) a True\<rparr>"

definition reserve_defaults :: "addr_book \<Rightarrow> addr_book" where
  "reserve_defaults b =
     fold (\<lambda>i b. let alt = 0x7E XOR push_bit i 1 in if alt \<le> 0x7E then reserve alt b else b) [0..<8]
       (reserve 0x7E (fold reserve [0, 1, 2, 3, 4, 5, 6, 7] b))"

function alloc_scan :: "addr_book \<Rightarrow> u8 \<Rightarrow> u8 option" where
  "alloc_scan b addr = (if addr < 0x7F then if ab_is_free b addr then Some addr else alloc_scan b (addr + 1) else None)"
  by pat_completeness auto
termination
  by (relation "measure (\<lambda>(b, addr). 128 - unat addr)") (auto simp: word_less_nat_alt unat_word_ariths)

declare alloc_scan.simps [simp del]

definition alloc_from :: "addr_book \<Rightarrow> u8 \<Rightarrow> u8 option" where
  "alloc_from b start = alloc_scan b (max start 8)"

definition mark_use :: "u8 \<Rightarrow> bool \<Rightarrow> addr_book \<Rightarrow> addr_book" where
  "mark_use addr used b = (if addr \<noteq> 0 \<and> addr < 128 then b\<lparr>ab_in_use := ab_bit_set (ab_in_use b) addr used\<rparr> else b)"

definition reset_in_use :: "addr_book \<Rightarrow> addr_book" where
  "reset_in_use b = b\<lparr>ab_in_use := replicate 4 0\<rparr>"

section \<open>Devices\<close>

datatype dev_kind = KindI3c | KindI2c
datatype ibi_state = IbiDisabled | IbiEnabled | IbiUnknown
datatype da_state = DaUnassigned | DaVerified | DaUnknown

record device_entry =
  de_kind :: dev_kind
  de_pid :: "u64 option"
  de_static_addr :: u8
  de_dyn_addr :: u8
  de_desired_da :: u8
  de_bcr :: u8
  de_dcr :: u8
  de_maxrd :: u8
  de_maxwr :: u8
  de_mrl :: u16
  de_mwl :: u16
  de_max_ibi :: u8
  de_ibi_state :: ibi_state
  de_pos :: "u8 option"
  de_da_state :: da_state

definition device_new_i3c :: "u64 \<Rightarrow> u8 \<Rightarrow> device_entry" where
  "device_new_i3c pid desired_da =
     \<lparr>de_kind = KindI3c, de_pid = Some pid, de_static_addr = 0, de_dyn_addr = desired_da, de_desired_da = desired_da,
      de_bcr = 0, de_dcr = 0, de_maxrd = 0, de_maxwr = 0, de_mrl = 0, de_mwl = 0, de_max_ibi = 0, de_ibi_state = IbiDisabled,
      de_pos = None, de_da_state = DaUnassigned\<rparr>"

definition device_new_i2c :: "u8 \<Rightarrow> device_entry" where
  "device_new_i2c static_addr =
     \<lparr>de_kind = KindI2c, de_pid = None, de_static_addr = static_addr, de_dyn_addr = static_addr, de_desired_da = static_addr,
      de_bcr = 0, de_dcr = 0, de_maxrd = 0, de_maxwr = 0, de_mrl = 0, de_mwl = 0, de_max_ibi = 0, de_ibi_state = IbiDisabled,
      de_pos = None, de_da_state = DaUnassigned\<rparr>"

record attached =
  at_devices :: "device_entry list"
  at_by_pos :: "u8 option list"

definition attached_new :: attached where
  "attached_new = \<lparr>at_devices = [], at_by_pos = replicate 8 None\<rparr>"

text \<open>The vector of devices has room for eight.\<close>

definition attach :: "attached \<Rightarrow> device_entry \<Rightarrow> attached \<times> (i3c_error, nat) result" where
  "attach a dev =
     (if length (at_devices a) < 8 then (a\<lparr>at_devices := at_devices a @ [dev]\<rparr>, Inr (length (at_devices a)))
      else (a, Inl I3cNoFreeSlot))"

definition unmap_pos :: "attached \<Rightarrow> u8 \<Rightarrow> attached" where
  "unmap_pos a pos = a\<lparr>at_by_pos := (at_by_pos a)[unat pos := None]\<rparr>"

definition remove_nth :: "nat \<Rightarrow> 'a list \<Rightarrow> 'a list" where
  "remove_nth i xs = take i xs @ drop (Suc i) xs"

definition shift_index :: "nat \<Rightarrow> u8 option \<Rightarrow> u8 option" where
  "shift_index dev_idx bp =
     (case bp of None \<Rightarrow> None
      | Some idx \<Rightarrow> if unat idx > dev_idx \<and> unat idx > 0 then Some (if idx = 0 then 0 else idx - 1) else bp)"

definition detach :: "attached \<Rightarrow> nat \<Rightarrow> attached" where
  "detach a dev_idx =
     (if dev_idx \<ge> length (at_devices a) then a
      else
        let a1 = (case de_pos (at_devices a ! dev_idx) of Some pos \<Rightarrow> unmap_pos a pos | None \<Rightarrow> a)
        in a1\<lparr>at_devices := remove_nth dev_idx (at_devices a1), at_by_pos := map (shift_index dev_idx) (at_by_pos a1)\<rparr>)"

definition by_pos_get :: "attached \<Rightarrow> nat \<Rightarrow> u8 option" where
  "by_pos_get a pos = (if pos < length (at_by_pos a) then at_by_pos a ! pos else None)"

definition detach_by_pos :: "attached \<Rightarrow> nat \<Rightarrow> attached" where
  "detach_by_pos a pos = (case by_pos_get a pos of Some idx \<Rightarrow> detach a (unat idx) | None \<Rightarrow> a)"

definition pos_of :: "attached \<Rightarrow> nat \<Rightarrow> u8 option" where
  "pos_of a dev_idx =
     (if dev_idx < 256
      then case position (\<lambda>v. v = Some (of_nat dev_idx)) (at_by_pos a) of
             Some p \<Rightarrow> if p < 256 then Some (of_nat p) else None
           | None \<Rightarrow> None
      else None)"

definition find_dev_idx_by_addr :: "attached \<Rightarrow> u8 \<Rightarrow> nat option" where
  "find_dev_idx_by_addr a da = position (\<lambda>d. de_dyn_addr d = da) (at_devices a)"

definition pos_of_addr :: "attached \<Rightarrow> u8 \<Rightarrow> u8 option" where
  "pos_of_addr a da = Option.bind (position (\<lambda>d. de_dyn_addr d = da) (at_devices a)) (pos_of a)"

definition pos_of_pid :: "attached \<Rightarrow> u64 \<Rightarrow> u8 option" where
  "pos_of_pid a pid = Option.bind (position (\<lambda>d. de_pid d = Some pid) (at_devices a)) (pos_of a)"

definition find_dev_idx_by_static_addr :: "attached \<Rightarrow> u8 \<Rightarrow> nat option" where
  "find_dev_idx_by_static_addr a addr = position (\<lambda>d. de_kind d = KindI2c \<and> de_static_addr d = addr) (at_devices a)"

definition dev_pos :: "attached \<Rightarrow> nat \<Rightarrow> u8 option" where
  "dev_pos a i = (if i < length (at_devices a) then de_pos (at_devices a ! i) else None)"

definition pos_of_static_addr :: "attached \<Rightarrow> u8 \<Rightarrow> u8 option" where
  "pos_of_static_addr a addr =
     Option.bind (find_dev_idx_by_static_addr a addr)
       (\<lambda>i. case pos_of a i of Some p \<Rightarrow> Some p | None \<Rightarrow> dev_pos a i)"

definition map_pos :: "attached \<Rightarrow> u8 \<Rightarrow> u8 \<Rightarrow> attached \<times> bool" where
  "map_pos a pos idx =
     (if unat pos < length (at_by_pos a) then (a\<lparr>at_by_pos := (at_by_pos a)[unat pos := Some idx]\<rparr>, True) else (a, False))"

section \<open>The configuration\<close>

record i3c_target_config =
  tc_flags :: u8
  tc_addr :: "u8 option"
  tc_static_addr :: "u8 option"
  tc_mdb :: u8

definition target_config_new :: "u8 \<Rightarrow> u8 option \<Rightarrow> u8 \<Rightarrow> i3c_target_config" where
  "target_config_new flags static_addr mdb = \<lparr>tc_flags = flags, tc_addr = None, tc_static_addr = static_addr, tc_mdb = mdb\<rparr>"

record i3c_config =
  target_config :: "i3c_target_config option"
  addrbook :: addr_book
  attached_devs :: attached
  core_clk_hz :: "u32 option"
  core_period :: u32
  i2c_scl_hz :: u32
  i3c_scl_hz :: u32
  i3c_pp_scl_hi_period_ns :: u32
  i3c_pp_scl_lo_period_ns :: u32
  i3c_od_scl_hi_period_ns :: u32
  i3c_od_scl_lo_period_ns :: u32
  sda_tx_hold_ns :: u32
  is_secondary :: bool
  maxdevs :: u16
  free_pos :: u32
  need_da :: u32
  cfg_dcr :: u32
  sir_allowed_by_sw :: bool

definition i3c_config_new :: i3c_config where
  "i3c_config_new =
     \<lparr>target_config = None, addrbook = reserve_defaults addr_book_new, attached_devs = attached_new, core_clk_hz = None,
      core_period = 0, i2c_scl_hz = 0, i3c_scl_hz = 0, i3c_pp_scl_hi_period_ns = 0, i3c_pp_scl_lo_period_ns = 0,
      i3c_od_scl_hi_period_ns = 0, i3c_od_scl_lo_period_ns = 0, sda_tx_hold_ns = 0, is_secondary = False, maxdevs = 8,
      free_pos = 0, need_da = 0, cfg_dcr = 0, sir_allowed_by_sw = False\<rparr>"

definition init_runtime_fields :: "i3c_config \<Rightarrow> i3c_config" where
  "init_runtime_fields c = c\<lparr>addrbook := reserve_defaults addr_book_new, attached_devs := attached_new\<rparr>"

definition pick_initial_da :: "i3c_config \<Rightarrow> u8 \<Rightarrow> u8 \<Rightarrow> i3c_config \<times> u8 option" where
  "pick_initial_da c static_addr desired =
     (case (if desired \<noteq> 0 \<and> ab_is_free (addrbook c) desired then Some desired
            else if static_addr \<noteq> 0 \<and> ab_is_free (addrbook c) static_addr then Some static_addr
            else alloc_from (addrbook c) 8) of
        None \<Rightarrow> (c, None)
      | Some addr \<Rightarrow> (c\<lparr>addrbook := mark_use addr True (addrbook c)\<rparr>, Some addr))"

definition upd_dev :: "nat \<Rightarrow> (device_entry \<Rightarrow> device_entry) \<Rightarrow> i3c_config \<Rightarrow> i3c_config" where
  "upd_dev i f c =
     c\<lparr>attached_devs := (attached_devs c)\<lparr>at_devices := (at_devices (attached_devs c))[i := f (at_devices (attached_devs c) ! i)]\<rparr>\<rparr>"

abbreviation devices :: "i3c_config \<Rightarrow> device_entry list" where
  "devices c \<equiv> at_devices (attached_devs c)"

definition reassign_da :: "i3c_config \<Rightarrow> u8 \<Rightarrow> u8 \<Rightarrow> i3c_config \<times> (i3c_error, unit) result" where
  "reassign_da c from to' =
     (case position (\<lambda>d. de_dyn_addr d = from) (devices c) of
        None \<Rightarrow> (c, Inl I3cDevNotFound)
      | Some idx \<Rightarrow>
          if from = to' then (c, Inr ())
          else if \<not> ab_is_free (addrbook c) to' then (c, Inl I3cAddrInUse)
          else (upd_dev idx (\<lambda>d. d\<lparr>de_dyn_addr := to', de_desired_da := to'\<rparr>)
                  (c\<lparr>addrbook := mark_use to' True (mark_use from False (addrbook c))\<rparr>), Inr ()))"

definition mark_da_unknown :: "nat \<Rightarrow> u8 option \<Rightarrow> i3c_config \<Rightarrow> i3c_config" where
  "mark_da_unknown dev_idx candidate c =
     (if dev_idx < length (devices c) \<and> de_kind (devices c ! dev_idx) = KindI3c
      then let dev = devices c ! dev_idx;
               b = mark_use (de_desired_da dev) True (mark_use (de_dyn_addr dev) True (addrbook c))
           in upd_dev dev_idx (\<lambda>d. d\<lparr>de_da_state := DaUnknown\<rparr>)
                (c\<lparr>addrbook := (case candidate of Some addr \<Rightarrow> mark_use addr True b | None \<Rightarrow> b)\<rparr>)
      else c)"

definition mark_rstdaa_unknown :: "i3c_config \<Rightarrow> i3c_config" where
  "mark_rstdaa_unknown c =
     c\<lparr>addrbook := fold (\<lambda>d b. if de_kind d = KindI3c then mark_use (de_desired_da d) True (mark_use (de_dyn_addr d) True b) else b)
                     (devices c) (addrbook c),
       attached_devs := (attached_devs c)\<lparr>at_devices :=
         map (\<lambda>d. if de_kind d = KindI3c then d\<lparr>de_da_state := DaUnknown, de_ibi_state := IbiUnknown\<rparr> else d) (devices c)\<rparr>\<rparr>"

definition commit_rstdaa :: "i3c_config \<Rightarrow> i3c_config" where
  "commit_rstdaa c =
     c\<lparr>addrbook := fold (\<lambda>d b. case de_kind d of
           KindI2c \<Rightarrow> mark_use (de_static_addr d) True b | KindI3c \<Rightarrow> mark_use (de_desired_da d) True b)
         (devices c) (reset_in_use (addrbook c)),
       attached_devs := (attached_devs c)\<lparr>at_devices :=
         map (\<lambda>d. if de_kind d = KindI3c then d\<lparr>de_da_state := DaUnassigned, de_ibi_state := IbiDisabled\<rparr> else d) (devices c)\<rparr>\<rparr>"

section \<open>Clock validation\<close>

definition NSEC_PER_SEC :: nat where "NSEC_PER_SEC = 1000000000"
definition I3C_MIN_CORE_CLK_SDR :: nat where "I3C_MIN_CORE_CLK_SDR = 12500000"
definition I3C_MAX_CORE_CLK :: nat where "I3C_MAX_CORE_CLK = 400000000"
definition I3C_MAX_SCL_HZ :: nat where "I3C_MAX_SCL_HZ = 12500000"
definition I3C_MAX_I2C_SCL_HZ :: nat where "I3C_MAX_I2C_SCL_HZ = 1000000"

definition div_ceil :: "nat \<Rightarrow> nat \<Rightarrow> nat" where
  "div_ceil a b = (a + b - 1) div b"

definition effective_core_hz :: "i3c_config \<Rightarrow> nat" where
  "effective_core_hz c = (case core_clk_hz c of Some hz \<Rightarrow> unat hz | None \<Rightarrow> I3C_MIN_CORE_CLK_SDR)"

definition timing_count_ok :: "nat \<Rightarrow> u32 \<Rightarrow> bool" where
  "timing_count_ok period_ns ns \<longleftrightarrow> ns = 0 \<or> (div_ceil (unat ns) period_ns \<noteq> 0 \<and> div_ceil (unat ns) period_ns \<le> 255)"

definition validate_clock :: "i3c_config \<Rightarrow> (i3c_error, unit) result" where
  "validate_clock c =
     (let scl = unat (i3c_scl_hz c); i2c = unat (i2c_scl_hz c); core = effective_core_hz c;
          period_ns = max (div_ceil NSEC_PER_SEC (max core 1)) 1
      in if scl > I3C_MAX_SCL_HZ then Inl I3cInvalidParam
         else if i2c > I3C_MAX_I2C_SCL_HZ then Inl I3cInvalidParam
         else if \<not> is_secondary c \<and> scl = 0 then Inl I3cInvalidParam
         else if (case core_clk_hz c of Some hz \<Rightarrow> unat hz < I3C_MIN_CORE_CLK_SDR \<or> unat hz > I3C_MAX_CORE_CLK | None \<Rightarrow> False)
         then Inl I3cInvalidParam
         else if scl > 0 \<and> core < min (scl * 4) (2 ^ 32 - 1) then Inl I3cInvalidParam
         else if i2c > 0 \<and> core < min (i2c * 4) (2 ^ 32 - 1) then Inl I3cInvalidParam
         else if (i3c_od_scl_hi_period_ns c = 0) \<noteq> (i3c_od_scl_lo_period_ns c = 0)
               \<or> (i3c_pp_scl_hi_period_ns c = 0) \<noteq> (i3c_pp_scl_lo_period_ns c = 0) then Inl I3cInvalidParam
         else if list_all (timing_count_ok period_ns)
                   [i3c_od_scl_hi_period_ns c, i3c_od_scl_lo_period_ns c, i3c_pp_scl_hi_period_ns c, i3c_pp_scl_lo_period_ns c]
         then Inr () else Inl I3cInvalidParam)"


section \<open>The address book is a pair of sets\<close>

definition book_ok :: "addr_book \<Rightarrow> bool" where
  "book_ok b \<longleftrightarrow> length (ab_in_use b) = 4 \<and> length (ab_reserved b) = 4"

definition in_use_set :: "addr_book \<Rightarrow> u8 set" where
  "in_use_set b = {a. a < 128 \<and> ab_bit_get (ab_in_use b) a}"

definition reserved_set :: "addr_book \<Rightarrow> u8 set" where
  "reserved_set b = {a. a < 128 \<and> ab_bit_get (ab_reserved b) a}"

lemma ab_bit_set_length [simp]: "length (ab_bit_set bits a v) = length bits"
  by (simp add: ab_bit_set_def Let_def)

lemma ab_bit_get_set:
  assumes "length bits = 4" "a < 128" "x < 128"
  shows "ab_bit_get (ab_bit_set bits a v) x = (if x = a then v else ab_bit_get bits x)"
proof -
  have lt: "unat a < 128" "unat x < 128" using assms(2,3) by (simp_all add: word_less_nat_alt)
  have eq: "x = a \<longleftrightarrow> unat x div 32 = unat a div 32 \<and> unat x mod 32 = unat a mod 32"
    by (metis div_mult_mod_eq word_unat_eq_iff)
  have "unat x div 32 mod 4 = unat x div 32" "unat a div 32 mod 4 = unat a div 32"
    using lt by (simp_all add: less_mult_imp_div_less)
  then show ?thesis
    using assms(1) lt eq
    by (auto simp: ab_bit_get_def ab_bit_set_def Let_def nth_list_update less_mult_imp_div_less bit_or_iff bit_and_iff bit_not_iff
        bit_exp_iff)
qed

lemma ab_bit_get_empty [simp]: "ab_bit_get (replicate 4 0) a = False"
  by (simp add: ab_bit_get_def Let_def)

lemma addr_book_new_sets [simp]: "book_ok addr_book_new" "in_use_set addr_book_new = {}" "reserved_set addr_book_new = {}"
  by (simp_all add: book_ok_def in_use_set_def reserved_set_def addr_book_new_def)

lemma ab_is_free_iff: "ab_is_free b a \<longleftrightarrow> a < 128 \<and> a \<notin> in_use_set b \<and> a \<notin> reserved_set b"
  and ab_is_reserved_iff: "ab_is_reserved b a \<longleftrightarrow> a \<ge> 128 \<or> a \<in> reserved_set b"
  by (auto simp: ab_is_free_def ab_is_reserved_def in_use_set_def reserved_set_def)

lemma reserve_sets:
  assumes "book_ok b" "a < 128"
  shows "book_ok (reserve a b)" "in_use_set (reserve a b) = in_use_set b" "reserved_set (reserve a b) = insert a (reserved_set b)"
  using assms by (auto simp: book_ok_def reserve_def in_use_set_def reserved_set_def ab_bit_get_set)

lemma mark_use_sets [simp]:
  assumes "book_ok b"
  shows "book_ok (mark_use a used b)" "reserved_set (mark_use a used b) = reserved_set b"
    "in_use_set (mark_use a used b) =
       (if a \<noteq> 0 \<and> a < 128 then if used then insert a (in_use_set b) else in_use_set b - {a} else in_use_set b)"
  using assms by (auto simp: book_ok_def mark_use_def in_use_set_def reserved_set_def ab_bit_get_set split: if_splits)

lemma reset_in_use_sets [simp]:
  "book_ok b \<Longrightarrow> book_ok (reset_in_use b)" "in_use_set (reset_in_use b) = {}" "reserved_set (reset_in_use b) = reserved_set b"
  by (auto simp: book_ok_def reset_in_use_def in_use_set_def reserved_set_def)

lemma reserve_all_sets:
  "book_ok b \<Longrightarrow> \<forall>a \<in> set as. a < 128 \<Longrightarrow>
     book_ok (fold reserve as b) \<and> in_use_set (fold reserve as b) = in_use_set b
   \<and> reserved_set (fold reserve as b) = set as \<union> reserved_set b"
  by (induction as arbitrary: b) (auto simp: reserve_sets)

definition default_reserved :: "u8 list" where
  "default_reserved = [0, 1, 2, 3, 4, 5, 6, 7, 0x7E, 0x7C, 0x7A, 0x76, 0x6E, 0x5E, 0x3E]"

lemma reserve_defaults_fold: "reserve_defaults b = fold reserve default_reserved b"
proof -
  have "[0..<8] = [0, 1, 2, 3, 4, 5, 6, 7 :: nat]" by (simp add: upt_rec)
  then show ?thesis by (simp add: reserve_defaults_def default_reserved_def Let_def)
qed

lemma reserve_defaults_sets:
  assumes "book_ok b"
  shows "book_ok (reserve_defaults b)" "in_use_set (reserve_defaults b) = in_use_set b"
    "reserved_set (reserve_defaults b) = set default_reserved \<union> reserved_set b"
proof -
  have "\<forall>a \<in> set default_reserved. a < 128" by (simp add: default_reserved_def)
  from reserve_all_sets [OF assms this] show "book_ok (reserve_defaults b)" "in_use_set (reserve_defaults b) = in_use_set b"
    "reserved_set (reserve_defaults b) = set default_reserved \<union> reserved_set b"
    by (simp_all add: reserve_defaults_fold)
qed

text \<open>The search returns the least free address from its start below \<open>0x7F\<close>.\<close>

lemma alloc_scan_least:
  "case alloc_scan b start of
     Some a \<Rightarrow> start \<le> a \<and> a < 0x7F \<and> ab_is_free b a \<and> (\<forall>x. start \<le> x \<and> x < a \<longrightarrow> \<not> ab_is_free b x)
   | None \<Rightarrow> \<forall>x. start \<le> x \<and> x < 0x7F \<longrightarrow> \<not> ab_is_free b x"
proof (induction b start rule: alloc_scan.induct)
  case (1 b start)
  have next_le: "start + 1 \<le> x \<longleftrightarrow> start < x" if "start < 0x7F" for x
    using that by (auto simp: word_le_nat_alt word_less_nat_alt unat_word_ariths)
  show ?case
  proof (cases "start < 0x7F \<and> \<not> ab_is_free b start")
    case True
    then have "alloc_scan b start = alloc_scan b (start + 1)" by (subst alloc_scan.simps) simp
    moreover have "x = start \<or> start < x" if "start \<le> x" for x using that by auto
    ultimately show ?thesis using 1 True next_le by (auto split: option.splits)
  next
    case False
    then show ?thesis by (subst alloc_scan.simps) (auto simp: not_less)
  qed
qed

lemma alloc_from_SomeD: "alloc_from b start = Some a \<Longrightarrow> ab_is_free b a \<and> 8 \<le> a \<and> a < 0x7F"
  using alloc_scan_least [of "max start 8" b] by (auto simp: alloc_from_def)

end
