(* ===== verification/I3c_Ibi.thy ===== *)
theory I3c_Ibi
  imports Prelude
begin

text \<open>
  The queue of in-band interrupts of the I3C driver (\<open>target/ast10x0/peripherals/i3c/ibi.rs\<close>): one ring of 16 entries per bus, filled by the
  interrupt handler and drained by the driver. A full ring drops its oldest entry and remembers that it did; the next
  dequeue reports the loss. The ring refines a list with a flag. The critical section makes every push and pop one step;
  the claim flag of the consumer is a boolean.
\<close>

section \<open>Work items and the ring\<close>

definition IBIQ_DEPTH :: nat where "IBIQ_DEPTH = 16"
definition IBI_DATA_MAX :: nat where "IBI_DATA_MAX = 16"
definition IBI_MWR_DATA_MAX :: nat where "IBI_MWR_DATA_MAX = 64"

datatype ibi_work =
    IbiOverflow
  | IbiHotJoin
  | IbiSirq (sirq_addr: u8) (sirq_len: u8) (sirq_data: "u8 list")
  | IbiTargetDaAssignment
  | IbiTargetMasterWrite (mwr_len: u8) (mwr_data: "u8 list")

record ibi_ring =
  ring_buf :: "ibi_work option list"
  ring_head :: nat
  ring_len :: nat
  ring_overflowed :: bool

definition ring_new :: ibi_ring where
  "ring_new = \<lparr>ring_buf = replicate IBIQ_DEPTH None, ring_head = 0, ring_len = 0, ring_overflowed = False\<rparr>"

definition ibi_ring_push :: "ibi_ring \<Rightarrow> ibi_work \<Rightarrow> ibi_ring \<times> bool" where
  "ibi_ring_push r work =
     (let r = r\<lparr>ring_head := ring_head r mod IBIQ_DEPTH\<rparr>;
          r = (if ring_len r \<ge> IBIQ_DEPTH
               then r\<lparr>ring_head := (ring_head r + 1) mod IBIQ_DEPTH, ring_len := IBIQ_DEPTH - 1, ring_overflowed := True\<rparr>
               else r);
          idx = (ring_head r + ring_len r) mod IBIQ_DEPTH
      in if idx < length (ring_buf r)
         then (r\<lparr>ring_buf := (ring_buf r)[idx := Some work], ring_len := ring_len r + 1\<rparr>, True)
         else (r, False))"

definition ibi_ring_pop :: "ibi_ring \<Rightarrow> ibi_ring \<times> ibi_work option" where
  "ibi_ring_pop r =
     (if ring_overflowed r then (r\<lparr>ring_overflowed := False\<rparr>, Some IbiOverflow)
      else
        let r = r\<lparr>ring_head := ring_head r mod IBIQ_DEPTH\<rparr>
        in if ring_len r = 0 \<or> ring_len r > IBIQ_DEPTH then (r, None)
           else
             let work = (if ring_head r < length (ring_buf r) then ring_buf r ! ring_head r else None);
                 r = r\<lparr>ring_buf := (ring_buf r)[ring_head r := None]\<rparr>
             in (r\<lparr>ring_head := (ring_head r + 1) mod IBIQ_DEPTH, ring_len := ring_len r - 1\<rparr>, work))"

section \<open>The queues of the buses\<close>

record ibi_plane =
  ibi_rings :: "ibi_ring list"
  ibi_claimed :: "bool list"

definition ibi_plane_new :: ibi_plane where
  "ibi_plane_new = \<lparr>ibi_rings = replicate 4 ring_new, ibi_claimed = replicate 4 False\<rparr>"

definition bus_push :: "ibi_plane \<Rightarrow> nat \<Rightarrow> ibi_work \<Rightarrow> ibi_plane \<times> bool" where
  "bus_push q bus work =
     (if bus < length (ibi_rings q)
      then case ibi_ring_push (ibi_rings q ! bus) work of
        (r, b) \<Rightarrow> (q\<lparr>ibi_rings := (ibi_rings q)[bus := r]\<rparr>, b)
      else (q, False))"

definition bus_pop :: "ibi_plane \<Rightarrow> nat \<Rightarrow> ibi_plane \<times> ibi_work option" where
  "bus_pop q bus =
     (if bus < length (ibi_rings q)
      then case ibi_ring_pop (ibi_rings q ! bus) of
        (r, w) \<Rightarrow> (q\<lparr>ibi_rings := (ibi_rings q)[bus := r]\<rparr>, w)
      else (q, None))"

text \<open>The loop \<open>while ring_pop(bus).is_some() {}\<close>; that it ends is proved below.\<close>

partial_function (option) workq_clear :: "nat \<Rightarrow> ibi_plane \<Rightarrow> ibi_plane option" where
  "workq_clear bus q = (case bus_pop q bus of (q', None) \<Rightarrow> Some q' | (q', Some _) \<Rightarrow> workq_clear bus q')"

definition workq_consumer :: "ibi_plane \<Rightarrow> nat \<Rightarrow> ibi_plane \<times> nat option" where
  "workq_consumer q bus =
     (if bus < length (ibi_claimed q) \<and> \<not> ibi_claimed q ! bus
      then (q\<lparr>ibi_claimed := (ibi_claimed q)[bus := True]\<rparr>, Some bus) else (q, None))"

definition consumer_drop :: "ibi_plane \<Rightarrow> nat \<Rightarrow> ibi_plane" where
  "consumer_drop q bus = q\<lparr>ibi_claimed := (ibi_claimed q)[bus := False]\<rparr>"

definition consumer_dequeue :: "ibi_plane \<Rightarrow> nat \<Rightarrow> ibi_plane \<times> ibi_work option" where
  "consumer_dequeue q bus = bus_pop q bus"

definition enqueue_target_da_assignment :: "ibi_plane \<Rightarrow> nat \<Rightarrow> ibi_plane \<times> bool" where
  "enqueue_target_da_assignment q bus = bus_push q bus IbiTargetDaAssignment"

definition enqueue_hotjoin :: "ibi_plane \<Rightarrow> nat \<Rightarrow> ibi_plane \<times> bool" where
  "enqueue_hotjoin q bus = bus_push q bus IbiHotJoin"

definition padded :: "nat \<Rightarrow> u8 list \<Rightarrow> u8 list" where
  "padded n data = take n data @ replicate (n - length data) 0"

definition enqueue_target_irq :: "ibi_plane \<Rightarrow> nat \<Rightarrow> u8 \<Rightarrow> u8 list \<Rightarrow> ibi_plane \<times> bool" where
  "enqueue_target_irq q bus addr data =
     bus_push q bus (IbiSirq addr (of_nat (min IBI_DATA_MAX (length data))) (padded IBI_DATA_MAX data))"

definition enqueue_target_master_write :: "ibi_plane \<Rightarrow> nat \<Rightarrow> u8 list \<Rightarrow> ibi_plane \<times> bool" where
  "enqueue_target_master_write q bus data =
     bus_push q bus (IbiTargetMasterWrite (of_nat (min IBI_MWR_DATA_MAX (length data))) (padded IBI_MWR_DATA_MAX data))"

section \<open>The abstract queue\<close>

text \<open>
  What the ring promises: the last 16 items in order, and a flag that says whether an item was lost since the loss was last reported.
\<close>

type_synonym ibi_queue = "ibi_work list \<times> bool"

definition queue_push :: "ibi_queue \<Rightarrow> ibi_work \<Rightarrow> ibi_queue" where
  "queue_push q w = (if length (fst q) \<ge> 16 then (tl (fst q) @ [w], True) else (fst q @ [w], snd q))"

definition queue_pop :: "ibi_queue \<Rightarrow> ibi_queue \<times> ibi_work option" where
  "queue_pop q =
     (if snd q then ((fst q, False), Some IbiOverflow)
      else case fst q of [] \<Rightarrow> (q, None) | w # ws \<Rightarrow> ((ws, False), Some w))"

definition ring_ok :: "ibi_ring \<Rightarrow> bool" where
  "ring_ok r \<longleftrightarrow> length (ring_buf r) = 16 \<and> ring_head r < 16 \<and> ring_len r \<le> 16
     \<and> (\<forall>i < ring_len r. ring_buf r ! ((ring_head r + i) mod 16) \<noteq> None)"

definition ring_items :: "ibi_ring \<Rightarrow> ibi_work list" where
  "ring_items r = map (\<lambda>i. the (ring_buf r ! ((ring_head r + i) mod 16))) [0..<ring_len r]"

definition ring_abs :: "ibi_ring \<Rightarrow> ibi_queue" where
  "ring_abs r = (ring_items r, ring_overflowed r)"

lemma ring_new_ok: "ring_ok ring_new" "ring_abs ring_new = ([], False)"
  by (simp_all add: ring_new_def ring_ok_def ring_abs_def ring_items_def IBIQ_DEPTH_def)

lemma mod_16_neq:
  assumes "(i :: nat) < j" "j < 16"
  shows "(h + i) mod 16 \<noteq> (h + j) mod 16"
proof
  assume "(h + i) mod 16 = (h + j) mod 16"
  then have "16 dvd (h + j) - (h + i)" using assms by (metis mod_eq_dvd_iff_nat add_le_cancel_left less_imp_le_nat)
  then show False using assms by (auto dest: dvd_imp_le)
qed

lemma mod_16_inj: "(i :: nat) < 16 \<Longrightarrow> j < 16 \<Longrightarrow> (h + i) mod 16 = (h + j) mod 16 \<longleftrightarrow> i = j"
  using mod_16_neq [of i j h] mod_16_neq [of j i h] by (cases i j rule: linorder_cases) auto

lemma ring_items_Cons:
  assumes "0 < ring_len r"
  shows "ring_items r = the (ring_buf r ! (ring_head r mod 16)) # map (\<lambda>i. the (ring_buf r ! ((ring_head r + 1 + i) mod 16))) [0..<ring_len r - 1]"
proof -
  have "[0..<ring_len r] = 0 # map Suc [0..<ring_len r - 1]"
    using assms by (cases "ring_len r") (simp_all add: upt_conv_Cons map_Suc_upt del: upt_Suc)
  then show ?thesis by (simp add: ring_items_def)
qed

text \<open>Storing an item behind the last one.\<close>

lemma ring_store:
  assumes "length buf = 16" "h < 16" "n < 16" "\<forall>i < n. buf ! ((h + i) mod 16) \<noteq> None"
  shows "ring_ok \<lparr>ring_buf = buf[(h + n) mod 16 := Some w], ring_head = h, ring_len = Suc n, ring_overflowed = f\<rparr>"
    "ring_items \<lparr>ring_buf = buf[(h + n) mod 16 := Some w], ring_head = h, ring_len = Suc n, ring_overflowed = f\<rparr> =
       map (\<lambda>i. the (buf ! ((h + i) mod 16))) [0..<n] @ [w]"
proof -
  have *: "buf[(h + n) mod 16 := Some w] ! ((h + i) mod 16) = (if i = n then Some w else buf ! ((h + i) mod 16))" if "i \<le> n" for i
    using that assms mod_16_inj [of i n h] by (auto simp: nth_list_update)
  show "ring_ok \<lparr>ring_buf = buf[(h + n) mod 16 := Some w], ring_head = h, ring_len = Suc n, ring_overflowed = f\<rparr>"
    using assms * by (auto simp: ring_ok_def less_Suc_eq_le)
  show "ring_items \<lparr>ring_buf = buf[(h + n) mod 16 := Some w], ring_head = h, ring_len = Suc n, ring_overflowed = f\<rparr> =
       map (\<lambda>i. the (buf ! ((h + i) mod 16))) [0..<n] @ [w]"
    using * by (simp add: ring_items_def)
qed

lemma ring_push_refines:
  assumes "ring_ok r" "ibi_ring_push r w = (r', b)"
  shows "b \<and> ring_ok r' \<and> ring_abs r' = queue_push (ring_abs r) w"
proof (cases "ring_len r = 16")
  case True
  have ok: "length (ring_buf r) = 16" "ring_head r < 16" "\<forall>i < 16. ring_buf r ! ((ring_head r + i) mod 16) \<noteq> None"
    using assms(1) True by (simp_all add: ring_ok_def)
  let ?h = "(ring_head r + 1) mod 16"
  have shift: "(?h + i) mod 16 = (ring_head r + (i + 1)) mod 16" for i by (simp add: mod_simps ac_simps)
  have "ring_buf r ! ((ring_head r + (i + 1)) mod 16) \<noteq> None" if "i < 15" for i using ok(3) [rule_format, of "i + 1"] that by simp
  then have "\<forall>i < 15. ring_buf r ! ((?h + i) mod 16) \<noteq> None" unfolding shift by blast
  note st = ring_store [OF ok(1) _ _ this, of w True]
  have "r' = \<lparr>ring_buf = (ring_buf r)[(?h + 15) mod 16 := Some w], ring_head = ?h, ring_len = Suc 15, ring_overflowed = True\<rparr>" and b
    using assms(2) True ok by (auto simp: ibi_ring_push_def IBIQ_DEPTH_def Let_def)
  moreover have "tl (ring_items r) = map (\<lambda>i. the (ring_buf r ! ((?h + i) mod 16))) [0..<15]"
    unfolding shift using True by (simp add: ring_items_Cons ac_simps)
  moreover have "length (ring_items r) = 16" using True by (simp add: ring_items_def)
  ultimately show ?thesis using st by (simp add: ring_abs_def queue_push_def)
next
  case False
  with assms(1) have ok: "length (ring_buf r) = 16" "ring_head r < 16" "ring_len r < 16"
      "\<forall>i < ring_len r. ring_buf r ! ((ring_head r + i) mod 16) \<noteq> None"
    by (auto simp: ring_ok_def)
  note st = ring_store [OF ok, of w "ring_overflowed r"]
  have "r' = \<lparr>ring_buf = (ring_buf r)[(ring_head r + ring_len r) mod 16 := Some w], ring_head = ring_head r,
      ring_len = Suc (ring_len r), ring_overflowed = ring_overflowed r\<rparr>" and b
    using assms(2) ok by (auto simp: ibi_ring_push_def IBIQ_DEPTH_def Let_def)
  then show ?thesis using st ok by (simp add: ring_abs_def queue_push_def ring_items_def)
qed

lemma ring_pop_refines:
  assumes "ring_ok r" "ibi_ring_pop r = (r', w)"
  shows "ring_ok r' \<and> (ring_abs r', w) = queue_pop (ring_abs r)"
proof -
  have ok: "length (ring_buf r) = 16" "ring_head r < 16" "ring_len r \<le> 16"
      "\<forall>i < ring_len r. ring_buf r ! ((ring_head r + i) mod 16) \<noteq> None"
    using assms(1) by (simp_all add: ring_ok_def)
  consider (lost) "ring_overflowed r" | (empty) "\<not> ring_overflowed r" "ring_len r = 0" | (item) "\<not> ring_overflowed r" "0 < ring_len r"
    by blast
  then show ?thesis
  proof cases
    case lost
    then show ?thesis using assms by (auto simp: ibi_ring_pop_def ring_ok_def ring_abs_def ring_items_def queue_pop_def)
  next
    case empty
    then show ?thesis using assms ok by (auto simp: ibi_ring_pop_def ring_ok_def ring_abs_def ring_items_def queue_pop_def Let_def IBIQ_DEPTH_def)
  next
    case item
    let ?h = "(ring_head r + 1) mod 16" and ?buf = "(ring_buf r)[ring_head r := None]"
    have shift: "(?h + i) mod 16 = (ring_head r + (i + 1)) mod 16" for i by (simp add: mod_simps ac_simps)
    have keep: "?buf ! ((?h + i) mod 16) = ring_buf r ! ((ring_head r + (i + 1)) mod 16)" if "i < ring_len r - 1" for i
      unfolding shift using mod_16_inj [of 0 "i + 1" "ring_head r"] that ok by (simp add: nth_list_update)
    have r': "r' = \<lparr>ring_buf = ?buf, ring_head = ?h, ring_len = ring_len r - 1, ring_overflowed = False\<rparr>"
      "w = ring_buf r ! ring_head r"
      using assms(2) item ok by (auto simp: ibi_ring_pop_def IBIQ_DEPTH_def Let_def)
    have w: "w = Some (the (ring_buf r ! (ring_head r mod 16)))" using ok(2,4) item r'(2) by force
    have "ring_buf r ! ((ring_head r + (i + 1)) mod 16) \<noteq> None" if "i < ring_len r - 1" for i
      using ok(4) [rule_format, of "i + 1"] that by simp
    then have "ring_ok r'" using keep ok item by (simp add: r' ring_ok_def)
    moreover have "ring_items r' = map (\<lambda>i. the (ring_buf r ! ((ring_head r + 1 + i) mod 16))) [0..<ring_len r - 1]"
      using keep by (auto simp: r' ring_items_def ac_simps)
    ultimately show ?thesis using item w by (simp add: ring_abs_def queue_pop_def ring_items_Cons r')
  qed
qed

section \<open>Traces\<close>

datatype ibi_op = IbiPush nat ibi_work | IbiPop nat

fun plane_run :: "ibi_plane \<Rightarrow> ibi_op list \<Rightarrow> ibi_plane \<times> ibi_work option list" where
  "plane_run q [] = (q, [])"
| "plane_run q (IbiPush bus w # ops) = plane_run (fst (bus_push q bus w)) ops"
| "plane_run q (IbiPop bus # ops) =
     (case bus_pop q bus of (q', w) \<Rightarrow> case plane_run q' ops of (q'', ws) \<Rightarrow> (q'', w # ws))"

fun queues_run :: "ibi_queue list \<Rightarrow> ibi_op list \<Rightarrow> ibi_queue list \<times> ibi_work option list" where
  "queues_run q [] = (q, [])"
| "queues_run q (IbiPush bus w # ops) =
     queues_run (if bus < length q then q[bus := queue_push (q ! bus) w] else q) ops"
| "queues_run q (IbiPop bus # ops) =
     (case (if bus < length q then case queue_pop (q ! bus) of (r, w) \<Rightarrow> (q[bus := r], w) else (q, None)) of
        (q', w) \<Rightarrow> case queues_run q' ops of (q'', ws) \<Rightarrow> (q'', w # ws))"

definition plane_ok :: "ibi_plane \<Rightarrow> bool" where
  "plane_ok q \<longleftrightarrow> (\<forall>r \<in> set (ibi_rings q). ring_ok r)"

abbreviation plane_abs :: "ibi_plane \<Rightarrow> ibi_queue list" where
  "plane_abs q \<equiv> map ring_abs (ibi_rings q)"

lemma plane_ok_update: "plane_ok q \<Longrightarrow> ring_ok r \<Longrightarrow> plane_ok (q\<lparr>ibi_rings := (ibi_rings q)[bus := r]\<rparr>)"
  by (auto simp: plane_ok_def dest: set_update_subset_insert [THEN subsetD])

lemma bus_push_refines:
  assumes "plane_ok q" "bus_push q bus w = (q', b)"
  shows "plane_ok q' \<and> (b \<longleftrightarrow> bus < length (ibi_rings q))
    \<and> plane_abs q' = (if bus < length (plane_abs q) then (plane_abs q)[bus := queue_push (plane_abs q ! bus) w] else plane_abs q)"
proof (cases "bus < length (ibi_rings q)")
  case True
  obtain r c where r: "ibi_ring_push (ibi_rings q ! bus) w = (r, c)" by (cases "ibi_ring_push (ibi_rings q ! bus) w")
  have "ring_ok (ibi_rings q ! bus)" using assms(1) True by (simp add: plane_ok_def)
  from ring_push_refines [OF this r] True r assms plane_ok_update [OF assms(1), of r bus] show ?thesis
    by (auto simp: bus_push_def map_update)
qed (use assms in \<open>simp add: bus_push_def\<close>)

lemma bus_pop_refines:
  assumes "plane_ok q" "bus_pop q bus = (q', w)"
  shows "plane_ok q' \<and> (plane_abs q', w) =
    (if bus < length (plane_abs q) then case queue_pop (plane_abs q ! bus) of (r, w) \<Rightarrow> ((plane_abs q)[bus := r], w)
     else (plane_abs q, None))"
proof (cases "bus < length (ibi_rings q)")
  case True
  obtain r c where r: "ibi_ring_pop (ibi_rings q ! bus) = (r, c)" by (cases "ibi_ring_pop (ibi_rings q ! bus)")
  have "ring_ok (ibi_rings q ! bus)" using assms(1) True by (simp add: plane_ok_def)
  from ring_pop_refines [OF this r] True r assms plane_ok_update [OF assms(1), of r bus] show ?thesis
    by (auto simp: bus_pop_def map_update split: prod.splits)
qed (use assms in \<open>simp add: bus_pop_def\<close>)

lemma plane_run_refines:
  assumes "plane_ok q" "plane_run q ops = (q', ws)"
  shows "plane_ok q' \<and> (plane_abs q', ws) = queues_run (plane_abs q) ops"
  using assms
proof (induction ops arbitrary: q ws)
  case (Cons op ops)
  show ?case
  proof (cases op)
    case (IbiPush bus w)
    obtain q1 b where q1: "bus_push q bus w = (q1, b)" by (cases "bus_push q bus w")
    note bus_push_refines [OF Cons.prems(1) q1]
    with Cons.IH [of q1 ws] Cons.prems(2) IbiPush q1 show ?thesis by simp
  next
    case (IbiPop bus)
    obtain q1 w where q1: "bus_pop q bus = (q1, w)" by (cases "bus_pop q bus")
    obtain ws' where ws: "ws = w # ws'" "plane_run q1 ops = (q', ws')"
      using Cons.prems(2) IbiPop q1 by (auto split: prod.splits)
    have step: "plane_ok q1" "(plane_abs q1, w) = (if bus < length (plane_abs q)
        then case queue_pop (plane_abs q ! bus) of (r, w) \<Rightarrow> ((plane_abs q)[bus := r], w) else (plane_abs q, None))"
      using bus_pop_refines [OF Cons.prems(1) q1] by blast+
    from Cons.IH [OF step(1) ws(2)] have "plane_ok q'" "(plane_abs q', ws') = queues_run (plane_abs q1) ops" by blast+
    moreover have "queues_run (plane_abs q) (IbiPop bus # ops) =
        (case (plane_abs q1, w) of (q', w) \<Rightarrow> case queues_run q' ops of (q'', ws) \<Rightarrow> (q'', w # ws))"
      by (simp only: queues_run.simps step(2))
    ultimately show ?thesis using IbiPop ws(1) by (metis case_prod_conv)
  qed
qed simp

lemma workq_clear_empties:
  "plane_ok q \<Longrightarrow> \<exists>q'. workq_clear bus q = Some q' \<and> plane_abs q' = (plane_abs q)[bus := ([], False)]"
proof (induction "if bus < length (plane_abs q) then 2 * length (fst (plane_abs q ! bus)) + of_bool (snd (plane_abs q ! bus)) else 0"
    arbitrary: q rule: less_induct)
  case less
  obtain q1 w where q1: "bus_pop q bus = (q1, w)" by (cases "bus_pop q bus")
  have r: "plane_ok q1" "(plane_abs q1, w) = (if bus < length (plane_abs q)
        then case queue_pop (plane_abs q ! bus) of (r, w) \<Rightarrow> ((plane_abs q)[bus := r], w) else (plane_abs q, None))"
    using bus_pop_refines [OF less.prems q1] by blast+
  show ?case
  proof (cases "bus < length (plane_abs q)")
    case False
    with r q1 show ?thesis by (subst workq_clear.simps) (simp add: list_update_beyond)
  next
    case True
    obtain ws f where qb: "plane_abs q ! bus = (ws, f)" by (cases "plane_abs q ! bus")
    show ?thesis
    proof (cases "f \<or> ws \<noteq> []")
      case more: True
      then have abs1: "plane_abs q1 = (plane_abs q)[bus := (if f then ws else tl ws, False)]" "w \<noteq> None"
        using r(2) qb True by (cases ws; auto simp: queue_pop_def split: if_splits)+
      have "\<exists>q'. workq_clear bus q1 = Some q' \<and> plane_abs q' = (plane_abs q1)[bus := ([], False)]"
        by (rule less.hyps [OF _ r(1)]) (use True more qb in \<open>cases ws; auto simp: abs1(1) simp del: length_map nth_map\<close>)
      with abs1 q1 show ?thesis by (subst workq_clear.simps) auto
    next
      case False
      then have "plane_abs q1 = (plane_abs q)[bus := ([], False)]" "w = None"
        using r(2) qb True by (auto simp: queue_pop_def)
      with q1 show ?thesis by (subst workq_clear.simps) simp
    qed
  qed
qed

text \<open>
  The interrupt queues refine lists. From the initial state, any interleaving of pushes by the interrupt handler and pops by
  the driver on any buses behaves as four independent lists of at most 16 items: pops return the items in the order of their
  pushes; a push onto a full queue drops the oldest item, and the next pop of that bus reports the loss once, before any
  item; a bus that does not exist has no effect. Clearing a queue afterwards ends and leaves it empty.
\<close>

theorem ibi_queues_refine_lists:
  "case plane_run ibi_plane_new ops of (q, ws) \<Rightarrow>
     (plane_abs q, ws) = queues_run (replicate 4 ([], False)) ops
   \<and> (\<exists>q'. workq_clear bus q = Some q' \<and> plane_abs q' = (plane_abs q)[bus := ([], False)])"
proof -
  obtain q ws where q: "plane_run ibi_plane_new ops = (q, ws)" by (cases "plane_run ibi_plane_new ops")
  have "plane_ok ibi_plane_new" "plane_abs ibi_plane_new = replicate 4 ([], False)"
    by (simp_all add: plane_ok_def ibi_plane_new_def ring_new_ok)
  with plane_run_refines [OF _ q] workq_clear_empties [of q bus] q show ?thesis by simp
qed

end
