(* ===== verification/Reg_Monad.thy ===== *)
theory Reg_Monad
  imports Prelude
begin

text \<open>
  Sequencing for register-level drivers. An operation takes the state of the device and returns
  the new state with a result; an error ends the operation, as \<open>?\<close> and an early \<open>return Err\<close> do.
  Two operations on different devices simulate each other if they keep a view of
  the first device's state equal to the state of the second and return the same results. The
  drivers are built from the combinators below, so that a driver run on a device that behaves
  like an abstract register block simulates the same driver run on the block itself.
\<close>

section \<open>Operations\<close>

type_synonym ('h, 'e, 'a) reg_op = "'h \<Rightarrow> 'h \<times> ('e, 'a) result"

definition ret :: "'a \<Rightarrow> ('h, 'e, 'a) reg_op" where
  "ret x h = (h, Inr x)"

definition fail :: "'e \<Rightarrow> ('h, 'e, 'a) reg_op" where
  "fail e h = (h, Inl e)"

definition ebind :: "('h, 'e, 'a) reg_op \<Rightarrow> ('a \<Rightarrow> ('h, 'e, 'b) reg_op) \<Rightarrow> ('h, 'e, 'b) reg_op" where
  "ebind m f h = (case m h of (h', Inl e) \<Rightarrow> (h', Inl e) | (h', Inr x) \<Rightarrow> f x h')"

definition eseq :: "('h, 'e, 'a) reg_op \<Rightarrow> ('h, 'e, 'b) reg_op \<Rightarrow> ('h, 'e, 'b) reg_op" where
  "eseq m n = ebind m (\<lambda>_. n)"

definition act :: "('h \<Rightarrow> 'h) \<Rightarrow> ('h, 'e, unit) reg_op" where
  "act f h = (f h, Inr ())"

definition get :: "('h \<Rightarrow> 'h \<times> 'a) \<Rightarrow> ('h, 'e, 'a) reg_op" where
  "get r h = (let (h', x) = r h in (h', Inr x))"

definition ensure :: "bool \<Rightarrow> 'e \<Rightarrow> ('h, 'e, unit) reg_op" where
  "ensure c e = (if c then ret () else fail e)"

fun for_each :: "('a \<Rightarrow> ('h, 'e, unit) reg_op) \<Rightarrow> 'a list \<Rightarrow> ('h, 'e, unit) reg_op" where
  "for_each f [] = ret ()"
| "for_each f (x # xs) = eseq (f x) (for_each f xs)"

text \<open>A pure result inside an operation: \<open>x?\<close>.\<close>

definition lift :: "('e, 'a) result \<Rightarrow> ('h, 'e, 'a) reg_op" where
  "lift r h = (h, r)"

text \<open>The conversion of the error that \<open>?\<close> inserts.\<close>

definition map_err :: "('e \<Rightarrow> 'f) \<Rightarrow> ('h, 'e, 'a) reg_op \<Rightarrow> ('h, 'f, 'a) reg_op" where
  "map_err f m h = (case m h of (h', Inl e) \<Rightarrow> (h', Inl (f e)) | (h', Inr x) \<Rightarrow> (h', Inr x))"

text \<open>
  An operation on a driver with fields of its own (\<open>&mut self\<close>) runs on the pair of the fields and the device;
  \<open>hw\<close> runs an operation on the device, \<open>self\<close> reads the fields and \<open>upd\<close> changes them.
\<close>

definition hw :: "('h, 'e, 'a) reg_op \<Rightarrow> ('s \<times> 'h, 'e, 'a) reg_op" where
  "hw m = (\<lambda>(s, h). case m h of (h', r) \<Rightarrow> ((s, h'), r))"

definition self :: "('s \<times> 'h, 'e, 's) reg_op" where
  "self sh = (sh, Inr (fst sh))"

definition upd :: "('s \<Rightarrow> 's) \<Rightarrow> ('s \<times> 'h, 'e, unit) reg_op" where
  "upd f sh = ((f (fst sh), snd sh), Inr ())"

text \<open>A loop that polls until a condition holds, at most \<open>n\<close> times.\<close>

fun spin_until :: "nat \<Rightarrow> ('h, 'e, bool) reg_op \<Rightarrow> 'e \<Rightarrow> ('h, 'e, unit) reg_op" where
  "spin_until 0 c e = fail e"
| "spin_until (Suc n) c e = ebind c (\<lambda>b. if b then ret () else spin_until n c e)"

lemma hw_run: "m h = (h', r) \<Longrightarrow> hw m (s, h) = ((s, h'), r)"
  and self_run [simp]: "self (s, h) = ((s, h), Inr s)"
  and upd_run [simp]: "upd f (s, h) = ((f s, h), Inr ())"
  by (simp_all add: hw_def self_def upd_def)

lemmas reg_op_defs = ret_def fail_def ebind_def eseq_def act_def get_def ensure_def lift_def

text \<open>Running the combinators.\<close>

lemma ret_run [simp]: "ret x h = (h, Inr x)" and fail_run [simp]: "fail e h = (h, Inl e)"
  and act_run [simp]: "act f h = (f h, Inr ())" and lift_run [simp]: "lift r h = (h, r)"
  and ensure_run: "ensure c e h = (h, if c then Inr () else Inl e)"
  by (simp_all add: reg_op_defs)

lemma ensure_True [simp]: "ensure True e = ret ()" and ensure_False [simp]: "ensure False e = fail e"
  by (simp_all add: ensure_def)

lemma ebind_ret [simp]: "ebind (ret x) f = f x" and ebind_fail [simp]: "ebind (fail e) f = fail e"
  and eseq_ret [simp]: "eseq (ret y) n = n" and eseq_fail [simp]: "eseq (fail e) n = fail e"
  by (simp_all add: reg_op_defs fun_eq_iff)

lemma lift_simps:
  "ebind (lift (Inr x)) f = f x" "ebind (lift (Inl e)) f = fail e" "eseq (lift (Inr y)) n = n" "eseq (lift (Inl e)) n = fail e"
  by (simp_all add: reg_op_defs fun_eq_iff)

lemma ebind_okI: "m h = (h', Inr x) \<Longrightarrow> ebind m f h = f x h'"
  and eseq_okI: "m h = (h', Inr x) \<Longrightarrow> eseq m n h = n h'"
  and ebind_errI: "m h = (h', Inl e) \<Longrightarrow> ebind m f h = (h', Inl e)"
  and eseq_errI: "m h = (h', Inl e) \<Longrightarrow> eseq m n h = (h', Inl e)"
  by (simp_all add: reg_op_defs)

lemma map_err_run: "m h = (h', r) \<Longrightarrow> map_err f m h = (h', case r of Inl e \<Rightarrow> Inl (f e) | Inr x \<Rightarrow> Inr x)"
  by (simp add: map_err_def split: sum.split)

lemma map_err_Inr_iff: "map_err f m h = (h', Inr x) \<longleftrightarrow> m h = (h', Inr x)"
  by (auto simp: map_err_def split: prod.splits sum.splits)

lemma ebind_Inr_iff:
  "ebind m f h = (h', Inr y) \<longleftrightarrow> (\<exists>h1 x. m h = (h1, Inr x) \<and> f x h1 = (h', Inr y))"
  by (auto simp: ebind_def split: prod.splits sum.splits)

lemma eseq_Inr_iff:
  "eseq m n h = (h', Inr y) \<longleftrightarrow> (\<exists>h1 x. m h = (h1, Inr x) \<and> n h1 = (h', Inr y))"
  by (auto simp: eseq_def ebind_Inr_iff)

lemma eseq_assoc: "eseq (eseq a b) c = eseq a (eseq b c)"
  by (auto simp: reg_op_defs fun_eq_iff split: prod.splits sum.splits)

lemma for_each_append:
  "for_each f (xs @ ys) = eseq (for_each f xs) (for_each f ys)"
  by (induction xs) (auto simp: reg_op_defs fun_eq_iff split: prod.splits sum.splits)

text \<open>A loop whose body always succeeds is a fold over the states.\<close>

lemma for_each_fold:
  assumes "\<And>x h. x \<in> set xs \<Longrightarrow> f x h = (g x h, Inr ())"
  shows "for_each f xs h = (fold g xs h, Inr ())"
  using assms by (induction xs arbitrary: h) (simp_all add: eseq_okI)

lemma for_each_check:
  assumes "\<And>x. x \<in> set xs \<Longrightarrow> f x h = (h, if P x then Inr () else Inl e)"
  shows "for_each f xs h = (h, if list_all P xs then Inr () else Inl e)"
  using assms
proof (induction xs)
  case (Cons x xs)
  then have "f x h = (h, if P x then Inr () else Inl e)" "for_each f xs h = (h, if list_all P xs then Inr () else Inl e)"
    by simp_all
  then show ?case by (cases "P x") (simp_all add: eseq_okI eseq_errI)
qed simp

section \<open>Simulation\<close>

definition sim :: "('h \<Rightarrow> 's) \<Rightarrow> ('h, 'e, 'a) reg_op \<Rightarrow> ('s, 'e, 'a) reg_op \<Rightarrow> bool" where
  "sim view m m' \<longleftrightarrow> (\<forall>h. view (fst (m h)) = fst (m' (view h)) \<and> snd (m h) = snd (m' (view h)))"

named_theorems sim_intros "operations that respect the simulation"

lemma simD: "sim view m m' \<Longrightarrow> m h = (h', r) \<Longrightarrow> m' (view h) = (view h', r)"
  by (metis fst_conv prod.collapse sim_def snd_conv)

lemma simI: "(\<And>h. m' (view h) = (view (fst (m h)), snd (m h))) \<Longrightarrow> sim view m m'"
  by (simp add: sim_def)

lemma sim_run: "sim view m m' \<Longrightarrow> m' (view h) = (view (fst (m h)), snd (m h))"
  by (simp add: sim_def prod_eq_iff)

lemma sim_ret [sim_intros]: "sim view (ret x) (ret x)" and sim_fail [sim_intros]: "sim view (fail e) (fail e)"
  and sim_ensure [sim_intros]: "sim view (ensure c e) (ensure c e)"
  and sim_lift [sim_intros]: "sim view (lift r) (lift r)"
  by (simp_all add: sim_def ensure_run)

lemma sim_ebind [sim_intros]:
  assumes "sim view m m'" "\<And>x. sim view (f x) (f' x)"
  shows "sim view (ebind m f) (ebind m' f')"
proof (rule simI)
  fix h
  show "ebind m' f' (view h) = (view (fst (ebind m f h)), snd (ebind m f h))"
    using sim_run [OF assms(1), of h] sim_run [OF assms(2)]
    by (cases "m h"; cases "snd (m h)") (auto simp: ebind_def)
qed

lemma sim_eseq [sim_intros]: "sim view m m' \<Longrightarrow> sim view n n' \<Longrightarrow> sim view (eseq m n) (eseq m' n')"
  unfolding eseq_def by (rule sim_ebind)

lemma sim_if [sim_intros]:
  "(c \<Longrightarrow> sim view m m') \<Longrightarrow> (\<not> c \<Longrightarrow> sim view n n') \<Longrightarrow> sim view (if c then m else n) (if c then m' else n')"
  by simp

lemma sim_for_each [sim_intros]:
  "(\<And>x. x \<in> set xs \<Longrightarrow> sim view (f x) (f' x)) \<Longrightarrow> sim view (for_each f xs) (for_each f' xs)"
  by (induction xs) (auto intro: sim_intros)

lemma sim_option [sim_intros]:
  "(x = None \<Longrightarrow> sim view m m') \<Longrightarrow> (\<And>y. x = Some y \<Longrightarrow> sim view (f y) (f' y))
    \<Longrightarrow> sim view (case x of None \<Rightarrow> m | Some y \<Rightarrow> f y) (case x of None \<Rightarrow> m' | Some y \<Rightarrow> f' y)"
  by (cases x) auto

lemma sim_act: "(\<And>h. view (f h) = f' (view h)) \<Longrightarrow> sim view (act f) (act f')"
  by (simp add: sim_def)

lemma sim_get:
  "(\<And>h. view (fst (r h)) = fst (r' (view h)) \<and> snd (r h) = snd (r' (view h))) \<Longrightarrow> sim view (get r) (get r')"
  by (simp add: sim_def get_def case_prod_unfold Let_def)

section \<open>Runs\<close>

text \<open>
  A run of an operation in terms of a view: from every state with view \<open>c\<close> the operation returns \<open>r\<close> and leaves a
  state with view \<open>c'\<close>.
\<close>

definition runs :: "('h \<Rightarrow> 's) \<Rightarrow> ('h, 'e, 'a) reg_op \<Rightarrow> 's \<Rightarrow> 's \<Rightarrow> ('e, 'a) result \<Rightarrow> bool" where
  "runs view m c c' r \<longleftrightarrow> (\<forall>h. view h = c \<longrightarrow> (\<exists>h'. m h = (h', r) \<and> view h' = c'))"

named_theorems runs_intros "runs of the operations of a driver"

lemma runsD: "runs view m (view h) c' r \<Longrightarrow> \<exists>h'. m h = (h', r) \<and> view h' = c'"
  by (simp add: runs_def)

lemma runs_ret: "runs view (ret x) c c (Inr x)" and runs_fail: "runs view (fail e) c c (Inl e)"
  and runs_lift: "runs view (lift r) c c r"
  by (simp_all add: runs_def)

lemma runs_act: "(\<And>h. view h = c \<Longrightarrow> view (f h) = c') \<Longrightarrow> runs view (act f) c c' (Inr ())"
  by (simp add: runs_def)

lemma runs_get:
  "(\<And>h. view h = c \<Longrightarrow> view (fst (g h)) = c' \<and> snd (g h) = x) \<Longrightarrow> runs view (get g) c c' (Inr x)"
  by (auto simp: runs_def get_def case_prod_unfold Let_def)

lemma runs_ebind: "runs view m c c1 (Inr x) \<Longrightarrow> runs view (f x) c1 c2 r \<Longrightarrow> runs view (ebind m f) c c2 r"
  by (fastforce simp: runs_def ebind_def)

lemma runs_eseq: "runs view m c c1 (Inr x) \<Longrightarrow> runs view n c1 c2 r \<Longrightarrow> runs view (eseq m n) c c2 r"
  unfolding eseq_def by (rule runs_ebind)

lemma runs_ebind_err: "runs view m c c1 (Inl e) \<Longrightarrow> runs view (ebind m f) c c1 (Inl e)"
  by (fastforce simp: runs_def ebind_def)

lemma runs_eseq_err: "runs view m c c1 (Inl e) \<Longrightarrow> runs view (eseq m n) c c1 (Inl e)"
  unfolding eseq_def by (rule runs_ebind_err)

lemma runs_hw: "runs view m c c' r \<Longrightarrow> runs (map_prod id view) (hw m) (s, c) (s, c') r"
  by (fastforce simp: runs_def hw_def split: prod.split)

lemma runs_self: "runs (map_prod id view) self (s, c) (s, c) (Inr s)"
  and runs_upd: "runs (map_prod id view) (upd f) (s, c) (f s, c) (Inr ())"
  by (auto simp: runs_def)

text \<open>
  What holds of the view when an operation succeeds; an operation that keeps the view is of use where the outcome is
  not known.
\<close>

definition post :: "('h \<Rightarrow> 's) \<Rightarrow> ('h, 'e, 'a) reg_op \<Rightarrow> 's \<Rightarrow> ('a \<Rightarrow> 's \<Rightarrow> bool) \<Rightarrow> bool" where
  "post view m c Q \<longleftrightarrow> (\<forall>h h' x. view h = c \<longrightarrow> m h = (h', Inr x) \<longrightarrow> Q x (view h'))"

definition keeps :: "('h \<Rightarrow> 's) \<Rightarrow> ('h, 'e, 'a) reg_op \<Rightarrow> bool" where
  "keeps view m \<longleftrightarrow> (\<forall>h. view (fst (m h)) = view h)"

named_theorems keeps_intros "operations that keep the view"

lemma postD: "post view m (view h) Q \<Longrightarrow> m h = (h', Inr x) \<Longrightarrow> Q x (view h')"
  by (auto simp: post_def)

lemma post_pairD:
  "post (map_prod id view) m (s, view h) Q \<Longrightarrow> m (s, h) = ((s', h'), Inr x) \<Longrightarrow> Q x (s', view h')"
  using postD [of "map_prod id view" m "(s, h)" Q "(s', h')" x] by simp

lemma post_runs: "runs view m c c' (Inr x) \<Longrightarrow> Q x c' \<Longrightarrow> post view m c Q"
  by (fastforce simp: post_def runs_def)

lemma keepsD: "keeps view m \<Longrightarrow> m h = (h', r) \<Longrightarrow> view h' = view h"
  by (auto simp: keeps_def dest: spec [of _ h])

lemma post_keeps: "keeps view m \<Longrightarrow> (\<And>x. Q x c) \<Longrightarrow> post view m c Q"
  unfolding post_def by (auto dest: keepsD)

lemma post_ebind:
  "post view m c R \<Longrightarrow> (\<And>x c1. R x c1 \<Longrightarrow> post view (f x) c1 Q) \<Longrightarrow> post view (ebind m f) c Q"
  unfolding post_def ebind_Inr_iff by blast

lemma post_eseq: "post view m c R \<Longrightarrow> (\<And>x c1. R x c1 \<Longrightarrow> post view n c1 Q) \<Longrightarrow> post view (eseq m n) c Q"
  unfolding eseq_def by (rule post_ebind)

lemma post_map_err: "post view m c Q \<Longrightarrow> post view (map_err g m) c Q"
  by (simp add: post_def map_err_Inr_iff)

lemma post_lift: "(\<And>x. r = Inr x \<Longrightarrow> Q x c) \<Longrightarrow> post view (lift r) c Q"
  by (auto simp: post_def)

lemma keeps_ret [keeps_intros]: "keeps view (ret x)" and keeps_fail [keeps_intros]: "keeps view (fail e)"
  and keeps_lift [keeps_intros]: "keeps view (lift r)"
  by (simp_all add: keeps_def)

lemma keeps_get: "(\<And>h. view (fst (g h)) = view h) \<Longrightarrow> keeps view (get g)"
  by (simp add: keeps_def get_def case_prod_unfold Let_def)

lemma keeps_act: "(\<And>h. view (f h) = view h) \<Longrightarrow> keeps view (act f)"
  by (simp add: keeps_def)

lemma keeps_ebind [keeps_intros]: "keeps view m \<Longrightarrow> (\<And>x. keeps view (f x)) \<Longrightarrow> keeps view (ebind m f)"
  unfolding keeps_def ebind_def by (auto simp: case_prod_unfold split: sum.split)

lemma keeps_eseq [keeps_intros]: "keeps view m \<Longrightarrow> keeps view n \<Longrightarrow> keeps view (eseq m n)"
  unfolding eseq_def by (rule keeps_ebind)

lemma keeps_if [keeps_intros]: "(b \<Longrightarrow> keeps view m) \<Longrightarrow> (\<not> b \<Longrightarrow> keeps view n) \<Longrightarrow> keeps view (if b then m else n)"
  by simp

lemma keeps_hw [keeps_intros]: "keeps view m \<Longrightarrow> keeps (map_prod id view) (hw m)"
  by (auto simp: keeps_def hw_def case_prod_unfold)

lemma keeps_fst_hw: "keeps fst (hw m)" and keeps_fst_self: "keeps fst self"
  by (simp_all add: keeps_def hw_def self_def case_prod_unfold)

lemma keeps_spin_until [keeps_intros]: "keeps view m \<Longrightarrow> keeps view (spin_until n m e)"
  by (induction n) (auto intro!: keeps_intros)

lemma keeps_map_err [keeps_intros]: "keeps view m \<Longrightarrow> keeps view (map_err g m)"
  unfolding keeps_def map_err_def by (auto simp: case_prod_unfold split: sum.split)

lemma post_ebind_runs: "runs view m c c1 (Inr x) \<Longrightarrow> post view (f x) c1 Q \<Longrightarrow> post view (ebind m f) c Q"
  by (rule post_ebind [OF post_runs, where R = "\<lambda>y c2. y = x \<and> c2 = c1"]) auto

lemma post_eseq_runs: "runs view m c c1 (Inr x) \<Longrightarrow> post view n c1 Q \<Longrightarrow> post view (eseq m n) c Q"
  unfolding eseq_def by (rule post_ebind_runs)

lemma post_ebind_keeps: "keeps view m \<Longrightarrow> (\<And>x. post view (f x) c Q) \<Longrightarrow> post view (ebind m f) c Q"
  by (rule post_ebind [OF post_keeps, where R = "\<lambda>y c2. c2 = c"]) auto

lemma post_eseq_keeps: "keeps view m \<Longrightarrow> post view n c Q \<Longrightarrow> post view (eseq m n) c Q"
  unfolding eseq_def by (rule post_ebind_keeps)

lemma post_if: "(b \<Longrightarrow> post view m c Q) \<Longrightarrow> (\<not> b \<Longrightarrow> post view n c Q) \<Longrightarrow> post view (if b then m else n) c Q"
  by simp

lemma post_mono: "post view m c R \<Longrightarrow> (\<And>x c'. R x c' \<Longrightarrow> Q x c') \<Longrightarrow> post view m c Q"
  by (auto simp: post_def)

lemma map_err_lift [simp]: "map_err g (lift (Inr x)) = lift (Inr x)" "map_err g (lift (Inl e)) = lift (Inl (g e))"
  by (simp_all add: map_err_def fun_eq_iff)

text \<open>
  Operations that cannot fail: from every state that satisfies \<open>I\<close> the operation succeeds and keeps \<open>I\<close>.
\<close>

definition never_fails :: "('h \<Rightarrow> bool) \<Rightarrow> ('h, 'e, 'a) reg_op \<Rightarrow> bool" where
  "never_fails I m \<longleftrightarrow> (\<forall>h. I h \<longrightarrow> (\<exists>h' x. m h = (h', Inr x) \<and> I h'))"

named_theorems total_intros "operations that cannot fail"

lemma totalD: "never_fails I m \<Longrightarrow> I h \<Longrightarrow> \<exists>h' x. m h = (h', Inr x) \<and> I h'"
  by (simp add: never_fails_def)

lemma total_ret [total_intros]: "never_fails I (ret x)"
  and total_lift [total_intros]: "never_fails I (lift (Inr x))"
  by (simp_all add: never_fails_def)

lemma total_act [total_intros]: "never_fails (\<lambda>_. True) (act f)"
  and total_get [total_intros]: "never_fails (\<lambda>_. True) (get g)"
  by (auto simp: never_fails_def get_def split: prod.split)

lemma total_ebind [total_intros]: "never_fails I m \<Longrightarrow> (\<And>x. never_fails I (f x)) \<Longrightarrow> never_fails I (ebind m f)"
  unfolding never_fails_def ebind_Inr_iff by blast

lemma total_eseq [total_intros]: "never_fails I m \<Longrightarrow> never_fails I n \<Longrightarrow> never_fails I (eseq m n)"
  unfolding eseq_def by (rule total_ebind)

lemma total_if [total_intros]: "(b \<Longrightarrow> never_fails I m) \<Longrightarrow> (\<not> b \<Longrightarrow> never_fails I n) \<Longrightarrow> never_fails I (if b then m else n)"
  by simp

lemma total_map_err [total_intros]: "never_fails I m \<Longrightarrow> never_fails I (map_err g m)"
  by (simp add: never_fails_def map_err_Inr_iff)

lemma total_hw [total_intros]:
  fixes m :: "('h, 'e, 'a) reg_op" and J :: "'s \<Rightarrow> bool"
  assumes "never_fails (\<lambda>_. True) m"
  shows "never_fails (\<lambda>sh. J (fst sh)) (hw m)"
  unfolding never_fails_def
proof (intro allI impI)
  fix sh :: "'s \<times> 'h" assume "J (fst sh)"
  with assms obtain h' x where "m (snd sh) = (h', Inr x)" unfolding never_fails_def by blast
  with \<open>J (fst sh)\<close> show "\<exists>sh' x. hw m sh = (sh', Inr x) \<and> J (fst sh')"
    by (cases sh) (simp add: hw_def)
qed

lemma total_upd: "(\<And>s. J s \<Longrightarrow> J (f s)) \<Longrightarrow> never_fails (\<lambda>sh. J (fst sh)) (upd f)"
  by (simp add: never_fails_def upd_def)

lemma total_self: "(\<And>s. J s \<Longrightarrow> never_fails (\<lambda>sh. J (fst sh)) (f s)) \<Longrightarrow> never_fails (\<lambda>sh. J (fst sh)) (ebind self f)"
  by (simp add: never_fails_def ebind_def self_def)

end
