(* ===== verification/I3c_Ccc.thy ===== *)
theory I3c_Ccc
  imports I3c_Config I3c_Ibi Reg_Monad
begin

text \<open>
  The hardware interface of the I3C driver and the common command codes (\<open>i3c/ccc.rs\<close>). The driver is generic in its
  hardware (\<open>HardwareInterface\<close> of \<open>i3c/hardware.rs\<close>): a record of the operations that the driver calls, on an arbitrary state. The trait hands the operations the
  configuration by reference; of the repository's implementation only \<open>init\<close> changes it, so only \<open>init\<close> returns it. A buffer lent to an operation keeps its length: what the
  interface returns is cut or padded to it. An operation of the driver runs on the configuration and the hardware.
\<close>

unbundle bit_operations_syntax

section \<open>The hardware interface\<close>

record ccc_target_payload =
  tp_addr :: u8
  tp_rnw :: bool
  tp_data :: "u8 list option"
  tp_num_xfer :: nat

record ccc_desc =
  ccc_id :: u8
  ccc_data :: "u8 list option"
  ccc_num_xfer :: nat

record ccc_payload =
  cp_ccc :: "ccc_desc option"
  cp_targets :: "ccc_target_payload list option"

datatype i3c_i2c_op = I3cI2cWrite (i2c_bytes: "u8 list") | I3cI2cRead (i2c_bytes: "u8 list")

record i3c_msg =
  msg_buf :: "u8 list option"
  msg_actual_len :: u32
  msg_num_xfer :: u32
  msg_flags :: u8
  msg_hdr_mode :: u8
  msg_hdr_cmd_mode :: u8

datatype i3c_ibi_type = TargetIntr | ControllerRoleRequest | HotJoinIbi | WorkqueueCb

record i3c_ibi =
  ibi_type :: i3c_ibi_type
  ibi_payload :: "u8 list option"

record 'h i3c_hw =
  hwi_init :: "(i3c_config \<times> 'h, i3c_error, unit) reg_op"
  hwi_bus_num :: "'h \<Rightarrow> u8"
  hwi_set_ibi_mdb :: "u8 \<Rightarrow> 'h \<Rightarrow> 'h"
  hwi_reset_ctrl :: "u32 \<Rightarrow> ('h, i3c_error, unit) reg_op"
  hwi_ibi_enable :: "i3c_config \<Rightarrow> u8 \<Rightarrow> ('h, i3c_error, unit) reg_op"
  hwi_ibi_disable :: "i3c_config \<Rightarrow> u8 \<Rightarrow> ('h, i3c_error, unit) reg_op"
  hwi_detach_dev :: "nat \<Rightarrow> 'h \<Rightarrow> 'h"
  hwi_attach_i3c :: "nat \<Rightarrow> u8 \<Rightarrow> ('h, i3c_error, unit) reg_op"
  hwi_attach_i2c :: "nat \<Rightarrow> u8 \<Rightarrow> ('h, i3c_error, unit) reg_op"
  hwi_i2c_priv_xfer :: "i3c_config \<Rightarrow> u8 \<Rightarrow> i3c_i2c_op list \<Rightarrow> ('h, i3c_error, i3c_i2c_op list) reg_op"
  hwi_do_ccc :: "i3c_config \<Rightarrow> ccc_payload \<Rightarrow> ('h, i3c_error, ccc_payload) reg_op"
  hwi_do_entdaa :: "i3c_config \<Rightarrow> u32 \<Rightarrow> ('h, i3c_error, unit) reg_op"
  hwi_priv_xfer :: "i3c_config \<Rightarrow> u64 \<Rightarrow> i3c_msg list \<Rightarrow> ('h, i3c_error, i3c_msg list) reg_op"
  hwi_mark_xfer_faulted :: "'h \<Rightarrow> 'h"
  hwi_enter_sw_mode :: "'h \<Rightarrow> 'h"
  hwi_exit_sw_mode :: "'h \<Rightarrow> 'h"
  hwi_toggle_scl_in :: "u32 \<Rightarrow> 'h \<Rightarrow> 'h"
  hwi_gen_internal_stop :: "'h \<Rightarrow> 'h"
  hwi_target_ibi_raise_hj :: "i3c_config \<Rightarrow> ('h, i3c_error, unit) reg_op"
  hwi_target_pending_read_notify :: "i3c_config \<Rightarrow> u8 list \<Rightarrow> i3c_ibi \<Rightarrow> ('h, i3c_error, unit) reg_op"

type_synonym ('h, 'a) i3c_op = "(i3c_config \<times> 'h, i3c_error, 'a) reg_op"

text \<open>Running an operation and looking at its result: \<open>match op { Ok(..) => .., Err(..) => .. }\<close>.\<close>

definition attempt :: "('s, 'e, 'a) reg_op \<Rightarrow> ('s, 'e, ('e, 'a) result) reg_op" where
  "attempt m s = (case m s of (s', r) \<Rightarrow> (s', Inr r))"

text \<open>A hardware operation that reads the configuration.\<close>

definition hw_cfg :: "(i3c_config \<Rightarrow> ('h, i3c_error, 'a) reg_op) \<Rightarrow> ('h, 'a) i3c_op" where
  "hw_cfg m = ebind self (\<lambda>c. hw (m c))"

definition ambiguous :: "i3c_error \<Rightarrow> bool" where
  "ambiguous e \<longleftrightarrow> e \<in> {I3cTimeout, I3cRespError}"

section \<open>Command codes\<close>

definition I3C_BROADCAST_ADDR :: u8 where "I3C_BROADCAST_ADDR = 0x7E"
definition I3C_CCC_RSTDAA :: u8 where "I3C_CCC_RSTDAA = 0x06"
definition I3C_CCC_SETMWL_BC :: u8 where "I3C_CCC_SETMWL_BC = 0x09"
definition I3C_CCC_SETMRL_BC :: u8 where "I3C_CCC_SETMRL_BC = 0x0A"
definition I3C_CCC_SETNEWDA :: u8 where "I3C_CCC_SETNEWDA = 0x88"
definition I3C_CCC_SETMWL :: u8 where "I3C_CCC_SETMWL = 0x89"
definition I3C_CCC_SETMRL :: u8 where "I3C_CCC_SETMRL = 0x8A"
definition I3C_CCC_GETMWL :: u8 where "I3C_CCC_GETMWL = 0x8B"
definition I3C_CCC_GETMRL :: u8 where "I3C_CCC_GETMRL = 0x8C"
definition I3C_CCC_GETPID :: u8 where "I3C_CCC_GETPID = 0x8D"
definition I3C_CCC_GETBCR :: u8 where "I3C_CCC_GETBCR = 0x8E"
definition I3C_CCC_GETDCR :: u8 where "I3C_CCC_GETDCR = 0x8F"
definition I3C_CCC_GETSTATUS :: u8 where "I3C_CCC_GETSTATUS = 0x90"
definition I3C_CCC_GETMXDS :: u8 where "I3C_CCC_GETMXDS = 0x94"
definition I3C_CCC_EVT_INTR :: u8 where "I3C_CCC_EVT_INTR = 1"
definition I3C_BCR_IBI_PAYLOAD_HAS_DATA_BYTE :: u8 where "I3C_BCR_IBI_PAYLOAD_HAS_DATA_BYTE = 4"

datatype rst_act_def_byte = NoReset | PeriphralOnly | ResetWholeTarget | DebugNetworkAdapter | VirtualTargetDetect

fun rst_act_byte :: "rst_act_def_byte \<Rightarrow> u8" where
  "rst_act_byte NoReset = 0"
| "rst_act_byte PeriphralOnly = 1"
| "rst_act_byte ResetWholeTarget = 2"
| "rst_act_byte DebugNetworkAdapter = 3"
| "rst_act_byte VirtualTargetDetect = 4"

datatype get_status_def_byte = TgtStat | Precr

fun get_status_byte :: "get_status_def_byte \<Rightarrow> u8" where
  "get_status_byte TgtStat = 0"
| "get_status_byte Precr = 0x91"

datatype get_status_format = StatusFmt1 | StatusFmt2 get_status_def_byte
datatype get_status_resp = RespFmt1 u16 | RespFmt2 get_status_def_byte u16

definition ccc_enec :: "bool \<Rightarrow> u8" where "ccc_enec broadcast = (if broadcast then 0x00 else 0x80)"
definition ccc_disec :: "bool \<Rightarrow> u8" where "ccc_disec broadcast = (if broadcast then 0x01 else 0x81)"
definition ccc_rstact :: "bool \<Rightarrow> u8" where "ccc_rstact broadcast = (if broadcast then 0x2a else 0x9a)"

definition map_ccc_err :: "i3c_error \<Rightarrow> i3c_error" where
  "map_ccc_err e = (if e \<in> {I3cTimeout, I3cRespError, I3cIoError, I3cAddressNack} then e else I3cCccError CccInvalid)"

section \<open>Sending commands\<close>

definition direct_payload :: "u8 \<Rightarrow> u8 list option \<Rightarrow> u8 \<Rightarrow> bool \<Rightarrow> u8 list \<Rightarrow> ccc_payload" where
  "direct_payload cid defbyte da rnw data =
     \<lparr>cp_ccc = Some \<lparr>ccc_id = cid, ccc_data = defbyte, ccc_num_xfer = 0\<rparr>,
      cp_targets = Some [\<lparr>tp_addr = da, tp_rnw = rnw, tp_data = Some data, tp_num_xfer = 0\<rparr>]\<rparr>"

definition broadcast_payload :: "u8 \<Rightarrow> u8 list option \<Rightarrow> ccc_payload" where
  "broadcast_payload cid data = \<lparr>cp_ccc = Some \<lparr>ccc_id = cid, ccc_data = data, ccc_num_xfer = 0\<rparr>, cp_targets = None\<rparr>"

definition send_ccc :: "'h i3c_hw \<Rightarrow> ccc_payload \<Rightarrow> ('h, ccc_payload) i3c_op" where
  "send_ccc H p = map_err map_ccc_err (hw_cfg (\<lambda>c. hwi_do_ccc H c p))"

definition target_bytes :: "nat \<Rightarrow> ccc_payload \<Rightarrow> u8 list" where
  "target_bytes n p = padded n (case cp_targets p of Some (t # _) \<Rightarrow> (case tp_data t of Some d \<Rightarrow> d | None \<Rightarrow> []) | _ \<Rightarrow> [])"

definition read_ccc :: "'h i3c_hw \<Rightarrow> u8 \<Rightarrow> u8 list option \<Rightarrow> u8 \<Rightarrow> nat \<Rightarrow> ('h, u8 list) i3c_op" where
  "read_ccc H cid defbyte da n =
     ebind (send_ccc H (direct_payload cid defbyte da True (replicate n 0))) (\<lambda>p. ret (target_bytes n p))"

definition write_ccc :: "'h i3c_hw \<Rightarrow> u8 \<Rightarrow> u8 \<Rightarrow> u8 list \<Rightarrow> ('h, unit) i3c_op" where
  "write_ccc H cid da data = eseq (send_ccc H (direct_payload cid None da False data)) (ret ())"

definition ccc_invalid_param :: i3c_error where "ccc_invalid_param = I3cCccError CccInvalidParam"

definition mark_setnewda_unknown :: "nat \<Rightarrow> u8 \<Rightarrow> i3c_config \<Rightarrow> i3c_config" where
  "mark_setnewda_unknown dev_idx new_da c =
     upd_dev dev_idx (\<lambda>d. d\<lparr>de_ibi_state := IbiUnknown\<rparr>) (mark_da_unknown dev_idx (Some new_da) c)"

definition ccc_events_all_set :: "'h i3c_hw \<Rightarrow> bool \<Rightarrow> u8 \<Rightarrow> ('h, unit) i3c_op" where
  "ccc_events_all_set H enable events =
     (if events AND I3C_CCC_EVT_INTR \<noteq> 0 then fail I3cAccess
      else eseq (send_ccc H (broadcast_payload (if enable then ccc_enec True else ccc_disec True) (Some [events]))) (ret ()))"

definition ccc_events_set :: "'h i3c_hw \<Rightarrow> u8 \<Rightarrow> bool \<Rightarrow> u8 \<Rightarrow> ('h, unit) i3c_op" where
  "ccc_events_set H da enable events =
     (if da = 0 then fail ccc_invalid_param
      else write_ccc H (if enable then ccc_enec False else ccc_disec False) da [events])"

definition ccc_rstact_all :: "'h i3c_hw \<Rightarrow> rst_act_def_byte \<Rightarrow> ('h, unit) i3c_op" where
  "ccc_rstact_all H action = eseq (send_ccc H (broadcast_payload (ccc_rstact True) (Some [rst_act_byte action]))) (ret ())"

definition ccc_getbcr :: "'h i3c_hw \<Rightarrow> u8 \<Rightarrow> ('h, u8) i3c_op" where
  "ccc_getbcr H dyn_addr =
     (if dyn_addr = 0 then fail ccc_invalid_param else ebind (read_ccc H I3C_CCC_GETBCR None dyn_addr 1) (\<lambda>buf. ret (buf ! 0)))"

definition ccc_getdcr :: "'h i3c_hw \<Rightarrow> u8 \<Rightarrow> ('h, u8) i3c_op" where
  "ccc_getdcr H dyn_addr =
     (if dyn_addr = 0 then fail ccc_invalid_param else ebind (read_ccc H I3C_CCC_GETDCR None dyn_addr 1) (\<lambda>buf. ret (buf ! 0)))"

definition ccc_setnewda_bus_only :: "'h i3c_hw \<Rightarrow> u8 \<Rightarrow> u8 \<Rightarrow> ('h, unit) i3c_op" where
  "ccc_setnewda_bus_only H curr_da new_da =
     (if curr_da = 0 \<or> new_da = 0 \<or> new_da \<ge> I3C_BROADCAST_ADDR then fail ccc_invalid_param
      else write_ccc H I3C_CCC_SETNEWDA curr_da [push_bit 1 (new_da AND 0x7F)])"

text \<open>The state of the interrupts of a device after a command that enables them.\<close>

definition ibi_after :: "ibi_state \<Rightarrow> (i3c_error, unit) result \<Rightarrow> ibi_state" where
  "ibi_after other r = (case r of Inr _ \<Rightarrow> IbiEnabled | Inl e \<Rightarrow> if ambiguous e then IbiUnknown else other)"

definition upd_by_addr :: "u8 \<Rightarrow> (device_entry \<Rightarrow> device_entry) \<Rightarrow> i3c_config \<Rightarrow> i3c_config" where
  "upd_by_addr addr f c = (case find_dev_idx_by_addr (attached_devs c) addr of Some i \<Rightarrow> upd_dev i f c | None \<Rightarrow> c)"

definition fault :: "'h i3c_hw \<Rightarrow> ('h, unit) i3c_op" where
  "fault H = hw (act (hwi_mark_xfer_faulted H))"

text \<open>The move of a device after the bus accepted it: the device table of the hardware, then the bookkeeping.\<close>

definition setnewda_commit :: "'h i3c_hw \<Rightarrow> nat \<Rightarrow> u8 \<Rightarrow> u8 \<Rightarrow> u8 \<Rightarrow> ('h, unit) i3c_op" where
  "setnewda_commit H dev_idx pos curr_da new_da =
     ebind (attempt (hw (hwi_attach_i3c H (unat pos) new_da))) (\<lambda>r.
       if r \<noteq> Inr () then eseq (upd (mark_setnewda_unknown dev_idx new_da)) (eseq (fault H) (fail (I3cCccError CccInvalid)))
       else ebind self (\<lambda>c.
         case reassign_da c curr_da new_da of
           (c', Inl _) \<Rightarrow> eseq (upd (\<lambda>_. mark_setnewda_unknown dev_idx new_da c')) (eseq (fault H) (fail (I3cCccError CccInvalid)))
         | (c', Inr _) \<Rightarrow> upd (\<lambda>_. c')))"

definition ccc_setnewda :: "'h i3c_hw \<Rightarrow> u8 \<Rightarrow> u8 \<Rightarrow> ('h, unit) i3c_op" where
  "ccc_setnewda H curr_da new_da = ebind self (\<lambda>c.
     case find_dev_idx_by_addr (attached_devs c) curr_da of
       None \<Rightarrow> fail (I3cCccError CccNotFound)
     | Some dev_idx \<Rightarrow>
         let dev = devices c ! dev_idx in
         if de_kind dev \<noteq> KindI3c \<or> de_da_state dev \<noteq> DaVerified then fail I3cAccess
         else case pos_of (attached_devs c) dev_idx of
           None \<Rightarrow> fail (I3cCccError CccNotFound)
         | Some pos \<Rightarrow>
             let ibi_was_enabled = (case List.find (\<lambda>d. de_dyn_addr d = curr_da) (devices c) of
                   Some d \<Rightarrow> de_ibi_state d = IbiEnabled | None \<Rightarrow> False) in
             if new_da \<noteq> curr_da \<and> \<not> ab_is_free (addrbook c) new_da then fail (I3cCccError CccNoFreeSlot)
             else ebind (attempt (ccc_setnewda_bus_only H curr_da new_da)) (\<lambda>r.
               case r of
                 Inl e \<Rightarrow> eseq (if ambiguous e then upd (mark_setnewda_unknown dev_idx new_da) else ret ()) (fail e)
               | Inr _ \<Rightarrow>
                   eseq (setnewda_commit H dev_idx pos curr_da new_da)
                     (if ibi_was_enabled
                      then ebind (attempt (hw_cfg (\<lambda>c. hwi_ibi_enable H c new_da))) (\<lambda>r.
                             eseq (upd (upd_by_addr new_da (\<lambda>d. d\<lparr>de_ibi_state := ibi_after IbiDisabled r\<rparr>)))
                               (map_err map_ccc_err (lift r)))
                      else ret ())))"

definition ccc_direct_write :: "'h i3c_hw \<Rightarrow> u8 \<Rightarrow> u8 \<Rightarrow> u8 list \<Rightarrow> ('h, unit) i3c_op" where
  "ccc_direct_write H cid da payload = (if da = 0 then fail ccc_invalid_param else write_ccc H cid da payload)"

definition ccc_direct_read :: "'h i3c_hw \<Rightarrow> u8 \<Rightarrow> u8 \<Rightarrow> nat \<Rightarrow> ('h, u8 list) i3c_op" where
  "ccc_direct_read H cid da n = (if da = 0 then fail ccc_invalid_param else read_ccc H cid None da n)"

definition be16_bytes :: "u16 \<Rightarrow> u8 list" where
  "be16_bytes w = [ucast (drop_bit 8 w), ucast w]"

definition be16 :: "u8 \<Rightarrow> u8 \<Rightarrow> u16" where
  "be16 hi lo = push_bit 8 (ucast hi) OR ucast lo"

definition mrl_payload :: "u16 \<Rightarrow> u8 option \<Rightarrow> u8 list" where
  "mrl_payload mrl ibi_len = be16_bytes mrl @ (case ibi_len of Some n \<Rightarrow> [n] | None \<Rightarrow> [])"

definition set_mrl :: "u16 \<Rightarrow> u8 option \<Rightarrow> device_entry \<Rightarrow> device_entry" where
  "set_mrl mrl ibi_len d = (case ibi_len of Some n \<Rightarrow> d\<lparr>de_mrl := mrl, de_max_ibi := n\<rparr> | None \<Rightarrow> d\<lparr>de_mrl := mrl\<rparr>)"

definition upd_i3c_devs :: "(device_entry \<Rightarrow> device_entry) \<Rightarrow> i3c_config \<Rightarrow> i3c_config" where
  "upd_i3c_devs f c = c\<lparr>attached_devs := (attached_devs c)\<lparr>at_devices := map (\<lambda>d. if de_kind d = KindI3c then f d else d) (devices c)\<rparr>\<rparr>"

definition ccc_setmwl :: "'h i3c_hw \<Rightarrow> u8 \<Rightarrow> u16 \<Rightarrow> ('h, unit) i3c_op" where
  "ccc_setmwl H da mwl = eseq (ccc_direct_write H I3C_CCC_SETMWL da (be16_bytes mwl)) (upd (upd_by_addr da (\<lambda>d. d\<lparr>de_mwl := mwl\<rparr>)))"

definition ccc_setmrl :: "'h i3c_hw \<Rightarrow> u8 \<Rightarrow> u16 \<Rightarrow> u8 option \<Rightarrow> ('h, unit) i3c_op" where
  "ccc_setmrl H da mrl ibi_len =
     eseq (ccc_direct_write H I3C_CCC_SETMRL da (mrl_payload mrl ibi_len)) (upd (upd_by_addr da (set_mrl mrl ibi_len)))"

definition ccc_setmwl_all :: "'h i3c_hw \<Rightarrow> u16 \<Rightarrow> ('h, unit) i3c_op" where
  "ccc_setmwl_all H mwl =
     eseq (send_ccc H (broadcast_payload I3C_CCC_SETMWL_BC (Some (be16_bytes mwl)))) (upd (upd_i3c_devs (\<lambda>d. d\<lparr>de_mwl := mwl\<rparr>)))"

definition ccc_setmrl_all :: "'h i3c_hw \<Rightarrow> u16 \<Rightarrow> u8 option \<Rightarrow> ('h, unit) i3c_op" where
  "ccc_setmrl_all H mrl ibi_len =
     eseq (send_ccc H (broadcast_payload I3C_CCC_SETMRL_BC (Some (mrl_payload mrl ibi_len)))) (upd (upd_i3c_devs (set_mrl mrl ibi_len)))"

definition ccc_getmwl :: "'h i3c_hw \<Rightarrow> u8 \<Rightarrow> ('h, u16) i3c_op" where
  "ccc_getmwl H da =
     ebind (ccc_direct_read H I3C_CCC_GETMWL da 2) (\<lambda>buf.
       let mwl = be16 (buf ! 0) (buf ! 1) in eseq (upd (upd_by_addr da (\<lambda>d. d\<lparr>de_mwl := mwl\<rparr>))) (ret mwl))"

definition ccc_getmrl :: "'h i3c_hw \<Rightarrow> u8 \<Rightarrow> ('h, u16 \<times> u8 option) i3c_op" where
  "ccc_getmrl H da = ebind self (\<lambda>c.
     let has_ibi_byte = (case find_dev_idx_by_addr (attached_devs c) da of
           Some i \<Rightarrow> de_bcr (devices c ! i) AND I3C_BCR_IBI_PAYLOAD_HAS_DATA_BYTE \<noteq> 0 | None \<Rightarrow> False)
     in ebind (ccc_direct_read H I3C_CCC_GETMRL da (if has_ibi_byte then 3 else 2)) (\<lambda>buf.
          let mrl = be16 (buf ! 0) (buf ! 1); ibi_len = (if has_ibi_byte then Some (buf ! 2) else None)
          in eseq (upd (upd_by_addr da (set_mrl mrl ibi_len))) (ret (mrl, ibi_len))))"

definition ccc_getmxds :: "'h i3c_hw \<Rightarrow> u8 \<Rightarrow> ('h, u8 \<times> u8) i3c_op" where
  "ccc_getmxds H da =
     ebind (ccc_direct_read H I3C_CCC_GETMXDS da 2) (\<lambda>buf.
       eseq (upd (upd_by_addr da (\<lambda>d. d\<lparr>de_maxwr := buf ! 0, de_maxrd := buf ! 1\<rparr>))) (ret (buf ! 0, buf ! 1)))"

definition bytes_to_pid :: "u8 list \<Rightarrow> u64" where
  "bytes_to_pid bytes = fold (\<lambda>b acc. push_bit 8 acc OR ucast b) (take 6 bytes) 0"

definition ccc_getpid :: "'h i3c_hw \<Rightarrow> u8 \<Rightarrow> ('h, u64) i3c_op" where
  "ccc_getpid H dyn_addr = ebind (read_ccc H I3C_CCC_GETPID None dyn_addr 6) (\<lambda>buf. ret (bytes_to_pid buf))"

definition ccc_getstatus :: "'h i3c_hw \<Rightarrow> u8 \<Rightarrow> get_status_format \<Rightarrow> ('h, get_status_resp) i3c_op" where
  "ccc_getstatus H da fmt =
     (let defbyte = (case fmt of StatusFmt1 \<Rightarrow> None | StatusFmt2 kind \<Rightarrow> Some [get_status_byte kind])
      in ebind (read_ccc H I3C_CCC_GETSTATUS defbyte da 2) (\<lambda>buf.
           let val = be16 (buf ! 0) (buf ! 1)
           in ret (case fmt of StatusFmt1 \<Rightarrow> RespFmt1 val | StatusFmt2 kind \<Rightarrow> RespFmt2 kind val)))"

definition ccc_getstatus_fmt1 :: "'h i3c_hw \<Rightarrow> u8 \<Rightarrow> ('h, u16) i3c_op" where
  "ccc_getstatus_fmt1 H da =
     ebind (ccc_getstatus H da StatusFmt1) (\<lambda>r. case r of RespFmt1 status \<Rightarrow> ret status | RespFmt2 _ _ \<Rightarrow> fail (I3cCccError CccInvalid))"

definition ccc_rstdaa_all :: "'h i3c_hw \<Rightarrow> ('h, unit) i3c_op" where
  "ccc_rstdaa_all H =
     ebind (attempt (send_ccc H (broadcast_payload I3C_CCC_RSTDAA None))) (\<lambda>r.
       case r of
         Inr _ \<Rightarrow> upd commit_rstdaa
       | Inl e \<Rightarrow> eseq (if ambiguous e then upd mark_rstdaa_unknown else ret ()) (fail e))"

end
