(* ===== verification/I3c_Controller.thy ===== *)
theory I3c_Controller
  imports I3c_Ccc
begin

text \<open>
  The I3C controller (\<open>i3c/controller.rs\<close>): attaching and detaching devices, transfers, bus recovery, dynamic address assignment for one
  device and for the whole bus, and the callbacks of target mode. The registry of interrupt handlers and the events the
  interrupt handler latches (\<open>i3c/hardware.rs\<close>) are arguments of the operations that use them. An operation that fills a buffer of its
  caller returns the contents when it succeeds.
\<close>

unbundle bit_operations_syntax

section \<open>Bring-up\<close>

definition MAX_DEVICES_PER_BUS :: nat where "MAX_DEVICES_PER_BUS = 8"
definition MAX_PRIV_XFER_CMDS :: nat where "MAX_PRIV_XFER_CMDS = 16"
definition MAX_XFER_DATA_LEN :: nat where "MAX_XFER_DATA_LEN = 0xffff"

text \<open>The registry holds whether the slot of a bus is claimed.\<close>

definition register_i3c_irq_handler :: "bool list \<Rightarrow> nat \<Rightarrow> bool list \<times> bool" where
  "register_i3c_irq_handler slots bus =
     (if bus < length slots \<and> \<not> slots ! bus then (slots[bus := True], True) else (slots, False))"

definition unregister_i3c_irq_handler :: "bool list \<Rightarrow> nat \<Rightarrow> bool list" where
  "unregister_i3c_irq_handler slots bus = slots[bus := False]"

definition i3c_start :: "'h i3c_hw \<Rightarrow> bool list \<Rightarrow> i3c_config \<times> 'h \<Rightarrow> bool list \<times> (i3c_config \<times> 'h) \<times> (i3c_error, unit) result" where
  "i3c_start H slots s =
     (case validate_clock (fst s) of
        Inl e \<Rightarrow> (slots, s, Inl e)
      | Inr _ \<Rightarrow>
          if (case target_config (fst s) of
                Some t \<Rightarrow> (case tc_static_addr t of
                    Some a \<Rightarrow> a \<ge> I3C_BROADCAST_ADDR \<or> ab_is_reserved (addrbook (fst s)) a | None \<Rightarrow> False)
              | None \<Rightarrow> False) then (slots, s, Inl I3cInvalidArgs)
          else
            let bus = unat (hwi_bus_num H (snd s)) in
            case register_i3c_irq_handler slots bus of
              (_, False) \<Rightarrow> (slots, s, Inl I3cBusy)
            | (slots1, True) \<Rightarrow>
                (case hwi_init H s of
                   (s1, Inl e) \<Rightarrow> (unregister_i3c_irq_handler slots1 bus, s1, Inl e)
                 | (s1, Inr _) \<Rightarrow> (slots1, s1, Inr ())))"

definition ensure_primary :: "('h, unit) i3c_op" where
  "ensure_primary = ebind self (\<lambda>c. ensure (\<not> is_secondary c) I3cAccess)"

section \<open>Devices\<close>

definition slot_ok :: "i3c_config \<Rightarrow> u8 \<Rightarrow> bool" where
  "slot_ok c slot \<longleftrightarrow> unat slot < MAX_DEVICES_PER_BUS \<and> unat slot < unat (maxdevs c)"

text \<open>The bookkeeping after the hardware accepted the device, with the roll-back of each failure.\<close>

definition hw_detach :: "'h i3c_hw \<Rightarrow> nat \<Rightarrow> ('h, unit) i3c_op" where
  "hw_detach H pos = hw (act (hwi_detach_dev H pos))"

definition upd_attached :: "(attached \<Rightarrow> attached) \<Rightarrow> ('h, unit) i3c_op" where
  "upd_attached f = upd (\<lambda>c. c\<lparr>attached_devs := f (attached_devs c)\<rparr>)"

definition commit_attach :: "'h i3c_hw \<Rightarrow> device_entry \<Rightarrow> u8 \<Rightarrow> ('h, unit) i3c_op" where
  "commit_attach H dev slot = ebind self (\<lambda>c.
     case attach (attached_devs c) dev of
       (_, Inl _) \<Rightarrow> eseq (hw_detach H (unat slot)) (fail I3cNoFreeSlot)
     | (a1, Inr idx) \<Rightarrow> eseq (upd_attached (\<lambda>_. a1))
         (if idx \<ge> 256 then eseq (upd_attached (\<lambda>a. detach a idx)) (eseq (hw_detach H (unat slot)) (fail I3cInvalidArgs))
          else case map_pos a1 slot (of_nat idx) of
              (_, False) \<Rightarrow> eseq (upd_attached (\<lambda>a. detach a idx)) (eseq (hw_detach H (unat slot)) (fail I3cNoDatPos))
            | (a2, True) \<Rightarrow> eseq (upd_attached (\<lambda>_. a2)) (upd (\<lambda>c. c\<lparr>addrbook := mark_use (de_dyn_addr dev) True (addrbook c)\<rparr>))))"

definition attach_i3c_check :: "i3c_config \<Rightarrow> u64 \<Rightarrow> u8 \<Rightarrow> u8 \<Rightarrow> (i3c_error, unit) result" where
  "attach_i3c_check c pid desired_da slot =
     (if desired_da = 0 \<or> desired_da \<ge> I3C_BROADCAST_ADDR then Inl I3cInvalidArgs
      else if pid \<ge> 2 ^ 48 then Inl I3cInvalidArgs
      else if \<not> slot_ok c slot then Inl I3cInvalidArgs
      else if by_pos_get (attached_devs c) (unat slot) \<noteq> None then Inl I3cDevAlreadyAttached
      else if ab_is_reserved (addrbook c) desired_da then Inl I3cInvalidArgs
      else if \<not> ab_is_free (addrbook c) desired_da then Inl I3cAddrInUse
      else if list_ex (\<lambda>d. de_dyn_addr d = desired_da) (devices c) then Inl I3cAddrInUse
      else if list_ex (\<lambda>d. de_pid d = Some pid) (devices c) then Inl I3cDevAlreadyAttached
      else Inr ())"

definition attach_i3c_dev :: "'h i3c_hw \<Rightarrow> u64 \<Rightarrow> u8 \<Rightarrow> u8 \<Rightarrow> ('h, unit) i3c_op" where
  "attach_i3c_dev H pid desired_da slot =
     eseq ensure_primary (ebind self (\<lambda>c.
       eseq (lift (attach_i3c_check c pid desired_da slot))
         (eseq (map_err (\<lambda>_. I3cAddrInUse) (hw (hwi_attach_i3c H (unat slot) desired_da)))
           (commit_attach H ((device_new_i3c pid desired_da)\<lparr>de_pos := Some slot\<rparr>) slot))))"

definition attach_i2c_check :: "i3c_config \<Rightarrow> u8 \<Rightarrow> u8 \<Rightarrow> (i3c_error, unit) result" where
  "attach_i2c_check c static_addr slot =
     (if static_addr = 0 \<or> static_addr \<ge> I3C_BROADCAST_ADDR then Inl I3cInvalidArgs
      else if \<not> slot_ok c slot then Inl I3cInvalidArgs
      else if by_pos_get (attached_devs c) (unat slot) \<noteq> None then Inl I3cDevAlreadyAttached
      else if i2c_scl_hz c = 0 then Inl I3cInvalidParam
      else if \<not> ab_is_free (addrbook c) static_addr
      then Inl (if ab_is_reserved (addrbook c) static_addr then I3cInvalidArgs else I3cAddrInUse)
      else if list_ex (\<lambda>d. de_dyn_addr d = static_addr) (devices c) then Inl I3cAddrInUse
      else Inr ())"

definition attach_i2c_dev :: "'h i3c_hw \<Rightarrow> u8 \<Rightarrow> u8 \<Rightarrow> ('h, unit) i3c_op" where
  "attach_i2c_dev H static_addr slot =
     eseq ensure_primary (ebind self (\<lambda>c.
       eseq (lift (attach_i2c_check c static_addr slot))
         (eseq (hw (hwi_attach_i2c H (unat slot) static_addr))
           (commit_attach H ((device_new_i2c static_addr)\<lparr>de_pos := Some slot\<rparr>) slot))))"

definition detach_i3c_dev :: "'h i3c_hw \<Rightarrow> nat \<Rightarrow> ('h, unit) i3c_op" where
  "detach_i3c_dev H pos =
     eseq ensure_primary (ebind self (\<lambda>c.
       if pos \<ge> MAX_DEVICES_PER_BUS \<or> pos \<ge> unat (maxdevs c) then ret ()
       else
         let dev = Option.bind (by_pos_get (attached_devs c) pos)
               (\<lambda>idx. if unat idx < length (devices c) then Some (devices c ! unat idx) else None)
         in if (case dev of Some d \<Rightarrow> de_da_state d = DaUnknown | None \<Rightarrow> False) then fail I3cBusy
            else eseq (case dev of
                  Some d \<Rightarrow> if de_dyn_addr d \<noteq> 0 then upd (\<lambda>c. c\<lparr>addrbook := mark_use (de_dyn_addr d) False (addrbook c)\<rparr>) else ret ()
                | None \<Rightarrow> ret ())
              (eseq (upd_attached (\<lambda>a. detach_by_pos a pos)) (hw_detach H pos))))"

definition detach_i3c_dev_by_idx :: "'h i3c_hw \<Rightarrow> nat \<Rightarrow> ('h, unit) i3c_op" where
  "detach_i3c_dev_by_idx H dev_idx =
     eseq ensure_primary (ebind self (\<lambda>c.
       if dev_idx \<ge> length (devices c) then ret ()
       else
         let dev = devices c ! dev_idx
         in if de_da_state dev = DaUnknown then fail I3cBusy
            else eseq (if de_dyn_addr dev \<noteq> 0 then upd (\<lambda>c. c\<lparr>addrbook := mark_use (de_dyn_addr dev) False (addrbook c)\<rparr>) else ret ())
              (eseq (case de_pos dev of Some pos \<Rightarrow> hw_detach H (unat pos) | None \<Rightarrow> ret ())
                (upd_attached (\<lambda>a. detach a dev_idx)))))"

section \<open>Transfers\<close>

definition i2c_xfer :: "'h i3c_hw \<Rightarrow> u8 \<Rightarrow> i3c_i2c_op list \<Rightarrow> ('h, i3c_i2c_op list) i3c_op" where
  "i2c_xfer H static_addr ops = ebind self (\<lambda>c.
     case pos_of_static_addr (attached_devs c) static_addr of
       None \<Rightarrow> fail I3cNoSuchDev
     | Some pos \<Rightarrow> hw (hwi_i2c_priv_xfer H c pos ops))"

definition read_leg :: "nat \<Rightarrow> nat \<Rightarrow> i3c_i2c_op list \<Rightarrow> u8 list" where
  "read_leg i n ops = padded n (if i < length ops then i2c_bytes (ops ! i) else [])"

definition i3c_i2c_write :: "'h i3c_hw \<Rightarrow> u8 \<Rightarrow> u8 list \<Rightarrow> ('h, unit) i3c_op" where
  "i3c_i2c_write H static_addr data = eseq ensure_primary (eseq (i2c_xfer H static_addr [I3cI2cWrite data]) (ret ()))"

definition i3c_i2c_read :: "'h i3c_hw \<Rightarrow> u8 \<Rightarrow> u8 list \<Rightarrow> ('h, u8 list) i3c_op" where
  "i3c_i2c_read H static_addr out =
     eseq ensure_primary (ebind (i2c_xfer H static_addr [I3cI2cRead out]) (\<lambda>ops. ret (read_leg 0 (length out) ops)))"

definition i3c_i2c_write_read :: "'h i3c_hw \<Rightarrow> u8 \<Rightarrow> u8 list \<Rightarrow> u8 list \<Rightarrow> ('h, u8 list) i3c_op" where
  "i3c_i2c_write_read H static_addr data out =
     eseq ensure_primary (ebind (i2c_xfer H static_addr [I3cI2cWrite data, I3cI2cRead out]) (\<lambda>ops. ret (read_leg 1 (length out) ops)))"

text \<open>The implementation of the I2C trait: the limits are checked before the hardware is used.\<close>

definition i3c_i2c_transaction :: "'h i3c_hw \<Rightarrow> u8 \<Rightarrow> i3c_i2c_op list \<Rightarrow> ('h, i3c_i2c_op list) i3c_op" where
  "i3c_i2c_transaction H address ops =
     eseq ensure_primary (ebind self (\<lambda>c.
       case pos_of_static_addr (attached_devs c) address of
         None \<Rightarrow> fail I3cNoSuchDev
       | Some pos \<Rightarrow>
           if ops = [] then ret []
           else if length ops > MAX_PRIV_XFER_CMDS then fail I3cTooManyMsgs
           else if list_ex (\<lambda>op. i2c_bytes op = [] \<or> length (i2c_bytes op) > MAX_XFER_DATA_LEN) ops then fail I3cInvalidArgs
           else hw (hwi_i2c_priv_xfer H c pos ops)))"

definition I3C_MSG_WRITE :: u8 where "I3C_MSG_WRITE = 0"
definition I3C_MSG_READ :: u8 where "I3C_MSG_READ = 1"
definition I3C_MSG_STOP :: u8 where "I3C_MSG_STOP = 2"

definition one_msg :: "u8 list \<Rightarrow> u8 \<Rightarrow> i3c_msg" where
  "one_msg buf flags =
     \<lparr>msg_buf = Some buf, msg_actual_len = of_nat (length buf), msg_num_xfer = 0, msg_flags = flags, msg_hdr_mode = 0, msg_hdr_cmd_mode = 0\<rparr>"

definition i3c_priv_read :: "'h i3c_hw \<Rightarrow> u64 \<Rightarrow> u8 list \<Rightarrow> ('h, u32 \<times> u8 list) i3c_op" where
  "i3c_priv_read H pid out =
     eseq ensure_primary (eseq (ensure (length out < 2 ^ 32) I3cInvalidArgs)
       (ebind (hw_cfg (\<lambda>c. hwi_priv_xfer H c pid [one_msg out (I3C_MSG_READ OR I3C_MSG_STOP)])) (\<lambda>msgs.
         ret (case msgs of
             m # _ \<Rightarrow> (msg_actual_len m, padded (length out) (case msg_buf m of Some buf \<Rightarrow> buf | None \<Rightarrow> []))
           | [] \<Rightarrow> (of_nat (length out), out)))))"

definition i3c_priv_write :: "'h i3c_hw \<Rightarrow> u64 \<Rightarrow> u8 list \<Rightarrow> ('h, unit) i3c_op" where
  "i3c_priv_write H pid data =
     eseq ensure_primary (eseq (ensure (length data < 2 ^ 32) I3cInvalidArgs)
       (eseq (hw_cfg (\<lambda>c. hwi_priv_xfer H c pid [one_msg data (I3C_MSG_WRITE OR I3C_MSG_STOP)])) (ret ())))"

section \<open>Recovery and interrupts\<close>

definition recover_bus :: "'h i3c_hw \<Rightarrow> u32 \<Rightarrow> ('h, unit) i3c_op" where
  "recover_bus H scl_toggles =
     eseq ensure_primary (hw (act (\<lambda>h. hwi_exit_sw_mode H (hwi_gen_internal_stop H (hwi_toggle_scl_in H scl_toggles (hwi_enter_sw_mode H h))))))"

definition recover_bus_full :: "'h i3c_hw \<Rightarrow> u32 \<Rightarrow> ('h, unit) i3c_op" where
  "recover_bus_full H reset_mask =
     eseq (recover_bus H 8) (ebind (attempt (hw (hwi_reset_ctrl H reset_mask))) (\<lambda>r.
       eseq (if r \<noteq> Inr () then fault H else ret ()) (lift r)))"

definition alloc_dynamic_address_from :: "u8 \<Rightarrow> i3c_config \<Rightarrow> u8 option" where
  "alloc_dynamic_address_from start_addr c = (if is_secondary c then None else alloc_from (addrbook c) start_addr)"

definition enable_ibi :: "'h i3c_hw \<Rightarrow> u8 \<Rightarrow> u8 \<Rightarrow> ('h, unit) i3c_op" where
  "enable_ibi H addr mdb =
     eseq ensure_primary (eseq (hw (act (hwi_set_ibi_mdb H mdb)))
       (ebind (attempt (hw_cfg (\<lambda>c. hwi_ibi_enable H c addr))) (\<lambda>r.
         eseq (upd (upd_by_addr addr (\<lambda>d. d\<lparr>de_ibi_state := ibi_after (de_ibi_state d) r\<rparr>))) (lift r))))"

definition ibi_after_disable :: "ibi_state \<Rightarrow> (i3c_error, unit) result \<Rightarrow> ibi_state" where
  "ibi_after_disable other r =
     (case r of Inr _ \<Rightarrow> IbiDisabled | Inl e \<Rightarrow> if ambiguous e \<or> e = I3cAddressNack then IbiUnknown else other)"

definition disable_ibi :: "'h i3c_hw \<Rightarrow> u8 \<Rightarrow> ('h, unit) i3c_op" where
  "disable_ibi H addr =
     eseq ensure_primary (ebind (attempt (hw_cfg (\<lambda>c. hwi_ibi_disable H c addr))) (\<lambda>r.
       eseq (upd (upd_by_addr addr (\<lambda>d. d\<lparr>de_ibi_state := ibi_after_disable (de_ibi_state d) r\<rparr>))) (lift r)))"

definition reattach_dev :: "'h i3c_hw \<Rightarrow> device_entry \<Rightarrow> ('h, unit) i3c_op" where
  "reattach_dev H dev =
     (case de_pos dev of
        None \<Rightarrow> ret ()
      | Some pos \<Rightarrow>
          ebind (attempt (hw (case de_kind dev of
              KindI3c \<Rightarrow> hwi_attach_i3c H (unat pos) (de_dyn_addr dev) | KindI2c \<Rightarrow> hwi_attach_i2c H (unat pos) (de_static_addr dev)))) (\<lambda>r.
            eseq (if r \<noteq> Inr () then fault H else ret ()) (lift r)))"

definition reinit :: "'h i3c_hw \<Rightarrow> ('h, unit) i3c_op" where
  "reinit H =
     eseq (hwi_init H)
       (eseq (upd (\<lambda>c. c\<lparr>attached_devs := (attached_devs c)\<lparr>at_devices := map (\<lambda>d. d\<lparr>de_ibi_state := IbiDisabled\<rparr>) (devices c)\<rparr>\<rparr>))
         (ebind self (\<lambda>c. for_each (reattach_dev H) (devices c))))"

section \<open>Dynamic address assignment\<close>

text \<open>BCR and DCR of the device at an address; a device without DCR does not acknowledge.\<close>

definition read_dcr :: "'h i3c_hw \<Rightarrow> u8 \<Rightarrow> ('h, u8) i3c_op" where
  "read_dcr H addr =
     ebind (attempt (ccc_getdcr H addr)) (\<lambda>r. case r of Inr dcr \<Rightarrow> ret dcr | Inl e \<Rightarrow> if e = I3cAddressNack then ret 0 else fail e)"

definition set_da_state :: "da_state \<Rightarrow> device_entry \<Rightarrow> device_entry" where
  "set_da_state s d = d\<lparr>de_da_state := s\<rparr>"

definition set_verified :: "u8 \<Rightarrow> u8 \<Rightarrow> device_entry \<Rightarrow> device_entry" where
  "set_verified bcr dcr d = d\<lparr>de_bcr := bcr, de_dcr := dcr, de_da_state := DaVerified\<rparr>"

text \<open>ENTDAA for one slot; the address counts as claimed as soon as the command may have reached a target.\<close>

definition assign_entdaa :: "'h i3c_hw \<Rightarrow> u8 \<Rightarrow> nat \<Rightarrow> ('h, unit) i3c_op" where
  "assign_entdaa H slot dev_idx =
     ebind (attempt (hw_cfg (\<lambda>c. hwi_do_entdaa H c (ucast slot)))) (\<lambda>r.
       case r of
         Inr _ \<Rightarrow> upd (mark_da_unknown dev_idx None)
       | Inl e \<Rightarrow> eseq (if ambiguous e then upd (mark_da_unknown dev_idx None) else ret ()) (fail e))"

definition assign_dynamic_address :: "'h i3c_hw \<Rightarrow> u8 \<Rightarrow> ('h, u8) i3c_op" where
  "assign_dynamic_address H static_address =
     eseq ensure_primary (ebind self (\<lambda>c.
       case pos_of_addr (attached_devs c) static_address of
         None \<Rightarrow> fail I3cAddrInUse
       | Some slot \<Rightarrow> (case find_dev_idx_by_addr (attached_devs c) static_address of
             None \<Rightarrow> fail I3cOther
           | Some dev_idx \<Rightarrow>
               eseq (if de_da_state (devices c ! dev_idx) \<noteq> DaUnassigned then ret () else assign_entdaa H slot dev_idx)
                 (ebind (ccc_getpid H static_address) (\<lambda>pid. ebind self (\<lambda>c.
                   if (case de_pid (devices c ! dev_idx) of Some op \<Rightarrow> pid \<noteq> op | None \<Rightarrow> False)
                   then eseq (upd (upd_dev dev_idx (set_da_state DaUnknown))) (fail I3cOther)
                   else ebind (ccc_getbcr H static_address) (\<lambda>bcr. ebind (read_dcr H static_address) (\<lambda>dcr.
                     eseq (upd (upd_dev dev_idx (\<lambda>d. (set_verified bcr dcr d)\<lparr>de_pid := Some pid\<rparr>)))
                       (ebind self (\<lambda>c. let dyn_addr = de_dyn_addr (devices c ! dev_idx) in
                         ebind (attempt (hw_cfg (\<lambda>c. hwi_ibi_enable H c dyn_addr))) (\<lambda>r.
                           eseq (upd (upd_dev dev_idx (\<lambda>d. d\<lparr>de_ibi_state := ibi_after (de_ibi_state d) r\<rparr>)))
                             (eseq (lift r) (ret dyn_addr))))))))))))) "

text \<open>One round of the walk over the bus: what became of the slot.\<close>

datatype daa_outcome =
    DaaNacked
  | DaaOwn
  | DaaMoved "nat option"
  | DaaParked

definition daa_own :: "'h i3c_hw \<Rightarrow> nat \<Rightarrow> u8 \<Rightarrow> ('h, daa_outcome) i3c_op" where
  "daa_own H idx addr =
     ebind (ccc_getbcr H addr) (\<lambda>bcr. ebind (read_dcr H addr) (\<lambda>dcr.
       eseq (upd (upd_dev idx (set_verified bcr dcr))) (ret DaaOwn)))"

definition own_pos :: "i3c_config \<Rightarrow> nat \<Rightarrow> nat option" where
  "own_pos c idx = map_option unat (case pos_of (attached_devs c) idx of Some p \<Rightarrow> Some p | None \<Rightarrow> dev_pos (attached_devs c) idx)"

definition daa_move :: "'h i3c_hw \<Rightarrow> nat \<Rightarrow> nat \<Rightarrow> u8 \<Rightarrow> u8 \<Rightarrow> ('h, daa_outcome) i3c_op" where
  "daa_move H prov idx addr expected =
     ebind (attempt (ccc_setnewda_bus_only H addr expected)) (\<lambda>r.
       if (case r of Inr _ \<Rightarrow> True | Inl e \<Rightarrow> ambiguous e)
       then eseq (if r = Inr () then upd (upd_dev prov (set_da_state DaUnassigned)) else ret ())
         (eseq (upd (upd_dev idx (set_da_state DaUnknown)))
           (ebind (ccc_getbcr H expected) (\<lambda>bcr. ebind (read_dcr H expected) (\<lambda>dcr.
             eseq (if r \<noteq> Inr () then upd (upd_dev prov (set_da_state DaUnassigned)) else ret ())
               (eseq (upd (upd_dev idx (set_verified bcr dcr)))
                 (ebind self (\<lambda>c. ret (DaaMoved (own_pos c idx)))))))))
       else lift (case r of Inl e \<Rightarrow> Inl e | Inr _ \<Rightarrow> Inl I3cOther))"

definition daa_park :: "'h i3c_hw \<Rightarrow> nat \<Rightarrow> u8 \<Rightarrow> ('h, daa_outcome) i3c_op" where
  "daa_park H prov addr = ebind self (\<lambda>c.
     case alloc_from (addrbook c) 8 of
       None \<Rightarrow> fail I3cAddrExhausted
     | Some park \<Rightarrow>
         eseq (upd (\<lambda>c. c\<lparr>addrbook := mark_use park True (addrbook c)\<rparr>))
           (ebind (attempt (ccc_setnewda_bus_only H addr park)) (\<lambda>r.
             case r of
               Inr _ \<Rightarrow> eseq (upd (upd_dev prov (set_da_state DaUnassigned))) (ret DaaParked)
             | Inl e \<Rightarrow> eseq (if ambiguous e then upd (mark_da_unknown prov (Some park))
                             else upd (\<lambda>c. c\<lparr>addrbook := mark_use park False (addrbook c)\<rparr>)) (fail e))))"

definition daa_identified :: "'h i3c_hw \<Rightarrow> nat \<Rightarrow> u8 \<Rightarrow> u64 \<Rightarrow> ('h, daa_outcome) i3c_op" where
  "daa_identified H prov addr pid = ebind self (\<lambda>c.
     case position (\<lambda>d. de_pid d = Some pid) (devices c) of
       None \<Rightarrow> daa_park H prov addr
     | Some idx \<Rightarrow>
         let expected = de_desired_da (devices c ! idx)
         in if expected = addr then daa_own H idx addr else daa_move H prov idx addr expected)"

definition daa_round :: "'h i3c_hw \<Rightarrow> nat \<Rightarrow> nat \<Rightarrow> u8 \<Rightarrow> ('h, daa_outcome) i3c_op" where
  "daa_round H pos prov addr =
     ebind (attempt (hw_cfg (\<lambda>c. hwi_do_entdaa H c (of_nat pos)))) (\<lambda>r.
       case r of
         Inl e \<Rightarrow> if e = I3cDaaNack then ret DaaNacked
                  else eseq (if ambiguous e then upd (mark_da_unknown prov None) else ret ()) (fail e)
       | Inr _ \<Rightarrow>
           eseq (upd (mark_da_unknown prov None))
             (ebind (attempt (ccc_getpid H addr)) (\<lambda>r.
               case r of
                 Inl e \<Rightarrow> eseq (upd (upd_dev prov (set_da_state DaUnknown))) (fail e)
               | Inr pid \<Rightarrow> daa_identified H prov addr pid)))"

definition daa_slot :: "i3c_config \<Rightarrow> nat \<Rightarrow> (nat \<times> u8) option" where
  "daa_slot c pos =
     Option.bind (by_pos_get (attached_devs c) pos) (\<lambda>idx.
       if unat idx < length (devices c) then Some (unat idx, de_desired_da (devices c ! unat idx)) else None)"

definition needs_da :: "device_entry \<Rightarrow> bool" where
  "needs_da d \<longleftrightarrow> de_kind d = KindI3c \<and> de_pid d \<noteq> None \<and> de_da_state d = DaUnassigned"

definition daa_need :: "i3c_config \<Rightarrow> u32" where
  "daa_need c =
     fold (\<lambda>d need. if needs_da d then (case de_pos d of Some pos \<Rightarrow> set_bit (unat pos) need | None \<Rightarrow> need) else need) (devices c) 0"

fun bus_daa_loop :: "'h i3c_hw \<Rightarrow> nat \<Rightarrow> u32 \<Rightarrow> nat \<Rightarrow> nat \<Rightarrow> ('h, u32 \<times> nat \<times> bool) i3c_op" where
  "bus_daa_loop H 0 need pos verified = ret (need, verified, False)"
| "bus_daa_loop H (Suc budget) need pos verified =
     (if need = 0 then ret (need, verified, False)
      else if \<not> bit need pos then bus_daa_loop H budget need ((pos + 1) mod 8) verified
      else ebind self (\<lambda>c.
        case daa_slot c pos of
          None \<Rightarrow> bus_daa_loop H budget (unset_bit pos need) ((pos + 1) mod 8) verified
        | Some (prov, addr) \<Rightarrow> ebind (daa_round H pos prov addr) (\<lambda>out.
            case out of
              DaaNacked \<Rightarrow> ret (need, verified, True)
            | DaaOwn \<Rightarrow> bus_daa_loop H budget (unset_bit pos need) ((pos + 1) mod 8) (verified + 1)
            | DaaMoved own \<Rightarrow> bus_daa_loop H budget (case own of Some q \<Rightarrow> unset_bit q need | None \<Rightarrow> need) ((pos + 1) mod 8) (verified + 1)
            | DaaParked \<Rightarrow> bus_daa_loop H budget need pos verified)))"

definition bus_daa :: "'h i3c_hw \<Rightarrow> ('h, nat) i3c_op" where
  "bus_daa H =
     eseq ensure_primary (ebind self (\<lambda>c.
       ebind (bus_daa_loop H (8 * length (at_by_pos (attached_devs c))) (daa_need c) 0 0) (\<lambda>(need, verified, normal_nack).
         if need = 0 then ret verified else if normal_nack then fail I3cDaaNack else fail I3cAddrExhausted)))"

section \<open>Interrupt and target callbacks\<close>

definition acknowledge_ibi :: "i3c_config \<Rightarrow> u8 \<Rightarrow> (i3c_error, unit) result" where
  "acknowledge_ibi c address =
     (if is_secondary c then Inl I3cAccess
      else case find_dev_idx_by_addr (attached_devs c) address of
        None \<Rightarrow> Inl I3cOther
      | Some i \<Rightarrow> if de_pid (devices c ! i) = None \<or> de_da_state (devices c ! i) \<noteq> DaVerified then Inl I3cOther else Inr ())"

definition handle_hot_join :: "('h, unit) i3c_op" where "handle_hot_join = ensure_primary"
definition set_bus_speed :: "('h, unit) i3c_op" where "set_bus_speed = ensure_primary"
definition request_mastership :: "('h, unit) i3c_op" where "request_mastership = fail I3cAccess"

record isr_events =
  ev_dyn_addr :: u32
  ev_slv_max_len :: u32
  ev_slv_max_len_valid :: bool

definition events_dyn_addr :: "isr_events \<Rightarrow> u8 option" where
  "events_dyn_addr ev = (if ev_dyn_addr ev AND 0x100 \<noteq> 0 then Some (ucast (ev_dyn_addr ev AND 0x7f)) else None)"

definition events_max_len :: "isr_events \<Rightarrow> (u16 \<times> u16) option" where
  "events_max_len ev =
     (if \<not> ev_slv_max_len_valid ev then None
      else Some (ucast (drop_bit 16 (ev_slv_max_len ev)), ucast (ev_slv_max_len ev AND 0xffff)))"

definition target_dynamic_address :: "isr_events \<Rightarrow> i3c_config \<Rightarrow> u8 option" where
  "target_dynamic_address ev c =
     Option.bind (case events_dyn_addr ev of Some a \<Rightarrow> Some a | None \<Rightarrow> Option.bind (target_config c) tc_addr)
       (\<lambda>addr. if addr \<noteq> 0 \<and> \<not> ab_is_reserved (addrbook c) addr then Some addr else None)"

definition target_max_lengths :: "isr_events \<Rightarrow> (u16 \<times> u16) option" where
  "target_max_lengths ev = events_max_len ev"

definition target_init :: "u8 \<Rightarrow> i3c_config \<Rightarrow> i3c_config" where
  "target_init own_addr c =
     (case target_config c of
        Some t \<Rightarrow> if tc_addr t = None then c\<lparr>target_config := Some (t\<lparr>tc_addr := Some own_addr\<rparr>)\<rparr> else c
      | None \<Rightarrow> c\<lparr>target_config := Some ((target_config_new 0 (Some own_addr) 0xae)\<lparr>tc_addr := Some own_addr\<rparr>)\<rparr>)"

definition target_on_address_match :: "isr_events \<Rightarrow> i3c_config \<Rightarrow> u8 \<Rightarrow> bool" where
  "target_on_address_match ev c addr \<longleftrightarrow> target_dynamic_address ev c = Some addr"

definition target_on_dynamic_address_assigned :: "isr_events \<Rightarrow> i3c_config \<Rightarrow> i3c_config" where
  "target_on_dynamic_address_assigned ev c =
     (case events_dyn_addr ev of
        None \<Rightarrow> c
      | Some da \<Rightarrow> c\<lparr>target_config := map_option (\<lambda>t. t\<lparr>tc_addr := Some da\<rparr>) (target_config c), sir_allowed_by_sw := True\<rparr>)"

definition target_raise_hot_join :: "'h i3c_hw \<Rightarrow> ('h, unit) i3c_op" where
  "target_raise_hot_join H = hw_cfg (hwi_target_ibi_raise_hj H)"

fun crc8_step :: "nat \<Rightarrow> u8 \<Rightarrow> u8" where
  "crc8_step 0 x = x"
| "crc8_step (Suc n) x = crc8_step n (if x AND 0x80 \<noteq> 0 then push_bit 1 x XOR 0x07 else push_bit 1 x)"

definition crc8_ccitt :: "u8 \<Rightarrow> u8 list \<Rightarrow> u8" where
  "crc8_ccitt crc data = fold (\<lambda>b crc. crc8_step 8 (crc XOR b)) data crc"

definition target_get_ibi_payload :: "'h i3c_hw \<Rightarrow> u8 list \<Rightarrow> ('h, nat) i3c_op" where
  "target_get_ibi_payload H buffer = ebind self (\<lambda>c.
     case Option.bind (target_config c) (\<lambda>t. map_option (\<lambda>da. (da, tc_mdb t)) (tc_addr t)) of
       None \<Rightarrow> ret 0
     | Some (da, mdb) \<Rightarrow>
         let addr_rnw = push_bit 1 da OR 1;
             crc = crc8_ccitt (crc8_ccitt 0 [addr_rnw]) [mdb];
             payload = [mdb, crc]
         in eseq (hw (hwi_target_pending_read_notify H c buffer \<lparr>ibi_type = TargetIntr, ibi_payload = Some payload\<rparr>))
              (ret (length buffer + length payload)))"

end
