(* ===== verification/I3c_Tables.thy ===== *)
theory I3c_Tables
  imports I3c_Config
begin

text \<open>
  What the tables of the I3C driver mean together: the map from positions is the inverse of the devices' positions, positions and
  addresses are not shared, every device's address is in use and not reserved, and PIDs identify the I3C devices.
\<close>

definition pos_index :: "device_entry list \<Rightarrow> u8 option list" where
  "pos_index devs = map (\<lambda>p. map_option of_nat (position (\<lambda>d. de_pos d = Some (of_nat p)) devs)) [0..<8]"

definition dev_ok :: "device_entry \<Rightarrow> bool" where
  "dev_ok d \<longleftrightarrow> (\<exists>p < 8. de_pos d = Some p) \<and> de_desired_da d = de_dyn_addr d \<and> 0 < de_dyn_addr d \<and> de_dyn_addr d < 0x7E
     \<and> (de_kind d = KindI2c \<longrightarrow> de_static_addr d = de_dyn_addr d) \<and> (de_kind d = KindI3c \<longrightarrow> (\<exists>pid < 2 ^ 48. de_pid d = Some pid))"

abbreviation i3c_pids :: "device_entry list \<Rightarrow> u64 option list" where
  "i3c_pids devs \<equiv> map de_pid (filter (\<lambda>d. de_kind d = KindI3c) devs)"

definition devs_ok :: "device_entry list \<Rightarrow> bool" where
  "devs_ok devs \<longleftrightarrow> list_all dev_ok devs \<and> distinct (map de_pos devs) \<and> distinct (map de_dyn_addr devs) \<and> distinct (i3c_pids devs)"

definition tables_ok :: "i3c_config \<Rightarrow> bool" where
  "tables_ok c \<longleftrightarrow> devs_ok (devices c) \<and> at_by_pos (attached_devs c) = pos_index (devices c) \<and> book_ok (addrbook c)
     \<and> de_dyn_addr ` set (devices c) \<subseteq> in_use_set (addrbook c) - reserved_set (addrbook c)"

lemma tables_okD:
  assumes "tables_ok c"
  shows "devs_ok (devices c)" "at_by_pos (attached_devs c) = pos_index (devices c)" "book_ok (addrbook c)"
    "\<And>d. d \<in> set (devices c) \<Longrightarrow> de_dyn_addr d \<in> in_use_set (addrbook c) \<and> de_dyn_addr d \<notin> reserved_set (addrbook c)"
  using assms by (auto simp: tables_ok_def)

lemma tables_ok_new: "tables_ok i3c_config_new"
proof -
  have "pos_index [] = replicate 8 None" by (simp add: pos_index_def map_replicate_const)
  then show ?thesis
    by (simp add: tables_ok_def i3c_config_new_def attached_new_def devs_ok_def reserve_defaults_sets)
qed

section \<open>Positions\<close>

lemma pos_index_length [simp]: "length (pos_index devs) = 8"
  by (simp add: pos_index_def)

lemma pos_index_nth: "p < 8 \<Longrightarrow> pos_index devs ! p = map_option of_nat (position (\<lambda>d. de_pos d = Some (of_nat p)) devs)"
  by (simp add: pos_index_def)

lemma pos_index_cong: "map de_pos devs = map de_pos devs' \<Longrightarrow> pos_index devs = pos_index devs'"
  using position_map_cong [of de_pos devs devs'] by (simp add: pos_index_def)

lemma devs_ok_nth: "devs_ok devs \<Longrightarrow> i < length devs \<Longrightarrow> dev_ok (devs ! i)"
  by (simp add: devs_ok_def list_all_length)

lemma devs_ok_pos:
  assumes "devs_ok devs" "i < length devs"
  obtains p where "de_pos (devs ! i) = Some p" "unat p < 8"
  using devs_ok_nth [OF assms] by (auto simp: dev_ok_def word_less_nat_alt)

lemma devs_ok_length:
  assumes "devs_ok devs"
  shows "length devs \<le> 8"
proof -
  have "de_pos d \<in> Some ` of_nat ` {..<8}" if d: "d \<in> set devs" for d
  proof -
    obtain p where "p < 8" "de_pos d = Some p" using assms d by (auto simp: devs_ok_def list_all_iff dev_ok_def)
    then show ?thesis by (auto simp: word_less_nat_alt intro!: image_eqI [where x = p] image_eqI [where x = "unat p"])
  qed
  then have "set (map de_pos devs) \<subseteq> Some ` of_nat ` {..<8}" by auto
  then have "card (set (map de_pos devs)) \<le> card (Some ` of_nat ` {..<8} :: u8 option set)" by (intro card_mono) auto
  also have "\<dots> \<le> 8" using card_image_le [of "{..<8 :: nat}" "\<lambda>n. Some (of_nat n :: u8)"] by (simp add: image_image)
  finally show ?thesis using assms distinct_card [of "map de_pos devs"] by (simp add: devs_ok_def)
qed

text \<open>The map from positions and the devices' own positions are inverse to each other.\<close>

lemma pos_index_dev:
  assumes "devs_ok devs" "i < length devs" "de_pos (devs ! i) = Some p"
  shows "pos_index devs ! unat p = Some (of_nat i)"
proof -
  have "unat p < 8" using devs_ok_pos [OF assms(1,2)] assms(3) by auto
  moreover have "position (\<lambda>d. de_pos d = Some p) devs = Some i"
    using position_distinct [of de_pos devs i] assms by (simp add: devs_ok_def)
  ultimately show ?thesis by (simp add: pos_index_nth)
qed

lemma pos_index_SomeD:
  assumes "devs_ok devs" "p < 8" "pos_index devs ! p = Some i"
  shows "unat i < length devs \<and> de_pos (devs ! unat i) = Some (of_nat p)"
proof -
  obtain j where j: "position (\<lambda>d. de_pos d = Some (of_nat p)) devs = Some j" "i = of_nat j"
    using assms(2,3) by (auto simp: pos_index_nth)
  then have "j < length devs" "de_pos (devs ! j) = Some (of_nat p)" by (auto dest: position_SomeD)
  moreover have "unat (of_nat j :: u8) = j"
    using \<open>j < length devs\<close> devs_ok_length [OF assms(1)] by (simp add: unat_of_nat)
  ultimately show ?thesis using j by simp
qed

lemma pos_index_NoneD: "p < 8 \<Longrightarrow> pos_index devs ! p = None \<Longrightarrow> d \<in> set devs \<Longrightarrow> de_pos d \<noteq> Some (of_nat p)"
  by (auto simp: pos_index_nth position_None_iff)

lemma pos_of_dev:
  assumes "tables_ok c" "i < length (devices c)"
  shows "pos_of (attached_devs c) i = de_pos (devices c ! i)"
proof -
  note ok = tables_okD [OF assms(1)]
  obtain p where p: "de_pos (devices c ! i) = Some p" "unat p < 8" using devs_ok_pos [OF ok(1) assms(2)] .
  have i: "i < 256" "unat (of_nat i :: u8) = i" using devs_ok_length [OF ok(1)] assms(2) by (simp_all add: unat_of_nat)
  have at: "pos_index (devices c) ! unat p = Some (of_nat i)" by (rule pos_index_dev [OF ok(1) assms(2) p(1)])
  have "position (\<lambda>v. v = Some (of_nat i)) (pos_index (devices c)) \<noteq> None"
    using at p(2) nth_mem [of "unat p" "pos_index (devices c)"] by (auto simp: position_None_iff)
  then obtain q where q: "position (\<lambda>v. v = Some (of_nat i)) (pos_index (devices c)) = Some q" by blast
  then have "q < 8" "pos_index (devices c) ! q = Some (of_nat i)" using position_SomeD [OF q] by simp_all
  from pos_index_SomeD [OF ok(1) this] have "de_pos (devices c ! i) = Some (of_nat q)" by (simp add: i)
  with q \<open>q < 8\<close> i(1) show ?thesis by (simp add: pos_of_def ok(2))
qed

section \<open>Changes that keep the tables\<close>

text \<open>What the tables depend on; the rest of a device entry may change freely, and more addresses may be in use.\<close>

definition dev_key :: "device_entry \<Rightarrow> dev_kind \<times> u64 option \<times> u8 \<times> u8 \<times> u8 \<times> u8 option" where
  "dev_key d = (de_kind d, if de_kind d = KindI3c then de_pid d else None, de_static_addr d, de_dyn_addr d, de_desired_da d, de_pos d)"

definition same_tables :: "i3c_config \<Rightarrow> i3c_config \<Rightarrow> bool" where
  "same_tables c c' \<longleftrightarrow> map dev_key (devices c') = map dev_key (devices c) \<and> at_by_pos (attached_devs c') = at_by_pos (attached_devs c)
     \<and> (book_ok (addrbook c) \<longrightarrow> book_ok (addrbook c') \<and> reserved_set (addrbook c') = reserved_set (addrbook c)
          \<and> in_use_set (addrbook c) \<subseteq> in_use_set (addrbook c'))"

lemma same_tables_refl [intro!, simp]: "same_tables c c"
  by (simp add: same_tables_def)

lemma same_tables_trans [trans]: "same_tables a b \<Longrightarrow> same_tables b c \<Longrightarrow> same_tables a c"
  by (auto simp: same_tables_def)

lemma dev_key_dests:
  assumes "map dev_key xs = map dev_key ys"
  shows "map de_pos xs = map de_pos ys" "map de_dyn_addr xs = map de_dyn_addr ys" "map de_kind xs = map de_kind ys"
    "map de_desired_da xs = map de_desired_da ys"
    "i3c_pids xs = i3c_pids ys" "list_all dev_ok xs = list_all dev_ok ys"
proof -
  have step: "P xs ys" if "P [] []" "\<And>x y xs ys. dev_key x = dev_key y \<Longrightarrow> P xs ys \<Longrightarrow> P (x # xs) (y # ys)" for P
    using assms that by (induction xs arbitrary: ys) (auto simp: Cons_eq_map_conv map_eq_Cons_conv)
  show "map de_pos xs = map de_pos ys" "map de_dyn_addr xs = map de_dyn_addr ys" "map de_kind xs = map de_kind ys"
    "map de_desired_da xs = map de_desired_da ys"
    "i3c_pids xs = i3c_pids ys" "list_all dev_ok xs = list_all dev_ok ys"
    by (rule step; auto simp: dev_key_def dev_ok_def split: if_splits)+
qed

lemma same_tables_ok:
  assumes "tables_ok c" "same_tables c c'"
  shows "tables_ok c'"
proof -
  have key: "map dev_key (devices c') = map dev_key (devices c)" using assms(2) by (simp add: same_tables_def)
  note d = dev_key_dests [OF key]
  have "de_dyn_addr ` set (devices c') = de_dyn_addr ` set (devices c)" using d(2) by (metis list.set_map)
  then show ?thesis
    using assms d pos_index_cong [OF d(1)] by (auto simp: tables_ok_def devs_ok_def same_tables_def)
qed

lemma same_tables_length: "same_tables c c' \<Longrightarrow> length (devices c') = length (devices c)"
  unfolding same_tables_def using map_eq_imp_length_eq by blast

lemma same_tables_key: "same_tables c c' \<Longrightarrow> i < length (devices c) \<Longrightarrow> dev_key (devices c' ! i) = dev_key (devices c ! i)"
  using same_tables_length [of c c'] unfolding same_tables_def by (metis nth_map)

lemma upd_dev_same:
  assumes "\<And>d. i < length (devices c) \<Longrightarrow> d = devices c ! i \<Longrightarrow> dev_key (f d) = dev_key d"
  shows "same_tables c (upd_dev i f c)"
proof (cases "i < length (devices c)")
  case True
  then have "(map dev_key (devices c))[i := dev_key (f (devices c ! i))] = map dev_key (devices c)"
    using assms [OF True refl] by (metis list_update_id nth_map)
  then show ?thesis by (simp add: same_tables_def upd_dev_def map_update)
qed (simp add: same_tables_def upd_dev_def list_update_beyond)

lemma mark_use_same: "same_tables c (c\<lparr>addrbook := mark_use a True (addrbook c)\<rparr>)"
  by (auto simp: same_tables_def)

lemma map_devices_same:
  assumes "\<And>d. dev_key (f d) = dev_key d"
  shows "same_tables c (c\<lparr>attached_devs := (attached_devs c)\<lparr>at_devices := map f (devices c)\<rparr>\<rparr>)"
  using assms by (simp add: same_tables_def)

section \<open>Attaching and detaching\<close>

lemma position_append:
  "position P (xs @ ys) = (case position P xs of Some i \<Rightarrow> Some i | None \<Rightarrow> map_option (\<lambda>i. length xs + i) (position P ys))"
  by (induction xs) (cases "position P ys"; auto split: option.split)+

lemma slot_free:
  assumes "tables_ok c" "unat slot < 8" "at_by_pos (attached_devs c) ! unat slot = None"
  shows "Some slot \<notin> de_pos ` set (devices c)"
proof
  assume "Some slot \<in> de_pos ` set (devices c)"
  then obtain d where "d \<in> set (devices c)" "de_pos d = Some slot" by (metis imageE)
  with pos_index_NoneD [of "unat slot" "devices c" d] assms(2,3) tables_okD(2) [OF assms(1)] show False by simp
qed

lemma attach_room:
  assumes "tables_ok c" "dev_ok dev" "de_pos dev \<notin> de_pos ` set (devices c)" "de_dyn_addr dev \<notin> de_dyn_addr ` set (devices c)"
    "de_kind dev = KindI3c \<Longrightarrow> de_pid dev \<notin> de_pid ` set (devices c)"
  shows "devs_ok (devices c @ [dev])" "length (devices c) < 8"
proof -
  show "devs_ok (devices c @ [dev])" using assms tables_okD(1) [OF assms(1)] by (auto simp: devs_ok_def)
  from devs_ok_length [OF this] show "length (devices c) < 8" by simp
qed

lemma pos_index_append:
  assumes "de_pos dev = Some slot" "unat slot < 8" "Some slot \<notin> de_pos ` set devs"
  shows "pos_index (devs @ [dev]) = (pos_index devs)[unat slot := Some (of_nat (length devs))]"
proof (rule nth_equalityI)
  fix p assume "p < length (pos_index (devs @ [dev]))"
  then have p: "p < 8" by simp
  have none: "position (\<lambda>d. de_pos d = Some slot) devs = None" 
    unfolding position_None_iff using assms(3) by (metis imageI)
  show "pos_index (devs @ [dev]) ! p = (pos_index devs)[unat slot := Some (of_nat (length devs))] ! p"
  proof (cases "p = unat slot")
    case True
    then show ?thesis using assms(1,2) none by (simp add: pos_index_nth position_append)
  next
    case False
    then have "slot \<noteq> of_nat p" using p by (auto simp: unat_of_nat)
    then show ?thesis using assms(1) False p by (simp add: pos_index_nth position_append split: option.split)
  qed
qed simp

lemma attach_tables:
  assumes "tables_ok c" "dev_ok dev" "de_pos dev = Some slot" "at_by_pos (attached_devs c) ! unat slot = None"
    "ab_is_free (addrbook c) (de_dyn_addr dev)" "de_kind dev = KindI3c \<Longrightarrow> de_pid dev \<notin> de_pid ` set (devices c)"
  shows "length (devices c) < 8"
    "tables_ok (c\<lparr>attached_devs := \<lparr>at_devices = devices c @ [dev],
         at_by_pos = (at_by_pos (attached_devs c))[unat slot := Some (of_nat (length (devices c)))]\<rparr>,
       addrbook := mark_use (de_dyn_addr dev) True (addrbook c)\<rparr>)"
proof -
  note ok = tables_okD [OF assms(1)]
  have slot: "unat slot < 8" using assms(2,3) by (auto simp: dev_ok_def word_less_nat_alt)
  have dyn: "0 < de_dyn_addr dev" "de_dyn_addr dev < 128" using assms(2,5) by (auto simp: dev_ok_def ab_is_free_iff)
  have new: "Some slot \<notin> de_pos ` set (devices c)" "de_dyn_addr dev \<notin> de_dyn_addr ` set (devices c)"
    using slot_free [OF assms(1) slot assms(4)] ok(4) assms(5) by (auto simp: ab_is_free_iff)
  note room = attach_room [OF assms(1,2) _ new(2) assms(6)]
  show "length (devices c) < 8" using room(2) new(1) assms(3) by simp
  show "tables_ok (c\<lparr>attached_devs := \<lparr>at_devices = devices c @ [dev],
         at_by_pos = (at_by_pos (attached_devs c))[unat slot := Some (of_nat (length (devices c)))]\<rparr>,
       addrbook := mark_use (de_dyn_addr dev) True (addrbook c)\<rparr>)"
    using room(1) new(1) assms(3,5) ok(2,3) dyn by (auto simp: tables_ok_def pos_index_append [OF assms(3) slot new(1)] ab_is_free_iff dest: ok(4))
qed

lemma remove_nth_simps: "remove_nth 0 (x # xs) = xs" "remove_nth (Suc i) (x # xs) = x # remove_nth i xs"
  by (simp_all add: remove_nth_def)

lemma remove_nth_last: "remove_nth (length xs) (xs @ [x]) = xs"
  by (simp add: remove_nth_def)

lemma map_remove_nth: "map f (remove_nth i xs) = remove_nth i (map f xs)"
  by (simp add: remove_nth_def take_map drop_map)

lemma set_remove_nth: "set (remove_nth i xs) \<subseteq> set xs"
  by (auto simp: remove_nth_def dest: in_set_takeD in_set_dropD)

lemma set_remove_nth_distinct: "distinct xs \<Longrightarrow> i < length xs \<Longrightarrow> set (remove_nth i xs) = set xs - {xs ! i}"
proof (induction xs arbitrary: i)
  case (Cons x xs)
  then show ?case by (cases i) (auto simp: remove_nth_simps)
qed simp

lemma distinct_remove_nth: "distinct xs \<Longrightarrow> distinct (remove_nth i xs)"
  by (auto simp: remove_nth_def distinct_take distinct_drop dest: set_take_disj_set_drop_if_distinct [of _ i "Suc i"])

lemma filter_remove_nth: "\<exists>j. filter P (remove_nth i xs) = remove_nth j (filter P xs)"
proof (induction xs arbitrary: i)
  case (Cons x xs)
  show ?case
  proof (cases i)
    case 0
    have "filter P xs = remove_nth (length (filter P xs)) (filter P xs)" "filter P xs = remove_nth 0 (x # filter P xs)"
      by (simp_all add: remove_nth_def)
    then have "\<exists>j. filter P xs = remove_nth j (if P x then x # filter P xs else filter P xs)" by (cases "P x") auto
    then show ?thesis using 0 by (simp add: remove_nth_simps)
  next
    case (Suc k)
    obtain j where "filter P (remove_nth k xs) = remove_nth j (filter P xs)" using Cons.IH by blast
    then have "filter P (remove_nth (Suc k) (x # xs)) = remove_nth (if P x then Suc j else j) (filter P (x # xs))"
      by (simp add: remove_nth_simps)
    then show ?thesis using Suc by blast
  qed
qed (simp add: remove_nth_def)

lemma position_remove_nth:
  assumes "i < length xs" "\<And>j k. j < length xs \<Longrightarrow> k < length xs \<Longrightarrow> P (xs ! j) \<Longrightarrow> P (xs ! k) \<Longrightarrow> j = k"
  shows "position P (remove_nth i xs) =
    (case position P xs of None \<Rightarrow> None | Some j \<Rightarrow> if j = i then None else if i < j then Some (j - 1) else Some j)"
  using assms
proof (induction xs arbitrary: i)
  case (Cons x xs)
  have uniq: "j = k" if "j < length xs" "k < length xs" "P (xs ! j)" "P (xs ! k)" for j k
    using Cons.prems(2) [of "Suc j" "Suc k"] that by simp
  have none: "position P xs = None" if "P x"
    using Cons.prems(2) [of 0 "Suc _"] that by (auto simp: position_None_iff in_set_conv_nth)
  show ?case
  proof (cases i)
    case 0
    then show ?thesis using none by (auto simp: remove_nth_simps split: option.split)
  next
    case (Suc k)
    then have "k < length xs" using Cons.prems(1) by simp
    from Cons.IH [OF this uniq] Suc show ?thesis
      by (auto simp: remove_nth_simps split: option.split)
  qed
qed simp

lemma devs_ok_remove: "devs_ok devs \<Longrightarrow> devs_ok (remove_nth i devs)"
proof -
  assume ok: "devs_ok devs"
  obtain j where "filter (\<lambda>d. de_kind d = KindI3c) (remove_nth i devs) = remove_nth j (filter (\<lambda>d. de_kind d = KindI3c) devs)"
    using filter_remove_nth by blast
  then have "distinct (i3c_pids (remove_nth i devs))" using ok by (simp add: devs_ok_def map_remove_nth distinct_remove_nth)
  moreover have "list_all dev_ok (remove_nth i devs)"
    using ok set_remove_nth [of i devs] by (auto simp: devs_ok_def list_all_iff)
  ultimately show ?thesis using ok by (simp add: devs_ok_def map_remove_nth distinct_remove_nth)
qed

lemma pos_index_remove:
  assumes "devs_ok devs" "i < length devs" "de_pos (devs ! i) = Some q"
  shows "pos_index (remove_nth i devs) = map (shift_index i) ((pos_index devs)[unat q := None])"
proof (rule nth_equalityI)
  fix p assume "p < length (pos_index (remove_nth i devs))"
  then have p: "p < 8" by simp
  have uniq: "j = k" if "j < length devs" "k < length devs" "de_pos (devs ! j) = Some (of_nat p)" "de_pos (devs ! k) = Some (of_nat p)" for j k
    using that assms(1) nth_eq_iff_index_eq [of "map de_pos devs" j k] by (simp add: devs_ok_def)
  have rm: "position (\<lambda>d. de_pos d = Some (of_nat p)) (remove_nth i devs) =
      (case position (\<lambda>d. de_pos d = Some (of_nat p)) devs of None \<Rightarrow> None
       | Some j \<Rightarrow> if j = i then None else if i < j then Some (j - 1) else Some j)"
    by (rule position_remove_nth [OF assms(2)], rule uniq)
  have small: "j < 8" if "j < length devs" for j using that devs_ok_length [OF assms(1)] by simp
  have lhs: "pos_index (remove_nth i devs) ! p = map_option of_nat (position (\<lambda>d. de_pos d = Some (of_nat p)) (remove_nth i devs))"
    by (rule pos_index_nth [OF p])
  have rhs: "map (shift_index i) ((pos_index devs)[unat q := None]) ! p =
      shift_index i (if p = unat q then None else map_option of_nat (position (\<lambda>d. de_pos d = Some (of_nat p)) devs))"
    using p pos_index_nth [OF p, of devs] by (auto simp: nth_list_update)
  show "pos_index (remove_nth i devs) ! p = map (shift_index i) ((pos_index devs)[unat q := None]) ! p"
    unfolding lhs rhs rm
  proof (cases "position (\<lambda>d. de_pos d = Some (of_nat p)) devs")
    case None
    then show "map_option of_nat (case position (\<lambda>d. de_pos d = Some (of_nat p)) devs of None \<Rightarrow> None
        | Some j \<Rightarrow> if j = i then None else if i < j then Some (j - 1) else Some j) =
      shift_index i (if p = unat q then None else map_option of_nat (position (\<lambda>d. de_pos d = Some (of_nat p)) devs))"
      by (simp add: shift_index_def)
  next
    case (Some j)
    then have j: "j < length devs" "de_pos (devs ! j) = Some (of_nat p)" by (auto dest: position_SomeD)
    have "unat (of_nat p :: u8) = p" using p by (simp add: unat_of_nat)
    then have "p = unat q \<longleftrightarrow> q = of_nat p" by auto
    then have iff: "p = unat q \<longleftrightarrow> j = i"
      using j(2) assms(3) uniq [OF j(1) assms(2) j(2)] by auto
    have w: "unat (of_nat j :: u8) = j" using small [OF j(1)] by (simp add: unat_of_nat)
    have dec: "shift_index i (Some (of_nat j :: u8)) = (if i < j then Some (of_nat (j - 1)) else Some (of_nat j))"
    proof (cases "i < j")
      case True
      then have "(of_nat j :: u8) \<noteq> 0" "(of_nat j :: u8) - 1 = of_nat (j - 1)" using w by (auto simp: of_nat_diff)
      then show ?thesis using True by (simp only: shift_index_def option.case w) simp
    qed (simp add: shift_index_def w)
    show "map_option of_nat (case position (\<lambda>d. de_pos d = Some (of_nat p)) devs of None \<Rightarrow> None
        | Some j \<Rightarrow> if j = i then None else if i < j then Some (j - 1) else Some j) =
      shift_index i (if p = unat q then None else map_option of_nat (position (\<lambda>d. de_pos d = Some (of_nat p)) devs))"
      unfolding Some iff option.case option.map using dec by (cases "j = i") (simp_all add: shift_index_def)
  qed
qed simp

lemma detach_tables:
  assumes "tables_ok c" "i < length (devices c)"
  shows "detach (attached_devs c) i = \<lparr>at_devices = remove_nth i (devices c), at_by_pos = pos_index (remove_nth i (devices c))\<rparr>"
    "tables_ok (c\<lparr>addrbook := mark_use (de_dyn_addr (devices c ! i)) False (addrbook c), attached_devs := detach (attached_devs c) i\<rparr>)"
proof -
  note ok = tables_okD [OF assms(1)]
  obtain q where q: "de_pos (devices c ! i) = Some q" using devs_ok_pos [OF ok(1) assms(2)] by metis
  show eq: "detach (attached_devs c) i = \<lparr>at_devices = remove_nth i (devices c), at_by_pos = pos_index (remove_nth i (devices c))\<rparr>"
    using assms(2) q pos_index_remove [OF ok(1) assms(2) q] by (simp add: detach_def unmap_pos_def Let_def ok(2))
  have "set (map de_dyn_addr (remove_nth i (devices c))) = set (map de_dyn_addr (devices c)) - {de_dyn_addr (devices c ! i)}"
    using set_remove_nth_distinct [of "map de_dyn_addr (devices c)" i] ok(1) assms(2) by (simp add: map_remove_nth devs_ok_def)
  then show "tables_ok (c\<lparr>addrbook := mark_use (de_dyn_addr (devices c ! i)) False (addrbook c), attached_devs := detach (attached_devs c) i\<rparr>)"
    using ok devs_ok_remove [OF ok(1)] by (auto simp: tables_ok_def eq)
qed

section \<open>Reassigning and resetting addresses\<close>

lemma i3c_pids_update:
  "i < length devs \<Longrightarrow> de_kind d = de_kind (devs ! i) \<Longrightarrow> de_pid d = de_pid (devs ! i) \<Longrightarrow> i3c_pids (devs[i := d]) = i3c_pids devs"
proof (induction devs arbitrary: i)
  case (Cons x xs)
  then show ?case by (cases i) auto
qed simp

lemma reassign_tables:
  assumes "tables_ok c" "reassign_da c from to' = (c', r)" "to' \<noteq> 0" "to' < 0x7E"
    "\<And>d. d \<in> set (devices c) \<Longrightarrow> de_dyn_addr d = from \<Longrightarrow> de_kind d = KindI3c"
  shows "tables_ok c'"
proof (cases "r = Inr () \<and> from \<noteq> to'")
  case False
  then have "c' = c" using assms(2) by (auto simp: reassign_da_def split: option.splits if_splits)
  then show ?thesis using assms(1) by simp
next
  case True
  note ok = tables_okD [OF assms(1)]
  from True assms(2) obtain i where i: "position (\<lambda>d. de_dyn_addr d = from) (devices c) = Some i" and free: "ab_is_free (addrbook c) to'"
    and c': "c' = upd_dev i (\<lambda>d. d\<lparr>de_dyn_addr := to', de_desired_da := to'\<rparr>)
                  (c\<lparr>addrbook := mark_use to' True (mark_use from False (addrbook c))\<rparr>)"
    by (auto simp: reassign_da_def split: option.splits if_splits)
  define d where "d = devices c ! i"
  define d' where "d' = d\<lparr>de_dyn_addr := to', de_desired_da := to'\<rparr>"
  have d: "i < length (devices c)" "de_dyn_addr d = from" "d \<in> set (devices c)" using position_SomeD [OF i] by (simp_all add: d_def)
  have key: "de_kind d = KindI3c" using assms(5) d by blast
  have devs: "devices c' = (devices c)[i := d']" by (simp add: c' upd_dev_def d'_def d_def)
  have ok_d: "dev_ok d" using devs_ok_nth [OF ok(1) d(1)] by (simp add: d_def)
  then have "dev_ok d'" using assms(3,4) key by (auto simp: dev_ok_def d'_def word_gt_0)
  then have la: "list_all dev_ok (devices c')"
    using ok(1) set_update_subset_insert [of "devices c" i d'] by (auto simp: devs_ok_def list_all_iff devs)
  have pos: "map de_pos (devices c') = map de_pos (devices c)"
    using d(1) by (simp add: devs map_update d'_def d_def) (metis list_update_id nth_map)
  have "i3c_pids ((devices c)[i := d']) = i3c_pids (devices c)"
    by (rule i3c_pids_update) (simp_all add: d(1) d'_def d_def)
  then have pids: "distinct (i3c_pids (devices c'))" using ok(1) by (simp add: devs_ok_def devs)
  have new: "to' \<notin> de_dyn_addr ` set (devices c)" using ok(4) free by (auto simp: ab_is_free_iff)
  have dyns: "map de_dyn_addr (devices c') = (map de_dyn_addr (devices c))[i := to']" by (simp add: devs map_update d'_def)
  have dist: "distinct (map de_dyn_addr (devices c))" using ok(1) by (simp add: devs_ok_def)
  have dyn: "distinct (map de_dyn_addr (devices c'))" unfolding dyns using dist new by (simp add: distinct_list_update)
  have "set (map de_dyn_addr (devices c')) = insert to' (set (map de_dyn_addr (devices c)) - {from})"
    unfolding dyns using set_update_distinct [OF dist, of i to'] d by (simp add: d_def)
  then have "de_dyn_addr ` set (devices c') = insert to' (de_dyn_addr ` set (devices c) - {from})" by simp
  moreover have "addrbook c' = mark_use to' True (mark_use from False (addrbook c))" "at_by_pos (attached_devs c') = at_by_pos (attached_devs c)"
    by (simp_all add: c' upd_dev_def)
  ultimately show ?thesis
    using ok la pos pids dyn free assms(3) by (auto simp: tables_ok_def devs_ok_def pos_index_cong [OF pos] ab_is_free_iff)
qed

lemma book_fold_mark:
  assumes "book_ok b"
  shows "book_ok (fold (\<lambda>d. mark_use (f d) True) ds b)" "reserved_set (fold (\<lambda>d. mark_use (f d) True) ds b) = reserved_set b"
    "in_use_set (fold (\<lambda>d. mark_use (f d) True) ds b) = in_use_set b \<union> {a \<in> f ` set ds. a \<noteq> 0 \<and> a < 128}"
  using assms by (induction ds arbitrary: b) auto

lemma commit_rstdaa_tables:
  assumes "tables_ok c"
  shows "tables_ok (commit_rstdaa c)"
    "in_use_set (addrbook (commit_rstdaa c)) = de_dyn_addr ` set (devices c)"
proof -
  note ok = tables_okD [OF assms]
  let ?f = "\<lambda>d. if de_kind d = KindI3c then d\<lparr>de_da_state := DaUnassigned, de_ibi_state := IbiDisabled\<rparr> else d"
  have "fold (\<lambda>d b. case de_kind d of KindI2c \<Rightarrow> mark_use (de_static_addr d) True b | KindI3c \<Rightarrow> mark_use (de_desired_da d) True b)
         (devices c) b = fold (\<lambda>d. mark_use (de_dyn_addr d) True) (devices c) b" for b
    by (rule fold_cong) (use ok(1) in \<open>auto simp: devs_ok_def list_all_iff dev_ok_def split: dev_kind.splits\<close>)
  then have book: "addrbook (commit_rstdaa c) = fold (\<lambda>d. mark_use (de_dyn_addr d) True) (devices c) (reset_in_use (addrbook c))"
    by (simp add: commit_rstdaa_def)
  note bf = book_fold_mark [OF reset_in_use_sets(1) [OF ok(3)], of de_dyn_addr "devices c"]
  have "0 < de_dyn_addr d \<and> de_dyn_addr d < 128" if "d \<in> set (devices c)" for d
    using that ok(1) ok(4) [OF that] by (auto simp: devs_ok_def list_all_iff dev_ok_def in_use_set_def)
  then have "{a \<in> de_dyn_addr ` set (devices c). a \<noteq> 0 \<and> a < 128} = de_dyn_addr ` set (devices c)"
    by (force simp: word_gt_0)
  then show used: "in_use_set (addrbook (commit_rstdaa c)) = de_dyn_addr ` set (devices c)"
    unfolding book bf(3) by simp
  have key: "map dev_key (map ?f (devices c)) = map dev_key (devices c)" by (simp add: dev_key_def)
  have devs: "devices (commit_rstdaa c) = map ?f (devices c)" "at_by_pos (attached_devs (commit_rstdaa c)) = at_by_pos (attached_devs c)"
    by (simp_all add: commit_rstdaa_def)
  have "de_dyn_addr ` set (devices (commit_rstdaa c)) = de_dyn_addr ` set (devices c)"
    unfolding devs list.set_map [symmetric] dev_key_dests(2) [OF key] ..
  then show "tables_ok (commit_rstdaa c)"
  proof -
    assume addrs: "de_dyn_addr ` set (devices (commit_rstdaa c)) = de_dyn_addr ` set (devices c)"
    have "devs_ok (devices (commit_rstdaa c))" using ok(1) dev_key_dests [OF key] by (simp only: devs devs_ok_def)
    moreover have "at_by_pos (attached_devs (commit_rstdaa c)) = pos_index (devices (commit_rstdaa c))"
      unfolding devs using ok(2) pos_index_cong [OF dev_key_dests(1) [OF key]] by simp
    moreover have "book_ok (addrbook (commit_rstdaa c))" "reserved_set (addrbook (commit_rstdaa c)) = reserved_set (addrbook c)"
      unfolding book using bf(1,2) by simp_all
    ultimately show ?thesis unfolding tables_ok_def used addrs using ok(4) by auto
  qed
qed

lemma mark_da_unknown_same: "same_tables c (mark_da_unknown i candidate c)"
proof (cases "i < length (devices c) \<and> de_kind (devices c ! i) = KindI3c")
  case True
  define c1 where "c1 = c\<lparr>addrbook := (case candidate of
      Some addr \<Rightarrow> mark_use addr True (mark_use (de_desired_da (devices c ! i)) True (mark_use (de_dyn_addr (devices c ! i)) True (addrbook c)))
    | None \<Rightarrow> mark_use (de_desired_da (devices c ! i)) True (mark_use (de_dyn_addr (devices c ! i)) True (addrbook c)))\<rparr>"
  have "same_tables c c1" by (auto simp: c1_def same_tables_def split: option.splits)
  also have "same_tables c1 (upd_dev i (\<lambda>d. d\<lparr>de_da_state := DaUnknown\<rparr>) c1)" by (rule upd_dev_same) (simp add: dev_key_def)
  finally show ?thesis using True by (simp add: mark_da_unknown_def c1_def Let_def)
qed (auto simp: mark_da_unknown_def)

lemma book_fold_grows:
  assumes "\<And>d b. book_ok b \<Longrightarrow> book_ok (f d b) \<and> reserved_set (f d b) = reserved_set b \<and> in_use_set b \<subseteq> in_use_set (f d b)" "book_ok b"
  shows "book_ok (fold f ds b) \<and> reserved_set (fold f ds b) = reserved_set b \<and> in_use_set b \<subseteq> in_use_set (fold f ds b)"
  using assms(2)
proof (induction ds arbitrary: b)
  case (Cons d ds)
  from assms(1) [OF Cons.prems, of d] Cons.IH [of "f d b"] show ?case by auto
qed simp

lemma mark_rstdaa_unknown_same: "same_tables c (mark_rstdaa_unknown c)"
proof -
  let ?f = "\<lambda>d b. if de_kind d = KindI3c then mark_use (de_desired_da d) True (mark_use (de_dyn_addr d) True b) else b"
  have "book_ok (addrbook c) \<longrightarrow> book_ok (fold ?f (devices c) (addrbook c))
      \<and> reserved_set (fold ?f (devices c) (addrbook c)) = reserved_set (addrbook c)
      \<and> in_use_set (addrbook c) \<subseteq> in_use_set (fold ?f (devices c) (addrbook c))"
    by (rule impI, rule book_fold_grows) auto
  then show ?thesis by (simp add: mark_rstdaa_unknown_def same_tables_def dev_key_def)
qed

end
