(* ===== verification/I3c_Outcome.thy ===== *)
theory I3c_Outcome
  imports I3c_Controller I3c_Tables
begin

text \<open>
  Reasoning about the operations of the I3C driver: what holds of the configuration and the result of an operation whatever the
  hardware does, with a rule for every combinator, and the commands that leave the configuration alone.
\<close>

section \<open>Outcomes\<close>

definition i3c_post :: "('h, 'a) i3c_op \<Rightarrow> i3c_config \<Rightarrow> (i3c_config \<Rightarrow> (i3c_error, 'a) result \<Rightarrow> bool) \<Rightarrow> bool" where
  "i3c_post m c Q \<longleftrightarrow> (\<forall>h. Q (fst (fst (m (c, h)))) (snd (m (c, h))))"

lemma outcomeD: "i3c_post m c Q \<Longrightarrow> m (c, h) = ((c', h'), r) \<Longrightarrow> Q c' r"
  by (auto simp: i3c_post_def dest: spec [of _ h])

lemma outcomeI: "(\<And>h c' h' r. m (c, h) = ((c', h'), r) \<Longrightarrow> Q c' r) \<Longrightarrow> i3c_post m c Q"
  unfolding i3c_post_def by (metis prod.collapse)

lemma outcome_mono: "i3c_post m c R \<Longrightarrow> (\<And>c' r. R c' r \<Longrightarrow> Q c' r) \<Longrightarrow> i3c_post m c Q"
  by (auto simp: i3c_post_def)

named_theorems outcome_intros "outcomes of the combinators"

lemma outcome_ret [outcome_intros]: "Q c (Inr x) \<Longrightarrow> i3c_post (ret x) c Q"
  by (simp add: i3c_post_def)

lemma outcome_fail [outcome_intros]: "Q c (Inl e) \<Longrightarrow> i3c_post (fail e) c Q"
  by (simp add: i3c_post_def)

lemma outcome_lift [outcome_intros]: "Q c r \<Longrightarrow> i3c_post (lift r) c Q"
  by (simp add: i3c_post_def)

lemma outcome_upd [outcome_intros]: "Q (g c) (Inr ()) \<Longrightarrow> i3c_post (upd g) c Q"
  by (simp add: i3c_post_def)

lemma outcome_keeps: "keeps fst m \<Longrightarrow> (\<And>r. Q c r) \<Longrightarrow> i3c_post m c Q"
  by (simp add: i3c_post_def keeps_def)

lemma outcome_ebind:
  assumes "i3c_post m c (\<lambda>c' r. case r of Inl e \<Rightarrow> Q c' (Inl e) | Inr x \<Rightarrow> i3c_post (f x) c' Q)"
  shows "i3c_post (ebind m f) c Q"
proof (rule outcomeI)
  fix h c' h' r
  assume run: "ebind m f (c, h) = ((c', h'), r)"
  obtain c1 h1 r1 where m: "m (c, h) = ((c1, h1), r1)" by (metis prod.collapse)
  from outcomeD [OF assms m] run m show "Q c' r" by (cases r1) (auto simp: ebind_def dest: outcomeD)
qed

lemma outcome_eseq:
  "i3c_post m c (\<lambda>c' r. case r of Inl e \<Rightarrow> Q c' (Inl e) | Inr x \<Rightarrow> i3c_post n c' Q) \<Longrightarrow> i3c_post (eseq m n) c Q"
  unfolding eseq_def by (rule outcome_ebind)

lemma outcome_self: "i3c_post (f c) c Q \<Longrightarrow> i3c_post (ebind self f) c Q"
  by (rule outcome_ebind) (simp add: i3c_post_def)

lemma outcome_upd_seq: "i3c_post n (g c) Q \<Longrightarrow> i3c_post (eseq (upd g) n) c Q"
  by (rule outcome_eseq) (simp add: i3c_post_def)

lemma outcome_ebind_keeps [outcome_intros]:
  "keeps fst m \<Longrightarrow> (\<And>e. Q c (Inl e)) \<Longrightarrow> (\<And>x. i3c_post (f x) c Q) \<Longrightarrow> i3c_post (ebind m f) c Q"
  by (rule outcome_ebind, rule outcome_keeps) (auto split: sum.split)

lemma outcome_eseq_keeps [outcome_intros]:
  "keeps fst m \<Longrightarrow> (\<And>e. Q c (Inl e)) \<Longrightarrow> i3c_post n c Q \<Longrightarrow> i3c_post (eseq m n) c Q"
  unfolding eseq_def by (rule outcome_ebind_keeps)

lemma outcome_if [outcome_intros]:
  "(b \<Longrightarrow> i3c_post m c Q) \<Longrightarrow> (\<not> b \<Longrightarrow> i3c_post n c Q) \<Longrightarrow> i3c_post (if b then m else n) c Q"
  by simp

lemma outcome_option [outcome_intros]:
  "(x = None \<Longrightarrow> i3c_post m c Q) \<Longrightarrow> (\<And>y. x = Some y \<Longrightarrow> i3c_post (f y) c Q)
    \<Longrightarrow> i3c_post (case x of None \<Rightarrow> m | Some y \<Rightarrow> f y) c Q"
  by (cases x) auto

lemma outcome_sum [outcome_intros]:
  "(\<And>e. r = Inl e \<Longrightarrow> i3c_post (f e) c Q) \<Longrightarrow> (\<And>x. r = Inr x \<Longrightarrow> i3c_post (g x) c Q)
    \<Longrightarrow> i3c_post (case r of Inl e \<Rightarrow> f e | Inr x \<Rightarrow> g x) c Q"
  by (cases r) auto

text \<open>An \<open>if\<close> with one-armed effect in front of the rest.\<close>

lemma outcome_eseq_if:
  "(b \<Longrightarrow> i3c_post (eseq m n) c Q) \<Longrightarrow> (\<not> b \<Longrightarrow> i3c_post (eseq m' n) c Q) \<Longrightarrow> i3c_post (eseq (if b then m else m') n) c Q"
  by simp

lemma outcome_eseq_ret: "i3c_post n c Q \<Longrightarrow> i3c_post (eseq (ret x) n) c Q"
  by simp

lemma outcome_attempt:
  "i3c_post m c (\<lambda>c' r. Q c' (Inr r)) \<Longrightarrow> i3c_post (attempt m) c Q"
  by (simp add: i3c_post_def attempt_def case_prod_unfold)

text \<open>These rules apply before the general ones for operations that keep the configuration.\<close>

lemma outcome_eseq_lift:
  "(\<And>e. r = Inl e \<Longrightarrow> Q c (Inl e)) \<Longrightarrow> (\<And>x. r = Inr x \<Longrightarrow> i3c_post n c Q) \<Longrightarrow> i3c_post (eseq (lift r) n) c Q"
  by (cases r) (auto simp: lift_simps intro: outcome_fail)

lemma outcome_eseq_option:
  "(x = None \<Longrightarrow> i3c_post (eseq m n) c Q) \<Longrightarrow> (\<And>y. x = Some y \<Longrightarrow> i3c_post (eseq (f y) n) c Q)
    \<Longrightarrow> i3c_post (eseq (case x of None \<Rightarrow> m | Some y \<Rightarrow> f y) n) c Q"
  by (cases x) auto

lemma outcome_eseq_act: "i3c_post n c Q \<Longrightarrow> i3c_post (eseq (hw (act f)) n) c Q"
  by (auto simp: i3c_post_def eseq_def ebind_def hw_def)

lemma outcome_eseq_detach: "i3c_post n c Q \<Longrightarrow> i3c_post (eseq (hw_detach H p) n) c Q"
  and outcome_eseq_fault: "i3c_post n c Q \<Longrightarrow> i3c_post (eseq (fault H) n) c Q"
  unfolding hw_detach_def fault_def by (fact outcome_eseq_act)+

lemmas outcome_first [outcome_intros] =
  outcome_eseq_ret outcome_eseq_lift outcome_eseq_option outcome_eseq_if outcome_eseq_act
  outcome_eseq_detach outcome_eseq_fault outcome_upd_seq outcome_self

section \<open>Commands that leave the configuration alone\<close>

declare keeps_fst_hw [keeps_intros] keeps_fst_self [keeps_intros]

lemma keeps_attempt [keeps_intros]: "keeps v m \<Longrightarrow> keeps v (attempt m)"
  by (auto simp: keeps_def attempt_def case_prod_unfold)

lemma keeps_ensure [keeps_intros]: "keeps v (ensure b e)"
  by (simp add: keeps_def ensure_run)

lemma keeps_hw_cfg [keeps_intros]: "keeps fst (hw_cfg m)"
  unfolding hw_cfg_def by (intro keeps_intros)

lemma keeps_ensure_primary [keeps_intros]: "keeps fst ensure_primary"
  unfolding ensure_primary_def by (intro keeps_intros)

lemma keeps_send_ccc [keeps_intros]: "keeps fst (send_ccc H p)"
  unfolding send_ccc_def by (intro keeps_intros)

lemma keeps_read_ccc [keeps_intros]: "keeps fst (read_ccc H cid defbyte da n)"
  unfolding read_ccc_def by (intro keeps_intros)

lemma keeps_write_ccc [keeps_intros]: "keeps fst (write_ccc H cid da data)"
  unfolding write_ccc_def by (intro keeps_intros)

lemma keeps_ccc_getpid [keeps_intros]: "keeps fst (ccc_getpid H da)"
  unfolding ccc_getpid_def by (intro keeps_intros)

lemma keeps_ccc_getbcr [keeps_intros]: "keeps fst (ccc_getbcr H da)"
  unfolding ccc_getbcr_def by (intro keeps_intros)

lemma keeps_ccc_getdcr [keeps_intros]: "keeps fst (ccc_getdcr H da)"
  unfolding ccc_getdcr_def by (intro keeps_intros)

lemma keeps_sum [keeps_intros]:
  "(\<And>e. r = Inl e \<Longrightarrow> keeps v (f e)) \<Longrightarrow> (\<And>x. r = Inr x \<Longrightarrow> keeps v (g x)) \<Longrightarrow> keeps v (case r of Inl e \<Rightarrow> f e | Inr x \<Rightarrow> g x)"
  by (cases r) auto

lemma keeps_read_dcr [keeps_intros]: "keeps fst (read_dcr H da)"
  unfolding read_dcr_def by (intro keeps_intros)

lemma keeps_setnewda_bus_only [keeps_intros]: "keeps fst (ccc_setnewda_bus_only H a b)"
  unfolding ccc_setnewda_bus_only_def by (intro keeps_intros)

lemma keeps_direct_write [keeps_intros]: "keeps fst (ccc_direct_write H cid da data)"
  unfolding ccc_direct_write_def by (intro keeps_intros)

lemma keeps_direct_read [keeps_intros]: "keeps fst (ccc_direct_read H cid da n)"
  unfolding ccc_direct_read_def by (intro keeps_intros)

lemma keeps_fault [keeps_intros]: "keeps fst (fault H)"
  unfolding fault_def by (intro keeps_intros)

lemma keeps_hw_detach [keeps_intros]: "keeps fst (hw_detach H pos)"
  unfolding hw_detach_def by (intro keeps_intros)

lemma keeps_for_each: "(\<And>x. keeps v (f x)) \<Longrightarrow> keeps v (for_each f xs)"
  by (induction xs) (auto intro!: keeps_intros)

lemma keeps_option [keeps_intros]:
  "(x = None \<Longrightarrow> keeps v m) \<Longrightarrow> (\<And>y. x = Some y \<Longrightarrow> keeps v (f y)) \<Longrightarrow> keeps v (case x of None \<Rightarrow> m | Some y \<Rightarrow> f y)"
  by (cases x) auto

lemma keeps_reattach [keeps_intros]: "keeps fst (reattach_dev H dev)"
  unfolding reattach_dev_def by (intro keeps_intros)

end
