(* ===== verification/I3c_Invariant.thy ===== *)
theory I3c_Invariant
  imports I3c_Outcome
begin

text \<open>
  The tables of the I3C driver stay consistent through every operation of the controller and every command code, on every
  path, whatever the hardware answers.
\<close>

section \<open>Changes of the configuration\<close>

named_theorems tables_intros "changes of the configuration that keep the tables"

abbreviation keeps_tables :: "('h, 'a) i3c_op \<Rightarrow> bool" where
  "keeps_tables m \<equiv> \<forall>c. tables_ok c \<longrightarrow> i3c_post m c (\<lambda>c' r. tables_ok c')"

lemma keeps_tables_keeps: "keeps fst m \<Longrightarrow> keeps_tables m"
  by (simp add: outcome_keeps)

lemmas same_okI = same_tables_ok [rotated]

lemma tables_upd_da [tables_intros]: "tables_ok c \<Longrightarrow> tables_ok (upd_dev i (set_da_state s) c)"
  and tables_upd_verified [tables_intros]: "tables_ok c \<Longrightarrow> tables_ok (upd_dev i (set_verified bcr dcr) c)"
  and tables_upd_ibi [tables_intros]: "tables_ok c \<Longrightarrow> tables_ok (upd_dev i (\<lambda>d. d\<lparr>de_ibi_state := g d\<rparr>) c)"
  by (rule same_okI [OF upd_dev_same]; simp add: set_da_state_def set_verified_def dev_key_def)+

lemma tables_mark_use [tables_intros]: "tables_ok c \<Longrightarrow> tables_ok (c\<lparr>addrbook := mark_use a True (addrbook c)\<rparr>)"
  by (rule same_okI [OF mark_use_same])

lemma tables_mark_unknown [tables_intros]: "tables_ok c \<Longrightarrow> tables_ok (mark_da_unknown i x c)"
  by (rule same_okI [OF mark_da_unknown_same])

lemma tables_mark_rstdaa [tables_intros]: "tables_ok c \<Longrightarrow> tables_ok (mark_rstdaa_unknown c)"
  by (rule same_okI [OF mark_rstdaa_unknown_same])

lemma tables_setnewda_unknown [tables_intros]: "tables_ok c \<Longrightarrow> tables_ok (mark_setnewda_unknown i a c)"
  unfolding mark_setnewda_unknown_def by (intro tables_intros)

lemma tables_commit_rstdaa [tables_intros]: "tables_ok c \<Longrightarrow> tables_ok (commit_rstdaa c)"
  by (rule commit_rstdaa_tables(1))

lemma upd_by_addr_same:
  assumes "\<And>d. dev_key (f d) = dev_key d"
  shows "same_tables c (upd_by_addr a f c)"
  by (auto simp: upd_by_addr_def upd_dev_same assms split: option.split)

lemma tables_upd_by_addr:
  "(\<And>d. dev_key (f d) = dev_key d) \<Longrightarrow> tables_ok c \<Longrightarrow> tables_ok (upd_by_addr a f c)"
  by (rule same_okI [OF upd_by_addr_same])

lemma tables_upd_i3c_devs: "(\<And>d. dev_key (f d) = dev_key d) \<Longrightarrow> tables_ok c \<Longrightarrow> tables_ok (upd_i3c_devs f c)"
  unfolding upd_i3c_devs_def by (rule same_okI [OF map_devices_same]) simp_all

lemma dev_key_fields [simp]:
  "dev_key (d\<lparr>de_mwl := x\<rparr>) = dev_key d" "dev_key (d\<lparr>de_ibi_state := s\<rparr>) = dev_key d" "dev_key (set_mrl m n d) = dev_key d"
  "dev_key (d\<lparr>de_maxwr := a, de_maxrd := b\<rparr>) = dev_key d"
  by (simp_all add: dev_key_def set_mrl_def split: option.split)

section \<open>Attaching and detaching\<close>

lemma by_pos_get_tables: "tables_ok c \<Longrightarrow> by_pos_get (attached_devs c) p = (if p < 8 then pos_index (devices c) ! p else None)"
  by (simp add: by_pos_get_def tables_okD(2))

text \<open>After the checks, the bookkeeping of an attach always succeeds.\<close>

lemma commit_attach_run:
  assumes "tables_ok c" "dev_ok dev" "de_pos dev = Some slot" "unat slot < 8" "by_pos_get (attached_devs c) (unat slot) = None"
    "ab_is_free (addrbook c) (de_dyn_addr dev)" "de_kind dev = KindI3c \<Longrightarrow> de_pid dev \<notin> de_pid ` set (devices c)"
  shows "commit_attach H dev slot (c, h) =
    ((c\<lparr>attached_devs := \<lparr>at_devices = devices c @ [dev],
         at_by_pos = (at_by_pos (attached_devs c))[unat slot := Some (of_nat (length (devices c)))]\<rparr>,
       addrbook := mark_use (de_dyn_addr dev) True (addrbook c)\<rparr>, h), Inr ())"
    "tables_ok (c\<lparr>attached_devs := \<lparr>at_devices = devices c @ [dev],
         at_by_pos = (at_by_pos (attached_devs c))[unat slot := Some (of_nat (length (devices c)))]\<rparr>,
       addrbook := mark_use (de_dyn_addr dev) True (addrbook c)\<rparr>)"
proof -
  have free: "at_by_pos (attached_devs c) ! unat slot = None"
    using assms(4,5) by_pos_get_tables [OF assms(1)] tables_okD(2) [OF assms(1)] by simp
  note at = attach_tables [OF assms(1-3) free assms(6,7)]
  show "tables_ok (c\<lparr>attached_devs := \<lparr>at_devices = devices c @ [dev],
         at_by_pos = (at_by_pos (attached_devs c))[unat slot := Some (of_nat (length (devices c)))]\<rparr>,
       addrbook := mark_use (de_dyn_addr dev) True (addrbook c)\<rparr>)" by (rule at(2))
  show "commit_attach H dev slot (c, h) =
    ((c\<lparr>attached_devs := \<lparr>at_devices = devices c @ [dev],
         at_by_pos = (at_by_pos (attached_devs c))[unat slot := Some (of_nat (length (devices c)))]\<rparr>,
       addrbook := mark_use (de_dyn_addr dev) True (addrbook c)\<rparr>, h), Inr ())"
    using at(1) assms(4) tables_okD(2) [OF assms(1)]
    by (simp add: commit_attach_def attach_def map_pos_def upd_attached_def ebind_def eseq_def)
qed

lemma commit_attach_tables:
  assumes "tables_ok c" "dev_ok dev" "de_pos dev = Some slot" "unat slot < 8" "by_pos_get (attached_devs c) (unat slot) = None"
    "ab_is_free (addrbook c) (de_dyn_addr dev)" "de_kind dev = KindI3c \<Longrightarrow> de_pid dev \<notin> de_pid ` set (devices c)"
  shows "i3c_post (commit_attach H dev slot) c (\<lambda>c' r. tables_ok c')"
  by (simp add: i3c_post_def commit_attach_run(1) [OF assms] commit_attach_run(2) [OF assms])

lemma attach_i3c_checkD:
  assumes "attach_i3c_check c pid da slot = Inr ()" "tables_ok c"
  shows "dev_ok ((device_new_i3c pid da)\<lparr>de_pos := Some slot\<rparr>)" "unat slot < 8" "by_pos_get (attached_devs c) (unat slot) = None"
    "ab_is_free (addrbook c) da" "Some pid \<notin> de_pid ` set (devices c)" "unat slot < unat (maxdevs c)"
  using assms by (auto simp: attach_i3c_check_def dev_ok_def device_new_i3c_def slot_ok_def MAX_DEVICES_PER_BUS_def I3C_BROADCAST_ADDR_def
      word_gt_0 word_less_nat_alt [where b = 8] list_ex_iff image_iff not_le split: if_splits)

lemma attach_i2c_checkD:
  assumes "attach_i2c_check c sa slot = Inr ()" "tables_ok c"
  shows "dev_ok ((device_new_i2c sa)\<lparr>de_pos := Some slot\<rparr>)" "unat slot < 8" "by_pos_get (attached_devs c) (unat slot) = None"
    "ab_is_free (addrbook c) sa"
  using assms by (auto simp: attach_i2c_check_def dev_ok_def device_new_i2c_def slot_ok_def MAX_DEVICES_PER_BUS_def I3C_BROADCAST_ADDR_def
      word_gt_0 word_less_nat_alt [where b = 8] not_le split: if_splits)

lemma attach_i3c_dev_tables: "keeps_tables (attach_i3c_dev H pid da slot)"
proof (intro allI impI)
  fix c assume ok: "tables_ok c"
  let ?dev = "(device_new_i3c pid da)\<lparr>de_pos := Some slot\<rparr>"
  have "i3c_post (commit_attach H ?dev slot) c (\<lambda>c' r. tables_ok c')" if chk: "attach_i3c_check c pid da slot = Inr ()"
    by (rule commit_attach_tables [OF ok attach_i3c_checkD(1) [OF chk ok] _ attach_i3c_checkD(2,3) [OF chk ok]])
      (use attach_i3c_checkD [OF chk ok] in \<open>simp_all add: device_new_i3c_def\<close>)
  then show "i3c_post (attach_i3c_dev H pid da slot) c (\<lambda>c' r. tables_ok c')"
    unfolding attach_i3c_dev_def
    by (auto intro!: outcome_intros keeps_intros simp: ok)
qed

lemma attach_i2c_dev_tables: "keeps_tables (attach_i2c_dev H sa slot)"
proof (intro allI impI)
  fix c assume ok: "tables_ok c"
  let ?dev = "(device_new_i2c sa)\<lparr>de_pos := Some slot\<rparr>"
  have "i3c_post (commit_attach H ?dev slot) c (\<lambda>c' r. tables_ok c')" if chk: "attach_i2c_check c sa slot = Inr ()"
    by (rule commit_attach_tables [OF ok attach_i2c_checkD(1) [OF chk ok] _ attach_i2c_checkD(2,3) [OF chk ok]])
      (use attach_i2c_checkD [OF chk ok] in \<open>simp_all add: device_new_i2c_def\<close>)
  then show "i3c_post (attach_i2c_dev H sa slot) c (\<lambda>c' r. tables_ok c')"
    unfolding attach_i2c_dev_def
    by (auto intro!: outcome_intros keeps_intros simp: ok)
qed

text \<open>A position is empty, or maps to a device of that position.\<close>

lemma by_pos_cases:
  assumes "tables_ok c" "p < 8"
  obtains "by_pos_get (attached_devs c) p = None"
  | i where "by_pos_get (attached_devs c) p = Some i" "unat i < length (devices c)" "de_pos (devices c ! unat i) = Some (of_nat p)"
  using pos_index_SomeD [OF tables_okD(1) [OF assms(1)] assms(2)] assms(2) by (cases "by_pos_get (attached_devs c) p") (auto simp: by_pos_get_tables [OF assms(1)])

lemma dyn_addr_nonzero: "tables_ok c \<Longrightarrow> i < length (devices c) \<Longrightarrow> de_dyn_addr (devices c ! i) \<noteq> 0"
  using devs_ok_nth [OF tables_okD(1)] by (fastforce simp: dev_ok_def)

lemma detach_i3c_dev_tables: "keeps_tables (detach_i3c_dev H pos)"
proof (intro allI impI)
  fix c assume ok: "tables_ok c"
  show "i3c_post (detach_i3c_dev H pos) c (\<lambda>c' r. tables_ok c')"
  proof (cases "pos < 8")
    case False
    then show ?thesis unfolding detach_i3c_dev_def by (auto intro!: outcome_intros keeps_intros simp: MAX_DEVICES_PER_BUS_def ok)
  next
    case True
    from ok True show ?thesis
    proof (cases rule: by_pos_cases)
      case 1
      then show ?thesis unfolding detach_i3c_dev_def upd_attached_def
        by (auto intro!: outcome_intros keeps_intros outcome_keeps [of "hw_detach H pos"] simp: ok detach_by_pos_def)
    next
      case (2 i)
      note nz = dyn_addr_nonzero [OF ok 2(2)] and dt = detach_tables(2) [OF ok 2(2)]
      from 2 nz dt show ?thesis unfolding detach_i3c_dev_def upd_attached_def
        by (auto intro!: outcome_intros keeps_intros outcome_keeps [of "hw_detach H pos"] simp: ok detach_by_pos_def)
    qed
  qed
qed

lemma detach_by_idx_tables: "keeps_tables (detach_i3c_dev_by_idx H i)"
proof (intro allI impI)
  fix c assume ok: "tables_ok c"
  show "i3c_post (detach_i3c_dev_by_idx H i) c (\<lambda>c' r. tables_ok c')"
  proof (cases "i < length (devices c)")
    case False
    then show ?thesis unfolding detach_i3c_dev_by_idx_def by (auto intro!: outcome_intros keeps_intros simp: ok)
  next
    case True
    note nz = dyn_addr_nonzero [OF ok True] and dt = detach_tables(2) [OF ok True]
    obtain p where p: "de_pos (devices c ! i) = Some p" using devs_ok_pos [OF tables_okD(1) [OF ok] True] by metis
    from True nz dt p show ?thesis unfolding detach_i3c_dev_by_idx_def upd_attached_def Let_def
      by (auto intro!: outcome_intros keeps_intros simp: ok)
  qed
qed

section \<open>Command codes\<close>

lemma upd_tables: "(\<And>c. tables_ok c \<Longrightarrow> tables_ok (f c)) \<Longrightarrow> keeps_tables (upd f)"
  by (auto intro: outcome_upd)

lemma ebind_tables:
  assumes "keeps_tables m" "\<And>x. keeps_tables (f x)"
  shows "keeps_tables (ebind m f)"
proof (intro allI impI, rule outcome_ebind)
  fix c assume "tables_ok c"
  then have "i3c_post m c (\<lambda>c' r. tables_ok c')" using assms(1) by blast
  then show "i3c_post m c (\<lambda>c' r. case r of Inl e \<Rightarrow> tables_ok c' | Inr x \<Rightarrow> i3c_post (f x) c' (\<lambda>c' r. tables_ok c'))"
    by (rule outcome_mono) (use assms(2) in \<open>simp split: sum.split\<close>)
qed

lemma eseq_tables: "keeps_tables m \<Longrightarrow> keeps_tables n \<Longrightarrow> keeps_tables (eseq m n)"
  unfolding eseq_def by (rule ebind_tables)

lemma ret_tables: "keeps_tables (ret x)"
  by (auto intro: outcome_ret)

lemma setnewda_bus_only_ok:
  "i3c_post (ccc_setnewda_bus_only H a b) c (\<lambda>c' r. c' = c \<and> (r = Inr () \<longrightarrow> b \<noteq> 0 \<and> b < 0x7E))"
  unfolding ccc_setnewda_bus_only_def I3C_BROADCAST_ADDR_def
  by (rule outcome_if; rule outcome_keeps outcome_fail) (auto intro!: keeps_intros)

lemma setnewda_commit_tables:
  assumes "tables_ok c" "b \<noteq> 0" "b < 0x7E" "\<And>d. d \<in> set (devices c) \<Longrightarrow> de_dyn_addr d = a \<Longrightarrow> de_kind d = KindI3c"
  shows "i3c_post (setnewda_commit H i pos a b) c (\<lambda>c' r. tables_ok c')"
proof -
  obtain c' r where c': "reassign_da c a b = (c', r)" by (cases "reassign_da c a b")
  have "tables_ok c'" by (rule reassign_tables [OF assms(1) c' assms(2-4)])
  then show ?thesis
    unfolding setnewda_commit_def using assms(1) c'
    by (cases r) (auto intro!: outcome_intros keeps_intros tables_intros)
qed

lemma ccc_setnewda_tables: "keeps_tables (ccc_setnewda H a b)"
proof (intro allI impI)
  fix c assume ok: "tables_ok c"
  show "i3c_post (ccc_setnewda H a b) c (\<lambda>c' r. tables_ok c')"
  proof (cases "find_dev_idx_by_addr (attached_devs c) a")
    case None
    then show ?thesis unfolding ccc_setnewda_def by (auto intro!: outcome_intros simp: ok)
  next
    case (Some i)
    then have i: "i < length (devices c)" "de_dyn_addr (devices c ! i) = a"
      unfolding find_dev_idx_by_addr_def by (auto dest: position_SomeD)
    have uniq: "d = devices c ! i" if "d \<in> set (devices c)" "de_dyn_addr d = a" for d
      using that i tables_okD(1) [OF ok] inj_onD [of de_dyn_addr "set (devices c)"] by (auto simp: devs_ok_def distinct_map)
    have tail: "i3c_post (eseq (setnewda_commit H i pos a b) n) c (\<lambda>c' r. tables_ok c')"
      if "b \<noteq> 0" "b < 0x7E" "keeps_tables n" "de_kind (devices c ! i) = KindI3c" for pos n
      by (rule outcome_eseq, rule outcome_mono [OF setnewda_commit_tables [OF ok that(1,2)]])
        (use that uniq in \<open>auto split: sum.split\<close>)
    have ibi: "keeps_tables (if w then ebind (attempt (hw_cfg (\<lambda>c. hwi_ibi_enable H c b))) (\<lambda>r.
        eseq (upd (upd_by_addr b (\<lambda>d. d\<lparr>de_ibi_state := ibi_after IbiDisabled r\<rparr>))) (map_err map_ccc_err (lift r))) else ret ())" for w
      by (auto intro!: outcome_intros keeps_intros tables_upd_by_addr outcome_keeps [of "map_err map_ccc_err (lift _)"])
    have move: "i3c_post (ebind (attempt (ccc_setnewda_bus_only H a b)) (\<lambda>r. case r of
          Inl e \<Rightarrow> eseq (if ambiguous e then upd (mark_setnewda_unknown i b) else ret ()) (fail e)
        | Inr _ \<Rightarrow> eseq (setnewda_commit H i pos a b) n)) c (\<lambda>c' r. tables_ok c')"
      if "keeps_tables n" "de_kind (devices c ! i) = KindI3c" for pos n
      by (rule outcome_ebind, rule outcome_attempt, rule outcome_mono [OF setnewda_bus_only_ok])
        (use that ok tail in \<open>auto intro!: outcome_first outcome_fail tables_intros split: sum.split\<close>)
    show ?thesis
      unfolding ccc_setnewda_def Let_def
      by (rule outcome_self, unfold Some option.case, (rule outcome_if outcome_option outcome_fail ok move ibi)+) simp
  qed
qed

lemma ccc_upd_tables:
  "keeps_tables (ccc_setmwl H da mwl)" "keeps_tables (ccc_setmrl H da mrl n)" "keeps_tables (ccc_setmwl_all H mwl)"
  "keeps_tables (ccc_setmrl_all H mrl n)" "keeps_tables (ccc_getmwl H da)" "keeps_tables (ccc_getmrl H da)" "keeps_tables (ccc_getmxds H da)"
  unfolding ccc_setmwl_def ccc_setmrl_def ccc_setmwl_all_def ccc_setmrl_all_def ccc_getmwl_def ccc_getmrl_def ccc_getmxds_def Let_def
  by (auto intro!: outcome_intros keeps_intros tables_upd_by_addr tables_upd_i3c_devs)

lemma ccc_rstdaa_tables: "keeps_tables (ccc_rstdaa_all H)"
  unfolding ccc_rstdaa_all_def by (auto intro!: outcome_intros keeps_intros tables_intros)

end
