(* ===== verification/I3c_Daa.thy ===== *)
theory I3c_Daa
  imports I3c_Invariant
begin

text \<open>
  Dynamic address assignment: what one round of the walk does to the states of the devices, and what the whole walk promises. The
  session of a controller: any sequence of calls, with the consistency of the tables after each.
\<close>

unbundle bit_operations_syntax

section \<open>One round\<close>

abbreviation da_of :: "i3c_config \<Rightarrow> nat \<Rightarrow> da_state" where
  "da_of c i \<equiv> de_da_state (devices c ! i)"

text \<open>What a round for the device \<open>prov\<close> does when it succeeds.\<close>

definition round_effect :: "i3c_config \<Rightarrow> nat \<Rightarrow> daa_outcome \<Rightarrow> i3c_config \<Rightarrow> bool" where
  "round_effect c prov out c' \<longleftrightarrow> same_tables c c' \<and>
     (case out of
        DaaNacked \<Rightarrow> c' = c
      | DaaOwn \<Rightarrow> da_of c' prov = DaVerified \<and> (\<forall>i. i \<noteq> prov \<longrightarrow> da_of c' i = da_of c i)
      | DaaMoved own \<Rightarrow> \<exists>idx < length (devices c). own = map_option unat (de_pos (devices c ! idx)) \<and> idx \<noteq> prov
          \<and> da_of c' idx = DaVerified \<and> (\<forall>i. i \<noteq> prov \<longrightarrow> i \<noteq> idx \<longrightarrow> da_of c' i = da_of c i)
      | DaaParked \<Rightarrow> \<forall>i. i \<noteq> prov \<longrightarrow> da_of c' i = da_of c i)"

lemma devices_upd_dev [simp]: "devices (upd_dev i f c) = (devices c)[i := f (devices c ! i)]"
  and addrbook_upd_dev [simp]: "addrbook (upd_dev i f c) = addrbook c"
  by (simp_all add: upd_dev_def)

lemma devices_mark_unknown:
  "devices (mark_da_unknown i x c) =
     (if i < length (devices c) \<and> de_kind (devices c ! i) = KindI3c then (devices c)[i := set_da_state DaUnknown (devices c ! i)] else devices c)"
  by (simp add: mark_da_unknown_def Let_def set_da_state_def)

lemma da_of_unknown: "j \<noteq> i \<Longrightarrow> da_of (mark_da_unknown i x c) j = da_of c j"
  by (simp add: devices_mark_unknown)

lemma same_upd_da: "same_tables c (upd_dev i (set_da_state s) c)"
  and same_upd_verified: "same_tables c (upd_dev i (set_verified bcr dcr) c)"
  by (rule upd_dev_same; simp add: set_da_state_def set_verified_def dev_key_def)+

lemma daa_own_effect:
  assumes "tables_ok c" "prov < length (devices c)"
  shows "i3c_post (daa_own H prov addr) c (\<lambda>c' r. tables_ok c' \<and> (\<forall>out. r = Inr out \<longrightarrow> round_effect c prov out c'))"
  unfolding daa_own_def round_effect_def
  by (auto intro!: outcome_intros keeps_intros tables_intros same_upd_verified simp: assms set_verified_def)

lemma own_pos_dev: "tables_ok c \<Longrightarrow> i < length (devices c) \<Longrightarrow> own_pos c i = map_option unat (de_pos (devices c ! i))"
  by (auto simp: own_pos_def pos_of_dev dev_pos_def split: option.split)

lemma daa_move_effect:
  assumes "tables_ok c" "prov < length (devices c)" "idx < length (devices c)" "idx \<noteq> prov"
  shows "i3c_post (daa_move H prov idx addr expected) c (\<lambda>c' r. tables_ok c' \<and> (\<forall>out. r = Inr out \<longrightarrow> round_effect c prov out c'))"
proof -
  define c2 where "c2 bcr dcr = upd_dev idx (set_verified bcr dcr) (upd_dev idx (set_da_state DaUnknown) (upd_dev prov (set_da_state DaUnassigned) c))" for bcr dcr
  define c3 where "c3 bcr dcr = upd_dev idx (set_verified bcr dcr) (upd_dev prov (set_da_state DaUnassigned) (upd_dev idx (set_da_state DaUnknown) c))" for bcr dcr
  have same: "same_tables c (c2 bcr dcr)" "same_tables c (c3 bcr dcr)" for bcr dcr
    unfolding c2_def c3_def by (blast intro: same_tables_trans same_upd_da same_upd_verified)+
  have eff: "tables_ok c' \<and> round_effect c prov (DaaMoved (own_pos c' idx)) c'" if "c' \<in> {c2 bcr dcr, c3 bcr dcr}" for c' bcr dcr
  proof -
    have s: "same_tables c c'" using same that by auto
    have ok': "tables_ok c'" by (rule same_tables_ok [OF assms(1) s])
    have "own_pos c' idx = map_option unat (de_pos (devices c ! idx))"
      using own_pos_dev [OF ok', of idx] same_tables_length [OF s] same_tables_key [OF s assms(3)] assms(3) by (simp add: dev_key_def)
    then show ?thesis using that s ok' assms by (auto simp: round_effect_def c2_def c3_def set_verified_def set_da_state_def nth_list_update)
  qed
  show ?thesis
    unfolding daa_move_def
    by (auto intro!: outcome_intros keeps_intros tables_intros assms(1) eff [THEN conjunct2] simp: c2_def [symmetric] c3_def [symmetric] split: sum.splits)
qed

lemma unpark_tables:
  assumes "tables_ok c" "ab_is_free (addrbook c) a"
  shows "tables_ok (c\<lparr>addrbook := mark_use a False (mark_use a True (addrbook c))\<rparr>)"
proof -
  have "a \<notin> de_dyn_addr ` set (devices c)" using assms tables_okD(4) by (auto simp: ab_is_free_iff)
  then show ?thesis using assms(1) by (auto simp: tables_ok_def)
qed

lemma daa_park_effect:
  assumes "tables_ok c" "prov < length (devices c)"
  shows "i3c_post (daa_park H prov addr) c (\<lambda>c' r. tables_ok c' \<and> (\<forall>out. r = Inr out \<longrightarrow> round_effect c prov out c'))"
proof -
  have eff: "round_effect c prov DaaParked (upd_dev prov (set_da_state DaUnassigned) (c\<lparr>addrbook := mark_use park True (addrbook c)\<rparr>))" for park
    unfolding round_effect_def using same_tables_trans [OF mark_use_same same_upd_da] by (simp add: nth_list_update)
  have un: "tables_ok (c\<lparr>addrbook := mark_use park False (mark_use park True (addrbook c))\<rparr>)" if "alloc_from (addrbook c) 8 = Some park" for park
    using unpark_tables [OF assms(1)] alloc_from_SomeD [OF that] by blast
  show ?thesis
    unfolding daa_park_def by (auto intro!: outcome_intros keeps_intros tables_intros assms(1) eff un)
qed

lemma round_effect_after:
  assumes "same_tables c c1" "\<And>i. i \<noteq> prov \<Longrightarrow> da_of c1 i = da_of c i" "round_effect c1 prov out c'" "out \<noteq> DaaNacked"
  shows "round_effect c prov out c'"
proof -
  have key: "de_pos (devices c1 ! i) = de_pos (devices c ! i)" if "i < length (devices c)" for i
    using same_tables_key [OF assms(1) that] by (simp add: dev_key_def)
  have "same_tables c c'" using assms(1,3) same_tables_trans by (auto simp: round_effect_def)
  then show ?thesis using assms(2-4) key same_tables_length [OF assms(1)]
    by (cases out) (auto simp: round_effect_def)
qed

lemma same_desired:
  assumes "tables_ok c" "i < length (devices c)" "j < length (devices c)" "de_desired_da (devices c ! i) = de_desired_da (devices c ! j)"
  shows "i = j"
proof -
  have "de_dyn_addr (devices c ! i) = de_dyn_addr (devices c ! j)"
    using assms devs_ok_nth [OF tables_okD(1) [OF assms(1)]] by (metis dev_ok_def)
  then show ?thesis
    using nth_eq_iff_index_eq [of "map de_dyn_addr (devices c)" i j] assms tables_okD(1) [OF assms(1)] by (simp add: devs_ok_def)
qed

lemma daa_identified_effect:
  assumes "tables_ok c" "prov < length (devices c)" "addr = de_desired_da (devices c ! prov)"
  shows "i3c_post (daa_identified H prov addr pid) c (\<lambda>c' r. tables_ok c' \<and> (\<forall>out. r = Inr out \<longrightarrow> round_effect c prov out c'))"
  unfolding daa_identified_def
proof (rule outcome_self, rule outcome_option, rule daa_park_effect [OF assms(1,2)])
  fix idx assume "position (\<lambda>d. de_pid d = Some pid) (devices c) = Some idx"
  then have idx: "idx < length (devices c)" by (auto dest: position_SomeD)
  show "i3c_post (let expected = de_desired_da (devices c ! idx)
                  in if expected = addr then daa_own H idx addr else daa_move H prov idx addr expected) c
    (\<lambda>c' r. tables_ok c' \<and> (\<forall>out. r = Inr out \<longrightarrow> round_effect c prov out c'))"
  proof (cases "de_desired_da (devices c ! idx) = addr")
    case True
    then have "idx = prov" using same_desired [OF assms(1) idx assms(2)] assms(3) by simp
    then show ?thesis using True daa_own_effect [OF assms(1,2), of H addr] by simp
  next
    case False
    then have "idx \<noteq> prov" using assms(3) by auto
    then show ?thesis using False daa_move_effect [OF assms(1,2) idx] by simp
  qed
qed

lemma daa_identified_not_nacked: "i3c_post (daa_identified H prov addr pid) c (\<lambda>c' r. r \<noteq> Inr DaaNacked)"
  unfolding daa_identified_def daa_own_def daa_park_def daa_move_def Let_def
  by (auto intro!: outcome_intros keeps_intros split: sum.splits)

lemma outcome_conj: "i3c_post m c P \<Longrightarrow> i3c_post m c Q \<Longrightarrow> i3c_post m c (\<lambda>c' r. P c' r \<and> Q c' r)"
  by (simp add: i3c_post_def)

lemma daa_round_effect:
  assumes "tables_ok c" "prov < length (devices c)" "addr = de_desired_da (devices c ! prov)"
  shows "i3c_post (daa_round H pos prov addr) c (\<lambda>c' r. tables_ok c' \<and> (\<forall>out. r = Inr out \<longrightarrow> round_effect c prov out c'))"
proof -
  define c1 where "c1 = mark_da_unknown prov None c"
  have s1: "same_tables c c1" unfolding c1_def by (rule mark_da_unknown_same)
  have ok1: "tables_ok c1" by (rule same_tables_ok [OF assms(1) s1])
  have len1: "prov < length (devices c1)" using same_tables_length [OF s1] assms(2) by simp
  have addr1: "addr = de_desired_da (devices c1 ! prov)"
    using same_tables_key [OF s1 assms(2)] assms(3) by (simp add: dev_key_def)
  have after: "round_effect c prov out c'" if "round_effect c1 prov out c'" "out \<noteq> DaaNacked" for out c'
    by (rule round_effect_after [OF s1 _ that]) (simp add: c1_def da_of_unknown)
  have id: "i3c_post (daa_identified H prov addr pid) c1 (\<lambda>c' r. tables_ok c' \<and> (\<forall>out. r = Inr out \<longrightarrow> round_effect c prov out c'))" for pid
    by (rule outcome_mono [OF outcome_conj [OF daa_identified_effect [OF ok1 len1 addr1] daa_identified_not_nacked]]) (use after in blast)
  have nack: "round_effect c prov DaaNacked c" by (simp add: round_effect_def)
  show ?thesis
    unfolding daa_round_def
    by (auto intro!: outcome_intros keeps_intros tables_intros id simp: c1_def [symmetric] ok1 assms(1) nack)
qed

section \<open>The walk\<close>

definition posn :: "i3c_config \<Rightarrow> nat \<Rightarrow> nat" where
  "posn c i = unat (the (de_pos (devices c ! i)))"

lemma posn_eq:
  assumes "tables_ok c" "i < length (devices c)"
  shows "de_pos (devices c ! i) = Some (of_nat (posn c i))" "posn c i < 8"
proof -
  obtain p where "de_pos (devices c ! i) = Some p" "unat p < 8" using devs_ok_pos [OF tables_okD(1) [OF assms(1)] assms(2)] .
  then show "de_pos (devices c ! i) = Some (of_nat (posn c i))" "posn c i < 8" by (simp_all add: posn_def)
qed

lemma posn_inj:
  assumes "tables_ok c" "i < length (devices c)" "j < length (devices c)" "posn c i = posn c j"
  shows "i = j"
  using assms posn_eq(1) [OF assms(1)] nth_eq_iff_index_eq [of "map de_pos (devices c)" i j] tables_okD(1) [OF assms(1)]
  by (simp add: devs_ok_def)

text \<open>
  The walk from \<open>c0\<close>: a device that needed an address is still pending or verified, and every pending bit belongs to such a device.
\<close>

definition walk_inv :: "i3c_config \<Rightarrow> u32 \<Rightarrow> i3c_config \<Rightarrow> bool" where
  "walk_inv c0 need c \<longleftrightarrow> same_tables c0 c
     \<and> (\<forall>i < length (devices c0). needs_da (devices c0 ! i) \<longrightarrow> bit need (posn c0 i) \<or> da_of c i = DaVerified)
     \<and> (\<forall>p. bit need p \<longrightarrow> (\<exists>i < length (devices c0). needs_da (devices c0 ! i) \<and> posn c0 i = p))"

definition pending :: "i3c_config \<Rightarrow> u32 \<Rightarrow> nat set" where
  "pending c0 need = {i. i < length (devices c0) \<and> needs_da (devices c0 ! i) \<and> bit need (posn c0 i)}"

lemma finite_pending [simp]: "finite (pending c0 need)"
  by (simp add: pending_def)

lemma daa_need_bit:
  assumes "\<forall>d \<in> set ds. \<exists>q. de_pos d = Some q \<and> unat q < 8"
  shows "bit (fold (\<lambda>d need. if needs_da d then (case de_pos d of Some pos \<Rightarrow> set_bit (unat pos) need | None \<Rightarrow> need) else need) ds (a :: u32)) p
    \<longleftrightarrow> bit a p \<or> (\<exists>d \<in> set ds. needs_da d \<and> de_pos d = Some (of_nat p) \<and> p < 8)"
  using assms
proof (induction ds arbitrary: a)
  case (Cons d ds)
  obtain q where q: "de_pos d = Some q" "unat q < 8" using Cons.prems by auto
  have eq: "q = of_nat p \<and> p < 8 \<longleftrightarrow> unat q = p" using q(2) by (auto simp: unat_of_nat)
  have "bit (if needs_da d then set_bit (unat q) a else a) p \<longleftrightarrow> bit a p \<or> needs_da d \<and> q = of_nat p \<and> p < 8"
    unfolding eq using q(2) by (auto simp: bit_set_bit_iff)
  with Cons.IH [of "if needs_da d then set_bit (unat q) a else a"] Cons.prems q show ?case by auto
qed simp

lemma walk_start:
  assumes "tables_ok c"
  shows "walk_inv c (daa_need c) c" "pending c (daa_need c) = {i. i < length (devices c) \<and> needs_da (devices c ! i)}"
proof -
  have "\<forall>d \<in> set (devices c). \<exists>q. de_pos d = Some q \<and> unat q < 8"
    using tables_okD(1) [OF assms] by (auto simp: devs_ok_def list_all_iff dev_ok_def word_less_nat_alt)
  then have bits: "bit (daa_need c) p \<longleftrightarrow> (\<exists>d \<in> set (devices c). needs_da d \<and> de_pos d = Some (of_nat p) \<and> p < 8)" for p
    unfolding daa_need_def by (simp add: daa_need_bit)
  have fwd: "bit (daa_need c) (posn c i)" if "i < length (devices c)" "needs_da (devices c ! i)" for i
    using that posn_eq [OF assms that(1)] unfolding bits by (auto intro!: bexI [of _ "devices c ! i"])
  have bwd: "\<exists>i < length (devices c). needs_da (devices c ! i) \<and> posn c i = p" if b: "bit (daa_need c) p" for p
  proof -
    obtain i where "i < length (devices c)" "needs_da (devices c ! i)" "de_pos (devices c ! i) = Some (of_nat p)" "p < 8"
      using b unfolding bits by (auto simp: in_set_conv_nth)
    then show ?thesis by (auto simp: posn_def unat_of_nat intro!: exI [of _ i])
  qed
  show "walk_inv c (daa_need c) c" unfolding walk_inv_def using fwd bwd by blast
  show "pending c (daa_need c) = {i. i < length (devices c) \<and> needs_da (devices c ! i)}" using fwd by (auto simp: pending_def)
qed

text \<open>The slot of a pending bit leads to its device.\<close>

lemma walk_slot:
  assumes "tables_ok c0" "walk_inv c0 need c" "bit need pos"
  obtains i where "i < length (devices c0)" "needs_da (devices c0 ! i)" "posn c0 i = pos"
    "daa_slot c pos = Some (i, de_desired_da (devices c ! i))"
proof -
  have s: "same_tables c0 c" using assms(2) by (simp add: walk_inv_def)
  have ok: "tables_ok c" by (rule same_tables_ok [OF assms(1) s])
  obtain i where i: "i < length (devices c0)" "needs_da (devices c0 ! i)" "posn c0 i = pos" using assms(2,3) by (auto simp: walk_inv_def)
  have len: "i < length (devices c)" using i(1) same_tables_length [OF s] by simp
  have "de_pos (devices c ! i) = Some (of_nat pos)" "pos < 8"
    using posn_eq [OF assms(1) i(1)] i(3) same_tables_key [OF s i(1)] by (simp_all add: dev_key_def)
  then have "by_pos_get (attached_devs c) pos = Some (of_nat i)"
    using pos_index_dev [OF tables_okD(1) [OF ok] len] by_pos_get_tables [OF ok] by (simp add: unat_of_nat)
  moreover have "unat (of_nat i :: u8) = i" using len devs_ok_length [OF tables_okD(1) [OF ok]] by (simp add: unat_of_nat)
  ultimately have "daa_slot c pos = Some (i, de_desired_da (devices c ! i))" using len by (simp add: daa_slot_def)
  with i that show thesis by blast
qed

text \<open>A device verified in a round leaves the pending set; no other device loses its verification.\<close>

lemma walk_step:
  assumes "tables_ok c0" "walk_inv c0 need c" "same_tables c c'" "i < length (devices c0)" "da_of c' i = DaVerified"
    "prov < length (devices c0)" "bit need (posn c0 prov)" "\<And>j. j \<noteq> prov \<Longrightarrow> j \<noteq> i \<Longrightarrow> da_of c' j = da_of c j"
  shows "walk_inv c0 (unset_bit (posn c0 i) need) c'" "card (pending c0 need) \<le> Suc (card (pending c0 (unset_bit (posn c0 i) need)))"
proof -
  note inj = posn_inj [OF assms(1)]
  have inv: "same_tables c0 c" "\<And>j. j < length (devices c0) \<Longrightarrow> needs_da (devices c0 ! j) \<Longrightarrow> bit need (posn c0 j) \<or> da_of c j = DaVerified"
      "\<And>p. bit need p \<Longrightarrow> \<exists>j < length (devices c0). needs_da (devices c0 ! j) \<and> posn c0 j = p"
    using assms(2) by (auto simp: walk_inv_def)
  have "bit (unset_bit (posn c0 i) need) (posn c0 j) \<or> da_of c' j = DaVerified"
    if "j < length (devices c0)" "needs_da (devices c0 ! j)" for j
    using inv(2) [OF that] assms(5,7,8) inj [OF that(1) assms(4)] by (cases "j = i"; cases "j = prov") (auto simp: bit_unset_bit_iff)
  moreover have "same_tables c0 c'" by (rule same_tables_trans [OF inv(1) assms(3)])
  ultimately show "walk_inv c0 (unset_bit (posn c0 i) need) c'" using inv(3) by (auto simp: walk_inv_def bit_unset_bit_iff)
  have "pending c0 need \<subseteq> insert i (pending c0 (unset_bit (posn c0 i) need))"
    using inj assms(4) by (auto simp: pending_def bit_unset_bit_iff)
  then have "card (pending c0 need) \<le> card (insert i (pending c0 (unset_bit (posn c0 i) need)))" by (intro card_mono) simp_all
  also have "\<dots> \<le> Suc (card (pending c0 (unset_bit (posn c0 i) need)))" by (simp add: card_insert_if)
  finally show "card (pending c0 need) \<le> Suc (card (pending c0 (unset_bit (posn c0 i) need)))" .
qed

lemma walk_keep:
  assumes "walk_inv c0 need c" "same_tables c c'" "bit need (posn c0 prov)" "\<And>j. j \<noteq> prov \<Longrightarrow> da_of c' j = da_of c j"
  shows "walk_inv c0 need c'"
  using assms same_tables_trans [of c0 c c'] unfolding walk_inv_def by metis

lemma bus_daa_loop_walk:
  assumes "tables_ok c0" "walk_inv c0 need c" "n \<le> verified + card (pending c0 need)"
  shows "i3c_post (bus_daa_loop H budget need pos verified) c
    (\<lambda>c' r. tables_ok c' \<and> (\<forall>need' v nack. r = Inr (need', v, nack) \<longrightarrow> walk_inv c0 need' c' \<and> n \<le> v + card (pending c0 need')))"
  using assms(2,3)
proof (induction budget arbitrary: need pos verified c)
  case 0
  have "tables_ok c" using 0(1) same_tables_ok [OF assms(1)] by (auto simp: walk_inv_def)
  then show ?case using 0 by (simp add: i3c_post_def)
next
  case (Suc budget)
  have ok: "tables_ok c" using Suc.prems(1) same_tables_ok [OF assms(1)] by (auto simp: walk_inv_def)
  show ?case
  proof (cases "need = 0 \<or> \<not> bit need pos")
    case True
    then show ?thesis using Suc ok by (auto intro!: outcome_ret)
  next
    case False
    then have need: "need \<noteq> 0" "bit need pos" by simp_all
    obtain i where i: "i < length (devices c0)" "needs_da (devices c0 ! i)" "posn c0 i = pos"
        "daa_slot c pos = Some (i, de_desired_da (devices c ! i))"
      by (rule walk_slot [OF assms(1) Suc.prems(1) need(2)])
    have s: "same_tables c0 c" using Suc.prems(1) by (simp add: walk_inv_def)
    have len: "i < length (devices c)" using i(1) same_tables_length [OF s] by simp
    have bit_i: "bit need (posn c0 i)" using need(2) i(3) by simp
    have pos_of: "de_pos (devices c ! j) = de_pos (devices c0 ! j)" if "j < length (devices c0)" for j
      using same_tables_key [OF s that] by (simp add: dev_key_def)
    let ?Q = "\<lambda>c' r. tables_ok c' \<and> (\<forall>need' v nack. r = Inr (need', v, nack) \<longrightarrow> walk_inv c0 need' c' \<and> n \<le> v + card (pending c0 need'))"
    let ?k = "\<lambda>out. case out of
              DaaNacked \<Rightarrow> ret (need, verified, True)
            | DaaOwn \<Rightarrow> bus_daa_loop H budget (unset_bit pos need) ((pos + 1) mod 8) (verified + 1)
            | DaaMoved own \<Rightarrow> bus_daa_loop H budget (case own of Some q \<Rightarrow> unset_bit q need | None \<Rightarrow> need) ((pos + 1) mod 8) (verified + 1)
            | DaaParked \<Rightarrow> bus_daa_loop H budget need pos verified"
    have cont: "i3c_post (?k out) c1 ?Q"
      if eff: "tables_ok c1" "round_effect c i out c1" for out c1
    proof (cases out)
      case DaaNacked
      then show ?thesis using eff Suc.prems ok by (auto intro!: outcome_ret simp: round_effect_def)
    next
      case DaaOwn
      then have e: "same_tables c c1" "da_of c1 i = DaVerified" "\<And>j. j \<noteq> i \<Longrightarrow> da_of c1 j = da_of c j"
        using eff(2) by (auto simp: round_effect_def)
      note st = walk_step [OF assms(1) Suc.prems(1) e(1) i(1) e(2) i(1) bit_i e(3)]
      show ?thesis unfolding DaaOwn daa_outcome.case i(3) [symmetric] by (rule Suc.IH [OF st(1)]) (use st(2) Suc.prems(2) in simp_all)
    next
      case (DaaMoved own)
      then obtain j where e: "same_tables c c1" "j < length (devices c0)" "own = map_option unat (de_pos (devices c ! j))" "da_of c1 j = DaVerified"
          "\<And>k. k \<noteq> i \<Longrightarrow> k \<noteq> j \<Longrightarrow> da_of c1 k = da_of c k"
        using eff(2) same_tables_length [OF s] by (auto simp: round_effect_def)
      have own: "own = Some (posn c0 j)" using e(3) pos_of [OF e(2)] posn_eq [OF assms(1) e(2)] by (simp add: unat_of_nat)
      note st = walk_step [OF assms(1) Suc.prems(1) e(1,2,4) i(1) bit_i e(5)]
      show ?thesis unfolding DaaMoved daa_outcome.case own option.case by (rule Suc.IH [OF st(1)]) (use st(2) Suc.prems(2) in simp_all)
    next
      case DaaParked
      then have e: "same_tables c c1" "\<And>j. j \<noteq> i \<Longrightarrow> da_of c1 j = da_of c j" using eff(2) by (auto simp: round_effect_def)
      show ?thesis unfolding DaaParked daa_outcome.case by (rule Suc.IH [OF walk_keep [OF Suc.prems(1) e(1) bit_i e(2)] Suc.prems(2)])
    qed
    have "i3c_post (ebind (daa_round H pos i (de_desired_da (devices c ! i))) ?k) c ?Q"
      by (rule outcome_ebind, rule outcome_mono [OF daa_round_effect [OF ok len refl]]) (use cont in \<open>simp split: sum.split\<close>)
    then have "i3c_post (ebind self (\<lambda>c. case daa_slot c pos of
          None \<Rightarrow> bus_daa_loop H budget (unset_bit pos need) ((pos + 1) mod 8) verified
        | Some (prov, addr) \<Rightarrow> ebind (daa_round H pos prov addr) ?k)) c ?Q"
      by - (rule outcome_self, unfold i(4) option.case prod.case)
    then show ?thesis using need by (simp only: bus_daa_loop.simps if_False not_True_eq_False)
  qed
qed

lemma bus_daa_outcome:
  assumes "tables_ok c"
  shows "i3c_post (bus_daa H) c (\<lambda>c' r. tables_ok c' \<and> (\<forall>v. r = Inr v \<longrightarrow>
    walk_inv c 0 c' \<and> card {i. i < length (devices c) \<and> needs_da (devices c ! i)} \<le> v))"
proof -
  note st = walk_start [OF assms]
  let ?n = "card {i. i < length (devices c) \<and> needs_da (devices c ! i)}"
  have loop: "i3c_post (bus_daa_loop H b (daa_need c) 0 0) c (\<lambda>c' r. tables_ok c' \<and> (\<forall>need' v nack. r = Inr (need', v, nack) \<longrightarrow>
      walk_inv c need' c' \<and> ?n \<le> v + card (pending c need')))" for b
    by (rule bus_daa_loop_walk [OF assms st(1)]) (simp add: st(2))
  have none: "pending c 0 = {}" by (simp add: pending_def)
  show ?thesis
    unfolding bus_daa_def
    by (rule outcome_eseq_keeps, rule keeps_ensure_primary, simp add: assms, rule outcome_self, rule outcome_ebind, rule outcome_mono [OF loop])
      (auto intro!: outcome_ret outcome_fail outcome_if simp: none split: sum.split)
qed

section \<open>One device\<close>

lemma tables_upd_pid:
  assumes "tables_ok c" "i < length (devices c)" "\<not> (case de_pid (devices c ! i) of Some op \<Rightarrow> pid \<noteq> op | None \<Rightarrow> False)"
  shows "tables_ok (upd_dev i (\<lambda>d. (set_verified bcr dcr d)\<lparr>de_pid := Some pid\<rparr>) c)"
proof (rule same_tables_ok [OF assms(1) upd_dev_same])
  fix d assume "d = devices c ! i"
  then show "dev_key ((set_verified bcr dcr d)\<lparr>de_pid := Some pid\<rparr>) = dev_key d"
    using assms(3) devs_ok_nth [OF tables_okD(1) [OF assms(1)] assms(2)] by (auto simp: dev_key_def set_verified_def dev_ok_def)
qed

lemma assign_entdaa_outcome:
  "i3c_post (assign_entdaa H slot i) c (\<lambda>c' r. same_tables c c')"
  unfolding assign_entdaa_def by (auto intro!: outcome_intros keeps_intros mark_da_unknown_same)

lemma assign_tables: "keeps_tables (assign_dynamic_address H a)"
proof (intro allI impI)
  fix c assume ok: "tables_ok c"
  show "i3c_post (assign_dynamic_address H a) c (\<lambda>c' r. tables_ok c')"
    unfolding assign_dynamic_address_def
  proof (rule outcome_eseq_keeps [OF keeps_ensure_primary], simp add: ok, rule outcome_self, rule outcome_option, rule outcome_fail, rule ok,
      rule outcome_option, rule outcome_fail, rule ok)
    fix slot i assume "find_dev_idx_by_addr (attached_devs c) a = Some i"
    then have i: "i < length (devices c)" by (auto simp: find_dev_idx_by_addr_def dest: position_SomeD)
    have pre: "i3c_post (if da_of c i \<noteq> DaUnassigned then ret () else assign_entdaa H slot i) c (\<lambda>c' r. same_tables c c')"
      by (auto intro!: outcome_if outcome_ret assign_entdaa_outcome)
    have tail: "i3c_post (ebind (ccc_getpid H a) (\<lambda>pid. ebind self (\<lambda>c.
          if (case de_pid (devices c ! i) of Some op \<Rightarrow> pid \<noteq> op | None \<Rightarrow> False)
          then eseq (upd (upd_dev i (set_da_state DaUnknown))) (fail I3cOther)
          else ebind (ccc_getbcr H a) (\<lambda>bcr. ebind (read_dcr H a) (\<lambda>dcr.
            eseq (upd (upd_dev i (\<lambda>d. (set_verified bcr dcr d)\<lparr>de_pid := Some pid\<rparr>)))
              (ebind self (\<lambda>c. let dyn_addr = de_dyn_addr (devices c ! i) in
                ebind (attempt (hw_cfg (\<lambda>c. hwi_ibi_enable H c dyn_addr))) (\<lambda>r.
                  eseq (upd (upd_dev i (\<lambda>d. d\<lparr>de_ibi_state := ibi_after (de_ibi_state d) r\<rparr>))) (eseq (lift r) (ret dyn_addr))))))))))
        c1 (\<lambda>c' r. tables_ok c')"
      if s: "same_tables c c1" for c1
      unfolding Let_def using same_tables_ok [OF ok s] i same_tables_length [OF s]
      by (auto intro!: outcome_intros keeps_intros tables_intros tables_upd_pid)
    show "i3c_post (eseq (if da_of c i \<noteq> DaUnassigned then ret () else assign_entdaa H slot i) (ebind (ccc_getpid H a) (\<lambda>pid. ebind self (\<lambda>c.
          if (case de_pid (devices c ! i) of Some op \<Rightarrow> pid \<noteq> op | None \<Rightarrow> False)
          then eseq (upd (upd_dev i (set_da_state DaUnknown))) (fail I3cOther)
          else ebind (ccc_getbcr H a) (\<lambda>bcr. ebind (read_dcr H a) (\<lambda>dcr.
            eseq (upd (upd_dev i (\<lambda>d. (set_verified bcr dcr d)\<lparr>de_pid := Some pid\<rparr>)))
              (ebind self (\<lambda>c. let dyn_addr = de_dyn_addr (devices c ! i) in
                ebind (attempt (hw_cfg (\<lambda>c. hwi_ibi_enable H c dyn_addr))) (\<lambda>r.
                  eseq (upd (upd_dev i (\<lambda>d. d\<lparr>de_ibi_state := ibi_after (de_ibi_state d) r\<rparr>))) (eseq (lift r) (ret dyn_addr)))))))))))
        c (\<lambda>c' r. tables_ok c')"
      by (rule outcome_eseq, rule outcome_mono [OF pre]) (use tail same_tables_ok [OF ok] in \<open>simp split: sum.split\<close>)
  qed
qed

end
