(* ===== verification/I3c_Session.thy ===== *)
theory I3c_Session
  imports I3c_Daa
begin

text \<open>
  A session of the I3C driver: any sequence of the calls that the controller and the command codes offer, and what holds of the
  tables of the driver after it.
\<close>

section \<open>Calls\<close>

datatype i3c_call =
    AttachI3c u64 u8 u8
  | AttachI2c u8 u8
  | DetachPos nat
  | DetachIdx nat
  | Recover u32
  | RecoverFull u32
  | EnableIbi u8 u8
  | DisableIbi u8
  | Reinit
  | AssignDa u8
  | BusDaa
  | SetNewDa u8 u8
  | RstDaa
  | SetMwl u8 u16
  | SetMrl u8 u16 "u8 option"
  | SetMwlAll u16
  | SetMrlAll u16 "u8 option"
  | GetMwl u8
  | GetMrl u8
  | GetMxds u8
  | EventsAll bool u8
  | EventsSet u8 bool u8
  | RstActAll rst_act_def_byte
  | PrivRead u64 "u8 list"
  | PrivWrite u64 "u8 list"
  | I2cTransaction u8 "i3c_i2c_op list"

definition without_result :: "('h, 'a) i3c_op \<Rightarrow> ('h, unit) i3c_op" where
  "without_result m = ebind m (\<lambda>_. ret ())"

fun i3c_run_call :: "'h i3c_hw \<Rightarrow> i3c_call \<Rightarrow> ('h, unit) i3c_op" where
  "i3c_run_call H (AttachI3c pid da slot) = attach_i3c_dev H pid da slot"
| "i3c_run_call H (AttachI2c sa slot) = attach_i2c_dev H sa slot"
| "i3c_run_call H (DetachPos pos) = detach_i3c_dev H pos"
| "i3c_run_call H (DetachIdx i) = detach_i3c_dev_by_idx H i"
| "i3c_run_call H (Recover n) = recover_bus H n"
| "i3c_run_call H (RecoverFull m) = recover_bus_full H m"
| "i3c_run_call H (EnableIbi a mdb) = enable_ibi H a mdb"
| "i3c_run_call H (DisableIbi a) = disable_ibi H a"
| "i3c_run_call H Reinit = reinit H"
| "i3c_run_call H (AssignDa a) = without_result (assign_dynamic_address H a)"
| "i3c_run_call H BusDaa = without_result (bus_daa H)"
| "i3c_run_call H (SetNewDa a b) = ccc_setnewda H a b"
| "i3c_run_call H RstDaa = ccc_rstdaa_all H"
| "i3c_run_call H (SetMwl a n) = ccc_setmwl H a n"
| "i3c_run_call H (SetMrl a n k) = ccc_setmrl H a n k"
| "i3c_run_call H (SetMwlAll n) = ccc_setmwl_all H n"
| "i3c_run_call H (SetMrlAll n k) = ccc_setmrl_all H n k"
| "i3c_run_call H (GetMwl a) = without_result (ccc_getmwl H a)"
| "i3c_run_call H (GetMrl a) = without_result (ccc_getmrl H a)"
| "i3c_run_call H (GetMxds a) = without_result (ccc_getmxds H a)"
| "i3c_run_call H (EventsAll e ev) = ccc_events_all_set H e ev"
| "i3c_run_call H (EventsSet a e ev) = ccc_events_set H a e ev"
| "i3c_run_call H (RstActAll x) = ccc_rstact_all H x"
| "i3c_run_call H (PrivRead pid out) = without_result (i3c_priv_read H pid out)"
| "i3c_run_call H (PrivWrite pid data) = i3c_priv_write H pid data"
| "i3c_run_call H (I2cTransaction a ops) = without_result (i3c_i2c_transaction H a ops)"

text \<open>The results of the calls, errors included, are the caller's business; the session goes on from the state they leave.\<close>

definition i3c_session :: "'h i3c_hw \<Rightarrow> i3c_call list \<Rightarrow> i3c_config \<times> 'h \<Rightarrow> i3c_config \<times> 'h" where
  "i3c_session H calls s = fold (\<lambda>call s. fst (i3c_run_call H call s)) calls s"

text \<open>What is relied on of \<open>init\<close>: it leaves the address book and the attached devices alone, as \<open>Ast1060I3c::init\<close> does.\<close>

definition init_keeps_tables :: "'h i3c_hw \<Rightarrow> bool" where
  "init_keeps_tables H \<longleftrightarrow> (\<forall>c h. case hwi_init H (c, h) of
     ((c', _), _) \<Rightarrow> addrbook c' = addrbook c \<and> attached_devs c' = attached_devs c)"

section \<open>Every call keeps the tables\<close>

lemma without_result_tables: "keeps_tables m \<Longrightarrow> keeps_tables (without_result m)"
  unfolding without_result_def by (rule ebind_tables) (auto intro: outcome_ret)

lemma tables_ok_cong: "addrbook c' = addrbook c \<Longrightarrow> attached_devs c' = attached_devs c \<Longrightarrow> tables_ok c' = tables_ok c"
  by (simp add: tables_ok_def)

lemma init_tables: "init_keeps_tables H \<Longrightarrow> keeps_tables (hwi_init H)"
  unfolding init_keeps_tables_def i3c_post_def
  by (metis (mono_tags, lifting) case_prod_unfold tables_ok_cong)

lemma reset_ibi_tables:
  "keeps_tables (upd (\<lambda>c. c\<lparr>attached_devs := (attached_devs c)\<lparr>at_devices := map (\<lambda>d. d\<lparr>de_ibi_state := IbiDisabled\<rparr>) (devices c)\<rparr>\<rparr>))"
  by (rule upd_tables, rule same_okI [OF map_devices_same]) (simp_all add: dev_key_def)

lemma reinit_tables: "init_keeps_tables H \<Longrightarrow> keeps_tables (reinit H)"
  unfolding reinit_def
  by (intro eseq_tables init_tables reset_ibi_tables ebind_tables keeps_tables_keeps keeps_for_each keeps_intros) assumption

lemma other_calls_tables:
  "keeps_tables (recover_bus H n)" "keeps_tables (recover_bus_full H m)" "keeps_tables (ccc_events_all_set H e ev)"
  "keeps_tables (ccc_events_set H a e ev)" "keeps_tables (ccc_rstact_all H x)" "keeps_tables (i3c_priv_read H pid out)"
  "keeps_tables (i3c_priv_write H pid data)" "keeps_tables (i3c_i2c_transaction H a ops)"
  unfolding recover_bus_full_def recover_bus_def ccc_events_all_set_def ccc_events_set_def ccc_rstact_all_def i3c_priv_read_def
    i3c_priv_write_def i3c_i2c_transaction_def
  by (rule keeps_tables_keeps, (intro keeps_intros))+

lemma ibi_tables: "keeps_tables (enable_ibi H a mdb)" "keeps_tables (disable_ibi H a)"
  unfolding enable_ibi_def disable_ibi_def
  by (auto intro!: outcome_intros keeps_intros tables_upd_by_addr)

lemma bus_daa_tables: "keeps_tables (bus_daa H)"
  using bus_daa_outcome outcome_mono by (metis (mono_tags, lifting))

lemmas call_tables =
  attach_i3c_dev_tables attach_i2c_dev_tables detach_i3c_dev_tables detach_by_idx_tables ibi_tables ccc_setnewda_tables
  ccc_rstdaa_tables ccc_upd_tables other_calls_tables

lemma run_call_tables: "init_keeps_tables H \<Longrightarrow> keeps_tables (i3c_run_call H call)"
  by (cases call; simp only: i3c_run_call.simps;
      (rule call_tables bus_daa_tables | (rule without_result_tables, rule call_tables assign_tables bus_daa_tables) | (rule reinit_tables, assumption)))

lemma session_tables:
  assumes "init_keeps_tables H"
  shows "tables_ok (fst s) \<Longrightarrow> tables_ok (fst (i3c_session H calls s))"
proof (induction calls arbitrary: s)
  case (Cons call calls)
  have "tables_ok (fst (fst (i3c_run_call H call s)))"
    using run_call_tables [OF assms, of call, rule_format, OF Cons.prems] by (simp add: i3c_post_def) (metis prod.collapse)
  from Cons.IH [OF this] show ?case by (simp add: i3c_session_def)
qed (simp add: i3c_session_def)

section \<open>A bus\<close>

text \<open>
  A bus for the witness: the state is the list of the PIDs that still wait for an address and the address that each assigned
  PID has. \<open>ENTDAA\<close> for a slot lets the first waiting target claim the address programmed for the slot, \<open>SETNEWDA\<close> moves a target, \<open>GETPID\<close> reads the PID at an
  address.
\<close>

record demo_bus =
  bus_dat :: "nat \<Rightarrow> u8"
  bus_waiting :: "u64 list"
  bus_at :: "(u8 \<times> u64) list"

definition pid_bytes :: "u64 \<Rightarrow> u8 list" where
  "pid_bytes pid = map (\<lambda>i. ucast (drop_bit (8 * (5 - i)) pid)) [0, 1, 2, 3, 4, 5]"

definition answer_with :: "u8 list \<Rightarrow> ccc_payload \<Rightarrow> ccc_payload" where
  "answer_with bs p = p\<lparr>cp_targets := map_option (map (\<lambda>t. t\<lparr>tp_data := Some bs\<rparr>)) (cp_targets p)\<rparr>"

definition demo_ccc :: "i3c_config \<Rightarrow> ccc_payload \<Rightarrow> (demo_bus, i3c_error, ccc_payload) reg_op" where
  "demo_ccc c p b =
     (case (cp_ccc p, cp_targets p) of
        (Some d, Some [t]) \<Rightarrow>
          (case map_of (bus_at b) (tp_addr t) of
             None \<Rightarrow> (b, Inl I3cAddressNack)
           | Some pid \<Rightarrow>
               if ccc_id d = I3C_CCC_GETPID then (b, Inr (answer_with (pid_bytes pid) p))
               else if ccc_id d = I3C_CCC_SETNEWDA
               then (b\<lparr>bus_at := map (\<lambda>(a, q). if a = tp_addr t then (drop_bit 1 (hd (the (tp_data t))), q) else (a, q)) (bus_at b)\<rparr>, Inr p)
               else (b, Inr p))
      | _ \<Rightarrow> (b, Inr p))"

definition demo_entdaa :: "i3c_config \<Rightarrow> u32 \<Rightarrow> (demo_bus, i3c_error, unit) reg_op" where
  "demo_entdaa c slot b =
     (case bus_waiting b of
        [] \<Rightarrow> (b, Inl I3cDaaNack)
      | pid # pids \<Rightarrow> (b\<lparr>bus_waiting := pids, bus_at := (bus_dat b (unat slot), pid) # bus_at b\<rparr>, Inr ()))"

definition demo_hw :: "demo_bus i3c_hw" where
  "demo_hw =
     \<lparr>hwi_init = ret (), hwi_bus_num = (\<lambda>_. 0), hwi_set_ibi_mdb = (\<lambda>_ h. h), hwi_reset_ctrl = (\<lambda>_. ret ()),
      hwi_ibi_enable = (\<lambda>_ _. ret ()), hwi_ibi_disable = (\<lambda>_ _. ret ()), hwi_detach_dev = (\<lambda>_ h. h),
      hwi_attach_i3c = (\<lambda>pos a. act (\<lambda>b. b\<lparr>bus_dat := (bus_dat b)(pos := a)\<rparr>)), hwi_attach_i2c = (\<lambda>_ _. ret ()),
      hwi_i2c_priv_xfer = (\<lambda>_ _ ops. ret ops), hwi_do_ccc = demo_ccc, hwi_do_entdaa = demo_entdaa,
      hwi_priv_xfer = (\<lambda>_ _ msgs. ret msgs), hwi_mark_xfer_faulted = (\<lambda>h. h), hwi_enter_sw_mode = (\<lambda>h. h),
      hwi_exit_sw_mode = (\<lambda>h. h), hwi_toggle_scl_in = (\<lambda>_ h. h), hwi_gen_internal_stop = (\<lambda>h. h),
      hwi_target_ibi_raise_hj = (\<lambda>_. ret ()), hwi_target_pending_read_notify = (\<lambda>_ _ _. ret ())\<rparr>"

lemma demo_init: "init_keeps_tables demo_hw"
  by (simp add: init_keeps_tables_def demo_hw_def)

text \<open>Two targets that answer in the order opposite to their slots.\<close>

definition demo_calls :: "i3c_call list" where
  "demo_calls = [AttachI3c 0x111 0x10 0, AttachI3c 0x222 0x20 1, AttachI3c 0x333 0x30 1]"

definition demo_start :: demo_bus where
  "demo_start = \<lparr>bus_dat = (\<lambda>_. 0), bus_waiting = [0x222, 0x111], bus_at = []\<rparr>"

section \<open>Properties\<close>

text \<open>
  C39: The tables of the I3C driver stay consistent, and address assignment is complete. Take a hardware whose \<open>init\<close> leaves the address
  book and the attached devices alone, as that of the repository does, and that otherwise answers every operation as it likes, errors and timeouts
  included; a configuration whose address book and devices are those of \<open>I3cConfig::new\<close>; and any sequence of calls
  of the controller and of the command codes, whatever they return. Then at most one device has each
  position and each address, \<open>by_pos\<close> maps exactly the positions of the attached devices, each to its device, no two I3C devices share a PID, and the address of
  every device is marked as used and not reserved. If \<open>bus_daa\<close> then returns \<open>Ok(v)\<close>, every I3C device that had no address is
  verified, the positions, addresses and PIDs are as before, and \<open>v\<close> is at least the number of those devices.
\<close>

theorem i3c_tables_consistent:
  assumes "init_keeps_tables H" "addrbook c = addrbook i3c_config_new" "attached_devs c = attached_devs i3c_config_new"
    and "i3c_session H calls (c, h) = (c1, h1)"
  shows "distinct (map de_pos (devices c1)) \<and> distinct (map de_dyn_addr (devices c1)) \<and> distinct (i3c_pids (devices c1))
    \<and> at_by_pos (attached_devs c1) = pos_index (devices c1)
    \<and> (\<forall>d \<in> set (devices c1). \<not> ab_is_free (addrbook c1) (de_dyn_addr d) \<and> \<not> ab_is_reserved (addrbook c1) (de_dyn_addr d))
    \<and> (\<forall>c2 h2 v. bus_daa H (c1, h1) = ((c2, h2), Inr v) \<longrightarrow> map dev_key (devices c2) = map dev_key (devices c1)
        \<and> (\<forall>i < length (devices c1). needs_da (devices c1 ! i) \<longrightarrow> da_of c2 i = DaVerified)
        \<and> card {i. i < length (devices c1) \<and> needs_da (devices c1 ! i)} \<le> v)"
proof -
  have "tables_ok c" using tables_ok_new tables_ok_cong [OF assms(2,3)] by simp
  then have ok: "tables_ok c1" using session_tables [OF assms(1), of "(c, h)" calls] assms(4) by simp
  note t = tables_okD [OF ok]
  have "de_dyn_addr d < 128" if "d \<in> set (devices c1)" for d
    using t(1) that by (force simp: devs_ok_def list_all_iff dev_ok_def dest: less_trans [of _ "0x7E :: u8" 128])
  with t have "\<forall>d \<in> set (devices c1). \<not> ab_is_free (addrbook c1) (de_dyn_addr d) \<and> \<not> ab_is_reserved (addrbook c1) (de_dyn_addr d)"
    by (auto simp: ab_is_free_iff ab_is_reserved_iff not_le)
  moreover have "map dev_key (devices c2) = map dev_key (devices c1)
        \<and> (\<forall>i < length (devices c1). needs_da (devices c1 ! i) \<longrightarrow> da_of c2 i = DaVerified)
        \<and> card {i. i < length (devices c1) \<and> needs_da (devices c1 ! i)} \<le> v"
    if "bus_daa H (c1, h1) = ((c2, h2), Inr v)" for c2 h2 v
    using outcomeD [OF bus_daa_outcome [OF ok] that] by (auto simp: walk_inv_def same_tables_def)
  ultimately show ?thesis using t(1,2) by (auto simp: devs_ok_def)
qed

text \<open>
  On the bus with two targets the third attach is refused, and the walk verifies both although each first claims the address of the other.
\<close>

theorem i3c_tables_consistent_witness:
  "case i3c_session demo_hw demo_calls (i3c_config_new, demo_start) of (c1, b1) \<Rightarrow>
     at_by_pos (attached_devs c1) = pos_index (devices c1) \<and> length (devices c1) = 2
   \<and> (case bus_daa demo_hw (c1, b1) of ((c2, b2), r) \<Rightarrow> r = Inr 2 \<and> da_of c2 0 = DaVerified \<and> da_of c2 1 = DaVerified)"
proof -
  obtain c1 b1 where s: "i3c_session demo_hw demo_calls (i3c_config_new, demo_start) = (c1, b1)" by fastforce
  obtain c2 b2 r where d: "bus_daa demo_hw (c1, b1) = ((c2, b2), r)" by (metis prod.collapse)
  have "length (devices (fst (i3c_session demo_hw demo_calls (i3c_config_new, demo_start)))) = 2 \<and>
      snd (bus_daa demo_hw (i3c_session demo_hw demo_calls (i3c_config_new, demo_start))) = Inr 2 \<and>
      list_all needs_da (devices (fst (i3c_session demo_hw demo_calls (i3c_config_new, demo_start))))"
    by code_simp
  with s d have "length (devices c1) = 2" "r = Inr 2" "needs_da (devices c1 ! 0)" "needs_da (devices c1 ! 1)"
    by (simp_all add: list_all_length)
  with i3c_tables_consistent [OF demo_init refl refl s] s d show ?thesis by simp
qed

end
