(* ===== verification/Sm_Model.thy ===== *)
theory Sm_Model
  imports Prelude
begin

text \<open>
  The vocabulary of the boot-sequence state machine, \<open>services/orchestrator/sm/src/model.rs\<close>:
  component attributes, events, effects, states, and the validated chain of trust
  (\<open>Chain::try_from\<close>) with the theorem that validation accepts exactly the well-formed chains.
  A newtype over \<open>u8\<close> (\<open>ComponentId\<close>, \<open>RegionId\<close>) is the word itself; a \<open>&'static str\<close> is a
  string.
\<close>

section \<open>Component model\<close>

type_synonym component_id = u8
type_synonym region_id = u8

datatype component_kind = Active | Passive

datatype failure_policy = Required | Isolable | Cascading

record component_attrs =
  kind :: component_kind
  failure_policy :: failure_policy
  recovery_region :: region_id
  depends_on :: "component_id option"

definition active_required :: component_attrs where
  "active_required = \<lparr>kind = Active, failure_policy = Required, recovery_region = 0, depends_on = None\<rparr>"

definition passive_required :: component_attrs where
  "passive_required = \<lparr>kind = Passive, failure_policy = Required, recovery_region = 0, depends_on = None\<rparr>"

definition active_isolable :: component_attrs where
  "active_isolable = \<lparr>kind = Active, failure_policy = Isolable, recovery_region = 0, depends_on = None\<rparr>"

definition passive_isolable :: component_attrs where
  "passive_isolable = \<lparr>kind = Passive, failure_policy = Isolable, recovery_region = 0, depends_on = None\<rparr>"

definition active_cascading :: component_attrs where
  "active_cascading = \<lparr>kind = Active, failure_policy = Cascading, recovery_region = 0, depends_on = None\<rparr>"

definition passive_cascading :: component_attrs where
  "passive_cascading = \<lparr>kind = Passive, failure_policy = Cascading, recovery_region = 0, depends_on = None\<rparr>"

definition with_region :: "component_attrs \<Rightarrow> region_id \<Rightarrow> component_attrs" where
  "with_region a region = a\<lparr>recovery_region := region\<rparr>"

definition with_depends_on :: "component_attrs \<Rightarrow> component_id \<Rightarrow> component_attrs" where
  "with_depends_on a dependency = a\<lparr>depends_on := Some dependency\<rparr>"

lemmas attrs_builders =
  active_required_def passive_required_def active_isolable_def passive_isolable_def
  active_cascading_def passive_cascading_def with_region_def with_depends_on_def

section \<open>Events, effects and states\<close>

datatype power_on_result = Provisioned | Unprovisioned | SelfVerificationFailed

datatype boot_failure_kind = TimedOut | DeviceRetriable | DeviceFatal

datatype event =
    PowerGood power_on_result
  | VerificationPassed component_id
  | VerificationFailed component_id
  | ComponentReady component_id
  | Booted component_id
  | AttestationChallenge
  | UpdateRequest
  | UpdateVerified
  | UpdateRejected
  | BootConfirmed component_id
  | CorruptionDetected component_id
  | Restored component_id
  | RecoveryUnavailable component_id
  | RecoveryFailed
  | BootFailed component_id string boot_failure_kind
  | Timeout component_id
  | CommitTimeout
  | EffectFailed

fun event_component_id :: "event \<Rightarrow> component_id option" where
  "event_component_id (VerificationPassed cid) = Some cid"
| "event_component_id (VerificationFailed cid) = Some cid"
| "event_component_id (ComponentReady cid) = Some cid"
| "event_component_id (Booted cid) = Some cid"
| "event_component_id (BootConfirmed cid) = Some cid"
| "event_component_id (CorruptionDetected cid) = Some cid"
| "event_component_id (Restored cid) = Some cid"
| "event_component_id (RecoveryUnavailable cid) = Some cid"
| "event_component_id (BootFailed cid _ _) = Some cid"
| "event_component_id (Timeout cid) = Some cid"
| "event_component_id (PowerGood _) = None"
| "event_component_id AttestationChallenge = None"
| "event_component_id UpdateRequest = None"
| "event_component_id UpdateVerified = None"
| "event_component_id UpdateRejected = None"
| "event_component_id RecoveryFailed = None"
| "event_component_id CommitTimeout = None"
| "event_component_id EffectFailed = None"

datatype effect =
    ReadFirmware component_id
  | VerifyFirmware component_id
  | ReleaseReset component_id
  | AssertReset component_id
  | SignAttestation
  | AuthenticateUpdate
  | StageUpdate
  | ActivateUpdate
  | DiscardStaged
  | CommitSvnFloor component_id
  | RecoverComponent component_id u8
  | ReportIsolated component_id
  | ReportRecoveryFailed component_id
  | ReportBootFailed component_id string boot_failure_kind
  | ReportUpdateDeferred
  | ReportUpdateAborted
  | LatchLockdown
  | Emit event

datatype state =
    PowerOnReset
  | PreSupervision
  | AwaitingReady "component_id option"
  | Ready
  | Updating
  | Recovering component_id
  | Locked

section \<open>The validated chain of trust\<close>

type_synonym entry = "component_id \<times> component_attrs"

datatype chain_error =
    EmptyChain
  | TooLong
  | DuplicateId component_id
  | UnknownDependency component_id component_id
  | ForwardDependency component_id component_id

text \<open>
  The first loop of \<open>try_from\<close>: \<open>seen\<close> is the prefix \<open>entries[..i]\<close>. The second loop looks each
  \<open>depends_on\<close> up in the whole entry list and compares its index with the current one.
\<close>

fun check_unique :: "entry list \<Rightarrow> entry list \<Rightarrow> chain_error option" where
  "check_unique seen [] = None"
| "check_unique seen (e # rest) =
     (if list_ex (\<lambda>p. fst p = fst e) seen then Some (DuplicateId (fst e))
      else check_unique (seen @ [e]) rest)"

fun check_deps :: "entry list \<Rightarrow> nat \<Rightarrow> entry list \<Rightarrow> chain_error option" where
  "check_deps entries i [] = None"
| "check_deps entries i (e # rest) =
     (case depends_on (snd e) of
        None \<Rightarrow> check_deps entries (Suc i) rest
      | Some dep \<Rightarrow>
          (case position (\<lambda>p. fst p = dep) entries of
             None \<Rightarrow> Some (UnknownDependency (fst e) dep)
           | Some j \<Rightarrow> if j \<ge> i then Some (ForwardDependency (fst e) dep)
                       else check_deps entries (Suc i) rest))"

definition chain_try_from :: "entry list \<Rightarrow> (chain_error, entry list) result" where
  "chain_try_from entries =
     (if entries = [] then Inl EmptyChain
      else if length entries > 255 then Inl TooLong
      else case check_unique [] entries of
        Some e \<Rightarrow> Inl e
      | None \<Rightarrow>
          (case check_deps entries 0 entries of
             Some e \<Rightarrow> Inl e
           | None \<Rightarrow> Inr entries))"

text \<open>What the machine relies on: the structural invariant of a chain, stated independently.\<close>

definition chain_ok :: "entry list \<Rightarrow> bool" where
  "chain_ok entries \<longleftrightarrow>
     entries \<noteq> [] \<and> length entries \<le> 255 \<and> distinct (map fst entries) \<and>
     (\<forall>i < length entries. \<forall>d. depends_on (snd (entries ! i)) = Some d \<longrightarrow>
        (\<exists>j < i. fst (entries ! j) = d))"

lemma list_ex_key: "list_ex (\<lambda>p. fst p = k) xs \<longleftrightarrow> k \<in> fst ` set xs"
  by (induction xs) auto

lemma check_unique_None_iff:
  "check_unique seen rest = None \<longleftrightarrow>
     distinct (map fst rest) \<and> fst ` set rest \<inter> fst ` set seen = {}"
proof (induction rest arbitrary: seen)
  case (Cons e rest)
  then show ?case by (simp add: list_ex_key) blast
qed simp

lemma check_unique_SomeD:
  "check_unique seen rest = Some err \<Longrightarrow>
     \<exists>i < length rest. err = DuplicateId (fst (rest ! i)) \<and>
       fst (rest ! i) \<in> fst ` set (seen @ take i rest)"
proof (induction rest arbitrary: seen)
  case (Cons e rest)
  show ?case
  proof (cases "list_ex (\<lambda>p. fst p = fst e) seen")
    case True
    with Cons.prems have "err = DuplicateId (fst e)" by simp
    moreover from True have "fst e \<in> fst ` set seen" by (simp add: list_ex_key)
    ultimately show ?thesis by (intro exI [of _ 0]) simp
  next
    case False
    with Cons.prems have "check_unique (seen @ [e]) rest = Some err" by simp
    from Cons.IH [OF this] obtain i where "i < length rest" "err = DuplicateId (fst (rest ! i))"
        "fst (rest ! i) \<in> fst ` set ((seen @ [e]) @ take i rest)"
      by blast
    then show ?thesis by (intro exI [of _ "Suc i"]) auto
  qed
qed simp

lemma position_less_iff:
  assumes "distinct (map fst entries)" "k \<le> length entries"
  shows "(\<exists>j. position (\<lambda>p. fst p = d) entries = Some j \<and> j < k) \<longleftrightarrow> (\<exists>j < k. fst (entries ! j) = d)"
proof
  assume "\<exists>j < k. fst (entries ! j) = d"
  then obtain j where j: "j < k" "fst (entries ! j) = d" by blast
  with assms have "position (\<lambda>p. fst p = d) entries = Some j"
    using position_distinct [of fst entries j] by simp
  with j show "\<exists>j. position (\<lambda>p. fst p = d) entries = Some j \<and> j < k" by blast
qed (use assms in \<open>auto dest: position_SomeD\<close>)

lemma check_deps_None_iff:
  "check_deps entries i rest = None \<longleftrightarrow>
     (\<forall>k < length rest. \<forall>d. depends_on (snd (rest ! k)) = Some d \<longrightarrow>
        (\<exists>j. position (\<lambda>p. fst p = d) entries = Some j \<and> j < i + k))"
proof (induction rest arbitrary: i)
  case (Cons e rest)
  have split: "(\<forall>k < length (e # rest). P k) \<longleftrightarrow> P 0 \<and> (\<forall>k < length rest. P (Suc k))" for P
    by (auto simp: less_Suc_eq_0_disj)
  show ?case unfolding split
    by (auto simp: Cons split: option.splits)
qed simp

lemma chain_try_from_ok_iff: "chain_try_from entries = Inr entries' \<longleftrightarrow> entries' = entries \<and> chain_ok entries"
proof -
  have "check_deps entries 0 entries = None \<longleftrightarrow>
      (\<forall>i < length entries. \<forall>d. depends_on (snd (entries ! i)) = Some d \<longrightarrow>
        (\<exists>j < i. fst (entries ! j) = d))" if "distinct (map fst entries)"
    using that by (simp add: check_deps_None_iff position_less_iff)
  moreover have "check_unique [] entries = None \<longleftrightarrow> distinct (map fst entries)"
    by (simp add: check_unique_None_iff)
  ultimately show ?thesis
    by (cases "check_unique [] entries"; cases "check_deps entries 0 entries")
      (auto simp: chain_try_from_def chain_ok_def)
qed

lemma check_deps_SomeD:
  assumes "check_deps entries i rest = Some err"
  shows "\<exists>k < length rest. \<exists>d. depends_on (snd (rest ! k)) = Some d \<and>
     (err = UnknownDependency (fst (rest ! k)) d \<and> d \<notin> fst ` set entries \<or>
      err = ForwardDependency (fst (rest ! k)) d \<and>
        (\<exists>j. position (\<lambda>p. fst p = d) entries = Some j \<and> j \<ge> i + k))"
  using assms
proof (induction rest arbitrary: i)
  case (Cons e rest)
  let ?here = "\<lambda>k. \<exists>d. depends_on (snd ((e # rest) ! k)) = Some d \<and>
     (err = UnknownDependency (fst ((e # rest) ! k)) d \<and> d \<notin> fst ` set entries \<or>
      err = ForwardDependency (fst ((e # rest) ! k)) d \<and>
        (\<exists>j. position (\<lambda>p. fst p = d) entries = Some j \<and> j \<ge> i + k))"
  show ?case
  proof (cases "check_deps entries (Suc i) rest = Some err")
    case True
    from Cons.IH [OF this] obtain k where "k < length rest" and "?here (Suc k)" by auto
    then show ?thesis by (intro exI [of _ "Suc k"]) simp
  next
    case False
    with Cons.prems have "?here 0"
      by (auto simp: position_None_iff split: option.splits if_splits)
    then show ?thesis by (intro exI [of _ 0]) simp
  qed
qed simp

end
