(* ===== verification/Capabilities.thy ===== *)
theory Capabilities
  imports Sm_Model
begin

text \<open>
  The capability contracts of the orchestrator
  (\<open>services/orchestrator/capabilities\<close>): the liveness vocabulary (\<open>evidence.rs\<close>), the verdicts of
  a boot walk (\<open>boot_watch.rs\<close>) and the anti-rollback floor (\<open>svn_floor.rs\<close>). A Rust trait is a
  locale: its methods are the fixed operations, what its documentation promises are the
  assumptions, and what a client may rely on is proved inside. The components that implement a
  trait interpret the locale.
\<close>

section \<open>Vocabulary\<close>

datatype boot_status = BsBooting | BsBooted | BsFailedRetriable | BsFailedFatal

datatype failure_cause = FcTimedOut | FcDeviceRetriable | FcDeviceFatal

datatype walk_verdict =
    WvWaiting u64
  | WvComplete
  | WvFailed string failure_cause

type_synonym svn = u32

text \<open>\<open>u64::MAX\<close>\<close>

definition no_deadline :: u64 where
  "no_deadline = - 1"

fun terminal :: "walk_verdict \<Rightarrow> bool" where
  "terminal (WvWaiting _) = False"
| "terminal WvComplete = True"
| "terminal (WvFailed _ _) = True"

section \<open>Boot supervision\<close>

text \<open>
  \<open>BootWatch\<close>. \<open>active\<close> is whether an attempt is in flight: \<open>arm\<close> starts one, a terminal verdict ends
  it, and without one a poll has nothing to report and changes nothing.
\<close>

fun polls :: "('w \<Rightarrow> u64 \<Rightarrow> 'w \<times> walk_verdict) \<Rightarrow> 'w \<Rightarrow> u64 list \<Rightarrow> 'w \<times> walk_verdict list" where
  "polls poll w [] = (w, [])"
| "polls poll w (t # ts) = (let (w1, v) = poll w t; (w2, vs) = polls poll w1 ts in (w2, v # vs))"

locale boot_watch =
  fixes arm :: "'w \<Rightarrow> 'w"
    and poll :: "'w \<Rightarrow> u64 \<Rightarrow> 'w \<times> walk_verdict"
    and active :: "'w \<Rightarrow> bool"
  assumes arm_active: "active (arm w)"
    and poll_idle: "\<not> active w \<Longrightarrow> poll w now = (w, WvWaiting no_deadline)"
    and poll_active: "active w \<Longrightarrow> active (fst (poll w now)) \<longleftrightarrow> \<not> terminal (snd (poll w now))"
begin

lemma idle_polls: "\<not> active w \<Longrightarrow> polls poll w ts = (w, map (\<lambda>_. WvWaiting no_deadline) ts)"
  by (induction ts) (auto simp: poll_idle)

lemma one_verdict_per_attempt: "length (filter terminal (snd (polls poll w ts))) \<le> 1"
proof (induction ts arbitrary: w)
  case (Cons t ts)
  obtain w1 v where p: "poll w t = (w1, v)" by (cases "poll w t")
  obtain w2 vs where r: "polls poll w1 ts = (w2, vs)" by (cases "polls poll w1 ts")
  show ?case
  proof (cases "terminal v")
    case True
    with p have "active w" using poll_idle [of w t] by (cases "active w") auto
    with True p have "\<not> active w1" using poll_active [of w t] by simp
    from idle_polls [OF this, of ts] r have "filter terminal vs = []" by (auto simp: filter_empty_conv)
    with p r True show ?thesis by simp
  next
    case False
    with Cons.IH [of w1] p r show ?thesis by simp
  qed
qed simp

end

section \<open>Anti-rollback floor\<close>

text \<open>
  \<open>SvnFloor\<close>. A successful advance raises the floor to the target or leaves it where it is, a
  failed one (a torn write included) never lowers it.
\<close>

fun advances :: "('f \<Rightarrow> svn \<Rightarrow> 'f \<times> ('e, unit) result) \<Rightarrow> 'f \<Rightarrow> svn list \<Rightarrow> 'f" where
  "advances advance f [] = f"
| "advances advance f (s # ss) = advances advance (fst (advance f s)) ss"

locale svn_floor =
  fixes floor_value :: "'f \<Rightarrow> nat"
    and advance :: "'f \<Rightarrow> svn \<Rightarrow> 'f \<times> ('e, unit) result"
    and valid :: "'f \<Rightarrow> bool"
  assumes advance_valid: "valid f \<Longrightarrow> valid (fst (advance f to))"
    and advance_ok: "valid f \<Longrightarrow> snd (advance f to) = Inr () \<Longrightarrow>
        floor_value (fst (advance f to)) = max (floor_value f) (unat to)"
    and advance_err: "valid f \<Longrightarrow> snd (advance f to) = Inl e \<Longrightarrow>
        floor_value f \<le> floor_value (fst (advance f to))"
begin

lemma advance_mono: "valid f \<Longrightarrow> floor_value f \<le> floor_value (fst (advance f to))"
  using advance_ok [of f to] advance_err [of f to] by (cases "snd (advance f to)") auto

lemma advances_mono: "valid f \<Longrightarrow> floor_value f \<le> floor_value (advances advance f ss)"
proof (induction ss arbitrary: f)
  case (Cons s ss)
  have "floor_value f \<le> floor_value (fst (advance f s))" by (rule advance_mono [OF Cons.prems])
  also have "\<dots> \<le> floor_value (advances advance (fst (advance f s)) ss)"
    by (rule Cons.IH [OF advance_valid [OF Cons.prems]])
  finally show ?case by simp
qed simp

lemma advances_valid: "valid f \<Longrightarrow> valid (advances advance f ss)"
  by (induction ss arbitrary: f) (auto intro: advance_valid)

text \<open>A committed target stays a lower bound of the floor, whatever is committed later.\<close>

lemma committed_stays:
  assumes "valid f" "snd (advance f to) = Inr ()"
  shows "unat to \<le> floor_value (advances advance (fst (advance f to)) ss)"
  using advances_mono [OF advance_valid [OF assms(1)], of to ss] advance_ok [OF assms] by simp

text \<open>A replayed or lower commit that succeeds changes nothing.\<close>

lemma replay_noop:
  "valid f \<Longrightarrow> snd (advance f to) = Inr () \<Longrightarrow> unat to \<le> floor_value f \<Longrightarrow>
     floor_value (fst (advance f to)) = floor_value f"
  using advance_ok [of f to] by simp

end

end
