(* ===== verification/Sm_Storage.thy ===== *)
theory Sm_Storage
  imports Sm_Model
begin

text \<open>
  The shared storage \<open>Rot\<close> of the state machine and the operations on it
  (\<open>services/orchestrator/sm/src/lib.rs\<close>, first \<open>impl Rot\<close> block): status look-up, gating,
  retry counters, boot watchdogs, the chain walk, the quiesce before a re-walk, and the
  breadth-first cascade.

  A handler of the source appends effects to its \<open>Sink\<close> and never reads it, so an operation
  returns the list of effects it emits, in order; the buffer that the engine drains is this list
  pushed into a \<open>Sink\<close> of capacity \<open>E\<close> (\<open>sink_fill\<close>, theory \<open>Sm_Machine\<close>). An index into
  \<open>statuses\<close> always comes from a look-up in \<open>chain\<close>; the two lists have the same length in every
  state the machine reaches, which is part of the invariant proved in \<open>Sm_Invariant\<close>, so the
  indexing never panics.
\<close>

section \<open>State\<close>

datatype outcome = Handled | Transition state | Super

datatype gating = Gated | NotGated

datatype component_lifecycle = Nominal | Isolated

record component_status =
  lifecycle :: component_lifecycle
  retry :: u8
  awaiting_boot :: bool
  released :: bool

definition default_status :: component_status where
  "default_status = \<lparr>lifecycle = Nominal, retry = 0, awaiting_boot = False, released = False\<rparr>"

record rot =
  chain :: "entry list"
  cursor :: u8
  statuses :: "component_status list"
  max_retry :: u8
  pending_commit :: bool

definition rot_new :: "entry list \<Rightarrow> u8 \<Rightarrow> rot" where
  "rot_new ch mr =
     \<lparr>chain = ch, cursor = 0, statuses = map (\<lambda>_. default_status) [0..<length ch],
      max_retry = mr, pending_commit = False\<rparr>"

section \<open>Look-ups\<close>

definition attrs_of :: "rot \<Rightarrow> component_id \<Rightarrow> component_attrs option" where
  "attrs_of r cid = map_option snd (find (\<lambda>p. fst p = cid) (chain r))"

definition status_index :: "rot \<Rightarrow> component_id \<Rightarrow> nat option" where
  "status_index r cid = position (\<lambda>p. fst p = cid) (chain r)"

definition in_chain :: "rot \<Rightarrow> component_id \<Rightarrow> bool" where
  "in_chain r cid \<longleftrightarrow> status_index r cid \<noteq> None"

definition is_gated :: "rot \<Rightarrow> component_id \<Rightarrow> bool" where
  "is_gated r cid =
     (case status_index r cid of
        None \<Rightarrow> False
      | Some i \<Rightarrow> lifecycle (statuses r ! i) = Isolated)"

text \<open>
  \<open>if let Some(i) = self.status_index(id) { self.statuses[i] = f(self.statuses[i]) }\<close>, the shape
  of every write to a component's record.
\<close>

definition upd_status :: "rot \<Rightarrow> component_id \<Rightarrow> (component_status \<Rightarrow> component_status) \<Rightarrow> rot" where
  "upd_status r cid f =
     (case status_index r cid of
        None \<Rightarrow> r
      | Some i \<Rightarrow> r\<lparr>statuses := (statuses r)[i := f (statuses r ! i)]\<rparr>)"

section \<open>Gating, retry counters and watchdogs\<close>

definition gate_one :: "rot \<Rightarrow> component_id \<Rightarrow> rot \<times> effect list \<times> bool" where
  "gate_one r cid =
     (if is_gated r cid then (r, [], False)
      else (upd_status r cid (\<lambda>s. s\<lparr>lifecycle := Isolated, awaiting_boot := False, released := False\<rparr>),
            [AssertReset cid, ReportIsolated cid], True))"

definition bump_retry :: "rot \<Rightarrow> component_id \<Rightarrow> rot \<times> u8" where
  "bump_retry r cid =
     (case status_index r cid of
        Some i \<Rightarrow>
          (let v = saturating_add (retry (statuses r ! i)) 1
           in (r\<lparr>statuses := (statuses r)[i := (statuses r ! i)\<lparr>retry := v\<rparr>]\<rparr>, v))
      | None \<Rightarrow> (r, 0))"

definition clear_retry :: "rot \<Rightarrow> component_id \<Rightarrow> rot" where
  "clear_retry r cid = upd_status r cid (\<lambda>s. s\<lparr>retry := 0\<rparr>)"

definition mark_released :: "rot \<Rightarrow> component_id \<Rightarrow> rot" where
  "mark_released r cid = upd_status r cid (\<lambda>s. s\<lparr>awaiting_boot := True, released := True\<rparr>)"

definition clear_awaiting_boot :: "rot \<Rightarrow> component_id \<Rightarrow> rot" where
  "clear_awaiting_boot r cid = upd_status r cid (\<lambda>s. s\<lparr>awaiting_boot := False\<rparr>)"

definition is_awaiting_boot :: "rot \<Rightarrow> component_id \<Rightarrow> bool" where
  "is_awaiting_boot r cid =
     (case status_index r cid of None \<Rightarrow> False | Some i \<Rightarrow> awaiting_boot (statuses r ! i))"

section \<open>The chain walk\<close>

function advance_to_next_ungated :: "rot \<Rightarrow> nat \<Rightarrow> rot \<times> effect list \<times> bool" where
  "advance_to_next_ungated r idx =
     (if idx < length (chain r) then
        (let cid = fst (chain r ! idx) in
         if \<not> is_gated r cid
         then (r\<lparr>cursor := of_nat idx\<rparr>, [ReadFirmware cid, VerifyFirmware cid], True)
         else advance_to_next_ungated r (Suc idx))
      else (r\<lparr>cursor := of_nat (length (chain r))\<rparr>, [], False))"
  by pat_completeness auto
termination
  by (relation "measure (\<lambda>(r, idx). length (chain r) - idx)") auto

declare advance_to_next_ungated.simps [simp del]

fun quiesce_loop :: "nat list \<Rightarrow> rot \<Rightarrow> rot \<times> effect list" where
  "quiesce_loop [] r = (r, [])"
| "quiesce_loop (i # is) r =
     (if \<not> released (statuses r ! i) then quiesce_loop is r
      else
        (let s = statuses r ! i;
             r1 = r\<lparr>statuses := (statuses r)[i := s\<lparr>released := False, awaiting_boot := False\<rparr>]\<rparr>;
             (r2, es) = quiesce_loop is r1
         in (r2, AssertReset (fst (chain r ! i)) # es)))"

definition quiesce_all :: "rot \<Rightarrow> rot \<times> effect list" where
  "quiesce_all r = quiesce_loop [0..<length (chain r)] r"

section \<open>Cascading isolation\<close>

fun gate_list :: "rot \<Rightarrow> component_id list \<Rightarrow> rot \<times> effect list" where
  "gate_list r [] = (r, [])"
| "gate_list r (cid # ids) =
     (let (r1, es1, _) = gate_one r cid; (r2, es2) = gate_list r1 ids in (r2, es1 @ es2))"

text \<open>The inner loop of \<open>cascade_hold\<close>: \<open>dependents\<close> is a vector of capacity \<open>N\<close>.\<close>

definition dependents_of :: "nat \<Rightarrow> entry list \<Rightarrow> component_id list \<Rightarrow> component_id \<Rightarrow> component_id list" where
  "dependents_of N ch frontier holder =
     foldl (push_or_drop N) []
       (map fst (filter (\<lambda>p. depends_on (snd p) = Some holder \<and> fst p \<notin> set frontier) ch))"

function cascade_loop :: "nat \<Rightarrow> rot \<Rightarrow> component_id list \<Rightarrow> nat \<Rightarrow> rot \<times> effect list" where
  "cascade_loop N r frontier i =
     (if i < length frontier then
        (let dependents = dependents_of N (chain r) frontier (frontier ! i);
             (r1, es1) = gate_list r dependents;
             (r2, es2) = cascade_loop N r1 (foldl (push_or_drop N) frontier dependents) (Suc i)
         in (r2, es1 @ es2))
      else (r, []))"
  by pat_completeness auto
termination
proof (relation "measure (\<lambda>(N, r, frontier, i). max N (length frontier) - i)")
  fix N :: nat and r :: rot and frontier :: "component_id list" and i :: nat
    and ds r1 es1 x1 x2
  assume "i < length frontier"
  then show "((N, x1, foldl (push_or_drop N) frontier ds, Suc i), N, r, frontier, i)
      \<in> measure (\<lambda>(N, r, frontier, i). max N (length frontier) - i)"
    using length_foldl_push_or_drop [of N frontier ds] by simp
qed simp

declare cascade_loop.simps [simp del]

definition cascade_hold :: "nat \<Rightarrow> rot \<Rightarrow> component_id \<Rightarrow> rot \<times> effect list" where
  "cascade_hold N r root =
     (let (r1, es1, _) = gate_one r root;
          (r2, es2) = cascade_loop N r1 (push_or_drop N [] root) 0
      in (r2, es1 @ es2))"

section \<open>Policy decisions\<close>

definition gate_by_policy :: "nat \<Rightarrow> rot \<Rightarrow> component_id \<Rightarrow> rot \<times> effect list \<times> gating" where
  "gate_by_policy N r cid =
     (case map_option failure_policy (attrs_of r cid) of
        Some Cascading \<Rightarrow> (let (r1, es) = cascade_hold N r cid in (r1, es, Gated))
      | Some Isolable \<Rightarrow> (let (r1, es, _) = gate_one r cid in (r1, es, Gated))
      | _ \<Rightarrow> (r, [], NotGated))"

definition exhaust_recovery :: "nat \<Rightarrow> rot \<Rightarrow> component_id \<Rightarrow> rot \<times> effect list \<times> outcome" where
  "exhaust_recovery N r failed =
     (case gate_by_policy N r failed of
        (r1, es, Gated) \<Rightarrow> (clear_retry r1 failed, es, Transition PreSupervision)
      | (r1, es, NotGated) \<Rightarrow>
          (r1, es @ [ReportRecoveryFailed failed, Emit RecoveryFailed], Handled))"

definition handle_corruption :: "nat \<Rightarrow> rot \<Rightarrow> component_id \<Rightarrow> rot \<times> effect list \<times> outcome" where
  "handle_corruption N r cid =
     (if is_gated r cid then (r, [], Handled)
      else case gate_by_policy N r cid of
        (r1, es, Gated) \<Rightarrow> (r1, es, Handled)
      | (r1, es, NotGated) \<Rightarrow> (r1, es, Transition (Recovering cid)))"

text \<open>\<open>self.chain.get(self.cursor as usize)\<close>\<close>

definition at_cursor :: "rot \<Rightarrow> entry option" where
  "at_cursor r =
     (if unat (cursor r) < length (chain r) then Some (chain r ! unat (cursor r)) else None)"

definition handle_corruption_advancing :: "nat \<Rightarrow> rot \<Rightarrow> component_id \<Rightarrow> rot \<times> effect list \<times> outcome" where
  "handle_corruption_advancing N r cid =
     (let (r1, es1, out) = handle_corruption N r cid;
          cursor_gated = (case at_cursor r1 of None \<Rightarrow> False | Some e \<Rightarrow> is_gated r1 (fst e))
      in if out \<noteq> Handled \<or> \<not> cursor_gated then (r1, es1, out)
         else
           (let (r2, es2, found) = advance_to_next_ungated r1 (unat (cursor r1) + 1)
            in (r2, es1 @ es2, if found then Handled else Transition Ready)))"

end
