(* ===== verification/Sm_Machine.thy ===== *)
theory Sm_Machine
  imports Sm_Storage
begin

text \<open>
  The state machine proper and its engine (\<open>services/orchestrator/sm/src/lib.rs\<close>): the per-state
  handlers (\<open>Rot::handle\<close>, one definition per arm), the superstate handler
  (\<open>Rot::handle_supervising\<close>), the entry actions, \<open>Orchestrator::step\<close>, and the dispatch loop
  \<open>Orchestrator::dispatch_with\<close> with its bounded event queue.
\<close>

section \<open>Per-state handlers\<close>

definition handle_power_on_reset :: "rot \<Rightarrow> event \<Rightarrow> rot \<times> effect list \<times> outcome" where
  "handle_power_on_reset r ev =
     (case ev of
        PowerGood Provisioned \<Rightarrow> (r, [], Transition PreSupervision)
      | PowerGood Unprovisioned \<Rightarrow> (r, [], Transition Locked)
      | PowerGood SelfVerificationFailed \<Rightarrow> (r, [], Transition Locked)
      | EffectFailed \<Rightarrow> (r, [], Transition Locked)
      | _ \<Rightarrow> (r, [], Super))"

text \<open>
  The release of the component under verification, common to \<open>PreSupervision\<close> and
  \<open>AwaitingReady\<close>: clear the retry streak, emit \<open>ReleaseReset\<close>, mark it released, advance.
\<close>

definition release_and_advance :: "rot \<Rightarrow> component_id \<Rightarrow> rot \<times> effect list \<times> bool" where
  "release_and_advance r cid =
     (let r1 = mark_released (clear_retry r cid) cid;
          (r2, es, found) = advance_to_next_ungated r1 (unat (cursor r1) + 1)
      in (r2, ReleaseReset cid # es, found))"

definition handle_pre_supervision :: "nat \<Rightarrow> rot \<Rightarrow> event \<Rightarrow> rot \<times> effect list \<times> outcome" where
  "handle_pre_supervision N r ev =
     (case ev of
        VerificationPassed cid \<Rightarrow>
          (if map_option fst (at_cursor r) \<noteq> Some cid then (r, [], Handled)
           else
             (let current_kind = map_option (\<lambda>e. kind (snd e)) (at_cursor r);
                  (r1, es, found) = release_and_advance r cid
              in if found then
                   (case current_kind of
                      Some Active \<Rightarrow> (r1, es, Transition (AwaitingReady (Some cid)))
                    | _ \<Rightarrow> (r1, es, Handled))
                 else (r1, es, Transition Ready)))
      | VerificationFailed cid \<Rightarrow>
          (if is_gated r cid then (r, [], Handled) else (r, [], Transition (Recovering cid)))
      | CorruptionDetected cid \<Rightarrow> handle_corruption_advancing N r cid
      | Booted cid \<Rightarrow> (clear_awaiting_boot r cid, [], Handled)
      | Timeout cid \<Rightarrow>
          (if is_awaiting_boot r cid then (r, [], Transition (Recovering cid)) else (r, [], Handled))
      | BootFailed cid checkpoint k \<Rightarrow>
          (if \<not> is_awaiting_boot r cid then (r, [], Handled)
           else if k = DeviceFatal then
             (let (r1, es, out) = handle_corruption_advancing N r cid
              in (r1, ReportBootFailed cid checkpoint k # es, out))
           else (r, [ReportBootFailed cid checkpoint k], Transition (Recovering cid)))
      | EffectFailed \<Rightarrow> (r, [], Transition Locked)
      | _ \<Rightarrow> (r, [], Super))"

definition handle_awaiting_ready ::
    "nat \<Rightarrow> rot \<Rightarrow> component_id option \<Rightarrow> event \<Rightarrow> rot \<times> effect list \<times> outcome" where
  "handle_awaiting_ready N r awaiting ev =
     (case ev of
        ComponentReady cid \<Rightarrow>
          (let r1 = clear_awaiting_boot r cid in
           if awaiting \<noteq> Some cid then (r1, [], Handled)
           else if unat (cursor r1) \<ge> length (chain r1) then (r1, [], Transition Ready)
           else (r1, [], Transition (AwaitingReady None)))
      | VerificationPassed cid \<Rightarrow>
          (if map_option fst (at_cursor r) \<noteq> Some cid then (r, [], Handled)
           else
             (let (r1, es, found) = release_and_advance r cid
              in if found then (r1, es, Handled) else (r1, es, Transition Ready)))
      | VerificationFailed cid \<Rightarrow>
          (if is_gated r cid then (r, [], Handled) else (r, [], Transition (Recovering cid)))
      | CorruptionDetected cid \<Rightarrow> handle_corruption_advancing N r cid
      | BootFailed cid checkpoint k \<Rightarrow>
          (if k = DeviceFatal \<and> is_awaiting_boot r cid then
             (let (r1, es, out) = handle_corruption_advancing N r cid
              in (r1, ReportBootFailed cid checkpoint DeviceFatal # es, out))
           else (r, [], Super))
      | _ \<Rightarrow> (r, [], Super))"

definition handle_ready :: "rot \<Rightarrow> event \<Rightarrow> rot \<times> effect list \<times> outcome" where
  "handle_ready r ev =
     (case ev of
        UpdateRequest \<Rightarrow> (r, [], Transition Updating)
      | BootConfirmed cid \<Rightarrow> (r\<lparr>pending_commit := False\<rparr>, [CommitSvnFloor cid], Handled)
      | CommitTimeout \<Rightarrow> if pending_commit r then (r, [], Transition Locked) else (r, [], Handled)
      | _ \<Rightarrow> (r, [], Super))"

definition handle_updating :: "nat \<Rightarrow> rot \<Rightarrow> event \<Rightarrow> rot \<times> effect list \<times> outcome" where
  "handle_updating N r ev =
     (case ev of
        UpdateVerified \<Rightarrow> (r\<lparr>pending_commit := True\<rparr>, [ActivateUpdate], Transition Ready)
      | UpdateRejected \<Rightarrow> (r, [DiscardStaged], Transition Ready)
      | CorruptionDetected cid \<Rightarrow>
          (case handle_corruption N r cid of
             (r1, es, Transition (Recovering c)) \<Rightarrow>
               (r1, es @ [DiscardStaged, ReportUpdateAborted], Transition (Recovering c))
           | other \<Rightarrow> other)
      | _ \<Rightarrow> (r, [], Super))"

definition handle_recovering ::
    "nat \<Rightarrow> rot \<Rightarrow> component_id \<Rightarrow> event \<Rightarrow> rot \<times> effect list \<times> outcome" where
  "handle_recovering N r failed ev =
     (case ev of
        Restored cid \<Rightarrow>
          (if cid \<noteq> failed then (r, [], Handled)
           else
             (let (r1, attempts) = bump_retry r failed
              in if attempts < max_retry r1 then (r1, [], Transition PreSupervision)
                 else exhaust_recovery N r1 failed))
      | RecoveryUnavailable cid \<Rightarrow>
          (if cid \<noteq> failed then (r, [], Handled) else exhaust_recovery N r failed)
      | RecoveryFailed \<Rightarrow> (r, [], Transition Locked)
      | _ \<Rightarrow> (r, [], Super))"

definition handle :: "nat \<Rightarrow> rot \<Rightarrow> state \<Rightarrow> event \<Rightarrow> rot \<times> effect list \<times> outcome" where
  "handle N r st ev =
     (case st of
        PowerOnReset \<Rightarrow> handle_power_on_reset r ev
      | PreSupervision \<Rightarrow> handle_pre_supervision N r ev
      | AwaitingReady awaiting \<Rightarrow> handle_awaiting_ready N r awaiting ev
      | Ready \<Rightarrow> handle_ready r ev
      | Updating \<Rightarrow> handle_updating N r ev
      | Recovering failed \<Rightarrow> handle_recovering N r failed ev
      | Locked \<Rightarrow> (r, [], Super))"

section \<open>The supervising handler and the entry actions\<close>

definition handle_supervising :: "nat \<Rightarrow> rot \<Rightarrow> event \<Rightarrow> rot \<times> effect list \<times> outcome" where
  "handle_supervising N r ev =
     (case ev of
        AttestationChallenge \<Rightarrow> (r, [SignAttestation], Handled)
      | CorruptionDetected cid \<Rightarrow> handle_corruption N r cid
      | ComponentReady cid \<Rightarrow> (clear_awaiting_boot r cid, [], Handled)
      | Booted cid \<Rightarrow> (clear_awaiting_boot r cid, [], Handled)
      | Timeout cid \<Rightarrow>
          (if is_awaiting_boot r cid then (r, [], Transition (Recovering cid)) else (r, [], Handled))
      | BootFailed cid checkpoint k \<Rightarrow>
          (if \<not> is_awaiting_boot r cid then (r, [], Handled)
           else if k = DeviceFatal then
             (let (r1, es, out) = handle_corruption N r cid
              in (r1, ReportBootFailed cid checkpoint k # es, out))
           else (r, [ReportBootFailed cid checkpoint k], Transition (Recovering cid)))
      | UpdateRequest \<Rightarrow> (r, [ReportUpdateDeferred], Handled)
      | EffectFailed \<Rightarrow> (r, [], Transition Locked)
      | _ \<Rightarrow> (r, [], Super))"

definition entry_action :: "rot \<Rightarrow> state \<Rightarrow> rot \<times> effect list" where
  "entry_action r st =
     (case st of
        PreSupervision \<Rightarrow>
          (let (r1, es1) = quiesce_all r;
               (r2, es2, _) = advance_to_next_ungated r1 0
           in (r2, es1 @ es2))
      | Updating \<Rightarrow> (r\<lparr>pending_commit := False\<rparr>, [AuthenticateUpdate, StageUpdate])
      | Recovering failed \<Rightarrow>
          (let r1 = clear_awaiting_boot (r\<lparr>pending_commit := False\<rparr>) failed
           in case status_index r1 failed of
                Some i \<Rightarrow>
                  (r1\<lparr>statuses := (statuses r1)[i := (statuses r1 ! i)\<lparr>released := False\<rparr>]\<rparr>,
                   [RecoverComponent failed (retry (statuses r1 ! i))])
              | None \<Rightarrow> (r1, [RecoverComponent failed 0]))
      | Locked \<Rightarrow> (r, [LatchLockdown])
      | Ready \<Rightarrow> (r\<lparr>statuses := map (\<lambda>s. s\<lparr>retry := 0\<rparr>) (statuses r)\<rparr>, [])
      | _ \<Rightarrow> (r, []))"

section \<open>The engine\<close>

record orchestrator =
  orot :: rot
  ostate :: state

definition orchestrator_new :: "entry list \<Rightarrow> u8 \<Rightarrow> orchestrator" where
  "orchestrator_new ch mr = \<lparr>orot = rot_new ch mr, ostate = PowerOnReset\<rparr>"

fun is_supervised :: "state \<Rightarrow> bool" where
  "is_supervised (AwaitingReady _) = True"
| "is_supervised Ready = True"
| "is_supervised Updating = True"
| "is_supervised (Recovering _) = True"
| "is_supervised _ = False"

text \<open>
  \<open>Orchestrator::step\<close>: the membership guard, the leaf handler, the supervising handler on
  \<open>Super\<close>, then the transition with the entry action of its target. The effects of all three
  land in one buffer, in this order.
\<close>

definition step :: "nat \<Rightarrow> orchestrator \<Rightarrow> event \<Rightarrow> orchestrator \<times> effect list" where
  "step N orc ev =
     (if (case event_component_id ev of None \<Rightarrow> False | Some cid \<Rightarrow> \<not> in_chain (orot orc) cid)
      then (orc, [])
      else
        (let (r1, es1, out1) = handle N (orot orc) (ostate orc) ev;
             (r2, es2, out2) =
               (if out1 = Super \<and> is_supervised (ostate orc) then handle_supervising N r1 ev
                else (r1, [], out1))
         in case out2 of
              Transition target \<Rightarrow>
                (let (r3, es3) = entry_action r2 target
                 in (\<lparr>orot = r3, ostate = target\<rparr>, es1 @ es2 @ es3))
            | _ \<Rightarrow> (orc\<lparr>orot := r2\<rparr>, es1 @ es2)))"

text \<open>\<open>Sink::emit\<close> on a buffer of capacity \<open>E\<close>: an effect that does not fit is dropped.\<close>

definition sink_emit :: "nat \<Rightarrow> effect list \<Rightarrow> effect \<Rightarrow> effect list" where
  "sink_emit E sink e = push_or_drop E sink e"

definition sink_fill :: "nat \<Rightarrow> effect list \<Rightarrow> effect list" where
  "sink_fill E es = foldl (sink_emit E) [] es"

definition PENDING_CAP :: nat where
  "PENDING_CAP = 8"

text \<open>The fail-closed latch: evict the newest queued event if there is no room.\<close>

definition latch :: "event list \<Rightarrow> event list" where
  "latch pending =
     (let p = (if length pending = PENDING_CAP then butlast pending else pending)
      in case push_front_cap PENDING_CAP p EffectFailed of None \<Rightarrow> p | Some q \<Rightarrow> q)"

text \<open>
  An executor is the closure \<open>on_effect\<close> with the state it captures: it returns \<open>Err(EffectError)\<close>
  (\<^term>\<open>Inl ()\<close>) or \<open>Ok\<close> of an optional follow-up event.
\<close>

type_synonym 'p executor = "'p \<Rightarrow> effect \<Rightarrow> 'p \<times> (unit, event option) result"

fun drain_effects ::
    "'p executor \<Rightarrow> effect list \<Rightarrow> 'p \<Rightarrow> event list \<Rightarrow> bool \<Rightarrow> 'p \<times> event list \<times> bool" where
  "drain_effects on_effect [] p pending failed = (p, pending, failed)"
| "drain_effects on_effect (e # es) p pending failed =
     (case (case e of Emit internal \<Rightarrow> (p, Inr (Some internal)) | _ \<Rightarrow> on_effect p e) of
        (p1, Inl _) \<Rightarrow>
          (if \<not> failed then (p1, latch pending, True) else (p1, pending, failed))
      | (p1, Inr None) \<Rightarrow> drain_effects on_effect es p1 pending failed
      | (p1, Inr (Some next)) \<Rightarrow>
          (case push_cap PENDING_CAP pending next of
             Some pending1 \<Rightarrow> drain_effects on_effect es p1 pending1 failed
           | None \<Rightarrow>
               (if \<not> failed then (p1, latch pending, True)
                else drain_effects on_effect es p1 pending failed)))"

text \<open>
  The \<open>while\<close> loop of \<open>dispatch_with\<close>. An executor that answers every effect with a new event can
  keep it running forever (the source says so), so not returning is the value \<open>None\<close>.
\<close>

partial_function (option) dispatch_loop ::
    "nat \<Rightarrow> nat \<Rightarrow> 'p executor \<Rightarrow> orchestrator \<Rightarrow> 'p \<Rightarrow> event list \<Rightarrow> bool
       \<Rightarrow> (orchestrator \<times> 'p \<times> bool) option" where
  "dispatch_loop N E on_effect orc p pending failed =
     (case pending of
        [] \<Rightarrow> Some (orc, p, failed)
      | ev # rest \<Rightarrow>
          (let (orc1, es) = step N orc ev;
               (p1, pending1, failed1) = drain_effects on_effect (sink_fill E es) p rest failed
           in dispatch_loop N E on_effect orc1 p1 pending1 failed1))"

declare dispatch_loop.simps [code]

definition dispatch_with ::
    "nat \<Rightarrow> nat \<Rightarrow> 'p executor \<Rightarrow> orchestrator \<Rightarrow> 'p \<Rightarrow> event
       \<Rightarrow> (orchestrator \<times> 'p \<times> bool) option" where
  "dispatch_with N E on_effect orc p ev = dispatch_loop N E on_effect orc p [ev] False"

end
