(* ===== verification/Sm_Lemmas.thy ===== *)
theory Sm_Lemmas
  imports Sm_Machine
begin

text \<open>
  The lemma library of the state machine. The storage is read through \<open>status_of\<close>, the map from
  component ids to status records; each storage operation is characterised once by its effect on
  that map (\<open>gates\<close> for the gating family, \<open>advance_cases\<close> for the walk, \<open>quiesce_all_spec\<close> for the
  pre-walk hold), and every property of the machine is proved from these characterisations.
\<close>

section \<open>The status map\<close>

definition status_of :: "rot \<Rightarrow> component_id \<Rightarrow> component_status option" where
  "status_of r cid = map_option (\<lambda>i. statuses r ! i) (status_index r cid)"

definition ids :: "rot \<Rightarrow> component_id set" where
  "ids r = fst ` set (chain r)"

text \<open>A live component is nominal, and a component that owes a boot signal is live.\<close>

definition status_ok :: "component_status \<Rightarrow> bool" where
  "status_ok s \<longleftrightarrow> (awaiting_boot s \<longrightarrow> released s) \<and> (released s \<longrightarrow> lifecycle s = Nominal)"

definition wf_rot :: "rot \<Rightarrow> bool" where
  "wf_rot r \<longleftrightarrow>
     chain_ok (chain r) \<and> length (statuses r) = length (chain r) \<and>
     unat (cursor r) \<le> length (chain r) \<and> list_all status_ok (statuses r)"

lemma rot_update_frame [simp]:
  "status_index (r\<lparr>statuses := ss\<rparr>) c = status_index r c"
  "status_index (r\<lparr>cursor := k\<rparr>) c = status_index r c"
  "status_index (r\<lparr>pending_commit := b\<rparr>) c = status_index r c"
  "status_of (r\<lparr>cursor := k\<rparr>) c = status_of r c"
  "status_of (r\<lparr>pending_commit := b\<rparr>) c = status_of r c"
  "is_gated (r\<lparr>cursor := k\<rparr>) c = is_gated r c"
  "is_gated (r\<lparr>pending_commit := b\<rparr>) c = is_gated r c"
  "is_awaiting_boot (r\<lparr>cursor := k\<rparr>) c = is_awaiting_boot r c"
  "is_awaiting_boot (r\<lparr>pending_commit := b\<rparr>) c = is_awaiting_boot r c"
  "ids (r\<lparr>statuses := ss\<rparr>) = ids r" "ids (r\<lparr>cursor := k\<rparr>) = ids r"
  "ids (r\<lparr>pending_commit := b\<rparr>) = ids r"
  by (simp_all add: status_index_def status_of_def is_gated_def is_awaiting_boot_def ids_def
      split: option.split)

lemma in_chain_iff: "in_chain r c \<longleftrightarrow> c \<in> ids r"
  by (force simp: in_chain_def status_index_def ids_def position_None_iff)

lemma status_index_SomeD:
  "status_index r c = Some i \<Longrightarrow> i < length (chain r) \<and> fst (chain r ! i) = c"
  unfolding status_index_def by (drule position_SomeD) simp

lemma status_of_None_iff: "status_of r c = None \<longleftrightarrow> c \<notin> ids r"
  using in_chain_iff [of r c] by (auto simp: status_of_def in_chain_def)

lemma wf_rotD:
  assumes "wf_rot r"
  shows wf_distinct: "distinct (map fst (chain r))"
    and wf_length: "length (statuses r) = length (chain r)"
    and wf_length_le: "length (chain r) \<le> 255"
    and wf_nonempty: "chain r \<noteq> []"
    and wf_cursor: "unat (cursor r) \<le> length (chain r)"
    and wf_chain: "chain_ok (chain r)"
  using assms by (auto simp: wf_rot_def chain_ok_def)

lemma status_index_nth:
  "wf_rot r \<Longrightarrow> i < length (chain r) \<Longrightarrow> status_index r (fst (chain r ! i)) = Some i"
  unfolding status_index_def by (rule position_distinct) (auto dest: wf_distinct)

lemma status_of_nth:
  "wf_rot r \<Longrightarrow> i < length (chain r) \<Longrightarrow> status_of r (fst (chain r ! i)) = Some (statuses r ! i)"
  by (simp add: status_of_def status_index_nth)

lemma wf_status_ok:
  assumes "wf_rot r" "status_of r c = Some s"
  shows "status_ok s"
proof -
  from assms(2) obtain i where "status_index r c = Some i" "s = statuses r ! i"
    by (auto simp: status_of_def)
  with assms(1) show ?thesis
    by (auto simp: wf_rot_def list_all_length dest: status_index_SomeD)
qed

lemma wf_rotI:
  assumes "chain_ok (chain r)" "length (statuses r) = length (chain r)"
    "unat (cursor r) \<le> length (chain r)"
    and ok: "\<And>c s. status_of r c = Some s \<Longrightarrow> status_ok s"
  shows "wf_rot r"
proof -
  have "status_ok (statuses r ! i)" if "i < length (statuses r)" for i
  proof (rule ok)
    have "status_index r (fst (chain r ! i)) = Some i"
      unfolding status_index_def using that assms(1,2)
      by (intro position_distinct) (auto simp: chain_ok_def)
    then show "status_of r (fst (chain r ! i)) = Some (statuses r ! i)"
      by (simp add: status_of_def)
  qed
  with assms show ?thesis by (simp add: wf_rot_def list_all_length)
qed

lemma is_gated_status:
  "is_gated r c \<longleftrightarrow> (\<exists>s. status_of r c = Some s \<and> lifecycle s = Isolated)"
  by (auto simp: is_gated_def status_of_def split: option.splits)

lemma is_awaiting_boot_status:
  "is_awaiting_boot r c \<longleftrightarrow> (\<exists>s. status_of r c = Some s \<and> awaiting_boot s)"
  by (auto simp: is_awaiting_boot_def status_of_def split: option.splits)

definition is_released :: "rot \<Rightarrow> component_id \<Rightarrow> bool" where
  "is_released r c \<longleftrightarrow> (\<exists>s. status_of r c = Some s \<and> released s)"

lemma gated_not_released: "wf_rot r \<Longrightarrow> is_gated r c \<Longrightarrow> \<not> is_released r c"
  by (auto simp: is_gated_status is_released_def status_ok_def dest: wf_status_ok)

lemma awaiting_released: "wf_rot r \<Longrightarrow> is_awaiting_boot r c \<Longrightarrow> is_released r c"
  by (auto simp: is_awaiting_boot_status is_released_def status_ok_def dest: wf_status_ok)

lemma awaiting_not_gated: "wf_rot r \<Longrightarrow> is_awaiting_boot r c \<Longrightarrow> \<not> is_gated r c"
  using gated_not_released awaiting_released by blast

lemma gated_in_ids: "is_gated r c \<Longrightarrow> c \<in> ids r"
  by (metis is_gated_status option.distinct(1) status_of_None_iff)

section \<open>Status updates\<close>

text \<open>
  Two storages agree outside the status map. \<open>same_frame\<close> is what every status update keeps;
  the walk changes the cursor only.
\<close>

definition same_frame :: "rot \<Rightarrow> rot \<Rightarrow> bool" where
  "same_frame r r' \<longleftrightarrow>
     chain r' = chain r \<and> cursor r' = cursor r \<and> max_retry r' = max_retry r \<and>
     pending_commit r' = pending_commit r \<and> length (statuses r') = length (statuses r)"

lemma same_frame_refl [simp]: "same_frame r r"
  by (simp add: same_frame_def)

lemma same_frame_trans: "same_frame r1 r2 \<Longrightarrow> same_frame r2 r3 \<Longrightarrow> same_frame r1 r3"
  by (simp add: same_frame_def)

lemma same_frame_simps:
  assumes "same_frame r r'"
  shows "chain r' = chain r" "cursor r' = cursor r" "max_retry r' = max_retry r"
    "pending_commit r' = pending_commit r" "length (statuses r') = length (statuses r)"
    "ids r' = ids r" "status_index r' c = status_index r c" "attrs_of r' c = attrs_of r c"
    "in_chain r' c = in_chain r c" "at_cursor r' = at_cursor r"
  using assms
  by (auto simp: same_frame_def ids_def status_index_def attrs_of_def in_chain_def at_cursor_def)

lemma same_frame_upd_status [simp]: "same_frame r (upd_status r c f)"
  by (simp add: same_frame_def upd_status_def split: option.split)

lemma status_of_upd_status:
  assumes "length (statuses r) = length (chain r)"
  shows "status_of (upd_status r c f) d = (if d = c then map_option f (status_of r c) else status_of r d)"
proof -
  have sidx: "status_index (upd_status r c f) d = status_index r d"
    by (simp add: same_frame_simps(7) [OF same_frame_upd_status])
  show ?thesis
  proof (cases "status_index r c")
    case None
    then show ?thesis by (auto simp: status_of_def upd_status_def)
  next
    case (Some i)
    then have i: "i < length (statuses r)" "fst (chain r ! i) = c"
      using assms by (auto dest: status_index_SomeD)
    have "status_index r d = Some j \<Longrightarrow> d \<noteq> c \<Longrightarrow> j \<noteq> i" for j
      using i(2) by (auto dest: status_index_SomeD)
    then show ?thesis
      using Some i by (cases "status_index r d") (auto simp: status_of_def sidx upd_status_def)
  qed
qed

lemma wf_rot_statusI:
  assumes "wf_rot r" "same_frame r r'"
    and "\<And>c s. status_of r' c = Some s \<Longrightarrow> status_ok s"
  shows "wf_rot r'"
  using assms by (intro wf_rotI) (auto simp: same_frame_def dest: wf_rotD)

lemma wf_upd_status:
  assumes "wf_rot r" "\<And>s. status_of r c = Some s \<Longrightarrow> status_ok s \<Longrightarrow> status_ok (f s)"
  shows "wf_rot (upd_status r c f)"
proof (rule wf_rot_statusI [OF assms(1) same_frame_upd_status])
  fix d s assume "status_of (upd_status r c f) d = Some s"
  then show "status_ok s"
    using assms by (auto simp: status_of_upd_status [OF wf_length [OF assms(1)]]
        split: if_splits dest: wf_status_ok)
qed

section \<open>The gating family\<close>

definition gate_status :: "component_status \<Rightarrow> component_status" where
  "gate_status s = s\<lparr>lifecycle := Isolated, awaiting_boot := False, released := False\<rparr>"

lemma gate_status_eta:
  "(\<lambda>s. s\<lparr>lifecycle := Isolated, awaiting_boot := False, released := False\<rparr>) = gate_status"
  by (simp add: gate_status_def fun_eq_iff)

definition gate_effects :: "component_id list \<Rightarrow> effect list" where
  "gate_effects gs = concat (map (\<lambda>c. [AssertReset c, ReportIsolated c]) gs)"

text \<open>
  \<open>gates r gs es r'\<close>: from \<open>r\<close>, exactly the components \<open>gs\<close>, all of the chain and none of them
  isolated before, were isolated, one after the other, with their two effects each.
\<close>

definition gates :: "rot \<Rightarrow> component_id list \<Rightarrow> effect list \<Rightarrow> rot \<Rightarrow> bool" where
  "gates r gs es r' \<longleftrightarrow>
     distinct gs \<and> set gs \<subseteq> ids r \<and> (\<forall>c \<in> set gs. \<not> is_gated r c) \<and> es = gate_effects gs \<and>
     same_frame r r' \<and>
     (\<forall>c. status_of r' c = (if c \<in> set gs then map_option gate_status (status_of r c) else status_of r c))"

lemma gates_is_gated:
  assumes "gates r gs es r'"
  shows "is_gated r' c \<longleftrightarrow> is_gated r c \<or> c \<in> set gs"
proof (cases "c \<in> set gs")
  case True
  with assms have "c \<in> ids r" by (auto simp: gates_def)
  then obtain s where "status_of r c = Some s"
    using status_of_None_iff [of r c] by (cases "status_of r c") auto
  with True assms show ?thesis by (auto simp: gates_def is_gated_status gate_status_def)
next
  case False
  with assms show ?thesis by (simp add: gates_def is_gated_status)
qed

lemma gates_released: "gates r gs es r' \<Longrightarrow> is_released r' c \<longleftrightarrow> is_released r c \<and> c \<notin> set gs"
  by (auto simp: gates_def is_released_def gate_status_def split: if_splits)

lemma gates_refl: "gates r [] [] r"
  by (simp add: gates_def gate_effects_def)

lemma gates_trans:
  assumes 1: "gates r gs es r1" and 2: "gates r1 hs fs r2"
  shows "gates r (gs @ hs) (es @ fs) r2"
proof -
  have frame: "same_frame r r1" "same_frame r1 r2"
    using 1 2 by (auto simp: gates_def)
  have fresh: "\<forall>c \<in> set hs. \<not> is_gated r c \<and> c \<notin> set gs"
    using 2 gates_is_gated [OF 1] by (auto simp: gates_def)
  show ?thesis
    using 1 2 fresh same_frame_trans [OF frame]
    by (auto simp: gates_def gate_effects_def same_frame_simps [OF frame(1)])
qed

lemma gate_one_gates:
  assumes "wf_rot r" "c \<in> ids r" "gate_one r c = (r', es, b)"
  shows "gates r (if is_gated r c then [] else [c]) es r'"
  using assms
  by (auto simp: gate_one_def gates_refl gates_def gate_effects_def gate_status_eta
      status_of_upd_status wf_length)

lemma gates_wf: "wf_rot r \<Longrightarrow> gates r gs es r' \<Longrightarrow> wf_rot r'"
  by (rule wf_rot_statusI)
    (auto simp: gates_def status_ok_def gate_status_def split: if_splits dest: wf_status_ok)

lemma gate_list_gates:
  assumes "wf_rot r" "set cs \<subseteq> ids r" "gate_list r cs = (r', es)"
  shows "\<exists>gs. gates r gs es r' \<and> set gs = {c \<in> set cs. \<not> is_gated r c}"
  using assms
proof (induction cs arbitrary: r es)
  case Nil
  then show ?case by (auto intro: gates_refl)
next
  case (Cons c cs)
  obtain r1 es1 b where one: "gate_one r c = (r1, es1, b)" by (cases "gate_one r c") auto
  with Cons.prems obtain es2 where rest: "gate_list r1 cs = (r', es2)" and es: "es = es1 @ es2"
    by (auto split: prod.splits)
  let ?gs = "if is_gated r c then [] else [c]"
  have g1: "gates r ?gs es1 r1"
    using Cons.prems(1,2) one by (intro gate_one_gates) auto
  then have frame: "same_frame r r1" by (simp add: gates_def)
  obtain hs where g2: "gates r1 hs es2 r'" and hs: "set hs = {d \<in> set cs. \<not> is_gated r1 d}"
    using Cons.IH [OF gates_wf [OF Cons.prems(1) g1] _ rest] Cons.prems(2)
    by (auto simp: same_frame_simps [OF frame])
  have "set (?gs @ hs) = {d \<in> set (c # cs). \<not> is_gated r d}"
    using hs gates_is_gated [OF g1] by auto
  with gates_trans [OF g1 g2] es show ?case by blast
qed

text \<open>The transitive dependents of a component, and the component itself.\<close>

inductive dependent_on :: "entry list \<Rightarrow> component_id \<Rightarrow> component_id \<Rightarrow> bool" for ch root where
  dependent_root: "dependent_on ch root root"
| dependent_step:
    "dependent_on ch root d \<Longrightarrow> (c, a) \<in> set ch \<Longrightarrow> depends_on a = Some d \<Longrightarrow> dependent_on ch root c"

lemma dependents_of_eq:
  assumes "length ch \<le> N"
  shows "dependents_of N ch frontier holder =
    map fst (filter (\<lambda>p. depends_on (snd p) = Some holder \<and> fst p \<notin> set frontier) ch)"
proof -
  have "length (filter P ch) \<le> N" for P
    using length_filter_le [of P ch] assms by linarith
  then show ?thesis by (simp add: dependents_of_def foldl_push_or_drop)
qed

lemma distinct_ids_length:
  "distinct cs \<Longrightarrow> set cs \<subseteq> ids r \<Longrightarrow> length cs \<le> length (chain r)"
  by (metis card_image_le card_mono distinct_card finite_imageI finite_set ids_def le_trans
      card_length)

text \<open>
  The loop of the cascade: the frontier is a duplicate-free list of dependents of the root whose
  first \<open>i\<close> elements already have all their direct dependents in it. Nothing is lost to the
  capacity \<open>N\<close> of the two vectors, and when the loop ends the frontier is closed.
\<close>

definition frontier_ok :: "rot \<Rightarrow> component_id \<Rightarrow> component_id list \<Rightarrow> nat \<Rightarrow> bool" where
  "frontier_ok r root frontier i \<longleftrightarrow>
     distinct frontier \<and> root \<in> set frontier \<and> set frontier \<subseteq> ids r \<and>
     (\<forall>c \<in> set frontier. dependent_on (chain r) root c \<and> is_gated r c) \<and>
     (\<forall>k < i. k < length frontier \<longrightarrow>
        (\<forall>(c, a) \<in> set (chain r). depends_on a = Some (frontier ! k) \<longrightarrow> c \<in> set frontier))"

lemma frontier_closed:
  assumes "frontier_ok r root frontier i" "length frontier \<le> i" "dependent_on (chain r) root c"
  shows "c \<in> set frontier"
  using assms(3)
proof (induction rule: dependent_on.induct)
  case dependent_root
  show ?case using assms(1) by (simp add: frontier_ok_def)
next
  case (dependent_step d c a)
  then obtain k where k: "k < length frontier" "frontier ! k = d"
    by (auto simp: in_set_conv_nth)
  with assms(2) have "k < i" by simp
  with k assms(1) have "\<forall>(c, a) \<in> set (chain r). depends_on a = Some d \<longrightarrow> c \<in> set frontier"
    unfolding frontier_ok_def by blast
  with dependent_step show ?case by blast
qed

lemma frontier_step:
  assumes wf: "wf_rot r" and N: "length (chain r) \<le> N"
    and ok: "frontier_ok r root frontier i" and i: "i < length frontier"
    and ds: "ds = dependents_of N (chain r) frontier (frontier ! i)"
    and g: "gates r gs es r1" "set gs = {c \<in> set ds. \<not> is_gated r c}"
  shows "set ds \<subseteq> ids r \<and> foldl (push_or_drop N) frontier ds = frontier @ ds \<and>
    frontier_ok r1 root (frontier @ ds) (Suc i) \<and> (\<forall>c \<in> set ds. dependent_on (chain r) root c)"
proof (intro conjI)
  have ds': "ds = map fst (filter (\<lambda>p. depends_on (snd p) = Some (frontier ! i) \<and> fst p \<notin> set frontier) (chain r))"
    using ds N by (simp add: dependents_of_eq)
  show sub: "set ds \<subseteq> ids r" by (auto simp: ds' ids_def)
  have dist: "distinct (frontier @ ds)"
    using ok wf_distinct [OF wf] by (auto simp: frontier_ok_def ds' distinct_map inj_on_def)
  have "length (frontier @ ds) \<le> length (chain r)"
    using dist sub ok by (intro distinct_ids_length) (auto simp: frontier_ok_def)
  then show "foldl (push_or_drop N) frontier ds = frontier @ ds"
    using N by (intro foldl_push_or_drop) simp
  show dep: "\<forall>c \<in> set ds. dependent_on (chain r) root c"
  proof
    fix c assume "c \<in> set ds"
    then obtain a where "(c, a) \<in> set (chain r)" "depends_on a = Some (frontier ! i)"
      by (auto simp: ds')
    moreover have "dependent_on (chain r) root (frontier ! i)"
      using ok i by (auto simp: frontier_ok_def)
    ultimately show "dependent_on (chain r) root c" by (rule dependent_step [rotated])
  qed
  have frame: "same_frame r r1" using g(1) by (simp add: gates_def)
  have gated: "\<forall>c \<in> set (frontier @ ds). is_gated r1 c"
    using ok g(2) gates_is_gated [OF g(1)] by (auto simp: frontier_ok_def)
  have closed: "c \<in> set (frontier @ ds)"
    if "k < Suc i" "k < length (frontier @ ds)" "(c, a) \<in> set (chain r)"
      "depends_on a = Some ((frontier @ ds) ! k)" for k c a
  proof (cases "k < i")
    case True
    with that i ok show ?thesis by (fastforce simp: frontier_ok_def nth_append)
  next
    case False
    with that(1) i that(4) have "depends_on a = Some (frontier ! i)"
      by (auto simp: less_Suc_eq nth_append)
    with that(3) show ?thesis by (force simp: ds')
  qed
  then have "\<forall>k < Suc i. k < length (frontier @ ds) \<longrightarrow>
      (\<forall>(c, a) \<in> set (chain r). depends_on a = Some ((frontier @ ds) ! k) \<longrightarrow> c \<in> set (frontier @ ds))"
    by blast
  with dist sub dep gated ok show "frontier_ok r1 root (frontier @ ds) (Suc i)"
    unfolding frontier_ok_def same_frame_simps [OF frame] by auto
qed

lemma cascade_loop_gates:
  assumes "wf_rot r" "length (chain r) \<le> N" "frontier_ok r root frontier i"
    and "cascade_loop N r frontier i = (r', es)"
  shows "\<exists>gs. gates r gs es r' \<and> (\<forall>c \<in> set gs. dependent_on (chain r) root c) \<and>
    (\<forall>c. dependent_on (chain r) root c \<longrightarrow> is_gated r' c)"
  using assms
proof (induction N r frontier i arbitrary: es rule: cascade_loop.induct)
  case (1 N r frontier i)
  show ?case
  proof (cases "i < length frontier")
    case False
    then have "r' = r" "es = []" using "1.prems"(4) by (auto simp: cascade_loop.simps)
    moreover have "is_gated r c" if "dependent_on (chain r) root c" for c
      using frontier_closed [OF "1.prems"(3) _ that] False "1.prems"(3)
      by (auto simp: frontier_ok_def)
    ultimately show ?thesis by (intro exI [of _ "[]"]) (simp add: gates_refl)
  next
    case True
    define ds where "ds = dependents_of N (chain r) frontier (frontier ! i)"
    have "set ds \<subseteq> ids r"
      using "1.prems"(2) by (auto simp: ds_def dependents_of_eq ids_def)
    moreover obtain r1 es1 where gl: "gate_list r ds = (r1, es1)" by (cases "gate_list r ds")
    ultimately obtain gs where g: "gates r gs es1 r1" "set gs = {c \<in> set ds. \<not> is_gated r c}"
      using gate_list_gates "1.prems"(1) by blast
    note fs = frontier_step [OF "1.prems"(1-3) True ds_def g]
    then have fold: "foldl (push_or_drop N) frontier ds = frontier @ ds"
      and ok1: "frontier_ok r1 root (frontier @ ds) (Suc i)"
      and dep: "\<forall>c \<in> set ds. dependent_on (chain r) root c" by auto
    have frame: "same_frame r r1" using g(1) by (simp add: gates_def)
    obtain es2 where rest: "cascade_loop N r1 (frontier @ ds) (Suc i) = (r', es2)" and es: "es = es1 @ es2"
      using "1.prems"(4) True gl fold
      by (subst (asm) cascade_loop.simps) (auto simp: ds_def [symmetric] split: prod.splits)
    have "\<exists>hs. gates r1 hs es2 r' \<and> (\<forall>c \<in> set hs. dependent_on (chain r1) root c) \<and>
        (\<forall>c. dependent_on (chain r1) root c \<longrightarrow> is_gated r' c)"
      using "1.IH" [OF True ds_def gl [symmetric] refl] fold rest ok1 "1.prems"(2)
        gates_wf [OF "1.prems"(1) g(1)] by (auto simp: same_frame_simps [OF frame])
    then obtain hs where hs: "gates r1 hs es2 r'" "\<forall>c \<in> set hs. dependent_on (chain r) root c"
        "\<forall>c. dependent_on (chain r) root c \<longrightarrow> is_gated r' c"
      by (auto simp: same_frame_simps [OF frame])
    have "gates r (gs @ hs) es r'" unfolding es by (rule gates_trans [OF g(1) hs(1)])
    with g(2) dep hs(2,3) show ?thesis by (intro exI [of _ "gs @ hs"]) auto
  qed
qed

lemma cascade_hold_gates:
  assumes wf: "wf_rot r" and N: "length (chain r) \<le> N" and root: "root \<in> ids r"
    and c: "cascade_hold N r root = (r', es)"
  shows "\<exists>gs. gates r gs es r' \<and> (\<forall>c \<in> set gs. dependent_on (chain r) root c) \<and>
    (\<forall>c. dependent_on (chain r) root c \<longrightarrow> is_gated r' c)"
proof -
  obtain r1 es1 b where one: "gate_one r root = (r1, es1, b)" by (cases "gate_one r root") auto
  from wf_nonempty [OF wf] N have "0 < N" by (cases "chain r") auto
  with c one obtain es2 where loop: "cascade_loop N r1 [root] 0 = (r', es2)" and es: "es = es1 @ es2"
    by (auto simp: cascade_hold_def prelude_simps split: prod.splits)
  let ?gs = "if is_gated r root then [] else [root]"
  have g: "gates r ?gs es1 r1" using wf root one by (rule gate_one_gates)
  then have frame: "same_frame r r1" by (simp add: gates_def)
  have "frontier_ok r1 root [root] 0"
    using root gates_is_gated [OF g, of root]
    by (auto simp: frontier_ok_def same_frame_simps [OF frame] intro: dependent_root)
  with gates_wf [OF wf g] N loop obtain hs where hs: "gates r1 hs es2 r'"
      "\<forall>c \<in> set hs. dependent_on (chain r) root c"
      "\<forall>c. dependent_on (chain r) root c \<longrightarrow> is_gated r' c"
    using cascade_loop_gates [of r1 N root "[root]" 0 r' es2]
    by (auto simp: same_frame_simps [OF frame])
  have "gates r (?gs @ hs) es r'" unfolding es by (rule gates_trans [OF g hs(1)])
  with hs show ?thesis by (intro exI [of _ "?gs @ hs"]) (auto intro: dependent_root)
qed

text \<open>Which components a policy takes out of service, and that \<open>NotGated\<close> changes nothing.\<close>

lemma attrs_of_in_ids: "attrs_of r c = Some a \<Longrightarrow> (c, a) \<in> set (chain r) \<and> c \<in> ids r"
proof -
  assume "attrs_of r c = Some a"
  then obtain i where "position (\<lambda>p. fst p = c) (chain r) = Some i" "a = snd (chain r ! i)"
    by (auto simp: attrs_of_def find_position)
  then have "i < length (chain r)" "chain r ! i = (c, a)"
    by (auto dest: position_SomeD simp: prod_eq_iff)
  then have "(c, a) \<in> set (chain r)" by (metis nth_mem)
  then show ?thesis by (force simp: ids_def)
qed

lemma gate_by_policy_gates:
  assumes wf: "wf_rot r" and N: "length (chain r) \<le> N" and g: "gate_by_policy N r c = (r', es, v)"
  shows "\<exists>gs. gates r gs es r' \<and> (\<forall>d \<in> set gs. dependent_on (chain r) c d) \<and>
    (v = NotGated \<longrightarrow> gs = [] \<and> r' = r) \<and> (v = Gated \<longrightarrow> is_gated r' c)"
proof (cases "map_option failure_policy (attrs_of r c)")
  case None
  then have "r' = r" "es = []" "v = NotGated" using g by (auto simp: gate_by_policy_def)
  then show ?thesis by (intro exI [of _ "[]"]) (simp add: gates_refl)
next
  case (Some p)
  then have c: "c \<in> ids r" by (auto dest: attrs_of_in_ids)
  show ?thesis
  proof (cases p)
    case Required
    then have "r' = r" "es = []" "v = NotGated" using g Some by (auto simp: gate_by_policy_def)
    then show ?thesis by (intro exI [of _ "[]"]) (simp add: gates_refl)
  next
    case Isolable
    then obtain b where one: "gate_one r c = (r', es, b)" and v: "v = Gated"
      using g Some by (auto simp: gate_by_policy_def split: prod.splits)
    have "gates r (if is_gated r c then [] else [c]) es r'" by (rule gate_one_gates [OF wf c one])
    moreover from gates_is_gated [OF this, of c] have "is_gated r' c" by auto
    ultimately show ?thesis
      using v by (intro exI [of _ "if is_gated r c then [] else [c]"]) (auto intro: dependent_root)
  next
    case Cascading
    then have "cascade_hold N r c = (r', es)" and v: "v = Gated"
      using g Some by (auto simp: gate_by_policy_def split: prod.splits)
    from cascade_hold_gates [OF wf N c this(1)] v show ?thesis by (auto intro: dependent_root)
  qed
qed

lemma handle_corruption_gates:
  assumes wf: "wf_rot r" and N: "length (chain r) \<le> N" and h: "handle_corruption N r c = (r', es, out)"
  shows "\<exists>gs. gates r gs es r' \<and> (\<forall>d \<in> set gs. dependent_on (chain r) c d) \<and>
    (out = Handled \<and> (c \<in> ids r \<longrightarrow> is_gated r' c) \<or>
     out = Transition (Recovering c) \<and> gs = [] \<and> r' = r \<and> \<not> is_gated r c)"
proof (cases "is_gated r c")
  case True
  then show ?thesis using h gates_refl by (intro exI [of _ "[]"]) (auto simp: handle_corruption_def)
next
  case False
  obtain r1 es1 v where p: "gate_by_policy N r c = (r1, es1, v)" by (cases "gate_by_policy N r c") auto
  with False h show ?thesis
    using gate_by_policy_gates [OF wf N p] by (cases v) (auto simp: handle_corruption_def)
qed

section \<open>The walk\<close>

lemma advance_cases:
  assumes "idx \<le> length (chain r)" "advance_to_next_ungated r idx = (r', es, found)"
  shows "found \<and> (\<exists>j. idx \<le> j \<and> j < length (chain r) \<and> \<not> is_gated r (fst (chain r ! j)) \<and>
            (\<forall>k. idx \<le> k \<and> k < j \<longrightarrow> is_gated r (fst (chain r ! k))) \<and>
            r' = r\<lparr>cursor := of_nat j\<rparr> \<and>
            es = [ReadFirmware (fst (chain r ! j)), VerifyFirmware (fst (chain r ! j))]) \<or>
         \<not> found \<and> (\<forall>k. idx \<le> k \<and> k < length (chain r) \<longrightarrow> is_gated r (fst (chain r ! k))) \<and>
            r' = r\<lparr>cursor := of_nat (length (chain r))\<rparr> \<and> es = []"
  using assms
proof (induction r idx rule: advance_to_next_ungated.induct)
  case (1 r idx)
  consider "idx \<ge> length (chain r)" | "idx < length (chain r)" "\<not> is_gated r (fst (chain r ! idx))"
    | "idx < length (chain r)" "is_gated r (fst (chain r ! idx))"
    by linarith
  then show ?case
  proof cases
    case 1
    with "1.prems"(2) show ?thesis by (auto simp: advance_to_next_ungated.simps)
  next
    case 2
    with "1.prems"(2) show ?thesis
      by (subst (asm) advance_to_next_ungated.simps) (auto simp: Let_def)
  next
    case 3
    with "1.prems"(2) have "advance_to_next_ungated r (Suc idx) = (r', es, found)"
      by (subst (asm) advance_to_next_ungated.simps) (simp add: Let_def)
    note IH = "1.IH" [OF 3(1) refl _ _ this]
    have split: "(\<forall>k. idx \<le> k \<and> k < j \<longrightarrow> P k) \<longleftrightarrow> (idx < j \<longrightarrow> P idx) \<and> (\<forall>k. Suc idx \<le> k \<and> k < j \<longrightarrow> P k)"
      for j P
      by (metis Suc_le_eq le_eq_less_or_eq)
    have ge: "Suc idx \<le> j \<Longrightarrow> idx \<le> j" for j by simp
    from IH 3 show ?thesis unfolding split by (blast dest: ge Suc_leI)
  qed
qed


section \<open>Quiet updates, the hold before a re-walk, and a release\<close>

text \<open>
  A quiet update touches neither the isolation nor the release state of any component: the retry
  counters and the boot watchdogs.
\<close>

definition quiet :: "rot \<Rightarrow> rot \<Rightarrow> bool" where
  "quiet r r' \<longleftrightarrow> same_frame r r' \<and> wf_rot r' \<and>
     (\<forall>c. is_gated r' c = is_gated r c) \<and> (\<forall>c. is_released r' c = is_released r c)"

lemma quiet_refl: "wf_rot r \<Longrightarrow> quiet r r"
  by (simp add: quiet_def)

lemma quiet_trans: "quiet r1 r2 \<Longrightarrow> quiet r2 r3 \<Longrightarrow> quiet r1 r3"
  by (auto simp: quiet_def intro: same_frame_trans)

lemma quiet_upd_status:
  assumes wf: "wf_rot r" and f: "\<And>s. lifecycle (f s) = lifecycle s \<and> released (f s) = released s"
    and ok: "\<And>s. status_ok s \<Longrightarrow> status_ok (f s)"
  shows "quiet r (upd_status r c f)"
  unfolding quiet_def
  using wf_upd_status [of r c f] ok wf
  by (auto simp: is_gated_status is_released_def status_of_upd_status [OF wf_length [OF wf]] f)

lemma quiet_clear_retry: "wf_rot r \<Longrightarrow> quiet r (clear_retry r c)"
  unfolding clear_retry_def by (rule quiet_upd_status) (auto simp: status_ok_def)

lemma quiet_clear_awaiting_boot: "wf_rot r \<Longrightarrow> quiet r (clear_awaiting_boot r c)"
  unfolding clear_awaiting_boot_def by (rule quiet_upd_status) (auto simp: status_ok_def)

lemma bump_retry_upd:
  "bump_retry r c =
     (upd_status r c (\<lambda>s. s\<lparr>retry := saturating_add (retry s) 1\<rparr>),
      case status_of r c of None \<Rightarrow> 0 | Some s \<Rightarrow> saturating_add (retry s) 1)"
  by (auto simp: bump_retry_def upd_status_def status_of_def Let_def split: option.splits)

lemma quiet_bump_retry: "wf_rot r \<Longrightarrow> quiet r (fst (bump_retry r c))"
  unfolding bump_retry_upd fst_conv by (rule quiet_upd_status) (auto simp: status_ok_def)

lemma quiet_Ready_entry:
  assumes wf: "wf_rot r"
  shows "quiet r (r\<lparr>statuses := map (\<lambda>s. s\<lparr>retry := 0\<rparr>) (statuses r)\<rparr>)" (is "quiet r ?r")
proof -
  have frame: "same_frame r ?r" by (simp add: same_frame_def)
  have st: "status_of ?r c = map_option (\<lambda>s. s\<lparr>retry := 0\<rparr>) (status_of r c)" for c
    by (cases "status_index r c") (auto simp: status_of_def wf_length [OF wf] dest: status_index_SomeD)
  have "wf_rot ?r"
    by (rule wf_rot_statusI [OF wf frame]) (auto simp: st status_ok_def dest: wf_status_ok [OF wf])
  with frame show ?thesis by (auto simp: quiet_def is_gated_status is_released_def st)
qed

lemma wf_cursor_upd: "wf_rot r \<Longrightarrow> unat k \<le> length (chain r) \<Longrightarrow> wf_rot (r\<lparr>cursor := k\<rparr>)"
  by (simp add: wf_rot_def)

lemma wf_pending_commit [simp]: "wf_rot (r\<lparr>pending_commit := b\<rparr>) = wf_rot r"
  by (simp add: wf_rot_def)

lemma is_released_frame [simp]:
  "is_released (r\<lparr>cursor := k\<rparr>) c = is_released r c"
  "is_released (r\<lparr>pending_commit := b\<rparr>) c = is_released r c"
  by (simp_all add: is_released_def)

lemma quiesce_loop_spec:
  assumes "distinct is" "set is \<subseteq> {..<length (statuses r)}" "quiesce_loop is r = (r', es)"
  shows "chain r' = chain r \<and> cursor r' = cursor r \<and> max_retry r' = max_retry r \<and>
    pending_commit r' = pending_commit r \<and> length (statuses r') = length (statuses r) \<and>
    (\<forall>i < length (statuses r). statuses r' ! i =
       (if i \<in> set is \<and> released (statuses r ! i)
        then (statuses r ! i)\<lparr>released := False, awaiting_boot := False\<rparr> else statuses r ! i)) \<and>
    es = map (\<lambda>i. AssertReset (fst (chain r ! i))) (filter (\<lambda>i. released (statuses r ! i)) is)"
  using assms
proof (induction "is" arbitrary: r es)
  case (Cons i "is")
  show ?case
  proof (cases "released (statuses r ! i)")
    case False
    then show ?thesis using Cons.prems Cons.IH [of r es] by auto
  next
    case True
    define r1 where "r1 = r\<lparr>statuses := (statuses r)[i := (statuses r ! i)\<lparr>released := False, awaiting_boot := False\<rparr>]\<rparr>"
    from True Cons.prems(3) obtain es2 where rest: "quiesce_loop is r1 = (r', es2)"
        and es: "es = AssertReset (fst (chain r ! i)) # es2"
      by (auto simp: Let_def r1_def split: prod.splits)
    have "statuses r1 ! j = statuses r ! j" if "j \<in> set is" for j
    proof -
      from that Cons.prems(1) have "i \<noteq> j" by auto
      then show ?thesis by (simp add: r1_def)
    qed
    then have "filter (\<lambda>j. released (statuses r1 ! j)) is = filter (\<lambda>j. released (statuses r ! j)) is"
      by (intro filter_cong) auto
    then show ?thesis
      using Cons.IH [OF _ _ rest] Cons.prems(1,2) True es
      by (auto simp: r1_def nth_list_update)
  qed
qed simp

definition hold_status :: "component_status \<Rightarrow> component_status" where
  "hold_status s = (if released s then s\<lparr>released := False, awaiting_boot := False\<rparr> else s)"

lemma quiesce_all_spec:
  assumes wf: "wf_rot r" and q: "quiesce_all r = (r', es)"
  shows "same_frame r r' \<and> (\<forall>c. status_of r' c = map_option hold_status (status_of r c)) \<and>
    es = map AssertReset (filter (is_released r) (map fst (chain r)))"
proof -
  have "set [0..<length (chain r)] \<subseteq> {..<length (statuses r)}" using wf_length [OF wf] by auto
  note spec = quiesce_loop_spec [OF distinct_upt this q [unfolded quiesce_all_def]]
  have frame: "same_frame r r'" using spec wf_length [OF wf] by (auto simp: same_frame_def)
  have st: "status_of r' c = map_option hold_status (status_of r c)" for c
    using spec wf_length [OF wf]
    by (cases "status_index r c")
      (auto simp: status_of_def same_frame_simps [OF frame] hold_status_def dest: status_index_SomeD)
  have rel: "is_released r (fst (chain r ! i)) \<longleftrightarrow> released (statuses r ! i)" if "i < length (chain r)" for i
    using that by (simp add: is_released_def status_of_nth [OF wf])
  have "map fst (chain r) = map (\<lambda>i. fst (chain r ! i)) [0..<length (chain r)]"
    by (rule nth_equalityI) simp_all
  then have "filter (is_released r) (map fst (chain r)) =
      map (\<lambda>i. fst (chain r ! i)) (filter (\<lambda>i. is_released r (fst (chain r ! i))) [0..<length (chain r)])"
    by (simp add: filter_map comp_def)
  also have "filter (\<lambda>i. is_released r (fst (chain r ! i))) [0..<length (chain r)] =
      filter (\<lambda>i. released (statuses r ! i)) [0..<length (chain r)]"
    by (rule filter_cong) (auto simp: rel)
  finally have "es = map AssertReset (filter (is_released r) (map fst (chain r)))"
    using spec by (simp add: comp_def)
  with frame st show ?thesis by blast
qed

lemma quiesce_all_facts:
  assumes wf: "wf_rot r" and q: "quiesce_all r = (r', es)"
  shows "wf_rot r'" "is_gated r' c = is_gated r c" "\<not> is_released r' c"
proof -
  note spec = quiesce_all_spec [OF wf q]
  show "wf_rot r'"
    by (rule wf_rot_statusI [OF wf]) (use spec in \<open>auto simp: hold_status_def status_ok_def split: if_splits dest!: wf_status_ok [OF wf]\<close>)
  show "is_gated r' c = is_gated r c"
    using spec by (cases "status_of r c") (auto simp: is_gated_status hold_status_def)
  show "\<not> is_released r' c"
    using spec by (auto simp: is_released_def hold_status_def)
qed

lemma mark_released_facts:
  assumes wf: "wf_rot r" and c: "c \<in> ids r" "\<not> is_gated r c"
  shows "same_frame r (mark_released r c)" "wf_rot (mark_released r c)"
    "is_gated (mark_released r c) d = is_gated r d"
    "is_released (mark_released r c) d \<longleftrightarrow> is_released r d \<or> d = c"
proof -
  have st: "status_of (mark_released r c) d =
      (if d = c then map_option (\<lambda>s. s\<lparr>awaiting_boot := True, released := True\<rparr>) (status_of r c) else status_of r d)" for d
    unfolding mark_released_def by (rule status_of_upd_status [OF wf_length [OF wf]])
  obtain s where s: "status_of r c = Some s"
    using c status_of_None_iff [of r c] by (cases "status_of r c") auto
  with c(2) have nom: "lifecycle s = Nominal"
    by (cases "lifecycle s") (auto simp: is_gated_status)
  show "same_frame r (mark_released r c)" by (simp add: mark_released_def)
  show "wf_rot (mark_released r c)"
    unfolding mark_released_def by (rule wf_upd_status [OF wf]) (use s nom in \<open>auto simp: status_ok_def\<close>)
  show "is_gated (mark_released r c) d = is_gated r d"
    by (auto simp: is_gated_status st s split: if_splits)
  show "is_released (mark_released r c) d \<longleftrightarrow> is_released r d \<or> d = c"
    by (auto simp: is_released_def st s split: if_splits)
qed

end
