(* ===== verification/Sm_Invariant.thy ===== *)
theory Sm_Invariant
  imports Sm_Lemmas
begin

text \<open>
  The safety proof of the state machine. The effects that the machine emits are audited by a
  ledger, an abstract observer that sees nothing but the effect trace: which components have a
  verification requested since they were last taken down, which are isolated, which run. The
  machine refines the ledger: in every reachable state the isolated and the running components
  of the ledger are exactly those of the status table, and no effect is ever emitted that the
  ledger forbids. The step relation is shown to be an instance of \<open>monitored_machine\<close>.
\<close>

section \<open>The ledger\<close>

record ledger =
  verified :: "component_id set"
  isolated :: "component_id set"
  live :: "component_id set"

definition ledger_init :: ledger where
  "ledger_init = \<lparr>verified = {}, isolated = {}, live = {}\<rparr>"

fun ledger_upd :: "ledger \<Rightarrow> effect \<Rightarrow> ledger" where
  "ledger_upd g (VerifyFirmware c) = g\<lparr>verified := insert c (verified g)\<rparr>"
| "ledger_upd g (ReleaseReset c) = g\<lparr>live := insert c (live g)\<rparr>"
| "ledger_upd g (AssertReset c) = g\<lparr>verified := verified g - {c}, live := live g - {c}\<rparr>"
| "ledger_upd g (RecoverComponent c _) = g\<lparr>verified := verified g - {c}, live := live g - {c}\<rparr>"
| "ledger_upd g (ReportIsolated c) = g\<lparr>isolated := insert c (isolated g)\<rparr>"
| "ledger_upd g _ = g"

text \<open>
  A component is verified only while it is held in reset, released only after a verification
  requested in the same hold, isolated only once and only while held; an isolated component is
  never verified, released or recovered again.
\<close>

fun ledger_ok :: "ledger \<Rightarrow> effect \<Rightarrow> bool" where
  "ledger_ok g (VerifyFirmware c) \<longleftrightarrow> c \<notin> live g \<and> c \<notin> isolated g"
| "ledger_ok g (ReleaseReset c) \<longleftrightarrow> c \<in> verified g \<and> c \<notin> live g \<and> c \<notin> isolated g"
| "ledger_ok g (RecoverComponent c _) \<longleftrightarrow> c \<notin> isolated g"
| "ledger_ok g (ReportIsolated c) \<longleftrightarrow> c \<notin> live g \<and> c \<notin> isolated g"
| "ledger_ok g _ \<longleftrightarrow> True"

abbreviation audited :: "ledger \<Rightarrow> effect list \<Rightarrow> bool" where
  "audited \<equiv> admitted ledger_ok ledger_upd"

abbreviation ledger_of :: "ledger \<Rightarrow> effect list \<Rightarrow> ledger" where
  "ledger_of \<equiv> foldl ledger_upd"

definition tracks :: "rot \<Rightarrow> ledger \<Rightarrow> bool" where
  "tracks r g \<longleftrightarrow> isolated g = {c. is_gated r c} \<and> live g = {c. is_released r c}"

definition walking :: "state \<Rightarrow> bool" where
  "walking st \<longleftrightarrow> st = PreSupervision \<or> (\<exists>a. st = AwaitingReady a)"

text \<open>While the chain is walked, nothing at or beyond the cursor runs and the cursor is on a nominal component.\<close>

definition unreleased_from :: "rot \<Rightarrow> nat \<Rightarrow> bool" where
  "unreleased_from r k \<longleftrightarrow> (\<forall>j. k \<le> j \<and> j < length (chain r) \<longrightarrow> \<not> is_released r (fst (chain r ! j)))"

definition cursor_ok :: "rot \<Rightarrow> bool" where
  "cursor_ok r \<longleftrightarrow> unreleased_from r (unat (cursor r)) \<and>
     (\<forall>e. at_cursor r = Some e \<longrightarrow> \<not> is_gated r (fst e))"

definition cursor_verified :: "rot \<Rightarrow> ledger \<Rightarrow> bool" where
  "cursor_verified r g \<longleftrightarrow> (\<forall>e. at_cursor r = Some e \<longrightarrow> fst e \<in> verified g)"

text \<open>The contract of a storage operation that emits \<open>es\<close>.\<close>

definition safe :: "rot \<Rightarrow> ledger \<Rightarrow> effect list \<Rightarrow> rot \<Rightarrow> bool" where
  "safe r g es r' \<longleftrightarrow>
     wf_rot r' \<and> chain r' = chain r \<and> tracks r' (ledger_of g es) \<and> audited g es"

lemma safe_trans: "safe r g es r1 \<Longrightarrow> safe r1 (ledger_of g es) fs r2 \<Longrightarrow> safe r g (es @ fs) r2"
  by (auto simp: safe_def)

lemma safe_quiet: "quiet r r' \<Longrightarrow> tracks r g \<Longrightarrow> safe r g [] r'"
  by (auto simp: safe_def quiet_def tracks_def same_frame_def)

lemma safe_refl: "wf_rot r \<Longrightarrow> tracks r g \<Longrightarrow> safe r g [] r"
  by (simp add: safe_def)

text \<open>Effects that the ledger does not look at.\<close>

definition neutral :: "effect \<Rightarrow> bool" where
  "neutral e \<longleftrightarrow> (\<forall>g. ledger_upd g e = g \<and> ledger_ok g e)"

lemma neutral_simps [simp]:
  "neutral (ReadFirmware c)" "neutral SignAttestation" "neutral AuthenticateUpdate"
  "neutral StageUpdate" "neutral ActivateUpdate" "neutral DiscardStaged" "neutral (CommitSvnFloor c)"
  "neutral (ReportRecoveryFailed c)" "neutral (ReportBootFailed c s k)" "neutral ReportUpdateDeferred"
  "neutral ReportUpdateAborted" "neutral LatchLockdown" "neutral (Emit ev)"
  by (simp_all add: neutral_def)

lemma neutral_list: "list_all neutral es \<Longrightarrow> ledger_of g es = g \<and> audited g es"
  by (induction es) (auto simp: neutral_def)

lemma safe_neutral: "list_all neutral es \<Longrightarrow> wf_rot r \<Longrightarrow> tracks r g \<Longrightarrow> safe r g es r"
  by (simp add: safe_def neutral_list)

lemma safe_neutral_Cons: "neutral e \<Longrightarrow> safe r g es r' \<Longrightarrow> safe r g (e # es) r'"
  by (simp add: safe_def neutral_def)

lemma safe_neutral_append: "list_all neutral fs \<Longrightarrow> safe r g es r' \<Longrightarrow> safe r g (es @ fs) r'"
  by (simp add: safe_def neutral_list)

lemma gate_effects_ledger:
  "distinct gs \<Longrightarrow> set gs \<inter> isolated g = {} \<Longrightarrow>
     audited g (gate_effects gs) \<and>
     ledger_of g (gate_effects gs) =
       g\<lparr>verified := verified g - set gs, isolated := isolated g \<union> set gs, live := live g - set gs\<rparr>"
  by (induction gs arbitrary: g) (auto simp: gate_effects_def simp flip: Diff_insert2)

lemma gates_safe:
  assumes wf: "wf_rot r" and t: "tracks r g" and gt: "gates r gs es r'"
  shows "safe r g es r'" "verified (ledger_of g es) = verified g - set gs"
proof -
  have "distinct gs" "set gs \<inter> isolated g = {}" "es = gate_effects gs"
    using gt t by (auto simp: gates_def tracks_def)
  note l = gate_effects_ledger [OF this(1,2)]
  have "tracks r' (ledger_of g es)"
    using t l by (auto simp: tracks_def gates_is_gated [OF gt] gates_released [OF gt] \<open>es = _\<close>)
  with gates_wf [OF wf gt] gt l show "safe r g es r'"
    by (auto simp: safe_def gates_def same_frame_def)
  show "verified (ledger_of g es) = verified g - set gs" using l by (simp add: \<open>es = _\<close>)
qed

section \<open>The walk is safe\<close>

lemma at_cursor_SomeD:
  "at_cursor r = Some e \<Longrightarrow> unat (cursor r) < length (chain r) \<and> chain r ! unat (cursor r) = e \<and> fst e \<in> ids r"
  by (auto simp: at_cursor_def ids_def split: if_splits)

lemma advance_safe:
  assumes wf: "wf_rot r" and t: "tracks r g" and u: "unreleased_from r idx" and idx: "idx \<le> length (chain r)"
    and a: "advance_to_next_ungated r idx = (r', es, found)"
  shows "safe r g es r'" "cursor_ok r'" "cursor_verified r' (ledger_of g es)"
    "pending_commit r' = pending_commit r" "is_gated r' c = is_gated r c" "is_released r' c = is_released r c"
proof -
  have len: "length (chain r) < 256" using wf_length_le [OF wf] by simp
  consider j where "idx \<le> j" "j < length (chain r)" "\<not> is_gated r (fst (chain r ! j))"
      "r' = r\<lparr>cursor := of_nat j\<rparr>"
      "es = [ReadFirmware (fst (chain r ! j)), VerifyFirmware (fst (chain r ! j))]"
    | "r' = r\<lparr>cursor := of_nat (length (chain r))\<rparr>" "es = []"
    using advance_cases [OF idx a] by blast
  then have "safe r g es r' \<and> cursor_ok r' \<and> cursor_verified r' (ledger_of g es) \<and>
      pending_commit r' = pending_commit r \<and> is_gated r' c = is_gated r c \<and> is_released r' c = is_released r c"
  proof cases
    case 1
    have cur: "unat (of_nat j :: u8) = j" using 1(2) len by simp
    have "\<not> is_released r (fst (chain r ! j))" using u 1 by (simp add: unreleased_from_def)
    moreover have "wf_rot r'" unfolding 1(4) using wf cur 1(2) by (intro wf_cursor_upd) auto
    ultimately show ?thesis
      using 1 t u cur
      by (auto simp: safe_def tracks_def cursor_ok_def cursor_verified_def at_cursor_def unreleased_from_def)
  next
    case 2
    have cur: "unat (of_nat (length (chain r)) :: u8) = length (chain r)" using len by simp
    have "wf_rot r'" unfolding 2(1) using wf cur by (intro wf_cursor_upd) auto
    then show ?thesis
      using 2 t cur
      by (auto simp: safe_def tracks_def cursor_ok_def cursor_verified_def at_cursor_def unreleased_from_def)
  qed
  then show "safe r g es r'" "cursor_ok r'" "cursor_verified r' (ledger_of g es)"
    "pending_commit r' = pending_commit r" "is_gated r' c = is_gated r c" "is_released r' c = is_released r c"
    by auto
qed

lemma cursor_position_inj:
  assumes wf: "wf_rot r" and e: "at_cursor r = Some e" and j: "j < length (chain r)" "fst (chain r ! j) = fst e"
  shows "j = unat (cursor r)"
  using at_cursor_SomeD [OF e] j wf_distinct [OF wf]
  by (metis (no_types, lifting) length_map nth_eq_iff_index_eq nth_map)

lemma release_and_advance_safe:
  assumes wf: "wf_rot r" and t: "tracks r g" and cur: "cursor_ok r" "cursor_verified r g"
    and e: "at_cursor r = Some e" and ra: "release_and_advance r (fst e) = (r', es, found)"
  shows "safe r g es r'" "cursor_ok r'" "cursor_verified r' (ledger_of g es)"
    "pending_commit r' = pending_commit r"
proof -
  define r1 where "r1 = mark_released (clear_retry r (fst e)) (fst e)"
  obtain es2 where adv: "advance_to_next_ungated r1 (unat (cursor r1) + 1) = (r', es2, found)"
    and es: "es = ReleaseReset (fst e) # es2"
    using ra by (auto simp: release_and_advance_def Let_def r1_def split: prod.splits)
  have q: "quiet r (clear_retry r (fst e))" by (rule quiet_clear_retry [OF wf])
  have in_ids: "fst e \<in> ids r" and lt: "unat (cursor r) < length (chain r)"
    using at_cursor_SomeD [OF e] by auto
  have ng: "\<not> is_gated r (fst e)" and ver: "fst e \<in> verified g"
    using cur e by (auto simp: cursor_ok_def cursor_verified_def)
  have nr: "\<not> is_released r (fst e)"
    using cur(1) at_cursor_SomeD [OF e] by (auto simp: cursor_ok_def unreleased_from_def)
  have frq: "same_frame r (clear_retry r (fst e))" using q by (simp add: quiet_def)
  have "fst e \<in> ids (clear_retry r (fst e))" "\<not> is_gated (clear_retry r (fst e)) (fst e)"
    using q in_ids ng by (auto simp: quiet_def same_frame_simps [OF frq])
  note m = mark_released_facts [OF _ this, folded r1_def]
  have wf1: "wf_rot r1" and fr: "same_frame r r1"
    using m q by (auto simp: quiet_def intro: same_frame_trans)
  have rel1: "is_released r1 d \<longleftrightarrow> is_released r d \<or> d = fst e" and gat1: "is_gated r1 d = is_gated r d" for d
    using m q by (auto simp: quiet_def)
  have t1: "tracks r1 (ledger_upd g (ReleaseReset (fst e)))"
    using t by (auto simp: tracks_def rel1 gat1)
  have u1: "unreleased_from r1 (unat (cursor r1) + 1)"
    using cur(1) cursor_position_inj [OF wf e]
    by (force simp: unreleased_from_def cursor_ok_def rel1 same_frame_simps [OF fr])
  have "unat (cursor r1) + 1 \<le> length (chain r1)"
    using lt by (simp add: same_frame_simps [OF fr])
  note a = advance_safe [OF wf1 t1 u1 this adv]
  have "ledger_ok g (ReleaseReset (fst e))" using ver nr ng t by (simp add: tracks_def)
  with a(1) show "safe r g es r'" by (simp add: safe_def es same_frame_simps [OF fr])
  show "cursor_ok r'" "cursor_verified r' (ledger_of g es)" "pending_commit r' = pending_commit r"
    using a(2-4) by (simp_all add: es same_frame_simps [OF fr])
qed


lemma assert_resets_ledger:
  "ledger_of g (map AssertReset cs) = g\<lparr>verified := verified g - set cs, live := live g - set cs\<rparr> \<and>
   audited g (map AssertReset cs)"
  by (induction cs arbitrary: g) (auto simp flip: Diff_insert2)

lemma quiesce_safe:
  assumes wf: "wf_rot r" and t: "tracks r g" and q: "quiesce_all r = (r', es)"
  shows "safe r g es r'"
proof -
  note spec = quiesce_all_spec [OF wf q] and f = quiesce_all_facts [OF wf q]
  have "is_released r c \<Longrightarrow> c \<in> ids r" for c
    by (metis is_released_def option.distinct(1) status_of_None_iff)
  then have "{c. is_released r c} \<subseteq> set (filter (is_released r) (map fst (chain r)))"
    by (auto simp: ids_def)
  then have "tracks r' (ledger_of g es)"
    using t spec f(2,3) by (auto simp: tracks_def assert_resets_ledger)
  with f(1) spec show ?thesis by (auto simp: safe_def same_frame_def assert_resets_ledger)
qed

lemma entry_walk_safe:
  assumes wf: "wf_rot r" and t: "tracks r g" and e: "entry_action r PreSupervision = (r', es)"
  shows "safe r g es r'" "cursor_ok r'" "cursor_verified r' (ledger_of g es)"
    "pending_commit r' = pending_commit r"
proof -
  obtain r1 es1 where q: "quiesce_all r = (r1, es1)" by (cases "quiesce_all r")
  obtain es2 found where a: "advance_to_next_ungated r1 0 = (r', es2, found)" and es: "es = es1 @ es2"
    using e q by (auto simp: entry_action_def split: prod.splits)
  note s1 = quiesce_safe [OF wf t q] and f = quiesce_all_facts [OF wf q]
  have t1: "tracks r1 (ledger_of g es1)" using s1 by (simp add: safe_def)
  have "unreleased_from r1 0" using f(3) by (simp add: unreleased_from_def)
  note s2 = advance_safe [OF f(1) t1 this le0 a]
  show "safe r g es r'" unfolding es by (rule safe_trans [OF s1 s2(1)])
  show "cursor_ok r'" "cursor_verified r' (ledger_of g es)" using s2 by (simp_all add: es)
  show "pending_commit r' = pending_commit r"
    using s2(4) quiesce_all_spec [OF wf q] by (simp add: same_frame_def)
qed

section \<open>Corruption handling is safe\<close>

lemma corruption_safe:
  assumes wf: "wf_rot r" and N: "length (chain r) \<le> N" and t: "tracks r g"
    and h: "handle_corruption N r c = (r', es, out)"
  shows "safe r g es r'" "same_frame r r'" "\<And>d. is_released r' d \<Longrightarrow> is_released r d"
    "out = Handled \<or> out = Transition (Recovering c) \<and> r' = r \<and> es = [] \<and> \<not> is_gated r' c"
    "cursor_verified r g \<Longrightarrow> (\<And>e. at_cursor r' = Some e \<Longrightarrow> \<not> is_gated r' (fst e)) \<Longrightarrow>
       cursor_verified r' (ledger_of g es)"
proof -
  obtain gs where gt: "gates r gs es r'"
    and out: "out = Handled \<or> out = Transition (Recovering c) \<and> gs = [] \<and> r' = r \<and> \<not> is_gated r c"
    using handle_corruption_gates [OF wf N h] by blast
  note s = gates_safe [OF wf t gt]
  show "safe r g es r'" by (rule s(1))
  show fr: "same_frame r r'" using gt by (simp add: gates_def)
  show "is_released r d" if "is_released r' d" for d using that gates_released [OF gt] by simp
  show "out = Handled \<or> out = Transition (Recovering c) \<and> r' = r \<and> es = [] \<and> \<not> is_gated r' c"
    using out gt by (auto simp: gates_def gate_effects_def)
  show "cursor_verified r' (ledger_of g es)"
    if "cursor_verified r g" "\<And>e. at_cursor r' = Some e \<Longrightarrow> \<not> is_gated r' (fst e)"
    using that gates_is_gated [OF gt]
    by (auto simp: cursor_verified_def s(2) same_frame_simps [OF fr])
qed

lemma corruption_advancing_safe:
  assumes wf: "wf_rot r" and N: "length (chain r) \<le> N" and t: "tracks r g"
    and cur: "cursor_ok r" "cursor_verified r g"
    and h: "handle_corruption_advancing N r c = (r', es, out)"
  shows "safe r g es r'" "pending_commit r' = pending_commit r"
    "out = Handled \<or> out = Transition Ready \<or> out = Transition (Recovering c) \<and> \<not> is_gated r' c"
    "out \<noteq> Transition (Recovering c) \<Longrightarrow> cursor_ok r' \<and> cursor_verified r' (ledger_of g es)"
proof -
  obtain r1 es1 out1 where c: "handle_corruption N r c = (r1, es1, out1)"
    by (cases "handle_corruption N r c") auto
  note cs = corruption_safe [OF wf N t c]
  let ?gated = "case at_cursor r1 of None \<Rightarrow> False | Some e \<Rightarrow> is_gated r1 (fst e)"
  have fr: "same_frame r r1" by (rule cs(2))
  have wf1: "wf_rot r1" and t1: "tracks r1 (ledger_of g es1)" using cs(1) by (simp_all add: safe_def)
  have u: "unreleased_from r1 k" if "unat (cursor r) \<le> k" for k
    using that cur(1) cs(3) unfolding unreleased_from_def cursor_ok_def same_frame_simps [OF fr]
    by (meson le_trans)
  have "safe r g es r' \<and> pending_commit r' = pending_commit r \<and>
      (out = Handled \<or> out = Transition Ready \<or> out = Transition (Recovering c) \<and> \<not> is_gated r' c) \<and>
      (out \<noteq> Transition (Recovering c) \<longrightarrow> cursor_ok r' \<and> cursor_verified r' (ledger_of g es))"
  proof (cases "out1 \<noteq> Handled \<or> \<not> ?gated")
    case True
    then have eq: "r' = r1" "es = es1" "out = out1"
      using h c by (auto simp: handle_corruption_advancing_def split: option.splits)
    have "cursor_ok r1 \<and> cursor_verified r1 (ledger_of g es1)" if "out1 = Handled"
    proof -
      from that True have ng: "\<not> is_gated r1 (fst e)" if "at_cursor r1 = Some e" for e using that by auto
      have "unreleased_from r1 (unat (cursor r1))" by (rule u) (simp add: same_frame_simps [OF fr])
      with ng cs(5) [OF cur(2) ng] show ?thesis by (auto simp: cursor_ok_def)
    qed
    with cs(1,4) show ?thesis unfolding eq by (auto simp: same_frame_simps [OF fr])
  next
    case False
    then obtain e where e: "at_cursor r1 = Some e" by (auto split: option.splits)
    obtain es2 found where a: "advance_to_next_ungated r1 (unat (cursor r1) + 1) = (r', es2, found)"
      and es: "es = es1 @ es2" and out: "out = (if found then Handled else Transition Ready)"
      using h c False by (auto simp: handle_corruption_advancing_def Let_def split: prod.splits)
    have "unat (cursor r1) + 1 \<le> length (chain r1)" using at_cursor_SomeD [OF e] by simp
    note as = advance_safe [OF wf1 t1 u this a]
    have "safe r g es r'"
      unfolding es using as(1) by (intro safe_trans [OF cs(1)]) (simp add: same_frame_simps [OF fr])
    with as(2-4) out show ?thesis by (auto simp: es same_frame_simps [OF fr])
  qed
  then show "safe r g es r'" "pending_commit r' = pending_commit r"
    "out = Handled \<or> out = Transition Ready \<or> out = Transition (Recovering c) \<and> \<not> is_gated r' c"
    "out \<noteq> Transition (Recovering c) \<Longrightarrow> cursor_ok r' \<and> cursor_verified r' (ledger_of g es)"
    by auto
qed


section \<open>The handlers are safe\<close>

text \<open>What holds in a state, and what a handler must establish before it enters one.\<close>

definition state_ok :: "state \<Rightarrow> rot \<Rightarrow> ledger \<Rightarrow> bool" where
  "state_ok st r g \<longleftrightarrow>
     (walking st \<longrightarrow> cursor_ok r \<and> cursor_verified r g) \<and>
     (pending_commit r \<longrightarrow> st = Ready \<or> st = Locked) \<and>
     (\<forall>f. st = Recovering f \<longrightarrow> f \<in> ids r \<and> \<not> is_released r f)"

definition enter_ok :: "state \<Rightarrow> rot \<Rightarrow> ledger \<Rightarrow> bool" where
  "enter_ok st r g \<longleftrightarrow>
     st \<noteq> PowerOnReset \<and>
     (\<forall>a. st = AwaitingReady a \<longrightarrow> cursor_ok r \<and> cursor_verified r g) \<and>
     (pending_commit r \<longrightarrow> \<not> walking st) \<and>
     (\<forall>f. st = Recovering f \<longrightarrow> f \<in> ids r \<and> \<not> is_gated r f)"

definition handled_ok :: "state \<Rightarrow> rot \<Rightarrow> ledger \<Rightarrow> rot \<times> effect list \<times> outcome \<Rightarrow> bool" where
  "handled_ok st r g res =
     (case res of (r', es, out) \<Rightarrow>
        safe r g es r' \<and>
        (case out of Transition t \<Rightarrow> enter_ok t r' (ledger_of g es) | _ \<Rightarrow> state_ok st r' (ledger_of g es)))"

lemma safe_ids: "safe r g es r' \<Longrightarrow> ids r' = ids r"
  by (simp add: safe_def ids_def)

lemma quiet_state_ok:
  assumes "quiet r r'"
  shows "state_ok st r' g = state_ok st r g"
  using assms
  by (auto simp: quiet_def state_ok_def cursor_ok_def cursor_verified_def unreleased_from_def
      same_frame_simps [of r r'])

lemma handled_stay: "wf_rot r \<Longrightarrow> tracks r g \<Longrightarrow> state_ok st r g \<Longrightarrow> list_all neutral es \<Longrightarrow>
    handled_ok st r g (r, es, Handled) \<and> handled_ok st r g (r, es, Super)"
  by (simp add: handled_ok_def safe_neutral neutral_list)

lemma handled_quiet: "quiet r r' \<Longrightarrow> tracks r g \<Longrightarrow> state_ok st r g \<Longrightarrow> handled_ok st r g (r', [], Handled)"
  by (simp add: handled_ok_def safe_quiet quiet_state_ok)

lemma handled_enter: "wf_rot r \<Longrightarrow> tracks r g \<Longrightarrow> enter_ok t r g \<Longrightarrow> list_all neutral es \<Longrightarrow>
    handled_ok st r g (r, es, Transition t)"
  by (simp add: handled_ok_def safe_neutral neutral_list)

lemma handled_report:
  assumes "neutral e" "handled_ok st r g (r', es, out)"
  shows "handled_ok st r g (r', e # es, out)"
  using assms by (auto simp: handled_ok_def neutral_def intro: safe_neutral_Cons split: outcome.splits)

lemma handled_corruption_advancing:
  assumes wf: "wf_rot r" and N: "length (chain r) \<le> N" and t: "tracks r g" and c: "c \<in> ids r"
    and w: "walking st" and st: "state_ok st r g"
  shows "handled_ok st r g (handle_corruption_advancing N r c)"
proof -
  obtain r' es out where h: "handle_corruption_advancing N r c = (r', es, out)"
    by (cases "handle_corruption_advancing N r c") auto
  have cur: "cursor_ok r" "cursor_verified r g" and pc: "\<not> pending_commit r"
    using st w by (auto simp: state_ok_def walking_def)
  note s = corruption_advancing_safe [OF wf N t cur h]
  show ?thesis
    using s pc c safe_ids [OF s(1)] w
    by (auto simp: h handled_ok_def state_ok_def enter_ok_def walking_def)
qed

lemma handled_corruption:
  assumes wf: "wf_rot r" and N: "length (chain r) \<le> N" and t: "tracks r g" and c: "c \<in> ids r"
    and w: "\<not> walking st" and st: "state_ok st r g"
  shows "handled_ok st r g (handle_corruption N r c)"
proof -
  obtain r' es out where h: "handle_corruption N r c = (r', es, out)"
    by (cases "handle_corruption N r c") auto
  note s = corruption_safe [OF wf N t h]
  show ?thesis
    using s w c st safe_ids [OF s(1)]
    by (auto simp: h handled_ok_def state_ok_def enter_ok_def walking_def same_frame_simps [OF s(2)])
qed

lemma handled_verification_passed:
  assumes wf: "wf_rot r" and t: "tracks r g" and w: "walking st" and st: "state_ok st r g"
    and e: "at_cursor r = Some e" and ra: "release_and_advance r (fst e) = (r', es, found)"
  shows "handled_ok st r g (r', es, Handled)" "handled_ok st r g (r', es, Transition Ready)"
    "handled_ok st r g (r', es, Transition (AwaitingReady a))"
proof -
  have cur: "cursor_ok r" "cursor_verified r g" and pc: "\<not> pending_commit r"
    using st w by (auto simp: state_ok_def walking_def)
  note s = release_and_advance_safe [OF wf t cur e ra]
  show "handled_ok st r g (r', es, Handled)" "handled_ok st r g (r', es, Transition Ready)"
    "handled_ok st r g (r', es, Transition (AwaitingReady a))"
    using s pc w by (auto simp: handled_ok_def state_ok_def enter_ok_def walking_def)
qed

lemma handled_recover:
  assumes "wf_rot r" "tracks r g" "c \<in> ids r" "\<not> is_gated r c" "list_all neutral es"
  shows "handled_ok st r g (r, es, Transition (Recovering c))"
  using assms by (intro handled_enter) (auto simp: enter_ok_def walking_def)


text \<open>The situation in which \<open>step\<close> calls a handler: the event's component is in the chain.\<close>

definition handler_pre :: "nat \<Rightarrow> state \<Rightarrow> rot \<Rightarrow> ledger \<Rightarrow> event \<Rightarrow> bool" where
  "handler_pre N st r g ev \<longleftrightarrow>
     wf_rot r \<and> length (chain r) \<le> N \<and> tracks r g \<and> state_ok st r g \<and>
     (\<forall>c. event_component_id ev = Some c \<longrightarrow> c \<in> ids r)"

lemma handler_preD:
  assumes "handler_pre N st r g ev"
  shows "wf_rot r" "length (chain r) \<le> N" "tracks r g" "state_ok st r g"
    "event_component_id ev = Some c \<Longrightarrow> c \<in> ids r"
  using assms by (auto simp: handler_pre_def)

lemma enter_Locked [simp]: "enter_ok Locked r g"
  by (simp add: enter_ok_def walking_def)

lemma walking_simps [simp]:
  "walking PreSupervision" "walking (AwaitingReady a)" "\<not> walking Ready" "\<not> walking Updating"
  "\<not> walking (Recovering f)" "\<not> walking Locked" "\<not> walking PowerOnReset"
  by (simp_all add: walking_def)

lemma safe_power_on_reset:
  assumes "handler_pre N PowerOnReset r g ev"
  shows "handled_ok PowerOnReset r g (handle_power_on_reset r ev)"
proof -
  note p = handler_preD [OF assms]
  have "enter_ok PreSupervision r g" using p(4) by (auto simp: enter_ok_def state_ok_def)
  then show ?thesis
    using handled_stay [OF p(1,3,4), of "[]"] handled_enter [OF p(1,3), of _ "[]"]
    by (auto simp: handle_power_on_reset_def split: event.split power_on_result.split)
qed

lemma safe_boot_failed_advancing:
  assumes p: "handler_pre N st r g ev" and w: "walking st" and c: "c \<in> ids r"
    and h: "handle_corruption_advancing N r c = (r', es, out)"
  shows "handled_ok st r g (r', ReportBootFailed c s k # es, out)"
  using handled_corruption_advancing [OF handler_preD(1-3) [OF p] c w handler_preD(4) [OF p]] h
  by (intro handled_report) simp_all

lemma safe_pre_supervision:
  assumes pre: "handler_pre N PreSupervision r g ev"
  shows "handled_ok PreSupervision r g (handle_pre_supervision N r ev)"
proof -
  note p = handler_preD [OF pre]
  note stay = handled_stay [OF p(1,3,4), of "[]"] and enter = handled_enter [OF p(1,3), of _ "[]"]
    and recover = handled_recover [OF p(1,3)] and ca = handled_corruption_advancing [OF p(1-3) _ _ p(4)]
  show ?thesis
  proof (cases ev)
    case (VerificationPassed c)
    show ?thesis
    proof (cases "map_option fst (at_cursor r) = Some c")
      case True
      then obtain e where e: "at_cursor r = Some e" "c = fst e" by auto
      obtain r' es found where ra: "release_and_advance r (fst e) = (r', es, found)"
        by (cases "release_and_advance r (fst e)") auto
      show ?thesis
        using handled_verification_passed [OF p(1,3) _ p(4) e(1) ra] e ra
        by (simp add: handle_pre_supervision_def VerificationPassed split: component_kind.split)
    qed (use stay in \<open>simp add: handle_pre_supervision_def VerificationPassed\<close>)
  next
    case (BootFailed c s k)
    obtain r' es out where h: "handle_corruption_advancing N r c = (r', es, out)"
      by (cases "handle_corruption_advancing N r c") auto
    show ?thesis
      using stay recover [of c] safe_boot_failed_advancing [OF pre _ _ h] p(5) [of c] awaiting_not_gated [OF p(1), of c]
      by (simp add: handle_pre_supervision_def BootFailed h)
  qed (use stay enter recover ca p(5) awaiting_not_gated [OF p(1)]
        handled_quiet [OF quiet_clear_awaiting_boot [OF p(1)] p(3,4)]
       in \<open>auto simp: handle_pre_supervision_def\<close>)
qed

lemma safe_awaiting_ready:
  assumes pre: "handler_pre N (AwaitingReady a) r g ev"
  shows "handled_ok (AwaitingReady a) r g (handle_awaiting_ready N r a ev)"
proof -
  note p = handler_preD [OF pre]
  note stay = handled_stay [OF p(1,3,4), of "[]"] and recover = handled_recover [OF p(1,3)]
    and ca = handled_corruption_advancing [OF p(1-3) _ _ p(4)]
  show ?thesis
  proof (cases ev)
    case (VerificationPassed c)
    show ?thesis
    proof (cases "map_option fst (at_cursor r) = Some c")
      case True
      then obtain e where e: "at_cursor r = Some e" "c = fst e" by auto
      obtain r' es found where ra: "release_and_advance r (fst e) = (r', es, found)"
        by (cases "release_and_advance r (fst e)") auto
      show ?thesis
        using handled_verification_passed [OF p(1,3) _ p(4) e(1) ra] e ra
        by (simp add: handle_awaiting_ready_def VerificationPassed)
    qed (use stay in \<open>simp add: handle_awaiting_ready_def VerificationPassed\<close>)
  next
    case (BootFailed c s k)
    obtain r' es out where h: "handle_corruption_advancing N r c = (r', es, out)"
      by (cases "handle_corruption_advancing N r c") auto
    show ?thesis
      using stay safe_boot_failed_advancing [OF pre _ _ h] p(5) [of c]
      by (simp add: handle_awaiting_ready_def BootFailed h)
  next
    case (ComponentReady c)
    let ?r = "clear_awaiting_boot r c"
    have q: "quiet r ?r" by (rule quiet_clear_awaiting_boot [OF p(1)])
    have "state_ok (AwaitingReady a) ?r g" using quiet_state_ok [OF q] p(4) by simp
    then have "enter_ok Ready ?r g" "enter_ok (AwaitingReady None) ?r g"
      by (auto simp: state_ok_def enter_ok_def)
    with safe_quiet [OF q p(3)] handled_quiet [OF q p(3,4)] show ?thesis
      by (simp add: handle_awaiting_ready_def ComponentReady Let_def handled_ok_def)
  qed (use stay recover ca p(5) in \<open>auto simp: handle_awaiting_ready_def\<close>)
qed

lemma safe_ready:
  assumes pre: "handler_pre N Ready r g ev"
  shows "handled_ok Ready r g (handle_ready r ev)"
proof -
  note p = handler_preD [OF pre]
  have "enter_ok Updating r g" using p(4) by (auto simp: enter_ok_def)
  moreover have "handled_ok Ready r g (r\<lparr>pending_commit := False\<rparr>, [CommitSvnFloor c], Handled)" for c
    using p(1,3) by (auto simp: handled_ok_def safe_def tracks_def state_ok_def)
  ultimately show ?thesis
    using handled_stay [OF p(1,3,4), of "[]"] handled_enter [OF p(1,3), of _ "[]"]
    by (cases ev) (auto simp: handle_ready_def)
qed

lemma safe_updating:
  assumes pre: "handler_pre N Updating r g ev"
  shows "handled_ok Updating r g (handle_updating N r ev)"
proof -
  note p = handler_preD [OF pre]
  have act: "handled_ok Updating r g (r\<lparr>pending_commit := True\<rparr>, [ActivateUpdate], Transition Ready)"
    using p(1,3) by (auto simp: handled_ok_def safe_def tracks_def enter_ok_def)
  have "enter_ok Ready r g" by (auto simp: enter_ok_def)
  note rej = handled_enter [OF p(1,3) this, of "[DiscardStaged]"]
  show ?thesis
  proof (cases ev)
    case (CorruptionDetected c)
    obtain r' es out where h: "handle_corruption N r c = (r', es, out)"
      by (cases "handle_corruption N r c") auto
    note s = corruption_safe [OF p(1-3) h]
    have c: "c \<in> ids r" using p(5) CorruptionDetected by simp
    have "handled_ok Updating r g (r', es, out)"
      using handled_corruption [OF p(1-3) c _ p(4)] h by simp
    moreover have "handled_ok Updating r g (r, [DiscardStaged, ReportUpdateAborted], Transition (Recovering c))"
      if "\<not> is_gated r c"
      using that c by (intro handled_recover [OF p(1,3)]) simp_all
    ultimately show ?thesis
      using s(4) by (auto simp: handle_updating_def CorruptionDetected h)
  qed (use handled_stay [OF p(1,3,4), of "[]"] act rej in \<open>auto simp: handle_updating_def\<close>)
qed

lemma safe_exhaust_recovery:
  assumes wf: "wf_rot r" and N: "length (chain r) \<le> N" and t: "tracks r g" and st: "state_ok (Recovering f) r g"
  shows "handled_ok (Recovering f) r g (exhaust_recovery N r f)"
proof -
  obtain r1 es v where b: "gate_by_policy N r f = (r1, es, v)" by (cases "gate_by_policy N r f") auto
  obtain gs where gt: "gates r gs es r1" and v: "v = NotGated \<longrightarrow> gs = [] \<and> r1 = r"
    using gate_by_policy_gates [OF wf N b] by blast
  note s = gates_safe(1) [OF wf t gt]
  have wf1: "wf_rot r1" and t1: "tracks r1 (ledger_of g es)" using s by (simp_all add: safe_def)
  have pc: "\<not> pending_commit r1" using gt st by (auto simp: gates_def same_frame_def state_ok_def)
  show ?thesis
  proof (cases v)
    case Gated
    have q: "quiet r1 (clear_retry r1 f)" by (rule quiet_clear_retry [OF wf1])
    have "safe r g es (clear_retry r1 f)" using safe_trans [OF s safe_quiet [OF q t1]] by simp
    moreover have "enter_ok PreSupervision (clear_retry r1 f) (ledger_of g es)"
      using q pc by (auto simp: enter_ok_def quiet_def same_frame_def)
    ultimately show ?thesis by (simp add: exhaust_recovery_def b Gated handled_ok_def)
  next
    case NotGated
    with v gt have "es = []" "r1 = r" by (auto simp: gates_def gate_effects_def)
    with NotGated handled_stay [OF wf t st] show ?thesis by (simp add: exhaust_recovery_def b)
  qed
qed


lemma handled_after_quiet:
  assumes q: "quiet r r1" and t: "tracks r g" and h: "handled_ok st r1 g res"
  shows "handled_ok st r g res"
proof -
  have "chain r1 = chain r" using q by (simp add: quiet_def same_frame_def)
  with h show ?thesis by (auto simp: handled_ok_def safe_def split: prod.splits)
qed

lemma safe_recovering:
  assumes pre: "handler_pre N (Recovering f) r g ev"
  shows "handled_ok (Recovering f) r g (handle_recovering N r f ev)"
proof -
  note p = handler_preD [OF pre]
  note stay = handled_stay [OF p(1,3,4), of "[]"]
  show ?thesis
  proof (cases ev)
    case (Restored c)
    define r1 where "r1 = fst (bump_retry r f)"
    have q: "quiet r r1" unfolding r1_def by (rule quiet_bump_retry [OF p(1)])
    then have wf1: "wf_rot r1" and t1: "tracks r1 g" and N1: "length (chain r1) \<le> N"
      using p(2,3) by (auto simp: quiet_def tracks_def same_frame_def)
    have st1: "state_ok (Recovering f) r1 g" using quiet_state_ok [OF q] p(4) by simp
    then have "enter_ok PreSupervision r1 g" by (auto simp: enter_ok_def state_ok_def)
    then have "handled_ok (Recovering f) r g (r1, [], Transition PreSupervision)"
      by (intro handled_after_quiet [OF q p(3)] handled_enter wf1 t1) simp_all
    moreover have "handled_ok (Recovering f) r g (exhaust_recovery N r1 f)"
      by (rule handled_after_quiet [OF q p(3) safe_exhaust_recovery [OF wf1 N1 t1 st1]])
    ultimately show ?thesis
      using stay by (auto simp: handle_recovering_def Restored r1_def split: prod.splits)
  next
    case (RecoveryUnavailable c)
    then show ?thesis
      using stay safe_exhaust_recovery [OF p(1-4)] by (simp add: handle_recovering_def)
  qed (use stay handled_enter [OF p(1,3), of _ "[]"] in \<open>auto simp: handle_recovering_def\<close>)
qed

lemma safe_handle:
  assumes pre: "handler_pre N st r g ev"
  shows "handled_ok st r g (handle N r st ev)"
  using pre handled_stay [OF handler_preD(1,3,4) [OF pre], of "[]"]
  by (cases st)
    (auto simp: handle_def intro: safe_power_on_reset safe_pre_supervision safe_awaiting_ready
      safe_ready safe_updating safe_recovering)

text \<open>
  The supervising handler isolates without moving the cursor; in a walking state the leaf
  handler has already taken every event that could isolate.
\<close>

lemma safe_supervising:
  assumes pre: "handler_pre N st r g ev"
    and w: "walking st \<Longrightarrow> \<not> (\<exists>c. ev = CorruptionDetected c) \<and>
      \<not> (\<exists>c s. ev = BootFailed c s DeviceFatal \<and> is_awaiting_boot r c)"
  shows "handled_ok st r g (handle_supervising N r ev)"
proof -
  note p = handler_preD [OF pre]
  note stay = handled_stay [OF p(1,3,4)]
  show ?thesis
  proof (cases ev)
    case (BootFailed c s k)
    obtain r' es out where h: "handle_corruption N r c = (r', es, out)"
      by (cases "handle_corruption N r c") auto
    have "handled_ok st r g (r', es, out)" if "\<not> walking st"
      using handled_corruption [OF p(1-3) _ that p(4), of c] p(5) [of c] BootFailed h by simp
    then have "handled_ok st r g (r', ReportBootFailed c s k # es, out)" if "\<not> walking st"
      using that by (intro handled_report) simp_all
    then show ?thesis
      using stay [of "[]"] w handled_recover [OF p(1,3), of c] p(5) [of c] awaiting_not_gated [OF p(1), of c]
      by (auto simp: handle_supervising_def BootFailed h)
  next
    case (CorruptionDetected c)
    then show ?thesis
      using w handled_corruption [OF p(1-3) _ _ p(4), of c] p(5) [of c]
      by (auto simp: handle_supervising_def)
  qed (use stay [of "[]"] stay [of "[SignAttestation]"] stay [of "[ReportUpdateDeferred]"] p(5)
        handled_enter [OF p(1,3), of _ "[]"] handled_recover [OF p(1,3)] awaiting_not_gated [OF p(1)]
        handled_quiet [OF quiet_clear_awaiting_boot [OF p(1)] p(3,4)]
       in \<open>auto simp: handle_supervising_def\<close>)
qed

lemma entry_recovering_safe:
  assumes wf: "wf_rot r" and t: "tracks r g" and f: "f \<in> ids r" "\<not> is_gated r f"
    and e: "entry_action r (Recovering f) = (r', es)"
  shows "safe r g es r' \<and> state_ok (Recovering f) r' (ledger_of g es)"
proof -
  define h where "h = (\<lambda>s :: component_status. s\<lparr>awaiting_boot := False, released := False\<rparr>)"
  define r0 where "r0 = r\<lparr>pending_commit := False\<rparr>"
  have wf0: "wf_rot r0" using wf by (simp add: r0_def)
  obtain i where i: "status_index r f = Some i" using f(1) by (auto simp: in_chain_iff [symmetric] in_chain_def)
  then have lt: "i < length (statuses r)" using wf_length [OF wf] by (auto dest: status_index_SomeD)
  have r': "r' = upd_status r0 f h" and es: "\<exists>k. es = [RecoverComponent f k]"
    using e i lt by (auto simp: entry_action_def clear_awaiting_boot_def upd_status_def r0_def h_def)
  have st: "status_of r' c = (if c = f then map_option h (status_of r0 c) else status_of r0 c)" for c
    using wf_length [OF wf0] by (auto simp: r' status_of_upd_status)
  have "wf_rot r'" unfolding r' by (rule wf_upd_status [OF wf0]) (simp add: h_def status_ok_def)
  moreover have gat: "is_gated r' c = is_gated r c" for c
    by (cases "status_of r f") (auto simp: is_gated_status st h_def r0_def)
  moreover have rel: "is_released r' c \<longleftrightarrow> is_released r c \<and> c \<noteq> f" for c
    by (auto simp: is_released_def st h_def r0_def)
  moreover have frame: "same_frame r0 r'" by (simp add: r')
  ultimately show ?thesis
    using t f es by (auto simp: safe_def tracks_def state_ok_def same_frame_simps [OF frame] r0_def)
qed

lemma entry_safe:
  assumes wf: "wf_rot r" and t: "tracks r g" and ok: "enter_ok st r g" and e: "entry_action r st = (r', es)"
  shows "safe r g es r' \<and> state_ok st r' (ledger_of g es)"
proof (cases st)
  case PreSupervision
  then show ?thesis using entry_walk_safe [OF wf t] e ok by (auto simp: state_ok_def enter_ok_def)
next
  case (Recovering f)
  then show ?thesis using entry_recovering_safe [OF wf t] e ok by (auto simp: enter_ok_def)
next
  case Ready
  have "quiet r r'" using e quiet_Ready_entry [OF wf] by (auto simp: Ready entry_action_def)
  then show ?thesis
    using e safe_quiet [OF _ t] by (auto simp: Ready entry_action_def state_ok_def)
next
  case Updating
  then show ?thesis using e t wf by (auto simp: entry_action_def safe_def tracks_def state_ok_def)
next
  case Locked
  then show ?thesis using e t wf by (auto simp: entry_action_def safe_def tracks_def state_ok_def)
next
  case (AwaitingReady a)
  then show ?thesis using e t wf ok by (auto simp: entry_action_def safe_def state_ok_def enter_ok_def)
qed (use ok in \<open>simp add: enter_ok_def\<close>)


section \<open>The step keeps the invariant and never breaks the ledger\<close>

definition orc_inv :: "nat \<Rightarrow> orchestrator \<Rightarrow> bool" where
  "orc_inv N orc \<longleftrightarrow>
     wf_rot (orot orc) \<and> length (chain (orot orc)) \<le> N \<and>
     (walking (ostate orc) \<longrightarrow> cursor_ok (orot orc)) \<and>
     (pending_commit (orot orc) \<longrightarrow> ostate orc = Ready \<or> ostate orc = Locked) \<and>
     (\<forall>f. ostate orc = Recovering f \<longrightarrow> f \<in> ids (orot orc) \<and> \<not> is_released (orot orc) f)"

definition ledger_rel :: "orchestrator \<Rightarrow> ledger \<Rightarrow> bool" where
  "ledger_rel orc g \<longleftrightarrow>
     tracks (orot orc) g \<and> (walking (ostate orc) \<longrightarrow> cursor_verified (orot orc) g)"

lemma handle_SuperD: "handle N r st ev = (r', es, Super) \<Longrightarrow> r' = r \<and> es = []"
  by (cases st; cases ev)
    (auto simp: handle_def handle_power_on_reset_def handle_pre_supervision_def handle_awaiting_ready_def
      handle_ready_def handle_updating_def handle_recovering_def exhaust_recovery_def Let_def
      handle_corruption_def handle_corruption_advancing_def
      split: if_splits prod.splits power_on_result.splits gating.splits component_kind.splits
        option.splits outcome.splits state.splits)


lemma supervising_guard:
  assumes "handle N r st ev = (r', es, Super)" "walking st" "is_supervised st"
  shows "\<not> (\<exists>c. ev = CorruptionDetected c) \<and>
    \<not> (\<exists>c s. ev = BootFailed c s DeviceFatal \<and> is_awaiting_boot r c)"
  using assms
  by (auto simp: walking_def handle_def handle_awaiting_ready_def handle_corruption_def
      handle_corruption_advancing_def Let_def
      split: if_splits prod.splits gating.splits option.splits)

lemma supervising_cases:
  assumes pre: "handler_pre N st r g ev"
    and h: "handle N r st ev = (r1, es1, out1)"
    and s: "(if out1 = Super \<and> is_supervised st then handle_supervising N r1 ev else (r1, [], out1)) = (r2, es2, out2)"
  shows "handled_ok st r g (r2, es1 @ es2, out2)"
proof (cases "out1 = Super \<and> is_supervised st")
  case True
  with h have eq: "r1 = r" "es1 = []" by (auto dest: handle_SuperD)
  have "handled_ok st r g (handle_supervising N r ev)"
    using True h by (intro safe_supervising [OF pre]) (auto dest: supervising_guard)
  with s True eq show ?thesis by simp
next
  case False
  with s h safe_handle [OF pre] show ?thesis by auto
qed

lemma step_safe:
  assumes inv: "orc_inv N orc" and rel: "ledger_rel orc g" and st: "step N orc ev = (orc', es)"
  shows "orc_inv N orc' \<and> ledger_rel orc' (ledger_of g es) \<and> audited g es \<and> chain (orot orc') = chain (orot orc)"
proof (cases "case event_component_id ev of None \<Rightarrow> False | Some c \<Rightarrow> \<not> in_chain (orot orc) c")
  case True
  then show ?thesis using inv rel st by (auto simp: step_def)
next
  case False
  let ?r = "orot orc" and ?st = "ostate orc"
  have pre: "handler_pre N ?st ?r g ev"
    using inv rel False
    by (auto simp: handler_pre_def orc_inv_def ledger_rel_def state_ok_def in_chain_iff split: option.splits)
  obtain r1 es1 out1 where h: "handle N ?r ?st ev = (r1, es1, out1)"
    by (cases "handle N ?r ?st ev") auto
  obtain r2 es2 out2 where s: "(if out1 = Super \<and> is_supervised ?st then handle_supervising N r1 ev
      else (r1, [], out1)) = (r2, es2, out2)" by (cases "if out1 = Super \<and> is_supervised ?st
      then handle_supervising N r1 ev else (r1, [], out1)") auto
  note ok = supervising_cases [OF pre h s]
  then have safe2: "safe ?r g (es1 @ es2) r2" by (simp add: handled_ok_def)
  then have wf2: "wf_rot r2" and t2: "tracks r2 (ledger_of g (es1 @ es2))"
    and ch2: "chain r2 = chain ?r" by (simp_all add: safe_def)
  have N: "length (chain ?r) \<le> N" using inv by (simp add: orc_inv_def)
  have finish: "orc_inv N \<lparr>orot = r3, ostate = st3\<rparr> \<and> ledger_rel \<lparr>orot = r3, ostate = st3\<rparr> (ledger_of g es3) \<and>
      audited g es3 \<and> chain r3 = chain ?r"
    if "safe ?r g es3 r3" "state_ok st3 r3 (ledger_of g es3)" for r3 st3 es3
    using that N by (auto simp: orc_inv_def ledger_rel_def safe_def state_ok_def)
  show ?thesis
  proof (cases "\<exists>target. out2 = Transition target")
    case True
    then obtain target where out: "out2 = Transition target" by blast
    obtain r3 es3 where e: "entry_action r2 target = (r3, es3)" by (cases "entry_action r2 target")
    have "enter_ok target r2 (ledger_of g (es1 @ es2))" using ok out by (simp add: handled_ok_def)
    note en = entry_safe [OF wf2 t2 this e]
    then have "safe ?r g (es1 @ es2 @ es3) r3" using safe_trans [OF safe2] by simp
    moreover have "orc' = \<lparr>orot = r3, ostate = target\<rparr>" "es = es1 @ es2 @ es3"
      using st False h s out e by (auto simp: step_def)
    ultimately show ?thesis using finish [of "es1 @ es2 @ es3" r3 target] en by simp
  next
    case False2: False
    then have "state_ok ?st r2 (ledger_of g (es1 @ es2))" using ok by (cases out2) (auto simp: handled_ok_def)
    moreover have "orc' = \<lparr>orot = r2, ostate = ?st\<rparr>" "es = es1 @ es2"
      using st False h s False2 by (auto simp: step_def split: outcome.splits)
    ultimately show ?thesis using finish [OF safe2] by simp
  qed
qed

text \<open>Some ledger follows the machine from every state that satisfies the invariant.\<close>

lemma ledger_exists: "\<exists>g. ledger_rel orc g"
  by (rule exI [of _ "\<lparr>verified = UNIV, isolated = {c. is_gated (orot orc) c}, live = {c. is_released (orot orc) c}\<rparr>"])
    (simp add: ledger_rel_def tracks_def cursor_verified_def)

lemma step_orc_inv [inv_lemmas]: "orc_inv N orc \<Longrightarrow> orc_inv N (fst (step N orc ev))"
  using step_safe ledger_exists by (metis prod.collapse)

lemma step_chain: "orc_inv N orc \<Longrightarrow> chain (orot (fst (step N orc ev))) = chain (orot orc)"
  using step_safe ledger_exists by (metis prod.collapse)

lemma step_ledger:
  assumes "orc_inv N orc" "ledger_rel orc g"
  shows "ledger_rel (fst (step N orc ev)) (ledger_of g (snd (step N orc ev)))" "audited g (snd (step N orc ev))"
  using step_safe [OF assms, of ev "fst (step N orc ev)" "snd (step N orc ev)"] by auto

lemma orc_inv_new:
  assumes "chain_ok ch" "length ch \<le> N"
  shows "orc_inv N (orchestrator_new ch mr)" "ledger_rel (orchestrator_new ch mr) ledger_init"
proof -
  let ?r = "rot_new ch mr"
  have st: "status_of ?r c = Some s \<Longrightarrow> s = default_status" for c s
    by (auto simp: status_of_def rot_new_def status_index_def dest: position_SomeD)
  have "wf_rot ?r"
  proof (rule wf_rotI)
    show "status_ok s" if "status_of ?r c = Some s" for c s
      using st [OF that] by (simp add: status_ok_def default_status_def)
  qed (use assms in \<open>auto simp: rot_new_def\<close>)
  then show "orc_inv N (orchestrator_new ch mr)"
    using assms by (auto simp: orc_inv_def orchestrator_new_def rot_new_def)
  show "ledger_rel (orchestrator_new ch mr) ledger_init"
    by (auto simp: ledger_rel_def orchestrator_new_def tracks_def ledger_init_def is_gated_status
        is_released_def default_status_def dest!: st)
qed

interpretation sm: monitored_machine "step N" "orc_inv N" ledger_ok ledger_upd ledger_rel for N
  by unfold_locales (auto intro: step_orc_inv step_ledger)

end
