(* ===== verification/Sm_Dispatch.thy ===== *)
theory Sm_Dispatch
  imports Sm_Invariant
begin

text \<open>
  The engine around the step: the effect buffer of capacity \<open>E\<close> never overflows when it has two
  slots per component and two more, which is what the compile-time check \<open>EFFECT_CAP_OK\<close> asks
  for, and the dispatch loop is fail-closed. The potential behind the bound is the number of
  components not yet isolated: each isolation emits two effects and uses one of them up.
\<close>

section \<open>How many effects a step emits\<close>

definition nungated :: "rot \<Rightarrow> nat" where
  "nungated r = card {c \<in> ids r. \<not> is_gated r c}"

lemma finite_ids [simp]: "finite (ids r)"
  by (simp add: ids_def)

lemma nungated_le: "nungated r \<le> length (chain r)"
proof -
  have "nungated r \<le> card (ids r)" unfolding nungated_def by (rule card_mono) auto
  also have "\<dots> \<le> length (chain r)"
    by (metis card_image_le card_length finite_set ids_def le_trans)
  finally show ?thesis .
qed

lemma gates_count:
  assumes gt: "gates r gs es r'"
  shows "length es + 2 * nungated r' = 2 * nungated r"
proof -
  have "length (gate_effects gs) = 2 * length gs" by (induction gs) (auto simp: gate_effects_def)
  then have len: "length es = 2 * length gs" using gt by (simp add: gates_def)
  have fr: "same_frame r r'" using gt by (simp add: gates_def)
  have "{c \<in> ids r'. \<not> is_gated r' c} = {c \<in> ids r. \<not> is_gated r c} - set gs"
    by (auto simp: gates_is_gated [OF gt] same_frame_simps [OF fr])
  moreover have "set gs \<subseteq> {c \<in> ids r. \<not> is_gated r c}" "card (set gs) = length gs"
    using gt by (auto simp: gates_def distinct_card)
  moreover from this(1) have "card (set gs) \<le> nungated r"
    unfolding nungated_def by (intro card_mono) auto
  ultimately have "nungated r' + length gs = nungated r"
    by (simp add: nungated_def card_Diff_subset)
  with len show ?thesis by simp
qed

lemma advance_count:
  assumes "idx \<le> length (chain r)" "advance_to_next_ungated r idx = (r', es, found)"
  shows "length es \<le> 2 * nungated r'" "length es \<le> 2"
proof -
  have "es = [] \<or> (length es = 2 \<and> (\<exists>j < length (chain r). \<not> is_gated r (fst (chain r ! j)) \<and>
      ids r' = ids r \<and> (\<forall>c. is_gated r' c = is_gated r c)))"
    using advance_cases [OF assms] by auto
  moreover have "0 < nungated r'" if "j < length (chain r)" "\<not> is_gated r (fst (chain r ! j))"
      "ids r' = ids r" "\<forall>c. is_gated r' c = is_gated r c" for j
    using that by (auto simp: nungated_def card_gt_0_iff ids_def)
  ultimately show "length es \<le> 2 * nungated r'" "length es \<le> 2" by force+
qed

lemma corruption_count:
  assumes wf: "wf_rot r" and N: "length (chain r) \<le> N" and h: "handle_corruption N r c = (r', es, out)"
  shows "length es + 2 * nungated r' = 2 * nungated r" "out \<noteq> Handled \<Longrightarrow> es = []"
    "out = Handled \<or> out = Transition (Recovering c)"
proof -
  obtain gs where gt: "gates r gs es r'"
    and out: "out = Handled \<or> out = Transition (Recovering c) \<and> gs = []"
    using handle_corruption_gates [OF wf N h] by blast
  show "length es + 2 * nungated r' = 2 * nungated r" by (rule gates_count [OF gt])
  show "out \<noteq> Handled \<Longrightarrow> es = []" "out = Handled \<or> out = Transition (Recovering c)"
    using out gt by (auto simp: gates_def gate_effects_def)
qed

lemma corruption_advancing_count:
  assumes wf: "wf_rot r" and N: "length (chain r) \<le> N"
    and h: "handle_corruption_advancing N r c = (r', es, out)"
  shows "length es \<le> 2 * length (chain r)" "out = Transition (Recovering c) \<Longrightarrow> es = []"
    "out = Handled \<or> out = Transition Ready \<or> out = Transition (Recovering c)"
proof -
  obtain r1 es1 out1 where c: "handle_corruption N r c = (r1, es1, out1)"
    by (cases "handle_corruption N r c") auto
  note k = corruption_count [OF wf N c]
  have "length es1 + 2 * nungated r1 \<le> 2 * length (chain r)"
    using k(1) nungated_le [of r] by simp
  moreover have "length (chain r1) = length (chain r)"
    using handle_corruption_gates [OF wf N c] by (auto simp: gates_def same_frame_def)
  ultimately have "length es \<le> 2 * length (chain r) \<and> (out = Transition (Recovering c) \<longrightarrow> es = []) \<and>
      (out = Handled \<or> out = Transition Ready \<or> out = Transition (Recovering c))"
  proof (cases "out1 \<noteq> Handled \<or> \<not> (case at_cursor r1 of None \<Rightarrow> False | Some e \<Rightarrow> is_gated r1 (fst e))")
    case True
    then have "es = es1" "out = out1" using h c by (auto simp: handle_corruption_advancing_def split: option.splits)
    then show ?thesis using k(2,3) \<open>length es1 + _ \<le> _\<close> by auto
  next
    case False
    then obtain e where e: "at_cursor r1 = Some e" by (auto split: option.splits)
    obtain es2 found where a: "advance_to_next_ungated r1 (unat (cursor r1) + 1) = (r', es2, found)"
      and es: "es = es1 @ es2" and out: "out = (if found then Handled else Transition Ready)"
      using h c False by (auto simp: handle_corruption_advancing_def Let_def split: prod.splits)
    have idx: "unat (cursor r1) + 1 \<le> length (chain r1)" using at_cursor_SomeD [OF e] by simp
    have "nungated r' = nungated r1"
      using advance_cases [OF idx a] by (auto simp: nungated_def)
    with advance_count [OF idx a] \<open>length es1 + _ \<le> _\<close> show ?thesis by (simp add: es out)
  qed
  then show "length es \<le> 2 * length (chain r)" "out = Transition (Recovering c) \<Longrightarrow> es = []"
    "out = Handled \<or> out = Transition Ready \<or> out = Transition (Recovering c)" by auto
qed

text \<open>What a handler may emit, by outcome, so that the entry action still has room.\<close>

definition emits_ok :: "rot \<Rightarrow> rot \<times> effect list \<times> outcome \<Rightarrow> bool" where
  "emits_ok r res =
     (case res of (r', es, out) \<Rightarrow>
        (case out of
           Transition PreSupervision \<Rightarrow> length es + 2 * nungated r' \<le> 2 * length (chain r)
         | Transition (Recovering _) \<Rightarrow> length es \<le> 2
         | Transition Updating \<Rightarrow> es = []
         | Transition Locked \<Rightarrow> es = []
         | _ \<Rightarrow> length es \<le> 2 * length (chain r) + 1))"

lemma emits_cong: "chain r1 = chain r \<Longrightarrow> emits_ok r1 res = emits_ok r res"
  unfolding emits_ok_def by (erule ssubst) (rule refl)

lemma emits_nil [simp]: "wf_rot r \<Longrightarrow> emits_ok r (r, [], out)"
  using nungated_le [of r] by (auto simp: emits_ok_def split: outcome.split state.split)

lemma release_count:
  assumes "at_cursor r = Some e" "release_and_advance r (fst e) = (r', es, found)"
  shows "length es \<le> 3"
proof -
  let ?r1 = "mark_released (clear_retry r (fst e)) (fst e)"
  have fr: "same_frame r ?r1"
    unfolding mark_released_def clear_retry_def
    by (rule same_frame_trans) (rule same_frame_upd_status)+
  obtain es2 where a: "advance_to_next_ungated ?r1 (unat (cursor ?r1) + 1) = (r', es2, found)"
    and es: "es = ReleaseReset (fst e) # es2"
    using assms(2) by (auto simp: release_and_advance_def Let_def split: prod.splits)
  have "unat (cursor ?r1) + 1 \<le> length (chain ?r1)"
    using at_cursor_SomeD [OF assms(1)] by (simp add: same_frame_simps [OF fr])
  from advance_count(2) [OF this a] show ?thesis by (simp add: es)
qed


lemma chain_pos: "wf_rot r \<Longrightarrow> 1 \<le> length (chain r)"
  using wf_nonempty by (cases "chain r") auto

lemma emits_corruption_advancing:
  assumes wf: "wf_rot r" and N: "length (chain r) \<le> N"
    and h: "handle_corruption_advancing N r c = (r', es, out)"
  shows "emits_ok r (r', es, out)" "emits_ok r (r', ReportBootFailed c s k # es, out)"
  using corruption_advancing_count [OF wf N h] chain_pos [OF wf] by (auto simp: emits_ok_def)

lemma emits_corruption:
  assumes wf: "wf_rot r" and N: "length (chain r) \<le> N" and h: "handle_corruption N r c = (r', es, out)"
  shows "emits_ok r (r', es, out)" "emits_ok r (r', ReportBootFailed c s k # es, out)"
    "out = Transition (Recovering d) \<Longrightarrow> length es = 0"
  using corruption_count [OF wf N h] nungated_le [of r] chain_pos [OF wf] by (auto simp: emits_ok_def)

lemma emits_release:
  assumes wf: "wf_rot r" and e: "at_cursor r = Some e" and ra: "release_and_advance r (fst e) = (r', es, found)"
  shows "emits_ok r (r', es, Handled)" "emits_ok r (r', es, Transition Ready)"
    "emits_ok r (r', es, Transition (AwaitingReady a))"
  using release_count [OF e ra] chain_pos [OF wf] by (auto simp: emits_ok_def)

lemma emits_pre_supervision:
  assumes wf: "wf_rot r" and N: "length (chain r) \<le> N"
  shows "emits_ok r (handle_pre_supervision N r ev)"
proof (cases ev)
  case (VerificationPassed c)
  show ?thesis
  proof (cases "map_option fst (at_cursor r) = Some c")
    case True
    then obtain e where e: "at_cursor r = Some e" "c = fst e" by auto
    obtain r' es found where ra: "release_and_advance r (fst e) = (r', es, found)"
      by (cases "release_and_advance r (fst e)") auto
    show ?thesis
      using emits_release [OF wf e(1) ra] e ra
      by (simp add: handle_pre_supervision_def VerificationPassed split: component_kind.split)
  qed (use wf in \<open>simp add: handle_pre_supervision_def VerificationPassed\<close>)
next
  case (BootFailed c s k)
  obtain r' es out where h: "handle_corruption_advancing N r c = (r', es, out)"
    by (cases "handle_corruption_advancing N r c") auto
  show ?thesis
    using wf emits_corruption_advancing(2) [OF wf N h]
    by (auto simp: handle_pre_supervision_def BootFailed h emits_ok_def [of r "(r, _, Transition (Recovering c))"])
next
  case (CorruptionDetected c)
  then show ?thesis
    using emits_corruption_advancing(1) [OF wf N] by (cases "handle_corruption_advancing N r c") (simp add: handle_pre_supervision_def)
qed (use wf in \<open>auto simp: handle_pre_supervision_def emits_ok_def\<close>)

lemma emits_awaiting_ready:
  assumes wf: "wf_rot r" and N: "length (chain r) \<le> N"
  shows "emits_ok r (handle_awaiting_ready N r a ev)"
proof (cases ev)
  case (VerificationPassed c)
  show ?thesis
  proof (cases "map_option fst (at_cursor r) = Some c")
    case True
    then obtain e where e: "at_cursor r = Some e" "c = fst e" by auto
    obtain r' es found where ra: "release_and_advance r (fst e) = (r', es, found)"
      by (cases "release_and_advance r (fst e)") auto
    show ?thesis
      using emits_release [OF wf e(1) ra] e ra by (simp add: handle_awaiting_ready_def VerificationPassed)
  qed (use wf in \<open>simp add: handle_awaiting_ready_def VerificationPassed\<close>)
next
  case (BootFailed c s k)
  obtain r' es out where h: "handle_corruption_advancing N r c = (r', es, out)"
    by (cases "handle_corruption_advancing N r c") auto
  show ?thesis
    using wf emits_corruption_advancing(2) [OF wf N h] by (auto simp: handle_awaiting_ready_def BootFailed h)
next
  case (CorruptionDetected c)
  then show ?thesis
    using emits_corruption_advancing(1) [OF wf N] by (cases "handle_corruption_advancing N r c") (simp add: handle_awaiting_ready_def)
qed (use wf in \<open>auto simp: handle_awaiting_ready_def emits_ok_def Let_def\<close>)

lemma emits_exhaust_recovery:
  assumes wf: "wf_rot r" and N: "length (chain r) \<le> N"
  shows "emits_ok r (exhaust_recovery N r f)"
proof -
  obtain r1 es v where b: "gate_by_policy N r f = (r1, es, v)" by (cases "gate_by_policy N r f") auto
  obtain gs where gt: "gates r gs es r1" and v: "v = NotGated \<longrightarrow> gs = []"
    using gate_by_policy_gates [OF wf N b] by blast
  have "nungated (clear_retry r1 f) = nungated r1"
    using quiet_clear_retry [OF gates_wf [OF wf gt], of f] same_frame_simps(6) [of r1 "clear_retry r1 f"]
    by (auto simp: nungated_def quiet_def)
  with gates_count [OF gt] nungated_le [of r] chain_pos [OF wf] v gt show ?thesis
    by (cases v) (auto simp: exhaust_recovery_def b emits_ok_def gates_def gate_effects_def)
qed

lemma emits_recovering:
  assumes wf: "wf_rot r" and N: "length (chain r) \<le> N"
  shows "emits_ok r (handle_recovering N r f ev)"
proof (cases ev)
  case (Restored c)
  define r1 where "r1 = fst (bump_retry r f)"
  have q: "quiet r r1" unfolding r1_def by (rule quiet_bump_retry [OF wf])
  then have wf1: "wf_rot r1" and ch: "chain r1 = chain r" by (auto simp: quiet_def same_frame_def)
  have "emits_ok r (exhaust_recovery N r1 f)" "emits_ok r (r1, [], Transition PreSupervision)"
    using emits_exhaust_recovery [OF wf1, of N f] N emits_nil [OF wf1] by (simp_all add: ch emits_cong [OF ch])
  then show ?thesis
    using wf by (auto simp: handle_recovering_def Restored r1_def split: prod.splits)
qed (use wf emits_exhaust_recovery [OF wf N] in \<open>auto simp: handle_recovering_def\<close>)

lemma emits_updating:
  assumes wf: "wf_rot r" and N: "length (chain r) \<le> N"
  shows "emits_ok r (handle_updating N r ev)"
proof (cases ev)
  case (CorruptionDetected c)
  obtain r' es out where h: "handle_corruption N r c = (r', es, out)"
    by (cases "handle_corruption N r c") auto
  from corruption_count(3) [OF wf N h] emits_corruption [OF wf N h] show ?thesis
    by (auto simp: handle_updating_def CorruptionDetected h emits_ok_def)
qed (use wf in \<open>auto simp: handle_updating_def emits_ok_def\<close>)

lemma emits_handle:
  assumes wf: "wf_rot r" and N: "length (chain r) \<le> N"
  shows "emits_ok r (handle N r st ev)"
proof (cases st)
  case PowerOnReset
  then show ?thesis
    using wf by (auto simp: handle_def handle_power_on_reset_def split: event.split power_on_result.split)
next
  case Ready
  then show ?thesis using wf by (cases ev) (auto simp: handle_def handle_ready_def emits_ok_def)
qed (use wf emits_pre_supervision [OF wf N] emits_awaiting_ready [OF wf N] emits_updating [OF wf N]
      emits_recovering [OF wf N] in \<open>auto simp: handle_def\<close>)

lemma emits_supervising:
  assumes wf: "wf_rot r" and N: "length (chain r) \<le> N"
  shows "emits_ok r (handle_supervising N r ev)"
proof (cases ev)
  case (BootFailed c s k)
  obtain r' es out where h: "handle_corruption N r c = (r', es, out)"
    by (cases "handle_corruption N r c") auto
  show ?thesis
    using wf emits_corruption(2) [OF wf N h]
    by (auto simp: handle_supervising_def BootFailed h emits_ok_def [of r "(r, _, Transition (Recovering c))"])
next
  case (CorruptionDetected c)
  then show ?thesis
    using emits_corruption(1) [OF wf N] by (cases "handle_corruption N r c") (simp add: handle_supervising_def)
qed (use wf in \<open>auto simp: handle_supervising_def emits_ok_def\<close>)


lemma quiesce_count:
  assumes wf: "wf_rot r" and q: "quiesce_all r = (r', es)"
  shows "length es \<le> nungated r" "nungated r' = nungated r"
proof -
  note spec = quiesce_all_spec [OF wf q]
  let ?l = "filter (is_released r) (map fst (chain r))"
  have "length ?l = card (set ?l)"
    using wf_distinct [OF wf] by (intro distinct_card [symmetric] distinct_filter)
  also have "\<dots> \<le> nungated r"
    unfolding nungated_def using gated_not_released [OF wf] by (intro card_mono) (auto simp: ids_def)
  finally show "length es \<le> nungated r" using spec by simp
  show "nungated r' = nungated r"
    using quiesce_all_facts(2) [OF wf q] spec same_frame_simps(6) [of r r'] by (simp add: nungated_def)
qed

lemma entry_count:
  assumes wf: "wf_rot r" and e: "entry_action r t = (r', es)"
  shows "t = PreSupervision \<Longrightarrow> length es \<le> 2 * nungated r + 1" "t \<noteq> PreSupervision \<Longrightarrow> length es \<le> 2"
    "t = Ready \<or> (\<exists>a. t = AwaitingReady a) \<or> t = PowerOnReset \<Longrightarrow> es = []"
    "t = Recovering f \<Longrightarrow> length es = 1"
proof -
  show "length es \<le> 2 * nungated r + 1" if pre: "t = PreSupervision"
  proof -
    obtain r1 es1 where q: "quiesce_all r = (r1, es1)" by (cases "quiesce_all r")
    obtain es2 found where a: "advance_to_next_ungated r1 0 = (r', es2, found)" and es: "es = es1 @ es2"
      using e q pre by (auto simp: entry_action_def split: prod.splits)
    have "nungated r' = nungated r1" using advance_cases [OF le0 a] by (auto simp: nungated_def)
    with quiesce_count [OF wf q] advance_count [OF le0 a] show ?thesis by (simp add: es)
  qed
qed (use e in \<open>auto simp: entry_action_def Let_def split: state.splits option.splits\<close>)

text \<open>The buffer bound. \<open>E \<ge> 2N + 2\<close> is \<open>EFFECT_CAP_OK\<close>.\<close>

lemma step_effects_bound:
  assumes inv: "orc_inv N orc"
  shows "length (snd (step N orc ev)) \<le> 2 * length (chain (orot orc)) + 2"
proof (cases "case event_component_id ev of None \<Rightarrow> False | Some c \<Rightarrow> \<not> in_chain (orot orc) c")
  case True
  then show ?thesis by (simp add: step_def)
next
  case False
  let ?r = "orot orc" and ?st = "ostate orc"
  have wf: "wf_rot ?r" and N: "length (chain ?r) \<le> N" using inv by (auto simp: orc_inv_def)
  obtain g where rel: "ledger_rel orc g" using ledger_exists by blast
  have pre: "handler_pre N ?st ?r g ev"
    using inv rel False
    by (auto simp: handler_pre_def orc_inv_def ledger_rel_def state_ok_def in_chain_iff split: option.splits)
  obtain r1 es1 out1 where h: "handle N ?r ?st ev = (r1, es1, out1)"
    by (cases "handle N ?r ?st ev") auto
  obtain r2 es2 out2 where s: "(if out1 = Super \<and> is_supervised ?st then handle_supervising N r1 ev
      else (r1, [], out1)) = (r2, es2, out2)" by (cases "if out1 = Super \<and> is_supervised ?st
      then handle_supervising N r1 ev else (r1, [], out1)") auto
  have "emits_ok ?r (r2, es1 @ es2, out2)"
    using h s emits_handle [OF wf N, of ?st ev] emits_supervising [OF wf N, of ev]
    by (auto split: if_splits dest: handle_SuperD)
  moreover have "wf_rot r2" using supervising_cases [OF pre h s] by (simp add: handled_ok_def safe_def)
  note entry = entry_count [OF this surjective_pairing]
  have "length (es1 @ es2 @ snd (entry_action r2 t)) \<le> 2 * length (chain ?r) + 2"
    if "out2 = Transition t" "emits_ok ?r (r2, es1 @ es2, Transition t)" for t
    using that(2) nungated_le [of ?r] chain_pos [OF wf] entry(1) [of t] entry(2) [of t] entry(3) [of t] entry(4) [of t]
    by (cases t) (auto simp: emits_ok_def)
  ultimately show ?thesis
    using False h s
    by (cases out2) (auto simp: step_def emits_ok_def Let_def split: prod.splits)
qed


section \<open>The dispatch loop\<close>

lemma sink_fill_id: "length es \<le> E \<Longrightarrow> sink_fill E es = es"
  unfolding sink_fill_def sink_emit_def by (subst foldl_push_or_drop) simp_all

lemma set_sink_fill: "set (sink_fill E es) \<subseteq> set es"
proof -
  have "set (foldl (sink_emit E) acc es) \<subseteq> set acc \<union> set es" for acc
  proof (induction es arbitrary: acc)
    case (Cons e es)
    have "set (sink_emit E acc e) \<subseteq> insert e (set acc)"
      by (auto simp: sink_emit_def push_or_drop_def push_cap_def split: option.splits if_splits)
    with Cons.IH [of "sink_emit E acc e"] show ?case by auto
  qed simp
  from this [of "[]"] show ?thesis by (simp add: sink_fill_def)
qed

lemma step_buffer_complete:
  assumes "orc_inv N orc" "2 * length (chain (orot orc)) + 2 \<le> E"
  shows "sink_fill E (snd (step N orc ev)) = snd (step N orc ev)"
  using step_effects_bound [OF assms(1), of ev] assms(2) by (intro sink_fill_id) simp

lemma step_in_Locked: "ostate orc = Locked \<Longrightarrow> step N orc ev = (orc, [])"
  by (cases orc) (simp add: step_def handle_def)

lemma step_on_EffectFailed:
  "ostate orc \<noteq> Locked \<Longrightarrow> step N orc EffectFailed = (orc\<lparr>ostate := Locked\<rparr>, [LatchLockdown])"
  by (cases orc; cases "ostate orc")
    (auto simp: step_def handle_def handle_power_on_reset_def handle_pre_supervision_def
      handle_awaiting_ready_def handle_ready_def handle_updating_def handle_recovering_def
      handle_supervising_def entry_action_def)

text \<open>An executor that records every effect it is handed.\<close>

definition logged :: "'p executor \<Rightarrow> ('p \<times> effect list) executor" where
  "logged on_effect pl e =
     (case on_effect (fst pl) e of (p, res) \<Rightarrow> ((p, snd pl @ [e]), res))"

definition external :: "effect \<Rightarrow> bool" where
  "external e \<longleftrightarrow> (case e of Emit _ \<Rightarrow> False | _ \<Rightarrow> True)"

abbreviation executed :: "effect list \<Rightarrow> effect list" where
  "executed \<equiv> filter external"

lemma external_simps [simp]:
  "\<not> external (Emit ev)" "external (ReadFirmware c)" "external (VerifyFirmware c)"
  "external (ReleaseReset c)" "external (AssertReset c)" "external SignAttestation"
  "external AuthenticateUpdate" "external StageUpdate" "external ActivateUpdate"
  "external DiscardStaged" "external (CommitSvnFloor c)" "external (RecoverComponent c n)"
  "external (ReportIsolated c)" "external (ReportRecoveryFailed c)" "external (ReportBootFailed c s k)"
  "external ReportUpdateDeferred" "external ReportUpdateAborted" "external LatchLockdown"
  by (simp_all add: external_def)

lemma external_cases: "(\<And>ev. e = Emit ev \<Longrightarrow> P) \<Longrightarrow> (external e \<Longrightarrow> P) \<Longrightarrow> P"
  by (cases e) (auto simp: external_def)

lemma executed_ledger: "ledger_of g (executed es) = ledger_of g es \<and> audited g (executed es) = audited g es"
proof (induction es arbitrary: g)
  case (Cons e es)
  show ?case by (rule external_cases [of e]) (auto simp: Cons)
qed simp

lemma latch_cases: "length pending \<le> PENDING_CAP \<Longrightarrow>
    \<exists>q. latch pending = EffectFailed # q \<and> length (latch pending) \<le> PENDING_CAP \<and>
      length (latch pending) \<le> Suc (length pending) \<and> set q \<subseteq> set pending"
  by (auto simp: latch_def push_front_cap_def PENDING_CAP_def Let_def dest: in_set_butlastD)

lemma drain_logged:
  assumes "drain_effects (logged ex) es (p, log) pending failed = ((p', log'), pending', failed')"
    and "length pending \<le> PENDING_CAP"
  shows "length pending' \<le> PENDING_CAP \<and> (failed \<longrightarrow> failed' \<and> (\<exists>q. pending' = pending @ q)) \<and>
    (failed' \<and> \<not> failed \<longrightarrow> (\<exists>q. pending' = EffectFailed # q)) \<and>
    (\<not> failed' \<longrightarrow> (\<exists>q. pending' = pending @ q)) \<and>
    (\<exists>pre suf. es = pre @ suf \<and> log' = log @ executed pre \<and> (\<not> failed' \<longrightarrow> suf = []))"
  using assms
proof (induction es arbitrary: p log pending)
  case Nil
  then show ?case by auto
next
  case (Cons e es)
  define res where "res = (case e of Emit i \<Rightarrow> ((p, log), Inr (Some i)) | _ \<Rightarrow> logged ex (p, log) e)"
  obtain p1 log1 a where res: "res = ((p1, log1), a)" by (cases res) auto
  have log1: "log1 = log @ executed [e]"
    using res by (auto simp: res_def logged_def external_def split: effect.splits prod.splits)
  have step: "drain_effects (logged ex) (e # es) (p, log) pending failed =
    (case a of Inl _ \<Rightarrow> if \<not> failed then ((p1, log1), latch pending, True) else ((p1, log1), pending, failed)
     | Inr None \<Rightarrow> drain_effects (logged ex) es (p1, log1) pending failed
     | Inr (Some nxt) \<Rightarrow> (case push_cap PENDING_CAP pending nxt of
         Some q \<Rightarrow> drain_effects (logged ex) es (p1, log1) q failed
       | None \<Rightarrow> if \<not> failed then ((p1, log1), latch pending, True)
                 else drain_effects (logged ex) es (p1, log1) pending failed))"
    by (simp add: res_def [symmetric] res)
  note ih = Cons.IH [of p1 log1]
  have stop: "\<exists>pre suf. e # es = pre @ suf \<and> log1 = log @ executed pre"
    by (rule exI [of _ "[e]"]) (simp add: log1)
  have go: "\<exists>pre suf. e # es = pre @ suf \<and> log' = log @ executed pre \<and> (\<not> failed' \<longrightarrow> suf = [])"
    if "\<exists>pre suf. es = pre @ suf \<and> log' = log1 @ executed pre \<and> (\<not> failed' \<longrightarrow> suf = [])"
  proof -
    from that obtain pre suf where "es = pre @ suf" "log' = log1 @ executed pre" "\<not> failed' \<longrightarrow> suf = []"
      by blast
    then show ?thesis by (intro exI [of _ "e # pre"] exI [of _ suf]) (auto simp: log1)
  qed
  note l = latch_cases [OF Cons.prems(2)]
  consider (fail) "\<exists>u. a = Inl u" | (none) "a = Inr None"
    | (push) nxt q where "a = Inr (Some nxt)" "push_cap PENDING_CAP pending nxt = Some q"
    | (full) nxt where "a = Inr (Some nxt)" "push_cap PENDING_CAP pending nxt = None"
    by (cases a; cases "case a of Inr x \<Rightarrow> x | Inl _ \<Rightarrow> None") (auto split: sum.splits)
  then show ?case
  proof cases
    case fail
    then show ?thesis using Cons.prems step l stop by (cases failed) auto
  next
    case none
    then show ?thesis using Cons.prems step ih [of pending] go by auto
  next
    case push
    then have q: "q = pending @ [nxt]" "length q \<le> PENDING_CAP"
      by (auto simp: push_cap_def split: if_splits)
    then show ?thesis using push Cons.prems step ih [of q] go by auto
  next
    case full
    then show ?thesis using Cons.prems step ih [of pending] l stop go by (cases failed) auto
  qed
qed


text \<open>
  The loop invariant. As long as nothing failed the ledger follows the effects that were
  executed; after a failure the machine is locked, or the latch event is next in the queue.
\<close>

definition dispatch_inv ::
    "nat \<Rightarrow> nat \<Rightarrow> ledger \<Rightarrow> orchestrator \<Rightarrow> effect list \<Rightarrow> event list \<Rightarrow> bool \<Rightarrow> bool" where
  "dispatch_inv N E g orc log pending failed \<longleftrightarrow>
     orc_inv N orc \<and> 2 * length (chain (orot orc)) + 2 \<le> E \<and> length pending \<le> PENDING_CAP \<and>
     audited g log \<and> (\<not> failed \<longrightarrow> ledger_rel orc (ledger_of g log)) \<and>
     (failed \<longrightarrow> ostate orc = Locked \<or> (\<exists>q. pending = EffectFailed # q))"

lemma audited_prefix: "audited g (pre @ suf) \<Longrightarrow> audited g pre"
  by simp

lemma dispatch_inv_step:
  assumes inv: "dispatch_inv N E g orc log (ev # rest) failed"
    and st: "step N orc ev = (orc1, es)"
    and dr: "drain_effects (logged ex) (sink_fill E es) (p, log) rest failed = ((p1, log1), pending1, failed1)"
  shows "dispatch_inv N E g orc1 log1 pending1 failed1"
proof -
  have oi: "orc_inv N orc" and E: "2 * length (chain (orot orc)) + 2 \<le> E" and len: "length rest \<le> PENDING_CAP"
    and aud: "audited g log"
    using inv by (auto simp: dispatch_inv_def)
  have fill: "sink_fill E es = es" using step_buffer_complete [OF oi E, of ev] st by simp
  have oi1: "orc_inv N orc1" "2 * length (chain (orot orc1)) + 2 \<le> E"
    using step_orc_inv [OF oi, of ev] step_chain [OF oi, of ev] st E by simp_all
  note d = drain_logged [OF dr [unfolded fill] len]
  then obtain pre suf where es: "es = pre @ suf" and log1: "log1 = log @ executed pre"
    and suf: "\<not> failed1 \<longrightarrow> suf = []" by blast
  show ?thesis
  proof (cases failed)
    case False
    then have rel: "ledger_rel orc (ledger_of g log)" using inv by (simp add: dispatch_inv_def)
    from step_ledger [OF oi rel, of ev] st
    have s: "ledger_rel orc1 (ledger_of (ledger_of g log) es)" "audited (ledger_of g log) es" by simp_all
    have "audited g log1" using aud s(2) by (simp add: log1 es executed_ledger)
    moreover have "ledger_rel orc1 (ledger_of g log1)" if "\<not> failed1"
      using s(1) suf that by (simp add: log1 es executed_ledger)
    ultimately show ?thesis using oi1 d False by (auto simp: dispatch_inv_def)
  next
    case True
    have "ostate orc1 = Locked \<and> list_all neutral es"
      using inv True st step_in_Locked [of orc N ev] step_on_EffectFailed [of orc N]
      by (cases "ostate orc = Locked") (auto simp: dispatch_inv_def)
    moreover from this have "audited g log1"
      using aud neutral_list [of pre] by (simp add: log1 es executed_ledger)
    ultimately show ?thesis using oi1 d True by (auto simp: dispatch_inv_def)
  qed
qed

text \<open>Induction over a dispatch that returned \<open>res\<close>.\<close>

lemma dispatch_loop_induct [consumes 1, case_names finished iterate]:
  assumes "dispatch_loop N E ex orc p pending failed = Some res"
    and base: "\<And>orc p failed. res = (orc, p, failed) \<Longrightarrow> Q orc p [] failed"
    and step: "\<And>orc p ev rest failed orc1 es p1 pending1 failed1.
      step N orc ev = (orc1, es) \<Longrightarrow>
      drain_effects ex (sink_fill E es) p rest failed = (p1, pending1, failed1) \<Longrightarrow>
      Q orc1 p1 pending1 failed1 \<Longrightarrow> Q orc p (ev # rest) failed"
  shows "Q orc p pending failed"
proof -
  let ?P = "\<lambda>N' E' ex' orc p pending failed y.
    N' = N \<and> E' = E \<and> ex' = ex \<and> y = res \<longrightarrow> Q orc p pending failed"
  have "?P N E ex orc p pending failed res"
  proof (rule dispatch_loop.raw_induct [where P = ?P, OF _ assms(1)])
    fix loop N' E' ex' orc p pending failed y
    assume ih: "\<And>N' E' ex' orc p pending failed y.
        loop N' E' ex' orc p pending failed = Some y \<Longrightarrow> ?P N' E' ex' orc p pending failed y"
      and body: "(case pending of [] \<Rightarrow> Some (orc, p, failed)
         | ev # rest \<Rightarrow>
             let (orc1, es) = Sm_Machine.step N' orc ev;
                 (p1, pending1, failed1) = drain_effects ex' (sink_fill E' es) p rest failed
             in loop N' E' ex' orc1 p1 pending1 failed1) = Some y"
    show "?P N' E' ex' orc p pending failed y"
    proof (cases pending)
      case Nil
      with body base show ?thesis by auto
    next
      case (Cons ev rest)
      obtain orc1 es where st: "Sm_Machine.step N' orc ev = (orc1, es)" by (cases "Sm_Machine.step N' orc ev")
      obtain p1 pending1 failed1 where
        dr: "drain_effects ex' (sink_fill E' es) p rest failed = (p1, pending1, failed1)"
        by (cases "drain_effects ex' (sink_fill E' es) p rest failed") auto
      from body Cons st dr have "loop N' E' ex' orc1 p1 pending1 failed1 = Some y" by simp
      from ih [OF this] step [of orc ev orc1 es p rest failed p1 pending1 failed1] Cons st dr
      show ?thesis by auto
    qed
  qed
  then show ?thesis by simp
qed

lemma dispatch_loop_logged:
  assumes "dispatch_loop N E (logged ex) orc pl pending failed = Some (orc', pl', failed')"
    and "dispatch_inv N E g orc (snd pl) pending failed"
  shows "dispatch_inv N E g orc' (snd pl') [] failed'"
  using assms
proof (induction rule: dispatch_loop_induct)
  case (iterate orc pl ev rest failed orc1 es pl1 pending1 failed1)
  then show ?case
    using dispatch_inv_step [of N E g orc "snd pl" ev rest failed orc1 es ex "fst pl" "fst pl1" "snd pl1"]
    by simp
qed simp

text \<open>A dispatch without failure executes exactly the effects of a run, in order.\<close>

lemma drain_failed_mono:
  "drain_effects ex es p pending failed = (p', pending', failed') \<Longrightarrow> failed \<Longrightarrow> failed'"
  by (induction es arbitrary: p pending) (auto split: prod.splits sum.splits option.splits if_splits)

text \<open>
  The specification of a dispatch without failure. \<open>answers\<close> hands the effects of a run to the
  executor one after the other: an \<open>Emit\<close> answers with its own event, every other effect with
  the event the executor returns, if any, and an effect that fails gives no answer at all.
\<close>

fun answers :: "'p executor \<Rightarrow> 'p \<Rightarrow> effect list \<Rightarrow> ('p \<times> event list) option" where
  "answers ex p [] = Some (p, [])"
| "answers ex p (e # es) =
     (case (case e of Emit i \<Rightarrow> (p, Inr (Some i)) | _ \<Rightarrow> ex p e) of
        (_, Inl _) \<Rightarrow> None
      | (p1, Inr ans) \<Rightarrow>
          map_option (\<lambda>(p2, evs). (p2, (case ans of None \<Rightarrow> [] | Some ev \<Rightarrow> [ev]) @ evs)) (answers ex p1 es))"

lemma answers_append:
  "answers ex p es = Some (p1, evs1) \<Longrightarrow> answers ex p1 fs = Some (p2, evs2) \<Longrightarrow>
     answers ex p (es @ fs) = Some (p2, evs1 @ evs2)"
  by (induction es arbitrary: p evs1) (auto split: prod.splits sum.splits)

lemma answers_Cons:
  assumes "(case e of Emit i \<Rightarrow> (p, Inr (Some i)) | _ \<Rightarrow> ex p e) = (p1, Inr ans)"
    and "answers ex p1 es = Some (p2, evs)"
  shows "answers ex p (e # es) = Some (p2, (case ans of None \<Rightarrow> [] | Some ev \<Rightarrow> [ev]) @ evs)"
  unfolding answers.simps(2) assms(1) using assms(2) by simp

text \<open>What a drain without failure appends to the queue is what the effects answered, in order.\<close>

lemma drain_answers:
  assumes "drain_effects ex es p pending failed = (p', pending', False)"
  shows "\<exists>evs. answers ex p es = Some (p', evs) \<and> pending' = pending @ evs"
  using assms
proof (induction es arbitrary: p pending)
  case (Cons e es)
  obtain p1 a where a: "(case e of Emit i \<Rightarrow> (p, Inr (Some i)) | _ \<Rightarrow> ex p e) = (p1, a)"
    by (cases "case e of Emit i \<Rightarrow> (p, Inr (Some i)) | _ \<Rightarrow> ex p e")
  note d = Cons.prems [unfolded drain_effects.simps a prod.case]
  have mono: "\<not> failed" using drain_failed_mono [OF Cons.prems] by blast
  from d mono obtain ans where ans: "a = Inr ans" by (cases a) auto
  show ?case
  proof (cases ans)
    case None
    with d ans Cons.IH [of p1 pending] answers_Cons [where e = e and p = p and ex = ex and ans = None and es = es] a show ?thesis by auto
  next
    case (Some nxt)
    with d ans mono obtain q where q: "push_cap PENDING_CAP pending nxt = Some q"
      and dq: "drain_effects ex es p1 q failed = (p', pending', False)" by (auto split: option.splits)
    from q have "q = pending @ [nxt]" by (auto simp: push_cap_def split: if_splits)
    with Cons.IH [OF dq] answers_Cons [where e = e and p = p and ex = ex and ans = ans and es = es] a ans Some show ?thesis by auto
  qed
qed simp

lemma dispatch_loop_run:
  assumes "dispatch_loop N E ex orc p pending failed = Some (orc', p', False)"
    and "orc_inv N orc" "2 * length (chain (orot orc)) + 2 \<le> E"
  shows "\<not> failed \<and> (\<exists>evs. fst (run (step N) orc (pending @ evs)) = orc' \<and>
    answers ex p (snd (run (step N) orc (pending @ evs))) = Some (p', evs))"
  using assms
proof (induction rule: dispatch_loop_induct)
  case finished
  then show ?case by (intro conjI exI [of _ "[]"]) simp_all
next
  case (iterate orc p ev rest failed orc1 es p1 pending1 failed1)
  have fill: "sink_fill E es = es"
    using step_buffer_complete [OF iterate.prems(1,2), of ev] iterate.hyps(1) by simp
  have inv1: "orc_inv N orc1" "2 * length (chain (orot orc1)) + 2 \<le> E"
    using step_orc_inv [OF iterate.prems(1), of ev] step_chain [OF iterate.prems(1), of ev]
      iterate.hyps(1) iterate.prems(2) by simp_all
  from iterate.IH [OF inv1] obtain evs where f1: "\<not> failed1" and ih: "fst (run (step N) orc1 (pending1 @ evs)) = orc'"
      "answers ex p1 (snd (run (step N) orc1 (pending1 @ evs))) = Some (p', evs)" by blast
  have f: "\<not> failed" using drain_failed_mono [OF iterate.hyps(2)] f1 by auto
  from f1 drain_answers [of ex es p rest failed p1 pending1] iterate.hyps(2) fill
  obtain q where q: "answers ex p es = Some (p1, q)" "pending1 = rest @ q" by auto
  have "run (step N) orc ((ev # rest) @ q @ evs) =
      (fst (run (step N) orc1 (pending1 @ evs)), es @ snd (run (step N) orc1 (pending1 @ evs)))"
    using iterate.hyps(1) q(2) by (simp add: Let_def split: prod.split)
  with f ih answers_append [OF q(1) ih(2)] show ?case by (intro conjI exI [of _ "q @ evs"]) simp_all
qed

text \<open>Recording the effects changes nothing.\<close>

lemma drain_external:
  "external e \<Longrightarrow> drain_effects f (e # es) q pending failed =
     (case f q e of (q1, Inl _) \<Rightarrow> if \<not> failed then (q1, latch pending, True) else (q1, pending, failed)
      | (q1, Inr None) \<Rightarrow> drain_effects f es q1 pending failed
      | (q1, Inr (Some nxt)) \<Rightarrow> (case push_cap PENDING_CAP pending nxt of
          Some pending1 \<Rightarrow> drain_effects f es q1 pending1 failed
        | None \<Rightarrow> if \<not> failed then (q1, latch pending, True) else drain_effects f es q1 pending failed))"
  by (cases e) simp_all

lemma drain_erase:
  assumes "drain_effects ex es p pending failed = (p', pending', failed')"
  shows "\<exists>log'. drain_effects (logged ex) es (p, log) pending failed = ((p', log'), pending', failed')"
  using assms
proof (induction es arbitrary: p log pending)
  case (Cons e es)
  show ?case
  proof (cases "external e")
    case True
    obtain p1 a where ex: "ex p e = (p1, a)" by (cases "ex p e")
    have l: "logged ex (p, log) e = ((p1, log @ [e]), a)" by (simp add: logged_def ex)
    show ?thesis
      using Cons.prems Cons.IH [of p1 _ "log @ [e]"] unfolding drain_external [OF True]
      by (auto simp: ex l split: sum.splits option.splits if_splits)
  next
    case False
    then obtain nxt where "e = Emit nxt" by (cases e) (auto simp: external_def)
    with Cons.prems Cons.IH [of p _ log] show ?thesis by (auto split: option.splits if_splits)
  qed
qed simp

lemma logged_transparent:
  assumes "dispatch_loop N E ex orc p pending failed = Some (orc', p', failed')"
  shows "\<forall>log. \<exists>log'. dispatch_loop N E (logged ex) orc (p, log) pending failed = Some (orc', (p', log'), failed')"
  using assms
proof (induction rule: dispatch_loop_induct)
  case (finished orc p failed)
  then show ?case by (simp add: dispatch_loop.simps)
next
  case (iterate orc p ev rest failed orc1 es p1 pending1 failed1)
  show ?case
  proof
    fix log
    obtain log1 where "drain_effects (logged ex) (sink_fill E es) (p, log) rest failed = ((p1, log1), pending1, failed1)"
      using drain_erase [OF iterate.hyps(2)] by blast
    with iterate.hyps(1) iterate.IH
    show "\<exists>log'. dispatch_loop N E (logged ex) orc (p, log) (ev # rest) failed = Some (orc', (p', log'), failed')"
      by (subst dispatch_loop.simps) simp
  qed
qed

text \<open>
  Termination. A locked machine ignores every event and emits nothing, so whatever is queued is
  discarded and the dispatch returns, on every executor.
\<close>

lemma dispatch_loop_in_Locked:
  "ostate orc = Locked \<Longrightarrow> dispatch_loop N E ex orc p pending failed = Some (orc, p, failed)"
  by (induction pending) (simp_all add: dispatch_loop.simps step_in_Locked sink_fill_def)

text \<open>The only internal event is \<open>RecoveryFailed\<close>, and only \<open>Restored\<close> and \<open>RecoveryUnavailable\<close> lead to it.\<close>

text \<open>The effects of gating, of the hold before a walk, and of the walk itself.\<close>

definition walk_effect :: "effect \<Rightarrow> bool" where
  "walk_effect e \<longleftrightarrow>
     (\<exists>c. e \<in> {ReadFirmware c, VerifyFirmware c, ReleaseReset c, AssertReset c, ReportIsolated c})"

lemma walk_effect_simps [simp]:
  "walk_effect (ReadFirmware c)" "walk_effect (VerifyFirmware c)" "walk_effect (ReleaseReset c)"
  "walk_effect (AssertReset c)" "walk_effect (ReportIsolated c)"
  by (simp_all add: walk_effect_def)

lemma walks_external: "list_all walk_effect es \<Longrightarrow> list_all external es"
  by (auto simp: list_all_iff walk_effect_def)

lemma gate_one_walks: "list_all walk_effect (fst (snd (gate_one r c)))"
  by (simp add: gate_one_def)

lemma gate_list_walks: "list_all walk_effect (snd (gate_list r cs))"
proof (induction cs arbitrary: r)
  case (Cons c cs)
  from Cons.IH [of "fst (gate_one r c)"] gate_one_walks [of r c] show ?case
    by (auto split: prod.split)
qed simp

lemma cascade_loop_walks: "list_all walk_effect (snd (cascade_loop N r frontier i))"
proof (induction N r frontier i rule: cascade_loop.induct)
  case (1 N r frontier i)
  show ?case
  proof (cases "i < length frontier")
    case True
    let ?ds = "dependents_of N (chain r) frontier (frontier ! i)"
    obtain r1 es1 where g: "gate_list r ?ds = (r1, es1)" by (cases "gate_list r ?ds")
    from "1.IH" [OF True refl g [symmetric] refl] gate_list_walks [of r ?ds] g True show ?thesis
      by (subst cascade_loop.simps) (auto split: prod.split)
  qed (simp add: cascade_loop.simps)
qed

lemma gate_by_policy_walks: "list_all walk_effect (fst (snd (gate_by_policy N r c)))"
  using gate_one_walks [of r c] cascade_loop_walks
  by (auto simp: gate_by_policy_def cascade_hold_def Let_def split: option.split failure_policy.split prod.split)
    (metis fst_conv snd_conv)+


lemma advance_walks: "list_all walk_effect (fst (snd (advance_to_next_ungated r idx)))"
proof (induction r idx rule: advance_to_next_ungated.induct)
  case (1 r idx)
  then show ?case by (subst advance_to_next_ungated.simps) (auto simp: Let_def)
qed

lemma quiesce_walks: "list_all walk_effect (snd (quiesce_loop is r))"
proof (induction "is" arbitrary: r)
  case (Cons i "is")
  then show ?case by (auto simp: Let_def split: prod.split) (metis snd_conv)
qed simp

lemma corruption_walks:
  "list_all walk_effect (fst (snd (handle_corruption N r c)))"
  "list_all walk_effect (fst (snd (handle_corruption_advancing N r c)))"
proof -
  show 1: "list_all walk_effect (fst (snd (handle_corruption N r c)))"
    using gate_by_policy_walks [of N r c]
    by (auto simp: handle_corruption_def split: prod.splits gating.splits)
  obtain r1 es1 out where h: "handle_corruption N r c = (r1, es1, out)"
    by (cases "handle_corruption N r c") auto
  show "list_all walk_effect (fst (snd (handle_corruption_advancing N r c)))"
    using 1 advance_walks [of r1 "unat (cursor r1) + 1"]
    by (auto simp: handle_corruption_advancing_def h Let_def split: prod.splits)
qed

lemma release_walks: "list_all walk_effect (fst (snd (release_and_advance r c)))"
  using advance_walks
  by (auto simp: release_and_advance_def Let_def split: prod.splits) (metis fst_conv snd_conv)

lemma entry_walks: "list_all walk_effect (snd (entry_action r PreSupervision))"
proof -
  obtain r1 es1 where q: "quiesce_all r = (r1, es1)" by (cases "quiesce_all r")
  show ?thesis
    using quiesce_walks [of "[0..<length (chain r)]" r] advance_walks [of r1 0] q
    by (auto simp: entry_action_def quiesce_all_def split: prod.splits)
qed

lemma entry_external: "list_all external (snd (entry_action r st))"
  using walks_external [OF entry_walks]
  by (cases st) (auto simp: entry_action_def Let_def split: option.split)

lemma walksD:
  "handle_corruption N r c = (r', es, out) \<Longrightarrow> list_all walk_effect es"
  "handle_corruption_advancing N r c = (r', es, out) \<Longrightarrow> list_all walk_effect es"
  "release_and_advance r c = (r', es, found) \<Longrightarrow> list_all walk_effect es"
  "gate_by_policy N r c = (r', es, v) \<Longrightarrow> list_all walk_effect es"
  using corruption_walks [of N r c] release_walks [of r c] gate_by_policy_walks [of N r c]
  by auto

lemmas externalD = walksD [THEN walks_external]

text \<open>An effect list whose internal events are all \<open>RecoveryFailed\<close>.\<close>

definition emits_only_rf :: "effect list \<Rightarrow> bool" where
  "emits_only_rf es \<longleftrightarrow> {x. Emit x \<in> set es} \<subseteq> {RecoveryFailed}"

lemma external_emits_only_rf: "list_all external es \<Longrightarrow> emits_only_rf es"
  by (auto simp: emits_only_rf_def list_all_iff)

lemma emits_only_rf_append [simp]: "emits_only_rf (es @ fs) \<longleftrightarrow> emits_only_rf es \<and> emits_only_rf fs"
  by (auto simp: emits_only_rf_def)

lemma handle_external:
  assumes "handle N r st ev = (r', es, out)" "\<forall>c. ev \<noteq> Restored c \<and> ev \<noteq> RecoveryUnavailable c"
  shows "list_all external es"
  using assms
  by (cases st; cases ev)
    (auto simp: handle_def handle_power_on_reset_def handle_pre_supervision_def handle_awaiting_ready_def
      handle_ready_def handle_updating_def handle_recovering_def Let_def
      split: prod.splits power_on_result.splits component_kind.splits option.splits outcome.splits
        state.splits if_splits
      dest: externalD)

lemma exhaust_emits: "exhaust_recovery N r f = (r', es, out) \<Longrightarrow> emits_only_rf es"
  by (auto simp: exhaust_recovery_def split: prod.splits gating.splits
      dest!: externalD(4) external_emits_only_rf) (auto simp: emits_only_rf_def)

lemma handle_emits:
  assumes "handle N r st ev = (r', es, out)"
  shows "emits_only_rf es"
proof (cases "\<forall>c. ev \<noteq> Restored c \<and> ev \<noteq> RecoveryUnavailable c")
  case True
  then show ?thesis using handle_external [OF assms] external_emits_only_rf by blast
next
  case False
  then show ?thesis
    using assms
    by (cases st)
      (auto simp: handle_def handle_power_on_reset_def handle_pre_supervision_def handle_awaiting_ready_def
        handle_ready_def handle_updating_def handle_recovering_def Let_def emits_only_rf_def [of "[]"]
        split: prod.splits if_splits dest: exhaust_emits)
qed

lemma supervising_external:
  "handle_supervising N r ev = (r', es, out) \<Longrightarrow> list_all external es"
  by (cases ev) (auto simp: handle_supervising_def split: prod.splits if_splits dest: externalD)

lemma step_emits:
  "emits_only_rf (snd (step N orc ev))"
  "\<forall>c. ev \<noteq> Restored c \<and> ev \<noteq> RecoveryUnavailable c \<Longrightarrow> list_all external (snd (step N orc ev))"
proof -
  obtain r1 es1 out1 where h: "handle N (orot orc) (ostate orc) ev = (r1, es1, out1)"
    by (cases "handle N (orot orc) (ostate orc) ev") auto
  have ent: "list_all external (snd (entry_action r t))" for r t by (rule entry_external)
  have nil: "emits_only_rf []" by (simp add: emits_only_rf_def)
  show "emits_only_rf (snd (step N orc ev))"
    using handle_emits [OF h] external_emits_only_rf [OF ent] external_emits_only_rf [OF supervising_external] nil
    by (auto simp: step_def h Let_def split: prod.splits outcome.splits if_splits) (metis snd_conv)+
  show "list_all external (snd (step N orc ev))" if "\<forall>c. ev \<noteq> Restored c \<and> ev \<noteq> RecoveryUnavailable c"
    using handle_external [OF h that] ent supervising_external
    by (auto simp: step_def h Let_def split: prod.splits outcome.splits if_splits) (metis snd_conv)+
qed


text \<open>
  Termination for a platform that verifies synchronously. The platform driver answers
  \<open>VerifyFirmware\<close> with the verdict as a follow-up event, so one dispatch walks the whole chain;
  the potential is the number of chain positions still to be walked.
\<close>

definition verify_only :: "'p executor \<Rightarrow> bool" where
  "verify_only ex \<longleftrightarrow>
     (\<forall>p e nxt. snd (ex p e) = Inr (Some nxt) \<longrightarrow>
        (\<exists>c. e = VerifyFirmware c \<and> (nxt = VerificationPassed c \<or> nxt = VerificationFailed c)))"

definition is_verify :: "effect \<Rightarrow> bool" where
  "is_verify e \<longleftrightarrow> (\<exists>c. e = VerifyFirmware c)"

definition nverify :: "effect list \<Rightarrow> nat" where
  "nverify es = length (filter is_verify es)"

definition follow_up_event :: "event \<Rightarrow> bool" where
  "follow_up_event ev \<longleftrightarrow>
     ev = RecoveryFailed \<or> ev = EffectFailed \<or> (\<exists>c. ev = VerificationPassed c \<or> ev = VerificationFailed c)"

lemma nverify_simps [simp]:
  "nverify [] = 0" "nverify (VerifyFirmware c # es) = Suc (nverify es)"
  "\<not> is_verify e \<Longrightarrow> nverify (e # es) = nverify es" "nverify (es @ fs) = nverify es + nverify fs"
  by (simp_all add: nverify_def is_verify_def)

lemma nverify_take: "nverify (take n es) \<le> nverify es"
  by (induction es arbitrary: n) (auto simp: nverify_def take_Cons')

lemma sink_fill_take: "sink_fill E es = take E es"
proof -
  have "foldl (push_or_drop E) acc es = acc @ take (E - length acc) es" if "length acc \<le> E" for acc
    using that
  proof (induction es arbitrary: acc)
    case (Cons e es)
    show ?case
    proof (cases "length acc < E")
      case True
      with Cons.IH [of "acc @ [e]"] show ?thesis by (simp add: prelude_simps Suc_diff_Suc [symmetric] take_Cons')
    next
      case False
      with Cons show ?thesis by (simp add: prelude_simps)
    qed
  qed simp
  from this [of "[]"] show ?thesis by (simp add: sink_fill_def sink_emit_def [abs_def])
qed

lemma drain_verify_only:
  assumes vo: "verify_only ex"
    and "length pending \<le> PENDING_CAP" "list_all follow_up_event pending" "list_all external es"
    and "drain_effects ex es p pending failed = (p', pending', failed')"
  shows "length pending' \<le> PENDING_CAP \<and> list_all follow_up_event pending' \<and>
    length pending' + (if failed' then 0 else 4) \<le> length pending + (if failed then 0 else 4) + nverify es"
  using assms(2-)
proof (induction es arbitrary: p pending)
  case (Cons e es)
  note l = latch_cases [OF Cons.prems(1)]
  have lf: "list_all follow_up_event (latch pending)"
    using l Cons.prems(2) by (auto simp: list_all_iff follow_up_event_def)
  have ext: "external e" "list_all external es" using Cons.prems(3) by auto
  obtain p1 a where ex: "ex p e = (p1, a)" by (cases "ex p e")
  note d = Cons.prems(4) [unfolded drain_external [OF ext(1)]]
  consider (fail) "\<exists>u. a = Inl u" | (none) "a = Inr None"
    | (push) nxt where "a = Inr (Some nxt)"
    by (cases a; cases "case a of Inr x \<Rightarrow> x | Inl _ \<Rightarrow> None") (auto split: sum.splits)
  then show ?case
  proof cases
    case fail
    then show ?thesis using d ex l lf Cons.prems by (cases failed) auto
  next
    case none
    have "nverify es \<le> nverify (e # es)" by (simp add: nverify_def)
    with none d ex Cons.IH [OF Cons.prems(1,2) ext(2), of p1] show ?thesis by auto
  next
    case push
    obtain c where c: "e = VerifyFirmware c" "nxt = VerificationPassed c \<or> nxt = VerificationFailed c"
      using vo push ex by (metis snd_conv verify_only_def)
    show ?thesis
    proof (cases "push_cap PENDING_CAP pending nxt")
      case None
      then show ?thesis using push d ex l lf Cons.prems Cons.IH [OF Cons.prems(1,2) ext(2), of p1] c(1)
        by (cases failed) auto
    next
      case (Some q)
      then have "q = pending @ [nxt]" "length q \<le> PENDING_CAP" by (auto simp: push_cap_def split: if_splits)
      moreover have "follow_up_event nxt" using c(2) by (auto simp: follow_up_event_def)
      ultimately show ?thesis
        using push d ex Some Cons.prems(2) Cons.IH [of q p1] ext(2) c(1) by auto
    qed
  qed
qed simp

definition remaining :: "orchestrator \<Rightarrow> nat" where
  "remaining orc =
     (if walking (ostate orc) then length (chain (orot orc)) - unat (cursor (orot orc)) else 0)"

lemma release_remaining:
  assumes wf: "wf_rot r" and e: "at_cursor r = Some e" and ra: "release_and_advance r (fst e) = (r', es, found)"
  shows "(if found then unat (cursor r) < unat (cursor r') \<and> unat (cursor r') < length (chain r) \<and> nverify es = 1
      else nverify es = 0) \<and> chain r' = chain r"
proof -
  let ?r1 = "mark_released (clear_retry r (fst e)) (fst e)"
  have fr: "same_frame r ?r1"
    unfolding mark_released_def clear_retry_def
    by (rule same_frame_trans) (rule same_frame_upd_status)+
  obtain es2 where a: "advance_to_next_ungated ?r1 (unat (cursor ?r1) + 1) = (r', es2, found)"
    and es: "es = ReleaseReset (fst e) # es2"
    using ra by (auto simp: release_and_advance_def Let_def split: prod.splits)
  have idx: "unat (cursor ?r1) + 1 \<le> length (chain ?r1)"
    using at_cursor_SomeD [OF e] by (simp add: same_frame_simps [OF fr])
  have len: "length (chain r) < 256" using wf_length_le [OF wf] by simp
  from advance_cases [OF idx a] len show ?thesis
    by (auto simp: es same_frame_simps [OF fr] is_verify_def)
qed

lemma step_remaining:
  assumes inv: "orc_inv N orc" and ev: "follow_up_event ev"
  shows "remaining (fst (step N orc ev)) + nverify (snd (step N orc ev)) \<le> remaining orc"
proof -
  have wf: "wf_rot (orot orc)" using inv by (simp add: orc_inv_def)
  show ?thesis
  proof (cases "walking (ostate orc) \<and> (\<exists>e. at_cursor (orot orc) = Some e \<and> ev = VerificationPassed (fst e))")
    case True
    then obtain e where e: "at_cursor (orot orc) = Some e" "ev = VerificationPassed (fst e)" and w: "walking (ostate orc)"
      by blast
    obtain r' es found where ra: "release_and_advance (orot orc) (fst e) = (r', es, found)"
      by (cases "release_and_advance (orot orc) (fst e)") auto
    have inc: "in_chain (orot orc) (fst e)" using at_cursor_SomeD [OF e(1)] by (simp add: in_chain_iff)
    note rr = release_remaining [OF wf e(1) ra]
    show ?thesis
      using w rr e inc ra
      by (cases found)
        (auto simp: walking_def step_def handle_def handle_pre_supervision_def handle_awaiting_ready_def
          remaining_def entry_action_def split: component_kind.splits)
  next
    case False
    then have "nverify (snd (step N orc ev)) = 0 \<and>
        (\<not> walking (ostate (fst (step N orc ev))) \<or> fst (step N orc ev) = orc)"
      using ev
      by (cases "ostate orc"; auto simp: follow_up_event_def step_def handle_def handle_power_on_reset_def
          handle_pre_supervision_def handle_awaiting_ready_def handle_ready_def handle_updating_def
          handle_recovering_def handle_supervising_def entry_action_def is_verify_def Let_def
          split: option.splits)
    then show ?thesis by (auto simp: remaining_def)
  qed
qed


lemma dispatch_loop_returns_verify:
  assumes "verify_only ex" "orc_inv N orc" "length pending \<le> PENDING_CAP" "list_all follow_up_event pending"
  shows "\<exists>res. dispatch_loop N E ex orc p pending failed = Some res"
  using assms(2-)
proof (induction "length pending + (if failed then 0 else 4) + remaining orc"
    arbitrary: orc p pending failed rule: less_induct)
  case less
  show ?case
  proof (cases pending)
    case Nil
    then show ?thesis by (simp add: dispatch_loop.simps)
  next
    case (Cons ev rest)
    obtain orc1 es where st: "step N orc ev = (orc1, es)" by (cases "step N orc ev")
    obtain p1 pending1 failed1 where
      dr: "drain_effects ex (sink_fill E es) p rest failed = (p1, pending1, failed1)"
      by (cases "drain_effects ex (sink_fill E es) p rest failed") auto
    have ev: "follow_up_event ev" and rest: "length rest \<le> PENDING_CAP" "list_all follow_up_event rest"
      using less.prems Cons by auto
    have "list_all external es"
      using step_emits(2) [of ev N orc] ev st by (auto simp: follow_up_event_def)
    then have ext: "list_all external (sink_fill E es)"
      using set_sink_fill [of E es] by (auto simp: list_all_iff)
    note d = drain_verify_only [OF assms(1) rest ext dr]
    have "remaining orc1 + nverify es \<le> remaining orc"
      using step_remaining [OF less.prems(1) ev] st by simp
    moreover have "nverify (sink_fill E es) \<le> nverify es"
      unfolding sink_fill_take by (rule nverify_take)
    ultimately have "length pending1 + (if failed1 then 0 else 4) + remaining orc1 <
        length pending + (if failed then 0 else 4) + remaining orc"
      using d Cons by simp
    from less.hyps [OF this] d step_orc_inv [OF less.prems(1), of ev] st show ?thesis
      by (subst dispatch_loop.simps) (simp add: Cons dr)
  qed
qed

lemma drain_verify_first:
  assumes vo: "verify_only ex" and rf: "emits_only_rf es"
    and "length pending \<le> PENDING_CAP" "list_all follow_up_event pending"
    and "drain_effects ex es p pending failed = (p', pending', failed')"
  shows "length pending' \<le> PENDING_CAP \<and> list_all follow_up_event pending'"
  using assms(2-)
proof (induction es arbitrary: p pending)
  case (Cons e es)
  note l = latch_cases [OF Cons.prems(2)]
  have lf: "list_all follow_up_event (latch pending)"
    using l Cons.prems(3) by (auto simp: list_all_iff follow_up_event_def)
  have ll: "length (latch pending) \<le> PENDING_CAP" using l by blast
  have rf: "emits_only_rf es" using Cons.prems(1) by (auto simp: emits_only_rf_def)
  have push: "length q \<le> PENDING_CAP \<and> list_all follow_up_event q"
    if "push_cap PENDING_CAP pending nxt = Some q" "follow_up_event nxt" for q nxt
    using that Cons.prems(3) by (auto simp: push_cap_def split: if_splits)
  show ?case
  proof (cases "external e")
    case True
    obtain p1 a where ex: "ex p e = (p1, a)" by (cases "ex p e")
    have fu: "follow_up_event nxt" if "a = Inr (Some nxt)" for nxt
      using vo ex that by (metis follow_up_event_def snd_conv verify_only_def)
    show ?thesis
      using Cons.prems(2-) ll lf Cons.IH [OF rf] push fu unfolding drain_external [OF True]
      by (auto simp: ex split: sum.splits option.splits if_splits)
  next
    case False
    then obtain nxt where e: "e = Emit nxt" by (cases e) (auto simp: external_def)
    then have "follow_up_event nxt" using Cons.prems(1) by (auto simp: emits_only_rf_def follow_up_event_def)
    with e Cons.prems(2-) ll lf Cons.IH [OF rf] push show ?thesis by (auto split: option.splits if_splits)
  qed
qed simp

lemma dispatch_returns_verify:
  assumes vo: "verify_only ex" and inv: "orc_inv N orc"
  shows "\<exists>res. dispatch_with N E ex orc p ev = Some res"
proof -
  obtain orc1 es where st: "step N orc ev = (orc1, es)" by (cases "step N orc ev")
  obtain p1 pending1 failed1 where
    dr: "drain_effects ex (sink_fill E es) p [] False = (p1, pending1, failed1)"
    by (cases "drain_effects ex (sink_fill E es) p [] False") auto
  have "emits_only_rf (sink_fill E es)"
    using step_emits(1) [of N orc ev] set_sink_fill [of E es] st by (auto simp: emits_only_rf_def)
  from drain_verify_first [OF vo this _ _ dr]
  have "length pending1 \<le> PENDING_CAP" "list_all follow_up_event pending1" by auto
  moreover have "orc_inv N orc1" using step_orc_inv [OF inv, of ev] st by simp
  ultimately have "\<exists>res. dispatch_loop N E ex orc1 p1 pending1 failed1 = Some res"
    using dispatch_loop_returns_verify [OF vo] by blast
  with st dr show ?thesis
    by (simp add: dispatch_with_def dispatch_loop.simps [of _ _ _ _ _ "[ev]"] del: drain_effects.simps)
qed

end
