(* ===== verification/Sm_Properties.thy ===== *)
theory Sm_Properties
  imports Sm_Dispatch
begin

text \<open>
  The properties of the boot-sequence state machine and its engine: chain validation, the
  reachability invariant, the safety of the effect trace (isolation is permanent, nothing is
  released without a verification in the same hold), the exact extent of a cascade, the terminal
  lockdown, the effect-buffer bound, and the fail-closed dispatch.
\<close>

section \<open>Example configuration\<close>

text \<open>
  Three components: a required host, a peripheral of the host that fails in cascade, and a
  passive one behind it.
\<close>

definition demo_chain :: "entry list" where
  "demo_chain =
     [(1, active_required), (2, with_depends_on active_cascading 1),
      (3, with_depends_on passive_isolable 2)]"

lemma chain_ok_code: "chain_ok ch \<longleftrightarrow> chain_try_from ch = Inr ch"
  by (simp add: chain_try_from_ok_iff)

lemma demo_chain_ok: "chain_ok demo_chain"
  unfolding chain_ok_code by code_simp

lemma demo_run:
  "snd (run (step 3) (orchestrator_new demo_chain 2)
     [PowerGood Provisioned, VerificationPassed 1, CorruptionDetected 2, AttestationChallenge]) =
   [ReadFirmware 1, VerifyFirmware 1, ReleaseReset 1, ReadFirmware 2, VerifyFirmware 2,
    AssertReset 2, ReportIsolated 2, AssertReset 3, ReportIsolated 3, SignAttestation]"
  by code_simp


section \<open>Chain validation\<close>

definition chain_verdict_ok :: "entry list \<Rightarrow> (chain_error, entry list) result \<Rightarrow> bool" where
  "chain_verdict_ok entries res =
     (case res of
        Inr es \<Rightarrow> es = entries \<and> chain_ok entries
      | Inl EmptyChain \<Rightarrow> entries = []
      | Inl TooLong \<Rightarrow> 255 < length entries
      | Inl (DuplicateId c) \<Rightarrow>
          (\<exists>i j. i < j \<and> j < length entries \<and> fst (entries ! i) = c \<and> fst (entries ! j) = c)
      | Inl (UnknownDependency c d) \<Rightarrow>
          (\<exists>a. (c, a) \<in> set entries \<and> depends_on a = Some d) \<and> d \<notin> fst ` set entries
      | Inl (ForwardDependency c d) \<Rightarrow>
          (\<exists>i j. i \<le> j \<and> j < length entries \<and> fst (entries ! i) = c \<and>
             depends_on (snd (entries ! i)) = Some d \<and> fst (entries ! j) = d))"

lemma check_unique_verdict:
  assumes "check_unique [] entries = Some err"
  shows "chain_verdict_ok entries (Inl err)"
proof -
  from check_unique_SomeD [OF assms] obtain i where i: "i < length entries"
      "err = DuplicateId (fst (entries ! i))" "fst (entries ! i) \<in> fst ` set (take i entries)" by auto
  then obtain x where "x \<in> set (take i entries)" "fst (entries ! i) = fst x" by blast
  then obtain j where "j < i" "fst (entries ! j) = fst (entries ! i)"
    using i(1) by (auto simp: in_set_conv_nth)
  with i show ?thesis by (auto simp: chain_verdict_ok_def)
qed

lemma check_deps_verdict:
  assumes "check_deps entries 0 entries = Some err"
  shows "chain_verdict_ok entries (Inl err)"
proof -
  obtain i d where i: "i < length entries" "depends_on (snd (entries ! i)) = Some d"
    and e: "err = UnknownDependency (fst (entries ! i)) d \<and> d \<notin> fst ` set entries \<or>
      err = ForwardDependency (fst (entries ! i)) d \<and>
        (\<exists>j. position (\<lambda>p. fst p = d) entries = Some j \<and> j \<ge> i)"
    using check_deps_SomeD [OF assms] by auto
  have mem: "\<exists>a. (fst (entries ! i), a) \<in> set entries \<and> depends_on a = Some d"
    using i nth_mem [OF i(1)] by (metis prod.collapse)
  from e show ?thesis
  proof
    assume "err = UnknownDependency (fst (entries ! i)) d \<and> d \<notin> fst ` set entries"
    with mem show ?thesis by (simp add: chain_verdict_ok_def)
  next
    assume "err = ForwardDependency (fst (entries ! i)) d \<and>
        (\<exists>j. position (\<lambda>p. fst p = d) entries = Some j \<and> j \<ge> i)"
    then obtain j where "err = ForwardDependency (fst (entries ! i)) d" "i \<le> j"
        "j < length entries" "fst (entries ! j) = d" by (auto dest: position_SomeD)
    with i show ?thesis by (auto simp: chain_verdict_ok_def)
  qed
qed

text \<open>
  C12: \<open>Chain::try_from\<close> accepts exactly the well-formed chains (non-empty, at most 255 entries,
  no duplicate id, every dependency earlier in the chain), unchanged, and each error it reports
  is true of the entries it rejects.
\<close>

theorem chain_try_from_correct:
  "chain_verdict_ok entries (chain_try_from entries) \<and>
   (chain_ok entries \<longleftrightarrow> chain_try_from entries = Inr entries)"
proof
  show "chain_ok entries \<longleftrightarrow> chain_try_from entries = Inr entries" by (rule chain_ok_code)
  show "chain_verdict_ok entries (chain_try_from entries)"
  proof (cases "chain_try_from entries")
    case (Inr es)
    from Inr have "es = entries \<and> chain_ok entries" by (simp add: chain_try_from_ok_iff)
    then show ?thesis unfolding Inr by (simp add: chain_verdict_ok_def)
  next
    case (Inl err)
    then show ?thesis
      using check_unique_verdict check_deps_verdict
      by (auto simp: chain_try_from_def chain_verdict_ok_def [of _ "Inl EmptyChain"]
          chain_verdict_ok_def [of _ "Inl TooLong"] split: if_splits option.splits)
  qed
qed

section \<open>Reachable states and the effect trace\<close>

text \<open>
  C5: Every state the orchestrator reaches from a validated chain satisfies the machine
  invariant: the status table is as long as the chain and consistent (a component that owes a
  boot signal is live, a live component is not isolated), the cursor is in range, while the chain
  is walked nothing at or beyond the cursor is live and the component under the cursor is not
  isolated, an uncommitted update is pending only in \<open>Ready\<close> or \<open>Locked\<close>, and the component
  under recovery is one of the chain and held.
\<close>

theorem reachable_orc_inv:
  assumes "chain_ok ch" "length ch \<le> N"
  shows "orc_inv N (fst (run (step N) (orchestrator_new ch mr) evs))"
  by (rule sm.run_inv [OF orc_inv_new(1) [OF assms]])

theorem reachable_orc_inv_witness:
  "orc_inv 3 (fst (run (step 3) (orchestrator_new demo_chain 2) [PowerGood Provisioned, VerificationPassed 1]))"
  by (rule reachable_orc_inv [OF demo_chain_ok]) (simp add: demo_chain_def)

lemma run_audited:
  assumes "chain_ok ch" "length ch \<le> N"
  shows "audited ledger_init (snd (run (step N) (orchestrator_new ch mr) evs))"
  by (rule sm.run_admitted [OF orc_inv_new [OF assms]])

lemma isolated_mono: "c \<in> isolated g \<Longrightarrow> c \<in> isolated (ledger_of g es)"
proof (induction es arbitrary: g)
  case (Cons e es)
  then show ?case by (cases e) auto
qed simp

lemma audited_isolated:
  assumes "audited g es" "c \<in> isolated g"
  shows "ReleaseReset c \<notin> set es \<and> VerifyFirmware c \<notin> set es \<and> ReportIsolated c \<notin> set es \<and>
    (\<forall>k. RecoverComponent c k \<notin> set es)"
  using assms
proof (induction es arbitrary: g)
  case (Cons e es)
  from Cons.prems(2) have "c \<in> isolated (ledger_upd g e)" using isolated_mono [of c g "[e]"] by simp
  with Cons.prems(1) have tail: "ReleaseReset c \<notin> set es \<and> VerifyFirmware c \<notin> set es \<and>
      ReportIsolated c \<notin> set es \<and> (\<forall>k. RecoverComponent c k \<notin> set es)"
    by (intro Cons.IH) simp_all
  have "e \<noteq> ReleaseReset c \<and> e \<noteq> VerifyFirmware c \<and> e \<noteq> ReportIsolated c \<and> (\<forall>k. e \<noteq> RecoverComponent c k)"
    using Cons.prems by (cases e) auto
  with tail show ?case by auto
qed simp

text \<open>
  C2: Isolation is permanent. After a component has been reported isolated it is never verified,
  released, recovered or reported isolated again, whatever events arrive.
\<close>

theorem isolation_sticky:
  assumes "chain_ok ch" "length ch \<le> N"
    and "snd (run (step N) (orchestrator_new ch mr) evs) = xs @ ReportIsolated c # ys"
  shows "ReleaseReset c \<notin> set ys \<and> VerifyFirmware c \<notin> set ys \<and> ReportIsolated c \<notin> set ys \<and>
    (\<forall>k. RecoverComponent c k \<notin> set ys)"
proof (rule audited_isolated)
  let ?g = "ledger_of ledger_init (xs @ [ReportIsolated c])"
  from run_audited [OF assms(1,2), of mr evs] assms(3) show "audited ?g ys" by simp
  show "c \<in> isolated ?g" by simp
qed

theorem isolation_sticky_witness:
  "ReleaseReset 2 \<notin> set [AssertReset 3, ReportIsolated 3, SignAttestation] \<and>
   VerifyFirmware 2 \<notin> set [AssertReset 3, ReportIsolated 3, SignAttestation] \<and>
   ReportIsolated 2 \<notin> set [AssertReset 3, ReportIsolated 3, SignAttestation] \<and>
   (\<forall>k. RecoverComponent 2 k \<notin> set [AssertReset 3, ReportIsolated 3, SignAttestation])"
  by (rule isolation_sticky [OF demo_chain_ok _ demo_run [THEN trans], of
        "[ReadFirmware 1, VerifyFirmware 1, ReleaseReset 1, ReadFirmware 2, VerifyFirmware 2, AssertReset 2]"])
    (simp_all add: demo_chain_def)

lemma verified_since:
  assumes "c \<in> verified (ledger_of g xs)" "c \<notin> verified g"
  shows "\<exists>ps qs. xs = ps @ VerifyFirmware c # qs \<and> AssertReset c \<notin> set qs \<and>
    (\<forall>k. RecoverComponent c k \<notin> set qs)"
  using assms(1)
proof (induction xs rule: rev_induct)
  case Nil
  then show ?case using assms(2) by simp
next
  case (snoc e xs)
  show ?case
  proof (cases "e = VerifyFirmware c")
    case True
    then show ?thesis by (intro exI [of _ xs] exI [of _ "[]"]) simp
  next
    case False
    with snoc.prems have v: "c \<in> verified (ledger_of g xs)"
      and e: "e \<noteq> AssertReset c" "\<forall>k. e \<noteq> RecoverComponent c k" by (cases e; auto)+
    from snoc.IH [OF v] obtain ps qs where "xs = ps @ VerifyFirmware c # qs" "AssertReset c \<notin> set qs"
        "\<forall>k. RecoverComponent c k \<notin> set qs" by blast
    with e show ?thesis by (intro exI [of _ ps] exI [of _ "qs @ [e]"]) auto
  qed
qed

lemma live_until_held:
  assumes "ReleaseReset c \<in> set qs" "AssertReset c \<notin> set qs" "\<forall>k. RecoverComponent c k \<notin> set qs"
  shows "c \<in> live (ledger_of g qs)"
proof -
  have keep: "c \<in> live g \<Longrightarrow> AssertReset c \<notin> set qs \<Longrightarrow> \<forall>k. RecoverComponent c k \<notin> set qs \<Longrightarrow>
      c \<in> live (ledger_of g qs)" for g qs
  proof (induction qs arbitrary: g)
    case (Cons e qs)
    then show ?case by (cases e) auto
  qed simp
  from assms(1) obtain as bs where "qs = as @ ReleaseReset c # bs" by (meson split_list)
  with assms keep [of "ledger_upd (ledger_of g as) (ReleaseReset c)" bs] show ?thesis by auto
qed

text \<open>
  C1: Nothing runs unverified. Every release of a component from reset is preceded by a request
  to verify its firmware, and between the two the component was neither taken down, nor
  recovered, nor already released: the verification belongs to the same hold.
\<close>

theorem verified_before_release:
  assumes "chain_ok ch" "length ch \<le> N"
    and "snd (run (step N) (orchestrator_new ch mr) evs) = xs @ ReleaseReset c # ys"
  shows "\<exists>ps qs. xs = ps @ VerifyFirmware c # qs \<and> AssertReset c \<notin> set qs \<and>
    ReleaseReset c \<notin> set qs \<and> (\<forall>k. RecoverComponent c k \<notin> set qs)"
proof -
  let ?g = "ledger_of ledger_init xs"
  from run_audited [OF assms(1,2), of mr evs] assms(3)
  have ok: "c \<in> verified ?g" "c \<notin> live ?g" by simp_all
  from verified_since [OF ok(1)] obtain ps qs where xs: "xs = ps @ VerifyFirmware c # qs"
      "AssertReset c \<notin> set qs" "\<forall>k. RecoverComponent c k \<notin> set qs"
    by (auto simp: ledger_init_def)
  have "ReleaseReset c \<notin> set qs"
    using live_until_held [of c qs "ledger_of ledger_init (ps @ [VerifyFirmware c])"] xs ok(2) by auto
  with xs show ?thesis by blast
qed

theorem verified_before_release_witness:
  "\<exists>ps qs. [ReadFirmware 1, VerifyFirmware 1] = ps @ VerifyFirmware 1 # qs \<and> AssertReset 1 \<notin> set qs \<and>
    ReleaseReset 1 \<notin> set qs \<and> (\<forall>k. RecoverComponent 1 k \<notin> set qs)"
  by (rule verified_before_release [OF demo_chain_ok _ demo_run [THEN trans]])
    (simp_all add: demo_chain_def)


section \<open>Isolation, lockdown and re-walks\<close>

lemma dependent_in_ids: "dependent_on (chain r) root c \<Longrightarrow> root \<in> ids r \<Longrightarrow> c \<in> ids r"
  by (induction rule: dependent_on.induct) (auto simp: ids_def image_iff intro!: bexI)

text \<open>
  C4: A cascade isolates exactly the failed component and its transitive dependents. Each of them
  that was not isolated before is held in reset and reported once, nothing else changes status,
  and no dependent is lost to the fixed capacity of the work lists.
\<close>

theorem cascade_hold_exact:
  assumes "wf_rot r" "length (chain r) \<le> N" "root \<in> ids r"
  shows "(\<forall>c. is_gated (fst (cascade_hold N r root)) c \<longleftrightarrow> is_gated r c \<or> dependent_on (chain r) root c) \<and>
    (\<forall>c. \<not> dependent_on (chain r) root c \<longrightarrow>
       status_of (fst (cascade_hold N r root)) c = status_of r c) \<and>
    (\<exists>gs. distinct gs \<and> set gs = {c. dependent_on (chain r) root c \<and> \<not> is_gated r c} \<and>
       snd (cascade_hold N r root) = gate_effects gs)"
proof -
  obtain gs where gt: "gates r gs (snd (cascade_hold N r root)) (fst (cascade_hold N r root))"
    and sub: "\<forall>c \<in> set gs. dependent_on (chain r) root c"
    and all: "\<forall>c. dependent_on (chain r) root c \<longrightarrow> is_gated (fst (cascade_hold N r root)) c"
    using cascade_hold_gates [OF assms surjective_pairing] by blast
  have set: "set gs = {c. dependent_on (chain r) root c \<and> \<not> is_gated r c}"
    using sub all gates_is_gated [OF gt] gt by (auto simp: gates_def)
  show ?thesis
    using gates_is_gated [OF gt] set gt by (auto simp: gates_def)
qed

theorem cascade_hold_exact_witness:
  "is_gated (fst (cascade_hold 3 (rot_new demo_chain 2) 2)) 3 \<and>
   \<not> is_gated (fst (cascade_hold 3 (rot_new demo_chain 2) 2)) 1"
proof -
  have wf: "wf_rot (rot_new demo_chain 2)"
    using orc_inv_new(1) [OF demo_chain_ok, of 3] by (simp add: orc_inv_def orchestrator_new_def demo_chain_def)
  have ch: "chain (rot_new demo_chain 2) = demo_chain" by (simp add: rot_new_def)
  have dep: "dependent_on demo_chain 2 3"
    by (rule dependent_step [OF dependent_root, of _ "with_depends_on passive_isolable 2"])
      (simp_all add: demo_chain_def attrs_builders)
  have ndep: "\<not> dependent_on demo_chain 2 1"
  proof
    assume "dependent_on demo_chain 2 1"
    then show False by cases (auto simp: demo_chain_def attrs_builders)
  qed
  have ng: "\<not> is_gated (rot_new demo_chain 2) 1" by code_simp
  have "length (chain (rot_new demo_chain 2)) \<le> 3" "2 \<in> ids (rot_new demo_chain 2)"
    by (simp_all add: rot_new_def ids_def demo_chain_def)
  from cascade_hold_exact [OF wf this] dep ndep ng show ?thesis by (simp add: ch)
qed

text \<open>
  Lockdown is terminal and fail-closed. In \<open>Locked\<close> every event is discarded without an
  effect, and in every other state a failed actuation (\<open>EffectFailed\<close>) goes to \<open>Locked\<close> at once,
  with the latch as its only effect.
\<close>

theorem lockdown_terminal:
  "run (step N) (orc\<lparr>ostate := Locked\<rparr>) evs = (orc\<lparr>ostate := Locked\<rparr>, []) \<and>
   step N orc EffectFailed =
     (orc\<lparr>ostate := Locked\<rparr>, if ostate orc = Locked then [] else [LatchLockdown])"
proof
  show "run (step N) (orc\<lparr>ostate := Locked\<rparr>) evs = (orc\<lparr>ostate := Locked\<rparr>, [])"
    by (induction evs) (simp_all add: step_in_Locked)
  show "step N orc EffectFailed = (orc\<lparr>ostate := Locked\<rparr>, if ostate orc = Locked then [] else [LatchLockdown])"
    by (cases "ostate orc = Locked") (auto simp: step_in_Locked step_on_EffectFailed)
qed


section \<open>The engine\<close>

text \<open>
  C11: The effect buffer is large enough. With the capacity that \<open>EFFECT_CAP_OK\<close> demands at
  compile time, \<open>E \<ge> 2N + 2\<close>, no step in a reachable state loses an effect, the worst case being
  a cascade over the whole chain followed by the re-walk in the same buffer.
\<close>

theorem effect_buffer_sufficient:
  assumes "chain_ok ch" "length ch \<le> N" "2 * N + 2 \<le> E"
  shows "sink_fill E (snd (step N (fst (run (step N) (orchestrator_new ch mr) evs)) ev)) =
    snd (step N (fst (run (step N) (orchestrator_new ch mr) evs)) ev)"
proof -
  have inv: "orc_inv N (fst (run (step N) (orchestrator_new ch mr) evs))"
    by (rule sm.run_inv [OF orc_inv_new(1) [OF assms(1,2)]])
  then have "2 * length (chain (orot (fst (run (step N) (orchestrator_new ch mr) evs)))) + 2 \<le> E"
    using assms(3) by (simp add: orc_inv_def)
  then show ?thesis by (rule step_buffer_complete [OF inv])
qed

theorem effect_buffer_sufficient_witness:
  "sink_fill 8 (snd (step 3 (fst (run (step 3) (orchestrator_new demo_chain 2)
     [PowerGood Provisioned, VerificationPassed 1])) (CorruptionDetected 2))) =
   snd (step 3 (fst (run (step 3) (orchestrator_new demo_chain 2)
     [PowerGood Provisioned, VerificationPassed 1])) (CorruptionDetected 2))"
  by (rule effect_buffer_sufficient [OF demo_chain_ok]) (simp_all add: demo_chain_def)

lemma dispatch_with_inv:
  assumes "orc_inv N orc" "ledger_rel orc g" "2 * length (chain (orot orc)) + 2 \<le> E"
  shows "dispatch_inv N E g orc (snd (p, [])) [ev] False"
  using assms by (simp add: dispatch_inv_def PENDING_CAP_def)

text \<open>
  C3: Dispatch is fail-closed and safe for every executor. Whatever the platform answers, the
  effects handed to it during a dispatch form a trace that the ledger admits, even when the run
  is cut short by a failure; if any actuation failed or the event queue overflowed, the machine
  ends in \<open>Locked\<close>; otherwise the ledger still follows the machine afterwards.
\<close>

theorem dispatch_fail_closed:
  assumes "orc_inv N orc" "ledger_rel orc g" "2 * length (chain (orot orc)) + 2 \<le> E"
    and "dispatch_with N E ex orc p ev = Some (orc', p', failed)"
  shows "\<exists>log. dispatch_with N E (logged ex) orc (p, []) ev = Some (orc', (p', log), failed) \<and>
    audited g log \<and> orc_inv N orc' \<and>
    (if failed then ostate orc' = Locked else ledger_rel orc' (ledger_of g log))"
proof -
  obtain log where d: "dispatch_loop N E (logged ex) orc (p, []) [ev] False = Some (orc', (p', log), failed)"
    using logged_transparent [OF assms(4) [unfolded dispatch_with_def]] by blast
  from dispatch_loop_logged [OF d dispatch_with_inv [OF assms(1-3)]] d show ?thesis
    by (intro exI [of _ log]) (auto simp: dispatch_with_def dispatch_inv_def)
qed

text \<open>An executor that does everything but the release of component 2.\<close>

definition demo_executor :: "unit executor" where
  "demo_executor p e =
     (p, case e of
           VerifyFirmware c \<Rightarrow> Inr (Some (VerificationPassed c))
         | ReleaseReset c \<Rightarrow> if c = 2 then Inl () else Inr None
         | _ \<Rightarrow> Inr None)"

theorem dispatch_fail_closed_witness:
  "\<exists>orc' p' log. dispatch_with 3 8 (logged demo_executor) (orchestrator_new demo_chain 2) ((), [])
     (PowerGood Provisioned) = Some (orc', (p', log), True) \<and>
   audited ledger_init log \<and> ostate orc' = Locked"
proof -
  have ex: "\<exists>orc' p'. dispatch_with 3 8 demo_executor (orchestrator_new demo_chain 2) ()
      (PowerGood Provisioned) = Some (orc', p', True)"
  proof -
    have "map_option (\<lambda>(orc', p', f). f) (dispatch_with 3 8 demo_executor (orchestrator_new demo_chain 2) ()
      (PowerGood Provisioned)) = Some True" by code_simp
    then show ?thesis by auto
  qed
  then obtain orc' p' where d: "dispatch_with 3 8 demo_executor (orchestrator_new demo_chain 2) ()
      (PowerGood Provisioned) = Some (orc', p', True)" by blast
  have len: "length demo_chain \<le> 3" by (simp add: demo_chain_def)
  have E: "2 * length (chain (orot (orchestrator_new demo_chain 2))) + 2 \<le> 8"
    by (simp add: demo_chain_def orchestrator_new_def rot_new_def)
  from dispatch_fail_closed [OF orc_inv_new [OF demo_chain_ok len] E d] show ?thesis by auto
qed

text \<open>
  C7: A dispatch that reports no failure is a complete run of the machine. The machine has
  processed the given event and then exactly the events that its own effects produced: handing
  the effects of that run to the executor, all of them, once and in order, ends in the
  executor's final state and answers precisely the events processed after the first, in the same
  order. So no effect is lost or reordered, no effect failed, and no event that an \<open>Emit\<close> or the
  executor queued is dropped. Hypotheses: the machine's invariant, and an effect buffer of twice
  the chain length plus two.
\<close>

theorem dispatch_refines_run:
  assumes "orc_inv N orc" "2 * length (chain (orot orc)) + 2 \<le> E"
    and "dispatch_with N E ex orc p ev = Some (orc', p', False)"
  shows "\<exists>evs. orc' = fst (run (step N) orc (ev # evs)) \<and>
    answers ex p (snd (run (step N) orc (ev # evs))) = Some (p', evs)"
  using dispatch_loop_run [OF assms(3) [unfolded dispatch_with_def] assms(1,2)] by auto

definition good_executor :: "unit executor" where
  "good_executor p e =
     (p, case e of VerifyFirmware c \<Rightarrow> Inr (Some (VerificationPassed c)) | _ \<Rightarrow> Inr None)"

theorem dispatch_refines_run_witness:
  "\<exists>orc' p' log evs. dispatch_with 3 8 (logged good_executor) (orchestrator_new demo_chain 2) ((), [])
     (PowerGood Provisioned) = Some (orc', (p', log), False) \<and>
   orc' = fst (run (step 3) (orchestrator_new demo_chain 2) (PowerGood Provisioned # evs)) \<and>
   answers (logged good_executor) ((), []) (snd (run (step 3) (orchestrator_new demo_chain 2)
     (PowerGood Provisioned # evs))) = Some ((p', log), evs)"
proof -
  have "map_option (\<lambda>(orc', p', f). f) (dispatch_with 3 8 (logged good_executor) (orchestrator_new demo_chain 2) ((), [])
      (PowerGood Provisioned)) = Some False" by code_simp
  then obtain orc' p' log where d: "dispatch_with 3 8 (logged good_executor) (orchestrator_new demo_chain 2) ((), [])
      (PowerGood Provisioned) = Some (orc', (p', log), False)" by auto
  have len: "length demo_chain \<le> 3" by (simp add: demo_chain_def)
  have E: "2 * length (chain (orot (orchestrator_new demo_chain 2))) + 2 \<le> 8"
    by (simp add: demo_chain_def orchestrator_new_def rot_new_def)
  from dispatch_refines_run [OF orc_inv_new(1) [OF demo_chain_ok len] E d] d show ?thesis by blast
qed

text \<open>
  C8: Dispatch returns. With a platform that answers \<open>VerifyFirmware\<close> by the verdict on that
  component and every other effect by success or failure, without further events (the contract
  of the platform driver), a dispatch terminates from every reachable state and for every event,
  even though it may walk the whole chain of trust before it does.
\<close>

theorem dispatch_terminates:
  assumes "verify_only ex" "orc_inv N orc"
  shows "\<exists>orc' p' failed. dispatch_with N E ex orc p ev = Some (orc', p', failed)"
  using dispatch_returns_verify [OF assms, of E p ev] by auto

theorem dispatch_terminates_witness:
  "\<exists>orc' p' failed. dispatch_with 3 8 demo_executor (orchestrator_new demo_chain 2) () (PowerGood Provisioned) =
     Some (orc', p', failed)"
proof (rule dispatch_terminates)
  show "verify_only demo_executor"
    by (auto simp: verify_only_def demo_executor_def split: effect.splits if_splits)
  show "orc_inv 3 (orchestrator_new demo_chain 2)"
    by (rule orc_inv_new(1) [OF demo_chain_ok]) (simp add: demo_chain_def)
qed

section \<open>Behaviour of the states\<close>

text \<open>
  A re-walk starts from a quiesced platform. Whenever the machine enters \<open>PreSupervision\<close>
  (power-on, a restored component, an exhausted recovery that was isolated), every component is
  held in reset before the first image is read, and the ones that ran are exactly the ones that
  are reset, in chain order.
\<close>

theorem rewalk_quiesces:
  assumes "wf_rot r"
  shows "\<exists>rest. snd (entry_action r PreSupervision) =
      map AssertReset (filter (is_released r) (map fst (chain r))) @ rest \<and>
      (rest = [] \<or> (\<exists>c \<in> ids r. \<not> is_gated r c \<and> rest = [ReadFirmware c, VerifyFirmware c])) \<and>
      (\<forall>c. \<not> is_released (fst (entry_action r PreSupervision)) c)"
proof -
  obtain r1 es1 where q: "quiesce_all r = (r1, es1)" by (cases "quiesce_all r")
  obtain r2 es2 found where a: "advance_to_next_ungated r1 0 = (r2, es2, found)"
    by (cases "advance_to_next_ungated r1 0") auto
  have e: "entry_action r PreSupervision = (r2, es1 @ es2)" using q a by (simp add: entry_action_def)
  note spec = quiesce_all_spec [OF assms q] and f = quiesce_all_facts [OF assms q]
  have fr: "same_frame r r1" using spec by simp
  have "(es2 = [] \<or> (\<exists>c \<in> ids r. \<not> is_gated r c \<and> es2 = [ReadFirmware c, VerifyFirmware c])) \<and>
      (\<forall>c. is_released r2 c = is_released r1 c)"
    using advance_cases [OF le0 a] f(2) by (auto simp: same_frame_simps [OF fr] ids_def)
  with e spec f(3) show ?thesis by auto
qed

theorem rewalk_quiesces_witness:
  "\<exists>rest. snd (entry_action (rot_new demo_chain 2) PreSupervision) =
      map AssertReset (filter (is_released (rot_new demo_chain 2)) (map fst (chain (rot_new demo_chain 2)))) @ rest \<and>
      (rest = [] \<or> (\<exists>c \<in> ids (rot_new demo_chain 2). \<not> is_gated (rot_new demo_chain 2) c \<and>
         rest = [ReadFirmware c, VerifyFirmware c])) \<and>
      (\<forall>c. \<not> is_released (fst (entry_action (rot_new demo_chain 2) PreSupervision)) c)"
proof (rule rewalk_quiesces)
  show "wf_rot (rot_new demo_chain 2)"
    using orc_inv_new(1) [OF demo_chain_ok, of 3] by (simp add: orc_inv_def orchestrator_new_def demo_chain_def)
qed

definition no_commit :: "effect list \<Rightarrow> bool" where
  "no_commit es \<longleftrightarrow> list_all (\<lambda>e. \<forall>c. e \<noteq> CommitSvnFloor c) es"

lemma no_commit_simps [simp]:
  "no_commit []" "no_commit (e # es) \<longleftrightarrow> (\<forall>c. e \<noteq> CommitSvnFloor c) \<and> no_commit es"
  "no_commit (es @ fs) \<longleftrightarrow> no_commit es \<and> no_commit fs"
  by (simp_all add: no_commit_def)

lemma walks_no_commit: "list_all walk_effect es \<Longrightarrow> no_commit es"
  by (auto simp: no_commit_def list_all_iff walk_effect_def)

lemmas no_commitD = walksD [THEN walks_no_commit]

lemma entry_no_commit: "no_commit (snd (entry_action r st))"
  using walks_no_commit [OF entry_walks]
  by (cases st) (auto simp: entry_action_def Let_def split: option.split)

lemma exhaust_no_commit: "exhaust_recovery N r f = (r', es, out) \<Longrightarrow> no_commit es"
  by (auto simp: exhaust_recovery_def split: prod.splits gating.splits dest!: no_commitD(4))

lemma handle_no_commit:
  assumes "handle N r st ev = (r', es, out)" "\<not> (st = Ready \<and> (\<exists>c. ev = BootConfirmed c))"
  shows "no_commit es"
  using assms
  by (cases st; cases ev)
    (auto simp: handle_def handle_power_on_reset_def handle_pre_supervision_def handle_awaiting_ready_def
      handle_ready_def handle_updating_def handle_recovering_def Let_def
      split: prod.splits power_on_result.splits component_kind.splits option.splits outcome.splits
        state.splits if_splits
      dest: no_commitD exhaust_no_commit)

lemma supervising_no_commit: "handle_supervising N r ev = (r', es, out) \<Longrightarrow> no_commit es"
  by (cases ev) (auto simp: handle_supervising_def split: prod.splits if_splits dest: no_commitD)

lemma step_no_commit:
  assumes "\<not> (ostate orc = Ready \<and> (\<exists>c. ev = BootConfirmed c))"
  shows "no_commit (snd (step N orc ev))"
proof -
  obtain r1 es1 out1 where h: "handle N (orot orc) (ostate orc) ev = (r1, es1, out1)"
    by (cases "handle N (orot orc) (ostate orc) ev") auto
  show ?thesis
    using handle_no_commit [OF h assms] entry_no_commit supervising_no_commit
    by (auto simp: step_def h Let_def split: prod.splits outcome.splits if_splits) (metis snd_conv)+
qed

text \<open>
  C10: The anti-rollback floor moves only on confirmation. A step emits \<open>CommitSvnFloor\<close> of a
  component exactly when the machine is in \<open>Ready\<close> and the event is the boot confirmation of
  that component of the chain.
\<close>

theorem commit_only_on_confirmation:
  "CommitSvnFloor c \<in> set (snd (step N orc ev)) \<longleftrightarrow>
     ostate orc = Ready \<and> ev = BootConfirmed c \<and> c \<in> ids (orot orc)"
proof (cases "ostate orc = Ready \<and> (\<exists>d. ev = BootConfirmed d)")
  case True
  then show ?thesis
    by (auto simp: step_def handle_def handle_ready_def in_chain_iff)
next
  case False
  then show ?thesis using step_no_commit [OF False, of N] by (auto simp: no_commit_def list_all_iff)
qed


text \<open>
  In \<open>Recovering\<close> the latch event and the internal \<open>RecoveryFailed\<close> both lock the machine, and a
  dispatch whose next event is one of them ends there, whatever the executor does with the
  remaining effects and whatever else is queued.
\<close>

lemma dispatch_loop_locks:
  assumes "ostate orc = Recovering f" "ev = EffectFailed \<or> ev = RecoveryFailed"
  shows "\<exists>orc' p' failed'. dispatch_loop N E ex orc p (ev # rest) failed = Some (orc', p', failed') \<and>
    ostate orc' = Locked"
proof -
  have "ostate (fst (step N orc ev)) = Locked"
    using assms step_on_EffectFailed [of orc N]
    by (auto simp: step_def handle_def handle_recovering_def entry_action_def)
  then show ?thesis
    by (subst dispatch_loop.simps) (auto simp: dispatch_loop_in_Locked split: prod.splits)
qed

lemma recovery_exhausted_locks:
  assumes nf: "\<forall>p nxt. snd (ex p (ReportRecoveryFailed f)) \<noteq> Inr (Some nxt)" and E: "2 \<le> E"
    and st: "step N orc ev = (orc1, [ReportRecoveryFailed f, Emit RecoveryFailed])" "ostate orc1 = Recovering f"
  shows "\<exists>orc' p' failed. dispatch_with N E ex orc p ev = Some (orc', p', failed) \<and> ostate orc' = Locked"
proof -
  have fill: "sink_fill E [ReportRecoveryFailed f, Emit RecoveryFailed] = [ReportRecoveryFailed f, Emit RecoveryFailed]"
    using E by (intro sink_fill_id) simp
  obtain p1 a where ex: "ex p (ReportRecoveryFailed f) = (p1, a)" by (cases "ex p (ReportRecoveryFailed f)")
  have "a \<noteq> Inr (Some x)" for x using nf ex by (metis snd_conv)
  then have "a = Inl () \<or> a = Inr None" by (cases a) (auto simp: not_None_eq [symmetric] simp del: not_None_eq)
  then have "\<exists>nxt f1. drain_effects ex [ReportRecoveryFailed f, Emit RecoveryFailed] p [] False = (p1, [nxt], f1) \<and>
      (nxt = EffectFailed \<or> nxt = RecoveryFailed)"
    using ex by (auto simp: latch_def push_cap_def push_front_cap_def PENDING_CAP_def)
  then obtain nxt f1 where dr: "drain_effects ex [ReportRecoveryFailed f, Emit RecoveryFailed] p [] False = (p1, [nxt], f1)"
    and nxt: "nxt = EffectFailed \<or> nxt = RecoveryFailed" by blast
  have "dispatch_with N E ex orc p ev = dispatch_loop N E ex orc1 p1 [nxt] f1"
    by (simp add: dispatch_with_def dispatch_loop.simps [of _ _ _ _ _ "[ev]"] st(1) fill dr del: drain_effects.simps)
  with dispatch_loop_locks [OF st(2) nxt] show ?thesis by simp
qed

lemma exhaust_required:
  "map_option failure_policy (attrs_of r f) = Some Required \<Longrightarrow>
     exhaust_recovery N r f = (r, [ReportRecoveryFailed f, Emit RecoveryFailed], Handled)"
  by (auto simp: exhaust_recovery_def gate_by_policy_def)

text \<open>
  C9: A required component that cannot be recovered locks the platform. In \<open>Recovering\<close>, when
  the recovery source is exhausted, or the restored image used up the retry budget
  (\<open>max_retry\<close>), of a component whose policy is \<open>Required\<close>, the dispatch returns and ends in
  \<open>Locked\<close>. This holds for an effect buffer of at least two entries and for every executor that
  does not answer the report \<open>ReportRecoveryFailed\<close> of that component with a follow-up event (the
  platform driver answers no report with one); whether the report succeeds or fails, and what
  the executor does with \<open>LatchLockdown\<close>, makes no difference.
\<close>

theorem required_exhaustion_locks:
  assumes "\<forall>p nxt. snd (ex p (ReportRecoveryFailed f)) \<noteq> Inr (Some nxt)" "2 \<le> E"
    and "ostate orc = Recovering f"
    and "map_option failure_policy (attrs_of (orot orc) f) = Some Required"
    and "ev = RecoveryUnavailable f \<or>
      ev = Restored f \<and> max_retry (orot orc) \<le> snd (bump_retry (orot orc) f)"
  shows "\<exists>orc' p' failed. dispatch_with N E ex orc p ev = Some (orc', p', failed) \<and> ostate orc' = Locked"
proof -
  let ?r = "orot orc"
  have f: "in_chain ?r f" using assms(4) attrs_of_in_ids by (force simp: in_chain_iff)
  have fr: "same_frame ?r (fst (bump_retry ?r f))" by (simp add: bump_retry_upd)
  have "\<exists>r1. handle_recovering N ?r f ev = (r1, [ReportRecoveryFailed f, Emit RecoveryFailed], Handled)"
    using assms(5) exhaust_required [OF assms(4)] exhaust_required [of "fst (bump_retry ?r f)" f N] assms(4)
    by (auto simp: handle_recovering_def same_frame_simps [OF fr] Let_def case_prod_unfold)
  moreover have "event_component_id ev = Some f" using assms(5) by auto
  ultimately obtain orc1 where "step N orc ev = (orc1, [ReportRecoveryFailed f, Emit RecoveryFailed])"
      "ostate orc1 = Recovering f"
    using assms(3) f by (auto simp: step_def handle_def)
  from recovery_exhausted_locks [of ex f, OF assms(1,2) this] show ?thesis .
qed

text \<open>A platform that answers every verification and the latch with an event, and fails the report.\<close>

definition chatty_executor :: "unit executor" where
  "chatty_executor p e =
     (p, case e of VerifyFirmware c \<Rightarrow> Inr (Some (VerificationPassed c))
         | LatchLockdown \<Rightarrow> Inr (Some AttestationChallenge)
         | ReportRecoveryFailed c \<Rightarrow> Inl ()
         | _ \<Rightarrow> Inr None)"

theorem required_exhaustion_locks_witness:
  "\<exists>orc' p' failed. dispatch_with 3 8 chatty_executor
     \<lparr>orot = rot_new demo_chain 1, ostate = Recovering 1\<rparr> () (Restored 1) = Some (orc', p', failed) \<and>
     ostate orc' = Locked"
proof (rule required_exhaustion_locks [of _ 1])
  show "map_option failure_policy (attrs_of (orot \<lparr>orot = rot_new demo_chain 1, ostate = Recovering 1\<rparr>) 1) = Some Required"
    by code_simp
  have "max_retry (rot_new demo_chain 1) \<le> snd (bump_retry (rot_new demo_chain 1) 1)" by code_simp
  then show "Restored 1 = RecoveryUnavailable 1 \<or> Restored 1 = Restored 1 \<and>
      max_retry (orot \<lparr>orot = rot_new demo_chain 1, ostate = Recovering 1\<rparr>)
        \<le> snd (bump_retry (orot \<lparr>orot = rot_new demo_chain 1, ostate = Recovering 1\<rparr>) 1)" by simp
qed (simp_all add: chatty_executor_def)

section \<open>A boot without failures\<close>

text \<open>
  The walk in progress: nothing is isolated and the cursor is at index \<open>k\<close>.
\<close>

definition at_stage :: "nat \<Rightarrow> orchestrator \<Rightarrow> nat \<Rightarrow> bool" where
  "at_stage N orc k \<longleftrightarrow>
     orc_inv N orc \<and> walking (ostate orc) \<and> unat (cursor (orot orc)) = k \<and>
     k < length (chain (orot orc)) \<and> (\<forall>c. \<not> is_gated (orot orc) c)"

definition boot_effects :: "component_id list \<Rightarrow> effect list" where
  "boot_effects cs = concat (map (\<lambda>c. [ReadFirmware c, VerifyFirmware c, ReleaseReset c]) cs)"

lemma advance_ungated:
  assumes "idx \<le> length (chain r)" "\<forall>c. \<not> is_gated r c"
  shows "advance_to_next_ungated r idx =
    (r\<lparr>cursor := of_nat idx\<rparr>,
     if idx < length (chain r) then [ReadFirmware (fst (chain r ! idx)), VerifyFirmware (fst (chain r ! idx))] else [],
     idx < length (chain r))"
  using assms by (subst advance_to_next_ungated.simps) (auto simp: Let_def)

lemma release_ungated:
  assumes wf: "wf_rot r" and e: "at_cursor r = Some e" and ng: "\<forall>c. \<not> is_gated r c"
  defines "k \<equiv> Suc (unat (cursor r))"
  shows "\<exists>r'. release_and_advance r (fst e) =
      (r', ReleaseReset (fst e) #
         (if k < length (chain r) then [ReadFirmware (fst (chain r ! k)), VerifyFirmware (fst (chain r ! k))] else []),
       k < length (chain r)) \<and>
    wf_rot r' \<and> chain r' = chain r \<and> unat (cursor r') = k \<and> (\<forall>c. \<not> is_gated r' c) \<and>
    (\<forall>c. is_released r' c \<longleftrightarrow> is_released r c \<or> c = fst e)"
proof -
  define r1 where "r1 = mark_released (clear_retry r (fst e)) (fst e)"
  have q: "quiet r (clear_retry r (fst e))" by (rule quiet_clear_retry [OF wf])
  then have frq: "same_frame r (clear_retry r (fst e))" by (simp add: quiet_def)
  have "fst e \<in> ids (clear_retry r (fst e))" "\<not> is_gated (clear_retry r (fst e)) (fst e)"
    using q at_cursor_SomeD [OF e] ng by (auto simp: quiet_def same_frame_simps [OF frq])
  note m = mark_released_facts [OF _ this, folded r1_def]
  have fr: "same_frame r r1" and wf1: "wf_rot r1" and ng1: "\<forall>c. \<not> is_gated r1 c"
    and rel: "\<forall>c. is_released r1 c \<longleftrightarrow> is_released r c \<or> c = fst e"
    using m q ng by (auto simp: quiet_def intro: same_frame_trans)
  have k: "k \<le> length (chain r1)" "k < 256"
    using at_cursor_SomeD [OF e] wf_length_le [OF wf] by (auto simp: k_def same_frame_simps [OF fr])
  have "unat (cursor r1) + 1 = k" by (simp add: k_def same_frame_simps [OF fr])
  then have "release_and_advance r (fst e) = (r1\<lparr>cursor := of_nat k\<rparr>, ReleaseReset (fst e) #
      (if k < length (chain r) then [ReadFirmware (fst (chain r ! k)), VerifyFirmware (fst (chain r ! k))] else []),
      k < length (chain r))"
    using advance_ungated [OF k(1) ng1]
    by (simp only: release_and_advance_def r1_def [symmetric] Let_def prod.case same_frame_simps(1) [OF fr])
  moreover have "wf_rot (r1\<lparr>cursor := of_nat k\<rparr>)" using k by (intro wf_cursor_upd [OF wf1]) simp
  ultimately show ?thesis using k(2) ng1 rel
    by (intro exI [of _ "r1\<lparr>cursor := of_nat k\<rparr>"]) (simp add: same_frame_simps [OF fr])
qed


lemma stage_step:
  assumes stage: "at_stage N orc k"
  defines "ch \<equiv> chain (orot orc)"
  defines "orc' \<equiv> fst (step N orc (VerificationPassed (fst (ch ! k))))"
  shows "snd (step N orc (VerificationPassed (fst (ch ! k)))) =
      ReleaseReset (fst (ch ! k)) #
        (if Suc k < length ch then [ReadFirmware (fst (ch ! Suc k)), VerifyFirmware (fst (ch ! Suc k))] else []) \<and>
    (if Suc k < length ch then at_stage N orc' (Suc k) else ostate orc' = Ready) \<and> chain (orot orc') = ch \<and>
    (\<forall>c. is_released (orot orc') c \<longleftrightarrow> is_released (orot orc) c \<or> c = fst (ch ! k))"
proof -
  let ?r = "orot orc" and ?ev = "VerificationPassed (fst (ch ! k))"
  have inv: "orc_inv N orc" and wf: "wf_rot ?r" and k: "unat (cursor ?r) = k" "k < length ch"
    and ng: "\<forall>c. \<not> is_gated ?r c" and w: "walking (ostate orc)"
    using stage by (auto simp: at_stage_def ch_def orc_inv_def)
  have e: "at_cursor ?r = Some (ch ! k)" using k by (simp add: at_cursor_def ch_def)
  have inc: "in_chain ?r (fst (ch ! k))" using at_cursor_SomeD [OF e] by (simp add: in_chain_iff)
  from release_ungated [OF wf e ng, folded ch_def, unfolded k(1)]
  obtain r' where ra: "release_and_advance ?r (fst (ch ! k)) = (r', ReleaseReset (fst (ch ! k)) #
      (if Suc k < length ch then [ReadFirmware (fst (ch ! Suc k)), VerifyFirmware (fst (ch ! Suc k))] else []),
      Suc k < length ch)"
    and wf': "wf_rot r'" and r': "chain r' = ch" "unat (cursor r') = Suc k" "\<forall>c. \<not> is_gated r' c"
      "\<forall>c. is_released r' c \<longleftrightarrow> is_released ?r c \<or> c = fst (ch ! k)" by blast
  have inv': "orc_inv N orc'" unfolding orc'_def by (rule step_orc_inv [OF inv])
  show ?thesis
  proof (cases "Suc k < length ch")
    case True
    then have "\<exists>st. walking st \<and> step N orc ?ev = (\<lparr>orot = r', ostate = st\<rparr>, snd (step N orc ?ev)) \<and>
        snd (step N orc ?ev) = fst (snd (release_and_advance ?r (fst (ch ! k))))"
      using w inc e ra
      by (cases "kind (snd (ch ! k))")
        (auto simp: walking_def step_def handle_def handle_pre_supervision_def handle_awaiting_ready_def
          entry_action_def)
    then obtain st where "walking st" "orc' = \<lparr>orot = r', ostate = st\<rparr>"
      "snd (step N orc ?ev) = fst (snd (release_and_advance ?r (fst (ch ! k))))"
      unfolding orc'_def by (metis fst_conv)
    with True inv' r' ra show ?thesis by (simp add: at_stage_def)
  next
    case False
    then have s: "step N orc ?ev = (\<lparr>orot = fst (entry_action r' Ready), ostate = Ready\<rparr>, [ReleaseReset (fst (ch ! k))])"
      using w inc e ra
      by (auto simp: walking_def step_def handle_def handle_pre_supervision_def handle_awaiting_ready_def
          entry_action_def)
    have "quiet r' (fst (entry_action r' Ready))" using quiet_Ready_entry [OF wf'] by (simp add: entry_action_def)
    then have "chain (fst (entry_action r' Ready)) = ch"
      "\<forall>c. is_released (fst (entry_action r' Ready)) c = is_released r' c"
      using r'(1) by (auto simp: quiet_def same_frame_def)
    with False s r'(4) show ?thesis by (simp add: orc'_def)
  qed
qed


lemma boot_effects_drop:
  assumes "k < length cs"
  shows "boot_effects (drop k cs) =
    [ReadFirmware (cs ! k), VerifyFirmware (cs ! k)] @ ReleaseReset (cs ! k) # boot_effects (drop (Suc k) cs)"
  using assms by (simp add: boot_effects_def Cons_nth_drop_Suc [symmetric])

lemma power_good_stage:
  fixes mr :: u8
  assumes "chain_ok ch" "length ch \<le> N"
  shows "\<exists>orc1. step N (orchestrator_new ch mr) (PowerGood Provisioned) =
      (orc1, [ReadFirmware (map fst ch ! 0), VerifyFirmware (map fst ch ! 0)]) \<and>
    at_stage N orc1 0 \<and> chain (orot orc1) = ch \<and> (\<forall>c. \<not> is_released (orot orc1) c)"
proof -
  let ?new = "orchestrator_new ch mr"
  obtain orc1 es1 where s: "step N ?new (PowerGood Provisioned) = (orc1, es1)"
    by (cases "step N ?new (PowerGood Provisioned)")
  have new: "ostate ?new = PowerOnReset" "orot ?new = rot_new ch mr" "chain (rot_new ch mr) = ch"
    by (simp_all add: orchestrator_new_def rot_new_def)
  have inv: "orc_inv N ?new" and rel: "ledger_rel ?new ledger_init" by (rule orc_inv_new [OF assms(1,2)])+
  then have wf: "wf_rot (rot_new ch mr)" by (simp add: orc_inv_def new)
  have ng: "\<not> is_gated (rot_new ch mr) c" for c
    using rel by (auto simp: ledger_rel_def tracks_def ledger_init_def new)
  have ne: "0 < length ch" using assms(1) by (simp add: chain_ok_def)
  obtain r1 qs where q: "quiesce_all (rot_new ch mr) = (r1, qs)" by (cases "quiesce_all (rot_new ch mr)")
  note spec = quiesce_all_spec [OF wf q] and f = quiesce_all_facts [OF wf q]
  have fr: "same_frame (rot_new ch mr) r1" using spec by simp
  have nr: "\<not> is_released (rot_new ch mr) c" for c
    using rel by (auto simp: ledger_rel_def tracks_def ledger_init_def new)
  have qs: "qs = []" using spec nr by (auto simp: filter_empty_conv)
  have ch1: "chain r1 = ch" by (simp add: same_frame_simps [OF fr] new)
  have "orc1 = \<lparr>orot = r1\<lparr>cursor := 0\<rparr>, ostate = PreSupervision\<rparr> \<and>
      es1 = [ReadFirmware (map fst ch ! 0), VerifyFirmware (map fst ch ! 0)]"
    using s ne advance_ungated [of 0 r1] f(2) ng qs q
    by (simp add: step_def handle_def handle_power_on_reset_def entry_action_def new ch1)
  then have o1: "orc1 = \<lparr>orot = r1\<lparr>cursor := 0\<rparr>, ostate = PreSupervision\<rparr>"
    and es1: "es1 = [ReadFirmware (map fst ch ! 0), VerifyFirmware (map fst ch ! 0)]" by auto
  have "at_stage N orc1 0"
    using step_orc_inv [OF inv, of "PowerGood Provisioned"] s f(2) ng ne
    by (simp add: at_stage_def o1 ch1)
  moreover have "chain (orot orc1) = ch" "\<forall>c. \<not> is_released (orot orc1) c" using f(3) by (simp_all add: o1 ch1)
  ultimately show ?thesis using s es1 by blast
qed

text \<open>
  The readiness report of a component changes nothing of the walk: it is handled in every state
  of the walk and in \<open>Ready\<close>, emits no effect and holds or releases nobody.
\<close>

lemma ready_report_step:
  fixes c :: component_id
  assumes "orc_inv N orc"
  defines "orc' \<equiv> fst (step N orc (ComponentReady c))"
  shows "at_stage N orc k \<Longrightarrow> snd (step N orc (ComponentReady c)) = [] \<and> at_stage N orc' k \<and>
      chain (orot orc') = chain (orot orc) \<and> (\<forall>d. is_released (orot orc') d = is_released (orot orc) d)"
    and "ostate orc = Ready \<Longrightarrow> snd (step N orc (ComponentReady c)) = [] \<and> ostate orc' = Ready \<and>
      chain (orot orc') = chain (orot orc) \<and> (\<forall>d. is_released (orot orc') d = is_released (orot orc) d)"
proof -
  let ?r = "orot orc" and ?r1 = "clear_awaiting_boot (orot orc) c"
  have wf: "wf_rot ?r" using assms(1) by (simp add: orc_inv_def)
  have q: "quiet ?r ?r1" by (rule quiet_clear_awaiting_boot [OF wf])
  then have fr: "same_frame ?r ?r1" by (simp add: quiet_def)
  have inv': "orc_inv N orc'" unfolding orc'_def by (rule step_orc_inv [OF assms(1)])
  {
    assume st: "at_stage N orc k"
    then have "walking (ostate orc)" "unat (cursor ?r) = k" "k < length (chain ?r)" by (auto simp: at_stage_def)
    then have "snd (step N orc (ComponentReady c)) = [] \<and> walking (ostate orc') \<and> (orot orc' = ?r \<or> orot orc' = ?r1)"
      unfolding orc'_def
      by (cases "in_chain ?r c"; cases "ostate orc = AwaitingReady (Some c)")
        (auto simp: walking_def step_def handle_def handle_pre_supervision_def handle_awaiting_ready_def
          entry_action_def same_frame_simps [OF fr])
    with st inv' q show "snd (step N orc (ComponentReady c)) = [] \<and> at_stage N orc' k \<and>
        chain (orot orc') = chain ?r \<and> (\<forall>d. is_released (orot orc') d = is_released ?r d)"
      by (auto simp: at_stage_def quiet_def same_frame_def)
  next
    assume "ostate orc = Ready"
    then have "snd (step N orc (ComponentReady c)) = [] \<and> ostate orc' = Ready \<and> (orot orc' = ?r \<or> orot orc' = ?r1)"
      unfolding orc'_def
      by (auto simp: step_def handle_def handle_ready_def handle_supervising_def)
    with q show "snd (step N orc (ComponentReady c)) = [] \<and> ostate orc' = Ready \<and>
        chain (orot orc') = chain ?r \<and> (\<forall>d. is_released (orot orc') d = is_released ?r d)"
      by (auto simp: quiet_def same_frame_def)
  }
qed

text \<open>
  The events of a boot in which every image verifies and every active component reports ready:
  for each entry of the chain, in order, the positive verdict and, when the component is active,
  its \<open>ComponentReady\<close> before the verdict on the next one.
\<close>

definition clean_events :: "entry list \<Rightarrow> event list" where
  "clean_events ch = concat (map (\<lambda>(c, a).
     VerificationPassed c # (if kind a = Active then [ComponentReady c] else [])) ch)"

lemma entry_run:
  assumes stage: "at_stage N orc k"
  defines "ch \<equiv> chain (orot orc)"
  defines "out \<equiv> run (step N) orc (clean_events [ch ! k])"
  shows "snd out = ReleaseReset (fst (ch ! k)) #
        (if Suc k < length ch then [ReadFirmware (fst (ch ! Suc k)), VerifyFirmware (fst (ch ! Suc k))] else []) \<and>
    (if Suc k < length ch then at_stage N (fst out) (Suc k) else ostate (fst out) = Ready) \<and>
    chain (orot (fst out)) = ch \<and>
    (\<forall>c. is_released (orot (fst out)) c \<longleftrightarrow> is_released (orot orc) c \<or> c = fst (ch ! k))"
proof -
  obtain c a where e: "ch ! k = (c, a)" by (cases "ch ! k")
  define orc1 where "orc1 = fst (step N orc (VerificationPassed c))"
  have inv: "orc_inv N orc" using stage by (simp add: at_stage_def)
  then have inv1: "orc_inv N orc1" unfolding orc1_def by (rule step_orc_inv)
  note st = stage_step [OF stage, folded ch_def, unfolded e fst_conv, folded orc1_def]
  note rr = ready_report_step [OF inv1, where c = c]
  have out: "out = (let (orc2, es) = (if kind a = Active then step N orc1 (ComponentReady c) else (orc1, []))
      in (orc2, snd (step N orc (VerificationPassed c)) @ es))"
    by (simp add: out_def clean_events_def e orc1_def split: prod.splits)
  show ?thesis
  proof (cases "Suc k < length ch")
    case True
    with st rr(1) [of "Suc k"] show ?thesis
      by (cases "kind a = Active") (auto simp: out e ch_def [symmetric] split: prod.splits)
  next
    case False
    with st rr(2) show ?thesis
      by (cases "kind a = Active") (auto simp: out e ch_def [symmetric] split: prod.splits)
  qed
qed

lemma clean_run:
  assumes "at_stage N orc k"
  defines "cs \<equiv> map fst (chain (orot orc))"
  shows "let (orc', es) = run (step N) orc (clean_events (drop k (chain (orot orc)))) in
    boot_effects (drop k cs) = [ReadFirmware (cs ! k), VerifyFirmware (cs ! k)] @ es \<and> ostate orc' = Ready \<and>
    (\<forall>c. is_released (orot orc') c \<longleftrightarrow> is_released (orot orc) c \<or> c \<in> set (drop k cs))"
  using assms(1) unfolding cs_def
proof (induction "length (chain (orot orc)) - k" arbitrary: orc k)
  case 0
  then show ?case by (simp add: at_stage_def)
next
  case (Suc n)
  let ?ch = "chain (orot orc)"
  let ?cs = "map fst ?ch"
  have k: "k < length ?ch" using Suc.prems by (simp add: at_stage_def)
  have drop: "drop k ?cs = ?cs ! k # drop (Suc k) ?cs" using k by (intro Cons_nth_drop_Suc [symmetric]) simp
  have evs: "clean_events (drop k ?ch) = clean_events [?ch ! k] @ clean_events (drop (Suc k) ?ch)"
    using k by (simp add: clean_events_def Cons_nth_drop_Suc [symmetric])
  obtain orc1 es1 where s: "run (step N) orc (clean_events [?ch ! k]) = (orc1, es1)"
    by (cases "run (step N) orc (clean_events [?ch ! k])")
  note st = entry_run [OF Suc.prems, unfolded s fst_conv snd_conv]
  show ?case
  proof (cases "Suc k < length ?ch")
    case True
    with st have stage1: "at_stage N orc1 (Suc k)" and ch1: "chain (orot orc1) = ?ch" by auto
    obtain orc' es where r: "run (step N) orc1 (clean_events (drop (Suc k) ?ch)) = (orc', es)"
      by (cases "run (step N) orc1 (clean_events (drop (Suc k) ?ch))")
    have "n = length (chain (orot orc1)) - Suc k" using Suc.hyps(2) ch1 by simp
    from Suc.hyps(1) [OF this stage1] ch1 r
    have ih: "boot_effects (drop (Suc k) ?cs) = [ReadFirmware (?cs ! Suc k), VerifyFirmware (?cs ! Suc k)] @ es"
      "ostate orc' = Ready" "\<forall>c. is_released (orot orc') c \<longleftrightarrow> is_released (orot orc1) c \<or> c \<in> set (drop (Suc k) ?cs)"
      by simp_all
    show ?thesis
      using True k st ih r s by (simp add: evs run_append drop boot_effects_drop [of k ?cs, unfolded drop])
        (auto simp: boot_effects_def)
  next
    case False
    then have nil: "drop (Suc k) ?cs = []" "clean_events (drop (Suc k) ?ch) = []"
      using k by (simp_all add: clean_events_def)
    then show ?thesis using False k st s by (auto simp: drop evs boot_effects_def)
  qed
qed

text \<open>
  C6: A boot in which every image verifies and every active component becomes ready succeeds.
  From a validated chain that fits the machine's capacity, power-good followed, for each
  component in chain order, by its positive verdict and, when the component is \<open>Active\<close>, by its
  \<open>ComponentReady\<close> before the verdict on the next component, leads to \<open>Ready\<close> with every
  component running, and the effects are exactly: read, verify, release, component by component
  in chain order.
\<close>

theorem clean_boot_reaches_ready:
  fixes mr :: u8
  assumes "chain_ok ch" "length ch \<le> N"
  defines "cs \<equiv> map fst ch"
  defines "out \<equiv> run (step N) (orchestrator_new ch mr) (PowerGood Provisioned # clean_events ch)"
  shows "ostate (fst out) = Ready \<and> snd out = boot_effects cs \<and>
    {c. is_released (orot (fst out)) c} = set cs"
proof -
  obtain orc1 where s: "step N (orchestrator_new ch mr) (PowerGood Provisioned) =
      (orc1, [ReadFirmware (cs ! 0), VerifyFirmware (cs ! 0)])"
    and st: "at_stage N orc1 0" and ch1: "chain (orot orc1) = ch" and nr: "\<forall>c. \<not> is_released (orot orc1) c"
    using power_good_stage [OF assms(1,2), of mr] unfolding cs_def by blast
  from clean_run [OF st] nr show ?thesis
    by (auto simp: out_def s ch1 cs_def [symmetric] Let_def split: prod.splits)
qed

theorem clean_boot_reaches_ready_witness:
  "ostate (fst (run (step 3) (orchestrator_new demo_chain 2)
     (PowerGood Provisioned # clean_events demo_chain))) = Ready \<and>
   ComponentReady 1 \<in> set (clean_events demo_chain)"
proof -
  have "ComponentReady 1 \<in> set (clean_events demo_chain)" by code_simp
  with clean_boot_reaches_ready [OF demo_chain_ok, of 3 2] show ?thesis by (simp add: demo_chain_def)
qed

end
