(* ===== verification/Otp_Floor.thy ===== *)
theory Otp_Floor
  imports Capabilities
begin

text \<open>
  The OTP-fused anti-rollback floor of the mock board, \<open>services/orchestrator/test/otp.rs\<close>: a unary
  fuse counter of \<open>FUSES\<close> bits with one-shot fault injection. It is the repository's implementation
  of the \<open>SvnFloor\<close> contract and interprets the \<open>svn_floor\<close> locale. \<open>usize\<close> counts are naturals;
  the cast \<open>burnt as u32\<close> of a read keeps the low 32 bits, and the invariant shows that it never
  loses one.
\<close>

datatype mock_floor_error = Exhausted | Injected

record mock_otp_floor =
  burnt :: nat
  fail_next :: bool

definition otp_new :: mock_otp_floor where
  "otp_new = \<lparr>burnt = 0, fail_next = False\<rparr>"

text \<open>\<open>seed\<close> panics (\<open>None\<close>) beyond the capacity or below the current floor.\<close>

definition otp_seed :: "nat \<Rightarrow> mock_otp_floor \<Rightarrow> svn \<Rightarrow> mock_otp_floor option" where
  "otp_seed FUSES f floor =
     (let target = unat floor in
      if \<not> target \<le> FUSES then None
      else if \<not> target \<ge> burnt f then None
      else Some (f\<lparr>burnt := target\<rparr>))"

definition otp_fail_next :: "mock_otp_floor \<Rightarrow> mock_otp_floor" where
  "otp_fail_next f = f\<lparr>fail_next := True\<rparr>"

definition otp_check :: "mock_otp_floor \<Rightarrow> mock_otp_floor \<times> (mock_floor_error, unit) result" where
  "otp_check f = (f\<lparr>fail_next := False\<rparr>, if fail_next f then Inl Injected else Inr ())"

definition otp_floor :: "mock_otp_floor \<Rightarrow> mock_otp_floor \<times> (mock_floor_error, svn) result" where
  "otp_floor f =
     (case otp_check f of
        (f1, Inl e) \<Rightarrow> (f1, Inl e)
      | (f1, Inr _) \<Rightarrow> (f1, Inr (of_nat (burnt f1))))"

definition otp_advance ::
    "nat \<Rightarrow> mock_otp_floor \<Rightarrow> svn \<Rightarrow> mock_otp_floor \<times> (mock_floor_error, unit) result" where
  "otp_advance FUSES f to =
     (case otp_check f of
        (f1, Inl e) \<Rightarrow> (f1, Inl e)
      | (f1, Inr _) \<Rightarrow>
          (let target = unat to in
           if target \<le> burnt f1 then (f1, Inr ())
           else if target > FUSES then (f1, Inl Exhausted)
           else (f1\<lparr>burnt := target\<rparr>, Inr ())))"

definition otp_valid :: "mock_otp_floor \<Rightarrow> bool" where
  "otp_valid f \<longleftrightarrow> burnt f < 2 ^ 32"

lemma unat_svn_less: "unat (to :: svn) < 2 ^ 32"
  using unsigned_less [of to] by simp

interpretation otp: svn_floor burnt "otp_advance FUSES" otp_valid for FUSES
proof
  fix f :: mock_otp_floor and to :: svn and e :: mock_floor_error
  assume v: "otp_valid f"
  show "otp_valid (fst (otp_advance FUSES f to))"
    using v unat_svn_less [of to] by (simp add: otp_advance_def otp_check_def otp_valid_def Let_def)
  show "snd (otp_advance FUSES f to) = Inr () \<Longrightarrow>
      burnt (fst (otp_advance FUSES f to)) = max (burnt f) (unat to)"
    by (auto simp: otp_advance_def otp_check_def Let_def split: if_splits)
  show "snd (otp_advance FUSES f to) = Inl e \<Longrightarrow> burnt f \<le> burnt (fst (otp_advance FUSES f to))"
    by (auto simp: otp_advance_def otp_check_def Let_def split: if_splits)
qed

text \<open>
  The fuse bank never rolls back. Whatever sequence of commits follows, failed and injected
  ones included, a committed security version stays a lower bound of the floor, and a read
  returns the exact number of burnt fuses.
\<close>

theorem otp_no_rollback:
  fixes ss :: "svn list"
  assumes "otp_valid f" "snd (otp_advance FUSES f to) = Inr ()"
  defines "f' \<equiv> advances (otp_advance FUSES) (fst (otp_advance FUSES f to)) ss"
  shows "unat to \<le> burnt f' \<and> burnt f \<le> burnt f' \<and>
    snd (otp_floor f') = (if fail_next f' then Inl Injected else Inr (of_nat (burnt f'))) \<and>
    unat (of_nat (burnt f') :: svn) = burnt f'"
proof -
  have v1: "otp_valid (fst (otp_advance FUSES f to))" by (rule otp.advance_valid [OF assms(1)])
  have "otp_valid f'" unfolding f'_def by (rule otp.advances_valid [OF v1])
  then have "unat (of_nat (burnt f') :: svn) = burnt f'"
    by (simp add: otp_valid_def unat_of_nat take_bit_nat_eq_self)
  moreover have "burnt f \<le> burnt f'"
    using otp.advance_mono [OF assms(1), of FUSES to] otp.advances_mono [OF v1, of FUSES ss]
    unfolding f'_def by (rule le_trans)
  moreover have "unat to \<le> burnt f'" unfolding f'_def by (rule otp.committed_stays [OF assms(1,2)])
  ultimately show ?thesis by (simp add: otp_floor_def otp_check_def)
qed

theorem otp_no_rollback_witness:
  "unat (5 :: svn) \<le> burnt (advances (otp_advance 8) (fst (otp_advance 8 otp_new 5)) [2, 9, 6])"
proof -
  have "otp_valid otp_new" "snd (otp_advance 8 otp_new 5) = Inr ()"
    by (simp_all add: otp_valid_def otp_new_def otp_advance_def otp_check_def)
  from otp_no_rollback [OF this] show ?thesis by blast
qed

text \<open>
  A failed commit burns nothing and a fault is one-shot. An advance is refused exactly when a
  fault was injected or the target exceeds both the floor and the capacity; then the fuses are
  unchanged, and the next operation runs without the injected fault.
\<close>

theorem otp_failed_advance:
  "(case otp_advance FUSES f to of
      (f', Inr _) \<Rightarrow> \<not> fail_next f \<and> (unat to \<le> burnt f \<or> unat to \<le> FUSES) \<and> burnt f' = max (burnt f) (unat to)
    | (f', Inl Injected) \<Rightarrow> fail_next f \<and> burnt f' = burnt f
    | (f', Inl Exhausted) \<Rightarrow> \<not> fail_next f \<and> FUSES < unat to \<and> burnt f < unat to \<and> burnt f' = burnt f) \<and>
   \<not> fail_next (fst (otp_advance FUSES f to))"
  by (auto simp: otp_advance_def otp_check_def Let_def split: prod.splits sum.splits)

end
