(* ===== verification/Device_Config.thy ===== *)
theory Device_Config
  imports Prelude
begin

text \<open>
  The schema of the per-board device table, \<open>services/orchestrator/config/src/lib.rs\<close>. The
  constructors are \<open>const fn\<close>s that assert the schema's invariants; a failed assertion is a panic
  (a build error in a table) and is the value \<open>None\<close>. A \<open>core::time::Duration\<close> is its length in
  nanoseconds, a string the list of its bytes, as \<open>str_eq\<close> compares them.
\<close>

type_synonym duration = nat

definition as_millis :: "duration \<Rightarrow> nat" where
  "as_millis d = d div 1000000"

record 'p boot_checkpoint =
  bc_name :: "u8 list"
  bc_probe :: 'p
  bc_timeout :: duration

definition boot_checkpoint_new :: "u8 list \<Rightarrow> 'p \<Rightarrow> duration \<Rightarrow> 'p boot_checkpoint option" where
  "boot_checkpoint_new name probe timeout =
     (if name = [] then None
      else if \<not> as_millis timeout \<ge> 1 then None
      else Some \<lparr>bc_name = name, bc_probe = probe, bc_timeout = timeout\<rparr>)"

record ('r, 'p) device_config =
  dc_name :: "u8 list"
  reset_signal :: 'r
  checkpoints :: "'p boot_checkpoint list"

text \<open>\<open>str_eq\<close>: lengths first, then byte by byte; the loop has reached index \<open>i\<close>.\<close>

function str_eq_loop :: "u8 list \<Rightarrow> u8 list \<Rightarrow> nat \<Rightarrow> bool" where
  "str_eq_loop a b i =
     (if i < length a then (if a ! i \<noteq> b ! i then False else str_eq_loop a b (Suc i)) else True)"
  by pat_completeness auto
termination by (relation "measure (\<lambda>(a, b, i). length a - i)") auto

declare str_eq_loop.simps [simp del]

definition str_eq :: "u8 list \<Rightarrow> u8 list \<Rightarrow> bool" where
  "str_eq a b = (if length a \<noteq> length b then False else str_eq_loop a b 0)"

text \<open>The two nested \<open>while\<close> loops of \<open>DeviceConfig::new\<close>: \<open>None\<close> is the failed assertion.\<close>

function dup_inner :: "'p boot_checkpoint list \<Rightarrow> nat \<Rightarrow> nat \<Rightarrow> unit option" where
  "dup_inner cps c d =
     (if d < length cps then
        (if str_eq (bc_name (cps ! c)) (bc_name (cps ! d)) then None else dup_inner cps c (Suc d))
      else Some ())"
  by pat_completeness auto
termination by (relation "measure (\<lambda>(cps, c, d). length cps - d)") auto

function dup_outer :: "'p boot_checkpoint list \<Rightarrow> nat \<Rightarrow> unit option" where
  "dup_outer cps c =
     (if c < length cps then
        (case dup_inner cps c (Suc c) of None \<Rightarrow> None | Some _ \<Rightarrow> dup_outer cps (Suc c))
      else Some ())"
  by pat_completeness auto
termination by (relation "measure (\<lambda>(cps, c). length cps - c)") auto

declare dup_inner.simps [simp del] dup_outer.simps [simp del]

definition device_config_new ::
    "u8 list \<Rightarrow> 'r \<Rightarrow> 'p boot_checkpoint list \<Rightarrow> ('r, 'p) device_config option" where
  "device_config_new name sig cps =
     (if name = [] then None
      else if cps = [] then None
      else case dup_outer cps 0 of
        None \<Rightarrow> None
      | Some _ \<Rightarrow> Some \<lparr>dc_name = name, reset_signal = sig, checkpoints = cps\<rparr>)"

section \<open>The constructors accept exactly the valid tables\<close>

lemma str_eq_loop_iff:
  assumes "length a = length b"
  shows "str_eq_loop a b i \<longleftrightarrow> (\<forall>k. i \<le> k \<and> k < length a \<longrightarrow> a ! k = b ! k)"
  using assms
proof (induction a b i rule: str_eq_loop.induct)
  case (1 a b i)
  show ?case
  proof (cases "i < length a")
    case True
    note all_from_split [OF True, of "\<lambda>k. a ! k = b ! k"]
    with True 1 show ?thesis by (subst str_eq_loop.simps) auto
  qed (auto simp: str_eq_loop.simps)
qed

lemma str_eq_iff: "str_eq a b \<longleftrightarrow> a = b"
  by (auto simp: str_eq_def str_eq_loop_iff list_eq_iff_nth_eq)

lemma dup_inner_iff:
  "dup_inner cps c d = Some () \<longleftrightarrow> (\<forall>k. d \<le> k \<and> k < length cps \<longrightarrow> bc_name (cps ! c) \<noteq> bc_name (cps ! k))"
proof (induction cps c d rule: dup_inner.induct)
  case (1 cps c d)
  show ?case
  proof (cases "d < length cps")
    case True
    note all_from_split [OF True, of "\<lambda>k. bc_name (cps ! c) \<noteq> bc_name (cps ! k)"]
    with True 1 show ?thesis by (subst dup_inner.simps) (auto simp: str_eq_iff)
  qed (auto simp: dup_inner.simps)
qed

lemma dup_outer_iff:
  "dup_outer cps c = Some () \<longleftrightarrow> (\<forall>j. c \<le> j \<and> j < length cps \<longrightarrow> dup_inner cps j (Suc j) = Some ())"
proof (induction cps c rule: dup_outer.induct)
  case (1 cps c)
  show ?case
  proof (cases "c < length cps")
    case True
    note all_from_split [OF True, of "\<lambda>j. dup_inner cps j (Suc j) = Some ()"]
    moreover have "dup_outer cps c = Some () \<longleftrightarrow>
        dup_inner cps c (Suc c) = Some () \<and> dup_outer cps (Suc c) = Some ()"
      using True by (subst dup_outer.simps) (auto split: option.split)
    ultimately show ?thesis using 1 True by (cases "dup_inner cps c (Suc c)") auto
  qed (auto simp: dup_outer.simps)
qed

lemma distinct_names_iff:
  "dup_outer cps 0 = Some () \<longleftrightarrow> distinct (map bc_name cps)"
proof -
  let ?n = "map bc_name cps"
  have "(\<forall>j < length cps. \<forall>k. Suc j \<le> k \<and> k < length cps \<longrightarrow> ?n ! j \<noteq> ?n ! k) \<longleftrightarrow> distinct ?n"
  proof
    assume A: "\<forall>j < length cps. \<forall>k. Suc j \<le> k \<and> k < length cps \<longrightarrow> ?n ! j \<noteq> ?n ! k"
    have "?n ! i \<noteq> ?n ! j" if "i < length cps" "j < length cps" "i \<noteq> j" for i j
    proof (cases "i < j")
      case True
      with A that show ?thesis by (metis Suc_leI)
    next
      case False
      with that have "j < i" by simp
      with A that show ?thesis by (metis Suc_leI)
    qed
    then show "distinct ?n" by (simp add: distinct_conv_nth del: nth_map)
  qed (auto simp: nth_eq_iff_index_eq simp del: nth_map)
  then show ?thesis by (simp add: dup_outer_iff dup_inner_iff)
qed

definition checkpoint_ok :: "'p boot_checkpoint \<Rightarrow> bool" where
  "checkpoint_ok cp \<longleftrightarrow> bc_name cp \<noteq> [] \<and> 1 \<le> as_millis (bc_timeout cp)"

definition device_ok :: "('r, 'p) device_config \<Rightarrow> bool" where
  "device_ok d \<longleftrightarrow> dc_name d \<noteq> [] \<and> checkpoints d \<noteq> [] \<and> distinct (map bc_name (checkpoints d))"

text \<open>
  The table constructors accept exactly the tables that meet the schema. A checkpoint is
  built iff its name is non-empty and its window at least one millisecond; a device is built iff
  it is named, declares a checkpoint and no two checkpoints share a name; what is built carries
  the arguments unchanged.
\<close>

theorem device_table_valid_iff:
  "(boot_checkpoint_new name probe timeout = Some cp \<longleftrightarrow>
      cp = \<lparr>bc_name = name, bc_probe = probe, bc_timeout = timeout\<rparr> \<and> checkpoint_ok cp) \<and>
   (device_config_new dname sig cps = Some d \<longleftrightarrow>
      d = \<lparr>dc_name = dname, reset_signal = sig, checkpoints = cps\<rparr> \<and> device_ok d)"
proof
  show "boot_checkpoint_new name probe timeout = Some cp \<longleftrightarrow>
      cp = \<lparr>bc_name = name, bc_probe = probe, bc_timeout = timeout\<rparr> \<and> checkpoint_ok cp"
    by (auto simp: boot_checkpoint_new_def checkpoint_ok_def)
  show "device_config_new dname sig cps = Some d \<longleftrightarrow>
      d = \<lparr>dc_name = dname, reset_signal = sig, checkpoints = cps\<rparr> \<and> device_ok d"
    using distinct_names_iff [of cps]
    by (cases "dup_outer cps 0") (auto simp: device_config_new_def device_ok_def)
qed

end
