(* ===== verification/Checkpoint_Walk.thy ===== *)
theory Checkpoint_Walk
  imports Capabilities Device_Config
begin

text \<open>
  The boot-checkpoint walk, \<open>services/orchestrator/adapters/walk/src/walk.rs\<close>: one device's
  checkpoints are observed in declaration order, each within its own window. The evidence reader
  is board code: it is the parameter \<open>read\<close>, a function of the reader's state and a probe. A
  checkpoint name is reported as the string of its bytes.
\<close>

datatype phase = Idle | Armed | Walking nat u64

record ('r, 'p) checkpoint_walk =
  reader :: 'r
  cps :: "'p boot_checkpoint list"
  wphase :: phase

type_synonym ('r, 'p, 'e) evidence_reader = "'r \<Rightarrow> 'p \<Rightarrow> 'r \<times> ('e, boot_status) result"

definition cp_string :: "'p boot_checkpoint \<Rightarrow> string" where
  "cp_string cp = map (\<lambda>b. char_of (unat b)) (bc_name cp)"

text \<open>\<open>timeout().as_millis() as u64\<close>: the cast keeps the low 64 bits.\<close>

definition timeout_millis :: "'p boot_checkpoint \<Rightarrow> u64" where
  "timeout_millis cp = of_nat (as_millis (bc_timeout cp))"

definition walk_new :: "'r \<Rightarrow> ('s, 'p) device_config \<Rightarrow> ('r, 'p) checkpoint_walk" where
  "walk_new rd device = \<lparr>reader = rd, cps = checkpoints device, wphase = Idle\<rparr>"

definition walk_arm :: "('r, 'p) checkpoint_walk \<Rightarrow> ('r, 'p) checkpoint_walk" where
  "walk_arm w = w\<lparr>wphase := Armed\<rparr>"

text \<open>The first \<open>if\<close> of \<open>poll\<close>: an armed walk starts its first window at this poll.\<close>

definition walk_start :: "('r, 'p) checkpoint_walk \<Rightarrow> u64 \<Rightarrow> ('r, 'p) checkpoint_walk" where
  "walk_start w now =
     (case wphase w of
        Armed \<Rightarrow> w\<lparr>wphase := Walking 0 (saturating_add now (timeout_millis (cps w ! 0)))\<rparr>
      | _ \<Rightarrow> w)"

definition walk_judge ::
    "('r, 'p) checkpoint_walk \<Rightarrow> u64 \<Rightarrow> nat \<Rightarrow> u64 \<Rightarrow> boot_status \<Rightarrow> ('r, 'p) checkpoint_walk \<times> walk_verdict" where
  "walk_judge w now cur deadline status =
     (case status of
        BsBooting \<Rightarrow> (w, WvWaiting deadline)
      | BsBooted \<Rightarrow>
          (let nxt = cur + 1 in
           if nxt = length (cps w) then (w\<lparr>wphase := Idle\<rparr>, WvComplete)
           else
             (let new_deadline = saturating_add now (timeout_millis (cps w ! nxt))
              in (w\<lparr>wphase := Walking nxt new_deadline\<rparr>, WvWaiting new_deadline)))
      | BsFailedRetriable \<Rightarrow> (w\<lparr>wphase := Idle\<rparr>, WvFailed (cp_string (cps w ! cur)) FcDeviceRetriable)
      | BsFailedFatal \<Rightarrow> (w\<lparr>wphase := Idle\<rparr>, WvFailed (cp_string (cps w ! cur)) FcDeviceFatal))"

definition walk_poll ::
    "('r, 'p, 'e) evidence_reader \<Rightarrow> ('r, 'p) checkpoint_walk \<Rightarrow> u64
       \<Rightarrow> ('r, 'p) checkpoint_walk \<times> walk_verdict" where
  "walk_poll read w0 now =
     (let w = walk_start w0 now in
      case wphase w of
        Walking cur deadline \<Rightarrow>
          (if deadline \<le> now then
             (w\<lparr>wphase := Idle\<rparr>, WvFailed (cp_string (cps w ! cur)) FcTimedOut)
           else
             (let (rd, res) = read (reader w) (bc_probe (cps w ! cur));
                  status = (case res of Inl _ \<Rightarrow> BsBooting | Inr s \<Rightarrow> s)
              in walk_judge (w\<lparr>reader := rd\<rparr>) now cur deadline status))
      | _ \<Rightarrow> (w, WvWaiting no_deadline))"

section \<open>The walk is a boot watch\<close>

definition walk_active :: "('r, 'p) checkpoint_walk \<Rightarrow> bool" where
  "walk_active w \<longleftrightarrow> wphase w \<noteq> Idle"

lemma walk_poll_idle: "\<not> walk_active w \<Longrightarrow> walk_poll read w now = (w, WvWaiting no_deadline)"
  by (simp add: walk_active_def walk_poll_def walk_start_def)

lemma walk_judge_active:
  "wphase w = Walking cur deadline \<Longrightarrow>
     walk_active (fst (walk_judge w now cur deadline s)) \<longleftrightarrow> \<not> terminal (snd (walk_judge w now cur deadline s))"
  by (cases s) (auto simp: walk_judge_def walk_active_def Let_def)

lemma walk_start_walking: "walk_active w \<Longrightarrow> \<exists>cur d. wphase (walk_start w now) = Walking cur d"
  by (cases "wphase w") (auto simp: walk_active_def walk_start_def)

lemma walk_poll_active:
  assumes "walk_active w"
  shows "walk_active (fst (walk_poll read w now)) \<longleftrightarrow> \<not> terminal (snd (walk_poll read w now))"
proof -
  obtain cur d where ph: "wphase (walk_start w now) = Walking cur d"
    using walk_start_walking [OF assms] by blast
  obtain rd res where r: "read (reader (walk_start w now)) (bc_probe (cps (walk_start w now) ! cur)) = (rd, res)"
    by (cases "read (reader (walk_start w now)) (bc_probe (cps (walk_start w now) ! cur))")
  have "walk_active ((walk_start w now)\<lparr>wphase := Idle\<rparr>) = False" by (simp add: walk_active_def)
  moreover have "wphase ((walk_start w now)\<lparr>reader := rd\<rparr>) = Walking cur d" using ph by simp
  ultimately show ?thesis
    using ph r walk_judge_active [of "(walk_start w now)\<lparr>reader := rd\<rparr>" cur d]
    by (auto simp: walk_poll_def Let_def)
qed

interpretation cw: boot_watch walk_arm "walk_poll read" walk_active for read
proof
  show "walk_active (walk_arm w)" for w :: "('a, 'b) checkpoint_walk"
    by (simp add: walk_active_def walk_arm_def)
qed (auto simp: walk_poll_idle walk_poll_active)

text \<open>
  Each attempt has at most one verdict. After an \<open>arm\<close>, however often and whenever the walk is
  polled, at most one of the answers is terminal (\<open>Complete\<close> or \<open>Failed\<close>), so a finished walk
  produces no stale event.
\<close>

theorem walk_single_verdict:
  "length (filter terminal (snd (polls (walk_poll read) (walk_arm w) ts))) \<le> 1"
  by (rule cw.one_verdict_per_attempt)

section \<open>What a verdict means\<close>

definition walk_wf :: "('r, 'p) checkpoint_walk \<Rightarrow> bool" where
  "walk_wf w \<longleftrightarrow> cps w \<noteq> [] \<and> (\<forall>cur d. wphase w = Walking cur d \<longrightarrow> cur < length (cps w))"

text \<open>A reader that records each probe it is asked and the status it reported.\<close>

definition recording ::
    "('r, 'p, 'e) evidence_reader \<Rightarrow> ('r \<times> ('p \<times> boot_status) list, 'p, 'e) evidence_reader" where
  "recording read rl p =
     (case read (fst rl) p of
        (rd, Inl e) \<Rightarrow> ((rd, snd rl), Inl e)
      | (rd, Inr s) \<Rightarrow> ((rd, snd rl @ [(p, s)]), Inr s))"

definition passed :: "('p \<times> boot_status) list \<Rightarrow> 'p list" where
  "passed log = map fst (filter (\<lambda>x. snd x = BsBooted) log)"

text \<open>The checkpoints before the cursor are exactly the ones seen booted, in order.\<close>

definition walk_trail :: "('r \<times> ('p \<times> boot_status) list, 'p) checkpoint_walk \<Rightarrow> bool" where
  "walk_trail w \<longleftrightarrow> walk_wf w \<and>
     (case wphase w of
        Idle \<Rightarrow> False
      | Armed \<Rightarrow> passed (snd (reader w)) = []
      | Walking cur d \<Rightarrow> passed (snd (reader w)) = take cur (map bc_probe (cps w)))"

lemma walk_poll_trail:
  assumes t: "walk_trail w" and p: "walk_poll (recording read) w now = (w', v)"
  shows "cps w' = cps w \<and>
    (case v of
       WvWaiting _ \<Rightarrow> walk_trail w'
     | WvComplete \<Rightarrow> passed (snd (reader w')) = map bc_probe (cps w)
     | WvFailed _ _ \<Rightarrow> \<exists>k < length (cps w). passed (snd (reader w')) = take k (map bc_probe (cps w)))"
proof -
  let ?w = "walk_start w now"
  obtain cur d where ph: "wphase ?w = Walking cur d" and cur: "cur < length (cps w)"
      and pas: "passed (snd (reader ?w)) = take cur (map bc_probe (cps w))" and same: "cps ?w = cps w"
    using t by (auto simp: walk_trail_def walk_wf_def walk_start_def split: phase.splits)
  obtain rd log where rl: "reader ?w = (rd, log)" by (cases "reader ?w")
  obtain rd' res where rr: "read rd (bc_probe (cps w ! cur)) = (rd', res)"
    by (cases "read rd (bc_probe (cps w ! cur))")
  have app: "take cur (map bc_probe (cps w)) @ [bc_probe (cps w ! cur)] = take (Suc cur) (map bc_probe (cps w))"
    using cur by (simp add: take_Suc_conv_app_nth)
  show ?thesis
  proof (cases "d \<le> now")
    case True
    then show ?thesis using p ph same pas cur by (auto simp: walk_poll_def)
  next
    case False
    show ?thesis
    proof (cases res)
      case (Inl e)
      then show ?thesis
        using False p ph same pas cur rl rr t
        by (auto simp: walk_poll_def recording_def walk_judge_def walk_trail_def walk_wf_def)
    next
      case (Inr s)
      then show ?thesis
        using False p ph same pas cur rl rr t app
        by (cases s)
          (auto simp: walk_poll_def recording_def walk_judge_def walk_trail_def walk_wf_def passed_def Let_def
            split: if_splits)
    qed
  qed
qed


lemma polls_trail:
  assumes "walk_trail w" "polls (walk_poll (recording read)) w ts = (w', vs)" "WvComplete \<in> set vs"
  shows "passed (snd (reader w')) = map bc_probe (cps w)"
  using assms
proof (induction ts arbitrary: w vs)
  case (Cons t ts)
  obtain w1 v where p: "walk_poll (recording read) w t = (w1, v)" by (cases "walk_poll (recording read) w t")
  obtain us where r: "polls (walk_poll (recording read)) w1 ts = (w', us)" and vs: "vs = v # us"
    using Cons.prems(2) p by (auto split: prod.splits)
  note tr = walk_poll_trail [OF Cons.prems(1) p]
  have act: "walk_active w" using Cons.prems(1) by (auto simp: walk_trail_def walk_active_def split: phase.splits)
  show ?case
  proof (cases v)
    case (WvWaiting d)
    with tr have "walk_trail w1" "cps w1 = cps w" by auto
    moreover have "WvComplete \<in> set us" using Cons.prems(3) vs WvWaiting by auto
    ultimately show ?thesis using Cons.IH [OF _ r] by simp
  next
    case WvComplete
    then have "\<not> walk_active w1" using walk_poll_active [OF act, of "recording read" t] p by simp
    from cw.idle_polls [OF this, of "recording read" ts] r have "w' = w1" by simp
    with tr WvComplete show ?thesis by simp
  next
    case (WvFailed c f)
    then have "\<not> walk_active w1" using walk_poll_active [OF act, of "recording read" t] p by simp
    from cw.idle_polls [OF this, of "recording read" ts] r have "set us \<subseteq> {WvWaiting no_deadline}" by auto
    with Cons.prems(3) vs WvFailed show ?thesis by auto
  qed
qed simp

text \<open>
  A completed walk has seen every checkpoint. If some poll after the walk was armed answers
  \<open>Complete\<close>, then the evidence reader has reported \<open>Booted\<close> for every checkpoint of the device,
  once each and in declaration order; read errors and \<open>Booting\<close> never count as progress.
\<close>

theorem walk_complete_sound:
  assumes "device_ok dev"
    and "polls (walk_poll (recording read)) (walk_arm (walk_new (rd, []) dev)) ts = (w', vs)"
    and "WvComplete \<in> set vs"
  shows "passed (snd (reader w')) = map bc_probe (checkpoints dev)"
proof -
  have "walk_trail (walk_arm (walk_new (rd, []) dev))"
    using assms(1) by (simp add: walk_trail_def walk_arm_def walk_new_def walk_wf_def device_ok_def passed_def)
  from polls_trail [OF this assms(2,3)] show ?thesis by (simp add: walk_arm_def walk_new_def)
qed

definition demo_device :: "(u8, nat) device_config" where
  "demo_device = \<lparr>dc_name = [98, 109, 99], reset_signal = 7,
     checkpoints = [\<lparr>bc_name = [97], bc_probe = 1, bc_timeout = 100000000\<rparr>,
                    \<lparr>bc_name = [98], bc_probe = 2, bc_timeout = 200000000\<rparr>]\<rparr>"

text \<open>A progress register: probe \<open>n\<close> is booted once the level has reached \<open>n\<close>; each read raises it.\<close>

definition demo_reader :: "(nat, nat, unit) evidence_reader" where
  "demo_reader level p = (Suc level, Inr (if p \<le> level then BsBooted else BsBooting))"

lemma demo_device_ok: "device_ok demo_device"
  by (simp add: device_ok_def demo_device_def)

theorem walk_complete_sound_witness:
  "\<exists>w'. polls (walk_poll (recording demo_reader)) (walk_arm (walk_new (0, []) demo_device)) [0, 10, 20] =
     (w', [WvWaiting 100, WvWaiting 210, WvComplete]) \<and>
   passed (snd (reader w')) = [1, 2]"
proof -
  let ?p = "polls (walk_poll (recording demo_reader)) (walk_arm (walk_new (0, []) demo_device)) [0, 10, 20]"
  have "snd ?p = [WvWaiting 100, WvWaiting 210, WvComplete]"
    by (simp add: walk_poll_def walk_start_def walk_arm_def walk_new_def walk_judge_def recording_def
        demo_reader_def demo_device_def timeout_millis_def as_millis_def saturating_add_def)
  then obtain w' where p: "?p = (w', [WvWaiting 100, WvWaiting 210, WvComplete])" by (cases ?p) auto
  from walk_complete_sound [OF demo_device_ok p] p show ?thesis by (simp add: demo_device_def)
qed

section \<open>Progress\<close>

text \<open>The poll times at which a device that is always up stays inside every window.\<close>

fun in_time :: "u64 \<Rightarrow> 'p boot_checkpoint list \<Rightarrow> u64 list \<Rightarrow> bool" where
  "in_time prev [] [] = True"
| "in_time prev (c # cs) (t # ts) = (t < saturating_add prev (timeout_millis c) \<and> in_time t cs ts)"
| "in_time _ _ _ = False"

definition always_booted :: "('r, 'p, 'e) evidence_reader \<Rightarrow> bool" where
  "always_booted read \<longleftrightarrow> (\<forall>rd p. snd (read rd p) = Inr BsBooted)"

lemma walking_completes:
  assumes "always_booted read" "wphase w = Walking k (saturating_add prev (timeout_millis (cps w ! k)))"
    "k < length (cps w)" "in_time prev (drop k (cps w)) ts"
  shows "\<exists>vs. snd (polls (walk_poll read) w ts) = vs @ [WvComplete] \<and> list_all (\<lambda>v. \<not> terminal v) vs \<and>
    length vs + 1 = length (cps w) - k"
  using assms(2-4)
proof (induction ts arbitrary: w k prev)
  case Nil
  then have "in_time prev (cps w ! k # drop (Suc k) (cps w)) []" by (simp only: Cons_nth_drop_Suc)
  then show ?case by simp
next
  case (Cons t ts)
  let ?c = "cps w ! k"
  have it: "t < saturating_add prev (timeout_millis ?c)" "in_time t (drop (Suc k) (cps w)) ts"
    using Cons.prems(2,3) by (simp_all add: Cons_nth_drop_Suc [symmetric])
  obtain rd where rd: "read (reader w) (bc_probe ?c) = (rd, Inr BsBooted)"
    using assms(1) by (metis always_booted_def prod.collapse)
  have poll: "walk_poll read w t = walk_judge (w\<lparr>reader := rd\<rparr>) t k (saturating_add prev (timeout_millis ?c)) BsBooted"
    using it(1) Cons.prems(1) rd by (simp add: walk_poll_def walk_start_def not_le [symmetric])
  show ?case
  proof (cases "Suc k = length (cps w)")
    case True
    then have "ts = []" using it(2) by (cases ts) auto
    with True poll show ?thesis by (intro exI [of _ "[]"]) (simp add: walk_judge_def)
  next
    case False
    define w1 where "w1 = w\<lparr>reader := rd, wphase := Walking (Suc k) (saturating_add t (timeout_millis (cps w ! Suc k)))\<rparr>"
    have p1: "walk_poll read w t = (w1, WvWaiting (saturating_add t (timeout_millis (cps w ! Suc k))))"
      using False poll by (simp add: walk_judge_def w1_def Let_def)
    have "\<exists>vs. snd (polls (walk_poll read) w1 ts) = vs @ [WvComplete] \<and> list_all (\<lambda>v. \<not> terminal v) vs \<and>
        length vs + 1 = length (cps w1) - Suc k"
      using False Cons.prems(2) it(2) by (intro Cons.IH) (auto simp: w1_def)
    then obtain vs where vs: "snd (polls (walk_poll read) w1 ts) = vs @ [WvComplete]"
      "list_all (\<lambda>v. \<not> terminal v) vs" "length vs + 1 = length (cps w) - Suc k" by (auto simp: w1_def)
    then show ?thesis
      using p1 Cons.prems(2)
      by (intro exI [of _ "WvWaiting (saturating_add t (timeout_millis (cps w ! Suc k))) # vs"])
        (auto split: prod.split)
  qed
qed

text \<open>
  A walk over a device that is up completes, with one poll per checkpoint. If each poll falls
  inside the window that the previous poll opened, the walk answers \<open>Waiting\<close> for every checkpoint
  but the last and \<open>Complete\<close> for the last.
\<close>

theorem walk_completes:
  assumes "device_ok dev" "always_booted read" "ts = t0 # rest" "in_time t0 (checkpoints dev) ts"
  shows "\<exists>vs. snd (polls (walk_poll read) (walk_arm (walk_new rd dev)) ts) = vs @ [WvComplete] \<and>
    list_all (\<lambda>v. \<not> terminal v) vs \<and> length vs + 1 = length (checkpoints dev)"
proof -
  let ?w = "walk_arm (walk_new rd dev)"
  let ?v = "?w\<lparr>wphase := Walking 0 (saturating_add t0 (timeout_millis (cps ?w ! 0)))\<rparr>"
  have "walk_start ?w t0 = ?v" "walk_start ?v t0 = ?v" by (simp_all add: walk_start_def walk_arm_def)
  then have "walk_poll read ?w t0 = walk_poll read ?v t0"
    unfolding walk_poll_def Let_def by simp
  then have eq: "polls (walk_poll read) ?w ts = polls (walk_poll read) ?v ts"
    by (simp add: assms(3))
  have cps: "cps ?w = checkpoints dev" "cps ?v = checkpoints dev" by (simp_all add: walk_arm_def walk_new_def)
  have "\<exists>vs. snd (polls (walk_poll read) ?v ts) = vs @ [WvComplete] \<and> list_all (\<lambda>v. \<not> terminal v) vs \<and>
      length vs + 1 = length (cps ?v) - 0"
  proof (rule walking_completes [OF assms(2), of ?v 0 t0])
    show "wphase ?v = Walking 0 (saturating_add t0 (timeout_millis (cps ?v ! 0)))" by simp
    show "0 < length (cps ?v)" using assms(1) by (simp add: cps device_ok_def)
    show "in_time t0 (drop 0 (cps ?v)) ts" using assms(4) by (simp add: cps)
  qed
  then obtain vs where vs: "snd (polls (walk_poll read) ?v ts) = vs @ [WvComplete]"
      "list_all (\<lambda>v. \<not> terminal v) vs" "length vs + 1 = length (checkpoints dev)"
    by (auto simp: cps)
  have "snd (polls (walk_poll read) ?w ts) = vs @ [WvComplete]"
    using vs(1) by (rule trans [OF arg_cong [OF eq]])
  with vs(2,3) show ?thesis by blast
qed

theorem walk_completes_witness:
  "\<exists>vs. snd (polls (walk_poll (\<lambda>rd p. (rd, Inr BsBooted :: (unit, boot_status) result)))
       (walk_arm (walk_new () demo_device)) [5, 60]) = vs @ [WvComplete] \<and>
    list_all (\<lambda>v. \<not> terminal v) vs \<and> length vs + 1 = length (checkpoints demo_device)"
proof (rule walk_completes [OF demo_device_ok])
  show "in_time 5 (checkpoints demo_device) [5, 60]"
    by (simp add: demo_device_def timeout_millis_def as_millis_def saturating_add_def)
qed (simp_all add: always_booted_def)

text \<open>
  A silent device times out at its window and not before. While the reader reports nothing
  (\<open>Booting\<close> or an error), a poll before the deadline answers \<open>Waiting\<close> with that deadline, and the
  first poll at or after it fails the attempt at the current checkpoint as \<open>TimedOut\<close>, without
  consulting the reader, and ends the walk.
\<close>

theorem walk_silent_device:
  assumes "wphase w = Walking cur deadline"
  shows "walk_poll (\<lambda>rd p. (f rd, r)) w now =
    (if deadline \<le> now then (w\<lparr>wphase := Idle\<rparr>, WvFailed (cp_string (cps w ! cur)) FcTimedOut)
     else if r = Inr BsBooting \<or> isl r then (w\<lparr>reader := f (reader w)\<rparr>, WvWaiting deadline)
     else walk_judge (w\<lparr>reader := f (reader w)\<rparr>) now cur deadline (projr r))"
  using assms by (cases r) (auto simp: walk_poll_def walk_start_def walk_judge_def)

theorem walk_silent_device_witness:
  "snd (walk_poll (\<lambda>rd p. (rd, Inl ())) ((walk_new () demo_device)\<lparr>wphase := Walking 1 50\<rparr>) 60) =
     WvFailed (cp_string (checkpoints demo_device ! 1)) FcTimedOut"
proof -
  have "wphase ((walk_new () demo_device)\<lparr>wphase := Walking 1 50\<rparr>) = Walking 1 50" by simp
  from walk_silent_device [OF this, of "\<lambda>rd. rd" "Inl ()" 60] show ?thesis
    by (simp add: walk_new_def)
qed

text \<open>
  The schema's lower bound does not bound the window the walk uses. \<open>BootCheckpoint::new\<close>
  accepts every window of at least one millisecond, but the walk casts the milliseconds to
  \<open>u64\<close>; a window of \<open>2\<^sup>6\<^sup>4\<close> milliseconds becomes zero, and the first poll after the walk is armed
  fails it as timed out whatever the device reports.
\<close>

theorem huge_window_times_out:
  "checkpoint_ok \<lparr>bc_name = [97], bc_probe = p, bc_timeout = 2 ^ 64 * 1000000\<rparr> \<and>
   snd (walk_poll read (walk_arm (walk_new rd
      \<lparr>dc_name = [98], reset_signal = sig,
       checkpoints = [\<lparr>bc_name = [97], bc_probe = p, bc_timeout = 2 ^ 64 * 1000000\<rparr>]\<rparr>)) now) =
     WvFailed (cp_string \<lparr>bc_name = [97], bc_probe = p, bc_timeout = 2 ^ 64 * 1000000\<rparr>) FcTimedOut"
proof -
  define cp where "cp = \<lparr>bc_name = [97], bc_probe = p, bc_timeout = 2 ^ 64 * 1000000\<rparr>"
  have "as_millis (bc_timeout cp) = 2 ^ 64" by (simp add: cp_def as_millis_def)
  then have "timeout_millis cp = 0" "checkpoint_ok cp"
    by (simp_all only: timeout_millis_def checkpoint_ok_def)
      (simp_all add: cp_def unat_eq_zero [symmetric] unat_of_nat take_bit_nat_def)
  then show ?thesis
    unfolding cp_def [symmetric]
    by (simp add: walk_poll_def walk_start_def walk_arm_def walk_new_def)
qed

end
