(* ===== verification/Platform_Driver.thy ===== *)
theory Platform_Driver
  imports Capabilities Sm_Properties Otp_Floor Checkpoint_Walk
begin

text \<open>
  The platform driver, \<open>services/orchestrator/driver/src/driver.rs\<close> and \<open>board.rs\<close>: one executor per
  effect over the board's capabilities, and the poll of the boot walks. The capability types of a
  board are type parameters, and their methods are the fields of \<open>board_ops\<close>, a parameter of every
  executor that uses one; the error types are all discarded by the driver (\<open>map_err(|_| ..)\<close>), so a
  failed capability call is \<^term>\<open>Inl ()\<close>. An array of length \<open>N\<close> is a list; \<open>get_mut(i)\<close> out of range
  is \<open>UnknownComponent\<close>.
\<close>

section \<open>The board\<close>

datatype verdict = Authenticated svn | Rejected

datatype report =
    RIsolated component_id
  | RRecoveryFailed component_id
  | RBootFailed component_id string boot_failure_kind
  | RUpdateDeferred
  | RUpdateAborted

datatype 'f svn_floor_binding = Erot 'f | SelfManaged

record ('i, 'v, 'b, 'w, 'f, 's) board_ops =
  image_open :: "'i \<Rightarrow> 'i \<times> (unit, unit) result"
  verifier_verify :: "'v \<Rightarrow> component_id \<Rightarrow> 'i \<Rightarrow> 'v \<times> 'i \<times> (unit, verdict) result"
  hold_in_reset :: "'b \<Rightarrow> 'b \<times> (unit, unit) result"
  release :: "'b \<Rightarrow> 'b \<times> (unit, unit) result"
  watch_arm :: "'w \<Rightarrow> 'w"
  watch_poll :: "'w \<Rightarrow> u64 \<Rightarrow> 'w \<times> walk_verdict"
  floor_advance :: "'f \<Rightarrow> svn \<Rightarrow> 'f \<times> (unit, unit) result"
  sink_report :: "'s \<Rightarrow> report \<Rightarrow> 's"

record ('i, 'v, 'b, 'w, 'f, 's) board =
  images :: "'i list"
  verifier :: 'v
  boot_controls :: "'b list"
  boot_watches :: "'w list"
  component_kinds :: "component_kind list"
  svn_floors :: "'f svn_floor_binding list"
  report_sink :: 's

section \<open>The driver\<close>

datatype driver_error =
    UnknownComponent
  | ImageUnavailable
  | NotStaged
  | VerifierFault
  | BootControlFault
  | NoVerifiedImage
  | SvnFloorFault

record ('i, 'v, 'b, 'w, 'f, 's) platform_driver =
  dboard :: "('i, 'v, 'b, 'w, 'f, 's) board"
  staged :: "component_id option"
  watching :: "bool list"
  verified_svn :: "svn option list"

definition driver_new :: "nat \<Rightarrow> ('i, 'v, 'b, 'w, 'f, 's) board \<Rightarrow> ('i, 'v, 'b, 'w, 'f, 's) platform_driver" where
  "driver_new N b = \<lparr>dboard = b, staged = None, watching = replicate N False, verified_svn = replicate N None\<rparr>"

definition stage_firmware ::
    "('i, 'v, 'b, 'w, 'f, 's) board_ops \<Rightarrow> ('i, 'v, 'b, 'w, 'f, 's) platform_driver \<Rightarrow> component_id
       \<Rightarrow> ('i, 'v, 'b, 'w, 'f, 's) platform_driver \<times> (driver_error, unit) result" where
  "stage_firmware ops d0 cid =
     (let d = d0\<lparr>staged := None\<rparr>; idx = unat cid in
      if \<not> idx < length (images (dboard d)) then (d, Inl UnknownComponent)
      else case image_open ops (images (dboard d) ! idx) of
        (img, res) \<Rightarrow>
          (let d1 = d\<lparr>dboard := (dboard d)\<lparr>images := (images (dboard d))[idx := img]\<rparr>\<rparr> in
           case res of
             Inl _ \<Rightarrow> (d1, Inl ImageUnavailable)
           | Inr _ \<Rightarrow> (d1\<lparr>staged := Some cid\<rparr>, Inr ())))"

definition verify_firmware ::
    "('i, 'v, 'b, 'w, 'f, 's) board_ops \<Rightarrow> ('i, 'v, 'b, 'w, 'f, 's) platform_driver \<Rightarrow> component_id
       \<Rightarrow> ('i, 'v, 'b, 'w, 'f, 's) platform_driver \<times> (driver_error, event) result" where
  "verify_firmware ops d cid =
     (let idx = unat cid in
      if \<not> idx < length (images (dboard d)) then (d, Inl UnknownComponent)
      else if staged d \<noteq> Some cid then (d, Inl NotStaged)
      else case verifier_verify ops (verifier (dboard d)) cid (images (dboard d) ! idx) of
        (v, img, res) \<Rightarrow>
          (let d1 = d\<lparr>dboard := (dboard d)\<lparr>verifier := v, images := (images (dboard d))[idx := img]\<rparr>\<rparr> in
           case res of
             Inl _ \<Rightarrow> (d1, Inl VerifierFault)
           | Inr (Authenticated s) \<Rightarrow>
               (d1\<lparr>verified_svn := (verified_svn d1)[idx := Some s]\<rparr>, Inr (VerificationPassed cid))
           | Inr Rejected \<Rightarrow>
               (d1\<lparr>verified_svn := (verified_svn d1)[idx := None]\<rparr>, Inr (VerificationFailed cid))))"

definition commit_svn_floor ::
    "('i, 'v, 'b, 'w, 'f, 's) board_ops \<Rightarrow> ('i, 'v, 'b, 'w, 'f, 's) platform_driver \<Rightarrow> component_id
       \<Rightarrow> ('i, 'v, 'b, 'w, 'f, 's) platform_driver \<times> (driver_error, unit) result" where
  "commit_svn_floor ops d cid =
     (let idx = unat cid in
      if \<not> idx < length (svn_floors (dboard d)) then (d, Inl UnknownComponent)
      else case svn_floors (dboard d) ! idx of
        SelfManaged \<Rightarrow> (d, Inr ())
      | Erot flr \<Rightarrow>
          (case verified_svn d ! idx of
             None \<Rightarrow> (d, Inl NoVerifiedImage)
           | Some s \<Rightarrow>
               (case floor_advance ops flr s of
                  (flr', res) \<Rightarrow>
                    (d\<lparr>dboard := (dboard d)\<lparr>svn_floors := (svn_floors (dboard d))[idx := Erot flr']\<rparr>\<rparr>,
                     case res of Inl _ \<Rightarrow> Inl SvnFloorFault | Inr _ \<Rightarrow> Inr ()))))"

definition release_reset ::
    "('i, 'v, 'b, 'w, 'f, 's) board_ops \<Rightarrow> ('i, 'v, 'b, 'w, 'f, 's) platform_driver \<Rightarrow> component_id
       \<Rightarrow> ('i, 'v, 'b, 'w, 'f, 's) platform_driver \<times> (driver_error, unit) result" where
  "release_reset ops d cid =
     (let idx = unat cid in
      if \<not> idx < length (boot_controls (dboard d)) then (d, Inl UnknownComponent)
      else case release ops (boot_controls (dboard d) ! idx) of
        (bc, res) \<Rightarrow>
          (let d1 = d\<lparr>dboard := (dboard d)\<lparr>boot_controls := (boot_controls (dboard d))[idx := bc]\<rparr>\<rparr> in
           case res of
             Inl _ \<Rightarrow> (d1, Inl BootControlFault)
           | Inr _ \<Rightarrow>
               (d1\<lparr>dboard := (dboard d1)\<lparr>boot_watches :=
                       (boot_watches (dboard d1))[idx := watch_arm ops (boot_watches (dboard d1) ! idx)]\<rparr>,
                    watching := (watching d1)[idx := True]\<rparr>, Inr ())))"

definition assert_reset ::
    "('i, 'v, 'b, 'w, 'f, 's) board_ops \<Rightarrow> ('i, 'v, 'b, 'w, 'f, 's) platform_driver \<Rightarrow> component_id
       \<Rightarrow> ('i, 'v, 'b, 'w, 'f, 's) platform_driver \<times> (driver_error, unit) result" where
  "assert_reset ops d cid =
     (let idx = unat cid in
      if \<not> idx < length (boot_controls (dboard d)) then (d, Inl UnknownComponent)
      else case hold_in_reset ops (boot_controls (dboard d) ! idx) of
        (bc, res) \<Rightarrow>
          (let d1 = d\<lparr>dboard := (dboard d)\<lparr>boot_controls := (boot_controls (dboard d))[idx := bc]\<rparr>\<rparr> in
           case res of
             Inl _ \<Rightarrow> (d1, Inl BootControlFault)
           | Inr _ \<Rightarrow> (d1\<lparr>watching := (watching d1)[idx := False]\<rparr>, Inr ())))"

record boot_walk_poll =
  bwp_event :: "event option"
  bwp_next_deadline :: "u64 option"

definition kind_of_cause :: "failure_cause \<Rightarrow> boot_failure_kind" where
  "kind_of_cause cause =
     (case cause of FcTimedOut \<Rightarrow> TimedOut | FcDeviceRetriable \<Rightarrow> DeviceRetriable | FcDeviceFatal \<Rightarrow> DeviceFatal)"

text \<open>The \<open>for idx in 0..N\<close> loop of \<open>poll_boot_walks\<close>, from index \<open>idx\<close> with the deadline so far.\<close>

function poll_walks_from ::
    "('i, 'v, 'b, 'w, 'f, 's) board_ops \<Rightarrow> nat \<Rightarrow> ('i, 'v, 'b, 'w, 'f, 's) platform_driver \<Rightarrow> u64 \<Rightarrow> nat
       \<Rightarrow> u64 option \<Rightarrow> ('i, 'v, 'b, 'w, 'f, 's) platform_driver \<times> boot_walk_poll" where
  "poll_walks_from ops N d now idx nd =
     (if idx < N then
        (if \<not> watching d ! idx then poll_walks_from ops N d now (Suc idx) nd
         else
           (let (w, v) = watch_poll ops (boot_watches (dboard d) ! idx) now;
                d1 = d\<lparr>dboard := (dboard d)\<lparr>boot_watches := (boot_watches (dboard d))[idx := w]\<rparr>\<rparr>;
                cid = (of_nat idx :: component_id)
            in case v of
                 WvWaiting dl \<Rightarrow>
                   poll_walks_from ops N d1 now (Suc idx) (Some (case nd of Some x \<Rightarrow> min x dl | None \<Rightarrow> dl))
               | WvComplete \<Rightarrow>
                   (d1\<lparr>watching := (watching d1)[idx := False]\<rparr>,
                    \<lparr>bwp_event = Some (case component_kinds (dboard d1) ! idx of
                       Active \<Rightarrow> ComponentReady cid | Passive \<Rightarrow> Booted cid), bwp_next_deadline = nd\<rparr>)
               | WvFailed checkpoint cause \<Rightarrow>
                   (d1\<lparr>watching := (watching d1)[idx := False]\<rparr>,
                    \<lparr>bwp_event = Some (BootFailed cid checkpoint (kind_of_cause cause)),
                     bwp_next_deadline = nd\<rparr>)))
      else (d, \<lparr>bwp_event = None, bwp_next_deadline = nd\<rparr>))"
  by pat_completeness auto
termination by (relation "measure (\<lambda>(ops, N, d, now, idx, nd). N - idx)") auto

declare poll_walks_from.simps [simp del]

definition poll_boot_walks ::
    "('i, 'v, 'b, 'w, 'f, 's) board_ops \<Rightarrow> nat \<Rightarrow> ('i, 'v, 'b, 'w, 'f, 's) platform_driver \<Rightarrow> u64
       \<Rightarrow> ('i, 'v, 'b, 'w, 'f, 's) platform_driver \<times> boot_walk_poll" where
  "poll_boot_walks ops N d now = poll_walks_from ops N d now 0 None"

definition driver_report ::
    "('i, 'v, 'b, 'w, 'f, 's) board_ops \<Rightarrow> ('i, 'v, 'b, 'w, 'f, 's) platform_driver \<Rightarrow> report
       \<Rightarrow> ('i, 'v, 'b, 'w, 'f, 's) platform_driver" where
  "driver_report ops d rep =
     d\<lparr>dboard := (dboard d)\<lparr>report_sink := sink_report ops (report_sink (dboard d)) rep\<rparr>\<rparr>"

text \<open>\<open>.map(|_| None)\<close> and \<open>.map_err(|_| EffectError)\<close>\<close>

definition no_event :: "'d \<times> ('e, unit) result \<Rightarrow> 'd \<times> (unit, event option) result" where
  "no_event dr = (fst dr, case snd dr of Inl _ \<Rightarrow> Inl () | Inr _ \<Rightarrow> Inr None)"

definition execute :: "('i, 'v, 'b, 'w, 'f, 's) board_ops \<Rightarrow> ('i, 'v, 'b, 'w, 'f, 's) platform_driver executor" where
  "execute ops d e =
     (case e of
        ReadFirmware cid \<Rightarrow> no_event (stage_firmware ops d cid)
      | VerifyFirmware cid \<Rightarrow>
          (case verify_firmware ops d cid of
             (d1, Inl _) \<Rightarrow> (d1, Inl ())
           | (d1, Inr ev) \<Rightarrow> (d1, Inr (Some ev)))
      | ReleaseReset cid \<Rightarrow> no_event (release_reset ops d cid)
      | AssertReset cid \<Rightarrow> no_event (assert_reset ops d cid)
      | CommitSvnFloor cid \<Rightarrow> no_event (commit_svn_floor ops d cid)
      | ReportIsolated cid \<Rightarrow> (driver_report ops d (RIsolated cid), Inr None)
      | ReportRecoveryFailed cid \<Rightarrow> (driver_report ops d (RRecoveryFailed cid), Inr None)
      | ReportUpdateDeferred \<Rightarrow> (driver_report ops d RUpdateDeferred, Inr None)
      | ReportUpdateAborted \<Rightarrow> (driver_report ops d RUpdateAborted, Inr None)
      | ReportBootFailed cid checkpoint k \<Rightarrow> (driver_report ops d (RBootFailed cid checkpoint k), Inr None)
      | RecoverComponent _ _ \<Rightarrow> (d, Inl ())
      | AuthenticateUpdate \<Rightarrow> (d, Inl ())
      | StageUpdate \<Rightarrow> (d, Inl ())
      | ActivateUpdate \<Rightarrow> (d, Inl ())
      | DiscardStaged \<Rightarrow> (d, Inl ())
      | SignAttestation \<Rightarrow> (d, Inl ())
      | LatchLockdown \<Rightarrow> (d, Inl ())
      | Emit _ \<Rightarrow> (d, Inl ()))"


section \<open>Shape\<close>

text \<open>The arrays of the driver and of its board all have the length \<open>N\<close>.\<close>

definition driver_wf :: "nat \<Rightarrow> ('i, 'v, 'b, 'w, 'f, 's) platform_driver \<Rightarrow> bool" where
  "driver_wf N d \<longleftrightarrow>
     length (images (dboard d)) = N \<and> length (boot_controls (dboard d)) = N \<and>
     length (boot_watches (dboard d)) = N \<and> length (component_kinds (dboard d)) = N \<and>
     length (svn_floors (dboard d)) = N \<and> length (watching d) = N \<and> length (verified_svn d) = N"

definition board_wf :: "nat \<Rightarrow> ('i, 'v, 'b, 'w, 'f, 's) board \<Rightarrow> bool" where
  "board_wf N b \<longleftrightarrow>
     length (images b) = N \<and> length (boot_controls b) = N \<and> length (boot_watches b) = N \<and>
     length (component_kinds b) = N \<and> length (svn_floors b) = N"

lemma driver_wf_new: "board_wf N b \<Longrightarrow> driver_wf N (driver_new N b)"
  by (simp add: driver_wf_def board_wf_def driver_new_def)

lemmas executor_defs =
  stage_firmware_def verify_firmware_def commit_svn_floor_def release_reset_def assert_reset_def
  driver_report_def no_event_def

lemma execute_wf [inv_lemmas]: "driver_wf N d \<Longrightarrow> driver_wf N (fst (execute ops d e))"
  by (cases e)
    (auto simp: execute_def executor_defs driver_wf_def Let_def
      split: prod.splits sum.splits option.splits verdict.splits svn_floor_binding.splits)

text \<open>A sequence of effects, whatever their results.\<close>

definition executes ::
    "('i, 'v, 'b, 'w, 'f, 's) board_ops \<Rightarrow> ('i, 'v, 'b, 'w, 'f, 's) platform_driver \<Rightarrow> effect list
       \<Rightarrow> ('i, 'v, 'b, 'w, 'f, 's) platform_driver" where
  "executes ops = foldl (\<lambda>d e. fst (execute ops d e))"

lemma executes_wf: "driver_wf N d \<Longrightarrow> driver_wf N (executes ops d es)"
  unfolding executes_def by (induction es arbitrary: d) (auto intro: execute_wf)

lemma verify_only_execute: "verify_only (execute ops)"
  unfolding verify_only_def
  by (auto simp: execute_def executor_defs Let_def
      split: effect.splits prod.splits sum.splits option.splits verdict.splits if_splits svn_floor_binding.splits)

section \<open>The anti-rollback floor\<close>

text \<open>Which effects change which floors, and to what.\<close>

lemma execute_floors:
  assumes wf: "driver_wf N d" and i: "i < N"
  shows "svn_floors (dboard (fst (execute ops d e))) ! i =
    (case (svn_floors (dboard d) ! i, verified_svn d ! i) of
       (Erot flr, Some s) \<Rightarrow>
         if \<exists>c. e = CommitSvnFloor c \<and> unat c = i then Erot (fst (floor_advance ops flr s))
         else svn_floors (dboard d) ! i
     | _ \<Rightarrow> svn_floors (dboard d) ! i)"
proof (cases "\<exists>c. e = CommitSvnFloor c")
  case True
  then obtain c where c: "e = CommitSvnFloor c" by blast
  have "length (svn_floors (dboard d)) = N" using wf by (simp add: driver_wf_def)
  with c i show ?thesis
    by (auto simp: execute_def no_event_def commit_svn_floor_def Let_def nth_list_update
        split: svn_floor_binding.splits option.splits prod.splits)
next
  case False
  then show ?thesis
    by (cases e)
      (auto simp: execute_def executor_defs Let_def
        split: prod.splits sum.splits option.splits verdict.splits svn_floor_binding.splits)
qed

fun floor_of :: "('f \<Rightarrow> nat) \<Rightarrow> 'f svn_floor_binding \<Rightarrow> nat" where
  "floor_of val (Erot f) = val f"
| "floor_of val SelfManaged = 0"

fun binding_valid :: "('f \<Rightarrow> bool) \<Rightarrow> 'f svn_floor_binding \<Rightarrow> bool" where
  "binding_valid valid (Erot f) = valid f"
| "binding_valid valid SelfManaged = True"

definition erase_error :: "'f \<times> ('e, unit) result \<Rightarrow> 'f \<times> (unit, unit) result" where
  "erase_error fr = (fst fr, case snd fr of Inl _ \<Rightarrow> Inl () | Inr u \<Rightarrow> Inr u)"

text \<open>On any board whose floor storage keeps the contract, the driver never lowers a floor.\<close>

context svn_floor
begin

lemma execute_floor_mono:
  assumes wf: "driver_wf N d" and i: "i < N"
    and ops: "floor_advance ops = (\<lambda>f s. erase_error (advance f s))"
    and val: "binding_valid valid (svn_floors (dboard d) ! i)"
  shows "binding_valid valid (svn_floors (dboard (fst (execute ops d e))) ! i)"
    "floor_of floor_value (svn_floors (dboard d) ! i) \<le>
       floor_of floor_value (svn_floors (dboard (fst (execute ops d e))) ! i)"
  using val advance_mono advance_valid
  by (auto simp: execute_floors [OF wf i] ops erase_error_def split: svn_floor_binding.splits option.splits)

lemma executes_floor_mono:
  assumes "driver_wf N d" "i < N" "floor_advance ops = (\<lambda>f s. erase_error (advance f s))"
    "binding_valid valid (svn_floors (dboard d) ! i)"
  shows "floor_of floor_value (svn_floors (dboard d) ! i) \<le>
    floor_of floor_value (svn_floors (dboard (executes ops d es)) ! i)"
  using assms(1,4)
proof (induction es arbitrary: d)
  case (Cons e es)
  note m = execute_floor_mono [OF Cons.prems(1) assms(2,3) Cons.prems(2), of e]
  from m(2) Cons.IH [OF execute_wf [OF Cons.prems(1)] m(1)] show ?case
    by (simp add: executes_def)
qed (simp add: executes_def)

end

text \<open>
  No sequence of effects rolls a component back. On a board with fuse-backed floors, whatever
  effects the state machine has the driver execute, and whatever the images, the verifier and
  the reset lines do, no component's anti-rollback floor is ever lower afterwards than before.
\<close>

theorem driver_never_rolls_back:
  assumes "driver_wf N d" "i < N" "floor_advance ops = (\<lambda>f s. erase_error (otp_advance FUSES f s))"
    and "binding_valid otp_valid (svn_floors (dboard d) ! i)"
  shows "floor_of burnt (svn_floors (dboard d) ! i) \<le>
    floor_of burnt (svn_floors (dboard (executes ops d es)) ! i)"
  by (rule otp.executes_floor_mono [OF assms])


text \<open>A board for three components: fuse-backed floors, checkpoint walks, every image at SVN 4.\<close>

type_synonym demo_walk = "(nat, nat) checkpoint_walk"

definition demo_ops :: "(unit, unit, bool, demo_walk, mock_otp_floor, report list) board_ops" where
  "demo_ops =
     \<lparr>image_open = (\<lambda>i. (i, Inr ())),
      verifier_verify = (\<lambda>v c i. (v, i, Inr (Authenticated 4))),
      hold_in_reset = (\<lambda>b. (True, Inr ())),
      release = (\<lambda>b. (False, Inr ())),
      watch_arm = walk_arm,
      watch_poll = walk_poll demo_reader,
      floor_advance = (\<lambda>f s. erase_error (otp_advance 8 f s)),
      sink_report = (\<lambda>l r. l @ [r])\<rparr>"

definition demo_board :: "(unit, unit, bool, demo_walk, mock_otp_floor, report list) board" where
  "demo_board =
     \<lparr>images = [(), (), (), ()], verifier = (), boot_controls = [True, True, True, True],
      boot_watches = replicate 4 (walk_new 0 demo_device),
      component_kinds = [Passive, Active, Active, Passive],
      svn_floors = [SelfManaged, Erot otp_new, Erot otp_new, SelfManaged], report_sink = []\<rparr>"

lemma demo_board_wf: "board_wf 4 demo_board"
  by (simp add: board_wf_def demo_board_def)

theorem driver_never_rolls_back_witness:
  "floor_of burnt (svn_floors (dboard (driver_new 4 demo_board)) ! 1) \<le>
   floor_of burnt (svn_floors (dboard (executes demo_ops (driver_new 4 demo_board)
     [ReadFirmware 1, VerifyFirmware 1, CommitSvnFloor 1])) ! 1)"
  by (rule driver_never_rolls_back [OF driver_wf_new [OF demo_board_wf], of _ _ 8])
    (simp_all add: demo_ops_def driver_new_def demo_board_def otp_valid_def otp_new_def)

section \<open>The committed version is the verified one\<close>

text \<open>A verifier that records the verdicts it gives.\<close>

definition recording_ops ::
    "('i, 'v, 'b, 'w, 'f, 's) board_ops \<Rightarrow> ('i, 'v \<times> (component_id \<times> verdict) list, 'b, 'w, 'f, 's) board_ops" where
  "recording_ops ops =
     \<lparr>image_open = image_open ops,
      verifier_verify = (\<lambda>vl c i.
        case verifier_verify ops (fst vl) c i of
          (v, i', Inl u) \<Rightarrow> ((v, snd vl), i', Inl u)
        | (v, i', Inr w) \<Rightarrow> ((v, snd vl @ [(c, w)]), i', Inr w)),
      hold_in_reset = hold_in_reset ops, release = release ops,
      watch_arm = watch_arm ops, watch_poll = watch_poll ops,
      floor_advance = floor_advance ops, sink_report = sink_report ops\<rparr>"

text \<open>The SVN of the last verdict on a component, if that verdict authenticated the image.\<close>

definition last_svn :: "component_id \<Rightarrow> (component_id \<times> verdict) list \<Rightarrow> svn option" where
  "last_svn c log =
     (case find (\<lambda>x. fst x = c) (rev log) of
        Some (_, Authenticated s) \<Rightarrow> Some s
      | _ \<Rightarrow> None)"

lemma last_svn_snoc:
  "last_svn c (log @ [(d, w)]) =
     (if d = c then (case w of Authenticated s \<Rightarrow> Some s | Rejected \<Rightarrow> None) else last_svn c log)"
  by (auto simp: last_svn_def split: verdict.splits)

definition svn_tracked ::
    "nat \<Rightarrow> ('i, 'v \<times> (component_id \<times> verdict) list, 'b, 'w, 'f, 's) platform_driver \<Rightarrow> bool" where
  "svn_tracked N d \<longleftrightarrow>
     (\<forall>c. unat c < N \<longrightarrow> verified_svn d ! unat c = last_svn c (snd (verifier (dboard d))))"

lemma execute_svn_tracked:
  assumes wf: "driver_wf N d" and tr: "svn_tracked N d"
  shows "svn_tracked N (fst (execute (recording_ops ops) d e))"
proof (cases "\<exists>c. e = VerifyFirmware c")
  case True
  then obtain c where e: "e = VerifyFirmware c" by blast
  obtain v log where vl: "verifier (dboard d) = (v, log)" by (cases "verifier (dboard d)")
  have len: "length (images (dboard d)) = N" "length (verified_svn d) = N" using wf by (auto simp: driver_wf_def)
  have inj: "x = c" if "unat c = unat x" for x :: component_id using that by (simp add: word_unat_eq_iff)
  show ?thesis
    using tr len
    by (auto dest: inj simp: e execute_def verify_firmware_def recording_ops_def svn_tracked_def vl last_svn_snoc Let_def
        nth_list_update split: prod.splits sum.splits verdict.splits)
next
  case False
  have "verified_svn (fst (execute (recording_ops ops) d e)) = verified_svn d \<and>
      verifier (dboard (fst (execute (recording_ops ops) d e))) = verifier (dboard d)"
    using False
    by (cases e)
      (auto simp: execute_def executor_defs Let_def
        split: prod.splits sum.splits option.splits svn_floor_binding.splits)
  with tr show ?thesis by (simp add: svn_tracked_def)
qed

lemma executes_svn_tracked:
  "driver_wf N d \<Longrightarrow> svn_tracked N d \<Longrightarrow> svn_tracked N (executes (recording_ops ops) d es)"
  unfolding executes_def by (induction es arbitrary: d) (auto intro: execute_wf execute_svn_tracked)

text \<open>
  C14: The anti-rollback floor moves only by a commit, and only to the version that was verified.
  On every board whose arrays have length \<open>N\<close>, after any sequence of effects executed by a new
  driver, the next effect leaves the floor of a component \<open>c < N\<close> exactly as it was, unless it is
  \<open>CommitSvnFloor c\<close>, the floor is held by the eRoT and the last verdict the verifier gave on \<open>c\<close>
  authenticated an image; then the floor storage is advanced to the version of that verdict. The
  commit itself succeeds on a self-managed component, fails when the last verdict on \<open>c\<close> was a
  rejection or there was none, and otherwise succeeds exactly when the storage accepts the
  advance. (The verdicts are those of the board's verifier, recorded in the order it gave them.)
\<close>

theorem floor_commits_verified_svn:
  fixes ops :: "('i, 'v, 'b, 'w, 'f, 's) board_ops" and es :: "effect list" and e :: effect
    and b :: "('i, 'v \<times> (component_id \<times> verdict) list, 'b, 'w, 'f, 's) board"
  assumes "board_wf N b" "snd (verifier b) = []" "unat c < N"
  defines "d \<equiv> executes (recording_ops ops) (driver_new N b) es"
  defines "flr_at \<equiv> svn_floors (dboard d) ! unat c"
  defines "svn_of \<equiv> last_svn c (snd (verifier (dboard d)))"
  shows "svn_floors (dboard (fst (execute (recording_ops ops) d e))) ! unat c =
      (case (flr_at, svn_of) of
         (Erot flr, Some s) \<Rightarrow> if e = CommitSvnFloor c then Erot (fst (floor_advance ops flr s)) else flr_at
       | _ \<Rightarrow> flr_at) \<and>
    snd (execute (recording_ops ops) d (CommitSvnFloor c)) =
      (case (flr_at, svn_of) of
         (SelfManaged, _) \<Rightarrow> Inr None
       | (Erot flr, None) \<Rightarrow> Inl ()
       | (Erot flr, Some s) \<Rightarrow> (case snd (floor_advance ops flr s) of Inl _ \<Rightarrow> Inl () | Inr _ \<Rightarrow> Inr None))"
proof -
  have wf: "driver_wf N d" unfolding d_def by (rule executes_wf [OF driver_wf_new [OF assms(1)]])
  have "svn_tracked N (driver_new N b)"
    using assms(2) by (simp add: svn_tracked_def driver_new_def last_svn_def)
  then have "svn_tracked N d"
    unfolding d_def by (rule executes_svn_tracked [OF driver_wf_new [OF assms(1)]])
  then have last: "verified_svn d ! unat c = svn_of"
    using assms(3) by (simp add: svn_tracked_def svn_of_def)
  have "svn_floors (dboard (fst (execute (recording_ops ops) d e))) ! unat c =
      (case (flr_at, svn_of) of
         (Erot flr, Some s) \<Rightarrow> if e = CommitSvnFloor c then Erot (fst (floor_advance ops flr s)) else flr_at
       | _ \<Rightarrow> flr_at)"
    unfolding execute_floors [OF wf assms(3)] last flr_at_def
    by (auto simp: recording_ops_def word_unat_eq_iff [symmetric] split: svn_floor_binding.splits option.splits)
  moreover have "unat c < length (svn_floors (dboard d))" using wf assms(3) by (simp add: driver_wf_def)
  then have "snd (execute (recording_ops ops) d (CommitSvnFloor c)) =
      (case (flr_at, svn_of) of
         (SelfManaged, _) \<Rightarrow> Inr None
       | (Erot flr, None) \<Rightarrow> Inl ()
       | (Erot flr, Some s) \<Rightarrow> (case snd (floor_advance ops flr s) of Inl _ \<Rightarrow> Inl () | Inr _ \<Rightarrow> Inr None))"
    using last
    by (auto simp: execute_def no_event_def commit_svn_floor_def recording_ops_def flr_at_def
        split: svn_floor_binding.splits option.splits prod.splits sum.splits)
  ultimately show ?thesis by blast
qed


definition demo_rec_board ::
    "(unit, unit \<times> (component_id \<times> verdict) list, bool, demo_walk, mock_otp_floor, report list) board" where
  "demo_rec_board =
     \<lparr>images = [(), ()], verifier = ((), []), boot_controls = [True, True],
      boot_watches = replicate 2 (walk_new 0 demo_device), component_kinds = [Passive, Active],
      svn_floors = [SelfManaged, Erot otp_new], report_sink = []\<rparr>"

theorem floor_commits_verified_svn_witness:
  "svn_floors (dboard (fst (execute (recording_ops demo_ops) (executes (recording_ops demo_ops)
      (driver_new 2 demo_rec_board) [ReadFirmware 1, VerifyFirmware 1]) (CommitSvnFloor 1)))) ! unat (1 :: u8) =
    Erot (fst (floor_advance demo_ops otp_new 4))"
proof -
  let ?d = "executes (recording_ops demo_ops) (driver_new 2 demo_rec_board) [ReadFirmware 1, VerifyFirmware 1]"
  have wf: "board_wf 2 demo_rec_board" "snd (verifier demo_rec_board) = []" "unat (1 :: u8) < 2"
    by (simp_all add: board_wf_def demo_rec_board_def)
  have "svn_floors (dboard ?d) ! unat (1 :: u8) = Erot otp_new" "last_svn 1 (snd (verifier (dboard ?d))) = Some 4"
    by (simp_all add: executes_def execute_def executor_defs recording_ops_def demo_ops_def demo_rec_board_def
        driver_new_def last_svn_def Let_def)
  with floor_commits_verified_svn [OF wf, of demo_ops "[ReadFirmware 1, VerifyFirmware 1]" "CommitSvnFloor 1"]
  show ?thesis by simp
qed

section \<open>Polling the boot walks\<close>

text \<open>The event a verdict on component \<open>i\<close> becomes.\<close>

definition walk_event :: "component_kind \<Rightarrow> nat \<Rightarrow> walk_verdict \<Rightarrow> event option" where
  "walk_event k i v =
     (case v of
        WvWaiting _ \<Rightarrow> None
      | WvComplete \<Rightarrow> Some (case k of Active \<Rightarrow> ComponentReady (of_nat i) | Passive \<Rightarrow> Booted (of_nat i))
      | WvFailed cp cause \<Rightarrow> Some (BootFailed (of_nat i) cp (kind_of_cause cause)))"

definition verdict_at ::
    "('i, 'v, 'b, 'w, 'f, 's) board_ops \<Rightarrow> ('i, 'v, 'b, 'w, 'f, 's) platform_driver \<Rightarrow> u64 \<Rightarrow> nat \<Rightarrow> walk_verdict" where
  "verdict_at ops d now i = snd (watch_poll ops (boot_watches (dboard d) ! i) now)"

definition poll_from_ok ::
    "('i, 'v, 'b, 'w, 'f, 's) board_ops \<Rightarrow> nat \<Rightarrow> ('i, 'v, 'b, 'w, 'f, 's) platform_driver \<Rightarrow> u64 \<Rightarrow> nat
       \<Rightarrow> ('i, 'v, 'b, 'w, 'f, 's) platform_driver \<times> boot_walk_poll \<Rightarrow> bool" where
  "poll_from_ok ops N d now idx res =
     (case bwp_event (snd res) of
        None \<Rightarrow>
          watching (fst res) = watching d \<and>
          (\<forall>i. idx \<le> i \<and> i < N \<longrightarrow> watching d ! i \<longrightarrow> \<not> terminal (verdict_at ops d now i))
      | Some ev \<Rightarrow>
          (\<exists>i. idx \<le> i \<and> i < N \<and> watching d ! i \<and> watching (fst res) = (watching d)[i := False] \<and>
             walk_event (component_kinds (dboard d) ! i) i (verdict_at ops d now i) = Some ev \<and>
             (\<forall>j. idx \<le> j \<and> j < i \<longrightarrow> watching d ! j \<longrightarrow> \<not> terminal (verdict_at ops d now j))))"

lemma poll_from_extend:
  assumes idx: "idx < N" "watching d ! idx \<Longrightarrow> \<not> terminal (verdict_at ops d now idx)"
    and ok: "poll_from_ok ops N d1 now (Suc idx) res"
    and same: "watching d1 = watching d" "component_kinds (dboard d1) = component_kinds (dboard d)"
      "\<And>i. Suc idx \<le> i \<Longrightarrow> verdict_at ops d1 now i = verdict_at ops d now i"
  shows "poll_from_ok ops N d now idx res"
proof (cases "bwp_event (snd res)")
  case None
  then show ?thesis
    using ok same idx
    by (auto simp: poll_from_ok_def all_from_split [OF idx(1)])
next
  case (Some ev)
  then obtain i where i: "Suc idx \<le> i" "i < N" "watching d ! i" "watching (fst res) = (watching d)[i := False]"
      "walk_event (component_kinds (dboard d) ! i) i (verdict_at ops d now i) = Some ev"
      "\<forall>j. Suc idx \<le> j \<and> j < i \<longrightarrow> watching d ! j \<longrightarrow> \<not> terminal (verdict_at ops d now j)"
    using ok same by (auto simp: poll_from_ok_def)
  then have "idx < i" by simp
  then have "\<forall>j. idx \<le> j \<and> j < i \<longrightarrow> watching d ! j \<longrightarrow> \<not> terminal (verdict_at ops d now j)"
    using i(6) idx(2) by (simp add: all_from_split)
  with i Some show ?thesis by (auto simp: poll_from_ok_def intro!: exI [of _ i])
qed

lemma poll_walks_from_ok:
  assumes "driver_wf N d"
  shows "poll_from_ok ops N d now idx (poll_walks_from ops N d now idx nd)"
  using assms
proof (induction ops N d now idx nd rule: poll_walks_from.induct)
  case (1 ops N d now idx nd)
  show ?case
  proof (cases "idx < N \<and> watching d ! idx")
    case False
    show ?thesis
    proof (cases "idx < N")
      case True
      with False have nw: "\<not> watching d ! idx" by simp
      from True nw have "poll_walks_from ops N d now idx nd = poll_walks_from ops N d now (Suc idx) nd"
        by (subst poll_walks_from.simps) simp
      moreover have "poll_from_ok ops N d now (Suc idx) (poll_walks_from ops N d now (Suc idx) nd)"
        by (rule "1.IH"(1) [OF True nw "1.prems"])
      ultimately show ?thesis using True nw by (auto intro: poll_from_extend)
    next
      case False
      then show ?thesis by (subst poll_walks_from.simps) (auto simp: poll_from_ok_def)
    qed
  next
    case True
    obtain w v where p: "watch_poll ops (boot_watches (dboard d) ! idx) now = (w, v)"
      by (cases "watch_poll ops (boot_watches (dboard d) ! idx) now")
    define d1 where "d1 = d\<lparr>dboard := (dboard d)\<lparr>boot_watches := (boot_watches (dboard d))[idx := w]\<rparr>\<rparr>"
    have va: "verdict_at ops d now idx = v" by (simp add: verdict_at_def p)
    show ?thesis
    proof (cases v)
      case (WvWaiting dl)
      let ?nd = "Some (case nd of Some x \<Rightarrow> min x dl | None \<Rightarrow> dl)"
      have "poll_walks_from ops N d now idx nd = poll_walks_from ops N d1 now (Suc idx) ?nd"
        using True p WvWaiting by (subst poll_walks_from.simps) (simp add: d1_def Let_def)
      moreover have wf1: "driver_wf N d1" using "1.prems" by (simp add: driver_wf_def d1_def)
      have "poll_from_ok ops N d1 now (Suc idx) (poll_walks_from ops N d1 now (Suc idx) ?nd)"
        using "1.IH"(2) [OF _ _ p [symmetric] refl _ refl WvWaiting] True wf1 by (simp add: d1_def)
      then have "poll_from_ok ops N d now idx (poll_walks_from ops N d1 now (Suc idx) ?nd)"
        using True va WvWaiting
        by (intro poll_from_extend [of idx N d ops now d1]) (auto simp: d1_def verdict_at_def)
      ultimately show ?thesis by simp
    next
      case WvComplete
      then show ?thesis
        using True p va
        by (subst poll_walks_from.simps) (auto simp: poll_from_ok_def walk_event_def Let_def intro!: exI [of _ idx])
    next
      case (WvFailed cp cause)
      then show ?thesis
        using True p va
        by (subst poll_walks_from.simps) (auto simp: poll_from_ok_def walk_event_def Let_def intro!: exI [of _ idx])
    qed
  qed
qed

text \<open>
  Polling the boot walks reports the first finished one and forgets it. The event returned is
  that of the lowest-numbered watched component whose walk has a verdict (\<open>ComponentReady\<close> or
  \<open>Booted\<close> by kind, \<open>BootFailed\<close> with its checkpoint and cause); that component, and no other,
  stops being watched, so a verdict is delivered once; with no event, every watched walk is
  still waiting and the set of watched components is unchanged.
\<close>

theorem poll_reports_first_verdict:
  assumes "driver_wf N d"
  shows "(case bwp_event (snd (poll_boot_walks ops N d now)) of
      None \<Rightarrow>
        watching (fst (poll_boot_walks ops N d now)) = watching d \<and>
        (\<forall>i < N. watching d ! i \<longrightarrow> \<not> terminal (verdict_at ops d now i))
    | Some ev \<Rightarrow>
        (\<exists>i < N. watching d ! i \<and>
           watching (fst (poll_boot_walks ops N d now)) = (watching d)[i := False] \<and>
           walk_event (component_kinds (dboard d) ! i) i (verdict_at ops d now i) = Some ev \<and>
           (\<forall>j < i. watching d ! j \<longrightarrow> \<not> terminal (verdict_at ops d now j))))"
  using poll_walks_from_ok [OF assms, of ops now 0 None]
  by (auto simp: poll_boot_walks_def poll_from_ok_def split: option.splits)

definition demo_poll_ops :: "(unit, unit, bool, unit, unit, unit) board_ops" where
  "demo_poll_ops =
     \<lparr>image_open = (\<lambda>i. (i, Inr ())), verifier_verify = (\<lambda>v c i. (v, i, Inr Rejected)),
      hold_in_reset = (\<lambda>b. (True, Inr ())), release = (\<lambda>b. (False, Inr ())), watch_arm = id,
      watch_poll = (\<lambda>w t. (w, WvComplete)), floor_advance = (\<lambda>f s. (f, Inr ())), sink_report = (\<lambda>l r. l)\<rparr>"

definition demo_poll_driver :: "(unit, unit, bool, unit, unit, unit) platform_driver" where
  "demo_poll_driver =
     \<lparr>dboard = \<lparr>images = [(), ()], verifier = (), boot_controls = [True, True], boot_watches = [(), ()],
        component_kinds = [Passive, Active], svn_floors = [SelfManaged, SelfManaged], report_sink = ()\<rparr>,
      staged = None, watching = [False, True], verified_svn = [None, None]\<rparr>"

theorem poll_reports_first_verdict_witness:
  "bwp_event (snd (poll_boot_walks demo_poll_ops 2 demo_poll_driver 0)) = Some (ComponentReady 1) \<and>
   watching (fst (poll_boot_walks demo_poll_ops 2 demo_poll_driver 0)) = [False, False]"
proof -
  have wf: "driver_wf 2 demo_poll_driver" by (simp add: driver_wf_def demo_poll_driver_def)
  have ev: "verdict_at demo_poll_ops demo_poll_driver 0 i = WvComplete" "watching demo_poll_driver = [False, True]"
    "component_kinds (dboard demo_poll_driver) = [Passive, Active]" for i
    by (simp_all add: verdict_at_def demo_poll_ops_def demo_poll_driver_def)
  have less2: "i < 2 \<longleftrightarrow> i = 0 \<or> i = Suc 0" for i :: nat by auto
  show ?thesis
    using poll_reports_first_verdict [OF wf, of demo_poll_ops 0] ev
    by (auto simp: less2 walk_event_def split: option.splits)
qed

end
