(* ===== verification/Timer_Manager.thy ===== *)
theory Timer_Manager
  imports Sm_Model
begin

text \<open>
  The watchdogs of the orchestrator runtime: \<open>TimerManager\<close>
  (\<open>services/orchestrator/timer/src/lib.rs\<close>) multiplexes up to \<open>N\<close> boot watchdogs and one commit
  watchdog onto a single deadline; \<open>BootWatchdogs\<close> (\<open>services/orchestrator/server/src/runtime.rs\<close>)
  binds it to the kernel clock and to the events of the state machine. The instant type is any
  linear order, as in the source; the kernel clock is a parameter.
\<close>

section \<open>The manager\<close>

datatype 'id expired = Boot 'id | Commit

record ('t, 'id) boot_deadline =
  bd_id :: 'id
  bd_at :: 't

record ('t, 'id) timer_manager =
  boot :: "('t, 'id) boot_deadline list"
  commit :: "'t option"

definition tm_new :: "('t, 'id) timer_manager" where
  "tm_new = \<lparr>boot = [], commit = None\<rparr>"

definition arm_boot ::
    "nat \<Rightarrow> ('t, 'id) timer_manager \<Rightarrow> 'id \<Rightarrow> 't \<Rightarrow> ('t, 'id) timer_manager \<times> (unit, unit) result" where
  "arm_boot N tm cid deadline =
     (case position (\<lambda>d. bd_id d = cid) (boot tm) of
        Some i \<Rightarrow> (tm\<lparr>boot := (boot tm)[i := (boot tm ! i)\<lparr>bd_at := deadline\<rparr>]\<rparr>, Inr ())
      | None \<Rightarrow>
          (case push_cap N (boot tm) \<lparr>bd_id = cid, bd_at = deadline\<rparr> of
             Some b \<Rightarrow> (tm\<lparr>boot := b\<rparr>, Inr ())
           | None \<Rightarrow> (tm, Inl ())))"

definition cancel_boot :: "('t, 'id) timer_manager \<Rightarrow> 'id \<Rightarrow> ('t, 'id) timer_manager" where
  "cancel_boot tm cid =
     (case position (\<lambda>d. bd_id d = cid) (boot tm) of
        Some i \<Rightarrow> tm\<lparr>boot := swap_remove i (boot tm)\<rparr>
      | None \<Rightarrow> tm)"

definition arm_commit :: "('t, 'id) timer_manager \<Rightarrow> 't \<Rightarrow> ('t, 'id) timer_manager" where
  "arm_commit tm deadline = tm\<lparr>commit := Some deadline\<rparr>"

definition cancel_commit :: "('t, 'id) timer_manager \<Rightarrow> ('t, 'id) timer_manager" where
  "cancel_commit tm = tm\<lparr>commit := None\<rparr>"

text \<open>\<open>Iterator::min\<close>\<close>

definition iter_min :: "'t::linorder list \<Rightarrow> 't option" where
  "iter_min xs = (case xs of [] \<Rightarrow> None | y # ys \<Rightarrow> Some (foldl min y ys))"

definition next_deadline :: "('t::linorder, 'id) timer_manager \<Rightarrow> 't option" where
  "next_deadline tm =
     (let b = iter_min (map bd_at (boot tm)) in
      case (b, commit tm) of
        (Some x, Some c) \<Rightarrow> Some (min x c)
      | (Some x, None) \<Rightarrow> Some x
      | (None, c) \<Rightarrow> c)"

text \<open>
  \<open>enumerate().filter(at <= now).min_by(at)\<close>: the index of the first due entry with the least
  deadline (\<open>min_by\<close> keeps the first of equal minima).
\<close>

fun earliest_due :: "'t::linorder \<Rightarrow> nat \<Rightarrow> ('t, 'id) boot_deadline list \<Rightarrow> (nat \<times> ('t, 'id) boot_deadline) option" where
  "earliest_due now i [] = None"
| "earliest_due now i (d # ds) =
     (if bd_at d \<le> now then
        (case earliest_due now (Suc i) ds of
           Some (j, d') \<Rightarrow> if bd_at d' < bd_at d then Some (j, d') else Some (i, d)
         | None \<Rightarrow> Some (i, d))
      else earliest_due now (Suc i) ds)"

definition tm_poll :: "('t::linorder, 'id) timer_manager \<Rightarrow> 't \<Rightarrow> ('t, 'id) timer_manager \<times> 'id expired option" where
  "tm_poll tm now =
     (let earliest_boot = earliest_due now 0 (boot tm);
          commit_due = (case commit tm of Some c \<Rightarrow> if c \<le> now then Some c else None | None \<Rightarrow> None)
      in case (earliest_boot, commit_due) of
           (Some (i, d), Some c_at) \<Rightarrow>
             (if bd_at d \<le> c_at then (tm\<lparr>boot := swap_remove i (boot tm)\<rparr>, Some (Boot (bd_id d)))
              else (tm\<lparr>commit := None\<rparr>, Some Commit))
         | (None, Some _) \<Rightarrow> (tm\<lparr>commit := None\<rparr>, Some Commit)
         | (Some (i, d), None) \<Rightarrow> (tm\<lparr>boot := swap_remove i (boot tm)\<rparr>, Some (Boot (bd_id d)))
         | (None, None) \<Rightarrow> (tm, None))"

section \<open>The kernel-clock binding\<close>

text \<open>
  \<open>userspace::time\<close> is kernel code: the reading \<open>now\<close> of the clock, \<open>Instant::checked_add_duration\<close>
  and \<open>Instant::MAX\<close> are parameters. \<open>deadline_in\<close> is
  \<open>now.checked_add_duration(after).unwrap_or(Instant::MAX)\<close>.
\<close>

definition deadline_in :: "('i \<Rightarrow> 'd \<Rightarrow> 'i option) \<Rightarrow> 'i \<Rightarrow> 'i \<Rightarrow> 'd \<Rightarrow> 'i" where
  "deadline_in checked_add_duration instant_max now after =
     (case checked_add_duration now after of Some d \<Rightarrow> d | None \<Rightarrow> instant_max)"

definition watchdog_arm_boot ::
    "('i \<Rightarrow> 'd \<Rightarrow> 'i option) \<Rightarrow> 'i \<Rightarrow> nat \<Rightarrow> 'i \<Rightarrow> ('i, component_id) timer_manager \<Rightarrow> component_id \<Rightarrow> 'd
       \<Rightarrow> ('i, component_id) timer_manager \<times> (unit, unit) result" where
  "watchdog_arm_boot cad imax N now tm cid after = arm_boot N tm cid (deadline_in cad imax now after)"

definition watchdog_arm_commit ::
    "('i \<Rightarrow> 'd \<Rightarrow> 'i option) \<Rightarrow> 'i \<Rightarrow> 'i \<Rightarrow> ('i, component_id) timer_manager \<Rightarrow> 'd \<Rightarrow> ('i, component_id) timer_manager" where
  "watchdog_arm_commit cad imax now tm after = arm_commit tm (deadline_in cad imax now after)"

definition wait_deadline :: "'i::linorder \<Rightarrow> ('i, component_id) timer_manager \<Rightarrow> 'i" where
  "wait_deadline imax tm = (case next_deadline tm of Some d \<Rightarrow> d | None \<Rightarrow> imax)"

definition expired_event :: "component_id expired \<Rightarrow> event" where
  "expired_event x = (case x of Boot cid \<Rightarrow> Timeout cid | Commit \<Rightarrow> CommitTimeout)"

definition poll_expired ::
    "'i::linorder \<Rightarrow> ('i, component_id) timer_manager \<Rightarrow> ('i, component_id) timer_manager \<times> event option" where
  "poll_expired now tm = (let (tm1, e) = tm_poll tm now in (tm1, map_option expired_event e))"

section \<open>The manager as a table of deadlines\<close>

definition tm_wf :: "nat \<Rightarrow> ('t, 'id) timer_manager \<Rightarrow> bool" where
  "tm_wf N tm \<longleftrightarrow> distinct (map bd_id (boot tm)) \<and> length (boot tm) \<le> N"

definition armed :: "('t, 'id) timer_manager \<Rightarrow> 'id \<Rightarrow> 't option" where
  "armed tm c = map_option bd_at (find (\<lambda>d. bd_id d = c) (boot tm))"

lemma armed_iff:
  assumes "distinct (map bd_id (boot tm))"
  shows "armed tm c = Some t \<longleftrightarrow> (\<exists>d \<in> set (boot tm). bd_id d = c \<and> bd_at d = t)"
proof
  assume "armed tm c = Some t"
  then show "\<exists>d \<in> set (boot tm). bd_id d = c \<and> bd_at d = t"
    by (auto simp: armed_def find_Some_iff intro!: bexI nth_mem)
next
  assume "\<exists>d \<in> set (boot tm). bd_id d = c \<and> bd_at d = t"
  then obtain i where i: "i < length (boot tm)" "bd_id (boot tm ! i) = c" "bd_at (boot tm ! i) = t"
    by (auto simp: in_set_conv_nth)
  from position_distinct [OF assms i(1)] i show "armed tm c = Some t"
    by (simp add: armed_def find_position)
qed

lemma armed_None_iff: "armed tm c = None \<longleftrightarrow> c \<notin> bd_id ` set (boot tm)"
  by (auto simp: armed_def find_None_iff)

lemma option_fun_eqI: "(\<And>c t. f c = Some t \<longleftrightarrow> g c = Some t) \<Longrightarrow> f = g"
  by (rule ext) (metis not_None_eq)

lemma swap_remove_armed:
  assumes wf: "tm_wf N tm" and i: "i < length (boot tm)"
  defines "tm' \<equiv> tm\<lparr>boot := swap_remove i (boot tm)\<rparr>"
  shows "tm_wf N tm'" "armed tm' = (armed tm)(bd_id (boot tm ! i) := None)"
proof -
  have ms: "mset (boot tm) = add_mset (boot tm ! i) (mset (swap_remove i (boot tm)))"
    by (rule mset_swap_remove [OF i])
  then have "mset (map bd_id (boot tm)) = add_mset (bd_id (boot tm ! i)) (mset (map bd_id (swap_remove i (boot tm))))"
    by simp
  moreover have "distinct (map bd_id (boot tm))" using wf by (simp add: tm_wf_def)
  ultimately have d': "distinct (map bd_id (swap_remove i (boot tm)))"
    and fresh: "bd_id (boot tm ! i) \<notin> bd_id ` set (swap_remove i (boot tm))"
    by (metis distinct.simps(2) mset.simps(2) mset_eq_imp_distinct_iff set_map)+
  then show "tm_wf N tm'" using wf by (auto simp: tm_wf_def tm'_def)
  have fresh': "bd_id d \<noteq> bd_id (boot tm ! i)" if "d \<in> set (swap_remove i (boot tm))" for d
    using fresh that by (metis imageI)
  have set: "set (boot tm) = insert (boot tm ! i) (set (swap_remove i (boot tm)))"
    using ms by (metis set_mset_mset set_mset_add_mset_insert)
  show "armed tm' = (armed tm)(bd_id (boot tm ! i) := None)"
  proof (rule option_fun_eqI)
    fix c t
    show "armed tm' c = Some t \<longleftrightarrow> ((armed tm)(bd_id (boot tm ! i) := None)) c = Some t"
      using wf d' set fresh' by (auto simp: tm_wf_def tm'_def armed_iff)
  qed
qed

text \<open>
  The boot watchdogs behave as a bounded table from components to deadlines. Arming sets the
  component's one deadline (a re-arm replaces it), and is refused exactly when the component is
  new and \<open>N\<close> are armed, leaving the table unchanged; cancelling removes it and only it. The
  table never holds two deadlines for a component nor more than \<open>N\<close> entries.
\<close>

theorem watchdog_table:
  assumes "tm_wf N tm"
  shows "tm_wf N (fst (arm_boot N tm c t)) \<and> tm_wf N (cancel_boot tm c) \<and>
    armed (cancel_boot tm c) = (armed tm)(c := None) \<and>
    (case arm_boot N tm c t of
       (tm', Inr _) \<Rightarrow> armed tm' = (armed tm)(c \<mapsto> t)
     | (tm', Inl _) \<Rightarrow> tm' = tm \<and> armed tm c = None \<and> length (boot tm) = N)"
proof -
  have dist: "distinct (map bd_id (boot tm))" and len: "length (boot tm) \<le> N" using assms by (auto simp: tm_wf_def)
  have cancel: "tm_wf N (cancel_boot tm c) \<and> armed (cancel_boot tm c) = (armed tm)(c := None)"
  proof (cases "position (\<lambda>d. bd_id d = c) (boot tm)")
    case None
    then have "armed tm c = None" by (auto simp: position_None_iff armed_None_iff)
    with None assms show ?thesis by (auto simp: cancel_boot_def fun_upd_idem)
  next
    case (Some i)
    then have "i < length (boot tm)" "bd_id (boot tm ! i) = c" by (auto dest: position_SomeD)
    with Some swap_remove_armed [OF assms this(1)] show ?thesis by (simp add: cancel_boot_def)
  qed
  have arm: "tm_wf N (fst (arm_boot N tm c t)) \<and> (case arm_boot N tm c t of
       (tm', Inr _) \<Rightarrow> armed tm' = (armed tm)(c \<mapsto> t)
     | (tm', Inl _) \<Rightarrow> tm' = tm \<and> armed tm c = None \<and> length (boot tm) = N)"
  proof (cases "position (\<lambda>d. bd_id d = c) (boot tm)")
    case None
    then have fresh: "c \<notin> bd_id ` set (boot tm)" by (auto simp: position_None_iff)
    show ?thesis
    proof (cases "length (boot tm) < N")
      case True
      have "armed (tm\<lparr>boot := boot tm @ [\<lparr>bd_id = c, bd_at = t\<rparr>]\<rparr>) = (armed tm)(c \<mapsto> t)"
        using dist fresh by (intro option_fun_eqI) (auto simp: armed_iff)
      with True None fresh dist show ?thesis by (auto simp: arm_boot_def push_cap_def tm_wf_def)
    next
      case False
      with None fresh len assms show ?thesis by (auto simp: arm_boot_def push_cap_def armed_None_iff)
    qed
  next
    case (Some i)
    then have i: "i < length (boot tm)" "bd_id (boot tm ! i) = c" by (auto dest: position_SomeD)
    let ?b = "(boot tm)[i := (boot tm ! i)\<lparr>bd_at := t\<rparr>]"
    have ids: "map bd_id ?b = map bd_id (boot tm)" using i by (simp add: map_update list_update_same_conv)
    have eq: "armed (tm\<lparr>boot := ?b\<rparr>) = (armed tm)(c \<mapsto> t)"
    proof (rule ext)
      fix x
      have pos: "position (\<lambda>d. bd_id d = x) ?b = position (\<lambda>d. bd_id d = x) (boot tm)"
        using ids by (rule position_map_cong)
      have "position (\<lambda>d. bd_id d = x) (boot tm) = Some j \<Longrightarrow> x \<noteq> c \<Longrightarrow> j \<noteq> i" for j
        using i(2) by (auto dest: position_SomeD)
      then show "armed (tm\<lparr>boot := ?b\<rparr>) x = ((armed tm)(c \<mapsto> t)) x"
        using Some i by (cases "position (\<lambda>d. bd_id d = x) (boot tm)") (auto simp: armed_def find_position pos)
    qed
    show ?thesis
      using Some eq ids assms by (simp add: arm_boot_def tm_wf_def)
  qed
  show ?thesis using cancel arm by simp
qed


section \<open>Expiry\<close>

lemma earliest_due_None: "earliest_due now i ds = None \<longleftrightarrow> (\<forall>d \<in> set ds. \<not> bd_at d \<le> now)"
  by (induction ds arbitrary: i) (auto split: option.splits)

lemma earliest_due_SomeD:
  "earliest_due now i ds = Some (j, d) \<Longrightarrow>
     i \<le> j \<and> j - i < length ds \<and> ds ! (j - i) = d \<and> bd_at d \<le> now \<and>
     (\<forall>d' \<in> set ds. bd_at d' \<le> now \<longrightarrow> bd_at d \<le> bd_at d')"
proof (induction ds arbitrary: i j d)
  case (Cons x ds)
  show ?case
  proof (cases "earliest_due now (Suc i) ds")
    case None
    then have "\<forall>d \<in> set ds. \<not> bd_at d \<le> now" by (simp add: earliest_due_None)
    with None Cons.prems show ?thesis by (auto split: if_splits)
  next
    case (Some r)
    obtain k y where r: "r = (k, y)" by (cases r)
    from Cons.IH [of "Suc i" k y] Some r
    have ih: "Suc i \<le> k" "k - Suc i < length ds" "ds ! (k - Suc i) = y" "bd_at y \<le> now"
      "\<forall>d' \<in> set ds. bd_at d' \<le> now \<longrightarrow> bd_at y \<le> bd_at d'" by auto
    then have "(x # ds) ! (k - i) = y" "k - i < length (x # ds)" by (auto simp: nth_Cons')
    with ih Cons.prems Some r show ?thesis
      by (auto split: if_splits)
  qed
qed simp

definition commit_due :: "('t::linorder, 'id) timer_manager \<Rightarrow> 't \<Rightarrow> 't option" where
  "commit_due tm now = (case commit tm of Some c \<Rightarrow> if c \<le> now then Some c else None | None \<Rightarrow> None)"

lemma poll_spec:
  assumes "tm_wf N tm"
  shows "tm_wf N (fst (tm_poll tm now)) \<and>
    (case tm_poll tm now of
       (tm', Some (Boot c)) \<Rightarrow>
         (\<exists>t. armed tm c = Some t \<and> t \<le> now \<and>
            (\<forall>d u. armed tm d = Some u \<longrightarrow> u \<le> now \<longrightarrow> t \<le> u) \<and>
            (\<forall>u. commit_due tm now = Some u \<longrightarrow> t \<le> u)) \<and>
         armed tm' = (armed tm)(c := None) \<and> commit tm' = commit tm
     | (tm', Some Commit) \<Rightarrow>
         (\<exists>u. commit_due tm now = Some u \<and> (\<forall>d t. armed tm d = Some t \<longrightarrow> t \<le> now \<longrightarrow> u < t)) \<and>
         armed tm' = armed tm \<and> commit tm' = None
     | (tm', None) \<Rightarrow> tm' = tm \<and> commit_due tm now = None \<and> (\<forall>d t. armed tm d = Some t \<longrightarrow> now < t))"
proof -
  have dist: "distinct (map bd_id (boot tm))" using assms by (simp add: tm_wf_def)
  have cd: "(case commit tm of Some c \<Rightarrow> if c \<le> now then Some c else None | None \<Rightarrow> None) = commit_due tm now"
    by (simp add: commit_due_def)
  have same: "armed (tm\<lparr>commit := None\<rparr>) = armed tm" "tm_wf N (tm\<lparr>commit := None\<rparr>)"
    using assms by (auto simp: armed_def tm_wf_def fun_eq_iff)
  show ?thesis
  proof (cases "earliest_due now 0 (boot tm)")
    case None
    then have none: "\<forall>d t. armed tm d = Some t \<longrightarrow> now < t"
      by (auto simp: earliest_due_None armed_iff [OF dist] not_le)
    then have "\<forall>d t. armed tm d = Some t \<longrightarrow> \<not> t \<le> now" by (auto simp: not_le)
    with None none same assms show ?thesis
      unfolding tm_poll_def Let_def cd by (cases "commit_due tm now") auto
  next
    case (Some r)
    obtain i d where r: "earliest_due now 0 (boot tm) = Some (i, d)" using Some by (cases r) auto
    note e = earliest_due_SomeD [OF r]
    then have i: "i < length (boot tm)" "boot tm ! i = d" by auto
    have arm: "armed tm (bd_id d) = Some (bd_at d)" using i by (auto simp: armed_iff [OF dist])
    have least: "\<forall>c u. armed tm c = Some u \<longrightarrow> u \<le> now \<longrightarrow> bd_at d \<le> u"
      using e by (auto simp: armed_iff [OF dist])
    note sr = swap_remove_armed [OF assms i(1), unfolded i(2)]
    show ?thesis
    proof (cases "commit_due tm now")
      case None
      with r sr arm least e show ?thesis
        unfolding tm_poll_def Let_def cd by auto
    next
      case (Some u)
      show ?thesis
      proof (cases "bd_at d \<le> u")
        case True
        with Some r sr arm least e show ?thesis unfolding tm_poll_def Let_def cd by auto
      next
        case False
        with least have "\<forall>c t. armed tm c = Some t \<longrightarrow> t \<le> now \<longrightarrow> u < t" by force
        with False Some r same show ?thesis unfolding tm_poll_def Let_def cd by auto
      qed
    qed
  qed
qed


text \<open>
  A poll pops the earliest due watchdog. It reports a boot watchdog only if that component's
  deadline has passed and no due deadline, boot or commit, is earlier (a boot watchdog wins a
  tie with the commit one); it reports the commit watchdog only if it is due and every due boot
  deadline is later; it reports nothing only if nothing is due. The reported watchdog is
  disarmed and every other one is untouched.
\<close>

theorem poll_pops_earliest:
  assumes "tm_wf N tm"
  shows "tm_wf N (fst (tm_poll tm now)) \<and>
    (case tm_poll tm now of
       (tm', Some (Boot c)) \<Rightarrow>
         (\<exists>t. armed tm c = Some t \<and> t \<le> now \<and>
            (\<forall>d u. armed tm d = Some u \<longrightarrow> u \<le> now \<longrightarrow> t \<le> u) \<and>
            (\<forall>u. commit_due tm now = Some u \<longrightarrow> t \<le> u)) \<and>
         armed tm' = (armed tm)(c := None) \<and> commit tm' = commit tm
     | (tm', Some Commit) \<Rightarrow>
         (\<exists>u. commit_due tm now = Some u \<and> (\<forall>d t. armed tm d = Some t \<longrightarrow> t \<le> now \<longrightarrow> u < t)) \<and>
         armed tm' = armed tm \<and> commit tm' = None
     | (tm', None) \<Rightarrow> tm' = tm \<and> commit_due tm now = None \<and> (\<forall>d t. armed tm d = Some t \<longrightarrow> now < t))"
  by (rule poll_spec [OF assms])

theorem poll_pops_earliest_witness:
  "\<exists>tm'. tm_poll \<lparr>boot = [\<lparr>bd_id = 1 :: u8, bd_at = 30 :: nat\<rparr>, \<lparr>bd_id = 2, bd_at = 20\<rparr>], commit = Some 20\<rparr> 25 =
     (tm', Some (Boot 2)) \<and> armed tm' = (armed
       \<lparr>boot = [\<lparr>bd_id = 1 :: u8, bd_at = 30 :: nat\<rparr>, \<lparr>bd_id = 2, bd_at = 20\<rparr>], commit = Some 20\<rparr>)(2 := None)"
proof -
  let ?tm = "\<lparr>boot = [\<lparr>bd_id = 1 :: u8, bd_at = 30 :: nat\<rparr>, \<lparr>bd_id = 2, bd_at = 20\<rparr>], commit = Some 20\<rparr>"
  have "tm_wf 2 ?tm" by (simp add: tm_wf_def)
  moreover have "snd (tm_poll ?tm 25) = Some (Boot 2)" by (simp add: tm_poll_def)
  ultimately show ?thesis using poll_pops_earliest [of 2 ?tm 25] by (cases "tm_poll ?tm 25") simp
qed

theorem watchdog_table_witness:
  "armed (cancel_boot \<lparr>boot = [\<lparr>bd_id = 1 :: u8, bd_at = 30 :: nat\<rparr>], commit = None\<rparr> 1) =
     (armed \<lparr>boot = [\<lparr>bd_id = 1 :: u8, bd_at = 30 :: nat\<rparr>], commit = None\<rparr>)(1 := None)"
  using watchdog_table [of 1 "\<lparr>boot = [\<lparr>bd_id = 1 :: u8, bd_at = 30 :: nat\<rparr>], commit = None\<rparr>" 1]
  by (simp add: tm_wf_def)

text \<open>The earliest armed deadline, as the least element of all of them.\<close>

definition deadlines :: "('t, 'id) timer_manager \<Rightarrow> 't list" where
  "deadlines tm = map bd_at (boot tm) @ (case commit tm of Some c \<Rightarrow> [c] | None \<Rightarrow> [])"

lemma foldl_min:
  "foldl min (y :: 't::linorder) ys \<in> insert y (set ys) \<and> (\<forall>x \<in> insert y (set ys). foldl min y ys \<le> x)"
proof (induction ys arbitrary: y)
  case (Cons a ys)
  from Cons [of "min y a"] show ?case by (auto simp: min_def split: if_splits)
qed simp

lemma iter_min_SomeD: "iter_min xs = Some m \<Longrightarrow> m \<in> set xs \<and> (\<forall>x \<in> set xs. m \<le> x)"
  using foldl_min by (cases xs) (auto simp: iter_min_def)

lemma iter_min_None: "iter_min xs = None \<longleftrightarrow> xs = []"
  by (cases xs) (auto simp: iter_min_def)

lemma next_deadline_least:
  "case next_deadline tm of
     None \<Rightarrow> deadlines tm = []
   | Some d \<Rightarrow> d \<in> set (deadlines tm) \<and> (\<forall>x \<in> set (deadlines tm). d \<le> x)"
proof (cases "iter_min (map bd_at (boot tm))")
  case None
  then have "boot tm = []" by (simp add: iter_min_None)
  then show ?thesis by (cases "commit tm") (auto simp: next_deadline_def deadlines_def iter_min_def)
next
  case (Some m)
  from iter_min_SomeD [OF this] Some show ?thesis
    by (cases "commit tm") (auto simp: next_deadline_def deadlines_def min_def intro: order_trans)
qed

lemma poll_None_iff:
  assumes "tm_wf N tm"
  shows "snd (tm_poll tm now) = None \<longleftrightarrow> (\<forall>x \<in> set (deadlines tm). now < x)"
proof -
  have "earliest_due now 0 (boot tm) = None \<longleftrightarrow> (\<forall>d \<in> set (boot tm). now < bd_at d)"
    by (auto simp: earliest_due_None not_le)
  then show ?thesis
    by (cases "earliest_due now 0 (boot tm)"; cases "commit tm")
      (auto simp: tm_poll_def deadlines_def not_le split: if_splits)
qed

text \<open>
  The wait deadline is exact. The single deadline handed to the kernel is the earliest of all
  armed watchdogs (none when nothing is armed), and a poll at time \<open>now\<close> finds a watchdog to
  report exactly when that deadline has been reached: the runtime neither sleeps past a
  watchdog nor wakes for nothing.
\<close>

theorem wait_deadline_exact:
  assumes "tm_wf N tm"
  shows "(next_deadline tm = None \<longleftrightarrow> boot tm = [] \<and> commit tm = None) \<and>
    (snd (tm_poll tm now) \<noteq> None \<longleftrightarrow> (\<exists>d. next_deadline tm = Some d \<and> d \<le> now))"
proof -
  have "next_deadline tm = None \<longleftrightarrow> deadlines tm = []"
    using next_deadline_least [of tm] by (cases "next_deadline tm") auto
  moreover have "deadlines tm = [] \<longleftrightarrow> boot tm = [] \<and> commit tm = None"
    by (cases "commit tm") (auto simp: deadlines_def)
  moreover have "(\<exists>x \<in> set (deadlines tm). x \<le> now) \<longleftrightarrow> (\<exists>d. next_deadline tm = Some d \<and> d \<le> now)"
    using next_deadline_least [of tm] by (cases "next_deadline tm") (auto intro: order_trans)
  ultimately show ?thesis by (auto simp: poll_None_iff [OF assms] not_less)
qed

theorem wait_deadline_exact_witness:
  "(snd (tm_poll \<lparr>boot = [\<lparr>bd_id = 1 :: u8, bd_at = 30 :: nat\<rparr>], commit = Some 40\<rparr> 35) \<noteq> None \<longleftrightarrow>
    (\<exists>d. next_deadline \<lparr>boot = [\<lparr>bd_id = 1 :: u8, bd_at = 30 :: nat\<rparr>], commit = Some 40\<rparr> = Some d \<and> d \<le> 35))"
  using wait_deadline_exact [of 1 "\<lparr>boot = [\<lparr>bd_id = 1 :: u8, bd_at = 30 :: nat\<rparr>], commit = Some 40\<rparr>" 35]
  by (simp add: tm_wf_def)

section \<open>Draining\<close>

text \<open>
  The runtime's loop after a wake-up: \<open>poll_expired\<close> until it answers \<open>None\<close>. Every successful
  poll disarms one watchdog, so the loop ends.
\<close>

definition tm_count :: "('t, 'id) timer_manager \<Rightarrow> nat" where
  "tm_count tm = length (boot tm) + (if commit tm = None then 0 else 1)"

lemma poll_count:
  assumes "tm_poll tm now = (tm', Some e)"
  shows "tm_count tm' < tm_count tm"
proof (cases "earliest_due now 0 (boot tm)")
  case None
  then show ?thesis using assms by (auto simp: tm_poll_def tm_count_def split: option.splits if_splits)
next
  case (Some r)
  obtain i d where r: "earliest_due now 0 (boot tm) = Some (i, d)" using Some by (cases r) auto
  then have "boot tm \<noteq> []" by auto
  with r assms show ?thesis
    by (auto simp: tm_poll_def tm_count_def split: option.splits if_splits)
qed

function tm_drain :: "('t::linorder, 'id) timer_manager \<Rightarrow> 't \<Rightarrow> ('t, 'id) timer_manager \<times> 'id expired list" where
  "tm_drain tm now =
     (case tm_poll tm now of
        (tm', None) \<Rightarrow> (tm', [])
      | (tm', Some e) \<Rightarrow> (let (tm2, es) = tm_drain tm' now in (tm2, e # es)))"
  by pat_completeness auto
termination by (relation "measure (\<lambda>(tm, now). tm_count tm)") (auto dest: sym intro: poll_count)

declare tm_drain.simps [simp del]

definition due :: "('t::linorder, 'id) timer_manager \<Rightarrow> 't \<Rightarrow> 'id expired \<Rightarrow> bool" where
  "due tm now e =
     (case e of
        Boot c \<Rightarrow> (\<exists>t. armed tm c = Some t \<and> t \<le> now)
      | Commit \<Rightarrow> commit_due tm now \<noteq> None)"


lemma due_after_poll:
  assumes "tm_wf N tm" "tm_poll tm now = (tm', Some e)"
  shows "due tm now e" "due tm' now x \<longleftrightarrow> due tm now x \<and> x \<noteq> e"
  using poll_spec [OF assms(1), of now] assms(2)
  by (cases e; cases x; auto simp: due_def commit_due_def split: option.splits if_splits)+

text \<open>
  Draining reports every watchdog that is due, exactly once. Polling in a loop until nothing
  is reported terminates, its reports are exactly the boot and commit watchdogs whose deadline
  has passed, without duplicates, and nothing due is left armed.
\<close>

theorem drain_reports_all_due:
  assumes "tm_wf N tm"
  shows "distinct (snd (tm_drain tm now)) \<and> set (snd (tm_drain tm now)) = {e. due tm now e} \<and>
    (\<forall>e. \<not> due (fst (tm_drain tm now)) now e)"
  using assms
proof (induction tm now rule: tm_drain.induct)
  case (1 tm now)
  obtain tm1 r where p: "tm_poll tm now = (tm1, r)" by (cases "tm_poll tm now")
  show ?case
  proof (cases r)
    case None
    with poll_spec [OF "1.prems", of now] p have "\<not> due tm now e" for e
      by (cases e) (auto simp: due_def not_le [symmetric])
    moreover have "tm1 = tm" using poll_spec [OF "1.prems", of now] p None by simp
    ultimately show ?thesis using p None by (subst (1 2 3) tm_drain.simps) simp
  next
    case (Some e)
    have wf1: "tm_wf N tm1" using poll_spec [OF "1.prems", of now] p by simp
    from "1.IH" [OF p [symmetric] Some wf1]
    have ih: "distinct (snd (tm_drain tm1 now))" "set (snd (tm_drain tm1 now)) = {e. due tm1 now e}"
      "\<forall>e. \<not> due (fst (tm_drain tm1 now)) now e" by auto
    note d = due_after_poll [OF "1.prems", of now tm1 e]
    have "tm_drain tm now = (fst (tm_drain tm1 now), e # snd (tm_drain tm1 now))"
      using p Some by (subst tm_drain.simps) (simp add: split_beta)
    moreover have "{x. due tm now x} = insert e {x. due tm1 now x}" "\<not> due tm1 now e"
      using d p Some by auto
    ultimately show ?thesis using ih by simp
  qed
qed

theorem drain_reports_all_due_witness:
  "set (snd (tm_drain \<lparr>boot = [\<lparr>bd_id = 1 :: u8, bd_at = 30 :: nat\<rparr>], commit = Some 20\<rparr> 35)) =
     {e. due \<lparr>boot = [\<lparr>bd_id = 1 :: u8, bd_at = 30 :: nat\<rparr>], commit = Some 20\<rparr> 35 e}"
  using drain_reports_all_due [of 1 "\<lparr>boot = [\<lparr>bd_id = 1 :: u8, bd_at = 30 :: nat\<rparr>], commit = Some 20\<rparr>" 35]
  by (simp add: tm_wf_def)

end
