(* ===== verification/Orchestrator_System.thy ===== *)
theory Orchestrator_System
  imports Platform_Driver Timer_Manager
begin

text \<open>
  The orchestrator as a system: the state machine dispatching into the platform driver. The
  driver's executor satisfies the contract under which a dispatch terminates, and a board of passive
  components whose images verify is brought to \<open>Ready\<close> by a single power-good event.
\<close>

text \<open>
  A dispatch into the platform driver returns. From every state the machine reaches, for every
  event and every board, the event loop of the orchestrator terminates.
\<close>

theorem driver_dispatch_terminates:
  assumes "chain_ok ch" "length ch \<le> N"
  shows "\<exists>orc' d' failed. dispatch_with N E (execute ops)
    (fst (run (step N) (orchestrator_new ch mr) evs)) d ev = Some (orc', d', failed)"
  using dispatch_returns_verify [OF verify_only_execute sm.run_inv [OF orc_inv_new(1) [OF assms]]] by auto

theorem driver_dispatch_terminates_witness:
  "\<exists>orc' d' failed. dispatch_with 3 8 (execute demo_poll_ops)
    (fst (run (step 3) (orchestrator_new demo_chain 2) [])) demo_poll_driver (PowerGood Provisioned) =
      Some (orc', d', failed)"
  by (rule driver_dispatch_terminates [OF demo_chain_ok]) (simp add: demo_chain_def)

section \<open>Boot of a healthy board\<close>

text \<open>A board on which images open, verify as authentic, and reset lines release.\<close>

definition healthy :: "('i, 'v, 'b, 'w, 'f, 's) board_ops \<Rightarrow> bool" where
  "healthy ops \<longleftrightarrow>
     (\<forall>i. snd (image_open ops i) = Inr ()) \<and>
     (\<forall>v c i. \<exists>s. snd (snd (verifier_verify ops v c i)) = Inr (Authenticated s)) \<and>
     (\<forall>b. snd (release ops b) = Inr ())"

lemma healthy_release:
  assumes "healthy ops" "driver_wf M d" "unat c < M"
  shows "\<exists>d'. execute ops d (ReleaseReset c) = (d', Inr None) \<and> driver_wf M d' \<and>
    watching d' = (watching d)[unat c := True]"
proof -
  obtain bc where r: "release ops (boot_controls (dboard d) ! unat c) = (bc, Inr ())"
    using assms(1) by (metis healthy_def prod.collapse)
  have "execute ops d (ReleaseReset c) = (fst (execute ops d (ReleaseReset c)), Inr None)"
    "watching (fst (execute ops d (ReleaseReset c))) = (watching d)[unat c := True]"
    using assms(2,3) r by (auto simp: execute_def no_event_def release_reset_def driver_wf_def Let_def)
  with execute_wf [OF assms(2), of ops "ReleaseReset c"] show ?thesis by metis
qed

lemma healthy_verify:
  assumes "healthy ops" "driver_wf M d" "unat c < M"
  shows "\<exists>d1 d2. execute ops d (ReadFirmware c) = (d1, Inr None) \<and>
    execute ops d1 (VerifyFirmware c) = (d2, Inr (Some (VerificationPassed c))) \<and>
    driver_wf M d2 \<and> watching d2 = watching d"
proof -
  obtain img where i: "image_open ops (images (dboard d) ! unat c) = (img, Inr ())"
    using assms(1) by (metis healthy_def prod.collapse)
  have len: "unat c < length (images (dboard d))" using assms(2,3) by (simp add: driver_wf_def)
  define d1 where "d1 = fst (execute ops d (ReadFirmware c))"
  have e1: "execute ops d (ReadFirmware c) = (d1, Inr None)" and st: "staged d1 = Some c"
    "watching d1 = watching d"
    using len i by (auto simp: d1_def execute_def no_event_def stage_firmware_def Let_def)
  have wf1: "driver_wf M d1" unfolding d1_def by (rule execute_wf [OF assms(2)])
  then have len1: "unat c < length (images (dboard d1))" using assms(3) by (simp add: driver_wf_def)
  obtain v img' s where v: "verifier_verify ops (verifier (dboard d1)) c (images (dboard d1) ! unat c) = (v, img', Inr (Authenticated s))"
    using assms(1) by (metis healthy_def prod.collapse)
  define d2 where "d2 = fst (execute ops d1 (VerifyFirmware c))"
  have "execute ops d1 (VerifyFirmware c) = (d2, Inr (Some (VerificationPassed c)))" "watching d2 = watching d1"
    using len1 st v by (auto simp: d2_def execute_def verify_firmware_def Let_def)
  moreover have "driver_wf M d2" unfolding d2_def by (rule execute_wf [OF wf1])
  ultimately show ?thesis using e1 st by auto
qed

lemma stage_dispatch:
  assumes h: "healthy ops" and E: "3 \<le> E"
    and "at_stage N orc k" "driver_wf M d" "\<forall>c \<in> set (map fst (chain (orot orc))). unat c < M"
  defines "cs \<equiv> map fst (chain (orot orc))"
  shows "\<exists>orc' d'. dispatch_loop N E (execute ops) orc d [VerificationPassed (cs ! k)] False = Some (orc', d', False) \<and>
    ostate orc' = Ready \<and> driver_wf M d' \<and>
    (\<forall>c. is_released (orot orc') c \<longleftrightarrow> is_released (orot orc) c \<or> c \<in> set (drop k cs)) \<and>
    (\<forall>c \<in> set (drop k cs). watching d' ! unat c) \<and> (\<forall>i. watching d ! i \<and> i < M \<longrightarrow> watching d' ! i)"
  using assms(3-5) unfolding cs_def
proof (induction "length (chain (orot orc)) - k" arbitrary: orc d k)
  case 0
  then show ?case by (simp add: at_stage_def)
next
  case (Suc n)
  let ?ch = "chain (orot orc)"
  let ?cs = "map fst ?ch"
  let ?ev = "VerificationPassed (?cs ! k)"
  have k: "k < length ?ch" using Suc.prems(1) by (simp add: at_stage_def)
  then have ev: "?ev = VerificationPassed (fst (?ch ! k))" by simp
  have drop: "drop k ?cs = ?cs ! k # drop (Suc k) ?cs" using k by (intro Cons_nth_drop_Suc [symmetric]) simp
  have ck: "unat (?cs ! k) < M" using Suc.prems(3) k by simp
  obtain orc1 es1 where s: "step N orc ?ev = (orc1, es1)" by (cases "step N orc ?ev")
  note st = stage_step [OF Suc.prems(1), folded ev, unfolded s fst_conv snd_conv]
  obtain d1 where rel: "execute ops d (ReleaseReset (?cs ! k)) = (d1, Inr None)" "driver_wf M d1"
      "watching d1 = (watching d)[unat (?cs ! k) := True]"
    using healthy_release [OF h Suc.prems(2) ck] by blast
  have w1: "watching d1 ! unat (?cs ! k)" "\<forall>i. watching d ! i \<and> i < M \<longrightarrow> watching d1 ! i"
    using rel Suc.prems(2) ck by (auto simp: driver_wf_def nth_list_update)
  show ?case
  proof (cases "Suc k < length ?ch")
    case True
    have ck1: "unat (?cs ! Suc k) < M" using Suc.prems(3) True by simp
    obtain d2 d3 where ver: "execute ops d1 (ReadFirmware (?cs ! Suc k)) = (d2, Inr None)"
        "execute ops d2 (VerifyFirmware (?cs ! Suc k)) = (d3, Inr (Some (VerificationPassed (?cs ! Suc k))))"
        "driver_wf M d3" "watching d3 = watching d1"
      using healthy_verify [OF h rel(2) ck1] by blast
    have es: "es1 = [ReleaseReset (?cs ! k), ReadFirmware (?cs ! Suc k), VerifyFirmware (?cs ! Suc k)]"
      and stage1: "at_stage N orc1 (Suc k)" and ch1: "chain (orot orc1) = ?ch"
      using st True by auto
    have fill: "sink_fill E es1 = es1" using E es by (intro sink_fill_id) simp
    have "drain_effects (execute ops) es1 d [] False = (d3, [VerificationPassed (?cs ! Suc k)], False)"
      using rel ver by (simp add: es push_cap_def PENDING_CAP_def)
    then have loop: "dispatch_loop N E (execute ops) orc d [?ev] False =
        dispatch_loop N E (execute ops) orc1 d3 [VerificationPassed (?cs ! Suc k)] False"
      by (subst dispatch_loop.simps) (simp add: s fill del: nth_map)
    have "n = length (chain (orot orc1)) - Suc k" using Suc.hyps(2) ch1 by simp
    from Suc.hyps(1) [OF this stage1 ver(3)] ch1 Suc.prems(3)
    obtain orc' d' where ih: "dispatch_loop N E (execute ops) orc1 d3 [VerificationPassed (?cs ! Suc k)] False = Some (orc', d', False)"
      "ostate orc' = Ready" "driver_wf M d'"
      "\<forall>c. is_released (orot orc') c \<longleftrightarrow> is_released (orot orc1) c \<or> c \<in> set (drop (Suc k) ?cs)"
      "\<forall>c \<in> set (drop (Suc k) ?cs). watching d' ! unat c" "\<forall>i. watching d3 ! i \<and> i < M \<longrightarrow> watching d' ! i"
      by auto
    have "\<forall>c \<in> set (drop k ?cs). watching d' ! unat c"
      using ih(5,6) ver(4) w1 ck by (simp add: drop)
    moreover have "\<forall>i. watching d ! i \<and> i < M \<longrightarrow> watching d' ! i" using ih(6) ver(4) w1(2) by simp
    moreover have "\<forall>c. is_released (orot orc') c \<longleftrightarrow> is_released (orot orc) c \<or> c \<in> set (drop k ?cs)"
      using ih(4) st k by (auto simp: drop)
    ultimately show ?thesis using loop ih(1-3) by auto
  next
    case False
    then have nil: "drop (Suc k) ?cs = []" using k by simp
    have es: "es1 = [ReleaseReset (?cs ! k)]" and rd: "ostate orc1 = Ready" using st False k by auto
    have fill: "sink_fill E es1 = es1" using E es by (intro sink_fill_id) simp
    have "drain_effects (execute ops) es1 d [] False = (d1, [], False)" using rel by (simp add: es)
    then have "dispatch_loop N E (execute ops) orc d [?ev] False = Some (orc1, d1, False)"
      by (subst dispatch_loop.simps) (simp add: s fill dispatch_loop.simps [of _ _ _ _ _ "[]"] del: nth_map)
    moreover have "\<forall>c. is_released (orot orc1) c \<longleftrightarrow> is_released (orot orc) c \<or> c \<in> set (drop k ?cs)"
      using st k nil by (auto simp: drop)
    ultimately show ?thesis using rd rel(2) w1 nil by (auto simp: drop simp del: nth_map)
  qed
qed


lemma healthy_dispatch:
  assumes "chain_ok ch" "length ch \<le> N" "3 \<le> E" "healthy ops" "driver_wf M d"
    and "\<forall>c \<in> set (map fst ch). unat c < M"
  shows "\<exists>orc' d'. dispatch_with N E (execute ops) (orchestrator_new ch mr) d (PowerGood Provisioned) =
      Some (orc', d', False) \<and>
    ostate orc' = Ready \<and> {c. is_released (orot orc') c} = set (map fst ch) \<and>
    (\<forall>c \<in> set (map fst ch). watching d' ! unat c)"
proof -
  let ?cs = "map fst ch"
  obtain orc1 where s: "step N (orchestrator_new ch mr) (PowerGood Provisioned) =
      (orc1, [ReadFirmware (?cs ! 0), VerifyFirmware (?cs ! 0)])"
    and st: "at_stage N orc1 0" and ch1: "chain (orot orc1) = ch" and nr: "\<forall>c. \<not> is_released (orot orc1) c"
    using power_good_stage [OF assms(1,2), of mr] by blast
  have "?cs ! 0 \<in> set ?cs" using assms(1) by (intro nth_mem) (simp add: chain_ok_def)
  then have c0: "unat (?cs ! 0) < M" using assms(6) by blast
  obtain d1 d2 where ver: "execute ops d (ReadFirmware (?cs ! 0)) = (d1, Inr None)"
      "execute ops d1 (VerifyFirmware (?cs ! 0)) = (d2, Inr (Some (VerificationPassed (?cs ! 0))))" "driver_wf M d2"
    using healthy_verify [OF assms(4,5) c0] by blast
  have fill: "sink_fill E [ReadFirmware (?cs ! 0), VerifyFirmware (?cs ! 0)] = [ReadFirmware (?cs ! 0), VerifyFirmware (?cs ! 0)]"
    using assms(3) by (intro sink_fill_id) simp
  have "drain_effects (execute ops) [ReadFirmware (?cs ! 0), VerifyFirmware (?cs ! 0)] d [] False =
      (d2, [VerificationPassed (?cs ! 0)], False)"
    using ver by (simp add: push_cap_def PENDING_CAP_def)
  then have "dispatch_with N E (execute ops) (orchestrator_new ch mr) d (PowerGood Provisioned) =
      dispatch_loop N E (execute ops) orc1 d2 [VerificationPassed (?cs ! 0)] False"
    unfolding dispatch_with_def by (subst dispatch_loop.simps) (simp only: s fill list.case prod.case Let_def)
  moreover obtain orc' d' where "dispatch_loop N E (execute ops) orc1 d2 [VerificationPassed (?cs ! 0)] False = Some (orc', d', False)"
      "ostate orc' = Ready" "\<forall>c. is_released (orot orc') c \<longleftrightarrow> is_released (orot orc1) c \<or> c \<in> set (drop 0 ?cs)"
      "\<forall>c \<in> set (drop 0 ?cs). watching d' ! unat c"
    using stage_dispatch [OF assms(4,3) st ver(3), unfolded ch1, OF assms(6)] by blast
  ultimately show ?thesis using nr by auto
qed

text \<open>
  C13: A healthy board boots. Take a validated chain of passive components (an active one also has
  to report \<open>ComponentReady\<close>, which is not part of this dispatch) that fits the machine's capacity
  and the driver's arrays, and an effect buffer of at least three entries. When images open,
  verify as authentic and reset lines release, the single event \<open>PowerGood(Provisioned)\<close>,
  dispatched into the platform driver, returns without a failure in \<open>Ready\<close>, with every component
  of the chain out of reset and its boot walk watched.
\<close>

theorem healthy_board_boots:
  assumes "chain_ok ch" "length ch \<le> N" "\<forall>(c, a) \<in> set ch. kind a = Passive"
    and "3 \<le> E" "healthy ops" "driver_wf M d" "\<forall>c \<in> set (map fst ch). unat c < M"
  shows "\<exists>orc' d'. dispatch_with N E (execute ops) (orchestrator_new ch mr) d (PowerGood Provisioned) =
      Some (orc', d', False) \<and>
    ostate orc' = Ready \<and> {c. is_released (orot orc') c} = set (map fst ch) \<and>
    (\<forall>c \<in> set (map fst ch). watching d' ! unat c)"
  by (rule healthy_dispatch [OF assms(1,2,4-)])

definition passive_chain :: "entry list" where
  "passive_chain =
     [(0, passive_required), (3, with_depends_on passive_cascading 0)]"

theorem healthy_board_boots_witness:
  "\<exists>orc' d'. dispatch_with 3 8 (execute demo_ops) (orchestrator_new passive_chain 2) (driver_new 4 demo_board)
      (PowerGood Provisioned) = Some (orc', d', False) \<and>
    ostate orc' = Ready \<and> {c. is_released (orot orc') c} = set (map fst passive_chain) \<and>
    (\<forall>c \<in> set (map fst passive_chain). watching d' ! unat c)"
proof (rule healthy_board_boots [OF _ _ _ _ _ driver_wf_new [OF demo_board_wf]])
  show "chain_ok passive_chain" unfolding chain_ok_code by code_simp
qed (simp_all add: passive_chain_def attrs_builders healthy_def demo_ops_def)

end
