(* ===== verification/Bytes.thy ===== *)
theory Bytes
  imports Prelude
begin

unbundle bit_operations_syntax

text \<open>
  Byte-level encodings shared by the wire protocols: little-endian integers as the Rust core library
  writes and reads them, slices with their bounds check, and the interface \<open>header_codec\<close> of a
  fixed-size header, in which the framing lemmas of the protocols are proved once.
\<close>

section \<open>Little-endian integers\<close>

definition to_le_bytes32 :: "u32 \<Rightarrow> u8 list" where
  "to_le_bytes32 w = [ucast w, ucast (drop_bit 8 w), ucast (drop_bit 16 w), ucast (drop_bit 24 w)]"

definition from_le_bytes32 :: "u8 \<Rightarrow> u8 \<Rightarrow> u8 \<Rightarrow> u8 \<Rightarrow> u32" where
  "from_le_bytes32 a b c d = ucast a OR push_bit 8 (ucast b) OR push_bit 16 (ucast c) OR push_bit 24 (ucast d)"

definition to_le_bytes16 :: "u16 \<Rightarrow> u8 list" where
  "to_le_bytes16 w = [ucast w, ucast (drop_bit 8 w)]"

definition from_le_bytes16 :: "u8 \<Rightarrow> u8 \<Rightarrow> u16" where
  "from_le_bytes16 a b = ucast a OR push_bit 8 (ucast b)"

lemma length_le_bytes [simp]: "length (to_le_bytes32 w) = 4" "length (to_le_bytes16 v) = 2"
  by (simp_all add: to_le_bytes32_def to_le_bytes16_def)

lemma le_bytes32_roundtrip:
  "from_le_bytes32 (to_le_bytes32 w ! 0) (to_le_bytes32 w ! 1) (to_le_bytes32 w ! 2) (to_le_bytes32 w ! 3) = w"
proof (rule bit_word_eqI)
  fix n assume "n < LENGTH(32)"
  then show "bit (from_le_bytes32 (to_le_bytes32 w ! 0) (to_le_bytes32 w ! 1) (to_le_bytes32 w ! 2)
      (to_le_bytes32 w ! 3)) n = bit w n"
    by (cases "24 \<le> n"; cases "16 \<le> n") (auto simp: from_le_bytes32_def to_le_bytes32_def bit_simps nth_Cons')
qed

lemma le_bytes16_roundtrip: "from_le_bytes16 (to_le_bytes16 w ! 0) (to_le_bytes16 w ! 1) = w"
  by (rule bit_word_eqI)
    (auto simp: from_le_bytes16_def to_le_bytes16_def bit_simps nth_Cons')

section \<open>The header interface\<close>

text \<open>
  A header codec writes a fixed number of bytes and reads them back from the front of any buffer,
  whatever follows.
\<close>

locale header_codec =
  fixes to_bytes :: "'h \<Rightarrow> u8 list" and from_bytes :: "u8 list \<Rightarrow> 'h option" and size :: nat
  assumes length_to_bytes: "length (to_bytes h) = size"
    and from_to_bytes: "from_bytes (to_bytes h @ rest) = Some h"
    and from_short: "from_bytes bs = None \<longleftrightarrow> length bs < size"
begin

lemma header_injective: "to_bytes h @ r = to_bytes h' @ r' \<Longrightarrow> h = h'"
  using from_to_bytes [of h r] from_to_bytes [of h' r'] by simp

text \<open>Write the header at the front of a buffer and a payload right after it.\<close>

lemma framed:
  fixes h :: 'h and payload buf :: "u8 list"
  assumes "size + length payload \<le> length buf"
  defines "out \<equiv> write_at size payload (write_at 0 (to_bytes h) buf)"
  shows "out = to_bytes h @ payload @ drop (size + length payload) buf"
    "from_bytes out = Some h" "take (length payload) (drop size out) = payload"
    "take (size + length payload) out = to_bytes h @ payload" "length out = length buf"
proof -
  show out: "out = to_bytes h @ payload @ drop (size + length payload) buf"
    by (simp add: out_def write_at_def length_to_bytes add.commute)
  show "from_bytes out = Some h" unfolding out by (rule from_to_bytes)
  show "take (length payload) (drop size out) = payload" "take (size + length payload) out = to_bytes h @ payload"
    "length out = length buf"
    using assms(1) by (simp_all add: out length_to_bytes)
qed

lemma framed_header:
  assumes "size \<le> length buf"
  shows "from_bytes (write_at 0 (to_bytes h) buf) = Some h"
    "take size (write_at 0 (to_bytes h) buf) = to_bytes h"
    "length (write_at 0 (to_bytes h) buf) = length buf"
  using assms from_to_bytes [of h "drop size buf"] by (simp_all add: write_at_0 length_to_bytes)

end

section \<open>Slices\<close>

text \<open>\<open>&xs[a..b]\<close>: \<open>None\<close> is the panic of an index out of range.\<close>

definition slice :: "nat \<Rightarrow> nat \<Rightarrow> 'a list \<Rightarrow> 'a list option" where
  "slice a b xs = (if a \<le> b \<and> b \<le> length xs then Some (drop a (take b xs)) else None)"

lemma slice_frame: "slice (length xs) (length xs + length ys) (xs @ ys @ zs) = Some ys"
  by (simp add: slice_def)

lemma slice_total: "a \<le> b \<Longrightarrow> b \<le> length xs \<Longrightarrow> \<exists>ys. slice a b xs = Some ys \<and> length ys = b - a"
  by (simp add: slice_def)

text \<open>\<open>buf[a..a + bytes.len()].copy_from_slice(bytes)\<close> with its bounds check.\<close>

definition put_at :: "nat \<Rightarrow> 'a list \<Rightarrow> 'a list \<Rightarrow> 'a list option" where
  "put_at at bytes buf = (if at + length bytes \<le> length buf then Some (write_at at bytes buf) else None)"

lemma put_at_ok: "at + length bytes \<le> length buf \<Longrightarrow> put_at at bytes buf = Some (write_at at bytes buf)"
  by (simp add: put_at_def)

lemma put_at_end:
  assumes "length ys \<le> length zs"
  shows "put_at (length xs) ys (xs @ zs) = Some (xs @ ys @ drop (length ys) zs)"
  using assms by (simp add: put_at_def write_at_def)

lemma slice_take: "n \<le> length xs \<Longrightarrow> slice 0 n xs = Some (take n xs)"
  by (simp add: slice_def)

end
