(* ===== verification/Mctp_Wire.thy ===== *)
theory Mctp_Wire
  imports Bytes
begin

unbundle bit_operations_syntax

text \<open>
  The binary wire protocol of the MCTP service, \<open>services/mctp/api/src/wire.rs\<close> and \<open>error.rs\<close>: the two
  12-byte headers, one encoder per request and per response, and the decoders of both sides. An
  encoder takes the output buffer and returns it with the number of bytes written or the error;
  on an error the buffer is untouched. Both headers are instances of the interface
  \<open>header_codec\<close>, in which the framing lemmas are proved once.
\<close>

section \<open>Codes and headers\<close>

datatype wire_error = BufferTooSmall | PayloadTooLarge | InvalidOpcode u8 | Truncated

datatype response_code =
    RcSuccess
  | RcInternalError
  | RcNoSpace
  | RcAddrInUse
  | RcTimedOut
  | RcBadArgument
  | RcServerRestarted

fun code_to_u8 :: "response_code \<Rightarrow> u8" where
  "code_to_u8 RcSuccess = 0"
| "code_to_u8 RcInternalError = 1"
| "code_to_u8 RcNoSpace = 2"
| "code_to_u8 RcAddrInUse = 3"
| "code_to_u8 RcTimedOut = 4"
| "code_to_u8 RcBadArgument = 5"
| "code_to_u8 RcServerRestarted = 6"

definition code_from_u8 :: "u8 \<Rightarrow> response_code option" where
  "code_from_u8 v =
     (if v = 0 then Some RcSuccess else if v = 1 then Some RcInternalError else if v = 2 then Some RcNoSpace
      else if v = 3 then Some RcAddrInUse else if v = 4 then Some RcTimedOut else if v = 5 then Some RcBadArgument
      else if v = 6 then Some RcServerRestarted else None)"

datatype mctp_op = OpSetEid | OpGetEid | OpListener | OpReq | OpRecv | OpSend | OpUnbind

fun op_to_u8 :: "mctp_op \<Rightarrow> u8" where
  "op_to_u8 OpSetEid = 0"
| "op_to_u8 OpGetEid = 1"
| "op_to_u8 OpListener = 2"
| "op_to_u8 OpReq = 3"
| "op_to_u8 OpRecv = 4"
| "op_to_u8 OpSend = 5"
| "op_to_u8 OpUnbind = 6"

definition op_from_u8 :: "u8 \<Rightarrow> mctp_op option" where
  "op_from_u8 v =
     (if v = 0 then Some OpSetEid else if v = 1 then Some OpGetEid else if v = 2 then Some OpListener
      else if v = 3 then Some OpReq else if v = 4 then Some OpRecv else if v = 5 then Some OpSend
      else if v = 6 then Some OpUnbind else None)"

lemma op_from_to [simp]: "op_from_u8 (op_to_u8 x) = Some x"
  by (cases x) (simp_all add: op_from_u8_def)

lemma op_from_u8_Some_iff: "op_from_u8 v = Some x \<longleftrightarrow> v = op_to_u8 x"
  by (cases x) (auto simp: op_from_u8_def)

lemma code_from_to [simp]: "code_from_u8 (code_to_u8 x) = Some x"
  by (cases x) (simp_all add: code_from_u8_def)

definition FLAG_IC :: u8 where "FLAG_IC = 1"
definition FLAG_HAS_HANDLE :: u8 where "FLAG_HAS_HANDLE = 2"
definition FLAG_HAS_EID :: u8 where "FLAG_HAS_EID = 4"
definition FLAG_HAS_TAG :: u8 where "FLAG_HAS_TAG = 8"

record request_header =
  rq_op :: u8
  rq_flags :: u8
  rq_msg_type :: u8
  rq_eid :: u8
  rq_handle :: u32
  rq_tag :: u8

definition REQ_SIZE :: nat where "REQ_SIZE = 12"

definition request_to_bytes :: "request_header \<Rightarrow> u8 list" where
  "request_to_bytes h =
     (let b = to_le_bytes32 (rq_handle h)
      in [rq_op h, rq_flags h, rq_msg_type h, rq_eid h, b ! 0, b ! 1, b ! 2, b ! 3, rq_tag h, 0, 0, 0])"

definition request_from_bytes :: "u8 list \<Rightarrow> request_header option" where
  "request_from_bytes bs =
     (if length bs < REQ_SIZE then None
      else Some \<lparr>rq_op = bs ! 0, rq_flags = bs ! 1, rq_msg_type = bs ! 2, rq_eid = bs ! 3,
                 rq_handle = from_le_bytes32 (bs ! 4) (bs ! 5) (bs ! 6) (bs ! 7), rq_tag = bs ! 8\<rparr>)"

definition operation :: "request_header \<Rightarrow> mctp_op option" where
  "operation h = op_from_u8 (rq_op h)"

record response_header =
  rs_code :: u8
  rs_flags :: u8
  rs_msg_type :: u8
  rs_eid :: u8
  rs_handle :: u32
  rs_payload_len :: u16
  rs_tag :: u8

definition RESP_SIZE :: nat where "RESP_SIZE = 12"

definition response_success :: response_header where
  "response_success = \<lparr>rs_code = code_to_u8 RcSuccess, rs_flags = 0, rs_msg_type = 0, rs_eid = 0,
     rs_handle = 0, rs_payload_len = 0, rs_tag = 0\<rparr>"

definition response_error :: "response_code \<Rightarrow> response_header" where
  "response_error code = \<lparr>rs_code = code_to_u8 code, rs_flags = 0, rs_msg_type = 0, rs_eid = 0,
     rs_handle = 0, rs_payload_len = 0, rs_tag = 0\<rparr>"

definition is_success :: "response_header \<Rightarrow> bool" where
  "is_success h \<longleftrightarrow> rs_code h = code_to_u8 RcSuccess"

definition header_response_code :: "response_header \<Rightarrow> response_code" where
  "header_response_code h = (case code_from_u8 (rs_code h) of Some c \<Rightarrow> c | None \<Rightarrow> RcInternalError)"

definition response_to_bytes :: "response_header \<Rightarrow> u8 list" where
  "response_to_bytes h =
     (let b = to_le_bytes32 (rs_handle h); pl = to_le_bytes16 (rs_payload_len h)
      in [rs_code h, rs_flags h, rs_msg_type h, rs_eid h, b ! 0, b ! 1, b ! 2, b ! 3, pl ! 0, pl ! 1, rs_tag h, 0])"

definition response_from_bytes :: "u8 list \<Rightarrow> response_header option" where
  "response_from_bytes bs =
     (if length bs < RESP_SIZE then None
      else Some \<lparr>rs_code = bs ! 0, rs_flags = bs ! 1, rs_msg_type = bs ! 2, rs_eid = bs ! 3,
                 rs_handle = from_le_bytes32 (bs ! 4) (bs ! 5) (bs ! 6) (bs ! 7),
                 rs_payload_len = from_le_bytes16 (bs ! 8) (bs ! 9), rs_tag = bs ! 10\<rparr>)"


section \<open>Encoders and decoders\<close>

definition MAX_PAYLOAD_SIZE :: nat where "MAX_PAYLOAD_SIZE = 1023"
definition MAX_REQUEST_SIZE :: nat where "MAX_REQUEST_SIZE = REQ_SIZE + MAX_PAYLOAD_SIZE"
definition MAX_RESPONSE_SIZE :: nat where "MAX_RESPONSE_SIZE = RESP_SIZE + MAX_PAYLOAD_SIZE"
definition NO_HANDLE :: u32 where "NO_HANDLE = 0xFFFFFFFF"

type_synonym encoded = "u8 list \<times> (wire_error, nat) result"

text \<open>
  The encoders of messages without a payload share their shape: refuse a buffer shorter than the
  header, else copy the header to its front.
\<close>

definition put_request :: "u8 list \<Rightarrow> request_header \<Rightarrow> encoded" where
  "put_request buf header =
     (if length buf < REQ_SIZE then (buf, Inl BufferTooSmall)
      else (write_at 0 (request_to_bytes header) buf, Inr REQ_SIZE))"

definition put_response :: "u8 list \<Rightarrow> response_header \<Rightarrow> encoded" where
  "put_response buf resp =
     (if length buf < RESP_SIZE then (buf, Inl BufferTooSmall)
      else (write_at 0 (response_to_bytes resp) buf, Inr RESP_SIZE))"

definition encode_set_eid :: "u8 list \<Rightarrow> u8 \<Rightarrow> encoded" where
  "encode_set_eid buf eid = put_request buf
     \<lparr>rq_op = op_to_u8 OpSetEid, rq_flags = 0, rq_msg_type = 0, rq_eid = eid, rq_handle = 0, rq_tag = 0\<rparr>"

definition encode_get_eid :: "u8 list \<Rightarrow> encoded" where
  "encode_get_eid buf = put_request buf
     \<lparr>rq_op = op_to_u8 OpGetEid, rq_flags = 0, rq_msg_type = 0, rq_eid = 0, rq_handle = 0, rq_tag = 0\<rparr>"

definition encode_listener :: "u8 list \<Rightarrow> u8 \<Rightarrow> encoded" where
  "encode_listener buf msg_type = put_request buf
     \<lparr>rq_op = op_to_u8 OpListener, rq_flags = 0, rq_msg_type = msg_type, rq_eid = 0, rq_handle = 0, rq_tag = 0\<rparr>"

definition encode_req :: "u8 list \<Rightarrow> u8 \<Rightarrow> encoded" where
  "encode_req buf eid = put_request buf
     \<lparr>rq_op = op_to_u8 OpReq, rq_flags = 0, rq_msg_type = 0, rq_eid = eid, rq_handle = 0, rq_tag = 0\<rparr>"

definition encode_recv :: "u8 list \<Rightarrow> u32 \<Rightarrow> u32 \<Rightarrow> encoded" where
  "encode_recv buf handle timeout_millis =
     (let total = REQ_SIZE + 4
      in if length buf < total then (buf, Inl BufferTooSmall)
         else
           let header = \<lparr>rq_op = op_to_u8 OpRecv, rq_flags = FLAG_HAS_HANDLE, rq_msg_type = 0, rq_eid = 0,
                         rq_handle = handle, rq_tag = 0\<rparr>
           in (write_at REQ_SIZE (to_le_bytes32 timeout_millis) (write_at 0 (request_to_bytes header) buf), Inr total))"

definition send_flags :: "bool \<Rightarrow> u32 option \<Rightarrow> u8 option \<Rightarrow> u8 option \<Rightarrow> u8" where
  "send_flags ic handle eid tag =
     (let f0 = (0 :: u8);
          f1 = (if ic then f0 OR FLAG_IC else f0);
          f2 = (if handle \<noteq> None then f1 OR FLAG_HAS_HANDLE else f1);
          f3 = (if eid \<noteq> None then f2 OR FLAG_HAS_EID else f2)
      in if tag \<noteq> None then f3 OR FLAG_HAS_TAG else f3)"

definition unwrap_or :: "'a option \<Rightarrow> 'a \<Rightarrow> 'a" where
  "unwrap_or x d = (case x of Some y \<Rightarrow> y | None \<Rightarrow> d)"

definition send_header :: "u32 option \<Rightarrow> u8 \<Rightarrow> u8 option \<Rightarrow> u8 option \<Rightarrow> bool \<Rightarrow> request_header" where
  "send_header handle msg_type eid tag ic =
     \<lparr>rq_op = op_to_u8 OpSend, rq_flags = send_flags ic handle eid tag, rq_msg_type = msg_type,
      rq_eid = unwrap_or eid 0, rq_handle = unwrap_or handle NO_HANDLE, rq_tag = unwrap_or tag 0\<rparr>"

definition encode_send ::
    "u8 list \<Rightarrow> u32 option \<Rightarrow> u8 \<Rightarrow> u8 option \<Rightarrow> u8 option \<Rightarrow> bool \<Rightarrow> u8 list \<Rightarrow> encoded" where
  "encode_send buf handle msg_type eid tag ic payload =
     (if length payload > MAX_PAYLOAD_SIZE then (buf, Inl PayloadTooLarge)
      else
        let total = REQ_SIZE + length payload
        in if length buf < total then (buf, Inl BufferTooSmall)
           else (write_at REQ_SIZE payload
                   (write_at 0 (request_to_bytes (send_header handle msg_type eid tag ic)) buf), Inr total))"

definition encode_unbind :: "u8 list \<Rightarrow> u32 \<Rightarrow> encoded" where
  "encode_unbind buf handle = put_request buf
     \<lparr>rq_op = op_to_u8 OpUnbind, rq_flags = FLAG_HAS_HANDLE, rq_msg_type = 0, rq_eid = 0, rq_handle = handle, rq_tag = 0\<rparr>"

definition encode_get_eid_response :: "u8 list \<Rightarrow> u8 \<Rightarrow> encoded" where
  "encode_get_eid_response buf eid = put_response buf (response_success\<lparr>rs_eid := eid\<rparr>)"

definition encode_handle_response :: "u8 list \<Rightarrow> u32 \<Rightarrow> encoded" where
  "encode_handle_response buf handle = put_response buf (response_success\<lparr>rs_handle := handle\<rparr>)"

definition encode_send_response :: "u8 list \<Rightarrow> u8 \<Rightarrow> encoded" where
  "encode_send_response buf tag = put_response buf (response_success\<lparr>rs_tag := tag\<rparr>)"

definition encode_recv_response :: "u8 list \<Rightarrow> u8 \<Rightarrow> bool \<Rightarrow> u8 \<Rightarrow> u8 \<Rightarrow> u8 list \<Rightarrow> encoded" where
  "encode_recv_response buf msg_type msg_ic eid tag payload =
     (if length payload > MAX_PAYLOAD_SIZE then (buf, Inl PayloadTooLarge)
      else
        let total = RESP_SIZE + length payload
        in if length buf < total then (buf, Inl BufferTooSmall)
           else
             let resp = \<lparr>rs_code = code_to_u8 RcSuccess, rs_flags = (if msg_ic then FLAG_IC else 0),
                         rs_msg_type = msg_type, rs_eid = eid, rs_handle = 0,
                         rs_payload_len = of_nat (length payload), rs_tag = tag\<rparr>
             in (write_at RESP_SIZE payload (write_at 0 (response_to_bytes resp) buf), Inr total))"

definition encode_success_response :: "u8 list \<Rightarrow> encoded" where
  "encode_success_response buf = put_response buf response_success"

definition encode_error_response :: "u8 list \<Rightarrow> response_code \<Rightarrow> encoded" where
  "encode_error_response buf code = put_response buf (response_error code)"

definition decode_response_header :: "u8 list \<Rightarrow> (wire_error, response_header) result" where
  "decode_response_header buf = (case response_from_bytes buf of Some h \<Rightarrow> Inr h | None \<Rightarrow> Inl Truncated)"

definition get_response_payload :: "u8 list \<Rightarrow> response_header \<Rightarrow> (wire_error, u8 list) result" where
  "get_response_payload buf header =
     (let end = RESP_SIZE + unat (rs_payload_len header)
      in if length buf < end then Inl Truncated else Inr (drop RESP_SIZE (take end buf)))"

definition decode_request_header :: "u8 list \<Rightarrow> (wire_error, request_header) result" where
  "decode_request_header buf = (case request_from_bytes buf of Some h \<Rightarrow> Inr h | None \<Rightarrow> Inl Truncated)"

definition get_request_payload :: "u8 list \<Rightarrow> u8 list" where
  "get_request_payload buf = (if length buf > REQ_SIZE then drop REQ_SIZE buf else [])"

definition get_recv_timeout :: "u8 list \<Rightarrow> u32" where
  "get_recv_timeout buf =
     (if length buf < REQ_SIZE + 4 then 0
      else from_le_bytes32 (buf ! REQ_SIZE) (buf ! (REQ_SIZE + 1)) (buf ! (REQ_SIZE + 2)) (buf ! (REQ_SIZE + 3)))"


section \<open>The headers are codecs\<close>

lemma request_bytes_nth:
  "length (request_to_bytes h) = 12" "(request_to_bytes h @ rest) ! 0 = rq_op h"
  "(request_to_bytes h @ rest) ! 1 = rq_flags h" "(request_to_bytes h @ rest) ! 2 = rq_msg_type h"
  "(request_to_bytes h @ rest) ! 3 = rq_eid h" "(request_to_bytes h @ rest) ! 8 = rq_tag h"
  "k < 4 \<Longrightarrow> (request_to_bytes h @ rest) ! (4 + k) = to_le_bytes32 (rq_handle h) ! k"
  by (auto simp: request_to_bytes_def Let_def nth_append nth_Cons' eval_nat_numeral less_Suc_eq)

lemma response_bytes_nth:
  "length (response_to_bytes h) = 12" "(response_to_bytes h @ rest) ! 0 = rs_code h"
  "(response_to_bytes h @ rest) ! 1 = rs_flags h" "(response_to_bytes h @ rest) ! 2 = rs_msg_type h"
  "(response_to_bytes h @ rest) ! 3 = rs_eid h" "(response_to_bytes h @ rest) ! 10 = rs_tag h"
  "(response_to_bytes h @ rest) ! 8 = to_le_bytes16 (rs_payload_len h) ! 0"
  "(response_to_bytes h @ rest) ! 9 = to_le_bytes16 (rs_payload_len h) ! 1"
  "k < 4 \<Longrightarrow> (response_to_bytes h @ rest) ! (4 + k) = to_le_bytes32 (rs_handle h) ! k"
  by (auto simp: response_to_bytes_def Let_def nth_append nth_Cons' eval_nat_numeral less_Suc_eq)

interpretation req: header_codec request_to_bytes request_from_bytes REQ_SIZE
proof
  fix h :: request_header and rest bs :: "u8 list"
  show "length (request_to_bytes h) = REQ_SIZE" by (simp add: request_bytes_nth REQ_SIZE_def)
  show "request_from_bytes (request_to_bytes h @ rest) = Some h"
    using request_bytes_nth(7) [of 0 h rest] request_bytes_nth(7) [of 1 h rest] request_bytes_nth(7) [of 2 h rest]
      request_bytes_nth(7) [of 3 h rest] request_bytes_nth(1) [of h] request_bytes_nth(2-6) [of h rest] le_bytes32_roundtrip [of "rq_handle h"]
    by (simp add: request_from_bytes_def REQ_SIZE_def)
  show "request_from_bytes bs = None \<longleftrightarrow> length bs < REQ_SIZE" by (simp add: request_from_bytes_def)
qed

interpretation rsp: header_codec response_to_bytes response_from_bytes RESP_SIZE
proof
  fix h :: response_header and rest bs :: "u8 list"
  show "length (response_to_bytes h) = RESP_SIZE" by (simp add: response_bytes_nth RESP_SIZE_def)
  show "response_from_bytes (response_to_bytes h @ rest) = Some h"
    using response_bytes_nth(9) [of 0 h rest] response_bytes_nth(9) [of 1 h rest] response_bytes_nth(9) [of 2 h rest]
      response_bytes_nth(9) [of 3 h rest] response_bytes_nth(1) [of h] response_bytes_nth(2-8) [of h rest] le_bytes32_roundtrip [of "rs_handle h"]
      le_bytes16_roundtrip [of "rs_payload_len h"]
    by (simp add: response_from_bytes_def RESP_SIZE_def)
  show "response_from_bytes bs = None \<longleftrightarrow> length bs < RESP_SIZE" by (simp add: response_from_bytes_def)
qed


section \<open>What a peer reads from an encoded message\<close>

text \<open>The four flag bits are independent.\<close>

lemma send_flags_bits:
  "send_flags ic handle eid tag AND FLAG_IC \<noteq> 0 \<longleftrightarrow> ic"
  "send_flags ic handle eid tag AND FLAG_HAS_HANDLE \<noteq> 0 \<longleftrightarrow> handle \<noteq> None"
  "send_flags ic handle eid tag AND FLAG_HAS_EID \<noteq> 0 \<longleftrightarrow> eid \<noteq> None"
  "send_flags ic handle eid tag AND FLAG_HAS_TAG \<noteq> 0 \<longleftrightarrow> tag \<noteq> None"
  by (simp_all add: send_flags_def Let_def FLAG_IC_def FLAG_HAS_HANDLE_def FLAG_HAS_EID_def FLAG_HAS_TAG_def)

lemma put_request_ok:
  assumes "put_request buf h = (out, Inr n)"
  shows "take n out = request_to_bytes h" "n = REQ_SIZE" "length out = length buf"
  using assms req.framed_header [of buf h] by (auto simp: put_request_def split: if_splits)

lemma put_response_ok:
  assumes "RESP_SIZE \<le> length buf"
  shows "\<exists>out. put_response buf h = (out, Inr RESP_SIZE) \<and> take RESP_SIZE out = response_to_bytes h
    \<and> length out = length buf"
  using assms rsp.framed_header [of buf h] by (simp add: put_response_def)

lemma encode_send_ok:
  assumes "length payload \<le> MAX_PAYLOAD_SIZE" "REQ_SIZE + length payload \<le> length buf"
  shows "\<exists>out. encode_send buf handle msg_type eid tag ic payload = (out, Inr (REQ_SIZE + length payload))
    \<and> take (REQ_SIZE + length payload) out = request_to_bytes (send_header handle msg_type eid tag ic) @ payload
    \<and> length out = length buf"
  using assms req.framed [of payload buf "send_header handle msg_type eid tag ic"]
  by (simp add: encode_send_def Let_def)

lemma encode_recv_ok:
  assumes "REQ_SIZE + 4 \<le> length buf"
  shows "\<exists>out. encode_recv buf handle t = (out, Inr (REQ_SIZE + 4))
    \<and> take (REQ_SIZE + 4) out =
        request_to_bytes \<lparr>rq_op = op_to_u8 OpRecv, rq_flags = FLAG_HAS_HANDLE, rq_msg_type = 0, rq_eid = 0,
           rq_handle = handle, rq_tag = 0\<rparr> @ to_le_bytes32 t
    \<and> length out = length buf"
  using assms req.framed [of "to_le_bytes32 t" buf]
  by (simp add: encode_recv_def Let_def)

lemma encode_recv_response_ok:
  assumes "length payload \<le> MAX_PAYLOAD_SIZE" "RESP_SIZE + length payload \<le> length buf"
  shows "\<exists>out. encode_recv_response buf ty ic eid tag payload = (out, Inr (RESP_SIZE + length payload))
    \<and> take (RESP_SIZE + length payload) out = response_to_bytes
        \<lparr>rs_code = 0, rs_flags = (if ic then FLAG_IC else 0), rs_msg_type = ty, rs_eid = eid, rs_handle = 0,
         rs_payload_len = of_nat (length payload), rs_tag = tag\<rparr> @ payload
    \<and> length out = length buf"
  using assms rsp.framed [of payload buf] by (simp add: encode_recv_response_def Let_def)

lemma get_request_payload_frame [simp]: "get_request_payload (request_to_bytes h @ payload) = payload"
  by (cases payload) (simp_all add: get_request_payload_def req.length_to_bytes)

lemma get_recv_timeout_frame [simp]: "get_recv_timeout (request_to_bytes h @ to_le_bytes32 t) = t"
  using le_bytes32_roundtrip [of t]
  by (simp add: get_recv_timeout_def req.length_to_bytes nth_append)

lemma get_response_payload_frame:
  assumes "unat (rs_payload_len h) = length payload"
  shows "get_response_payload (response_to_bytes h @ payload) h = Inr payload"
  using assms by (simp add: get_response_payload_def rsp.length_to_bytes)

lemma payload_len_fits:
  assumes "length payload \<le> MAX_PAYLOAD_SIZE"
  shows "unat (of_nat (length payload) :: u16) = length payload"
  using assms by (simp add: unat_of_nat MAX_PAYLOAD_SIZE_def take_bit_nat_eq_self)


section \<open>Properties\<close>

text \<open>
  A \<open>Send\<close> request survives the wire. \<open>encode_send\<close> fails exactly when the payload exceeds 1023
  bytes (\<open>PayloadTooLarge\<close>) or the buffer cannot hold header and payload (\<open>BufferTooSmall\<close>), and then
  leaves the buffer as it was; otherwise the bytes it reports decode to the \<open>Send\<close> operation, the
  message type, the payload, and, read through the four flag bits, exactly the optional handle,
  EID, tag and the integrity bit that were encoded, and nothing beyond those bytes is written.
\<close>

theorem send_request_roundtrip:
  "case encode_send buf handle msg_type eid tag ic payload of
     (out, Inl e) \<Rightarrow> out = buf
       \<and> (if 1023 < length payload then e = PayloadTooLarge
          else e = BufferTooSmall \<and> length buf < 12 + length payload)
   | (out, Inr n) \<Rightarrow> n = 12 + length payload \<and> length payload \<le> 1023 \<and> n \<le> length buf
       \<and> drop n out = drop n buf \<and> length out = length buf
       \<and> get_request_payload (take n out) = payload
       \<and> (case decode_request_header (take n out) of
            Inl e \<Rightarrow> False
          | Inr h \<Rightarrow> operation h = Some OpSend \<and> rq_msg_type h = msg_type
              \<and> (if rq_flags h AND FLAG_HAS_HANDLE \<noteq> 0 then Some (rq_handle h) else None) = handle
              \<and> (if rq_flags h AND FLAG_HAS_EID \<noteq> 0 then Some (rq_eid h) else None) = eid
              \<and> (if rq_flags h AND FLAG_HAS_TAG \<noteq> 0 then Some (rq_tag h) else None) = tag
              \<and> (rq_flags h AND FLAG_IC \<noteq> 0) = ic)"
proof (cases "length payload \<le> MAX_PAYLOAD_SIZE \<and> REQ_SIZE + length payload \<le> length buf")
  case True
  let ?h = "send_header handle msg_type eid tag ic" and ?n = "REQ_SIZE + length payload"
  obtain out where out: "encode_send buf handle msg_type eid tag ic payload = (out, Inr ?n)"
      "take ?n out = request_to_bytes ?h @ payload" "length out = length buf"
    using encode_send_ok True by blast
  have "drop ?n out = drop ?n buf"
    using out(1) True req.framed(1) [of payload buf ?h] req.length_to_bytes [of ?h]
    by (auto simp: encode_send_def Let_def)
  moreover have "decode_request_header (take ?n out) = Inr ?h"
    by (simp add: decode_request_header_def out(2) req.from_to_bytes)
  ultimately show ?thesis
    using True out send_flags_bits [of ic handle eid tag]
    by (auto simp: REQ_SIZE_def MAX_PAYLOAD_SIZE_def send_header_def operation_def op_from_u8_def unwrap_or_def
        simp del: take_append split: option.split)
next
  case False
  then show ?thesis by (auto simp: encode_send_def Let_def MAX_PAYLOAD_SIZE_def REQ_SIZE_def)
qed

text \<open>
  A \<open>Recv\<close> response survives the wire. The server's \<open>encode_recv_response\<close> fails exactly on an
  oversized payload or a short buffer, leaving the buffer as it was; otherwise the client decodes a
  success header with the same type, EID, tag and integrity bit, and \<open>get_response_payload\<close> returns
  the payload, for every payload up to 1023 bytes (the 16-bit length field never wraps).
\<close>

theorem recv_response_roundtrip:
  "case encode_recv_response buf msg_type msg_ic eid tag payload of
     (out, Inl e) \<Rightarrow> out = buf
       \<and> (if 1023 < length payload then e = PayloadTooLarge
          else e = BufferTooSmall \<and> length buf < 12 + length payload)
   | (out, Inr n) \<Rightarrow> n = 12 + length payload \<and> length payload \<le> 1023
       \<and> (case decode_response_header (take n out) of
            Inl e \<Rightarrow> False
          | Inr h \<Rightarrow> is_success h \<and> rs_msg_type h = msg_type \<and> rs_eid h = eid \<and> rs_tag h = tag
              \<and> (rs_flags h AND FLAG_IC \<noteq> 0) = msg_ic
              \<and> get_response_payload (take n out) h = Inr payload)"
proof (cases "length payload \<le> MAX_PAYLOAD_SIZE \<and> RESP_SIZE + length payload \<le> length buf")
  case True
  let ?n = "RESP_SIZE + length payload"
  let ?h = "\<lparr>rs_code = 0, rs_flags = (if msg_ic then FLAG_IC else 0), rs_msg_type = msg_type, rs_eid = eid,
     rs_handle = 0, rs_payload_len = of_nat (length payload), rs_tag = tag\<rparr>"
  obtain out where out: "encode_recv_response buf msg_type msg_ic eid tag payload = (out, Inr ?n)"
      "take ?n out = response_to_bytes ?h @ payload"
    using encode_recv_response_ok [of payload buf msg_type msg_ic eid tag] True by blast
  have "decode_response_header (take ?n out) = Inr ?h"
    by (simp add: decode_response_header_def out(2) rsp.from_to_bytes)
  moreover have "get_response_payload (take ?n out) ?h = Inr payload"
    unfolding out(2) by (rule get_response_payload_frame) (use True in \<open>simp add: payload_len_fits\<close>)
  ultimately show ?thesis
    using True out(1)
    by (auto simp: RESP_SIZE_def MAX_PAYLOAD_SIZE_def is_success_def FLAG_IC_def)
next
  case False
  then show ?thesis by (auto simp: encode_recv_response_def Let_def MAX_PAYLOAD_SIZE_def RESP_SIZE_def)
qed

end
