(* ===== verification/Mctp_Server.thy ===== *)
theory Mctp_Server
  imports Mctp_Wire
begin

text \<open>
  The MCTP server of \<open>services/mctp/server/src/server.rs\<close>: the table of outstanding receives with
  their deadlines around the \<open>Router\<close> of the third-party crate \<open>mctp_lib\<close>. The router is a
  parameter of every operation, a record of its entry points over a state type of its own; no
  theorem assumes anything of it unless it says so.

  The table is a \<open>heapless::LinearMap\<close>: an association list with the capacity \<open>OUTSTANDING\<close>, whose
  removal moves the last entry into the gap. \<open>usize\<close> is 64 bits wide here; a handle is widened to
  a cookie and a cookie truncated to a handle as the source does. The deadline is added modulo
  \<open>2 ^ 64\<close>, as a build without overflow checks does.
\<close>

section \<open>The router interface\<close>

type_synonym usize = u64
type_synonym eid = u8
type_synonym handle = u32

datatype mctp_lib_error =
    MeInternalError
  | MeNoSpace
  | MeAddrInUse
  | MeTimedOut
  | MeBadArgument
  | MeOther

datatype tag = Owned u8 | Unowned u8

fun tag_value :: "tag \<Rightarrow> u8" where
  "tag_value (Owned v) = v"
| "tag_value (Unowned v) = v"

record mctp_message =
  mm_source :: eid
  mm_tag :: tag
  mm_typ :: u8
  mm_ic :: bool
  mm_payload :: "u8 list"

record 'r router_ops =
  rt_req :: "'r \<Rightarrow> eid \<Rightarrow> 'r \<times> (mctp_lib_error, usize) result"
  rt_listener :: "'r \<Rightarrow> u8 \<Rightarrow> 'r \<times> (mctp_lib_error, usize) result"
  rt_get_eid :: "'r \<Rightarrow> eid"
  rt_set_eid :: "'r \<Rightarrow> eid \<Rightarrow> 'r \<times> (mctp_lib_error, unit) result"
  rt_recv :: "'r \<Rightarrow> usize \<Rightarrow> 'r \<times> mctp_message option"
  rt_send :: "'r \<Rightarrow> eid option \<Rightarrow> u8 \<Rightarrow> tag option \<Rightarrow> bool \<Rightarrow> usize \<Rightarrow> u8 list \<Rightarrow> 'r \<times> (mctp_lib_error, tag) result"
  rt_update :: "'r \<Rightarrow> u64 \<Rightarrow> 'r \<times> (mctp_lib_error, u64) result"
  rt_unbind :: "'r \<Rightarrow> usize \<Rightarrow> 'r \<times> (mctp_lib_error, unit) result"
  rt_inbound :: "'r \<Rightarrow> u8 list \<Rightarrow> 'r \<times> (mctp_lib_error, usize option) result"

section \<open>Linear maps\<close>

definition lm_contains :: "'k \<Rightarrow> ('k \<times> 'v) list \<Rightarrow> bool" where
  "lm_contains k m \<longleftrightarrow> list_ex (\<lambda>(k', _). k' = k) m"

definition lm_insert :: "nat \<Rightarrow> 'k \<Rightarrow> 'v \<Rightarrow> ('k \<times> 'v) list \<Rightarrow> ('k \<times> 'v) list option" where
  "lm_insert cap k v m =
     (case position (\<lambda>(k', _). k' = k) m of
        Some i \<Rightarrow> Some (m[i := (k, v)])
      | None \<Rightarrow> push_cap cap m (k, v))"

definition lm_remove :: "'k \<Rightarrow> ('k \<times> 'v) list \<Rightarrow> ('k \<times> 'v) list" where
  "lm_remove k m = (case position (\<lambda>(k', _). k' = k) m of Some i \<Rightarrow> swap_remove i m | None \<Rightarrow> m)"

definition lm_keys :: "('k \<times> 'v) list \<Rightarrow> 'k set" where
  "lm_keys m = fst ` set m"

definition lm_inv :: "nat \<Rightarrow> ('k \<times> 'v) list \<Rightarrow> bool" where
  "lm_inv cap m \<longleftrightarrow> distinct (map fst m) \<and> length m \<le> cap"

section \<open>The server\<close>

definition MAX_PAYLOAD :: nat where "MAX_PAYLOAD = 1023"

record pending_recv = deadline :: u64

record 'r server =
  stack :: 'r
  outstanding :: "(handle \<times> pending_recv) list"

record recv_metadata =
  md_msg_type :: u8
  md_msg_ic :: bool
  md_msg_tag :: u8
  md_remote_eid :: eid
  md_payload_size :: nat

datatype recv_result = RrMessage recv_metadata | RrTimedOut

text \<open>\<open>MctpError\<close> is a struct with the one field \<open>code\<close>: an error is its response code.\<close>

fun mctp_error_to_server_error :: "mctp_lib_error \<Rightarrow> response_code" where
  "mctp_error_to_server_error MeInternalError = RcInternalError"
| "mctp_error_to_server_error MeNoSpace = RcNoSpace"
| "mctp_error_to_server_error MeAddrInUse = RcAddrInUse"
| "mctp_error_to_server_error MeTimedOut = RcTimedOut"
| "mctp_error_to_server_error MeBadArgument = RcBadArgument"
| "mctp_error_to_server_error MeOther = RcInternalError"

definition server_new :: "'r \<Rightarrow> 'r server" where
  "server_new r = \<lparr>stack = r, outstanding = []\<rparr>"

definition server_req :: "'r router_ops \<Rightarrow> 'r server \<Rightarrow> u8 \<Rightarrow> 'r server \<times> (response_code, handle) result" where
  "server_req ops s eid =
     (case rt_req ops (stack s) eid of
        (r, Inr cookie) \<Rightarrow> (s\<lparr>stack := r\<rparr>, Inr (ucast cookie))
      | (r, Inl e) \<Rightarrow> (s\<lparr>stack := r\<rparr>, Inl (mctp_error_to_server_error e)))"

definition server_listener :: "'r router_ops \<Rightarrow> 'r server \<Rightarrow> u8 \<Rightarrow> 'r server \<times> (response_code, handle) result" where
  "server_listener ops s typ =
     (case rt_listener ops (stack s) typ of
        (r, Inr cookie) \<Rightarrow> (s\<lparr>stack := r\<rparr>, Inr (ucast cookie))
      | (r, Inl e) \<Rightarrow> (s\<lparr>stack := r\<rparr>, Inl (mctp_error_to_server_error e)))"

definition server_get_eid :: "'r router_ops \<Rightarrow> 'r server \<Rightarrow> u8" where
  "server_get_eid ops s = rt_get_eid ops (stack s)"

definition server_set_eid :: "'r router_ops \<Rightarrow> 'r server \<Rightarrow> u8 \<Rightarrow> 'r server \<times> (response_code, unit) result" where
  "server_set_eid ops s eid =
     (case rt_set_eid ops (stack s) eid of
        (r, Inr u) \<Rightarrow> (s\<lparr>stack := r\<rparr>, Inr u)
      | (r, Inl e) \<Rightarrow> (s\<lparr>stack := r\<rparr>, Inl (mctp_error_to_server_error e)))"

definition metadata_of :: "mctp_message \<Rightarrow> recv_metadata" where
  "metadata_of msg = \<lparr>md_msg_type = mm_typ msg, md_msg_ic = mm_ic msg, md_msg_tag = tag_value (mm_tag msg),
     md_remote_eid = mm_source msg, md_payload_size = length (mm_payload msg)\<rparr>"

definition copy_payload :: "mctp_message \<Rightarrow> u8 list \<Rightarrow> u8 list" where
  "copy_payload msg buf =
     (if length (mm_payload msg) \<le> length buf then write_at 0 (mm_payload msg) buf else buf)"

definition try_recv ::
    "'r router_ops \<Rightarrow> 'r server \<Rightarrow> handle \<Rightarrow> u8 list \<Rightarrow> 'r server \<times> u8 list \<times> recv_metadata option" where
  "try_recv ops s handle buf =
     (case rt_recv ops (stack s) (ucast handle) of
        (r, None) \<Rightarrow> (s\<lparr>stack := r\<rparr>, buf, None)
      | (r, Some msg) \<Rightarrow> (s\<lparr>stack := r\<rparr>, copy_payload msg buf, Some (metadata_of msg)))"

definition register_recv ::
    "nat \<Rightarrow> 'r server \<Rightarrow> handle \<Rightarrow> u32 \<Rightarrow> u64 \<Rightarrow> 'r server \<times> (response_code, unit) result" where
  "register_recv OUTSTANDING s handle timeout_millis now_millis =
     (let d = (if timeout_millis \<noteq> 0 then now_millis + ucast timeout_millis else 0)
      in if lm_contains handle (outstanding s) then (s, Inr ())
         else
           case lm_insert OUTSTANDING handle \<lparr>deadline = d\<rparr> (outstanding s) of
             None \<Rightarrow> (s, Inl RcNoSpace)
           | Some m \<Rightarrow> (s\<lparr>outstanding := m\<rparr>, Inr ()))"

definition server_send ::
    "'r router_ops \<Rightarrow> 'r server \<Rightarrow> handle option \<Rightarrow> u8 \<Rightarrow> u8 option \<Rightarrow> u8 option \<Rightarrow> bool \<Rightarrow> u8 list
     \<Rightarrow> 'r server \<times> (response_code, u8) result" where
  "server_send ops s handle typ eid tag ic buf =
     (if length buf > MAX_PAYLOAD then (s, Inl RcNoSpace)
      else
        let t = (if handle = None then map_option Unowned tag else map_option Owned tag);
            cookie = (ucast (unwrap_or handle 255) :: usize)
        in case rt_send ops (stack s) eid typ t ic cookie buf of
             (r, Inr t') \<Rightarrow> (s\<lparr>stack := r\<rparr>, Inr (tag_value t'))
           | (r, Inl e) \<Rightarrow> (s\<lparr>stack := r\<rparr>, Inl (mctp_error_to_server_error e)))"

text \<open>The loop of \<open>update\<close> over the outstanding receives, in table order.\<close>

fun update_scan ::
    "'r router_ops \<Rightarrow> nat \<Rightarrow> u64 \<Rightarrow> 'r \<Rightarrow> u8 list \<Rightarrow> (handle \<times> recv_result) list \<Rightarrow> (handle \<times> pending_recv) list
     \<Rightarrow> 'r \<times> u8 list \<times> (handle \<times> recv_result) list" where
  "update_scan ops cap now r recv_buf ready [] = (r, recv_buf, ready)"
| "update_scan ops cap now r recv_buf ready ((h, p) # rest) =
     (case rt_recv ops r (ucast h) of
        (r', Some msg) \<Rightarrow>
          update_scan ops cap now r' (copy_payload msg recv_buf)
            (push_or_drop cap ready (h, RrMessage (metadata_of msg))) rest
      | (r', None) \<Rightarrow>
          update_scan ops cap now r' recv_buf
            (if deadline p \<noteq> 0 \<and> now \<ge> deadline p then push_or_drop cap ready (h, RrTimedOut) else ready) rest)"

definition server_update ::
    "'r router_ops \<Rightarrow> nat \<Rightarrow> 'r server \<Rightarrow> u64 \<Rightarrow> u8 list
     \<Rightarrow> 'r server \<times> u8 list \<times> u32 \<times> (handle \<times> recv_result) list" where
  "server_update ops OUTSTANDING s now_millis recv_buf =
     (let (r1, timeout) = rt_update ops (stack s) now_millis;
          stack_timeout = (ucast (case timeout of Inr t \<Rightarrow> t | Inl _ \<Rightarrow> 60000) :: u32);
          (r2, buf', ready) = update_scan ops OUTSTANDING now_millis r1 recv_buf [] (outstanding s)
      in (s\<lparr>stack := r2, outstanding := foldl (\<lambda>m (h, _). lm_remove h m) (outstanding s) ready\<rparr>,
          buf', stack_timeout, ready))"

definition server_unbind :: "'r router_ops \<Rightarrow> 'r server \<Rightarrow> handle \<Rightarrow> 'r server \<times> (response_code, unit) result" where
  "server_unbind ops s handle =
     (s\<lparr>stack := fst (rt_unbind ops (stack s) (ucast handle)),
        outstanding := lm_remove handle (outstanding s)\<rparr>, Inr ())"

definition server_inbound :: "'r router_ops \<Rightarrow> 'r server \<Rightarrow> u8 list \<Rightarrow> 'r server \<times> (response_code, unit) result" where
  "server_inbound ops s pkt =
     (case rt_inbound ops (stack s) pkt of
        (r, Inr _) \<Rightarrow> (s\<lparr>stack := r\<rparr>, Inr ())
      | (r, Inl e) \<Rightarrow> (s\<lparr>stack := r\<rparr>, Inl (mctp_error_to_server_error e)))"

section \<open>The table interface\<close>

text \<open>
  What the server relies on of its table: a bounded map whose insertion fails only when it is full
  and the key is new.
\<close>

locale bounded_map =
  fixes lookup :: "'m \<Rightarrow> 'k \<Rightarrow> 'v option" and insert :: "'k \<Rightarrow> 'v \<Rightarrow> 'm \<Rightarrow> 'm option"
    and remove :: "'k \<Rightarrow> 'm \<Rightarrow> 'm" and inv :: "'m \<Rightarrow> bool" and cap :: nat
  assumes insert_None: "inv m \<Longrightarrow> insert k v m = None \<longleftrightarrow> lookup m k = None \<and> cap \<le> card (dom (lookup m))"
    and insert_Some: "inv m \<Longrightarrow> insert k v m = Some m' \<Longrightarrow> inv m' \<and> lookup m' = (lookup m)(k \<mapsto> v)"
    and inv_remove: "inv m \<Longrightarrow> inv (remove k m)"
    and lookup_remove: "inv m \<Longrightarrow> lookup (remove k m) = (lookup m)(k := None)"
begin

definition remove_all :: "'k list \<Rightarrow> 'm \<Rightarrow> 'm" where
  "remove_all ks m = foldl (\<lambda>m k. remove k m) m ks"

lemma inv_remove_all: "inv m \<Longrightarrow> inv (remove_all ks m)"
  by (induction ks arbitrary: m) (auto simp: remove_all_def inv_remove)

lemma lookup_remove_all:
  "inv m \<Longrightarrow> lookup (remove_all ks m) k = (if k \<in> set ks then None else lookup m k)"
  by (induction ks arbitrary: m) (auto simp: remove_all_def inv_remove lookup_remove)

end

lemma lm_contains_iff: "lm_contains k m \<longleftrightarrow> map_of m k \<noteq> None"
  unfolding lm_contains_def list_ex_iff map_of_eq_None_iff by (simp add: image_iff Bex_def)

lemma position_key: "position (\<lambda>(k', _). k' = k) m = position (\<lambda>x. fst x = k) m"
  by (induction m) auto

lemma lm_absent: "map_of m k = None \<Longrightarrow> position (\<lambda>x. fst x = k) m = None"
  by (auto simp: position_None_iff map_of_eq_None_iff)

lemma lm_present:
  assumes "distinct (map fst m)" "map_of m k = Some v"
  obtains i where "i < length m" "m ! i = (k, v)" "position (\<lambda>x. fst x = k) m = Some i"
proof -
  have "(k, v) \<in> set m" using assms(2) by (rule map_of_SomeD)
  then obtain i where i: "i < length m" "m ! i = (k, v)" by (auto simp: in_set_conv_nth)
  from position_distinct [OF assms(1) i(1)] i have "position (\<lambda>x. fst x = k) m = Some i" by simp
  with i show thesis by (rule that)
qed

lemma map_of_mset_eq:
  assumes "mset (x # m') = mset m" "distinct (map fst m)"
  shows "distinct (map fst m')" "map_of m' = (map_of m)(fst x := None)"
proof -
  have "mset (map fst (x # m')) = mset (map fst m)" using assms(1) by (metis mset_map)
  then have d: "distinct (map fst (x # m'))" using assms(2) mset_eq_imp_distinct_iff by blast
  then show "distinct (map fst m')" by simp
  have "map_of m = map_of (x # m')"
    using map_of_inject_set [OF assms(2) d] mset_eq_setD [OF assms(1)] by simp
  with d show "map_of m' = (map_of m)(fst x := None)"
    by (cases x) (auto simp: fun_eq_iff map_of_eq_None_iff)
qed

lemma lm_remove_facts:
  assumes "distinct (map fst m)"
  shows "distinct (map fst (lm_remove k m))" "map_of (lm_remove k m) = (map_of m)(k := None)"
    "length (lm_remove k m) \<le> length m"
proof -
  have *: "distinct (map fst (lm_remove k m)) \<and> map_of (lm_remove k m) = (map_of m)(k := None)"
  proof (cases "map_of m k")
    case None
    then have "lm_remove k m = m" by (simp add: lm_remove_def position_key lm_absent)
    with None assms show ?thesis by (auto simp: fun_eq_iff)
  next
    case (Some v)
    then obtain i where i: "i < length m" "m ! i = (k, v)" "position (\<lambda>x. fst x = k) m = Some i"
      by (rule lm_present [OF assms])
    then have "lm_remove k m = swap_remove i m" by (simp add: lm_remove_def position_key)
    with map_of_mset_eq [of "(k, v)" "swap_remove i m" m] mset_swap_remove [OF i(1)] i(2) assms
    show ?thesis by simp
  qed
  then show "distinct (map fst (lm_remove k m))" "map_of (lm_remove k m) = (map_of m)(k := None)" by auto
  show "length (lm_remove k m) \<le> length m" by (simp add: lm_remove_def split: option.split)
qed

lemma option_eqI_Some: "(\<And>y. a = Some y \<longleftrightarrow> b = Some y) \<Longrightarrow> a = b"
  by (cases a; cases b) auto

lemma card_dom_map_of: "distinct (map fst m) \<Longrightarrow> card (dom (map_of m)) = length m"
  using distinct_card [of "map fst m"] by (simp add: dom_map_of_conv_image_fst)

interpretation lm: bounded_map map_of "lm_insert cap" lm_remove "lm_inv cap" cap for cap
proof
  fix m m' :: "('a \<times> 'b) list" and k :: 'a and v :: 'b
  assume inv: "lm_inv cap m"
  show "lm_insert cap k v m = None \<longleftrightarrow> map_of m k = None \<and> cap \<le> card (dom (map_of m))"
  proof (cases "map_of m k")
    case (Some w)
    moreover obtain i where "position (\<lambda>x. fst x = k) m = Some i"
      using inv Some lm_present [of m k w] unfolding lm_inv_def by blast
    ultimately show ?thesis by (simp add: lm_insert_def position_key)
  qed (use inv in \<open>simp add: lm_insert_def position_key lm_absent push_cap_def card_dom_map_of lm_inv_def\<close>)
  show "lm_inv cap (lm_remove k m)" "map_of (lm_remove k m) = (map_of m)(k := None)"
    using inv lm_remove_facts [of m k] by (auto simp: lm_inv_def)
  assume ins: "lm_insert cap k v m = Some m'"
  show "lm_inv cap m' \<and> map_of m' = (map_of m)(k \<mapsto> v)"
  proof (cases "map_of m k")
    case None
    then have "m' = m @ [(k, v)]" "length m < cap" "k \<notin> fst ` set m"
      using ins by (auto simp: lm_insert_def position_key lm_absent push_cap_def map_of_eq_None_iff split: if_splits)
    moreover from this None have "map_of m' = (map_of m)(k \<mapsto> v)"
      by (auto simp: map_add_def fun_eq_iff split: option.split)
    ultimately show ?thesis using inv by (simp add: lm_inv_def)
  next
    case (Some w)
    then obtain i where i: "i < length m" "m ! i = (k, w)" "position (\<lambda>x. fst x = k) m = Some i"
      using inv lm_present [of m k w] unfolding lm_inv_def by blast
    have m': "m' = m[i := (k, v)]" using ins i by (simp add: lm_insert_def position_key)
    have keys: "map fst m' = map fst m" using i by (simp add: m' map_update list_update_same_conv)
    have d: "distinct (map fst m)" "distinct (map fst m')" using inv keys by (auto simp: lm_inv_def)
    have "set m' = insert (k, v) (set m - {(k, w)})"
      using i d(1) unfolding m' by (metis distinct_map set_update_distinct)
    then have "map_of m' = (map_of m)(k \<mapsto> v)"
      using d Some by (intro ext option_eqI_Some) (auto simp: map_of_eq_Some_iff dest: eq_key_imp_eq_value)
    with keys inv show ?thesis by (simp add: lm_inv_def m')
  qed
qed


section \<open>Invariant of the table\<close>

definition server_inv :: "nat \<Rightarrow> 'r server \<Rightarrow> bool" where
  "server_inv OUTSTANDING s \<longleftrightarrow> lm_inv OUTSTANDING (outstanding s)"

lemma server_inv_stack [simp]: "server_inv N (s\<lparr>stack := r\<rparr>) = server_inv N s"
  by (simp add: server_inv_def)

lemma server_inv_new: "server_inv N (server_new r)"
  by (simp add: server_inv_def server_new_def lm_inv_def)

text \<open>Every operation but registering, updating and unbinding leaves the table alone.\<close>

lemma outstanding_frame [simp]:
  "outstanding (fst (server_req ops s e)) = outstanding s"
  "outstanding (fst (server_listener ops s e)) = outstanding s"
  "outstanding (fst (server_set_eid ops s e)) = outstanding s"
  "outstanding (fst (try_recv ops s h buf)) = outstanding s"
  "outstanding (fst (server_send ops s oh typ eid tag ic pl)) = outstanding s"
  "outstanding (fst (server_inbound ops s pkt)) = outstanding s"
  by (auto simp: server_req_def server_listener_def server_set_eid_def try_recv_def server_send_def
      server_inbound_def Let_def split: prod.split sum.split option.split)

lemma register_recv_cases:
  assumes "server_inv N s"
  shows "server_inv N (fst (register_recv N s h t now))"
    "snd (register_recv N s h t now) = Inl e \<Longrightarrow>
       fst (register_recv N s h t now) = s \<and> e = RcNoSpace \<and> map_of (outstanding s) h = None \<and> length (outstanding s) = N"
    "snd (register_recv N s h t now) = Inr () \<Longrightarrow>
       map_of (outstanding (fst (register_recv N s h t now))) =
         (if map_of (outstanding s) h \<noteq> None then map_of (outstanding s)
          else (map_of (outstanding s))(h \<mapsto> \<lparr>deadline = (if t \<noteq> 0 then now + ucast t else 0)\<rparr>))"
proof -
  let ?d = "\<lparr>deadline = (if t \<noteq> 0 then now + ucast t else 0)\<rparr>"
  have inv: "lm_inv N (outstanding s)" using assms by (simp add: server_inv_def)
  note N = lm.insert_None [OF inv, of h ?d] and S = lm.insert_Some [OF inv, of h ?d]
  have len: "length (outstanding s) \<le> N" "card (dom (map_of (outstanding s))) = length (outstanding s)"
    using inv by (auto simp: lm_inv_def card_dom_map_of)
  show "server_inv N (fst (register_recv N s h t now))"
    using assms S by (auto simp: register_recv_def Let_def server_inv_def split: option.split)
  show "snd (register_recv N s h t now) = Inl e \<Longrightarrow>
       fst (register_recv N s h t now) = s \<and> e = RcNoSpace \<and> map_of (outstanding s) h = None \<and> length (outstanding s) = N"
    using N len by (auto simp: register_recv_def Let_def split: option.splits if_splits)
  show "snd (register_recv N s h t now) = Inr () \<Longrightarrow>
       map_of (outstanding (fst (register_recv N s h t now))) =
         (if map_of (outstanding s) h \<noteq> None then map_of (outstanding s) else (map_of (outstanding s))(h \<mapsto> ?d))"
    using S by (auto simp: register_recv_def Let_def lm_contains_iff split: option.splits if_splits)
qed

lemma server_inv_unbind: "server_inv N s \<Longrightarrow> server_inv N (fst (server_unbind ops s h))"
  by (simp add: server_unbind_def server_inv_def lm.inv_remove)

section \<open>The scan of the outstanding receives\<close>

text \<open>
  Reference: ask the router once for every outstanding handle, in table order; then judge each
  entry by its answer alone.
\<close>

fun poll_all :: "'r router_ops \<Rightarrow> 'r \<Rightarrow> handle list \<Rightarrow> 'r \<times> mctp_message option list" where
  "poll_all ops r [] = (r, [])"
| "poll_all ops r (h # hs) =
     (let (r1, a) = rt_recv ops r (ucast h); (r2, as) = poll_all ops r1 hs in (r2, a # as))"

fun recv_verdict :: "u64 \<Rightarrow> (handle \<times> pending_recv) \<times> mctp_message option \<Rightarrow> (handle \<times> recv_result) option" where
  "recv_verdict now ((h, p), Some msg) = Some (h, RrMessage (metadata_of msg))"
| "recv_verdict now ((h, p), None) =
     (if deadline p \<noteq> 0 \<and> deadline p \<le> now then Some (h, RrTimedOut) else None)"

fun copy_all :: "mctp_message option list \<Rightarrow> u8 list \<Rightarrow> u8 list" where
  "copy_all [] buf = buf"
| "copy_all (None # as) buf = copy_all as buf"
| "copy_all (Some msg # as) buf = copy_all as (copy_payload msg buf)"

lemma length_poll_all [simp]: "length (snd (poll_all ops r hs)) = length hs"
proof (induction hs arbitrary: r)
  case (Cons h hs)
  then have "length as = length hs" if "poll_all ops r' hs = (r2, as)" for r' r2 as
    using that by (metis snd_conv)
  then show ?case by (auto simp: Let_def split: prod.split)
qed simp

lemma update_scan_eq:
  "length ready + length es \<le> cap \<Longrightarrow>
   update_scan ops cap now r buf ready es =
     (let (r', as) = poll_all ops r (map fst es)
      in (r', copy_all as buf, ready @ List.map_filter (recv_verdict now) (zip es as)))"
proof (induction es arbitrary: r buf ready)
  case Nil
  show ?case by simp
next
  case (Cons e es)
  obtain h p where e: "e = (h, p)" by force
  obtain r1 a where a: "rt_recv ops r (ucast h) = (r1, a)" by force
  show ?case
    using Cons.prems
    by (cases a) (auto simp: e a Let_def Cons.IH map_filter_simps prelude_simps split: prod.split)
qed

lemma recv_verdict_key: "recv_verdict now (e, a) = Some v \<Longrightarrow> fst v = fst e"
  by (cases e; cases a) (auto split: if_splits)

lemma verdict_keys_subset:
  "fst ` set (List.map_filter (recv_verdict now) (zip es as)) \<subseteq> fst ` set es"
proof (induction es arbitrary: as)
  case (Cons e es)
  show ?case
  proof (cases as)
    case (Cons a as')
    from Cons.IH [of as'] show ?thesis
      by (auto simp: Cons map_filter_simps dest: recv_verdict_key split: option.split)
  qed (simp add: map_filter_simps)
qed (simp add: map_filter_simps)

lemma verdict_distinct:
  "distinct (map fst es) \<Longrightarrow> distinct (map fst (List.map_filter (recv_verdict now) (zip es as)))"
proof (induction es arbitrary: as)
  case (Cons e es)
  show ?case
  proof (cases as)
    case (Cons a as')
    have "fst e \<notin> fst ` set (List.map_filter (recv_verdict now) (zip es as'))"
      using Cons.prems verdict_keys_subset [of now es as'] by auto
    with Cons.IH [of as'] Cons.prems show ?thesis
      by (cases "recv_verdict now (e, a)") (simp_all add: \<open>as = a # as'\<close> map_filter_simps recv_verdict_key)
  qed (simp add: map_filter_simps)
qed (simp add: map_filter_simps)

lemma verdict_lookup:
  "distinct (map fst es) \<Longrightarrow> length as = length es \<Longrightarrow> i < length es \<Longrightarrow>
   map_of (List.map_filter (recv_verdict now) (zip es as)) (fst (es ! i)) =
     map_option snd (recv_verdict now (es ! i, as ! i))"
proof (induction es arbitrary: as i)
  case (Cons e es)
  then obtain a as' where as: "as = a # as'" "length as' = length es" by (cases as) auto
  have fresh: "fst e \<notin> fst ` set (List.map_filter (recv_verdict now) (zip es as'))"
    using Cons.prems(1) verdict_keys_subset [of now es as'] by auto
  show ?case
  proof (cases i)
    case 0
    with fresh show ?thesis
      by (auto simp: as map_filter_simps map_of_eq_None_iff dest: recv_verdict_key split: option.split)
  next
    case (Suc j)
    then have "fst (es ! j) \<in> fst ` set es" using Cons.prems(3) by (intro imageI nth_mem) simp
    moreover have "fst e \<notin> fst ` set es" using Cons.prems(1) by simp
    ultimately have "fst (es ! j) \<noteq> fst e" by metis
    with Suc show ?thesis
      using Cons.IH [of as' j] Cons.prems as
      by (auto simp: map_filter_simps dest: recv_verdict_key split: option.split)
  qed
qed simp

lemma server_update_eq:
  assumes "server_inv N s" "rt_update ops (stack s) now = (r1, to)"
    "poll_all ops r1 (map fst (outstanding s)) = (r2, as)"
  defines "ready \<equiv> List.map_filter (recv_verdict now) (zip (outstanding s) as)"
  shows "server_update ops N s now buf =
    (s\<lparr>stack := r2, outstanding := lm.remove_all (map fst ready) (outstanding s)\<rparr>, copy_all as buf,
     ucast (case to of Inr t \<Rightarrow> t | Inl _ \<Rightarrow> 60000), ready)"
proof -
  have "foldl (\<lambda>m (h, _). lm_remove h m) m rs = lm.remove_all (map fst rs) m"
    for m :: "(handle \<times> pending_recv) list" and rs :: "(handle \<times> recv_result) list"
    by (induction rs arbitrary: m) (auto simp: lm.remove_all_def)
  then show ?thesis
    using assms(1-3) update_scan_eq [of "[]" "outstanding s" N ops now r1 buf]
    by (simp add: server_update_def Let_def ready_def server_inv_def lm_inv_def)
qed

lemma server_inv_update: "server_inv N s \<Longrightarrow> server_inv N (fst (server_update ops N s now buf))"
proof -
  assume inv: "server_inv N s"
  obtain r1 to where u: "rt_update ops (stack s) now = (r1, to)" by force
  obtain r2 as where p: "poll_all ops r1 (map fst (outstanding s)) = (r2, as)" by force
  from inv show ?thesis by (simp add: server_update_eq [OF inv u p] server_inv_def lm.inv_remove_all)
qed


section \<open>Properties\<close>

text \<open>
  C16: \<open>update\<close> resolves exactly the receives it should. Let the router, after its own \<open>update\<close>, be asked
  once per outstanding handle in table order. A handle whose answer is a message is reported with
  that message's metadata and leaves the table; a handle without a message is reported \<open>TimedOut\<close>
  and leaves the table exactly when its deadline is set and has passed; every other receive stays,
  with its deadline unchanged and unreported. Nothing else is reported or added, no handle is
  reported twice, and none is lost to the capacity of the result vector.
\<close>

theorem update_resolves_exactly:
  assumes "server_inv N s" "rt_update ops (stack s) now = (r1, to)"
    "poll_all ops r1 (map fst (outstanding s)) = (r2, answers)"
    "server_update ops N s now buf = (s', buf', timeout, ready)"
  shows "stack s' = r2 \<and> server_inv N s' \<and> distinct (map fst ready)
    \<and> fst ` set ready \<subseteq> fst ` set (outstanding s) \<and> fst ` set (outstanding s') \<subseteq> fst ` set (outstanding s)
    \<and> (\<forall>i < length (outstanding s).
         let h = fst (outstanding s ! i); p = snd (outstanding s ! i)
         in case answers ! i of
              Some msg \<Rightarrow> map_of ready h = Some (RrMessage (metadata_of msg)) \<and> map_of (outstanding s') h = None
            | None \<Rightarrow>
                if deadline p \<noteq> 0 \<and> deadline p \<le> now
                then map_of ready h = Some RrTimedOut \<and> map_of (outstanding s') h = None
                else map_of ready h = None \<and> map_of (outstanding s') h = Some p)"
proof -
  let ?es = "outstanding s"
  let ?r = "List.map_filter (recv_verdict now) (zip ?es answers)"
  have inv: "lm_inv N ?es" and d: "distinct (map fst ?es)"
    using assms(1) by (auto simp: server_inv_def lm_inv_def)
  have len: "length answers = length ?es"
    using length_poll_all [of ops r1 "map fst ?es"] assms(3) by simp
  have ready: "ready = ?r"
    and s': "s' = s\<lparr>stack := r2, outstanding := lm.remove_all (map fst ?r) ?es\<rparr>"
    using server_update_eq [OF assms(1-3), of buf] assms(4) by auto
  have look: "map_of (outstanding s') h = (if map_of ready h = None then map_of ?es h else None)" for h
    using lm.lookup_remove_all [OF inv, of "map fst ?r" h] by (simp add: s' ready map_of_eq_None_iff)
  have keys: "dom (map_of (outstanding s')) \<subseteq> dom (map_of ?es)"
    by (auto simp: look split: if_splits)
  have entry: "map_of ?es (fst (?es ! i)) = Some (snd (?es ! i))" if "i < length ?es" for i
    using d that by simp
  have "let h = fst (?es ! i); p = snd (?es ! i)
         in case answers ! i of
              Some msg \<Rightarrow> map_of ready h = Some (RrMessage (metadata_of msg)) \<and> map_of (outstanding s') h = None
            | None \<Rightarrow>
                if deadline p \<noteq> 0 \<and> deadline p \<le> now
                then map_of ready h = Some RrTimedOut \<and> map_of (outstanding s') h = None
                else map_of ready h = None \<and> map_of (outstanding s') h = Some p" if i: "i < length ?es" for i
    using verdict_lookup [OF d len i, of now] entry [OF i]
    by (cases "?es ! i"; cases "answers ! i") (auto simp: look ready [symmetric])
  moreover have "server_inv N s'" using server_inv_update [OF assms(1), of ops now buf] assms(4) by simp
  moreover have "fst ` set ready \<subseteq> fst ` set ?es" "distinct (map fst ready)" "stack s' = r2"
    using verdict_keys_subset verdict_distinct [OF d] by (auto simp: ready s')
  ultimately show ?thesis using keys by (simp add: dom_map_of_conv_image_fst)
qed

text \<open>A router for concrete runs: a queue of messages per cookie, no routing errors.\<close>

definition queue_router :: "(usize \<times> mctp_message) list router_ops" where
  "queue_router = \<lparr>rt_req = (\<lambda>q eid. (q, Inr (ucast eid))), rt_listener = (\<lambda>q t. (q, Inr (ucast t))),
     rt_get_eid = (\<lambda>q. 8), rt_set_eid = (\<lambda>q e. (q, Inr ())),
     rt_recv = (\<lambda>q c. (lm_remove c q, map_of q c)),
     rt_send = (\<lambda>q eid typ t ic c buf. (q, Inr (Owned 1))), rt_update = (\<lambda>q now. (q, Inr 100)),
     rt_unbind = (\<lambda>q c. (q, Inr ())), rt_inbound = (\<lambda>q pkt. (q, Inl MeBadArgument))\<rparr>"

definition sample_message :: "u8 list \<Rightarrow> mctp_message" where
  "sample_message bs = \<lparr>mm_source = 9, mm_tag = Unowned 3, mm_typ = 5, mm_ic = False, mm_payload = bs\<rparr>"

definition sample_server :: "(usize \<times> mctp_message) list server" where
  "sample_server = \<lparr>stack = [(1, sample_message [10, 11])],
     outstanding = [(1, \<lparr>deadline = 0\<rparr>), (2, \<lparr>deadline = 50\<rparr>), (3, \<lparr>deadline = 500\<rparr>)]\<rparr>"

theorem update_resolves_exactly_witness:
  "case server_update queue_router 4 sample_server 60 [0, 0, 0] of
     (s', buf', timeout, ready) \<Rightarrow> stack s' = [] \<and> server_inv 4 s'
       \<and> map_of ready 1 = Some (RrMessage (metadata_of (sample_message [10, 11])))
       \<and> map_of ready 2 = Some RrTimedOut \<and> map_of ready 3 = None
       \<and> map_of (outstanding s') 3 = Some \<lparr>deadline = 500\<rparr>"
proof -
  note defs = queue_router_def sample_server_def sample_message_def
  obtain s' buf' timeout ready where u: "server_update queue_router 4 sample_server 60 [0, 0, 0] = (s', buf', timeout, ready)"
    by (metis prod_cases4)
  have inv: "server_inv 4 sample_server" by (simp add: defs server_inv_def lm_inv_def)
  have r: "rt_update queue_router (stack sample_server) 60 = (stack sample_server, Inr 100)" by (simp add: defs)
  have p: "poll_all queue_router (stack sample_server) (map fst (outstanding sample_server)) =
      ([], [Some (sample_message [10, 11]), None, None])"
    by (simp add: defs lm_remove_def swap_remove_def)
  have all: "P 0 \<and> P 1 \<and> P 2" if "\<forall>i < 3. P i" for P :: "nat \<Rightarrow> bool" using that by simp
  have len: "length (outstanding sample_server) = 3" by (simp add: defs)
  show ?thesis
    using update_resolves_exactly [OF inv r p u] unfolding u len
    by (auto dest!: all simp: sample_server_def)
qed

end
