(* ===== verification/Mctp_Dispatch.thy ===== *)
theory Mctp_Dispatch
  imports Mctp_Server
begin

unbundle bit_operations_syntax

text \<open>
  The request dispatcher of the MCTP server, \<open>services/mctp/server/src/dispatch.rs\<close>:
  \<open>dispatch_mctp_op\<close> decodes one request, calls the server operation and encodes the answer;
  \<open>drive_pending\<close> answers the receives that \<open>update\<close> resolved. The response and receive buffers are
  threaded through. The slice \<open>&recv_buf[..meta.payload_size]\<close> panics when the payload did not fit
  the receive buffer; a panic is the result \<^term>\<open>None\<close>.
\<close>

section \<open>Operations\<close>

datatype dispatch_outcome = Reply nat | Pending handle

definition encode_error :: "u8 list \<Rightarrow> response_code \<Rightarrow> u8 list \<times> nat" where
  "encode_error response code =
     (case encode_error_response response code of (b, Inr n) \<Rightarrow> (b, n) | (b, Inl _) \<Rightarrow> (b, 0))"

definition encode_success :: "u8 list \<Rightarrow> u8 list \<times> nat" where
  "encode_success response =
     (case encode_success_response response of (b, Inr n) \<Rightarrow> (b, n) | (b, Inl _) \<Rightarrow> (b, 0))"

text \<open>\<open>.unwrap_or_else(|_| encode_error(response, ResponseCode::InternalError))\<close>\<close>

definition or_internal_error :: "encoded \<Rightarrow> u8 list \<times> nat" where
  "or_internal_error r = (case r of (b, Inr n) \<Rightarrow> (b, n) | (b, Inl _) \<Rightarrow> encode_error b RcInternalError)"

text \<open>\<open>&recv_buf[..n]\<close>\<close>

definition slice_to :: "nat \<Rightarrow> u8 list \<Rightarrow> u8 list option" where
  "slice_to n buf = (if n \<le> length buf then Some (take n buf) else None)"

definition encode_message :: "u8 list \<Rightarrow> recv_metadata \<Rightarrow> u8 list \<Rightarrow> (u8 list \<times> nat) option" where
  "encode_message response meta recv_buf =
     (case slice_to (md_payload_size meta) recv_buf of
        None \<Rightarrow> None
      | Some payload \<Rightarrow>
          Some (or_internal_error
            (encode_recv_response response (md_msg_type meta) (md_msg_ic meta) (md_remote_eid meta) (md_msg_tag meta) payload)))"

type_synonym 'r dispatched = "('r server \<times> u8 list \<times> u8 list \<times> dispatch_outcome) option"

definition dispatch_send ::
    "'r router_ops \<Rightarrow> u8 list \<Rightarrow> request_header \<Rightarrow> u8 list \<Rightarrow> 'r server \<Rightarrow> 'r server \<times> u8 list \<times> nat" where
  "dispatch_send ops request header response s =
     (let handle = (if rq_flags header AND FLAG_HAS_HANDLE \<noteq> 0 then Some (rq_handle header) else None);
          eid = (if rq_flags header AND FLAG_HAS_EID \<noteq> 0 then Some (rq_eid header) else None);
          tag = (if rq_flags header AND FLAG_HAS_TAG \<noteq> 0 then Some (rq_tag header) else None);
          ic = (rq_flags header AND FLAG_IC \<noteq> 0);
          payload = get_request_payload request
      in case server_send ops s handle (rq_msg_type header) eid tag ic payload of
           (s', Inr tag_val) \<Rightarrow> (s', or_internal_error (encode_send_response response tag_val))
         | (s', Inl e) \<Rightarrow> (s', encode_error response e))"

definition dispatch_recv ::
    "'r router_ops \<Rightarrow> nat \<Rightarrow> u8 list \<Rightarrow> request_header \<Rightarrow> u8 list \<Rightarrow> 'r server \<Rightarrow> u8 list \<Rightarrow> u64 \<Rightarrow> 'r dispatched" where
  "dispatch_recv ops N request header response s recv_buf now =
     (case try_recv ops s (rq_handle header) recv_buf of
        (s1, buf1, Some meta) \<Rightarrow>
          map_option (\<lambda>(resp, n). (s1, resp, buf1, Reply n)) (encode_message response meta buf1)
      | (s1, buf1, None) \<Rightarrow>
          Some (fst (register_recv N s1 (rq_handle header) (get_recv_timeout request) now), response, buf1,
                Pending (rq_handle header)))"

definition handle_reply :: "u8 list \<Rightarrow> (response_code, handle) result \<Rightarrow> u8 list \<times> nat" where
  "handle_reply response res =
     (case res of Inr h \<Rightarrow> or_internal_error (encode_handle_response response h) | Inl e \<Rightarrow> encode_error response e)"

definition unit_reply :: "u8 list \<Rightarrow> (response_code, unit) result \<Rightarrow> u8 list \<times> nat" where
  "unit_reply response res = (case res of Inr _ \<Rightarrow> encode_success response | Inl e \<Rightarrow> encode_error response e)"

definition dispatch_mctp_op ::
    "'r router_ops \<Rightarrow> nat \<Rightarrow> u8 list \<Rightarrow> u8 list \<Rightarrow> 'r server \<Rightarrow> u8 list \<Rightarrow> u64 \<Rightarrow> 'r dispatched" where
  "dispatch_mctp_op ops N request response s recv_buf now =
     (let reply = (\<lambda>s' (resp, n). Some (s', resp, recv_buf, Reply n))
      in case request_from_bytes request of
           None \<Rightarrow> reply s (encode_error response RcBadArgument)
         | Some header \<Rightarrow>
             (case operation header of
                None \<Rightarrow> reply s (encode_error response RcBadArgument)
              | Some OpSetEid \<Rightarrow>
                  (case server_set_eid ops s (rq_eid header) of (s', res) \<Rightarrow> reply s' (unit_reply response res))
              | Some OpGetEid \<Rightarrow>
                  reply s (or_internal_error (encode_get_eid_response response (server_get_eid ops s)))
              | Some OpListener \<Rightarrow>
                  (case server_listener ops s (rq_msg_type header) of (s', res) \<Rightarrow> reply s' (handle_reply response res))
              | Some OpReq \<Rightarrow>
                  (case server_req ops s (rq_eid header) of (s', res) \<Rightarrow> reply s' (handle_reply response res))
              | Some OpRecv \<Rightarrow> dispatch_recv ops N request header response s recv_buf now
              | Some OpSend \<Rightarrow>
                  (case dispatch_send ops request header response s of (s', out) \<Rightarrow> reply s' out)
              | Some OpUnbind \<Rightarrow>
                  (case server_unbind ops s (rq_handle header) of (s', res) \<Rightarrow> reply s' (unit_reply response res))))"

text \<open>
  The loop of \<open>drive_pending\<close>: the calls of \<open>on_ready\<close>, each with its handle, its length and the
  contents of the response buffer at that moment.
\<close>

fun answer_ready ::
    "u8 list \<Rightarrow> u8 list \<Rightarrow> (handle \<times> recv_result) list \<Rightarrow> (u8 list \<times> (handle \<times> u8 list) list) option" where
  "answer_ready recv_buf response [] = Some (response, [])"
| "answer_ready recv_buf response ((h, res) # rest) =
     (case (case res of
              RrMessage meta \<Rightarrow> encode_message response meta recv_buf
            | RrTimedOut \<Rightarrow> Some (encode_error response RcTimedOut)) of
        None \<Rightarrow> None
      | Some (resp, n) \<Rightarrow>
          map_option (\<lambda>(r, calls). (r, (h, take n resp) # calls)) (answer_ready recv_buf resp rest))"

definition drive_pending ::
    "'r router_ops \<Rightarrow> nat \<Rightarrow> 'r server \<Rightarrow> u64 \<Rightarrow> u8 list \<Rightarrow> u8 list
     \<Rightarrow> ('r server \<times> u8 list \<times> u8 list \<times> (handle \<times> u8 list) list) option" where
  "drive_pending ops N s now recv_buf response =
     (case server_update ops N s now recv_buf of
        (s', buf', _, ready) \<Rightarrow>
          map_option (\<lambda>(resp, calls). (s', buf', resp, calls)) (answer_ready buf' response ready))"

section \<open>Every answer fits and parses\<close>

lemma put_response_framed:
  "RESP_SIZE \<le> length response \<Longrightarrow> \<exists>b. put_response response h = (b, Inr RESP_SIZE)
     \<and> length b = length response \<and> take RESP_SIZE b = response_to_bytes h"
  using put_response_ok [of response h] by blast

lemma encode_error_eq:
  assumes "RESP_SIZE \<le> length response"
  shows "\<exists>b. encode_error response code = (b, RESP_SIZE) \<and> length b = length response
    \<and> take RESP_SIZE b = response_to_bytes (response_error code)"
  using put_response_framed [OF assms, of "response_error code"]
  by (auto simp: encode_error_def encode_error_response_def)

lemma encode_success_eq:
  assumes "RESP_SIZE \<le> length response"
  shows "\<exists>b. encode_success response = (b, RESP_SIZE) \<and> length b = length response
    \<and> take RESP_SIZE b = response_to_bytes response_success"
  using put_response_framed [OF assms, of response_success]
  by (auto simp: encode_success_def encode_success_response_def)

lemma or_internal_put_eq:
  assumes "RESP_SIZE \<le> length response"
  shows "\<exists>b. or_internal_error (put_response response h) = (b, RESP_SIZE) \<and> length b = length response
    \<and> take RESP_SIZE b = response_to_bytes h"
  using put_response_framed [OF assms, of h] by (auto simp: or_internal_error_def)

lemma unit_reply_eq:
  assumes "RESP_SIZE \<le> length response"
  shows "\<exists>b. unit_reply response res = (b, RESP_SIZE) \<and> length b = length response
    \<and> take RESP_SIZE b = response_to_bytes (case res of Inr _ \<Rightarrow> response_success | Inl e \<Rightarrow> response_error e)"
  using encode_success_eq [OF assms] encode_error_eq [OF assms]
  by (cases res) (auto simp: unit_reply_def)

lemma handle_reply_eq:
  assumes "RESP_SIZE \<le> length response"
  shows "\<exists>b. handle_reply response res = (b, RESP_SIZE) \<and> length b = length response
    \<and> take RESP_SIZE b =
        response_to_bytes (case res of Inr h \<Rightarrow> response_success\<lparr>rs_handle := h\<rparr> | Inl e \<Rightarrow> response_error e)"
  using or_internal_put_eq [OF assms] encode_error_eq [OF assms]
  by (cases res) (auto simp: handle_reply_def encode_handle_response_def)

lemma encode_message_framed:
  assumes "RESP_SIZE \<le> length response" "md_payload_size meta \<le> length recv_buf"
  shows "\<exists>b n. encode_message response meta recv_buf = Some (b, n) \<and> length b = length response
    \<and> RESP_SIZE \<le> n \<and> n \<le> length response"
proof -
  let ?pl = "take (md_payload_size meta) recv_buf"
  show ?thesis
  proof (cases "length ?pl \<le> MAX_PAYLOAD_SIZE \<and> RESP_SIZE + length ?pl \<le> length response")
    case True
    with encode_recv_response_ok [of ?pl response "md_msg_type meta" "md_msg_ic meta" "md_remote_eid meta" "md_msg_tag meta"]
      assms show ?thesis
      by (auto simp: encode_message_def slice_to_def or_internal_error_def)
  next
    case False
    then have "\<exists>e. encode_recv_response response (md_msg_type meta) (md_msg_ic meta) (md_remote_eid meta)
        (md_msg_tag meta) ?pl = (response, Inl e)"
      by (auto simp: encode_recv_response_def Let_def)
    with encode_error_eq [OF assms(1), of RcInternalError] assms show ?thesis
      by (auto simp: encode_message_def slice_to_def or_internal_error_def)
  qed
qed

lemma send_reply_eq:
  assumes "RESP_SIZE \<le> length response"
  shows "\<exists>b. (case res of Inr t \<Rightarrow> or_internal_error (encode_send_response response t)
      | Inl e \<Rightarrow> encode_error response e) = (b, RESP_SIZE) \<and> length b = length response
    \<and> take RESP_SIZE b =
        response_to_bytes (case res of Inr t \<Rightarrow> response_success\<lparr>rs_tag := t\<rparr> | Inl e \<Rightarrow> response_error e)"
  using or_internal_put_eq [OF assms] encode_error_eq [OF assms]
  by (cases res) (auto simp: encode_send_response_def)

lemma dispatch_send_framed:
  assumes "RESP_SIZE \<le> length response"
  shows "\<exists>s' b. dispatch_send ops request header response s = (s', b, RESP_SIZE) \<and> length b = length response
    \<and> outstanding s' = outstanding s"
proof -
  let ?f = "rq_flags header"
  obtain s' res where r: "server_send ops s (if ?f AND FLAG_HAS_HANDLE \<noteq> 0 then Some (rq_handle header) else None)
      (rq_msg_type header) (if ?f AND FLAG_HAS_EID \<noteq> 0 then Some (rq_eid header) else None)
      (if ?f AND FLAG_HAS_TAG \<noteq> 0 then Some (rq_tag header) else None) (?f AND FLAG_IC \<noteq> 0)
      (get_request_payload request) = (s', res)" by force
  then have "outstanding s' = outstanding s" by (metis fst_conv outstanding_frame(5))
  with r send_reply_eq [OF assms, of res] show ?thesis
    by (cases res) (auto simp: dispatch_send_def Let_def)
qed

lemma dispatch_recv_framed:
  assumes "server_inv N s" "RESP_SIZE \<le> length response"
    "\<And>r c r' msg. rt_recv ops r c = (r', Some msg) \<Longrightarrow> length (mm_payload msg) \<le> length recv_buf"
  shows "\<exists>s' b buf' outcome. dispatch_recv ops N request header response s recv_buf now = Some (s', b, buf', outcome)
    \<and> server_inv N s' \<and> length b = length response \<and> length buf' = length recv_buf
    \<and> (case outcome of Reply n \<Rightarrow> RESP_SIZE \<le> n \<and> n \<le> length response
       | Pending h \<Rightarrow> b = response \<and> rq_handle header = h)"
proof -
  obtain r a where a: "rt_recv ops (stack s) (ucast (rq_handle header)) = (r, a)" by force
  show ?thesis
  proof (cases a)
    case None
    with a register_recv_cases(1) [of N "s\<lparr>stack := r\<rparr>"] assms(1) show ?thesis
      by (auto simp: dispatch_recv_def try_recv_def)
  next
    case (Some msg)
    with assms(3) [of _ _ r msg] a have "length (mm_payload msg) \<le> length recv_buf" by blast
    then show ?thesis
      using a Some assms(1) encode_message_framed [OF assms(2), of "metadata_of msg" "copy_payload msg recv_buf"]
      by (auto simp: dispatch_recv_def try_recv_def metadata_of_def copy_payload_def)
  qed
qed

lemma updated_keys:
  assumes "server_inv N s" "server_update ops N s now buf = (s', buf', to, ready)"
  shows "fst ` set ready \<subseteq> fst ` set (outstanding s)"
proof -
  obtain r1 t where u: "rt_update ops (stack s) now = (r1, t)" by force
  obtain r2 as where p: "poll_all ops r1 (map fst (outstanding s)) = (r2, as)" by force
  show ?thesis
    using server_update_eq [OF assms(1) u p, of buf] assms(2) verdict_keys_subset [of now "outstanding s" as] by simp
qed

lemma answer_ready_keys:
  "answer_ready buf resp ready = Some (resp', calls) \<Longrightarrow> map fst calls = map fst ready"
  by (induction buf resp ready arbitrary: resp' calls rule: answer_ready.induct)
    (auto split: option.splits)

section \<open>Properties\<close>

text \<open>
  C17: The dispatcher never panics, answers every request, and keeps the table. With a response buffer
  that holds a header and a router whose messages fit the receive buffer, any byte string
  whatsoever given as a request leads to a result: either a reply of at least a header and at most
  the buffer, or \<open>Pending\<close>, and that only for a \<open>Recv\<close> request on the handle it names. The table of
  outstanding receives keeps distinct keys within its capacity, and the buffers keep their length.
\<close>

theorem dispatch_total:
  assumes "server_inv N s" "12 \<le> length response"
    "\<And>r c r' msg. rt_recv ops r c = (r', Some msg) \<Longrightarrow> length (mm_payload msg) \<le> length recv_buf"
  shows "\<exists>s' response' recv_buf' outcome.
    dispatch_mctp_op ops N request response s recv_buf now = Some (s', response', recv_buf', outcome)
    \<and> server_inv N s' \<and> length response' = length response \<and> length recv_buf' = length recv_buf
    \<and> (case outcome of
         Reply n \<Rightarrow> 12 \<le> n \<and> n \<le> length response
       | Pending h \<Rightarrow> response' = response
           \<and> (\<exists>hdr. request_from_bytes request = Some hdr \<and> operation hdr = Some OpRecv \<and> rq_handle hdr = h))"
proof -
  have resp: "RESP_SIZE \<le> length response" and R12: "RESP_SIZE = 12" using assms(2) by (simp_all add: RESP_SIZE_def)
  have inv: "server_inv N s'" if "outstanding s' = outstanding s" for s'
    using assms(1) that by (simp add: server_inv_def)
  note frame = outstanding_frame [where s = s and ops = ops]
  show ?thesis
  proof (cases "request_from_bytes request")
    case None
    with encode_error_eq [OF resp, of RcBadArgument] assms(1,2) show ?thesis
      by (auto simp: dispatch_mctp_op_def Let_def R12)
  next
    case (Some hdr)
    note hdr = Some
    show ?thesis
    proof (cases "operation hdr")
      case None
      with encode_error_eq [OF resp, of RcBadArgument] assms(1,2) hdr show ?thesis
        by (auto simp: dispatch_mctp_op_def Let_def R12)
    next
      case (Some op)
      note D = dispatch_mctp_op_def hdr Some Let_def R12
      show ?thesis
      proof (cases op)
        case OpSetEid
        obtain s' res where r: "server_set_eid ops s (rq_eid hdr) = (s', res)" by force
        with frame(3) [of "rq_eid hdr"] have "server_inv N s'" by (intro inv) simp
        with r OpSetEid unit_reply_eq [OF resp, of res] assms(2) show ?thesis by (auto simp: D)
      next
        case OpGetEid
        with or_internal_put_eq [OF resp, of "response_success\<lparr>rs_eid := server_get_eid ops s\<rparr>"] assms(1,2)
        show ?thesis by (auto simp: D encode_get_eid_response_def)
      next
        case OpListener
        obtain s' res where r: "server_listener ops s (rq_msg_type hdr) = (s', res)" by force
        with frame(2) [of "rq_msg_type hdr"] have "server_inv N s'" by (intro inv) simp
        with r OpListener handle_reply_eq [OF resp, of res] assms(2) show ?thesis by (auto simp: D)
      next
        case OpReq
        obtain s' res where r: "server_req ops s (rq_eid hdr) = (s', res)" by force
        with frame(1) [of "rq_eid hdr"] have "server_inv N s'" by (intro inv) simp
        with r OpReq handle_reply_eq [OF resp, of res] assms(2) show ?thesis by (auto simp: D)
      next
        case OpRecv
        with dispatch_recv_framed [OF assms(1) resp, of ops recv_buf request hdr now] assms(3) show ?thesis
          by (fastforce simp: D split: dispatch_outcome.splits)
      next
        case OpSend
        with dispatch_send_framed [OF resp, of ops request hdr s] assms(2) show ?thesis
          by (auto simp: D intro: inv)
      next
        case OpUnbind
        obtain s' res where r: "server_unbind ops s (rq_handle hdr) = (s', res)" by force
        with server_inv_unbind [OF assms(1), of ops "rq_handle hdr"] have "server_inv N s'" by simp
        with r OpUnbind unit_reply_eq [OF resp, of res] assms(2) show ?thesis by (auto simp: D)
      qed
    qed
  qed
qed

text \<open>A silent router never delivers: its answers are all \<open>None\<close>.\<close>

definition silent_router :: "unit router_ops" where
  "silent_router = \<lparr>rt_req = (\<lambda>q eid. (q, Inr 1)), rt_listener = (\<lambda>q t. (q, Inr 2)), rt_get_eid = (\<lambda>q. 8),
     rt_set_eid = (\<lambda>q e. (q, Inr ())), rt_recv = (\<lambda>q c. (q, None)),
     rt_send = (\<lambda>q eid typ t ic c buf. (q, Inl MeBadArgument)), rt_update = (\<lambda>q now. (q, Inr 100)),
     rt_unbind = (\<lambda>q c. (q, Inr ())), rt_inbound = (\<lambda>q pkt. (q, Inr None))\<rparr>"

theorem dispatch_total_witness:
  "dispatch_mctp_op silent_router 16 [9, 9, 9] (replicate 16 0) (server_new ()) [] 5 \<noteq> None"
proof -
  have "server_inv 16 (server_new ())" by (rule server_inv_new)
  moreover have "12 \<le> length (replicate 16 (0 :: u8))" by simp
  moreover have "rt_recv silent_router r c = (r', Some msg) \<Longrightarrow> length (mm_payload msg) \<le> length ([] :: u8 list)"
    for r c r' msg by (simp add: silent_router_def)
  ultimately show ?thesis
    using dispatch_total [of 16 "server_new ()" "replicate 16 0" silent_router "[]" "[9, 9, 9]" 5] by fastforce
qed

text \<open>
  A receive beyond the capacity of the table is lost. When the table is full and no message waits,
  \<open>dispatch_mctp_op\<close> ignores the \<open>NoSpace\<close> error of \<open>register_recv\<close> and still returns \<open>Pending\<close>: the
  table is unchanged, and no later \<open>drive_pending\<close> from that state, at any time, answers the handle,
  although a timeout was requested.
\<close>

theorem full_table_recv_lost:
  assumes "server_inv N s" "length (outstanding s) = N" "h \<notin> fst ` set (outstanding s)"
    "rt_recv ops (stack s) (ucast h) = (r, None)" "encode_recv buf h t = (out, Inr n)"
  shows "dispatch_mctp_op ops N (take n out) response s recv_buf now =
      Some (s\<lparr>stack := r\<rparr>, response, recv_buf, Pending h)
    \<and> (\<forall>now' buf' resp'. case drive_pending ops N (s\<lparr>stack := r\<rparr>) now' buf' resp' of
          Some (s2, b2, r2, calls) \<Rightarrow> h \<notin> fst ` set calls | None \<Rightarrow> True)"
proof
  let ?hdr = "\<lparr>rq_op = op_to_u8 OpRecv, rq_flags = FLAG_HAS_HANDLE, rq_msg_type = 0, rq_eid = 0, rq_handle = h, rq_tag = 0\<rparr>"
  let ?s = "s\<lparr>stack := r\<rparr>"
  have "REQ_SIZE + 4 \<le> length buf" using assms(5) by (auto simp: encode_recv_def Let_def split: if_splits)
  then have req: "take n out = request_to_bytes ?hdr @ to_le_bytes32 t"
    using encode_recv_ok [of buf h t] assms(5) by auto
  have "register_recv N ?s h t now = (?s, Inl RcNoSpace)"
    using assms(2,3) by (auto simp: register_recv_def Let_def lm_contains_iff map_of_eq_None_iff lm_insert_def
        position_key lm_absent push_cap_def split: option.split)
  then show "dispatch_mctp_op ops N (take n out) response s recv_buf now = Some (?s, response, recv_buf, Pending h)"
    using assms(4) unfolding req
    by (simp add: dispatch_mctp_op_def Let_def req.from_to_bytes operation_def op_from_u8_def dispatch_recv_def try_recv_def)
  show "\<forall>now' buf' resp'. case drive_pending ops N ?s now' buf' resp' of
          Some (s2, b2, r2, calls) \<Rightarrow> h \<notin> fst ` set calls | None \<Rightarrow> True"
  proof (intro allI)
    fix now' buf' resp'
    obtain s2 b2 to ready where u: "server_update ops N ?s now' buf' = (s2, b2, to, ready)" by (metis prod_cases4)
    have "h \<notin> fst ` set ready" using updated_keys [OF _ u] assms(1,3) by auto
    then show "case drive_pending ops N ?s now' buf' resp' of
          Some (s2, b2, r2, calls) \<Rightarrow> h \<notin> fst ` set calls | None \<Rightarrow> True"
      using answer_ready_keys [of b2 resp' ready]
      by (auto simp: drive_pending_def u simp flip: set_map split: option.splits)
  qed
qed

theorem full_table_recv_lost_witness:
  "dispatch_mctp_op silent_router 0 (take 16 (fst (encode_recv (replicate 16 0) 7 1000))) [] (server_new ()) [] 5 =
     Some (server_new (), [], [], Pending 7)"
proof -
  obtain out n where e: "encode_recv (replicate 16 0) 7 1000 = (out, Inr n)" "n = 16"
    using encode_recv_ok [of "replicate 16 0" 7 1000] by (auto simp: REQ_SIZE_def)
  have "server_inv 0 (server_new ())" by (rule server_inv_new)
  from full_table_recv_lost [OF this _ _ _ e(1), of silent_router "()" "[]" "[]" 5] e show ?thesis
    by (simp add: server_new_def silent_router_def)
qed

text \<open>
  Two receives resolved by one \<open>drive_pending\<close> get the same bytes. \<open>update\<close> copies every ready
  message to the front of the one receive buffer before any answer is encoded, so with messages
  \<open>[1, 2]\<close> and \<open>[3, 4]\<close> waiting for handles 1 and 2, both replies carry the payload \<open>[3, 4]\<close>.
\<close>

theorem drive_pending_shares_buffer:
  "map_option (\<lambda>(s, buf, resp, calls). map (\<lambda>(h, bytes). (h, drop 12 bytes)) calls)
     (drive_pending queue_router 16
       \<lparr>stack = [(1, sample_message [1, 2]), (2, sample_message [3, 4])],
        outstanding = [(1, \<lparr>deadline = 0\<rparr>), (2, \<lparr>deadline = 0\<rparr>)]\<rparr> 0 (replicate 8 0) (replicate 20 0)) =
   Some [(1, [3, 4]), (2, [3, 4])]"
  by code_simp

end
