(* ===== verification/Mctp_Client.thy ===== *)
theory Mctp_Client
  imports Mctp_Dispatch
begin

unbundle bit_operations_syntax

text \<open>
  The client side of the MCTP service. \<open>IpcMctpClient\<close> (\<open>services/mctp/client-ipc/src/lib.rs\<close>) encodes each
  call into its request buffer, performs one synchronous \<open>channel_transact\<close> and decodes the response
  buffer; the system call belongs to the Pigweed kernel and is a parameter: a function of a world
  state, the channel handle, the request bytes and the response buffer. \<open>Stack\<close>
  (\<open>services/mctp/api/src/stack.rs\<close>) builds request, listener and response channels on any
  \<open>MctpClient\<close>, which is the record \<open>mctp_client\<close> of its methods over a client state.
\<close>

section \<open>The client trait\<close>

record 'c mctp_client =
  cl_req :: "'c \<Rightarrow> u8 \<Rightarrow> 'c \<times> (response_code, handle) result"
  cl_listener :: "'c \<Rightarrow> u8 \<Rightarrow> 'c \<times> (response_code, handle) result"
  cl_get_eid :: "'c \<Rightarrow> 'c \<times> u8"
  cl_set_eid :: "'c \<Rightarrow> u8 \<Rightarrow> 'c \<times> (response_code, unit) result"
  cl_recv :: "'c \<Rightarrow> handle \<Rightarrow> u32 \<Rightarrow> u8 list \<Rightarrow> 'c \<times> u8 list \<times> (response_code, recv_metadata) result"
  cl_send :: "'c \<Rightarrow> handle option \<Rightarrow> u8 \<Rightarrow> u8 option \<Rightarrow> u8 option \<Rightarrow> bool \<Rightarrow> u8 list \<Rightarrow> 'c \<times> (response_code, u8) result"
  cl_drop_handle :: "'c \<Rightarrow> handle \<Rightarrow> 'c"

section \<open>The IPC client\<close>

type_synonym 'w channel = "'w \<Rightarrow> u32 \<Rightarrow> u8 list \<Rightarrow> u8 list \<Rightarrow> 'w \<times> u8 list \<times> (unit, nat) result"

record 'w ipc_client =
  ic_handle :: u32
  ic_request_buf :: "u8 list"
  ic_response_buf :: "u8 list"
  ic_world :: 'w

definition ipc_new :: "u32 \<Rightarrow> 'w \<Rightarrow> 'w ipc_client" where
  "ipc_new h w = \<lparr>ic_handle = h, ic_request_buf = replicate MAX_REQUEST_SIZE 0,
     ic_response_buf = replicate MAX_RESPONSE_SIZE 0, ic_world = w\<rparr>"

definition send_recv :: "'w channel \<Rightarrow> 'w ipc_client \<Rightarrow> nat \<Rightarrow> 'w ipc_client \<times> (response_code, nat) result" where
  "send_recv ch c req_len =
     (if req_len > MAX_REQUEST_SIZE then (c, Inl RcInternalError)
      else
        let req_copy = take req_len (ic_request_buf c)
        in case ch (ic_world c) (ic_handle c) req_copy (ic_response_buf c) of
             (w, resp, Inr n) \<Rightarrow> (c\<lparr>ic_world := w, ic_response_buf := resp\<rparr>, Inr n)
           | (w, resp, Inl _) \<Rightarrow> (c\<lparr>ic_world := w, ic_response_buf := resp\<rparr>, Inl RcInternalError))"

definition transact ::
    "'w channel \<Rightarrow> 'w ipc_client \<Rightarrow> nat \<Rightarrow> 'w ipc_client \<times> (response_code, response_header \<times> nat) result" where
  "transact ch c req_len =
     (case send_recv ch c req_len of
        (c', Inl e) \<Rightarrow> (c', Inl e)
      | (c', Inr resp_len) \<Rightarrow>
          if resp_len < RESP_SIZE \<or> resp_len > MAX_RESPONSE_SIZE then (c', Inl RcInternalError)
          else
            (case decode_response_header (take resp_len (ic_response_buf c')) of
               Inl _ \<Rightarrow> (c', Inl RcInternalError)
             | Inr header \<Rightarrow>
                 if \<not> is_success header then (c', Inl (header_response_code header))
                 else (c', Inr (header, resp_len))))"

text \<open>Store an encoded request and go on with its length, or fail with \<open>InternalError\<close>.\<close>

definition with_request ::
    "'w ipc_client \<Rightarrow> encoded \<Rightarrow> ('w ipc_client \<Rightarrow> nat \<Rightarrow> 'w ipc_client \<times> (response_code, 'a) result)
     \<Rightarrow> 'w ipc_client \<times> (response_code, 'a) result" where
  "with_request c enc k =
     (case enc of
        (buf, Inr n) \<Rightarrow> k (c\<lparr>ic_request_buf := buf\<rparr>) n
      | (buf, Inl _) \<Rightarrow> (c\<lparr>ic_request_buf := buf\<rparr>, Inl RcInternalError))"

definition on_header :: "(response_header \<Rightarrow> 'a) \<Rightarrow> 's \<times> (response_code, response_header \<times> nat) result \<Rightarrow> 's \<times> (response_code, 'a) result" where
  "on_header f r = (case r of (c, Inr (header, _)) \<Rightarrow> (c, Inr (f header)) | (c, Inl e) \<Rightarrow> (c, Inl e))"

definition ipc_req :: "'w channel \<Rightarrow> 'w ipc_client \<Rightarrow> u8 \<Rightarrow> 'w ipc_client \<times> (response_code, handle) result" where
  "ipc_req ch c eid =
     with_request c (encode_req (ic_request_buf c) eid) (\<lambda>c n. on_header rs_handle (transact ch c n))"

definition ipc_listener :: "'w channel \<Rightarrow> 'w ipc_client \<Rightarrow> u8 \<Rightarrow> 'w ipc_client \<times> (response_code, handle) result" where
  "ipc_listener ch c msg_type =
     with_request c (encode_listener (ic_request_buf c) msg_type) (\<lambda>c n. on_header rs_handle (transact ch c n))"

definition ipc_get_eid :: "'w channel \<Rightarrow> 'w ipc_client \<Rightarrow> 'w ipc_client \<times> u8" where
  "ipc_get_eid ch c =
     (case encode_get_eid (ic_request_buf c) of
        (buf, Inl _) \<Rightarrow> (c\<lparr>ic_request_buf := buf\<rparr>, 0)
      | (buf, Inr n) \<Rightarrow>
          (case transact ch (c\<lparr>ic_request_buf := buf\<rparr>) n of
             (c', Inr (header, _)) \<Rightarrow> (c', rs_eid header)
           | (c', Inl _) \<Rightarrow> (c', 0)))"

definition ipc_set_eid :: "'w channel \<Rightarrow> 'w ipc_client \<Rightarrow> u8 \<Rightarrow> 'w ipc_client \<times> (response_code, unit) result" where
  "ipc_set_eid ch c eid =
     with_request c (encode_set_eid (ic_request_buf c) eid) (\<lambda>c n. on_header (\<lambda>_. ()) (transact ch c n))"

definition ipc_recv ::
    "'w channel \<Rightarrow> 'w ipc_client \<Rightarrow> handle \<Rightarrow> u32 \<Rightarrow> u8 list
     \<Rightarrow> 'w ipc_client \<times> u8 list \<times> (response_code, recv_metadata) result" where
  "ipc_recv ch c handle timeout_millis buf =
     (case encode_recv (ic_request_buf c) handle timeout_millis of
        (rb, Inl _) \<Rightarrow> (c\<lparr>ic_request_buf := rb\<rparr>, buf, Inl RcInternalError)
      | (rb, Inr n) \<Rightarrow>
          (case transact ch (c\<lparr>ic_request_buf := rb\<rparr>) n of
             (c', Inl e) \<Rightarrow> (c', buf, Inl e)
           | (c', Inr (header, resp_len)) \<Rightarrow>
               (case get_response_payload (take resp_len (ic_response_buf c')) header of
                  Inl _ \<Rightarrow> (c', buf, Inl RcInternalError)
                | Inr payload \<Rightarrow>
                    let copy_len = min (length payload) (length buf)
                    in (c', write_at 0 (take copy_len payload) buf,
                        Inr \<lparr>md_msg_type = rs_msg_type header, md_msg_ic = (rs_flags header AND FLAG_IC \<noteq> 0),
                             md_msg_tag = rs_tag header, md_remote_eid = rs_eid header,
                             md_payload_size = length payload\<rparr>))))"

definition ipc_send ::
    "'w channel \<Rightarrow> 'w ipc_client \<Rightarrow> handle option \<Rightarrow> u8 \<Rightarrow> u8 option \<Rightarrow> u8 option \<Rightarrow> bool \<Rightarrow> u8 list
     \<Rightarrow> 'w ipc_client \<times> (response_code, u8) result" where
  "ipc_send ch c handle msg_type eid tag ic buf =
     with_request c (encode_send (ic_request_buf c) handle msg_type eid tag ic buf)
       (\<lambda>c n. on_header rs_tag (transact ch c n))"

definition ipc_drop_handle :: "'w channel \<Rightarrow> 'w ipc_client \<Rightarrow> handle \<Rightarrow> 'w ipc_client" where
  "ipc_drop_handle ch c handle =
     (case encode_unbind (ic_request_buf c) handle of
        (buf, Inl _) \<Rightarrow> c\<lparr>ic_request_buf := buf\<rparr>
      | (buf, Inr n) \<Rightarrow> fst (transact ch (c\<lparr>ic_request_buf := buf\<rparr>) n))"

definition ipc_client_ops :: "'w channel \<Rightarrow> 'w ipc_client mctp_client" where
  "ipc_client_ops ch = \<lparr>cl_req = ipc_req ch, cl_listener = ipc_listener ch, cl_get_eid = ipc_get_eid ch,
     cl_set_eid = ipc_set_eid ch, cl_recv = ipc_recv ch, cl_send = ipc_send ch, cl_drop_handle = ipc_drop_handle ch\<rparr>"

section \<open>Channels of the stack facade\<close>

record req_channel =
  rc_handle :: handle
  rc_eid :: u8
  rc_sent_tag :: "u8 option"
  rc_timeout :: u32

record listener_channel =
  lc_handle :: handle
  lc_timeout :: u32

record resp_channel =
  pc_eid :: u8
  pc_msg_type :: u8
  pc_tag :: u8

definition stack_req :: "'c mctp_client \<Rightarrow> 'c \<Rightarrow> u8 \<Rightarrow> u32 \<Rightarrow> 'c \<times> (response_code, req_channel) result" where
  "stack_req cl c eid timeout =
     (case cl_req cl c eid of
        (c', Inl e) \<Rightarrow> (c', Inl e)
      | (c', Inr h) \<Rightarrow> (c', Inr \<lparr>rc_handle = h, rc_eid = eid, rc_sent_tag = None, rc_timeout = timeout\<rparr>))"

definition stack_listener :: "'c mctp_client \<Rightarrow> 'c \<Rightarrow> u8 \<Rightarrow> u32 \<Rightarrow> 'c \<times> (response_code, listener_channel) result" where
  "stack_listener cl c msg_type timeout =
     (case cl_listener cl c msg_type of
        (c', Inl e) \<Rightarrow> (c', Inl e)
      | (c', Inr h) \<Rightarrow> (c', Inr \<lparr>lc_handle = h, lc_timeout = timeout\<rparr>))"

definition req_send :: "'c mctp_client \<Rightarrow> 'c \<Rightarrow> req_channel \<Rightarrow> u8 \<Rightarrow> u8 list \<Rightarrow> 'c \<times> req_channel \<times> (response_code, unit) result" where
  "req_send cl c ch msg_type buf =
     (if rc_sent_tag ch \<noteq> None then (c, ch, Inl RcBadArgument)
      else
        case cl_send cl c (Some (rc_handle ch)) msg_type None None False buf of
          (c', Inl e) \<Rightarrow> (c', ch, Inl e)
        | (c', Inr tag) \<Rightarrow> (c', ch\<lparr>rc_sent_tag := Some tag\<rparr>, Inr ()))"

text \<open>The slice \<open>&mut buf[..len]\<close> of the result panics (\<open>None\<close>) when \<open>len\<close> exceeds the buffer.\<close>

definition req_recv ::
    "'c mctp_client \<Rightarrow> 'c \<Rightarrow> req_channel \<Rightarrow> u8 list
     \<Rightarrow> ('c \<times> req_channel \<times> u8 list \<times> (response_code, recv_metadata \<times> u8 list) result) option" where
  "req_recv cl c ch buf =
     (if rc_sent_tag ch = None then Some (c, ch, buf, Inl RcBadArgument)
      else
        case cl_recv cl c (rc_handle ch) (rc_timeout ch) buf of
          (c', buf', Inl e) \<Rightarrow> Some (c', ch, buf', Inl e)
        | (c', buf', Inr meta) \<Rightarrow>
            map_option (\<lambda>payload. (c', ch\<lparr>rc_sent_tag := None\<rparr>, buf', Inr (meta, payload)))
              (slice_to (md_payload_size meta) buf'))"

definition req_drop :: "'c mctp_client \<Rightarrow> 'c \<Rightarrow> req_channel \<Rightarrow> 'c" where
  "req_drop cl c ch = cl_drop_handle cl c (rc_handle ch)"

definition listener_set_timeout :: "listener_channel \<Rightarrow> u32 \<Rightarrow> listener_channel" where
  "listener_set_timeout lc t = lc\<lparr>lc_timeout := t\<rparr>"

definition listener_recv ::
    "'c mctp_client \<Rightarrow> 'c \<Rightarrow> listener_channel \<Rightarrow> u8 list
     \<Rightarrow> ('c \<times> u8 list \<times> (response_code, recv_metadata \<times> u8 list \<times> resp_channel) result) option" where
  "listener_recv cl c lc buf =
     (case cl_recv cl c (lc_handle lc) (lc_timeout lc) buf of
        (c', buf', Inl e) \<Rightarrow> Some (c', buf', Inl e)
      | (c', buf', Inr meta) \<Rightarrow>
          map_option (\<lambda>payload. (c', buf', Inr (meta, payload,
              \<lparr>pc_eid = md_remote_eid meta, pc_msg_type = md_msg_type meta, pc_tag = md_msg_tag meta\<rparr>)))
            (slice_to (md_payload_size meta) buf'))"

definition listener_drop :: "'c mctp_client \<Rightarrow> 'c \<Rightarrow> listener_channel \<Rightarrow> 'c" where
  "listener_drop cl c lc = cl_drop_handle cl c (lc_handle lc)"

definition resp_send :: "'c mctp_client \<Rightarrow> 'c \<Rightarrow> resp_channel \<Rightarrow> u8 list \<Rightarrow> 'c \<times> (response_code, unit) result" where
  "resp_send cl c pc buf =
     (case cl_send cl c None (pc_msg_type pc) (Some (pc_eid pc)) (Some (pc_tag pc)) False buf of
        (c', Inl e) \<Rightarrow> (c', Inl e)
      | (c', Inr _) \<Rightarrow> (c', Inr ()))"

section \<open>A channel served by the dispatcher\<close>

text \<open>
  The composition of the two processes: the request bytes reach \<open>dispatch_mctp_op\<close>, and a reply of
  \<open>n\<close> bytes comes back at the front of the client's response buffer (the arm of the server loop for
  a readable channel). A receive that stays pending, and a panicked server, give no answer; they
  are the error of the system call here. The server loop of the AST10x0 image answers \<open>Recv\<close> in an
  arm of its own instead of through the dispatcher: with a message waiting it makes the same call
  of \<open>try_recv\<close> and encodes the same reply, which is the case the theorems below use; with none it
  parks the request in the loop rather than in the server, and gives no answer either.
\<close>

record 'r served =
  sv_server :: "'r server"
  sv_response :: "u8 list"
  sv_recv :: "u8 list"

definition served_channel :: "'r router_ops \<Rightarrow> nat \<Rightarrow> u64 \<Rightarrow> 'r served channel" where
  "served_channel ops N now w h request resp_buf =
     (case dispatch_mctp_op ops N request (sv_response w) (sv_server w) (sv_recv w) now of
        Some (s, response, recv_buf, Reply n) \<Rightarrow>
          (\<lparr>sv_server = s, sv_response = response, sv_recv = recv_buf\<rparr>, write_at 0 (take n response) resp_buf, Inr n)
      | Some (s, response, recv_buf, Pending _) \<Rightarrow>
          (\<lparr>sv_server = s, sv_response = response, sv_recv = recv_buf\<rparr>, resp_buf, Inl ())
      | None \<Rightarrow> (w, resp_buf, Inl ()))"


section \<open>The service interface\<close>

text \<open>
  What the stack facade relies on of a client: each call acts on the server behind it as the server
  operation does. A receive is only specified when a message is waiting; the copy into the
  caller's buffer is truncated while the reported size is the full one.
\<close>

locale mctp_service =
  fixes cl :: "'c mctp_client" and server_of :: "'c \<Rightarrow> 'r server" and ok :: "'c \<Rightarrow> bool" and ops :: "'r router_ops"
  assumes req_law: "ok c \<Longrightarrow> ok (fst (cl_req cl c e)) \<and>
        (server_of (fst (cl_req cl c e)), snd (cl_req cl c e)) = server_req ops (server_of c) e"
    and listener_law: "ok c \<Longrightarrow> ok (fst (cl_listener cl c ty)) \<and>
        (server_of (fst (cl_listener cl c ty)), snd (cl_listener cl c ty)) = server_listener ops (server_of c) ty"
    and send_law: "ok c \<Longrightarrow> length buf \<le> MAX_PAYLOAD_SIZE \<Longrightarrow> ok (fst (cl_send cl c oh ty oe tg ic buf)) \<and>
        (server_of (fst (cl_send cl c oh ty oe tg ic buf)), snd (cl_send cl c oh ty oe tg ic buf)) =
          server_send ops (server_of c) oh ty oe tg ic buf"
    and recv_law: "ok c \<Longrightarrow> rt_recv ops (stack (server_of c)) (ucast h) = (r, Some msg) \<Longrightarrow>
        length (mm_payload msg) \<le> MAX_PAYLOAD_SIZE \<Longrightarrow>
        \<exists>c'. cl_recv cl c h t buf =
            (c', write_at 0 (take (min (length (mm_payload msg)) (length buf)) (mm_payload msg)) buf, Inr (metadata_of msg))
          \<and> ok c' \<and> server_of c' = (server_of c)\<lparr>stack := r\<rparr>"
begin

lemma listener_recv_message:
  assumes "ok c" "rt_recv ops (stack (server_of c)) (ucast (lc_handle lc)) = (r, Some msg)"
    "length (mm_payload msg) \<le> MAX_PAYLOAD_SIZE" "length (mm_payload msg) \<le> length buf"
  shows "\<exists>c' buf'. listener_recv cl c lc buf = Some (c', buf', Inr (metadata_of msg, mm_payload msg,
      \<lparr>pc_eid = mm_source msg, pc_msg_type = mm_typ msg, pc_tag = tag_value (mm_tag msg)\<rparr>))
    \<and> ok c' \<and> server_of c' = (server_of c)\<lparr>stack := r\<rparr>"
  using recv_law [OF assms(1-3), of "lc_timeout lc" buf] assms(4)
  by (auto simp: listener_recv_def slice_to_def metadata_of_def write_at_0)

lemma small_buffer_panics:
  assumes "ok c" "rt_recv ops (stack (server_of c)) (ucast h) = (r, Some msg)"
    "length buf < length (mm_payload msg)" "length (mm_payload msg) \<le> MAX_PAYLOAD_SIZE"
  shows "lc_handle lc = h \<Longrightarrow> listener_recv cl c lc buf = None"
    "rc_handle rc = h \<Longrightarrow> rc_sent_tag rc \<noteq> None \<Longrightarrow> req_recv cl c rc buf = None"
  using recv_law [OF assms(1,2,4), of "lc_timeout lc" buf] recv_law [OF assms(1,2,4), of "rc_timeout rc" buf] assms(3)
  by (auto simp: listener_recv_def req_recv_def slice_to_def metadata_of_def write_at_0)

lemma resp_send_routed:
  assumes "ok c" "length buf \<le> MAX_PAYLOAD_SIZE"
    "rt_send ops (stack (server_of c)) (Some (pc_eid pc)) (pc_msg_type pc) (Some (Unowned (pc_tag pc))) False 255 buf = (r, res)"
  shows "\<exists>c'. resp_send cl c pc buf =
      (c', case res of Inr _ \<Rightarrow> Inr () | Inl e \<Rightarrow> Inl (mctp_error_to_server_error e))
    \<and> ok c' \<and> stack (server_of c') = r"
  using send_law [OF assms(1,2), of None "pc_msg_type pc" "Some (pc_eid pc)" "Some (pc_tag pc)" False] assms(2,3)
  by (cases "cl_send cl c None (pc_msg_type pc) (Some (pc_eid pc)) (Some (pc_tag pc)) False buf"; cases res)
    (auto simp: resp_send_def server_send_def unwrap_or_def Let_def MAX_PAYLOAD_def MAX_PAYLOAD_SIZE_def)

end

section \<open>The IPC client implements the service\<close>

definition wired :: "'r served ipc_client \<Rightarrow> bool" where
  "wired c \<longleftrightarrow> length (ic_request_buf c) = MAX_REQUEST_SIZE \<and> length (ic_response_buf c) = MAX_RESPONSE_SIZE
     \<and> length (sv_response (ic_world c)) = MAX_RESPONSE_SIZE \<and> length (sv_recv (ic_world c)) = MAX_PAYLOAD_SIZE"

abbreviation server_at :: "'r served ipc_client \<Rightarrow> 'r server" where
  "server_at c \<equiv> sv_server (ic_world c)"

lemma response_error_decode [simp]:
  "is_success (response_error e) \<longleftrightarrow> e = RcSuccess" "header_response_code (response_error e) = e"
  by (cases e; simp add: is_success_def response_error_def header_response_code_def code_from_u8_def)+

lemma response_success_decode [simp]:
  "is_success response_success" "is_success (response_success\<lparr>rs_eid := e\<rparr>)"
  "is_success (response_success\<lparr>rs_handle := h\<rparr>)" "is_success (response_success\<lparr>rs_tag := t\<rparr>)"
  by (simp_all add: is_success_def response_success_def)

lemma server_error_not_success [simp]: "mctp_error_to_server_error e \<noteq> RcSuccess"
  by (cases e) simp_all

lemma transact_served:
  assumes "wired c" "n \<le> MAX_REQUEST_SIZE"
    "dispatch_mctp_op ops N (take n (ic_request_buf c)) (sv_response (ic_world c)) (server_at c) (sv_recv (ic_world c)) now
       = Some (s', b, rb, Reply m)"
    "length b = MAX_RESPONSE_SIZE" "length rb = MAX_PAYLOAD_SIZE" "m \<le> MAX_RESPONSE_SIZE"
    "take m b = response_to_bytes hdr @ rest"
  obtains c' where "transact (served_channel ops N now) c n =
      (c', if is_success hdr then Inr (hdr, m) else Inl (header_response_code hdr))"
    "wired c'" "server_at c' = s'" "take m (ic_response_buf c') = response_to_bytes hdr @ rest"
proof -
  let ?rb = "write_at 0 (take m b) (ic_response_buf c)"
  let ?c = "c\<lparr>ic_world := \<lparr>sv_server = s', sv_response = b, sv_recv = rb\<rparr>, ic_response_buf := ?rb\<rparr>"
  have m: "length (take m b) = m" "RESP_SIZE \<le> m"
    using assms(4,6,7) rsp.length_to_bytes [of hdr] by (auto dest: arg_cong [where f = length])
  have front: "take m ?rb = response_to_bytes hdr @ rest" using m(1) assms(7) by (simp add: write_at_0)
  have "transact (served_channel ops N now) c n = (?c, if is_success hdr then Inr (hdr, m) else Inl (header_response_code hdr))"
    using assms(2,3,6) m front
    by (simp add: transact_def send_recv_def served_channel_def decode_response_header_def rsp.from_to_bytes)
  moreover have "wired ?c" using assms(1,4,5,6) m(1) by (simp add: wired_def)
  ultimately show thesis using front by (intro that [of ?c]) simp_all
qed

text \<open>One round trip with a reply that is a bare header.\<close>

definition replies :: "'r router_ops \<Rightarrow> nat \<Rightarrow> u64 \<Rightarrow> u8 list \<Rightarrow> 'r server \<Rightarrow> 'r server \<Rightarrow> response_header \<Rightarrow> bool" where
  "replies ops N now request s s' hdr \<longleftrightarrow>
     (\<forall>resp buf. RESP_SIZE \<le> length resp \<longrightarrow>
        (\<exists>b. dispatch_mctp_op ops N request resp s buf now = Some (s', b, buf, Reply RESP_SIZE)
           \<and> length b = length resp \<and> take RESP_SIZE b = response_to_bytes hdr))"

lemma header_call:
  assumes "wired c" "length rb = MAX_REQUEST_SIZE" "n \<le> MAX_REQUEST_SIZE"
    "replies ops N now (take n rb) (server_at c) s' hdr"
  shows "\<exists>c'. transact (served_channel ops N now) (c\<lparr>ic_request_buf := rb\<rparr>) n =
      (c', if is_success hdr then Inr (hdr, RESP_SIZE) else Inl (header_response_code hdr)) \<and> wired c' \<and> server_at c' = s'"
proof -
  let ?c = "c\<lparr>ic_request_buf := rb\<rparr>"
  have w: "wired ?c" "RESP_SIZE \<le> length (sv_response (ic_world c))"
    using assms(1,2) by (auto simp: wired_def MAX_RESPONSE_SIZE_def)
  obtain b where b: "dispatch_mctp_op ops N (take n (ic_request_buf ?c)) (sv_response (ic_world ?c)) (server_at ?c)
        (sv_recv (ic_world ?c)) now = Some (s', b, sv_recv (ic_world ?c), Reply RESP_SIZE)"
      "length b = MAX_RESPONSE_SIZE" "take RESP_SIZE b = response_to_bytes hdr @ []"
    using assms(4) [unfolded replies_def, rule_format, OF w(2), of "sv_recv (ic_world c)"] w by (auto simp: wired_def)
  have "length (sv_recv (ic_world ?c)) = MAX_PAYLOAD_SIZE" "RESP_SIZE \<le> MAX_RESPONSE_SIZE"
    using w by (simp_all add: wired_def MAX_RESPONSE_SIZE_def)
  from transact_served [OF w(1) assms(3) b(1,2) this b(3)] show ?thesis by metis
qed

lemma put_request_call:
  assumes "wired c" "replies ops N now (request_to_bytes rq) (server_at c) s' hdr"
  shows "\<exists>c' rb. put_request (ic_request_buf c) rq = (rb, Inr REQ_SIZE)
    \<and> transact (served_channel ops N now) (c\<lparr>ic_request_buf := rb\<rparr>) REQ_SIZE =
      (c', if is_success hdr then Inr (hdr, RESP_SIZE) else Inl (header_response_code hdr)) \<and> wired c' \<and> server_at c' = s'"
proof -
  have len: "REQ_SIZE \<le> length (ic_request_buf c)" "REQ_SIZE \<le> MAX_REQUEST_SIZE" "length (ic_request_buf c) = MAX_REQUEST_SIZE"
    using assms(1) by (auto simp: wired_def MAX_REQUEST_SIZE_def)
  let ?rb = "write_at 0 (request_to_bytes rq) (ic_request_buf c)"
  have "put_request (ic_request_buf c) rq = (?rb, Inr REQ_SIZE)" using len(1) by (simp add: put_request_def)
  moreover have "length ?rb = MAX_REQUEST_SIZE" "take REQ_SIZE ?rb = request_to_bytes rq"
    using req.framed_header [OF len(1), of rq] len(3) by simp_all
  ultimately show ?thesis using header_call [OF assms(1) _ len(2), of ?rb] assms(2) by auto
qed

text \<open>How the dispatcher answers each request without a receive.\<close>

lemma dispatch_op:
  assumes "operation rq = Some x"
  shows "request_from_bytes (request_to_bytes rq @ pl) = Some rq"
    "dispatch_mctp_op ops N (request_to_bytes rq @ pl) resp s buf now =
      (case x of
         OpSetEid \<Rightarrow> (case server_set_eid ops s (rq_eid rq) of
            (s', res) \<Rightarrow> (case unit_reply resp res of (b, n) \<Rightarrow> Some (s', b, buf, Reply n)))
       | OpGetEid \<Rightarrow> (case or_internal_error (encode_get_eid_response resp (server_get_eid ops s)) of
            (b, n) \<Rightarrow> Some (s, b, buf, Reply n))
       | OpListener \<Rightarrow> (case server_listener ops s (rq_msg_type rq) of
            (s', res) \<Rightarrow> (case handle_reply resp res of (b, n) \<Rightarrow> Some (s', b, buf, Reply n)))
       | OpReq \<Rightarrow> (case server_req ops s (rq_eid rq) of
            (s', res) \<Rightarrow> (case handle_reply resp res of (b, n) \<Rightarrow> Some (s', b, buf, Reply n)))
       | OpRecv \<Rightarrow> dispatch_recv ops N (request_to_bytes rq @ pl) rq resp s buf now
       | OpSend \<Rightarrow> (case dispatch_send ops (request_to_bytes rq @ pl) rq resp s of
            (s', b, n) \<Rightarrow> Some (s', b, buf, Reply n))
       | OpUnbind \<Rightarrow> (case server_unbind ops s (rq_handle rq) of
            (s', res) \<Rightarrow> (case unit_reply resp res of (b, n) \<Rightarrow> Some (s', b, buf, Reply n))))"
  using assms by (simp_all add: req.from_to_bytes dispatch_mctp_op_def Let_def case_prod_beta split: mctp_op.split)

lemmas dispatch_header_op = dispatch_op(2) [where pl = "[]", simplified]

lemma repliesI:
  assumes "\<And>resp buf. dispatch_mctp_op ops N request resp s buf now = (case f resp of (b, n) \<Rightarrow> Some (s', b, buf, Reply n))"
    "\<And>resp. RESP_SIZE \<le> length resp \<Longrightarrow>
       \<exists>b. f resp = (b, RESP_SIZE) \<and> length b = length resp \<and> take RESP_SIZE b = response_to_bytes hdr"
  shows "replies ops N now request s s' hdr"
  unfolding replies_def
proof (intro allI impI)
  fix resp buf :: "u8 list" assume "RESP_SIZE \<le> length resp"
  from assms(2) [OF this] show "\<exists>b. dispatch_mctp_op ops N request resp s buf now = Some (s', b, buf, Reply RESP_SIZE)
      \<and> length b = length resp \<and> take RESP_SIZE b = response_to_bytes hdr"
    by (auto simp: assms(1))
qed

lemma replies_unit:
  assumes "operation rq = Some OpSetEid" "server_set_eid ops s (rq_eid rq) = (s', res)"
  shows "replies ops N now (request_to_bytes rq) s s' (case res of Inr _ \<Rightarrow> response_success | Inl e \<Rightarrow> response_error e)"
  by (rule repliesI [OF _ unit_reply_eq]) (simp_all add: dispatch_header_op [OF assms(1)] assms(2))

lemma replies_unbind:
  assumes "operation rq = Some OpUnbind"
  shows "replies ops N now (request_to_bytes rq) s (fst (server_unbind ops s (rq_handle rq)))
    (case Inr () of Inr _ \<Rightarrow> response_success | Inl e \<Rightarrow> response_error e)"
  by (rule repliesI [OF _ unit_reply_eq]) (simp_all add: dispatch_header_op [OF assms] server_unbind_def)

lemma replies_get_eid:
  assumes "operation rq = Some OpGetEid"
  shows "replies ops N now (request_to_bytes rq) s s (response_success\<lparr>rs_eid := server_get_eid ops s\<rparr>)"
  by (rule repliesI [OF _ or_internal_put_eq])
    (simp_all add: dispatch_header_op [OF assms] encode_get_eid_response_def)

lemma replies_handle:
  assumes "operation rq = Some OpListener \<and> server_listener ops s (rq_msg_type rq) = (s', res)
    \<or> operation rq = Some OpReq \<and> server_req ops s (rq_eid rq) = (s', res)"
  shows "replies ops N now (request_to_bytes rq) s s'
    (case res of Inr h \<Rightarrow> response_success\<lparr>rs_handle := h\<rparr> | Inl e \<Rightarrow> response_error e)"
  using assms by (intro repliesI [OF _ handle_reply_eq]) (auto simp: dispatch_header_op)

lemma replies_send:
  assumes "server_send ops s h ty oe tg ic pl = (s', res)"
  shows "replies ops N now (request_to_bytes (send_header h ty oe tg ic) @ pl) s s'
    (case res of Inr t \<Rightarrow> response_success\<lparr>rs_tag := t\<rparr> | Inl e \<Rightarrow> response_error e)"
proof -
  have op: "operation (send_header h ty oe tg ic) = Some OpSend"
    by (simp add: operation_def send_header_def op_from_u8_def)
  have "dispatch_send ops (request_to_bytes (send_header h ty oe tg ic) @ pl) (send_header h ty oe tg ic) resp s =
      (s', case res of Inr t \<Rightarrow> or_internal_error (encode_send_response resp t) | Inl e \<Rightarrow> encode_error resp e)" for resp
    using assms send_flags_bits [of ic h oe tg]
    by (cases h; cases oe; cases tg; cases res) (simp_all add: dispatch_send_def send_header_def unwrap_or_def Let_def)
  then show ?thesis
    by (intro repliesI [OF _ send_reply_eq]) (simp_all add: dispatch_op(2) [OF op] case_prod_beta)
qed

text \<open>The header of the reply that carries a message.\<close>

definition message_header :: "mctp_message \<Rightarrow> response_header" where
  "message_header msg = \<lparr>rs_code = 0, rs_flags = (if mm_ic msg then FLAG_IC else 0), rs_msg_type = mm_typ msg,
     rs_eid = mm_source msg, rs_handle = 0, rs_payload_len = of_nat (length (mm_payload msg)), rs_tag = tag_value (mm_tag msg)\<rparr>"

lemma dispatch_recv_message:
  assumes "rt_recv ops (stack s) (ucast (rq_handle rq)) = (r, Some msg)" "length (mm_payload msg) \<le> MAX_PAYLOAD_SIZE"
    "length resp = MAX_RESPONSE_SIZE" "length buf = MAX_PAYLOAD_SIZE"
  shows "\<exists>b rb. dispatch_recv ops N request rq resp s buf now =
      Some (s\<lparr>stack := r\<rparr>, b, rb, Reply (RESP_SIZE + length (mm_payload msg)))
    \<and> length b = MAX_RESPONSE_SIZE \<and> length rb = MAX_PAYLOAD_SIZE
    \<and> take (RESP_SIZE + length (mm_payload msg)) b = response_to_bytes (message_header msg) @ mm_payload msg"
proof -
  let ?pl = "mm_payload msg" and ?rb = "write_at 0 (mm_payload msg) buf"
  obtain b where b: "encode_recv_response resp (mm_typ msg) (mm_ic msg) (mm_source msg) (tag_value (mm_tag msg)) ?pl =
        (b, Inr (RESP_SIZE + length ?pl))"
      "take (RESP_SIZE + length ?pl) b = response_to_bytes (message_header msg) @ ?pl" "length b = length resp"
    using encode_recv_response_ok [of ?pl resp "mm_typ msg" "mm_ic msg" "mm_source msg" "tag_value (mm_tag msg)"] assms(2,3)
    unfolding message_header_def MAX_RESPONSE_SIZE_def by auto
  have "take (length ?pl) ?rb = ?pl" by (simp add: write_at_0)
  then have "dispatch_recv ops N request rq resp s buf now =
      Some (s\<lparr>stack := r\<rparr>, b, ?rb, Reply (RESP_SIZE + length ?pl))"
    using assms b(1)
    by (simp add: dispatch_recv_def try_recv_def copy_payload_def encode_message_def metadata_of_def slice_to_def
        or_internal_error_def)
  then show ?thesis using assms b by simp
qed

lemma recv_transact:
  assumes "wired c" "rt_recv ops (stack (server_at c)) (ucast h) = (r, Some msg)"
    "length (mm_payload msg) \<le> MAX_PAYLOAD_SIZE"
  shows "\<exists>rb c'. encode_recv (ic_request_buf c) h t = (rb, Inr (REQ_SIZE + 4))
    \<and> transact (served_channel ops N now) (c\<lparr>ic_request_buf := rb\<rparr>) (REQ_SIZE + 4) =
        (c', Inr (message_header msg, RESP_SIZE + length (mm_payload msg)))
    \<and> wired c' \<and> server_at c' = (server_at c)\<lparr>stack := r\<rparr>
    \<and> take (RESP_SIZE + length (mm_payload msg)) (ic_response_buf c') = response_to_bytes (message_header msg) @ mm_payload msg"
proof -
  let ?rq = "\<lparr>rq_op = op_to_u8 OpRecv, rq_flags = FLAG_HAS_HANDLE, rq_msg_type = 0, rq_eid = 0, rq_handle = h, rq_tag = 0\<rparr>"
  have len: "REQ_SIZE + 4 \<le> length (ic_request_buf c)" "REQ_SIZE + 4 \<le> MAX_REQUEST_SIZE"
      "RESP_SIZE + length (mm_payload msg) \<le> MAX_RESPONSE_SIZE"
    using assms(1,3) by (auto simp: wired_def MAX_REQUEST_SIZE_def MAX_RESPONSE_SIZE_def MAX_PAYLOAD_SIZE_def)
  obtain rb where rb: "encode_recv (ic_request_buf c) h t = (rb, Inr (REQ_SIZE + 4))"
      "take (REQ_SIZE + 4) rb = request_to_bytes ?rq @ to_le_bytes32 t" "length rb = length (ic_request_buf c)"
    using encode_recv_ok [OF len(1)] by blast
  let ?c = "c\<lparr>ic_request_buf := rb\<rparr>"
  have w: "wired ?c" "length (sv_response (ic_world c)) = MAX_RESPONSE_SIZE" "length (sv_recv (ic_world c)) = MAX_PAYLOAD_SIZE"
    using assms(1) rb(3) by (simp_all add: wired_def)
  have "rt_recv ops (stack (server_at c)) (ucast (rq_handle ?rq)) = (r, Some msg)" using assms(2) by simp
  from dispatch_recv_message [OF this assms(3) w(2,3), of N "request_to_bytes ?rq @ to_le_bytes32 t" now]
  obtain b rb' where d: "dispatch_recv ops N (request_to_bytes ?rq @ to_le_bytes32 t) ?rq (sv_response (ic_world c))
        (server_at c) (sv_recv (ic_world c)) now =
        Some ((server_at c)\<lparr>stack := r\<rparr>, b, rb', Reply (RESP_SIZE + length (mm_payload msg)))"
      "length b = MAX_RESPONSE_SIZE" "length rb' = MAX_PAYLOAD_SIZE"
      "take (RESP_SIZE + length (mm_payload msg)) b = response_to_bytes (message_header msg) @ mm_payload msg"
    by blast
  have op: "operation ?rq = Some OpRecv" by (simp add: operation_def op_from_u8_def)
  have disp: "dispatch_mctp_op ops N (take (REQ_SIZE + 4) (ic_request_buf ?c)) (sv_response (ic_world ?c)) (server_at ?c)
      (sv_recv (ic_world ?c)) now = Some ((server_at c)\<lparr>stack := r\<rparr>, b, rb', Reply (RESP_SIZE + length (mm_payload msg)))"
    using d(1) dispatch_op(2) [OF op, where pl = "to_le_bytes32 t" and s = "server_at c"] by (simp add: rb(2) del: take_append)
  have "is_success (message_header msg)" by (simp add: message_header_def is_success_def)
  with transact_served [OF w(1) len(2) disp d(2,3) len(3) d(4)] obtain c' where
    "transact (served_channel ops N now) ?c (REQ_SIZE + 4) = (c', Inr (message_header msg, RESP_SIZE + length (mm_payload msg)))"
    "wired c'" "server_at c' = (server_at c)\<lparr>stack := r\<rparr>"
    "take (RESP_SIZE + length (mm_payload msg)) (ic_response_buf c') = response_to_bytes (message_header msg) @ mm_payload msg"
    by auto
  with rb(1) show ?thesis by blast
qed

lemma ipc_recv_message:
  assumes "wired c" "rt_recv ops (stack (server_at c)) (ucast h) = (r, Some msg)"
    "length (mm_payload msg) \<le> MAX_PAYLOAD_SIZE"
  shows "\<exists>c'. ipc_recv (served_channel ops N now) c h t buf =
      (c', write_at 0 (take (min (length (mm_payload msg)) (length buf)) (mm_payload msg)) buf, Inr (metadata_of msg))
    \<and> wired c' \<and> server_at c' = (server_at c)\<lparr>stack := r\<rparr>"
proof -
  obtain rb c' where c': "encode_recv (ic_request_buf c) h t = (rb, Inr (REQ_SIZE + 4))"
      "transact (served_channel ops N now) (c\<lparr>ic_request_buf := rb\<rparr>) (REQ_SIZE + 4) =
        (c', Inr (message_header msg, RESP_SIZE + length (mm_payload msg)))"
      "wired c'" "server_at c' = (server_at c)\<lparr>stack := r\<rparr>"
      "take (RESP_SIZE + length (mm_payload msg)) (ic_response_buf c') = response_to_bytes (message_header msg) @ mm_payload msg"
    using recv_transact [OF assms] by blast
  have "get_response_payload (response_to_bytes (message_header msg) @ mm_payload msg) (message_header msg) = Inr (mm_payload msg)"
    using assms(3) by (intro get_response_payload_frame) (simp add: payload_len_fits message_header_def)
  then show ?thesis
    using c' by (simp add: ipc_recv_def message_header_def metadata_of_def Let_def FLAG_IC_def del: take_append)
qed

section \<open>The interpretation\<close>

lemmas enc_defs = encode_set_eid_def encode_get_eid_def encode_listener_def encode_req_def encode_unbind_def

lemma ipc_set_eid_served:
  assumes "wired c"
  shows "wired (fst (ipc_set_eid (served_channel ops N now) c e))
    \<and> (server_at (fst (ipc_set_eid (served_channel ops N now) c e)), snd (ipc_set_eid (served_channel ops N now) c e)) =
        server_set_eid ops (server_at c) e"
proof -
  let ?rq = "\<lparr>rq_op = op_to_u8 OpSetEid, rq_flags = 0, rq_msg_type = 0, rq_eid = e, rq_handle = 0, rq_tag = 0\<rparr>"
  obtain s' res where r: "server_set_eid ops (server_at c) e = (s', res)" by force
  then have "res = Inr () \<or> (\<exists>e. res = Inl e \<and> e \<noteq> RcSuccess)"
    by (auto simp: server_set_eid_def split: prod.splits sum.splits)
  moreover have "operation ?rq = Some OpSetEid" by (simp add: operation_def op_from_u8_def)
  ultimately show ?thesis
    using put_request_call [OF assms replies_unit [of ?rq ops "server_at c" s' res N now]] r
    by (auto simp: ipc_set_eid_def enc_defs with_request_def on_header_def)
qed

lemma ipc_get_eid_served:
  assumes "wired c"
  shows "wired (fst (ipc_get_eid (served_channel ops N now) c))
    \<and> server_at (fst (ipc_get_eid (served_channel ops N now) c)) = server_at c
    \<and> snd (ipc_get_eid (served_channel ops N now) c) = server_get_eid ops (server_at c)"
  using put_request_call [OF assms replies_get_eid [of "\<lparr>rq_op = op_to_u8 OpGetEid, rq_flags = 0, rq_msg_type = 0,
      rq_eid = 0, rq_handle = 0, rq_tag = 0\<rparr>" ops N now "server_at c"]]
  by (auto simp: ipc_get_eid_def enc_defs operation_def op_from_u8_def)

lemma handle_result:
  "server_req ops s e = (s', res) \<or> server_listener ops s e = (s', res) \<Longrightarrow> res \<noteq> Inl RcSuccess"
  by (auto simp: server_req_def server_listener_def split: prod.splits sum.splits)

lemma ipc_req_served:
  assumes "wired c"
  shows "wired (fst (ipc_req (served_channel ops N now) c e))
    \<and> (server_at (fst (ipc_req (served_channel ops N now) c e)), snd (ipc_req (served_channel ops N now) c e)) =
        server_req ops (server_at c) e"
proof -
  let ?rq = "\<lparr>rq_op = op_to_u8 OpReq, rq_flags = 0, rq_msg_type = 0, rq_eid = e, rq_handle = 0, rq_tag = 0\<rparr>"
  obtain s' res where r: "server_req ops (server_at c) e = (s', res)" by force
  moreover have "operation ?rq = Some OpReq" by (simp add: operation_def op_from_u8_def)
  ultimately show ?thesis
    using put_request_call [OF assms replies_handle [of ?rq ops "server_at c" s' res N now]] handle_result [of ops "server_at c" e s' res]
    by (cases res) (auto simp: ipc_req_def enc_defs with_request_def on_header_def)
qed

lemma ipc_listener_served:
  assumes "wired c"
  shows "wired (fst (ipc_listener (served_channel ops N now) c e))
    \<and> (server_at (fst (ipc_listener (served_channel ops N now) c e)), snd (ipc_listener (served_channel ops N now) c e)) =
        server_listener ops (server_at c) e"
proof -
  let ?rq = "\<lparr>rq_op = op_to_u8 OpListener, rq_flags = 0, rq_msg_type = e, rq_eid = 0, rq_handle = 0, rq_tag = 0\<rparr>"
  obtain s' res where r: "server_listener ops (server_at c) e = (s', res)" by force
  moreover have "operation ?rq = Some OpListener" by (simp add: operation_def op_from_u8_def)
  ultimately show ?thesis
    using put_request_call [OF assms replies_handle [of ?rq ops "server_at c" s' res N now]] handle_result [of ops "server_at c" e s' res]
    by (cases res) (auto simp: ipc_listener_def enc_defs with_request_def on_header_def)
qed

lemma ipc_drop_served:
  assumes "wired c"
  shows "wired (ipc_drop_handle (served_channel ops N now) c h)
    \<and> server_at (ipc_drop_handle (served_channel ops N now) c h) = fst (server_unbind ops (server_at c) h)"
  using put_request_call [OF assms replies_unbind [of "\<lparr>rq_op = op_to_u8 OpUnbind, rq_flags = FLAG_HAS_HANDLE,
      rq_msg_type = 0, rq_eid = 0, rq_handle = h, rq_tag = 0\<rparr>" ops N now "server_at c"]]
  by (auto simp: ipc_drop_handle_def enc_defs operation_def op_from_u8_def)

lemma ipc_send_served:
  assumes "wired c" "length pl \<le> MAX_PAYLOAD_SIZE"
  shows "wired (fst (ipc_send (served_channel ops N now) c h ty oe tg ic pl))
    \<and> (server_at (fst (ipc_send (served_channel ops N now) c h ty oe tg ic pl)),
       snd (ipc_send (served_channel ops N now) c h ty oe tg ic pl)) = server_send ops (server_at c) h ty oe tg ic pl"
proof -
  obtain s' res where r: "server_send ops (server_at c) h ty oe tg ic pl = (s', res)" by force
  then have ne: "res \<noteq> Inl RcSuccess" by (auto simp: server_send_def Let_def split: prod.splits sum.splits if_splits)
  have len: "REQ_SIZE + length pl \<le> MAX_REQUEST_SIZE" "length (ic_request_buf c) = MAX_REQUEST_SIZE"
    using assms by (auto simp: wired_def MAX_REQUEST_SIZE_def)
  then obtain rb where rb: "encode_send (ic_request_buf c) h ty oe tg ic pl = (rb, Inr (REQ_SIZE + length pl))"
      "take (REQ_SIZE + length pl) rb = request_to_bytes (send_header h ty oe tg ic) @ pl" "length rb = MAX_REQUEST_SIZE"
    using encode_send_ok [of pl "ic_request_buf c" h ty oe tg ic] assms(2) by auto
  have "replies ops N now (take (REQ_SIZE + length pl) rb) (server_at c) s'
      (case res of Inr t \<Rightarrow> response_success\<lparr>rs_tag := t\<rparr> | Inl e \<Rightarrow> response_error e)"
    unfolding rb(2) using r by (rule replies_send)
  from header_call [OF assms(1) rb(3) len(1) this] ne r rb(1) show ?thesis
    by (cases res) (auto simp: ipc_send_def with_request_def on_header_def)
qed

interpretation ipc: mctp_service "ipc_client_ops (served_channel ops N now)" server_at wired ops for ops N now
  by unfold_locales
    (simp_all add: ipc_client_ops_def ipc_req_served ipc_listener_served ipc_send_served ipc_recv_message)

section \<open>Properties\<close>

text \<open>
  C15: The IPC client is transparent. Over a channel served by the dispatcher, with the buffers of
  the sizes the source gives them, each call of \<open>IpcMctpClient\<close> has exactly the effect and the
  result of the server operation: the same new server state, the same handle, EID or tag, and the
  same error code on every error path of the router. A send whose payload exceeds 1023 bytes is
  refused by the client with \<open>InternalError\<close> and never reaches the server. A \<open>recv\<close> for whose
  handle the router has a message of at most 1023 bytes returns that message's metadata, copies
  its payload, as much as the caller's buffer holds, and takes it from the router. (With no
  message waiting the server keeps the request pending and the call does not return; what then
  resolves it is the subject of the server's own theorems.)
\<close>

theorem rpc_transparent:
  assumes "wired c"
  shows "let ch = served_channel ops N now; s = server_at c in
      (case ipc_set_eid ch c e of (c', res) \<Rightarrow> wired c' \<and> (server_at c', res) = server_set_eid ops s e)
    \<and> (case ipc_get_eid ch c of (c', eid) \<Rightarrow> wired c' \<and> server_at c' = s \<and> eid = server_get_eid ops s)
    \<and> (case ipc_req ch c e of (c', res) \<Rightarrow> wired c' \<and> (server_at c', res) = server_req ops s e)
    \<and> (case ipc_listener ch c ty of (c', res) \<Rightarrow> wired c' \<and> (server_at c', res) = server_listener ops s ty)
    \<and> (case ipc_send ch c h ty oe tg ic pl of
         (c', res) \<Rightarrow> wired c' \<and> (server_at c', res) =
           (if length pl \<le> 1023 then server_send ops s h ty oe tg ic pl else (s, Inl RcInternalError)))
    \<and> (\<forall>r msg. rt_recv ops (stack s) (ucast hd1) = (r, Some msg) \<and> length (mm_payload msg) \<le> 1023 \<longrightarrow>
         (case ipc_recv ch c hd1 t buf of
            (c', buf', res) \<Rightarrow> wired c' \<and> server_at c' = s\<lparr>stack := r\<rparr> \<and> res = Inr (metadata_of msg) \<and>
              (let k = min (length (mm_payload msg)) (length buf)
               in buf' = take k (mm_payload msg) @ drop k buf)))
    \<and> wired (ipc_drop_handle ch c hd1) \<and> server_at (ipc_drop_handle ch c hd1) = fst (server_unbind ops s hd1)"
proof -
  let ?ch = "served_channel ops N now" and ?s = "server_at c"
  have send: "wired (fst (ipc_send ?ch c h ty oe tg ic pl)) \<and>
      (server_at (fst (ipc_send ?ch c h ty oe tg ic pl)), snd (ipc_send ?ch c h ty oe tg ic pl)) =
        (if length pl \<le> 1023 then server_send ops ?s h ty oe tg ic pl else (?s, Inl RcInternalError))"
  proof (cases "length pl \<le> MAX_PAYLOAD_SIZE")
    case True
    then show ?thesis
      using ipc_send_served [OF assms(1) True, of ops N now] by (simp add: MAX_PAYLOAD_SIZE_def)
  next
    case False
    with assms(1) show ?thesis
      by (simp add: ipc_send_def encode_send_def with_request_def MAX_PAYLOAD_SIZE_def wired_def)
  qed
  have recv: "case ipc_recv ?ch c hd1 t buf of
      (c', buf', res) \<Rightarrow> wired c' \<and> server_at c' = ?s\<lparr>stack := r\<rparr> \<and> res = Inr (metadata_of msg) \<and>
        (let k = min (length (mm_payload msg)) (length buf) in buf' = take k (mm_payload msg) @ drop k buf)"
    if "rt_recv ops (stack ?s) (ucast hd1) = (r, Some msg)" "length (mm_payload msg) \<le> 1023" for r msg
    using ipc_recv_message [OF assms that(1), of N now t buf] that(2)
    by (auto simp: MAX_PAYLOAD_SIZE_def write_at_0 Let_def)
  show ?thesis
    using ipc_set_eid_served [OF assms(1), of ops N now e] ipc_get_eid_served [OF assms(1), of ops N now]
      ipc_req_served [OF assms(1), of ops N now e] ipc_listener_served [OF assms(1), of ops N now ty] send
      ipc_drop_served [OF assms(1), of ops N now hd1] recv
    unfolding Let_def by (intro conjI allI impI) (simp_all add: case_prod_beta)
qed

definition fresh_client :: "'r server \<Rightarrow> 'r served ipc_client" where
  "fresh_client s = ipc_new 3 \<lparr>sv_server = s, sv_response = replicate MAX_RESPONSE_SIZE 0, sv_recv = replicate MAX_PAYLOAD_SIZE 0\<rparr>"

lemma wired_fresh: "wired (fresh_client s)"
  by (simp add: wired_def fresh_client_def ipc_new_def)

theorem rpc_transparent_witness:
  "snd (ipc_listener (served_channel queue_router 16 0) (fresh_client (server_new [])) 5) = Inr 5
    \<and> snd (ipc_get_eid (served_channel queue_router 16 0) (fresh_client (server_new []))) = 8
    \<and> snd (ipc_recv (served_channel queue_router 16 0)
         (fresh_client \<lparr>stack = [(5, sample_message [7, 8])], outstanding = []\<rparr>) 5 0 [0, 0, 0]) =
       ([7, 8, 0], Inr (metadata_of (sample_message [7, 8])))"
  using rpc_transparent [OF wired_fresh [of "server_new []"], where ops = queue_router and N = 16 and now = 0 and ty = 5]
    rpc_transparent [OF wired_fresh [of "\<lparr>stack = [(5, sample_message [7, 8])], outstanding = []\<rparr>"],
      where ops = queue_router and N = 16 and now = 0 and ?hd1.0 = 5 and t = 0 and buf = "[0, 0, 0]"]
  by (simp add: Let_def case_prod_beta fresh_client_def ipc_new_def server_listener_def server_get_eid_def server_new_def
      queue_router_def sample_message_def lm_remove_def swap_remove_def prod_eq_iff)

text \<open>
  A reply reaches the sender of the request. When a message waits for a listener opened through
  the IPC client and fits the caller's buffer, \<open>listener.recv\<close> returns its metadata and exactly its
  payload, and \<open>send\<close> on the response channel it returns hands the router the reply addressed to the
  source of that message, with its type, with its tag value as an unowned tag and the dummy
  cookie 255; the router's result comes back to the caller.
\<close>

theorem reply_reaches_sender:
  assumes "wired c" "rt_recv ops (stack (server_at c)) (ucast (lc_handle lc)) = (r, Some msg)"
    "length (mm_payload msg) \<le> 1023" "length (mm_payload msg) \<le> length buf" "length reply \<le> 1023"
    "rt_send ops r (Some (mm_source msg)) (mm_typ msg) (Some (Unowned (tag_value (mm_tag msg)))) False 255 reply = (r2, res)"
  shows "\<exists>c1 buf1 pc c2. listener_recv (ipc_client_ops (served_channel ops N now)) c lc buf =
        Some (c1, buf1, Inr (metadata_of msg, mm_payload msg, pc))
    \<and> resp_send (ipc_client_ops (served_channel ops N now)) c1 pc reply =
        (c2, case res of Inr _ \<Rightarrow> Inr () | Inl e \<Rightarrow> Inl (mctp_error_to_server_error e))
    \<and> wired c2 \<and> stack (server_at c2) = r2"
proof -
  let ?cl = "ipc_client_ops (served_channel ops N now)"
  have le: "length (mm_payload msg) \<le> MAX_PAYLOAD_SIZE" "length reply \<le> MAX_PAYLOAD_SIZE"
    using assms(3,5) by (simp_all add: MAX_PAYLOAD_SIZE_def)
  let ?pc = "\<lparr>pc_eid = mm_source msg, pc_msg_type = mm_typ msg, pc_tag = tag_value (mm_tag msg)\<rparr>"
  obtain c1 buf1 where 1: "listener_recv ?cl c lc buf = Some (c1, buf1, Inr (metadata_of msg, mm_payload msg, ?pc))"
      "wired c1" "server_at c1 = (server_at c)\<lparr>stack := r\<rparr>"
    using ipc.listener_recv_message [OF assms(1,2) le(1) assms(4)] by blast
  have "rt_send ops (stack (server_at c1)) (Some (pc_eid ?pc)) (pc_msg_type ?pc) (Some (Unowned (pc_tag ?pc))) False 255 reply = (r2, res)"
    using assms(6) 1(3) by simp
  from ipc.resp_send_routed [OF 1(2) le(2) this] 1(1) show ?thesis by blast
qed

theorem reply_reaches_sender_witness:
  "\<exists>c1 buf1 pc c2. listener_recv (ipc_client_ops (served_channel queue_router 16 0))
        (fresh_client \<lparr>stack = [(5, sample_message [7, 8])], outstanding = []\<rparr>) \<lparr>lc_handle = 5, lc_timeout = 0\<rparr> [0, 0, 0] =
        Some (c1, buf1, Inr (metadata_of (sample_message [7, 8]), [7, 8], pc))
    \<and> resp_send (ipc_client_ops (served_channel queue_router 16 0)) c1 pc [1] = (c2, Inr ())
    \<and> wired c2 \<and> stack (server_at c2) = []"
  using reply_reaches_sender [OF wired_fresh [of "\<lparr>stack = [(5, sample_message [7, 8])], outstanding = []\<rparr>"], of queue_router
      "\<lparr>lc_handle = 5, lc_timeout = 0\<rparr>" "[]" "sample_message [7, 8]" "[0, 0, 0]" "[1]" "[]" "Inr (Owned 1)" 16 0]
  by (simp add: fresh_client_def ipc_new_def queue_router_def sample_message_def lm_remove_def swap_remove_def)

text \<open>
  A receive into a short buffer panics. The IPC client copies what fits and reports the full size
  of the payload; the stack facade then takes the slice of that size from the caller's buffer, so
  a waiting message longer than the buffer makes \<open>recv\<close> of a listener, and of a request channel
  after its send, panic instead of returning an error.
\<close>

theorem short_buffer_recv_panics:
  assumes "wired c" "rt_recv ops (stack (server_at c)) (ucast h) = (r, Some msg)"
    "length buf < length (mm_payload msg)" "length (mm_payload msg) \<le> 1023"
  shows "listener_recv (ipc_client_ops (served_channel ops N now)) c \<lparr>lc_handle = h, lc_timeout = t\<rparr> buf = None
    \<and> req_recv (ipc_client_ops (served_channel ops N now)) c
        \<lparr>rc_handle = h, rc_eid = e, rc_sent_tag = Some tag, rc_timeout = t\<rparr> buf = None"
  using ipc.small_buffer_panics [OF assms(1-3)] assms(4) by (simp add: MAX_PAYLOAD_SIZE_def)

theorem short_buffer_recv_panics_witness:
  "listener_recv (ipc_client_ops (served_channel queue_router 16 0))
     (fresh_client \<lparr>stack = [(5, sample_message [7, 8])], outstanding = []\<rparr>) \<lparr>lc_handle = 5, lc_timeout = 0\<rparr> [0] = None"
  using short_buffer_recv_panics [OF wired_fresh [of "\<lparr>stack = [(5, sample_message [7, 8])], outstanding = []\<rparr>"], of queue_router
      5 "[]" "sample_message [7, 8]" "[0]"]
  by (simp add: fresh_client_def ipc_new_def queue_router_def sample_message_def lm_remove_def swap_remove_def)

end
