(* ===== verification/I2c_Protocol.thy ===== *)
theory I2c_Protocol
  imports Bytes
begin

text \<open>
  The wire protocol of the I2C service, \<open>services/i2c/api/src/protocol.rs\<close>, and the error taxonomy
  of its seam, \<open>seam.rs\<close>: one request carries one whole \<open>embedded_hal\<close> transaction as a header, an
  array of operation descriptors and the bytes of the writes; the response carries a status and
  the bytes of the reads. The three packed structs are instances of \<open>header_codec\<close>;
  \<open>zerocopy::Ref::from_bytes\<close> accepts a slice of exactly the size of the struct.
\<close>

section \<open>Codes\<close>

definition I2C_MAX_PAYLOAD_SIZE :: nat where "I2C_MAX_PAYLOAD_SIZE = 256"
definition I2C_MAX_OPS :: nat where "I2C_MAX_OPS = 16"

datatype i2c_op =
    Transaction
  | ConfigureSlave
  | EnableSlave
  | DisableSlave
  | EnableSlaveNotification
  | DisableSlaveNotification
  | SlaveReceive
  | SlaveSetResponse

datatype slave_event = DataReceived | ReadRequest | Stop

datatype i2c_op_kind = KindWrite | KindRead

datatype i2c_error =
    InvalidOperation
  | BufferTooSmall
  | TooManyOperations
  | AddressNack
  | DataNack
  | Nack
  | ArbitrationLoss
  | Bus
  | Overrun
  | Timeout
  | NoData
  | InternalError

fun i2c_op_u8 :: "i2c_op \<Rightarrow> u8" where
  "i2c_op_u8 Transaction = 1"
| "i2c_op_u8 ConfigureSlave = 2"
| "i2c_op_u8 EnableSlave = 3"
| "i2c_op_u8 DisableSlave = 4"
| "i2c_op_u8 EnableSlaveNotification = 5"
| "i2c_op_u8 DisableSlaveNotification = 6"
| "i2c_op_u8 SlaveReceive = 7"
| "i2c_op_u8 SlaveSetResponse = 8"

definition i2c_op_try_from :: "u8 \<Rightarrow> (i2c_error, i2c_op) result" where
  "i2c_op_try_from v =
     (if v = 1 then Inr Transaction else if v = 2 then Inr ConfigureSlave else if v = 3 then Inr EnableSlave
      else if v = 4 then Inr DisableSlave else if v = 5 then Inr EnableSlaveNotification
      else if v = 6 then Inr DisableSlaveNotification else if v = 7 then Inr SlaveReceive
      else if v = 8 then Inr SlaveSetResponse else Inl InvalidOperation)"

fun slave_event_u8 :: "slave_event \<Rightarrow> u8" where
  "slave_event_u8 DataReceived = 0"
| "slave_event_u8 ReadRequest = 1"
| "slave_event_u8 Stop = 2"

definition slave_event_try_from :: "u8 \<Rightarrow> (i2c_error, slave_event) result" where
  "slave_event_try_from v =
     (if v = 0 then Inr DataReceived else if v = 1 then Inr ReadRequest else if v = 2 then Inr Stop
      else Inl InvalidOperation)"

fun op_kind_u8 :: "i2c_op_kind \<Rightarrow> u8" where
  "op_kind_u8 KindWrite = 0"
| "op_kind_u8 KindRead = 1"

definition op_kind_try_from :: "u8 \<Rightarrow> (i2c_error, i2c_op_kind) result" where
  "op_kind_try_from v =
     (if v = 0 then Inr KindWrite else if v = 1 then Inr KindRead else Inl InvalidOperation)"

fun i2c_error_u8 :: "i2c_error \<Rightarrow> u8" where
  "i2c_error_u8 InvalidOperation = 0x01"
| "i2c_error_u8 BufferTooSmall = 0x02"
| "i2c_error_u8 TooManyOperations = 0x03"
| "i2c_error_u8 AddressNack = 0x04"
| "i2c_error_u8 DataNack = 0x05"
| "i2c_error_u8 Nack = 0x06"
| "i2c_error_u8 ArbitrationLoss = 0x07"
| "i2c_error_u8 Bus = 0x08"
| "i2c_error_u8 Overrun = 0x09"
| "i2c_error_u8 Timeout = 0x0A"
| "i2c_error_u8 NoData = 0x0B"
| "i2c_error_u8 InternalError = 0xFF"

definition i2c_error_from :: "u8 \<Rightarrow> i2c_error" where
  "i2c_error_from v =
     (if v = 0x01 then InvalidOperation else if v = 0x02 then BufferTooSmall else if v = 0x03 then TooManyOperations
      else if v = 0x04 then AddressNack else if v = 0x05 then DataNack else if v = 0x06 then Nack
      else if v = 0x07 then ArbitrationLoss else if v = 0x08 then Bus else if v = 0x09 then Overrun
      else if v = 0x0A then Timeout else if v = 0x0B then NoData else InternalError)"

lemma i2c_op_code [simp]: "i2c_op_try_from (i2c_op_u8 x) = Inr x"
  by (cases x) (simp_all add: i2c_op_try_from_def)

lemma slave_event_code [simp]: "slave_event_try_from (slave_event_u8 x) = Inr x"
  by (cases x) (simp_all add: slave_event_try_from_def)

lemma op_kind_code [simp]: "op_kind_try_from (op_kind_u8 x) = Inr x"
  by (cases x) (simp_all add: op_kind_try_from_def)

lemma i2c_error_code [simp]: "i2c_error_from (i2c_error_u8 x) = x" "i2c_error_u8 x \<noteq> 0"
  by (cases x; simp add: i2c_error_from_def)+

section \<open>The error taxonomy of the seam\<close>

text \<open>\<open>embedded_hal::i2c::ErrorKind\<close>, which both enumerations of the service are mapped to.\<close>

datatype nack_source = NackAddress | NackData | NackUnknown

datatype error_kind = KBus | KArbitrationLoss | KNoAcknowledge nack_source | KOverrun | KOther

fun error_kind_of :: "i2c_error \<Rightarrow> error_kind" where
  "error_kind_of AddressNack = KNoAcknowledge NackAddress"
| "error_kind_of DataNack = KNoAcknowledge NackData"
| "error_kind_of Nack = KNoAcknowledge NackUnknown"
| "error_kind_of ArbitrationLoss = KArbitrationLoss"
| "error_kind_of Bus = KBus"
| "error_kind_of Overrun = KOverrun"
| "error_kind_of _ = KOther"

section \<open>Headers\<close>

record i2c_request_header =
  ih_op_code :: u8
  ih_flags :: u8
  ih_address :: u16
  ih_op_count :: u16
  ih_payload_len :: u16

definition I2C_REQ_SIZE :: nat where "I2C_REQ_SIZE = 8"

definition i2c_request_new :: "i2c_op \<Rightarrow> u16 \<Rightarrow> u16 \<Rightarrow> u16 \<Rightarrow> i2c_request_header" where
  "i2c_request_new op address op_count payload_len =
     \<lparr>ih_op_code = i2c_op_u8 op, ih_flags = 0, ih_address = address, ih_op_count = op_count,
      ih_payload_len = payload_len\<rparr>"

definition i2c_request_operation :: "i2c_request_header \<Rightarrow> (i2c_error, i2c_op) result" where
  "i2c_request_operation h = i2c_op_try_from (ih_op_code h)"

definition i2c_request_bytes :: "i2c_request_header \<Rightarrow> u8 list" where
  "i2c_request_bytes h =
     [ih_op_code h, ih_flags h] @ to_le_bytes16 (ih_address h) @ to_le_bytes16 (ih_op_count h)
     @ to_le_bytes16 (ih_payload_len h)"

definition i2c_request_ref :: "u8 list \<Rightarrow> i2c_request_header option" where
  "i2c_request_ref bs =
     (if length bs = I2C_REQ_SIZE
      then Some \<lparr>ih_op_code = bs ! 0, ih_flags = bs ! 1, ih_address = from_le_bytes16 (bs ! 2) (bs ! 3),
                 ih_op_count = from_le_bytes16 (bs ! 4) (bs ! 5),
                 ih_payload_len = from_le_bytes16 (bs ! 6) (bs ! 7)\<rparr>
      else None)"

record i2c_op_desc =
  id_kind :: u8
  id_reserved :: u8
  id_len :: u16

definition I2C_DESC_SIZE :: nat where "I2C_DESC_SIZE = 4"

definition i2c_desc_new :: "i2c_op_kind \<Rightarrow> u16 \<Rightarrow> i2c_op_desc" where
  "i2c_desc_new kind len = \<lparr>id_kind = op_kind_u8 kind, id_reserved = 0, id_len = len\<rparr>"

definition i2c_desc_kind :: "i2c_op_desc \<Rightarrow> (i2c_error, i2c_op_kind) result" where
  "i2c_desc_kind d = op_kind_try_from (id_kind d)"

definition i2c_desc_bytes :: "i2c_op_desc \<Rightarrow> u8 list" where
  "i2c_desc_bytes d = [id_kind d, id_reserved d] @ to_le_bytes16 (id_len d)"

definition i2c_desc_ref :: "u8 list \<Rightarrow> i2c_op_desc option" where
  "i2c_desc_ref bs =
     (if length bs = I2C_DESC_SIZE
      then Some \<lparr>id_kind = bs ! 0, id_reserved = bs ! 1, id_len = from_le_bytes16 (bs ! 2) (bs ! 3)\<rparr>
      else None)"

record i2c_response_header =
  is_status :: u8
  is_reserved :: u8
  is_payload_len :: u16

definition I2C_RESP_SIZE :: nat where "I2C_RESP_SIZE = 4"

definition i2c_response_success :: "u16 \<Rightarrow> i2c_response_header" where
  "i2c_response_success payload_len = \<lparr>is_status = 0, is_reserved = 0, is_payload_len = payload_len\<rparr>"

definition i2c_response_error :: "i2c_error \<Rightarrow> i2c_response_header" where
  "i2c_response_error e = \<lparr>is_status = i2c_error_u8 e, is_reserved = 0, is_payload_len = 0\<rparr>"

definition i2c_is_success :: "i2c_response_header \<Rightarrow> bool" where
  "i2c_is_success h \<longleftrightarrow> is_status h = 0"

definition i2c_response_code :: "i2c_response_header \<Rightarrow> i2c_error option" where
  "i2c_response_code h = (if i2c_is_success h then None else Some (i2c_error_from (is_status h)))"

definition i2c_response_bytes :: "i2c_response_header \<Rightarrow> u8 list" where
  "i2c_response_bytes h = [is_status h, is_reserved h] @ to_le_bytes16 (is_payload_len h)"

definition i2c_response_ref :: "u8 list \<Rightarrow> i2c_response_header option" where
  "i2c_response_ref bs =
     (if length bs = I2C_RESP_SIZE
      then Some \<lparr>is_status = bs ! 0, is_reserved = bs ! 1, is_payload_len = from_le_bytes16 (bs ! 2) (bs ! 3)\<rparr>
      else None)"

section \<open>The headers as codecs\<close>

lemmas i2c_sizes = I2C_REQ_SIZE_def I2C_DESC_SIZE_def I2C_RESP_SIZE_def

lemma le_bytes16_list: "to_le_bytes16 w = [to_le_bytes16 w ! 0, to_le_bytes16 w ! 1]"
  by (simp add: to_le_bytes16_def)

lemma from_le_bytes16_ucast [simp]: "from_le_bytes16 (ucast w) (ucast (drop_bit 8 w)) = w"
  using le_bytes16_roundtrip [of w] by (simp add: to_le_bytes16_def)

interpretation i2c_req: header_codec i2c_request_bytes "\<lambda>bs. i2c_request_ref (take I2C_REQ_SIZE bs)" I2C_REQ_SIZE
  by unfold_locales
    (auto simp: i2c_request_bytes_def i2c_request_ref_def i2c_sizes to_le_bytes16_def min_def)

interpretation i2c_desc: header_codec i2c_desc_bytes "\<lambda>bs. i2c_desc_ref (take I2C_DESC_SIZE bs)" I2C_DESC_SIZE
  by unfold_locales
    (auto simp: i2c_desc_bytes_def i2c_desc_ref_def i2c_sizes to_le_bytes16_def min_def)

interpretation i2c_resp: header_codec i2c_response_bytes "\<lambda>bs. i2c_response_ref (take I2C_RESP_SIZE bs)" I2C_RESP_SIZE
  by unfold_locales
    (auto simp: i2c_response_bytes_def i2c_response_ref_def i2c_sizes to_le_bytes16_def min_def)

lemmas i2c_lengths [simp] = i2c_req.length_to_bytes i2c_desc.length_to_bytes i2c_resp.length_to_bytes

lemma i2c_refs [simp]:
  "i2c_request_ref (i2c_request_bytes h) = Some h" "i2c_desc_ref (i2c_desc_bytes d) = Some d"
  "i2c_response_ref (i2c_response_bytes r) = Some r"
  using i2c_req.from_to_bytes [of h "[]"] i2c_desc.from_to_bytes [of d "[]"] i2c_resp.from_to_bytes [of r "[]"]
  by simp_all

lemma i2c_request_read [simp]:
  "i2c_request_operation (i2c_request_new op a c l) = Inr op" "ih_address (i2c_request_new op a c l) = a"
  "ih_op_count (i2c_request_new op a c l) = c" "ih_payload_len (i2c_request_new op a c l) = l"
  by (simp_all add: i2c_request_new_def i2c_request_operation_def)

lemma i2c_desc_read [simp]: "i2c_desc_kind (i2c_desc_new k l) = Inr k" "id_len (i2c_desc_new k l) = l"
  by (simp_all add: i2c_desc_new_def i2c_desc_kind_def)

lemma i2c_response_read [simp]:
  "i2c_is_success (i2c_response_success l)" "is_payload_len (i2c_response_success l) = l"
  "\<not> i2c_is_success (i2c_response_error e)" "i2c_response_code (i2c_response_error e) = Some e"
  "i2c_response_code (i2c_response_success l) = None"
  by (simp_all add: i2c_response_success_def i2c_response_error_def i2c_is_success_def i2c_response_code_def)

end
