(* ===== verification/I2c_Server.thy ===== *)
theory I2c_Server
  imports I2c_Protocol
begin

text \<open>
  The server side of the I2C service, \<open>services/i2c/server/src/lib.rs\<close>, \<open>slave.rs\<close> and
  \<open>loopback.rs\<close>: decode one request, replay it on the bus as a single transaction, encode the
  response. The result of a function that indexes slices is an option, \<^term>\<open>None\<close> being the panic of
  an index out of range. The bus driver is a parameter, a function from the state of the bus, the
  address and the operations to the new state, the operations with their read buffers filled, and
  the outcome; that the driver only writes into the read buffers, which is what the Rust types of
  \<open>Operation\<close> allow, is the hypothesis \<open>keeps_shape\<close> of the lemmas that need it.
\<close>

section \<open>Operations of a transaction\<close>

datatype bus_operation = OpWrite "u8 list" | OpRead "u8 list"

type_synonym 'b bus_txn = "'b \<Rightarrow> u8 \<Rightarrow> bus_operation list \<Rightarrow> 'b \<times> bus_operation list \<times> (error_kind, unit) result"

text \<open>The bytes of the read buffers in operation order, and those of the writes.\<close>

fun op_read :: "bus_operation \<Rightarrow> u8 list" where
  "op_read (OpRead b) = b"
| "op_read (OpWrite w) = []"

fun op_written :: "bus_operation \<Rightarrow> u8 list" where
  "op_written (OpWrite w) = w"
| "op_written (OpRead b) = []"

abbreviation reads :: "bus_operation list \<Rightarrow> u8 list" where "reads ops \<equiv> concat (map op_read ops)"
abbreviation writes :: "bus_operation list \<Rightarrow> u8 list" where "writes ops \<equiv> concat (map op_written ops)"

text \<open>What the driver may not change: the kind of every operation, the bytes of a write and the length of a read.\<close>

fun op_shape :: "bus_operation \<Rightarrow> u8 list + nat" where
  "op_shape (OpWrite w) = Inl w"
| "op_shape (OpRead b) = Inr (length b)"

definition keeps_shape :: "'b bus_txn \<Rightarrow> bool" where
  "keeps_shape txn \<longleftrightarrow> (\<forall>b a ops. map op_shape (fst (snd (txn b a ops))) = map op_shape ops)"

section \<open>Encoding the response\<close>

fun kind_to_wire :: "error_kind \<Rightarrow> i2c_error" where
  "kind_to_wire (KNoAcknowledge NackAddress) = AddressNack"
| "kind_to_wire (KNoAcknowledge NackData) = DataNack"
| "kind_to_wire (KNoAcknowledge _) = Nack"
| "kind_to_wire KArbitrationLoss = ArbitrationLoss"
| "kind_to_wire KBus = Bus"
| "kind_to_wire KOverrun = Overrun"
| "kind_to_wire _ = InternalError"

definition i2c_encode_error :: "u8 list \<Rightarrow> i2c_error \<Rightarrow> (u8 list \<times> nat) option" where
  "i2c_encode_error response err =
     (case put_at 0 (i2c_response_bytes (i2c_response_error err)) response of
        None \<Rightarrow> None
      | Some response \<Rightarrow> Some (response, I2C_RESP_SIZE))"

definition i2c_encode_ok :: "u8 list \<Rightarrow> nat \<Rightarrow> (u8 list \<times> nat) option" where
  "i2c_encode_ok response payload_len =
     (case put_at 0 (i2c_response_bytes (i2c_response_success (of_nat payload_len))) response of
        None \<Rightarrow> None
      | Some response \<Rightarrow> Some (response, I2C_RESP_SIZE + payload_len))"

section \<open>Master mode: one transaction\<close>

text \<open>The descriptor pass: validate, total and stash \<open>(is_read, len)\<close>.\<close>

fun scan_descs ::
  "u8 list \<Rightarrow> nat \<Rightarrow> nat \<Rightarrow> (bool \<times> nat) list \<Rightarrow> nat \<Rightarrow> nat
    \<Rightarrow> (i2c_error, (bool \<times> nat) list \<times> nat \<times> nat) result option" where
  "scan_descs request i 0 op_meta write_total read_total = Some (Inr (op_meta, write_total, read_total))"
| "scan_descs request i (Suc n) op_meta write_total read_total =
     (let off = I2C_REQ_SIZE + i * I2C_DESC_SIZE
      in case slice off (off + I2C_DESC_SIZE) request of
           None \<Rightarrow> None
         | Some bs \<Rightarrow>
             (case i2c_desc_ref bs of
                None \<Rightarrow> Some (Inl InvalidOperation)
              | Some desc \<Rightarrow>
                  (let len = unat (id_len desc)
                   in case i2c_desc_kind desc of
                        Inr KindWrite \<Rightarrow>
                          scan_descs request (Suc i) n (op_meta @ [(False, len)]) (write_total + len) read_total
                      | Inr KindRead \<Rightarrow>
                          scan_descs request (Suc i) n (op_meta @ [(True, len)]) write_total (read_total + len)
                      | Inl _ \<Rightarrow> Some (Inl InvalidOperation))))"

text \<open>The build pass: reads take consecutive pieces of the scratch area, writes borrow from the request.\<close>

fun build_ops :: "u8 list \<Rightarrow> (bool \<times> nat) list \<Rightarrow> nat \<Rightarrow> u8 list \<Rightarrow> bus_operation list option" where
  "build_ops request [] w_off read_rem = Some []"
| "build_ops request ((is_read, len) # op_meta) w_off read_rem =
     (if is_read
      then if len \<le> length read_rem
           then map_option ((#) (OpRead (take len read_rem))) (build_ops request op_meta w_off (drop len read_rem))
           else None
      else case slice w_off (w_off + len) request of
             None \<Rightarrow> None
           | Some w \<Rightarrow> map_option ((#) (OpWrite w)) (build_ops request op_meta (w_off + len) read_rem))"

text \<open>
  \<open>read_scratch\<close> after the transaction: the read buffers are consecutive pieces of it, so its first
  \<open>read_total\<close> bytes are their concatenation.
\<close>

definition run_transaction ::
  "'b bus_txn \<Rightarrow> 'b \<Rightarrow> u8 \<Rightarrow> bus_operation list \<Rightarrow> nat \<Rightarrow> u8 list \<Rightarrow> ('b \<times> u8 list \<times> nat) option" where
  "run_transaction txn bus address ops read_total response =
     (case txn bus address ops of
        (bus, ops, Inl kind) \<Rightarrow> map_option (Pair bus) (i2c_encode_error response (kind_to_wire kind))
      | (bus, ops, Inr _) \<Rightarrow>
          (case put_at 0 (i2c_response_bytes (i2c_response_success (of_nat read_total))) response of
             None \<Rightarrow> None
           | Some response \<Rightarrow>
               (case put_at I2C_RESP_SIZE (reads ops) response of
                  None \<Rightarrow> None
                | Some response \<Rightarrow> Some (bus, response, I2C_RESP_SIZE + read_total))))"

definition dispatch_body ::
  "'b bus_txn \<Rightarrow> 'b \<Rightarrow> i2c_request_header \<Rightarrow> u8 list \<Rightarrow> u8 list \<Rightarrow> ('b \<times> u8 list \<times> nat) option" where
  "dispatch_body txn bus hdr request response =
     (let fail = (\<lambda>e. map_option (Pair bus) (i2c_encode_error response e));
          address = ucast (ih_address hdr);
          op_count = unat (ih_op_count hdr);
          desc_bytes = op_count * I2C_DESC_SIZE;
          write_base = I2C_REQ_SIZE + desc_bytes
      in if i2c_request_operation hdr \<noteq> Inr Transaction then fail InvalidOperation
         else if op_count > I2C_MAX_OPS then fail TooManyOperations
         else if length request < I2C_REQ_SIZE + desc_bytes then fail BufferTooSmall
         else case scan_descs request 0 op_count [] 0 0 of
                None \<Rightarrow> None
              | Some (Inl e) \<Rightarrow> fail e
              | Some (Inr (op_meta, write_total, read_total)) \<Rightarrow>
                  if write_total > I2C_MAX_PAYLOAD_SIZE \<or> read_total > I2C_MAX_PAYLOAD_SIZE
                     \<or> length request < write_base + write_total \<or> I2C_RESP_SIZE + read_total > length response
                  then fail BufferTooSmall
                  else case build_ops request op_meta write_base (replicate read_total 0) of
                         None \<Rightarrow> None
                       | Some ops \<Rightarrow> run_transaction txn bus address ops read_total response)"

definition i2c_dispatch ::
  "'b bus_txn \<Rightarrow> 'b \<Rightarrow> u8 list \<Rightarrow> u8 list \<Rightarrow> ('b \<times> u8 list \<times> nat) option" where
  "i2c_dispatch txn bus request response =
     (let fail = (\<lambda>e. map_option (Pair bus) (i2c_encode_error response e))
      in if length request < I2C_REQ_SIZE then fail InvalidOperation
         else case slice 0 I2C_REQ_SIZE request of
                None \<Rightarrow> None
              | Some bs \<Rightarrow>
                  (case i2c_request_ref bs of
                     None \<Rightarrow> fail InvalidOperation
                   | Some hdr \<Rightarrow> dispatch_body txn bus hdr request response))"

section \<open>Slave mode: the stateless device operations\<close>

record 'b slave_core =
  configure_slave_address :: "'b \<Rightarrow> u8 \<Rightarrow> 'b \<times> (error_kind, unit) result"
  enable_slave_mode :: "'b \<Rightarrow> 'b \<times> (error_kind, unit) result"
  disable_slave_mode :: "'b \<Rightarrow> 'b \<times> (error_kind, unit) result"

definition slave_answer ::
  "u8 list \<Rightarrow> 'b \<times> (error_kind, unit) result \<Rightarrow> ('b \<times> u8 list \<times> nat) option" where
  "slave_answer response res =
     (case res of
        (slave, Inr _) \<Rightarrow> map_option (Pair slave) (i2c_encode_ok response 0)
      | (slave, Inl kind) \<Rightarrow> map_option (Pair slave) (i2c_encode_error response (kind_to_wire kind)))"

definition dispatch_slave ::
  "'b slave_core \<Rightarrow> 'b \<Rightarrow> u8 list \<Rightarrow> u8 list \<Rightarrow> ('b \<times> u8 list \<times> nat) option" where
  "dispatch_slave core slave request response =
     (let fail = (\<lambda>e. map_option (Pair slave) (i2c_encode_error response e))
      in if length request < I2C_REQ_SIZE then fail InvalidOperation
         else case slice 0 I2C_REQ_SIZE request of
                None \<Rightarrow> None
              | Some bs \<Rightarrow>
                  (case i2c_request_ref bs of
                     None \<Rightarrow> fail InvalidOperation
                   | Some hdr \<Rightarrow>
                       (case i2c_request_operation hdr of
                          Inr ConfigureSlave \<Rightarrow>
                            slave_answer response (configure_slave_address core slave (ucast (ih_address hdr)))
                        | Inr EnableSlave \<Rightarrow> slave_answer response (enable_slave_mode core slave)
                        | Inr DisableSlave \<Rightarrow> slave_answer response (disable_slave_mode core slave)
                        | _ \<Rightarrow> fail InvalidOperation)))"

section \<open>The loopback transport\<close>

text \<open>
  \<open>Transport::transact\<close>: the state of the transport, the request and the response buffer give the new
  state, the buffer and the length or the failure.
\<close>

datatype transport_error = Failed

type_synonym 't transport =
  "'t \<Rightarrow> u8 list \<Rightarrow> u8 list \<Rightarrow> ('t \<times> u8 list \<times> (transport_error, nat) result) option"

definition loopback :: "'b bus_txn \<Rightarrow> 'b transport" where
  "loopback txn bus req resp =
     (case i2c_dispatch txn bus req resp of
        None \<Rightarrow> None
      | Some (bus, resp, n) \<Rightarrow> Some (bus, resp, Inr n))"

section \<open>Every request is answered\<close>

lemmas i2c_limits = I2C_MAX_PAYLOAD_SIZE_def I2C_MAX_OPS_def

text \<open>An answer: no panic, the buffer keeps its length and the header and all that is counted lies in it.\<close>

definition answered :: "u8 list \<Rightarrow> ('b \<times> u8 list \<times> nat) option \<Rightarrow> bool" where
  "answered response res \<longleftrightarrow>
     (\<exists>bus resp n. res = Some (bus, resp, n) \<and> length resp = length response
        \<and> I2C_RESP_SIZE \<le> n \<and> n \<le> length response)"

lemma i2c_error_eq:
  "I2C_RESP_SIZE \<le> length response \<Longrightarrow>
     i2c_encode_error response e
     = Some (i2c_response_bytes (i2c_response_error e) @ drop I2C_RESP_SIZE response, I2C_RESP_SIZE)"
  by (simp add: i2c_encode_error_def put_at_ok write_at_0)

lemma i2c_ok_eq:
  "I2C_RESP_SIZE \<le> length response \<Longrightarrow>
     i2c_encode_ok response n
     = Some (i2c_response_bytes (i2c_response_success (of_nat n)) @ drop I2C_RESP_SIZE response, I2C_RESP_SIZE + n)"
  by (simp add: i2c_encode_ok_def put_at_ok write_at_0)

lemma answered_error:
  "I2C_RESP_SIZE \<le> length response \<Longrightarrow> answered response (map_option (Pair bus) (i2c_encode_error response e))"
  by (simp add: i2c_error_eq answered_def)

lemma answered_ok:
  "I2C_RESP_SIZE \<le> length response \<Longrightarrow> answered response (map_option (Pair bus) (i2c_encode_ok response 0))"
  by (simp add: i2c_ok_eq answered_def)

definition lens :: "bool \<Rightarrow> (bool \<times> nat) list \<Rightarrow> nat" where
  "lens k op_meta = sum_list (map snd (filter (\<lambda>m. fst m = k) op_meta))"

lemma lens_simps [simp]:
  "lens k [] = 0" "lens k ((k', n) # m) = (if k' = k then n else 0) + lens k m"
  "lens k (m @ m') = lens k m + lens k m'"
  by (simp_all add: lens_def)

lemma scan_descs_total:
  assumes "I2C_REQ_SIZE + (i + n) * I2C_DESC_SIZE \<le> length request"
    "w = lens False op_meta" "r = lens True op_meta"
  shows "(\<exists>e. scan_descs request i n op_meta w r = Some (Inl e))
    \<or> (\<exists>m. scan_descs request i n op_meta w r = Some (Inr (m, lens False m, lens True m)))"
  using assms
proof (induction n arbitrary: i op_meta w r)
  case (Suc n)
  let ?off = "I2C_REQ_SIZE + i * I2C_DESC_SIZE"
  have "?off + I2C_DESC_SIZE \<le> length request"
    using Suc.prems(1) by (simp add: algebra_simps i2c_sizes)
  then obtain bs where bs: "slice ?off (?off + I2C_DESC_SIZE) request = Some bs" "length bs = I2C_DESC_SIZE"
    using slice_total [of ?off "?off + I2C_DESC_SIZE" request] by auto
  then obtain d where d: "i2c_desc_ref bs = Some d" by (simp add: i2c_desc_ref_def)
  have "I2C_REQ_SIZE + (Suc i + n) * I2C_DESC_SIZE \<le> length request" using Suc.prems(1) by simp
  note IH = Suc.IH [OF this]
  show ?case
  proof (cases "i2c_desc_kind d")
    case (Inl e)
    then show ?thesis using bs d by simp
  next
    case (Inr k)
    then show ?thesis
      using bs d Suc.prems(2,3) IH [of _ "op_meta @ [(k = KindRead, unat (id_len d))]"]
      by (cases k) (simp_all add: Let_def)
  qed
qed simp

lemma build_ops_total:
  assumes "w_off + lens False op_meta \<le> length request" "lens True op_meta \<le> length read_rem"
  shows "\<exists>ops. build_ops request op_meta w_off read_rem = Some ops
    \<and> reads ops = take (lens True op_meta) read_rem \<and> length (writes ops) = lens False op_meta
    \<and> length ops = length op_meta"
  using assms
proof (induction request op_meta w_off read_rem rule: build_ops.induct)
  case (2 request is_read len op_meta w_off read_rem)
  show ?case
  proof (cases is_read)
    case True
    with 2(4) have le: "len \<le> length read_rem" "lens True op_meta \<le> length (drop len read_rem)" by simp_all
    have "w_off + lens False op_meta \<le> length request" using 2(3) True by simp
    from 2(1) [OF True le(1) this le(2)] obtain ops where
      "build_ops request op_meta w_off (drop len read_rem) = Some ops"
      "reads ops = take (lens True op_meta) (drop len read_rem)" "length (writes ops) = lens False op_meta"
      "length ops = length op_meta"
      by blast
    with True le(1) show ?thesis by (simp add: take_add)
  next
    case False
    obtain w where w: "slice w_off (w_off + len) request = Some w" "length w = len"
      using 2(3) False slice_total [of w_off "w_off + len" request] by auto
    have "w_off + len + lens False op_meta \<le> length request" "lens True op_meta \<le> length read_rem"
      using 2(3,4) False by simp_all
    from 2(2) [OF False w(1) this] obtain ops where
      "build_ops request op_meta (w_off + len) read_rem = Some ops"
      "reads ops = take (lens True op_meta) read_rem" "length (writes ops) = lens False op_meta"
      "length ops = length op_meta"
      by blast
    with False w show ?thesis by simp
  qed
qed simp

lemma reads_shape: "map op_shape ops = map op_shape ops' \<Longrightarrow> length (reads ops) = length (reads ops')"
proof (induction ops arbitrary: ops')
  case (Cons op ops)
  obtain op' ops'' where eq: "ops' = op' # ops''" using Cons.prems by (cases ops') auto
  with Cons.prems have "map op_shape ops = map op_shape ops''" and s: "op_shape op = op_shape op'" by simp_all
  from Cons.IH [OF this(1)] have "length (reads ops) = length (reads ops'')" .
  moreover from s have "length (op_read op) = length (op_read op')" by (cases op; cases op'; simp)
  ultimately show ?case by (simp only: eq list.map concat.simps length_append)
qed simp

lemma keeps_shapeD: "keeps_shape txn \<Longrightarrow> txn b a ops = (b', ops', r) \<Longrightarrow> map op_shape ops' = map op_shape ops"
  unfolding keeps_shape_def by (metis fst_conv snd_conv)

text \<open>The reply to a transaction that the driver carried out, and to one it failed.\<close>

lemma run_transaction_eq:
  assumes "keeps_shape txn" "length (reads ops) = read_total" "I2C_RESP_SIZE + read_total \<le> length response"
    "txn bus address ops = (bus', ops', r)"
  shows "run_transaction txn bus address ops read_total response =
    (case r of
       Inl kind \<Rightarrow> Some (bus', i2c_response_bytes (i2c_response_error (kind_to_wire kind)) @ drop I2C_RESP_SIZE response,
                         I2C_RESP_SIZE)
     | Inr _ \<Rightarrow> Some (bus', i2c_response_bytes (i2c_response_success (of_nat read_total)) @ reads ops'
                           @ drop (I2C_RESP_SIZE + read_total) response, I2C_RESP_SIZE + read_total))"
proof -
  have len: "length (reads ops') = read_total"
    using reads_shape [OF keeps_shapeD [OF assms(1,4)]] assms(2) by simp
  have room: "I2C_RESP_SIZE \<le> length response" using assms(3) by simp
  show ?thesis
  proof (cases r)
    case (Inl kind)
    then show ?thesis by (simp add: run_transaction_def assms(4) i2c_error_eq [OF room])
  next
    case (Inr u)
    let ?h = "i2c_response_bytes (i2c_response_success (of_nat read_total))"
    have "put_at I2C_RESP_SIZE (reads ops') (?h @ drop I2C_RESP_SIZE response)
      = Some (?h @ reads ops' @ drop (I2C_RESP_SIZE + read_total) response)"
      using put_at_end [of "reads ops'" "drop I2C_RESP_SIZE response" ?h] assms(3) len
      by (simp add: add.commute)
    with Inr room show ?thesis
      by (simp add: run_transaction_def assms(4) put_at_ok write_at_0)
  qed
qed

lemma dispatch_body_answered:
  assumes "keeps_shape txn" "I2C_RESP_SIZE \<le> length response" "I2C_REQ_SIZE \<le> length request"
  shows "answered response (dispatch_body txn bus hdr request response)"
proof (cases "i2c_request_operation hdr \<noteq> Inr Transaction \<or> unat (ih_op_count hdr) > I2C_MAX_OPS
    \<or> length request < I2C_REQ_SIZE + unat (ih_op_count hdr) * I2C_DESC_SIZE")
  case True
  then show ?thesis using answered_error [OF assms(2)] by (auto simp: dispatch_body_def Let_def)
next
  case False
  let ?c = "unat (ih_op_count hdr)" and ?base = "I2C_REQ_SIZE + unat (ih_op_count hdr) * I2C_DESC_SIZE"
  from False scan_descs_total [of 0 ?c request 0 "[]" 0] consider
      (bad) e where "scan_descs request 0 ?c [] 0 0 = Some (Inl e)"
    | (ok) m where "scan_descs request 0 ?c [] 0 0 = Some (Inr (m, lens False m, lens True m))"
    by auto
  then show ?thesis
  proof cases
    case bad
    with False show ?thesis using answered_error [OF assms(2)] by (simp add: dispatch_body_def Let_def)
  next
    case ok
    show ?thesis
    proof (cases "lens False m > I2C_MAX_PAYLOAD_SIZE \<or> lens True m > I2C_MAX_PAYLOAD_SIZE
        \<or> length request < ?base + lens False m \<or> I2C_RESP_SIZE + lens True m > length response")
      case True
      with False ok show ?thesis using answered_error [OF assms(2)]
        by (auto simp: dispatch_body_def Let_def)
    next
      case fits: False
      then obtain ops where ops: "build_ops request m ?base (replicate (lens True m) 0) = Some ops"
          "length (reads ops) = lens True m"
        using build_ops_total [of ?base m request "replicate (lens True m) 0"] by auto
      obtain bus' ops' r where t: "txn bus (ucast (ih_address hdr)) ops = (bus', ops', r)"
        by (cases "txn bus (ucast (ih_address hdr)) ops") auto
      from fits have room: "I2C_RESP_SIZE + lens True m \<le> length response" by simp
      have "length (reads ops') = lens True m"
        using reads_shape [OF keeps_shapeD [OF assms(1) t]] ops(2) by simp
      with run_transaction_eq [OF assms(1) ops(2) room t] room assms(2)
      have "answered response (run_transaction txn bus (ucast (ih_address hdr)) ops (lens True m) response)"
        by (cases r) (simp_all add: answered_def)
      with False ok fits ops show ?thesis by (simp add: dispatch_body_def Let_def)
    qed
  qed
qed

lemma request_ref_total:
  "I2C_REQ_SIZE \<le> length request \<Longrightarrow>
     \<exists>hdr. slice 0 I2C_REQ_SIZE request = Some (take I2C_REQ_SIZE request)
       \<and> i2c_request_ref (take I2C_REQ_SIZE request) = Some hdr"
  by (simp add: slice_take i2c_request_ref_def)

lemma dispatch_answered:
  assumes "keeps_shape txn" "I2C_RESP_SIZE \<le> length response"
  shows "answered response (i2c_dispatch txn bus request response)"
proof (cases "length request < I2C_REQ_SIZE")
  case True
  then show ?thesis using answered_error [OF assms(2)] by (simp add: i2c_dispatch_def)
next
  case False
  then show ?thesis
    using request_ref_total [of request] dispatch_body_answered [OF assms, of request bus]
    by (auto simp: i2c_dispatch_def)
qed

lemma slave_answer_answered:
  "I2C_RESP_SIZE \<le> length response \<Longrightarrow> answered response (slave_answer response res)"
  by (auto simp: slave_answer_def answered_error answered_ok split: prod.split sum.split)

lemma dispatch_slave_answered:
  assumes "I2C_RESP_SIZE \<le> length response"
  shows "answered response (dispatch_slave core slave request response)"
proof (cases "length request < I2C_REQ_SIZE")
  case True
  then show ?thesis using answered_error [OF assms] by (simp add: dispatch_slave_def)
next
  case False
  then show ?thesis
    using request_ref_total [of request] assms
    by (auto simp: dispatch_slave_def answered_error slave_answer_answered split: sum.split i2c_op.split)
qed

end
