(* ===== verification/I2c_Client.thy ===== *)
theory I2c_Client
  imports I2c_Server
begin

text \<open>
  The client side of the I2C service, \<open>services/i2c/client/src/lib.rs\<close>: the marshalling of one
  transaction and of the slave-mode commands over any transport. The transport is a parameter;
  \<^const>\<open>loopback\<close> is one of its two implementations, the other is the IPC channel of the kernel.
\<close>

definition I2C_MAX_BUF_SIZE :: nat where "I2C_MAX_BUF_SIZE = 512"

datatype client_error =
    Transport transport_error
  | ServerError i2c_error
  | InvalidResponse
  | ClientBufferTooSmall
  | ClientTooManyOperations

record slave_receive_event =
  ev_kind :: slave_event
  ev_data_len :: nat
  ev_truncated :: bool

fun client_error_kind :: "client_error \<Rightarrow> error_kind" where
  "client_error_kind (ServerError e) = error_kind_of e"
| "client_error_kind _ = KOther"

section \<open>Reading the response header\<close>

text \<open>
  The part that every call shares: a response shorter than its header is malformed, an error status
  is the error of the server.
\<close>

definition response_status :: "u8 list \<Rightarrow> nat \<Rightarrow> (client_error, i2c_response_header) result option" where
  "response_status resp resp_len =
     (if resp_len < I2C_RESP_SIZE then Some (Inl InvalidResponse)
      else case slice 0 I2C_RESP_SIZE resp of
             None \<Rightarrow> None
           | Some bs \<Rightarrow>
               (case i2c_response_ref bs of
                  None \<Rightarrow> Some (Inl InvalidResponse)
                | Some rhdr \<Rightarrow>
                    if \<not> i2c_is_success rhdr
                    then Some (Inl (ServerError (case i2c_response_code rhdr of Some e \<Rightarrow> e | None \<Rightarrow> InternalError)))
                    else Some (Inr rhdr)))"

section \<open>Slave-mode commands\<close>

definition slave_cmd ::
  "'t transport \<Rightarrow> 't \<Rightarrow> i2c_op \<Rightarrow> u16 \<Rightarrow> u16 \<Rightarrow> u8 list option
    \<Rightarrow> ('t \<times> u8 list option \<times> (client_error, nat) result) option" where
  "slave_cmd tp t op address max_len out =
     (let req = i2c_request_bytes (i2c_request_new op address max_len 0);
          resp = replicate (I2C_RESP_SIZE + I2C_MAX_PAYLOAD_SIZE) 0
      in case tp t req resp of
           None \<Rightarrow> None
         | Some (t, resp, Inl e) \<Rightarrow> Some (t, out, Inl (Transport e))
         | Some (t, resp, Inr resp_len) \<Rightarrow>
             (case response_status resp resp_len of
                None \<Rightarrow> None
              | Some (Inl e) \<Rightarrow> Some (t, out, Inl e)
              | Some (Inr rhdr) \<Rightarrow>
                  (let n = unat (is_payload_len rhdr)
                   in if resp_len < I2C_RESP_SIZE + n then Some (t, out, Inl InvalidResponse)
                      else case out of
                             None \<Rightarrow> Some (t, None, Inr n)
                           | Some buf \<Rightarrow>
                               (let copy = min n (length buf)
                                in case slice I2C_RESP_SIZE (I2C_RESP_SIZE + copy) resp of
                                     None \<Rightarrow> None
                                   | Some bs \<Rightarrow>
                                       (case put_at 0 bs buf of
                                          None \<Rightarrow> None
                                        | Some buf \<Rightarrow> Some (t, Some buf, Inr copy))))))"

definition unit_result :: "('t \<times> u8 list option \<times> (client_error, nat) result) option \<Rightarrow> ('t \<times> (client_error, unit) result) option" where
  "unit_result r = map_option (\<lambda>(t, _, res). (t, map_sum id (\<lambda>_. ()) res)) r"

definition configure_slave :: "'t transport \<Rightarrow> 't \<Rightarrow> u8 \<Rightarrow> ('t \<times> (client_error, unit) result) option" where
  "configure_slave tp t address = unit_result (slave_cmd tp t ConfigureSlave (ucast address) 0 None)"

definition enable_slave :: "'t transport \<Rightarrow> 't \<Rightarrow> ('t \<times> (client_error, unit) result) option" where
  "enable_slave tp t = unit_result (slave_cmd tp t EnableSlave 0 0 None)"

definition disable_slave :: "'t transport \<Rightarrow> 't \<Rightarrow> ('t \<times> (client_error, unit) result) option" where
  "disable_slave tp t = unit_result (slave_cmd tp t DisableSlave 0 0 None)"

definition enable_notification :: "'t transport \<Rightarrow> 't \<Rightarrow> ('t \<times> (client_error, unit) result) option" where
  "enable_notification tp t = unit_result (slave_cmd tp t EnableSlaveNotification 0 0 None)"

definition disable_notification :: "'t transport \<Rightarrow> 't \<Rightarrow> ('t \<times> (client_error, unit) result) option" where
  "disable_notification tp t = unit_result (slave_cmd tp t DisableSlaveNotification 0 0 None)"

text \<open>\<open>resp[payload_offset]\<close> panics out of range; the copy is skipped when there is nothing to copy.\<close>

definition slave_receive_decode ::
  "u8 list \<Rightarrow> nat \<Rightarrow> u8 list \<Rightarrow> (u8 list \<times> (client_error, slave_receive_event) result) option" where
  "slave_receive_decode resp payload_len buf =
     (if payload_len < 1 then Some (buf, Inl InvalidResponse)
      else case slice I2C_RESP_SIZE (I2C_RESP_SIZE + 1) resp of
             None \<Rightarrow> None
           | Some kind_byte \<Rightarrow>
               (let data_len = payload_len - 1
                in case slave_event_try_from (hd kind_byte) of
                     Inl _ \<Rightarrow> Some (buf, Inl InvalidResponse)
                   | Inr kind \<Rightarrow>
                       (let copy = min data_len (length buf);
                            event = \<lparr>ev_kind = kind, ev_data_len = copy, ev_truncated = (data_len > copy)\<rparr>
                        in if copy > 0
                           then case slice (I2C_RESP_SIZE + 1) (I2C_RESP_SIZE + 1 + copy) resp of
                                  None \<Rightarrow> None
                                | Some bs \<Rightarrow>
                                    (case put_at 0 bs buf of
                                       None \<Rightarrow> None
                                     | Some buf \<Rightarrow> Some (buf, Inr event))
                           else Some (buf, Inr event))))"

definition slave_receive ::
  "'t transport \<Rightarrow> 't \<Rightarrow> u8 list \<Rightarrow> ('t \<times> u8 list \<times> (client_error, slave_receive_event) result) option" where
  "slave_receive tp t buf =
     (let mx = of_nat (min (length buf - 1) I2C_MAX_PAYLOAD_SIZE);
          resp = replicate (I2C_RESP_SIZE + I2C_MAX_PAYLOAD_SIZE) 0;
          req = i2c_request_bytes (i2c_request_new SlaveReceive 0 mx 0)
      in case tp t req resp of
           None \<Rightarrow> None
         | Some (t, resp, Inl e) \<Rightarrow> Some (t, buf, Inl (Transport e))
         | Some (t, resp, Inr resp_len) \<Rightarrow>
             (case response_status resp resp_len of
                None \<Rightarrow> None
              | Some (Inl e) \<Rightarrow> Some (t, buf, Inl e)
              | Some (Inr rhdr) \<Rightarrow>
                  (let payload_len = unat (is_payload_len rhdr)
                   in if resp_len < I2C_RESP_SIZE + payload_len then Some (t, buf, Inl InvalidResponse)
                      else map_option (Pair t) (slave_receive_decode resp payload_len buf))))"

definition slave_set_response ::
  "'t transport \<Rightarrow> 't \<Rightarrow> u8 list \<Rightarrow> ('t \<times> (client_error, unit) result) option" where
  "slave_set_response tp t data =
     (let hdr = i2c_request_new SlaveSetResponse 0 0 (of_nat (length data));
          req_len = I2C_REQ_SIZE + length data
      in if req_len > I2C_MAX_BUF_SIZE then Some (t, Inl ClientBufferTooSmall)
         else case tp t (i2c_request_bytes hdr @ data) (replicate I2C_RESP_SIZE 0) of
                None \<Rightarrow> None
              | Some (t, resp, Inl e) \<Rightarrow> Some (t, Inl (Transport e))
              | Some (t, resp, Inr resp_len) \<Rightarrow>
                  map_option (\<lambda>r. (t, map_sum id (\<lambda>_. ()) r)) (response_status resp resp_len))"

section \<open>One transaction\<close>

fun op_desc_of :: "bus_operation \<Rightarrow> i2c_op_desc" where
  "op_desc_of (OpWrite buf) = i2c_desc_new KindWrite (of_nat (length buf))"
| "op_desc_of (OpRead buf) = i2c_desc_new KindRead (of_nat (length buf))"

fun put_descs :: "bus_operation list \<Rightarrow> nat \<Rightarrow> u8 list \<Rightarrow> (nat \<times> u8 list) option" where
  "put_descs [] off req = Some (off, req)"
| "put_descs (op # ops) off req =
     (case put_at off (i2c_desc_bytes (op_desc_of op)) req of
        None \<Rightarrow> None
      | Some req \<Rightarrow> put_descs ops (off + I2C_DESC_SIZE) req)"

fun put_writes :: "bus_operation list \<Rightarrow> nat \<Rightarrow> u8 list \<Rightarrow> (nat \<times> u8 list) option" where
  "put_writes [] off req = Some (off, req)"
| "put_writes (OpWrite buf # ops) off req =
     (case put_at off buf req of
        None \<Rightarrow> None
      | Some req \<Rightarrow> put_writes ops (off + length buf) req)"
| "put_writes (OpRead buf # ops) off req = put_writes ops off req"

fun scatter :: "u8 list \<Rightarrow> nat \<Rightarrow> bus_operation list \<Rightarrow> bus_operation list option" where
  "scatter resp rp [] = Some []"
| "scatter resp rp (OpRead buf # ops) =
     (case slice rp (rp + length buf) resp of
        None \<Rightarrow> None
      | Some bs \<Rightarrow> map_option ((#) (OpRead bs)) (scatter resp (rp + length buf) ops))"
| "scatter resp rp (OpWrite buf # ops) = map_option ((#) (OpWrite buf)) (scatter resp rp ops)"

definition encode_transaction :: "u8 \<Rightarrow> bus_operation list \<Rightarrow> u8 list option" where
  "encode_transaction address ops =
     (let hdr = i2c_request_new Transaction (ucast address) (of_nat (length ops))
                  (of_nat (length ops * I2C_DESC_SIZE + length (writes ops)))
      in case put_at 0 (i2c_request_bytes hdr) (replicate I2C_MAX_BUF_SIZE 0) of
           None \<Rightarrow> None
         | Some req \<Rightarrow>
             (case put_descs ops I2C_REQ_SIZE req of
                None \<Rightarrow> None
              | Some (off, req) \<Rightarrow>
                  (case put_writes ops off req of
                     None \<Rightarrow> None
                   | Some (off, req) \<Rightarrow> slice 0 off req)))"

definition decode_transaction ::
  "bus_operation list \<Rightarrow> u8 list \<Rightarrow> nat \<Rightarrow> (bus_operation list \<times> (client_error, unit) result) option" where
  "decode_transaction ops resp resp_len =
     (case response_status resp resp_len of
        None \<Rightarrow> None
      | Some (Inl e) \<Rightarrow> Some (ops, Inl e)
      | Some (Inr rhdr) \<Rightarrow>
          (let payload_len = unat (is_payload_len rhdr)
           in if payload_len \<noteq> length (reads ops) \<or> resp_len < I2C_RESP_SIZE + payload_len
              then Some (ops, Inl InvalidResponse)
              else map_option (\<lambda>ops. (ops, Inr ())) (scatter resp I2C_RESP_SIZE ops)))"

definition i2c_transact ::
  "'t transport \<Rightarrow> 't \<Rightarrow> u8 \<Rightarrow> bus_operation list \<Rightarrow> ('t \<times> bus_operation list \<times> (client_error, unit) result) option" where
  "i2c_transact tp t address ops =
     (if length ops > I2C_MAX_OPS then Some (t, ops, Inl ClientTooManyOperations)
      else let write_total = length (writes ops); read_total = length (reads ops);
               req_len = I2C_REQ_SIZE + length ops * I2C_DESC_SIZE + write_total
           in if req_len > I2C_MAX_BUF_SIZE \<or> write_total > I2C_MAX_PAYLOAD_SIZE
                 \<or> read_total > I2C_MAX_PAYLOAD_SIZE \<or> I2C_RESP_SIZE + read_total > I2C_MAX_BUF_SIZE
              then Some (t, ops, Inl ClientBufferTooSmall)
              else case encode_transaction address ops of
                     None \<Rightarrow> None
                   | Some req \<Rightarrow>
                       (case tp t req (replicate I2C_MAX_BUF_SIZE 0) of
                          None \<Rightarrow> None
                        | Some (t, resp, Inl e) \<Rightarrow> Some (t, ops, Inl (Transport e))
                        | Some (t, resp, Inr resp_len) \<Rightarrow>
                            map_option (Pair t) (decode_transaction ops resp resp_len)))"

section \<open>The marshalled transaction\<close>

abbreviation descs :: "bus_operation list \<Rightarrow> u8 list" where
  "descs ops \<equiv> concat (map (\<lambda>op. i2c_desc_bytes (op_desc_of op)) ops)"

lemma length_descs: "length (descs ops) = length ops * I2C_DESC_SIZE"
  by (induction ops) auto

lemma put_descs_eq:
  assumes "length (descs ops) \<le> length zs"
  shows "put_descs ops (length xs) (xs @ zs)
    = Some (length xs + length (descs ops), xs @ descs ops @ drop (length (descs ops)) zs)"
  using assms
proof (induction ops arbitrary: xs zs)
  case (Cons op ops)
  let ?d = "i2c_desc_bytes (op_desc_of op)"
  have "put_at (length xs) ?d (xs @ zs) = Some ((xs @ ?d) @ drop I2C_DESC_SIZE zs)"
    using put_at_end [of ?d zs xs] Cons.prems by simp
  then show ?case
    using Cons.IH [of "drop I2C_DESC_SIZE zs" "xs @ ?d"] Cons.prems
    by (simp del: append_assoc) (simp add: add.commute)
qed simp

lemma put_writes_eq:
  assumes "length (writes ops) \<le> length zs"
  shows "put_writes ops (length xs) (xs @ zs)
    = Some (length xs + length (writes ops), xs @ writes ops @ drop (length (writes ops)) zs)"
  using assms
proof (induction ops arbitrary: xs zs)
  case (Cons op ops)
  show ?case
  proof (cases op)
    case (OpWrite w)
    have "put_at (length xs) w (xs @ zs) = Some ((xs @ w) @ drop (length w) zs)"
      using put_at_end [of w zs xs] Cons.prems OpWrite by simp
    then show ?thesis
      using Cons.IH [of "drop (length w) zs" "xs @ w"] Cons.prems OpWrite
      by (simp del: append_assoc) (simp add: add.commute)
  next
    case (OpRead b)
    then show ?thesis using Cons by simp
  qed
qed simp

lemma encode_transaction_eq:
  assumes "I2C_REQ_SIZE + length ops * I2C_DESC_SIZE + length (writes ops) \<le> I2C_MAX_BUF_SIZE"
  shows "encode_transaction address ops =
    Some (i2c_request_bytes (i2c_request_new Transaction (ucast address) (of_nat (length ops))
            (of_nat (length ops * I2C_DESC_SIZE + length (writes ops)))) @ descs ops @ writes ops)"
proof -
  let ?h = "i2c_request_bytes (i2c_request_new Transaction (ucast address) (of_nat (length ops))
            (of_nat (length ops * I2C_DESC_SIZE + length (writes ops))))"
  let ?z = "replicate (I2C_MAX_BUF_SIZE - I2C_REQ_SIZE) (0 :: u8)"
  have 1: "put_at 0 ?h (replicate I2C_MAX_BUF_SIZE 0) = Some (?h @ ?z)"
    using assms by (simp add: put_at_ok write_at_0)
  have 2: "put_descs ops I2C_REQ_SIZE (?h @ ?z)
      = Some (length (?h @ descs ops), (?h @ descs ops) @ drop (length (descs ops)) ?z)"
    using put_descs_eq [of ops ?z ?h] assms by (simp add: length_descs)
  have 3: "put_writes ops (length (?h @ descs ops)) ((?h @ descs ops) @ drop (length (descs ops)) ?z)
      = Some (length (?h @ descs ops @ writes ops),
              (?h @ descs ops @ writes ops) @ drop (length (writes ops)) (drop (length (descs ops)) ?z))"
    using put_writes_eq [of ops "drop (length (descs ops)) ?z" "?h @ descs ops"] assms
    by (simp add: length_descs)
  show ?thesis
    by (simp only: encode_transaction_def Let_def 1 2 3 option.case prod.case) (simp add: slice_def)
qed

text \<open>The server reads back the operations, with the read buffers zeroed.\<close>

fun op_meta_of :: "bus_operation \<Rightarrow> bool \<times> nat" where
  "op_meta_of (OpWrite w) = (False, length w)"
| "op_meta_of (OpRead b) = (True, length b)"

fun blank :: "bus_operation \<Rightarrow> bus_operation" where
  "blank (OpWrite w) = OpWrite w"
| "blank (OpRead b) = OpRead (replicate (length b) 0)"

lemma unat_of_nat_u16: "n < 65536 \<Longrightarrow> unat (of_nat n :: u16) = n"
  by (simp add: unat_of_nat take_bit_nat_eq_self)

lemma scan_encoded:
  assumes "length h = I2C_REQ_SIZE" "length (writes ops') < 65536" "length (reads ops') < 65536"
  shows "scan_descs (h @ descs (ops @ ops') @ tail) (length ops) (length ops') m w r
    = Some (Inr (m @ map op_meta_of ops', w + length (writes ops'), r + length (reads ops')))"
  using assms(2,3)
proof (induction ops' arbitrary: ops m w r)
  case (Cons op ops')
  let ?d = "i2c_desc_bytes (op_desc_of op)" and ?off = "I2C_REQ_SIZE + length ops * I2C_DESC_SIZE"
  let ?req = "h @ descs (ops @ op # ops') @ tail"
  have "length (h @ descs ops) = ?off" by (simp add: length_descs assms(1))
  then have s: "slice ?off (?off + I2C_DESC_SIZE) ?req = Some ?d"
    using slice_frame [of "h @ descs ops" ?d "descs ops' @ tail"] by simp
  have ih: "scan_descs ?req (Suc (length ops)) (length ops') m' w' r'
      = Some (Inr (m' @ map op_meta_of ops', w' + length (writes ops'), r' + length (reads ops')))" for m' w' r'
    using Cons.IH [of "ops @ [op]" m' w' r'] Cons.prems by simp
  have len: "length (op_read op) < 65536" "length (op_written op) < 65536"
    using Cons.prems by simp_all
  show ?case
    unfolding list.size scan_descs.simps
    using s ih len by (cases op) (simp_all add: Let_def unat_of_nat_u16 del: map_append concat_append)
qed simp

lemma build_encoded:
  "build_ops (xs @ writes ops @ zs) (map op_meta_of ops) (length xs) (replicate (length (reads ops)) 0)
    = Some (map blank ops)"
proof (induction ops arbitrary: xs)
  case (Cons op ops)
  show ?case
  proof (cases op)
    case (OpWrite w)
    then show ?thesis
      using Cons [of "xs @ w"] slice_frame [of xs w "writes ops @ zs"] by simp
  next
    case (OpRead b)
    then show ?thesis using Cons [of xs] by simp
  qed
qed simp

lemma scatter_eq:
  "map op_shape ops' = map op_shape ops \<Longrightarrow> scatter (xs @ reads ops' @ zs) (length xs) ops = Some ops'"
proof (induction ops arbitrary: ops' xs)
  case (Cons op ops)
  then obtain op' ops'' where eq: "ops' = op' # ops''" by (cases ops') auto
  with Cons.prems have sh: "map op_shape ops'' = map op_shape ops" "op_shape op' = op_shape op" by simp_all
  show ?case
  proof (cases op)
    case (OpWrite w)
    then show ?thesis using Cons.IH [OF sh(1), of xs] sh(2) by (cases op') (simp_all add: eq)
  next
    case (OpRead b)
    then obtain b' where b': "op' = OpRead b'" "length b' = length b" using sh(2) by (cases op') simp_all
    then show ?thesis
      using Cons.IH [OF sh(1), of "xs @ b'"] slice_frame [of xs b' "reads ops'' @ zs"] OpRead by (simp add: eq)
  qed
qed simp

lemma shape_blank: "op_shape (blank op) = op_shape op"
  by (cases op) simp_all

lemma map_shape_blank: "map op_shape (map blank ops) = map op_shape ops"
  by (simp add: shape_blank)

lemma ucast_u8_u16: "(ucast (ucast (a :: u8) :: u16) :: u8) = a"
  by (rule bit_word_eqI) (simp add: bit_simps)

lemma dispatch_encoded:
  assumes "length ops \<le> I2C_MAX_OPS" "length (writes ops) \<le> I2C_MAX_PAYLOAD_SIZE"
    "length (reads ops) \<le> I2C_MAX_PAYLOAD_SIZE" "I2C_RESP_SIZE + length (reads ops) \<le> length response"
    "encode_transaction address ops = Some req"
  shows "i2c_dispatch txn bus req response
    = run_transaction txn bus address (map blank ops) (length (reads ops)) response"
proof -
  define hdr where "hdr = i2c_request_new Transaction (ucast address) (of_nat (length ops))
            (of_nat (length ops * I2C_DESC_SIZE + length (writes ops)))"
  have req: "req = i2c_request_bytes hdr @ descs ops @ writes ops"
    using encode_transaction_eq [of ops address] assms
    by (simp add: hdr_def i2c_sizes i2c_limits I2C_MAX_BUF_SIZE_def)
  have read: "slice 0 I2C_REQ_SIZE req = Some (i2c_request_bytes hdr)"
    using slice_frame [of "[]" "i2c_request_bytes hdr" "descs ops @ writes ops"] by (simp add: req)
  have small: "length (writes ops) < 65536" "length (reads ops) < 65536" "length ops < 65536"
    using assms(1-3) by (simp_all add: i2c_limits)
  have scan: "scan_descs req 0 (length ops) [] 0 0
      = Some (Inr (map op_meta_of ops, length (writes ops), length (reads ops)))"
    using scan_encoded [of "i2c_request_bytes hdr" ops "[]" "writes ops" "[]" 0 0] small by (simp add: req)
  have build: "build_ops req (map op_meta_of ops) (I2C_REQ_SIZE + length ops * I2C_DESC_SIZE)
      (replicate (length (reads ops)) 0) = Some (map blank ops)"
    using build_encoded [of "i2c_request_bytes hdr @ descs ops" ops "[]"] by (simp add: req length_descs)
  have len: "length req = I2C_REQ_SIZE + length ops * I2C_DESC_SIZE + length (writes ops)"
    by (simp add: req length_descs)
  have "dispatch_body txn bus hdr req response
      = run_transaction txn bus address (map blank ops) (length (reads ops)) response"
    using assms(1-4) small
    by (simp add: dispatch_body_def Let_def hdr_def unat_of_nat_u16 scan build len ucast_u8_u16 del: length_concat)
  then show ?thesis by (simp add: i2c_dispatch_def read len)
qed

section \<open>Transparency\<close>

text \<open>What the caller of a local bus would get, within the limits of one round trip.\<close>

definition local_transaction ::
  "'b bus_txn \<Rightarrow> 'b \<Rightarrow> u8 \<Rightarrow> bus_operation list \<Rightarrow> 'b \<times> bus_operation list \<times> (client_error, unit) result" where
  "local_transaction txn bus address ops =
     (if length ops > I2C_MAX_OPS then (bus, ops, Inl ClientTooManyOperations)
      else if length (writes ops) > I2C_MAX_PAYLOAD_SIZE \<or> length (reads ops) > I2C_MAX_PAYLOAD_SIZE
      then (bus, ops, Inl ClientBufferTooSmall)
      else case txn bus address (map blank ops) of
             (bus', ops', Inr _) \<Rightarrow> (bus', ops', Inr ())
           | (bus', _, Inl kind) \<Rightarrow> (bus', ops, Inl (ServerError (kind_to_wire kind))))"

lemma response_status_error:
  "response_status (i2c_response_bytes (i2c_response_error e) @ rest) I2C_RESP_SIZE = Some (Inl (ServerError e))"
  using slice_frame [of "[]" "i2c_response_bytes (i2c_response_error e)" rest] by (simp add: response_status_def)

lemma response_status_success:
  "I2C_RESP_SIZE \<le> n \<Longrightarrow>
     response_status (i2c_response_bytes (i2c_response_success l) @ rest) n = Some (Inr (i2c_response_success l))"
  using slice_frame [of "[]" "i2c_response_bytes (i2c_response_success l)" rest] by (simp add: response_status_def)

lemma client_error_kind_wire: "client_error_kind (ServerError (kind_to_wire kind)) = kind"
  by (cases kind rule: kind_to_wire.cases) simp_all

lemma transact_within_limits:
  assumes "keeps_shape txn" "length ops \<le> I2C_MAX_OPS" "length (writes ops) \<le> I2C_MAX_PAYLOAD_SIZE"
    "length (reads ops) \<le> I2C_MAX_PAYLOAD_SIZE"
  shows "i2c_transact (loopback txn) bus address ops = Some (local_transaction txn bus address ops)"
proof -
  have fit: "I2C_REQ_SIZE + length ops * I2C_DESC_SIZE + length (writes ops) \<le> I2C_MAX_BUF_SIZE"
    "I2C_RESP_SIZE + length (reads ops) \<le> I2C_MAX_BUF_SIZE"
    using assms(2-4) by (simp_all add: i2c_sizes i2c_limits I2C_MAX_BUF_SIZE_def)
  from encode_transaction_eq [OF fit(1)] obtain req where req: "encode_transaction address ops = Some req" by blast
  let ?resp = "replicate I2C_MAX_BUF_SIZE (0 :: u8)"
  obtain bus' ops' r where t: "txn bus address (map blank ops) = (bus', ops', r)"
    by (cases "txn bus address (map blank ops)") auto
  have shape: "map op_shape ops' = map op_shape ops"
    using keeps_shapeD [OF assms(1) t] by (simp only: map_shape_blank)
  have blank: "length (reads (map blank ops)) = length (reads ops)"
    by (rule reads_shape) (rule map_shape_blank)
  have small: "length (reads ops) < 65536" using assms(4) by (simp add: i2c_limits)
  have d: "i2c_dispatch txn bus req ?resp
      = run_transaction txn bus address (map blank ops) (length (reads ops)) ?resp"
    using fit(2) by (intro dispatch_encoded [OF assms(2-4) _ req]) simp
  have run: "i2c_transact (loopback txn) bus address ops
      = (case i2c_dispatch txn bus req ?resp of None \<Rightarrow> None
         | Some (t, resp, n) \<Rightarrow> map_option (Pair t) (decode_transaction ops resp n))"
    using assms(2-4) fit by (auto simp: i2c_transact_def req loopback_def split: option.split prod.split)
  note rt = run_transaction_eq [OF assms(1) blank _ t, of ?resp]
  show ?thesis
  proof (cases r)
    case (Inl kind)
    then show ?thesis
      unfolding run d using rt fit(2) assms(2-4)
      by (simp add: decode_transaction_def response_status_error local_transaction_def t)
  next
    case (Inr u)
    let ?h = "i2c_response_bytes (i2c_response_success (of_nat (length (reads ops))))"
    have "scatter (?h @ reads ops' @ drop (I2C_RESP_SIZE + length (reads ops)) ?resp) I2C_RESP_SIZE ops = Some ops'"
      using scatter_eq [OF shape, of ?h] by simp
    then show ?thesis
      unfolding run d using Inr rt fit(2) assms(2-4) unat_of_nat_u16 [OF small]
      by (simp add: decode_transaction_def response_status_success local_transaction_def t)
  qed
qed

text \<open>
  C21: I2C transparency. A client that talks to the server through the in-process transport gets exactly what a
  caller of the bus itself would get: more than 16 operations or more than 256 bytes to write or to
  read are refused without touching the bus; otherwise the bus runs the caller's operations as one
  transaction at the caller's address, with the read buffers zeroed first, a success returns the
  buffers as the bus filled them, and a bus error reaches the client with the very error kind the
  driver reported. The driver is only assumed to write nothing but the read buffers.\<close>

theorem i2c_rpc_transparent:
  assumes "keeps_shape txn"
  shows "i2c_transact (loopback txn) bus address ops = Some (local_transaction txn bus address ops)
    \<and> client_error_kind (ServerError (kind_to_wire kind)) = kind"
proof (rule conjI)
  show "i2c_transact (loopback txn) bus address ops = Some (local_transaction txn bus address ops)"
  proof (cases "length ops \<le> I2C_MAX_OPS \<and> length (writes ops) \<le> I2C_MAX_PAYLOAD_SIZE
      \<and> length (reads ops) \<le> I2C_MAX_PAYLOAD_SIZE")
    case True
    then show ?thesis using transact_within_limits [OF assms] by blast
  next
    case False
    then show ?thesis by (auto simp: i2c_transact_def local_transaction_def Let_def)
  qed
  show "client_error_kind (ServerError (kind_to_wire kind)) = kind" by (rule client_error_kind_wire)
qed

text \<open>A register device: a write sets the register to its last byte, a read returns the register.\<close>

fun reg_ops :: "u8 \<Rightarrow> bus_operation list \<Rightarrow> u8 \<times> bus_operation list" where
  "reg_ops r [] = (r, [])"
| "reg_ops r (OpWrite w # ops) = (let (r', ops') = reg_ops (if w = [] then r else last w) ops in (r', OpWrite w # ops'))"
| "reg_ops r (OpRead b # ops) = (let (r', ops') = reg_ops r ops in (r', OpRead (replicate (length b) r) # ops'))"

definition reg_txn :: "u8 bus_txn" where
  "reg_txn r a ops =
     (if a = 0x48 then (let (r', ops') = reg_ops r ops in (r', ops', Inr ()))
      else (r, ops, Inl (KNoAcknowledge NackAddress)))"

lemma reg_txn_shape: "keeps_shape reg_txn"
proof -
  have "map op_shape (snd (reg_ops r ops)) = map op_shape ops" for r ops
    by (induction r ops rule: reg_ops.induct) (auto simp: Let_def split: prod.split)
  then show ?thesis by (simp add: keeps_shape_def reg_txn_def Let_def split: prod.split) (metis snd_conv)
qed

theorem i2c_rpc_transparent_witness:
  "i2c_transact (loopback reg_txn) 7 0x48 [OpRead [1], OpWrite [5, 9], OpRead [2, 3]]
     = Some (9, [OpRead [7], OpWrite [5, 9], OpRead [9, 9]], Inr ())
   \<and> client_error_kind (ServerError (kind_to_wire KOverrun)) = KOverrun"
  using i2c_rpc_transparent [OF reg_txn_shape, of 7 "0x48" "[OpRead [1], OpWrite [5, 9], OpRead [2, 3]]" KOverrun]
  by (simp add: local_transaction_def i2c_limits reg_txn_def)

end
