(* ===== verification/I2c_Runtime.thy ===== *)
theory I2c_Runtime
  imports I2c_Client
begin

unbundle bit_operations_syntax

text \<open>
  The IPC loop of the I2C server, \<open>services/i2c/server-runtime/src/lib.rs\<close>: one wake-up of the wait
  group is one step on the list of buses. The driver of a bus is a parameter (a record of the
  methods the loop calls), the kernel appears as the inputs of a step (the signals that are
  pending, the user data of the wake, the bytes that \<open>channel_read\<close> returns) and as the list of
  system calls the step makes. The response buffer of the loop is part of the state: it is reused
  from one request to the next.
\<close>

section \<open>State\<close>

datatype isr_event = SlaveRdReq | SlaveWrReq | SlaveRdProc | SlaveWrRecvd | SlaveStop

record 'b i2c_driver =
  drv_transaction :: "'b bus_txn"
  drv_core :: "'b slave_core"
  drv_next_event :: "'b \<Rightarrow> 'b \<times> (error_kind, (isr_event \<times> nat) option) result"
  drv_read_buffer :: "'b \<Rightarrow> u8 list \<Rightarrow> 'b \<times> u8 list \<times> (error_kind, nat) result"
  drv_write_response :: "'b \<Rightarrow> u8 list \<Rightarrow> 'b \<times> (error_kind, unit) result"
  drv_recover_bus :: "'b \<Rightarrow> 'b \<times> (error_kind, unit) result"

record 'b i2c_bus =
  channel :: u32
  irq :: u32
  driver :: 'b
  notif_enabled :: bool
  rx :: "u8 list"
  rx_len :: nat
  rx_event_kind :: slave_event

definition bus_new :: "u32 \<Rightarrow> u32 \<Rightarrow> 'b \<Rightarrow> 'b i2c_bus" where
  "bus_new ch irq_handle drv =
     \<lparr>channel = ch, irq = irq_handle, driver = drv, notif_enabled = False,
      rx = replicate I2C_MAX_PAYLOAD_SIZE 0, rx_len = 0, rx_event_kind = DataReceived\<rparr>"

datatype sys_call = InterruptAck u32 u32 | SetPeerUser u32 bool | ChannelRespond u32 "u8 list"

definition request_header_of :: "u8 list \<Rightarrow> (i2c_op \<times> nat) option option" where
  "request_header_of req =
     (if length req < I2C_REQ_SIZE then Some None
      else case slice 0 I2C_REQ_SIZE req of
             None \<Rightarrow> None
           | Some bs \<Rightarrow>
               Some (case i2c_request_ref bs of
                       None \<Rightarrow> None
                     | Some h \<Rightarrow>
                         (case i2c_request_operation h of
                            Inl _ \<Rightarrow> None
                          | Inr op \<Rightarrow> Some (op, unat (ih_op_count h)))))"

section \<open>The hardware interrupt\<close>

definition latch_event :: "'b i2c_driver \<Rightarrow> 'b i2c_bus \<Rightarrow> 'b i2c_bus" where
  "latch_event ops bus =
     (case drv_next_event ops (driver bus) of
        (d, Inr (Some (SlaveWrRecvd, _))) \<Rightarrow>
          (case drv_read_buffer ops d (rx bus) of
             (d, buf, Inr n) \<Rightarrow>
               bus\<lparr>driver := d, rx := buf, rx_len := (if n > 0 then n else rx_len bus), rx_event_kind := DataReceived\<rparr>
           | (d, buf, Inl _) \<Rightarrow> bus\<lparr>driver := d, rx := buf, rx_event_kind := DataReceived\<rparr>)
      | (d, Inr (Some (SlaveRdReq, _))) \<Rightarrow> bus\<lparr>driver := d, rx_event_kind := ReadRequest\<rparr>
      | (d, Inr (Some (SlaveStop, _))) \<Rightarrow> bus\<lparr>driver := d, rx_event_kind := Stop\<rparr>
      | (d, _) \<Rightarrow> bus\<lparr>driver := d\<rparr>)"

definition should_wake :: "'b i2c_bus \<Rightarrow> bool" where
  "should_wake bus \<longleftrightarrow> notif_enabled bus \<and> (rx_len bus > 0 \<or> rx_event_kind bus = Stop)"

definition irq_arm :: "'b i2c_driver \<Rightarrow> u32 \<Rightarrow> 'b i2c_bus \<Rightarrow> 'b i2c_bus \<times> sys_call list" where
  "irq_arm ops acked bus =
     (let bus' = (if notif_enabled bus then latch_event ops bus else bus)
      in (bus', InterruptAck (irq bus) acked
                # (if should_wake bus' then [SetPeerUser (channel bus') True] else [])))"

section \<open>The requests\<close>

text \<open>After a failed transaction the loop reads the status it has just written and may reset the bus.\<close>

definition recover_after :: "'b i2c_driver \<Rightarrow> u8 list \<Rightarrow> nat \<Rightarrow> 'b \<Rightarrow> 'b" where
  "recover_after ops resp n d =
     (if n \<ge> I2C_RESP_SIZE
      then case slice 0 I2C_RESP_SIZE resp of
             None \<Rightarrow> d
           | Some bs \<Rightarrow>
               (case i2c_response_ref bs of
                  None \<Rightarrow> d
                | Some rhdr \<Rightarrow>
                    (case i2c_response_code rhdr of
                       Some Bus \<Rightarrow> fst (drv_recover_bus ops d)
                     | Some ArbitrationLoss \<Rightarrow> fst (drv_recover_bus ops d)
                     | Some Timeout \<Rightarrow> fst (drv_recover_bus ops d)
                     | _ \<Rightarrow> d))
      else d)"

definition serve_receive :: "'b i2c_bus \<Rightarrow> nat \<Rightarrow> u8 list \<Rightarrow> ('b i2c_bus \<times> u8 list \<times> nat) option" where
  "serve_receive bus max_len resp =
     (if rx_len bus = 0 then map_option (Pair bus) (i2c_encode_error resp NoData)
      else let cap = length resp - I2C_RESP_SIZE
           in if cap < 1 then map_option (Pair bus) (i2c_encode_error resp BufferTooSmall)
              else let n = min (min (rx_len bus) max_len) (cap - 1)
                   in case put_at I2C_RESP_SIZE [slave_event_u8 (rx_event_kind bus)] resp of
                        None \<Rightarrow> None
                      | Some resp \<Rightarrow>
                          (case slice 0 n (rx bus) of
                             None \<Rightarrow> None
                           | Some data \<Rightarrow>
                               (case put_at (I2C_RESP_SIZE + 1) data resp of
                                  None \<Rightarrow> None
                                | Some resp \<Rightarrow> map_option (Pair (bus\<lparr>rx_len := 0\<rparr>)) (i2c_encode_ok resp (1 + n)))))"

definition serve_set_response ::
  "'b i2c_driver \<Rightarrow> 'b i2c_bus \<Rightarrow> u8 list \<Rightarrow> u8 list \<Rightarrow> ('b i2c_bus \<times> u8 list \<times> nat) option" where
  "serve_set_response ops bus req resp =
     (if length req < I2C_REQ_SIZE then map_option (Pair bus) (i2c_encode_error resp InvalidOperation)
      else case drv_write_response ops (driver bus) (drop I2C_REQ_SIZE req) of
             (d, Inr _) \<Rightarrow> map_option (Pair (bus\<lparr>driver := d\<rparr>)) (i2c_encode_ok resp 0)
           | (d, Inl _) \<Rightarrow> map_option (Pair (bus\<lparr>driver := d\<rparr>)) (i2c_encode_error resp InternalError))"

definition on_driver :: "'b i2c_bus \<Rightarrow> ('b \<times> u8 list \<times> nat) option \<Rightarrow> ('b i2c_bus \<times> u8 list \<times> nat) option" where
  "on_driver bus = map_option (\<lambda>(d, resp, n). (bus\<lparr>driver := d\<rparr>, resp, n))"

definition request_arm ::
  "'b i2c_driver \<Rightarrow> 'b i2c_bus \<Rightarrow> u8 list \<Rightarrow> u8 list \<Rightarrow> ('b i2c_bus \<times> u8 list \<times> nat) option" where
  "request_arm ops bus req resp =
     (case request_header_of req of
        None \<Rightarrow> None
      | Some (Some (Transaction, _)) \<Rightarrow>
          on_driver bus (map_option (\<lambda>(d, resp, n). (recover_after ops resp n d, resp, n))
            (i2c_dispatch (drv_transaction ops) (driver bus) req resp))
      | Some (Some (ConfigureSlave, _)) \<Rightarrow> on_driver bus (dispatch_slave (drv_core ops) (driver bus) req resp)
      | Some (Some (EnableSlave, _)) \<Rightarrow> on_driver bus (dispatch_slave (drv_core ops) (driver bus) req resp)
      | Some (Some (DisableSlave, _)) \<Rightarrow> on_driver bus (dispatch_slave (drv_core ops) (driver bus) req resp)
      | Some (Some (EnableSlaveNotification, _)) \<Rightarrow>
          map_option (Pair (bus\<lparr>notif_enabled := True\<rparr>)) (i2c_encode_ok resp 0)
      | Some (Some (DisableSlaveNotification, _)) \<Rightarrow>
          map_option (Pair (bus\<lparr>notif_enabled := False, rx_len := 0, rx_event_kind := DataReceived\<rparr>))
            (i2c_encode_ok resp 0)
      | Some (Some (SlaveReceive, max_len)) \<Rightarrow> serve_receive bus max_len resp
      | Some (Some (SlaveSetResponse, _)) \<Rightarrow> serve_set_response ops bus req resp
      | Some None \<Rightarrow> map_option (Pair bus) (i2c_encode_error resp InvalidOperation))"

text \<open>\<open>SlaveReceive\<close> clears the user signal of the channel before it answers.\<close>

definition pre_calls :: "'b i2c_bus \<Rightarrow> u8 list \<Rightarrow> sys_call list" where
  "pre_calls bus req =
     (case request_header_of req of
        Some (Some (SlaveReceive, _)) \<Rightarrow> [SetPeerUser (channel bus) False]
      | _ \<Rightarrow> [])"

section \<open>One wake-up\<close>

record 'b i2c_runtime =
  buses :: "'b i2c_bus list"
  response_buf :: "u8 list"

record wake =
  pending_signals :: u32
  user_data :: u32
  channel_read :: "(unit, u8 list) result"

record signal_names =
  irq_signals :: u32
  sig_readable :: u32

definition contains :: "u32 \<Rightarrow> u32 \<Rightarrow> bool" where
  "contains s t \<longleftrightarrow> s AND t = t"

definition i2c_wake ::
  "'b i2c_driver \<Rightarrow> signal_names \<Rightarrow> 'b i2c_runtime \<Rightarrow> wake \<Rightarrow> ('b i2c_runtime \<times> sys_call list) option" where
  "i2c_wake ops sig rt w =
     (if contains (pending_signals w) (irq_signals sig)
      then case position (\<lambda>b. irq b = user_data w) (buses rt) of
             None \<Rightarrow> Some (rt, [])
           | Some i \<Rightarrow>
               (let (bus, calls) = irq_arm ops (pending_signals w AND irq_signals sig) (buses rt ! i)
                in Some (rt\<lparr>buses := (buses rt)[i := bus]\<rparr>, calls))
      else if \<not> contains (pending_signals w) (sig_readable sig) then Some (rt, [])
      else case position (\<lambda>b. channel b = user_data w) (buses rt) of
             None \<Rightarrow> Some (rt, [])
           | Some i \<Rightarrow>
               (case channel_read w of
                  Inl _ \<Rightarrow> Some (rt, [])
                | Inr req \<Rightarrow>
                    (let bus = buses rt ! i
                     in case request_arm ops bus req (response_buf rt) of
                          None \<Rightarrow> None
                        | Some (bus', resp, resp_len) \<Rightarrow>
                            (case slice 0 resp_len resp of
                               None \<Rightarrow> None
                             | Some bytes \<Rightarrow>
                                 Some (rt\<lparr>buses := (buses rt)[i := bus'], response_buf := resp\<rparr>,
                                       pre_calls bus req @ [ChannelRespond (user_data w) bytes])))))"

definition runtime_new :: "(u32 \<times> u32 \<times> 'b) list \<Rightarrow> 'b i2c_runtime" where
  "runtime_new specs =
     \<lparr>buses = map (\<lambda>(ch, i, d). bus_new ch i d) specs, response_buf = replicate I2C_MAX_BUF_SIZE 0\<rparr>"

fun i2c_serve ::
  "'b i2c_driver \<Rightarrow> signal_names \<Rightarrow> 'b i2c_runtime \<Rightarrow> wake list \<Rightarrow> ('b i2c_runtime \<times> sys_call list) option" where
  "i2c_serve ops sig rt [] = Some (rt, [])"
| "i2c_serve ops sig rt (w # ws) =
     (case i2c_wake ops sig rt w of
        None \<Rightarrow> None
      | Some (rt, calls) \<Rightarrow> map_option (map_prod id ((@) calls)) (i2c_serve ops sig rt ws))"

section \<open>Every request is answered once\<close>

text \<open>
  The driver contract that the loop relies on: a transaction writes only into the read buffers, and
  \<open>read_slave_buffer\<close> fills a prefix of the buffer it is given and returns the length of that prefix.
\<close>

definition driver_ok :: "'b i2c_driver \<Rightarrow> bool" where
  "driver_ok ops \<longleftrightarrow> keeps_shape (drv_transaction ops)
     \<and> (\<forall>d buf. length (fst (snd (drv_read_buffer ops d buf))) = length buf
          \<and> (\<forall>n. snd (snd (drv_read_buffer ops d buf)) = Inr n \<longrightarrow> n \<le> length buf))"

definition bus_inv :: "'b i2c_bus \<Rightarrow> bool" where
  "bus_inv bus \<longleftrightarrow> length (rx bus) = I2C_MAX_PAYLOAD_SIZE \<and> rx_len bus \<le> I2C_MAX_PAYLOAD_SIZE"

definition runtime_inv :: "'b i2c_runtime \<Rightarrow> bool" where
  "runtime_inv rt \<longleftrightarrow> list_all bus_inv (buses rt) \<and> length (response_buf rt) = I2C_MAX_BUF_SIZE"

lemma bus_inv_new: "bus_inv (bus_new ch i d)"
  by (simp add: bus_inv_def bus_new_def)

lemma runtime_inv_new: "runtime_inv (runtime_new specs)"
  by (induction specs) (auto simp: runtime_inv_def runtime_new_def bus_inv_new)

text \<open>What a step keeps of a bus: its two handles and the invariant.\<close>

definition keeps_bus :: "'b i2c_bus \<Rightarrow> 'b i2c_bus \<Rightarrow> bool" where
  "keeps_bus bus bus' \<longleftrightarrow> channel bus' = channel bus \<and> irq bus' = irq bus \<and> (bus_inv bus \<longrightarrow> bus_inv bus')"

lemma keeps_bus_simps [simp]:
  "keeps_bus bus bus" "keeps_bus bus (bus\<lparr>driver := d\<rparr>)" "keeps_bus bus (bus\<lparr>notif_enabled := b\<rparr>)"
  "keeps_bus bus (bus\<lparr>rx_len := 0\<rparr>)" "keeps_bus bus (bus\<lparr>driver := d, rx_event_kind := k\<rparr>)"
  "keeps_bus bus (bus\<lparr>notif_enabled := b, rx_len := 0, rx_event_kind := k\<rparr>)"
  by (auto simp: keeps_bus_def bus_inv_def)

lemma latch_event_keeps: "driver_ok ops \<Longrightarrow> keeps_bus bus (latch_event ops bus)"
proof -
  assume ok: "driver_ok ops"
  have rd: "length buf' = length buf" "r = Inr n \<Longrightarrow> n \<le> length buf"
    if "drv_read_buffer ops d buf = (d', buf', r)" for d buf d' buf' r n
    using ok that unfolding driver_ok_def by (metis fst_conv snd_conv)+
  show ?thesis
    by (auto simp: latch_event_def keeps_bus_def bus_inv_def dest: rd
        split: prod.split sum.split option.split isr_event.split)
qed

lemma irq_arm_keeps: "driver_ok ops \<Longrightarrow> keeps_bus bus (fst (irq_arm ops acked bus))"
  by (simp add: irq_arm_def Let_def latch_event_keeps)

text \<open>An answered request keeps the bus.\<close>

definition served :: "'b i2c_bus \<Rightarrow> u8 list \<Rightarrow> ('b i2c_bus \<times> u8 list \<times> nat) option \<Rightarrow> bool" where
  "served bus resp res \<longleftrightarrow> answered resp res \<and> (\<forall>bus' resp' n. res = Some (bus', resp', n) \<longrightarrow> keeps_bus bus bus')"

lemma served_error:
  "keeps_bus bus bus' \<Longrightarrow> I2C_RESP_SIZE \<le> length resp \<Longrightarrow>
     served bus resp (map_option (Pair bus') (i2c_encode_error resp e))"
  by (simp add: served_def answered_error)

lemma served_ok:
  "keeps_bus bus bus' \<Longrightarrow> I2C_RESP_SIZE \<le> length resp \<Longrightarrow>
     served bus resp (map_option (Pair bus') (i2c_encode_ok resp 0))"
  by (simp add: served_def answered_ok)

lemma served_driver: "answered resp res \<Longrightarrow> served bus resp (on_driver bus res)"
  by (auto simp: served_def answered_def on_driver_def)

lemma serve_receive_eq:
  fixes bus :: "'b i2c_bus" and max_len :: nat
  assumes "bus_inv bus" "length resp = I2C_MAX_BUF_SIZE" "rx_len bus > 0"
  defines "n \<equiv> min (rx_len bus) max_len"
  shows "serve_receive bus max_len resp =
    Some (bus\<lparr>rx_len := 0\<rparr>, i2c_response_bytes (i2c_response_success (of_nat (1 + n)))
       @ slave_event_u8 (rx_event_kind bus) # take n (rx bus) @ drop (I2C_RESP_SIZE + 1 + n) resp,
       I2C_RESP_SIZE + (1 + n))"
proof -
  have n: "n \<le> 256" "length (rx bus) = 256" "rx_len bus \<le> 256"
    using assms(1) by (auto simp: n_def bus_inv_def i2c_limits)
  have len: "length resp = 512" using assms(2) by (simp add: I2C_MAX_BUF_SIZE_def)
  have cap: "min n 507 = n" using n by simp
  let ?k = "slave_event_u8 (rx_event_kind bus)"
  have 1: "put_at 4 [?k] resp = Some (take 4 resp @ ?k # drop 5 resp)"
    using len by (simp add: put_at_def write_at_def)
  have 2: "slice 0 n (rx bus) = Some (take n (rx bus))" using n by (simp add: slice_def)
  have 3: "put_at 5 (take n (rx bus)) (take 4 resp @ ?k # drop 5 resp)
      = Some (take 4 resp @ ?k # take n (rx bus) @ drop (5 + n) resp)"
    using put_at_end [of "take n (rx bus)" "drop 5 resp" "take 4 resp @ [?k]"] n len by (simp add: add.commute)
  have "i2c_encode_ok (take 4 resp @ ?k # take n (rx bus) @ drop (5 + n) resp) (1 + n)
      = Some (i2c_response_bytes (i2c_response_success (of_nat (1 + n))) @ ?k # take n (rx bus) @ drop (5 + n) resp,
              4 + (1 + n))"
    using len n by (simp add: i2c_ok_eq i2c_sizes)
  with 1 2 3 assms(3) len n show ?thesis
    unfolding serve_receive_def by (simp add: Let_def i2c_sizes cap n_def [symmetric])
qed

lemma serve_receive_empty:
  "I2C_RESP_SIZE \<le> length resp \<Longrightarrow> rx_len bus = 0 \<Longrightarrow>
     serve_receive bus max_len resp
     = Some (bus, i2c_response_bytes (i2c_response_error NoData) @ drop I2C_RESP_SIZE resp, I2C_RESP_SIZE)"
  by (simp add: serve_receive_def i2c_error_eq)

lemma serve_receive_served:
  assumes "bus_inv bus" "length resp = I2C_MAX_BUF_SIZE"
  shows "served bus resp (serve_receive bus max_len resp)"
proof (cases "rx_len bus = 0")
  case True
  have "I2C_RESP_SIZE \<le> length resp" by (simp add: assms(2) I2C_MAX_BUF_SIZE_def i2c_sizes)
  with True show ?thesis by (simp add: serve_receive_def served_error)
next
  case False
  have "rx_len bus \<le> 256" "length (rx bus) = 256" using assms(1) by (simp_all add: bus_inv_def i2c_limits)
  with False show ?thesis
    using serve_receive_eq [OF assms, of max_len] assms(2)
    by (simp add: served_def answered_def i2c_sizes I2C_MAX_BUF_SIZE_def)
qed

lemma header_total: "\<exists>h. request_header_of req = Some h"
  by (simp add: request_header_of_def slice_def)

lemma request_arm_served:
  assumes "driver_ok ops" "bus_inv bus" "length resp = I2C_MAX_BUF_SIZE"
  shows "served bus resp (request_arm ops bus req resp)"
proof -
  have room: "I2C_RESP_SIZE \<le> length resp" by (simp add: assms(3) I2C_MAX_BUF_SIZE_def i2c_sizes)
  have shape: "keeps_shape (drv_transaction ops)" using assms(1) by (simp add: driver_ok_def)
  have txn: "answered resp (map_option (\<lambda>(d, resp, n). (recover_after ops resp n d, resp, n))
      (i2c_dispatch (drv_transaction ops) d req resp))" for d
    using dispatch_answered [OF shape room, of d req] by (auto simp: answered_def)
  have set_resp: "served bus resp (serve_set_response ops bus req resp)"
    by (auto simp: serve_set_response_def served_error served_ok room split: prod.split sum.split)
  from header_total obtain h where "request_header_of req = Some h" by blast
  then show ?thesis
    using set_resp serve_receive_served [OF assms(2,3)]
    by (auto simp: request_arm_def served_error served_ok served_driver dispatch_slave_answered txn room
        split: option.split i2c_op.split)
qed

section \<open>Runs of the loop\<close>

definition is_respond :: "sys_call \<Rightarrow> bool" where
  "is_respond c = (case c of ChannelRespond _ _ \<Rightarrow> True | _ \<Rightarrow> False)"

text \<open>The wake-ups that bring a request: readable, not an interrupt, for a channel of the server, with data.\<close>

definition is_request :: "signal_names \<Rightarrow> u32 list \<Rightarrow> wake \<Rightarrow> bool" where
  "is_request sig chans w \<longleftrightarrow> \<not> contains (pending_signals w) (irq_signals sig)
     \<and> contains (pending_signals w) (sig_readable sig) \<and> user_data w \<in> set chans \<and> (\<exists>req. channel_read w = Inr req)"

definition good_respond :: "sys_call \<Rightarrow> bool" where
  "good_respond c = (case c of
     ChannelRespond _ bytes \<Rightarrow> I2C_RESP_SIZE \<le> length bytes \<and> length bytes \<le> I2C_MAX_BUF_SIZE | _ \<Rightarrow> True)"

abbreviation channels :: "'b i2c_runtime \<Rightarrow> u32 list" where "channels rt \<equiv> map channel (buses rt)"

definition step_ok :: "signal_names \<Rightarrow> 'b i2c_runtime \<Rightarrow> wake \<Rightarrow> 'b i2c_runtime \<Rightarrow> sys_call list \<Rightarrow> bool" where
  "step_ok sig rt w rt' calls \<longleftrightarrow> runtime_inv rt' \<and> channels rt' = channels rt
     \<and> length (filter is_respond calls) = (if is_request sig (channels rt) w then 1 else 0)
     \<and> list_all good_respond calls"

lemma keeps_update:
  assumes "i < length bs" "keeps_bus (bs ! i) b'" "list_all bus_inv bs"
  shows "list_all bus_inv (bs[i := b'])" "map channel (bs[i := b']) = map channel bs"
proof -
  from assms have "bus_inv b'" "channel b' = channel (bs ! i)"
    by (auto simp: keeps_bus_def list_all_length)
  with assms show "list_all bus_inv (bs[i := b'])" "map channel (bs[i := b']) = map channel bs"
    by (auto simp: list_all_length nth_list_update intro!: nth_equalityI)
qed

lemma irq_arm_quiet: "filter is_respond (snd (irq_arm ops a bus)) = []" "list_all good_respond (snd (irq_arm ops a bus))"
  by (simp_all add: irq_arm_def Let_def is_respond_def good_respond_def)

lemma pre_calls_quiet: "filter is_respond (pre_calls bus req) = []" "list_all good_respond (pre_calls bus req)"
  by (auto simp: pre_calls_def is_respond_def good_respond_def split: option.split i2c_op.split)

lemma no_position: "position (\<lambda>b. channel b = c) bs = None \<Longrightarrow> c \<notin> channel ` set bs"
  by (auto simp: position_None_iff)

lemma position_channel:
  assumes "position (\<lambda>b. channel b = c) (buses rt) = Some i"
  shows "c \<in> set (channels rt)"
proof -
  from position_SomeD [OF assms] have "i < length (channels rt)" "channels rt ! i = c" by simp_all
  then show ?thesis by (metis nth_mem)
qed

lemma wake_request_ok:
  assumes "driver_ok ops" "runtime_inv rt" "\<not> contains (pending_signals w) (irq_signals sig)"
    "contains (pending_signals w) (sig_readable sig)" "channel_read w = Inr req"
    "position (\<lambda>b. channel b = user_data w) (buses rt) = Some i"
  shows "\<exists>rt' calls. i2c_wake ops sig rt w = Some (rt', calls) \<and> step_ok sig rt w rt' calls"
proof -
  let ?bus = "buses rt ! i"
  have i: "i < length (buses rt)" "channel ?bus = user_data w" using position_SomeD [OF assms(6)] by auto
  have inv: "list_all bus_inv (buses rt)" "length (response_buf rt) = I2C_MAX_BUF_SIZE"
    using assms(2) by (auto simp: runtime_inv_def)
  with i have "bus_inv ?bus" by (simp add: list_all_length)
  from request_arm_served [OF assms(1) this inv(2), of req] obtain bus' resp n where
    r: "request_arm ops ?bus req (response_buf rt) = Some (bus', resp, n)" "length resp = I2C_MAX_BUF_SIZE"
       "I2C_RESP_SIZE \<le> n" "n \<le> I2C_MAX_BUF_SIZE" "keeps_bus ?bus bus'"
    using inv(2) by (auto simp: served_def answered_def)
  from position_channel [OF assms(6)] have "is_request sig (channels rt) w" using assms(3-5) by (simp add: is_request_def)
  with r keeps_update [OF i(1) r(5) inv(1)] show ?thesis
    using assms(3-6) pre_calls_quiet [of ?bus req]
    by (simp add: i2c_wake_def Let_def slice_take step_ok_def runtime_inv_def is_respond_def good_respond_def)
qed

lemma wake_ok:
  assumes "driver_ok ops" "runtime_inv rt"
  shows "\<exists>rt' calls. i2c_wake ops sig rt w = Some (rt', calls) \<and> step_ok sig rt w rt' calls"
proof -
  have inv: "list_all bus_inv (buses rt)" using assms(2) by (simp add: runtime_inv_def)
  consider (irq) "contains (pending_signals w) (irq_signals sig)"
    | (idle) "\<not> contains (pending_signals w) (irq_signals sig)" "\<not> is_request sig (channels rt) w"
    | (req) "is_request sig (channels rt) w" by blast
  then show ?thesis
  proof cases
    case irq
    show ?thesis
    proof (cases "position (\<lambda>b. irq b = user_data w) (buses rt)")
      case None
      with irq assms(2) show ?thesis by (simp add: i2c_wake_def step_ok_def is_request_def)
    next
      case (Some i)
      then have i: "i < length (buses rt)" by (auto dest: position_SomeD)
      have "keeps_bus (buses rt ! i) (fst (irq_arm ops (pending_signals w AND irq_signals sig) (buses rt ! i)))"
        by (rule irq_arm_keeps [OF assms(1)])
      from keeps_update [OF i this inv] irq Some assms(2) show ?thesis
        using irq_arm_quiet [of ops "pending_signals w AND irq_signals sig" "buses rt ! i"]
        by (auto simp: i2c_wake_def step_ok_def is_request_def runtime_inv_def split: prod.split)
    qed
  next
    case idle
    show ?thesis
    proof (cases "position (\<lambda>b. channel b = user_data w) (buses rt)")
      case None
      with idle assms(2) show ?thesis by (simp add: i2c_wake_def step_ok_def)
    next
      case (Some i)
      from position_channel [OF this] idle have "\<not> contains (pending_signals w) (sig_readable sig) \<or> (\<exists>e. channel_read w = Inl e)"
        by (cases "channel_read w") (auto simp: is_request_def)
      then have "i2c_wake ops sig rt w = Some (rt, [])" using idle(1) Some by (auto simp: i2c_wake_def)
      with idle assms(2) show ?thesis by (simp add: step_ok_def)
    qed
  next
    case req
    then obtain bytes where b: "channel_read w = Inr bytes" by (auto simp: is_request_def)
    from req obtain i where "position (\<lambda>b. channel b = user_data w) (buses rt) = Some i"
      using no_position [of "user_data w" "buses rt"] by (fastforce simp: is_request_def)
    with wake_request_ok [OF assms _ _ b] req show ?thesis by (simp add: is_request_def)
  qed
qed

lemma serve_ok:
  assumes "driver_ok ops" "runtime_inv rt"
  shows "\<exists>rt' calls. i2c_serve ops sig rt ws = Some (rt', calls) \<and> runtime_inv rt' \<and> channels rt' = channels rt
    \<and> length (filter is_respond calls) = length (filter (is_request sig (channels rt)) ws)
    \<and> list_all good_respond calls"
  using assms(2)
proof (induction ws arbitrary: rt)
  case (Cons w ws)
  from wake_ok [OF assms(1) Cons.prems, of sig w] obtain rt1 c1 where
    1: "i2c_wake ops sig rt w = Some (rt1, c1)" "step_ok sig rt w rt1 c1" by blast
  then have "runtime_inv rt1" by (simp add: step_ok_def)
  from Cons.IH [OF this] 1 show ?case by (auto simp: step_ok_def)
qed simp

text \<open>
  C22: The I2C server never panics and answers every request. From the initial state, for any sequence
  of wake-ups - interrupts of any bus, requests with any bytes on any channel, spurious wake-ups -
  the loop reaches no slice error, the latch of every bus keeps its bounds, it makes exactly one
  response call for each wake-up that brings a request, and each response is at least a header and
  at most the 512 bytes of the response buffer. The driver is only assumed to write into the read
  buffers of a transaction and to report a length within the buffer it drains into.\<close>

theorem i2c_server_answers_all:
  assumes "driver_ok ops"
  shows "\<exists>rt calls. i2c_serve ops sig (runtime_new specs) ws = Some (rt, calls) \<and> runtime_inv rt
    \<and> length (filter is_respond calls) = length (filter (is_request sig (map fst specs)) ws)
    \<and> list_all good_respond calls"
proof -
  have "channels (runtime_new specs) = map fst specs"
    by (simp add: runtime_new_def bus_new_def comp_def case_prod_unfold)
  then show ?thesis using serve_ok [OF assms runtime_inv_new, of sig specs ws] by auto
qed

text \<open>A driver whose state is the queue of its interrupt events and the bytes the controller received.\<close>

definition fifo_driver :: "((isr_event \<times> u8 list) list \<times> u8 list) i2c_driver" where
  "fifo_driver =
     \<lparr>drv_transaction = (\<lambda>d a ops. (d, ops, Inl KBus)),
      drv_core = \<lparr>configure_slave_address = (\<lambda>d a. (d, Inr ())), enable_slave_mode = (\<lambda>d. (d, Inr ())),
                  disable_slave_mode = (\<lambda>d. (d, Inr ()))\<rparr>,
      drv_next_event = (\<lambda>(evs, got). case evs of [] \<Rightarrow> (([], got), Inr None)
                          | (e, bs) # evs \<Rightarrow> ((evs, bs), Inr (Some (e, length bs)))),
      drv_read_buffer = (\<lambda>(evs, got) buf. let n = min (length got) (length buf)
                          in ((evs, []), take n got @ drop n buf, Inr n)),
      drv_write_response = (\<lambda>d bs. (d, Inr ())),
      drv_recover_bus = (\<lambda>d. (d, Inr ()))\<rparr>"

lemma fifo_driver_ok: "driver_ok fifo_driver"
  by (auto simp: driver_ok_def fifo_driver_def keeps_shape_def Let_def)

definition demo_signals :: signal_names where
  "demo_signals = \<lparr>irq_signals = 4, sig_readable = 1\<rparr>"

definition ask :: "u32 \<Rightarrow> u8 list \<Rightarrow> wake" where
  "ask ch req = \<lparr>pending_signals = 1, user_data = ch, channel_read = Inr req\<rparr>"

definition interrupt :: "u32 \<Rightarrow> wake" where
  "interrupt i = \<lparr>pending_signals = 4, user_data = i, channel_read = Inl ()\<rparr>"

theorem i2c_server_answers_all_witness:
  "\<exists>rt calls. i2c_serve fifo_driver demo_signals (runtime_new [(10, 20, ([], []))])
      [ask 10 [1, 2], interrupt 20, ask 11 []] = Some (rt, calls)
    \<and> length (filter is_respond calls) = 1"
  using i2c_server_answers_all [OF fifo_driver_ok, of demo_signals "[(10, 20, ([], []))]"
      "[ask 10 [1, 2], interrupt 20, ask 11 []]"]
  by (auto simp: is_request_def contains_def demo_signals_def ask_def interrupt_def)

section \<open>The slave latch through the client\<close>

text \<open>
  The kernel channel, as the loop and the client use it: a request of the client wakes the server as
  readable, and the bytes of the response call arrive at the front of the client's buffer, when they
  fit there. What the kernel does with a longer response is left open.
\<close>

definition channel_rendezvous ::
  "'b i2c_driver \<Rightarrow> signal_names \<Rightarrow> u32 \<Rightarrow> 'b i2c_runtime transport \<Rightarrow> bool" where
  "channel_rendezvous ops sig ch tp \<longleftrightarrow>
     (\<forall>rt req resp rt' pre bytes.
        i2c_wake ops sig rt \<lparr>pending_signals = sig_readable sig, user_data = ch, channel_read = Inr req\<rparr>
          = Some (rt', pre @ [ChannelRespond ch bytes])
        \<and> length bytes \<le> length resp
        \<longrightarrow> tp rt req resp = Some (rt', bytes @ drop (length bytes) resp, Inr (length bytes)))"

text \<open>The channel that copies what fits.\<close>

definition copying_channel :: "'b i2c_driver \<Rightarrow> signal_names \<Rightarrow> u32 \<Rightarrow> 'b i2c_runtime transport" where
  "copying_channel ops sig ch rt req resp =
     (case i2c_wake ops sig rt \<lparr>pending_signals = sig_readable sig, user_data = ch, channel_read = Inr req\<rparr> of
        None \<Rightarrow> None
      | Some (rt', calls) \<Rightarrow>
          (case last calls of
             ChannelRespond _ bytes \<Rightarrow>
               if length bytes \<le> length resp
               then Some (rt', bytes @ drop (length bytes) resp, Inr (length bytes))
               else Some (rt', resp, Inl Failed)
           | _ \<Rightarrow> Some (rt', resp, Inl Failed)))"

lemma copying_channel_rendezvous: "channel_rendezvous ops sig ch (copying_channel ops sig ch)"
  by (auto simp: channel_rendezvous_def copying_channel_def)

lemma request_header_of_new:
  "request_header_of (i2c_request_bytes (i2c_request_new op a c l)) = Some (Some (op, unat c))"
  using slice_frame [of "[]" "i2c_request_bytes (i2c_request_new op a c l)" "[]"] by (simp add: request_header_of_def)

lemma wake_receive:
  fixes c :: u16
  assumes "runtime_inv rt" "\<not> contains (sig_readable sig) (irq_signals sig)"
    "position (\<lambda>b. channel b = ch) (buses rt) = Some i"
    "serve_receive (buses rt ! i) (unat c) (response_buf rt) = Some (bus', resp, n)" "n \<le> length resp"
  shows "i2c_wake ops sig rt \<lparr>pending_signals = sig_readable sig, user_data = ch,
           channel_read = Inr (i2c_request_bytes (i2c_request_new SlaveReceive a c l))\<rparr>
    = Some (rt\<lparr>buses := (buses rt)[i := bus'], response_buf := resp\<rparr>,
            [SetPeerUser ch False] @ [ChannelRespond ch (take n resp)])"
proof -
  have "channel (buses rt ! i) = ch" using position_SomeD [OF assms(3)] by simp
  then show ?thesis
    using assms by (simp add: i2c_wake_def contains_def request_arm_def request_header_of_new pre_calls_def Let_def slice_take)
qed

text \<open>The client's reading of the payload.\<close>

lemma slave_receive_decode_eq:
  assumes "length h = I2C_RESP_SIZE" "length data \<le> length buf"
  shows "slave_receive_decode (h @ slave_event_u8 k # data @ rest) (Suc (length data)) buf
    = Some (data @ drop (length data) buf, Inr \<lparr>ev_kind = k, ev_data_len = length data, ev_truncated = False\<rparr>)"
proof -
  have 1: "slice I2C_RESP_SIZE (I2C_RESP_SIZE + 1) (h @ slave_event_u8 k # data @ rest) = Some [slave_event_u8 k]"
    using slice_frame [of h "[slave_event_u8 k]" "data @ rest"] assms(1) by simp
  have 2: "slice (I2C_RESP_SIZE + 1) (I2C_RESP_SIZE + 1 + length data) (h @ slave_event_u8 k # data @ rest) = Some data"
    using slice_frame [of "h @ [slave_event_u8 k]" data rest] assms(1) by simp
  have 3: "put_at 0 data buf = Some (data @ drop (length data) buf)"
    using assms(2) by (simp add: put_at_ok write_at_0)
  have m: "min (length data) (length buf) = length data" using assms(2) by simp
  show ?thesis
    using 1 2 3 assms(2) by (cases "data = []"; cases "buf = []") (simp_all add: slave_receive_decode_def Let_def m)
qed

text \<open>One \<open>slave_receive\<close> call against a server that has latched bytes, and against one that has not.\<close>

lemma receive_latched:
  fixes rt :: "'b i2c_runtime"
  assumes "channel_rendezvous ops sig ch tp" "runtime_inv rt" "\<not> contains (sig_readable sig) (irq_signals sig)"
    "position (\<lambda>b. channel b = ch) (buses rt) = Some i" "rx_len (buses rt ! i) > 0"
    and n: "n = min (rx_len (buses rt ! i)) (length buf - 1)" "n < I2C_MAX_PAYLOAD_SIZE"
  shows "\<exists>rt'. slave_receive tp rt buf
      = Some (rt', take n (rx (buses rt ! i)) @ drop n buf,
              Inr \<lparr>ev_kind = rx_event_kind (buses rt ! i), ev_data_len = n, ev_truncated = False\<rparr>)
    \<and> runtime_inv rt' \<and> buses rt' = (buses rt)[i := (buses rt ! i)\<lparr>rx_len := 0\<rparr>]"
proof -
  let ?bus = "buses rt ! i" and ?c = "of_nat (min (length buf - 1) I2C_MAX_PAYLOAD_SIZE) :: u16"
  have i: "i < length (buses rt)" using position_SomeD [OF assms(4)] by simp
  have inv: "list_all bus_inv (buses rt)" "length (response_buf rt) = I2C_MAX_BUF_SIZE"
    using assms(2) by (simp_all add: runtime_inv_def)
  then have bus: "bus_inv ?bus" using i by (simp add: list_all_length)
  then have lens: "length (rx ?bus) = 256" "rx_len ?bus \<le> 256" by (simp_all add: bus_inv_def i2c_limits)
  have "unat ?c = min (length buf - 1) 256" by (simp add: unat_of_nat_u16 i2c_limits)
  then have c: "min (rx_len ?bus) (unat ?c) = n" using lens n by (simp add: i2c_limits min_def)
  define resp where "resp = i2c_response_bytes (i2c_response_success (of_nat (1 + n)))
      @ slave_event_u8 (rx_event_kind ?bus) # take n (rx ?bus) @ drop (I2C_RESP_SIZE + 1 + n) (response_buf rt)"
  have sr: "serve_receive ?bus (unat ?c) (response_buf rt)
      = Some (?bus\<lparr>rx_len := 0\<rparr>, resp, I2C_RESP_SIZE + (1 + n))"
    using serve_receive_eq [OF bus inv(2) assms(5), of "unat ?c"] by (simp only: c resp_def)
  have n256: "n \<le> 255" using n(2) by (simp add: i2c_limits)
  have len: "length resp = I2C_MAX_BUF_SIZE"
    using n256 lens inv(2) by (simp add: resp_def I2C_MAX_BUF_SIZE_def i2c_sizes)
  let ?rt' = "rt\<lparr>buses := (buses rt)[i := ?bus\<lparr>rx_len := 0\<rparr>], response_buf := resp\<rparr>"
  let ?z = "replicate (I2C_RESP_SIZE + I2C_MAX_PAYLOAD_SIZE) (0 :: u8)"
  let ?bytes = "take (I2C_RESP_SIZE + (1 + n)) resp"
  have fit: "length ?bytes \<le> length ?z" "length ?bytes = I2C_RESP_SIZE + (1 + n)"
    using n256 len by (simp_all add: i2c_sizes i2c_limits I2C_MAX_BUF_SIZE_def)
  have w: "i2c_wake ops sig rt \<lparr>pending_signals = sig_readable sig, user_data = ch,
      channel_read = Inr (i2c_request_bytes (i2c_request_new SlaveReceive 0 ?c 0))\<rparr>
    = Some (?rt', [SetPeerUser ch False] @ [ChannelRespond ch ?bytes])"
    by (rule wake_receive [OF assms(2-4) sr]) (use n256 len in \<open>simp add: I2C_MAX_BUF_SIZE_def i2c_sizes\<close>)
  have tp: "tp rt (i2c_request_bytes (i2c_request_new SlaveReceive 0 ?c 0)) ?z
      = Some (?rt', ?bytes @ drop (length ?bytes) ?z, Inr (I2C_RESP_SIZE + (1 + n)))"
    using assms(1) w fit unfolding channel_rendezvous_def by metis
  have bytes: "?bytes = i2c_response_bytes (i2c_response_success (of_nat (1 + n)))
      @ slave_event_u8 (rx_event_kind ?bus) # take n (rx ?bus)"
    using n256 lens by (simp add: resp_def i2c_sizes)
  have data: "length (take n (rx ?bus)) = n" "n \<le> length buf" using n256 lens n(1) by simp_all
  have pl: "unat (of_nat (1 + n) :: u16) = Suc n" using n256 unat_of_nat_u16 [of "1 + n"] by simp
  have st: "response_status (?bytes @ drop (length ?bytes) ?z) (I2C_RESP_SIZE + (1 + n))
      = Some (Inr (i2c_response_success (of_nat (1 + n))))"
    unfolding bytes append_assoc by (rule response_status_success) simp
  have de: "slave_receive_decode (?bytes @ drop (length ?bytes) ?z) (Suc n) buf
    = Some (take n (rx ?bus) @ drop n buf, Inr \<lparr>ev_kind = rx_event_kind ?bus, ev_data_len = n, ev_truncated = False\<rparr>)"
    using slave_receive_decode_eq [of "i2c_response_bytes (i2c_response_success (of_nat (1 + n)))"
        "take n (rx ?bus)" buf "rx_event_kind ?bus" "drop (length ?bytes) ?z"] data
    unfolding bytes by simp
  have "runtime_inv ?rt'"
    using keeps_update [OF i, of "?bus\<lparr>rx_len := 0\<rparr>"] inv len by (simp add: runtime_inv_def)
  then show ?thesis
    unfolding slave_receive_def Let_def tp option.case prod.case sum.case st
    using pl de by (intro exI [of _ ?rt']) simp
qed

lemma receive_empty:
  fixes rt :: "'b i2c_runtime"
  assumes "channel_rendezvous ops sig ch tp" "runtime_inv rt" "\<not> contains (sig_readable sig) (irq_signals sig)"
    "position (\<lambda>b. channel b = ch) (buses rt) = Some i" "rx_len (buses rt ! i) = 0"
  shows "\<exists>rt'. slave_receive tp rt buf = Some (rt', buf, Inl (ServerError NoData)) \<and> buses rt' = buses rt"
proof -
  let ?c = "of_nat (min (length buf - 1) I2C_MAX_PAYLOAD_SIZE) :: u16"
  define resp where "resp = i2c_response_bytes (i2c_response_error NoData) @ drop I2C_RESP_SIZE (response_buf rt)"
  have len: "I2C_RESP_SIZE \<le> length (response_buf rt)"
    using assms(2) by (simp add: runtime_inv_def I2C_MAX_BUF_SIZE_def i2c_sizes)
  have sr: "serve_receive (buses rt ! i) (unat ?c) (response_buf rt) = Some (buses rt ! i, resp, I2C_RESP_SIZE)"
    using serve_receive_empty [OF len assms(5)] by (simp only: resp_def)
  let ?rt' = "rt\<lparr>buses := (buses rt)[i := buses rt ! i], response_buf := resp\<rparr>"
  let ?h = "i2c_response_bytes (i2c_response_error NoData)"
  let ?z = "replicate (I2C_RESP_SIZE + I2C_MAX_PAYLOAD_SIZE) (0 :: u8)"
  have "i2c_wake ops sig rt \<lparr>pending_signals = sig_readable sig, user_data = ch,
      channel_read = Inr (i2c_request_bytes (i2c_request_new SlaveReceive 0 ?c 0))\<rparr>
    = Some (?rt', [SetPeerUser ch False] @ [ChannelRespond ch ?h])"
    using wake_receive [OF assms(2-4) sr, of ops 0 0] len by (simp add: resp_def)
  moreover have "length ?h \<le> length ?z" "length ?h = I2C_RESP_SIZE" by simp_all
  ultimately have tp: "tp rt (i2c_request_bytes (i2c_request_new SlaveReceive 0 ?c 0)) ?z
      = Some (?rt', ?h @ drop (length ?h) ?z, Inr I2C_RESP_SIZE)"
    using assms(1) unfolding channel_rendezvous_def by metis
  show ?thesis
    unfolding slave_receive_def Let_def tp option.case prod.case sum.case response_status_error
    by (intro exI [of _ ?rt']) simp
qed

text \<open>One interrupt of an armed bus.\<close>

lemma wake_interrupt:
  assumes "position (\<lambda>b. irq b = h) (buses rt) = Some i"
  shows "i2c_wake ops sig rt \<lparr>pending_signals = irq_signals sig, user_data = h, channel_read = r\<rparr>
    = Some (rt\<lparr>buses := (buses rt)[i := fst (irq_arm ops (irq_signals sig) (buses rt ! i))]\<rparr>,
            snd (irq_arm ops (irq_signals sig) (buses rt ! i)))"
  using assms by (simp add: i2c_wake_def contains_def split: prod.split)

lemma position_channel_update:
  assumes "position (\<lambda>b. channel b = ch) bs = Some i" "keeps_bus (bs ! i) b'"
  shows "position (\<lambda>b. channel b = ch) (bs[i := b']) = Some i"
proof -
  have "i < length bs" using position_SomeD [OF assms(1)] by simp
  then have "map channel (bs[i := b']) = map channel bs"
    using assms(2) by (auto simp: keeps_bus_def nth_list_update intro!: nth_equalityI)
  from position_map_cong [OF this, of ch] assms(1) show ?thesis by simp
qed

text \<open>
  C23: Bytes written by a bus master reach the client of the slave. Take a bus with notification
  armed, the first one bound both to the channel and to the interrupt object, and an interrupt
  whose event is received data: the server drains the controller, \<open>n\<close> bytes, and raises the user
  signal of the client's channel; the client's next \<open>slave_receive\<close> returns exactly those \<open>n\<close>
  bytes at the front of its buffer, marked as received data and not truncated, and the call after
  that reports that nothing is latched. Conditions: \<open>0 < n < 256\<close>, and a client buffer strictly
  longer than \<open>n\<close> (the server keeps one byte of the requested length for the event kind); the
  signals of the interrupt object do not include the channel-readable signal; the runtime is in
  its invariant; the driver respects the length of the buffer it fills; the kernel channel
  delivers every response that fits the client's buffer.
\<close>

theorem slave_bytes_reach_client:
  fixes rt :: "'b i2c_runtime"
  assumes "channel_rendezvous ops sig ch tp" "driver_ok ops" "runtime_inv rt"
    "\<not> contains (sig_readable sig) (irq_signals sig)"
    "position (\<lambda>b. channel b = ch) (buses rt) = Some i" "position (\<lambda>b. irq b = h) (buses rt) = Some i"
    "notif_enabled (buses rt ! i)" "drv_next_event ops (driver (buses rt ! i)) = (d, Inr (Some (SlaveWrRecvd, l)))"
    "drv_read_buffer ops d (rx (buses rt ! i)) = (d', received, Inr n)"
    "0 < n" "n < length buf" "n < I2C_MAX_PAYLOAD_SIZE"
  shows "\<exists>rt1 calls rt2 rt3.
    i2c_wake ops sig rt \<lparr>pending_signals = irq_signals sig, user_data = h, channel_read = Inl ()\<rparr> = Some (rt1, calls)
    \<and> SetPeerUser ch True \<in> set calls
    \<and> slave_receive tp rt1 buf
       = Some (rt2, take n received @ drop n buf, Inr \<lparr>ev_kind = DataReceived, ev_data_len = n, ev_truncated = False\<rparr>)
    \<and> slave_receive tp rt2 buf' = Some (rt3, buf', Inl (ServerError NoData))"
proof -
  define bus1 where "bus1 = (buses rt ! i)\<lparr>driver := d', rx := received, rx_len := n, rx_event_kind := DataReceived\<rparr>"
  have arm: "irq_arm ops (irq_signals sig) (buses rt ! i)
      = (bus1, [InterruptAck (irq (buses rt ! i)) (irq_signals sig), SetPeerUser ch True])"
    using assms(7-10) position_SomeD [OF assms(5)] by (simp add: irq_arm_def latch_event_def should_wake_def bus1_def)
  have keeps: "keeps_bus (buses rt ! i) bus1" using irq_arm_keeps [OF assms(2)] arm by (metis fst_conv)
  have i: "i < length (buses rt)" using position_SomeD [OF assms(5)] by simp
  let ?rt1 = "rt\<lparr>buses := (buses rt)[i := bus1]\<rparr>"
  have w: "i2c_wake ops sig rt \<lparr>pending_signals = irq_signals sig, user_data = h, channel_read = Inl ()\<rparr>
      = Some (?rt1, [InterruptAck (irq (buses rt ! i)) (irq_signals sig), SetPeerUser ch True])"
    using wake_interrupt [OF assms(6), of ops sig "Inl ()"] by (simp add: arm)
  have inv1: "runtime_inv ?rt1" using keeps_update(1) [OF i keeps] assms(3) by (simp add: runtime_inv_def)
  have pos1: "position (\<lambda>b. channel b = ch) (buses ?rt1) = Some i"
    using position_channel_update [OF assms(5) keeps] by simp
  have at: "buses ?rt1 ! i = bus1" "i < length (buses ?rt1)" using i by simp_all
  have b1: "rx_len bus1 = n" "rx bus1 = received" "rx_event_kind bus1 = DataReceived" by (simp_all add: bus1_def)
  have pre: "rx_len (buses ?rt1 ! i) > 0" "n = min (rx_len (buses ?rt1 ! i)) (length buf - 1)"
    unfolding at(1) b1 using assms(10,11) by simp_all
  from receive_latched [OF assms(1) inv1 assms(4) pos1 pre assms(12), unfolded at(1) b1] obtain rt2 where
    r2: "slave_receive tp ?rt1 buf
       = Some (rt2, take n received @ drop n buf, Inr \<lparr>ev_kind = DataReceived, ev_data_len = n, ev_truncated = False\<rparr>)"
      "runtime_inv rt2" "buses rt2 = (buses ?rt1)[i := bus1\<lparr>rx_len := 0\<rparr>]"
    by blast
  have "position (\<lambda>b. channel b = ch) (buses rt2) = Some i"
    unfolding r2(3) by (rule position_channel_update [OF pos1]) (simp add: i)
  moreover have "rx_len (buses rt2 ! i) = 0" using at by (simp add: r2(3))
  ultimately obtain rt3 where r3: "slave_receive tp rt2 buf' = Some (rt3, buf', Inl (ServerError NoData))"
    using receive_empty [OF assms(1) r2(2) assms(4), of i buf'] by blast
  show ?thesis by (intro exI conjI, rule w, simp, rule r2(1), rule r3)
qed

definition demo_rt :: "(isr_event \<times> u8 list) list \<Rightarrow> ((isr_event \<times> u8 list) list \<times> u8 list) i2c_runtime" where
  "demo_rt evs = \<lparr>buses = [(bus_new 10 20 (evs, []))\<lparr>notif_enabled := True\<rparr>], response_buf = replicate I2C_MAX_BUF_SIZE 0\<rparr>"

lemma demo_rt_facts:
  "runtime_inv (demo_rt evs)" "\<not> contains (sig_readable demo_signals) (irq_signals demo_signals)"
  "position (\<lambda>b. channel b = 10) (buses (demo_rt evs)) = Some 0"
  "position (\<lambda>b. irq b = 20) (buses (demo_rt evs)) = Some 0"
  "notif_enabled (buses (demo_rt evs) ! 0)" "driver (buses (demo_rt evs) ! 0) = (evs, [])"
  "rx (buses (demo_rt evs) ! 0) = replicate 256 0" "rx_len (buses (demo_rt evs) ! 0) = 0"
  by (simp_all add: demo_rt_def runtime_inv_def bus_inv_def bus_new_def demo_signals_def contains_def i2c_limits)

theorem slave_bytes_reach_client_witness:
  "\<exists>rt1 calls rt2 rt3.
    i2c_wake fifo_driver demo_signals (demo_rt [(SlaveWrRecvd, [7, 8])])
      \<lparr>pending_signals = irq_signals demo_signals, user_data = 20, channel_read = Inl ()\<rparr> = Some (rt1, calls)
    \<and> SetPeerUser 10 True \<in> set calls
    \<and> slave_receive (copying_channel fifo_driver demo_signals 10) rt1 [0, 0, 0]
       = Some (rt2, [7, 8, 0], Inr \<lparr>ev_kind = DataReceived, ev_data_len = 2, ev_truncated = False\<rparr>)
    \<and> slave_receive (copying_channel fifo_driver demo_signals 10) rt2 [] = Some (rt3, [], Inl (ServerError NoData))"
  using slave_bytes_reach_client [OF copying_channel_rendezvous fifo_driver_ok demo_rt_facts(1) [of "[(SlaveWrRecvd, [7, 8])]"]
        demo_rt_facts(2) demo_rt_facts(3-5) [of "[(SlaveWrRecvd, [7, 8])]"],
      of "([], [7, 8])" 2 "([], [])" "[7, 8] @ replicate 254 0" 2 "[0, 0, 0]" "[]"]
  by (simp add: demo_rt_facts fifo_driver_def i2c_limits)

text \<open>
  What a stop event does to the latch. When the next event of an armed bus is a stop condition, the
  client is woken; if bytes were already latched, its \<open>slave_receive\<close> gets them marked as a stop and
  not as received data, and if none were latched, the call the wake asks for fails with no data, so
  that a stop is never seen on its own.\<close>

theorem stop_event_misreported:
  fixes rt :: "'b i2c_runtime"
  assumes "channel_rendezvous ops sig ch tp" "driver_ok ops" "runtime_inv rt"
    "\<not> contains (sig_readable sig) (irq_signals sig)"
    "position (\<lambda>b. channel b = ch) (buses rt) = Some i" "position (\<lambda>b. irq b = h) (buses rt) = Some i"
    "notif_enabled (buses rt ! i)" "drv_next_event ops (driver (buses rt ! i)) = (d, Inr (Some (SlaveStop, l)))"
    "rx_len (buses rt ! i) < length buf" "rx_len (buses rt ! i) < I2C_MAX_PAYLOAD_SIZE"
  shows "\<exists>rt1 calls rt2.
    i2c_wake ops sig rt \<lparr>pending_signals = irq_signals sig, user_data = h, channel_read = Inl ()\<rparr> = Some (rt1, calls)
    \<and> SetPeerUser ch True \<in> set calls
    \<and> (if rx_len (buses rt ! i) = 0 then slave_receive tp rt1 buf = Some (rt2, buf, Inl (ServerError NoData))
       else slave_receive tp rt1 buf
         = Some (rt2, take (rx_len (buses rt ! i)) (rx (buses rt ! i)) @ drop (rx_len (buses rt ! i)) buf,
                 Inr \<lparr>ev_kind = Stop, ev_data_len = rx_len (buses rt ! i), ev_truncated = False\<rparr>))"
proof -
  define bus1 where "bus1 = (buses rt ! i)\<lparr>driver := d, rx_event_kind := Stop\<rparr>"
  have arm: "irq_arm ops (irq_signals sig) (buses rt ! i)
      = (bus1, [InterruptAck (irq (buses rt ! i)) (irq_signals sig), SetPeerUser ch True])"
    using assms(7,8) position_SomeD [OF assms(5)] by (simp add: irq_arm_def latch_event_def should_wake_def bus1_def)
  have keeps: "keeps_bus (buses rt ! i) bus1" by (simp add: bus1_def)
  have i: "i < length (buses rt)" using position_SomeD [OF assms(5)] by simp
  let ?rt1 = "rt\<lparr>buses := (buses rt)[i := bus1]\<rparr>"
  have w: "i2c_wake ops sig rt \<lparr>pending_signals = irq_signals sig, user_data = h, channel_read = Inl ()\<rparr>
      = Some (?rt1, [InterruptAck (irq (buses rt ! i)) (irq_signals sig), SetPeerUser ch True])"
    using wake_interrupt [OF assms(6), of ops sig "Inl ()"] by (simp add: arm)
  have inv1: "runtime_inv ?rt1" using keeps_update(1) [OF i keeps] assms(3) by (simp add: runtime_inv_def)
  have pos1: "position (\<lambda>b. channel b = ch) (buses ?rt1) = Some i"
    using position_channel_update [OF assms(5) keeps] by simp
  have at: "buses ?rt1 ! i = bus1" using i by simp
  show ?thesis
  proof (cases "rx_len (buses rt ! i) = 0")
    case True
    then have "rx_len (buses ?rt1 ! i) = 0" unfolding at by (simp add: bus1_def)
    from receive_empty [OF assms(1) inv1 assms(4) pos1 this, of buf] obtain rt2 where
      r: "slave_receive tp ?rt1 buf = Some (rt2, buf, Inl (ServerError NoData))" by blast
    show ?thesis
      by (rule exI [of _ ?rt1], rule exI [of _ "[InterruptAck (irq (buses rt ! i)) (irq_signals sig), SetPeerUser ch True]"],
          rule exI [of _ rt2]) (simp add: w r True)
  next
    case False
    let ?n = "rx_len (buses rt ! i)"
    have "rx_len (buses ?rt1 ! i) > 0" "?n = min (rx_len (buses ?rt1 ! i)) (length buf - 1)"
      unfolding at using False assms(9) by (simp_all add: bus1_def)
    from receive_latched [OF assms(1) inv1 assms(4) pos1 this assms(10)] obtain rt2 where
      r: "slave_receive tp ?rt1 buf = Some (rt2, take ?n (rx (buses ?rt1 ! i)) @ drop ?n buf,
         Inr \<lparr>ev_kind = rx_event_kind (buses ?rt1 ! i), ev_data_len = ?n, ev_truncated = False\<rparr>)" by blast
    have eq: "rx (buses ?rt1 ! i) = rx (buses rt ! i)" "rx_event_kind (buses ?rt1 ! i) = Stop"
      unfolding at by (simp_all add: bus1_def)
    show ?thesis
      by (rule exI [of _ ?rt1], rule exI [of _ "[InterruptAck (irq (buses rt ! i)) (irq_signals sig), SetPeerUser ch True]"],
          rule exI [of _ rt2]) (simp add: w r [unfolded eq] False)
  qed
qed

theorem stop_event_misreported_witness:
  "\<exists>rt1 calls rt2.
    i2c_wake fifo_driver demo_signals (demo_rt [(SlaveStop, [])])
      \<lparr>pending_signals = irq_signals demo_signals, user_data = 20, channel_read = Inl ()\<rparr> = Some (rt1, calls)
    \<and> SetPeerUser 10 True \<in> set calls
    \<and> slave_receive (copying_channel fifo_driver demo_signals 10) rt1 [0]
       = Some (rt2, [0], Inl (ServerError NoData))"
  using stop_event_misreported [OF copying_channel_rendezvous fifo_driver_ok demo_rt_facts(1) [of "[(SlaveStop, [])]"]
        demo_rt_facts(2) demo_rt_facts(3-5) [of "[(SlaveStop, [])]"], of "([], [])" 0 "[0]"]
  by (simp add: demo_rt_facts fifo_driver_def i2c_limits)

text \<open>
  A client buffer that is too small for the latched bytes: the rest of the bytes is dropped with the
  latch and the event says that nothing was truncated.
\<close>

theorem truncation_unreported:
  fixes rt :: "'b i2c_runtime"
  assumes "channel_rendezvous ops sig ch tp" "runtime_inv rt" "\<not> contains (sig_readable sig) (irq_signals sig)"
    "position (\<lambda>b. channel b = ch) (buses rt) = Some i" "length buf - 1 < rx_len (buses rt ! i)"
  shows "\<exists>rt' buf'. slave_receive tp rt buf
      = Some (rt', buf', Inr \<lparr>ev_kind = rx_event_kind (buses rt ! i), ev_data_len = length buf - 1, ev_truncated = False\<rparr>)
    \<and> rx_len (buses rt' ! i) = 0"
proof -
  have i: "i < length (buses rt)" using position_SomeD [OF assms(4)] by simp
  then have "bus_inv (buses rt ! i)" using assms(2) by (simp add: runtime_inv_def list_all_length)
  then have "length buf - 1 < I2C_MAX_PAYLOAD_SIZE" using assms(5) by (simp add: bus_inv_def)
  with receive_latched [OF assms(1-4), of "length buf - 1" buf] assms(5) show ?thesis
    using i by fastforce
qed

end
