(* ===== verification/Swmbx.thy ===== *)
theory Swmbx
  imports Prelude
begin

unbundle bit_operations_syntax

text \<open>
  The software mailbox of the PFR flow, \<open>target/ast10x0/pfr/swmbx_ctrl.rs\<close>: a 256-byte register file
  seen from two bus ports, with per-port write protection and change notification, and up to four
  addresses remapped to FIFOs while a port has a FIFO transaction open.

  The shared region behind the volatile accesses is the list \<open>mem\<close>. A FIFO is the list of its
  bytes, oldest first; \<open>heapless::spsc::Queue<_, N>\<close> documents that it holds \<open>N - 1\<close> elements, and
  this usable capacity is the argument \<open>qcap\<close> of the operations that enqueue. Every operation
  returns the new controller with the result. Array indices that the source would panic on out of
  range are in range in every state that satisfies \<open>swmbx_wf\<close>, which all operations keep.
\<close>

section \<open>Constants and state\<close>

definition SWMBX_DEV_COUNT :: nat where "SWMBX_DEV_COUNT = 2"
definition SWMBX_NODE_COUNT :: nat where "SWMBX_NODE_COUNT = 256"
definition SWMBX_FIFO_COUNT :: nat where "SWMBX_FIFO_COUNT = 4"
definition SWMBX_FIFO_DEPTH :: nat where "SWMBX_FIFO_DEPTH = 256"
definition PROTECT_BITS_PER_WORD :: nat where "PROTECT_BITS_PER_WORD = 32"
definition PROTECT_WORD_COUNT :: nat where "PROTECT_WORD_COUNT = SWMBX_NODE_COUNT div PROTECT_BITS_PER_WORD"

definition SWMBX_PROTECT :: u8 where "SWMBX_PROTECT = 1"
definition SWMBX_NOTIFY :: u8 where "SWMBX_NOTIFY = 2"
definition SWMBX_FIFO :: u8 where "SWMBX_FIFO = 4"
definition FLAG_MASK :: u8 where "FLAG_MASK = SWMBX_PROTECT OR SWMBX_NOTIFY OR SWMBX_FIFO"
definition SWMBX_FIFO_NOTIFY_START :: u8 where "SWMBX_FIFO_NOTIFY_START = 1"
definition SWMBX_FIFO_NOTIFY_STOP :: u8 where "SWMBX_FIFO_NOTIFY_STOP = 2"

datatype swmbx_error =
    InvalidPort
  | InvalidAddress
  | InvalidFifoIndex
  | InvalidFifoDepth
  | InvalidFlagMask
  | InvalidProtectRange
  | FifoFull
  | FifoEmpty
  | FifoNotMapped

fun swmbx_error_code :: "swmbx_error \<Rightarrow> u16" where
  "swmbx_error_code InvalidPort = 0x1001"
| "swmbx_error_code InvalidAddress = 0x1002"
| "swmbx_error_code InvalidFifoIndex = 0x1003"
| "swmbx_error_code InvalidFifoDepth = 0x1004"
| "swmbx_error_code InvalidFlagMask = 0x1005"
| "swmbx_error_code InvalidProtectRange = 0x1006"
| "swmbx_error_code FifoFull = 0x1007"
| "swmbx_error_code FifoEmpty = 0x1008"
| "swmbx_error_code FifoNotMapped = 0x100A"

record swmbx_node =
  nd_notify_flag :: bool
  enabled_flags :: u8

definition node_default :: swmbx_node where
  "node_default = \<lparr>nd_notify_flag = False, enabled_flags = 0\<rparr>"

record swmbx_fifo =
  queue :: "u8 list"
  ff_notify_flag :: u8
  notify_start :: bool
  fifo_write :: bool
  fifo_offset :: u8
  ff_enabled :: bool
  msg_index :: nat
  max_msg_count :: nat

definition fifo_new :: swmbx_fifo where
  "fifo_new = \<lparr>queue = [], ff_notify_flag = 0, notify_start = False, fifo_write = False, fifo_offset = 0,
     ff_enabled = False, msg_index = 0, max_msg_count = SWMBX_FIFO_DEPTH\<rparr>"

record swmbx_ctrl =
  mbx_en :: u8
  node :: "swmbx_node list list"
  fifo :: "swmbx_fifo list"
  mbx_fifo_execute :: "bool list"
  mbx_fifo_addr :: "u8 list"
  mbx_fifo_idx :: "u8 list"
  mem :: "u8 list"
  buffer_size :: nat

section \<open>FIFO operations\<close>

definition append_write :: "nat \<Rightarrow> swmbx_fifo \<Rightarrow> u8 \<Rightarrow> swmbx_fifo \<times> (swmbx_error, unit) result" where
  "append_write qcap f v =
     (if max_msg_count f = 0 then (f, Inl InvalidFifoDepth)
      else if length (queue f) < max_msg_count f then
        (case push_cap qcap (queue f) v of
           None \<Rightarrow> (f, Inl FifoFull)
         | Some q \<Rightarrow>
             (f\<lparr>queue := q,
                msg_index := (if msg_index f = max_msg_count f - 1 then 0
                              else (msg_index f + 1) mod max_msg_count f)\<rparr>, Inr ()))
      else (f, Inl FifoFull))"

definition fifo_dequeue :: "swmbx_fifo \<Rightarrow> swmbx_fifo \<times> (swmbx_error, u8) result" where
  "fifo_dequeue f = (case queue f of [] \<Rightarrow> (f, Inl FifoEmpty) | v # q \<Rightarrow> (f\<lparr>queue := q\<rparr>, Inr v))"

text \<open>\<open>while self.queue.dequeue().is_some() {}\<close> empties the queue.\<close>

fun drain_queue :: "u8 list \<Rightarrow> u8 list" where
  "drain_queue [] = []"
| "drain_queue (_ # q) = drain_queue q"

definition fifo_flush :: "swmbx_fifo \<Rightarrow> swmbx_fifo" where
  "fifo_flush f = f\<lparr>queue := drain_queue (queue f), msg_index := 0, notify_start := False, fifo_write := False\<rparr>"

section \<open>Controller operations\<close>

text \<open>A null region base panics; every address is aligned for bytes.\<close>

definition new_with_regions :: "nat \<Rightarrow> nat \<Rightarrow> u8 list \<Rightarrow> swmbx_ctrl option" where
  "new_with_regions bytes base region =
     (if base = 0 then None
      else Some \<lparr>mbx_en = 0,
             node = replicate SWMBX_DEV_COUNT (replicate SWMBX_NODE_COUNT node_default),
             fifo = [fifo_new, fifo_new, fifo_new, fifo_new],
             mbx_fifo_execute = replicate SWMBX_DEV_COUNT False,
             mbx_fifo_addr = replicate SWMBX_DEV_COUNT 0,
             mbx_fifo_idx = replicate SWMBX_DEV_COUNT 0,
             mem = region, buffer_size = bytes\<rparr>)"

definition read_in_region :: "swmbx_ctrl \<Rightarrow> u8 \<Rightarrow> (swmbx_error, u8) result" where
  "read_in_region c offset =
     (if unat offset \<ge> buffer_size c then Inl InvalidAddress else Inr (mem c ! unat offset))"

definition write_in_region :: "swmbx_ctrl \<Rightarrow> u8 \<Rightarrow> u8 \<Rightarrow> swmbx_ctrl \<times> (swmbx_error, unit) result" where
  "write_in_region c offset v =
     (if unat offset \<ge> buffer_size c then (c, Inl InvalidAddress)
      else (c\<lparr>mem := (mem c)[unat offset := v]\<rparr>, Inr ()))"

definition upd_node :: "swmbx_ctrl \<Rightarrow> nat \<Rightarrow> nat \<Rightarrow> (swmbx_node \<Rightarrow> swmbx_node) \<Rightarrow> swmbx_ctrl" where
  "upd_node c port a f = c\<lparr>node := (node c)[port := (node c ! port)[a := f (node c ! port ! a)]]\<rparr>"

definition upd_fifo :: "swmbx_ctrl \<Rightarrow> nat \<Rightarrow> (swmbx_fifo \<Rightarrow> swmbx_fifo) \<Rightarrow> swmbx_ctrl" where
  "upd_fifo c i f = c\<lparr>fifo := (fifo c)[i := f (fifo c ! i)]\<rparr>"

definition set_flag :: "u8 \<Rightarrow> bool \<Rightarrow> swmbx_node \<Rightarrow> swmbx_node" where
  "set_flag flag en n =
     n\<lparr>enabled_flags := (if en then enabled_flags n OR flag else enabled_flags n AND NOT flag)\<rparr>"

definition update_notify :: "swmbx_ctrl \<Rightarrow> nat \<Rightarrow> u8 \<Rightarrow> bool \<Rightarrow> swmbx_ctrl \<times> (swmbx_error, unit) result" where
  "update_notify c port addr enable =
     (if port \<ge> SWMBX_DEV_COUNT then (c, Inl InvalidPort)
      else if unat addr \<ge> SWMBX_NODE_COUNT then (c, Inl InvalidAddress)
      else (upd_node c port (unat addr) (set_flag SWMBX_NOTIFY enable), Inr ()))"

definition update_fifo ::
    "swmbx_ctrl \<Rightarrow> nat \<Rightarrow> u8 \<Rightarrow> nat \<Rightarrow> u8 \<Rightarrow> bool \<Rightarrow> swmbx_ctrl \<times> (swmbx_error, unit) result" where
  "update_fifo c index addr depth notify enable =
     (if index \<ge> SWMBX_FIFO_COUNT then (c, Inl InvalidFifoIndex)
      else if enable \<and> (depth = 0 \<or> depth > SWMBX_FIFO_DEPTH) then (c, Inl InvalidFifoDepth)
      else if unat addr \<ge> SWMBX_NODE_COUNT then (c, Inl InvalidAddress)
      else (upd_fifo c index (\<lambda>f.
              if enable then
                f\<lparr>ff_enabled := enable, fifo_offset := addr, max_msg_count := depth, ff_notify_flag := notify,
                  msg_index := 0, notify_start := False, fifo_write := False, queue := []\<rparr>
              else f\<lparr>ff_enabled := enable, notify_start := False, fifo_write := False, queue := []\<rparr>), Inr ()))"

definition flush_fifo :: "swmbx_ctrl \<Rightarrow> nat \<Rightarrow> swmbx_ctrl \<times> (swmbx_error, unit) result" where
  "flush_fifo c index =
     (if index \<ge> SWMBX_FIFO_COUNT then (c, Inl InvalidFifoIndex) else (upd_fifo c index fifo_flush, Inr ()))"

definition enable_behavior :: "swmbx_ctrl \<Rightarrow> u8 \<Rightarrow> bool \<Rightarrow> swmbx_ctrl \<times> (swmbx_error, unit) result" where
  "enable_behavior c flag enable =
     (if flag AND FLAG_MASK = 0 then (c, Inl InvalidFlagMask)
      else (c\<lparr>mbx_en := (if enable then mbx_en c OR flag else mbx_en c AND NOT flag)\<rparr>, Inr ()))"

definition update_protect :: "swmbx_ctrl \<Rightarrow> nat \<Rightarrow> u8 \<Rightarrow> bool \<Rightarrow> swmbx_ctrl \<times> (swmbx_error, unit) result" where
  "update_protect c port addr enable =
     (if port \<ge> SWMBX_DEV_COUNT then (c, Inl InvalidPort)
      else if unat addr \<ge> SWMBX_NODE_COUNT then (c, Inl InvalidAddress)
      else (upd_node c port (unat addr) (set_flag SWMBX_PROTECT enable), Inr ()))"

text \<open>The two loops of \<open>apply_protect\<close>: over the bits of one word, and over the words.\<close>

function protect_bits :: "swmbx_ctrl \<Rightarrow> nat \<Rightarrow> nat \<Rightarrow> u32 \<Rightarrow> nat \<Rightarrow> swmbx_ctrl" where
  "protect_bits c port base val b =
     (if b < PROTECT_BITS_PER_WORD then
        (let addr = base + b in
         if addr \<ge> SWMBX_NODE_COUNT then c
         else protect_bits (upd_node c port addr (set_flag SWMBX_PROTECT (drop_bit b val AND 1 \<noteq> 0))) port base val (Suc b))
      else c)"
  by pat_completeness auto
termination by (relation "measure (\<lambda>(c, port, base, val, b). PROTECT_BITS_PER_WORD - b)") auto

declare protect_bits.simps [simp del]

fun protect_words :: "swmbx_ctrl \<Rightarrow> nat \<Rightarrow> nat \<Rightarrow> u32 list \<Rightarrow> swmbx_ctrl" where
  "protect_words c port idx [] = c"
| "protect_words c port idx (val # vals) =
     protect_words (protect_bits c port (idx * PROTECT_BITS_PER_WORD) val 0) port (Suc idx) vals"

definition apply_protect :: "swmbx_ctrl \<Rightarrow> nat \<Rightarrow> u32 list \<Rightarrow> u64 \<Rightarrow> swmbx_ctrl \<times> (swmbx_error, unit) result" where
  "apply_protect c port bitmap start_idx =
     (if port \<ge> SWMBX_DEV_COUNT then (c, Inl InvalidPort)
      else if unat start_idx + length bitmap < 2 ^ 64 \<and> unat start_idx + length bitmap \<le> PROTECT_WORD_COUNT
      then (protect_words c port (unat start_idx) bitmap, Inr ())
      else (c, Inl InvalidProtectRange))"

definition fifo_active :: "swmbx_ctrl \<Rightarrow> nat \<Rightarrow> bool" where
  "fifo_active c port \<longleftrightarrow> mbx_fifo_execute c ! port \<and> mbx_en c AND SWMBX_FIFO \<noteq> 0"

definition get_msg :: "swmbx_ctrl \<Rightarrow> nat \<Rightarrow> u8 \<Rightarrow> swmbx_ctrl \<times> (swmbx_error, u8) result" where
  "get_msg c port addr =
     (if port \<ge> SWMBX_DEV_COUNT then (c, Inl InvalidPort)
      else if fifo_active c port then
        (let i = unat (mbx_fifo_idx c ! port); (f, res) = fifo_dequeue (fifo c ! i)
         in (c\<lparr>fifo := (fifo c)[i := f]\<rparr>, res))
      else (c, read_in_region c addr))"

definition set_notify :: "swmbx_ctrl \<Rightarrow> nat \<Rightarrow> nat \<Rightarrow> swmbx_ctrl" where
  "set_notify c port a = upd_node c port a (\<lambda>n. n\<lparr>nd_notify_flag := True\<rparr>)"

definition send_msg_fifo :: "nat \<Rightarrow> swmbx_ctrl \<Rightarrow> nat \<Rightarrow> u8 \<Rightarrow> u8 \<Rightarrow> swmbx_ctrl \<times> (swmbx_error, unit) result" where
  "send_msg_fifo qcap c port addr v =
     (let fifo_addr = unat (mbx_fifo_addr c ! port); i = unat (mbx_fifo_idx c ! port)
      in case append_write qcap (fifo c ! i) v of
           (f, Inl err) \<Rightarrow> (set_notify (c\<lparr>fifo := (fifo c)[i := f]\<rparr>) port (unat addr), Inl err)
         | (f, Inr _) \<Rightarrow>
             (let c1 = c\<lparr>fifo := (fifo c)[i := f]\<rparr>;
                  c2 = (if mbx_en c1 AND SWMBX_NOTIFY \<noteq> 0
                            \<and> ff_notify_flag (fifo c1 ! i) AND SWMBX_FIFO_NOTIFY_START \<noteq> 0
                            \<and> \<not> notify_start (fifo c1 ! i)
                            \<and> enabled_flags (node c1 ! port ! fifo_addr) AND SWMBX_NOTIFY \<noteq> 0
                        then upd_fifo (set_notify c1 port fifo_addr) i (\<lambda>f. f\<lparr>notify_start := True\<rparr>)
                        else c1)
              in (if \<not> fifo_write (fifo c2 ! i) then upd_fifo c2 i (\<lambda>f. f\<lparr>fifo_write := True\<rparr>) else c2, Inr ())))"

definition send_msg :: "nat \<Rightarrow> swmbx_ctrl \<Rightarrow> nat \<Rightarrow> u8 \<Rightarrow> u8 \<Rightarrow> swmbx_ctrl \<times> (swmbx_error, unit) result" where
  "send_msg qcap c port addr v =
     (if port \<ge> SWMBX_DEV_COUNT then (c, Inl InvalidPort)
      else if fifo_active c port then send_msg_fifo qcap c port addr v
      else
        (let n = node c ! port ! unat addr;
             write_to_buffer = (enabled_flags n AND SWMBX_PROTECT = 0 \<or> mbx_en c AND SWMBX_PROTECT = 0);
             c1 = (if mbx_en c AND SWMBX_NOTIFY \<noteq> 0 \<and> enabled_flags n AND SWMBX_NOTIFY \<noteq> 0
                   then set_notify c port (unat addr) else c)
         in if write_to_buffer then write_in_region c1 addr v else (c1, Inr ())))"

definition check_fifo :: "swmbx_ctrl \<Rightarrow> u8 \<Rightarrow> nat option" where
  "check_fifo c addr = position (\<lambda>f. fifo_offset f = addr \<and> ff_enabled f) (fifo c)"

definition send_start :: "swmbx_ctrl \<Rightarrow> nat \<Rightarrow> u8 \<Rightarrow> swmbx_ctrl \<times> (swmbx_error, unit) result" where
  "send_start c port addr =
     (if port \<ge> SWMBX_DEV_COUNT then (c, Inl InvalidPort)
      else
        (case check_fifo c addr of
           Some i \<Rightarrow>
             (c\<lparr>mbx_fifo_execute := (mbx_fifo_execute c)[port := True],
                mbx_fifo_addr := (mbx_fifo_addr c)[port := addr],
                mbx_fifo_idx := (mbx_fifo_idx c)[port := of_nat i]\<rparr>, Inr ())
         | None \<Rightarrow> (c\<lparr>mbx_fifo_execute := (mbx_fifo_execute c)[port := False]\<rparr>, Inr ())))"

definition send_stop :: "swmbx_ctrl \<Rightarrow> nat \<Rightarrow> swmbx_ctrl \<times> (swmbx_error, unit) result" where
  "send_stop c port =
     (if port \<ge> SWMBX_DEV_COUNT then (c, Inl InvalidPort)
      else if mbx_fifo_execute c ! port then
        (let fifo_addr = unat (mbx_fifo_addr c ! port); i = unat (mbx_fifo_idx c ! port);
             c1 = (if mbx_en c AND SWMBX_NOTIFY \<noteq> 0
                       \<and> ff_notify_flag (fifo c ! i) AND SWMBX_FIFO_NOTIFY_STOP \<noteq> 0
                       \<and> fifo_write (fifo c ! i)
                       \<and> enabled_flags (node c ! port ! fifo_addr) AND SWMBX_NOTIFY \<noteq> 0
                   then set_notify c port fifo_addr else c);
             c2 = upd_fifo c1 i (\<lambda>f. f\<lparr>notify_start := False, fifo_write := False\<rparr>)
         in (c2\<lparr>mbx_fifo_execute := (mbx_fifo_execute c2)[port := False],
                mbx_fifo_addr := (mbx_fifo_addr c2)[port := 0],
                mbx_fifo_idx := (mbx_fifo_idx c2)[port := 0]\<rparr>, Inr ()))
      else (c, Inr ()))"

definition swmbx_write :: "nat \<Rightarrow> swmbx_ctrl \<Rightarrow> bool \<Rightarrow> u8 \<Rightarrow> u8 \<Rightarrow> swmbx_ctrl \<times> (swmbx_error, unit) result" where
  "swmbx_write qcap c to_fifo addr v =
     (if to_fifo then
        (case check_fifo c addr of
           Some i \<Rightarrow> (let (f, res) = append_write qcap (fifo c ! i) v in (c\<lparr>fifo := (fifo c)[i := f]\<rparr>, res))
         | None \<Rightarrow> (c, Inl FifoNotMapped))
      else write_in_region c addr v)"

definition swmbx_read :: "swmbx_ctrl \<Rightarrow> bool \<Rightarrow> u8 \<Rightarrow> swmbx_ctrl \<times> (swmbx_error, u8) result" where
  "swmbx_read c from_fifo addr =
     (if from_fifo then
        (case check_fifo c addr of
           Some i \<Rightarrow> (let (f, res) = fifo_dequeue (fifo c ! i) in (c\<lparr>fifo := (fifo c)[i := f]\<rparr>, res))
         | None \<Rightarrow> (c, Inl FifoNotMapped))
      else (c, read_in_region c addr))"


section \<open>The controller as a machine\<close>

datatype swmbx_op =
    UpdateNotify nat u8 bool
  | UpdateFifo nat u8 nat u8 bool
  | FlushFifo nat
  | EnableBehavior u8 bool
  | UpdateProtect nat u8 bool
  | ApplyProtect nat "u32 list" u64
  | GetMsg nat u8
  | SendMsg nat u8 u8
  | SendStart nat u8
  | SendStop nat
  | SwWrite bool u8 u8
  | SwRead bool u8

datatype swmbx_reply = Ack "(swmbx_error, unit) result" | Byte "(swmbx_error, u8) result"

definition acked :: "swmbx_ctrl \<times> (swmbx_error, unit) result \<Rightarrow> swmbx_ctrl \<times> swmbx_reply list" where
  "acked r = (fst r, [Ack (snd r)])"

definition answered :: "swmbx_ctrl \<times> (swmbx_error, u8) result \<Rightarrow> swmbx_ctrl \<times> swmbx_reply list" where
  "answered r = (fst r, [Byte (snd r)])"

fun swmbx_step :: "nat \<Rightarrow> swmbx_ctrl \<Rightarrow> swmbx_op \<Rightarrow> swmbx_ctrl \<times> swmbx_reply list" where
  "swmbx_step qcap c (UpdateNotify p a e) = acked (update_notify c p a e)"
| "swmbx_step qcap c (UpdateFifo i a d n e) = acked (update_fifo c i a d n e)"
| "swmbx_step qcap c (FlushFifo i) = acked (flush_fifo c i)"
| "swmbx_step qcap c (EnableBehavior fl e) = acked (enable_behavior c fl e)"
| "swmbx_step qcap c (UpdateProtect p a e) = acked (update_protect c p a e)"
| "swmbx_step qcap c (ApplyProtect p bm st) = acked (apply_protect c p bm st)"
| "swmbx_step qcap c (GetMsg p a) = answered (get_msg c p a)"
| "swmbx_step qcap c (SendMsg p a v) = acked (send_msg qcap c p a v)"
| "swmbx_step qcap c (SendStart p a) = acked (send_start c p a)"
| "swmbx_step qcap c (SendStop p) = acked (send_stop c p)"
| "swmbx_step qcap c (SwWrite fi a v) = acked (swmbx_write qcap c fi a v)"
| "swmbx_step qcap c (SwRead fi a) = answered (swmbx_read c fi a)"

section \<open>Well-formed controllers\<close>

definition fifo_wf :: "nat \<Rightarrow> swmbx_fifo \<Rightarrow> bool" where
  "fifo_wf qcap f \<longleftrightarrow> 0 < max_msg_count f \<and> max_msg_count f \<le> SWMBX_FIFO_DEPTH \<and> msg_index f < max_msg_count f
     \<and> length (queue f) \<le> max_msg_count f \<and> length (queue f) \<le> qcap"

definition swmbx_wf :: "nat \<Rightarrow> swmbx_ctrl \<Rightarrow> bool" where
  "swmbx_wf qcap c \<longleftrightarrow> length (node c) = SWMBX_DEV_COUNT \<and> (\<forall>ns \<in> set (node c). length ns = SWMBX_NODE_COUNT)
     \<and> length (fifo c) = SWMBX_FIFO_COUNT \<and> (\<forall>f \<in> set (fifo c). fifo_wf qcap f)
     \<and> length (mbx_fifo_execute c) = SWMBX_DEV_COUNT \<and> length (mbx_fifo_addr c) = SWMBX_DEV_COUNT
     \<and> length (mbx_fifo_idx c) = SWMBX_DEV_COUNT \<and> (\<forall>i \<in> set (mbx_fifo_idx c). unat i < SWMBX_FIFO_COUNT)
     \<and> buffer_size c \<le> length (mem c)"

named_theorems wf_intros "preservation of well-formed controllers"

lemma set_list_updateD: "x \<in> set (xs[i := v]) \<Longrightarrow> x = v \<or> x \<in> set xs"
  by (auto dest!: set_update_subset_insert [THEN subsetD])

lemma wf_upd_node [wf_intros]:
  assumes "swmbx_wf qcap c" "port < SWMBX_DEV_COUNT"
  shows "swmbx_wf qcap (upd_node c port a f)"
  using assms by (auto simp: swmbx_wf_def upd_node_def dest!: set_list_updateD)

lemma wf_set_fifo [wf_intros]:
  "swmbx_wf qcap c \<Longrightarrow> fifo_wf qcap f \<Longrightarrow> swmbx_wf qcap (c\<lparr>fifo := (fifo c)[i := f]\<rparr>)"
  by (auto simp: swmbx_wf_def dest!: set_list_updateD)

lemma wf_fifo_nth: "swmbx_wf qcap c \<Longrightarrow> i < SWMBX_FIFO_COUNT \<Longrightarrow> fifo_wf qcap (fifo c ! i)"
  by (simp add: swmbx_wf_def)

lemma wf_idx: "swmbx_wf qcap c \<Longrightarrow> port < SWMBX_DEV_COUNT \<Longrightarrow> unat (mbx_fifo_idx c ! port) < SWMBX_FIFO_COUNT"
  by (simp add: swmbx_wf_def)

lemma wf_upd_fifo [wf_intros]:
  assumes "swmbx_wf qcap c" "i < SWMBX_FIFO_COUNT" "\<And>f. fifo_wf qcap f \<Longrightarrow> fifo_wf qcap (g f)"
  shows "swmbx_wf qcap (upd_fifo c i g)"
  unfolding upd_fifo_def using assms by (intro wf_set_fifo) (simp_all add: wf_fifo_nth)

lemma wf_set_notify [wf_intros]:
  "swmbx_wf qcap c \<Longrightarrow> port < SWMBX_DEV_COUNT \<Longrightarrow> swmbx_wf qcap (set_notify c port a)"
  by (simp add: set_notify_def wf_upd_node)

lemma wf_mbx_en [simp]: "swmbx_wf qcap (c\<lparr>mbx_en := e\<rparr>) = swmbx_wf qcap c"
  by (simp add: swmbx_wf_def)

lemma wf_write_in_region [wf_intros]: "swmbx_wf qcap c \<Longrightarrow> swmbx_wf qcap (fst (write_in_region c a v))"
  by (simp add: write_in_region_def swmbx_wf_def)

lemma fifo_wf_append: "fifo_wf qcap f \<Longrightarrow> fifo_wf qcap (fst (append_write qcap f v))"
  by (auto simp: append_write_def push_cap_def fifo_wf_def)

lemma fifo_wf_dequeue: "fifo_wf qcap f \<Longrightarrow> fifo_wf qcap (fst (fifo_dequeue f))"
  by (auto simp: fifo_dequeue_def fifo_wf_def split: list.split)

lemma drain_queue_Nil [simp]: "drain_queue q = []"
  by (induction q) auto

lemma wf_protect_bits: "swmbx_wf qcap c \<Longrightarrow> port < SWMBX_DEV_COUNT \<Longrightarrow> swmbx_wf qcap (protect_bits c port base val b)"
proof (induction c port base val b rule: protect_bits.induct)
  case (1 c port base val b)
  then show ?case by (subst protect_bits.simps) (auto simp: Let_def intro: wf_intros)
qed

lemma wf_protect_words: "swmbx_wf qcap c \<Longrightarrow> port < SWMBX_DEV_COUNT \<Longrightarrow> swmbx_wf qcap (protect_words c port idx vals)"
  by (induction c port idx vals rule: protect_words.induct) (auto intro: wf_protect_bits)

lemma check_fifo_bound: "swmbx_wf qcap c \<Longrightarrow> check_fifo c addr = Some i \<Longrightarrow> i < SWMBX_FIFO_COUNT"
  by (auto simp: check_fifo_def swmbx_wf_def dest: position_SomeD)

lemma wf_send_msg:
  assumes "swmbx_wf qcap c"
  shows "swmbx_wf qcap (fst (send_msg qcap c port addr v))"
proof (cases "port < SWMBX_DEV_COUNT")
  case port: True
  let ?i = "unat (mbx_fifo_idx c ! port)"
  obtain f res where a: "append_write qcap (fifo c ! ?i) v = (f, res)" by force
  have i: "?i < SWMBX_FIFO_COUNT" using assms port by (rule wf_idx)
  have "fifo_wf qcap f" using fifo_wf_append [OF wf_fifo_nth [OF assms i], of v] a by simp
  then have c1: "swmbx_wf qcap (c\<lparr>fifo := (fifo c)[?i := f]\<rparr>)" using assms by (rule wf_set_fifo [rotated])
  then have "swmbx_wf qcap (fst (send_msg_fifo qcap c port addr v))"
    using a port i
    by (auto simp: send_msg_fifo_def Let_def fifo_wf_def intro!: wf_intros split: sum.split)
  with port assms show ?thesis
    by (auto simp: send_msg_def Let_def intro: wf_intros)
qed (use assms in \<open>simp add: send_msg_def\<close>)

lemma wf_bus:
  assumes "swmbx_wf qcap c"
  shows "swmbx_wf qcap (fst (get_msg c port addr))" "swmbx_wf qcap (fst (send_start c port addr))"
    "swmbx_wf qcap (fst (send_stop c port))"
proof -
  show "swmbx_wf qcap (fst (get_msg c port addr))"
    using assms wf_idx [OF assms, of port] fifo_wf_dequeue [of qcap] wf_fifo_nth [OF assms]
    by (auto simp: get_msg_def case_prod_beta Let_def intro!: wf_intros)
  have "unat (of_nat i :: u8) < SWMBX_FIFO_COUNT" if "check_fifo c addr = Some i" for i
    using check_fifo_bound [OF assms that] by (simp add: SWMBX_FIFO_COUNT_def)
  then show "swmbx_wf qcap (fst (send_start c port addr))"
    using assms by (auto simp: send_start_def swmbx_wf_def dest!: set_list_updateD split: option.split)
  have reset: "swmbx_wf qcap (c'\<lparr>mbx_fifo_execute := (mbx_fifo_execute c')[port := False],
      mbx_fifo_addr := (mbx_fifo_addr c')[port := 0], mbx_fifo_idx := (mbx_fifo_idx c')[port := 0]\<rparr>)"
    if "swmbx_wf qcap c'" for c'
    using that by (auto simp: swmbx_wf_def SWMBX_FIFO_COUNT_def dest!: set_list_updateD)
  show "swmbx_wf qcap (fst (send_stop c port))"
    using assms wf_idx [OF assms, of port]
    by (auto simp: send_stop_def Let_def fifo_wf_def intro!: reset wf_intros)
qed

lemma wf_step: "swmbx_wf qcap c \<Longrightarrow> swmbx_wf qcap (fst (swmbx_step qcap c x))"
proof (cases x)
  case (UpdateFifo i a d n e)
  assume "swmbx_wf qcap c"
  with UpdateFifo show ?thesis
    by (auto simp: acked_def update_fifo_def fifo_wf_def intro!: wf_intros)
next
  case (SwWrite b a v)
  assume "swmbx_wf qcap c"
  with SwWrite show ?thesis
    by (auto simp: acked_def swmbx_write_def case_prod_beta Let_def fifo_wf_append wf_fifo_nth check_fifo_bound
        intro!: wf_intros split: option.split)
next
  case (SwRead b a)
  assume "swmbx_wf qcap c"
  with SwRead show ?thesis
    by (auto simp: answered_def swmbx_read_def case_prod_beta Let_def fifo_wf_dequeue wf_fifo_nth check_fifo_bound
        intro!: wf_intros split: option.split)
qed (auto simp: acked_def answered_def update_notify_def flush_fifo_def enable_behavior_def update_protect_def
    apply_protect_def fifo_flush_def fifo_wf_def wf_send_msg wf_bus intro!: wf_intros wf_protect_words)

interpretation mbx: invariant_machine "swmbx_step qcap" "swmbx_wf qcap" for qcap
  by unfold_locales (rule wf_step)


section \<open>Protection\<close>

definition write_protected :: "swmbx_ctrl \<Rightarrow> nat \<Rightarrow> nat \<Rightarrow> bool" where
  "write_protected c port a \<longleftrightarrow>
     mbx_en c AND SWMBX_PROTECT \<noteq> 0 \<and> enabled_flags (node c ! port ! a) AND SWMBX_PROTECT \<noteq> 0"

definition flag_table :: "swmbx_ctrl \<Rightarrow> u8 list list" where
  "flag_table c = map (map enabled_flags) (node c)"

fun bus_op :: "swmbx_op \<Rightarrow> bool" where
  "bus_op (GetMsg _ _) = True"
| "bus_op (SendMsg _ _ _) = True"
| "bus_op (SendStart _ _) = True"
| "bus_op (SendStop _) = True"
| "bus_op _ = False"

text \<open>\<open>quiet_bus c c'\<close>: switches, flags and memory are those of \<open>c\<close>.\<close>

definition quiet_bus :: "swmbx_ctrl \<Rightarrow> swmbx_ctrl \<Rightarrow> bool" where
  "quiet_bus c c' \<longleftrightarrow> mbx_en c' = mbx_en c \<and> flag_table c' = flag_table c \<and> mem c' = mem c"

lemma quiet_bus_refl [simp]: "quiet_bus c c"
  by (simp add: quiet_bus_def)

lemma quiet_bus_trans: "quiet_bus c d \<Longrightarrow> quiet_bus d e \<Longrightarrow> quiet_bus c e"
  by (simp add: quiet_bus_def)

lemma map_list_update_same: "h y = h (xs ! i) \<Longrightarrow> map h (xs[i := y]) = map h xs"
  by (cases "i < length xs") (auto simp: nth_list_update list_update_beyond intro: nth_equalityI)

lemma flags_set_notify: "flag_table (set_notify c port a) = flag_table c"
proof -
  have row: "map enabled_flags (ns[a := (ns ! a)\<lparr>nd_notify_flag := True\<rparr>]) = map enabled_flags ns" for ns
    by (rule map_list_update_same) simp
  let ?ns = "(node c ! port)[a := (node c ! port ! a)\<lparr>nd_notify_flag := True\<rparr>]"
  have "flag_table (set_notify c port a) = (flag_table c)[port := map enabled_flags ?ns]"
    by (simp add: flag_table_def set_notify_def upd_node_def map_update [of "map enabled_flags" "node c" port ?ns])
  also have "\<dots> = flag_table c"
    unfolding row by (cases "port < length (node c)") (simp_all add: flag_table_def list_update_same_conv list_update_beyond)
  finally show ?thesis .
qed

lemma quiet_intros:
  "quiet_bus c d \<Longrightarrow> quiet_bus c (set_notify d port a)"
  "quiet_bus c d \<Longrightarrow> quiet_bus c (d\<lparr>fifo := fs\<rparr>)"
  "quiet_bus c d \<Longrightarrow> quiet_bus c (upd_fifo d i f)"
  "quiet_bus c d \<Longrightarrow> quiet_bus c (d\<lparr>mbx_fifo_execute := e, mbx_fifo_addr := ad, mbx_fifo_idx := ix\<rparr>)"
  "quiet_bus c d \<Longrightarrow> quiet_bus c (d\<lparr>mbx_fifo_execute := e\<rparr>)"
proof -
  assume q: "quiet_bus c d"
  have "mbx_en (set_notify d port a) = mbx_en d" "mem (set_notify d port a) = mem d"
    by (simp_all add: set_notify_def upd_node_def)
  with q show "quiet_bus c (set_notify d port a)" by (simp add: quiet_bus_def flags_set_notify)
qed (simp_all add: quiet_bus_def flag_table_def upd_fifo_def)

lemma quiet_send_msg_fifo: "quiet_bus c (fst (send_msg_fifo qcap c port addr v))"
  by (auto simp: send_msg_fifo_def Let_def split: prod.split sum.split intro!: quiet_intros)

lemma quiet_others:
  "quiet_bus c (fst (get_msg c port addr))" "quiet_bus c (fst (send_start c port addr))" "quiet_bus c (fst (send_stop c port))"
  by (auto simp: get_msg_def send_start_def send_stop_def case_prod_beta Let_def split: option.split
      intro!: quiet_intros)

text \<open>A bus write changes the flat memory at most at its own address, and not there when it is protected.\<close>

lemma send_msg_effect:
  fixes c :: swmbx_ctrl and port a :: nat and addr v :: u8
  assumes "swmbx_wf qcap c"
  defines "c' \<equiv> fst (send_msg qcap c port addr v)"
  shows "mbx_en c' = mbx_en c" "flag_table c' = flag_table c"
    "(\<forall>p < SWMBX_DEV_COUNT. write_protected c p a) \<Longrightarrow> mem c' ! a = mem c ! a"
proof -
  let ?c1 = "if mbx_en c AND SWMBX_NOTIFY \<noteq> 0 \<and> enabled_flags (node c ! port ! unat addr) AND SWMBX_NOTIFY \<noteq> 0
      then set_notify c port (unat addr) else c"
  have q1: "quiet_bus c ?c1" by (simp add: quiet_intros)
  have w: "mbx_en (fst (write_in_region d x y)) = mbx_en d" "flag_table (fst (write_in_region d x y)) = flag_table d"
      "a \<noteq> unat x \<Longrightarrow> mem (fst (write_in_region d x y)) ! a = mem d ! a" for d x y
    by (simp_all add: write_in_region_def flag_table_def)
  have eq: "c' = fst (write_in_region ?c1 addr v)" if "port < SWMBX_DEV_COUNT" "\<not> fifo_active c port" "\<not> write_protected c port (unat addr)"
    using that by (auto simp: c'_def send_msg_def write_protected_def Let_def)
  have eq1: "c' = ?c1" if "port < SWMBX_DEV_COUNT" "\<not> fifo_active c port" "write_protected c port (unat addr)"
    using that by (simp add: c'_def send_msg_def write_protected_def Let_def)
  consider (bad) "SWMBX_DEV_COUNT \<le> port" | (fifo) "port < SWMBX_DEV_COUNT" "fifo_active c port"
    | (kept) "port < SWMBX_DEV_COUNT" "write_protected c port (unat addr)" "c' = ?c1"
    | (flat) "port < SWMBX_DEV_COUNT" "\<not> write_protected c port (unat addr)" "c' = fst (write_in_region ?c1 addr v)"
    using eq eq1 not_le_imp_less by blast
  then have "mbx_en c' = mbx_en c \<and> flag_table c' = flag_table c
      \<and> ((\<forall>p < SWMBX_DEV_COUNT. write_protected c p a) \<longrightarrow> mem c' ! a = mem c ! a)"
  proof cases
    case bad
    then show ?thesis by (simp add: c'_def send_msg_def)
  next
    case fifo
    then show ?thesis using quiet_send_msg_fifo [of c qcap port addr v] by (simp add: c'_def send_msg_def quiet_bus_def)
  next
    case kept
    show ?thesis unfolding kept(3) using q1 unfolding quiet_bus_def by metis
  next
    case flat
    then have "(\<forall>p < SWMBX_DEV_COUNT. write_protected c p a) \<Longrightarrow> a \<noteq> unat addr" by auto
    then show ?thesis using q1 w [where d = ?c1 and x = addr and y = v] unfolding flat(3) quiet_bus_def by metis
  qed
  then show "mbx_en c' = mbx_en c" "flag_table c' = flag_table c"
    "(\<forall>p < SWMBX_DEV_COUNT. write_protected c p a) \<Longrightarrow> mem c' ! a = mem c ! a" by auto
qed

lemma bus_step_protected:
  assumes "swmbx_wf qcap c" "bus_op x" "a < SWMBX_NODE_COUNT" "\<forall>p < SWMBX_DEV_COUNT. write_protected c p a"
  defines "c' \<equiv> fst (swmbx_step qcap c x)"
  shows "mem c' ! a = mem c ! a" "\<forall>p < SWMBX_DEV_COUNT. write_protected c' p a"
proof -
  have keep: "mbx_en c' = mbx_en c \<and> flag_table c' = flag_table c \<and> mem c' ! a = mem c ! a"
    using assms(2) quiet_others [of c] send_msg_effect [OF assms(1)] assms(4)
    by (cases x) (auto simp: c'_def acked_def answered_def quiet_bus_def)
  then show "mem c' ! a = mem c ! a" by simp
  have flag: "enabled_flags (node d ! p ! a) = flag_table d ! p ! a" if "swmbx_wf qcap d" "p < SWMBX_DEV_COUNT" for d p
    using that assms(3) by (simp add: swmbx_wf_def flag_table_def)
  have "swmbx_wf qcap c'" unfolding c'_def using assms(1) by (rule wf_step)
  then show "\<forall>p < SWMBX_DEV_COUNT. write_protected c' p a"
    using keep assms(1,4) by (simp add: write_protected_def flag)
qed

lemma bus_run_protected:
  assumes "swmbx_wf qcap c" "list_all bus_op xs" "a < SWMBX_NODE_COUNT" "\<forall>p < SWMBX_DEV_COUNT. write_protected c p a"
  shows "mem (fst (run (swmbx_step qcap) c xs)) ! a = mem c ! a"
  using assms(1,2,4)
proof (induction xs arbitrary: c)
  case (Cons x xs)
  have x: "bus_op x" "list_all bus_op xs" using Cons.prems(2) by simp_all
  note step = bus_step_protected [OF Cons.prems(1) x(1) assms(3) Cons.prems(3)]
  show ?case
    using Cons.IH [OF wf_step [OF Cons.prems(1)] x(2) step(2)] step(1) by (simp only: fst_run_Cons)
qed simp

section \<open>FIFO behaviour\<close>

text \<open>The interface of a bounded queue: an append fails exactly at the capacity, a removal when empty.\<close>

locale bounded_fifo =
  fixes enq :: "'q \<Rightarrow> 'a \<Rightarrow> 'q option" and deq :: "'q \<Rightarrow> ('a \<times> 'q) option" and items :: "'q \<Rightarrow> 'a list"
    and inv :: "'q \<Rightarrow> bool" and cap :: "'q \<Rightarrow> nat"
  assumes enq_None: "inv q \<Longrightarrow> enq q x = None \<longleftrightarrow> length (items q) \<ge> cap q"
    and enq_Some: "inv q \<Longrightarrow> enq q x = Some q' \<Longrightarrow> inv q' \<and> items q' = items q @ [x] \<and> cap q' = cap q"
    and deq_None: "inv q \<Longrightarrow> deq q = None \<longleftrightarrow> items q = []"
    and deq_Some: "inv q \<Longrightarrow> deq q = Some (x, q') \<Longrightarrow> inv q' \<and> items q = x # items q' \<and> cap q' = cap q"
begin

fun fill :: "'q \<Rightarrow> 'a list \<Rightarrow> 'q option" where
  "fill q [] = Some q"
| "fill q (x # xs) = (case enq q x of None \<Rightarrow> None | Some q' \<Rightarrow> fill q' xs)"

lemma fill_ok:
  "inv q \<Longrightarrow> length (items q) + length xs \<le> cap q \<Longrightarrow>
   \<exists>q'. fill q xs = Some q' \<and> inv q' \<and> items q' = items q @ xs \<and> cap q' = cap q"
proof (induction xs arbitrary: q)
  case (Cons x xs)
  then obtain q1 where q1: "enq q x = Some q1" using enq_None [of q x] by (cases "enq q x") auto
  from enq_Some [OF Cons.prems(1) q1] Cons.IH [of q1] Cons.prems(2) show ?case by (simp add: q1)
qed simp

end

definition fifo_enq :: "nat \<Rightarrow> swmbx_fifo \<Rightarrow> u8 \<Rightarrow> swmbx_fifo option" where
  "fifo_enq qcap f v = (case append_write qcap f v of (f', Inr _) \<Rightarrow> Some f' | (_, Inl _) \<Rightarrow> None)"

definition fifo_deq :: "swmbx_fifo \<Rightarrow> (u8 \<times> swmbx_fifo) option" where
  "fifo_deq f = (case fifo_dequeue f of (f', Inr v) \<Rightarrow> Some (v, f') | (_, Inl _) \<Rightarrow> None)"

interpretation mf: bounded_fifo "fifo_enq qcap" fifo_deq queue "fifo_wf qcap" "\<lambda>f. min (max_msg_count f) qcap" for qcap
proof
  fix f f' :: swmbx_fifo and v :: u8
  assume wf: "fifo_wf qcap f"
  show "fifo_enq qcap f v = None \<longleftrightarrow> min (max_msg_count f) qcap \<le> length (queue f)"
    using wf by (auto simp: fifo_enq_def append_write_def push_cap_def fifo_wf_def)
  show "fifo_deq f = None \<longleftrightarrow> queue f = []"
    by (auto simp: fifo_deq_def fifo_dequeue_def split: list.split)
  show "fifo_enq qcap f v = Some f' \<Longrightarrow> fifo_wf qcap f' \<and> queue f' = queue f @ [v]
      \<and> min (max_msg_count f') qcap = min (max_msg_count f) qcap"
    using wf fifo_wf_append [OF wf, of v]
    by (auto simp: fifo_enq_def append_write_def push_cap_def split: if_splits)
  show "fifo_deq f = Some (v, f') \<Longrightarrow> fifo_wf qcap f' \<and> queue f = v # queue f'
      \<and> min (max_msg_count f') qcap = min (max_msg_count f) qcap"
    using fifo_wf_dequeue [OF wf] by (auto simp: fifo_deq_def fifo_dequeue_def split: list.splits)
qed


text \<open>The mapping of the FIFOs and their contents, the two aspects a transaction touches or keeps.\<close>

definition fifo_cfg :: "swmbx_ctrl \<Rightarrow> (u8 \<times> bool \<times> nat) list" where
  "fifo_cfg c = map (\<lambda>f. (fifo_offset f, ff_enabled f, max_msg_count f)) (fifo c)"

definition queues :: "swmbx_ctrl \<Rightarrow> u8 list list" where
  "queues c = map queue (fifo c)"

lemma position_map: "position p (map g xs) = position (\<lambda>x. p (g x)) xs"
  by (induction xs) auto

lemma check_fifo_cfg: "check_fifo c addr = position (\<lambda>t. fst t = addr \<and> fst (snd t)) (fifo_cfg c)"
  by (simp add: check_fifo_def fifo_cfg_def position_map)

lemma fifo_nth:
  "i < length (fifo c) \<Longrightarrow> queue (fifo c ! i) = queues c ! i"
  "i < length (fifo c) \<Longrightarrow> max_msg_count (fifo c ! i) = snd (snd (fifo_cfg c ! i))"
  by (simp_all add: queues_def fifo_cfg_def)

text \<open>\<open>flow c c' qs\<close>: the transaction state and FIFO mapping of \<open>c\<close>, with the queues \<open>qs\<close>.\<close>

definition flow :: "swmbx_ctrl \<Rightarrow> swmbx_ctrl \<Rightarrow> u8 list list \<Rightarrow> bool" where
  "flow c c' qs \<longleftrightarrow> mbx_en c' = mbx_en c \<and> mbx_fifo_execute c' = mbx_fifo_execute c \<and> mbx_fifo_idx c' = mbx_fifo_idx c
     \<and> fifo_cfg c' = fifo_cfg c \<and> queues c' = qs"

lemma flow_set_notify: "flow c d qs \<Longrightarrow> flow c (set_notify d port a) qs"
  by (simp add: flow_def set_notify_def upd_node_def fifo_cfg_def queues_def)

lemma flow_upd_fifo:
  assumes "flow c d qs" "\<And>f. queue (g f) = queue f" "\<And>f. fifo_offset (g f) = fifo_offset f"
    "\<And>f. ff_enabled (g f) = ff_enabled f" "\<And>f. max_msg_count (g f) = max_msg_count f"
  shows "flow c (upd_fifo d i g) qs"
  using assms by (simp add: flow_def upd_fifo_def fifo_cfg_def queues_def map_list_update_same)

lemma send_fifo_ok:
  assumes "swmbx_wf qcap c" "port < SWMBX_DEV_COUNT" "fifo_active c port" "i = unat (mbx_fifo_idx c ! port)"
    "length (queues c ! i) < snd (snd (fifo_cfg c ! i))" "length (queues c ! i) < qcap"
  shows "\<exists>c'. send_msg qcap c port a v = (c', Inr ()) \<and> flow c c' ((queues c)[i := queues c ! i @ [v]])"
proof -
  have i: "i < length (fifo c)" using wf_idx [OF assms(1,2)] assms(1,4) by (simp add: swmbx_wf_def)
  define f where "f = (fifo c ! i)\<lparr>queue := queue (fifo c ! i) @ [v],
     msg_index := (if msg_index (fifo c ! i) = max_msg_count (fifo c ! i) - 1 then 0
                   else (msg_index (fifo c ! i) + 1) mod max_msg_count (fifo c ! i))\<rparr>"
  have app: "append_write qcap (fifo c ! i) v = (f, Inr ())"
    using assms(5,6) fifo_nth [OF i] by (simp add: append_write_def push_cap_def f_def)
  let ?c1 = "c\<lparr>fifo := (fifo c)[i := f]\<rparr>"
  have "flow c ?c1 ((queues c)[i := queues c ! i @ [v]])"
    using i by (simp add: flow_def fifo_cfg_def queues_def f_def map_list_update_same map_update [of queue])
  then show ?thesis
    using assms(2,3) app
    by (auto simp: send_msg_def send_msg_fifo_def Let_def assms(4) [symmetric] intro!: flow_upd_fifo flow_set_notify)
qed

lemma send_many:
  assumes "swmbx_wf qcap c" "port < SWMBX_DEV_COUNT" "fifo_active c port" "i = unat (mbx_fifo_idx c ! port)"
    "length (queues c ! i) + length bs \<le> snd (snd (fifo_cfg c ! i))" "length (queues c ! i) + length bs \<le> qcap"
  shows "\<exists>c'. run (swmbx_step qcap) c (map (SendMsg port a) bs) = (c', replicate (length bs) (Ack (Inr ())))
    \<and> flow c c' ((queues c)[i := queues c ! i @ bs]) \<and> swmbx_wf qcap c'"
  using assms
proof (induction bs arbitrary: c)
  case Nil
  then show ?case by (simp add: flow_def)
next
  case (Cons b bs)
  obtain c1 where c1: "send_msg qcap c port a b = (c1, Inr ())" "flow c c1 ((queues c)[i := queues c ! i @ [b]])"
    using send_fifo_ok [OF Cons.prems(1-4), of a b] Cons.prems(5,6) by auto
  have wf1: "swmbx_wf qcap c1" using wf_send_msg [OF Cons.prems(1), of port a b] c1(1) by simp
  have i: "i < length (queues c)" using wf_idx [OF Cons.prems(1,2)] Cons.prems(1,4) by (simp add: swmbx_wf_def queues_def)
  have "fifo_active c1 port" "i = unat (mbx_fifo_idx c1 ! port)" using Cons.prems(3,4) c1(2) by (simp_all add: flow_def fifo_active_def)
  from Cons.IH [OF wf1 Cons.prems(2) this] Cons.prems(5,6) c1(2) i obtain c' where
    "run (swmbx_step qcap) c1 (map (SendMsg port a) bs) = (c', replicate (length bs) (Ack (Inr ())))"
    "flow c1 c' ((queues c1)[i := queues c1 ! i @ bs])" "swmbx_wf qcap c'"
    by (auto simp: flow_def)
  with c1 i show ?case by (auto simp: acked_def flow_def)
qed

lemma stop_keeps_queues:
  "port < SWMBX_DEV_COUNT \<Longrightarrow> \<exists>c'. send_stop c port = (c', Inr ()) \<and> fifo_cfg c' = fifo_cfg c \<and> queues c' = queues c"
  by (auto simp: send_stop_def Let_def upd_fifo_def set_notify_def upd_node_def fifo_cfg_def queues_def map_list_update_same)

lemma read_many:
  assumes "swmbx_wf qcap c" "check_fifo c addr = Some i" "queues c ! i = bs"
  shows "snd (run (swmbx_step qcap) c (replicate (length bs) (SwRead True addr) @ [SwRead True addr])) =
    map (\<lambda>b. Byte (Inr b)) bs @ [Byte (Inl FifoEmpty)]"
  using assms
proof (induction bs arbitrary: c)
  case Nil
  have "i < length (fifo c)" using check_fifo_bound [OF Nil(1,2)] Nil(1) by (simp add: swmbx_wf_def)
  then have "queue (fifo c ! i) = []" using Nil(3) by (simp add: fifo_nth)
  with Nil show ?case by (simp add: answered_def swmbx_read_def fifo_dequeue_def)
next
  case (Cons b bs)
  have i: "i < length (fifo c)" using check_fifo_bound [OF Cons.prems(1,2)] Cons.prems(1) by (simp add: swmbx_wf_def)
  let ?c1 = "c\<lparr>fifo := (fifo c)[i := (fifo c ! i)\<lparr>queue := bs\<rparr>]\<rparr>"
  have q: "queue (fifo c ! i) = b # bs" using Cons.prems(3) i by (simp add: fifo_nth)
  have step: "swmbx_step qcap c (SwRead True addr) = (?c1, [Byte (Inr b)])"
    using Cons.prems(2) q by (simp add: answered_def swmbx_read_def fifo_dequeue_def)
  have "swmbx_wf qcap ?c1" using wf_step [OF Cons.prems(1), of "SwRead True addr"] step by simp
  moreover have "check_fifo ?c1 addr = Some i" "queues ?c1 ! i = bs"
    using Cons.prems(2) i by (simp_all add: check_fifo_cfg fifo_cfg_def queues_def map_list_update_same)
  ultimately show ?case
    using Cons.IH [of ?c1] step by (simp add: case_prod_beta Let_def)
qed

section \<open>The protection bitmap\<close>

text \<open>Only the PROTECT bit of the addressed nodes of one port changes.\<close>

definition protect_bit :: "swmbx_ctrl \<Rightarrow> nat \<Rightarrow> nat \<Rightarrow> bool" where
  "protect_bit c p a \<longleftrightarrow> enabled_flags (node c ! p ! a) AND SWMBX_PROTECT \<noteq> 0"

definition other_bits :: "swmbx_ctrl \<Rightarrow> nat \<Rightarrow> nat \<Rightarrow> bool \<times> u8" where
  "other_bits c p a = (nd_notify_flag (node c ! p ! a), enabled_flags (node c ! p ! a) AND NOT SWMBX_PROTECT)"

lemma set_flag_protect:
  "enabled_flags (set_flag SWMBX_PROTECT b n) AND SWMBX_PROTECT \<noteq> 0 \<longleftrightarrow> b"
  "enabled_flags (set_flag SWMBX_PROTECT b n) AND NOT SWMBX_PROTECT = enabled_flags n AND NOT SWMBX_PROTECT"
  "nd_notify_flag (set_flag SWMBX_PROTECT b n) = nd_notify_flag n"
proof -
  have P: "SWMBX_PROTECT \<noteq> 0" by (simp add: SWMBX_PROTECT_def)
  have "(x OR SWMBX_PROTECT) AND SWMBX_PROTECT = SWMBX_PROTECT" "(x AND NOT SWMBX_PROTECT) AND SWMBX_PROTECT = 0"
    "(x OR SWMBX_PROTECT) AND NOT SWMBX_PROTECT = x AND NOT SWMBX_PROTECT"
    "(x AND NOT SWMBX_PROTECT) AND NOT SWMBX_PROTECT = x AND NOT SWMBX_PROTECT" for x
    by (rule bit_word_eqI; auto simp: bit_simps)+
  with P show "enabled_flags (set_flag SWMBX_PROTECT b n) AND SWMBX_PROTECT \<noteq> 0 \<longleftrightarrow> b"
    "enabled_flags (set_flag SWMBX_PROTECT b n) AND NOT SWMBX_PROTECT = enabled_flags n AND NOT SWMBX_PROTECT"
    "nd_notify_flag (set_flag SWMBX_PROTECT b n) = nd_notify_flag n"
    by (simp_all add: set_flag_def)
qed

lemma upd_protect_node:
  fixes c :: swmbx_ctrl and port x a p :: nat and b :: bool
  assumes "swmbx_wf qcap c" "port < SWMBX_DEV_COUNT" "x < SWMBX_NODE_COUNT"
  defines "c' \<equiv> upd_node c port x (set_flag SWMBX_PROTECT b)"
  shows "protect_bit c' p a = (if p = port \<and> a = x then b else protect_bit c p a)" "other_bits c' p a = other_bits c p a"
  using assms set_flag_protect
  by (auto simp: protect_bit_def other_bits_def upd_node_def swmbx_wf_def nth_list_update)

lemma protect_bits_exact:
  assumes "swmbx_wf qcap c" "port < SWMBX_DEV_COUNT" "base + 32 \<le> 256" "b \<le> 32"
  shows "protect_bit (protect_bits c port base val b) p a =
      (if p = port \<and> base + b \<le> a \<and> a < base + 32 then bit val (a - base) else protect_bit c p a)
    \<and> other_bits (protect_bits c port base val b) p a = other_bits c p a"
  using assms
proof (induction c port base val b rule: protect_bits.induct)
  case (1 c port base val b)
  show ?case
  proof (cases "b < 32")
    case True
    let ?c1 = "upd_node c port (base + b) (set_flag SWMBX_PROTECT (bit val b))"
    have x: "base + b < SWMBX_NODE_COUNT" using True 1(4) by (simp add: SWMBX_NODE_COUNT_def)
    have odd: "(drop_bit b val AND 1 \<noteq> 0) = bit val b" by (simp add: and_one_eq bit_iff_odd_drop_bit odd_iff_mod_2_eq_one)
    note upd = upd_protect_node [OF 1(2,3) x, of "bit val b" p a]
    have wf1: "swmbx_wf qcap ?c1" using 1(2,3) by (rule wf_upd_node)
    have "protect_bits c port base val b = protect_bits ?c1 port base val (Suc b)"
      using True x by (subst protect_bits.simps) (simp add: PROTECT_BITS_PER_WORD_def odd Let_def)
    moreover have "protect_bit (protect_bits ?c1 port base val (Suc b)) p a =
        (if p = port \<and> base + Suc b \<le> a \<and> a < base + 32 then bit val (a - base) else protect_bit ?c1 p a)
      \<and> other_bits (protect_bits ?c1 port base val (Suc b)) p a = other_bits ?c1 p a"
      using 1(1) [OF _ refl] True x wf1 1(3,4) by (simp add: PROTECT_BITS_PER_WORD_def odd)
    ultimately show ?thesis using upd True by (auto simp: not_less_eq_eq)
  qed (use 1 in \<open>auto simp: protect_bits.simps PROTECT_BITS_PER_WORD_def\<close>)
qed

lemma protect_words_exact:
  assumes "swmbx_wf qcap c" "port < SWMBX_DEV_COUNT" "idx + length vals \<le> 8"
  shows "protect_bit (protect_words c port idx vals) p a =
      (if p = port \<and> idx \<le> a div 32 \<and> a div 32 < idx + length vals then bit (vals ! (a div 32 - idx)) (a mod 32)
       else protect_bit c p a)
    \<and> other_bits (protect_words c port idx vals) p a = other_bits c p a"
  using assms
proof (induction c port idx vals rule: protect_words.induct)
  case (2 c port idx val vals)
  let ?c1 = "protect_bits c port (idx * 32) val 0"
  have wf1: "swmbx_wf qcap ?c1" using 2(2,3) by (rule wf_protect_bits)
  have b: "protect_bit ?c1 p a = (if p = port \<and> idx * 32 + 0 \<le> a \<and> a < idx * 32 + 32 then bit val (a - idx * 32) else protect_bit c p a)
      \<and> other_bits ?c1 p a = other_bits c p a"
    using 2(4) by (intro protect_bits_exact [OF 2(2,3)]) simp_all
  have row: "idx * 32 + 0 \<le> a \<and> a < idx * 32 + 32 \<longleftrightarrow> a div 32 = idx" by (auto simp: div_nat_eqI)
  note IH = 2(1) [unfolded PROTECT_BITS_PER_WORD_def, OF wf1 2(3)]
  show ?case
  proof (cases "a div 32 = idx")
    case True
    then have "a - idx * 32 = a mod 32" using minus_div_mult_eq_mod [of a 32] by simp
    with True IH 2(4) b row show ?thesis by (simp add: PROTECT_BITS_PER_WORD_def)
  next
    case False
    moreover have "idx < a div 32 \<Longrightarrow> (val # vals) ! (a div 32 - idx) = vals ! (a div 32 - Suc idx)"
      by (simp add: nth_Cons')
    ultimately show ?thesis using IH 2(4) b row by (auto simp: PROTECT_BITS_PER_WORD_def)
  qed
qed auto

section \<open>Properties\<close>

text \<open>
  C28: Every mailbox state reachable from construction is well formed, whatever operations the bus and
  the firmware interleave: all arrays keep their size, every port's FIFO index names a FIFO, every
  FIFO holds at most its configured depth and never more than the queue can store, and its
  message index stays below the depth. So no index of the controller is out of range, and
  \<open>InvalidFifoDepth\<close> is never the answer to a write.
\<close>

theorem mailbox_well_formed:
  assumes "new_with_regions bytes base region = Some c0" "bytes \<le> length region" "reaches (swmbx_step qcap) c0 c"
  shows "swmbx_wf qcap c \<and> snd (send_msg qcap c port addr v) \<noteq> Inl InvalidFifoDepth
    \<and> snd (swmbx_write qcap c to_fifo addr v) \<noteq> Inl InvalidFifoDepth"
proof -
  have "swmbx_wf qcap c0"
    using assms(1,2)
    by (auto simp: new_with_regions_def swmbx_wf_def fifo_wf_def fifo_new_def SWMBX_DEV_COUNT_def
        SWMBX_FIFO_COUNT_def SWMBX_FIFO_DEPTH_def split: if_splits)
  with assms(3) have wf: "swmbx_wf qcap c" by (rule mbx.reaches_inv)
  have app: "snd (append_write qcap (fifo c ! i) v) \<noteq> Inl InvalidFifoDepth" if "i < SWMBX_FIFO_COUNT" for i
    using wf_fifo_nth [OF wf that] by (auto simp: append_write_def fifo_wf_def split: option.split)
  have "snd (send_msg_fifo qcap c port addr v) \<noteq> Inl InvalidFifoDepth" if "port < SWMBX_DEV_COUNT"
    using app [OF wf_idx [OF wf that]] by (auto simp: send_msg_fifo_def Let_def split: prod.split sum.split)
  then show ?thesis
    using wf app check_fifo_bound [OF wf]
    by (auto simp: send_msg_def swmbx_write_def write_in_region_def case_prod_beta Let_def split: option.split)
qed

definition demo_ctrl :: swmbx_ctrl where
  "demo_ctrl = the (new_with_regions 256 0x1000 (replicate 256 0))"

lemma demo_ctrl_eq: "new_with_regions 256 0x1000 (replicate 256 0) = Some demo_ctrl"
  by (simp add: demo_ctrl_def new_with_regions_def)

theorem mailbox_well_formed_witness: "swmbx_wf 255 (fst (swmbx_step 255 demo_ctrl (SendStart 0 7)))"
  using mailbox_well_formed [OF demo_ctrl_eq _ reaches_step [OF reaches_refl, of "swmbx_step 255" demo_ctrl "SendStart 0 7"]]
  by simp

text \<open>
  C27: Protected bytes are immutable from the bus. While protection is enabled globally and an address
  is protected on both ports, no sequence of bus operations (starts, writes, reads and stops, on
  either port, at any address, in or out of FIFO transactions) changes the byte at that address.
\<close>

theorem protected_bytes_immutable:
  assumes "swmbx_wf qcap c" "list_all bus_op ops" "a < 256" "write_protected c 0 a" "write_protected c 1 a"
  shows "mem (fst (run (swmbx_step qcap) c ops)) ! a = mem c ! a"
proof -
  have "\<forall>p < SWMBX_DEV_COUNT. write_protected c p a"
    using assms(4,5) by (auto simp: SWMBX_DEV_COUNT_def less_2_cases_iff)
  with assms(1-3) show ?thesis by (intro bus_run_protected) (simp_all add: SWMBX_NODE_COUNT_def)
qed

definition locked_ctrl :: swmbx_ctrl where
  "locked_ctrl = fst (run (swmbx_step 255) demo_ctrl [EnableBehavior 1 True, UpdateProtect 0 5 True, UpdateProtect 1 5 True])"

lemma demo_wf: "swmbx_wf 255 demo_ctrl"
  by (simp add: demo_ctrl_def new_with_regions_def swmbx_wf_def fifo_wf_def fifo_new_def SWMBX_DEV_COUNT_def
      SWMBX_FIFO_COUNT_def SWMBX_FIFO_DEPTH_def)

theorem protected_bytes_immutable_witness:
  "mem (fst (run (swmbx_step 255) locked_ctrl [SendMsg 0 5 9, SendMsg 1 5 9])) ! 5 = 0"
proof -
  have l: "locked_ctrl = (upd_node (upd_node (demo_ctrl\<lparr>mbx_en := 1\<rparr>) 0 5 (set_flag SWMBX_PROTECT True)) 1 5 (set_flag SWMBX_PROTECT True))"
    by (simp add: locked_ctrl_def acked_def enable_behavior_def update_protect_def SWMBX_DEV_COUNT_def SWMBX_NODE_COUNT_def
        FLAG_MASK_def SWMBX_PROTECT_def SWMBX_NOTIFY_def SWMBX_FIFO_def demo_ctrl_def new_with_regions_def)
  have wf: "swmbx_wf 255 locked_ctrl" unfolding locked_ctrl_def by (rule mbx.run_inv [OF demo_wf])
  have "write_protected locked_ctrl 0 5" "write_protected locked_ctrl 1 5" "mem locked_ctrl ! 5 = 0"
    by (simp_all add: l write_protected_def upd_node_def set_flag_def demo_ctrl_def new_with_regions_def SWMBX_DEV_COUNT_def
        SWMBX_NODE_COUNT_def SWMBX_PROTECT_def node_default_def)
  with protected_bytes_immutable [OF wf, of "[SendMsg 0 5 9, SendMsg 1 5 9]" 5] show ?thesis by simp
qed

text \<open>
  A FIFO transaction delivers its bytes. On a mapped, empty FIFO with FIFO behaviour enabled, a bus
  transaction that starts at the mapped address, writes up to the depth (and up to what the queue
  stores) and stops is acknowledged at every step, and the firmware then reads exactly those
  bytes, in order, and after them \<open>FifoEmpty\<close>.
\<close>

theorem mailbox_fifo_roundtrip:
  assumes "swmbx_wf qcap c" "port < 2" "mbx_en c AND SWMBX_FIFO \<noteq> 0" "check_fifo c addr = Some i"
    "queue (fifo c ! i) = []" "length bs \<le> max_msg_count (fifo c ! i)" "length bs \<le> qcap"
  shows "snd (run (swmbx_step qcap) c
       ((SendStart port addr # map (SendMsg port a) bs @ [SendStop port])
        @ replicate (length bs) (SwRead True addr) @ [SwRead True addr])) =
     replicate (length bs + 2) (Ack (Inr ())) @ map (\<lambda>b. Byte (Inr b)) bs @ [Byte (Inl FifoEmpty)]"
proof -
  have port: "port < SWMBX_DEV_COUNT" using assms(2) by (simp add: SWMBX_DEV_COUNT_def)
  have i: "i < length (fifo c)" "i < 256"
    using check_fifo_bound [OF assms(1,4)] assms(1) by (auto simp: swmbx_wf_def SWMBX_FIFO_COUNT_def)
  have q0: "queues c ! i = []" "i < length (queues c)" using assms(5) i(1) by (simp_all add: queues_def)
  let ?c1 = "c\<lparr>mbx_fifo_execute := (mbx_fifo_execute c)[port := True], mbx_fifo_addr := (mbx_fifo_addr c)[port := addr],
      mbx_fifo_idx := (mbx_fifo_idx c)[port := of_nat i]\<rparr>"
  have start: "swmbx_step qcap c (SendStart port addr) = (?c1, [Ack (Inr ())])"
    using port assms(4) by (simp add: acked_def send_start_def)
  have wf1: "swmbx_wf qcap ?c1" using wf_step [OF assms(1), of "SendStart port addr"] start by simp
  have len: "port < length (mbx_fifo_execute c)" "port < length (mbx_fifo_idx c)" using assms(1) port by (auto simp: swmbx_wf_def)
  have same: "queues ?c1 = queues c" "fifo_cfg ?c1 = fifo_cfg c" by (simp_all add: queues_def fifo_cfg_def)
  have "fifo_active ?c1 port" "i = unat (mbx_fifo_idx ?c1 ! port)" using len assms(3) i(2) by (simp_all add: fifo_active_def)
  then obtain c2 where c2: "run (swmbx_step qcap) ?c1 (map (SendMsg port a) bs) = (c2, replicate (length bs) (Ack (Inr ())))"
      "flow ?c1 c2 ((queues c)[i := queues c ! i @ bs])" "swmbx_wf qcap c2"
    using send_many [OF wf1 port, of i bs a] assms(6,7) q0(1) by (auto simp: same fifo_nth(2) [OF i(1)])
  obtain c3 where c3: "send_stop c2 port = (c3, Inr ())" "fifo_cfg c3 = fifo_cfg c2" "queues c3 = queues c2"
    using stop_keeps_queues [of port c2] port by blast
  have wf3: "swmbx_wf qcap c3" using wf_bus(3) [OF c2(3), of port] c3(1) by simp
  have "check_fifo c3 addr = Some i" using assms(4) c2(2) c3(2) by (simp add: check_fifo_cfg flow_def same)
  moreover have "queues c3 ! i = bs" using q0 c2(2) c3(3) by (simp add: flow_def)
  ultimately have reads: "snd (run (swmbx_step qcap) c3 (replicate (length bs) (SwRead True addr) @ [SwRead True addr])) =
      map (\<lambda>b. Byte (Inr b)) bs @ [Byte (Inl FifoEmpty)]"
    by (rule read_many [OF wf3])
  have "run (swmbx_step qcap) c (SendStart port addr # map (SendMsg port a) bs @ [SendStop port]) =
      (c3, replicate (length bs + 2) (Ack (Inr ())))"
    using start c2(1) c3(1) by (simp add: run_append acked_def replicate_append_same)
  with reads show ?thesis by (simp only: run_append Let_def case_prod_beta snd_conv fst_conv)
qed

definition fifo_ctrl :: swmbx_ctrl where
  "fifo_ctrl = fst (run (swmbx_step 255) demo_ctrl [EnableBehavior 4 True, UpdateFifo 0 7 8 0 True])"

theorem mailbox_fifo_roundtrip_witness:
  "snd (run (swmbx_step 255) fifo_ctrl
       ((SendStart 1 7 # map (SendMsg 1 0) [1, 2, 3] @ [SendStop 1])
        @ replicate (length [1, 2, 3 :: u8]) (SwRead True 7) @ [SwRead True 7])) =
     replicate (length [1, 2, 3 :: u8] + 2) (Ack (Inr ())) @ map (\<lambda>b. Byte (Inr b)) [1, 2, 3] @ [Byte (Inl FifoEmpty)]"
proof -
  have wf: "swmbx_wf 255 fifo_ctrl" unfolding fifo_ctrl_def by (rule mbx.run_inv [OF demo_wf])
  have f: "mbx_en fifo_ctrl = 4" "fifo fifo_ctrl = (fifo demo_ctrl)[0 := (fifo demo_ctrl ! 0)\<lparr>ff_enabled := True,
      fifo_offset := 7, max_msg_count := 8, ff_notify_flag := 0, msg_index := 0, notify_start := False, fifo_write := False, queue := []\<rparr>]"
    by (simp_all add: fifo_ctrl_def acked_def enable_behavior_def update_fifo_def upd_fifo_def FLAG_MASK_def SWMBX_PROTECT_def
        SWMBX_NOTIFY_def SWMBX_FIFO_def SWMBX_FIFO_COUNT_def SWMBX_FIFO_DEPTH_def SWMBX_NODE_COUNT_def demo_ctrl_def new_with_regions_def)
  have d: "fifo demo_ctrl = [fifo_new, fifo_new, fifo_new, fifo_new]" by (simp add: demo_ctrl_def new_with_regions_def)
  have "check_fifo fifo_ctrl 7 = Some 0" by (simp add: check_fifo_def f d)
  then show ?thesis
    by (rule mailbox_fifo_roundtrip [OF wf, rotated 2]) (simp_all add: f d SWMBX_FIFO_def fifo_new_def)
qed

text \<open>
  The protection bitmap is applied exactly. A range within the eight words sets the PROTECT bit of
  every covered node of the port to its bit of the bitmap and leaves every other node, port, flag
  and pending notification alone; any other range, including one whose end overflows, is refused
  without effect.
\<close>

theorem apply_protect_exact:
  assumes "swmbx_wf qcap c" "port < 2" "apply_protect c port bitmap start = (c', res)"
  shows "if unat start + length bitmap \<le> 8
    then res = Inr () \<and> (\<forall>p a. other_bits c' p a = other_bits c p a
      \<and> protect_bit c' p a =
          (if p = port \<and> unat start \<le> a div 32 \<and> a div 32 < unat start + length bitmap
           then bit (bitmap ! (a div 32 - unat start)) (a mod 32) else protect_bit c p a))
    else res = Inl InvalidProtectRange \<and> c' = c"
proof (cases "unat start + length bitmap \<le> 8")
  case True
  have port: "port < SWMBX_DEV_COUNT" using assms(2) by (simp add: SWMBX_DEV_COUNT_def)
  with True assms(3) have "c' = protect_words c port (unat start) bitmap" "res = Inr ()"
    by (auto simp: apply_protect_def PROTECT_WORD_COUNT_def SWMBX_NODE_COUNT_def PROTECT_BITS_PER_WORD_def)
  with True protect_words_exact [OF assms(1) port True] show ?thesis by simp
next
  case False
  with assms(2,3) show ?thesis
    by (auto simp: apply_protect_def SWMBX_DEV_COUNT_def PROTECT_WORD_COUNT_def SWMBX_NODE_COUNT_def PROTECT_BITS_PER_WORD_def)
qed

theorem apply_protect_exact_witness:
  "protect_bit (fst (apply_protect demo_ctrl 1 [5] 2)) 1 66 \<and> \<not> protect_bit (fst (apply_protect demo_ctrl 1 [5] 2)) 1 65"
proof -
  obtain c' res where a: "apply_protect demo_ctrl 1 [5] 2 = (c', res)" by force
  show ?thesis
    using apply_protect_exact [OF demo_wf _ a] unfolding a
    by (simp add: all_conj_distrib bit_numeral_rec)
qed

end
