(* ===== verification/Otp_Controller.thy ===== *)
theory Otp_Controller
  imports Prelude
begin

unbundle bit_operations_syntax

text \<open>
  The driver of the one-time-programmable memory of the AST10x0,
  \<open>target/ast10x0/peripherals/otp/mod.rs\<close> and \<open>common.rs\<close>: reading and burning fuses word by word and bit
  by bit, with read-back verification and retries, on top of volatile register accesses. The device
  is a parameter: a state, a function that writes a register and one that reads a register, and
  the bit fields that the register-access crate names. Every operation passes the device state
  on, also the ones that only read. Delays and log messages are left out. The flag \<open>locked\<close> of the
  controller, which only \<open>otp_lock_mem\<close> sets, is part of that operation's result.
\<close>

section \<open>Device and error codes\<close>

datatype otp_reg =
    SEC000 | SEC004 | SEC008 | SEC010 | SEC014 | SEC020 | SEC024 | SEC068 | SEC06C | SEC078 | SCU004 | SCU014

record 'h otp_dev =
  reg_write :: "otp_reg \<Rightarrow> u32 \<Rightarrow> 'h \<Rightarrow> 'h"
  reg_read :: "otp_reg \<Rightarrow> 'h \<Rightarrow> 'h \<times> u32"
  otpctrl_sts :: "u32 \<Rightarrow> bool"
  otpmemory_sts :: "u32 \<Rightarrow> bool"
  prot_key :: "u32 \<Rightarrow> u32"
  sec_boot_key_number :: "u32 \<Rightarrow> u8"

datatype aspeed_chip_version =
    Ast1030A0 | Ast1030A1 | Ast1035A1 | Ast1060A1 | Ast1060A2 | UnknownChip

datatype otp_region = RegionData | RegionConfiguration | RegionStrap | RegionScuProtection

datatype otp_error =
    InvalidAddress | InvalidBufSize | MemoryLocked | WriteFailed | ReadFailed | LockFailed
  | VerificationFailed | WriteExhausted | NoSession | RegionProtected | AlignmentError
  | BoundaryError | OtpTimeout | UnknownRevId | OtpUnknown

record protection_status =
  memory_locked :: bool
  key_protected :: bool
  strap_protected :: bool
  config_protected :: bool
  user_ecc_protected :: bool
  security_protected :: bool
  security_size :: u32

record strap_status =
  st_value :: bool
  st_options :: "u8 list"
  remaining_writes :: u8
  writable_option :: u8
  st_protected :: bool

datatype otp_soak_mode = SoakDefault | NormalProg | SoakProg

section \<open>Constants\<close>

definition OTP_PASSWD :: u32 where "OTP_PASSWD = 0x349fe38a"
definition OTP_READ_CMD :: u32 where "OTP_READ_CMD = 0x23b1e361"
definition OTP_WRITE_CMD :: u32 where "OTP_WRITE_CMD = 0x23b1e362"
definition OTP_PROG_CMD :: u32 where "OTP_PROG_CMD = 0x23b1e364"
definition OTP_MEM_LIMIT_DATA :: nat where "OTP_MEM_LIMIT_DATA = 2048"
definition OTP_TIMING_200US :: u32 where "OTP_TIMING_200US = 0x04191388"
definition OTP_TIMING_600US :: u32 where "OTP_TIMING_600US = 0x04193a98"
definition OTP_OP_RETRIES :: nat where "OTP_OP_RETRIES = 20"
definition OTP_CONF_OFFSET :: u32 where "OTP_CONF_OFFSET = 0x800"
definition OTP_MEM_LOCK_ENABLE :: u32 where "OTP_MEM_LOCK_ENABLE = push_bit 31 1"
definition OTP_KEY_PROT_ENABLE :: u32 where "OTP_KEY_PROT_ENABLE = push_bit 29 1"
definition OTP_STRAP_PROT_ENABLE :: u32 where "OTP_STRAP_PROT_ENABLE = push_bit 25 1"
definition OTP_CONF_PROT_ENABLE :: u32 where "OTP_CONF_PROT_ENABLE = push_bit 24 1"
definition OTP_USER_ECC_PROT_ENABLE :: u32 where "OTP_USER_ECC_PROT_ENABLE = push_bit 23 1"
definition OTP_SECURE_PROT_ENABLE :: u32 where "OTP_SECURE_PROT_ENABLE = push_bit 22 1"
definition OTP_SECURE_SIZE_BIT_POS :: nat where "OTP_SECURE_SIZE_BIT_POS = 16"
definition OTP_SECURE_SIZE_MASK :: u32 where "OTP_SECURE_SIZE_MASK = 0x3f"

record soak_prog_info =
  sp_address :: u32
  sp_data :: u32

definition SOAK_PROG_DEFAULT :: "soak_prog_info list" where
  "SOAK_PROG_DEFAULT = [\<lparr>sp_address = 0x3000, sp_data = 0\<rparr>, \<lparr>sp_address = 0x5000, sp_data = 0\<rparr>,
     \<lparr>sp_address = 0x1000, sp_data = 0\<rparr>]"

definition SOAK_PROG_NORMAL :: "soak_prog_info list" where
  "SOAK_PROG_NORMAL = [\<lparr>sp_address = 0x3000, sp_data = 0x1320\<rparr>, \<lparr>sp_address = 0x5000, sp_data = 0x1008\<rparr>,
     \<lparr>sp_address = 0x1000, sp_data = 0x0024\<rparr>]"

definition SOAK_PROG_SOAK :: "soak_prog_info list" where
  "SOAK_PROG_SOAK = [\<lparr>sp_address = 0x3000, sp_data = 0x1320\<rparr>, \<lparr>sp_address = 0x5000, sp_data = 0x0007\<rparr>,
     \<lparr>sp_address = 0x1000, sp_data = 0x0100\<rparr>]"

record region_info =
  region_type :: otp_region
  ri_start :: nat
  cdw_size :: nat
  alignment :: nat

text \<open>\<open>REGION_INFO\<close> is indexed by the discriminant of the region.\<close>

fun REGION_INFO :: "otp_region \<Rightarrow> region_info" where
  "REGION_INFO RegionData = \<lparr>region_type = RegionData, ri_start = 0, cdw_size = OTP_MEM_LIMIT_DATA, alignment = 4\<rparr>"
| "REGION_INFO RegionConfiguration = \<lparr>region_type = RegionConfiguration, ri_start = 0x800, cdw_size = 32, alignment = 4\<rparr>"
| "REGION_INFO RegionStrap = \<lparr>region_type = RegionStrap, ri_start = 0xC00, cdw_size = 2, alignment = 4\<rparr>"
| "REGION_INFO RegionScuProtection = \<lparr>region_type = RegionScuProtection, ri_start = 0xE08, cdw_size = 2, alignment = 4\<rparr>"

section \<open>Commands\<close>

definition chip_version :: "'h otp_dev \<Rightarrow> 'h \<Rightarrow> 'h \<times> aspeed_chip_version" where
  "chip_version dev h =
     (let (h, revid0) = reg_read dev SCU004 h; (h, revid1) = reg_read dev SCU014 h
      in (h, if revid0 = 0xA0010000 \<and> revid1 = 0xA0010000 then Ast1060A1
             else if revid0 = 0xA0030000 \<and> revid1 = 0xA0030000 \<or> revid0 = 0x80030000 \<and> revid1 = 0x80030000
             then Ast1060A2 else UnknownChip))"

fun wait_loop :: "'h otp_dev \<Rightarrow> nat \<Rightarrow> 'h \<Rightarrow> 'h \<times> bool" where
  "wait_loop dev 0 h = (h, False)"
| "wait_loop dev (Suc tries) h =
     (let (h, sts) = reg_read dev SEC014 h
      in if otpctrl_sts dev sts \<and> otpmemory_sts dev sts then (h, True) else wait_loop dev tries h)"

definition wait_complete :: "'h otp_dev \<Rightarrow> 'h \<Rightarrow> 'h \<times> bool" where
  "wait_complete dev h = wait_loop dev 1000 h"

definition otp_write :: "'h otp_dev \<Rightarrow> u32 \<Rightarrow> u32 \<Rightarrow> 'h \<Rightarrow> 'h \<times> bool" where
  "otp_write dev otp_addr data h =
     wait_complete dev (reg_write dev SEC004 OTP_WRITE_CMD
       (reg_write dev SEC020 data (reg_write dev SEC010 otp_addr h)))"

definition soak_writes :: "'h otp_dev \<Rightarrow> soak_prog_info list \<Rightarrow> 'h \<Rightarrow> 'h" where
  "soak_writes dev = fold (\<lambda>s h. fst (otp_write dev (sp_address s) (sp_data s) h))"

definition otp_soak :: "'h otp_dev \<Rightarrow> otp_soak_mode \<Rightarrow> 'h \<Rightarrow> 'h" where
  "otp_soak dev mode h =
     fst (wait_complete dev
       (case mode of
          SoakDefault \<Rightarrow> soak_writes dev SOAK_PROG_DEFAULT h
        | NormalProg \<Rightarrow> reg_write dev SEC008 OTP_TIMING_200US (soak_writes dev SOAK_PROG_NORMAL h)
        | SoakProg \<Rightarrow> reg_write dev SEC008 OTP_TIMING_600US (soak_writes dev SOAK_PROG_SOAK h)))"

definition otp_read_data :: "'h otp_dev \<Rightarrow> u32 \<Rightarrow> u32 list \<Rightarrow> 'h \<Rightarrow> 'h \<times> (otp_error, u32 list) result" where
  "otp_read_data dev otp_addr buffer h =
     (if length buffer < 2 then (h, Inl ReadFailed)
      else let h = reg_write dev SEC004 OTP_READ_CMD (reg_write dev SEC010 otp_addr h);
               (h, complete) = wait_complete dev h
           in if \<not> complete then (h, Inl ReadFailed)
              else let (h, d0) = reg_read dev SEC020 h; (h, d1) = reg_read dev SEC024 h
                   in (h, Inr (buffer[0 := d0, 1 := d1])))"

definition otp_read_conf :: "'h otp_dev \<Rightarrow> u32 \<Rightarrow> 'h \<Rightarrow> 'h \<times> (otp_error, u32) result" where
  "otp_read_conf dev addr h =
     (let h = reg_write dev SEC004 OTP_READ_CMD (reg_write dev SEC010 addr h);
          (h, complete) = wait_complete dev h
      in if \<not> complete then (h, Inl ReadFailed)
         else let (h, d) = reg_read dev SEC020 h in (h, Inr d))"

definition conf_addr :: "u32 \<Rightarrow> u32" where
  "conf_addr reg_idx = OTP_CONF_OFFSET OR ((reg_idx div 8) * 0x200) OR ((reg_idx mod 8) * 0x2)"

definition otp_read_conf_idx :: "'h otp_dev \<Rightarrow> u32 \<Rightarrow> 'h \<Rightarrow> 'h \<times> (otp_error, u32) result" where
  "otp_read_conf_idx dev reg_idx h = otp_read_conf dev (conf_addr reg_idx) h"

definition otp_prog :: "'h otp_dev \<Rightarrow> u32 \<Rightarrow> u32 \<Rightarrow> 'h \<Rightarrow> 'h \<times> (otp_error, unit) result" where
  "otp_prog dev otp_addr prog_bit h =
     (let (h, ok) = otp_write dev 0 prog_bit h
      in if ok
         then let (h, complete) = wait_complete dev (reg_write dev SEC004 OTP_PROG_CMD
                    (reg_write dev SEC020 prog_bit (reg_write dev SEC010 otp_addr h)))
              in (h, if complete then Inr () else Inl OtpTimeout)
         else (h, Inl WriteFailed))"

text \<open>\<open>!(1 << bit)\<close> selects a bit at an even address, \<open>1 << bit\<close> at an odd one.\<close>

definition otp_prog_bit_helper ::
  "'h otp_dev \<Rightarrow> u32 \<Rightarrow> u32 \<Rightarrow> nat \<Rightarrow> 'h \<Rightarrow> 'h \<times> (otp_error, unit) result" where
  "otp_prog_bit_helper dev value address bit_offset h =
     (let prog_bit = (if address AND 1 = 0 then if value \<noteq> 0 then NOT (push_bit bit_offset 1) else 0
                      else if value = 0 then push_bit bit_offset 1 else 0)
      in if prog_bit \<noteq> 0 then otp_prog dev address prog_bit h else (h, Inr ()))"

definition otp_lock_reg :: "'h otp_dev \<Rightarrow> 'h \<Rightarrow> 'h" where
  "otp_lock_reg dev h = reg_write dev SEC000 (prot_key dev 1) h"

definition otp_unlock_reg :: "'h otp_dev \<Rightarrow> 'h \<Rightarrow> 'h" where
  "otp_unlock_reg dev h = reg_write dev SEC000 (prot_key dev OTP_PASSWD) h"

definition verify_bit :: "'h otp_dev \<Rightarrow> u32 \<Rightarrow> u32 \<Rightarrow> nat \<Rightarrow> 'h \<Rightarrow> 'h \<times> (otp_error, unit) result" where
  "verify_bit dev value otp_addr bit_offset h =
     (let addr = (if otp_addr AND 1 = 0 then otp_addr else otp_addr - 1)
      in case otp_read_data dev addr [0, 0] h of
           (h, Inl e) \<Rightarrow> (h, Inl e)
         | (h, Inr ret) \<Rightarrow>
             (let word = (if otp_addr AND 1 = 0 then ret ! 0 else ret ! 1)
              in (h, if drop_bit bit_offset word AND 1 = value then Inr () else Inl VerificationFailed)))"

text \<open>The retry loop of \<open>otp_prog_dc_b\<close>: the outcome is the error of a programming step or whether it passed.\<close>

fun prog_bit_loop ::
  "'h otp_dev \<Rightarrow> u32 \<Rightarrow> u32 \<Rightarrow> nat \<Rightarrow> nat \<Rightarrow> 'h \<Rightarrow> 'h \<times> (otp_error, bool) result" where
  "prog_bit_loop dev value address bit_offset 0 h = (h, Inr False)"
| "prog_bit_loop dev value address bit_offset (Suc n) h =
     (case verify_bit dev value address bit_offset h of
        (h, Inr _) \<Rightarrow> (h, Inr True)
      | (h, Inl _) \<Rightarrow>
          (case otp_prog_bit_helper dev value address bit_offset (otp_soak dev SoakProg h) of
             (h, Inl e) \<Rightarrow> (h, Inl e)
           | (h, Inr _) \<Rightarrow>
               (case verify_bit dev value address bit_offset h of
                  (h, Inr _) \<Rightarrow> prog_bit_loop dev value address bit_offset n (otp_soak dev NormalProg h)
                | (h, Inl _) \<Rightarrow> (h, Inr False))))"

definition otp_prog_dc_b :: "'h otp_dev \<Rightarrow> u32 \<Rightarrow> u32 \<Rightarrow> nat \<Rightarrow> 'h \<Rightarrow> 'h \<times> (otp_error, unit) result" where
  "otp_prog_dc_b dev value address bit_offset h =
     (case otp_prog_bit_helper dev value address bit_offset (otp_soak dev NormalProg h) of
        (h, Inl e) \<Rightarrow> (h, Inl e)
      | (h, Inr _) \<Rightarrow>
          (case prog_bit_loop dev value address bit_offset OTP_OP_RETRIES h of
             (h, Inl e) \<Rightarrow> (h, Inl e)
           | (h, Inr pass) \<Rightarrow> (h, if pass then Inr () else Inl OtpTimeout)))"

section \<open>Words\<close>

fun prog_dw_bits ::
  "'h otp_dev \<Rightarrow> u32 \<Rightarrow> u32 \<Rightarrow> u32 \<Rightarrow> nat list \<Rightarrow> 'h \<Rightarrow> 'h \<times> (otp_error, unit) result" where
  "prog_dw_bits dev value ignore address [] h = (h, Inr ())"
| "prog_dw_bits dev value ignore address (bit_pos # ps) h =
     (if drop_bit bit_pos ignore AND 1 = 1 then prog_dw_bits dev value ignore address ps h
      else let bit_value = drop_bit bit_pos value AND 1
           in if (address AND 1 = 0) \<noteq> (bit_value = 1) then prog_dw_bits dev value ignore address ps h
              else let prog_bit = (if address AND 1 = 0 then NOT (push_bit bit_pos 1) else push_bit bit_pos 1)
                   in case otp_prog dev address prog_bit h of
                        (h, Inl e) \<Rightarrow> (h, Inl e)
                      | (h, Inr _) \<Rightarrow> prog_dw_bits dev value ignore address ps h)"

definition otp_prog_dw :: "'h otp_dev \<Rightarrow> u32 \<Rightarrow> u32 \<Rightarrow> u32 \<Rightarrow> 'h \<Rightarrow> 'h \<times> (otp_error, unit) result" where
  "otp_prog_dw dev value ignore address h = prog_dw_bits dev value ignore address [0..<32] h"

text \<open>\<open>verify_dw\<close> returns its verdict and the new value of \<open>*compare\<close>, which a failed read leaves alone.\<close>

definition verify_dw :: "'h otp_dev \<Rightarrow> u32 \<Rightarrow> u32 \<Rightarrow> u32 \<Rightarrow> u32 \<Rightarrow> 'h \<Rightarrow> 'h \<times> bool \<times> u32" where
  "verify_dw dev address data ignore compare h =
     (let otp_addr = address AND NOT (push_bit 15 1);
          addr = (if otp_addr AND 1 = 0 then otp_addr else otp_addr - 1)
      in case otp_read_data dev addr [0, 0] h of
           (h, Inl _) \<Rightarrow> (h, False, compare)
         | (h, Inr ret) \<Rightarrow>
             if otp_addr AND 1 = 0
             then if data AND NOT ignore = ret ! 0 AND NOT ignore then (h, True, 0) else (h, False, data XOR ret ! 0)
             else if data AND NOT ignore = ret ! 1 AND NOT ignore then (h, True, NOT 0)
             else (h, False, NOT (data XOR ret ! 1)))"

definition verify_2dw ::
  "'h otp_dev \<Rightarrow> u32 \<Rightarrow> u32 list \<Rightarrow> u32 list \<Rightarrow> nat \<Rightarrow> u32 list \<Rightarrow> 'h \<Rightarrow> 'h \<times> bool \<times> u32 list" where
  "verify_2dw dev address val ignore num_dw compare h =
     (let otp_addr = address AND NOT (push_bit 15 1)
      in if length val < 2 \<or> length ignore < 2 \<or> length compare < 2 then (h, False, compare)
         else if num_dw = 1
         then let (h, ok, c) = verify_dw dev address (val ! 0) (ignore ! 0) (compare ! 0) h
              in (h, ok, compare[0 := c])
         else if num_dw = 2
         then case otp_read_data dev otp_addr [0, 0] h of
                (h, Inl _) \<Rightarrow> (h, False, compare)
              | (h, Inr ret) \<Rightarrow>
                  if val ! 0 AND NOT (ignore ! 0) = ret ! 0 AND NOT (ignore ! 0)
                     \<and> val ! 1 AND NOT (ignore ! 1) = ret ! 1 AND NOT (ignore ! 1)
                  then (h, True, compare[0 := 0, 1 := NOT 0])
                  else (h, False, compare[0 := val ! 0 XOR ret ! 0, 1 := NOT (val ! 1 XOR ret ! 1)])
         else (h, False, compare))"

definition is_program_data_valid :: "u32 \<Rightarrow> u32 \<Rightarrow> u32 \<Rightarrow> bool" where
  "is_program_data_valid addr otp_data buffer_data =
     list_all (\<lambda>i. if addr AND 1 = 0
                   then \<not> (drop_bit i otp_data AND 1 = 1 \<and> drop_bit i buffer_data AND 1 = 0)
                   else \<not> (drop_bit i otp_data AND 1 = 0 \<and> drop_bit i buffer_data AND 1 = 1)) [0..<32]"

definition verify_prog_words ::
  "'h otp_dev \<Rightarrow> u32 \<Rightarrow> u32 list \<Rightarrow> u32 list \<Rightarrow> bool \<Rightarrow> bool \<Rightarrow> u32 list \<Rightarrow> 'h \<Rightarrow> 'h \<times> bool \<times> u32 list" where
  "verify_prog_words dev address buffer ignore_mask prog0 prog1 compare h =
     (if length buffer < 2 \<or> length ignore_mask < 2 \<or> length compare < 2 then (h, False, compare)
      else if prog0 \<and> prog1 then verify_2dw dev address buffer ignore_mask 2 compare h
      else if prog0 then
        (let (h, ok, c) = verify_dw dev address (buffer ! 0) (ignore_mask ! 0) (compare ! 0) h
         in (h, ok, compare[0 := c]))
      else if prog1 then
        (let (h, ok, c) = verify_dw dev (address + 1) (buffer ! 1) (ignore_mask ! 1) (compare ! 1) h
         in (h, ok, compare[1 := c]))
      else (h, True, compare))"

definition prog_when ::
  "bool \<Rightarrow> 'h otp_dev \<Rightarrow> u32 \<Rightarrow> u32 \<Rightarrow> u32 \<Rightarrow> 'h \<Rightarrow> 'h \<times> (otp_error, unit) result" where
  "prog_when c dev value ignore address h =
     (if c then otp_prog_dw dev value ignore address h else (h, Inr ()))"

fun prog_2dw_loop ::
  "'h otp_dev \<Rightarrow> u32 \<Rightarrow> u32 list \<Rightarrow> u32 list \<Rightarrow> bool \<Rightarrow> bool \<Rightarrow> nat \<Rightarrow> u32 list \<Rightarrow> 'h \<Rightarrow> 'h \<times> (otp_error, bool) result" where
  "prog_2dw_loop dev address buffer ignore prog0 prog1 0 compare h = (h, Inr False)"
| "prog_2dw_loop dev address buffer ignore prog0 prog1 (Suc n) compare h =
     (case verify_prog_words dev address buffer ignore prog0 prog1 compare h of
        (h, True, compare) \<Rightarrow> (h, Inr True)
      | (h, False, compare) \<Rightarrow>
          (case prog_when (prog0 \<and> compare ! 0 \<noteq> 0) dev (compare ! 0) (ignore ! 0) address (otp_soak dev SoakProg h) of
             (h, Inl e) \<Rightarrow> (h, Inl e)
           | (h, Inr _) \<Rightarrow>
               (case prog_when (prog1 \<and> compare ! 1 \<noteq> NOT 0) dev (compare ! 1) (ignore ! 1) (address + 1) h of
                  (h, Inl e) \<Rightarrow> (h, Inl e)
                | (h, Inr _) \<Rightarrow>
                    (case verify_prog_words dev address buffer ignore prog0 prog1 compare h of
                       (h, True, compare) \<Rightarrow> (h, Inr True)
                     | (h, False, compare) \<Rightarrow>
                         prog_2dw_loop dev address buffer ignore prog0 prog1 n compare (otp_soak dev NormalProg h)))))"

definition otp_prog_verify_2dw ::
  "'h otp_dev \<Rightarrow> u32 \<Rightarrow> u32 list \<Rightarrow> u32 list \<Rightarrow> u32 list \<Rightarrow> 'h \<Rightarrow> 'h \<times> (otp_error, unit) result" where
  "otp_prog_verify_2dw dev address otp_data buffer ignore h =
     (if length otp_data < 2 \<or> length buffer < 2 \<or> length ignore < 2 then (h, Inl InvalidBufSize)
      else let data0 = otp_data ! 0 AND NOT (ignore ! 0); buf0 = buffer ! 0 AND NOT (ignore ! 0);
               data1 = otp_data ! 1 AND NOT (ignore ! 1); buf1 = buffer ! 1 AND NOT (ignore ! 1);
               ignore0 = (if data0 = buf0 then 0xffffffff else ignore ! 0);
               ignore1 = (if data1 = buf1 then 0xffffffff else ignore ! 1);
               prog0 = (ignore0 \<noteq> 0xffffffff); prog1 = (ignore1 \<noteq> 0xffffffff)
           in if data0 = buf0 \<and> data1 = buf1 then (h, Inr ())
              else if ignore0 \<noteq> 0xffffffff \<and> \<not> is_program_data_valid address data0 buf0 then (h, Inl WriteFailed)
              else if ignore1 \<noteq> 0xffffffff \<and> \<not> is_program_data_valid (address + 1) data1 buf1 then (h, Inl WriteFailed)
              else case prog_when prog0 dev (buffer ! 0) ignore0 address (otp_soak dev NormalProg h) of
                     (h, Inl e) \<Rightarrow> (h, Inl e)
                   | (h, Inr _) \<Rightarrow>
                       (case prog_when prog1 dev (buffer ! 1) ignore1 (address + 1) h of
                          (h, Inl e) \<Rightarrow> (h, Inl e)
                        | (h, Inr _) \<Rightarrow>
                            (case prog_2dw_loop dev address buffer [ignore0, ignore1] prog0 prog1 OTP_OP_RETRIES [0, 0] h of
                               (h, Inl e) \<Rightarrow> (h, Inl e)
                             | (h, Inr True) \<Rightarrow> (h, Inr ())
                             | (h, Inr False) \<Rightarrow> (otp_soak dev SoakDefault h, Inl WriteFailed))))"

fun prog_retry_loop :: "'h otp_dev \<Rightarrow> u32 \<Rightarrow> u32 \<Rightarrow> u32 \<Rightarrow> nat \<Rightarrow> u32 \<Rightarrow> 'h \<Rightarrow> 'h \<times> bool" where
  "prog_retry_loop dev addr data ignore 0 compare h = (h, False)"
| "prog_retry_loop dev addr data ignore (Suc n) compare h =
     (case verify_dw dev addr data ignore compare h of
        (h, True, compare) \<Rightarrow> (h, True)
      | (h, False, compare) \<Rightarrow>
          (case otp_prog_dw dev compare ignore addr (otp_soak dev SoakProg h) of
             (h, Inl _) \<Rightarrow> (h, False)
           | (h, Inr _) \<Rightarrow>
               (case verify_dw dev addr data ignore compare h of
                  (h, True, compare) \<Rightarrow> (h, True)
                | (h, False, compare) \<Rightarrow>
                    prog_retry_loop dev addr data ignore n compare (otp_soak dev NormalProg h))))"

definition otp_prog_verify_retry :: "'h otp_dev \<Rightarrow> u32 \<Rightarrow> u32 \<Rightarrow> u32 \<Rightarrow> 'h \<Rightarrow> 'h \<times> bool" where
  "otp_prog_verify_retry dev addr data ignore h = prog_retry_loop dev addr data ignore OTP_OP_RETRIES 0 h"

end
