(* ===== verification/Otp_Api.thy ===== *)
theory Otp_Api
  imports Otp_Controller
begin

unbundle bit_operations_syntax

text \<open>
  The public operations of the OTP driver on its regions: locking, protection status, straps, and
  reading and programming of the data, configuration and SCU-protection words
  (\<open>target/ast10x0/peripherals/otp/mod.rs\<close> from \<open>otp_lock_mem\<close> on).
\<close>

section \<open>Locking and status\<close>

text \<open>\<open>otp_read_conf_idx(0).unwrap_or_default()\<close>\<close>

definition conf0_or_zero :: "'h otp_dev \<Rightarrow> 'h \<Rightarrow> 'h \<times> u32" where
  "conf0_or_zero dev h = (case otp_read_conf_idx dev 0 h of (h, Inl _) \<Rightarrow> (h, 0) | (h, Inr v) \<Rightarrow> (h, v))"

definition flag_set :: "u32 \<Rightarrow> u32 \<Rightarrow> bool" where
  "flag_set v f \<longleftrightarrow> v AND f = f"

definition is_otp_locked :: "'h otp_dev \<Rightarrow> 'h \<Rightarrow> 'h \<times> bool" where
  "is_otp_locked dev h = (let (h, otp_conf) = conf0_or_zero dev h in (h, flag_set otp_conf OTP_MEM_LOCK_ENABLE))"

definition is_key_protected :: "'h otp_dev \<Rightarrow> 'h \<Rightarrow> 'h \<times> bool" where
  "is_key_protected dev h = (let (h, otp_conf) = conf0_or_zero dev h in (h, flag_set otp_conf OTP_KEY_PROT_ENABLE))"

text \<open>The result carries the new value of the controller's \<open>locked\<close> flag.\<close>

definition otp_lock_mem :: "'h otp_dev \<Rightarrow> bool \<Rightarrow> 'h \<Rightarrow> 'h \<times> bool \<times> (otp_error, unit) result" where
  "otp_lock_mem dev locked h =
     (let (h, is_locked) = is_otp_locked dev h
      in if is_locked then (h, True, Inr ())
         else case otp_prog_dw dev OTP_MEM_LOCK_ENABLE 0 OTP_CONF_OFFSET (otp_soak dev NormalProg (otp_unlock_reg dev h)) of
                (h, Inl e) \<Rightarrow> (h, locked, Inl e)
              | (h, Inr _) \<Rightarrow>
                  (let (h, is_locked) = is_otp_locked dev (otp_lock_reg dev (otp_soak dev SoakDefault h))
                   in if \<not> is_locked then (h, locked, Inl LockFailed) else (h, True, Inr ())))"

record session_info =
  si_chip_version :: aspeed_chip_version
  si_version_name :: string
  si_protection_status :: protection_status
  si_tool_version :: "u8 list"
  si_software_revision :: u32
  si_key_count :: u32

definition update_prot_info :: "'h otp_dev \<Rightarrow> session_info \<Rightarrow> 'h \<Rightarrow> 'h \<times> session_info" where
  "update_prot_info dev session h =
     (let (h, ver) = chip_version dev h;
          name = (case ver of Ast1060A1 \<Rightarrow> ''AST1060A1'' | Ast1060A2 \<Rightarrow> ''AST1060A2'' | _ \<Rightarrow> ''ASUnknown'') @ [CHR 0x00];
          (h, otp_conf) = conf0_or_zero dev h;
          secure_size = drop_bit OTP_SECURE_SIZE_BIT_POS otp_conf;
          secure_size = (if secure_size \<noteq> 0 then push_bit 5 (secure_size AND OTP_SECURE_SIZE_MASK) else secure_size)
      in (h, session\<lparr>si_chip_version := ver, si_version_name := name,
            si_protection_status := (si_protection_status session)
              \<lparr>memory_locked := flag_set otp_conf OTP_MEM_LOCK_ENABLE,
               strap_protected := flag_set otp_conf OTP_STRAP_PROT_ENABLE,
               user_ecc_protected := flag_set otp_conf OTP_USER_ECC_PROT_ENABLE,
               security_protected := flag_set otp_conf OTP_SECURE_PROT_ENABLE,
               security_size := secure_size\<rparr>\<rparr>))"

definition get_sw_revision :: "'h otp_dev \<Rightarrow> 'h \<Rightarrow> 'h \<times> u32 \<times> u32" where
  "get_sw_revision dev h =
     (let (h, r0) = reg_read dev SEC068 h; (h, r1) = reg_read dev SEC06C h in (h, r0, r1))"

definition get_key_count :: "'h otp_dev \<Rightarrow> 'h \<Rightarrow> 'h \<times> u8" where
  "get_key_count dev h = (let (h, v) = reg_read dev SEC078 h in (h, sec_boot_key_number dev v))"

definition total_capacity :: nat where
  "total_capacity = (cdw_size (REGION_INFO RegionData) + cdw_size (REGION_INFO RegionConfiguration)) * 4"

definition region_capacity :: "otp_region \<Rightarrow> nat" where
  "region_capacity region = cdw_size (REGION_INFO region) * 4"

definition region_alignment :: "otp_region \<Rightarrow> nat" where
  "region_alignment region = alignment (REGION_INFO region)"

section \<open>Reading\<close>

fun read_pairs :: "'h otp_dev \<Rightarrow> nat \<Rightarrow> nat \<Rightarrow> 'h \<Rightarrow> 'h \<times> (otp_error, u32 list) result" where
  "read_pairs dev i 0 h = (h, Inr [])"
| "read_pairs dev i (Suc n) h =
     (case otp_read_data dev (of_nat i) [0, 0] h of
        (h, Inl e) \<Rightarrow> (h, Inl e)
      | (h, Inr temp) \<Rightarrow>
          (case read_pairs dev (i + 2) n h of
             (h, Inl e) \<Rightarrow> (h, Inl e)
           | (h, Inr rest) \<Rightarrow> (h, Inr (temp ! 0 # temp ! 1 # rest))))"

text \<open>The caller's buffer is given by its length; the result is its content after a success.\<close>

definition aspeed_otp_read_data :: "'h otp_dev \<Rightarrow> nat \<Rightarrow> nat \<Rightarrow> 'h \<Rightarrow> 'h \<times> (otp_error, u32 list) result" where
  "aspeed_otp_read_data dev offset cdw_len h =
     (if cdw_len + offset > OTP_MEM_LIMIT_DATA then (h, Inl BoundaryError)
      else if offset mod 4 \<noteq> 0 then (h, Inl AlignmentError)
      else if cdw_len mod 2 \<noteq> 0 then (h, Inl InvalidBufSize)
      else read_pairs dev offset (cdw_len div 2) h)"

fun read_confs :: "'h otp_dev \<Rightarrow> nat \<Rightarrow> nat \<Rightarrow> 'h \<Rightarrow> 'h \<times> (otp_error, u32 list) result" where
  "read_confs dev i 0 h = (h, Inr [])"
| "read_confs dev i (Suc n) h =
     (case otp_read_conf_idx dev (of_nat i) h of
        (h, Inl e) \<Rightarrow> (h, Inl e)
      | (h, Inr v) \<Rightarrow>
          (case read_confs dev (Suc i) n h of
             (h, Inl e) \<Rightarrow> (h, Inl e)
           | (h, Inr rest) \<Rightarrow> (h, Inr (v # rest))))"

definition aspeed_otp_read_conf :: "'h otp_dev \<Rightarrow> nat \<Rightarrow> nat \<Rightarrow> 'h \<Rightarrow> 'h \<times> (otp_error, u32 list) result" where
  "aspeed_otp_read_conf dev offset cdw_len h =
     (if cdw_len + offset > 32 then (h, Inl BoundaryError)
      else let (h, r) = read_confs dev offset cdw_len (otp_soak dev SoakDefault (otp_unlock_reg dev h))
           in (otp_lock_reg dev h, r))"

definition aspeed_otp_read_scuprot :: "'h otp_dev \<Rightarrow> nat \<Rightarrow> nat \<Rightarrow> 'h \<Rightarrow> 'h \<times> (otp_error, u32 list) result" where
  "aspeed_otp_read_scuprot dev offset cdw_len h =
     (if cdw_len + offset > 2 then (h, Inl BoundaryError)
      else let (h, r) = read_confs dev (28 + offset) cdw_len (otp_unlock_reg dev h)
           in (otp_lock_reg dev h, r))"

section \<open>Programming data\<close>

fun prog_pairs :: "'h otp_dev \<Rightarrow> nat \<Rightarrow> u32 list \<Rightarrow> 'h \<Rightarrow> 'h \<times> (otp_error, unit) result" where
  "prog_pairs dev i (d0 # d1 # rest) h =
     (case otp_read_data dev (of_nat i) [0, 0] h of
        (h, Inl e) \<Rightarrow> (h, Inl e)
      | (h, Inr scratch) \<Rightarrow>
          (case otp_prog_verify_2dw dev (of_nat i) scratch [d0, d1] [0, 0] h of
             (h, Inl e) \<Rightarrow> (h, Inl e)
           | (h, Inr _) \<Rightarrow> prog_pairs dev (i + 2) rest h))"
| "prog_pairs dev i _ h = (h, Inr ())"

definition otp_prog_data :: "'h otp_dev \<Rightarrow> nat \<Rightarrow> u32 list \<Rightarrow> 'h \<Rightarrow> 'h \<times> (otp_error, unit) result" where
  "otp_prog_data dev offset data h =
     (if length data + offset > OTP_MEM_LIMIT_DATA then (h, Inl BoundaryError)
      else if offset mod 4 \<noteq> 0 then (h, Inl AlignmentError)
      else if length data mod 2 \<noteq> 0 then (h, Inl InvalidBufSize)
      else let (h, result) = prog_pairs dev offset data (otp_unlock_reg dev h)
           in (otp_lock_reg dev (otp_soak dev SoakDefault h), result))"

section \<open>Straps\<close>

definition strap_init :: "strap_status \<Rightarrow> strap_status" where
  "strap_init s = s\<lparr>st_value := False, remaining_writes := 6, writable_option := 0xff, st_protected := False\<rparr>"

definition strap_bit_step :: "u8 \<Rightarrow> bool \<Rightarrow> strap_status \<Rightarrow> strap_status" where
  "strap_bit_step opt b s =
     s\<lparr>writable_option := (if \<not> b \<and> writable_option s = 0xff then opt else writable_option s),
       remaining_writes := (if b then remaining_writes s - 1 else remaining_writes s),
       st_value := (st_value s \<noteq> b),
       st_options := (st_options s)[unat opt := of_bool b]\<rparr>"

text \<open>Bit \<open>j\<close> of the 64 strap bits in two configuration words.\<close>

definition strap_raw :: "u32 \<Rightarrow> u32 \<Rightarrow> nat \<Rightarrow> bool" where
  "strap_raw raw0 raw1 j = (if j < 32 then drop_bit j raw0 AND 1 = 1 else drop_bit (j - 32) raw1 AND 1 = 1)"

definition upd_straps :: "(nat \<Rightarrow> strap_status \<Rightarrow> strap_status) \<Rightarrow> strap_status list \<Rightarrow> strap_status list" where
  "upd_straps f os = map (\<lambda>j. if j < 64 then f j (os ! j) else os ! j) [0..<length os]"

fun strap_rows ::
  "'h otp_dev \<Rightarrow> nat list \<Rightarrow> strap_status list \<Rightarrow> 'h \<Rightarrow> 'h \<times> (otp_error, strap_status list) result" where
  "strap_rows dev [] os h = (h, Inr os)"
| "strap_rows dev (opt # opts) os h =
     (case otp_read_conf_idx dev (of_nat (16 + 2 * opt)) h of
        (h, Inl e) \<Rightarrow> (h, Inl e)
      | (h, Inr raw0) \<Rightarrow>
          (case otp_read_conf_idx dev (of_nat (17 + 2 * opt)) h of
             (h, Inl e) \<Rightarrow> (h, Inl e)
           | (h, Inr raw1) \<Rightarrow>
               strap_rows dev opts (upd_straps (\<lambda>j. strap_bit_step (of_nat opt) (strap_raw raw0 raw1 j)) os) h))"

definition otp_strap_status ::
  "'h otp_dev \<Rightarrow> strap_status list \<Rightarrow> 'h \<Rightarrow> 'h \<times> (otp_error, strap_status list) result" where
  "otp_strap_status dev os h =
     (if length os < 64 then (h, Inl InvalidBufSize)
      else case strap_rows dev [0..<6] (upd_straps (\<lambda>_. strap_init) os) (otp_soak dev SoakDefault h) of
             (h, Inl e) \<Rightarrow> (h, Inl e)
           | (h, Inr os) \<Rightarrow>
               (case otp_read_conf_idx dev 30 h of
                  (h, Inl e) \<Rightarrow> (h, Inl e)
                | (h, Inr raw0) \<Rightarrow>
                    (case otp_read_conf_idx dev 31 h of
                       (h, Inl e) \<Rightarrow> (h, Inl e)
                     | (h, Inr raw1) \<Rightarrow>
                         (h, Inr (upd_straps (\<lambda>j s. if strap_raw raw0 raw1 j then s\<lparr>st_protected := True\<rparr> else s) os)))))"

definition strap_target_bit :: "u32 list \<Rightarrow> nat \<Rightarrow> nat \<Rightarrow> bool" where
  "strap_target_bit strap start_bit i =
     (let rel = i - start_bit; (word, shift) = (if rel < 32 then (0, rel) else (1, rel - 32))
      in drop_bit shift (if word < length strap then strap ! word else 0) AND 1 = 1)"

fun burn_straps ::
  "'h otp_dev \<Rightarrow> strap_status list \<Rightarrow> u32 list \<Rightarrow> nat \<Rightarrow> nat list \<Rightarrow> 'h \<Rightarrow> 'h \<times> (otp_error, unit) result" where
  "burn_straps dev os strap start_bit [] h = (h, Inr ())"
| "burn_straps dev os strap start_bit (i # is) h =
     (if strap_target_bit strap start_bit i = st_value (os ! i) then burn_straps dev os strap start_bit is h
      else let slot = ucast (writable_option (os ! i)) * 2 + (if i < 32 then 16 else 17)
           in case otp_prog_dc_b dev 1 (conf_addr slot) (i mod 32) h of
                (h, Inl e) \<Rightarrow> (h, Inl e)
              | (h, Inr _) \<Rightarrow> burn_straps dev os strap start_bit is h)"

definition strap_blank :: strap_status where
  "strap_blank = \<lparr>st_value = False, st_options = replicate 7 0, remaining_writes = 6,
     writable_option = 0xff, st_protected = False\<rparr>"

definition otp_prog_strap :: "'h otp_dev \<Rightarrow> nat \<Rightarrow> u32 list \<Rightarrow> 'h \<Rightarrow> 'h \<times> (otp_error, unit) result" where
  "otp_prog_strap dev start_bit strap h =
     (if start_bit > 63 then (h, Inl InvalidAddress)
      else case otp_strap_status dev (replicate 64 strap_blank) h of
             (h, Inl e) \<Rightarrow> (h, Inl e)
           | (h, Inr os) \<Rightarrow>
               (let differing = filter (\<lambda>i. strap_target_bit strap start_bit i \<noteq> st_value (os ! i)) [start_bit..<64];
                    count_prot = length (filter (\<lambda>i. st_protected (os ! i)) differing);
                    count_cant_write =
                      length (filter (\<lambda>i. \<not> st_protected (os ! i) \<and> remaining_writes (os ! i) = 0) differing)
                in if count_prot > 0 then (h, Inl RegionProtected)
                   else if count_cant_write > 0 then (h, Inl WriteExhausted)
                   else case burn_straps dev os strap start_bit [start_bit..<64] h of
                          (h, Inl e) \<Rightarrow> (h, Inl e)
                        | (h, Inr _) \<Rightarrow> (otp_soak dev SoakDefault h, Inr ())))"

section \<open>Programming configuration and protection\<close>

text \<open>The loop of \<open>otp_prog_conf\<close> with its two variables \<open>pass\<close> and \<open>result\<close>.\<close>

fun prog_confs ::
  "'h otp_dev \<Rightarrow> nat \<Rightarrow> u32 list \<Rightarrow> bool \<Rightarrow> 'h \<Rightarrow> 'h \<times> bool \<times> (otp_error, unit) result" where
  "prog_confs dev i [] pass h = (h, pass, Inr ())"
| "prog_confs dev i (c # cs) pass h =
     (case otp_read_conf_idx dev (of_nat i) h of
        (h, Inl e) \<Rightarrow> (h, pass, Inl e)
      | (h, Inr otp_conf) \<Rightarrow>
          (let addr = of_nat (ri_start (REGION_INFO RegionConfiguration)) OR of_nat ((i div 8) * 0x200)
                        OR of_nat ((i mod 8) * 0x2)
           in if otp_conf = c then prog_confs dev (Suc i) cs True h
              else case otp_prog_dw dev c 0 addr (otp_soak dev NormalProg h) of
                     (h, Inl e) \<Rightarrow> (h, pass, Inl e)
                   | (h, Inr _) \<Rightarrow>
                       (let (h, pass) = otp_prog_verify_retry dev addr c 0 h
                        in if \<not> pass then (h, False, Inr ()) else prog_confs dev (Suc i) cs True h)))"

definition otp_prog_conf :: "'h otp_dev \<Rightarrow> nat \<Rightarrow> u32 list \<Rightarrow> 'h \<Rightarrow> 'h \<times> (otp_error, unit) result" where
  "otp_prog_conf dev start_conf conf h =
     (if length conf + start_conf > 32 then (h, Inl BoundaryError)
      else let (h, pass, result) = prog_confs dev start_conf conf True (otp_soak dev SoakDefault (otp_unlock_reg dev h));
               h = otp_lock_reg dev (otp_soak dev SoakDefault h)
           in (h, if \<not> pass then Inl WriteFailed else result))"

text \<open>The loop of \<open>otp_prog_scu_protect\<close>; a programming error returns from the function at once.\<close>

fun prog_scu_words ::
  "'h otp_dev \<Rightarrow> u32 list \<Rightarrow> nat \<Rightarrow> nat \<Rightarrow> u32 list \<Rightarrow> bool \<Rightarrow> 'h \<Rightarrow> 'h \<times> (otp_error, bool) result" where
  "prog_scu_words dev scu_pro start i [] pass h = (h, Inr pass)"
| "prog_scu_words dev scu_pro start i (c # cs) pass h =
     (let idx = i - start;
          data_masked = (if idx < length scu_pro then scu_pro ! idx else 0);
          addr = of_nat (ri_start (REGION_INFO RegionScuProtection) + i * 2)
      in if data_masked = c then prog_scu_words dev scu_pro start (Suc i) cs True h
         else case otp_prog_dw dev c 0 addr (otp_soak dev SoakDefault h) of
                (h, Inl e) \<Rightarrow> (h, Inl e)
              | (h, Inr _) \<Rightarrow>
                  (let (h, pass) = otp_prog_verify_retry dev addr c 0 h
                   in if \<not> pass then (h, Inr False) else prog_scu_words dev scu_pro start (Suc i) cs True h))"

definition otp_prog_scu_protect :: "'h otp_dev \<Rightarrow> nat \<Rightarrow> u32 list \<Rightarrow> 'h \<Rightarrow> 'h \<times> (otp_error, unit) result" where
  "otp_prog_scu_protect dev start otp_scu h =
     (if start + length otp_scu > cdw_size (REGION_INFO RegionScuProtection) then (h, Inl BoundaryError)
      else case otp_read_conf_idx dev 28 h of
             (h, Inl e) \<Rightarrow> (h, Inl e)
           | (h, Inr p0) \<Rightarrow>
               (case otp_read_conf_idx dev 29 h of
                  (h, Inl e) \<Rightarrow> (h, Inl e)
                | (h, Inr p1) \<Rightarrow>
                    (case prog_scu_words dev [p0, p1] start start otp_scu True
                            (otp_soak dev SoakDefault (otp_unlock_reg dev h)) of
                       (h, Inl e) \<Rightarrow> (h, Inl e)
                     | (h, Inr pass) \<Rightarrow>
                         (otp_lock_reg dev (otp_soak dev SoakDefault h), if pass then Inr () else Inl WriteFailed))))"

definition is_region_protected :: "'h otp_dev \<Rightarrow> otp_region \<Rightarrow> 'h \<Rightarrow> 'h \<times> (otp_error, bool) result" where
  "is_region_protected dev region h =
     (case otp_read_conf_idx dev 0 (otp_unlock_reg dev h) of
        (h, Inl e) \<Rightarrow> (h, Inl e)
      | (h, Inr otp_conf) \<Rightarrow>
          (otp_lock_reg dev h,
           Inr (case region of
                  RegionData \<Rightarrow> flag_set otp_conf OTP_USER_ECC_PROT_ENABLE \<and> flag_set otp_conf OTP_SECURE_PROT_ENABLE
                | RegionConfiguration \<Rightarrow> flag_set otp_conf OTP_CONF_PROT_ENABLE
                | RegionStrap \<Rightarrow> flag_set otp_conf OTP_STRAP_PROT_ENABLE
                | RegionScuProtection \<Rightarrow> False)))"

definition protection_value :: "otp_region \<Rightarrow> u32" where
  "protection_value region =
     (case region of
        RegionData \<Rightarrow> OTP_USER_ECC_PROT_ENABLE OR OTP_SECURE_PROT_ENABLE
      | RegionConfiguration \<Rightarrow> OTP_CONF_PROT_ENABLE
      | RegionStrap \<Rightarrow> OTP_STRAP_PROT_ENABLE
      | RegionScuProtection \<Rightarrow> 0)"

definition enable_region_protection :: "'h otp_dev \<Rightarrow> otp_region \<Rightarrow> 'h \<Rightarrow> 'h \<times> (otp_error, unit) result" where
  "enable_region_protection dev region h =
     (case is_region_protected dev region h of
        (h, Inr True) \<Rightarrow> (h, Inr ())
      | (h, _) \<Rightarrow> otp_prog_conf dev 0 [protection_value region] h)"

end
