(* ===== verification/Otp_Fuses.thy ===== *)
theory Otp_Fuses
  imports Otp_Api
begin

unbundle bit_operations_syntax

text \<open>
  What the OTP driver relies on of the device, and what its operations do to the fuses. The content
  of the fuses is a function of the device state. The contract \<open>fuse_device\<close> says what the
  comments of the driver say: only a program command changes fuses, and only those that the
  mask selects in the word at the addressed location, from 0 to 1 at an even address and
  from 1 to 0 at an odd one; a program command may fail to take; after a read command, once a
  read of the status register has shown the controller and the memory idle, the two data
  registers hold the addressed pair of words (before that they may hold anything). Whether and
  when a command completes is left to the device.
\<close>

section \<open>The device contract\<close>

definition burn :: "u32 \<Rightarrow> u32 \<Rightarrow> u32 \<Rightarrow> u32" where
  "burn addr m w = (if addr AND 1 = 0 then w OR NOT m else w AND NOT m)"

fun polls :: "'h otp_dev \<Rightarrow> nat \<Rightarrow> 'h \<Rightarrow> 'h" where
  "polls dev 0 h = h"
| "polls dev (Suc n) h = polls dev n (fst (reg_read dev SEC014 h))"

definition fuse_device :: "'h otp_dev \<Rightarrow> ('h \<Rightarrow> u32 \<Rightarrow> u32) \<Rightarrow> bool" where
  "fuse_device dev fuse \<longleftrightarrow>
     (\<forall>r v h. \<not> (r = SEC004 \<and> v = OTP_PROG_CMD) \<longrightarrow> fuse (reg_write dev r v h) = fuse h)
   \<and> (\<forall>r h. fuse (fst (reg_read dev r h)) = fuse h)
   \<and> (\<forall>a n h. even a \<longrightarrow>
        (let (h1, sts) = reg_read dev SEC014
               (polls dev n (reg_write dev SEC004 OTP_READ_CMD (reg_write dev SEC010 a h)))
         in otpctrl_sts dev sts \<and> otpmemory_sts dev sts \<longrightarrow>
            snd (reg_read dev SEC020 h1) = fuse h a
            \<and> snd (reg_read dev SEC024 (fst (reg_read dev SEC020 h1))) = fuse h (a + 1)))
   \<and> (\<forall>a m h. let h1 = reg_write dev SEC004 OTP_PROG_CMD (reg_write dev SEC020 m (reg_write dev SEC010 a h))
        in fuse h1 = fuse h \<or> fuse h1 = (fuse h)(a := burn a m (fuse h a)))"

text \<open>A status register that reads as idle after some polls: what the wait loop looks for.\<close>

definition completed :: "'h otp_dev \<Rightarrow> 'h \<Rightarrow> 'h \<Rightarrow> bool" where
  "completed dev h h1 \<longleftrightarrow>
     (\<exists>n sts. reg_read dev SEC014 (polls dev n h) = (h1, sts) \<and> otpctrl_sts dev sts \<and> otpmemory_sts dev sts)"

lemma fuse_deviceD:
  assumes "fuse_device dev fuse"
  shows "\<not> (r = SEC004 \<and> v = OTP_PROG_CMD) \<Longrightarrow> fuse (reg_write dev r v h) = fuse h"
    "fuse (fst (reg_read dev r h)) = fuse h"
    "even a \<Longrightarrow> completed dev (reg_write dev SEC004 OTP_READ_CMD (reg_write dev SEC010 a h)) h1 \<Longrightarrow>
      snd (reg_read dev SEC020 h1) = fuse h a \<and> snd (reg_read dev SEC024 (fst (reg_read dev SEC020 h1))) = fuse h (a + 1)"
    "fuse (reg_write dev SEC004 OTP_PROG_CMD (reg_write dev SEC020 m (reg_write dev SEC010 a h))) = fuse h
      \<or> fuse (reg_write dev SEC004 OTP_PROG_CMD (reg_write dev SEC020 m (reg_write dev SEC010 a h)))
         = (fuse h)(a := burn a m (fuse h a))"
proof -
  note d = assms [unfolded fuse_device_def Let_def]
  note d1 = conjunct1 [OF d] and d2 = conjunct1 [OF conjunct2 [OF d]]
    and d3 = conjunct1 [OF conjunct2 [OF conjunct2 [OF d]]] and d4 = conjunct2 [OF conjunct2 [OF conjunct2 [OF d]]]
  show "\<not> (r = SEC004 \<and> v = OTP_PROG_CMD) \<Longrightarrow> fuse (reg_write dev r v h) = fuse h" by (rule d1 [rule_format])
  show "fuse (fst (reg_read dev r h)) = fuse h" by (rule d2 [rule_format])
  show "snd (reg_read dev SEC020 h1) = fuse h a \<and> snd (reg_read dev SEC024 (fst (reg_read dev SEC020 h1))) = fuse h (a + 1)"
    if "even a" "completed dev (reg_write dev SEC004 OTP_READ_CMD (reg_write dev SEC010 a h)) h1"
  proof -
    from that(2) obtain n sts where "reg_read dev SEC014 (polls dev n (reg_write dev SEC004 OTP_READ_CMD
        (reg_write dev SEC010 a h))) = (h1, sts)" "otpctrl_sts dev sts" "otpmemory_sts dev sts"
      unfolding completed_def by blast
    with d3 [rule_format, OF that(1), where n = n and h = h] show ?thesis by simp
  qed
  show "fuse (reg_write dev SEC004 OTP_PROG_CMD (reg_write dev SEC020 m (reg_write dev SEC010 a h))) = fuse h
      \<or> fuse (reg_write dev SEC004 OTP_PROG_CMD (reg_write dev SEC020 m (reg_write dev SEC010 a h)))
         = (fuse h)(a := burn a m (fuse h a))" by (rule d4 [rule_format])
qed

lemma even_and_1: "(a AND 1 = (0 :: u32)) = even a"
  by (simp add: and_one_eq even_iff_mod_2_eq_zero)

lemma bit_shift_1: "(drop_bit n w AND 1 = (1 :: u32)) = bit w n" "(drop_bit n w AND 1 = (0 :: u32)) = (\<not> bit w n)"
  by (simp_all add: and_one_eq bit_iff_odd_drop_bit even_iff_mod_2_eq_zero odd_iff_mod_2_eq_one)

section \<open>Commands that leave the fuses alone\<close>

lemma wait_loop_polls: "\<exists>n. fst (wait_loop dev tries h) = polls dev n h"
proof (induction tries arbitrary: h)
  case 0
  show ?case by (rule exI [of _ 0]) simp
next
  case (Suc tries)
  obtain h1 sts where r: "reg_read dev SEC014 h = (h1, sts)" by (cases "reg_read dev SEC014 h")
  show ?case
  proof (cases "otpctrl_sts dev sts \<and> otpmemory_sts dev sts")
    case True
    then show ?thesis by (intro exI [of _ 1]) (simp add: r)
  next
    case False
    from Suc [of h1] obtain n where "fst (wait_loop dev tries h1) = polls dev n h1" by auto
    with False show ?thesis by (intro exI [of _ "Suc n"]) (auto simp: r)
  qed
qed

lemma completed_later: "completed dev (fst (reg_read dev SEC014 h)) h1 \<Longrightarrow> completed dev h h1"
  unfolding completed_def by (metis polls.simps(2))

lemma wait_loop_completed: "wait_loop dev tries h = (h1, True) \<Longrightarrow> completed dev h h1"
proof (induction tries arbitrary: h)
  case (Suc tries)
  obtain h2 sts where r: "reg_read dev SEC014 h = (h2, sts)" by (cases "reg_read dev SEC014 h")
  show ?case
  proof (cases "otpctrl_sts dev sts \<and> otpmemory_sts dev sts")
    case True
    with Suc.prems r show ?thesis by (auto simp: completed_def intro!: exI [of _ "0 :: nat"])
  next
    case False
    with Suc.prems r have "wait_loop dev tries h2 = (h1, True)" by (auto split: if_splits)
    from completed_later [of dev h h1] Suc.IH [OF this] r show ?thesis by simp
  qed
qed simp

lemma wait_complete_completed: "wait_complete dev h = (h1, True) \<Longrightarrow> completed dev h h1"
  unfolding wait_complete_def by (rule wait_loop_completed)

lemma wait_complete_polls: "\<exists>n. fst (wait_complete dev h) = polls dev n h"
  unfolding wait_complete_def by (rule wait_loop_polls)

lemma fuse_polls: "fuse_device dev fuse \<Longrightarrow> fuse (polls dev n h) = fuse h"
  by (induction n arbitrary: h) (simp_all add: fuse_deviceD(2))

lemma fuse_wait: "fuse_device dev fuse \<Longrightarrow> fuse (fst (wait_complete dev h)) = fuse h"
  using wait_complete_polls [of dev h] fuse_polls by fastforce

lemma fuse_otp_write: "fuse_device dev fuse \<Longrightarrow> fuse (fst (otp_write dev a d h)) = fuse h"
  by (simp add: otp_write_def fuse_wait fuse_deviceD(1) OTP_WRITE_CMD_def OTP_PROG_CMD_def)

lemma fuse_soak_writes: "fuse_device dev fuse \<Longrightarrow> fuse (soak_writes dev ws h) = fuse h"
  unfolding soak_writes_def by (induction ws arbitrary: h) (simp_all add: fuse_otp_write)

lemma fuse_soak: "fuse_device dev fuse \<Longrightarrow> fuse (otp_soak dev mode h) = fuse h"
  by (cases mode) (simp_all add: otp_soak_def fuse_wait fuse_soak_writes fuse_deviceD(1))

lemma fuse_lock: "fuse_device dev fuse \<Longrightarrow> fuse (otp_lock_reg dev h) = fuse h"
  "fuse_device dev fuse \<Longrightarrow> fuse (otp_unlock_reg dev h) = fuse h"
  by (simp_all add: otp_lock_reg_def otp_unlock_reg_def fuse_deviceD(1))

lemmas fuse_quiet = fuse_soak fuse_lock fuse_otp_write fuse_wait

text \<open>Reads return the fuses, if they return.\<close>

lemma read_data:
  assumes "fuse_device dev fuse" "even a" "otp_read_data dev a [x, y] h = (h', r)"
  shows "fuse h' = fuse h" "r = Inr ret \<Longrightarrow> ret = [fuse h a, fuse h (a + 1)]"
proof -
  let ?h = "reg_write dev SEC004 OTP_READ_CMD (reg_write dev SEC010 a h)"
  obtain h1 ok where w: "wait_complete dev ?h = (h1, ok)" by (cases "wait_complete dev ?h")
  have q: "fuse ?h = fuse h"
    by (simp add: fuse_deviceD(1) [OF assms(1)] OTP_READ_CMD_def OTP_PROG_CMD_def)
  note d = fuse_deviceD(2) [OF assms(1)]
  show "fuse h' = fuse h"
    using assms(3) fuse_wait [OF assms(1), of ?h] q
    by (auto simp: otp_read_data_def Let_def split: prod.splits if_splits) (metis d fst_conv)+
  show "ret = [fuse h a, fuse h (a + 1)]" if "r = Inr ret"
  proof -
    have ok using assms(3) w that by (auto simp: otp_read_data_def Let_def split: prod.splits if_splits)
    with w have "completed dev ?h h1" by (simp add: wait_complete_completed)
    from fuse_deviceD(3) [OF assms(1,2) this] show ?thesis
      using assms(3) w that by (auto simp: otp_read_data_def Let_def split: prod.splits if_splits)
  qed
qed

lemma read_conf:
  assumes "fuse_device dev fuse" "even a" "otp_read_conf dev a h = (h', r)"
  shows "fuse h' = fuse h" "r = Inr v \<Longrightarrow> v = fuse h a"
proof -
  let ?h = "reg_write dev SEC004 OTP_READ_CMD (reg_write dev SEC010 a h)"
  obtain h1 ok where w: "wait_complete dev ?h = (h1, ok)" by (cases "wait_complete dev ?h")
  have q: "fuse ?h = fuse h"
    by (simp add: fuse_deviceD(1) [OF assms(1)] OTP_READ_CMD_def OTP_PROG_CMD_def)
  note d = fuse_deviceD(2) [OF assms(1)]
  show "fuse h' = fuse h"
    using assms(3) fuse_wait [OF assms(1), of ?h] q
    by (auto simp: otp_read_conf_def Let_def split: prod.splits if_splits) (metis d fst_conv)+
  show "v = fuse h a" if "r = Inr v"
  proof -
    have ok using assms(3) w that by (auto simp: otp_read_conf_def Let_def split: prod.splits if_splits)
    with w have "completed dev ?h h1" by (simp add: wait_complete_completed)
    from fuse_deviceD(3) [OF assms(1,2) this] show ?thesis
      using assms(3) w that by (auto simp: otp_read_conf_def Let_def split: prod.splits if_splits)
  qed
qed

lemma even_conf_addr: "even (conf_addr i)"
  by (simp add: conf_addr_def OTP_CONF_OFFSET_def even_or_iff)

lemma read_conf_idx:
  assumes "fuse_device dev fuse" "otp_read_conf_idx dev i h = (h', r)"
  shows "fuse h' = fuse h" "r = Inr v \<Longrightarrow> v = fuse h (conf_addr i)"
  using read_conf [OF assms(1) even_conf_addr assms(2) [unfolded otp_read_conf_idx_def]] by simp_all

section \<open>Program commands\<close>

lemma prog_fuses:
  assumes "fuse_device dev fuse" "otp_prog dev a m h = (h', r)"
  shows "fuse h' = fuse h \<or> fuse h' = (fuse h)(a := burn a m (fuse h a))"
proof -
  obtain h1 ok where w: "otp_write dev 0 m h = (h1, ok)" by (cases "otp_write dev 0 m h")
  with fuse_otp_write [OF assms(1), of 0 m h] have q: "fuse h1 = fuse h" by simp
  let ?h2 = "reg_write dev SEC004 OTP_PROG_CMD (reg_write dev SEC020 m (reg_write dev SEC010 a h1))"
  have "h' = h1 \<or> h' = fst (wait_complete dev ?h2)"
    using assms(2) by (auto simp: otp_prog_def w split: prod.splits if_splits)
  then show ?thesis
    using q fuse_deviceD(4) [OF assms(1), of m a h1] fuse_wait [OF assms(1), of ?h2] by auto
qed

text \<open>
  Programming a word touches no other word, and it never takes a burnt fuse back: a one stays at an
  even address, a zero at an odd one.
\<close>

definition only_at :: "u32 set \<Rightarrow> (u32 \<Rightarrow> u32) \<Rightarrow> (u32 \<Rightarrow> u32) \<Rightarrow> bool" where
  "only_at A f f' \<longleftrightarrow> (\<forall>a. a \<notin> A \<longrightarrow> f' a = f a) \<and> (\<forall>a n. bit (f a) n = even a \<longrightarrow> n < 32 \<longrightarrow> bit (f' a) n = even a)"

lemma only_at_refl [simp]: "only_at A f f" and only_at_burn: "only_at {a} f (f(a := burn a m (f a)))"
  by (auto simp: only_at_def burn_def even_and_1 bit_simps)

lemma only_at_trans: "only_at A f g \<Longrightarrow> only_at A g k \<Longrightarrow> only_at A f k"
  and only_at_mono: "only_at A f g \<Longrightarrow> A \<subseteq> B \<Longrightarrow> only_at B f g"
  by (auto simp: only_at_def)

lemma prog_dw_bits_only:
  assumes "fuse_device dev fuse" "prog_dw_bits dev v g a ps h = (h', r)"
  shows "only_at {a} (fuse h) (fuse h')"
  using assms(2)
proof (induction ps arbitrary: h)
  case (Cons p ps)
  show ?case
  proof (cases "drop_bit p g AND 1 = 1 \<or> (a AND 1 = 0) \<noteq> (drop_bit p v AND 1 = 1)")
    case True
    with Cons.prems have "prog_dw_bits dev v g a ps h = (h', r)" by (auto simp: Let_def split: if_splits)
    then show ?thesis by (rule Cons.IH)
  next
    case False
    let ?m = "if a AND 1 = 0 then NOT (push_bit p 1) else push_bit p 1"
    obtain h1 r1 where p: "otp_prog dev a ?m h = (h1, r1)" by (cases "otp_prog dev a ?m h")
    then have one: "only_at {a} (fuse h) (fuse h1)" using prog_fuses [OF assms(1) p] by (auto simp: only_at_burn)
    show ?thesis
    proof (cases r1)
      case (Inl e)
      with Cons.prems False p one show ?thesis by (auto simp: Let_def split: if_splits)
    next
      case (Inr u)
      with Cons.prems False p have "prog_dw_bits dev v g a ps h1 = (h', r)" by (auto simp: Let_def split: if_splits)
      from only_at_trans [OF one Cons.IH [OF this]] show ?thesis .
    qed
  qed
qed simp

lemma prog_when_only:
  "fuse_device dev fuse \<Longrightarrow> prog_when c dev v g a h = (h', r) \<Longrightarrow> only_at (if c then {a} else {}) (fuse h) (fuse h')"
  by (auto simp: prog_when_def otp_prog_dw_def dest: prog_dw_bits_only split: if_splits)

section \<open>Verification of words\<close>

lemma odd_minus_1: "odd (a :: u32) \<Longrightarrow> even (a - 1)"
  by simp

lemma even_plus_1: "even (a :: u32) \<Longrightarrow> odd (a + 1)"
  by simp

lemma masked_addr: "(a :: u32) < 0x8000 \<Longrightarrow> a AND NOT (push_bit 15 1) = a"
proof (rule bit_word_eqI)
  fix n assume a: "a < 0x8000"
  then have "unat a < 32768" by (simp add: word_less_nat_alt)
  then have "\<not> bit (unat a) 15" by (simp add: bit_iff_odd)
  then have "\<not> bit a 15" by (simp add: bit_unsigned_iff)
  then show "bit (a AND NOT (push_bit 15 1)) n = bit a n"
    by (auto simp: bit_and_iff bit_not_iff bit_push_bit_iff bit_1_iff simp del: push_bit_of_1)
      (auto dest: bit_imp_le_length)
qed

lemmas masked_addr_simp = masked_addr [simplified]

lemma verify_dw_fuses:
  assumes "fuse_device dev fuse" "a < 0x8000" "verify_dw dev a d g c h = (h', ok, c')"
  shows "fuse h' = fuse h" "ok \<Longrightarrow> d AND NOT g = fuse h a AND NOT g"
proof -
  let ?addr = "if even a then a else a - 1"
  obtain h1 r where r: "otp_read_data dev ?addr [0, 0] h = (h1, r)" by (cases "otp_read_data dev ?addr [0, 0] h")
  have ev: "even ?addr" using odd_minus_1 by auto
  note rd = read_data [OF assms(1) ev r]
  have h': "h' = h1" using assms(3) r
    by (auto simp: verify_dw_def Let_def masked_addr_simp [OF assms(2)] even_and_1 split: sum.splits if_splits)
  then show "fuse h' = fuse h" using rd(1) by simp
  show "d AND NOT g = fuse h a AND NOT g" if ok
    using assms(3) r rd(2) that
    by (auto simp: verify_dw_def Let_def masked_addr_simp [OF assms(2)] even_and_1 split: sum.splits if_splits)
qed

text \<open>The words that were to be programmed hold the requested bits, if the verification says so.\<close>

lemma verify_words_fuses:
  assumes "fuse_device dev fuse" "even a" "a < 0x7000"
    "verify_prog_words dev a [d0, d1] [g0, g1] p0 p1 [c0, c1] h = (h', ok, c')"
  shows "fuse h' = fuse h" "ok \<Longrightarrow> p0 \<Longrightarrow> d0 AND NOT g0 = fuse h a AND NOT g0"
    "ok \<Longrightarrow> p1 \<Longrightarrow> d1 AND NOT g1 = fuse h (a + 1) AND NOT g1" "length c' = 2"
proof -
  have a: "a < 0x8000" "a + 1 < 0x8000" using assms(3) by unat_arith+
  obtain h0 r where rd: "otp_read_data dev a [0, 0] h = (h0, r)" by (cases "otp_read_data dev a [0, 0] h")
  note rd' = read_data [OF assms(1,2) rd]
  consider (both) "p0" "p1" | (first) "p0" "\<not> p1" | (second) "\<not> p0" "p1" | (none) "\<not> p0" "\<not> p1" by blast
  then have "fuse h' = fuse h \<and> (ok \<longrightarrow> p0 \<longrightarrow> d0 AND NOT g0 = fuse h a AND NOT g0)
    \<and> (ok \<longrightarrow> p1 \<longrightarrow> d1 AND NOT g1 = fuse h (a + 1) AND NOT g1) \<and> length c' = 2"
  proof cases
    case both
    then have v: "verify_2dw dev a [d0, d1] [g0, g1] 2 [c0, c1] h = (h', ok, c')"
      using assms(4) by (simp add: verify_prog_words_def)
    show ?thesis
    proof (cases r)
      case (Inl e)
      with v rd rd' show ?thesis by (auto simp: verify_2dw_def Let_def masked_addr_simp [OF a(1)])
    next
      case (Inr ret)
      with v rd have "h' = h0" "ok \<Longrightarrow> d0 AND NOT g0 = ret ! 0 AND NOT g0 \<and> d1 AND NOT g1 = ret ! 1 AND NOT g1"
        "length c' = 2"
        by (auto simp: verify_2dw_def Let_def masked_addr_simp [OF a(1)] split: if_splits)
      with rd' Inr show ?thesis by simp
    qed
  next
    case first
    obtain h1 o1 k1 where v: "verify_dw dev a d0 g0 c0 h = (h1, o1, k1)" by (cases "verify_dw dev a d0 g0 c0 h") auto
    with assms(4) first have "h' = h1" "ok = o1" "c' = [k1, c1]" by (simp_all add: verify_prog_words_def)
    with verify_dw_fuses [OF assms(1) a(1) v] first show ?thesis by simp
  next
    case second
    obtain h1 o1 k1 where v: "verify_dw dev (a + 1) d1 g1 c1 h = (h1, o1, k1)"
      by (cases "verify_dw dev (a + 1) d1 g1 c1 h") auto
    with assms(4) second have "h' = h1" "ok = o1" "c' = [c0, k1]" by (simp_all add: verify_prog_words_def)
    with verify_dw_fuses [OF assms(1) a(2) v] second show ?thesis by simp
  next
    case none
    with assms(4) show ?thesis by (auto simp: verify_prog_words_def)
  qed
  then show "fuse h' = fuse h" "ok \<Longrightarrow> p0 \<Longrightarrow> d0 AND NOT g0 = fuse h a AND NOT g0"
    "ok \<Longrightarrow> p1 \<Longrightarrow> d1 AND NOT g1 = fuse h (a + 1) AND NOT g1" "length c' = 2" by blast+
qed

section \<open>Programming a pair of words\<close>

definition pair_holds :: "u32 \<Rightarrow> u32 list \<Rightarrow> u32 list \<Rightarrow> bool \<Rightarrow> bool \<Rightarrow> (u32 \<Rightarrow> u32) \<Rightarrow> bool" where
  "pair_holds a buf g p0 p1 f \<longleftrightarrow> (p0 \<longrightarrow> buf ! 0 AND NOT (g ! 0) = f a AND NOT (g ! 0))
     \<and> (p1 \<longrightarrow> buf ! 1 AND NOT (g ! 1) = f (a + 1) AND NOT (g ! 1))"

abbreviation prog_area :: "u32 \<Rightarrow> bool \<Rightarrow> bool \<Rightarrow> u32 set" where
  "prog_area a p0 p1 \<equiv> (if p0 then {a} else {}) \<union> (if p1 then {a + 1} else {})"

lemma length_2_cases: "length xs = 2 \<Longrightarrow> \<exists>x y. xs = [x, y]"
  by (cases xs rule: list.exhaust; cases "tl xs") auto

lemma verify_pair:
  assumes "fuse_device dev fuse" "even a" "a < 0x7000"
    "verify_prog_words dev a [d0, d1] [g0, g1] p0 p1 c h = (h', ok, c')" "length c = 2"
  shows "fuse h' = fuse h \<and> (ok \<longrightarrow> pair_holds a [d0, d1] [g0, g1] p0 p1 (fuse h)) \<and> length c' = 2"
proof -
  obtain c0 c1 where c: "c = [c0, c1]" using length_2_cases [OF assms(5)] by blast
  from verify_words_fuses [OF assms(1-3) assms(4) [unfolded c]] show ?thesis
    by (auto simp: pair_holds_def)
qed

lemma prog_2dw_loop_fuses:
  assumes "fuse_device dev fuse" "even a" "a < 0x7000"
    "prog_2dw_loop dev a [d0, d1] [g0, g1] p0 p1 n c h = (h', r)" "length c = 2"
  shows "only_at (prog_area a p0 p1) (fuse h) (fuse h')
    \<and> (r = Inr True \<longrightarrow> pair_holds a [d0, d1] [g0, g1] p0 p1 (fuse h'))"
  using assms(4,5)
proof (induction n arbitrary: c h)
  case (Suc n)
  obtain h1 ok1 c1 where v1: "verify_prog_words dev a [d0, d1] [g0, g1] p0 p1 c h = (h1, ok1, c1)"
    by (cases "verify_prog_words dev a [d0, d1] [g0, g1] p0 p1 c h") auto
  note f1 = verify_pair [OF assms(1-3) v1 Suc.prems(2)]
  show ?case
  proof (cases ok1)
    case True
    with Suc.prems v1 f1 show ?thesis by auto
  next
    case False
    let ?b0 = "p0 \<and> c1 ! 0 \<noteq> 0" and ?b1 = "p1 \<and> c1 ! 1 \<noteq> NOT 0"
    obtain h2 r2 where w0: "prog_when ?b0 dev (c1 ! 0) g0 a (otp_soak dev SoakProg h1) = (h2, r2)"
      by (cases "prog_when ?b0 dev (c1 ! 0) g0 a (otp_soak dev SoakProg h1)")
    have o2: "only_at (prog_area a p0 p1) (fuse h) (fuse h2)"
      using prog_when_only [OF assms(1) w0] f1 fuse_soak [OF assms(1), of SoakProg h1]
      by (auto simp: only_at_def split: if_splits)
    show ?thesis
    proof (cases r2)
      case (Inl e)
      with Suc.prems False v1 w0 o2 show ?thesis by auto
    next
      case (Inr u)
      obtain h3 r3 where w1: "prog_when ?b1 dev (c1 ! 1) g1 (a + 1) h2 = (h3, r3)"
        by (cases "prog_when ?b1 dev (c1 ! 1) g1 (a + 1) h2")
      have o3: "only_at (prog_area a p0 p1) (fuse h) (fuse h3)"
        using o2 prog_when_only [OF assms(1) w1] by (auto simp: only_at_def split: if_splits)
      show ?thesis
      proof (cases r3)
        case (Inl e)
        with Suc.prems False v1 w0 w1 Inr o3 show ?thesis by auto
      next
        case (Inr u')
        obtain h4 ok4 c4 where v4: "verify_prog_words dev a [d0, d1] [g0, g1] p0 p1 c1 h3 = (h4, ok4, c4)"
          by (cases "verify_prog_words dev a [d0, d1] [g0, g1] p0 p1 c1 h3") auto
        have l1: "length c1 = 2" using f1 by simp
        note f4 = verify_pair [OF assms(1-3) v4 l1]
        have step: "prog_2dw_loop dev a [d0, d1] [g0, g1] p0 p1 (Suc n) c h
            = (if ok4 then (h4, Inr True)
               else prog_2dw_loop dev a [d0, d1] [g0, g1] p0 p1 n c4 (otp_soak dev NormalProg h4))"
          using v1 False w0 w1 v4 \<open>r2 = Inr u\<close> Inr by (simp split: bool.split)
        show ?thesis
        proof (cases ok4)
          case True
          with step Suc.prems f4 o3 show ?thesis by auto
        next
          case False
          with step Suc.prems have "prog_2dw_loop dev a [d0, d1] [g0, g1] p0 p1 n c4 (otp_soak dev NormalProg h4) = (h', r)"
            by simp
          from Suc.IH [OF this] f4 o3 fuse_soak [OF assms(1)] show ?thesis
            by (auto intro: only_at_trans)
        qed
      qed
    qed
  qed
qed auto

text \<open>The body of \<open>otp_prog_verify_2dw\<close> without an ignore mask: only words that differ are programmed.\<close>

lemma prog_verify_2dw_eq:
  assumes "p0 = (x0 \<noteq> d0)" "p1 = (x1 \<noteq> d1)"
    "g0 = (if p0 then 0 else 0xffffffff)" "g1 = (if p1 then 0 else 0xffffffff)"
  shows "otp_prog_verify_2dw dev a [x0, x1] [d0, d1] [0, 0] h =
    (if \<not> p0 \<and> \<not> p1 then (h, Inr ())
     else if p0 \<and> \<not> is_program_data_valid a x0 d0 \<or> p1 \<and> \<not> is_program_data_valid (a + 1) x1 d1 then (h, Inl WriteFailed)
     else case prog_when p0 dev d0 g0 a (otp_soak dev NormalProg h) of
            (h, Inl e) \<Rightarrow> (h, Inl e)
          | (h, Inr _) \<Rightarrow>
              (case prog_when p1 dev d1 g1 (a + 1) h of
                 (h, Inl e) \<Rightarrow> (h, Inl e)
               | (h, Inr _) \<Rightarrow>
                   (case prog_2dw_loop dev a [d0, d1] [g0, g1] p0 p1 OTP_OP_RETRIES [0, 0] h of
                      (h, Inl e) \<Rightarrow> (h, Inl e)
                    | (h, Inr True) \<Rightarrow> (h, Inr ())
                    | (h, Inr False) \<Rightarrow> (otp_soak dev SoakDefault h, Inl WriteFailed))))"
  unfolding otp_prog_verify_2dw_def by (auto simp: Let_def assms)

lemma prog_verify_2dw_fuses:
  assumes "fuse_device dev fuse" "even a" "a < 0x7000"
    "otp_prog_verify_2dw dev a [fuse h a, fuse h (a + 1)] [d0, d1] [0, 0] h = (h', r)"
  shows "only_at {a, a + 1} (fuse h) (fuse h') \<and> (r = Inr () \<longrightarrow> fuse h' a = d0 \<and> fuse h' (a + 1) = d1)"
proof -
  define p0 where "p0 = (fuse h a \<noteq> d0)"
  define p1 where "p1 = (fuse h (a + 1) \<noteq> d1)"
  define g0 :: u32 where "g0 = (if p0 then 0 else 0xffffffff)"
  define g1 :: u32 where "g1 = (if p1 then 0 else 0xffffffff)"
  have ne: "a \<noteq> a + 1" by simp
  let ?bad = "p0 \<and> \<not> is_program_data_valid a (fuse h a) d0 \<or> p1 \<and> \<not> is_program_data_valid (a + 1) (fuse h (a + 1)) d1"
  note eq = prog_verify_2dw_eq [OF p0_def p1_def g0_def g1_def, of dev a h]
  show ?thesis
  proof (cases "\<not> p0 \<and> \<not> p1 \<or> ?bad")
    case True
    with assms(4) eq show ?thesis by (auto simp: p0_def p1_def split: if_splits)
  next
    case False
    obtain h1 r1 where w0: "prog_when p0 dev d0 g0 a (otp_soak dev NormalProg h) = (h1, r1)"
      by (cases "prog_when p0 dev d0 g0 a (otp_soak dev NormalProg h)")
    have o1: "only_at (prog_area a p0 p1) (fuse h) (fuse h1)"
      using prog_when_only [OF assms(1) w0] fuse_soak [OF assms(1), of NormalProg h]
      by (auto simp: only_at_def split: if_splits)
    have area: "prog_area a p0 p1 \<subseteq> {a, a + 1}" by auto
    show ?thesis
    proof (cases r1)
      case (Inl e)
      with False assms(4) eq w0 only_at_mono [OF o1 area] show ?thesis by auto
    next
      case (Inr u)
      obtain h2 r2 where w1: "prog_when p1 dev d1 g1 (a + 1) h1 = (h2, r2)"
        by (cases "prog_when p1 dev d1 g1 (a + 1) h1")
      have o2: "only_at (prog_area a p0 p1) (fuse h) (fuse h2)"
        using o1 prog_when_only [OF assms(1) w1] by (auto simp: only_at_def split: if_splits)
      show ?thesis
      proof (cases r2)
        case (Inl e)
        with False assms(4) eq w0 w1 Inr only_at_mono [OF o2 area] show ?thesis by auto
      next
        case (Inr u')
        obtain h3 r3 where l: "prog_2dw_loop dev a [d0, d1] [g0, g1] p0 p1 OTP_OP_RETRIES [0, 0] h2 = (h3, r3)"
          by (cases "prog_2dw_loop dev a [d0, d1] [g0, g1] p0 p1 OTP_OP_RETRIES [0, 0] h2")
        have lf: "only_at (prog_area a p0 p1) (fuse h2) (fuse h3)"
          "r3 = Inr True \<Longrightarrow> pair_holds a [d0, d1] [g0, g1] p0 p1 (fuse h3)"
          using prog_2dw_loop_fuses [OF assms(1-3) l] by simp_all
        have o3: "only_at (prog_area a p0 p1) (fuse h) (fuse h3)" by (rule only_at_trans [OF o2 lf(1)])
        have res: "(h', r) = (case r3 of Inl e \<Rightarrow> (h3, Inl e) | Inr b \<Rightarrow>
            if b then (h3, Inr ()) else (otp_soak dev SoakDefault h3, Inl WriteFailed))"
          using False assms(4) eq w0 w1 l \<open>r1 = Inr u\<close> Inr by (auto split: sum.split bool.split)
        then have same: "fuse h' = fuse h3" and ok: "r = Inr () \<Longrightarrow> r3 = Inr True"
          using fuse_soak [OF assms(1)] by (auto split: sum.splits if_splits)
        have "fuse h' a = d0 \<and> fuse h' (a + 1) = d1" if "r = Inr ()"
        proof
          note holds = lf(2) [OF ok [OF that], unfolded pair_holds_def]
          show "fuse h' a = d0"
          proof (cases p0)
            case True
            with holds show ?thesis by (simp add: same g0_def)
          next
            case False
            then have "fuse h3 a = fuse h a" using o3 ne by (simp add: only_at_def)
            with False show ?thesis by (simp add: same p0_def)
          qed
          show "fuse h' (a + 1) = d1"
          proof (cases p1)
            case True
            with holds show ?thesis by (simp add: same g1_def)
          next
            case False
            then have "fuse h3 (a + 1) = fuse h (a + 1)" using o3 ne by (simp add: only_at_def)
            with False show ?thesis by (simp add: same p1_def)
          qed
        qed
        with same only_at_mono [OF o3 area] show ?thesis by simp
      qed
    qed
  qed
qed

section \<open>Programming the data region\<close>

lemma even_of_nat_u32: "even i \<Longrightarrow> even (of_nat i :: u32)"
  by (auto elim!: evenE)

lemma of_nat_u32_inj: "m < 4294967296 \<Longrightarrow> n < 4294967296 \<Longrightarrow> (of_nat m :: u32) = of_nat n \<longleftrightarrow> m = n"
  by (simp add: word_unat_eq_iff unat_of_nat take_bit_nat_eq_self)

definition data_area :: "nat \<Rightarrow> nat \<Rightarrow> u32 set" where
  "data_area i n = of_nat ` {i..<i + n}"

lemma data_area_Suc2: "data_area i (Suc (Suc n)) = {of_nat i, of_nat i + 1} \<union> data_area (i + 2) n"
proof -
  have "{i..<i + Suc (Suc n)} = {i, Suc i} \<union> {i + 2..<i + 2 + n}" by auto
  then show ?thesis by (simp add: data_area_def image_Un add.commute)
qed

lemma below_data_area:
  assumes "m < i" "i + n \<le> 2048"
  shows "of_nat m \<notin> data_area i n"
proof
  assume "of_nat m \<in> data_area i n"
  then obtain x where x: "of_nat m = (of_nat x :: u32)" "i \<le> x" "x < i + n" by (auto simp: data_area_def)
  with assms of_nat_u32_inj [of m x] show False by simp
qed

lemma prog_pairs_fuses:
  assumes "fuse_device dev fuse" "even i" "i + length data \<le> 2048" "even (length data)"
    "prog_pairs dev i data h = (h', r)"
  shows "only_at (data_area i (length data)) (fuse h) (fuse h')
    \<and> (r = Inr () \<longrightarrow> (\<forall>k<length data. fuse h' (of_nat (i + k)) = data ! k))"
  using assms(2-5)
proof (induction data arbitrary: i h rule: induct_list012)
  case (3 d0 d1 rest)
  let ?a = "of_nat i :: u32" and ?A = "data_area i (length (d0 # d1 # rest))"
  have a: "even ?a" "?a < 0x7000"
    using "3.prems"(1,2) by (simp_all add: even_of_nat_u32 word_less_nat_alt unat_of_nat take_bit_nat_eq_self)
  have area: "?A = {?a, ?a + 1} \<union> data_area (i + 2) (length rest)" by (simp add: data_area_Suc2)
  obtain h1 r1 where rd: "otp_read_data dev ?a [0, 0] h = (h1, r1)" by (cases "otp_read_data dev ?a [0, 0] h")
  note rf = read_data [OF assms(1) a(1) rd]
  show ?case
  proof (cases r1)
    case (Inl e)
    with "3.prems"(4) rd rf show ?thesis by auto
  next
    case (Inr scratch)
    then have sc: "scratch = [fuse h1 ?a, fuse h1 (?a + 1)]" using rf by simp
    obtain h2 r2 where pv: "otp_prog_verify_2dw dev ?a scratch [d0, d1] [0, 0] h1 = (h2, r2)"
      by (cases "otp_prog_verify_2dw dev ?a scratch [d0, d1] [0, 0] h1")
    note pf = prog_verify_2dw_fuses [OF assms(1) a pv [unfolded sc]]
    have o2: "only_at ?A (fuse h) (fuse h2)" using pf rf(1) unfolding area by (auto simp: only_at_def)
    show ?thesis
    proof (cases r2)
      case (Inl e)
      with "3.prems"(4) rd Inr pv o2 show ?thesis by auto
    next
      case ok: (Inr u)
      have rest: "prog_pairs dev (i + 2) rest h2 = (h', r)" using "3.prems"(4) rd Inr pv ok by simp
      have pre: "even (i + 2)" "i + 2 + length rest \<le> 2048" "even (length rest)" using "3.prems"(1-3) by simp_all
      note ih = "3.IH"(1) [OF pre rest]
      have "only_at ?A (fuse h2) (fuse h')" using ih unfolding area by (auto simp: only_at_def)
      from only_at_trans [OF o2 this] have o3: "only_at ?A (fuse h) (fuse h')" .
      have out: "?a \<notin> data_area (i + 2) (length rest)" "?a + 1 \<notin> data_area (i + 2) (length rest)"
        using below_data_area [of i "i + 2" "length rest"] below_data_area [of "Suc i" "i + 2" "length rest"]
          "3.prems"(2) by (simp_all add: add.commute)
      then have first: "fuse h' ?a = d0" "fuse h' (?a + 1) = d1" using ih pf ok by (auto simp: only_at_def)
      have "fuse h' (of_nat (i + k)) = (d0 # d1 # rest) ! k" if "r = Inr ()" "k < length (d0 # d1 # rest)" for k
      proof (cases k)
        case 0
        then show ?thesis using first(1) by simp
      next
        case (Suc k1)
        show ?thesis
        proof (cases k1)
          case 0
          then show ?thesis using first(2) Suc by (simp add: add.commute)
        next
          case (Suc k2)
          then have "fuse h' (of_nat (i + 2 + k2)) = rest ! k2" using ih that \<open>k = Suc k1\<close> by auto
          moreover have "i + k = i + 2 + k2" using Suc \<open>k = Suc k1\<close> by simp
          ultimately show ?thesis using Suc \<open>k = Suc k1\<close> by simp
        qed
      qed
      with o3 show ?thesis by blast
    qed
  qed
qed auto

end
