(* ===== verification/Otp_Properties.thy ===== *)
theory Otp_Properties
  imports Otp_Fuses
begin

unbundle bit_operations_syntax

text \<open>
  The properties of the OTP driver: exactness of a successful programming of data, success on a
  device that carries out every command, and the effect of two mistakes in the driver. A bank of
  fuses that meets the device contract, with the number of polls that each of the next commands takes,
  serves as the concrete device.
\<close>

section \<open>A bank of fuses\<close>

record bank =
  bk_fuse :: "u32 \<Rightarrow> u32"
  bk_addr :: u32
  bk_d0 :: u32
  bk_d1 :: u32
  bk_late :: "nat list"
  bk_busy :: nat

fun bank_write :: "otp_reg \<Rightarrow> u32 \<Rightarrow> bank \<Rightarrow> bank" where
  "bank_write SEC010 v h = h\<lparr>bk_addr := v\<rparr>"
| "bank_write SEC020 v h = h\<lparr>bk_d0 := v\<rparr>"
| "bank_write SEC004 v h =
     (let h = h\<lparr>bk_late := tl (bk_late h), bk_busy := (if bk_late h = [] then 0 else hd (bk_late h))\<rparr>
      in if v = OTP_READ_CMD then h\<lparr>bk_d0 := bk_fuse h (bk_addr h), bk_d1 := bk_fuse h (bk_addr h + 1)\<rparr>
         else if v = OTP_PROG_CMD then h\<lparr>bk_fuse := (bk_fuse h)(bk_addr h := burn (bk_addr h) (bk_d0 h) (bk_fuse h (bk_addr h)))\<rparr>
         else h)"
| "bank_write _ v h = h"

fun bank_read :: "otp_reg \<Rightarrow> bank \<Rightarrow> bank \<times> u32" where
  "bank_read SEC014 h = (h\<lparr>bk_busy := bk_busy h - 1\<rparr>, of_bool (bk_busy h = 0))"
| "bank_read SEC020 h = (h, if bk_busy h = 0 then bk_d0 h else 0)"
| "bank_read SEC024 h = (h, if bk_busy h = 0 then bk_d1 h else 0)"
| "bank_read _ h = (h, 0)"

definition bank_dev :: "bank otp_dev" where
  "bank_dev = \<lparr>reg_write = bank_write, reg_read = bank_read, otpctrl_sts = (\<lambda>s. s = 1), otpmemory_sts = (\<lambda>s. s = 1),
     prot_key = id, sec_boot_key_number = ucast\<rparr>"

definition blank_bank :: bank where
  "blank_bank = \<lparr>bk_fuse = (\<lambda>a. if a AND 1 = 0 then 0 else - 1), bk_addr = 0, bk_d0 = 0, bk_d1 = 0, bk_late = [], bk_busy = 0\<rparr>"


lemma bank_polls: "polls bank_dev n h = h\<lparr>bk_busy := bk_busy h - n\<rparr>"
  by (induction n arbitrary: h) (simp_all add: bank_dev_def)

lemma bank_fuse_device: "fuse_device bank_dev bk_fuse"
proof -
  have w: "bk_fuse (bank_write r v h) = bk_fuse h" if "\<not> (r = SEC004 \<and> v = OTP_PROG_CMD)" for r v h
    using that by (cases r) (auto simp: Let_def)
  have r: "bk_fuse (fst (bank_read r h)) = bk_fuse h" for r h by (cases r) simp_all
  show ?thesis
    unfolding fuse_device_def bank_polls
    using w r by (simp add: bank_dev_def Let_def OTP_READ_CMD_def OTP_PROG_CMD_def)
qed

section \<open>Programming data\<close>

text \<open>
  C24: A successful programming of OTP data is exact. On a device that meets the contract
  \<open>fuse_device\<close> (only a program command changes fuses, and only by burning the masked bits of the
  addressed word, or not at all; after a read command the data registers hold the addressed pair
  of words once a status read has shown the controller and the memory idle): if \<open>otp_prog_data\<close>
  returns success, every word of the requested range of the data region holds exactly the
  requested word, and no word outside the range has changed; if it returns an error, still no word
  outside the range has changed. This holds whichever program commands took and whichever were
  repeated: it rests on the completion checks and the read-back verification of the driver.
\<close>

theorem otp_prog_data_exact:
  assumes "fuse_device dev fuse" "otp_prog_data dev offset data h = (h', r)"
  shows "only_at (data_area offset (length data)) (fuse h) (fuse h')
    \<and> (r = Inr () \<longrightarrow> (\<forall>k<length data. fuse h' (of_nat (offset + k)) = data ! k))"
proof (cases "length data + offset > OTP_MEM_LIMIT_DATA \<or> offset mod 4 \<noteq> 0 \<or> length data mod 2 \<noteq> 0")
  case True
  with assms(2) show ?thesis by (auto simp: otp_prog_data_def split: if_splits)
next
  case False
  obtain h1 r1 where p: "prog_pairs dev offset data (otp_unlock_reg dev h) = (h1, r1)"
    by (cases "prog_pairs dev offset data (otp_unlock_reg dev h)")
  have "even offset" "even (length data)" "offset + length data \<le> 2048"
    using False by (auto simp: OTP_MEM_LIMIT_DATA_def)
  from prog_pairs_fuses [OF assms(1) this(1,3,2) p] assms(2) False p show ?thesis
    by (auto simp: otp_prog_data_def fuse_quiet [OF assms(1)])
qed

theorem otp_prog_data_exact_witness:
  "let (h', r) = otp_prog_data bank_dev 0 [1, 0xFFFFFFFE] blank_bank
   in r = Inr () \<and> bk_fuse h' 0 = 1 \<and> bk_fuse h' 1 = 0xFFFFFFFE \<and> bk_fuse h' 2 = 0"
proof -
  obtain h' r where p: "otp_prog_data bank_dev 0 [1, 0xFFFFFFFE] blank_bank = (h', r)"
    by (cases "otp_prog_data bank_dev 0 [1, 0xFFFFFFFE] blank_bank")
  have "snd (otp_prog_data bank_dev 0 [1, 0xFFFFFFFE] blank_bank) = Inr ()" by code_simp
  with p have r: "r = Inr ()" by simp
  have "2 \<notin> data_area 0 (length [1 :: u32, 0xFFFFFFFE])" by (auto simp: data_area_def less_Suc_eq)
  note ex = otp_prog_data_exact [OF bank_fuse_device p]
  then have "bk_fuse h' 2 = bk_fuse blank_bank 2" using \<open>2 \<notin> _\<close> by (simp add: only_at_def)
  moreover have "bk_fuse blank_bank 2 = 0" by (simp add: blank_bank_def)
  moreover have "\<forall>k<length [1 :: u32, 0xFFFFFFFE]. bk_fuse h' (of_nat (0 + k)) = [1, 0xFFFFFFFE] ! k" using ex r by blast
  then have "bk_fuse h' 0 = 1" "bk_fuse h' 1 = 0xFFFFFFFE" by (auto dest: spec [of _ "0 :: nat"] spec [of _ "1 :: nat"])
  ultimately show ?thesis by (simp add: p r)
qed

section \<open>A device that carries out every command\<close>

text \<open>
  The states \<open>good\<close> of a prompt device: closed under register accesses, the status is idle whenever it
  is read, and a program command takes.
\<close>

definition prompt_device :: "'h otp_dev \<Rightarrow> ('h \<Rightarrow> u32 \<Rightarrow> u32) \<Rightarrow> ('h \<Rightarrow> bool) \<Rightarrow> bool" where
  "prompt_device dev fuse good \<longleftrightarrow> fuse_device dev fuse
   \<and> (\<forall>h r v. good h \<longrightarrow> good (reg_write dev r v h)) \<and> (\<forall>h r. good h \<longrightarrow> good (fst (reg_read dev r h)))
   \<and> (\<forall>h. good h \<longrightarrow> otpctrl_sts dev (snd (reg_read dev SEC014 h)) \<and> otpmemory_sts dev (snd (reg_read dev SEC014 h)))
   \<and> (\<forall>a m h. good h \<longrightarrow>
        fuse (reg_write dev SEC004 OTP_PROG_CMD (reg_write dev SEC020 m (reg_write dev SEC010 a h)))
          = (fuse h)(a := burn a m (fuse h a)))"

lemma prompt_deviceD:
  assumes "prompt_device dev fuse good"
  shows "fuse_device dev fuse" "good h \<Longrightarrow> good (reg_write dev r v h)" "good h \<Longrightarrow> good (fst (reg_read dev r h))"
    "good h \<Longrightarrow> wait_complete dev h = (fst (reg_read dev SEC014 h), True)"
    "good h \<Longrightarrow> fuse (reg_write dev SEC004 OTP_PROG_CMD (reg_write dev SEC020 m (reg_write dev SEC010 a h)))
          = (fuse h)(a := burn a m (fuse h a))"
proof -
  note d = assms [unfolded prompt_device_def]
  show "fuse_device dev fuse" "good h \<Longrightarrow> good (reg_write dev r v h)" "good h \<Longrightarrow> good (fst (reg_read dev r h))"
    "good h \<Longrightarrow> fuse (reg_write dev SEC004 OTP_PROG_CMD (reg_write dev SEC020 m (reg_write dev SEC010 a h)))
          = (fuse h)(a := burn a m (fuse h a))"
    using d by (simp_all)
  show "wait_complete dev h = (fst (reg_read dev SEC014 h), True)" if "good h"
  proof -
    have "otpctrl_sts dev (snd (reg_read dev SEC014 h))" "otpmemory_sts dev (snd (reg_read dev SEC014 h))"
      using d that by simp_all
    moreover have "wait_complete dev h = wait_loop dev (Suc 999) h" by (simp add: wait_complete_def)
    ultimately show ?thesis by (simp only: wait_loop.simps) (auto split: prod.split)
  qed
qed

lemma prompt_write:
  assumes "prompt_device dev fuse good" "good h"
  shows "snd (otp_write dev a d h)" "good (fst (otp_write dev a d h))" "fuse (fst (otp_write dev a d h)) = fuse h"
proof -
  show "snd (otp_write dev a d h)" "good (fst (otp_write dev a d h))"
    using assms(2) by (simp_all add: otp_write_def prompt_deviceD(2-4) [OF assms(1)])
  show "fuse (fst (otp_write dev a d h)) = fuse h" by (rule fuse_otp_write [OF prompt_deviceD(1) [OF assms(1)]])
qed

lemma prompt_soak:
  assumes "prompt_device dev fuse good" "good h"
  shows "good (otp_soak dev mode h)" "good (otp_lock_reg dev h)" "good (otp_unlock_reg dev h)"
proof -
  note pd = prompt_deviceD(2-4) [OF assms(1)]
  have "good (soak_writes dev ws h)" for ws
    using assms(2) unfolding soak_writes_def
    by (induction ws arbitrary: h) (simp_all add: prompt_write(2) [OF assms(1)])
  then show "good (otp_soak dev mode h)" by (cases mode) (simp_all add: otp_soak_def pd)
  show "good (otp_lock_reg dev h)" "good (otp_unlock_reg dev h)"
    using assms(2) by (simp_all add: otp_lock_reg_def otp_unlock_reg_def pd)
qed

lemma prompt_read:
  assumes "prompt_device dev fuse good" "good h" "even a"
  shows "\<exists>h'. otp_read_data dev a [x, y] h = (h', Inr [fuse h a, fuse h (a + 1)]) \<and> good h' \<and> fuse h' = fuse h"
proof -
  obtain h' r where r: "otp_read_data dev a [x, y] h = (h', r)" by (cases "otp_read_data dev a [x, y] h")
  note pd = prompt_deviceD(2-4) [OF assms(1)]
  let ?h1 = "fst (reg_read dev SEC014 (reg_write dev SEC004 OTP_READ_CMD (reg_write dev SEC010 a h)))"
  have g1: "good ?h1" using assms(2) by (simp add: pd)
  then have "good (fst (reg_read dev SEC024 (fst (reg_read dev SEC020 ?h1))))" by (simp add: pd(2))
  then have "good h'" "\<exists>ret. r = Inr ret"
    using r assms(2) by (auto simp: otp_read_data_def Let_def pd case_prod_unfold)
  with read_data [OF prompt_deviceD(1) [OF assms(1)] assms(3) r] r show ?thesis by auto
qed

lemma prompt_prog:
  assumes "prompt_device dev fuse good" "good h"
  shows "\<exists>h'. otp_prog dev a m h = (h', Inr ()) \<and> good h' \<and> fuse h' = (fuse h)(a := burn a m (fuse h a))"
proof -
  note pd = prompt_deviceD(2-5) [OF assms(1)] and w = prompt_write [OF assms, of 0 m]
  obtain h1 where h1: "otp_write dev 0 m h = (h1, True)" "good h1" "fuse h1 = fuse h"
    using w by (cases "otp_write dev 0 m h") auto
  let ?h2 = "reg_write dev SEC004 OTP_PROG_CMD (reg_write dev SEC020 m (reg_write dev SEC010 a h1))"
  have "good ?h2" "wait_complete dev ?h2 = (fst (reg_read dev SEC014 ?h2), True)"
    using h1(2) pd by simp_all
  then show ?thesis
    using h1 pd(4) [OF h1(2), of m a] fuse_deviceD(2) [OF prompt_deviceD(1) [OF assms(1)]] pd(2)
    by (simp add: otp_prog_def)
qed

text \<open>What programming a word makes of it: the selected bits of the value, in the direction of the address.\<close>

definition programmed :: "u32 \<Rightarrow> u32 \<Rightarrow> u32 \<Rightarrow> nat list \<Rightarrow> u32 \<Rightarrow> u32 \<Rightarrow> bool" where
  "programmed v g a ps w w' \<longleftrightarrow>
     (\<forall>n<32. bit w' n = (if n \<in> set ps \<and> \<not> bit g n \<and> bit v n = even a then even a else bit w n))"

lemma bit_burn:
  assumes "n < 32" "p < 32"
  shows "bit (burn a (if even a then NOT (push_bit p 1) else push_bit p 1) w) n = (if n = p then even a else bit w n)"
  using assms by (auto simp: burn_def even_and_1 bit_simps)

lemma prompt_prog_bits:
  assumes "prompt_device dev fuse good" "good h" "\<forall>p \<in> set ps. p < 32"
  shows "\<exists>h'. prog_dw_bits dev v g a ps h = (h', Inr ()) \<and> good h'
    \<and> (\<exists>w'. fuse h' = (fuse h)(a := w') \<and> programmed v g a ps (fuse h a) w')"
  using assms(2,3)
proof (induction ps arbitrary: h)
  case Nil
  have "fuse h = (fuse h)(a := fuse h a)" by simp
  moreover have "programmed v g a [] (fuse h a) (fuse h a)" by (simp add: programmed_def)
  ultimately have "\<exists>w'. fuse h = (fuse h)(a := w') \<and> programmed v g a [] (fuse h a) w'" by blast
  with Nil show ?case unfolding prog_dw_bits.simps by blast
next
  case (Cons p ps)
  show ?case
  proof (cases "bit g p \<or> bit v p \<noteq> even a")
    case True
    then have eq: "prog_dw_bits dev v g a (p # ps) h = prog_dw_bits dev v g a ps h"
      by (auto simp: Let_def even_and_1 bit_shift_1)
    have "(n \<in> set (p # ps) \<and> \<not> bit g n \<and> bit v n = even a) = (n \<in> set ps \<and> \<not> bit g n \<and> bit v n = even a)" for n
      using True by (cases "n = p"; cases "bit g p"; cases "even a") auto
    then have "programmed v g a (p # ps) w w' = programmed v g a ps w w'" for w w'
      by (simp only: programmed_def)
    with Cons.IH [of h] Cons.prems eq show ?thesis by simp
  next
    case False
    define m where "m = (if even a then NOT (push_bit p 1) else push_bit p (1 :: u32))"
    from prompt_prog [OF assms(1) Cons.prems(1), of a m] obtain h1 where
      h1: "otp_prog dev a m h = (h1, Inr ())" "good h1" "fuse h1 = (fuse h)(a := burn a m (fuse h a))" by blast
    have eq: "prog_dw_bits dev v g a (p # ps) h = prog_dw_bits dev v g a ps h1"
      using False h1(1) by (simp add: Let_def even_and_1 bit_shift_1 m_def)
    have "\<forall>p\<in>set ps. p < 32" using Cons.prems(2) by simp
    from Cons.IH [OF h1(2) this] obtain h' w' where
      ih: "prog_dw_bits dev v g a ps h1 = (h', Inr ())" "good h'" "fuse h' = (fuse h1)(a := w')"
        "programmed v g a ps (fuse h1 a) w'" by blast
    have "programmed v g a (p # ps) (fuse h a) w'"
      unfolding programmed_def
    proof (intro allI impI)
      fix n :: nat assume n: "n < 32"
      have "bit (fuse h1 a) n = (if n = p then even a else bit (fuse h a) n)"
        using bit_burn [OF n, of p a "fuse h a"] Cons.prems(2) by (simp add: h1(3) m_def)
      with ih(4) n False show "bit w' n = (if n \<in> set (p # ps) \<and> \<not> bit g n \<and> bit v n = even a then even a
          else bit (fuse h a) n)" by (auto simp: programmed_def)
    qed
    moreover have "fuse h' = (fuse h)(a := w')" by (simp add: ih(3) h1(3))
    moreover have "prog_dw_bits dev v g a (p # ps) h = (h', Inr ())" using eq ih(1) by (rule trans)
    ultimately show ?thesis using ih(2) by blast
  qed
qed

lemma prompt_prog_dw:
  assumes "prompt_device dev fuse good" "good h"
  shows "\<exists>h' w'. otp_prog_dw dev v g a h = (h', Inr ()) \<and> good h' \<and> fuse h' = (fuse h)(a := w')
    \<and> programmed v g a [0..<32] (fuse h a) w'"
  using prompt_prog_bits [OF assms, of "[0..<32]" v g a] unfolding otp_prog_dw_def by auto

lemma prompt_verify_dw:
  assumes "prompt_device dev fuse good" "good h" "a < 0x8000" "d AND NOT g = fuse h a AND NOT g"
  shows "\<exists>h' c'. verify_dw dev a d g c h = (h', True, c') \<and> good h' \<and> fuse h' = fuse h"
proof -
  let ?b = "if even a then a else a - 1"
  have "even ?b" by simp
  from prompt_read [OF assms(1,2) this, of 0 0] obtain h' where
    r: "otp_read_data dev ?b [0, 0] h = (h', Inr [fuse h ?b, fuse h (?b + 1)])" "good h'" "fuse h' = fuse h" by blast
  then show ?thesis
    using assms(4) by (auto simp: verify_dw_def Let_def masked_addr_simp [OF assms(3)] even_and_1)
qed

lemma prompt_verify:
  assumes "prompt_device dev fuse good" "good h" "even a" "a < 0x7000" "pair_holds a [d0, d1] [g0, g1] p0 p1 (fuse h)"
  shows "\<exists>h' c'. verify_prog_words dev a [d0, d1] [g0, g1] p0 p1 [c0, c1] h = (h', True, c') \<and> good h' \<and> fuse h' = fuse h"
proof -
  have a: "a < 0x8000" "a + 1 < 0x8000" using assms(4) by unat_arith+
  note ph = assms(5) [unfolded pair_holds_def]
  consider (both) "p0" "p1" | (first) "p0" "\<not> p1" | (second) "\<not> p0" "p1" | (none) "\<not> p0" "\<not> p1" by blast
  then show ?thesis
  proof cases
    case both
    from prompt_read [OF assms(1-3), of 0 0] obtain h' where
      "otp_read_data dev a [0, 0] h = (h', Inr [fuse h a, fuse h (a + 1)])" "good h'" "fuse h' = fuse h" by blast
    with both ph show ?thesis
      by (simp add: verify_prog_words_def verify_2dw_def Let_def masked_addr_simp [OF a(1)])
  next
    case first
    with ph have "d0 AND NOT g0 = fuse h a AND NOT g0" by simp
    from prompt_verify_dw [OF assms(1,2) a(1) this, of c0] first show ?thesis
      by (auto simp: verify_prog_words_def)
  next
    case second
    with ph have "d1 AND NOT g1 = fuse h (a + 1) AND NOT g1" by simp
    from prompt_verify_dw [OF assms(1,2) a(2) this, of c1] second show ?thesis
      by (auto simp: verify_prog_words_def)
  next
    case none
    with assms(2) show ?thesis by (simp add: verify_prog_words_def)
  qed
qed

lemma valid_programmed:
  assumes "is_program_data_valid a w d" "programmed d 0 a [0..<32] w w'"
  shows "w' = d"
proof (rule bit_word_eqI)
  fix n assume n: "n < LENGTH(32)"
  have "if even a then bit w n \<longrightarrow> bit d n else bit d n \<longrightarrow> bit w n"
    using assms(1) n
    by (auto simp: is_program_data_valid_def list_all_iff even_and_1 bit_shift_1 simp flip: bit_iff_odd_drop_bit)
  moreover have "bit w' n = (if bit d n = even a then even a else bit w n)"
    using assms(2) n by (simp add: programmed_def)
  ultimately show "bit w' n = bit d n" by (auto split: if_splits)
qed

lemma prompt_prog_when:
  assumes "prompt_device dev fuse good" "good h" "c \<Longrightarrow> is_program_data_valid a (fuse h a) d" "c \<Longrightarrow> g = 0"
    "\<not> c \<Longrightarrow> fuse h a = d"
  shows "\<exists>h'. prog_when c dev d g a h = (h', Inr ()) \<and> good h' \<and> fuse h' = (fuse h)(a := d)"
proof (cases c)
  case True
  from prompt_prog_dw [OF assms(1,2), of d g a] obtain h' w' where
    "otp_prog_dw dev d g a h = (h', Inr ())" "good h'" "fuse h' = (fuse h)(a := w')" "programmed d g a [0..<32] (fuse h a) w'"
    by blast
  moreover from this have "w' = d" using valid_programmed assms(3,4) True by blast
  ultimately show ?thesis using True by (simp add: prog_when_def)
next
  case False
  with assms(2,5) show ?thesis by (auto simp: prog_when_def)
qed

lemma prompt_2dw:
  assumes "prompt_device dev fuse good" "good h" "even a" "a < 0x7000"
    "is_program_data_valid a (fuse h a) d0" "is_program_data_valid (a + 1) (fuse h (a + 1)) d1"
  shows "\<exists>h'. otp_prog_verify_2dw dev a [fuse h a, fuse h (a + 1)] [d0, d1] [0, 0] h = (h', Inr ()) \<and> good h'"
proof (cases "fuse h a = d0 \<and> fuse h (a + 1) = d1")
  case True
  with assms(2) show ?thesis by (simp add: otp_prog_verify_2dw_def Let_def)
next
  case False
  define p0 where "p0 = (fuse h a \<noteq> d0)"
  define p1 where "p1 = (fuse h (a + 1) \<noteq> d1)"
  define g0 :: u32 where "g0 = (if p0 then 0 else 0xffffffff)"
  define g1 :: u32 where "g1 = (if p1 then 0 else 0xffffffff)"
  note fd = prompt_deviceD(1) [OF assms(1)]
  let ?h0 = "otp_soak dev NormalProg h"
  have h0: "good ?h0" "fuse ?h0 = fuse h" using prompt_soak(1) [OF assms(1,2)] fuse_soak [OF fd] by simp_all
  obtain h1 where h1: "prog_when p0 dev d0 g0 a ?h0 = (h1, Inr ())" "good h1" "fuse h1 = (fuse h)(a := d0)"
    using prompt_prog_when [OF assms(1) h0(1), of p0 a d0 g0] assms(5) by (auto simp: h0 p0_def g0_def)
  obtain h2 where h2: "prog_when p1 dev d1 g1 (a + 1) h1 = (h2, Inr ())" "good h2"
      "fuse h2 = (fuse h)(a := d0, a + 1 := d1)"
    using prompt_prog_when [OF assms(1) h1(2), of p1 "a + 1" d1 g1] assms(6) by (auto simp: h1(3) p1_def g1_def)
  have "pair_holds a [d0, d1] [g0, g1] p0 p1 (fuse h2)" by (simp add: pair_holds_def h2(3))
  from prompt_verify [OF assms(1) h2(2) assms(3,4) this, of 0 0] obtain h3 c3 where
    h3: "verify_prog_words dev a [d0, d1] [g0, g1] p0 p1 [0, 0] h2 = (h3, True, c3)" "good h3" by blast
  have "prog_2dw_loop dev a [d0, d1] [g0, g1] p0 p1 (Suc 19) [0, 0] h2 = (h3, Inr True)"
    by (simp only: prog_2dw_loop.simps h3(1)) simp
  then have loop: "prog_2dw_loop dev a [d0, d1] [g0, g1] p0 p1 OTP_OP_RETRIES [0, 0] h2 = (h3, Inr True)"
    by (simp add: OTP_OP_RETRIES_def)
  have "otp_prog_verify_2dw dev a [fuse h a, fuse h (a + 1)] [d0, d1] [0, 0] h = (h3, Inr ())"
    using False assms(5,6) h1(1) h2(1) loop
    by (auto simp: p0_def [symmetric] p1_def [symmetric] prog_verify_2dw_eq [OF p0_def p1_def g0_def g1_def])
  with h3(2) show ?thesis by blast
qed

definition programmable :: "(u32 \<Rightarrow> u32) \<Rightarrow> nat \<Rightarrow> u32 list \<Rightarrow> bool" where
  "programmable f offset data \<longleftrightarrow>
     (\<forall>k<length data. is_program_data_valid (of_nat (offset + k)) (f (of_nat (offset + k))) (data ! k))"

lemma prompt_pairs:
  assumes "prompt_device dev fuse good" "good h" "even i" "i + length data \<le> 2048" "even (length data)"
    "programmable (fuse h) i data"
  shows "\<exists>h'. prog_pairs dev i data h = (h', Inr ()) \<and> good h'"
  using assms(2-6)
proof (induction data arbitrary: i h rule: induct_list012)
  case (3 d0 d1 rest)
  let ?a = "of_nat i :: u32"
  have a: "even ?a" "?a < 0x7000"
    using "3.prems"(2,3) by (simp_all add: even_of_nat_u32 word_less_nat_alt unat_of_nat take_bit_nat_eq_self)
  from prompt_read [OF assms(1) "3.prems"(1) a(1), of 0 0] obtain h1 where
    r: "otp_read_data dev ?a [0, 0] h = (h1, Inr [fuse h ?a, fuse h (?a + 1)])" "good h1" "fuse h1 = fuse h" by blast
  have v: "is_program_data_valid ?a (fuse h1 ?a) d0" "is_program_data_valid (?a + 1) (fuse h1 (?a + 1)) d1"
    using "3.prems"(5) unfolding programmable_def r(3)
    by (auto dest: spec [of _ "0 :: nat"] spec [of _ "1 :: nat"] simp: add.commute)
  from prompt_2dw [OF assms(1) r(2) a v] obtain h2 where
    h2: "otp_prog_verify_2dw dev ?a [fuse h1 ?a, fuse h1 (?a + 1)] [d0, d1] [0, 0] h1 = (h2, Inr ())" "good h2" by blast
  note pf = prog_verify_2dw_fuses [OF prompt_deviceD(1) [OF assms(1)] a h2(1)]
  have "fuse h2 (of_nat (i + 2 + k)) = fuse h (of_nat (i + 2 + k))" if "k < length rest" for k
  proof -
    have "of_nat (i + 2 + k) \<noteq> ?a" "of_nat (i + 2 + k) \<noteq> ?a + 1"
      using "3.prems"(3) that of_nat_u32_inj [of "i + 2 + k" i] of_nat_u32_inj [of "i + 2 + k" "Suc i"]
      by (simp_all add: add.commute)
    then show ?thesis using pf r(3) by (auto simp: only_at_def)
  qed
  then have "programmable (fuse h2) (i + 2) rest"
    using "3.prems"(5) unfolding programmable_def
    by (metis Suc_less_eq add_2_eq_Suc' add_Suc_right add_Suc_shift length_Cons nth_Cons_Suc)
  from "3.IH"(1) [OF h2(2) _ _ _ this] "3.prems"(2-4) r h2(1) show ?case by auto
qed auto

text \<open>
  C25: OTP data can be programmed whenever the fuses allow it. On a device that completes every command and on
  which every program command takes, \<open>otp_prog_data\<close> on an aligned range of the data region
  succeeds if no requested word needs a burnt fuse taken back, and then the range holds the data.\<close>

theorem otp_prog_data_succeeds:
  assumes "prompt_device dev fuse good" "good h" "offset mod 4 = 0" "offset + length data \<le> 2048"
    "even (length data)" "programmable (fuse h) offset data"
  shows "\<exists>h'. otp_prog_data dev offset data h = (h', Inr ())
    \<and> (\<forall>k<length data. fuse h' (of_nat (offset + k)) = data ! k)"
proof -
  note fd = prompt_deviceD(1) [OF assms(1)]
  have h0: "good (otp_unlock_reg dev h)" "programmable (fuse (otp_unlock_reg dev h)) offset data" "even offset"
    using prompt_soak(3) [OF assms(1,2)] assms(3,6) fuse_lock(2) [OF fd] by auto
  from prompt_pairs [OF assms(1) h0(1,3) assms(4,5) h0(2)] obtain h1 where
    h1: "prog_pairs dev offset data (otp_unlock_reg dev h) = (h1, Inr ())" by blast
  have "\<forall>k<length data. fuse h1 (of_nat (offset + k)) = data ! k"
    using prog_pairs_fuses [OF fd h0(3) assms(4,5) h1] by simp
  then show ?thesis
    using assms(3-5) h1 by (auto simp: otp_prog_data_def OTP_MEM_LIMIT_DATA_def fuse_quiet [OF fd])
qed

definition bank_good :: "bank \<Rightarrow> bool" where
  "bank_good h \<longleftrightarrow> bk_late h = [] \<and> bk_busy h = 0"

lemma bank_prompt: "prompt_device bank_dev bk_fuse bank_good"
proof -
  have w: "bank_good (bank_write r v h)" if "bank_good h" for r v h
    using that by (cases r) (auto simp: bank_good_def Let_def)
  have r: "bank_good (fst (bank_read r h))" if "bank_good h" for r h
    using that by (cases r) (simp_all add: bank_good_def)
  show ?thesis
    unfolding prompt_device_def using w r bank_fuse_device
    by (auto simp: bank_dev_def bank_good_def Let_def OTP_READ_CMD_def OTP_PROG_CMD_def)
qed

theorem otp_prog_data_succeeds_witness:
  "\<exists>h'. otp_prog_data bank_dev 4 [5, 0xFFFF0000] blank_bank = (h', Inr ()) \<and> bk_fuse h' 5 = 0xFFFF0000"
proof -
  have "programmable (bk_fuse blank_bank) 4 [5, 0xFFFF0000]"
    unfolding programmable_def by (simp add: less_Suc_eq all_conj_distrib) code_simp
  moreover have "bank_good blank_bank" by (simp add: bank_good_def blank_bank_def)
  ultimately show ?thesis
    using otp_prog_data_succeeds [OF bank_prompt, of blank_bank 4 "[5, 0xFFFF0000]"]
    by (auto dest: spec [of _ "1 :: nat"])
qed

section \<open>A failed read while verifying\<close>

lemma failed_read_verify:
  assumes "even a" "a < 0x7000" "otp_read_data dev a [0, 0] h = (h1, Inl e)"
  shows "verify_prog_words dev a [d0, d1] [g0, g1] p0 True [c0, c1] h = (h1, False, [c0, c1])"
proof -
  have a: "a < 0x8000" "a + 1 < 0x8000" using assms(2) by unat_arith+
  have odd: "\<not> even (a + 1)" using assms(1) by simp
  have "verify_dw dev (a + 1) d1 g1 c1 h = (h1, False, c1)"
    using assms(3) odd by (simp add: verify_dw_def Let_def masked_addr_simp [OF a(2)] even_and_1 del: even_add)
  moreover have "verify_2dw dev a [d0, d1] [g0, g1] 2 [c0, c1] h = (h1, False, [c0, c1])"
    using assms(3) by (simp add: verify_2dw_def Let_def masked_addr_simp [OF a(1)])
  ultimately show ?thesis by (simp add: verify_prog_words_def)
qed

lemma zero_stays_zero: "only_at A f f' \<Longrightarrow> odd a \<Longrightarrow> f a = 0 \<Longrightarrow> f' a = 0"
  by (rule bit_word_eqI) (auto simp: only_at_def)

text \<open>
  One read that times out while an odd word is verified burns the whole word. The verification loop
  starts with both comparison words zero, and a failed read leaves them so; zero means that nothing is
  to be repeated for an even word but that every bit is to be repeated for an odd one. So if the first
  read of the loop fails and the device then works again, every fuse of the odd word is blown,
  whatever the requested word was.\<close>

theorem stale_compare_burns_word:
  assumes "prompt_device dev fuse good" "even a" "a < 0x7000"
    "otp_read_data dev a [0, 0] h = (h1, Inl e)" "good h1"
    "prog_2dw_loop dev a [d0, d1] [g0, 0] p0 True (Suc n) [0, 0] h = (h', r)"
  shows "fuse h' (a + 1) = 0"
proof -
  note fd = prompt_deviceD(1) [OF assms(1)]
  have odd: "odd (a + 1)" using assms(2) by simp
  let ?h2 = "otp_soak dev SoakProg h1"
  have good2: "good ?h2" by (rule prompt_soak(1) [OF assms(1,5)])
  from prompt_prog_dw [OF assms(1) good2, of 0 0 "a + 1"] obtain h3 w' where
    h3: "otp_prog_dw dev 0 0 (a + 1) ?h2 = (h3, Inr ())" "fuse h3 = (fuse ?h2)(a + 1 := w')"
       "programmed 0 0 (a + 1) [0..<32] (fuse ?h2 (a + 1)) w'" by blast
  have "w' = 0" using h3(3) odd by (intro bit_word_eqI) (auto simp: programmed_def)
  with h3(2) have zero: "fuse h3 (a + 1) = 0" by simp
  obtain h4 ok c4 where v: "verify_prog_words dev a [d0, d1] [g0, 0] p0 True [0, 0] h3 = (h4, ok, c4)"
    by (cases "verify_prog_words dev a [d0, d1] [g0, 0] p0 True [0, 0] h3") auto
  note vf = verify_pair [OF fd assms(2,3) v]
  have loop: "(h', r) = (if ok then (h4, Inr True)
      else prog_2dw_loop dev a [d0, d1] [g0, 0] p0 True n c4 (otp_soak dev NormalProg h4))"
    using assms(6) failed_read_verify [OF assms(2-4), of d0 d1 g0 0 p0 0 0] h3(1) v
    by (simp add: prog_when_def split: bool.splits)
  show ?thesis
  proof (cases ok)
    case True
    with loop vf zero show ?thesis by simp
  next
    case False
    with loop have l: "prog_2dw_loop dev a [d0, d1] [g0, 0] p0 True n c4 (otp_soak dev NormalProg h4) = (h', r)" by simp
    have "length c4 = 2" "fuse (otp_soak dev NormalProg h4) (a + 1) = 0"
      using vf zero fuse_soak [OF fd] by simp_all
    with zero_stays_zero [OF conjunct1 [OF prog_2dw_loop_fuses [OF fd assms(2,3) l]] odd] show ?thesis by simp
  qed
qed

lemma bank_wait: "wait_complete bank_dev h = (h\<lparr>bk_busy := bk_busy h - 1000\<rparr>, bk_busy h < 1000)"
proof -
  have "wait_loop bank_dev n h = (h\<lparr>bk_busy := bk_busy h - n\<rparr>, bk_busy h < n)" for n
    by (induction n arbitrary: h) (auto simp: bank_dev_def)
  then show ?thesis by (simp add: wait_complete_def)
qed

text \<open>Requested is one burnt bit in word 1; one late command while it is verified blows all of its fuses.\<close>

theorem stale_compare_burns_word_witness:
  "bk_fuse (fst (prog_2dw_loop bank_dev 0 [0, 0xFFFFFFFE] [0xFFFFFFFF, 0] False True (Suc 19) [0, 0]
     (blank_bank\<lparr>bk_late := [1000]\<rparr>))) 1 = 0"
proof -
  let ?h = "blank_bank\<lparr>bk_late := [1000]\<rparr>"
  obtain h1 where r: "otp_read_data bank_dev 0 [0, 0] ?h = (h1, Inl ReadFailed)" "bank_good h1"
    by (simp add: otp_read_data_def bank_wait bank_good_def)
      (simp add: bank_dev_def blank_bank_def Let_def OTP_READ_CMD_def)
  obtain h' res where p: "prog_2dw_loop bank_dev 0 [0, 0xFFFFFFFE] [0xFFFFFFFF, 0] False True (Suc 19) [0, 0] ?h = (h', res)"
    by (cases "prog_2dw_loop bank_dev 0 [0, 0xFFFFFFFE] [0xFFFFFFFF, 0] False True (Suc 19) [0, 0] ?h") blast
  have "(0 :: u32) < 0x7000" by simp
  from stale_compare_burns_word [OF bank_prompt _ this r p] show ?thesis by (simp only: p) simp
qed

section \<open>Enabling the protection of a second region\<close>

lemma prompt_conf:
  assumes "prompt_device dev fuse good" "good h"
  shows "\<exists>h'. otp_read_conf_idx dev i h = (h', Inr (fuse h (conf_addr i))) \<and> good h' \<and> fuse h' = fuse h"
proof -
  obtain h' r where r: "otp_read_conf_idx dev i h = (h', r)" by (cases "otp_read_conf_idx dev i h")
  note pd = prompt_deviceD(2-4) [OF assms(1)]
  let ?h1 = "fst (reg_read dev SEC014 (reg_write dev SEC004 OTP_READ_CMD (reg_write dev SEC010 (conf_addr i) h)))"
  have g1: "good ?h1" using assms(2) by (simp add: pd)
  then have "good (fst (reg_read dev SEC020 ?h1))" by (simp add: pd(2))
  then have "good h'" "\<exists>v. r = Inr v"
    using r assms(2) by (auto simp: otp_read_conf_idx_def otp_read_conf_def Let_def pd case_prod_unfold)
  with read_conf_idx [OF prompt_deviceD(1) [OF assms(1)] r] r show ?thesis by auto
qed

text \<open>A word that holds more than was asked for fails every verification, and the retries change nothing.\<close>

lemma surplus_programmed:
  assumes "even a" "programmed (d XOR x) 0 a [0..<32] x x'" "x AND d = d"
  shows "x' = x"
proof (rule bit_word_eqI)
  fix n assume n: "n < LENGTH(32)"
  have "bit (x AND d) n = bit d n" by (simp add: assms(3))
  then have "bit d n \<longrightarrow> bit x n" by (auto simp: bit_simps)
  then show "bit x' n = bit x n" using assms(1,2) n by (auto simp: programmed_def bit_simps)
qed

lemma surplus_retry_fails:
  assumes "prompt_device dev fuse good" "good h" "even a" "a < 0x7000" "fuse h a AND d = d" "fuse h a \<noteq> d"
  shows "\<exists>h'. prog_retry_loop dev a d 0 n c h = (h', False) \<and> good h' \<and> fuse h' = fuse h"
  using assms(2,5,6)
proof (induction n arbitrary: c h)
  case (Suc n)
  note fd = prompt_deviceD(1) [OF assms(1)]
  have a8: "a < 0x8000" using assms(4) by unat_arith
  have ver: "\<exists>k'. verify_dw dev a d 0 c k = (k', False, d XOR fuse k a) \<and> good k' \<and> fuse k' = fuse k"
    if "good k" "fuse k a \<noteq> d" for c k
  proof -
    from prompt_read [OF assms(1) that(1) assms(3), of 0 0] obtain k' where
      "otp_read_data dev a [0, 0] k = (k', Inr [fuse k a, fuse k (a + 1)])" "good k'" "fuse k' = fuse k" by blast
    then show ?thesis using that(2) assms(3) by (auto simp: verify_dw_def Let_def masked_addr_simp [OF a8] even_and_1)
  qed
  from ver [OF Suc.prems(1,3), of c] obtain h1 where
    h1: "verify_dw dev a d 0 c h = (h1, False, d XOR fuse h a)" "good h1" "fuse h1 = fuse h" by blast
  let ?h2 = "otp_soak dev SoakProg h1"
  have h2: "good ?h2" "fuse ?h2 = fuse h" using prompt_soak(1) [OF assms(1) h1(2)] fuse_soak [OF fd] h1(3) by simp_all
  from prompt_prog_dw [OF assms(1) h2(1), of "d XOR fuse h a" 0 a] obtain h3 w' where
    h3: "otp_prog_dw dev (d XOR fuse h a) 0 a ?h2 = (h3, Inr ())" "good h3" "fuse h3 = (fuse ?h2)(a := w')"
      "programmed (d XOR fuse h a) 0 a [0..<32] (fuse ?h2 a) w'" by blast
  have "w' = fuse h a" using surplus_programmed [OF assms(3) _ Suc.prems(2)] h3(4) h2(2) by simp
  then have f3: "fuse h3 = fuse h" using h3(3) h2(2) by simp
  then have "fuse h3 a \<noteq> d" using Suc.prems(3) by simp
  from ver [OF h3(2) this, of "d XOR fuse h a"] obtain h4 where
    h4: "verify_dw dev a d 0 (d XOR fuse h a) h3 = (h4, False, d XOR fuse h3 a)" "good h4" "fuse h4 = fuse h3" by blast
  let ?h5 = "otp_soak dev NormalProg h4"
  have h5: "good ?h5" "fuse ?h5 = fuse h" using prompt_soak(1) [OF assms(1) h4(2)] fuse_soak [OF fd] h4(3) f3 by simp_all
  have "prog_retry_loop dev a d 0 (Suc n) c h = prog_retry_loop dev a d 0 n (d XOR fuse h3 a) ?h5"
    by (simp add: h1(1) h3(1) h4(1))
  with Suc.IH [OF h5(1), of "d XOR fuse h3 a"] h5(2) Suc.prems(2,3) show ?case by simp
qed auto

lemma prompt_prog_or:
  assumes "even a" "programmed v 0 a [0..<32] w w'"
  shows "w' = w OR v"
  by (rule bit_word_eqI) (use assms in \<open>auto simp: programmed_def bit_simps\<close>)

lemma flag_set_or: "flag_set w (a OR b) \<longleftrightarrow> flag_set w a \<and> flag_set w b"
proof -
  have "flag_set w v \<longleftrightarrow> (\<forall>n<LENGTH(32). bit v n \<longrightarrow> bit w n)" for v
    unfolding flag_set_def by (auto simp: bit_simps intro: bit_word_eqI) (metis bit_and_iff)
  then show ?thesis by (auto simp: bit_simps)
qed

lemma prompt_unprotected:
  assumes "prompt_device dev fuse good" "good h" "\<not> flag_set (fuse h (conf_addr 0)) (protection_value region)"
  shows "\<exists>h'. is_region_protected dev region h = (h', Inr False) \<and> good h' \<and> fuse h' = fuse h"
proof -
  note fd = prompt_deviceD(1) [OF assms(1)]
  from prompt_conf [OF assms(1) prompt_soak(3) [OF assms(1,2)], of 0] obtain h1 where
    h1: "otp_read_conf_idx dev 0 (otp_unlock_reg dev h) = (h1, Inr (fuse h (conf_addr 0)))" "good h1" "fuse h1 = fuse h"
    using fuse_lock(2) [OF fd] by metis
  with prompt_soak(2) [OF assms(1) h1(2)] assms(3) show ?thesis
    by (auto simp: is_region_protected_def protection_value_def flag_set_or fuse_lock [OF fd] split: otp_region.splits)
qed

lemma prompt_conf_surplus:
  assumes "prompt_device dev fuse good" "good h" "\<not> flag_set (fuse h (conf_addr 0)) v" "fuse h (conf_addr 0) OR v \<noteq> v"
  shows "\<exists>h'. otp_prog_conf dev 0 [v] h = (h', Inl WriteFailed) \<and> fuse h' = (fuse h)(0x800 := fuse h 0x800 OR v)"
proof -
  note fd = prompt_deviceD(1) [OF assms(1)] and soak = prompt_soak(1) [OF assms(1)]
  have ca: "conf_addr 0 = 0x800" by (simp add: conf_addr_def OTP_CONF_OFFSET_def)
  let ?h0 = "otp_soak dev SoakDefault (otp_unlock_reg dev h)"
  have "good ?h0" by (rule soak [OF prompt_soak(3) [OF assms(1,2)]])
  from prompt_conf [OF assms(1) this, of 0] obtain h1 where
    h1: "otp_read_conf_idx dev 0 ?h0 = (h1, Inr (fuse h 0x800))" "good h1" "fuse h1 = fuse h"
    by (auto simp: ca fuse_quiet [OF fd])
  from prompt_prog_dw [OF assms(1) soak [OF h1(2)], of v 0 "0x800" NormalProg] obtain h2 w where
    h2: "otp_prog_dw dev v 0 0x800 (otp_soak dev NormalProg h1) = (h2, Inr ())" "good h2" "fuse h2 = (fuse h)(0x800 := w)"
      "programmed v 0 0x800 [0..<32] (fuse h 0x800) w"
    by (auto simp: fuse_quiet [OF fd] h1(3))
  have w: "w = fuse h 0x800 OR v" using prompt_prog_or [OF _ h2(4)] by simp
  then have "fuse h2 0x800 AND v = v" "fuse h2 0x800 \<noteq> v" using assms(4) h2(3)
    by (simp_all add: ca)
  from surplus_retry_fails [OF assms(1) h2(2) _ _ this] obtain h3 where
    h3: "prog_retry_loop dev 0x800 v 0 OTP_OP_RETRIES 0 h2 = (h3, False)" "fuse h3 = fuse h2" by fastforce
  have "fuse h 0x800 \<noteq> v" using assms(3) by (auto simp: flag_set_def ca)
  with h1(1) h2(1) h3 w h2(3) show ?thesis
    by (simp add: otp_prog_conf_def otp_prog_verify_retry_def fuse_quiet [OF fd])
qed

text \<open>
  Protecting a second OTP region always reports a failure. If the configuration word 0 has a fuse blown
  that is not one of the region's own protection bits - for instance because another region is
  protected already - then on a device that carries out every command \<open>enable_region_protection\<close> for a
  region that is not yet protected blows the protection fuses of the region and returns \<open>WriteFailed\<close>: it
  verifies the whole word against the bits it added.\<close>

theorem second_protection_fails:
  assumes "prompt_device dev fuse good" "good h"
    "\<not> flag_set (fuse h (conf_addr 0)) (protection_value region)"
    "fuse h (conf_addr 0) OR protection_value region \<noteq> protection_value region"
  shows "\<exists>h'. enable_region_protection dev region h = (h', Inl WriteFailed)
    \<and> fuse h' (conf_addr 0) = fuse h (conf_addr 0) OR protection_value region"
proof -
  from prompt_unprotected [OF assms(1-3)] obtain h1 where
    h1: "is_region_protected dev region h = (h1, Inr False)" "good h1" "fuse h1 = fuse h" by blast
  have "conf_addr 0 = 0x800" by (simp add: conf_addr_def OTP_CONF_OFFSET_def)
  with prompt_conf_surplus [OF assms(1) h1(2), of "protection_value region"] h1 assms(3,4) show ?thesis
    by (auto simp: enable_region_protection_def)
qed

text \<open>With the straps protected, protecting the data region reports \<open>WriteFailed\<close>.\<close>

theorem second_protection_fails_witness:
  "\<exists>h'. enable_region_protection bank_dev RegionData (blank_bank\<lparr>bk_fuse := (\<lambda>_. 0)(0x800 := OTP_STRAP_PROT_ENABLE)\<rparr>)
     = (h', Inl WriteFailed)"
proof -
  let ?h = "blank_bank\<lparr>bk_fuse := (\<lambda>_. 0)(0x800 := OTP_STRAP_PROT_ENABLE)\<rparr>"
  have ca: "conf_addr 0 = 0x800" by (simp add: conf_addr_def OTP_CONF_OFFSET_def)
  have "bank_good ?h" by (simp add: bank_good_def blank_bank_def)
  moreover have "\<not> flag_set (bk_fuse ?h (conf_addr 0)) (protection_value RegionData)"
    "bk_fuse ?h (conf_addr 0) OR protection_value RegionData \<noteq> protection_value RegionData"
    by (simp_all add: ca flag_set_def protection_value_def OTP_STRAP_PROT_ENABLE_def OTP_USER_ECC_PROT_ENABLE_def
        OTP_SECURE_PROT_ENABLE_def)
  ultimately show ?thesis using second_protection_fails [OF bank_prompt] by blast
qed

section \<open>Programming the second SCU word alone\<close>

text \<open>
  \<open>otp_prog_scu_protect\<close> compares the words it is given with the current ones by their position in the request, not
  in the region. A request for the second word that equals the current first one therefore
  returns \<open>Ok\<close> without programming anything.
\<close>

theorem scu_protect_skips_word:
  assumes "prompt_device dev fuse good" "good h"
  shows "\<exists>h'. otp_prog_scu_protect dev 1 [fuse h (conf_addr 28)] h = (h', Inr ()) \<and> fuse h' = fuse h"
proof -
  from prompt_conf [OF assms, of 28] obtain h1 where
    h1: "otp_read_conf_idx dev 28 h = (h1, Inr (fuse h (conf_addr 28)))" "good h1" "fuse h1 = fuse h" by blast
  from prompt_conf [OF assms(1) h1(2), of 29] obtain h2 where
    h2: "otp_read_conf_idx dev 29 h1 = (h2, Inr (fuse h (conf_addr 29)))" "fuse h2 = fuse h"
    using h1(3) by auto
  then show ?thesis
    using h1 by (simp add: otp_prog_scu_protect_def fuse_quiet [OF prompt_deviceD(1) [OF assms(1)]])
qed

end
