(* ===== verification/Otp_Straps.thy ===== *)
theory Otp_Straps
  imports Otp_Properties
begin

unbundle bit_operations_syntax

text \<open>
  The strap bits of the OTP. A strap bit has six options, one fuse each in the configuration words 16 to 27;
  its value is the parity of the burnt options, so that it can be changed six times. The
  theory shows that \<open>otp_strap_status\<close> reports the fuses and that
  \<open>otp_prog_strap\<close> sets the requested bits and refuses an infeasible request before it burns a fuse.
\<close>

section \<open>Straps in the fuses\<close>

definition strap_fuse :: "(u32 \<Rightarrow> u32) \<Rightarrow> nat \<Rightarrow> nat \<Rightarrow> bool" where
  "strap_fuse f opt i = bit (f (conf_addr (of_nat (16 + 2 * opt + i div 32)))) (i mod 32)"

definition strap_value :: "(u32 \<Rightarrow> u32) \<Rightarrow> nat \<Rightarrow> bool" where
  "strap_value f i = odd (length (filter (\<lambda>opt. strap_fuse f opt i) [0..<6]))"

definition strap_locked :: "(u32 \<Rightarrow> u32) \<Rightarrow> nat \<Rightarrow> bool" where
  "strap_locked f i = bit (f (conf_addr (of_nat (30 + i div 32)))) (i mod 32)"

definition strap_used_up :: "(u32 \<Rightarrow> u32) \<Rightarrow> nat \<Rightarrow> bool" where
  "strap_used_up f i = list_all (\<lambda>opt. strap_fuse f opt i) [0..<6]"

definition strap_area :: "u32 set" where
  "strap_area = (\<lambda>k. conf_addr (of_nat k)) ` {16..<28}"

lemma div_mod_u32:
  assumes "k < 32"
  shows "(of_nat k :: u32) div 8 = of_nat (k div 8)" "(of_nat k :: u32) mod 8 = of_nat (k mod 8)"
  using assms by (simp_all add: word_unat_eq_iff unat_div unat_mod unat_of_nat)


lemma unat_conf_addr:
  assumes "k < 32"
  shows "unat (conf_addr (of_nat k)) = 2048 + 512 * (k div 8) + 2 * (k mod 8)"
proof -
  define q where "q = k div 8"
  define r where "r = k mod 8"
  have "q = 0 \<or> q = 1 \<or> q = 2 \<or> q = 3" "r = 0 \<or> r = 1 \<or> r = 2 \<or> r = 3 \<or> r = 4 \<or> r = 5 \<or> r = 6 \<or> r = 7"
    using assms unfolding q_def r_def by linarith+
  then have "unat (0x800 OR (of_nat q * 0x200) OR (of_nat r * 2 :: u32)) = 2048 + 512 * q + 2 * r"
    by (elim disjE) simp_all
  then show ?thesis using assms by (simp add: conf_addr_def OTP_CONF_OFFSET_def div_mod_u32 q_def r_def)
qed

lemma conf_addr_inj:
  assumes "m < 32" "n < 32"
  shows "(conf_addr (of_nat m) = conf_addr (of_nat n)) = (m = n)"
proof
  assume "conf_addr (of_nat m) = conf_addr (of_nat n)"
  then have eq: "512 * (m div 8) + 2 * (m mod 8) = 512 * (n div 8) + 2 * (n mod 8)"
    using unat_conf_addr [OF assms(1)] unat_conf_addr [OF assms(2)] by simp
  have lt: "2 * (m mod 8) < 512" "2 * (n mod 8) < 512" by (simp_all add: mod_less_divisor less_trans [of _ 16])
  from arg_cong [OF eq, of "\<lambda>x. x div 512"] lt have "m div 8 = n div 8" by (simp add: div_add1_eq)
  with eq have "m mod 8 = n mod 8" by simp
  with \<open>m div 8 = n div 8\<close> show "m = n" by (metis div_mult_mod_eq)
qed simp

section \<open>The status of the straps\<close>

lemma upd_straps_nth: "j < 64 \<Longrightarrow> 64 \<le> length os \<Longrightarrow> upd_straps f os ! j = f j (os ! j)"
  and length_upd_straps [simp]: "length (upd_straps f os) = length os"
  by (simp_all add: upd_straps_def)

lemma strap_raw_bit: "strap_raw raw0 raw1 j = bit (if j < 32 then raw0 else raw1) (if j < 32 then j else j - 32)"
  by (simp add: strap_raw_def bit_shift_1)

lemma strap_raw_conf:
  assumes "j < 64"
  shows "strap_raw (f (conf_addr (of_nat n))) (f (conf_addr (of_nat (Suc n)))) j
    = bit (f (conf_addr (of_nat (n + j div 32)))) (j mod 32)"
proof (cases "j < 32")
  case False
  with assms have "j div 32 = 1" "j mod 32 = j - 32" by (auto simp: div_nat_eqI mod_if)
  with False show ?thesis by (simp add: strap_raw_bit)
qed (simp add: strap_raw_bit)

lemma strap_rows_fuses:
  assumes "fuse_device dev fuse" "strap_rows dev opts os h = (h', r)" "64 \<le> length os"
  shows "fuse h' = fuse h \<and> (\<forall>os'. r = Inr os' \<longrightarrow> length os' = length os
       \<and> (\<forall>j<64. os' ! j = fold (\<lambda>opt. strap_bit_step (of_nat opt) (strap_fuse (fuse h) opt j)) opts (os ! j)))"
  using assms(2,3)
proof (induction opts arbitrary: os h)
  case (Cons opt opts)
  obtain h1 r1 where r1: "otp_read_conf_idx dev (of_nat (16 + 2 * opt)) h = (h1, r1)"
    by (cases "otp_read_conf_idx dev (of_nat (16 + 2 * opt)) h")
  obtain h2 r2 where r2: "otp_read_conf_idx dev (of_nat (17 + 2 * opt)) h1 = (h2, r2)"
    by (cases "otp_read_conf_idx dev (of_nat (17 + 2 * opt)) h1")
  note f1 = read_conf_idx [OF assms(1) r1] and f2 = read_conf_idx [OF assms(1) r2]
  show ?case
  proof (cases "(\<exists>e. r1 = Inl e) \<or> (\<exists>e. r2 = Inl e)")
    case True
    with Cons.prems r1 r2 f1(1) f2(1) show ?thesis
      by (cases r1) (auto simp del: of_nat_add of_nat_mult)
  next
    case False
    then obtain raw0 raw1 where raw: "r1 = Inr raw0" "r2 = Inr raw1" by (cases r1; cases r2) auto
    let ?os = "upd_straps (\<lambda>j. strap_bit_step (of_nat opt) (strap_raw raw0 raw1 j)) os"
    have rest: "strap_rows dev opts ?os h2 = (h', r)" using Cons.prems r1 r2 raw by (simp del: of_nat_add of_nat_mult)
    have "strap_raw raw0 raw1 j = strap_fuse (fuse h) opt j" if "j < 64" for j
      using strap_raw_conf [OF that, of "fuse h" "16 + 2 * opt"] f1 f2 raw by (simp add: strap_fuse_def)
    then show ?thesis
      using Cons.IH [OF rest] Cons.prems(2) f1(1) f2(1) by (auto simp: upd_straps_nth)
  qed
qed auto

text \<open>What the six steps compute for one strap.\<close>

definition burnt :: "(nat \<Rightarrow> bool) \<Rightarrow> nat \<Rightarrow> nat" where
  "burnt b n = length (filter b [0..<n])"

lemma burnt_le: "burnt b n \<le> n"
  using length_filter_le [of b "[0..<n]"] by (simp add: burnt_def)

lemma strap_steps:
  assumes "n \<le> 6"
  shows "let s' = fold (\<lambda>opt. strap_bit_step (of_nat opt) (b opt)) [0..<n] (strap_init s)
    in st_value s' = odd (burnt b n) \<and> remaining_writes s' = 6 - of_nat (burnt b n)
       \<and> \<not> st_protected s'
       \<and> (if burnt b n = n then writable_option s' = 0xff
          else \<exists>w<n. writable_option s' = of_nat w \<and> \<not> b w)"
  using assms
proof (induction n)
  case 0
  show ?case by (simp add: burnt_def strap_init_def)
next
  case (Suc n)
  have "(of_nat w :: u8) \<noteq> 0xff" if "w < n" for w
    using that Suc.prems by (simp add: word_unat_eq_iff unat_of_nat)
  then show ?case using Suc burnt_le [of b n]
    by (auto simp: Let_def strap_bit_step_def burnt_def less_Suc_eq algebra_simps split: if_splits)
qed

text \<open>The status of strap \<open>i\<close> is what the fuses say.\<close>

definition strap_status_of :: "(u32 \<Rightarrow> u32) \<Rightarrow> nat \<Rightarrow> strap_status \<Rightarrow> bool" where
  "strap_status_of f i s \<longleftrightarrow> st_value s = strap_value f i \<and> st_protected s = strap_locked f i
     \<and> (remaining_writes s = 0) = strap_used_up f i
     \<and> (strap_used_up f i \<or> (\<exists>w<6. writable_option s = of_nat w \<and> \<not> strap_fuse f w i))"

lemma filter_full: "(length (filter P xs) = length xs) = list_all P xs"
  by (metis Ball_set filter_id_conv length_filter_less nat_neq_iff)

lemma six_minus: "k \<le> 6 \<Longrightarrow> ((6 :: u8) - of_nat k = 0) = (k = 6)"
  using unat_of_nat [of k, where 'a = 8] by (auto dest: arg_cong [of _ _ unat])

lemma strap_steps_status:
  assumes "s' = fold (\<lambda>opt. strap_bit_step (of_nat opt) (strap_fuse f opt i)) [0..<6] (strap_init s)"
  shows "strap_status_of f i (if strap_locked f i then s'\<lparr>st_protected := True\<rparr> else s')"
proof -
  let ?b = "\<lambda>opt. strap_fuse f opt i"
  note st = strap_steps [of 6 ?b s, unfolded Let_def, folded assms]
  have "(burnt ?b 6 = 6) = strap_used_up f i"
    using filter_full [of ?b "[0..<6]"] by (simp only: burnt_def strap_used_up_def length_upt diff_zero)
  then show ?thesis
    using st six_minus [OF burnt_le [of ?b 6]]
    by (auto simp: strap_status_of_def strap_value_def burnt_def split: if_splits)
qed

lemma otp_strap_status_fuses:
  assumes "fuse_device dev fuse" "otp_strap_status dev os h = (h', r)"
  shows "fuse h' = fuse h" "r = Inr os' \<Longrightarrow> length os' = length os \<and> (\<forall>i<64. strap_status_of (fuse h) i (os' ! i))"
proof -
  let ?h0 = "otp_soak dev SoakDefault h" and ?os = "upd_straps (\<lambda>_. strap_init) os"
  obtain h1 r1 where r1: "strap_rows dev [0..<6] ?os ?h0 = (h1, r1)" by (cases "strap_rows dev [0..<6] ?os ?h0")
  obtain h2 r2 where r2: "otp_read_conf_idx dev 30 h1 = (h2, r2)" by (cases "otp_read_conf_idx dev 30 h1")
  obtain h3 r3 where r3: "otp_read_conf_idx dev 31 h2 = (h3, r3)" by (cases "otp_read_conf_idx dev 31 h2")
  note q = fuse_soak [OF assms(1)]
  have f1: "fuse h1 = fuse h" if "64 \<le> length os"
    using strap_rows_fuses [OF assms(1) r1] that q by simp
  note f2 = read_conf_idx [OF assms(1) r2] and f3 = read_conf_idx [OF assms(1) r3]
  show "fuse h' = fuse h"
    using assms(2) r1 r2 r3 f1 f2(1) f3(1)
    by (auto simp: otp_strap_status_def simp del: upt_Suc split: if_splits sum.splits)
  assume ok: "r = Inr os'"
  then obtain os1 raw0 raw1 where raw: "64 \<le> length os" "r1 = Inr os1" "r2 = Inr raw0" "r3 = Inr raw1"
      "os' = upd_straps (\<lambda>j s. if strap_raw raw0 raw1 j then s\<lparr>st_protected := True\<rparr> else s) os1"
    using assms(2) r1 r2 r3 by (auto simp: otp_strap_status_def simp del: upt_Suc split: if_splits sum.splits)
  have "length ?os = length os" by simp
  with raw(1) have os1: "length os1 = length os" "\<And>j. j < 64 \<Longrightarrow> os1 ! j
      = fold (\<lambda>opt. strap_bit_step (of_nat opt) (strap_fuse (fuse h) opt j)) [0..<6] (strap_init (os ! j))"
    using strap_rows_fuses [OF assms(1) r1] raw(2) by (simp_all add: q upd_straps_nth del: upt_Suc)
  have "strap_raw raw0 raw1 j = strap_locked (fuse h) j" if "j < 64" for j
    using strap_raw_conf [OF that, of "fuse h" 30] f1 f2 f3 raw by (simp add: strap_locked_def)
  then have "os' ! j = (if strap_locked (fuse h) j then (os1 ! j)\<lparr>st_protected := True\<rparr> else os1 ! j)" if "j < 64" for j
    using that os1(1) raw(1,5) by (simp add: upd_straps_nth)
  with strap_steps_status [OF os1(2)] os1(1) raw(5)
  show "length os' = length os \<and> (\<forall>i<64. strap_status_of (fuse h) i (os' ! i))" by simp
qed

section \<open>Burning one bit\<close>

definition set_fuse :: "u32 \<Rightarrow> nat \<Rightarrow> (u32 \<Rightarrow> u32) \<Rightarrow> u32 \<Rightarrow> u32" where
  "set_fuse a k f = f(a := f a OR push_bit k 1)"

lemma set_fuse_idem: "set_fuse a k (set_fuse a k f) = set_fuse a k f"
  by (simp add: set_fuse_def or.assoc)

lemma set_fuse_same: "bit (f a) k \<Longrightarrow> set_fuse a k f = f"
  by (auto simp: set_fuse_def fun_eq_iff bit_or_iff bit_exp_iff intro!: bit_word_eqI)

lemma prog_bit_helper_fuses:
  assumes "fuse_device dev fuse" "even a" "otp_prog_bit_helper dev 1 a k h = (h', r)"
  shows "fuse h' = fuse h \<or> fuse h' = set_fuse a k (fuse h)"
    "r = Inl e \<Longrightarrow> e = OtpTimeout \<or> e = WriteFailed"
proof -
  have p: "otp_prog dev a (NOT (push_bit k 1)) h = (h', r) \<or> (h' = h \<and> r = Inr ())"
    using assms(3) by (simp add: otp_prog_bit_helper_def even_and_1 assms(2) Let_def split: if_splits del: push_bit_of_1)
  then show "fuse h' = fuse h \<or> fuse h' = set_fuse a k (fuse h)"
    using prog_fuses [OF assms(1), of a "NOT (push_bit k 1)" h h' r] assms(2)
    by (auto simp: burn_def set_fuse_def even_and_1 simp del: push_bit_of_1)
  show "e = OtpTimeout \<or> e = WriteFailed" if "r = Inl e"
    using p that by (auto simp: otp_prog_def split: prod.splits if_splits)
qed

lemma verify_bit_fuses:
  assumes "fuse_device dev fuse" "even a" "verify_bit dev 1 a k h = (h', r)"
  shows "fuse h' = fuse h" "r = Inr u \<Longrightarrow> bit (fuse h a) k"
proof -
  obtain h1 r1 where r1: "otp_read_data dev a [0, 0] h = (h1, r1)" by (cases "otp_read_data dev a [0, 0] h")
  note rd = read_data [OF assms(1,2) r1]
  show "fuse h' = fuse h" using assms(2,3) r1 rd(1)
    by (auto simp: verify_bit_def Let_def even_and_1 split: sum.splits)
  show "bit (fuse h a) k" if "r = Inr u" using assms(2,3) r1 rd(2) that
    by (auto simp: verify_bit_def Let_def even_and_1 bit_shift_1 split: sum.splits if_splits)
qed

text \<open>From any state between the two, the loop stays between them, and it passes only when the bit is burnt.\<close>

lemma prog_bit_loop_fuses:
  assumes "fuse_device dev fuse" "even a" "prog_bit_loop dev 1 a k n h = (h', r)"
    "fuse h = f \<or> fuse h = set_fuse a k f"
  shows "(fuse h' = f \<or> fuse h' = set_fuse a k f) \<and> (r = Inr True \<longrightarrow> fuse h' = set_fuse a k f)
    \<and> (\<forall>e. r = Inl e \<longrightarrow> e = OtpTimeout \<or> e = WriteFailed)"
  using assms(3,4)
proof (induction n arbitrary: h)
  case (Suc n)
  obtain h1 r1 where r1: "verify_bit dev 1 a k h = (h1, r1)" by (cases "verify_bit dev 1 a k h")
  obtain h2 r2 where r2: "otp_prog_bit_helper dev 1 a k (otp_soak dev SoakProg h1) = (h2, r2)"
    by (cases "otp_prog_bit_helper dev 1 a k (otp_soak dev SoakProg h1)")
  obtain h3 r3 where r3: "verify_bit dev 1 a k h2 = (h3, r3)" by (cases "verify_bit dev 1 a k h2")
  note v1 = verify_bit_fuses [OF assms(1,2) r1] and v2 = prog_bit_helper_fuses [OF assms(1,2) r2]
    and v3 = verify_bit_fuses [OF assms(1,2) r3] and q = fuse_soak [OF assms(1)]
  have h2: "fuse h2 = f \<or> fuse h2 = set_fuse a k f" using v1(1) v2(1) q Suc.prems(2) set_fuse_idem by metis
  show ?case
  proof (cases r1)
    case (Inr u)
    with Suc.prems r1 v1 set_fuse_same show ?thesis by auto
  next
    case (Inl e1)
    note i1 = Inl
    show ?thesis
    proof (cases r2)
      case (Inl e)
      with Suc.prems(1) r1 r2 i1 h2 v2(2) show ?thesis by auto
    next
      case (Inr u)
      show ?thesis
      proof (cases r3)
        case (Inl e)
        with Suc.prems(1) r1 r2 r3 i1 Inr h2 v3(1) show ?thesis by auto
      next
        case (Inr u')
        with Suc.prems(1) r1 r2 r3 i1 \<open>r2 = Inr u\<close> have "prog_bit_loop dev 1 a k n (otp_soak dev NormalProg h3) = (h', r)"
          by simp
        from Suc.IH [OF this] h2 v3(1) q show ?thesis by simp
      qed
    qed
  qed
qed auto

lemma otp_prog_dc_b_fuses:
  assumes "fuse_device dev fuse" "even a" "otp_prog_dc_b dev 1 a k h = (h', r)"
  shows "r = Inr u \<Longrightarrow> fuse h' = set_fuse a k (fuse h)"
    "r = Inl e \<Longrightarrow> e = OtpTimeout \<or> e = WriteFailed"
proof -
  obtain h1 r1 where r1: "otp_prog_bit_helper dev 1 a k (otp_soak dev NormalProg h) = (h1, r1)"
    by (cases "otp_prog_bit_helper dev 1 a k (otp_soak dev NormalProg h)")
  obtain h2 r2 where r2: "prog_bit_loop dev 1 a k OTP_OP_RETRIES h1 = (h2, r2)"
    by (cases "prog_bit_loop dev 1 a k OTP_OP_RETRIES h1")
  note p = prog_bit_helper_fuses [OF assms(1,2) r1]
  have "fuse h1 = fuse h \<or> fuse h1 = set_fuse a k (fuse h)" using p(1) fuse_soak [OF assms(1)] by simp
  note l = prog_bit_loop_fuses [OF assms(1,2) r2 this]
  show "fuse h' = set_fuse a k (fuse h)" if "r = Inr u"
    using assms(3) r1 r2 that l by (auto simp: otp_prog_dc_b_def split: sum.splits if_splits)
  show "e = OtpTimeout \<or> e = WriteFailed" if "r = Inl e"
    using assms(3) r1 r2 that l p(2) by (auto simp: otp_prog_dc_b_def split: sum.splits if_splits)
qed

section \<open>Burning straps\<close>

definition strap_addr :: "nat \<Rightarrow> nat \<Rightarrow> u32" where
  "strap_addr w i = conf_addr (of_nat (16 + 2 * w + i div 32))"

lemma strap_index: "w < 6 \<Longrightarrow> i < 64 \<Longrightarrow> 16 + 2 * w + i div 32 < (28 :: nat)"
  by (simp add: less_mult_imp_div_less)

lemma double_inj: "q < 2 \<Longrightarrow> p < 2 \<Longrightarrow> (16 + 2 * w + q = 16 + 2 * v + p) = (w = v \<and> q = (p :: nat))"
  by presburger

lemma strap_slot:
  assumes "w < 6" "i < 64" "opt = (of_nat w :: u8)"
  shows "conf_addr (ucast opt * 2 + (if i < 32 then 16 else 17)) = strap_addr w i"
proof -
  have "(ucast (of_nat w :: u8) :: u32) = of_nat w"
    using assms(1) by (simp add: unsigned_of_nat take_bit_nat_eq_self)
  moreover have "i div 32 = (if i < 32 then 0 else 1)" using assms(2) by (simp add: div_nat_eqI)
  ultimately show ?thesis by (simp add: strap_addr_def assms(3) algebra_simps)
qed

lemma strap_fuse_set:
  assumes "w < 6" "i < 64" "v < 6" "j < 64"
  shows "strap_fuse (set_fuse (strap_addr w i) (i mod 32) f) v j = (strap_fuse f v j \<or> (v = w \<and> j = i))"
proof -
  have "16 + 2 * w + i div 32 < 32" "16 + 2 * v + j div 32 < 32" "i div 32 < 2" "j div 32 < 2"
    using strap_index [OF assms(1,2)] strap_index [OF assms(3,4)] assms(2,4) by (simp_all add: less_mult_imp_div_less)
  then have "(strap_addr w i = strap_addr v j) = (w = v \<and> i div 32 = j div 32)"
    unfolding strap_addr_def by (simp only: conf_addr_inj double_inj)
  moreover have "(j = i) = (j div 32 = i div 32 \<and> j mod 32 = i mod 32)" by (metis div_mult_mod_eq)
  ultimately show ?thesis
    unfolding strap_fuse_def set_fuse_def strap_addr_def by (auto simp: bit_or_iff bit_exp_iff)
qed

lemma set_fuse_other: "a \<in> A \<Longrightarrow> b \<notin> A \<Longrightarrow> set_fuse a k f b = f b"
  by (auto simp: set_fuse_def)

text \<open>The straps that differ, with an unburnt option for each: what \<open>burn_straps\<close> is called with.\<close>

definition burn_ready :: "(u32 \<Rightarrow> u32) \<Rightarrow> strap_status list \<Rightarrow> (nat \<Rightarrow> bool) \<Rightarrow> nat list \<Rightarrow> (nat \<Rightarrow> nat) \<Rightarrow> bool" where
  "burn_ready f os t is w \<longleftrightarrow> (\<forall>i\<in>set is. i < 64 \<and> st_value (os ! i) = strap_value f i
     \<and> (t i \<noteq> strap_value f i \<longrightarrow> w i < 6 \<and> writable_option (os ! i) = of_nat (w i)))"

lemma burn_straps_fuses:
  assumes "fuse_device dev fuse" "burn_ready f os (strap_target_bit strap sb) is w"
    "burn_straps dev os strap sb is h = (h', r)"
  shows "(\<forall>e. r = Inl e \<longrightarrow> e = OtpTimeout \<or> e = WriteFailed)
    \<and> (\<forall>u. r = Inr u \<longrightarrow>
         (\<forall>v<6. \<forall>j<64. strap_fuse (fuse h') v j = (strap_fuse (fuse h) v j
            \<or> (j \<in> set is \<and> strap_target_bit strap sb j \<noteq> strap_value f j \<and> v = w j)))
         \<and> (\<forall>a. a \<notin> strap_area \<longrightarrow> fuse h' a = fuse h a))"
  using assms(2,3)
proof (induction "is" arbitrary: h)
  case (Cons i "is")
  from Cons.prems(1) have tail: "burn_ready f os (strap_target_bit strap sb) is w"
    and i: "i < 64" "st_value (os ! i) = strap_value f i" by (auto simp: burn_ready_def)
  show ?case
  proof (cases "strap_target_bit strap sb i = strap_value f i")
    case True
    with Cons.prems(2) i have "burn_straps dev os strap sb is h = (h', r)" by simp
    from Cons.IH [OF tail this] True show ?thesis by auto
  next
    case False
    with Cons.prems(1) have w: "w i < 6" "writable_option (os ! i) = of_nat (w i)" by (auto simp: burn_ready_def)
    let ?a = "strap_addr (w i) i"
    have ev: "even ?a" by (simp add: strap_addr_def even_conf_addr)
    have area: "?a \<in> strap_area"
      using strap_index [OF w(1) i(1)] unfolding strap_area_def strap_addr_def by (intro imageI) auto
    obtain h1 r1 where r1: "otp_prog_dc_b dev 1 ?a (i mod 32) h = (h1, r1)" by (cases "otp_prog_dc_b dev 1 ?a (i mod 32) h")
    note p = otp_prog_dc_b_fuses [OF assms(1) ev r1]
    note slot = strap_slot [OF w(1) i(1) w(2)]
    show ?thesis
    proof (cases r1)
      case (Inl e)
      then have "r = Inl e" using Cons.prems(2) False i(2) slot r1 by (simp add: Let_def del: if_split)
      with p(2) [OF Inl] show ?thesis by simp
    next
      case (Inr u)
      have rest: "burn_straps dev os strap sb is h1 = (h', r)"
        using Cons.prems(2) False i(2) slot r1 Inr by (simp add: Let_def del: if_split)
      show ?thesis
        using Cons.IH [OF tail rest] p(1) [OF Inr] strap_fuse_set [OF w(1) i(1)] set_fuse_other [OF area] False
        by auto
    qed
  qed
qed auto

lemma strap_value_flip:
  assumes "w < 6" "\<not> b w"
  shows "odd (length (filter (\<lambda>v. b v \<or> v = w) [0..<6])) = even (length (filter b [0..<6]))"
proof -
  have "{v. v < 6 \<and> (b v \<or> v = w)} = insert w {v. v < 6 \<and> b v}" using assms(1) by auto
  with assms(2) have "card {v. v < 6 \<and> (b v \<or> v = w)} = Suc (card {v. v < 6 \<and> b v})" by simp
  moreover have "length (filter c [0..<6]) = card {v. v < 6 \<and> c v}" for c
    unfolding length_filter_conv_card by (intro arg_cong [of _ _ card]) (auto simp del: upt_Suc)
  ultimately show ?thesis by (simp del: upt_Suc)
qed

lemma burnt_straps_values:
  assumes "\<forall>v<6. strap_fuse f' v j = (strap_fuse f v j \<or> (c \<and> v = w))" "c \<Longrightarrow> w < 6 \<and> \<not> strap_fuse f w j"
  shows "strap_value f' j = (strap_value f j \<noteq> c)"
proof -
  have "strap_value f' j = odd (length (filter (\<lambda>v. strap_fuse f v j \<or> (c \<and> v = w)) [0..<6]))"
    unfolding strap_value_def using assms(1) by (intro arg_cong [of _ _ odd] arg_cong [of _ _ length] filter_cong) auto
  then show ?thesis
    using assms(2) strap_value_flip [of w "\<lambda>v. strap_fuse f v j"] by (cases c) (simp_all add: strap_value_def del: upt_Suc)
qed

section \<open>Programming straps\<close>

definition strap_differs :: "(u32 \<Rightarrow> u32) \<Rightarrow> u32 list \<Rightarrow> nat \<Rightarrow> nat \<Rightarrow> bool" where
  "strap_differs f strap sb i \<longleftrightarrow> sb \<le> i \<and> i < 64 \<and> strap_target_bit strap sb i \<noteq> strap_value f i"

definition strap_feasible :: "(u32 \<Rightarrow> u32) \<Rightarrow> u32 list \<Rightarrow> nat \<Rightarrow> bool" where
  "strap_feasible f strap sb \<longleftrightarrow>
     (\<forall>i. strap_differs f strap sb i \<longrightarrow> \<not> strap_locked f i \<and> \<not> strap_used_up f i)"

text \<open>The two counters of the pre-flight check, and what it decides.\<close>

lemma strap_preflight:
  assumes "\<forall>i<64. strap_status_of f i (os ! i)"
    "diff = filter (\<lambda>i. strap_target_bit strap sb i \<noteq> st_value (os ! i)) [sb..<64]"
  shows "(length (filter (\<lambda>i. st_protected (os ! i)) diff) = 0
      \<and> length (filter (\<lambda>i. \<not> st_protected (os ! i) \<and> remaining_writes (os ! i) = 0) diff) = 0)
    = strap_feasible f strap sb"
  using assms(1) unfolding assms(2) length_0_conv filter_empty_conv
  by (auto simp: strap_feasible_def strap_differs_def strap_status_of_def)

text \<open>The three outcomes of \<open>otp_prog_strap\<close> for a valid first bit.\<close>

lemma otp_prog_strap_cases:
  assumes "fuse_device dev fuse" "otp_prog_strap dev sb strap h = (h', r)"
  obtains (refused) e where "r = Inl e" "fuse h' = fuse h"
  | (burnt) h1 os where "sb \<le> 63" "fuse h1 = fuse h" "\<forall>i<64. strap_status_of (fuse h) i (os ! i)"
      "strap_feasible (fuse h) strap sb"
      "burn_straps dev os strap sb [sb..<64] h1 = (h', r) \<and> (\<exists>e. r = Inl e)
       \<or> (\<exists>h2. burn_straps dev os strap sb [sb..<64] h1 = (h2, r) \<and> r = Inr () \<and> h' = otp_soak dev SoakDefault h2)"
proof (cases "63 < sb")
  case True
  with assms(2) show thesis by (intro refused [of InvalidAddress]) (auto simp: otp_prog_strap_def)
next
  case False
  obtain h1 r1 where r1: "otp_strap_status dev (replicate 64 strap_blank) h = (h1, r1)"
    by (cases "otp_strap_status dev (replicate 64 strap_blank) h")
  note st = otp_strap_status_fuses [OF assms(1) r1]
  show thesis
  proof (cases r1)
    case (Inl e)
    with assms(2) False r1 st(1) show thesis by (intro refused [of e]) (auto simp: otp_prog_strap_def)
  next
    case (Inr os)
    have os: "\<forall>i<64. strap_status_of (fuse h) i (os ! i)" using st(2) [OF Inr] by simp
    let ?diff = "filter (\<lambda>i. strap_target_bit strap sb i \<noteq> st_value (os ! i)) [sb..<64]"
    let ?prot = "filter (\<lambda>i. st_protected (os ! i)) ?diff"
    let ?cant = "filter (\<lambda>i. \<not> st_protected (os ! i) \<and> remaining_writes (os ! i) = 0) ?diff"
    note pre = strap_preflight [OF os refl, of strap sb]
    show thesis
    proof (cases "strap_feasible (fuse h) strap sb")
      case True
      obtain h2 r2 where b: "burn_straps dev os strap sb [sb..<64] h1 = (h2, r2)"
        by (cases "burn_straps dev os strap sb [sb..<64] h1")
      from True pre have z: "length ?prot = 0" "length ?cant = 0" by blast+
      have "(h', r) = (case r2 of Inl e \<Rightarrow> (h2, Inl e) | Inr _ \<Rightarrow> (otp_soak dev SoakDefault h2, Inr ()))"
        unfolding assms(2) [symmetric] otp_prog_strap_def
        by (simp only: Let_def False r1 Inr prod.case sum.case if_False z less_irrefl b)
      with False os True st(1) b show thesis by (intro burnt [of h1 os]) (auto split: sum.splits)
    next
      case c: False
      with pre have "0 < length ?prot \<or> 0 < length ?cant" by (simp only: length_greater_0_conv length_0_conv) blast
      then have "h' = h1 \<and> (\<exists>e. r = Inl e)"
        using assms(2) False r1 Inr unfolding otp_prog_strap_def Let_def by (auto split: if_splits)
      with st(1) show thesis by (auto intro: refused)
    qed
  qed
qed

section \<open>A device that carries out every command\<close>

lemma prompt_dc_b:
  assumes "prompt_device dev fuse good" "good h" "even a" "k < 32"
  shows "\<exists>h'. otp_prog_dc_b dev 1 a k h = (h', Inr ()) \<and> good h'"
proof -
  note fd = prompt_deviceD(1) [OF assms(1)]
  have m: "NOT (push_bit k 1) \<noteq> (0 :: u32)"
  proof
    assume "NOT (push_bit k 1) = (0 :: u32)"
    then have "bit (NOT (push_bit k 1 :: u32)) (if k = 0 then 1 else 0) = False" by (simp only: bit_0_eq) simp
    with assms(4) show False by (auto simp: bit_not_iff bit_push_bit_iff bit_1_iff simp del: push_bit_of_1 split: if_splits)
  qed
  have "good (otp_soak dev NormalProg h)" by (rule prompt_soak(1) [OF assms(1,2)])
  from prompt_prog [OF assms(1) this, of a "NOT (push_bit k 1)"] obtain h1 where
    h1: "otp_prog dev a (NOT (push_bit k 1)) (otp_soak dev NormalProg h) = (h1, Inr ())" "good h1"
      "fuse h1 a = burn a (NOT (push_bit k 1)) (fuse h a)"
    by (auto simp: fuse_soak [OF fd] simp del: push_bit_of_1)
  have b: "bit (fuse h1 a) k"
    using assms(3,4) h1(3) by (simp add: burn_def even_and_1 bit_simps del: push_bit_of_1)
  from prompt_read [OF assms(1) h1(2) assms(3), of 0 0] obtain h2 where
    h2: "otp_read_data dev a [0, 0] h1 = (h2, Inr [fuse h1 a, fuse h1 (a + 1)])" "good h2" by blast
  then have "verify_bit dev 1 a k h1 = (h2, Inr ())"
    using assms(3) b by (simp add: verify_bit_def even_and_1 bit_shift_1)
  with h1(1) h2(2) m assms(3) show ?thesis
    by (simp add: otp_prog_dc_b_def otp_prog_bit_helper_def even_and_1 OTP_OP_RETRIES_def numeral_eq_Suc Let_def
        del: push_bit_of_1)
qed

lemma prompt_rows:
  assumes "prompt_device dev fuse good" "good h"
  shows "\<exists>h' os'. strap_rows dev opts os h = (h', Inr os') \<and> good h'"
  using assms(2)
proof (induction opts arbitrary: os h)
  case (Cons opt opts)
  from prompt_conf [OF assms(1) Cons.prems, of "of_nat (16 + 2 * opt)"] obtain h1 raw0 where
    h1: "otp_read_conf_idx dev (of_nat (16 + 2 * opt)) h = (h1, Inr raw0)" "good h1" by blast
  from prompt_conf [OF assms(1) h1(2), of "of_nat (17 + 2 * opt)"] obtain h2 raw1 where
    h2: "otp_read_conf_idx dev (of_nat (17 + 2 * opt)) h1 = (h2, Inr raw1)" "good h2" by blast
  from Cons.IH [OF h2(2)] h1(1) h2(1) show ?case by (simp del: of_nat_add of_nat_mult)
qed simp

lemma prompt_status:
  assumes "prompt_device dev fuse good" "good h" "64 \<le> length os"
  shows "\<exists>h' os'. otp_strap_status dev os h = (h', Inr os') \<and> good h'"
proof -
  from prompt_rows [OF assms(1) prompt_soak(1) [OF assms(1,2)], of "[0..<6]" "upd_straps (\<lambda>_. strap_init) os" SoakDefault]
  obtain h1 os1 where
    h1: "strap_rows dev [0..<6] (upd_straps (\<lambda>_. strap_init) os) (otp_soak dev SoakDefault h) = (h1, Inr os1)" "good h1"
    by blast
  from prompt_conf [OF assms(1) h1(2), of 30] obtain h2 raw0 where
    h2: "otp_read_conf_idx dev 30 h1 = (h2, Inr raw0)" "good h2" by blast
  from prompt_conf [OF assms(1) h2(2), of 31] obtain h3 raw1 where
    h3: "otp_read_conf_idx dev 31 h2 = (h3, Inr raw1)" "good h3" by blast
  from h1(1) h2(1) h3 assms(3) show ?thesis by (simp add: otp_strap_status_def del: upt_Suc)
qed

lemma prompt_burn:
  assumes "prompt_device dev fuse good" "good h"
  shows "\<exists>h'. burn_straps dev os strap sb is h = (h', Inr ())"
  using assms(2)
proof (induction "is" arbitrary: h)
  case (Cons i "is")
  let ?a = "conf_addr (ucast (writable_option (os ! i)) * 2 + (if i < 32 then 16 else 17))"
  from prompt_dc_b [OF assms(1) Cons.prems even_conf_addr, of "i mod 32"] obtain h1 where
    h1: "otp_prog_dc_b dev 1 ?a (i mod 32) h = (h1, Inr ())" "good h1" by (metis mod_less_divisor zero_less_numeral)
  from Cons.IH [OF Cons.prems] Cons.IH [OF h1(2)] h1(1) show ?case by (simp add: Let_def del: if_split)
qed simp

lemma prompt_feasible:
  assumes "prompt_device dev fuse good" "good h" "start_bit < 64" "strap_feasible (fuse h) strap start_bit"
  shows "\<exists>h'. otp_prog_strap dev start_bit strap h = (h', Inr ())"
proof -
  note fd = prompt_deviceD(1) [OF assms(1)]
  from prompt_status [OF assms(1,2), of "replicate 64 strap_blank"] obtain h1 os where
    h1: "otp_strap_status dev (replicate 64 strap_blank) h = (h1, Inr os)" "good h1" by auto
  have "\<forall>i<64. strap_status_of (fuse h) i (os ! i)" using otp_strap_status_fuses(2) [OF fd h1(1)] by simp
  note z = strap_preflight [OF this refl, THEN iffD2, OF assms(4)]
  from prompt_burn [OF assms(1) h1(2)] obtain h2 where
    "burn_straps dev os strap start_bit [start_bit..<64] h1 = (h2, Inr ())" by blast
  moreover have "\<not> 63 < start_bit" using assms(3) by simp
  ultimately have "otp_prog_strap dev start_bit strap h = (otp_soak dev SoakDefault h2, Inr ())"
    unfolding otp_prog_strap_def
    by (simp only: Let_def h1(1) prod.case sum.case if_False z [THEN conjunct1] z [THEN conjunct2] less_irrefl)
  then show ?thesis ..
qed

text \<open>A blank part accepts every request.\<close>

lemma blank_feasible: "strap_feasible (bk_fuse blank_bank) strap sb"
proof -
  have "bk_fuse blank_bank (conf_addr n) = 0" for n using even_conf_addr [of n] by (simp add: blank_bank_def even_and_1)
  then show ?thesis by (simp add: strap_feasible_def strap_locked_def strap_used_up_def strap_fuse_def upt_rec)
qed

lemma blank_good: "bank_good blank_bank"
  by (simp add: bank_good_def blank_bank_def)

section \<open>What a request does\<close>

text \<open>
  C26: A successful \<open>otp_prog_strap\<close> sets the straps. On any device that keeps the fuse contract, if the
  call returns \<open>Ok\<close>, then every strap bit from the first requested one on has its requested
  value, every strap bit below it keeps its value, and no fuse outside the option words of the
  straps has changed.\<close>

theorem otp_prog_strap_exact:
  assumes "fuse_device dev fuse" "otp_prog_strap dev start_bit strap h = (h', Inr ())"
  shows "(\<forall>i<64. strap_value (fuse h') i
      = (if i < start_bit then strap_value (fuse h) i else strap_target_bit strap start_bit i))
    \<and> (\<forall>a. a \<notin> strap_area \<longrightarrow> fuse h' a = fuse h a)"
  using assms
proof (cases rule: otp_prog_strap_cases)
  case (burnt h1 os)
  let ?f = "fuse h" and ?t = "strap_target_bit strap start_bit"
  from burnt(5) obtain h2 where
    h2: "burn_straps dev os strap start_bit [start_bit..<64] h1 = (h2, Inr ())" "h' = otp_soak dev SoakDefault h2" by auto
  have "\<forall>i. \<exists>w. strap_differs ?f strap start_bit i \<longrightarrow> w < 6 \<and> writable_option (os ! i) = of_nat w \<and> \<not> strap_fuse ?f w i"
    using burnt(3,4) unfolding strap_status_of_def strap_feasible_def strap_differs_def by blast
  then obtain w where w: "\<And>i. strap_differs ?f strap start_bit i
      \<Longrightarrow> w i < 6 \<and> writable_option (os ! i) = of_nat (w i) \<and> \<not> strap_fuse ?f (w i) i" by metis
  have "burn_ready ?f os ?t [start_bit..<64] w"
    using burnt(3) w unfolding burn_ready_def strap_status_of_def strap_differs_def by simp
  note b = burn_straps_fuses [OF assms(1) this h2(1), THEN conjunct2, rule_format, OF refl]
  have q: "fuse h' = fuse h2" using h2(2) fuse_soak [OF assms(1)] by simp
  have "strap_value (fuse h') j = (strap_value ?f j \<noteq> strap_differs ?f strap start_bit j)" if j: "j < 64" for j
  proof (rule burnt_straps_values [where w = "w j"])
    show "\<forall>v<6. strap_fuse (fuse h') v j = (strap_fuse ?f v j \<or> (strap_differs ?f strap start_bit j \<and> v = w j))"
      using conjunct1 [OF b] j by (auto simp: q burnt(2) strap_differs_def)
  qed (use w in blast)
  then show ?thesis using conjunct2 [OF b] by (auto simp: strap_differs_def q burnt(2))
qed simp

text \<open>Setting straps 40 and 42 of a blank part.\<close>

theorem otp_prog_strap_exact_witness:
  "\<exists>h'. otp_prog_strap bank_dev 40 [5] blank_bank = (h', Inr ()) \<and> strap_value (bk_fuse h') 42"
proof -
  from prompt_feasible [OF bank_prompt blank_good _ blank_feasible, of 40 "[5]"] obtain h' where
    p: "otp_prog_strap bank_dev 40 [5] blank_bank = (h', Inr ())" by auto
  have "strap_target_bit [5] 40 42" by code_simp
  with otp_prog_strap_exact [OF bank_fuse_device p] p show ?thesis by (auto dest!: spec [of _ 42])
qed

text \<open>
  \<open>otp_prog_strap\<close> refuses an infeasible request before it burns anything. If some strap bit that the
  request has to change is write-protected or has all of its six options burnt, then the call
  returns an error and no fuse has changed - whatever the device does.\<close>

theorem otp_prog_strap_all_or_nothing:
  assumes "fuse_device dev fuse" "otp_prog_strap dev start_bit strap h = (h', r)"
    "strap_differs (fuse h) strap start_bit i" "strap_locked (fuse h) i \<or> strap_used_up (fuse h) i"
  shows "fuse h' = fuse h \<and> (\<exists>e. r = Inl e)"
  using assms(1,2) by (cases rule: otp_prog_strap_cases) (use assms(3,4) in \<open>auto simp: strap_feasible_def\<close>)

text \<open>Strap 3 is protected: a request for straps 0 to 3 burns nothing.\<close>

theorem otp_prog_strap_all_or_nothing_witness:
  "bk_fuse (fst (otp_prog_strap bank_dev 0 [15] (blank_bank\<lparr>bk_fuse := (\<lambda>_. 0)(0xE0C := 8)\<rparr>)))
    = (\<lambda>_. 0)(0xE0C := 8)"
proof -
  let ?h = "blank_bank\<lparr>bk_fuse := (\<lambda>_. 0)(0xE0C := 8)\<rparr>"
  obtain h' r where p: "otp_prog_strap bank_dev 0 [15] ?h = (h', r)" by (cases "otp_prog_strap bank_dev 0 [15] ?h")
  have "strap_target_bit [15] 0 3" by code_simp
  moreover have "\<not> strap_value (bk_fuse ?h) 3" "strap_locked (bk_fuse ?h) 3" by code_simp+
  ultimately have "strap_differs (bk_fuse ?h) [15] 0 3" "strap_locked (bk_fuse ?h) 3" by (simp_all add: strap_differs_def)
  with otp_prog_strap_all_or_nothing [OF bank_fuse_device p] p show ?thesis by simp
qed

text \<open>
  A feasible strap request succeeds: on a device that carries out every command, \<open>otp_prog_strap\<close> with a first
  bit below 64 returns \<open>Ok\<close> exactly if every strap bit that has to change is unprotected and has
  an unburnt option left.\<close>

theorem otp_prog_strap_succeeds:
  assumes "prompt_device dev fuse good" "good h" "start_bit < 64"
  shows "(\<exists>h'. otp_prog_strap dev start_bit strap h = (h', Inr ())) \<longleftrightarrow> strap_feasible (fuse h) strap start_bit"
proof
  show "strap_feasible (fuse h) strap start_bit" if "\<exists>h'. otp_prog_strap dev start_bit strap h = (h', Inr ())"
    using that otp_prog_strap_cases [OF prompt_deviceD(1) [OF assms(1)]] by blast
qed (rule prompt_feasible [OF assms])

theorem otp_prog_strap_succeeds_witness:
  "\<exists>h'. otp_prog_strap bank_dev 40 [5] blank_bank = (h', Inr ())"
  using otp_prog_strap_succeeds [OF bank_prompt blank_good, of 40 "[5]"] blank_feasible by simp

end
