(* ===== verification/Spim_Policy.thy ===== *)
theory Spim_Policy
  imports Reg_Monad
begin

unbundle bit_operations_syntax

text \<open>
  Types, command descriptors and policies of the SPI monitor of the AST10x0
  (\<open>target/ast10x0/peripherals/spimonitor\<close>: \<open>types.rs\<close>, \<open>commands.rs\<close>, \<open>policy.rs\<close>, \<open>profile.rs\<close>, and the presets of
  \<open>board/src/spim_wiring.rs\<close>). The monitor sits between a host and its flash; it lets a command
  pass if its opcode is in the command table and the addressed 16 KiB block is enabled in the
  privilege bitmap of the direction.
\<close>

section \<open>Types\<close>

datatype privilege_direction = PrivRead | PrivWrite

datatype privilege_op = PrivEnable | PrivDisable

datatype passthrough_mode = PassEnabled | PassMultiEnabled | PassDisabled

datatype ext_mux_sel = Sel0 | Sel1

datatype lock_state = Unlocked | LockedState

datatype spi_monitor_state = Uninitialized | Configured | Locked

record region_policy =
  rg_start :: u32
  rg_length :: u32
  rg_direction :: privilege_direction
  rg_op :: privilege_op

definition region_allow :: "u32 \<Rightarrow> u32 \<Rightarrow> privilege_direction \<Rightarrow> region_policy" where
  "region_allow start len direction = \<lparr>rg_start = start, rg_length = len, rg_direction = direction, rg_op = PrivEnable\<rparr>"

definition region_deny :: "u32 \<Rightarrow> u32 \<Rightarrow> privilege_direction \<Rightarrow> region_policy" where
  "region_deny start len direction = \<lparr>rg_start = start, rg_length = len, rg_direction = direction, rg_op = PrivDisable\<rparr>"

datatype violation_log_entry =
    BlockedCommand u8 | BlockedWriteAddr u32 | BlockedReadAddr u32 | InvalidEntry u32

definition violation_parse :: "u32 \<Rightarrow> violation_log_entry" where
  "violation_parse word =
     (let k = drop_bit 18 word AND 3
      in if k = 0 then BlockedCommand (ucast (word AND 0xFF))
         else if k = 1 then BlockedWriteAddr (push_bit 14 (word AND 0x3FFFF))
         else if k = 2 then BlockedReadAddr (push_bit 14 (word AND 0x3FFFF))
         else InvalidEntry word)"

datatype spim_error =
    InvalidRegion | InvalidAddress | InvalidLength | InvalidSlot | InvalidLogBuffer
  | UnsupportedCommand u8 | NoCommandSlot | PolicyLocked | LockFailed | VerificationFailed | InvalidTransition

section \<open>Command descriptors\<close>

record command_descriptor =
  cd_opcode :: u8
  cd_generic :: bool
  cd_write :: bool
  cd_read :: bool
  cd_memory :: bool
  cd_data_width :: u8
  cd_dummy_cycles :: u8
  cd_program_size :: u8
  cd_address_len :: u8
  cd_address_width :: u8

definition cd_encode :: "command_descriptor \<Rightarrow> u32" where
  "cd_encode d = push_bit 29 (of_bool (cd_generic d)) OR push_bit 28 (of_bool (cd_write d))
     OR push_bit 27 (of_bool (cd_read d)) OR push_bit 26 (of_bool (cd_memory d))
     OR push_bit 24 (ucast (cd_data_width d)) OR push_bit 16 (ucast (cd_dummy_cycles d))
     OR push_bit 13 (ucast (cd_program_size d)) OR push_bit 10 (ucast (cd_address_len d))
     OR push_bit 8 (ucast (cd_address_width d)) OR ucast (cd_opcode d)"

record command_flags =
  cf_generic :: bool
  cf_write :: bool
  cf_read :: bool
  cf_memory :: bool

definition GENERIC_READ_MEMORY :: command_flags where
  "GENERIC_READ_MEMORY = \<lparr>cf_generic = True, cf_write = False, cf_read = True, cf_memory = True\<rparr>"
definition GENERIC_WRITE_MEMORY :: command_flags where
  "GENERIC_WRITE_MEMORY = \<lparr>cf_generic = True, cf_write = True, cf_read = False, cf_memory = True\<rparr>"
definition GENERIC_NONE :: command_flags where
  "GENERIC_NONE = \<lparr>cf_generic = True, cf_write = False, cf_read = False, cf_memory = False\<rparr>"
definition GENERIC_READ :: command_flags where
  "GENERIC_READ = \<lparr>cf_generic = True, cf_write = False, cf_read = True, cf_memory = False\<rparr>"
definition GENERIC_WRITE :: command_flags where
  "GENERIC_WRITE = \<lparr>cf_generic = True, cf_write = True, cf_read = False, cf_memory = False\<rparr>"
definition RESERVED_NONE :: command_flags where
  "RESERVED_NONE = \<lparr>cf_generic = False, cf_write = False, cf_read = False, cf_memory = False\<rparr>"
definition RESERVED_WRITE :: command_flags where
  "RESERVED_WRITE = \<lparr>cf_generic = False, cf_write = True, cf_read = False, cf_memory = False\<rparr>"

definition command :: "u8 \<Rightarrow> command_flags \<Rightarrow> u8 \<Rightarrow> u8 \<Rightarrow> u8 \<Rightarrow> u8 \<Rightarrow> u8 \<Rightarrow> command_descriptor" where
  "command opcode flags data_width dummy_cycles program_size address_len address_width =
     \<lparr>cd_opcode = opcode, cd_generic = cf_generic flags, cd_write = cf_write flags, cd_read = cf_read flags,
      cd_memory = cf_memory flags, cd_data_width = data_width, cd_dummy_cycles = dummy_cycles,
      cd_program_size = program_size, cd_address_len = address_len, cd_address_width = address_width\<rparr>"

text \<open>The arms of the \<open>match\<close> in \<open>descriptor\<close>, in their order.\<close>

definition command_table :: "command_descriptor list" where
  "command_table = [
     command 0x03 GENERIC_READ_MEMORY 1 0 0 3 1, command 0x13 GENERIC_READ_MEMORY 1 0 0 4 1,
     command 0x0b GENERIC_READ_MEMORY 1 8 0 3 1, command 0x0c GENERIC_READ_MEMORY 1 8 0 4 1,
     command 0x3b GENERIC_READ_MEMORY 2 8 0 3 1, command 0x3c GENERIC_READ_MEMORY 2 8 0 4 1,
     command 0xbb GENERIC_READ_MEMORY 2 4 0 3 2, command 0xbc GENERIC_READ_MEMORY 2 4 0 4 2,
     command 0x6b GENERIC_READ_MEMORY 3 8 0 3 1, command 0x6c GENERIC_READ_MEMORY 3 8 0 4 1,
     command 0xeb GENERIC_READ_MEMORY 3 6 0 3 3, command 0xec GENERIC_READ_MEMORY 3 6 0 4 3,
     command 0x02 GENERIC_WRITE_MEMORY 1 0 1 3 1, command 0x12 GENERIC_WRITE_MEMORY 1 0 1 4 1,
     command 0x32 GENERIC_WRITE_MEMORY 3 0 1 3 1, command 0x34 GENERIC_WRITE_MEMORY 3 0 1 4 1,
     command 0x20 GENERIC_WRITE_MEMORY 0 0 1 3 1, command 0x21 GENERIC_WRITE_MEMORY 0 0 1 4 1,
     command 0xd8 GENERIC_WRITE_MEMORY 0 0 5 3 1, command 0xdc GENERIC_WRITE_MEMORY 0 0 5 4 1,
     command 0x06 GENERIC_NONE 0 0 0 0 0, command 0x04 GENERIC_NONE 0 0 0 0 0,
     command 0x50 GENERIC_NONE 0 0 0 0 0, command 0x66 GENERIC_NONE 0 0 0 0 0,
     command 0x99 GENERIC_NONE 0 0 0 0 0,
     command 0x05 GENERIC_READ 1 0 0 0 0, command 0x35 GENERIC_READ 1 0 0 0 0,
     command 0x15 GENERIC_READ 1 0 0 0 0, command 0x70 GENERIC_READ 1 0 0 0 0,
     command 0x9f GENERIC_READ 1 0 0 0 0,
     command 0x01 GENERIC_WRITE 1 0 0 0 0, command 0x31 GENERIC_WRITE 1 0 0 0 0,
     command 0x5a GENERIC_READ 1 8 0 3 1,
     command 0xb7 RESERVED_NONE 0 0 0 0 0, command 0xe9 RESERVED_NONE 0 0 0 0 0,
     command 0xc5 RESERVED_WRITE 1 0 0 0 0,
     command 0xc2 GENERIC_WRITE 1 0 0 0 0]"

definition descriptor :: "u8 \<Rightarrow> command_descriptor option" where
  "descriptor opcode = find (\<lambda>d. cd_opcode d = opcode) command_table"

definition VALID :: u32 where "VALID = push_bit 30 1"
definition VALID_ONCE :: u32 where "VALID_ONCE = push_bit 31 1"
definition COMMAND_LOCKED :: u32 where "COMMAND_LOCKED = push_bit 23 1"

definition table_value :: "u8 \<Rightarrow> bool \<Rightarrow> u32 option" where
  "table_value opcode valid_once =
     (case descriptor opcode of
        Some entry \<Rightarrow> Some (cd_encode entry OR (if valid_once then VALID_ONCE else VALID))
      | None \<Rightarrow> None)"

definition fixed_slot :: "u8 \<Rightarrow> nat option" where
  "fixed_slot opcode = (if opcode = 0xb7 then Some 0 else if opcode = 0xe9 then Some 1
     else if opcode = 0xc5 then Some 31 else None)"

section \<open>Policies\<close>

definition MAX_REGION_SLOTS :: nat where "MAX_REGION_SLOTS = 16"
definition MAX_CMD_SLOTS :: nat where "MAX_CMD_SLOTS = 32"

record spi_monitor_policy =
  allow_commands :: "u8 list"
  allow_command_count :: nat
  regions :: "region_policy option list"
  region_count :: nat

definition policy_empty :: spi_monitor_policy where
  "policy_empty = \<lparr>allow_commands = replicate MAX_CMD_SLOTS 0, allow_command_count = 0,
     regions = replicate MAX_REGION_SLOTS None, region_count = 0\<rparr>"

definition add_region ::
  "spi_monitor_policy \<Rightarrow> u32 \<Rightarrow> u32 \<Rightarrow> privilege_direction \<Rightarrow> privilege_op \<Rightarrow> spi_monitor_policy \<times> bool" where
  "add_region p start len direction op =
     (if region_count p \<ge> MAX_REGION_SLOTS then (p, False)
      else (p\<lparr>regions := (regions p)[region_count p := Some \<lparr>rg_start = start, rg_length = len,
                rg_direction = direction, rg_op = op\<rparr>],
              region_count := region_count p + 1\<rparr>, True))"

definition runtime_read_only :: spi_monitor_policy where
  "runtime_read_only = policy_empty\<lparr>allow_commands := (allow_commands policy_empty)[0 := 0x03, 1 := 0x0B, 2 := 0x9F],
     allow_command_count := 3\<rparr>"

definition firmware_update_window :: spi_monitor_policy where
  "firmware_update_window = runtime_read_only\<lparr>allow_commands := (allow_commands runtime_read_only)
     [3 := 0x06, 4 := 0x20, 5 := 0x02], allow_command_count := 6\<rparr>"

definition zephyr_default :: spi_monitor_policy where
  "zephyr_default = policy_empty\<lparr>allow_commands := [
     0x03, 0x13, 0x0b, 0x0c, 0x6b, 0x6c, 0x01, 0x05, 0x35, 0x06, 0x04, 0x20, 0x21, 0x9f, 0x5a,
     0xb7, 0xe9, 0x32, 0x34, 0xd8, 0xdc, 0x02, 0x12, 0x3b, 0x3c, 0x70, 0xbb, 0xbc, 0x50, 0xeb,
     0xec, 0xc2], allow_command_count := 32\<rparr>"

definition bmc_default_policy :: spi_monitor_policy where
  "bmc_default_policy = policy_empty\<lparr>allow_commands := (allow_commands policy_empty)
     [0 := 0x03, 1 := 0x0B, 2 := 0x0C, 3 := 0x02, 4 := 0x12, 5 := 0x20, 6 := 0x21, 7 := 0x05, 8 := 0x06,
      9 := 0x04, 10 := 0x9F, 11 := 0x66, 12 := 0x99], allow_command_count := 13\<rparr>"

definition zephyr_spim_policy :: spi_monitor_policy where
  "zephyr_spim_policy = fst (add_region zephyr_default 0 0x00100000 PrivWrite PrivDisable)"

section \<open>Facts about descriptors\<close>

lemma descriptor_opcode: "descriptor opcode = Some d \<Longrightarrow> cd_opcode d = opcode \<and> d \<in> set command_table"
  by (auto simp: descriptor_def find_Some_iff)

text \<open>The low byte of a table entry is its opcode, and a fresh entry is neither empty nor locked.\<close>

lemma mask_8: "(0xff :: u32) = mask 8"
  by (simp add: mask_eq_exp_minus_1)

lemma encode_low_byte: "cd_encode d AND 0xff = ucast (cd_opcode d)"
  unfolding cd_encode_def mask_8 by (rule bit_word_eqI) (auto simp: bit_simps dest: bit_imp_le_length)

lemma or_and: "(a OR b) AND c = (a AND c) OR (b AND (c :: u32))"
  by (rule bit_word_eqI) (auto simp: bit_simps)

lemma encode_unlocked: "list_all (\<lambda>d. cd_encode d AND COMMAND_LOCKED = 0) command_table"
  by code_simp

lemma table_value_facts:
  assumes "table_value opcode once = Some v"
  shows "v AND 0xff = ucast opcode" "v AND COMMAND_LOCKED = 0" "v \<noteq> 0"
proof -
  from assms obtain d where d: "descriptor opcode = Some d" "v = cd_encode d OR (if once then VALID_ONCE else VALID)"
    by (auto simp: table_value_def split: option.splits)
  have flags: "(if once then VALID_ONCE else VALID) AND 0xff = 0"
    "(if once then VALID_ONCE else VALID) AND COMMAND_LOCKED = 0" "(if once then VALID_ONCE else VALID) \<noteq> 0"
    by (simp_all add: VALID_def VALID_ONCE_def COMMAND_LOCKED_def)
  show "v AND 0xff = ucast opcode"
    using flags(1) encode_low_byte [of d] descriptor_opcode [OF d(1)] by (simp add: d(2) or_and del: if_split)
  show "v AND COMMAND_LOCKED = 0"
    using flags(2) encode_unlocked descriptor_opcode [OF d(1)]
    by (simp add: d(2) list_all_iff or_and del: if_split)
  show "v \<noteq> 0" using flags(3) by (simp add: d(2) or_eq_0_iff del: if_split)
qed

lemma fixed_slot_cases:
  "fixed_slot opcode = Some s \<longleftrightarrow> (opcode, s) \<in> {(0xb7, 0), (0xe9, 1), (0xc5, 31)}"
  by (auto simp: fixed_slot_def)

end
