(* ===== verification/Spim_Controller.thy ===== *)
theory Spim_Controller
  imports Spim_Policy
begin

unbundle bit_operations_syntax

text \<open>
  The SPI monitor controller (\<open>spimonitor/controller.rs\<close>, \<open>registers.rs\<close>). The register block is a parameter: a
  device state with functions that read and write a register, the length of its array of
  address-filter registers, two bit fields, and the memory that the violation log is written to. The typestate of
  the source (\<open>Uninitialized\<close>, \<open>Configured\<close>, \<open>Locked\<close>) says which operations can be called; here each operation
  is a definition. Delays are left out.
\<close>

section \<open>Registers\<close>

datatype spim_reg =
    SPIPF000 | SPIPF004 | SPIPF010 | SPIPF014 | SPIPF018 | SPIPF07C | SPIPFWT nat | SPIPFWA nat

record 'h spim_dev =
  spim_write :: "spim_reg \<Rightarrow> u32 \<Rightarrow> 'h \<Rightarrow> 'h"
  spim_read :: "spim_reg \<Rightarrow> 'h \<Rightarrow> 'h \<times> u32"
  addr_filter_len :: nat
  dmawr_pointer :: "u32 \<Rightarrow> u32"
  dmabuffer_size :: "u32 \<Rightarrow> u32"
  ram_read :: "u32 \<Rightarrow> 'h \<Rightarrow> 'h \<times> u32"
  ram_fill :: "u32 \<Rightarrow> nat \<Rightarrow> 'h \<Rightarrow> 'h"

type_synonym ('h, 'a) spim_op = "('h, spim_error, 'a) reg_op"

definition read_ctrl :: "'h spim_dev \<Rightarrow> ('h, u32) spim_op" where
  "read_ctrl dev = get (spim_read dev SPIPF000)"

definition write_ctrl :: "'h spim_dev \<Rightarrow> u32 \<Rightarrow> ('h, unit) spim_op" where
  "write_ctrl dev v = act (spim_write dev SPIPF000 v)"

definition modify_ctrl :: "'h spim_dev \<Rightarrow> (u32 \<Rightarrow> u32) \<Rightarrow> ('h, unit) spim_op" where
  "modify_ctrl dev f = ebind (read_ctrl dev) (\<lambda>bits. write_ctrl dev (f bits))"

definition read_ctrl2 :: "'h spim_dev \<Rightarrow> ('h, u32) spim_op" where
  "read_ctrl2 dev = get (spim_read dev SPIPF004)"

definition write_ctrl2 :: "'h spim_dev \<Rightarrow> u32 \<Rightarrow> ('h, unit) spim_op" where
  "write_ctrl2 dev v = act (spim_write dev SPIPF004 v)"

definition modify_ctrl2 :: "'h spim_dev \<Rightarrow> (u32 \<Rightarrow> u32) \<Rightarrow> ('h, unit) spim_op" where
  "modify_ctrl2 dev f = ebind (read_ctrl2 dev) (\<lambda>bits. write_ctrl2 dev (f bits))"

definition read_lock_status :: "'h spim_dev \<Rightarrow> ('h, u32) spim_op" where
  "read_lock_status dev = get (spim_read dev SPIPF07C)"

definition write_lock_status :: "'h spim_dev \<Rightarrow> u32 \<Rightarrow> ('h, unit) spim_op" where
  "write_lock_status dev v = act (spim_write dev SPIPF07C v)"

definition modify_lock_status :: "'h spim_dev \<Rightarrow> (u32 \<Rightarrow> u32) \<Rightarrow> ('h, unit) spim_op" where
  "modify_lock_status dev f = ebind (read_lock_status dev) (\<lambda>bits. write_lock_status dev (f bits))"

definition read_allow_cmd_slot :: "'h spim_dev \<Rightarrow> nat \<Rightarrow> ('h, u32) spim_op" where
  "read_allow_cmd_slot dev index = get (spim_read dev (SPIPFWT index))"

definition write_allow_cmd_slot :: "'h spim_dev \<Rightarrow> nat \<Rightarrow> u32 \<Rightarrow> ('h, unit) spim_op" where
  "write_allow_cmd_slot dev index v = act (spim_write dev (SPIPFWT index) v)"

definition read_addr_filter_slot :: "'h spim_dev \<Rightarrow> nat \<Rightarrow> ('h, u32) spim_op" where
  "read_addr_filter_slot dev index = get (spim_read dev (SPIPFWA index))"

definition write_addr_filter_slot :: "'h spim_dev \<Rightarrow> nat \<Rightarrow> u32 \<Rightarrow> ('h, unit) spim_op" where
  "write_addr_filter_slot dev index v = act (spim_write dev (SPIPFWA index) v)"

definition read_addr_filter_slot_checked :: "'h spim_dev \<Rightarrow> nat \<Rightarrow> ('h, u32 option) spim_op" where
  "read_addr_filter_slot_checked dev index =
     (if index < addr_filter_len dev then ebind (read_addr_filter_slot dev index) (\<lambda>v. ret (Some v)) else ret None)"

definition write_addr_filter_slot_checked :: "'h spim_dev \<Rightarrow> nat \<Rightarrow> u32 \<Rightarrow> ('h, bool) spim_op" where
  "write_addr_filter_slot_checked dev index v =
     (if index < addr_filter_len dev then eseq (write_addr_filter_slot dev index v) (ret True) else ret False)"

definition read_log_idx_reg :: "'h spim_dev \<Rightarrow> ('h, u32) spim_op" where
  "read_log_idx_reg dev = ebind (get (spim_read dev SPIPF018)) (\<lambda>v. ret (dmawr_pointer dev v))"

definition read_log_capacity_entries :: "'h spim_dev \<Rightarrow> ('h, u32) spim_op" where
  "read_log_capacity_entries dev = ebind (get (spim_read dev SPIPF014)) (\<lambda>v. ret (dmabuffer_size dev v))"

definition log_ram_base_addr :: "'h spim_dev \<Rightarrow> ('h, u32) spim_op" where
  "log_ram_base_addr dev = ebind (get (spim_read dev SPIPF010)) (\<lambda>v. ret (v AND NOT 3))"

definition LOG_DMA_ENABLE :: u32 where "LOG_DMA_ENABLE = push_bit 31 1"

definition write_log_config :: "'h spim_dev \<Rightarrow> u32 \<Rightarrow> u32 \<Rightarrow> ('h, unit) spim_op" where
  "write_log_config dev base_addr entries =
     eseq (act (spim_write dev SPIPF010 (base_addr AND NOT 3)))
          (act (spim_write dev SPIPF014 (LOG_DMA_ENABLE OR entries)))"

section \<open>Constants\<close>

definition CTRL_SINGLE_PASSTHROUGH_BIT :: u32 where "CTRL_SINGLE_PASSTHROUGH_BIT = push_bit 0 1"
definition CTRL_MULTI_PASSTHROUGH_BIT :: u32 where "CTRL_MULTI_PASSTHROUGH_BIT = push_bit 1 1"
definition CTRL_PASSTHROUGH_MASK :: u32 where "CTRL_PASSTHROUGH_MASK = push_bit 0 1 OR push_bit 1 1"
definition CTRL_MONITOR_ENABLE_BIT :: u32 where "CTRL_MONITOR_ENABLE_BIT = push_bit 2 1"
definition CTRL_SW_RESET_BIT :: u32 where "CTRL_SW_RESET_BIT = push_bit 15 1"
definition CTRL_BLOCK_FIFO_LOCK :: u32 where "CTRL_BLOCK_FIFO_LOCK = push_bit 22 1"
definition CTRL_SW_RESET_LOCK :: u32 where "CTRL_SW_RESET_LOCK = push_bit 23 1"
definition CTRL2_VIOLATION_STATUS_MASK :: u32 where "CTRL2_VIOLATION_STATUS_MASK = 7"
definition CTRL2_VIOLATION_IRQ_ENABLE_MASK :: u32 where "CTRL2_VIOLATION_IRQ_ENABLE_MASK = push_bit 16 7"
definition CTRL2_PUSH_PULL :: u32 where "CTRL2_PUSH_PULL = push_bit 31 1"
definition COMMAND_TABLE_SLOTS :: nat where "COMMAND_TABLE_SLOTS = 32"
definition FIRST_GENERAL_COMMAND_SLOT :: nat where "FIRST_GENERAL_COMMAND_SLOT = 2"
definition LAST_GENERAL_COMMAND_SLOT_EXCLUSIVE :: nat where "LAST_GENERAL_COMMAND_SLOT_EXCLUSIVE = 31"
definition PRIVILEGE_TABLE_WORDS :: nat where "PRIVILEGE_TABLE_WORDS = 512"
definition PRIVILEGE_BLOCK_SIZE :: u32 where "PRIVILEGE_BLOCK_SIZE = 16 * 1024"
definition PRIVILEGE_ADDRESS_LIMIT :: u32 where "PRIVILEGE_ADDRESS_LIMIT = 256 * 1024 * 1024"
definition PRIVILEGE_READ_SELECT :: u32 where "PRIVILEGE_READ_SELECT = 0x52000000"
definition PRIVILEGE_WRITE_SELECT :: u32 where "PRIVILEGE_WRITE_SELECT = 0x57000000"
definition MAX_LOG_ENTRIES :: nat where "MAX_LOG_ENTRIES = 0x7ffff"
definition LOCK_CTRL :: u32 where "LOCK_CTRL = push_bit 0 1"
definition LOCK_IRQ_CTRL :: u32 where "LOCK_IRQ_CTRL = push_bit 1 1"
definition LOCK_LOG_BASE :: u32 where "LOCK_LOG_BASE = push_bit 4 1"
definition LOCK_LOG_CTRL :: u32 where "LOCK_LOG_CTRL = push_bit 5 1"
definition LOCK_WRITE_PRIVILEGE :: u32 where "LOCK_WRITE_PRIVILEGE = push_bit 30 1"
definition LOCK_READ_PRIVILEGE :: u32 where "LOCK_READ_PRIVILEGE = push_bit 31 1"
definition LOCK_STATUS_REQUIRED :: u32 where
  "LOCK_STATUS_REQUIRED = LOCK_CTRL OR LOCK_IRQ_CTRL OR LOCK_LOG_BASE OR LOCK_LOG_CTRL
     OR LOCK_WRITE_PRIVILEGE OR LOCK_READ_PRIVILEGE"

section \<open>Privilege tables\<close>

definition select_of :: "privilege_direction \<Rightarrow> u32" where
  "select_of direction = (case direction of PrivRead \<Rightarrow> PRIVILEGE_READ_SELECT | PrivWrite \<Rightarrow> PRIVILEGE_WRITE_SELECT)"

definition select_privilege_table :: "'h spim_dev \<Rightarrow> privilege_direction \<Rightarrow> ('h, unit) spim_op" where
  "select_privilege_table dev direction = modify_ctrl dev (\<lambda>bits. bits AND 0x00ffffff OR select_of direction)"

definition verify_command_slot :: "'h spim_dev \<Rightarrow> nat \<Rightarrow> u32 \<Rightarrow> ('h, nat) spim_op" where
  "verify_command_slot dev slot expected =
     ebind (read_allow_cmd_slot dev slot) (\<lambda>v. eseq (ensure (v = expected) VerificationFailed) (ret slot))"

definition initialize_privilege_table :: "'h spim_dev \<Rightarrow> privilege_direction \<Rightarrow> ('h, unit) spim_op" where
  "initialize_privilege_table dev direction =
     eseq (select_privilege_table dev direction)
     (eseq (for_each (\<lambda>index. write_addr_filter_slot dev index (- 1)) [0..<PRIVILEGE_TABLE_WORDS])
     (ebind (read_addr_filter_slot dev 0) (\<lambda>v.
        if v \<noteq> - 1 then fail VerificationFailed
        else ebind (read_addr_filter_slot dev (PRIVILEGE_TABLE_WORDS - 1)) (\<lambda>v'.
               ensure (v' = - 1) VerificationFailed))))"

definition validate_privilege_region :: "u32 \<Rightarrow> u32 \<Rightarrow> (spim_error, unit) result" where
  "validate_privilege_region start len =
     (if start \<ge> PRIVILEGE_ADDRESS_LIMIT then Inl InvalidAddress
      else if len = 0 \<or> checked_add start len = None then Inl InvalidLength
      else Inr ())"

text \<open>
  The loop of \<open>configure_privilege_region\<close>. The block numbers are at most \<open>2 ^ 14\<close>, so they are natural numbers
  here.
\<close>

definition block_step :: "nat \<Rightarrow> nat \<Rightarrow> nat" where
  "block_step block end_block = (if block mod 32 = 0 \<and> end_block - block \<ge> 32 then 32 else 1)"

definition region_word :: "'h spim_dev \<Rightarrow> privilege_op \<Rightarrow> nat \<Rightarrow> nat \<Rightarrow> ('h, u32) spim_op" where
  "region_word dev op block end_block =
     (let word_index = block div 32; bit_index = block mod 32
      in if bit_index = 0 \<and> end_block - block \<ge> 32
         then ret (case op of PrivEnable \<Rightarrow> - 1 | PrivDisable \<Rightarrow> 0)
         else ebind (read_addr_filter_slot_checked dev word_index) (\<lambda>v.
                case v of
                  None \<Rightarrow> fail InvalidAddress
                | Some value \<Rightarrow> ret (case op of PrivEnable \<Rightarrow> value OR push_bit bit_index 1
                                         | PrivDisable \<Rightarrow> value AND NOT (push_bit bit_index 1))))"

function region_loop :: "'h spim_dev \<Rightarrow> privilege_op \<Rightarrow> nat \<Rightarrow> nat \<Rightarrow> ('h, unit) spim_op" where
  "region_loop dev op block end_block =
     (if block < end_block
      then ebind (region_word dev op block end_block) (\<lambda>updated.
           ebind (write_addr_filter_slot_checked dev (block div 32) updated) (\<lambda>written.
           eseq (ensure written InvalidAddress)
           (ebind (read_addr_filter_slot_checked dev (block div 32)) (\<lambda>v.
            eseq (ensure (v = Some updated) VerificationFailed)
                 (region_loop dev op (block + block_step block end_block) end_block)))))
      else ret ())"
  by pat_completeness auto
termination by (relation "measure (\<lambda>(dev, op, block, end_block). end_block - block)") (auto simp: block_step_def)

declare region_loop.simps [simp del]

definition configure_privilege_region ::
  "'h spim_dev \<Rightarrow> u32 \<Rightarrow> u32 \<Rightarrow> privilege_direction \<Rightarrow> privilege_op \<Rightarrow> ('h, unit) spim_op" where
  "configure_privilege_region dev start len direction op =
     eseq (lift (validate_privilege_region start len))
     (case checked_add start len of
        None \<Rightarrow> fail InvalidLength
      | Some e \<Rightarrow>
          (let end_addr = min e PRIVILEGE_ADDRESS_LIMIT;
               aligned_start = start div PRIVILEGE_BLOCK_SIZE * PRIVILEGE_BLOCK_SIZE
           in case checked_add end_addr (PRIVILEGE_BLOCK_SIZE - 1) of
                None \<Rightarrow> fail InvalidLength
              | Some e' \<Rightarrow>
                  (let aligned_end = e' div PRIVILEGE_BLOCK_SIZE * PRIVILEGE_BLOCK_SIZE
                   in eseq (select_privilege_table dev direction)
                           (region_loop dev op (unat (aligned_start div PRIVILEGE_BLOCK_SIZE))
                              (unat (aligned_end div PRIVILEGE_BLOCK_SIZE))))))"

section \<open>Applying a policy\<close>

definition general_slot_limit :: "u8 list \<Rightarrow> nat" where
  "general_slot_limit cmds = (if 0xc5 \<in> set cmds then LAST_GENERAL_COMMAND_SLOT_EXCLUSIVE else COMMAND_TABLE_SLOTS)"

text \<open>The loop that checks the opcodes and counts those without a slot of their own.\<close>

fun count_general :: "nat \<Rightarrow> u8 list \<Rightarrow> (spim_error, nat) result" where
  "count_general n [] = Inr n"
| "count_general n (opcode # cmds) =
     (if table_value opcode False = None then Inl (UnsupportedCommand opcode)
      else count_general (if fixed_slot opcode = None then n + 1 else n) cmds)"

fun validate_regions :: "region_policy option list \<Rightarrow> (spim_error, unit) result" where
  "validate_regions [] = Inr ()"
| "validate_regions (None # rs) = validate_regions rs"
| "validate_regions (Some r # rs) =
     (case validate_privilege_region (rg_start r) (rg_length r) of
        Inl e \<Rightarrow> Inl e
      | Inr _ \<Rightarrow> validate_regions rs)"

fun write_commands :: "'h spim_dev \<Rightarrow> nat \<Rightarrow> nat \<Rightarrow> u8 list \<Rightarrow> ('h, unit) spim_op" where
  "write_commands dev limit next_slot [] = ret ()"
| "write_commands dev limit next_slot (opcode # cmds) =
     (case table_value opcode False of
        None \<Rightarrow> fail (UnsupportedCommand opcode)
      | Some value \<Rightarrow>
          (case fixed_slot opcode of
             Some slot \<Rightarrow>
               eseq (write_allow_cmd_slot dev slot value)
               (ebind (read_allow_cmd_slot dev slot) (\<lambda>v.
                eseq (ensure (v = value) VerificationFailed) (write_commands dev limit next_slot cmds)))
           | None \<Rightarrow>
               if next_slot \<ge> limit then fail NoCommandSlot
               else eseq (write_allow_cmd_slot dev next_slot value)
                    (ebind (read_allow_cmd_slot dev next_slot) (\<lambda>v.
                     eseq (ensure (v = value) VerificationFailed) (write_commands dev limit (next_slot + 1) cmds)))))"

definition configure_regions :: "'h spim_dev \<Rightarrow> region_policy option list \<Rightarrow> ('h, unit) spim_op" where
  "configure_regions dev = for_each (\<lambda>r.
     case r of
       None \<Rightarrow> ret ()
     | Some region \<Rightarrow> configure_privilege_region dev (rg_start region) (rg_length region) (rg_direction region) (rg_op region))"

definition policy_checks :: "'h spim_dev \<Rightarrow> spi_monitor_policy \<Rightarrow> ('h, unit) spim_op" where
  "policy_checks dev policy =
     (let cmds = take (allow_command_count policy) (allow_commands policy)
      in eseq (ensure (allow_command_count policy \<le> length (allow_commands policy)) InvalidSlot)
         (eseq (ensure (region_count policy \<le> MAX_REGION_SLOTS) InvalidRegion)
         (ebind (read_lock_status dev) (\<lambda>l.
          eseq (ensure (l AND LOCK_STATUS_REQUIRED = 0) PolicyLocked)
          (eseq (for_each (\<lambda>slot. ebind (read_allow_cmd_slot dev slot) (\<lambda>v. ensure (v AND COMMAND_LOCKED = 0) PolicyLocked))
                  [0..<COMMAND_TABLE_SLOTS])
          (ebind (lift (count_general 0 cmds)) (\<lambda>n.
           eseq (ensure (n \<le> general_slot_limit cmds - FIRST_GENERAL_COMMAND_SLOT) NoCommandSlot)
                (lift (validate_regions (take (region_count policy) (regions policy))))))))))) "

definition apply_policy :: "'h spim_dev \<Rightarrow> spi_monitor_policy \<Rightarrow> ('h, unit) spim_op" where
  "apply_policy dev policy =
     (let cmds = take (allow_command_count policy) (allow_commands policy)
      in eseq (policy_checks dev policy)
         (eseq (for_each (\<lambda>slot. write_allow_cmd_slot dev slot 0) [0..<COMMAND_TABLE_SLOTS])
         (eseq (write_commands dev (general_slot_limit cmds) FIRST_GENERAL_COMMAND_SLOT cmds)
         (eseq (initialize_privilege_table dev PrivRead)
         (eseq (initialize_privilege_table dev PrivWrite)
               (configure_regions dev (take (region_count policy) (regions policy))))))))"

section \<open>Operations of a configured monitor\<close>

definition software_reset :: "'h spim_dev \<Rightarrow> ('h, unit) spim_op" where
  "software_reset dev = ebind (read_ctrl dev) (\<lambda>c.
     let ctrl = c AND NOT CTRL_SW_RESET_BIT
     in eseq (write_ctrl dev (ctrl OR CTRL_SW_RESET_BIT)) (write_ctrl dev ctrl))"

text \<open>\<open>reset_filter_state\<close> of a configured monitor has the same body.\<close>

definition reset_filter_state :: "'h spim_dev \<Rightarrow> ('h, unit) spim_op" where
  "reset_filter_state dev = software_reset dev"

text \<open>The first slot in a range whose content satisfies a condition.\<close>

fun find_slot :: "'h spim_dev \<Rightarrow> (u32 \<Rightarrow> bool) \<Rightarrow> nat list \<Rightarrow> ('h, nat option) spim_op" where
  "find_slot dev P [] = ret None"
| "find_slot dev P (slot # slots) =
     ebind (read_allow_cmd_slot dev slot) (\<lambda>v. if P v then ret (Some slot) else find_slot dev P slots)"

definition add_command :: "'h spim_dev \<Rightarrow> u8 \<Rightarrow> bool \<Rightarrow> ('h, nat) spim_op" where
  "add_command dev opcode valid_once =
     (case table_value opcode valid_once of
        None \<Rightarrow> fail (UnsupportedCommand opcode)
      | Some value \<Rightarrow>
          ebind (find_slot dev (\<lambda>current. current AND 0xff = ucast opcode \<and> current AND COMMAND_LOCKED = 0)
                   [0..<COMMAND_TABLE_SLOTS]) (\<lambda>found.
            case found of
              Some slot \<Rightarrow> eseq (write_allow_cmd_slot dev slot value) (verify_command_slot dev slot value)
            | None \<Rightarrow>
                ebind (case fixed_slot opcode of
                         Some slot \<Rightarrow>
                           ebind (read_allow_cmd_slot dev slot) (\<lambda>current.
                             eseq (ensure (\<not> (current \<noteq> 0 \<and> current AND 0xff \<noteq> ucast opcode)) NoCommandSlot) (ret slot))
                       | None \<Rightarrow>
                           ebind (find_slot dev (\<lambda>v. v = 0) [FIRST_GENERAL_COMMAND_SLOT..<COMMAND_TABLE_SLOTS]) (\<lambda>free.
                             case free of None \<Rightarrow> fail NoCommandSlot | Some slot \<Rightarrow> ret slot)) (\<lambda>slot.
                ebind (read_allow_cmd_slot dev slot) (\<lambda>v.
                eseq (ensure (v AND COMMAND_LOCKED = 0) PolicyLocked)
                (eseq (write_allow_cmd_slot dev slot value) (verify_command_slot dev slot value))))))"

fun remove_slots :: "'h spim_dev \<Rightarrow> u8 \<Rightarrow> nat \<Rightarrow> nat list \<Rightarrow> ('h, nat) spim_op" where
  "remove_slots dev opcode n [] = ret n"
| "remove_slots dev opcode n (slot # slots) =
     ebind (read_allow_cmd_slot dev slot) (\<lambda>current.
       if current AND 0xff = ucast opcode
       then eseq (ensure (current AND COMMAND_LOCKED = 0) PolicyLocked)
            (eseq (write_allow_cmd_slot dev slot 0)
            (eseq (verify_command_slot dev slot 0) (remove_slots dev opcode (n + 1) slots)))
       else remove_slots dev opcode n slots)"

definition remove_command :: "'h spim_dev \<Rightarrow> u8 \<Rightarrow> ('h, nat) spim_op" where
  "remove_command dev opcode = ebind (remove_slots dev opcode 0 [0..<COMMAND_TABLE_SLOTS]) (\<lambda>n.
     eseq (ensure (n \<noteq> 0) (UnsupportedCommand opcode)) (ret n))"

fun lock_slots :: "'h spim_dev \<Rightarrow> u8 \<Rightarrow> nat \<Rightarrow> nat list \<Rightarrow> ('h, nat) spim_op" where
  "lock_slots dev opcode n [] = ret n"
| "lock_slots dev opcode n (slot # slots) =
     ebind (read_allow_cmd_slot dev slot) (\<lambda>current.
       if current AND 0xff = ucast opcode
       then let updated = current OR COMMAND_LOCKED
            in eseq (write_allow_cmd_slot dev slot updated)
               (eseq (verify_command_slot dev slot updated) (lock_slots dev opcode (n + 1) slots))
       else lock_slots dev opcode n slots)"

definition lock_command :: "'h spim_dev \<Rightarrow> u8 \<Rightarrow> ('h, nat) spim_op" where
  "lock_command dev opcode = ebind (lock_slots dev opcode 0 [0..<COMMAND_TABLE_SLOTS]) (\<lambda>n.
     eseq (ensure (n \<noteq> 0) (UnsupportedCommand opcode)) (ret n))"

definition lock_mask :: "privilege_direction \<Rightarrow> u32" where
  "lock_mask direction = (case direction of PrivRead \<Rightarrow> LOCK_READ_PRIVILEGE | PrivWrite \<Rightarrow> LOCK_WRITE_PRIVILEGE)"

definition configure_region ::
  "'h spim_dev \<Rightarrow> u32 \<Rightarrow> u32 \<Rightarrow> privilege_direction \<Rightarrow> privilege_op \<Rightarrow> ('h, unit) spim_op" where
  "configure_region dev start len direction op =
     ebind (read_lock_status dev) (\<lambda>l.
     eseq (ensure (l AND lock_mask direction = 0) PolicyLocked)
          (configure_privilege_region dev start len direction op))"

definition privilege_word :: "'h spim_dev \<Rightarrow> privilege_direction \<Rightarrow> nat \<Rightarrow> ('h, u32) spim_op" where
  "privilege_word dev direction index =
     eseq (ensure (index < PRIVILEGE_TABLE_WORDS) InvalidSlot)
     (eseq (select_privilege_table dev direction) (read_addr_filter_slot dev index))"

definition lock_privilege_table :: "'h spim_dev \<Rightarrow> privilege_direction \<Rightarrow> ('h, unit) spim_op" where
  "lock_privilege_table dev direction =
     (let m = lock_mask direction
      in eseq (modify_lock_status dev (\<lambda>bits. bits OR m))
         (ebind (read_lock_status dev) (\<lambda>l. ensure (l AND m = m) LockFailed)))"

definition monitor_enable :: "'h spim_dev \<Rightarrow> ('h, unit) spim_op" where
  "monitor_enable dev = modify_ctrl dev (\<lambda>bits. bits OR CTRL_MONITOR_ENABLE_BIT)"

definition monitor_disable :: "'h spim_dev \<Rightarrow> ('h, unit) spim_op" where
  "monitor_disable dev = modify_ctrl dev (\<lambda>bits. bits AND NOT CTRL_MONITOR_ENABLE_BIT)"

definition passthrough_bits :: "passthrough_mode \<Rightarrow> u32 \<Rightarrow> u32" where
  "passthrough_bits mode bits =
     (case mode of
        PassEnabled \<Rightarrow> bits AND NOT CTRL_PASSTHROUGH_MASK OR CTRL_SINGLE_PASSTHROUGH_BIT
      | PassMultiEnabled \<Rightarrow> bits AND NOT CTRL_PASSTHROUGH_MASK OR CTRL_MULTI_PASSTHROUGH_BIT
      | PassDisabled \<Rightarrow> bits AND NOT CTRL_PASSTHROUGH_MASK)"

definition set_passthrough :: "'h spim_dev \<Rightarrow> passthrough_mode \<Rightarrow> ('h, unit) spim_op" where
  "set_passthrough dev mode = modify_ctrl dev (passthrough_bits mode)"

text \<open>\<open>drain_log\<close> of both states; the result is the filled prefix of a buffer of the given length.\<close>

fun drain_entries :: "'h spim_dev \<Rightarrow> u32 \<Rightarrow> nat \<Rightarrow> nat \<Rightarrow> ('h, violation_log_entry list) spim_op" where
  "drain_entries dev log_base i 0 = ret []"
| "drain_entries dev log_base i (Suc n) =
     ebind (get (ram_read dev (log_base + of_nat (4 * i)))) (\<lambda>w.
     ebind (drain_entries dev log_base (Suc i) n) (\<lambda>rest. ret (violation_parse w # rest)))"

definition drain_log :: "'h spim_dev \<Rightarrow> nat \<Rightarrow> ('h, violation_log_entry list) spim_op" where
  "drain_log dev buf_len =
     ebind (log_ram_base_addr dev) (\<lambda>log_base.
     ebind (read_log_capacity_entries dev) (\<lambda>max_entries.
     ebind (read_log_idx_reg dev) (\<lambda>write_idx.
       let available = min (unat write_idx) (unat max_entries)
       in drain_entries dev log_base 0 (min available buf_len))))"

text \<open>The buffer is given by its address and its number of words.\<close>

definition configure_log :: "'h spim_dev \<Rightarrow> u64 \<Rightarrow> nat \<Rightarrow> ('h, unit) spim_op" where
  "configure_log dev address len =
     eseq (ensure (\<not> (len = 0 \<or> len > MAX_LOG_ENTRIES)) InvalidLogBuffer)
     (eseq (ensure (\<not> (address AND 3 \<noteq> 0 \<or> address > 0xffffffff)) InvalidLogBuffer)
     (eseq (act (ram_fill dev (ucast address) len))
           (write_log_config dev (ucast address) (of_nat len))))"

definition set_push_pull :: "'h spim_dev \<Rightarrow> bool \<Rightarrow> ('h, unit) spim_op" where
  "set_push_pull dev enable =
     modify_ctrl2 dev (\<lambda>bits. if enable then bits OR CTRL2_PUSH_PULL else bits AND NOT CTRL2_PUSH_PULL)"

definition enable_violation_interrupts :: "'h spim_dev \<Rightarrow> ('h, unit) spim_op" where
  "enable_violation_interrupts dev = modify_ctrl2 dev (\<lambda>bits. bits OR CTRL2_VIOLATION_IRQ_ENABLE_MASK)"

definition pending_violations :: "'h spim_dev \<Rightarrow> ('h, u32) spim_op" where
  "pending_violations dev = ebind (read_ctrl2 dev) (\<lambda>v. ret (v AND CTRL2_VIOLATION_STATUS_MASK))"

definition acknowledge_violations :: "'h spim_dev \<Rightarrow> ('h, u32) spim_op" where
  "acknowledge_violations dev = ebind (pending_violations dev) (\<lambda>pending.
     eseq (if pending \<noteq> 0 then modify_ctrl2 dev (\<lambda>bits. bits OR pending) else ret ()) (ret pending))"

definition monitor_lock :: "'h spim_dev \<Rightarrow> ('h, unit) spim_op" where
  "monitor_lock dev =
     eseq (for_each (\<lambda>slot. ebind (read_allow_cmd_slot dev slot) (\<lambda>value.
             write_allow_cmd_slot dev slot (value OR COMMAND_LOCKED))) [0..<COMMAND_TABLE_SLOTS])
     (eseq (modify_ctrl dev (\<lambda>bits. bits OR CTRL_BLOCK_FIFO_LOCK OR CTRL_SW_RESET_LOCK))
     (eseq (modify_lock_status dev (\<lambda>bits. bits OR (LOCK_CTRL OR LOCK_IRQ_CTRL OR LOCK_LOG_BASE OR LOCK_LOG_CTRL
             OR LOCK_WRITE_PRIVILEGE OR LOCK_READ_PRIVILEGE)))
     (ebind (read_lock_status dev) (\<lambda>l.
      eseq (ensure (l AND LOCK_STATUS_REQUIRED = LOCK_STATUS_REQUIRED) LockFailed)
           (for_each (\<lambda>slot. ebind (read_allow_cmd_slot dev slot) (\<lambda>v.
              ensure (v AND COMMAND_LOCKED \<noteq> 0) LockFailed)) [0..<COMMAND_TABLE_SLOTS])))))"

end
