(* ===== verification/Spim_Block.thy ===== *)
theory Spim_Block
  imports Spim_Controller
begin

unbundle bit_operations_syntax

text \<open>
  The register block of the SPI monitor as the comments of the driver describe it: plain registers, two
  privilege bitmaps behind one window, selected by the top byte of the control register, command
  slots that ignore writes once their lock bit is set, and a lock register whose bits write-protect the control register
  and the bitmaps and cannot be cleared. \<open>spipf_device\<close> states that a device behaves like
  this block in the registers that hold the policy; the other registers and the memory of the
  log are left open. The driver on such a device simulates the driver on the block.
\<close>

section \<open>The block\<close>

record spipf =
  sp_ctrl :: u32
  sp_lock :: u32
  sp_cmd :: "nat \<Rightarrow> u32"
  sp_table :: "u32 \<Rightarrow> nat \<Rightarrow> u32"

definition selected :: "spipf \<Rightarrow> u32" where
  "selected s = sp_ctrl s AND 0xff000000"

definition table_locked :: "spipf \<Rightarrow> bool" where
  "table_locked s \<longleftrightarrow> (\<exists>d \<in> set [PrivRead, PrivWrite]. selected s = select_of d \<and> sp_lock s AND lock_mask d \<noteq> 0)"

fun spipf_write :: "spim_reg \<Rightarrow> u32 \<Rightarrow> spipf \<Rightarrow> spipf" where
  "spipf_write SPIPF000 v s = (if sp_lock s AND LOCK_CTRL \<noteq> 0 then s else s\<lparr>sp_ctrl := v\<rparr>)"
| "spipf_write SPIPF07C v s = s\<lparr>sp_lock := sp_lock s OR v\<rparr>"
| "spipf_write (SPIPFWT i) v s =
     (if sp_cmd s i AND COMMAND_LOCKED \<noteq> 0 then s else s\<lparr>sp_cmd := (sp_cmd s)(i := v)\<rparr>)"
| "spipf_write (SPIPFWA i) v s =
     (if table_locked s then s
      else s\<lparr>sp_table := (sp_table s)(selected s := (sp_table s (selected s))(i := v))\<rparr>)"
| "spipf_write _ v s = s"

fun spipf_read :: "spim_reg \<Rightarrow> spipf \<Rightarrow> u32" where
  "spipf_read SPIPF000 s = sp_ctrl s"
| "spipf_read SPIPF07C s = sp_lock s"
| "spipf_read (SPIPFWT i) s = sp_cmd s i"
| "spipf_read (SPIPFWA i) s = sp_table s (selected s) i"
| "spipf_read _ s = 0"

definition spipf_dev :: "spipf spim_dev" where
  "spipf_dev = \<lparr>spim_write = spipf_write, spim_read = (\<lambda>r s. (s, spipf_read r s)), addr_filter_len = 512,
     dmawr_pointer = (\<lambda>v. v AND 0x7ffff), dmabuffer_size = (\<lambda>v. v AND 0x7ffff),
     ram_read = (\<lambda>a s. (s, 0)), ram_fill = (\<lambda>a n s. s)\<rparr>"

fun policy_reg :: "spim_reg \<Rightarrow> bool" where
  "policy_reg SPIPF000 = True"
| "policy_reg SPIPF07C = True"
| "policy_reg (SPIPFWT i) = (i < 32)"
| "policy_reg (SPIPFWA i) = (i < 512)"
| "policy_reg _ = False"

definition spipf_device :: "'h spim_dev \<Rightarrow> ('h \<Rightarrow> spipf) \<Rightarrow> bool" where
  "spipf_device dev view \<longleftrightarrow> addr_filter_len dev = 512
   \<and> (\<forall>r v h. view (spim_write dev r v h) = spipf_write r v (view h))
   \<and> (\<forall>r h. view (fst (spim_read dev r h)) = view h)
   \<and> (\<forall>r h. policy_reg r \<longrightarrow> snd (spim_read dev r h) = spipf_read r (view h))
   \<and> (\<forall>a h. view (fst (ram_read dev a h)) = view h) \<and> (\<forall>a n h. view (ram_fill dev a n h) = view h)"

section \<open>Simulation\<close>

lemma spipf_dev_device: "spipf_device spipf_dev (\<lambda>s. s)"
  by (simp add: spipf_device_def spipf_dev_def)

lemma sim_read: "spipf_device dev view \<Longrightarrow> policy_reg r \<Longrightarrow> sim view (get (spim_read dev r)) (get (spim_read spipf_dev r))"
  by (rule sim_get) (simp add: spipf_device_def spipf_dev_def)

lemma sim_write: "spipf_device dev view \<Longrightarrow> sim view (act (spim_write dev r v)) (act (spim_write spipf_dev r v))"
  by (rule sim_act) (simp add: spipf_device_def spipf_dev_def)

lemma sim_len: "spipf_device dev view \<Longrightarrow> addr_filter_len dev = addr_filter_len spipf_dev"
  by (simp add: spipf_device_def spipf_dev_def)

lemma len_spipf [simp]: "addr_filter_len spipf_dev = 512"
  by (simp add: spipf_dev_def)

lemma sim_registers [sim_intros]:
  assumes "spipf_device dev view"
  shows "sim view (read_ctrl dev) (read_ctrl spipf_dev)" "sim view (write_ctrl dev v) (write_ctrl spipf_dev v)"
    "sim view (read_lock_status dev) (read_lock_status spipf_dev)"
    "sim view (write_lock_status dev v) (write_lock_status spipf_dev v)"
    "i < 32 \<Longrightarrow> sim view (read_allow_cmd_slot dev i) (read_allow_cmd_slot spipf_dev i)"
    "sim view (write_allow_cmd_slot dev i v) (write_allow_cmd_slot spipf_dev i v)"
    "i < 512 \<Longrightarrow> sim view (read_addr_filter_slot dev i) (read_addr_filter_slot spipf_dev i)"
    "sim view (write_addr_filter_slot dev i v) (write_addr_filter_slot spipf_dev i v)"
  unfolding read_ctrl_def write_ctrl_def read_lock_status_def write_lock_status_def read_allow_cmd_slot_def
    write_allow_cmd_slot_def read_addr_filter_slot_def write_addr_filter_slot_def
  by (simp_all add: sim_read sim_write assms)

lemma sim_modify [sim_intros]:
  "spipf_device dev view \<Longrightarrow> sim view (modify_ctrl dev f) (modify_ctrl spipf_dev f)"
  "spipf_device dev view \<Longrightarrow> sim view (modify_lock_status dev f) (modify_lock_status spipf_dev f)"
  unfolding modify_ctrl_def modify_lock_status_def by (intro sim_intros; assumption)+

lemma sim_checked [sim_intros]:
  assumes "spipf_device dev view"
  shows "sim view (read_addr_filter_slot_checked dev i) (read_addr_filter_slot_checked spipf_dev i)"
    "sim view (write_addr_filter_slot_checked dev i v) (write_addr_filter_slot_checked spipf_dev i v)"
  unfolding read_addr_filter_slot_checked_def write_addr_filter_slot_checked_def sim_len [OF assms]
  using assms by (auto intro!: sim_intros)

lemma sim_select [sim_intros]:
  "spipf_device dev view \<Longrightarrow> sim view (select_privilege_table dev d) (select_privilege_table spipf_dev d)"
  unfolding select_privilege_table_def by (rule sim_modify)

lemma sim_init [sim_intros]:
  "spipf_device dev view \<Longrightarrow> sim view (initialize_privilege_table dev d) (initialize_privilege_table spipf_dev d)"
  unfolding initialize_privilege_table_def PRIVILEGE_TABLE_WORDS_def by (intro sim_intros) simp_all

lemma sim_region_word [sim_intros]:
  "spipf_device dev view \<Longrightarrow> sim view (region_word dev op b e) (region_word spipf_dev op b e)"
  unfolding region_word_def Let_def by (intro sim_intros)

lemma sim_region_loop [sim_intros]:
  assumes "spipf_device dev view"
  shows "sim view (region_loop dev op b e) (region_loop spipf_dev op b e)"
  using assms
proof (induction dev op b e rule: region_loop.induct)
  case (1 dev op b e)
  then show ?case
    by (subst (1 2) region_loop.simps) (intro sim_intros; assumption?)
qed

lemma sim_configure [sim_intros]:
  "spipf_device dev view \<Longrightarrow>
    sim view (configure_privilege_region dev st len d op) (configure_privilege_region spipf_dev st len d op)"
  unfolding configure_privilege_region_def Let_def by (intro sim_intros)

lemma sim_write_commands [sim_intros]:
  assumes "spipf_device dev view" "limit \<le> 32"
  shows "sim view (write_commands dev limit nx cmds) (write_commands spipf_dev limit nx cmds)"
  using assms by (induction cmds arbitrary: nx) (auto intro!: sim_intros simp: fixed_slot_cases)

lemma sim_apply_policy:
  assumes "spipf_device dev view"
  shows "sim view (apply_policy dev policy) (apply_policy spipf_dev policy)"
  unfolding apply_policy_def policy_checks_def configure_regions_def Let_def
  using assms by (intro sim_intros) (auto simp: general_slot_limit_def COMMAND_TABLE_SLOTS_def
      LAST_GENERAL_COMMAND_SLOT_EXCLUSIVE_def split: option.splits intro!: sim_intros)

lemma sim_lock: "spipf_device dev view \<Longrightarrow> sim view (monitor_lock dev) (monitor_lock spipf_dev)"
  unfolding monitor_lock_def by (intro sim_intros) (simp_all add: COMMAND_TABLE_SLOTS_def)

lemma sim_configure_region:
  "spipf_device dev view \<Longrightarrow> sim view (configure_region dev st len d op) (configure_region spipf_dev st len d op)"
  unfolding configure_region_def by (intro sim_intros)

end
