(* ===== verification/Spim_Properties.thy ===== *)
theory Spim_Properties
  imports Spim_Block
begin

unbundle bit_operations_syntax

text \<open>
  What the SPI monitor driver does to the policy registers: a region update changes exactly the blocks
  that the region touches, an applied policy filters as its list of regions says and admits exactly the listed
  commands, a policy that is rejected changes nothing, and a locked monitor is locked.
\<close>

section \<open>The driver on the register block\<close>

lemma spipf_run [simp]:
  "read_ctrl spipf_dev s = (s, Inr (sp_ctrl s))" "write_ctrl spipf_dev v s = (spipf_write SPIPF000 v s, Inr ())"
  "read_lock_status spipf_dev s = (s, Inr (sp_lock s))"
  "write_lock_status spipf_dev v s = (spipf_write SPIPF07C v s, Inr ())"
  "read_allow_cmd_slot spipf_dev i s = (s, Inr (sp_cmd s i))"
  "write_allow_cmd_slot spipf_dev i v s = (spipf_write (SPIPFWT i) v s, Inr ())"
  "read_addr_filter_slot spipf_dev i s = (s, Inr (sp_table s (selected s) i))"
  "write_addr_filter_slot spipf_dev i v s = (spipf_write (SPIPFWA i) v s, Inr ())"
  by (simp_all add: read_ctrl_def write_ctrl_def read_lock_status_def write_lock_status_def read_allow_cmd_slot_def
      write_allow_cmd_slot_def read_addr_filter_slot_def write_addr_filter_slot_def get_def spipf_dev_def)

definition on_select :: "privilege_direction \<Rightarrow> spipf \<Rightarrow> bool" where
  "on_select d s \<longleftrightarrow> selected s = select_of d \<and> sp_lock s AND lock_mask d = 0"

lemma select_of_inj: "(select_of d = select_of d') = (d = d')"
  by (cases d; cases d') (simp_all add: select_of_def PRIVILEGE_READ_SELECT_def PRIVILEGE_WRITE_SELECT_def)

lemma on_select_unlocked: "on_select d s \<Longrightarrow> \<not> table_locked s"
  by (auto simp: on_select_def table_locked_def select_of_inj)

definition set_table :: "privilege_direction \<Rightarrow> (nat \<Rightarrow> u32) \<Rightarrow> spipf \<Rightarrow> spipf" where
  "set_table d T s = s\<lparr>sp_table := (sp_table s)(select_of d := T)\<rparr>"

lemma set_table_simps [simp]:
  "selected (set_table d T s) = selected s" "sp_lock (set_table d T s) = sp_lock s" "sp_cmd (set_table d T s) = sp_cmd s"
  "sp_ctrl (set_table d T s) = sp_ctrl s" "on_select d' (set_table d T s) = on_select d' s"
  "set_table d T (set_table d T' s) = set_table d T s"
  "sp_table (set_table d T s) (select_of d') = (if d = d' then T else sp_table s (select_of d'))"
  by (auto simp: set_table_def selected_def on_select_def select_of_inj)

lemma set_table_same: "set_table d (sp_table s (select_of d)) s = s"
  by (simp add: set_table_def)

lemma filter_write: "on_select d s \<Longrightarrow>
    spipf_write (SPIPFWA i) v s = set_table d ((sp_table s (select_of d))(i := v)) s"
  using on_select_unlocked [of d s] by (simp add: on_select_def set_table_def)

lemma filter_read: "on_select d s \<Longrightarrow> sp_table s (selected s) i = sp_table s (select_of d) i"
  by (simp add: on_select_def)

section \<open>Region updates\<close>

definition priv_bit :: "(nat \<Rightarrow> u32) \<Rightarrow> nat \<Rightarrow> bool" where
  "priv_bit T k = bit (T (k div 32)) (k mod 32)"

lemma div_mod_32: "k = b \<longleftrightarrow> k div 32 = b div 32 \<and> k mod 32 = b mod (32 :: nat)"
  by (metis div_mult_mod_eq)

lemma priv_bit_one:
  "priv_bit (T(b div 32 := T (b div 32) OR push_bit (b mod 32) 1)) k = (k = b \<or> priv_bit T k)"
  "priv_bit (T(b div 32 := T (b div 32) AND NOT (push_bit (b mod 32) 1))) k = (k \<noteq> b \<and> priv_bit T k)"
  by (auto simp: priv_bit_def div_mod_32 [of k b] bit_simps)

lemma priv_bit_word:
  assumes "b mod 32 = 0"
  shows "priv_bit (T(b div 32 := - 1)) k = (b \<le> k \<and> k < b + 32 \<or> priv_bit T k)"
    "priv_bit (T(b div 32 := 0)) k = (\<not> (b \<le> k \<and> k < b + 32) \<and> priv_bit T k)"
proof -
  from assms obtain q where q: "b = 32 * q" by (auto simp: mod_eq_0_iff_dvd dvd_def)
  have "k div 32 = q \<longleftrightarrow> 32 * q \<le> k \<and> k < 32 * q + 32"
  proof
    assume "k div 32 = q"
    then show "32 * q \<le> k \<and> k < 32 * q + 32"
      using mult_div_mod_eq [of 32 k] mod_less_divisor [of 32 k] by linarith
  qed (auto intro!: div_nat_eqI)
  then have "k div 32 = b div 32 \<longleftrightarrow> b \<le> k \<and> k < b + 32" by (simp add: q)
  then show "priv_bit (T(b div 32 := - 1)) k = (b \<le> k \<and> k < b + 32 \<or> priv_bit T k)"
    "priv_bit (T(b div 32 := 0)) k = (\<not> (b \<le> k \<and> k < b + 32) \<and> priv_bit T k)"
    by (auto simp: priv_bit_def)
qed

definition granted :: "privilege_op \<Rightarrow> bool" where
  "granted op = (op = PrivEnable)"

lemma region_word_block:
  assumes "on_select d s" "b < 16384" "b < e"
  shows "\<exists>u. region_word spipf_dev op b e s = (s, Inr u)
    \<and> (\<forall>k. priv_bit ((sp_table s (select_of d))(b div 32 := u)) k
         = (if b \<le> k \<and> k < b + block_step b e then granted op else priv_bit (sp_table s (select_of d)) k))"
proof (cases "b mod 32 = 0 \<and> 32 \<le> e - b")
  case True
  then show ?thesis
    by (cases op) (auto simp: region_word_def block_step_def granted_def priv_bit_word)
next
  case False
  have "b div 32 < 512" using assms(2) by simp
  with False assms(1) show ?thesis
    by (cases op) (auto simp: region_word_def block_step_def granted_def Let_def read_addr_filter_slot_checked_def
        ebind_okI filter_read priv_bit_one simp del: push_bit_of_1)
qed

lemma region_loop_block:
  assumes "on_select d s" "e \<le> 16384"
  shows "\<exists>T. region_loop spipf_dev op b e s = (set_table d T s, Inr ())
    \<and> (\<forall>k. priv_bit T k = (if b \<le> k \<and> k < e then granted op else priv_bit (sp_table s (select_of d)) k))"
  using assms(1)
proof (induction "e - b" arbitrary: b s rule: less_induct)
  case less
  show ?case
  proof (cases "b < e")
    case False
    then have "region_loop spipf_dev op b e s = (set_table d (sp_table s (select_of d)) s, Inr ())"
      by (simp add: region_loop.simps set_table_same)
    with False show ?thesis by fastforce
  next
    case True
    let ?T = "sp_table s (select_of d)" and ?b = "b + block_step b e"
    from region_word_block [OF less.prems _ True, of op] True assms(2) obtain u where
      u: "region_word spipf_dev op b e s = (s, Inr u)"
        "\<forall>k. priv_bit (?T(b div 32 := u)) k = (if b \<le> k \<and> k < ?b then granted op else priv_bit ?T k)" by auto
    let ?s = "set_table d (?T(b div 32 := u)) s"
    have step: "0 < block_step b e" "?b \<le> e" using True by (auto simp: block_step_def)
    have len: "b div 32 < 512" using True assms(2) by simp
    have s: "on_select d ?s" using less.prems by simp
    have "region_loop spipf_dev op b e s = region_loop spipf_dev op ?b e ?s"
      using True u(1) len filter_write [OF less.prems] filter_read [OF s]
      by (subst region_loop.simps) (simp add: ebind_okI eseq_okI write_addr_filter_slot_checked_def
          read_addr_filter_slot_checked_def)
    moreover have "e - ?b < e - b" using step True by simp
    ultimately obtain T where T: "region_loop spipf_dev op b e s = (set_table d T ?s, Inr ())"
      "\<forall>k. priv_bit T k = (if ?b \<le> k \<and> k < e then granted op else priv_bit (?T(b div 32 := u)) k)"
      using less.hyps [of ?b ?s] s by auto
    then have "\<forall>k. priv_bit T k = (if b \<le> k \<and> k < e then granted op else priv_bit ?T k)"
      using u(2) step by auto
    with T(1) show ?thesis by auto
  qed
qed

text \<open>The blocks that a region touches.\<close>

definition touches :: "u32 \<Rightarrow> u32 \<Rightarrow> nat \<Rightarrow> bool" where
  "touches start len k \<longleftrightarrow> unat start < (k + 1) * 16384 \<and> k * 16384 < unat start + unat len"

lemma block_bounds:
  assumes "k < 16384"
  shows "st div 16384 \<le> k \<longleftrightarrow> st < (k + 1) * (16384 :: nat)"
    "k < (min e 268435456 + 16383) div 16384 \<longleftrightarrow> k * 16384 < e"
proof -
  show "st div 16384 \<le> k \<longleftrightarrow> st < (k + 1) * (16384 :: nat)"
    using div_less_iff_less_mult [of 16384 st "k + 1"] by (simp add: less_Suc_eq_le)
  have "k < (m + 16383) div 16384 \<longleftrightarrow> k * 16384 < m" for m
    using less_eq_div_iff_mult_less_eq [of 16384 "k + 1" "m + 16383"] by auto
  then show "k < (min e 268435456 + 16383) div 16384 \<longleftrightarrow> k * 16384 < e" using assms by simp
qed

definition reselect :: "privilege_direction \<Rightarrow> spipf \<Rightarrow> spipf" where
  "reselect d s = s\<lparr>sp_ctrl := sp_ctrl s AND 0x00ffffff OR select_of d\<rparr>"

lemma reselect_selected: "selected (reselect d s) = select_of d"
proof -
  have "(sp_ctrl s AND 0x00ffffff) AND 0xff000000 = 0" by (simp add: and.assoc)
  then show ?thesis
    by (cases d) (simp_all add: selected_def reselect_def or_and select_of_def PRIVILEGE_READ_SELECT_def
        PRIVILEGE_WRITE_SELECT_def)
qed

lemma reselect_simps [simp]:
  "sp_lock (reselect d s) = sp_lock s" "sp_cmd (reselect d s) = sp_cmd s" "sp_table (reselect d s) = sp_table s"
  by (simp_all add: reselect_def)

definition unlocked :: "spipf \<Rightarrow> bool" where
  "unlocked s \<longleftrightarrow> sp_lock s AND LOCK_CTRL = 0 \<and> (\<forall>d. sp_lock s AND lock_mask d = 0)"

lemma unlocked_simps [simp]: "unlocked (reselect d s) = unlocked s" "unlocked (set_table d T s) = unlocked s"
  by (simp_all add: unlocked_def)

lemma select_block: "sp_lock s AND LOCK_CTRL = 0 \<Longrightarrow> select_privilege_table spipf_dev d s = (reselect d s, Inr ())"
  by (simp add: select_privilege_table_def modify_ctrl_def ebind_okI reselect_def)

lemma on_reselect: "sp_lock s AND lock_mask d = 0 \<Longrightarrow> on_select d (reselect d s)"
  by (simp add: on_select_def reselect_selected)

lemma unat_limit: "unat PRIVILEGE_ADDRESS_LIMIT = 268435456" "unat PRIVILEGE_BLOCK_SIZE = 16384"
  by (simp_all add: PRIVILEGE_ADDRESS_LIMIT_def PRIVILEGE_BLOCK_SIZE_def)

lemma unat_min: "unat (min a b) = min (unat a) (unat (b :: u32))"
  by (simp add: min_def word_le_nat_alt)

text \<open>Alignment down to a block and then division by its size is division by its size.\<close>

lemma align_div: "unat (a div PRIVILEGE_BLOCK_SIZE * PRIVILEGE_BLOCK_SIZE div PRIVILEGE_BLOCK_SIZE) = unat a div 16384"
proof -
  have "unat a div 16384 * 16384 \<le> unat a" by simp
  then have "unat a div 16384 * 16384 < 2 ^ LENGTH(32)"
    using unsigned_less [of a] by (rule le_less_trans)
  then have "unat (a div PRIVILEGE_BLOCK_SIZE * PRIVILEGE_BLOCK_SIZE) = unat a div 16384 * 16384"
    by (simp add: unat_word_ariths unat_div unat_limit)
  then show ?thesis by (simp add: unat_div unat_limit)
qed

lemma configure_block:
  assumes "sp_lock s AND LOCK_CTRL = 0" "sp_lock s AND lock_mask d = 0" "validate_privilege_region st len = Inr ()"
  shows "\<exists>T. configure_privilege_region spipf_dev st len d op s = (set_table d T (reselect d s), Inr ())
    \<and> (\<forall>k<16384. priv_bit T k = (if touches st len k then granted op else priv_bit (sp_table s (select_of d)) k))"
proof -
  from assms(3) obtain e where e: "checked_add st len = Some e"
    by (auto simp: validate_privilege_region_def split: if_splits)
  let ?stop = "min e PRIVILEGE_ADDRESS_LIMIT"
  have "unat ?stop + unat (PRIVILEGE_BLOCK_SIZE - 1) < 2 ^ LENGTH(32)"
    by (simp add: unat_min unat_limit PRIVILEGE_BLOCK_SIZE_def)
  then obtain e' where e': "checked_add ?stop (PRIVILEGE_BLOCK_SIZE - 1) = Some e'" by (simp add: checked_add_def)
  have u: "unat e = unat st + unat len" "unat e' = min (unat st + unat len) 268435456 + 16383"
    using checked_add_SomeD [OF e] checked_add_SomeD [OF e'] by (simp_all add: unat_min unat_limit PRIVILEGE_BLOCK_SIZE_def)
  let ?b = "unat st div 16384" and ?e = "unat e' div 16384"
  have "?e \<le> 16384" using u(2) by simp
  from region_loop_block [OF on_reselect [OF assms(2)] this, of op ?b] obtain T where
    T: "region_loop spipf_dev op ?b ?e (reselect d s) = (set_table d T (reselect d s), Inr ())"
      "\<forall>k. priv_bit T k = (if ?b \<le> k \<and> k < ?e then granted op else priv_bit (sp_table s (select_of d)) k)" by auto
  have "configure_privilege_region spipf_dev st len d op s = region_loop spipf_dev op ?b ?e (reselect d s)"
    using assms(3) e e' select_block [OF assms(1)] align_div
    by (simp add: configure_privilege_region_def Let_def eseq_okI)
  moreover have "?b \<le> k \<and> k < ?e \<longleftrightarrow> touches st len k" if "k < 16384" for k
    using block_bounds [OF that] by (simp add: touches_def u(2))
  ultimately show ?thesis using T by auto
qed

section \<open>Policies as filters\<close>

definition region_verdict :: "privilege_direction \<Rightarrow> nat \<Rightarrow> bool \<Rightarrow> region_policy option \<Rightarrow> bool" where
  "region_verdict d k allowed r =
     (case r of
        Some region \<Rightarrow> if rg_direction region = d \<and> touches (rg_start region) (rg_length region) k
                       then granted (rg_op region) else allowed
      | None \<Rightarrow> allowed)"

text \<open>The last region that touches a block decides; a block that none touches is open.\<close>

definition policy_allows :: "spi_monitor_policy \<Rightarrow> privilege_direction \<Rightarrow> u32 \<Rightarrow> bool" where
  "policy_allows p d a = foldl (region_verdict d (unat a div 16384)) True (take (region_count p) (regions p))"

definition mem_allows :: "spipf \<Rightarrow> privilege_direction \<Rightarrow> u32 \<Rightarrow> bool" where
  "mem_allows s d a = priv_bit (sp_table s (select_of d)) (unat a div 16384)"

definition policy_commands :: "spi_monitor_policy \<Rightarrow> u8 list" where
  "policy_commands p = take (allow_command_count p) (allow_commands p)"

definition cmd_allows :: "spipf \<Rightarrow> u8 \<Rightarrow> bool" where
  "cmd_allows s opcode = list_ex (\<lambda>i. sp_cmd s i AND 0xff = ucast opcode \<and> sp_cmd s i AND (VALID OR VALID_ONCE) \<noteq> 0) [0..<32]"

lemma init_block:
  assumes "unlocked s"
  shows "\<exists>T. initialize_privilege_table spipf_dev d s = (set_table d T (reselect d s), Inr ()) \<and> (\<forall>k<16384. priv_bit T k)"
proof -
  have lock: "sp_lock s AND LOCK_CTRL = 0" "sp_lock s AND lock_mask d = 0" using assms by (simp_all add: unlocked_def)
  let ?w = "\<lambda>i. spipf_write (SPIPFWA i) (- 1)"
  have fill: "fold ?w xs s' = set_table d (\<lambda>i. if i \<in> set xs then - 1 else sp_table s' (select_of d) i) s'"
    if "on_select d s'" for xs s'
    using that
  proof (induction xs arbitrary: s')
    case Nil
    then show ?case by (simp add: set_table_same)
  next
    case (Cons x xs)
    then have "on_select d (?w x s')" by (simp add: filter_write del: spipf_write.simps)
    from Cons.IH [OF this] Cons.prems show ?case
      by (simp add: filter_write fun_upd_def if_distrib [of "\<lambda>y. y = _"] cong: if_cong del: spipf_write.simps)
        (rule arg_cong [of _ _ "\<lambda>T. set_table d T s'"], auto)
  qed
  let ?T = "\<lambda>i. if i < 512 then - 1 else sp_table s (select_of d) i"
  have sel: "on_select d (reselect d s)" by (rule on_reselect [OF lock(2)])
  have "for_each (\<lambda>i. write_addr_filter_slot spipf_dev i (- 1)) [0..<512] (reselect d s) = (set_table d ?T (reselect d s), Inr ())"
    by (subst for_each_fold [where g = ?w]) (simp_all add: fill [OF sel] del: spipf_write.simps upt_Suc cong: if_cong)
  then have "initialize_privilege_table spipf_dev d s = (set_table d ?T (reselect d s), Inr ())"
    using filter_read [of d "set_table d ?T (reselect d s)"] sel select_block [OF lock(1)]
    by (simp add: initialize_privilege_table_def PRIVILEGE_TABLE_WORDS_def eseq_okI ebind_okI del: upt_Suc)
  moreover have "\<forall>k<16384. priv_bit ?T k" by (auto simp: priv_bit_def)
  ultimately show ?thesis by blast
qed

lemma validate_regions_ok: "validate_regions rs = Inr () \<longleftrightarrow>
    (\<forall>r. Some r \<in> set rs \<longrightarrow> validate_privilege_region (rg_start r) (rg_length r) = Inr ())"
  by (induction rs rule: validate_regions.induct) (auto split: sum.splits)

lemma configure_regions_block:
  assumes "unlocked s" "validate_regions rs = Inr ()"
  shows "\<exists>s'. configure_regions spipf_dev rs s = (s', Inr ()) \<and> unlocked s' \<and> sp_cmd s' = sp_cmd s
    \<and> (\<forall>d. \<forall>k<16384. priv_bit (sp_table s' (select_of d)) k
          = foldl (region_verdict d k) (priv_bit (sp_table s (select_of d)) k) rs)"
  using assms
proof (induction rs arbitrary: s)
  case (Cons r rs)
  have rest: "validate_regions rs = Inr ()" using Cons.prems(2) by (simp add: validate_regions_ok)
  show ?case
  proof (cases r)
    case None
    with Cons.IH [OF Cons.prems(1) rest] show ?thesis by (simp add: configure_regions_def region_verdict_def)
  next
    case (Some g)
    let ?d = "rg_direction g"
    have v: "validate_privilege_region (rg_start g) (rg_length g) = Inr ()"
      using Cons.prems(2) unfolding validate_regions_ok Some by (meson list.set_intros(1))
    have lock: "sp_lock s AND LOCK_CTRL = 0" "sp_lock s AND lock_mask ?d = 0"
      using Cons.prems(1) by (simp_all add: unlocked_def)
    from configure_block [OF lock v, of "rg_op g"] obtain T where
      T: "configure_privilege_region spipf_dev (rg_start g) (rg_length g) ?d (rg_op g) s = (set_table ?d T (reselect ?d s), Inr ())"
        "\<forall>k<16384. priv_bit T k = (if touches (rg_start g) (rg_length g) k then granted (rg_op g)
            else priv_bit (sp_table s (select_of ?d)) k)" by blast
    let ?s = "set_table ?d T (reselect ?d s)"
    have "unlocked ?s" using Cons.prems(1) by simp
    from Cons.IH [OF this rest] obtain s' where
      s': "configure_regions spipf_dev rs ?s = (s', Inr ())" "unlocked s'" "sp_cmd s' = sp_cmd ?s"
        "\<forall>d. \<forall>k<16384. priv_bit (sp_table s' (select_of d)) k = foldl (region_verdict d k) (priv_bit (sp_table ?s (select_of d)) k) rs"
      by blast
    have "configure_regions spipf_dev (r # rs) s = (s', Inr ())"
      using s'(1) T(1) Some by (simp add: configure_regions_def eseq_okI)
    moreover have "priv_bit (sp_table ?s (select_of d)) k = region_verdict d k (priv_bit (sp_table s (select_of d)) k) r"
      if "k < 16384" for d k using T(2) that Some by (auto simp: region_verdict_def)
    ultimately show ?thesis using s'(2-4) by auto
  qed
qed (auto simp: configure_regions_def)

section \<open>The command table\<close>

abbreviation tv :: "u8 \<Rightarrow> u32" where
  "tv opcode \<equiv> the (table_value opcode False)"

fun place :: "nat \<Rightarrow> u8 list \<Rightarrow> (nat \<Rightarrow> u32) \<Rightarrow> nat \<Rightarrow> u32" where
  "place nx [] c = c"
| "place nx (opcode # cmds) c =
     (case fixed_slot opcode of
        Some slot \<Rightarrow> place nx cmds (c(slot := tv opcode))
      | None \<Rightarrow> place (nx + 1) cmds (c(nx := tv opcode)))"

definition generals :: "u8 list \<Rightarrow> nat" where
  "generals cmds = length (filter (\<lambda>opcode. fixed_slot opcode = None) cmds)"

definition supported :: "u8 list \<Rightarrow> bool" where
  "supported cmds \<longleftrightarrow> list_all (\<lambda>opcode. table_value opcode False \<noteq> None) cmds"

lemma count_general_ok: "count_general n cmds = Inr m \<longleftrightarrow> supported cmds \<and> m = n + generals cmds"
  by (induction cmds arbitrary: n) (auto simp: supported_def generals_def)

lemma cmd_write: "sp_cmd s i AND COMMAND_LOCKED = 0 \<Longrightarrow> spipf_write (SPIPFWT i) v s = s\<lparr>sp_cmd := (sp_cmd s)(i := v)\<rparr>"
  by simp

lemma write_commands_block:
  assumes "\<forall>i<32. sp_cmd s i AND COMMAND_LOCKED = 0" "supported cmds" "nx + generals cmds \<le> limit" "limit \<le> 32"
  shows "write_commands spipf_dev limit nx cmds s = (s\<lparr>sp_cmd := place nx cmds (sp_cmd s)\<rparr>, Inr ())"
  using assms
proof (induction cmds arbitrary: nx s)
  case (Cons opcode cmds)
  then obtain v where v: "table_value opcode False = Some v" by (auto simp: supported_def)
  have sup: "supported cmds" using Cons.prems(2) by (simp add: supported_def)
  let ?s = "\<lambda>i. s\<lparr>sp_cmd := (sp_cmd s)(i := v)\<rparr>"
  have unl: "\<forall>j<32. sp_cmd (?s i) j AND COMMAND_LOCKED = 0" for i
    using Cons.prems(1) table_value_facts(2) [OF v] by simp
  show ?case
  proof (cases "fixed_slot opcode")
    case None
    with Cons.prems(3) have "Suc nx + generals cmds \<le> limit" "nx < limit" by (simp_all add: generals_def)
    with None Cons.IH [OF unl sup, of "Suc nx" nx] Cons.prems(1,4) v show ?thesis
      by (simp add: eseq_okI ebind_okI cmd_write fun_upd_def del: spipf_write.simps)
  next
    case (Some slot)
    with Cons.prems(3) have "nx + generals cmds \<le> limit" "slot < 32" by (auto simp: generals_def fixed_slot_cases)
    with Some Cons.IH [OF unl sup, of nx slot] Cons.prems(1,4) v show ?thesis
      by (simp add: eseq_okI ebind_okI cmd_write fun_upd_def del: spipf_write.simps)
  qed
qed simp

lemma place_source: "place nx cmds c i = c i \<or> (\<exists>opcode \<in> set cmds. place nx cmds c i = tv opcode)"
  by (induction nx cmds c rule: place.induct) (fastforce split: option.splits if_splits)+

text \<open>A written slot keeps its entry: no later general slot reaches it, and a fixed slot belongs to one opcode.\<close>

lemma place_keeps:
  assumes "c i = tv opcode" "i < nx \<or> nx + generals cmds \<le> i"
    "\<forall>o' \<in> set cmds. fixed_slot o' = Some i \<longrightarrow> o' = opcode"
  shows "place nx cmds c i = tv opcode"
  using assms
proof (induction nx cmds c rule: place.induct)
  case (2 nx o' cmds c)
  show ?case
  proof (cases "fixed_slot o'")
    case None
    with "2.prems"(2) have "i \<noteq> nx" "i < Suc nx \<or> Suc nx + generals cmds \<le> i" by (auto simp: generals_def)
    with "2.IH"(1) [OF None] "2.prems" None show ?thesis by (simp add: fun_upd_def)
  next
    case (Some slot)
    with "2.prems"(2) have "i < nx \<or> nx + generals cmds \<le> i" by (simp add: generals_def)
    with "2.IH"(2) [OF Some] "2.prems" Some show ?thesis by (auto simp: fun_upd_def)
  qed
qed simp

definition fixed_clear :: "nat \<Rightarrow> u8 list \<Rightarrow> bool" where
  "fixed_clear nx cmds \<longleftrightarrow> 2 \<le> nx \<and> (0xc5 \<in> set cmds \<longrightarrow> nx + generals cmds \<le> 31)"

lemma place_contains:
  assumes "opcode \<in> set cmds" "nx + generals cmds \<le> 32" "fixed_clear nx cmds"
  shows "\<exists>i<32. place nx cmds c i = tv opcode"
  using assms
proof (induction nx cmds c rule: place.induct)
  case (2 nx o' cmds c)
  have clear: "fixed_slot o' = None \<Longrightarrow> fixed_clear (nx + 1) cmds" "fixed_slot o' \<noteq> None \<Longrightarrow> fixed_clear nx cmds"
    using "2.prems"(3) by (auto simp: fixed_clear_def generals_def)
  show ?case
  proof (cases "opcode \<in> set cmds")
    case True
    with "2.IH" "2.prems"(2) clear show ?thesis by (auto simp: generals_def fun_upd_def split: option.splits)
  next
    case False
    with "2.prems"(1) have o: "o' = opcode" by simp
    show ?thesis
    proof (cases "fixed_slot opcode")
      case None
      have "fixed_slot o'' = Some nx \<Longrightarrow> o'' \<notin> set cmds" for o''
        using "2.prems"(2,3) None o by (auto simp: fixed_slot_cases fixed_clear_def generals_def)
      then have "place (nx + 1) cmds (c(nx := tv opcode)) nx = tv opcode" by (intro place_keeps) auto
      with None o "2.prems"(2) show ?thesis by (auto simp: generals_def intro!: exI [of _ nx])
    next
      case (Some slot)
      have "slot < nx \<or> nx + generals cmds \<le> slot" "slot < 32"
        using "2.prems"(2,3) Some o by (auto simp: fixed_slot_cases fixed_clear_def generals_def)
      moreover have "\<forall>o''\<in>set cmds. fixed_slot o'' = Some slot \<longrightarrow> o'' = opcode"
        using Some by (auto simp: fixed_slot_cases)
      ultimately have "place nx cmds (c(slot := tv opcode)) slot = tv opcode" by (intro place_keeps) auto
      with Some o \<open>slot < 32\<close> show ?thesis by auto
    qed
  qed
qed simp

section \<open>Applying a policy\<close>

definition policy_valid :: "spi_monitor_policy \<Rightarrow> bool" where
  "policy_valid p \<longleftrightarrow> allow_command_count p \<le> length (allow_commands p) \<and> region_count p \<le> MAX_REGION_SLOTS
     \<and> supported (policy_commands p)
     \<and> generals (policy_commands p) \<le> general_slot_limit (policy_commands p) - FIRST_GENERAL_COMMAND_SLOT
     \<and> validate_regions (take (region_count p) (regions p)) = Inr ()"

definition policy_open :: "spipf \<Rightarrow> bool" where
  "policy_open s \<longleftrightarrow> sp_lock s AND LOCK_STATUS_REQUIRED = 0 \<and> list_all (\<lambda>i. sp_cmd s i AND COMMAND_LOCKED = 0) [0..<32]"

lemma and_or_0: "(w AND (a OR b) = 0) = (w AND a = 0 \<and> w AND (b :: u32) = 0)"
  by (simp add: bit.conj_disj_distrib or_eq_0_iff)

lemma policy_open_unlocked: "policy_open s \<Longrightarrow> unlocked s"
  by (auto simp: policy_open_def unlocked_def LOCK_STATUS_REQUIRED_def and_or_0 lock_mask_def split: privilege_direction.splits)

lemma policy_checks_block:
  "\<exists>r. policy_checks spipf_dev p s = (s, r) \<and> (r = Inr () \<longleftrightarrow> policy_valid p \<and> policy_open s)"
proof -
  let ?cmds = "policy_commands p"
  let ?slots = "for_each (\<lambda>slot. ebind (read_allow_cmd_slot spipf_dev slot) (\<lambda>v. ensure (v AND COMMAND_LOCKED = 0) PolicyLocked))
      [0..<COMMAND_TABLE_SLOTS]"
  let ?open = "list_all (\<lambda>i. sp_cmd s i AND COMMAND_LOCKED = 0) [0..<32]"
  have slots: "?slots s = (s, if ?open then Inr () else Inl PolicyLocked)"
    unfolding COMMAND_TABLE_SLOTS_def by (rule for_each_check) (simp add: ebind_okI ensure_run)
  show ?thesis
  proof (cases "allow_command_count p \<le> length (allow_commands p) \<and> region_count p \<le> MAX_REGION_SLOTS \<and> policy_open s")
    case False
    then show ?thesis
      using slots unfolding policy_checks_def Let_def
      by (auto simp: policy_valid_def policy_open_def ensure_def eseq_okI eseq_errI ebind_okI ebind_errI
          simp del: upt_Suc split: if_splits)
  next
    case True
    then show ?thesis
      using slots count_general_ok [of 0 ?cmds] unfolding policy_checks_def Let_def policy_commands_def [symmetric]
      by (cases "count_general 0 ?cmds"; cases "validate_regions (take (region_count p) (regions p))")
        (auto simp: policy_valid_def policy_open_def ensure_def eseq_okI eseq_errI ebind_okI ebind_errI
          simp del: upt_Suc split: if_splits)
  qed
qed

lemma clear_block:
  assumes "list_all (\<lambda>i. sp_cmd s i AND COMMAND_LOCKED = 0) [0..<32]"
  shows "for_each (\<lambda>slot. write_allow_cmd_slot spipf_dev slot 0) [0..<COMMAND_TABLE_SLOTS] s
    = (s\<lparr>sp_cmd := (\<lambda>i. if i < 32 then 0 else sp_cmd s i)\<rparr>, Inr ())"
proof -
  have "fold (\<lambda>i. spipf_write (SPIPFWT i) 0) xs s' = s'\<lparr>sp_cmd := (\<lambda>i. if i \<in> set xs then 0 else sp_cmd s' i)\<rparr>"
    if "list_all (\<lambda>i. sp_cmd s' i AND COMMAND_LOCKED = 0) xs" for xs s'
    using that by (induction xs arbitrary: s') (auto simp: list_all_iff fun_upd_def intro!: arg_cong [of _ _ "\<lambda>c. s'\<lparr>sp_cmd := c\<rparr>" for s'])
  from this [OF assms] show ?thesis
    unfolding COMMAND_TABLE_SLOTS_def
    by (subst for_each_fold [where g = "\<lambda>i. spipf_write (SPIPFWT i) 0"]) (simp_all del: spipf_write.simps upt_Suc)
qed

lemma unlocked_cmd [simp]: "unlocked (s\<lparr>sp_cmd := c\<rparr>) = unlocked s"
  by (simp add: unlocked_def)

lemma apply_block_ok:
  assumes "policy_valid p" "policy_open s"
  shows "\<exists>s'. apply_policy spipf_dev p s = (s', Inr ()) \<and> unlocked s'
    \<and> sp_cmd s' = place 2 (policy_commands p) (\<lambda>i. if i < 32 then 0 else sp_cmd s i)
    \<and> (\<forall>d. \<forall>k<16384. priv_bit (sp_table s' (select_of d)) k
          = foldl (region_verdict d k) True (take (region_count p) (regions p)))"
proof -
  let ?cmds = "policy_commands p" and ?c = "\<lambda>i. if i < 32 then 0 else sp_cmd s i"
  let ?rs = "take (region_count p) (regions p)"
  have checks: "policy_checks spipf_dev p s = (s, Inr ())" using policy_checks_block [of p s] assms by auto
  have "supported ?cmds" "2 + generals ?cmds \<le> general_slot_limit ?cmds" "general_slot_limit ?cmds \<le> 32"
    using assms(1) by (auto simp: policy_valid_def general_slot_limit_def LAST_GENERAL_COMMAND_SLOT_EXCLUSIVE_def
        COMMAND_TABLE_SLOTS_def FIRST_GENERAL_COMMAND_SLOT_def)
  then have cmds: "write_commands spipf_dev (general_slot_limit ?cmds) 2 ?cmds (s\<lparr>sp_cmd := ?c\<rparr>)
      = (s\<lparr>sp_cmd := place 2 ?cmds ?c\<rparr>, Inr ())"
    by (subst write_commands_block) simp_all
  let ?s1 = "s\<lparr>sp_cmd := place 2 ?cmds ?c\<rparr>"
  have u1: "unlocked ?s1" using policy_open_unlocked [OF assms(2)] by simp
  from init_block [OF u1, of PrivRead] obtain R where
    R: "initialize_privilege_table spipf_dev PrivRead ?s1 = (set_table PrivRead R (reselect PrivRead ?s1), Inr ())"
      "\<forall>k<16384. priv_bit R k" by blast
  let ?s2 = "set_table PrivRead R (reselect PrivRead ?s1)"
  have u2: "unlocked ?s2" using u1 by simp
  from init_block [OF u2, of PrivWrite] obtain W where
    W: "initialize_privilege_table spipf_dev PrivWrite ?s2 = (set_table PrivWrite W (reselect PrivWrite ?s2), Inr ())"
      "\<forall>k<16384. priv_bit W k" by blast
  let ?s3 = "set_table PrivWrite W (reselect PrivWrite ?s2)"
  have u3: "unlocked ?s3" using u2 by simp
  have "validate_regions ?rs = Inr ()" using assms(1) by (simp add: policy_valid_def)
  from configure_regions_block [OF u3 this] obtain s' where
    s': "configure_regions spipf_dev ?rs ?s3 = (s', Inr ())" "unlocked s'" "sp_cmd s' = sp_cmd ?s3"
      "\<forall>d. \<forall>k<16384. priv_bit (sp_table s' (select_of d)) k
          = foldl (region_verdict d k) (priv_bit (sp_table ?s3 (select_of d)) k) ?rs" by blast
  have all: "priv_bit (sp_table ?s3 (select_of d)) k" if "k < 16384" for d k
    using R(2) W(2) that by (cases d) simp_all
  have clear: "for_each (\<lambda>slot. write_allow_cmd_slot spipf_dev slot 0) [0..<COMMAND_TABLE_SLOTS] s = (s\<lparr>sp_cmd := ?c\<rparr>, Inr ())"
    by (rule clear_block) (use assms(2) in \<open>simp add: policy_open_def del: upt_Suc\<close>)
  have "apply_policy spipf_dev p s = (s', Inr ())"
    unfolding apply_policy_def Let_def policy_commands_def [symmetric] FIRST_GENERAL_COMMAND_SLOT_def
    by (simp add: eseq_okI checks clear cmds R(1) W(1) s'(1) del: upt_Suc)
  with s' all show ?thesis by simp
qed

lemma apply_block_refused:
  assumes "\<not> (policy_valid p \<and> policy_open s)"
  shows "\<exists>e. apply_policy spipf_dev p s = (s, Inl e)"
proof -
  obtain r where r: "policy_checks spipf_dev p s = (s, r)" "r \<noteq> Inr ()" using policy_checks_block [of p s] assms by blast
  then obtain e where "r = Inl e" by (cases r) auto
  with r(1) show ?thesis by (auto simp: apply_policy_def Let_def eseq_errI)
qed

lemma ucast_u8_inj:
  assumes "(ucast (a :: u8) :: u32) = ucast b"
  shows "a = b"
proof (rule bit_word_eqI)
  fix n assume "n < LENGTH(8)"
  with arg_cong [OF assms, of "\<lambda>w. bit w n"] show "bit a n = bit b n" by (simp add: bit_simps)
qed

lemma place_allows:
  assumes "supported cmds" "2 + generals cmds \<le> general_slot_limit cmds"
    "sp_cmd s = place 2 cmds (\<lambda>i. if i < 32 then 0 else c i)"
  shows "cmd_allows s opcode = (opcode \<in> set cmds)"
proof
  have tv_facts: "tv o' AND 0xff = ucast o'" "tv o' AND (VALID OR VALID_ONCE) \<noteq> 0" if o': "o' \<in> set cmds" for o'
  proof -
    from assms(1) o' obtain v where v: "table_value o' False = Some v" by (auto simp: supported_def list_all_iff)
    then show "tv o' AND 0xff = ucast o'" using table_value_facts(1) by simp
    from v have "bit v 30" by (auto simp: table_value_def VALID_def bit_simps split: option.splits)
    then have "bit (v AND (VALID OR VALID_ONCE)) 30" by (simp add: bit_simps VALID_def)
    then show "tv o' AND (VALID OR VALID_ONCE) \<noteq> 0" using v by (metis bit_0_eq bot_apply bot_bool_def option.sel)
  qed
  show "opcode \<in> set cmds" if allows: "cmd_allows s opcode"
  proof -
    from allows obtain i where i: "i < 32" "sp_cmd s i AND 0xff = ucast opcode" "sp_cmd s i AND (VALID OR VALID_ONCE) \<noteq> 0"
      by (auto simp: cmd_allows_def list_ex_iff)
    with place_source [of 2 cmds "\<lambda>i. if i < 32 then 0 else c i" i] assms(3) obtain o' where
      o': "o' \<in> set cmds" "sp_cmd s i = tv o'" by auto
    with tv_facts [of o'] i(2) have "(ucast o' :: u32) = ucast opcode" by simp
    then have "o' = opcode" by (rule ucast_u8_inj)
    with o' show ?thesis by simp
  qed
  show "cmd_allows s opcode" if op: "opcode \<in> set cmds"
  proof -
    have "2 + generals cmds \<le> 32" "fixed_clear 2 cmds"
      using assms(2) by (auto simp: fixed_clear_def general_slot_limit_def LAST_GENERAL_COMMAND_SLOT_EXCLUSIVE_def
          COMMAND_TABLE_SLOTS_def split: if_splits)
    from place_contains [OF op this, of "\<lambda>i. if i < 32 then 0 else c i"] assms(3) obtain i where
      "i < 32" "sp_cmd s i = tv opcode" by auto
    with tv_facts [OF op] show ?thesis unfolding cmd_allows_def list_ex_iff by (intro bexI [of _ i]) simp_all
  qed
qed

text \<open>The block filters as the policy says.\<close>

definition filters :: "spi_monitor_policy \<Rightarrow> spipf \<Rightarrow> bool" where
  "filters p s \<longleftrightarrow> (\<forall>d a. a < PRIVILEGE_ADDRESS_LIMIT \<longrightarrow> mem_allows s d a = policy_allows p d a)
     \<and> (\<forall>opcode. cmd_allows s opcode = (opcode \<in> set (policy_commands p)))"

lemma apply_block_filters:
  assumes "policy_valid p" "policy_open s"
  shows "\<exists>s'. apply_policy spipf_dev p s = (s', Inr ()) \<and> unlocked s' \<and> filters p s'"
proof -
  note ab = apply_block_ok [OF assms]
  have "unat a div 16384 < 16384" if "a < PRIVILEGE_ADDRESS_LIMIT" for a
    using that by (simp add: word_less_nat_alt unat_limit less_mult_imp_div_less)
  moreover have "2 + generals (policy_commands p) \<le> general_slot_limit (policy_commands p)" "supported (policy_commands p)"
    using assms(1) by (auto simp: policy_valid_def FIRST_GENERAL_COMMAND_SLOT_def general_slot_limit_def
        LAST_GENERAL_COMMAND_SLOT_EXCLUSIVE_def COMMAND_TABLE_SLOTS_def split: if_splits)
  ultimately show ?thesis
    using ab place_allows [of "policy_commands p" _ "sp_cmd s"] unfolding filters_def
    by (fastforce simp: mem_allows_def policy_allows_def)
qed

text \<open>
  C30: An applied policy filters as it says. On a device that behaves like the register block, if \<open>apply_policy\<close>
  returns \<open>Ok\<close>, then an address below 256 MiB is open in a direction exactly if the last region of the
  policy that touches its 16 KiB block in that direction grants access (or no region does), and
  the command table admits exactly the listed opcodes.\<close>

theorem apply_policy_exact:
  assumes "spipf_device dev view" "apply_policy dev p h = (h', Inr ())"
  shows "(\<forall>d a. a < PRIVILEGE_ADDRESS_LIMIT \<longrightarrow> mem_allows (view h') d a = policy_allows p d a)
    \<and> (\<forall>opcode. cmd_allows (view h') opcode = (opcode \<in> set (policy_commands p)))"
proof -
  have run: "apply_policy spipf_dev p (view h) = (view h', Inr ())"
    by (rule simD [OF sim_apply_policy [OF assms(1)] assms(2)])
  then have "policy_valid p" "policy_open (view h)" using apply_block_refused [of p "view h"] by fastforce+
  from apply_block_filters [OF this] run show ?thesis by (auto simp: filters_def)
qed

text \<open>
  C31: A policy is applied completely or not at all. On a device that behaves like the register block, \<open>apply_policy\<close>
  succeeds exactly if the policy is valid (counts in range, every opcode known, enough general
  slots, every region within bounds) and nothing is locked yet; otherwise it returns an error and neither the command
  table nor a privilege bitmap nor the control or lock register has changed.\<close>

theorem apply_policy_all_or_nothing:
  assumes "spipf_device dev view" "apply_policy dev p h = (h', r)"
  shows "(r = Inr () \<longleftrightarrow> policy_valid p \<and> policy_open (view h)) \<and> (r \<noteq> Inr () \<longrightarrow> view h' = view h)"
proof -
  have run: "apply_policy spipf_dev p (view h) = (view h', r)" by (rule simD [OF sim_apply_policy [OF assms(1)] assms(2)])
  show ?thesis
  proof (cases "policy_valid p \<and> policy_open (view h)")
    case True
    with apply_block_ok [of p "view h"] run show ?thesis by auto
  next
    case False
    with apply_block_refused [OF this] run show ?thesis by auto
  qed
qed

text \<open>
  C32: A region update changes exactly the touched blocks. Take a device that behaves like the
  SPIPF register block (\<open>spipf_device\<close>) and whose \<open>LOCK_CTRL\<close> bit is clear beforehand (once it is
  set, the block ignores the write that selects the table, and \<open>configure_region\<close>, which checks
  only the lock of the direction, would update whichever table is selected). If
  \<open>configure_region\<close> then returns \<open>Ok\<close>, in the bitmap of its direction every block that the region
  touches is open or closed as requested, every other block is as before, and so is the other
  bitmap and the command table - although the loop writes whole words where it can.
\<close>

theorem configure_region_exact:
  assumes "spipf_device dev view" "configure_region dev st len d op h = (h', Inr ())" "sp_lock (view h) AND LOCK_CTRL = 0"
  shows "(\<forall>k<16384. priv_bit (sp_table (view h') (select_of d)) k
      = (if touches st len k then granted op else priv_bit (sp_table (view h) (select_of d)) k))
    \<and> (\<forall>d'. d' \<noteq> d \<longrightarrow> sp_table (view h') (select_of d') = sp_table (view h) (select_of d'))
    \<and> sp_cmd (view h') = sp_cmd (view h)"
proof -
  have run: "configure_region spipf_dev st len d op (view h) = (view h', Inr ())"
    by (rule simD [OF sim_configure_region [OF assms(1)] assms(2)])
  then have lock: "sp_lock (view h) AND lock_mask d = 0"
    and conf: "configure_privilege_region spipf_dev st len d op (view h) = (view h', Inr ())"
    by (auto simp: configure_region_def ebind_Inr_iff eseq_Inr_iff ensure_run split: if_splits)
  from conf have "validate_privilege_region st len = Inr ()" by (auto simp: configure_privilege_region_def eseq_Inr_iff)
  from configure_block [OF assms(3) lock this, of op] conf show ?thesis by auto
qed

section \<open>Witnesses\<close>

definition spipf_reset :: spipf where
  "spipf_reset = \<lparr>sp_ctrl = 0, sp_lock = 0, sp_cmd = (\<lambda>_. 0), sp_table = (\<lambda>_ _. 0)\<rparr>"

lemma reset_open: "policy_open spipf_reset" and reset_unlocked: "unlocked spipf_reset"
  by (simp_all add: policy_open_def spipf_reset_def unlocked_def list_all_iff)

lemma zephyr_regions:
  "take (region_count zephyr_spim_policy) (regions zephyr_spim_policy) = [Some (region_deny 0 0x100000 PrivWrite)]"
  by code_simp

lemma zephyr_valid: "policy_valid zephyr_spim_policy"
proof -
  have "policy_commands zephyr_spim_policy = allow_commands zephyr_default" by code_simp
  moreover have "list_all (\<lambda>opcode. table_value opcode False \<noteq> None) (allow_commands zephyr_default)" by code_simp
  moreover have "generals (allow_commands zephyr_default) = 30" "0xc5 \<notin> set (allow_commands zephyr_default)" by code_simp+
  moreover note zephyr_regions
  moreover have "validate_regions [Some (region_deny 0 0x100000 PrivWrite)] = Inr ()"
    by (simp add: region_deny_def validate_privilege_region_def checked_add_def PRIVILEGE_ADDRESS_LIMIT_def)
  moreover have "allow_command_count zephyr_spim_policy \<le> length (allow_commands zephyr_spim_policy)"
    "region_count zephyr_spim_policy \<le> MAX_REGION_SLOTS" by code_simp+
  ultimately show ?thesis
    by (simp add: policy_valid_def supported_def general_slot_limit_def COMMAND_TABLE_SLOTS_def FIRST_GENERAL_COMMAND_SLOT_def)
qed

text \<open>
  The preset for the Zephyr boards write-protects the first MiB of the flash, and nothing above it.
\<close>

theorem apply_policy_exact_witness:
  "\<exists>s'. apply_policy spipf_dev zephyr_spim_policy spipf_reset = (s', Inr ())
     \<and> \<not> mem_allows s' PrivWrite 0xFFFFF \<and> mem_allows s' PrivWrite 0x100000 \<and> cmd_allows s' 0x9F \<and> \<not> cmd_allows s' 0xC7"
proof -
  from apply_block_ok [OF zephyr_valid reset_open] obtain s' where
    s': "apply_policy spipf_dev zephyr_spim_policy spipf_reset = (s', Inr ())" by blast
  note ex = apply_policy_exact [OF spipf_dev_device s']
  have "(0xFFFFF :: u32) < PRIVILEGE_ADDRESS_LIMIT" "(0x100000 :: u32) < PRIVILEGE_ADDRESS_LIMIT"
    by (simp_all add: PRIVILEGE_ADDRESS_LIMIT_def)
  moreover have "\<not> policy_allows zephyr_spim_policy PrivWrite 0xFFFFF" "policy_allows zephyr_spim_policy PrivWrite 0x100000"
    unfolding policy_allows_def zephyr_regions
    by (simp_all add: region_deny_def region_verdict_def touches_def granted_def)
  moreover have "0x9F \<in> set (policy_commands zephyr_spim_policy)" "0xC7 \<notin> set (policy_commands zephyr_spim_policy)" by code_simp+
  ultimately show ?thesis using ex s' by blast
qed

text \<open>A policy with the unknown opcode 0xC7 is refused without a change.\<close>

theorem apply_policy_all_or_nothing_witness:
  "fst (apply_policy spipf_dev (policy_empty\<lparr>allow_commands := [0xC7], allow_command_count := 1\<rparr>) spipf_reset) = spipf_reset"
proof -
  let ?p = "policy_empty\<lparr>allow_commands := [0xC7], allow_command_count := 1\<rparr>"
  obtain s' r where run: "apply_policy spipf_dev ?p spipf_reset = (s', r)" by (cases "apply_policy spipf_dev ?p spipf_reset")
  have "\<not> supported (policy_commands ?p)" unfolding supported_def by code_simp
  then have "\<not> policy_valid ?p" by (simp add: policy_valid_def)
  with apply_policy_all_or_nothing [OF spipf_dev_device run] run show ?thesis by simp
qed

text \<open>Closing 33 blocks for writing from address 0x4000 leaves block 34 as it was.\<close>

theorem configure_region_exact_witness:
  "\<exists>s'. configure_region spipf_dev 0x4000 0x84000 PrivWrite PrivEnable spipf_reset = (s', Inr ())
     \<and> priv_bit (sp_table s' (select_of PrivWrite)) 33 \<and> \<not> priv_bit (sp_table s' (select_of PrivWrite)) 34"
proof -
  have lock: "sp_lock spipf_reset AND LOCK_CTRL = 0" "sp_lock spipf_reset AND lock_mask PrivWrite = 0"
    by (simp_all add: spipf_reset_def)
  have "validate_privilege_region 0x4000 0x84000 = Inr ()"
    by (simp add: validate_privilege_region_def checked_add_def PRIVILEGE_ADDRESS_LIMIT_def)
  from configure_block [OF lock this, of PrivEnable] lock obtain s' where
    s': "configure_region spipf_dev 0x4000 0x84000 PrivWrite PrivEnable spipf_reset = (s', Inr ())"
    by (auto simp: configure_region_def ebind_okI eseq_okI)
  have "touches 0x4000 0x84000 33" "\<not> touches 0x4000 0x84000 34"
    "\<not> priv_bit (sp_table spipf_reset (select_of PrivWrite)) 34"
    by (simp_all add: touches_def priv_bit_def spipf_reset_def)
  with configure_region_exact [OF spipf_dev_device s' lock(1)] s' show ?thesis by (auto simp: granted_def)
qed

section \<open>Locking\<close>

definition policy_sealed :: "spipf \<Rightarrow> bool" where
  "policy_sealed s \<longleftrightarrow> sp_lock s AND LOCK_STATUS_REQUIRED = LOCK_STATUS_REQUIRED
     \<and> (\<forall>i<32. sp_cmd s i AND COMMAND_LOCKED \<noteq> 0)"

definition same_policy :: "spipf \<Rightarrow> spipf \<Rightarrow> bool" where
  "same_policy s s' \<longleftrightarrow> sp_ctrl s' = sp_ctrl s \<and> (\<forall>i<32. sp_cmd s' i = sp_cmd s i)
     \<and> (\<forall>d. sp_table s' (select_of d) = sp_table s (select_of d))"

lemma sealed_locks:
  assumes "policy_sealed s"
  shows "sp_lock s AND LOCK_CTRL \<noteq> 0" "sp_lock s AND lock_mask d \<noteq> 0"
proof -
  have bits: "bit (sp_lock s AND LOCK_STATUS_REQUIRED) n = bit LOCK_STATUS_REQUIRED n" for n
    using assms by (simp add: policy_sealed_def)
  have set: "bit (sp_lock s) 0" "bit (sp_lock s) 30" "bit (sp_lock s) 31"
    using bits [of 0] bits [of 30] bits [of 31]
    by (simp_all add: bit_simps LOCK_STATUS_REQUIRED_def LOCK_CTRL_def LOCK_IRQ_CTRL_def LOCK_LOG_BASE_def LOCK_LOG_CTRL_def
        LOCK_WRITE_PRIVILEGE_def LOCK_READ_PRIVILEGE_def)
  have "bit (sp_lock s AND LOCK_CTRL) 0" using set(1) by (simp add: bit_simps LOCK_CTRL_def)
  then show "sp_lock s AND LOCK_CTRL \<noteq> 0" by auto
  have "bit (sp_lock s AND lock_mask d) (case d of PrivRead \<Rightarrow> 31 | PrivWrite \<Rightarrow> 30)"
    using set by (cases d) (simp_all add: bit_simps lock_mask_def LOCK_WRITE_PRIVILEGE_def LOCK_READ_PRIVILEGE_def)
  then show "sp_lock s AND lock_mask d \<noteq> 0" by auto
qed

lemma or_and_self: "w AND m = m \<Longrightarrow> (w OR v) AND m = (m :: u32)"
  by (simp add: or_and)

text \<open>No register write changes the policy of a sealed block.\<close>

lemma sealed_write:
  assumes "policy_sealed s"
  shows "policy_sealed (spipf_write r v s) \<and> same_policy s (spipf_write r v s)"
proof (cases r)
  case SPIPF07C
  have "(sp_lock s OR v) AND LOCK_STATUS_REQUIRED = LOCK_STATUS_REQUIRED"
    using assms or_and_self unfolding policy_sealed_def by blast
  with SPIPF07C assms show ?thesis by (simp add: policy_sealed_def same_policy_def)
next
  case (SPIPFWA i)
  have "\<not> table_locked s \<Longrightarrow> select_of d \<noteq> selected s" for d
    using sealed_locks(2) [OF assms, of d] by (cases d) (auto simp: table_locked_def)
  with SPIPFWA assms show ?thesis by (auto simp: policy_sealed_def same_policy_def)
qed (use assms sealed_locks(1) [OF assms] in \<open>auto simp: policy_sealed_def same_policy_def\<close>)

lemma sealed_writes:
  assumes "policy_sealed s"
  shows "same_policy s (fold (\<lambda>(r, v). spipf_write r v) ws s)"
  using assms
proof (induction ws arbitrary: s)
  case (Cons w ws)
  obtain r v where w: "w = (r, v)" by (cases w)
  from sealed_write [OF Cons.prems, of r v] Cons.IH [of "spipf_write r v s"] show ?case
    by (auto simp: w same_policy_def)
qed (simp add: same_policy_def)

lemma bit_locked: "bit COMMAND_LOCKED n = (n = 23)"
  unfolding COMMAND_LOCKED_def bit_push_bit_iff bit_1_iff by auto

lemma locked_iff: "w AND COMMAND_LOCKED \<noteq> 0 \<longleftrightarrow> bit w 23"
proof -
  have "bit (w AND COMMAND_LOCKED) n = (n = 23 \<and> bit w 23)" for n by (auto simp: bit_and_iff bit_locked)
  then show ?thesis by (metis bit_0_eq bit_eq_iff bot_apply bot_bool_def)
qed

lemma locked_or: "w AND COMMAND_LOCKED \<noteq> 0 \<Longrightarrow> w OR COMMAND_LOCKED = w"
  by (rule bit_word_eqI) (auto simp: locked_iff bit_or_iff bit_locked)

lemma lock_slots_block:
  "for_each (\<lambda>slot. ebind (read_allow_cmd_slot spipf_dev slot) (\<lambda>value.
       write_allow_cmd_slot spipf_dev slot (value OR COMMAND_LOCKED))) [0..<COMMAND_TABLE_SLOTS] s
    = (s\<lparr>sp_cmd := (\<lambda>i. if i < 32 then sp_cmd s i OR COMMAND_LOCKED else sp_cmd s i)\<rparr>, Inr ())"
proof -
  let ?g = "\<lambda>i s. spipf_write (SPIPFWT i) (sp_cmd s i OR COMMAND_LOCKED) s"
  have g: "?g i s = s\<lparr>sp_cmd := (sp_cmd s)(i := sp_cmd s i OR COMMAND_LOCKED)\<rparr>" for i s
    using locked_or [of "sp_cmd s i"] by (auto simp: fun_upd_idem)
  have "fold ?g xs s = s\<lparr>sp_cmd := (\<lambda>i. if i \<in> set xs then sp_cmd s i OR COMMAND_LOCKED else sp_cmd s i)\<rparr>" for xs s
    unfolding g by (induction xs arbitrary: s)
      (auto simp: fun_upd_def or.assoc intro!: arg_cong [of _ _ "\<lambda>c. s'\<lparr>sp_cmd := c\<rparr>" for s'])
  from this [of "[0..<32]" s] show ?thesis
    unfolding COMMAND_TABLE_SLOTS_def
    by (subst for_each_fold [where g = ?g]) (simp_all add: ebind_okI del: spipf_write.simps upt_Suc cong: if_cong)
qed

lemma slots_locked_check:
  assumes "\<forall>i<32. sp_cmd s i AND COMMAND_LOCKED \<noteq> 0"
  shows "for_each (\<lambda>slot. ebind (read_allow_cmd_slot spipf_dev slot) (\<lambda>v. ensure (v AND COMMAND_LOCKED \<noteq> 0) LockFailed))
      [0..<COMMAND_TABLE_SLOTS] s = (s, Inr ())"
  using assms by (subst for_each_check [where P = "\<lambda>_. True"])
    (auto simp: ebind_okI ensure_run COMMAND_TABLE_SLOTS_def list_all_iff)

definition locked_ctrl :: "spipf \<Rightarrow> u32" where
  "locked_ctrl s = (if sp_lock s AND LOCK_CTRL \<noteq> 0 then sp_ctrl s else sp_ctrl s OR CTRL_BLOCK_FIFO_LOCK OR CTRL_SW_RESET_LOCK)"

lemma lock_ctrl_step:
  "modify_ctrl spipf_dev (\<lambda>bits. bits OR CTRL_BLOCK_FIFO_LOCK OR CTRL_SW_RESET_LOCK) s
    = (s\<lparr>sp_ctrl := locked_ctrl s\<rparr>, Inr ())"
  by (simp add: modify_ctrl_def ebind_okI locked_ctrl_def)

lemma lock_status_step:
  "modify_lock_status spipf_dev (\<lambda>bits. bits OR m) s = (s\<lparr>sp_lock := sp_lock s OR m\<rparr>, Inr ())"
  by (simp add: modify_lock_status_def ebind_okI or.assoc [symmetric])

text \<open>Locking and later writes keep what the block filters.\<close>

lemma cmd_allows_locked:
  assumes "\<forall>i<32. sp_cmd s' i = sp_cmd s i OR COMMAND_LOCKED"
  shows "cmd_allows s' opcode = cmd_allows s opcode"
proof -
  have "COMMAND_LOCKED AND 0xff = 0" "COMMAND_LOCKED AND (VALID OR VALID_ONCE) = 0"
    by (simp_all add: COMMAND_LOCKED_def VALID_def VALID_ONCE_def)
  then show ?thesis using assms unfolding cmd_allows_def list_ex_iff by (auto simp: or_and)
qed

lemma filters_locked:
  assumes "filters p s" "sp_table s' = sp_table s" "\<forall>i<32. sp_cmd s' i = sp_cmd s i OR COMMAND_LOCKED"
  shows "filters p s'"
  using assms(1,2) cmd_allows_locked [OF assms(3)] by (simp add: filters_def mem_allows_def)

lemma filters_same: "filters p s \<Longrightarrow> same_policy s s' \<Longrightarrow> filters p s'"
  unfolding filters_def mem_allows_def cmd_allows_def list_ex_iff same_policy_def by auto

lemma lock_block:
  "\<exists>s'. monitor_lock spipf_dev s = (s', Inr ()) \<and> policy_sealed s' \<and> sp_table s' = sp_table s
     \<and> (\<forall>i<32. sp_cmd s' i = sp_cmd s i OR COMMAND_LOCKED) \<and> sp_ctrl s' = locked_ctrl s"
proof -
  let ?c = "\<lambda>i. if i < 32 then sp_cmd s i OR COMMAND_LOCKED else sp_cmd s i"
  define s1 where "s1 = s\<lparr>sp_cmd := ?c\<rparr>"
  define s2 where "s2 = s1\<lparr>sp_ctrl := locked_ctrl s1\<rparr>"
  define s3 where "s3 = s2\<lparr>sp_lock := sp_lock s2 OR LOCK_STATUS_REQUIRED\<rparr>"
  have mask: "sp_lock s3 AND LOCK_STATUS_REQUIRED = LOCK_STATUS_REQUIRED"
    by (simp add: s3_def or_and)
  have cmd: "sp_cmd s3 i AND COMMAND_LOCKED \<noteq> 0" if "i < 32" for i
    using that unfolding locked_iff by (simp add: s1_def s2_def s3_def bit_or_iff bit_locked)
  have "monitor_lock spipf_dev s = (s3, Inr ())"
    unfolding monitor_lock_def LOCK_STATUS_REQUIRED_def [symmetric]
    using slots_locked_check [of s3] mask cmd
    by (simp add: eseq_okI ebind_okI lock_slots_block lock_ctrl_step lock_status_step s1_def [symmetric] s2_def [symmetric]
        s3_def [symmetric] ensure_run del: upt_Suc)
  moreover have "policy_sealed s3" using mask cmd by (simp add: policy_sealed_def)
  ultimately show ?thesis by (intro exI [of _ s3]) (simp add: s1_def s2_def s3_def locked_ctrl_def)
qed

lemma view_writes:
  "spipf_device dev view \<Longrightarrow>
    view (fold (\<lambda>(reg, v). spim_write dev reg v) ws h) = fold (\<lambda>(reg, v). spipf_write reg v) ws (view h)"
  by (induction ws arbitrary: h) (auto simp: spipf_device_def)

text \<open>
  A locked policy is final. On a device that behaves like the register block, \<open>lock\<close> succeeds; the bitmaps are
  as before and every command slot differs only in its lock bit; and after
  it no sequence of register writes whatsoever changes the control register, a command slot or a
  privilege bitmap.\<close>

theorem monitor_lock_seals:
  assumes "spipf_device dev view" "monitor_lock dev h = (h', r)"
  shows "r = Inr () \<and> sp_table (view h') = sp_table (view h)
    \<and> (\<forall>i<32. sp_cmd (view h') i = sp_cmd (view h) i OR COMMAND_LOCKED)
    \<and> (\<forall>ws. same_policy (view h') (view (fold (\<lambda>(reg, v). spim_write dev reg v) ws h')))"
proof -
  have run: "monitor_lock spipf_dev (view h) = (view h', r)" by (rule simD [OF sim_lock [OF assms(1)] assms(2)])
  with view_writes [OF assms(1)] lock_block [of "view h"] show ?thesis by (auto simp: sealed_writes)
qed

text \<open>After the lock a write of a privilege word or of a free command slot has no effect.\<close>

theorem monitor_lock_seals_witness:
  "\<exists>s'. monitor_lock spipf_dev spipf_reset = (s', Inr ())
     \<and> same_policy s' (spipf_write (SPIPFWA 0) (- 1) (spipf_write (SPIPFWT 5) 0x1 (spipf_write SPIPF000 0x52000000 s')))"
proof -
  obtain s' r where run: "monitor_lock spipf_dev spipf_reset = (s', r)" by (cases "monitor_lock spipf_dev spipf_reset")
  from monitor_lock_seals [OF spipf_dev_device run] have
    "r = Inr ()" "\<forall>ws. same_policy s' (fold (\<lambda>(reg, v). spim_write spipf_dev reg v) ws s')" by auto
  from this(2) [rule_format, of "[(SPIPF000, 0x52000000), (SPIPFWT 5, 1), (SPIPFWA 0, - 1)]"] this(1) run show ?thesis
    by (auto simp: spipf_dev_def simp del: spipf_write.simps)
qed

end
