(* ===== verification/Scu_Routing.thy ===== *)
theory Scu_Routing
  imports Spim_Controller
begin

unbundle bit_operations_syntax

text \<open>
  The system control unit of the AST10x0 as far as the SPI monitors use it (\<open>peripherals/scu\<close>): the routing
  and multiplexer helpers (\<open>routing.rs\<close>), pin control (\<open>pinctrl.rs\<close>), and the clock, reset, cache and status
  helpers. The registers of the SCU, the GPIO block and the serial GPIO master are a parameter: functions that read
  and write a register, and the positions of the bit fields that the register definitions name. None of
  the operations can fail except \<open>set_spim_internal_mux\<close>.
\<close>

section \<open>Types\<close>

datatype scu_error = InvalidMonitorInstance | InvalidMuxSelection
datatype scu_register_half = HalfLower | HalfUpper
datatype spi_monitor_instance = Spim0 | Spim1 | Spim2 | Spim3
datatype spi_monitor_source = Spi1 | Spi2
datatype scu_ext_mux_select = Mux0 | Mux1
datatype spi_monitor_passthrough = PtDisabled | PtEnabled

primrec instance_index :: "spi_monitor_instance \<Rightarrow> nat" where
  "instance_index Spim0 = 0" | "instance_index Spim1 = 1" | "instance_index Spim2 = 2" | "instance_index Spim3 = 3"

definition mux_as_bool :: "scu_ext_mux_select \<Rightarrow> bool" where
  "mux_as_bool m = (case m of Mux0 \<Rightarrow> False | Mux1 \<Rightarrow> True)"

definition is_enabled :: "spi_monitor_passthrough \<Rightarrow> bool" where
  "is_enabled p = (p = PtEnabled)"

section \<open>Registers\<close>

datatype board_reg = Scu u32 | Gpio u32 | Sgpiom u32

record 'h board_dev =
  reg_write :: "board_reg \<Rightarrow> u32 \<Rightarrow> 'h \<Rightarrow> 'h"
  reg_read :: "board_reg \<Rightarrow> 'h \<Rightarrow> 'h \<times> u32"
  enbl_passthrough :: "spi_monitor_instance \<Rightarrow> nat"
  enbl_filter :: "spi_monitor_instance \<Rightarrow> nat"
  ext_mux_select_sig :: "spi_monitor_instance \<Rightarrow> nat"
  enbl_misoin_fn_pin :: "spi_monitor_instance \<Rightarrow> nat"
  select_int_spimaster_connection :: "u8 \<Rightarrow> u32 \<Rightarrow> u32"
  int_spimaster_sel :: nat
  enbl_sgpiomaster_pins :: "u32 \<Rightarrow> u32"
  sgpio_config :: "u32 \<Rightarrow> u32"
  spipf_of :: "spi_monitor_instance \<Rightarrow> 'h spim_dev"

definition read_reg :: "'h board_dev \<Rightarrow> board_reg \<Rightarrow> ('h, 'e, u32) reg_op" where
  "read_reg dev r = get (reg_read dev r)"

definition write_reg :: "'h board_dev \<Rightarrow> board_reg \<Rightarrow> u32 \<Rightarrow> ('h, 'e, unit) reg_op" where
  "write_reg dev r v = act (reg_write dev r v)"

definition modify_reg :: "'h board_dev \<Rightarrow> board_reg \<Rightarrow> (u32 \<Rightarrow> u32) \<Rightarrow> ('h, 'e, unit) reg_op" where
  "modify_reg dev r f = ebind (read_reg dev r) (\<lambda>v. write_reg dev r (f v))"

definition SCU_UNLOCK_KEY :: u32 where "SCU_UNLOCK_KEY = 0x1688A8A8"

definition unlock_write_protection :: "'h board_dev \<Rightarrow> ('h, 'e, unit) reg_op" where
  "unlock_write_protection dev = write_reg dev (Scu 0) SCU_UNLOCK_KEY"

text \<open>The mask is set or cleared; a field of one bit is its mask.\<close>

definition update_bit :: "u32 \<Rightarrow> u32 \<Rightarrow> bool \<Rightarrow> u32" where
  "update_bit value m s = (if s then value OR m else value AND NOT m)"

section \<open>Pin control\<close>

record pinctrl_pin =
  pin_offset :: u32
  pin_bit :: nat
  pin_clear :: bool

definition PIN :: "u32 \<Rightarrow> nat \<Rightarrow> pinctrl_pin" where
  "PIN offset b = \<lparr>pin_offset = offset, pin_bit = b, pin_clear = False\<rparr>"

definition CLR_PIN :: "u32 \<Rightarrow> nat \<Rightarrow> pinctrl_pin" where
  "CLR_PIN offset b = \<lparr>pin_offset = offset, pin_bit = b, pin_clear = True\<rparr>"

definition PINCTRL_GPIOL2 :: "pinctrl_pin list" where "PINCTRL_GPIOL2 = [CLR_PIN 0x418 26]"
definition PINCTRL_GPIOL3 :: "pinctrl_pin list" where "PINCTRL_GPIOL3 = [CLR_PIN 0x418 27]"

definition PINCTRL_SPIM1_DEFAULT :: "pinctrl_pin list" where
  "PINCTRL_SPIM1_DEFAULT = [
     CLR_PIN 0x410 0, CLR_PIN 0x4B0 0, PIN 0x690 0, CLR_PIN 0x410 1, CLR_PIN 0x4B0 1, PIN 0x690 1,
     CLR_PIN 0x410 2, CLR_PIN 0x4B0 2, PIN 0x690 2, CLR_PIN 0x410 3, CLR_PIN 0x4B0 3, PIN 0x690 3,
     CLR_PIN 0x410 4, CLR_PIN 0x4B0 4, PIN 0x690 4, CLR_PIN 0x410 5, CLR_PIN 0x4B0 5, PIN 0x690 5,
     CLR_PIN 0x410 6, CLR_PIN 0x4B0 6, PIN 0x690 6]"

definition PINCTRL_SPIM2_DEFAULT :: "pinctrl_pin list" where
  "PINCTRL_SPIM2_DEFAULT = [
     CLR_PIN 0x410 14, CLR_PIN 0x4B0 14, PIN 0x690 14, CLR_PIN 0x410 15, CLR_PIN 0x4B0 15, PIN 0x690 15,
     CLR_PIN 0x410 16, CLR_PIN 0x4B0 16, PIN 0x690 16, CLR_PIN 0x410 17, CLR_PIN 0x4B0 17, PIN 0x690 17,
     CLR_PIN 0x410 18, CLR_PIN 0x4B0 18, PIN 0x690 18, CLR_PIN 0x410 19, CLR_PIN 0x4B0 19, PIN 0x690 19,
     CLR_PIN 0x410 20, CLR_PIN 0x4B0 20, PIN 0x690 20]"

definition PINCTRL_SPIM3_DEFAULT :: "pinctrl_pin list" where
  "PINCTRL_SPIM3_DEFAULT = [
     CLR_PIN 0x410 28, CLR_PIN 0x4B0 28, PIN 0x690 28, CLR_PIN 0x410 29, CLR_PIN 0x4B0 29, PIN 0x690 29,
     CLR_PIN 0x410 30, CLR_PIN 0x4B0 30, PIN 0x690 30, CLR_PIN 0x410 31, CLR_PIN 0x4B0 31, PIN 0x690 31,
     CLR_PIN 0x414 0, CLR_PIN 0x4B4 0, PIN 0x694 0, CLR_PIN 0x414 1, CLR_PIN 0x4B4 1, PIN 0x694 1,
     CLR_PIN 0x414 2, CLR_PIN 0x4B4 2, PIN 0x694 2, CLR_PIN 0x414 3, CLR_PIN 0x4B4 3, PIN 0x694 3,
     CLR_PIN 0x414 4, CLR_PIN 0x4B4 4, PIN 0x694 4, CLR_PIN 0x414 5, CLR_PIN 0x4B4 5, PIN 0x694 5,
     CLR_PIN 0x414 6, CLR_PIN 0x4B4 6, PIN 0x694 6, CLR_PIN 0x414 7, CLR_PIN 0x4B4 7, PIN 0x694 7]"

definition PINCTRL_SPIM4_DEFAULT :: "pinctrl_pin list" where
  "PINCTRL_SPIM4_DEFAULT = [
     CLR_PIN 0x414 10, CLR_PIN 0x4B4 10, PIN 0x694 10, CLR_PIN 0x414 11, CLR_PIN 0x4B4 11, PIN 0x694 11,
     CLR_PIN 0x414 12, CLR_PIN 0x4B4 12, PIN 0x694 12, CLR_PIN 0x414 13, CLR_PIN 0x4B4 13, PIN 0x694 13,
     CLR_PIN 0x414 14, CLR_PIN 0x4B4 14, PIN 0x694 14, CLR_PIN 0x414 15, CLR_PIN 0x4B4 15, PIN 0x694 15,
     CLR_PIN 0x414 16, CLR_PIN 0x4B4 16, PIN 0x694 16, CLR_PIN 0x414 17, CLR_PIN 0x4B4 17, PIN 0x694 17,
     CLR_PIN 0x414 18, CLR_PIN 0x4B4 18, PIN 0x694 18, CLR_PIN 0x414 19, CLR_PIN 0x4B4 19, PIN 0x694 19,
     CLR_PIN 0x414 20, CLR_PIN 0x4B4 20, PIN 0x694 20, CLR_PIN 0x414 21, CLR_PIN 0x4B4 21, PIN 0x694 21]"

definition pinctrl_offsets :: "u32 list" where
  "pinctrl_offsets = [0x410, 0x414, 0x418, 0x41C, 0x430, 0x434, 0x4B0, 0x4B4, 0x4B8, 0x4BC,
     0x690, 0x694, 0x698, 0x69C, 0x6B0]"

definition apply_pin :: "'h board_dev \<Rightarrow> pinctrl_pin \<Rightarrow> ('h, 'e, unit) reg_op" where
  "apply_pin dev pin =
     (if pin_offset pin \<in> set pinctrl_offsets
      then modify_reg dev (Scu (pin_offset pin)) (\<lambda>val. update_bit val (push_bit (pin_bit pin) 1) (\<not> pin_clear pin))
      else ret ())"

definition apply_pinctrl_group :: "'h board_dev \<Rightarrow> pinctrl_pin list \<Rightarrow> ('h, 'e, unit) reg_op" where
  "apply_pinctrl_group dev pins = for_each (apply_pin dev) pins"

section \<open>Routing\<close>

definition set_spim_passthrough :: "'h board_dev \<Rightarrow> spi_monitor_instance \<Rightarrow> spi_monitor_passthrough \<Rightarrow> ('h, 'e, unit) reg_op" where
  "set_spim_passthrough dev i passthrough =
     eseq (unlock_write_protection dev)
          (modify_reg dev (Scu 0x0F0) (\<lambda>w. update_bit w (push_bit (enbl_passthrough dev i) 1) (is_enabled passthrough)))"

definition set_spim_filter :: "'h board_dev \<Rightarrow> spi_monitor_instance \<Rightarrow> bool \<Rightarrow> ('h, 'e, unit) reg_op" where
  "set_spim_filter dev i enable =
     eseq (unlock_write_protection dev)
          (modify_reg dev (Scu 0x0F0) (\<lambda>w. update_bit w (push_bit (enbl_filter dev i) 1) enable))"

definition disable_spim_cs_internal_pull_down :: "'h board_dev \<Rightarrow> spi_monitor_instance \<Rightarrow> ('h, 'e, unit) reg_op" where
  "disable_spim_cs_internal_pull_down dev i =
     eseq (unlock_write_protection dev)
     (case i of
        Spim0 \<Rightarrow> modify_reg dev (Scu 0x610) (\<lambda>w. w OR push_bit 6 1)
      | Spim1 \<Rightarrow> modify_reg dev (Scu 0x610) (\<lambda>w. w OR push_bit 20 1)
      | Spim2 \<Rightarrow> ret ()
      | Spim3 \<Rightarrow> modify_reg dev (Scu 0x614) (\<lambda>w. w OR push_bit 16 1))"

definition set_spim_internal_master_route :: "'h board_dev \<Rightarrow> spi_monitor_instance \<Rightarrow> spi_monitor_source \<Rightarrow> ('h, 'e, unit) reg_op" where
  "set_spim_internal_master_route dev i source =
     eseq (unlock_write_protection dev)
     (eseq (modify_reg dev (Scu 0x0F0) (select_int_spimaster_connection dev (of_nat (instance_index i) + 1)))
           (modify_reg dev (Scu 0x0F0) (\<lambda>w. update_bit w (push_bit (int_spimaster_sel dev) 1) (source = Spi2))))"

definition set_spim_internal_mux :: "'h board_dev \<Rightarrow> spi_monitor_source \<Rightarrow> u8 \<Rightarrow> ('h, scu_error, unit) reg_op" where
  "set_spim_internal_mux dev source output_select =
     (if output_select > 4 then fail InvalidMuxSelection
      else eseq (unlock_write_protection dev)
           (ebind (read_reg dev (Scu 0x0F0)) (\<lambda>bits.
            write_reg dev (Scu 0x0F0)
              ((bits AND NOT 0xF) OR (if source = Spi2 then 0x8 else 0) OR ucast output_select))))"

definition clear_spim_internal_master_route :: "'h board_dev \<Rightarrow> ('h, 'e, unit) reg_op" where
  "clear_spim_internal_master_route dev =
     eseq (unlock_write_protection dev)
     (ebind (read_reg dev (Scu 0x0F0)) (\<lambda>bits. write_reg dev (Scu 0x0F0) (bits AND NOT 0xF)))"

definition set_spim_ext_mux :: "'h board_dev \<Rightarrow> spi_monitor_instance \<Rightarrow> scu_ext_mux_select \<Rightarrow> ('h, 'e, unit) reg_op" where
  "set_spim_ext_mux dev i mux =
     eseq (unlock_write_protection dev)
          (modify_reg dev (Scu 0x0F0) (\<lambda>w. update_bit w (push_bit (ext_mux_select_sig dev i) 1) (mux_as_bool mux)))"

definition get_spim_ext_mux :: "'h board_dev \<Rightarrow> spi_monitor_instance \<Rightarrow> ('h, 'e, scu_ext_mux_select) reg_op" where
  "get_spim_ext_mux dev i =
     ebind (read_reg dev (Scu 0x0F0)) (\<lambda>w. ret (if bit w (ext_mux_select_sig dev i) then Mux1 else Mux0))"

definition set_spim_miso_multi_func :: "'h board_dev \<Rightarrow> spi_monitor_instance \<Rightarrow> bool \<Rightarrow> ('h, 'e, unit) reg_op" where
  "set_spim_miso_multi_func dev i enable =
     eseq (unlock_write_protection dev)
          (modify_reg dev (Scu (case i of Spim3 \<Rightarrow> 0x694 | _ \<Rightarrow> 0x690))
             (\<lambda>w. update_bit w (push_bit (enbl_misoin_fn_pin dev i) 1) enable))"

definition validate_spim_instance :: "spi_monitor_instance \<Rightarrow> (scu_error, unit) result" where
  "validate_spim_instance i = (case i of Spim0 \<Rightarrow> Inr () | Spim1 \<Rightarrow> Inr () | Spim2 \<Rightarrow> Inr () | Spim3 \<Rightarrow> Inr ())"

section \<open>Pin setup around a transaction\<close>

datatype gpio_group = Abcd | Efgh

record spim_gpio_info =
  scu_register :: u32
  scu_bit_mask :: u32
  gpio_group_of :: gpio_group
  gpio_bit_mask :: u32

definition gpio_direction :: "'h board_dev \<Rightarrow> gpio_group \<Rightarrow> ('h, 'e, u32) reg_op" where
  "gpio_direction dev g = read_reg dev (Gpio (case g of Abcd \<Rightarrow> 0x004 | Efgh \<Rightarrow> 0x024))"

definition gpio_set_direction :: "'h board_dev \<Rightarrow> gpio_group \<Rightarrow> u32 \<Rightarrow> bool \<Rightarrow> ('h, 'e, unit) reg_op" where
  "gpio_set_direction dev g m out =
     modify_reg dev (Gpio (case g of Abcd \<Rightarrow> 0x004 | Efgh \<Rightarrow> 0x024)) (\<lambda>w. update_bit w m out)"

definition gpio_set_data :: "'h board_dev \<Rightarrow> gpio_group \<Rightarrow> u32 \<Rightarrow> bool \<Rightarrow> ('h, 'e, unit) reg_op" where
  "gpio_set_data dev g m high =
     modify_reg dev (Gpio (case g of Abcd \<Rightarrow> 0x000 | Efgh \<Rightarrow> 0x020)) (\<lambda>w. update_bit w m high)"

definition gpio_set_output :: "'h board_dev \<Rightarrow> gpio_group \<Rightarrow> u32 \<Rightarrow> bool \<Rightarrow> ('h, 'e, unit) reg_op" where
  "gpio_set_output dev g m high = eseq (gpio_set_data dev g m high) (gpio_set_direction dev g m True)"

definition AST1060_SPIM_CLK_GPIO :: "spim_gpio_info list" where
  "AST1060_SPIM_CLK_GPIO = [
     \<lparr>scu_register = 0x690, scu_bit_mask = push_bit 7 1, gpio_group_of = Abcd, gpio_bit_mask = push_bit 7 1\<rparr>,
     \<lparr>scu_register = 0x690, scu_bit_mask = push_bit 21 1, gpio_group_of = Abcd, gpio_bit_mask = push_bit 21 1\<rparr>,
     \<lparr>scu_register = 0x694, scu_bit_mask = push_bit 3 1, gpio_group_of = Efgh, gpio_bit_mask = push_bit 3 1\<rparr>,
     \<lparr>scu_register = 0x694, scu_bit_mask = push_bit 17 1, gpio_group_of = Efgh, gpio_bit_mask = push_bit 17 1\<rparr>]"

definition AST1060_SPIM_CS_GPIO :: "spim_gpio_info list" where
  "AST1060_SPIM_CS_GPIO = [
     \<lparr>scu_register = 0x690, scu_bit_mask = push_bit 1 1, gpio_group_of = Abcd, gpio_bit_mask = push_bit 6 1\<rparr>,
     \<lparr>scu_register = 0x690, scu_bit_mask = push_bit 20 1, gpio_group_of = Abcd, gpio_bit_mask = push_bit 20 1\<rparr>,
     \<lparr>scu_register = 0x694, scu_bit_mask = push_bit 2 1, gpio_group_of = Efgh, gpio_bit_mask = push_bit 2 1\<rparr>,
     \<lparr>scu_register = 0x694, scu_bit_mask = push_bit 16 1, gpio_group_of = Efgh, gpio_bit_mask = push_bit 16 1\<rparr>]"

definition ast1060_spim_op_idx :: "u32 \<Rightarrow> nat option" where
  "ast1060_spim_op_idx scu0f0 =
     (if scu0f0 AND 7 = 0 then None
      else if (scu0f0 AND 7) - 1 = 2 then Some 3
      else if (scu0f0 AND 7) - 1 = 3 then Some 2
      else None)"

definition set_spim_pin_function :: "'h board_dev \<Rightarrow> spim_gpio_info \<Rightarrow> bool \<Rightarrow> ('h, 'e, unit) reg_op" where
  "set_spim_pin_function dev pin enabled =
     modify_reg dev (Scu (scu_register pin)) (\<lambda>w. update_bit w (scu_bit_mask pin) enabled)"

definition spim_proprietary_pre_config :: "'h board_dev \<Rightarrow> ('h, 'e, u32 list option) reg_op" where
  "spim_proprietary_pre_config dev =
     eseq (unlock_write_protection dev)
     (ebind (read_reg dev (Scu 0x0F0)) (\<lambda>scu0f0.
      case ast1060_spim_op_idx scu0f0 of
        None \<Rightarrow> ret None
      | Some op_idx \<Rightarrow>
          (let clk = AST1060_SPIM_CLK_GPIO ! op_idx; cs = AST1060_SPIM_CS_GPIO ! op_idx
           in eseq (set_spim_pin_function dev clk False)
              (ebind (gpio_direction dev (gpio_group_of clk)) (\<lambda>dir.
               eseq (gpio_set_direction dev (gpio_group_of clk) (gpio_bit_mask clk) False)
               (eseq (gpio_set_output dev (gpio_group_of cs) (gpio_bit_mask cs) True)
               (eseq (set_spim_pin_function dev cs False)
                     (ret (Some ((replicate 4 0)[op_idx := dir AND gpio_bit_mask clk]))))))))))"

definition spim_proprietary_post_config :: "'h board_dev \<Rightarrow> u32 list \<Rightarrow> ('h, 'e, unit) reg_op" where
  "spim_proprietary_post_config dev clk_gpio_ori_val =
     eseq (unlock_write_protection dev)
     (ebind (read_reg dev (Scu 0x0F0)) (\<lambda>scu0f0.
      case ast1060_spim_op_idx scu0f0 of
        None \<Rightarrow> ret ()
      | Some op_idx \<Rightarrow>
          (let clk = AST1060_SPIM_CLK_GPIO ! op_idx; cs = AST1060_SPIM_CS_GPIO ! op_idx;
               was_output = clk_gpio_ori_val ! op_idx \<noteq> 0
           in eseq (gpio_set_direction dev (gpio_group_of clk) (gpio_bit_mask clk) was_output)
              (eseq (set_spim_pin_function dev clk True) (set_spim_pin_function dev cs True)))))"

section \<open>Clocks, resets, cache\<close>

definition gate_clock_mask :: "'h board_dev \<Rightarrow> scu_register_half \<Rightarrow> u32 \<Rightarrow> ('h, 'e, unit) reg_op" where
  "gate_clock_mask dev half m = write_reg dev (Scu (case half of HalfLower \<Rightarrow> 0x080 | HalfUpper \<Rightarrow> 0x090)) m"

definition ungate_clock_mask :: "'h board_dev \<Rightarrow> scu_register_half \<Rightarrow> u32 \<Rightarrow> ('h, 'e, unit) reg_op" where
  "ungate_clock_mask dev half m = write_reg dev (Scu (case half of HalfLower \<Rightarrow> 0x084 | HalfUpper \<Rightarrow> 0x094)) m"

definition gated_clock_mask :: "'h board_dev \<Rightarrow> scu_register_half \<Rightarrow> ('h, 'e, u32) reg_op" where
  "gated_clock_mask dev half = read_reg dev (Scu (case half of HalfLower \<Rightarrow> 0x080 | HalfUpper \<Rightarrow> 0x090))"

definition assert_reset_mask :: "'h board_dev \<Rightarrow> scu_register_half \<Rightarrow> u32 \<Rightarrow> ('h, 'e, unit) reg_op" where
  "assert_reset_mask dev half m = write_reg dev (Scu (case half of HalfLower \<Rightarrow> 0x040 | HalfUpper \<Rightarrow> 0x050)) m"

definition deassert_reset_mask :: "'h board_dev \<Rightarrow> scu_register_half \<Rightarrow> u32 \<Rightarrow> ('h, 'e, unit) reg_op" where
  "deassert_reset_mask dev half m = write_reg dev (Scu (case half of HalfLower \<Rightarrow> 0x044 | HalfUpper \<Rightarrow> 0x054)) m"

definition reset_mask :: "'h board_dev \<Rightarrow> scu_register_half \<Rightarrow> ('h, 'e, u32) reg_op" where
  "reset_mask dev half = read_reg dev (Scu (case half of HalfLower \<Rightarrow> 0x040 | HalfUpper \<Rightarrow> 0x050))"

definition dcache_invd_all :: "'h board_dev \<Rightarrow> ('h, 'e, unit) reg_op" where
  "dcache_invd_all dev = ebind (read_reg dev (Scu 0xA58)) (\<lambda>ctrl.
     eseq (write_reg dev (Scu 0xA58) (ctrl AND NOT (push_bit 1 1)))
          (write_reg dev (Scu 0xA58) (ctrl OR push_bit 1 1)))"

definition hardware_revision_raw :: "'h board_dev \<Rightarrow> ('h, 'e, u32) reg_op" where
  "hardware_revision_raw dev = read_reg dev (Scu 0x004)"

definition route_control_raw :: "'h board_dev \<Rightarrow> ('h, 'e, u32) reg_op" where
  "route_control_raw dev = read_reg dev (Scu 0x0F0)"

definition multi_func_690_raw :: "'h board_dev \<Rightarrow> ('h, 'e, u32) reg_op" where
  "multi_func_690_raw dev = read_reg dev (Scu 0x690)"

definition multi_func_694_raw :: "'h board_dev \<Rightarrow> ('h, 'e, u32) reg_op" where
  "multi_func_694_raw dev = read_reg dev (Scu 0x694)"

end
