(* ===== verification/Smc_Types.thy ===== *)
theory Smc_Types
  imports Reg_Monad Bytes
begin

unbundle bit_operations_syntax

text \<open>
  Types and pure helpers of the static memory controller, the driver of the SPI-NOR flashes
  (\<open>smc/types.rs\<close>, \<open>helpers.rs\<close>, \<open>interrupts.rs\<close>): controllers, chip selects, transfer modes,
  the configuration, capacities and range checks, the validation of a DMA read, the encoding of
  a decode segment, the clock divider, the choice of a calibration point and the decoding of the
  interrupt status. The target has 32-bit addresses: a \<open>usize\<close> is a natural number below
  \<open>2 ^ 32\<close>, and the checked operations of the source test that bound.
\<close>

section \<open>Types\<close>

datatype smc_error =
    SmcHardwareError | SmcTimeout | SmcDmaAborted | SmcDmaLengthMismatch | SmcInvalidChipSelect
  | SmcInvalidCapacity | SmcDeviceNotSupported | SmcWriteProtected | SmcWriteInProgress
  | SmcControllerNotReady | SmcDmaNotEnabled

datatype chip_select = Cs0 | Cs1

definition cs_index :: "chip_select \<Rightarrow> nat" where
  "cs_index cs = (case cs of Cs0 \<Rightarrow> 0 | Cs1 \<Rightarrow> 1)"

datatype address_width = AwNone | ThreeByte | FourByte

definition byte_count :: "address_width \<Rightarrow> nat" where
  "byte_count w = (case w of AwNone \<Rightarrow> 0 | ThreeByte \<Rightarrow> 3 | FourByte \<Rightarrow> 4)"

datatype transfer_mode = Mode111 | Mode112 | Mode122 | Mode114 | Mode144

definition cmd_io_bits :: "transfer_mode \<Rightarrow> u32" where
  "cmd_io_bits mode = 0"

definition addr_io_bits :: "transfer_mode \<Rightarrow> u32" where
  "addr_io_bits mode =
     (case mode of Mode111 \<Rightarrow> 0 | Mode112 \<Rightarrow> 0 | Mode114 \<Rightarrow> 0 | Mode122 \<Rightarrow> 0x20000000 | Mode144 \<Rightarrow> 0x20000000)"

definition data_io_bits :: "transfer_mode \<Rightarrow> u32" where
  "data_io_bits mode =
     (case mode of Mode111 \<Rightarrow> 0 | Mode112 \<Rightarrow> 0x20000000 | Mode122 \<Rightarrow> 0x20000000
      | Mode114 \<Rightarrow> 0x40000000 | Mode144 \<Rightarrow> 0x40000000)"

datatype smc_controller = SmcFmc | SmcSpi1 | SmcSpi2

definition smc_base_address :: "smc_controller \<Rightarrow> nat" where
  "smc_base_address c = (case c of SmcFmc \<Rightarrow> 0x7E620000 | SmcSpi1 \<Rightarrow> 0x7E630000 | SmcSpi2 \<Rightarrow> 0x7E640000)"

definition flash_window_address :: "smc_controller \<Rightarrow> nat" where
  "flash_window_address c = (case c of SmcFmc \<Rightarrow> 0x80000000 | SmcSpi1 \<Rightarrow> 0x90000000 | SmcSpi2 \<Rightarrow> 0xB0000000)"

definition irq_number :: "smc_controller \<Rightarrow> u32" where
  "irq_number c = (case c of SmcFmc \<Rightarrow> 39 | SmcSpi1 \<Rightarrow> 65 | SmcSpi2 \<Rightarrow> 66)"

record flash_config =
  capacity_mb :: u32
  page_size :: u32
  sector_size :: u32
  block_size :: u32
  spi_clock_mhz :: u32

definition winbond_w25q64 :: flash_config where
  "winbond_w25q64 =
     \<lparr>capacity_mb = 8, page_size = 256, sector_size = 4096, block_size = 65536, spi_clock_mhz = 25\<rparr>"

definition winbond_w25q256 :: flash_config where
  "winbond_w25q256 =
     \<lparr>capacity_mb = 32, page_size = 256, sector_size = 4096, block_size = 65536, spi_clock_mhz = 25\<rparr>"

datatype smc_topology = BootSpi u8 | HostSpi u8 | NormalSpi u8

fun topology_master_idx :: "smc_topology \<Rightarrow> u8" where
  "topology_master_idx (BootSpi i) = i"
| "topology_master_idx (HostSpi i) = i"
| "topology_master_idx (NormalSpi i) = i"

record smc_config =
  cfg_controller_id :: smc_controller
  cfg_cs0 :: "flash_config option"
  cfg_cs1 :: "flash_config option"
  dma_enabled :: bool
  enable_interrupts :: bool
  topology :: smc_topology

section \<open>Capacities and ranges\<close>

definition USIZE_LIMIT :: nat where "USIZE_LIMIT = 2 ^ 32"
definition SMC_WINDOW_SIZE_BYTES :: nat where "SMC_WINDOW_SIZE_BYTES = 256 * 1024 * 1024"
definition DMA_MAX_TRANSFER_LENGTH :: u32 where "DMA_MAX_TRANSFER_LENGTH = 0x200000"
definition SPI_CTRL_FREQ_MASK :: u32 where "SPI_CTRL_FREQ_MASK = 0x0F000F00"
definition SPI_DMA_FLASH_MAP_BASE :: nat where "SPI_DMA_FLASH_MAP_BASE = 0x60000000"
definition SPI_DMA_RAM_MAP_BASE :: u32 where "SPI_DMA_RAM_MAP_BASE = 0x80000000"
definition SPI_DMA_GET_REQ_MAGIC :: u32 where "SPI_DMA_GET_REQ_MAGIC = 0xaeed0000"
definition SPI_DMA_DISCARD_REQ_MAGIC :: u32 where "SPI_DMA_DISCARD_REQ_MAGIC = 0xdeea0000"
definition SPI_DMA_REQUEST :: u32 where "SPI_DMA_REQUEST = push_bit 31 1"
definition SPI_DMA_GRANT :: u32 where "SPI_DMA_GRANT = push_bit 30 1"
definition SPI_DMA_CALIB_MODE :: u32 where "SPI_DMA_CALIB_MODE = push_bit 3 1"
definition SPI_DMA_CALC_CKSUM :: u32 where "SPI_DMA_CALC_CKSUM = push_bit 2 1"
definition SPI_DMA_ENABLE :: u32 where "SPI_DMA_ENABLE = push_bit 0 1"

record validated_dma_read =
  vd_flash_start :: nat
  vd_dram_addr :: u32
  vd_dma_len_reg :: u32

text \<open>A \<open>checked_add\<close> or \<open>checked_mul\<close> on \<open>usize\<close> followed by \<open>ok_or(SmcError::InvalidCapacity)\<close>.\<close>

definition usize_ok :: "nat \<Rightarrow> (smc_error, nat) result" where
  "usize_ok n = (if n < USIZE_LIMIT then Inr n else Inl SmcInvalidCapacity)"

definition flash_capacity_bytes :: "flash_config option \<Rightarrow> (smc_error, nat) result" where
  "flash_capacity_bytes config =
     (case config of Some c \<Rightarrow> usize_ok (unat (capacity_mb c) * (1024 * 1024)) | None \<Rightarrow> Inr 0)"

definition cs_slot :: "smc_config \<Rightarrow> chip_select \<Rightarrow> flash_config option" where
  "cs_slot config cs = (case cs of Cs0 \<Rightarrow> cfg_cs0 config | Cs1 \<Rightarrow> cfg_cs1 config)"

definition cs_capacity_bytes :: "smc_config \<Rightarrow> chip_select \<Rightarrow> (smc_error, nat) result" where
  "cs_capacity_bytes config cs =
     (case cs_slot config cs of Some c \<Rightarrow> flash_capacity_bytes (Some c) | None \<Rightarrow> Inl SmcInvalidChipSelect)"

definition total_capacity_bytes :: "flash_config option \<Rightarrow> flash_config option \<Rightarrow> (smc_error, nat) result" where
  "total_capacity_bytes cs0 cs1 =
     (case flash_capacity_bytes cs0 of Inl e \<Rightarrow> Inl e | Inr cs0_size \<Rightarrow>
      (case flash_capacity_bytes cs1 of Inl e \<Rightarrow> Inl e | Inr cs1_size \<Rightarrow>
       (case usize_ok (cs0_size + cs1_size) of Inl e \<Rightarrow> Inl e | Inr all_bytes \<Rightarrow>
        if all_bytes > SMC_WINDOW_SIZE_BYTES then Inl SmcInvalidCapacity else Inr all_bytes)))"

definition validate_mapped_range :: "u32 \<Rightarrow> nat \<Rightarrow> nat \<Rightarrow> (smc_error, nat) result" where
  "validate_mapped_range offset len capacity =
     (case usize_ok (unat offset + len) of
        Inl e \<Rightarrow> Inl e
      | Inr end_addr \<Rightarrow> if end_addr > capacity then Inl SmcInvalidCapacity else Inr (unat offset))"

definition validate_dma_read :: "u32 \<Rightarrow> nat \<Rightarrow> nat \<Rightarrow> nat \<Rightarrow> u32 \<Rightarrow> (smc_error, validated_dma_read) result" where
  "validate_dma_read flash_offset flash_win_base cs_capacity dram_addr len =
     (if len = 0 \<or> len > DMA_MAX_TRANSFER_LENGTH then Inl SmcInvalidCapacity
      else if flash_offset AND 3 \<noteq> 0 then Inl SmcInvalidCapacity
      else case validate_mapped_range flash_offset (unat len) cs_capacity of
        Inl e \<Rightarrow> Inl e
      | Inr _ \<Rightarrow>
        if flash_win_base < SPI_DMA_FLASH_MAP_BASE then Inl SmcInvalidCapacity
        else case usize_ok (flash_win_base - SPI_DMA_FLASH_MAP_BASE + unat flash_offset) of
          Inl e \<Rightarrow> Inl e
        | Inr flash_start \<Rightarrow>
          if dram_addr \<ge> 2 ^ 32 then Inl SmcInvalidCapacity
          else if (of_nat dram_addr :: u32) AND 3 \<noteq> 0 then Inl SmcInvalidCapacity
          else Inr \<lparr>vd_flash_start = flash_start, vd_dram_addr = of_nat dram_addr, vd_dma_len_reg = len - 1\<rparr>)"

section \<open>Decode segments\<close>

text \<open>The casts \<open>start as u32\<close> and \<open>(end - 1) as u32\<close> keep the low 32 bits.\<close>

definition encode_fmc_segment :: "nat \<Rightarrow> nat \<Rightarrow> (smc_error, u32) result" where
  "encode_fmc_segment start end_addr =
     (if end_addr = 0 \<or> end_addr \<le> start then Inl SmcInvalidCapacity
      else let s = of_nat start :: u32; inclusive_end = of_nat (end_addr - 1) :: u32
           in Inr ((drop_bit 16 (push_bit 19 (drop_bit 19 s)) AND 0x0ff8)
                   OR (push_bit 19 (drop_bit 19 inclusive_end) AND 0x0ff80000)))"

definition encode_spi_segment :: "nat \<Rightarrow> nat \<Rightarrow> (smc_error, u32) result" where
  "encode_spi_segment start end_addr =
     (if end_addr = 0 \<or> end_addr \<le> start then Inl SmcInvalidCapacity
      else let s = of_nat start :: u32; inclusive_end = of_nat (end_addr - 1) :: u32
           in Inr ((drop_bit 16 (push_bit 20 (drop_bit 20 s)) AND 0xffff)
                   OR (push_bit 20 (drop_bit 20 inclusive_end) AND 0xffff0000)))"

section \<open>Clock divider\<close>

definition div_arr :: "u32 list" where
  "div_arr = [15, 7, 14, 6, 13, 5, 12, 4, 11, 3, 10, 2, 9, 1, 8, 0]"

text \<open>The pairs \<open>(i, j)\<close> of the two loops in their order; the pair \<open>(0, 0)\<close> is skipped.\<close>

definition div_pairs :: "(nat \<times> nat) list" where
  "div_pairs = filter (\<lambda>(i, j). \<not> (i = 0 \<and> j = 0)) (List.product [0..<15] [0..<16])"

definition freq_divisor :: "nat \<times> nat \<Rightarrow> nat" where
  "freq_divisor = (\<lambda>(i, j). j + 1 + i * 16)"

definition freq_code :: "nat \<times> nat \<Rightarrow> u32" where
  "freq_code = (\<lambda>(i, j). push_bit 24 (of_nat i) OR push_bit 8 (div_arr ! j))"

text \<open>A product that does not fit into 32 bits makes the source skip the divisor.\<close>

definition divisor_fits :: "u32 \<Rightarrow> u32 \<Rightarrow> nat \<times> nat \<Rightarrow> bool" where
  "divisor_fits sysclk_mhz max_freq_mhz p \<longleftrightarrow>
     unat max_freq_mhz * freq_divisor p < 2 ^ 32 \<and> unat sysclk_mhz \<le> unat max_freq_mhz * freq_divisor p"

definition spi_freq_div :: "u32 \<Rightarrow> u32 \<Rightarrow> (smc_error, u32) result" where
  "spi_freq_div sysclk_mhz max_freq_mhz =
     (if max_freq_mhz = 0 then Inl SmcHardwareError
      else case find (divisor_fits sysclk_mhz max_freq_mhz) div_pairs of
        Some p \<Rightarrow> Inr (freq_code p)
      | None \<Rightarrow> Inr 0)"

section \<open>Calibration\<close>

text \<open>The loop variables are \<open>start\<close>, \<open>mid_point\<close>, \<open>max_cnt\<close> and \<open>cnt\<close>.\<close>

fun mid_point_loop :: "nat \<Rightarrow> u8 list \<Rightarrow> nat \<times> nat \<times> nat \<times> nat \<Rightarrow> nat \<times> nat \<times> nat \<times> nat" where
  "mid_point_loop i [] s = s"
| "mid_point_loop i (val # vals) (start, mid_point, max_cnt, cnt) =
     (let cnt' = (if val = 1 then cnt + 1 else 0);
          start' = (if val = 1 then start else i)
      in mid_point_loop (i + 1) vals
           (if cnt' > max_cnt then (start', start' + cnt' div 2, cnt', cnt') else (start', mid_point, max_cnt, cnt')))"

definition get_mid_point_of_longest_one :: "u8 list \<Rightarrow> int" where
  "get_mid_point_of_longest_one buf =
     (case mid_point_loop 0 buf (0, 0, 0, 0) of (start, mid_point, max_cnt, cnt) \<Rightarrow>
        if max_cnt < 4 then - 1 else if mid_point < 2 ^ 31 then int mid_point else - 1)"

fun calib_words :: "u8 list \<Rightarrow> u32 list" where
  "calib_words (a # b # c # d # bs) = from_le_bytes32 a b c d # calib_words bs"
| "calib_words bs = []"

fun calib_count :: "nat \<Rightarrow> u32 list \<Rightarrow> bool" where
  "calib_count valid_count [] = False"
| "calib_count valid_count (w # ws) =
     (let valid_count' = (if w \<noteq> 0 \<and> w \<noteq> 0xFFFFFFFF then valid_count + 1 else valid_count)
      in if valid_count' > 100 then True else calib_count valid_count' ws)"

definition spi_calibration_enable :: "u8 list \<Rightarrow> (smc_error, bool) result" where
  "spi_calibration_enable buf = (if length buf < 4 then Inr False else Inr (calib_count 0 (calib_words buf)))"

section \<open>Interrupts\<close>

datatype smc_interrupt = IntDmaComplete | IntDmaError | IntCommandAbort | IntWriteProtected | IntUnknown

definition interrupt_try_from :: "u8 \<Rightarrow> (unit, smc_interrupt) result" where
  "interrupt_try_from v =
     (if v = 0 then Inr IntDmaComplete else if v = 1 then Inr IntDmaError
      else if v = 2 then Inr IntCommandAbort else if v = 3 then Inr IntWriteProtected else Inl ())"

definition decode_with_context :: "u32 \<Rightarrow> bool \<Rightarrow> smc_interrupt" where
  "decode_with_context intr_ctrl dma_in_flight =
     (if bit intr_ctrl 11 then IntDmaComplete
      else if bit intr_ctrl 10 then (if dma_in_flight then IntDmaError else IntCommandAbort)
      else if bit intr_ctrl 9 then IntWriteProtected
      else IntUnknown)"

definition decode_interrupt :: "u32 \<Rightarrow> smc_interrupt" where
  "decode_interrupt intr_ctrl = decode_with_context intr_ctrl True"

section \<open>Facts\<close>

lemma flash_capacity_Some:
  "flash_capacity_bytes (Some c) = Inr n \<longleftrightarrow> n = unat (capacity_mb c) * 1048576 \<and> n < 2 ^ 32"
  by (auto simp: flash_capacity_bytes_def usize_ok_def USIZE_LIMIT_def)

lemma total_capacity_bound:
  assumes "total_capacity_bytes a b = Inr t"
  obtains m n where "flash_capacity_bytes a = Inr m" "flash_capacity_bytes b = Inr n" "t = m + n" "t \<le> 0x10000000"
  using assms by (auto simp: total_capacity_bytes_def usize_ok_def SMC_WINDOW_SIZE_BYTES_def
      split: sum.splits if_splits)

lemma validate_mapped_range_ok:
  "validate_mapped_range offset len cap = Inr n \<longleftrightarrow>
     n = unat offset \<and> unat offset + len \<le> cap \<and> unat offset + len < 2 ^ 32"
  by (auto simp: validate_mapped_range_def usize_ok_def USIZE_LIMIT_def)

end
