(* ===== verification/Spim_Wiring.thy ===== *)
theory Spim_Wiring
  imports Scu_Routing Smc_Types
begin

unbundle bit_operations_syntax

text \<open>
  The board layer over the SPI monitors (\<open>board/src/spim_wiring.rs\<close>, \<open>board/src/spi_monitor.rs\<close>): the wiring of a
  monitor at start-up - pins, routes, multiplexers, policy, lock - and the facade that implements the
  trait \<open>SpiMonitorControl\<close>. The external multiplexer of a controller handle (\<open>set_ext_mux\<close>, \<open>get_ext_mux\<close>) is
  here because it belongs to the SCU.
\<close>

section \<open>External multiplexer of a monitor handle\<close>

definition set_ext_mux :: "'h board_dev \<Rightarrow> spi_monitor_instance \<Rightarrow> ext_mux_sel \<Rightarrow> ('h, 'e, unit) reg_op" where
  "set_ext_mux dev i sel = set_spim_ext_mux dev i (case sel of Sel0 \<Rightarrow> Mux0 | Sel1 \<Rightarrow> Mux1)"

definition get_ext_mux :: "'h board_dev \<Rightarrow> spi_monitor_instance \<Rightarrow> ('h, 'e, ext_mux_sel) reg_op" where
  "get_ext_mux dev i = ebind (get_spim_ext_mux dev i) (\<lambda>m. ret (case m of Mux0 \<Rightarrow> Sel0 | Mux1 \<Rightarrow> Sel1))"

section \<open>Wiring\<close>


record spim_wiring =
  wr_instance :: spi_monitor_instance
  wr_source :: spi_monitor_source
  wr_passthrough :: spi_monitor_passthrough
  wr_ext_mux :: scu_ext_mux_select
  wr_miso_multi_func :: bool

definition default_spi1_via_spim0 :: spim_wiring where
  "default_spi1_via_spim0 = \<lparr>wr_instance = Spim0, wr_source = Spi1, wr_passthrough = PtEnabled, wr_ext_mux = Mux0,
     wr_miso_multi_func = True\<rparr>"

definition default_spi2_via_spim2 :: spim_wiring where
  "default_spi2_via_spim2 = \<lparr>wr_instance = Spim2, wr_source = Spi2, wr_passthrough = PtEnabled, wr_ext_mux = Mux0,
     wr_miso_multi_func = True\<rparr>"

datatype spim_wiring_error = InvalidController | RouteMismatch | ScuErr scu_error | MonitorErr spim_error

definition spim_pins :: "spi_monitor_instance \<Rightarrow> pinctrl_pin list" where
  "spim_pins i = (case i of Spim0 \<Rightarrow> PINCTRL_SPIM1_DEFAULT | Spim1 \<Rightarrow> PINCTRL_SPIM2_DEFAULT
     | Spim2 \<Rightarrow> PINCTRL_SPIM3_DEFAULT | Spim3 \<Rightarrow> PINCTRL_SPIM4_DEFAULT)"

definition apply_spim_pinctrl :: "'h board_dev \<Rightarrow> spi_monitor_instance \<Rightarrow> ('h, 'e, unit) reg_op" where
  "apply_spim_pinctrl dev i = apply_pinctrl_group dev (spim_pins i)"

text \<open>Which GPIO group, GPIO bit and serial output drive the external multiplexer of an instance.\<close>

definition external_mux_pins :: "spi_monitor_instance \<Rightarrow> gpio_group \<times> u32 \<times> u32" where
  "external_mux_pins i =
     (if i = Spim0 \<or> i = Spim1 then (Abcd, push_bit 12 1, push_bit 0 1) else (Efgh, push_bit 8 1, push_bit 2 1))"

text \<open>The preparation of the serial GPIO master.\<close>

definition enable_sgpiom :: "'h board_dev \<Rightarrow> ('h, 'e, unit) reg_op" where
  "enable_sgpiom dev = modify_reg dev (Scu 0x41C) (enbl_sgpiomaster_pins dev)"

definition configure_sgpiom :: "'h board_dev \<Rightarrow> ('h, 'e, unit) reg_op" where
  "configure_sgpiom dev = modify_reg dev (Sgpiom 0x554) (sgpio_config dev)"

definition drive_sgpiom :: "'h board_dev \<Rightarrow> u32 \<Rightarrow> bool \<Rightarrow> ('h, 'e, unit) reg_op" where
  "drive_sgpiom dev m high =
     ebind (read_reg dev (Sgpiom 0x570)) (\<lambda>latch. write_reg dev (Sgpiom 0x500) (update_bit latch m high))"

definition apply_spim_external_mux :: "'h board_dev \<Rightarrow> spi_monitor_instance \<Rightarrow> scu_ext_mux_select \<Rightarrow> ('h, 'e, unit) reg_op" where
  "apply_spim_external_mux dev i mux =
     (let high = (mux = Mux1); (gpio_group, gpio_mask, sgpio_select) = external_mux_pins i
      in eseq (enable_sgpiom dev)
         (eseq (case gpio_group of
             Abcd \<Rightarrow> eseq (modify_reg dev (Gpio 0x000) (\<lambda>w. update_bit w gpio_mask high))
                          (modify_reg dev (Gpio 0x004) (\<lambda>w. w OR gpio_mask))
           | Efgh \<Rightarrow> eseq (modify_reg dev (Gpio 0x020) (\<lambda>w. update_bit w gpio_mask high))
                          (modify_reg dev (Gpio 0x024) (\<lambda>w. w OR gpio_mask)))
         (eseq (configure_sgpiom dev) (drive_sgpiom dev sgpio_select high))))"

definition spim_external_mux_state :: "'h board_dev \<Rightarrow> spi_monitor_instance \<Rightarrow> ('h, 'e, scu_ext_mux_select option) reg_op" where
  "spim_external_mux_state dev i =
     (let (gpio_group, gpio_mask, sgpio_select) = external_mux_pins i
      in ebind (read_reg dev (Gpio (case gpio_group of Abcd \<Rightarrow> 0x000 | Efgh \<Rightarrow> 0x020))) (\<lambda>data.
         ebind (read_reg dev (Sgpiom 0x570)) (\<lambda>latch.
           let gpio_high = data AND gpio_mask \<noteq> 0; sgpio_high = latch AND sgpio_select \<noteq> 0
           in ret (if gpio_high \<noteq> sgpio_high then None else if gpio_high then Some Mux1 else Some Mux0))))"

definition release_spi_flash_resets :: "'h board_dev \<Rightarrow> ('h, 'e, bool) reg_op" where
  "release_spi_flash_resets dev =
     (let RESET_MASK = push_bit 6 1 OR push_bit 7 1
      in ebind (read_reg dev (Sgpiom 0x570)) (\<lambda>latch.
         eseq (write_reg dev (Sgpiom 0x500) (latch OR RESET_MASK))
         (ebind (read_reg dev (Sgpiom 0x570)) (\<lambda>l. ret (l AND RESET_MASK = RESET_MASK)))))"

record bmc_spim_path_debug =
  dbg_scu410 :: u32
  dbg_scu4b0 :: u32
  dbg_scu690 :: u32
  dbg_scu610 :: u32
  dbg_gpio_data :: u32
  dbg_gpio_direction :: u32
  dbg_sgpio_latch :: u32
  dbg_sgpio_config :: u32

definition capture_bmc_spim_path_debug :: "'h board_dev \<Rightarrow> ('h, 'e, bmc_spim_path_debug) reg_op" where
  "capture_bmc_spim_path_debug dev =
     ebind (read_reg dev (Scu 0x410)) (\<lambda>a. ebind (read_reg dev (Scu 0x4B0)) (\<lambda>b.
     ebind (read_reg dev (Scu 0x690)) (\<lambda>c. ebind (read_reg dev (Scu 0x610)) (\<lambda>d.
     ebind (read_reg dev (Gpio 0x000)) (\<lambda>e. ebind (read_reg dev (Gpio 0x004)) (\<lambda>f.
     ebind (read_reg dev (Sgpiom 0x570)) (\<lambda>g. ebind (read_reg dev (Sgpiom 0x554)) (\<lambda>h.
       ret \<lparr>dbg_scu410 = a, dbg_scu4b0 = b, dbg_scu690 = c, dbg_scu610 = d, dbg_gpio_data = e, dbg_gpio_direction = f,
            dbg_sgpio_latch = g, dbg_sgpio_config = h\<rparr>))))))))"

definition bmc_spim_csin_levels :: "'h board_dev \<Rightarrow> ('h, 'e, u32) reg_op" where
  "bmc_spim_csin_levels dev = ebind (read_reg dev (Gpio 0x000)) (\<lambda>w. ret (w AND (push_bit 0 1 OR push_bit 14 1)))"

definition enable_flash_power :: "'h board_dev \<Rightarrow> ('h, 'e, bool) reg_op" where
  "enable_flash_power dev =
     (let FLASH_POWER_MASK = push_bit 26 1 OR push_bit 27 1
      in eseq (apply_pinctrl_group dev PINCTRL_GPIOL2)
         (eseq (apply_pinctrl_group dev PINCTRL_GPIOL3)
         (eseq (modify_reg dev (Gpio 0x070) (\<lambda>w. w OR FLASH_POWER_MASK))
         (eseq (modify_reg dev (Gpio 0x074) (\<lambda>w. w OR FLASH_POWER_MASK))
         (ebind (read_reg dev (Gpio 0x0C8)) (\<lambda>w. ret (w AND FLASH_POWER_MASK = FLASH_POWER_MASK)))))))"

definition set_bmc_resets :: "'h board_dev \<Rightarrow> bool \<Rightarrow> ('h, 'e, bool) reg_op" where
  "set_bmc_resets dev asserted =
     (let BMC_SRST_MASK = push_bit 8 1; BMC_EXTRST_MASK = push_bit 9 1;
          output_high = (\<not> asserted);
          first_mask = (if asserted then BMC_EXTRST_MASK else BMC_SRST_MASK);
          second_mask = (if asserted then BMC_SRST_MASK else BMC_EXTRST_MASK);
          reset_mask = BMC_SRST_MASK OR BMC_EXTRST_MASK
      in eseq (enable_sgpiom dev)
         (eseq (configure_sgpiom dev)
         (eseq (for_each (\<lambda>m. drive_sgpiom dev m output_high) [first_mask, second_mask])
         (ebind (read_reg dev (Sgpiom 0x570)) (\<lambda>latch. ret ((latch AND reset_mask = reset_mask) = output_high))))))"

fun validate_controller_for_source :: "smc_controller \<Rightarrow> spi_monitor_source \<Rightarrow> (spim_wiring_error, unit) result" where
  "validate_controller_for_source SmcFmc _ = Inl InvalidController"
| "validate_controller_for_source SmcSpi1 Spi1 = Inr ()"
| "validate_controller_for_source SmcSpi2 Spi2 = Inr ()"
| "validate_controller_for_source SmcSpi1 Spi2 = Inl RouteMismatch"
| "validate_controller_for_source SmcSpi2 Spi1 = Inl RouteMismatch"

text \<open>The log buffer is given by its address and its number of words.\<close>

definition apply_spim_wiring_with_log ::
  "'h board_dev \<Rightarrow> smc_controller \<Rightarrow> spim_wiring \<Rightarrow> spi_monitor_policy \<Rightarrow> (u64 \<times> nat) option
     \<Rightarrow> ('h, spim_wiring_error, unit) reg_op" where
  "apply_spim_wiring_with_log dev controller_id wiring policy log_buffer =
     (let i = wr_instance wiring; monitor = spipf_of dev i
      in eseq (lift (validate_controller_for_source controller_id (wr_source wiring)))
         (eseq (map_err ScuErr (lift (validate_spim_instance i)))
         (eseq (apply_spim_pinctrl dev i)
         (eseq (disable_spim_cs_internal_pull_down dev i)
         (eseq (map_err ScuErr (set_spim_internal_mux dev (wr_source wiring) 0))
         (eseq (set_spim_passthrough dev i (wr_passthrough wiring))
         (eseq (set_spim_ext_mux dev i (wr_ext_mux wiring))
         (eseq (apply_spim_external_mux dev i (wr_ext_mux wiring))
         (eseq (set_spim_miso_multi_func dev i (wr_miso_multi_func wiring))
         (eseq (set_spim_filter dev i True)
         (eseq (map_err MonitorErr (apply_policy monitor policy))
         (eseq (case log_buffer of
                  Some (address, len) \<Rightarrow> map_err MonitorErr (configure_log monitor address len)
                | None \<Rightarrow> ret ())
         (eseq (map_err MonitorErr (set_push_pull monitor True))
         (eseq (map_err MonitorErr (set_passthrough monitor PassDisabled))
         (eseq (map_err MonitorErr (monitor_enable monitor))
               (map_err MonitorErr (monitor_lock monitor)))))))))))))))))"

definition apply_spim_wiring ::
  "'h board_dev \<Rightarrow> smc_controller \<Rightarrow> spim_wiring \<Rightarrow> spi_monitor_policy \<Rightarrow> ('h, spim_wiring_error, unit) reg_op" where
  "apply_spim_wiring dev controller_id wiring policy = apply_spim_wiring_with_log dev controller_id wiring policy None"

section \<open>The facade\<close>

datatype mux_select = RotControl | HostControl

record spi_monitor_status =
  st_mux :: mux_select
  st_policy_locked :: bool
  st_enforcement_active :: bool
  st_violation_count :: u32

datatype boot_error =
    MonitorNotFound | MuxSwitchFailed | FlashResetFailed | PolicyLoadFailed | PolicyVerificationFailed | RegionOverlap
  | BootInvalidAddress | TimeoutWaitingForFlash | BootVerificationFailed | LockedOutFromMonitor | HardwareError

definition mux_to_scu :: "mux_select \<Rightarrow> scu_ext_mux_select" where
  "mux_to_scu m = (case m of RotControl \<Rightarrow> Mux0 | HostControl \<Rightarrow> Mux1)"

definition scu_to_mux :: "scu_ext_mux_select \<Rightarrow> mux_select" where
  "scu_to_mux m = (case m of Mux0 \<Rightarrow> RotControl | Mux1 \<Rightarrow> HostControl)"

definition is_enforcement_active :: "u32 \<Rightarrow> bool" where
  "is_enforcement_active ctrl \<longleftrightarrow> drop_bit 1 ctrl AND 3 = 0"

definition is_policy_locked :: "u32 \<Rightarrow> bool" where
  "is_policy_locked lock_status \<longleftrightarrow> drop_bit 0 lock_status AND 1 \<noteq> 0"

definition facade_set_mux :: "'h board_dev \<Rightarrow> spi_monitor_instance \<Rightarrow> mux_select \<Rightarrow> ('h, boot_error, unit) reg_op" where
  "facade_set_mux dev i mux = set_spim_ext_mux dev i (mux_to_scu mux)"

definition facade_read_mux :: "'h board_dev \<Rightarrow> spi_monitor_instance \<Rightarrow> ('h, boot_error, mux_select) reg_op" where
  "facade_read_mux dev i = ebind (get_spim_ext_mux dev i) (\<lambda>m. ret (scu_to_mux m))"

text \<open>Register accesses of a monitor cannot fail, so their error type is converted freely.\<close>

definition spipf_read_reg :: "'h board_dev \<Rightarrow> spi_monitor_instance \<Rightarrow> spim_reg \<Rightarrow> ('h, 'e, u32) reg_op" where
  "spipf_read_reg dev i r = get (spim_read (spipf_of dev i) r)"

definition spipf_write_reg :: "'h board_dev \<Rightarrow> spi_monitor_instance \<Rightarrow> spim_reg \<Rightarrow> u32 \<Rightarrow> ('h, 'e, unit) reg_op" where
  "spipf_write_reg dev i r v = act (spim_write (spipf_of dev i) r v)"

definition soft_reset :: "'h board_dev \<Rightarrow> spi_monitor_instance \<Rightarrow> ('h, boot_error, unit) reg_op" where
  "soft_reset dev i = ebind (spipf_read_reg dev i SPIPF000) (\<lambda>ctrl. spipf_write_reg dev i SPIPF000 (ctrl OR 0x80))"

definition hardware_reset :: "'h board_dev \<Rightarrow> spi_monitor_instance \<Rightarrow> ('h, boot_error, unit) reg_op" where
  "hardware_reset dev i = ebind (spipf_read_reg dev i SPIPF000) (\<lambda>ctrl. spipf_write_reg dev i SPIPF000 (ctrl OR 0x100))"

definition set_address_privilege ::
  "'h board_dev \<Rightarrow> spi_monitor_instance \<Rightarrow> u32 \<Rightarrow> u32 \<Rightarrow> privilege_direction \<Rightarrow> privilege_op \<Rightarrow> ('h, boot_error, unit) reg_op" where
  "set_address_privilege dev i start_addr end_addr direction op =
     (if end_addr < start_addr then fail BootInvalidAddress
      else spipf_write_reg dev i (SPIPFWA 0) ((start_addr AND 0xFFF00000) OR (end_addr AND 0x0FFFFF)))"

definition read_status :: "'h board_dev \<Rightarrow> spi_monitor_instance \<Rightarrow> ('h, boot_error, spi_monitor_status) reg_op" where
  "read_status dev i =
     ebind (spipf_read_reg dev i SPIPF000) (\<lambda>ctrl.
     ebind (spipf_read_reg dev i SPIPF07C) (\<lambda>lock_status.
     ebind (get_spim_ext_mux dev i) (\<lambda>m.
       ret \<lparr>st_mux = scu_to_mux m, st_policy_locked = is_policy_locked lock_status,
            st_enforcement_active = is_enforcement_active ctrl, st_violation_count = 0\<rparr>)))"

definition supports_policy_lock :: bool where "supports_policy_lock = True"

definition lock_policy :: "'h board_dev \<Rightarrow> spi_monitor_instance \<Rightarrow> ('h, boot_error, unit) reg_op" where
  "lock_policy dev i =
     (if \<not> supports_policy_lock then fail LockedOutFromMonitor
      else ebind (spipf_read_reg dev i SPIPF07C) (\<lambda>lock_status. spipf_write_reg dev i SPIPF07C (lock_status OR 1)))"

definition verify_policy_locked :: "'h board_dev \<Rightarrow> spi_monitor_instance \<Rightarrow> ('h, boot_error, unit) reg_op" where
  "verify_policy_locked dev i =
     (if \<not> supports_policy_lock then ret ()
      else ebind (spipf_read_reg dev i SPIPF07C) (\<lambda>lock_status. ensure (is_policy_locked lock_status) PolicyVerificationFailed))"

end
