(* ===== verification/Spim_System.thy ===== *)
theory Spim_System
  imports Spim_Properties Spim_Wiring
begin

unbundle bit_operations_syntax

text \<open>
  The wired monitor as a whole. \<open>board_device\<close> states how the SCU, GPIO and serial GPIO registers behave:
  the SCU accepts writes only after its key was written, a GPIO data register shows the written level on an output pin
  and the pin level on an input, the serial latch register shows the last value written to the serial data register, and the routing
  fields are where the comments of the driver place them. Together with \<open>spipf_device\<close> for the monitor this
  gives the effect of \<open>apply_spim_wiring_with_log\<close>.
\<close>

section \<open>The board\<close>

record board_state =
  bd_reg :: "board_reg \<Rightarrow> u32"
  bd_in :: "u32 \<Rightarrow> u32"
  bd_unlocked :: bool

definition gpio_data_regs :: "(u32 \<times> u32) list" where
  "gpio_data_regs = [(0x000, 0x004), (0x020, 0x024), (0x070, 0x074)]"

definition board_read :: "board_reg \<Rightarrow> board_state \<Rightarrow> u32" where
  "board_read r s =
     (case r of
        Gpio off \<Rightarrow> (case map_of gpio_data_regs off of
                      Some dir \<Rightarrow> (bd_reg s r AND bd_reg s (Gpio dir)) OR (bd_in s off AND NOT (bd_reg s (Gpio dir)))
                    | None \<Rightarrow> bd_reg s r)
      | _ \<Rightarrow> bd_reg s r)"

definition board_write :: "board_reg \<Rightarrow> u32 \<Rightarrow> board_state \<Rightarrow> board_state" where
  "board_write r v s =
     (case r of
        Scu off \<Rightarrow> if off = 0 then s\<lparr>bd_unlocked := (v = SCU_UNLOCK_KEY)\<rparr>
                   else if bd_unlocked s then s\<lparr>bd_reg := (bd_reg s)(r := v)\<rparr> else s
      | Sgpiom off \<Rightarrow> if off = 0x500 then s\<lparr>bd_reg := (bd_reg s)(r := v, Sgpiom 0x570 := v)\<rparr>
                      else s\<lparr>bd_reg := (bd_reg s)(r := v)\<rparr>
      | Gpio off \<Rightarrow> s\<lparr>bd_reg := (bd_reg s)(r := v)\<rparr>)"

definition board_device :: "'h board_dev \<Rightarrow> ('h \<Rightarrow> board_state) \<Rightarrow> bool" where
  "board_device dev view \<longleftrightarrow>
     (\<forall>r v h. view (reg_write dev r v h) = board_write r v (view h))
   \<and> (\<forall>r h. view (fst (reg_read dev r h)) = view h \<and> snd (reg_read dev r h) = board_read r (view h))
   \<and> (\<forall>i. enbl_passthrough dev i = 4 + instance_index i \<and> enbl_filter dev i = 8 + instance_index i
          \<and> ext_mux_select_sig dev i = 12 + instance_index i)"

text \<open>The monitor and the rest of the board are different hardware.\<close>

definition separate :: "'h board_dev \<Rightarrow> spi_monitor_instance \<Rightarrow> ('h \<Rightarrow> board_state) \<Rightarrow> ('h \<Rightarrow> spipf) \<Rightarrow> bool" where
  "separate dev i view sview \<longleftrightarrow>
     (\<forall>r v h. sview (reg_write dev r v h) = sview h) \<and> (\<forall>r h. sview (fst (reg_read dev r h)) = sview h)
   \<and> (\<forall>r v h. view (spim_write (spipf_of dev i) r v h) = view h)
   \<and> (\<forall>r h. view (fst (spim_read (spipf_of dev i) r h)) = view h)
   \<and> (\<forall>a n h. view (ram_fill (spipf_of dev i) a n h) = view h)"

section \<open>What the wiring does to the routing register\<close>

abbreviation route :: "board_state \<Rightarrow> u32" where
  "route s \<equiv> bd_reg s (Scu 0x0F0)"

text \<open>An operation on the board that succeeds, maps the routing register by a function and leaves the monitor alone.\<close>

definition routes :: "('h \<Rightarrow> board_state) \<Rightarrow> ('h \<Rightarrow> spipf) \<Rightarrow> ('h, 'e, unit) reg_op \<Rightarrow> (u32 \<Rightarrow> u32) \<Rightarrow> bool" where
  "routes view sview m f \<longleftrightarrow>
     (\<forall>h. \<exists>h'. m h = (h', Inr ()) \<and> route (view h') = f (route (view h)) \<and> sview h' = sview h)"

lemma routes_eseq: "routes view sview m f \<Longrightarrow> routes view sview n g \<Longrightarrow> routes view sview (eseq m n) (\<lambda>w. g (f w))"
  unfolding routes_def by (metis eseq_okI)

lemma routes_ret: "routes view sview (ret ()) (\<lambda>w. w)"
  by (simp add: routes_def)

lemma routes_map_err: "routes view sview m f \<Longrightarrow> routes view sview (map_err e m) f"
  unfolding routes_def by (metis map_err_Inr_iff)

lemma routes_for_each:
  assumes "\<And>x. x \<in> set xs \<Longrightarrow> routes view sview (m x) (\<lambda>w. w)"
  shows "routes view sview (for_each m xs) (\<lambda>w. w)"
  using assms by (induction xs) (auto intro: routes_ret dest: routes_eseq)

lemma routeD: "routes view sview m f \<Longrightarrow> \<exists>h'. m h = (h', Inr ()) \<and> route (view h') = f (route (view h)) \<and> sview h' = sview h"
  by (simp add: routes_def)

lemma board_writes:
  assumes "r \<noteq> Scu 0x0F0"
  shows "route (board_write r v s) = route s"
  using assms by (cases r) (auto simp: board_write_def)

lemma read_reg_run: "read_reg dev r h = (fst (reg_read dev r h), Inr (snd (reg_read dev r h)))"
  and write_reg_run: "write_reg dev r v h = (reg_write dev r v h, Inr ())"
  and modify_reg_run: "modify_reg dev r f h = (reg_write dev r (f (snd (reg_read dev r h))) (fst (reg_read dev r h)), Inr ())"
  by (simp_all add: read_reg_def write_reg_def modify_reg_def get_def ebind_def case_prod_unfold Let_def)

lemma unlock_run: "unlock_write_protection dev h = (reg_write dev (Scu 0) SCU_UNLOCK_KEY h, Inr ())"
  by (simp add: unlock_write_protection_def write_reg_run)

lemmas board_runs = read_reg_run write_reg_run modify_reg_run unlock_run

lemma routes_modify_other:
  assumes "board_device dev view" "separate dev i view sview" "r \<noteq> Scu 0x0F0"
  shows "routes view sview (modify_reg dev r f) (\<lambda>w. w)"
  using assms board_writes [OF assms(3)] by (simp add: routes_def board_runs board_device_def separate_def)

lemma routes_write_other:
  assumes "board_device dev view" "separate dev i view sview" "r \<noteq> Scu 0x0F0"
  shows "routes view sview (write_reg dev r v) (\<lambda>w. w)"
  using assms board_writes [OF assms(3)] by (simp add: routes_def board_runs board_device_def separate_def)

lemma routes_modify:
  assumes "board_device dev view" "separate dev i view sview"
  shows "routes view sview (eseq (unlock_write_protection dev) (modify_reg dev (Scu 0x0F0) f)) f"
  using assms by (simp add: routes_def board_runs eseq_okI board_device_def separate_def board_write_def board_read_def)

text \<open>The operations of the wiring.\<close>

lemma routes_pinctrl:
  assumes "board_device dev view" "separate dev i view sview"
  shows "routes view sview (apply_pinctrl_group dev pins) (\<lambda>w. w)"
  unfolding apply_pinctrl_group_def apply_pin_def
  by (rule routes_for_each) (auto simp: pinctrl_offsets_def intro: routes_modify_other [OF assms] routes_ret)

lemma routes_unlock:
  assumes "board_device dev view" "separate dev i view sview"
  shows "routes view sview (unlock_write_protection dev) (\<lambda>w. w)"
  unfolding unlock_write_protection_def by (rule routes_write_other [OF assms]) simp

lemma routes_pull_down:
  assumes "board_device dev view" "separate dev i view sview"
  shows "routes view sview (disable_spim_cs_internal_pull_down dev i') (\<lambda>w. w)"
  unfolding disable_spim_cs_internal_pull_down_def
  by (rule routes_eseq [OF routes_unlock [OF assms], where g = "\<lambda>w. w"])
    (auto split: spi_monitor_instance.split intro: routes_modify_other [OF assms] routes_ret)

lemma routes_miso:
  assumes "board_device dev view" "separate dev i view sview"
  shows "routes view sview (set_spim_miso_multi_func dev i' enable) (\<lambda>w. w)"
  unfolding set_spim_miso_multi_func_def
  by (rule routes_eseq [OF routes_unlock [OF assms] routes_modify_other [OF assms]])
    (auto split: spi_monitor_instance.split)

lemma routes_drive:
  assumes "board_device dev view" "separate dev i view sview"
  shows "routes view sview (drive_sgpiom dev m b) (\<lambda>w. w)"
  using assms board_writes [of "Sgpiom 0x500"]
  by (simp add: routes_def drive_sgpiom_def ebind_okI board_runs board_device_def separate_def)

lemma routes_external_mux:
  assumes "board_device dev view" "separate dev i view sview"
  shows "routes view sview (apply_spim_external_mux dev i' mux) (\<lambda>w. w)"
  unfolding apply_spim_external_mux_def Let_def enable_sgpiom_def configure_sgpiom_def
  by (auto split: gpio_group.split prod.split
      intro!: routes_eseq [where f = "\<lambda>w. w" and g = "\<lambda>w. w"] routes_modify_other [OF assms] routes_drive [OF assms])

lemma routes_internal_mux:
  assumes "board_device dev view" "separate dev i view sview"
  shows "routes view sview (set_spim_internal_mux dev source 0) (\<lambda>w. (w AND NOT 0xF) OR (if source = Spi2 then 8 else 0))"
  using assms
  by (simp add: routes_def set_spim_internal_mux_def board_runs eseq_okI ebind_okI board_device_def separate_def
      board_write_def board_read_def)

text \<open>The value of the routing register after the board part of the wiring.\<close>

definition wired_route :: "spim_wiring \<Rightarrow> u32 \<Rightarrow> u32" where
  "wired_route wiring w =
     (let k = instance_index (wr_instance wiring)
      in update_bit (update_bit (update_bit ((w AND NOT 0xF) OR (if wr_source wiring = Spi2 then 8 else 0))
           (push_bit (4 + k) 1) (wr_passthrough wiring = PtEnabled))
           (push_bit (12 + k) 1) (wr_ext_mux wiring = Mux1)) (push_bit (8 + k) 1) True)"

definition board_part :: "'h board_dev \<Rightarrow> spim_wiring \<Rightarrow> ('h, spim_wiring_error, unit) reg_op \<Rightarrow> ('h, spim_wiring_error, unit) reg_op" where
  "board_part dev wiring rest =
     (let i = wr_instance wiring
      in eseq (apply_spim_pinctrl dev i)
         (eseq (disable_spim_cs_internal_pull_down dev i)
         (eseq (map_err ScuErr (set_spim_internal_mux dev (wr_source wiring) 0))
         (eseq (set_spim_passthrough dev i (wr_passthrough wiring))
         (eseq (set_spim_ext_mux dev i (wr_ext_mux wiring))
         (eseq (apply_spim_external_mux dev i (wr_ext_mux wiring))
         (eseq (set_spim_miso_multi_func dev i (wr_miso_multi_func wiring))
         (eseq (set_spim_filter dev i True) rest))))))))"

lemma board_part_run:
  assumes "board_device dev view" "separate dev (wr_instance wiring) view sview"
  shows "\<exists>h'. board_part dev wiring rest h = rest h' \<and> route (view h') = wired_route wiring (route (view h)) \<and> sview h' = sview h"
proof -
  note bits = assms(1) [unfolded board_device_def, THEN conjunct2, THEN conjunct2]
  note steps = routes_eseq [OF routes_eseq [OF routes_eseq [OF routes_eseq [OF routes_eseq [OF routes_eseq [OF routes_eseq [OF
      routes_pinctrl [OF assms, of "spim_pins (wr_instance wiring)"]
      routes_pull_down [OF assms, of "wr_instance wiring"]]
      routes_map_err [OF routes_internal_mux [OF assms, of "wr_source wiring"], of ScuErr]]
      routes_modify [OF assms, of "\<lambda>w. update_bit w (push_bit (4 + instance_index (wr_instance wiring)) 1) (is_enabled (wr_passthrough wiring))"]]
      routes_modify [OF assms, of "\<lambda>w. update_bit w (push_bit (12 + instance_index (wr_instance wiring)) 1) (mux_as_bool (wr_ext_mux wiring))"]]
      routes_external_mux [OF assms, of "wr_instance wiring" "wr_ext_mux wiring"]]
      routes_miso [OF assms, of "wr_instance wiring" "wr_miso_multi_func wiring"]]
      routes_modify [OF assms, of "\<lambda>w. update_bit w (push_bit (8 + instance_index (wr_instance wiring)) 1) True"]]
  have "mux_as_bool m \<longleftrightarrow> m = Mux1" for m by (simp add: mux_as_bool_def split: scu_ext_mux_select.split)
  with routeD [OF steps, of h] show ?thesis
    unfolding board_part_def Let_def apply_spim_pinctrl_def set_spim_passthrough_def set_spim_ext_mux_def set_spim_filter_def
    using bits
    by (auto simp: eseq_assoc [symmetric] wired_route_def Let_def is_enabled_def eseq_okI)
qed

section \<open>The monitor operations leave the board alone\<close>

definition quiet :: "('h \<Rightarrow> 'v) \<Rightarrow> ('h, 'e, 'a) reg_op \<Rightarrow> bool" where
  "quiet view m \<longleftrightarrow> (\<forall>h. view (fst (m h)) = view h)"

named_theorems quiet_intros "operations that keep a view"

lemma quiet_basic [quiet_intros]:
  "quiet view (ret x)" "quiet view (fail e)" "quiet view (lift r)" "quiet view (ensure c e)"
  by (simp_all add: quiet_def ensure_run)

lemma quiet_ebind [quiet_intros]: "quiet view m \<Longrightarrow> (\<And>x. quiet view (f x)) \<Longrightarrow> quiet view (ebind m f)"
  by (auto simp: quiet_def ebind_def split: prod.splits sum.splits) (metis fst_conv)+

lemma quiet_eseq [quiet_intros]: "quiet view m \<Longrightarrow> quiet view n \<Longrightarrow> quiet view (eseq m n)"
  unfolding eseq_def by (rule quiet_ebind)

lemma quiet_map_err [quiet_intros]: "quiet view m \<Longrightarrow> quiet view (map_err f m)"
  by (auto simp: quiet_def map_err_def split: prod.splits sum.splits) (metis fst_conv)+

lemma quiet_for_each [quiet_intros]: "(\<And>x. quiet view (m x)) \<Longrightarrow> quiet view (for_each m xs)"
  by (induction xs) (auto intro: quiet_intros)

lemma quiet_if [quiet_intros]:
  "(c \<Longrightarrow> quiet view m) \<Longrightarrow> (\<not> c \<Longrightarrow> quiet view n) \<Longrightarrow> quiet view (if c then m else n)"
  by simp

lemma quiet_option [quiet_intros]:
  "quiet view m \<Longrightarrow> (\<And>y. quiet view (f y)) \<Longrightarrow> quiet view (case x of None \<Rightarrow> m | Some y \<Rightarrow> f y)"
  by (cases x) auto

lemma quietD: "quiet view m \<Longrightarrow> m h = (h', r) \<Longrightarrow> view h' = view h"
  unfolding quiet_def by (metis fst_conv)

definition apart :: "'h spim_dev \<Rightarrow> ('h \<Rightarrow> 'v) \<Rightarrow> bool" where
  "apart mon view \<longleftrightarrow> (\<forall>r v h. view (spim_write mon r v h) = view h) \<and> (\<forall>r h. view (fst (spim_read mon r h)) = view h)
     \<and> (\<forall>a n h. view (ram_fill mon a n h) = view h)"

lemma separate_apart: "separate dev i view sview \<Longrightarrow> apart (spipf_of dev i) view"
  by (simp add: separate_def apart_def)

lemma quiet_access [quiet_intros]:
  assumes "apart mon view"
  shows "quiet view (get (spim_read mon r))" "quiet view (act (spim_write mon r v))" "quiet view (act (ram_fill mon a n))"
  using assms by (simp_all add: apart_def quiet_def get_def case_prod_unfold Let_def)

lemmas spim_access_defs = read_ctrl_def write_ctrl_def modify_ctrl_def read_ctrl2_def write_ctrl2_def modify_ctrl2_def
  read_lock_status_def write_lock_status_def modify_lock_status_def read_allow_cmd_slot_def write_allow_cmd_slot_def
  read_addr_filter_slot_def write_addr_filter_slot_def read_addr_filter_slot_checked_def write_addr_filter_slot_checked_def
  select_privilege_table_def

lemma quiet_region_word [quiet_intros]:
  assumes "apart mon view"
  shows "quiet view (read_addr_filter_slot_checked mon k)" "quiet view (write_addr_filter_slot_checked mon k v)"
    "quiet view (region_word mon op b e)"
  using assms unfolding region_word_def Let_def spim_access_defs by (intro quiet_intros; assumption)+

lemma quiet_region_loop [quiet_intros]:
  assumes "apart mon view"
  shows "quiet view (region_loop mon op b e)"
  using assms
proof (induction mon op b e rule: region_loop.induct)
  case (1 mon op b e)
  then show ?case
    by (subst region_loop.simps) (intro quiet_intros; assumption?)
qed

lemma quiet_write_commands [quiet_intros]: "apart mon view \<Longrightarrow> quiet view (write_commands mon limit nx cmds)"
  by (induction cmds arbitrary: nx) (auto simp: spim_access_defs split: option.split intro!: quiet_intros)

lemma quiet_apply_policy [quiet_intros]: "apart mon view \<Longrightarrow> quiet view (apply_policy mon p)"
  unfolding apply_policy_def policy_checks_def configure_regions_def initialize_privilege_table_def configure_privilege_region_def
    spim_access_defs Let_def
  by (intro quiet_intros)

lemma quiet_monitor_lock [quiet_intros]: "apart mon view \<Longrightarrow> quiet view (monitor_lock mon)"
  unfolding monitor_lock_def spim_access_defs by (intro quiet_intros)

lemma quiet_settings [quiet_intros]:
  assumes "apart mon view"
  shows "quiet view (configure_log mon a n)" "quiet view (set_push_pull mon b)" "quiet view (set_passthrough mon m)"
    "quiet view (monitor_enable mon)"
  using assms unfolding configure_log_def write_log_config_def set_push_pull_def set_passthrough_def monitor_enable_def spim_access_defs
  by (intro quiet_intros; assumption)+

section \<open>The wired monitor\<close>

definition log_ok :: "(u64 \<times> nat) option \<Rightarrow> bool" where
  "log_ok log \<longleftrightarrow> (case log of None \<Rightarrow> True | Some (a, n) \<Rightarrow> 0 < n \<and> n \<le> MAX_LOG_ENTRIES \<and> a AND 3 = 0 \<and> a \<le> 0xffffffff)"

text \<open>The control register has the filter on and both passthrough modes off.\<close>

definition enforcing :: "spipf \<Rightarrow> bool" where
  "enforcing s \<longleftrightarrow> bit (sp_ctrl s) 2 \<and> \<not> bit (sp_ctrl s) 0 \<and> \<not> bit (sp_ctrl s) 1"

definition monitor_part :: "'h spim_dev \<Rightarrow> spi_monitor_policy \<Rightarrow> (u64 \<times> nat) option \<Rightarrow> ('h, spim_wiring_error, unit) reg_op" where
  "monitor_part mon policy log =
     eseq (map_err MonitorErr (apply_policy mon policy))
     (eseq (case log of Some (address, len) \<Rightarrow> map_err MonitorErr (configure_log mon address len) | None \<Rightarrow> ret ())
     (eseq (map_err MonitorErr (set_push_pull mon True))
     (eseq (map_err MonitorErr (set_passthrough mon PassDisabled))
     (eseq (map_err MonitorErr (monitor_enable mon))
           (map_err MonitorErr (monitor_lock mon))))))"

lemma every_instance_valid: "map_err f (lift (validate_spim_instance i)) = ret ()"
  by (cases i) (simp_all add: map_err_def fun_eq_iff validate_spim_instance_def)

lemma wiring_parts:
  "apply_spim_wiring_with_log dev c wiring p log =
     eseq (lift (validate_controller_for_source c (wr_source wiring)))
       (board_part dev wiring (monitor_part (spipf_of dev (wr_instance wiring)) p log))"
  by (simp add: apply_spim_wiring_with_log_def board_part_def monitor_part_def Let_def every_instance_valid)

lemma log_run:
  assumes "spipf_device mon sview"
  shows "\<exists>h' r. (case log of Some (a, n) \<Rightarrow> map_err MonitorErr (configure_log mon a n) | None \<Rightarrow> ret ()) h = (h', r)
    \<and> (r = Inr () \<longleftrightarrow> log_ok log) \<and> sview h' = sview h"
proof (cases log)
  case (Some an)
  obtain a n where [simp]: "an = (a, n)" by (cases an)
  show ?thesis
  proof (cases "log_ok log")
    case True
    with Some assms show ?thesis
      by (auto simp: log_ok_def map_err_def configure_log_def write_log_config_def eseq_okI spipf_device_def not_less)
  next
    case False
    with Some show ?thesis
      by (auto simp: log_ok_def map_err_def configure_log_def ensure_def eseq_okI eseq_errI split: if_splits)
  qed
qed (simp add: log_ok_def)

lemma push_pull_run:
  assumes "spipf_device mon sview"
  shows "\<exists>h'. set_push_pull mon b h = (h', Inr ()) \<and> sview h' = sview h"
  using assms
  by (simp add: set_push_pull_def modify_ctrl2_def read_ctrl2_def write_ctrl2_def get_def ebind_def case_prod_unfold Let_def
      spipf_device_def)

lemma modify_ctrl_run:
  assumes "spipf_device mon sview" "sp_lock (sview h) AND LOCK_CTRL = 0"
  shows "\<exists>h'. modify_ctrl mon f h = (h', Inr ()) \<and> sview h' = (sview h)\<lparr>sp_ctrl := f (sp_ctrl (sview h))\<rparr>"
proof -
  obtain h' r where run: "modify_ctrl mon f h = (h', r)" by (cases "modify_ctrl mon f h")
  from simD [OF sim_modify(1) [OF assms(1)] run] assms(2) have "(sview h', r) = ((sview h)\<lparr>sp_ctrl := f (sp_ctrl (sview h))\<rparr>, Inr ())"
    by (simp add: modify_ctrl_def ebind_okI)
  with run show ?thesis by simp
qed

text \<open>The state of the block after the monitor part.\<close>

definition wired_block :: "spi_monitor_policy \<Rightarrow> spipf \<Rightarrow> bool" where
  "wired_block p s \<longleftrightarrow> filters p s \<and> enforcing s \<and> policy_sealed s"

lemma enable_lock_run:
  assumes "spipf_device mon sview" "unlocked (sview h)" "filters p (sview h)"
  shows "\<exists>h'. eseq (map_err MonitorErr (set_passthrough mon PassDisabled))
     (eseq (map_err MonitorErr (monitor_enable mon)) (map_err MonitorErr (monitor_lock mon))) h = (h', Inr ()) \<and> wired_block p (sview h')"
proof -
  have open0: "sp_lock (sview h) AND LOCK_CTRL = 0" using assms(2) by (simp add: unlocked_def)
  from modify_ctrl_run [OF assms(1) open0, of "passthrough_bits PassDisabled"] obtain h1 where
    h1: "set_passthrough mon PassDisabled h = (h1, Inr ())"
      "sview h1 = (sview h)\<lparr>sp_ctrl := passthrough_bits PassDisabled (sp_ctrl (sview h))\<rparr>" by (auto simp: set_passthrough_def)
  have open1: "sp_lock (sview h1) AND LOCK_CTRL = 0" using open0 h1(2) by simp
  from modify_ctrl_run [OF assms(1) open1, of "\<lambda>bits. bits OR CTRL_MONITOR_ENABLE_BIT"] obtain h2 where
    h2: "monitor_enable mon h1 = (h2, Inr ())"
      "sview h2 = (sview h1)\<lparr>sp_ctrl := sp_ctrl (sview h1) OR CTRL_MONITOR_ENABLE_BIT\<rparr>" by (auto simp: monitor_enable_def)
  obtain h3 r where run: "monitor_lock mon h2 = (h3, r)" by (cases "monitor_lock mon h2")
  from lock_block [of "sview h2"] simD [OF sim_lock [OF assms(1)] run] have
    h3: "r = Inr ()" "policy_sealed (sview h3)" "sp_table (sview h3) = sp_table (sview h2)"
      "\<forall>i<32. sp_cmd (sview h3) i = sp_cmd (sview h2) i OR COMMAND_LOCKED" "sp_ctrl (sview h3) = locked_ctrl (sview h2)" by auto
  have "filters p (sview h2)" using assms(3) by (simp add: filters_def mem_allows_def cmd_allows_def h1(2) h2(2))
  then have "filters p (sview h3)" by (rule filters_locked) (use h3 in auto)
  moreover have "sp_ctrl (sview h3) = (sp_ctrl (sview h) AND NOT CTRL_PASSTHROUGH_MASK OR CTRL_MONITOR_ENABLE_BIT)
      OR CTRL_BLOCK_FIFO_LOCK OR CTRL_SW_RESET_LOCK"
    using h3(5) open0 by (simp add: locked_ctrl_def h1(2) h2(2) passthrough_bits_def)
  then have "enforcing (sview h3)"
    by (simp add: enforcing_def bit_simps CTRL_PASSTHROUGH_MASK_def CTRL_MONITOR_ENABLE_BIT_def CTRL_BLOCK_FIFO_LOCK_def CTRL_SW_RESET_LOCK_def)
  ultimately have "wired_block p (sview h3)" using h3(2) by (simp add: wired_block_def)
  with run h3(1) show ?thesis by (simp add: eseq_okI map_err_run h1(1) h2(1))
qed

lemma monitor_part_run:
  assumes "spipf_device mon sview"
  shows "\<exists>h' r. monitor_part mon p log h = (h', r)
    \<and> (r = Inr () \<longleftrightarrow> policy_valid p \<and> policy_open (sview h) \<and> log_ok log) \<and> (r = Inr () \<longrightarrow> wired_block p (sview h'))"
proof -
  obtain h1 r1 where run: "apply_policy mon p h = (h1, r1)" by (cases "apply_policy mon p h")
  have block: "apply_policy spipf_dev p (sview h) = (sview h1, r1)" by (rule simD [OF sim_apply_policy [OF assms] run])
  show ?thesis
  proof (cases "policy_valid p \<and> policy_open (sview h)")
    case False
    then obtain e where "r1 = Inl e" using apply_block_refused [OF False] block by auto
    with False run show ?thesis by (auto simp: monitor_part_def eseq_errI map_err_run)
  next
    case True
    with apply_block_filters [of p "sview h"] block have h1: "r1 = Inr ()" "unlocked (sview h1)" "filters p (sview h1)" by auto
    obtain h2 r2 where log: "(case log of Some (a, n) \<Rightarrow> map_err MonitorErr (configure_log mon a n) | None \<Rightarrow> ret ()) h1 = (h2, r2)"
      "r2 = Inr () \<longleftrightarrow> log_ok log" "sview h2 = sview h1" using log_run [OF assms] by blast
    obtain h3 where h3: "set_push_pull mon True h2 = (h3, Inr ())" "sview h3 = sview h1" using push_pull_run [OF assms] log(3) by metis
    from enable_lock_run [OF assms, of h3 p] h1 h3(2) obtain h4 where
      h4: "eseq (map_err MonitorErr (set_passthrough mon PassDisabled))
         (eseq (map_err MonitorErr (monitor_enable mon)) (map_err MonitorErr (monitor_lock mon))) h3 = (h4, Inr ())"
        "wired_block p (sview h4)" by auto
    show ?thesis
    proof (cases r2)
      case (Inl e)
      with log True show ?thesis by (auto simp: monitor_part_def eseq_okI eseq_errI map_err_run run h1(1))
    next
      case (Inr u)
      with log True h4 show ?thesis by (auto simp: monitor_part_def eseq_okI map_err_run run h1(1) h3(1))
    qed
  qed
qed

lemma quiet_monitor_part: "apart mon view \<Longrightarrow> quiet view (monitor_part mon p log)"
  unfolding monitor_part_def by (intro quiet_intros) (auto split: option.split intro!: quiet_intros)

lemma wiring_run:
  assumes "board_device dev view" "spipf_device (spipf_of dev (wr_instance wiring)) sview"
    "separate dev (wr_instance wiring) view sview" "apply_spim_wiring_with_log dev c wiring p log h = (h', r)"
  shows "(r = Inr () \<longleftrightarrow> validate_controller_for_source c (wr_source wiring) = Inr () \<and> policy_valid p
      \<and> policy_open (sview h) \<and> log_ok log)
    \<and> (r = Inr () \<longrightarrow> wired_block p (sview h') \<and> route (view h') = wired_route wiring (route (view h)))"
proof (cases "validate_controller_for_source c (wr_source wiring)")
  case (Inl e)
  with assms(4) show ?thesis by (auto simp: wiring_parts eseq_errI)
next
  case (Inr u)
  let ?mon = "spipf_of dev (wr_instance wiring)"
  from Inr assms(4) have run: "board_part dev wiring (monitor_part ?mon p log) h = (h', r)"
    by (simp add: wiring_parts eseq_okI)
  obtain h1 where h1: "board_part dev wiring (monitor_part ?mon p log) h = monitor_part ?mon p log h1"
    "route (view h1) = wired_route wiring (route (view h))" "sview h1 = sview h" using board_part_run [OF assms(1,3)] by blast
  have "view h' = view h1" by (rule quietD [OF quiet_monitor_part [OF separate_apart [OF assms(3)]]]) (use run h1 in simp)
  with monitor_part_run [OF assms(2), of p log h1] run h1 Inr show ?thesis by auto
qed

text \<open>The routing register after the wiring, bit by bit.\<close>

lemma wired_route_bits:
  assumes "n < 32"
  shows "bit (wired_route wiring w) n =
    (if n = 8 + instance_index (wr_instance wiring) then True
     else if n = 12 + instance_index (wr_instance wiring) then wr_ext_mux wiring = Mux1
     else if n = 4 + instance_index (wr_instance wiring) then wr_passthrough wiring = PtEnabled
     else if n < 4 then n = 3 \<and> wr_source wiring = Spi2
     else bit w n)"
proof -
  have low: "bit (0xF :: u32) n \<longleftrightarrow> n < 4" using bit_mask_iff [of 4 n, where 'a = u32] assms by (simp add: mask_eq_exp_minus_1)
  have three: "bit (8 :: u32) n \<longleftrightarrow> n = 3" using bit_exp_iff [of 3 n, where 'a = u32] by auto
  have "instance_index i < 4" for i by (cases i) simp_all
  with assms low three show ?thesis
    by (auto simp: wired_route_def Let_def update_bit_def bit_simps)
qed

text \<open>
  The wiring succeeds exactly if the flash controller matches the bus of the monitor, the policy
  is valid, nothing of the monitor is locked yet, and the log buffer, if any, is not empty, not too long, aligned and
  addressable.\<close>

theorem wiring_succeeds_iff:
  assumes "board_device dev view" "spipf_device (spipf_of dev (wr_instance wiring)) sview"
    "separate dev (wr_instance wiring) view sview"
  shows "snd (apply_spim_wiring_with_log dev c wiring p log h) = Inr () \<longleftrightarrow>
    (c, wr_source wiring) \<in> {(SmcSpi1, Spi1), (SmcSpi2, Spi2)} \<and> policy_valid p \<and> policy_open (sview h) \<and> log_ok log"
proof -
  have "validate_controller_for_source c (wr_source wiring) = Inr ()
      \<longleftrightarrow> (c, wr_source wiring) \<in> {(SmcSpi1, Spi1), (SmcSpi2, Spi2)}"
    by (cases c; cases "wr_source wiring") simp_all
  then show ?thesis using wiring_run [OF assms, of c p log h] by (cases "apply_spim_wiring_with_log dev c wiring p log h") auto
qed

text \<open>
  C29: A wired monitor enforces its policy for good. Take a board whose registers behave like the
  SCU, GPIO and pin registers of the model (\<open>board_device\<close>), a monitor that behaves like the SPIPF
  register block (\<open>spipf_device\<close>), and accesses to the one that leave the other alone
  (\<open>separate\<close>). If \<open>apply_spim_wiring_with_log\<close> returns \<open>Ok\<close>, then whatever is written to the
  registers of the monitor afterwards, its filter is on and passthrough off, an address below
  256 MiB is open in a direction exactly if the policy opens it, and exactly the commands of the
  policy are admitted. In the routing register of the SCU the passthrough, filter and multiplexer
  bits of the instance are as the wiring asks, the internal route (bits 2:0, and bit 3 too for a
  monitor on the first bus) is clear, and the bits of the other instances are as before; bit 3
  for a monitor on the second bus is not part of this property.
\<close>

theorem wiring_enforces_policy:
  assumes "board_device dev view" "spipf_device (spipf_of dev (wr_instance wiring)) sview"
    "separate dev (wr_instance wiring) view sview" "apply_spim_wiring_with_log dev c wiring p log h = (h', Inr ())"
  shows "(\<forall>ws. let s = sview (fold (\<lambda>(reg, v). spim_write (spipf_of dev (wr_instance wiring)) reg v) ws h')
       in enforcing s \<and> (\<forall>d a. a < PRIVILEGE_ADDRESS_LIMIT \<longrightarrow> mem_allows s d a = policy_allows p d a)
        \<and> (\<forall>opcode. cmd_allows s opcode = (opcode \<in> set (policy_commands p))))
    \<and> (\<forall>n<32. n \<noteq> 3 \<or> wr_source wiring = Spi1 \<longrightarrow> bit (bd_reg (view h') (Scu 0x0F0)) n =
        (if n = 8 + instance_index (wr_instance wiring) then True
         else if n = 12 + instance_index (wr_instance wiring) then wr_ext_mux wiring = Mux1
         else if n = 4 + instance_index (wr_instance wiring) then wr_passthrough wiring = PtEnabled
         else if n < 4 then False
         else bit (bd_reg (view h) (Scu 0x0F0)) n))"
proof -
  from wiring_run [OF assms] have wired: "wired_block p (sview h')" "route (view h') = wired_route wiring (route (view h))" by auto
  have "filters p s' \<and> enforcing s'" if "same_policy (sview h') s'" for s'
    using that filters_same [OF _ that, of p] wired(1) by (auto simp: wired_block_def enforcing_def same_policy_def)
  then show ?thesis
    using wired sealed_writes [of "sview h'"] wired_route_bits [of _ wiring]
    by (auto simp: wired_block_def filters_def Let_def view_writes [OF assms(2)])
qed

section \<open>A concrete board\<close>

record world =
  w_board :: board_state
  w_monitor :: spipf

definition world_monitor :: "world spim_dev" where
  "world_monitor = \<lparr>spim_write = (\<lambda>r v w. w\<lparr>w_monitor := spipf_write r v (w_monitor w)\<rparr>),
     spim_read = (\<lambda>r w. (w, spipf_read r (w_monitor w))), addr_filter_len = 512,
     dmawr_pointer = (\<lambda>v. v AND 0x7ffff), dmabuffer_size = (\<lambda>v. v AND 0x7ffff), ram_read = (\<lambda>a w. (w, 0)), ram_fill = (\<lambda>a n w. w)\<rparr>"

definition world_dev :: "world board_dev" where
  "world_dev = \<lparr>reg_write = (\<lambda>r v w. w\<lparr>w_board := board_write r v (w_board w)\<rparr>), reg_read = (\<lambda>r w. (w, board_read r (w_board w))),
     enbl_passthrough = (\<lambda>i. 4 + instance_index i), enbl_filter = (\<lambda>i. 8 + instance_index i),
     ext_mux_select_sig = (\<lambda>i. 12 + instance_index i),
     enbl_misoin_fn_pin = (\<lambda>i. case i of Spim0 \<Rightarrow> 3 | Spim1 \<Rightarrow> 17 | Spim2 \<Rightarrow> 31 | Spim3 \<Rightarrow> 13),
     select_int_spimaster_connection = (\<lambda>n w. (w AND NOT 7) OR (ucast n AND 7)), int_spimaster_sel = 3,
     enbl_sgpiomaster_pins = (\<lambda>w. w OR 0xF00), sgpio_config = (\<lambda>w. w OR 0x180401), spipf_of = (\<lambda>_. world_monitor)\<rparr>"

definition world_reset :: world where
  "world_reset = \<lparr>w_board = \<lparr>bd_reg = (\<lambda>_. 0), bd_in = (\<lambda>_. 0), bd_unlocked = False\<rparr>, w_monitor = spipf_reset\<rparr>"

lemma world_contracts:
  "board_device world_dev w_board" "spipf_device (spipf_of world_dev i) w_monitor" "separate world_dev i w_board w_monitor"
  by (simp_all add: board_device_def spipf_device_def separate_def world_dev_def world_monitor_def)

theorem wiring_succeeds_iff_witness:
  "snd (apply_spim_wiring_with_log world_dev SmcSpi2 default_spi2_via_spim2 zephyr_spim_policy None world_reset) = Inr ()
   \<and> snd (apply_spim_wiring_with_log world_dev SmcSpi1 default_spi2_via_spim2 zephyr_spim_policy None world_reset) \<noteq> Inr ()"
  using wiring_succeeds_iff [OF world_contracts, where c = SmcSpi2 and wiring = default_spi2_via_spim2
      and p = zephyr_spim_policy and log = None and h = world_reset]
    wiring_succeeds_iff [OF world_contracts, where c = SmcSpi1 and wiring = default_spi2_via_spim2
      and p = zephyr_spim_policy and log = None and h = world_reset]
    zephyr_valid reset_open
  by (simp add: default_spi2_via_spim2_def world_reset_def log_ok_def)

text \<open>The default wiring of the second bus: the filter bit of the third monitor is set and no internal route is selected.\<close>

theorem wiring_enforces_policy_witness:
  "\<exists>w'. apply_spim_wiring_with_log world_dev SmcSpi2 default_spi2_via_spim2 zephyr_spim_policy None world_reset = (w', Inr ())
     \<and> enforcing (w_monitor w') \<and> \<not> cmd_allows (w_monitor w') 0xC7
     \<and> bit (bd_reg (w_board w') (Scu 0x0F0)) 10 \<and> \<not> bit (bd_reg (w_board w') (Scu 0x0F0)) 0"
proof -
  let ?run = "apply_spim_wiring_with_log world_dev SmcSpi2 default_spi2_via_spim2 zephyr_spim_policy None world_reset"
  have "validate_controller_for_source SmcSpi2 (wr_source default_spi2_via_spim2) = Inr ()" by (simp add: default_spi2_via_spim2_def)
  moreover have "policy_open (w_monitor world_reset)" by (simp add: world_reset_def reset_open)
  ultimately obtain w' where w': "?run = (w', Inr ())"
    using wiring_run [OF world_contracts, where c = SmcSpi2 and wiring = default_spi2_via_spim2
        and p = zephyr_spim_policy and log = None and h = world_reset] zephyr_valid
    by (cases ?run) (auto simp: log_ok_def)
  have "0xC7 \<notin> set (policy_commands zephyr_spim_policy)" by code_simp
  with wiring_enforces_policy [OF world_contracts w', THEN conjunct1, rule_format, of "[]"]
    wiring_enforces_policy [OF world_contracts w', THEN conjunct2, rule_format, of 10]
    wiring_enforces_policy [OF world_contracts w', THEN conjunct2, rule_format, of 0] w'
  show ?thesis by (auto simp: default_spi2_via_spim2_def Let_def)
qed

section \<open>The facade on a wired monitor\<close>

lemma ext_mux_bit: "board_device dev view \<Longrightarrow> ext_mux_select_sig dev i = 12 + instance_index i"
  by (simp add: board_device_def)

text \<open>
  The status that the facade reports for a wired monitor. \<open>read_status\<close> gives the multiplexer of the wiring and a locked
  policy, but reports that enforcement is off: the facade takes the enable bit of the control register
  for a passthrough bit.\<close>

theorem wired_status_misreported:
  assumes "board_device dev view" "spipf_device (spipf_of dev (wr_instance wiring)) sview"
    "separate dev (wr_instance wiring) view sview" "apply_spim_wiring_with_log dev c wiring p log h = (h', Inr ())"
  shows "enforcing (sview h')
    \<and> (\<exists>h'' st. read_status dev (wr_instance wiring) h' = (h'', Inr st) \<and> st_mux st = scu_to_mux (wr_ext_mux wiring)
         \<and> st_policy_locked st \<and> \<not> st_enforcement_active st)"
proof -
  let ?mon = "spipf_of dev (wr_instance wiring)"
  from wiring_run [OF assms] have wired: "wired_block p (sview h')" "route (view h') = wired_route wiring (route (view h))" by auto
  let ?h1 = "fst (spim_read ?mon SPIPF000 h')"
  let ?h2 = "fst (spim_read ?mon SPIPF07C ?h1)"
  have views: "view ?h2 = view h'" "snd (spim_read ?mon SPIPF000 h') = sp_ctrl (sview h')"
    "snd (spim_read ?mon SPIPF07C ?h1) = sp_lock (sview h')"
    using assms(2,3) by (simp_all add: spipf_device_def separate_def)
  have read: "snd (reg_read dev (Scu 0x0F0) ?h2) = route (view h')"
    using assms(1) views(1) by (simp add: board_device_def board_read_def)
  have "read_status dev (wr_instance wiring) h' = (fst (reg_read dev (Scu 0x0F0) ?h2),
      Inr \<lparr>st_mux = scu_to_mux (if bit (route (view h')) (12 + instance_index (wr_instance wiring)) then Mux1 else Mux0),
           st_policy_locked = is_policy_locked (sp_lock (sview h')),
           st_enforcement_active = is_enforcement_active (sp_ctrl (sview h')), st_violation_count = 0\<rparr>)"
    using views(2,3) read
    by (simp add: read_status_def spipf_read_reg_def get_spim_ext_mux_def ebind_def get_def case_prod_unfold Let_def read_reg_run
        ext_mux_bit [OF assms(1)])
  moreover have "is_policy_locked (sp_lock (sview h'))"
  proof -
    have "bit (sp_lock (sview h') AND LOCK_STATUS_REQUIRED) 0"
      using wired(1) by (simp add: wired_block_def policy_sealed_def LOCK_STATUS_REQUIRED_def LOCK_CTRL_def bit_simps)
    then have "bit (sp_lock (sview h')) 0" unfolding bit_and_iff by (rule conjunct1)
    then show ?thesis by (simp add: is_policy_locked_def and_one_eq odd_iff_mod_2_eq_one bit_0)
  qed
  moreover have "\<not> is_enforcement_active (sp_ctrl (sview h'))"
  proof -
    have "bit (drop_bit 1 (sp_ctrl (sview h')) AND 3) 1"
      using wired(1) bit_mask_iff [of 2 1, where 'a = u32] by (simp add: wired_block_def enforcing_def bit_simps mask_eq_exp_minus_1 numeral_2_eq_2)
    then show ?thesis by (auto simp: is_enforcement_active_def)
  qed
  moreover have "bit (route (view h')) (12 + instance_index (wr_instance wiring)) \<longleftrightarrow> wr_ext_mux wiring = Mux1"
    unfolding wired(2) by (subst wired_route_bits) (cases "wr_instance wiring", simp_all)+
  moreover from this have "(if bit (route (view h')) (12 + instance_index (wr_instance wiring)) then Mux1 else Mux0) = wr_ext_mux wiring"
    by (cases "wr_ext_mux wiring") simp_all
  ultimately have "\<exists>h'' st. read_status dev (wr_instance wiring) h' = (h'', Inr st) \<and> st_mux st = scu_to_mux (wr_ext_mux wiring)
      \<and> st_policy_locked st \<and> \<not> st_enforcement_active st" by (simp only: prod.inject sum.inject) simp
  with wired(1) show ?thesis by (simp add: wired_block_def)
qed

theorem wired_status_misreported_witness:
  "\<exists>w' w'' st. apply_spim_wiring_with_log world_dev SmcSpi1 default_spi1_via_spim0 bmc_default_policy None world_reset = (w', Inr ())
     \<and> read_status world_dev Spim0 w' = (w'', Inr st) \<and> st_mux st = RotControl \<and> \<not> st_enforcement_active st"
proof -
  let ?run = "apply_spim_wiring_with_log world_dev SmcSpi1 default_spi1_via_spim0 bmc_default_policy None world_reset"
  have "policy_valid bmc_default_policy" unfolding policy_valid_def supported_def by code_simp
  moreover have "validate_controller_for_source SmcSpi1 (wr_source default_spi1_via_spim0) = Inr ()" by (simp add: default_spi1_via_spim0_def)
  moreover have "policy_open (w_monitor world_reset)" by (simp add: world_reset_def reset_open)
  ultimately obtain w' where w': "?run = (w', Inr ())"
    using wiring_run [OF world_contracts, where c = SmcSpi1 and wiring = default_spi1_via_spim0
        and p = bmc_default_policy and log = None and h = world_reset]
    by (cases ?run) (auto simp: log_ok_def)
  have "wr_instance default_spi1_via_spim0 = Spim0" "scu_to_mux (wr_ext_mux default_spi1_via_spim0) = RotControl"
    by (simp_all add: default_spi1_via_spim0_def scu_to_mux_def)
  with wired_status_misreported [OF world_contracts w'] w' show ?thesis by auto
qed

section \<open>The external multiplexer\<close>

lemma update_bit_mask: "m \<noteq> 0 \<Longrightarrow> update_bit w m b AND m = 0 \<longleftrightarrow> \<not> b"
  by (auto simp: update_bit_def or_and and.assoc)

lemma update_bit_masked:
  assumes "m \<noteq> 0"
  shows "((update_bit w m b AND (d OR m)) OR (x AND NOT d AND NOT m)) AND m = 0 \<longleftrightarrow> \<not> b"
proof -
  have "((update_bit w m b AND (d OR m)) OR (x AND NOT d AND NOT m)) AND m = update_bit w m b AND m"
    by (rule bit_word_eqI) (auto simp: bit_simps)
  with update_bit_mask [OF assms] show ?thesis by simp
qed

text \<open>
  The external multiplexer reads back as set. After \<open>apply_spim_external_mux\<close> the multiplexer state of the instance is the selected one,
  whatever levels the pins had before and whichever way they were driven.\<close>

theorem external_mux_roundtrip:
  assumes "board_device dev view" "apply_spim_external_mux dev i mux h = (h', r)"
  shows "snd (spim_external_mux_state dev i h') = Inr (Some mux)"
proof -
  have dev: "view (reg_write dev r v x) = board_write r v (view x)" "view (fst (reg_read dev r x)) = view x"
    "snd (reg_read dev r x) = board_read r (view x)" for r v x
    using assms(1) by (simp_all add: board_device_def)
  obtain g m n where pins: "external_mux_pins i = (g, m, n)" "m \<noteq> 0" "n \<noteq> 0"
    by (cases i) (auto simp: external_mux_pins_def)
  show ?thesis
    using assms(2) pins(2,3) unfolding apply_spim_external_mux_def spim_external_mux_state_def Let_def pins(1)
    by (cases g; cases mux)
      (auto simp: enable_sgpiom_def configure_sgpiom_def drive_sgpiom_def board_runs eseq_okI ebind_okI dev board_write_def
        board_read_def gpio_data_regs_def update_bit_masked update_bit_mask split: if_splits)
qed

text \<open>Selecting the second input of Spim2, whose pins are inputs at first.\<close>

theorem external_mux_roundtrip_witness:
  "snd (spim_external_mux_state world_dev Spim2 (fst (apply_spim_external_mux world_dev Spim2 Mux1 world_reset :: world \<times> (unit, unit) result)))
    = (Inr (Some Mux1) :: (unit, scu_ext_mux_select option) result)"
  by (rule external_mux_roundtrip [OF world_contracts(1)]) (rule prod.collapse [symmetric])

end
