(* ===== verification/Smc_Controller.thy ===== *)
theory Smc_Controller
  imports Smc_Types
begin

unbundle bit_operations_syntax

text \<open>
  The static memory controller (\<open>smc/registers.rs\<close>, \<open>controller.rs\<close>) and the constructors of its FMC and SPI
  wrappers (\<open>fmc.rs\<close>, \<open>spi/spi.rs\<close>). The hardware is a parameter: functions that write and read a register, that
  write and read words and bytes of the flash window and that copy a range of it, and the bit fields of the
  register definitions. The methods of \<open>FmcReady\<close> and \<open>SpiReady\<close> only forward to the controller and are its
  operations. A method that takes \<open>&self\<close> has the controller as an argument; one that takes \<open>&mut self\<close> runs on the
  pair of controller and hardware. Log messages and delay loops are left out.
\<close>

section \<open>Registers\<close>

datatype smc_reg =
    FMC000 | FMC004 | FMC008 | FMC010 | FMC014 | FMC030 | FMC034 | FMC06C | FMC080 | FMC084 | FMC088 | FMC08C
  | FMC090 | FMC094 | FMC098

record 'h smc_dev =
  smc_write :: "smc_reg \<Rightarrow> u32 \<Rightarrow> 'h \<Rightarrow> 'h"
  smc_read :: "smc_reg \<Rightarrow> 'h \<Rightarrow> 'h \<times> u32"
  win_write32 :: "nat \<Rightarrow> u32 \<Rightarrow> 'h \<Rightarrow> 'h"
  win_write8 :: "nat \<Rightarrow> u8 \<Rightarrow> 'h \<Rightarrow> 'h"
  win_read32 :: "nat \<Rightarrow> 'h \<Rightarrow> 'h \<times> u32"
  win_read8 :: "nat \<Rightarrow> 'h \<Rightarrow> 'h \<times> u8"
  win_copy :: "nat \<Rightarrow> nat \<Rightarrow> 'h \<Rightarrow> 'h \<times> u8 list"
  dmaintenbl_set_bit :: "u32 \<Rightarrow> u32"
  dmaintenbl_clear_bit :: "u32 \<Rightarrow> u32"
  kick_fields :: "u32 \<Rightarrow> u32"

definition smc_get :: "'h smc_dev \<Rightarrow> smc_reg \<Rightarrow> ('h, 'e, u32) reg_op" where
  "smc_get dev r = get (smc_read dev r)"

definition smc_put :: "'h smc_dev \<Rightarrow> smc_reg \<Rightarrow> u32 \<Rightarrow> ('h, 'e, unit) reg_op" where
  "smc_put dev r v = act (smc_write dev r v)"

definition smc_modify :: "'h smc_dev \<Rightarrow> smc_reg \<Rightarrow> (u32 \<Rightarrow> u32) \<Rightarrow> ('h, 'e, unit) reg_op" where
  "smc_modify dev r f = ebind (smc_get dev r) (\<lambda>bits. smc_put dev r (f bits))"

definition cs_ctrl_reg :: "chip_select \<Rightarrow> smc_reg" where
  "cs_ctrl_reg cs = (case cs of Cs0 \<Rightarrow> FMC010 | Cs1 \<Rightarrow> FMC014)"

definition read_cs_ctrl :: "'h smc_dev \<Rightarrow> chip_select \<Rightarrow> ('h, 'e, u32) reg_op" where
  "read_cs_ctrl dev cs = smc_get dev (cs_ctrl_reg cs)"

definition write_cs_ctrl :: "'h smc_dev \<Rightarrow> chip_select \<Rightarrow> u32 \<Rightarrow> ('h, 'e, unit) reg_op" where
  "write_cs_ctrl dev cs v = smc_put dev (cs_ctrl_reg cs) v"

definition enable_dma_irq :: "'h smc_dev \<Rightarrow> ('h, 'e, unit) reg_op" where
  "enable_dma_irq dev = smc_modify dev FMC008 (dmaintenbl_set_bit dev)"

definition disable_dma_irq :: "'h smc_dev \<Rightarrow> ('h, 'e, unit) reg_op" where
  "disable_dma_irq dev = smc_modify dev FMC008 (dmaintenbl_clear_bit dev)"

definition disable_dma :: "'h smc_dev \<Rightarrow> ('h, 'e, unit) reg_op" where
  "disable_dma dev = eseq (smc_put dev FMC080 0) (smc_put dev FMC080 SPI_DMA_DISCARD_REQ_MAGIC)"

text \<open>
  The wait for the grant is a loop without a bound: it runs on fuel, and \<open>SmcHang\<close> says that the fuel ran out.
\<close>

datatype smc_fault = SmcErr smc_error | SmcHang

definition acquire_dma_arbiter :: "nat \<Rightarrow> 'h smc_dev \<Rightarrow> ('h, smc_fault, unit) reg_op" where
  "acquire_dma_arbiter fuel dev =
     eseq (smc_put dev FMC080 SPI_DMA_GET_REQ_MAGIC)
     (ebind (smc_get dev FMC080) (\<lambda>v.
        if v AND SPI_DMA_REQUEST \<noteq> 0
        then spin_until fuel (ebind (smc_get dev FMC080) (\<lambda>w. ret (w AND SPI_DMA_GRANT \<noteq> 0))) SmcHang
        else ret ()))"

definition kick_dma_read :: "'h smc_dev \<Rightarrow> ('h, 'e, unit) reg_op" where
  "kick_dma_read dev = smc_modify dev FMC080 (kick_fields dev)"

definition timing_reg :: "chip_select \<Rightarrow> smc_reg" where
  "timing_reg cs = (case cs of Cs0 \<Rightarrow> FMC094 | Cs1 \<Rightarrow> FMC098)"

definition write_cs_timing_compensation :: "'h smc_dev \<Rightarrow> chip_select \<Rightarrow> u32 \<Rightarrow> ('h, 'e, unit) reg_op" where
  "write_cs_timing_compensation dev cs v = smc_put dev (timing_reg cs) v"

definition already_calibrated :: "'h smc_dev \<Rightarrow> chip_select \<Rightarrow> ('h, 'e, bool) reg_op" where
  "already_calibrated dev cs = ebind (smc_get dev (timing_reg cs)) (\<lambda>v. ret (v \<noteq> 0))"

section \<open>Constants\<close>

definition ASPEED_SPI_USER :: u32 where "ASPEED_SPI_USER = 3"
definition ASPEED_SPI_USER_INACTIVE :: u32 where "ASPEED_SPI_USER_INACTIVE = 4"
definition ASPEED_SPI_NORMAL_READ :: u32 where "ASPEED_SPI_NORMAL_READ = 1"
definition SPI_NOR_CMD_QREAD :: u32 where "SPI_NOR_CMD_QREAD = 0x6B"
definition SPI_NOR_CMD_QREAD_4B :: u32 where "SPI_NOR_CMD_QREAD_4B = 0x6C"
definition SPI_NOR_4B_READ_THRESHOLD_BYTES :: nat where "SPI_NOR_4B_READ_THRESHOLD_BYTES = 16 * 1024 * 1024"
definition SPI_NOR_ADDR_WIDTH_MASK :: u32 where "SPI_NOR_ADDR_WIDTH_MASK = 0x11"
definition DMA_STATUS_RELEVANT_BITS :: u32 where
  "DMA_STATUS_RELEVANT_BITS = push_bit 11 1 OR push_bit 10 1 OR push_bit 9 1"
definition SPI_CTRL_IO_MODE_MASK :: u32 where "SPI_CTRL_IO_MODE_MASK = NOT 0x70000000"
definition SPI_CALIB_LEN :: nat where "SPI_CALIB_LEN = 0x400"

definition spi_nor_qread_cmd_for_capacity :: "nat \<Rightarrow> u32" where
  "spi_nor_qread_cmd_for_capacity capacity =
     (if capacity > SPI_NOR_4B_READ_THRESHOLD_BYTES then SPI_NOR_CMD_QREAD_4B else SPI_NOR_CMD_QREAD)"

definition spi_nor_uses_4b_addr :: "nat \<Rightarrow> bool" where
  "spi_nor_uses_4b_addr capacity \<longleftrightarrow> capacity > SPI_NOR_4B_READ_THRESHOLD_BYTES"

definition spi_nor_addr_width_mask :: "chip_select \<Rightarrow> u32" where
  "spi_nor_addr_width_mask cs = push_bit (cs_index cs) SPI_NOR_ADDR_WIDTH_MASK"

definition spi_nor_addr_width_reg :: "u32 \<Rightarrow> chip_select \<Rightarrow> bool \<Rightarrow> u32" where
  "spi_nor_addr_width_reg current cs use_4b =
     (if use_4b then current OR spi_nor_addr_width_mask cs else current AND NOT (spi_nor_addr_width_mask cs))"

section \<open>The controller\<close>

datatype smc_state = SmcIdle | SmcDmaInFlight | SmcFaulted

record smc =
  smc_controller_id :: smc_controller
  smc_cfg :: smc_config
  smc_st :: smc_state
  smc_normal_read_ctrl :: "u32 \<times> u32"
  smc_flash_window_base :: "nat \<times> nat"

definition smc_new :: "smc_config \<Rightarrow> (smc_error, smc) result" where
  "smc_new config =
     (if cfg_cs0 config = None \<and> cfg_cs1 config = None then Inl SmcInvalidCapacity
      else Inr \<lparr>smc_controller_id = cfg_controller_id config, smc_cfg = config, smc_st = SmcIdle,
                smc_normal_read_ctrl = (0, 0), smc_flash_window_base = (0, 0)\<rparr>)"

definition encode_segment :: "smc \<Rightarrow> nat \<Rightarrow> nat \<Rightarrow> (smc_error, u32) result" where
  "encode_segment s start end_addr =
     (case cfg_controller_id (smc_cfg s) of
        SmcFmc \<Rightarrow> encode_fmc_segment start end_addr
      | SmcSpi1 \<Rightarrow> encode_spi_segment start end_addr
      | SmcSpi2 \<Rightarrow> encode_spi_segment start end_addr)"

definition setup_segments :: "'h smc_dev \<Rightarrow> smc \<Rightarrow> ('h, smc_error, unit) reg_op" where
  "setup_segments dev s =
     ebind (lift (flash_capacity_bytes (cfg_cs0 (smc_cfg s)))) (\<lambda>cs0_size.
     ebind (lift (flash_capacity_bytes (cfg_cs1 (smc_cfg s)))) (\<lambda>cs1_size.
     ebind (lift (total_capacity_bytes (cfg_cs0 (smc_cfg s)) (cfg_cs1 (smc_cfg s)))) (\<lambda>_.
     eseq (if cs0_size > 0 then ebind (lift (encode_segment s 0 cs0_size)) (smc_put dev FMC030) else ret ())
          (if cs1_size > 0 then ebind (lift (encode_segment s cs0_size (cs0_size + cs1_size))) (smc_put dev FMC034)
           else ret ()))))"

definition init_conf :: "smc_config \<Rightarrow> u32" where
  "init_conf config =
     (if cfg_cs0 config \<noteq> None then push_bit 16 1 OR 2 else 0)
       OR (if cfg_cs1 config \<noteq> None then push_bit 17 1 OR push_bit 2 2 else 0)"

definition capacity_or_0 :: "flash_config option \<Rightarrow> nat" where
  "capacity_or_0 c = (case flash_capacity_bytes c of Inl _ \<Rightarrow> 0 | Inr n \<Rightarrow> n)"

definition smc_init :: "'h smc_dev \<Rightarrow> smc \<Rightarrow> ('h, smc_error, smc) reg_op" where
  "smc_init dev s =
     eseq (smc_put dev FMC000 (init_conf (smc_cfg s)))
     (eseq (setup_segments dev s)
     (ebind (smc_get dev FMC010) (\<lambda>cs0_normal_read.
      ebind (smc_get dev FMC014) (\<lambda>cs1_normal_read.
        let base = flash_window_address (smc_controller_id s)
        in ret \<lparr>smc_controller_id = smc_controller_id s, smc_cfg = smc_cfg s, smc_st = SmcIdle,
                smc_normal_read_ctrl = (cs0_normal_read, cs1_normal_read),
                smc_flash_window_base = (base, base + capacity_or_0 (cfg_cs0 (smc_cfg s)))\<rparr>))))"

definition fmc_new :: "smc_config \<Rightarrow> (smc_error, smc) result" where
  "fmc_new config = smc_new (config\<lparr>cfg_controller_id := SmcFmc\<rparr>)"

definition spi_new :: "smc_controller \<Rightarrow> smc_config \<Rightarrow> (smc_error, smc) result" where
  "spi_new controller_id config =
     (if controller_id = SmcFmc then Inl SmcInvalidChipSelect
      else smc_new (config\<lparr>cfg_controller_id := controller_id\<rparr>))"

section \<open>Accessors\<close>

definition flash_window_base :: "smc \<Rightarrow> chip_select \<Rightarrow> nat" where
  "flash_window_base s cs =
     (case cs of Cs0 \<Rightarrow> fst (smc_flash_window_base s) | Cs1 \<Rightarrow> snd (smc_flash_window_base s))"

definition normal_read_ctrl :: "smc \<Rightarrow> chip_select \<Rightarrow> u32" where
  "normal_read_ctrl s cs =
     (case cs of Cs0 \<Rightarrow> fst (smc_normal_read_ctrl s) | Cs1 \<Rightarrow> snd (smc_normal_read_ctrl s))"

definition set_normal_read_ctrl :: "chip_select \<Rightarrow> u32 \<Rightarrow> smc \<Rightarrow> smc" where
  "set_normal_read_ctrl cs v s =
     s\<lparr>smc_normal_read_ctrl := (case cs of Cs0 \<Rightarrow> (v, snd (smc_normal_read_ctrl s))
                                | Cs1 \<Rightarrow> (fst (smc_normal_read_ctrl s), v))\<rparr>"

definition smc_is_ready :: "smc \<Rightarrow> bool" where
  "smc_is_ready s \<longleftrightarrow> smc_st s = SmcIdle"

definition smc_master_idx :: "smc \<Rightarrow> u8" where
  "smc_master_idx s = topology_master_idx (topology (smc_cfg s))"

definition smc_capacity_bytes :: "smc \<Rightarrow> (smc_error, nat) result" where
  "smc_capacity_bytes s = total_capacity_bytes (cfg_cs0 (smc_cfg s)) (cfg_cs1 (smc_cfg s))"

definition smc_cs_capacity_bytes :: "smc \<Rightarrow> chip_select \<Rightarrow> (smc_error, nat) result" where
  "smc_cs_capacity_bytes s cs = cs_capacity_bytes (smc_cfg s) cs"

definition cs_config :: "smc \<Rightarrow> chip_select \<Rightarrow> (smc_error, flash_config) result" where
  "cs_config s cs = (case cs_slot (smc_cfg s) cs of Some c \<Rightarrow> Inr c | None \<Rightarrow> Inl SmcInvalidChipSelect)"

section \<open>Reads through the window\<close>

definition smc_read_window :: "'h smc_dev \<Rightarrow> smc \<Rightarrow> chip_select \<Rightarrow> u32 \<Rightarrow> nat \<Rightarrow> ('h, smc_error, u8 list) reg_op" where
  "smc_read_window dev s cs offset len =
     ebind (lift (cs_config s cs)) (\<lambda>c.
     ebind (lift (flash_capacity_bytes (Some c))) (\<lambda>cs_capacity.
     ebind (lift (validate_mapped_range offset len cs_capacity)) (\<lambda>off.
     get (win_copy dev ((flash_window_base s cs + off) mod 2 ^ 32) len))))"

section \<open>DMA\<close>

definition dma_read :: "nat \<Rightarrow> 'h smc_dev \<Rightarrow> chip_select \<Rightarrow> u32 \<Rightarrow> nat \<Rightarrow> u32 \<Rightarrow> (smc \<times> 'h, smc_fault, unit) reg_op" where
  "dma_read fuel dev cs flash_offset dram_addr len =
     ebind self (\<lambda>s.
     if smc_st s \<noteq> SmcIdle then fail (SmcErr SmcControllerNotReady)
     else if \<not> dma_enabled (smc_cfg s) then fail (SmcErr SmcDmaNotEnabled)
     else if cs = Cs1 \<and> cfg_cs1 (smc_cfg s) = None then fail (SmcErr SmcInvalidChipSelect)
     else eseq (hw (disable_dma dev))
     (ebind (map_err SmcErr (lift (cs_config s cs))) (\<lambda>c.
      ebind (map_err SmcErr (lift (flash_capacity_bytes (Some c)))) (\<lambda>cs_capacity.
      ebind (map_err SmcErr (lift (validate_dma_read flash_offset (flash_window_base s cs) cs_capacity dram_addr len)))
      (\<lambda>validated.
      eseq (hw (write_cs_ctrl dev cs (normal_read_ctrl s cs OR ASPEED_SPI_NORMAL_READ)))
      (eseq (hw (acquire_dma_arbiter fuel dev))
      (eseq (hw (smc_put dev FMC084 (of_nat (vd_flash_start validated))))
      (eseq (hw (smc_put dev FMC088 (vd_dram_addr validated + SPI_DMA_RAM_MAP_BASE)))
      (eseq (hw (smc_put dev FMC08C (vd_dma_len_reg validated)))
      (eseq (if enable_interrupts (smc_cfg s) then hw (enable_dma_irq dev) else ret ())
      (eseq (hw (kick_dma_read dev))
            (upd (smc_st_update (\<lambda>_. SmcDmaInFlight))))))))))))))"

definition dma_status :: "'h smc_dev \<Rightarrow> ('h, 'e, u32) reg_op" where
  "dma_status dev = smc_get dev FMC008"

definition clear_dma_status :: "'h smc_dev \<Rightarrow> u32 \<Rightarrow> ('h, 'e, unit) reg_op" where
  "clear_dma_status dev clear_mask = smc_put dev FMC008 (clear_mask AND DMA_STATUS_RELEVANT_BITS)"

definition complete_dma :: "'h smc_dev \<Rightarrow> u32 \<Rightarrow> (smc \<times> 'h, smc_error, smc_interrupt) reg_op" where
  "complete_dma dev status =
     ebind self (\<lambda>s.
     let decoded = decode_with_context status (smc_st s = SmcDmaInFlight)
     in eseq (hw (clear_dma_status dev (status AND DMA_STATUS_RELEVANT_BITS)))
        (case decoded of
           IntDmaComplete \<Rightarrow>
             eseq (hw (disable_dma dev)) (eseq (upd (smc_st_update (\<lambda>_. SmcIdle))) (ret decoded))
         | IntDmaError \<Rightarrow>
             eseq (hw (disable_dma dev)) (eseq (upd (smc_st_update (\<lambda>_. SmcIdle))) (fail SmcDmaAborted))
         | IntCommandAbort \<Rightarrow> eseq (upd (smc_st_update (\<lambda>_. SmcFaulted))) (fail SmcHardwareError)
         | IntWriteProtected \<Rightarrow> eseq (upd (smc_st_update (\<lambda>_. SmcFaulted))) (fail SmcWriteProtected)
         | IntUnknown \<Rightarrow> fail SmcHardwareError))"

definition handle_dma_irq :: "'h smc_dev \<Rightarrow> (smc \<times> 'h, smc_error, smc_interrupt) reg_op" where
  "handle_dma_irq dev =
     eseq (hw (disable_dma_irq dev))
     (ebind (hw (dma_status dev)) (\<lambda>status.
        if status AND DMA_STATUS_RELEVANT_BITS = 0 then fail SmcControllerNotReady
        else complete_dma dev status))"

datatype 'a poll = PollPending | PollReady 'a

text \<open>The result of the completion is a value here, since \<open>Poll::Ready\<close> carries an error as well.\<close>

definition poll_dma_completion :: "'h smc_dev \<Rightarrow> smc \<times> 'h \<Rightarrow> (smc \<times> 'h) \<times> (smc_error, unit) result poll" where
  "poll_dma_completion dev sh =
     (if smc_st (fst sh) \<noteq> SmcDmaInFlight then (sh, PollReady (Inl SmcControllerNotReady))
      else case hw (dma_status dev) sh of
        (sh', Inl e) \<Rightarrow> (sh', PollReady (Inl e))
      | (sh', Inr status) \<Rightarrow>
          if status AND DMA_STATUS_RELEVANT_BITS = 0 then (sh', PollPending)
          else case complete_dma dev status sh' of
            (sh'', Inl e) \<Rightarrow> (sh'', PollReady (Inl e))
          | (sh'', Inr _) \<Rightarrow> (sh'', PollReady (Inr ())))"

fun poll_blocking_dma_completion :: "'h smc_dev \<Rightarrow> nat \<Rightarrow> ('h, 'e, nat) reg_op" where
  "poll_blocking_dma_completion dev 0 =
     ebind (smc_get dev FMC008) (\<lambda>v. ret 0)"
| "poll_blocking_dma_completion dev (Suc n) =
     ebind (smc_get dev FMC008) (\<lambda>v.
       if v AND DMA_STATUS_RELEVANT_BITS = 0 then poll_blocking_dma_completion dev n else ret (Suc n))"

section \<open>User mode\<close>

fun write_bytes_at :: "'h smc_dev \<Rightarrow> nat \<Rightarrow> u8 list \<Rightarrow> ('h, 'e, unit) reg_op" where
  "write_bytes_at dev addr [] = ret ()"
| "write_bytes_at dev addr (b # bs) = eseq (act (win_write8 dev addr b)) (write_bytes_at dev (addr + 1) bs)"

fun spi_write_data :: "'h smc_dev \<Rightarrow> nat \<Rightarrow> u8 list \<Rightarrow> ('h, 'e, unit) reg_op" where
  "spi_write_data dev addr (a # b # c # d # bs) =
     eseq (act (win_write32 dev addr (from_le_bytes32 a b c d))) (spi_write_data dev (addr + 4) bs)"
| "spi_write_data dev addr bs = write_bytes_at dev addr bs"

fun read_bytes_at :: "'h smc_dev \<Rightarrow> nat \<Rightarrow> nat \<Rightarrow> ('h, 'e, u8 list) reg_op" where
  "read_bytes_at dev addr 0 = ret []"
| "read_bytes_at dev addr (Suc n) =
     ebind (get (win_read8 dev addr)) (\<lambda>b. ebind (read_bytes_at dev (addr + 1) n) (\<lambda>bs. ret (b # bs)))"

fun spi_read_data :: "'h smc_dev \<Rightarrow> nat \<Rightarrow> nat \<Rightarrow> ('h, 'e, u8 list) reg_op" where
  "spi_read_data dev addr n =
     (if n \<ge> 4
      then ebind (get (win_read32 dev addr)) (\<lambda>word.
           ebind (spi_read_data dev (addr + 4) (n - 4)) (\<lambda>bs. ret (to_le_bytes32 word @ bs)))
      else read_bytes_at dev addr n)"

declare spi_read_data.simps [simp del]

text \<open>The bytes received come back as the result; \<open>rx_len\<close> is the length of the caller's buffer.\<close>

definition transceive_user ::
  "'h smc_dev \<Rightarrow> smc \<Rightarrow> chip_select \<Rightarrow> u8 list \<Rightarrow> u8 list \<Rightarrow> nat \<Rightarrow> transfer_mode \<Rightarrow> ('h, smc_error, u8 list) reg_op" where
  "transceive_user dev s cs cmd tx_payload rx_len mode =
     (if smc_st s \<noteq> SmcIdle then fail SmcControllerNotReady
      else if cs = Cs1 \<and> cfg_cs1 (smc_cfg s) = None then fail SmcInvalidChipSelect
      else
        let user_base = (normal_read_ctrl s cs AND NOT 7) OR ASPEED_SPI_USER;
            window = flash_window_base s cs
        in eseq (write_cs_ctrl dev cs (user_base OR ASPEED_SPI_USER_INACTIVE))
           (eseq (write_cs_ctrl dev cs user_base)
           (eseq (write_cs_ctrl dev cs ((user_base AND SPI_CTRL_IO_MODE_MASK) OR cmd_io_bits mode))
           (eseq (spi_write_data dev window cmd)
           (eseq (write_cs_ctrl dev cs ((user_base AND SPI_CTRL_IO_MODE_MASK) OR addr_io_bits mode))
           (eseq (spi_write_data dev window tx_payload)
           (eseq (write_cs_ctrl dev cs ((user_base AND SPI_CTRL_IO_MODE_MASK) OR data_io_bits mode))
           (ebind (spi_read_data dev window rx_len) (\<lambda>rx.
            eseq (write_cs_ctrl dev cs (user_base OR ASPEED_SPI_USER_INACTIVE))
           (eseq (write_cs_ctrl dev cs (normal_read_ctrl s cs))
                 (ret rx)))))))))))"

section \<open>Read mode and timing\<close>

definition SYSCLK_MHZ :: u32 where "SYSCLK_MHZ = 200"

definition configure_timing :: "'h smc_dev \<Rightarrow> chip_select \<Rightarrow> u32 \<Rightarrow> (smc \<times> 'h, smc_error, unit) reg_op" where
  "configure_timing dev cs clock_mhz =
     ebind (lift (spi_freq_div SYSCLK_MHZ clock_mhz)) (\<lambda>encoded_div.
     ebind (hw (read_cs_ctrl dev cs)) (\<lambda>reg.
     eseq (hw (write_cs_ctrl dev cs ((reg AND NOT SPI_CTRL_FREQ_MASK) OR encoded_div)))
     (ebind (hw (read_cs_ctrl dev cs)) (\<lambda>v. upd (set_normal_read_ctrl cs v)))))"

definition spi_dma_checksum :: "nat \<Rightarrow> 'h smc_dev \<Rightarrow> smc \<Rightarrow> chip_select \<Rightarrow> u32 \<Rightarrow> u32 \<Rightarrow> ('h, smc_fault, u32) reg_op" where
  "spi_dma_checksum fuel dev s cs divi delay =
     eseq (acquire_dma_arbiter fuel dev)
     (eseq (smc_put dev FMC084 (of_nat (flash_window_base s cs)))
     (eseq (smc_put dev FMC08C (of_nat SPI_CALIB_LEN))
     (eseq (smc_put dev FMC080 (SPI_DMA_ENABLE OR SPI_DMA_CALC_CKSUM OR SPI_DMA_CALIB_MODE
              OR push_bit 8 delay OR push_bit 16 (divi AND 0xf)))
     (ebind (poll_blocking_dma_completion dev 0x1000) (\<lambda>_.
      ebind (smc_get dev FMC090) (\<lambda>checksum.
      eseq (disable_dma dev) (ret checksum)))))))"

definition calib_reg_val :: "nat \<Rightarrow> nat \<Rightarrow> u32" where
  "calib_reg_val hcycle delay_ns = push_bit 3 1 OR of_nat hcycle OR push_bit 4 (of_nat delay_ns)"

fun calib_scan ::
  "nat \<Rightarrow> 'h smc_dev \<Rightarrow> smc \<Rightarrow> chip_select \<Rightarrow> u32 \<Rightarrow> u32 \<Rightarrow> (nat \<times> nat) list \<Rightarrow> u8 list \<Rightarrow> ('h, smc_fault, u8 list) reg_op" where
  "calib_scan fuel dev s cs hmask gold [] calib_res = ret calib_res"
| "calib_scan fuel dev s cs hmask gold ((hcycle, delay_ns) # ps) calib_res =
     ebind (spi_dma_checksum fuel dev s cs hmask (calib_reg_val hcycle delay_ns)) (\<lambda>checksum.
       let index = hcycle * 17 + delay_ns
       in calib_scan fuel dev s cs hmask gold ps
            (if index < length calib_res then calib_res[index := of_bool (checksum = gold)] else calib_res))"

text \<open>The list has the index, the mask and the frequency of each step of the sweep.\<close>

definition sweep_table :: "(nat \<times> u32 \<times> u32) list" where
  "sweep_table = [(0, 7, 100), (1, 14, 66), (2, 6, 50), (3, 13, 40)]"

fun timing_sweep ::
  "nat \<Rightarrow> 'h smc_dev \<Rightarrow> smc \<Rightarrow> chip_select \<Rightarrow> u32 \<Rightarrow> u32 \<Rightarrow> (nat \<times> u32 \<times> u32) list \<Rightarrow> ('h, smc_fault, unit) reg_op" where
  "timing_sweep fuel dev s cs gold freq_to_use [] = ret ()"
| "timing_sweep fuel dev s cs gold freq_to_use ((i, hmask, freq) # steps) =
     (if freq_to_use < freq then timing_sweep fuel dev s cs gold freq_to_use steps
      else eseq (ebind (spi_dma_checksum fuel dev s cs hmask 0) (\<lambda>_. ret ()))
           (ebind (calib_scan fuel dev s cs hmask gold (List.product [0..<6] [0..<16]) (replicate (6 * 17) 0)) (\<lambda>calib_res.
              let calib_point = get_mid_point_of_longest_one calib_res
              in if calib_point \<ge> 0
                 then write_cs_timing_compensation dev cs
                        (push_bit (i * 8) (calib_reg_val (nat calib_point div 17) (nat calib_point mod 17)))
                 else timing_sweep fuel dev s cs gold freq steps)))"

definition run_timing_sweep ::
  "nat \<Rightarrow> 'h smc_dev \<Rightarrow> smc \<Rightarrow> chip_select \<Rightarrow> flash_config \<Rightarrow> u32 \<Rightarrow> ('h, smc_fault, unit) reg_op" where
  "run_timing_sweep fuel dev s cs cs_cfg gold = timing_sweep fuel dev s cs gold (spi_clock_mhz cs_cfg) sweep_table"

definition timing_calibration :: "nat \<Rightarrow> 'h smc_dev \<Rightarrow> chip_select \<Rightarrow> (smc \<times> 'h, smc_fault, unit) reg_op" where
  "timing_calibration fuel dev cs =
     ebind self (\<lambda>s.
     ebind (map_err SmcErr (lift (cs_config s cs))) (\<lambda>cs_cfg.
     ebind (hw (already_calibrated dev cs)) (\<lambda>calibrated.
     if calibrated then map_err SmcErr (configure_timing dev cs (spi_clock_mhz cs_cfg))
     else if smc_master_idx s \<noteq> 0 \<and> cs \<noteq> Cs0 then map_err SmcErr (configure_timing dev cs (spi_clock_mhz cs_cfg))
     else ebind (hw (read_cs_ctrl dev cs)) (\<lambda>v.
          eseq (hw (write_cs_ctrl dev cs (v AND NOT SPI_CTRL_FREQ_MASK)))
          (ebind (hw (get (win_copy dev (flash_window_base s cs) SPI_CALIB_LEN))) (\<lambda>check_buf.
           ebind (map_err SmcErr (lift (spi_calibration_enable check_buf))) (\<lambda>enabled.
           if \<not> enabled then map_err SmcErr (configure_timing dev cs (spi_clock_mhz cs_cfg))
           else ebind (hw (spi_dma_checksum fuel dev s cs 0 0)) (\<lambda>gold.
                eseq (hw (run_timing_sweep fuel dev s cs cs_cfg gold))
                     (map_err SmcErr (configure_timing dev cs (spi_clock_mhz cs_cfg)))))))))))"

definition read_cmd_for :: "nat \<Rightarrow> u32" where
  "read_cmd_for cs_capacity =
     data_io_bits Mode114 OR push_bit 16 (spi_nor_qread_cmd_for_capacity cs_capacity) OR push_bit 6 1
       OR ASPEED_SPI_NORMAL_READ"

definition spi_nor_read_init :: "nat \<Rightarrow> 'h smc_dev \<Rightarrow> chip_select \<Rightarrow> (smc \<times> 'h, smc_fault, unit) reg_op" where
  "spi_nor_read_init fuel dev cs =
     ebind self (\<lambda>s.
     ebind (map_err SmcErr (lift (smc_cs_capacity_bytes s cs))) (\<lambda>cs_capacity.
     eseq (hw (write_cs_ctrl dev cs (read_cmd_for cs_capacity)))
     (ebind (hw (smc_get dev FMC004)) (\<lambda>current.
      eseq (hw (smc_put dev FMC004 (spi_nor_addr_width_reg current cs (spi_nor_uses_4b_addr cs_capacity))))
      (eseq (upd (set_normal_read_ctrl cs (read_cmd_for cs_capacity)))
      (if cs \<noteq> Cs0
       then ebind (map_err SmcErr (lift (cs_config s cs))) (\<lambda>c.
              map_err SmcErr (configure_timing dev cs (spi_clock_mhz c)))
       else timing_calibration fuel dev cs))))))"

end
