(* ===== verification/Smc_Flash.thy ===== *)
theory Smc_Flash
  imports Smc_Controller
begin

unbundle bit_operations_syntax

text \<open>
  The SPI-NOR flash on top of the controller (\<open>smc/device/flash.rs\<close>) and the block device on top of the flash
  (\<open>device/block_device.rs\<close>): command encoding, status polling, page programming, sector erase, verification,
  the update of a region and the identification of the chip. A buffer that the source fills is the list of bytes
  that the operation returns; its length is the length of the caller's buffer.
\<close>

section \<open>Commands\<close>

definition to_be_bytes32 :: "u32 \<Rightarrow> u8 list" where
  "to_be_bytes32 w = rev (to_le_bytes32 w)"

text \<open>The valid prefix of the buffer that the source returns with its length.\<close>

definition encode_addr_cmd :: "u8 \<Rightarrow> u32 \<Rightarrow> address_width \<Rightarrow> u8 list" where
  "encode_addr_cmd opcode offset width =
     (let be = to_be_bytes32 offset
      in case width of
           AwNone \<Rightarrow> [opcode]
         | ThreeByte \<Rightarrow> [opcode, be ! 1, be ! 2, be ! 3]
         | FourByte \<Rightarrow> [opcode, be ! 0, be ! 1, be ! 2, be ! 3])"

definition CMD_WRITE_ENABLE :: u8 where "CMD_WRITE_ENABLE = 0x06"
definition CMD_ERASE_SECTOR_4K :: u8 where "CMD_ERASE_SECTOR_4K = 0x20"
definition CMD_ERASE_SECTOR_4K_4B :: u8 where "CMD_ERASE_SECTOR_4K_4B = 0x21"
definition CMD_PAGE_PROGRAM :: u8 where "CMD_PAGE_PROGRAM = 0x02"
definition CMD_PAGE_PROGRAM_4B :: u8 where "CMD_PAGE_PROGRAM_4B = 0x12"
definition CMD_READ_FAST :: u8 where "CMD_READ_FAST = 0x0B"
definition CMD_READ_FAST_4B :: u8 where "CMD_READ_FAST_4B = 0x0C"
definition CMD_READ_STATUS :: u8 where "CMD_READ_STATUS = 0x05"
definition CMD_READ_ID :: u8 where "CMD_READ_ID = 0x9F"

definition STATUS_WIP :: u8 where "STATUS_WIP = 1"
definition WRITE_COMPLETE_MAX_POLLS :: nat where "WRITE_COMPLETE_MAX_POLLS = 1000000"

lemmas cmd_defs = CMD_WRITE_ENABLE_def CMD_ERASE_SECTOR_4K_def CMD_ERASE_SECTOR_4K_4B_def CMD_PAGE_PROGRAM_def
  CMD_PAGE_PROGRAM_4B_def CMD_READ_FAST_def CMD_READ_FAST_4B_def CMD_READ_STATUS_def CMD_READ_ID_def

datatype flash_addressing_policy = ThreeByteOnly | FourByteCommands

definition policy_addr_width :: "flash_addressing_policy \<Rightarrow> address_width" where
  "policy_addr_width policy = (case policy of ThreeByteOnly \<Rightarrow> ThreeByte | FourByteCommands \<Rightarrow> FourByte)"

record flash_command_profile =
  fp_read_fast :: u8
  fp_page_program :: u8
  fp_erase_sector_4k :: u8
  fp_read_status :: u8
  fp_write_enable :: u8

definition for_addressing :: "flash_addressing_policy \<Rightarrow> flash_command_profile" where
  "for_addressing policy =
     (case policy of
        ThreeByteOnly \<Rightarrow>
          \<lparr>fp_read_fast = CMD_READ_FAST, fp_page_program = CMD_PAGE_PROGRAM, fp_erase_sector_4k = CMD_ERASE_SECTOR_4K,
           fp_read_status = CMD_READ_STATUS, fp_write_enable = CMD_WRITE_ENABLE\<rparr>
      | FourByteCommands \<Rightarrow>
          \<lparr>fp_read_fast = CMD_READ_FAST_4B, fp_page_program = CMD_PAGE_PROGRAM_4B,
           fp_erase_sector_4k = CMD_ERASE_SECTOR_4K_4B, fp_read_status = CMD_READ_STATUS,
           fp_write_enable = CMD_WRITE_ENABLE\<rparr>)"

section \<open>Comparison in chunks\<close>

function compare_loop ::
  "(u32 \<Rightarrow> nat \<Rightarrow> ('h, smc_error, u8 list) reg_op) \<Rightarrow> u32 \<Rightarrow> u8 list \<Rightarrow> nat \<Rightarrow> nat \<Rightarrow> ('h, smc_error, bool) reg_op" where
  "compare_loop rd offset expected step cursor =
     (if cursor < length expected \<and> step > 0
      then let n = min step (length expected - cursor)
           in case checked_add offset (of_nat cursor) of
                None \<Rightarrow> fail SmcInvalidCapacity
              | Some chunk_offset \<Rightarrow>
                  ebind (rd chunk_offset n) (\<lambda>scratch.
                    if scratch \<noteq> take n (drop cursor expected) then ret False
                    else compare_loop rd offset expected step (cursor + n))
      else ret True)"
  by pat_completeness auto
termination
  by (relation "measure (\<lambda>(rd, offset, expected, step, cursor). length expected - cursor)") (auto simp: min_def)

declare compare_loop.simps [simp del]

definition compare_chunked ::
  "(u32 \<Rightarrow> nat \<Rightarrow> ('h, smc_error, u8 list) reg_op) \<Rightarrow> u32 \<Rightarrow> u8 list \<Rightarrow> nat \<Rightarrow> ('h, smc_error, bool) reg_op" where
  "compare_chunked rd offset expected chunk =
     (let step = min chunk 256
      in if step = 0 then fail SmcInvalidCapacity else compare_loop rd offset expected step 0)"

section \<open>The flash\<close>

datatype flash_backend = BackendFmc smc | BackendSpi smc

record jedec_id =
  manufacturer :: u8
  memory_type :: u8
  capacity_code :: u8

definition jedec_from_bytes :: "u8 list \<Rightarrow> jedec_id" where
  "jedec_from_bytes raw = \<lparr>manufacturer = raw ! 0, memory_type = raw ! 1, capacity_code = raw ! 2\<rparr>"

definition jedec_as_bytes :: "jedec_id \<Rightarrow> u8 list" where
  "jedec_as_bytes j = [manufacturer j, memory_type j, capacity_code j]"

definition expect_jedec_match :: "jedec_id \<Rightarrow> jedec_id \<Rightarrow> (smc_error, jedec_id) result" where
  "expect_jedec_match actual expected = (if actual \<noteq> expected then Inl SmcHardwareError else Inr actual)"

record spi_nor_flash =
  backend :: flash_backend
  fl_cfg :: flash_config
  fl_cs :: chip_select
  cmd_mode :: transfer_mode
  addressing_policy :: flash_addressing_policy
  command_profile :: flash_command_profile

definition default_addressing_for_cfg :: "flash_config \<Rightarrow> flash_addressing_policy" where
  "default_addressing_for_cfg cfg = (if capacity_mb cfg > 16 then FourByteCommands else ThreeByteOnly)"

definition validate_capacity_cfg :: "flash_config \<Rightarrow> flash_config \<Rightarrow> (smc_error, unit) result" where
  "validate_capacity_cfg cfg expected = (if cfg \<noteq> expected then Inl SmcInvalidCapacity else Inr ())"

definition flash_on :: "flash_backend \<Rightarrow> flash_config \<Rightarrow> chip_select \<Rightarrow> spi_nor_flash" where
  "flash_on b cfg cs =
     (let policy = default_addressing_for_cfg cfg
      in \<lparr>backend = b, fl_cfg = cfg, fl_cs = cs, cmd_mode = Mode111, addressing_policy = policy,
          command_profile = for_addressing policy\<rparr>)"

definition from_fmc_cs :: "smc \<Rightarrow> flash_config \<Rightarrow> chip_select \<Rightarrow> (smc_error, spi_nor_flash) result" where
  "from_fmc_cs fmc cfg cs =
     (case cs_config fmc cs of
        Inl e \<Rightarrow> Inl e
      | Inr expected \<Rightarrow>
          (case validate_capacity_cfg cfg expected of Inl e \<Rightarrow> Inl e | Inr _ \<Rightarrow> Inr (flash_on (BackendFmc fmc) cfg cs)))"

definition from_fmc :: "smc \<Rightarrow> flash_config \<Rightarrow> (smc_error, spi_nor_flash) result" where
  "from_fmc fmc cfg = from_fmc_cs fmc cfg Cs0"

definition from_spi_cs :: "smc \<Rightarrow> flash_config \<Rightarrow> chip_select \<Rightarrow> (smc_error, spi_nor_flash) result" where
  "from_spi_cs spi cfg cs =
     (case cs_config spi cs of
        Inl e \<Rightarrow> Inl e
      | Inr expected \<Rightarrow>
          (case validate_capacity_cfg cfg expected of Inl e \<Rightarrow> Inl e | Inr _ \<Rightarrow> Inr (flash_on (BackendSpi spi) cfg cs)))"

definition from_spi :: "smc \<Rightarrow> flash_config \<Rightarrow> (smc_error, spi_nor_flash) result" where
  "from_spi spi cfg = from_spi_cs spi cfg Cs0"

definition with_cmd_mode :: "transfer_mode \<Rightarrow> spi_nor_flash \<Rightarrow> spi_nor_flash" where
  "with_cmd_mode mode f = f\<lparr>cmd_mode := mode\<rparr>"

definition with_addressing_policy :: "flash_addressing_policy \<Rightarrow> spi_nor_flash \<Rightarrow> spi_nor_flash" where
  "with_addressing_policy policy f = f\<lparr>addressing_policy := policy, command_profile := for_addressing policy\<rparr>"

definition addr_width :: "spi_nor_flash \<Rightarrow> address_width" where
  "addr_width f = policy_addr_width (addressing_policy f)"

text \<open>The two arms of every \<open>match &self.backend\<close> call the same method of the inner controller.\<close>

fun backend_smc :: "flash_backend \<Rightarrow> smc" where
  "backend_smc (BackendFmc fmc) = fmc"
| "backend_smc (BackendSpi spi) = spi"

definition fl_capacity_bytes :: "spi_nor_flash \<Rightarrow> (smc_error, nat) result" where
  "fl_capacity_bytes f = smc_cs_capacity_bytes (backend_smc (backend f)) (fl_cs f)"

definition device_to_controller_offset :: "spi_nor_flash \<Rightarrow> u32 \<Rightarrow> (smc_error, u32) result" where
  "device_to_controller_offset f device_offset =
     (case fl_capacity_bytes f of
        Inl e \<Rightarrow> Inl e
      | Inr cs_cap \<Rightarrow> if unat device_offset \<ge> cs_cap then Inl SmcInvalidCapacity else Inr device_offset)"

definition fl_validate_range :: "spi_nor_flash \<Rightarrow> u32 \<Rightarrow> nat \<Rightarrow> (smc_error, unit) result" where
  "fl_validate_range f offset len =
     (case usize_ok (unat offset + len) of
        Inl e \<Rightarrow> Inl e
      | Inr end_addr \<Rightarrow>
          (case fl_capacity_bytes f of
             Inl e \<Rightarrow> Inl e
           | Inr cap \<Rightarrow> if end_addr > cap then Inl SmcInvalidCapacity else Inr ()))"

definition validate_sector_erase :: "spi_nor_flash \<Rightarrow> u32 \<Rightarrow> (smc_error, unit) result" where
  "validate_sector_erase f offset =
     (let sector = unat (sector_size (fl_cfg f))
      in if sector = 0 \<or> unat offset mod sector \<noteq> 0 then Inl SmcInvalidCapacity
         else fl_validate_range f offset sector)"

definition validate_page_program :: "spi_nor_flash \<Rightarrow> u32 \<Rightarrow> u8 list \<Rightarrow> (smc_error, unit) result" where
  "validate_page_program f offset data =
     (let page = unat (page_size (fl_cfg f))
      in if page = 0 \<or> data = [] \<or> length data > page then Inl SmcInvalidCapacity
         else if unat offset mod page \<noteq> 0 then Inl SmcInvalidCapacity
         else fl_validate_range f offset (length data))"

definition fl_transceive :: "'h smc_dev \<Rightarrow> spi_nor_flash \<Rightarrow> u8 list \<Rightarrow> u8 list \<Rightarrow> nat \<Rightarrow> ('h, smc_error, u8 list) reg_op" where
  "fl_transceive dev f cmd payload rx_len =
     transceive_user dev (backend_smc (backend f)) (fl_cs f) cmd payload rx_len (cmd_mode f)"

definition issue_command :: "'h smc_dev \<Rightarrow> spi_nor_flash \<Rightarrow> u8 list \<Rightarrow> u8 list \<Rightarrow> ('h, smc_error, unit) reg_op" where
  "issue_command dev f cmd payload = ebind (fl_transceive dev f cmd payload 0) (\<lambda>_. ret ())"

definition read_status_impl :: "'h smc_dev \<Rightarrow> spi_nor_flash \<Rightarrow> ('h, smc_error, u8) reg_op" where
  "read_status_impl dev f =
     ebind (fl_transceive dev f [fp_read_status (command_profile f)] [] 1) (\<lambda>status. ret (status ! 0))"

definition read_jedec_id_impl :: "'h smc_dev \<Rightarrow> spi_nor_flash \<Rightarrow> ('h, smc_error, u8 list) reg_op" where
  "read_jedec_id_impl dev f = fl_transceive dev f [CMD_READ_ID] [] 3"

definition fl_jedec :: "'h smc_dev \<Rightarrow> spi_nor_flash \<Rightarrow> ('h, smc_error, jedec_id) reg_op" where
  "fl_jedec dev f = ebind (read_jedec_id_impl dev f) (\<lambda>raw. ret (jedec_from_bytes raw))"

definition expect_jedec :: "'h smc_dev \<Rightarrow> spi_nor_flash \<Rightarrow> jedec_id \<Rightarrow> ('h, smc_error, jedec_id) reg_op" where
  "expect_jedec dev f expected = ebind (fl_jedec dev f) (\<lambda>actual. lift (expect_jedec_match actual expected))"

definition fl_write_enable :: "'h smc_dev \<Rightarrow> spi_nor_flash \<Rightarrow> ('h, smc_error, unit) reg_op" where
  "fl_write_enable dev f = issue_command dev f [fp_write_enable (command_profile f)] []"

fun wait_write_complete :: "'h smc_dev \<Rightarrow> spi_nor_flash \<Rightarrow> nat \<Rightarrow> ('h, smc_error, unit) reg_op" where
  "wait_write_complete dev f 0 = fail SmcTimeout"
| "wait_write_complete dev f (Suc polls) =
     ebind (read_status_impl dev f) (\<lambda>sr.
       if sr AND STATUS_WIP = 0 then ret () else wait_write_complete dev f polls)"

definition fl_read :: "'h smc_dev \<Rightarrow> spi_nor_flash \<Rightarrow> u32 \<Rightarrow> nat \<Rightarrow> ('h, smc_error, u8 list) reg_op" where
  "fl_read dev f offset len =
     eseq (lift (fl_validate_range f offset len))
     (ebind (lift (device_to_controller_offset f offset)) (\<lambda>translated.
        smc_read_window dev (backend_smc (backend f)) (fl_cs f) translated len))"

definition erase_sector :: "'h smc_dev \<Rightarrow> spi_nor_flash \<Rightarrow> u32 \<Rightarrow> ('h, smc_error, unit) reg_op" where
  "erase_sector dev f offset =
     eseq (lift (validate_sector_erase f offset))
     (eseq (fl_write_enable dev f)
     (eseq (issue_command dev f (encode_addr_cmd (fp_erase_sector_4k (command_profile f)) offset (addr_width f)) [])
           (wait_write_complete dev f WRITE_COMPLETE_MAX_POLLS)))"

definition program_page :: "'h smc_dev \<Rightarrow> spi_nor_flash \<Rightarrow> u32 \<Rightarrow> u8 list \<Rightarrow> ('h, smc_error, nat) reg_op" where
  "program_page dev f offset data =
     eseq (lift (validate_page_program f offset data))
     (eseq (fl_write_enable dev f)
     (eseq (issue_command dev f (encode_addr_cmd (fp_page_program (command_profile f)) offset (addr_width f)) data)
     (eseq (wait_write_complete dev f WRITE_COMPLETE_MAX_POLLS)
           (ret (length data)))))"

definition fl_verify :: "'h smc_dev \<Rightarrow> spi_nor_flash \<Rightarrow> u32 \<Rightarrow> u8 list \<Rightarrow> ('h, smc_error, bool) reg_op" where
  "fl_verify dev f offset expected =
     eseq (lift (fl_validate_range f offset (length expected)))
          (compare_chunked (fl_read dev f) offset expected 256)"

definition fl_status :: "'h smc_dev \<Rightarrow> spi_nor_flash \<Rightarrow> ('h, smc_error, u8) reg_op" where
  "fl_status dev f = read_status_impl dev f"

section \<open>Ranges\<close>

text \<open>The loops run with a page size and a sector size that the callers have checked to be positive.\<close>

function program_loop ::
  "'h smc_dev \<Rightarrow> spi_nor_flash \<Rightarrow> nat \<Rightarrow> u32 \<Rightarrow> u8 list \<Rightarrow> nat \<Rightarrow> ('h, smc_error, nat) reg_op" where
  "program_loop dev f page offset data written =
     (if written < length data \<and> page > 0
      then let chunk_len = min page (length data - written)
           in case checked_add offset (of_nat written) of
                None \<Rightarrow> fail SmcInvalidCapacity
              | Some chunk_offset \<Rightarrow>
                  eseq (program_page dev f chunk_offset (take chunk_len (drop written data)))
                       (program_loop dev f page offset data (written + chunk_len))
      else ret written)"
  by pat_completeness auto
termination
  by (relation "measure (\<lambda>(dev, f, page, offset, data, written). length data - written)") (auto simp: min_def)

declare program_loop.simps [simp del]

definition fl_program :: "'h smc_dev \<Rightarrow> spi_nor_flash \<Rightarrow> u32 \<Rightarrow> u8 list \<Rightarrow> ('h, smc_error, nat) reg_op" where
  "fl_program dev f offset data =
     (if data = [] then ret 0
      else let page = unat (page_size (fl_cfg f))
           in if page = 0 \<or> unat offset mod page \<noteq> 0 then fail SmcInvalidCapacity
              else eseq (lift (fl_validate_range f offset (length data)))
                        (program_loop dev f page offset data 0))"

function erase_loop :: "'h smc_dev \<Rightarrow> spi_nor_flash \<Rightarrow> nat \<Rightarrow> nat \<Rightarrow> nat \<Rightarrow> ('h, smc_error, unit) reg_op" where
  "erase_loop dev f sector end_aligned current =
     (if current < end_aligned \<and> sector > 0
      then eseq (erase_sector dev f (of_nat current)) (erase_loop dev f sector end_aligned (current + sector))
      else ret ())"
  by pat_completeness auto
termination by (relation "measure (\<lambda>(dev, f, sector, end_aligned, current). end_aligned - current)") auto

declare erase_loop.simps [simp del]

definition erase_range :: "'h smc_dev \<Rightarrow> spi_nor_flash \<Rightarrow> u32 \<Rightarrow> nat \<Rightarrow> ('h, smc_error, unit) reg_op" where
  "erase_range dev f offset len =
     (if len = 0 then ret ()
      else eseq (lift (fl_validate_range f offset len))
        (let sector = unat (sector_size (fl_cfg f))
         in if sector = 0 then fail SmcInvalidCapacity
            else
              ebind (lift (usize_ok (unat offset + len))) (\<lambda>end_addr.
              ebind (lift (usize_ok (end_addr + (sector - 1)))) (\<lambda>e.
              erase_loop dev f sector (e div sector * sector) (unat offset div sector * sector)))))"

definition update_region :: "'h smc_dev \<Rightarrow> spi_nor_flash \<Rightarrow> u32 \<Rightarrow> u8 list \<Rightarrow> ('h, smc_error, nat) reg_op" where
  "update_region dev f offset data =
     (if data = [] then ret 0
      else eseq (erase_range dev f offset (length data))
           (ebind (fl_program dev f offset data) (\<lambda>written.
            ebind (fl_verify dev f offset data) (\<lambda>same.
            if \<not> same then fail SmcHardwareError else ret written))))"

section \<open>The block device\<close>

record block_device_info =
  bi_capacity_bytes :: nat
  bi_page_size :: nat
  bi_sector_size :: nat
  bi_block_size :: nat

record block_device =
  bd_flash :: spi_nor_flash
  bd_cfg :: flash_config

definition cfg_capacity_bytes :: "flash_config \<Rightarrow> (smc_error, nat) result" where
  "cfg_capacity_bytes cfg = usize_ok (unat (capacity_mb cfg) * (1024 * 1024))"

definition cfg_from_jedec :: "jedec_id \<Rightarrow> (smc_error, flash_config) result" where
  "cfg_from_jedec j =
     (let k = (manufacturer j, memory_type j, capacity_code j)
      in if k = (0xEF, 0x40, 0x17) then Inr winbond_w25q64
         else if k = (0xEF, 0x40, 0x18)
              then Inr \<lparr>capacity_mb = 16, page_size = 256, sector_size = 4096, block_size = 65536, spi_clock_mhz = 25\<rparr>
         else if k = (0xEF, 0x40, 0x19) then Inr winbond_w25q256
         else Inl SmcDeviceNotSupported)"

definition block_from_flash :: "spi_nor_flash \<Rightarrow> flash_config \<Rightarrow> (smc_error, block_device) result" where
  "block_from_flash f cfg =
     (case cfg_capacity_bytes cfg of Inl e \<Rightarrow> Inl e | Inr expected \<Rightarrow>
      (case fl_capacity_bytes f of Inl e \<Rightarrow> Inl e | Inr actual \<Rightarrow>
       if expected \<noteq> actual then Inl SmcInvalidCapacity
       else if page_size cfg = 0 \<or> sector_size cfg = 0 \<or> block_size cfg = 0 then Inl SmcInvalidCapacity
       else Inr \<lparr>bd_flash = f, bd_cfg = cfg\<rparr>))"

definition block_from_jedec_id :: "spi_nor_flash \<Rightarrow> jedec_id \<Rightarrow> (smc_error, block_device) result" where
  "block_from_jedec_id f j = (case cfg_from_jedec j of Inl e \<Rightarrow> Inl e | Inr cfg \<Rightarrow> block_from_flash f cfg)"

definition read_blocks :: "'h smc_dev \<Rightarrow> block_device \<Rightarrow> u32 \<Rightarrow> nat \<Rightarrow> ('h, smc_error, u8 list) reg_op" where
  "read_blocks dev b address len = fl_read dev (bd_flash b) address len"

text \<open>\<open>block_from_flash\<close> has checked that the page size and the sector size are not zero.\<close>

definition write_blocks :: "'h smc_dev \<Rightarrow> block_device \<Rightarrow> u32 \<Rightarrow> u8 list \<Rightarrow> ('h, smc_error, nat) reg_op" where
  "write_blocks dev b address data =
     (if data = [] then ret 0
      else if unat address mod unat (page_size (bd_cfg b)) \<noteq> 0 then fail SmcInvalidCapacity
      else fl_program dev (bd_flash b) address data)"

definition erase_blocks :: "'h smc_dev \<Rightarrow> block_device \<Rightarrow> u32 \<Rightarrow> u32 \<Rightarrow> ('h, smc_error, unit) reg_op" where
  "erase_blocks dev b address len =
     (if len = 0 then ret ()
      else if unat address mod unat (sector_size (bd_cfg b)) \<noteq> 0 \<or> unat len mod unat (sector_size (bd_cfg b)) \<noteq> 0
           then fail SmcInvalidCapacity
      else erase_range dev (bd_flash b) address (unat len))"

definition block_info :: "block_device \<Rightarrow> (smc_error, block_device_info) result" where
  "block_info b =
     (case cfg_capacity_bytes (bd_cfg b) of
        Inl e \<Rightarrow> Inl e
      | Inr n \<Rightarrow> Inr \<lparr>bi_capacity_bytes = n, bi_page_size = unat (page_size (bd_cfg b)),
                      bi_sector_size = unat (sector_size (bd_cfg b)), bi_block_size = unat (block_size (bd_cfg b))\<rparr>)"

definition block_jedec :: "'h smc_dev \<Rightarrow> block_device \<Rightarrow> ('h, smc_error, jedec_id) reg_op" where
  "block_jedec dev b = fl_jedec dev (bd_flash b)"

end
