(* ===== verification/Smc_Nor.thy ===== *)
theory Smc_Nor
  imports Smc_Flash
begin

unbundle bit_operations_syntax

text \<open>
  The contract of a SPI-NOR chip behind one chip select, in the terms the driver relies on. The chip takes part in a
  user-mode transfer while the mode field of its control register is 3: it collects the bytes that are sent and answers
  a status or an identification command. When the transfer ends it carries out a write enable, a sector erase or a
  page program; an erase and a program need the write-enable latch and keep the chip busy for a number of status reads
  that is a parameter. In normal-read mode, with the read command and the address width that fit its size, the window
  shows the memory of the chip. The contract says of a device that a view of its state behaves like this machine.
\<close>

section \<open>The chip\<close>

record nor_params =
  nor_size :: nat
  nor_id :: "u8 list"
  nor_delay :: "nat \<Rightarrow> nat"

record nor_chip =
  nor_mem :: "nat \<Rightarrow> u8"
  nor_wel :: bool
  nor_busy :: nat
  nor_ops :: nat
  nor_ctrl :: u32
  nor_aw :: u32
  nor_sent :: "u8 list"
  nor_out :: nat

definition user_active :: "u32 \<Rightarrow> bool" where
  "user_active v \<longleftrightarrow> v AND 7 = 3"

definition be_value :: "u8 list \<Rightarrow> nat" where
  "be_value bs = fold (\<lambda>b n. n * 256 + unat b) bs 0"

definition erase_mem :: "nat \<Rightarrow> (nat \<Rightarrow> u8) \<Rightarrow> nat \<Rightarrow> u8" where
  "erase_mem a m = (\<lambda>x. if x div 4096 = a div 4096 then 0xFF else m x)"

text \<open>A page program wraps around inside its page of 256 bytes and can only clear bits.\<close>

definition program_mem :: "nat \<Rightarrow> u8 list \<Rightarrow> (nat \<Rightarrow> u8) \<Rightarrow> nat \<Rightarrow> u8" where
  "program_mem a data m = (\<lambda>x.
     let j = (x + 256 - a mod 256) mod 256
     in if x div 256 = a div 256 \<and> j < length data then m x AND data ! j else m x)"

definition start_write :: "nor_params \<Rightarrow> ((nat \<Rightarrow> u8) \<Rightarrow> nat \<Rightarrow> u8) \<Rightarrow> nor_chip \<Rightarrow> nor_chip" where
  "start_write P f c =
     c\<lparr>nor_mem := f (nor_mem c), nor_wel := False, nor_busy := nor_delay P (nor_ops c), nor_ops := nor_ops c + 1\<rparr>"

definition cmd_addr_len :: "u8 \<Rightarrow> nat" where
  "cmd_addr_len opcode = (if opcode = 0x21 \<or> opcode = 0x12 then 4 else 3)"

definition nor_execute :: "nor_params \<Rightarrow> nor_chip \<Rightarrow> nor_chip" where
  "nor_execute P c =
     (case nor_sent c of
        [] \<Rightarrow> c
      | opcode # rest \<Rightarrow>
          (let n = cmd_addr_len opcode; a = be_value (take n rest) mod nor_size P; data = drop n rest
           in if nor_busy c > 0 then c
              else if opcode = 0x06 then (if rest = [] then c\<lparr>nor_wel := True\<rparr> else c)
              else if \<not> nor_wel c \<or> length rest < n then c
              else if opcode = 0x20 \<or> opcode = 0x21 then (if data = [] then start_write P (erase_mem a) c else c)
              else if opcode = 0x02 \<or> opcode = 0x12
                   then (if data \<noteq> [] \<and> length data \<le> 256 then start_write P (program_mem a data) c else c)
              else c))"

definition nor_set_ctrl :: "nor_params \<Rightarrow> u32 \<Rightarrow> nor_chip \<Rightarrow> nor_chip" where
  "nor_set_ctrl P v c =
     (if user_active (nor_ctrl c) \<and> user_active v then c\<lparr>nor_ctrl := v\<rparr>
      else (if user_active (nor_ctrl c) then nor_execute P c else c)\<lparr>nor_ctrl := v, nor_sent := [], nor_out := 0\<rparr>)"

definition nor_tx :: "u8 list \<Rightarrow> nor_chip \<Rightarrow> nor_chip" where
  "nor_tx bs c = c\<lparr>nor_sent := nor_sent c @ bs\<rparr>"

definition nor_status :: "nor_chip \<Rightarrow> u8" where
  "nor_status c = (if nor_busy c > 0 then 1 else 0) OR (if nor_wel c then 2 else 0)"

definition nor_rx :: "nor_params \<Rightarrow> nor_chip \<Rightarrow> nor_chip \<times> u8" where
  "nor_rx P c =
     (if nor_sent c = [0x05] then (c\<lparr>nor_busy := nor_busy c - 1, nor_out := nor_out c + 1\<rparr>, nor_status c)
      else if nor_sent c = [0x9F] \<and> nor_out c < length (nor_id P)
           then (c\<lparr>nor_out := nor_out c + 1\<rparr>, nor_id P ! nor_out c)
      else (c\<lparr>nor_out := nor_out c + 1\<rparr>, 0xFF))"

fun nor_rx_n :: "nor_params \<Rightarrow> nat \<Rightarrow> nor_chip \<Rightarrow> nor_chip \<times> u8 list" where
  "nor_rx_n P 0 c = (c, [])"
| "nor_rx_n P (Suc n) c = (case nor_rx P c of (c', b) \<Rightarrow> case nor_rx_n P n c' of (c'', bs) \<Rightarrow> (c'', b # bs))"

text \<open>The setting of the controller under which the window shows the memory.\<close>

definition read_mode :: "nor_params \<Rightarrow> chip_select \<Rightarrow> nor_chip \<Rightarrow> bool" where
  "read_mode P cs c \<longleftrightarrow>
     nor_ctrl c AND 7 = 1 \<and> nor_busy c = 0
   \<and> drop_bit 16 (nor_ctrl c) AND 0xff = (if nor_size P > 0x1000000 then 0x6C else 0x6B)
   \<and> nor_aw c AND spi_nor_addr_width_mask cs = (if nor_size P > 0x1000000 then spi_nor_addr_width_mask cs else 0)"

definition nor_set_reg :: "nor_params \<Rightarrow> chip_select \<Rightarrow> smc_reg \<Rightarrow> u32 \<Rightarrow> nor_chip \<Rightarrow> nor_chip" where
  "nor_set_reg P cs r v c =
     (if r = cs_ctrl_reg cs then nor_set_ctrl P v c else if r = FMC004 then c\<lparr>nor_aw := v\<rparr> else c)"

text \<open>What reading a register says about the chip: only the two registers of its own.\<close>

definition nor_get_reg :: "chip_select \<Rightarrow> smc_reg \<Rightarrow> nor_chip \<Rightarrow> u32 option" where
  "nor_get_reg cs r c = (if r = cs_ctrl_reg cs then Some (nor_ctrl c) else if r = FMC004 then Some (nor_aw c) else None)"

definition nor_device :: "nor_params \<Rightarrow> 'h smc_dev \<Rightarrow> chip_select \<Rightarrow> nat \<Rightarrow> ('h \<Rightarrow> nor_chip) \<Rightarrow> bool" where
  "nor_device P dev cs base view \<longleftrightarrow>
     (\<forall>r v h. view (smc_write dev r v h) = nor_set_reg P cs r v (view h))
   \<and> (\<forall>r h. view (fst (smc_read dev r h)) = view h
          \<and> (case nor_get_reg cs r (view h) of None \<Rightarrow> True | Some v \<Rightarrow> snd (smc_read dev r h) = v))
   \<and> (\<forall>a b h. user_active (nor_ctrl (view h)) \<and> base \<le> a \<and> a < base + nor_size P
          \<longrightarrow> view (win_write8 dev a b h) = nor_tx [b] (view h)
            \<and> (view (fst (win_read8 dev a h)), snd (win_read8 dev a h)) = nor_rx P (view h))
   \<and> (\<forall>a w h. user_active (nor_ctrl (view h)) \<and> base \<le> a \<and> a + 4 \<le> base + nor_size P
          \<longrightarrow> view (win_write32 dev a w h) = nor_tx (to_le_bytes32 w) (view h)
            \<and> (view (fst (win_read32 dev a h)), to_le_bytes32 (snd (win_read32 dev a h))) = nor_rx_n P 4 (view h))
   \<and> (\<forall>a n h. \<not> user_active (nor_ctrl (view h)) \<longrightarrow> view (fst (win_copy dev a n h)) = view h)
   \<and> (\<forall>off n h. read_mode P cs (view h) \<and> off + n \<le> nor_size P
          \<longrightarrow> snd (win_copy dev (base + off) n h) = map (nor_mem (view h)) [off..<off + n])"

section \<open>Window accesses\<close>

lemma runs_smc_put:
  "nor_device P dev cs base view \<Longrightarrow> runs view (smc_put dev r v) c (nor_set_reg P cs r v c) (Inr ())"
  by (auto simp: smc_put_def nor_device_def intro!: runs_act)

lemma runs_write_cs_ctrl:
  "nor_device P dev cs base view \<Longrightarrow> runs view (write_cs_ctrl dev cs v) c (nor_set_ctrl P v c) (Inr ())"
  unfolding write_cs_ctrl_def by (drule runs_smc_put [of _ _ _ _ _ "cs_ctrl_reg cs"]) (simp add: nor_set_reg_def)

lemma nor_tx_tx [simp]: "nor_tx bs (nor_tx as c) = nor_tx (as @ bs) c"
  and nor_tx_Nil [simp]: "nor_tx [] c = c"
  and nor_tx_ctrl [simp]: "nor_ctrl (nor_tx bs c) = nor_ctrl c"
  by (simp_all add: nor_tx_def)

lemma runs_tx8:
  "nor_device P dev cs base view \<Longrightarrow> user_active (nor_ctrl c) \<Longrightarrow> base \<le> a \<Longrightarrow> a < base + nor_size P
    \<Longrightarrow> runs view (act (win_write8 dev a b)) c (nor_tx [b] c) (Inr ())"
  by (auto simp: nor_device_def intro!: runs_act)

lemma runs_tx32:
  "nor_device P dev cs base view \<Longrightarrow> user_active (nor_ctrl c) \<Longrightarrow> base \<le> a \<Longrightarrow> a + 4 \<le> base + nor_size P
    \<Longrightarrow> runs view (act (win_write32 dev a w)) c (nor_tx (to_le_bytes32 w) c) (Inr ())"
  by (auto simp: nor_device_def intro!: runs_act)

lemma runs_write_bytes_at:
  assumes "nor_device P dev cs base view" "user_active (nor_ctrl c)" "base \<le> a" "a + length bs \<le> base + nor_size P"
  shows "runs view (write_bytes_at dev a bs) c (nor_tx bs c) (Inr ())"
  using assms(2-)
proof (induction bs arbitrary: a c)
  case (Cons b bs)
  show ?case
    using Cons.prems runs_eseq [OF runs_tx8 [OF assms(1), of c a b] Cons.IH [of "nor_tx [b] c" "a + 1"]] by simp
qed (simp add: runs_ret)

lemma u8_bit_beyond: "8 \<le> n \<Longrightarrow> \<not> bit (a :: u8) n"
  by (auto dest: bit_imp_le_length)

lemma to_le_from_le [simp]: "to_le_bytes32 (from_le_bytes32 a b c d) = [a, b, c, d]"
  by (auto simp: to_le_bytes32_def from_le_bytes32_def bit_eq_iff bit_simps u8_bit_beyond)

lemma runs_spi_write_data:
  assumes "nor_device P dev cs base view" "user_active (nor_ctrl c)" "base \<le> a" "a + length bs \<le> base + nor_size P"
  shows "runs view (spi_write_data dev a bs) c (nor_tx bs c) (Inr ())"
  using assms
proof (induction dev a bs arbitrary: c rule: spi_write_data.induct)
  case (1 dev addr a b c' d bs)
  show ?case
    using "1.prems" runs_eseq [OF runs_tx32 [OF "1.prems"(1), of c addr "from_le_bytes32 a b c' d"]
        "1.IH" [of "nor_tx (to_le_bytes32 (from_le_bytes32 a b c' d)) c"]] by simp
qed (simp_all add: runs_write_bytes_at runs_ret del: write_bytes_at.simps(2))

lemma nor_rx_n_add:
  "nor_rx_n P (m + n) c =
     (case nor_rx_n P m c of (c', as) \<Rightarrow> case nor_rx_n P n c' of (c'', bs) \<Rightarrow> (c'', as @ bs))"
  by (induction m arbitrary: c) (auto split: prod.split)

lemma nor_rx_ctrl: "nor_ctrl (fst (nor_rx P c)) = nor_ctrl c"
  by (simp add: nor_rx_def)

lemma nor_rx_n_ctrl [simp]: "nor_ctrl (fst (nor_rx_n P n c)) = nor_ctrl c"
proof (induction n arbitrary: c)
  case (Suc n)
  then show ?case using nor_rx_ctrl [of P c] by (auto simp: case_prod_unfold)
qed simp

lemma nor_rx_n_length [simp]: "length (snd (nor_rx_n P n c)) = n"
  by (induction n arbitrary: c) (auto simp: case_prod_unfold)

lemma runs_rx8:
  assumes "nor_device P dev cs base view" "user_active (nor_ctrl c)" "base \<le> a" "a < base + nor_size P"
  shows "runs view (get (win_read8 dev a)) c (fst (nor_rx P c)) (Inr (snd (nor_rx P c)))"
proof (rule runs_get)
  fix h assume "view h = c"
  with assms have "(view (fst (win_read8 dev a h)), snd (win_read8 dev a h)) = nor_rx P c"
    by (auto simp: nor_device_def)
  then show "view (fst (win_read8 dev a h)) = fst (nor_rx P c) \<and> snd (win_read8 dev a h) = snd (nor_rx P c)"
    by (metis fst_conv snd_conv)
qed

lemma runs_rx32:
  assumes "nor_device P dev cs base view" "user_active (nor_ctrl c)" "base \<le> a" "a + 4 \<le> base + nor_size P"
    "\<And>w. to_le_bytes32 w = snd (nor_rx_n P 4 c) \<Longrightarrow> runs view (f w) (fst (nor_rx_n P 4 c)) c' r"
  shows "runs view (ebind (get (win_read32 dev a)) f) c c' r"
  unfolding runs_def
proof (intro allI impI)
  fix h assume h: "view h = c"
  with assms have *: "(view (fst (win_read32 dev a h)), to_le_bytes32 (snd (win_read32 dev a h))) = nor_rx_n P 4 c"
    by (auto simp: nor_device_def)
  then have "runs view (f (snd (win_read32 dev a h))) (view (fst (win_read32 dev a h))) c' r"
    using assms(5) by (metis fst_conv snd_conv)
  then show "\<exists>h'. ebind (get (win_read32 dev a)) f h = (h', r) \<and> view h' = c'"
    by (auto dest!: runsD simp: ebind_def get_def case_prod_unfold Let_def)
qed

lemma runs_read_bytes_at:
  assumes "nor_device P dev cs base view" "user_active (nor_ctrl c)" "base \<le> a" "a + n \<le> base + nor_size P"
  shows "runs view (read_bytes_at dev a n) c (fst (nor_rx_n P n c)) (Inr (snd (nor_rx_n P n c)) :: ('e, u8 list) result)"
  using assms(2-)
proof (induction n arbitrary: a c)
  case (Suc n)
  have "runs view (read_bytes_at dev (a + 1) n) (fst (nor_rx P c)) (fst (nor_rx_n P n (fst (nor_rx P c))))
      (Inr (snd (nor_rx_n P n (fst (nor_rx P c)))) :: ('e, u8 list) result)"
    using Suc.prems nor_rx_ctrl [of P c] by (intro Suc.IH) auto
  with Suc.prems show ?case
    by (auto simp: case_prod_unfold intro!: runs_ebind [OF runs_rx8 [OF assms(1)]] runs_ebind [OF _ runs_ret])
qed (simp add: runs_ret)

lemma runs_spi_read_data:
  assumes "nor_device P dev cs base view" "user_active (nor_ctrl c)" "base \<le> a" "a + n \<le> base + nor_size P"
  shows "runs view (spi_read_data dev a n) c (fst (nor_rx_n P n c)) (Inr (snd (nor_rx_n P n c)) :: ('e, u8 list) result)"
  using assms
proof (induction dev a n arbitrary: c rule: spi_read_data.induct)
  case (1 dev a n)
  show ?case
  proof (cases "n \<ge> 4")
    case True
    let ?c = "fst (nor_rx_n P 4 c)"
    have n: "nor_rx_n P n c = (case nor_rx_n P (n - 4) ?c of (c'', bs) \<Rightarrow> (c'', snd (nor_rx_n P 4 c) @ bs))"
      using nor_rx_n_add [of P 4 "n - 4" c] True by (simp add: case_prod_unfold)
    have "runs view (spi_read_data dev (a + 4) (n - 4)) ?c (fst (nor_rx_n P (n - 4) ?c))
        (Inr (snd (nor_rx_n P (n - 4) ?c)) :: ('e, u8 list) result)"
      using "1.prems" True by (intro "1.IH") (auto simp: True)
    with True "1.prems" show ?thesis
      by (subst spi_read_data.simps)
        (auto simp: n case_prod_unfold intro!: runs_rx32 [OF "1.prems"(1)] runs_ebind [OF _ runs_ret])
  next
    case False
    then show ?thesis using "1.prems" by (subst spi_read_data.simps) (simp add: runs_read_bytes_at)
  qed
qed

section \<open>A device that satisfies the contract\<close>

text \<open>The chip itself together with a plain register file.\<close>

definition nor_sim :: "nor_params \<Rightarrow> chip_select \<Rightarrow> nat \<Rightarrow> (nor_chip \<times> (smc_reg \<Rightarrow> u32)) smc_dev" where
  "nor_sim P cs base =
     \<lparr>smc_write = (\<lambda>r v (c, g). (nor_set_reg P cs r v c, g(r := v))),
      smc_read = (\<lambda>r (c, g). ((c, g), case nor_get_reg cs r c of Some v \<Rightarrow> v | None \<Rightarrow> g r)),
      win_write32 = (\<lambda>a w (c, g). (nor_tx (to_le_bytes32 w) c, g)),
      win_write8 = (\<lambda>a b (c, g). (nor_tx [b] c, g)),
      win_read32 = (\<lambda>a (c, g). case nor_rx_n P 4 c of
         (c', bs) \<Rightarrow> ((c', g), from_le_bytes32 (bs ! 0) (bs ! 1) (bs ! 2) (bs ! 3))),
      win_read8 = (\<lambda>a (c, g). case nor_rx P c of (c', b) \<Rightarrow> ((c', g), b)),
      win_copy = (\<lambda>a n (c, g). ((c, g), map (nor_mem c) [a - base..<a - base + n])),
      dmaintenbl_set_bit = (\<lambda>w. w OR 8), dmaintenbl_clear_bit = (\<lambda>w. w AND NOT 8), kick_fields = (\<lambda>w. w OR 1)\<rparr>"

lemma length_4_list: "length bs = 4 \<Longrightarrow> [bs ! 0, bs ! Suc 0, bs ! 2, bs ! 3] = bs"
  by (auto simp: numeral_eq_Suc length_Suc_conv)

lemma nor_sim_ok: "nor_device P (nor_sim P cs base) cs base fst"
proof -
  have "(fst (fst (win_read32 (nor_sim P cs base) a h)), to_le_bytes32 (snd (win_read32 (nor_sim P cs base) a h)))
      = nor_rx_n P 4 (fst h)" for a h
    using length_4_list [OF nor_rx_n_length [of P 4 "fst h"]]
    by (cases h; cases "nor_rx_n P 4 (fst h)") (simp add: nor_sim_def)
  then show ?thesis
    by (auto simp: nor_device_def nor_sim_def split: option.split prod.split)
qed

end
