(* ===== verification/Smc_Flash_Runs.thy ===== *)
theory Smc_Flash_Runs
  imports Smc_Nor
begin

unbundle bit_operations_syntax

text \<open>
  The operations of the flash run on a chip that satisfies the contract: a user-mode transfer delivers exactly the
  command and the payload and restores the read mode; the write-enable, erase and program commands have their effect
  on the memory; waiting succeeds if the chip is busy for fewer status reads than the limit and times out otherwise; the
  loops erase and program exactly the range.
\<close>

section \<open>A transfer\<close>

definition nor_transaction :: "nor_params \<Rightarrow> u8 list \<Rightarrow> nat \<Rightarrow> nor_chip \<Rightarrow> nor_chip \<times> u8 list" where
  "nor_transaction P bytes n c =
     (case nor_rx_n P n (c\<lparr>nor_sent := bytes, nor_out := 0\<rparr>) of
        (c', rx) \<Rightarrow> ((nor_execute P c')\<lparr>nor_sent := [], nor_out := 0\<rparr>, rx))"

lemma user_base_bits:
  fixes v m :: u32
  shows "user_active ((v AND NOT 7) OR ASPEED_SPI_USER)"
    and "\<not> user_active (((v AND NOT 7) OR ASPEED_SPI_USER) OR ASPEED_SPI_USER_INACTIVE)"
    and "m AND 7 = 0 \<Longrightarrow> user_active ((((v AND NOT 7) OR ASPEED_SPI_USER) AND SPI_CTRL_IO_MODE_MASK) OR m)"
  by (simp_all add: user_active_def ASPEED_SPI_USER_def ASPEED_SPI_USER_INACTIVE_def SPI_CTRL_IO_MODE_MASK_def
      bit.conj_disj_distrib2 and.assoc)

lemma io_bits_low: "cmd_io_bits mode AND 7 = 0" "addr_io_bits mode AND 7 = 0" "data_io_bits mode AND 7 = 0"
  by (cases mode; simp add: cmd_io_bits_def addr_io_bits_def data_io_bits_def)+

lemma nor_rx_upd_ctrl: "nor_rx P (c\<lparr>nor_ctrl := v\<rparr>) = (fst (nor_rx P c)\<lparr>nor_ctrl := v\<rparr>, snd (nor_rx P c))"
  by (simp add: nor_rx_def nor_status_def)

lemma nor_rx_n_upd_ctrl:
  "nor_rx_n P n (c\<lparr>nor_ctrl := v\<rparr>) = (fst (nor_rx_n P n c)\<lparr>nor_ctrl := v\<rparr>, snd (nor_rx_n P n c))"
  by (induction n arbitrary: c) (simp_all add: case_prod_unfold nor_rx_upd_ctrl)

lemma nor_execute_upd_ctrl: "nor_execute P (c\<lparr>nor_ctrl := v\<rparr>) = (nor_execute P c)\<lparr>nor_ctrl := v\<rparr>"
  by (simp add: nor_execute_def start_write_def Let_def split: list.split)

lemma nor_execute_ctrl: "nor_ctrl (nor_execute P c) = nor_ctrl c"
  by (simp add: nor_execute_def start_write_def Let_def split: list.split)

definition idle_chip :: "smc \<Rightarrow> chip_select \<Rightarrow> nor_chip \<Rightarrow> bool" where
  "idle_chip s cs c \<longleftrightarrow>
     smc_st s = SmcIdle \<and> cs_slot (smc_cfg s) cs \<noteq> None
   \<and> nor_ctrl c = normal_read_ctrl s cs \<and> nor_ctrl c AND 7 = 1 \<and> nor_sent c = [] \<and> nor_out c = 0"

lemma runs_transceive_user:
  assumes dev: "nor_device P dev cs (flash_window_base s cs) view" and idle: "idle_chip s cs c"
    and len: "length cmd \<le> nor_size P" "length payload \<le> nor_size P" "n \<le> nor_size P"
  shows "runs view (transceive_user dev s cs cmd payload n mode) c
           (fst (nor_transaction P (cmd @ payload) n c)) (Inr (snd (nor_transaction P (cmd @ payload) n c)))"
proof -
  let ?u = "(normal_read_ctrl s cs AND NOT 7) OR ASPEED_SPI_USER"
  let ?i = "?u OR ASPEED_SPI_USER_INACTIVE"
  let ?m = "\<lambda>b. (?u AND SPI_CTRL_IO_MODE_MASK) OR b"
  let ?v = "normal_read_ctrl s cs"
  have idleD: "smc_st s = SmcIdle" "\<not> (cs = Cs1 \<and> cfg_cs1 (smc_cfg s) = None)" "nor_ctrl c = ?v"
    "\<not> user_active ?v" "nor_sent c = []" "nor_out c = 0"
    using idle by (auto simp: idle_chip_def user_active_def cs_slot_def)
  note act = user_base_bits(1) [of ?v] user_base_bits(2) [of ?v]
    user_base_bits(3) [OF io_bits_low(1), of ?v mode] user_base_bits(3) [OF io_bits_low(2), of ?v mode]
    user_base_bits(3) [OF io_bits_low(3), of ?v mode]
  let ?c = "c\<lparr>nor_sent := cmd @ payload, nor_out := 0\<rparr>"
  let ?d = "?c\<lparr>nor_ctrl := ?m (data_io_bits mode)\<rparr>"
  let ?r = "nor_rx_n P n ?d"
  have d: "?r = (fst (nor_rx_n P n ?c)\<lparr>nor_ctrl := ?m (data_io_bits mode)\<rparr>, snd (nor_rx_n P n ?c))"
    by (rule nor_rx_n_upd_ctrl)
  have steps:
    "nor_set_ctrl P ?i c = c\<lparr>nor_ctrl := ?i\<rparr>"
    "nor_set_ctrl P ?u (c\<lparr>nor_ctrl := ?i\<rparr>) = c\<lparr>nor_ctrl := ?u\<rparr>"
    "nor_set_ctrl P (?m (cmd_io_bits mode)) (c\<lparr>nor_ctrl := ?u\<rparr>) = c\<lparr>nor_ctrl := ?m (cmd_io_bits mode)\<rparr>"
    "nor_set_ctrl P (?m (addr_io_bits mode)) (nor_tx cmd (c\<lparr>nor_ctrl := ?m (cmd_io_bits mode)\<rparr>))
       = nor_tx cmd (c\<lparr>nor_ctrl := ?m (addr_io_bits mode)\<rparr>)"
    "nor_set_ctrl P (?m (data_io_bits mode)) (nor_tx (cmd @ payload) (c\<lparr>nor_ctrl := ?m (addr_io_bits mode)\<rparr>)) = ?d"
    using act idleD by (cases c; simp add: nor_set_ctrl_def nor_tx_def)+
  have last: "nor_set_ctrl P ?v (nor_set_ctrl P ?i (fst ?r)) = fst (nor_transaction P (cmd @ payload) n c)"
    and rx: "snd ?r = snd (nor_transaction P (cmd @ payload) n c)"
    unfolding d using act idleD
    by (simp_all add: nor_set_ctrl_def nor_transaction_def nor_execute_upd_ctrl nor_execute_ctrl case_prod_unfold)
  note w = runs_write_cs_ctrl [OF dev]
  show ?thesis
    unfolding transceive_user_def Let_def if_not_P [OF idleD(2)] last [symmetric] rx [symmetric]
    using idleD(1) act len
    apply (simp only: simp_thms if_False)
    apply (rule runs_eseq [OF w], unfold steps)
    apply (rule runs_eseq [OF w], unfold steps)
    apply (rule runs_eseq [OF w], unfold steps)
    apply (rule runs_eseq [OF runs_spi_write_data [OF dev]], simp, simp, simp)
    apply (rule runs_eseq [OF w], unfold steps)
    apply (rule runs_eseq [OF runs_spi_write_data [OF dev]], simp, simp, simp, unfold nor_tx_tx)
    apply (rule runs_eseq [OF w], unfold steps)
    apply (rule runs_ebind [OF runs_spi_read_data [OF dev]], simp, simp, simp)
    apply (rule runs_eseq [OF w runs_eseq [OF w runs_ret]])
    done
qed

section \<open>Commands on the chip\<close>

text \<open>
  A flash on a chip: the configured capacity is the size of the chip, the erase unit is the sector of the chip, a page
  divides the page of the chip, and three address bytes are only used if they reach the whole chip.
\<close>

definition flash_chip :: "nor_params \<Rightarrow> spi_nor_flash \<Rightarrow> bool" where
  "flash_chip P f \<longleftrightarrow>
     fl_capacity_bytes f = Inr (nor_size P) \<and> nor_size P > 0
   \<and> sector_size (fl_cfg f) = 4096 \<and> unat (page_size (fl_cfg f)) dvd 256 \<and> page_size (fl_cfg f) \<noteq> 0
   \<and> command_profile f = for_addressing (addressing_policy f)
   \<and> (addressing_policy f = ThreeByteOnly \<longrightarrow> nor_size P \<le> 0x1000000)
   \<and> flash_window_base (backend_smc (backend f)) (fl_cs f) + nor_size P \<le> 2 ^ 32"

definition flash_idle :: "nor_params \<Rightarrow> spi_nor_flash \<Rightarrow> nor_chip \<Rightarrow> bool" where
  "flash_idle P f c \<longleftrightarrow> idle_chip (backend_smc (backend f)) (fl_cs f) c \<and> read_mode P (fl_cs f) c"

abbreviation flash_device :: "nor_params \<Rightarrow> 'h smc_dev \<Rightarrow> spi_nor_flash \<Rightarrow> ('h \<Rightarrow> nor_chip) \<Rightarrow> bool" where
  "flash_device P dev f view \<equiv> nor_device P dev (fl_cs f) (flash_window_base (backend_smc (backend f)) (fl_cs f)) view"

lemma flash_chip_size:
  assumes "flash_chip P f"
  obtains cc where "cs_slot (smc_cfg (backend_smc (backend f))) (fl_cs f) = Some cc"
    "flash_capacity_bytes (Some cc) = Inr (nor_size P)" "nor_size P = unat (capacity_mb cc) * 1048576"
    "nor_size P \<ge> 1048576" "4096 dvd nor_size P" "nor_size P < 2 ^ 32"
proof -
  obtain cc where cc: "cs_slot (smc_cfg (backend_smc (backend f))) (fl_cs f) = Some cc"
    "flash_capacity_bytes (Some cc) = Inr (nor_size P)"
    using assms by (auto simp: flash_chip_def fl_capacity_bytes_def smc_cs_capacity_bytes_def cs_capacity_bytes_def
        split: option.splits)
  then have n: "nor_size P = unat (capacity_mb cc) * 1048576" "nor_size P < 2 ^ 32" "unat (capacity_mb cc) > 0"
    using assms by (auto simp: flash_capacity_Some flash_chip_def)
  moreover have "4096 dvd (1048576 :: nat)" by (rule dvdI [of _ _ 256]) simp
  ultimately show thesis using that cc by (auto intro: dvd_mult)
qed

lemma flash_chip_bounds:
  assumes "flash_chip P f"
  shows "nor_size P \<ge> 1048576" "4096 dvd nor_size P" "nor_size P < 2 ^ 32"
  by (rule flash_chip_size [OF assms], assumption)+

lemma flash_chip_page:
  assumes "flash_chip P f"
  shows "0 < unat (page_size (fl_cfg f))" "unat (page_size (fl_cfg f)) dvd 256"
  using assms by (auto simp: flash_chip_def unat_gt_0)

lemma unat_shift: "unat (drop_bit k (w :: u32)) = unat w div 2 ^ k"
  unfolding unat_drop_bit_eq by (rule drop_bit_eq_div)

lemma unat_byte: "unat (ucast (w :: u32) :: u8) = unat w mod 256"
  by (simp add: unsigned_ucast_eq unsigned_take_bit_eq take_bit_eq_mod)

lemma to_be_bytes32_list:
  "to_be_bytes32 w = [ucast (drop_bit 24 w), ucast (drop_bit 16 w), ucast (drop_bit 8 w), ucast (drop_bit 0 w)]"
  by (simp add: to_be_bytes32_def to_le_bytes32_def)

lemma byte_sum: "((x div 65536 mod 256 * 256 + x div 256 mod 256) * 256 + x mod 256) = (x :: nat) mod 16777216"
  using mod_mult2_eq [of x 256 65536] mod_mult2_eq [of "x div 256" 256 256] by (simp add: div_mult2_eq [symmetric])

lemma be_value_3: "be_value [to_be_bytes32 w ! 1, to_be_bytes32 w ! 2, to_be_bytes32 w ! 3] = unat w mod 16777216"
  using byte_sum [of "unat w"] by (simp add: be_value_def to_be_bytes32_list unat_byte unat_shift)

lemma be_value_4:
  "be_value [to_be_bytes32 w ! 0, to_be_bytes32 w ! 1, to_be_bytes32 w ! 2, to_be_bytes32 w ! 3] = unat w"
proof -
  have "unat w < 2 ^ LENGTH(32)" by (rule unsigned_less)
  then have "unat w div 16777216 < 256" by (simp add: less_mult_imp_div_less)
  then have "be_value [to_be_bytes32 w ! 0, to_be_bytes32 w ! 1, to_be_bytes32 w ! 2, to_be_bytes32 w ! 3]
      = unat w div 16777216 * 16777216
        + ((unat w div 65536 mod 256 * 256 + unat w div 256 mod 256) * 256 + unat w mod 256)"
    by (simp add: be_value_def to_be_bytes32_list unat_byte unat_shift)
  also have "\<dots> = unat w div 16777216 * 16777216 + unat w mod 16777216" by (simp only: byte_sum)
  also have "\<dots> = unat w" by (rule div_mult_mod_eq)
  finally show ?thesis .
qed

lemma transaction_wren:
  "nor_busy c = 0 \<Longrightarrow> nor_sent c = [] \<Longrightarrow> nor_out c = 0 \<Longrightarrow> nor_transaction P [0x06] 0 c = (c\<lparr>nor_wel := True\<rparr>, [])"
  by (cases c) (simp add: nor_transaction_def nor_execute_def Let_def)

lemma transaction_status:
  "nor_sent c = [] \<Longrightarrow> nor_out c = 0 \<Longrightarrow> nor_transaction P [0x05] 1 c = (c\<lparr>nor_busy := nor_busy c - 1\<rparr>, [nor_status c])"
  by (cases c) (simp add: nor_transaction_def nor_execute_def nor_rx_def nor_status_def Let_def cmd_addr_len_def)

lemma transaction_id:
  "nor_sent c = [] \<Longrightarrow> nor_out c = 0 \<Longrightarrow> length (nor_id P) = 3 \<Longrightarrow> nor_transaction P [0x9F] 3 c = (c, nor_id P)"
  by (cases c) (auto simp: nor_transaction_def nor_execute_def nor_rx_def numeral_3_eq_3 length_Suc_conv Let_def cmd_addr_len_def)

lemmas nor_command_simps = nor_transaction_def nor_execute_def Let_def cmd_addr_len_def encode_addr_cmd_def
  for_addressing_def addr_width_def policy_addr_width_def cmd_defs start_write_def
  be_value_3 [unfolded One_nat_def] be_value_4 [unfolded One_nat_def]

lemma transaction_erase:
  assumes "flash_chip P f" "unat off < nor_size P" "nor_busy c = 0" "nor_wel c" "nor_sent c = []" "nor_out c = 0"
  shows "nor_transaction P (encode_addr_cmd (fp_erase_sector_4k (command_profile f)) off (addr_width f)) 0 c
           = (start_write P (erase_mem (unat off)) c, [])"
proof -
  have "addressing_policy f = ThreeByteOnly \<Longrightarrow> unat off mod 16777216 = unat off"
    using assms by (auto simp: flash_chip_def)
  with assms show ?thesis
    by (cases c; cases "addressing_policy f")
      (simp_all add: flash_chip_def nor_command_simps)
qed

lemma transaction_program:
  assumes "flash_chip P f" "unat off < nor_size P" "nor_busy c = 0" "nor_wel c" "nor_sent c = []" "nor_out c = 0"
    "data \<noteq> []" "length data \<le> 256"
  shows "nor_transaction P (encode_addr_cmd (fp_page_program (command_profile f)) off (addr_width f) @ data) 0 c
           = (start_write P (program_mem (unat off) data) c, [])"
proof -
  have "addressing_policy f = ThreeByteOnly \<Longrightarrow> unat off mod 16777216 = unat off"
    using assms by (auto simp: flash_chip_def)
  with assms show ?thesis
    by (cases c; cases "addressing_policy f")
      (simp_all add: flash_chip_def nor_command_simps)
qed

section \<open>Waiting\<close>

lemma encode_addr_cmd_length: "length (encode_addr_cmd opcode off w) \<le> 5"
  by (cases w) (simp_all add: encode_addr_cmd_def Let_def)

lemma runs_fl_transceive:
  assumes "flash_device P dev f view" "idle_chip (backend_smc (backend f)) (fl_cs f) c" "flash_chip P f"
    "length cmd \<le> 5" "length payload \<le> 256" "n \<le> 256"
  shows "runs view (fl_transceive dev f cmd payload n) c
           (fst (nor_transaction P (cmd @ payload) n c)) (Inr (snd (nor_transaction P (cmd @ payload) n c)))"
proof -
  note flash_chip_bounds(1) [OF assms(3)]
  then show ?thesis unfolding fl_transceive_def using assms by (intro runs_transceive_user) auto
qed

lemma runs_issue_command:
  assumes "flash_device P dev f view" "idle_chip (backend_smc (backend f)) (fl_cs f) c" "flash_chip P f"
    "length cmd \<le> 5" "length payload \<le> 256" "nor_transaction P (cmd @ payload) 0 c = (c', [])"
  shows "runs view (issue_command dev f cmd payload) c c' (Inr ())"
  unfolding issue_command_def using runs_fl_transceive [OF assms(1-5), of 0] assms(6)
  by (auto intro: runs_ebind runs_ret)

lemma idle_chip_upd [simp]:
  "idle_chip s cs (c\<lparr>nor_wel := b\<rparr>) = idle_chip s cs c" "idle_chip s cs (c\<lparr>nor_busy := n\<rparr>) = idle_chip s cs c"
  "idle_chip s cs (start_write P g c) = idle_chip s cs c"
  by (simp_all add: idle_chip_def start_write_def)

lemma runs_read_status:
  assumes "flash_device P dev f view" "idle_chip (backend_smc (backend f)) (fl_cs f) c" "flash_chip P f"
  shows "runs view (read_status_impl dev f) c (c\<lparr>nor_busy := nor_busy c - 1\<rparr>) (Inr (nor_status c))"
proof -
  have st: "fp_read_status (command_profile f) = 0x05"
    using assms(3) by (simp add: flash_chip_def for_addressing_def cmd_defs split: flash_addressing_policy.split)
  have "nor_transaction P ([0x05] @ []) 1 c = (c\<lparr>nor_busy := nor_busy c - 1\<rparr>, [nor_status c])"
    using transaction_status [of c P] assms(2) by (simp add: idle_chip_def)
  then have "runs view (fl_transceive dev f [0x05] [] 1) c (c\<lparr>nor_busy := nor_busy c - 1\<rparr>) (Inr [nor_status c])"
    using runs_fl_transceive [OF assms, of "[0x05]" "[]" 1] by simp
  then show ?thesis
    unfolding read_status_impl_def st by (rule runs_ebind) (simp add: runs_ret)
qed

lemma status_wip: "nor_status c AND STATUS_WIP = 0 \<longleftrightarrow> nor_busy c = 0"
  by (simp add: nor_status_def STATUS_WIP_def)

lemma runs_wait_write_complete:
  assumes "flash_device P dev f view" "flash_chip P f"
  shows "idle_chip (backend_smc (backend f)) (fl_cs f) c \<Longrightarrow> nor_busy c < n
    \<Longrightarrow> runs view (wait_write_complete dev f n) c (c\<lparr>nor_busy := 0\<rparr>) (Inr ())"
proof (induction n arbitrary: c)
  case (Suc n)
  show ?case
  proof (cases "nor_busy c = 0")
    case True
    with Suc.prems show ?thesis
      by (auto simp: status_wip runs_ret intro!: runs_ebind [OF runs_read_status [OF assms(1) _ assms(2)]])
  next
    case False
    have "runs view (wait_write_complete dev f n) (c\<lparr>nor_busy := nor_busy c - 1\<rparr>) (c\<lparr>nor_busy := 0\<rparr>) (Inr ())"
      using Suc.IH [of "c\<lparr>nor_busy := nor_busy c - 1\<rparr>"] Suc.prems False by simp
    with False Suc.prems show ?thesis
      by (auto simp: status_wip intro!: runs_ebind [OF runs_read_status [OF assms(1) _ assms(2)]])
  qed
qed simp

lemma runs_wait_times_out:
  assumes "flash_device P dev f view" "flash_chip P f"
  shows "idle_chip (backend_smc (backend f)) (fl_cs f) c \<Longrightarrow> n \<le> nor_busy c
    \<Longrightarrow> runs view (wait_write_complete dev f n) c (c\<lparr>nor_busy := nor_busy c - n\<rparr>) (Inl SmcTimeout)"
proof (induction n arbitrary: c)
  case (Suc n)
  have "runs view (wait_write_complete dev f n) (c\<lparr>nor_busy := nor_busy c - 1\<rparr>)
      (c\<lparr>nor_busy := nor_busy c - Suc n\<rparr>) (Inl SmcTimeout)"
    using Suc.IH [of "c\<lparr>nor_busy := nor_busy c - 1\<rparr>"] Suc.prems by simp
  with Suc.prems show ?case
    by (auto simp: status_wip intro!: runs_ebind [OF runs_read_status [OF assms(1) _ assms(2)]])
qed (simp add: runs_fail)

section \<open>Erase and program\<close>

text \<open>The chip after \<open>k\<close> completed write operations that left the memory \<open>m\<close>.\<close>

definition after_writes :: "nor_chip \<Rightarrow> (nat \<Rightarrow> u8) \<Rightarrow> nat \<Rightarrow> nor_chip" where
  "after_writes c m k =
     c\<lparr>nor_mem := m, nor_wel := (k = 0 \<and> nor_wel c), nor_busy := 0, nor_ops := nor_ops c + k\<rparr>"

lemma after_writes_0 [simp]: "nor_busy c = 0 \<Longrightarrow> after_writes c (nor_mem c) 0 = c"
  by (cases c) (simp add: after_writes_def)

lemma after_writes_trans [simp]: "after_writes (after_writes c m j) m' k = after_writes c m' (j + k)"
  by (simp add: after_writes_def add.assoc conj_ac)

lemma after_writes_mem [simp]: "nor_mem (after_writes c m k) = m" and after_writes_busy [simp]: "nor_busy (after_writes c m k) = 0"
  by (simp_all add: after_writes_def)

lemma flash_idle_after [simp]: "flash_idle P f c \<Longrightarrow> flash_idle P f (after_writes c m k)"
  by (auto simp: flash_idle_def idle_chip_def read_mode_def after_writes_def)

lemma flash_idleD:
  assumes "flash_idle P f c"
  shows "idle_chip (backend_smc (backend f)) (fl_cs f) c" "nor_busy c = 0" "nor_sent c = []" "nor_out c = 0"
    "read_mode P (fl_cs f) c"
  using assms by (auto simp: flash_idle_def idle_chip_def read_mode_def)

lemma runs_write_enable:
  assumes "flash_device P dev f view" "flash_idle P f c" "flash_chip P f"
  shows "runs view (fl_write_enable dev f) c (c\<lparr>nor_wel := True\<rparr>) (Inr ())"
proof -
  have "fp_write_enable (command_profile f) = 0x06"
    using assms(3) by (simp add: flash_chip_def for_addressing_def cmd_defs split: flash_addressing_policy.split)
  then show ?thesis
    unfolding fl_write_enable_def using flash_idleD [OF assms(2)]
    by (intro runs_issue_command [OF assms(1) _ assms(3)]) (simp_all add: transaction_wren)
qed

lemma fl_validate_range_ok:
  "flash_chip P f \<Longrightarrow> fl_validate_range f off n = (if unat off + n \<le> nor_size P then Inr () else Inl SmcInvalidCapacity)"
  by (rule flash_chip_size [of P f])
    (auto simp: fl_validate_range_def usize_ok_def USIZE_LIMIT_def flash_chip_def)

lemma write_effect:
  "(start_write P g (c\<lparr>nor_wel := True\<rparr>))\<lparr>nor_busy := 0\<rparr> = after_writes c (g (nor_mem c)) 1"
  by (simp add: start_write_def after_writes_def)

lemma start_write_busy [simp]: "nor_busy (start_write P g c) = nor_delay P (nor_ops c)"
  by (simp add: start_write_def)

lemma runs_write_cycle:
  assumes dev: "flash_device P dev f view" and idle: "flash_idle P f c" and chip: "flash_chip P f"
    and delay: "\<forall>k. nor_delay P k < WRITE_COMPLETE_MAX_POLLS"
    and len: "length cmd \<le> 5" "length payload \<le> 256"
    and cmd: "nor_transaction P (cmd @ payload) 0 (c\<lparr>nor_wel := True\<rparr>) = (start_write P g (c\<lparr>nor_wel := True\<rparr>), [])"
  shows "runs view (eseq (fl_write_enable dev f) (eseq (issue_command dev f cmd payload)
           (wait_write_complete dev f WRITE_COMPLETE_MAX_POLLS))) c (after_writes c (g (nor_mem c)) 1) (Inr ())"
proof -
  let ?c1 = "c\<lparr>nor_wel := True\<rparr>"
  have "runs view (issue_command dev f cmd payload) ?c1 (start_write P g ?c1) (Inr ())"
    using flash_idleD [OF idle] len cmd by (intro runs_issue_command [OF dev _ chip]) simp_all
  moreover have "runs view (wait_write_complete dev f WRITE_COMPLETE_MAX_POLLS) (start_write P g ?c1)
      (after_writes c (g (nor_mem c)) 1) (Inr ())"
    unfolding write_effect [where P = P, symmetric]
    using delay flash_idleD [OF idle] by (intro runs_wait_write_complete [OF dev chip]) simp_all
  ultimately show ?thesis by (rule runs_eseq [OF runs_write_enable [OF dev idle chip] runs_eseq])
qed

lemma runs_erase_sector:
  assumes dev: "flash_device P dev f view" and idle: "flash_idle P f c" and chip: "flash_chip P f"
    and delay: "\<forall>k. nor_delay P k < WRITE_COMPLETE_MAX_POLLS"
    and off: "unat off mod 4096 = 0" "unat off < nor_size P"
  shows "runs view (erase_sector dev f off) c (after_writes c (erase_mem (unat off) (nor_mem c)) 1) (Inr ())"
proof -
  obtain q where "nor_size P = 4096 * q" using flash_chip_bounds(2) [OF chip] by (rule dvdE)
  with off have "unat off + 4096 \<le> nor_size P" by auto
  then have v: "validate_sector_erase f off = Inr ()"
    using chip off fl_validate_range_ok [OF chip, of off 4096] by (simp add: validate_sector_erase_def flash_chip_def Let_def)
  show ?thesis
    unfolding erase_sector_def v using flash_idleD [OF idle] off(2) transaction_erase [OF chip off(2), of "c\<lparr>nor_wel := True\<rparr>"]
    by (intro runs_eseq [OF runs_lift] runs_write_cycle [OF dev idle chip delay]) (simp_all add: encode_addr_cmd_length)
qed

lemma runs_program_page:
  assumes dev: "flash_device P dev f view" and idle: "flash_idle P f c" and chip: "flash_chip P f"
    and delay: "\<forall>k. nor_delay P k < WRITE_COMPLETE_MAX_POLLS"
    and off: "unat off mod unat (page_size (fl_cfg f)) = 0" "unat off + length data \<le> nor_size P"
    and data: "data \<noteq> []" "length data \<le> unat (page_size (fl_cfg f))"
  shows "runs view (program_page dev f off data) c
           (after_writes c (program_mem (unat off) data (nor_mem c)) 1) (Inr (length data))"
proof -
  have page: "unat (page_size (fl_cfg f)) \<le> 256" using chip by (auto simp: flash_chip_def dest: dvd_imp_le)
  have v: "validate_page_program f off data = Inr ()"
    using chip off data fl_validate_range_ok [OF chip, of off "length data"]
    by (simp add: validate_page_program_def flash_chip_def Let_def unat_eq_0)
  have lt: "unat off < nor_size P" using off(2) data(1) by (cases data) auto
  have "runs view (eseq (eseq (fl_write_enable dev f)
      (eseq (issue_command dev f (encode_addr_cmd (fp_page_program (command_profile f)) off (addr_width f)) data)
        (wait_write_complete dev f WRITE_COMPLETE_MAX_POLLS))) (ret (length data))) c
      (after_writes c (program_mem (unat off) data (nor_mem c)) 1) (Inr (length data))"
    using flash_idleD [OF idle] data page transaction_program [OF chip lt, of "c\<lparr>nor_wel := True\<rparr>" data]
    by (intro runs_eseq [OF runs_write_cycle [OF dev idle chip delay, where g = "program_mem (unat off) data"] runs_ret])
      (simp_all add: encode_addr_cmd_length)
  then show ?thesis
    unfolding program_page_def v eseq_assoc by (rule runs_eseq [OF runs_lift])
qed

section \<open>Loops\<close>

lemma same_block_iff: "0 < n \<Longrightarrow> n dvd a \<Longrightarrow> x div n = a div n \<longleftrightarrow> a \<le> x \<and> x < a + (n :: nat)"
proof -
  assume n: "0 < n" and "n dvd a"
  then obtain q where a: "a = q * n" by (metis dvdE mult.commute)
  have "x div n = q \<longleftrightarrow> q * n \<le> x \<and> x < Suc q * n"
    using n dividend_less_div_times [OF n, of x] by (auto intro: div_nat_eqI simp: mult.commute)
  then show ?thesis using n by (simp add: a add.commute)
qed

lemma runs_erase_loop:
  assumes dev: "flash_device P dev f view" and chip: "flash_chip P f"
    and delay: "\<forall>k. nor_delay P k < WRITE_COMPLETE_MAX_POLLS"
  shows "flash_idle P f c \<Longrightarrow> 4096 dvd cur \<Longrightarrow> end_addr = cur + 4096 * k \<Longrightarrow> end_addr \<le> nor_size P
    \<Longrightarrow> runs view (erase_loop dev f 4096 end_addr cur) c
         (after_writes c (\<lambda>x. if cur \<le> x \<and> x < end_addr then 0xFF else nor_mem c x) k) (Inr ())"
proof (induction k arbitrary: cur c)
  case 0
  moreover have "(\<lambda>x. if cur \<le> x \<and> x < cur then 0xFF else nor_mem c x) = nor_mem c" by fastforce
  ultimately show ?case
    using flash_idleD(2) [OF "0.prems"(1)] by (subst erase_loop.simps) (simp add: runs_ret)
next
  case (Suc k)
  note size = flash_chip_bounds(3) [OF chip]
  have cur: "unat (of_nat cur :: u32) = cur" using Suc.prems size by (simp add: unat_of_nat take_bit_nat_eq_self)
  let ?c = "after_writes c (erase_mem cur (nor_mem c)) 1"
  have "runs view (erase_sector dev f (of_nat cur)) c ?c (Inr ())"
    using runs_erase_sector [OF dev Suc.prems(1) chip delay, of "of_nat cur"] Suc.prems by (simp add: cur dvd_eq_mod_eq_0)
  moreover have "runs view (erase_loop dev f 4096 end_addr (cur + 4096)) ?c
      (after_writes ?c (\<lambda>x. if cur + 4096 \<le> x \<and> x < end_addr then 0xFF else nor_mem ?c x) k) (Inr ())"
    using Suc.prems by (intro Suc.IH) auto
  moreover have "after_writes ?c (\<lambda>x. if cur + 4096 \<le> x \<and> x < end_addr then 0xFF else nor_mem ?c x) k
      = after_writes c (\<lambda>x. if cur \<le> x \<and> x < end_addr then 0xFF else nor_mem c x) (Suc k)"
    using Suc.prems(3) by (auto simp: erase_mem_def same_block_iff [OF _ Suc.prems(2)] intro!: arg_cong2 [where f = "after_writes c"])
  ultimately show ?case
    using Suc.prems by (subst erase_loop.simps) (auto intro: runs_eseq)
qed

lemma program_mem_page:
  assumes "a mod 256 + length d \<le> 256"
  shows "program_mem a d m = (\<lambda>x. if a \<le> x \<and> x < a + length d then m x AND d ! (x - a) else m x)"
proof
  fix x
  define q s where "q = a div 256" and "s = a mod 256"
  have a: "a = 256 * q + s" "s < 256" by (simp_all add: q_def s_def)
  show "program_mem a d m x = (if a \<le> x \<and> x < a + length d then m x AND d ! (x - a) else m x)"
  proof (cases "x div 256 = q")
    case True
    then obtain r where x: "x = 256 * q + r" "r < 256" using mult_div_mod_eq [of 256 x] by (metis mod_less_divisor zero_less_numeral)
    have j: "(x + 256 - a mod 256) mod 256 = (if s \<le> r then r - s else 256 + r - s)"
    proof (cases "s \<le> r")
      case True
      have "x + 256 - s = (r - s) + (q + 1) * 256" using True x a by simp
      then have "(x + 256 - s) mod 256 = (r - s) mod 256" by (simp only: mod_mult_self1)
      then show ?thesis using True x by (simp add: s_def [symmetric])
    next
      case False
      have "x + 256 - s = (256 + r - s) + q * 256" using False x a by simp
      then have "(x + 256 - s) mod 256 = (256 + r - s) mod 256" by (simp only: mod_mult_self1)
      then show ?thesis using False x by (simp add: s_def [symmetric])
    qed
    show ?thesis
      unfolding program_mem_def Let_def j using assms a(2) x(2) True
      by (simp add: q_def [symmetric] s_def [symmetric]) (auto simp: a(1) x(1))
  next
    case False
    then have "\<not> (a \<le> x \<and> x < a + length d)"
      using assms a by (auto simp: div_nat_eqI s_def [symmetric])
    with False show ?thesis by (auto simp: program_mem_def Let_def q_def)
  qed
qed

lemma page_chunk_fits:
  assumes "page dvd 256" "page dvd a" "n \<le> (page :: nat)" "0 < page"
  shows "a mod 256 + n \<le> 256"
proof -
  obtain p where p: "256 = page * p" using assms(1) by (rule dvdE)
  obtain q where q: "a mod 256 = page * q" using assms(1,2) by (metis dvdE dvd_mod)
  have "a mod 256 < 256" by simp
  then have "page * q < page * p" using p q by simp
  then have "Suc q \<le> p" by simp
  then have "page * Suc q \<le> 256" unfolding p by (rule mult_le_mono2)
  with q assms(3) show ?thesis by simp
qed

definition programmed :: "nat \<Rightarrow> u8 list \<Rightarrow> nat \<Rightarrow> (nat \<Rightarrow> u8) \<Rightarrow> nat \<Rightarrow> u8" where
  "programmed off data written m =
     (\<lambda>x. if off + written \<le> x \<and> x < off + length data then m x AND data ! (x - off) else m x)"

lemma programmed_step:
  assumes "written + n \<le> length data" "a = off + written"
  shows "programmed off data (written + n)
           (\<lambda>x. if a \<le> x \<and> x < a + n then m x AND take n (drop written data) ! (x - a) else m x)
         = programmed off data written m"
  using assms by (auto simp: programmed_def fun_eq_iff)

lemma runs_program_loop:
  assumes dev: "flash_device P dev f view" and chip: "flash_chip P f"
    and delay: "\<forall>k. nor_delay P k < WRITE_COMPLETE_MAX_POLLS"
    and off: "unat off mod unat (page_size (fl_cfg f)) = 0" "unat off + length data \<le> nor_size P"
  shows "flash_idle P f c \<Longrightarrow> written mod unat (page_size (fl_cfg f)) = 0 \<or> written = length data \<Longrightarrow> written \<le> length data
    \<Longrightarrow> \<exists>k. runs view (program_loop dev f (unat (page_size (fl_cfg f))) off data written) c
         (after_writes c (programmed (unat off) data written (nor_mem c)) k) (Inr (length data))"
proof (induction "length data - written" arbitrary: written c rule: less_induct)
  case less
  let ?page = "unat (page_size (fl_cfg f))"
  note page = flash_chip_page [OF chip] and size = flash_chip_bounds(3) [OF chip]
  show ?case
  proof (cases "written < length data")
    case False
    then have "programmed (unat off) data written (nor_mem c) = nor_mem c" "written = length data"
      using less.prems by (auto simp: programmed_def fun_eq_iff)
    then show ?thesis
      using flash_idleD(2) [OF less.prems(1)] by (intro exI [of _ 0], subst program_loop.simps) (simp add: runs_ret)
  next
    case True
    let ?n = "min ?page (length data - written)"
    let ?chunk = "take ?n (drop written data)"
    let ?a = "unat off + written"
    have lt: "?a < 2 ^ LENGTH(32)" using True off(2) size by simp
    have add: "checked_add off (of_nat written) = Some (of_nat ?a)"
      using lt by (simp add: checked_add_def unat_of_nat take_bit_nat_eq_self)
    have a: "unat (of_nat ?a :: u32) = ?a" unfolding unat_of_nat using lt by (rule mod_less)
    have mod0: "?a mod ?page = 0" using off(1) less.prems(2) True by (metis add_0 less_irrefl mod_add_eq mod_0)
    have fits: "?a mod 256 + length ?chunk \<le> 256"
      using mod0 page by (intro page_chunk_fits [of ?page]) (auto simp: dvd_eq_mod_eq_0)
    let ?c = "after_writes c (program_mem ?a ?chunk (nor_mem c)) 1"
    have step: "runs view (program_page dev f (of_nat ?a) ?chunk) c ?c (Inr (length ?chunk))"
      using True mod0 off(2) page(1) runs_program_page [OF dev less.prems(1) chip delay, of "of_nat ?a" ?chunk]
      unfolding a by simp
    have len: "length ?chunk = ?n" by simp
    have eq: "programmed (unat off) data (written + ?n) (program_mem ?a ?chunk (nor_mem c))
        = programmed (unat off) data written (nor_mem c)"
      unfolding program_mem_page [OF fits] len using True by (intro programmed_step) auto
    have "\<exists>k. runs view (program_loop dev f ?page off data (written + ?n)) ?c
        (after_writes ?c (programmed (unat off) data (written + ?n) (nor_mem ?c)) k) (Inr (length data))"
      using True page(1) less.prems by (intro less.hyps) (auto simp: min_def mod_add_self2)
    then obtain k where "runs view (program_loop dev f ?page off data (written + ?n)) ?c
        (after_writes c (programmed (unat off) data written (nor_mem c)) (1 + k)) (Inr (length data))"
      unfolding after_writes_mem after_writes_trans eq by blast
    then show ?thesis
      using True page(1) runs_eseq [OF step] by (subst program_loop.simps) (auto simp: add Let_def)
  qed
qed

end
