(* ===== verification/Smc_Update.thy ===== *)
theory Smc_Update
  imports Smc_Flash_Runs
begin

unbundle bit_operations_syntax

text \<open>
  The update of a flash region end to end, on a chip that satisfies the contract: erase, program and verify. The
  abstract specification is the memory after the update: the new data in the range, erased bytes in the rest of the
  sectors that it touches, and everything else as before.
\<close>

section \<open>Ranges\<close>

definition erased_range :: "nat \<Rightarrow> nat \<Rightarrow> (nat \<Rightarrow> u8) \<Rightarrow> nat \<Rightarrow> u8" where
  "erased_range off len m = (\<lambda>x. if off div 4096 \<le> x div 4096 \<and> x div 4096 \<le> (off + len - 1) div 4096 then 0xFF else m x)"

definition updated_mem :: "nat \<Rightarrow> u8 list \<Rightarrow> (nat \<Rightarrow> u8) \<Rightarrow> nat \<Rightarrow> u8" where
  "updated_mem off data m =
     (\<lambda>x. if off \<le> x \<and> x < off + length data then data ! (x - off) else erased_range off (length data) m x)"

lemma sector_range_iff:
  assumes "0 < (len :: nat)"
  shows "off div 4096 \<le> x div 4096 \<and> x div 4096 \<le> (off + len - 1) div 4096
     \<longleftrightarrow> off div 4096 * 4096 \<le> x \<and> x < (off + len + 4095) div 4096 * 4096"
proof -
  have "(off + len + 4095) div 4096 = (off + len - 1) div 4096 + 1"
  proof -
    have "off + len + 4095 = (off + len - 1) + 4096" using assms by simp
    then show ?thesis by (simp only: div_add_self2)
  qed
  moreover have "off div 4096 \<le> x div 4096 \<longleftrightarrow> off div 4096 * 4096 \<le> x" by (rule less_eq_div_iff_mult_less_eq) simp
  moreover have "x div 4096 < (off + len - 1) div 4096 + 1 \<longleftrightarrow> x < ((off + len - 1) div 4096 + 1) * 4096"
    by (rule div_less_iff_less_mult) simp
  ultimately show ?thesis by (simp add: less_Suc_eq_le)
qed

lemma runs_erase_range:
  assumes dev: "flash_device P dev f view" and idle: "flash_idle P f c" and chip: "flash_chip P f"
    and delay: "\<forall>k. nor_delay P k < WRITE_COMPLETE_MAX_POLLS"
    and len: "0 < len" "unat off + len \<le> nor_size P"
  shows "\<exists>k. runs view (erase_range dev f off len) c (after_writes c (erased_range (unat off) len (nor_mem c)) k) (Inr ())"
proof -
  let ?s = "unat off div 4096 * 4096" and ?e = "(unat off + len + 4095) div 4096 * 4096"
  obtain q where q: "nor_size P = 4096 * q" using flash_chip_bounds(2) [OF chip] by (rule dvdE)
  note size = flash_chip_bounds(3) [OF chip]
  have "(unat off + len + 4095) div 4096 \<le> (4096 * q + 4095) div 4096" using len(2) q by (intro div_le_mono) simp
  then have e: "?e \<le> nor_size P" unfolding q by simp
  have lim: "unat off + len + 4095 < 2 ^ 32" using size q len(2) by simp
  have le: "?s \<le> ?e" by (intro mult_le_mono1 div_le_mono) simp
  have "?e = ?s + 4096 * ((unat off + len + 4095) div 4096 - unat off div 4096)" 
    using le by (simp add: algebra_simps diff_mult_distrib2)
  then have "runs view (erase_loop dev f 4096 ?e ?s) c (after_writes c
      (\<lambda>x. if ?s \<le> x \<and> x < ?e then 0xFF else nor_mem c x) ((unat off + len + 4095) div 4096 - unat off div 4096)) (Inr ())"
    using e by (intro runs_erase_loop [OF dev chip delay idle]) auto
  moreover have "(\<lambda>x. if ?s \<le> x \<and> x < ?e then 0xFF else nor_mem c x) = erased_range (unat off) len (nor_mem c)"
    unfolding erased_range_def sector_range_iff [OF len(1)] by (rule refl)
  moreover have "erase_range dev f off len = erase_loop dev f 4096 ?e ?s"
    using len lim chip by (simp add: erase_range_def fl_validate_range_ok [OF chip] usize_ok_def USIZE_LIMIT_def
        flash_chip_def lift_simps)
  ultimately show ?thesis by auto
qed

lemma runs_fl_program:
  assumes dev: "flash_device P dev f view" and idle: "flash_idle P f c" and chip: "flash_chip P f"
    and delay: "\<forall>k. nor_delay P k < WRITE_COMPLETE_MAX_POLLS"
    and off: "unat off mod unat (page_size (fl_cfg f)) = 0" "unat off + length data \<le> nor_size P" and data: "data \<noteq> []"
  shows "\<exists>k. runs view (fl_program dev f off data) c
           (after_writes c (programmed (unat off) data 0 (nor_mem c)) k) (Inr (length data))"
proof -
  have "fl_program dev f off data = program_loop dev f (unat (page_size (fl_cfg f))) off data 0"
    using off data flash_chip_page(1) [OF chip]
    by (simp add: fl_program_def fl_validate_range_ok [OF chip] Let_def lift_simps)
  then show ?thesis using runs_program_loop [OF dev chip delay off idle, of 0] by simp
qed

section \<open>Reading back\<close>

lemma runs_fl_read:
  assumes dev: "flash_device P dev f view" and idle: "flash_idle P f c" and chip: "flash_chip P f"
    and n: "0 < n" "unat off + n \<le> nor_size P"
  shows "runs view (fl_read dev f off n) c c (Inr (map (nor_mem c) [unat off..<unat off + n]))"
proof -
  let ?s = "backend_smc (backend f)" and ?b = "flash_window_base (backend_smc (backend f)) (fl_cs f)"
  obtain cc where cc: "cs_slot (smc_cfg ?s) (fl_cs f) = Some cc" "flash_capacity_bytes (Some cc) = Inr (nor_size P)"
    using chip by (rule flash_chip_size)
  have base: "?b + nor_size P \<le> 2 ^ 32" "fl_capacity_bytes f = Inr (nor_size P)" using chip by (simp_all add: flash_chip_def)
  have ok: "cs_config ?s (fl_cs f) = Inr cc" "validate_mapped_range off n (nor_size P) = Inr (unat off)"
    "device_to_controller_offset f off = Inr off" "fl_validate_range f off n = Inr ()"
    using n cc base flash_chip_bounds(3) [OF chip]
    by (simp_all add: cs_config_def validate_mapped_range_ok device_to_controller_offset_def fl_validate_range_ok [OF chip])
  have "runs view (get (win_copy dev (?b + unat off) n)) c c (Inr (map (nor_mem c) [unat off..<unat off + n]) :: (smc_error, u8 list) result)"
  proof (rule runs_get)
    fix h assume "view h = c"
    moreover have "\<not> user_active (nor_ctrl c)" "read_mode P (fl_cs f) c"
      using flash_idleD(5) [OF idle] by (simp_all add: read_mode_def user_active_def)
    ultimately show "view (fst (win_copy dev (?b + unat off) n h)) = c
        \<and> snd (win_copy dev (?b + unat off) n h) = map (nor_mem c) [unat off..<unat off + n]"
      using dev n(2) by (auto simp: nor_device_def)
  qed
  moreover have "(?b + unat off) mod 2 ^ 32 = ?b + unat off" using base n by (intro mod_less) simp
  ultimately show ?thesis
    by (simp add: fl_read_def smc_read_window_def ok cc lift_simps)
qed

lemma runs_compare_loop:
  assumes rd: "\<And>o' n. 0 < n \<Longrightarrow> unat o' + n \<le> cap \<Longrightarrow> runs view (rd o' n) c c (Inr (map m [unat o'..<unat o' + n]))"
    and step: "0 < step" and fits: "unat off + length expected \<le> cap" "cap < 2 ^ 32"
    and same: "\<And>i. i < length expected \<Longrightarrow> m (unat off + i) = expected ! i"
  shows "runs view (compare_loop rd off expected step cursor) c c (Inr True)"
proof (induction "length expected - cursor" arbitrary: cursor rule: less_induct)
  case less
  show ?case
  proof (cases "cursor < length expected")
    case True
    let ?n = "min step (length expected - cursor)" and ?a = "unat off + cursor"
    have lt: "?a < 2 ^ LENGTH(32)" using True fits by simp
    have a: "checked_add off (of_nat cursor) = Some (of_nat ?a)"
      using lt by (simp add: checked_add_def unat_of_nat take_bit_nat_eq_self)
    have u: "unat (of_nat ?a :: u32) = ?a" unfolding unat_of_nat using lt by (rule mod_less)
    have "map m [?a..<?a + ?n] = take ?n (drop cursor expected)"
      using same [of "cursor + _"] True by (intro nth_equalityI) (auto simp: add.assoc)
    then have "runs view (rd (of_nat ?a) ?n) c c (Inr (take ?n (drop cursor expected)))"
      using rd [of ?n "of_nat ?a"] True step fits unfolding u by simp
    moreover have "runs view (compare_loop rd off expected step (cursor + ?n)) c c (Inr True)"
      using True step by (intro less) auto
    ultimately show ?thesis
      using True step by (subst compare_loop.simps) (auto simp: a Let_def intro!: runs_ebind)
  qed (subst compare_loop.simps, simp add: runs_ret)
qed

lemma runs_fl_verify:
  assumes dev: "flash_device P dev f view" and idle: "flash_idle P f c" and chip: "flash_chip P f"
    and fits: "unat off + length expected \<le> nor_size P"
    and same: "\<And>i. i < length expected \<Longrightarrow> nor_mem c (unat off + i) = expected ! i"
  shows "runs view (fl_verify dev f off expected) c c (Inr True)"
proof -
  have "runs view (compare_loop (fl_read dev f) off expected 256 0) c c (Inr True)"
    using runs_compare_loop [OF runs_fl_read [OF dev idle chip] _ fits _ same] flash_chip_bounds(3) [OF chip] by simp
  then show ?thesis
    using fits by (simp add: fl_verify_def compare_chunked_def fl_validate_range_ok [OF chip] lift_simps)
qed

section \<open>The update\<close>

lemma erased_and: "(0xFF :: u8) AND b = b"
proof -
  have "(0xFF :: u8) = - 1" by simp
  then show ?thesis by (simp only: and.left_neutral)
qed

lemma updated_mem_alt: "programmed off data 0 (erased_range off (length data) m) = updated_mem off data m"
proof
  fix x
  have "off div 4096 \<le> x div 4096 \<and> x div 4096 \<le> (off + length data - 1) div 4096" if "off \<le> x" "x < off + length data"
    using that by (auto intro!: div_le_mono)
  then show "programmed off data 0 (erased_range off (length data) m) x = updated_mem off data m x"
    by (auto simp: programmed_def updated_mem_def erased_range_def erased_and)
qed

lemma runs_update_region:
  assumes dev: "flash_device P dev f view" and idle: "flash_idle P f c" and chip: "flash_chip P f"
    and delay: "\<forall>k. nor_delay P k < WRITE_COMPLETE_MAX_POLLS"
    and off: "unat off mod unat (page_size (fl_cfg f)) = 0" "unat off + length data \<le> nor_size P" and data: "data \<noteq> []"
  shows "\<exists>k. runs view (update_region dev f off data) c
           (after_writes c (updated_mem (unat off) data (nor_mem c)) k) (Inr (length data))"
proof -
  obtain j where er: "runs view (erase_range dev f off (length data)) c
      (after_writes c (erased_range (unat off) (length data) (nor_mem c)) j) (Inr ())" (is "runs _ _ _ ?c1 _")
    using runs_erase_range [OF dev idle chip delay, of "length data" off] off data by auto
  obtain k where pr: "runs view (fl_program dev f off data) ?c1
      (after_writes c (updated_mem (unat off) data (nor_mem c)) (j + k)) (Inr (length data))" (is "runs _ _ _ ?c2 _")
    using runs_fl_program [OF dev flash_idle_after [OF idle, of "erased_range (unat off) (length data) (nor_mem c)" j]
        chip delay off data] by (auto simp: updated_mem_alt)
  have "runs view (fl_verify dev f off data) ?c2 ?c2 (Inr True)"
    using off(2) by (intro runs_fl_verify [OF dev flash_idle_after [OF idle] chip]) (simp_all add: updated_mem_def)
  then have "runs view (update_region dev f off data) c ?c2 (Inr (length data))"
    using data by (auto simp: update_region_def intro!: runs_eseq [OF er] runs_ebind [OF pr] runs_ret elim: runs_ebind)
  then show ?thesis by blast
qed

text \<open>
  C33: An update of a flash region on a chip that satisfies the contract succeeds and is exact: for data that is not empty,
  at an offset on a page boundary and inside the chip, and a chip that is never busy for as many status reads as
  the driver makes, \<open>update_region\<close> returns the number of bytes; afterwards the range holds the data, the rest of
  the sectors that the range touches is erased, every other byte of the chip is unchanged, and the controller and the
  chip are again in the idle read mode.
\<close>

theorem update_region_exact:
  assumes "flash_device P dev f view" "flash_chip P f" "flash_idle P f (view h)"
    and "\<forall>k. nor_delay P k < WRITE_COMPLETE_MAX_POLLS"
    and "data \<noteq> []" "unat off mod unat (page_size (fl_cfg f)) = 0" "unat off + length data \<le> nor_size P"
  shows "\<exists>h'. update_region dev f off data h = (h', Inr (length data))
           \<and> nor_mem (view h') = updated_mem (unat off) data (nor_mem (view h)) \<and> flash_idle P f (view h')"
proof -
  obtain k where "runs view (update_region dev f off data) (view h)
      (after_writes (view h) (updated_mem (unat off) data (nor_mem (view h))) k) (Inr (length data))"
    using runs_update_region [OF assms(1,3,2,4,6,7,5)] by blast
  then show ?thesis using flash_idle_after [OF assms(3)] by (fastforce dest: runsD)
qed

text \<open>
  C38: A non-empty update that lies within the chip and starts at an offset that is not on a page boundary is refused
  only after the erase: \<open>update_region\<close> returns \<open>InvalidCapacity\<close>, and all sectors that the range touches, and no
  others, have lost their contents. Conditions: a chip that behaves like the NOR machine (\<open>nor_device\<close>), with the configured
  capacity, sectors of 4096 bytes and a page size that divides 256; controller and chip idle in read mode; no
  erase keeps the chip busy for as many status reads as the driver's limit.
\<close>

theorem misaligned_update_erases:
  assumes "flash_device P dev f view" "flash_chip P f" "flash_idle P f (view h)"
    and "\<forall>k. nor_delay P k < WRITE_COMPLETE_MAX_POLLS"
    and "data \<noteq> []" "unat off mod unat (page_size (fl_cfg f)) \<noteq> 0" "unat off + length data \<le> nor_size P"
  shows "\<exists>h'. update_region dev f off data h = (h', Inl SmcInvalidCapacity)
           \<and> nor_mem (view h') = erased_range (unat off) (length data) (nor_mem (view h))"
proof -
  obtain k where er: "runs view (erase_range dev f off (length data)) (view h)
      (after_writes (view h) (erased_range (unat off) (length data) (nor_mem (view h))) k) (Inr ())" (is "runs _ _ _ ?c _")
    using runs_erase_range [OF assms(1,3,2,4), of "length data" off] assms(5,7) by auto
  have "runs view (fl_program dev f off data) ?c ?c (Inl SmcInvalidCapacity)"
    using assms(5,6) by (simp add: fl_program_def runs_fail)
  then have "runs view (update_region dev f off data) (view h) ?c (Inl SmcInvalidCapacity)"
    using assms(5) by (auto simp: update_region_def intro: runs_eseq [OF er] runs_ebind_err)
  then show ?thesis by (fastforce dest: runsD)
qed

section \<open>Witnesses\<close>

text \<open>A one-megabyte chip on the first chip select of the FMC.\<close>

definition demo_cfg :: flash_config where
  "demo_cfg = \<lparr>capacity_mb = 1, page_size = 256, sector_size = 4096, block_size = 65536, spi_clock_mhz = 25\<rparr>"

definition demo_chip_params :: nor_params where
  "demo_chip_params = \<lparr>nor_size = 1048576, nor_id = [0xEF, 0x40, 0x14], nor_delay = (\<lambda>k. k mod 7)\<rparr>"

definition demo_smc :: smc where
  "demo_smc = \<lparr>smc_controller_id = SmcFmc,
     smc_cfg = \<lparr>cfg_controller_id = SmcFmc, cfg_cs0 = Some demo_cfg, cfg_cs1 = None, dma_enabled = False,
                enable_interrupts = False, topology = BootSpi 0\<rparr>,
     smc_st = SmcIdle, smc_normal_read_ctrl = (0x406B0041, 0), smc_flash_window_base = (0x80000000, 0x80100000)\<rparr>"

definition demo_flash :: spi_nor_flash where
  "demo_flash = flash_on (BackendFmc demo_smc) demo_cfg Cs0"

definition demo_chip :: nor_chip where
  "demo_chip = \<lparr>nor_mem = (\<lambda>x. 0x55), nor_wel = False, nor_busy = 0, nor_ops = 0, nor_ctrl = 0x406B0041, nor_aw = 0,
     nor_sent = [], nor_out = 0\<rparr>"

abbreviation demo_dev :: "(nor_chip \<times> (smc_reg \<Rightarrow> u32)) smc_dev" where
  "demo_dev \<equiv> nor_sim demo_chip_params Cs0 0x80000000"

lemma demo_flash_device: "flash_device demo_chip_params demo_dev demo_flash fst"
proof -
  have "fl_cs demo_flash = Cs0" "flash_window_base (backend_smc (backend demo_flash)) Cs0 = 0x80000000"
    by (simp_all add: demo_flash_def flash_on_def demo_smc_def flash_window_base_def Let_def)
  then show ?thesis using nor_sim_ok by simp
qed

lemmas demo_defs = demo_cfg_def demo_chip_params_def demo_smc_def demo_flash_def demo_chip_def flash_on_def Let_def

lemma demo_flash_chip: "flash_chip demo_chip_params demo_flash"
  by (simp add: flash_chip_def demo_defs fl_capacity_bytes_def smc_cs_capacity_bytes_def cs_capacity_bytes_def cs_slot_def
      flash_capacity_bytes_def usize_ok_def USIZE_LIMIT_def default_addressing_for_cfg_def flash_window_base_def)

lemma demo_flash_idle: "flash_idle demo_chip_params demo_flash demo_chip"
  by (simp add: flash_idle_def idle_chip_def read_mode_def demo_defs cs_slot_def normal_read_ctrl_def)

lemma demo_delay: "\<forall>k. nor_delay demo_chip_params k < WRITE_COMPLETE_MAX_POLLS"
proof
  fix k :: nat
  have "k mod 7 < 7" by simp
  then show "nor_delay demo_chip_params k < WRITE_COMPLETE_MAX_POLLS"
    by (simp add: demo_chip_params_def WRITE_COMPLETE_MAX_POLLS_def)
qed

theorem update_region_exact_witness:
  "\<exists>h'. update_region demo_dev demo_flash 0x1F00 [1, 2, 3] (demo_chip, \<lambda>_. 0) = (h', Inr 3)
     \<and> nor_mem (fst h') = updated_mem 0x1F00 [1, 2, 3] (\<lambda>_. 0x55)"
  using update_region_exact [OF demo_flash_device demo_flash_chip, where h = "(demo_chip, \<lambda>_. 0)" and data = "[1, 2, 3]" and off = "0x1F00"]
    demo_flash_idle demo_delay by (auto simp: demo_defs)

theorem misaligned_update_erases_witness:
  "\<exists>h'. update_region demo_dev demo_flash 0x1F01 [1, 2, 3] (demo_chip, \<lambda>_. 0) = (h', Inl SmcInvalidCapacity)
     \<and> nor_mem (fst h') 0x1000 = 0xFF \<and> nor_mem (fst h') 0x2000 = 0x55"
  using misaligned_update_erases [OF demo_flash_device demo_flash_chip, where h = "(demo_chip, \<lambda>_. 0)" and data = "[1, 2, 3]" and off = "0x1F01"]
    demo_flash_idle demo_delay by (auto simp: demo_defs erased_range_def)

end
