(* ===== verification/Smc_Read_Init.thy ===== *)
theory Smc_Read_Init
  imports Smc_Update
begin

unbundle bit_operations_syntax

text \<open>
  Bringing the controller into read mode: the clock divider, \<open>configure_timing\<close>, the timing calibration and
  \<open>spi_nor_read_init\<close>. The calibration talks to the DMA engine and its outcome depends on measurements, but it only
  changes the frequency field of the control register of the chip select. With a DMA arbiter that grants requests
  \<open>spi_nor_read_init\<close> succeeds; the window then shows the memory of the chip, and a flash that is built on the
  controller is ready for use.
\<close>

section \<open>The clock divider\<close>

lemma freq_code_mask:
  assumes "i < 15" "j < 16"
  shows "freq_code (i, j) AND NOT SPI_CTRL_FREQ_MASK = 0"
proof -
  have "push_bit 24 (of_nat i :: u32) AND NOT SPI_CTRL_FREQ_MASK = 0"
  proof -
    have "\<forall>i \<in> set [0..<15]. push_bit 24 (of_nat i :: u32) AND NOT SPI_CTRL_FREQ_MASK = 0"
      by (simp add: SPI_CTRL_FREQ_MASK_def upt_rec)
    with assms(1) show ?thesis by simp
  qed
  moreover have "push_bit 8 (div_arr ! j) AND NOT SPI_CTRL_FREQ_MASK = 0"
  proof -
    have "\<forall>v \<in> set div_arr. push_bit 8 v AND NOT SPI_CTRL_FREQ_MASK = 0"
      by (simp add: SPI_CTRL_FREQ_MASK_def div_arr_def)
    with assms(2) show ?thesis by (simp add: div_arr_def [THEN arg_cong, of length])
  qed
  ultimately show ?thesis by (simp add: freq_code_def bit.conj_disj_distrib2)
qed

text \<open>The divisor that a frequency field stands for.\<close>

definition decode_divisor :: "u32 \<Rightarrow> nat" where
  "decode_divisor code =
     (case position (\<lambda>v. v = drop_bit 8 code AND 0xf) div_arr of
        Some j \<Rightarrow> j + 1 + unat (drop_bit 24 code AND 0xf) * 16
      | None \<Rightarrow> 0)"

lemma div_pairs_divisors: "map freq_divisor div_pairs = [2..<241]"
  by code_simp

lemma decode_freq_code: "p \<in> set div_pairs \<Longrightarrow> decode_divisor (freq_code p) = freq_divisor p"
proof -
  have "list_all (\<lambda>p. decode_divisor (freq_code p) = freq_divisor p) div_pairs" by code_simp
  then show "p \<in> set div_pairs \<Longrightarrow> decode_divisor (freq_code p) = freq_divisor p" by (simp add: list_all_iff)
qed

lemma find_div_pairs:
  assumes "find (divisor_fits sys f) div_pairs = Some p"
  shows "p \<in> set div_pairs" "2 \<le> freq_divisor p" "unat f * freq_divisor p < 2 ^ 32" "unat sys \<le> unat f * freq_divisor p"
    "\<And>d. 2 \<le> d \<Longrightarrow> d < freq_divisor p \<Longrightarrow> unat f * d < unat sys"
proof -
  obtain i where i: "i < length div_pairs" "p = div_pairs ! i" "divisor_fits sys f p"
      "\<forall>j < i. \<not> divisor_fits sys f (div_pairs ! j)"
    using assms by (auto simp: find_Some_iff)
  have len: "length div_pairs = 239" using arg_cong [OF div_pairs_divisors, of length] by simp
  have nth: "freq_divisor (div_pairs ! j) = j + 2" if "j < 239" for j
  proof -
    have "freq_divisor (div_pairs ! j) = map freq_divisor div_pairs ! j" using that len by (simp only: nth_map)
    also have "\<dots> = 2 + j" unfolding div_pairs_divisors using that by (intro nth_upt) simp
    finally show ?thesis by simp
  qed
  show p: "p \<in> set div_pairs" "2 \<le> freq_divisor p" using i len nth by auto
  show b: "unat f * freq_divisor p < 2 ^ 32" "unat sys \<le> unat f * freq_divisor p" using i(3) by (auto simp: divisor_fits_def)
  fix d assume d: "2 \<le> d" "d < freq_divisor p"
  then have "\<not> divisor_fits sys f (div_pairs ! (d - 2))" "freq_divisor (div_pairs ! (d - 2)) = d"
    using i len nth by auto
  moreover have "unat f * d < 2 ^ 32" using b(1) d(2) by (meson le_less_trans less_imp_le mult_le_mono2)
  ultimately show "unat f * d < unat sys" by (auto simp: divisor_fits_def)
qed

lemma spi_freq_div_mask:
  assumes "spi_freq_div sys f = Inr code"
  shows "code AND NOT SPI_CTRL_FREQ_MASK = 0"
proof -
  have "freq_code p AND NOT SPI_CTRL_FREQ_MASK = 0" if "p \<in> set div_pairs" for p
  proof -
    obtain i j where "p = (i, j)" by (cases p)
    with that show ?thesis by (auto simp: div_pairs_def intro: freq_code_mask)
  qed
  then show ?thesis
    using assms by (auto simp: spi_freq_div_def dest: find_div_pairs(1) split: if_splits option.splits)
qed

lemma divisor_240: "(14, 15) \<in> set div_pairs" "freq_divisor (14, 15) = 240"
  by (simp_all add: div_pairs_def freq_divisor_def)

text \<open>
  The clock divider keeps the flash clock within its limit. For a limit of at least 1 MHz (and below \<open>2 ^ 24\<close> MHz)
  and the system clock of 200 MHz, \<open>spi_freq_div\<close> returns a value inside the frequency field of the control
  register; the divisor it stands for is the smallest from 2 on that brings the clock down to the limit.
\<close>

theorem spi_freq_div_least:
  assumes "0 < f" "f < 0x1000000"
  shows "\<exists>code. spi_freq_div SYSCLK_MHZ f = Inr code \<and> code AND NOT SPI_CTRL_FREQ_MASK = 0
           \<and> 2 \<le> decode_divisor code \<and> 200 \<le> unat f * decode_divisor code
           \<and> (\<forall>d. 2 \<le> d \<and> d < decode_divisor code \<longrightarrow> unat f * d < 200)"
proof -
  have f: "1 \<le> unat f" "unat f < 0x1000000"
    using assms by (simp_all add: word_less_nat_alt Suc_le_eq unat_gt_0)
  then have "divisor_fits SYSCLK_MHZ f (14, 15)" by (simp add: divisor_fits_def divisor_240 SYSCLK_MHZ_def)
  then obtain p where p: "find (divisor_fits SYSCLK_MHZ f) div_pairs = Some p"
    using divisor_240(1) by (metis find_None_iff not_Some_eq)
  then have c: "spi_freq_div SYSCLK_MHZ f = Inr (freq_code p)" using f by (auto simp: spi_freq_div_def)
  note fp = find_div_pairs [OF p]
  have d: "decode_divisor (freq_code p) = freq_divisor p" using fp(1) by (rule decode_freq_code)
  show ?thesis
    using c spi_freq_div_mask [OF c] fp(2,4,5) unfolding d [symmetric] by (auto simp: SYSCLK_MHZ_def)
qed

theorem spi_freq_div_least_witness:
  "\<exists>code. spi_freq_div SYSCLK_MHZ 25 = Inr code \<and> 200 \<le> 25 * decode_divisor code"
  using spi_freq_div_least [of 25] by auto

section \<open>Timing\<close>

lemma keeps_smc_get [keeps_intros]: "nor_device P dev cs base view \<Longrightarrow> keeps view (smc_get dev r)"
  by (auto simp: smc_get_def nor_device_def intro: keeps_get)

lemma keeps_smc_put:
  "nor_device P dev cs base view \<Longrightarrow> r \<noteq> cs_ctrl_reg cs \<Longrightarrow> r \<noteq> FMC004 \<Longrightarrow> keeps view (smc_put dev r v)"
  by (auto simp: smc_put_def nor_device_def nor_set_reg_def intro: keeps_act)

lemma ctrl_reg_neq: "r \<in> {FMC080, FMC084, FMC08C, FMC094, FMC098} \<Longrightarrow> r \<noteq> cs_ctrl_reg cs \<and> r \<noteq> FMC004"
  by (cases cs) (auto simp: cs_ctrl_reg_def)

lemma keeps_dma_put [keeps_intros]:
  "nor_device P dev cs base view \<Longrightarrow> r \<in> {FMC080, FMC084, FMC08C, FMC094, FMC098} \<Longrightarrow> keeps view (smc_put dev r v)"
  using ctrl_reg_neq keeps_smc_put by metis

lemma keeps_poll_blocking [keeps_intros]:
  "nor_device P dev cs base view \<Longrightarrow> keeps view (poll_blocking_dma_completion dev n)"
  by (induction n) (auto intro!: keeps_intros)

lemma keeps_dma_checksum [keeps_intros]:
  assumes "nor_device P dev cs base view"
  shows "keeps view (spi_dma_checksum fuel dev s cs' d delay)"
  unfolding spi_dma_checksum_def acquire_dma_arbiter_def disable_dma_def
  by (intro keeps_intros keeps_dma_put [OF assms] keeps_smc_get [OF assms] keeps_poll_blocking [OF assms]) auto

lemma keeps_calib_scan [keeps_intros]:
  "nor_device P dev cs base view \<Longrightarrow> keeps view (calib_scan fuel dev s cs' m g ps res)"
  by (induction fuel dev s cs' m g ps res rule: calib_scan.induct) (auto simp: Let_def intro!: keeps_intros)

lemma keeps_timing_sweep [keeps_intros]:
  assumes "nor_device P dev cs base view"
  shows "keeps view (timing_sweep fuel dev s cs' g freq steps)"
proof (induction steps arbitrary: freq)
  case (Cons st steps)
  have "timing_reg cs' \<in> {FMC080, FMC084, FMC08C, FMC094, FMC098}" by (cases cs') (simp_all add: timing_reg_def)
  with Cons show ?case
    by (cases st) (auto simp: Let_def write_cs_timing_compensation_def
        intro!: keeps_ebind keeps_eseq keeps_ret keeps_dma_checksum [OF assms] keeps_calib_scan [OF assms] keeps_dma_put [OF assms])
qed (simp add: keeps_ret)

lemma runs_own_reg:
  assumes "nor_device P dev cs base view" "nor_get_reg cs r c = Some v"
  shows "runs view (smc_get dev r) c c (Inr v)"
  unfolding smc_get_def
proof (rule runs_get)
  fix h assume "view h = c"
  moreover have "view (fst (smc_read dev r h)) = view h
      \<and> (case nor_get_reg cs r (view h) of None \<Rightarrow> True | Some v \<Rightarrow> snd (smc_read dev r h) = v)"
    using assms(1) by (simp add: nor_device_def)
  ultimately show "view (fst (smc_read dev r h)) = c \<and> snd (smc_read dev r h) = v" using assms(2) by simp
qed

lemma runs_read_cs_ctrl:
  "nor_device P dev cs base view \<Longrightarrow> runs view (read_cs_ctrl dev cs) c c (Inr (nor_ctrl c))"
  unfolding read_cs_ctrl_def by (rule runs_own_reg) (auto simp: nor_get_reg_def)

text \<open>A chip that takes no part in a transfer, and the same chip with another normal-read setting.\<close>

definition quiet :: "nor_chip \<Rightarrow> bool" where
  "quiet c \<longleftrightarrow> \<not> user_active (nor_ctrl c) \<and> nor_sent c = [] \<and> nor_out c = 0"

lemma quiet_set_ctrl: "quiet c \<Longrightarrow> nor_set_ctrl P v c = c\<lparr>nor_ctrl := v\<rparr>"
  by (cases c) (simp add: quiet_def nor_set_ctrl_def)

definition set_freq :: "u32 \<Rightarrow> u32 \<Rightarrow> u32" where
  "set_freq v code = (v AND NOT SPI_CTRL_FREQ_MASK) OR code"

lemma set_freq_and:
  "code AND NOT SPI_CTRL_FREQ_MASK = 0 \<Longrightarrow> SPI_CTRL_FREQ_MASK AND k = 0 \<Longrightarrow> set_freq v code AND k = v AND k"
  by (auto simp: set_freq_def bit_eq_iff bit_simps)

lemma set_freq_low: "code AND NOT SPI_CTRL_FREQ_MASK = 0 \<Longrightarrow> set_freq v code AND 7 = v AND 7"
  by (rule set_freq_and) (simp_all add: SPI_CTRL_FREQ_MASK_def)

lemma set_freq_opcode:
  assumes "code AND NOT SPI_CTRL_FREQ_MASK = 0"
  shows "drop_bit 16 (set_freq v code) AND 0xff = drop_bit 16 v AND 0xff"
proof -
  have "set_freq v code AND 0xff0000 = v AND 0xff0000"
    using assms by (rule set_freq_and) (simp add: SPI_CTRL_FREQ_MASK_def)
  then have "drop_bit 16 (set_freq v code AND 0xff0000) = drop_bit 16 (v AND 0xff0000)" by simp
  then show ?thesis by (simp only: drop_bit_and) simp
qed

lemma set_freq_twice: "set_freq (v AND NOT SPI_CTRL_FREQ_MASK) code = set_freq v code"
  by (simp add: set_freq_def and.assoc)

definition timed :: "chip_select \<Rightarrow> smc \<Rightarrow> nor_chip \<Rightarrow> unit \<Rightarrow> smc \<times> nor_chip \<Rightarrow> bool" where
  "timed cs s c = (\<lambda>_ (s', c'). \<exists>code. code AND NOT SPI_CTRL_FREQ_MASK = 0
     \<and> c' = c\<lparr>nor_ctrl := set_freq (nor_ctrl c) code\<rparr> \<and> s' = set_normal_read_ctrl cs (set_freq (nor_ctrl c) code) s)"

lemma post_configure_timing:
  assumes dev: "nor_device P dev cs base view" and c: "quiet c"
  shows "post (map_prod id view) (configure_timing dev cs f) (s, c) (timed cs s c)"
  unfolding configure_timing_def
proof (rule post_ebind [OF post_lift])
  fix code c1 assume "spi_freq_div SYSCLK_MHZ f = Inr code \<and> c1 = (s, c)"
  then have code: "code AND NOT SPI_CTRL_FREQ_MASK = 0" and c1: "c1 = (s, c)" by (auto dest: spi_freq_div_mask)
  show "post (map_prod id view)
     (ebind (hw (read_cs_ctrl dev cs)) (\<lambda>reg.
       eseq (hw (write_cs_ctrl dev cs ((reg AND NOT SPI_CTRL_FREQ_MASK) OR code)))
         (ebind (hw (read_cs_ctrl dev cs)) (\<lambda>v. upd (set_normal_read_ctrl cs v))))) c1 (timed cs s c)"
    unfolding c1
    by (rule post_runs [OF runs_ebind [OF runs_hw [OF runs_read_cs_ctrl [OF dev]]
          runs_eseq [OF runs_hw [OF runs_write_cs_ctrl [OF dev]] runs_ebind [OF runs_hw [OF runs_read_cs_ctrl [OF dev]] runs_upd]]]])
      (use code in \<open>auto simp: timed_def quiet_set_ctrl [OF c] set_freq_def\<close>)
qed simp

lemma keeps_win_copy:
  assumes "nor_device P dev cs base view" "quiet c"
  shows "post (map_prod id view) (hw (get (win_copy dev a n))) (s, c) (\<lambda>_ sc. sc = (s, c))"
proof -
  have "view (fst (win_copy dev a n h)) = view h" if "view h = c" for h
    using assms that by (auto simp: nor_device_def quiet_def)
  then show ?thesis by (fastforce simp: post_def hw_def get_def case_prod_unfold Let_def)
qed

lemma post_timing_calibration:
  assumes dev: "nor_device P dev cs base view" and c: "quiet c"
  shows "post (map_prod id view) (timing_calibration fuel dev cs) (s, c) (timed cs s c)"
proof -
  let ?v = "nor_ctrl c AND NOT SPI_CTRL_FREQ_MASK"
  let ?c = "c\<lparr>nor_ctrl := ?v\<rparr>"
  have "user_active ?v = user_active (nor_ctrl c)"
    using set_freq_low [of 0 "nor_ctrl c"] by (simp add: user_active_def set_freq_def)
  then have c': "quiet ?c" using c by (simp add: quiet_def)
  have t: "timed cs s ?c = timed cs s c" by (simp add: timed_def set_freq_twice)
  have fin: "post (map_prod id view) (map_err SmcErr (configure_timing dev cs f)) (s, c) (timed cs s c)" for f
    using post_configure_timing [OF dev c] by (rule post_map_err)
  have fin': "post (map_prod id view) (map_err SmcErr (configure_timing dev cs f)) (s, ?c) (timed cs s c)" for f
    using post_configure_timing [OF dev c', where s = s] unfolding t by (rule post_map_err)
  have "post (map_prod id view) (ebind (hw (spi_dma_checksum fuel dev s cs 0 0)) (\<lambda>gold.
      eseq (hw (run_timing_sweep fuel dev s cs cc gold)) (map_err SmcErr (configure_timing dev cs (spi_clock_mhz cc)))))
      (s, ?c) (timed cs s c)" for cc
    unfolding run_timing_sweep_def
    by (intro post_ebind_keeps post_eseq_keeps keeps_hw keeps_dma_checksum [OF dev] keeps_timing_sweep [OF dev] fin')
  note sweep = this
  show ?thesis
    unfolding timing_calibration_def already_calibrated_def
    apply (rule post_ebind_runs [OF runs_self])
    apply (rule post_ebind_keeps, intro keeps_map_err keeps_lift)
    apply (rule post_ebind_keeps, intro keeps_hw keeps_ebind keeps_smc_get [OF dev] keeps_ret)
    apply (rule post_if, rule fin, rule post_if, rule fin)
    apply (rule post_ebind_runs [OF runs_hw [OF runs_read_cs_ctrl [OF dev]]])
    apply (rule post_eseq_runs [OF runs_hw [OF runs_write_cs_ctrl [OF dev]]], unfold quiet_set_ctrl [OF c])
    apply (rule post_ebind [OF keeps_win_copy [OF dev c']], simp)
    apply (rule post_ebind_keeps, intro keeps_map_err keeps_lift)
    apply (rule post_if, rule fin', rule sweep)
    done
qed

section \<open>Read mode\<close>

lemma read_cmd_low: "read_cmd_for n AND 7 = 1"
  by (simp add: read_cmd_for_def spi_nor_qread_cmd_for_capacity_def SPI_NOR_CMD_QREAD_4B_def SPI_NOR_CMD_QREAD_def
      ASPEED_SPI_NORMAL_READ_def data_io_bits_def)

lemma read_cmd_opcode: "drop_bit 16 (read_cmd_for n) AND 0xff = (if n > 0x1000000 then 0x6C else 0x6B)"
  by (simp add: read_cmd_for_def spi_nor_qread_cmd_for_capacity_def SPI_NOR_CMD_QREAD_4B_def SPI_NOR_CMD_QREAD_def
      ASPEED_SPI_NORMAL_READ_def data_io_bits_def SPI_NOR_4B_READ_THRESHOLD_BYTES_def)

lemma read_cmd_value: "read_cmd_for n = (if n > 0x1000000 then 0x406C0041 else 0x406B0041)"
  by (simp add: read_cmd_for_def spi_nor_qread_cmd_for_capacity_def SPI_NOR_CMD_QREAD_4B_def SPI_NOR_CMD_QREAD_def
      ASPEED_SPI_NORMAL_READ_def data_io_bits_def SPI_NOR_4B_READ_THRESHOLD_BYTES_def)

lemma set_freq_read_cmd:
  assumes "code AND NOT SPI_CTRL_FREQ_MASK = 0"
  shows "set_freq (read_cmd_for n) code AND 0xF0FFF0FF = (if n > 0x1000000 then 0x406C0041 else 0x406B0041)"
  using set_freq_and [OF assms, of "0xF0FFF0FF" "read_cmd_for n"] by (simp add: read_cmd_value SPI_CTRL_FREQ_MASK_def)

lemma addr_width_reg_ok:
  "spi_nor_addr_width_reg w cs (spi_nor_uses_4b_addr n) AND spi_nor_addr_width_mask cs
     = (if n > 0x1000000 then spi_nor_addr_width_mask cs else 0)"
  by (auto simp: spi_nor_addr_width_reg_def spi_nor_uses_4b_addr_def SPI_NOR_4B_READ_THRESHOLD_BYTES_def bit_eq_iff bit_simps)

lemma post_spi_nor_read_init:
  assumes dev: "nor_device P dev cs base view" and c: "quiet c" "nor_busy c = 0"
    and cap: "smc_cs_capacity_bytes s cs = Inr (nor_size P)"
  shows "post (map_prod id view) (spi_nor_read_init fuel dev cs) (s, c)
    (\<lambda>_ (s', c'). \<exists>v. s' = set_normal_read_ctrl cs v s \<and> nor_ctrl c' = v \<and> read_mode P cs c' \<and> quiet c' \<and> nor_mem c' = nor_mem c
       \<and> v AND 0xF0FFF0FF = (if nor_size P > 0x1000000 then 0x406C0041 else 0x406B0041))"
    (is "post _ _ _ ?Q")
proof -
  let ?v = "read_cmd_for (nor_size P)"
  let ?a = "spi_nor_addr_width_reg (nor_aw c) cs (spi_nor_uses_4b_addr (nor_size P))"
  let ?s = "set_normal_read_ctrl cs ?v s"
  let ?c = "c\<lparr>nor_ctrl := ?v, nor_aw := ?a\<rparr>"
  have q: "quiet ?c" using c(1) read_cmd_low by (simp add: quiet_def user_active_def)
  have fin: "?Q x sc" if t: "timed cs ?s ?c x sc" for x sc
  proof -
    obtain code where code: "code AND NOT SPI_CTRL_FREQ_MASK = 0"
      and sc: "sc = (set_normal_read_ctrl cs (set_freq ?v code) ?s, ?c\<lparr>nor_ctrl := set_freq ?v code\<rparr>)"
      using t unfolding timed_def by (auto simp: case_prod_unfold prod_eq_iff)
    have "set_normal_read_ctrl cs (set_freq ?v code) ?s = set_normal_read_ctrl cs (set_freq ?v code) s"
      by (cases cs) (simp_all add: set_normal_read_ctrl_def)
    then show ?thesis
      using q c(2) unfolding sc
      by (auto simp: read_mode_def quiet_def user_active_def set_freq_low [OF code] set_freq_opcode [OF code]
          read_cmd_low read_cmd_opcode addr_width_reg_ok set_freq_read_cmd [OF code])
  qed
  have put: "runs (map_prod id view) (hw (smc_put dev FMC004 ?a)) (s, c\<lparr>nor_ctrl := ?v\<rparr>) (s, ?c) (Inr () :: (smc_fault, unit) result)"
    using runs_hw [OF runs_smc_put [OF dev, of FMC004 ?a "c\<lparr>nor_ctrl := ?v\<rparr>"]]
    by (cases cs) (simp_all add: nor_set_reg_def cs_ctrl_reg_def)
  have aw: "runs view (smc_get dev FMC004) (c\<lparr>nor_ctrl := ?v\<rparr>) (c\<lparr>nor_ctrl := ?v\<rparr>) (Inr (nor_aw c) :: (smc_fault, u32) result)"
    by (rule runs_own_reg [OF dev]) (cases cs; simp add: nor_get_reg_def cs_ctrl_reg_def)
  have t1: "post (map_prod id view) (map_err SmcErr (configure_timing dev cs f)) (?s, ?c) ?Q" for f
    using post_configure_timing [OF dev q] by (intro post_map_err) (rule post_mono [OF _ fin])
  have t2: "post (map_prod id view) (timing_calibration fuel dev cs) (?s, ?c) ?Q"
    using post_timing_calibration [OF dev q] by (rule post_mono [OF _ fin])
  show ?thesis
    unfolding spi_nor_read_init_def
    apply (rule post_ebind_runs [OF runs_self])
    apply (unfold cap map_err_lift lift_simps)
    apply (rule post_eseq_runs [OF runs_hw [OF runs_write_cs_ctrl [OF dev]]], unfold quiet_set_ctrl [OF c(1)])
    apply (rule post_ebind_runs [OF runs_hw [OF aw]], rule post_eseq_runs [OF put], rule post_eseq_runs [OF runs_upd])
    apply (intro post_if post_ebind_keeps t1 t2 keeps_map_err keeps_lift conjI impI)
    done
qed

section \<open>A flash on an initialised controller\<close>

lemma set_normal_read_ctrl_fields [simp]:
  "smc_cfg (set_normal_read_ctrl cs v s) = smc_cfg s" "smc_st (set_normal_read_ctrl cs v s) = smc_st s"
  "smc_flash_window_base (set_normal_read_ctrl cs v s) = smc_flash_window_base s"
  "normal_read_ctrl (set_normal_read_ctrl cs v s) cs = v"
  by (cases cs; simp add: set_normal_read_ctrl_def normal_read_ctrl_def)+

lemma from_fmc_cs_ok:
  "from_fmc_cs s cfg cs = Inr f \<longleftrightarrow> cs_slot (smc_cfg s) cs = Some cfg \<and> f = flash_on (BackendFmc s) cfg cs"
  by (auto simp: from_fmc_cs_def cs_config_def validate_capacity_cfg_def split: option.splits)

lemma from_spi_cs_ok:
  "from_spi_cs s cfg cs = Inr f \<longleftrightarrow> cs_slot (smc_cfg s) cs = Some cfg \<and> f = flash_on (BackendSpi s) cfg cs"
  by (auto simp: from_spi_cs_def cs_config_def validate_capacity_cfg_def split: option.splits)

lemma flash_on_chip:
  assumes "cs_slot (smc_cfg s) cs = Some cfg" "flash_capacity_bytes (Some cfg) = Inr (nor_size P)" "backend_smc b = s"
    and "0 < nor_size P" "sector_size cfg = 4096" "unat (page_size cfg) dvd 256" "page_size cfg \<noteq> 0"
    and "flash_window_base s cs + nor_size P \<le> 2 ^ 32"
  shows "flash_chip P (flash_on b cfg cs)"
proof -
  have "nor_size P \<le> 0x1000000" if "\<not> capacity_mb cfg > 16"
  proof -
    have "unat (capacity_mb cfg) \<le> 16" using that by (simp add: word_less_nat_alt)
    then show ?thesis using assms(2) by (simp add: flash_capacity_Some)
  qed
  then show ?thesis
    using assms by (auto simp: flash_chip_def flash_on_def Let_def fl_capacity_bytes_def smc_cs_capacity_bytes_def
        cs_capacity_bytes_def default_addressing_for_cfg_def)
qed

lemma spi_freq_div_total: "f \<noteq> 0 \<Longrightarrow> \<exists>code. spi_freq_div sys f = Inr code"
  by (simp add: spi_freq_div_def split: option.split)

section \<open>The bring-up succeeds\<close>

text \<open>
  The DMA arbiter grants a request within \<open>fuel\<close> reads of its register: after the request was written and was
  seen as pending, one of the next \<open>fuel\<close> reads shows the grant. This bounds the only loop of the bring-up that
  the source leaves unbounded.
\<close>

definition arbiter_grants :: "nat \<Rightarrow> 'h smc_dev \<Rightarrow> bool" where
  "arbiter_grants fuel dev \<longleftrightarrow>
     (\<forall>h. let (h1, v) = smc_read dev FMC080 (smc_write dev FMC080 SPI_DMA_GET_REQ_MAGIC h)
      in v AND SPI_DMA_REQUEST \<noteq> 0 \<longrightarrow>
         (\<exists>n<fuel. snd (smc_read dev FMC080 (((\<lambda>h. fst (smc_read dev FMC080 h)) ^^ n) h1)) AND SPI_DMA_GRANT \<noteq> 0))"

lemma spin_until_returns:
  assumes "n < fuel" "snd (smc_read dev r (((\<lambda>h. fst (smc_read dev r h)) ^^ n) h)) AND m \<noteq> 0"
  shows "\<exists>h'. spin_until fuel (ebind (smc_get dev r) (\<lambda>w. ret (w AND m \<noteq> 0))) e h = (h', Inr ())"
  using assms
proof (induction fuel arbitrary: n h)
  case (Suc fuel)
  obtain h1 w where r: "smc_read dev r h = (h1, w)" by (cases "smc_read dev r h")
  show ?case
  proof (cases "w AND m \<noteq> 0")
    case True
    then show ?thesis by (simp add: smc_get_def get_def ebind_def r)
  next
    case False
    with Suc.prems r obtain k where n: "n = Suc k" by (cases n) auto
    have "((\<lambda>h. fst (smc_read dev r h)) ^^ Suc k) h = ((\<lambda>h. fst (smc_read dev r h)) ^^ k) h1"
      unfolding funpow_Suc_right by (simp add: r)
    then have "k < fuel" "snd (smc_read dev r (((\<lambda>h. fst (smc_read dev r h)) ^^ k) h1)) AND m \<noteq> 0"
      using Suc.prems n by simp_all
    from Suc.IH [OF this] obtain h' where a: "spin_until fuel (ebind (smc_get dev r) (\<lambda>w. ret (w AND m \<noteq> 0))) e h1 = (h', Inr ())" ..
    have b: "ebind (smc_get dev r) (\<lambda>w. ret (w AND m \<noteq> 0)) h = (h1, Inr False)"
      using False by (simp add: smc_get_def get_def ebind_def r)
    show ?thesis unfolding spin_until.simps ebind_okI [where m = "ebind _ _", OF b] if_False by (rule exI) (rule a)
  qed
qed simp

lemma total_acquire [total_intros]:
  assumes "arbiter_grants fuel dev"
  shows "never_fails (\<lambda>_. True) (acquire_dma_arbiter fuel dev)"
  unfolding never_fails_def
proof (intro allI impI)
  fix h :: 'a
  obtain h1 v where r: "smc_read dev FMC080 (smc_write dev FMC080 SPI_DMA_GET_REQ_MAGIC h) = (h1, v)"
    by (cases "smc_read dev FMC080 (smc_write dev FMC080 SPI_DMA_GET_REQ_MAGIC h)")
  show "\<exists>h' x. acquire_dma_arbiter fuel dev h = (h', Inr x) \<and> True"
  proof (cases "v AND SPI_DMA_REQUEST = 0")
    case True
    with r show ?thesis by (simp add: acquire_dma_arbiter_def eseq_def ebind_def smc_put_def smc_get_def get_def)
  next
    case False
    with assms r obtain n where "n < fuel"
        "snd (smc_read dev FMC080 (((\<lambda>h. fst (smc_read dev FMC080 h)) ^^ n) h1)) AND SPI_DMA_GRANT \<noteq> 0"
      by (auto simp: arbiter_grants_def dest!: spec [of _ h])
    from spin_until_returns [OF this, of SmcHang] obtain h2 where
      "spin_until fuel (ebind (smc_get dev FMC080) (\<lambda>w. ret (w AND SPI_DMA_GRANT \<noteq> 0))) SmcHang h1 = (h2, Inr ())" by blast
    with False r show ?thesis
      by (simp add: acquire_dma_arbiter_def eseq_def ebind_def [of "act _"] ebind_def [of "get _"] smc_put_def
          smc_get_def [of dev FMC080] get_def)
  qed
qed

lemma total_reg [total_intros]: "never_fails (\<lambda>_. True) (smc_get dev r)" "never_fails (\<lambda>_. True) (smc_put dev r v)"
  by (simp_all add: smc_get_def smc_put_def total_intros)

lemma total_poll [total_intros]: "never_fails (\<lambda>_. True) (poll_blocking_dma_completion dev n)"
  by (induction n) (auto intro!: total_intros)

lemma total_checksum [total_intros]:
  "arbiter_grants fuel dev \<Longrightarrow> never_fails (\<lambda>_. True) (spi_dma_checksum fuel dev s cs d delay)"
  unfolding spi_dma_checksum_def disable_dma_def by (intro total_intros)

lemma total_calib_scan [total_intros]:
  assumes "arbiter_grants fuel dev"
  shows "never_fails (\<lambda>_. True) (calib_scan fuel dev s cs m g ps res)"
  using assms by (induction fuel dev s cs m g ps res rule: calib_scan.induct) (auto simp: Let_def intro!: total_intros)

lemma total_timing_sweep [total_intros]:
  assumes "arbiter_grants fuel dev"
  shows "never_fails (\<lambda>_. True) (timing_sweep fuel dev s cs g freq steps)"
  using assms
  by (induction fuel dev s cs g freq steps rule: timing_sweep.induct)
    (auto simp: Let_def write_cs_timing_compensation_def intro!: total_intros)

lemma total_configure_timing:
  assumes "f \<noteq> 0"
  shows "never_fails (\<lambda>sh. smc_cfg (fst sh) = cfg) (configure_timing dev cs f)"
proof -
  obtain code where "spi_freq_div SYSCLK_MHZ f = Inr code" using spi_freq_div_total [OF assms] by blast
  then show ?thesis
    unfolding configure_timing_def read_cs_ctrl_def write_cs_ctrl_def
    by (auto intro!: total_ebind total_eseq total_lift total_hw total_reg total_upd)
qed

lemma spi_calibration_enable_total: "\<exists>b. spi_calibration_enable buf = Inr b"
  by (cases "length buf < 4") (auto simp: spi_calibration_enable_def)

lemma total_timing_calibration:
  assumes "arbiter_grants fuel dev" "cs_slot cfg cs = Some c" "spi_clock_mhz c \<noteq> 0"
  shows "never_fails (\<lambda>sh. smc_cfg (fst sh) = cfg) (timing_calibration fuel dev cs)"
proof -
  let ?J = "\<lambda>sh :: smc \<times> 'a. smc_cfg (fst sh) = cfg"
  have cc: "cs_config s cs = Inr c" if "smc_cfg s = cfg" for s using that assms(2) by (simp add: cs_config_def)
  have en: "never_fails ?J (lift (spi_calibration_enable buf))" for buf
    using spi_calibration_enable_total [of buf] by (auto intro: total_lift)
  note conf = total_configure_timing [OF assms(3), of cfg dev cs]
  show ?thesis
    unfolding timing_calibration_def already_calibrated_def read_cs_ctrl_def write_cs_ctrl_def run_timing_sweep_def
    apply (rule total_self)
    apply (simp only: cc map_err_lift lift_simps)
    apply (intro en conf assms(1) total_ebind total_eseq total_if total_map_err total_hw total_reg total_ret total_get
        total_checksum total_timing_sweep)
    done
qed

lemma read_init_succeeds:
  assumes "arbiter_grants fuel dev" "cs_slot (smc_cfg s) cs = Some c" "spi_clock_mhz c \<noteq> 0"
    and "smc_cs_capacity_bytes s cs = Inr n"
  shows "\<exists>s' h'. spi_nor_read_init fuel dev cs (s, h) = ((s', h'), Inr ())"
proof -
  let ?J = "\<lambda>sh :: smc \<times> 'a. smc_cfg (fst sh) = smc_cfg s"
  have cc: "smc_cs_capacity_bytes s1 cs = Inr n" "cs_config s1 cs = Inr c" if "smc_cfg s1 = smc_cfg s" for s1
    using that assms(2,4) by (simp_all add: smc_cs_capacity_bytes_def cs_config_def)
  note conf = total_configure_timing [OF assms(3), of "smc_cfg s" dev cs] and cal = total_timing_calibration [OF assms(1-3)]
  have "never_fails ?J (spi_nor_read_init fuel dev cs)"
    unfolding spi_nor_read_init_def write_cs_ctrl_def
    apply (rule total_self)
    apply (simp only: cc map_err_lift lift_simps)
    apply (intro conf cal total_ebind total_eseq total_if total_map_err total_hw total_reg total_upd)
    apply simp
    done
  from totalD [OF this, of "(s, h)"] show ?thesis by auto
qed

text \<open>
  C34: Bringing up a flash. Conditions: the chip behind the chip select behaves like the NOR machine (\<open>nor_device\<close>),
  is in no transfer and not busy; the controller is idle; the chip select has a configured slot whose clock limit
  is not zero, whose capacity is the size of the chip and not zero, with sectors of 4096 bytes and a page size that
  divides 256; the window of the chip ends below \<open>2 ^ 32\<close>; the DMA arbiter grants a request within \<open>fuel\<close> reads. Then
  \<open>spi_nor_read_init\<close> succeeds, whatever path the timing calibration takes; the control register holds, apart from
  the frequency field, the quad output read of one dummy byte (mode 1-1-4, opcode 0x6B, or 0x6C above 16 MiB), and
  that is the stored read setting; the window shows the memory of the chip, which has not changed; and a flash that
  is built on the controller with that slot, as an FMC or as an SPI flash, satisfies the conditions of the erase, program,
  verify and update operations.
\<close>

theorem read_init_makes_flash_usable:
  assumes dev: "nor_device P dev cs (flash_window_base s cs) view"
    and chip: "quiet (view h)" "nor_busy (view h) = 0"
    and cfg: "smc_st s = SmcIdle" "cs_slot (smc_cfg s) cs = Some cfg" "spi_clock_mhz cfg \<noteq> 0"
    and cap: "smc_cs_capacity_bytes s cs = Inr (nor_size P)" "0 < nor_size P"
    and geo: "sector_size cfg = 4096" "unat (page_size cfg) dvd 256" "page_size cfg \<noteq> 0"
    and win: "flash_window_base s cs + nor_size P \<le> 2 ^ 32"
    and grant: "arbiter_grants fuel dev"
  shows "\<exists>s' h'. spi_nor_read_init fuel dev cs (s, h) = ((s', h'), Inr ())
    \<and> nor_ctrl (view h') AND 0xF0FFF0FF = (if nor_size P > 0x1000000 then 0x406C0041 else 0x406B0041)
    \<and> normal_read_ctrl s' cs = nor_ctrl (view h') \<and> read_mode P cs (view h') \<and> nor_mem (view h') = nor_mem (view h)
    \<and> (\<exists>f. from_fmc_cs s' cfg cs = Inr f \<and> flash_device P dev f view \<and> flash_chip P f \<and> flash_idle P f (view h'))
    \<and> (\<exists>f. from_spi_cs s' cfg cs = Inr f \<and> flash_device P dev f view \<and> flash_chip P f \<and> flash_idle P f (view h'))"
proof -
  obtain s' h' where run: "spi_nor_read_init fuel dev cs (s, h) = ((s', h'), Inr ())"
    using read_init_succeeds [OF grant cfg(2,3) cap(1)] by blast
  obtain v where v: "s' = set_normal_read_ctrl cs v s" "nor_ctrl (view h') = v" "read_mode P cs (view h')"
      "quiet (view h')" "nor_mem (view h') = nor_mem (view h)"
      "v AND 0xF0FFF0FF = (if nor_size P > 0x1000000 then 0x406C0041 else 0x406B0041)"
    using post_pairD [OF post_spi_nor_read_init [OF dev chip cap(1)] run] by auto
  have base: "flash_window_base s' cs = flash_window_base s cs" by (cases cs) (simp_all add: v flash_window_base_def)
  have slot: "cs_slot (smc_cfg s') cs = Some cfg" using cfg(2) by (simp add: v)
  have size: "flash_capacity_bytes (Some cfg) = Inr (nor_size P)"
    using cap(1) cfg(2) by (simp add: smc_cs_capacity_bytes_def cs_capacity_bytes_def)
  have usable: "flash_device P dev f view \<and> flash_chip P f \<and> flash_idle P f (view h')"
    if "f = flash_on b cfg cs" "backend_smc b = s'" for f b
  proof -
    have "flash_chip P f"
      unfolding that(1) using slot size cap(2) geo win base that(2) by (intro flash_on_chip [where s = s']) simp_all
    moreover have "flash_idle P f (view h')"
      using v slot cfg(1) that by (auto simp: flash_on_def Let_def flash_idle_def idle_chip_def quiet_def read_mode_def)
    moreover have "flash_device P dev f view" using dev base that by (simp add: flash_on_def Let_def)
    ultimately show ?thesis by blast
  qed
  have "\<exists>f. from_fmc_cs s' cfg cs = Inr f \<and> flash_device P dev f view \<and> flash_chip P f \<and> flash_idle P f (view h')"
    using usable [of _ "BackendFmc s'"] slot by (simp add: from_fmc_cs_ok)
  moreover have "\<exists>f. from_spi_cs s' cfg cs = Inr f \<and> flash_device P dev f view \<and> flash_chip P f \<and> flash_idle P f (view h')"
    using usable [of _ "BackendSpi s'"] slot by (simp add: from_spi_cs_ok)
  moreover have "normal_read_ctrl s' cs = nor_ctrl (view h')" by (simp add: v)
  ultimately show ?thesis using run v by blast
qed

text \<open>A device whose arbiter grants at once, and a controller whose timing is not calibrated yet.\<close>

definition granting :: "'h smc_dev \<Rightarrow> 'h smc_dev" where
  "granting dev = dev\<lparr>smc_read := (\<lambda>r h. case smc_read dev r h of
     (h', v) \<Rightarrow> (h', if r = FMC080 then v OR SPI_DMA_GRANT else v))\<rparr>"

lemma granting_device:
  assumes "nor_device P dev cs base view"
  shows "nor_device P (granting dev) cs base view"
proof -
  have "nor_get_reg cs FMC080 c = None" for c by (cases cs) (simp_all add: nor_get_reg_def cs_ctrl_reg_def)
  with assms show ?thesis unfolding nor_device_def granting_def
    by (auto simp: case_prod_unfold split: option.splits)
qed

lemma granting_grants: "arbiter_grants 1 (granting dev)"
proof -
  have "(v OR SPI_DMA_GRANT) AND SPI_DMA_GRANT = SPI_DMA_GRANT" for v by (auto simp: bit_eq_iff bit_simps)
  then show ?thesis by (auto simp: arbiter_grants_def granting_def SPI_DMA_GRANT_def split: prod.split)
qed

theorem read_init_makes_flash_usable_witness:
  "\<exists>s' h' f. spi_nor_read_init 1 (granting demo_dev) Cs0 (demo_smc, (demo_chip, \<lambda>_. 0)) = ((s', h'), Inr ())
     \<and> nor_ctrl (fst h') AND 0xF0FFF0FF = 0x406B0041
     \<and> from_fmc_cs s' demo_cfg Cs0 = Inr f \<and> flash_chip demo_chip_params f \<and> flash_idle demo_chip_params f (fst h')"
proof -
  have base: "flash_window_base demo_smc Cs0 = 0x80000000" by (simp add: demo_smc_def flash_window_base_def)
  have dev: "nor_device demo_chip_params (granting demo_dev) Cs0 (flash_window_base demo_smc Cs0) fst"
    unfolding base by (rule granting_device [OF nor_sim_ok])
  have q: "quiet (fst (demo_chip, \<lambda>_ :: smc_reg. 0 :: u32))" "nor_busy (fst (demo_chip, \<lambda>_ :: smc_reg. 0 :: u32)) = 0"
    by (simp_all add: quiet_def user_active_def demo_chip_def)
  have cap: "smc_cs_capacity_bytes demo_smc Cs0 = Inr (nor_size demo_chip_params)"
    by (simp add: smc_cs_capacity_bytes_def cs_capacity_bytes_def cs_slot_def flash_capacity_bytes_def usize_ok_def
        USIZE_LIMIT_def demo_defs)
  have "smc_st demo_smc = SmcIdle" "cs_slot (smc_cfg demo_smc) Cs0 = Some demo_cfg" "spi_clock_mhz demo_cfg \<noteq> 0"
    "0 < nor_size demo_chip_params" "\<not> nor_size demo_chip_params > 0x1000000" "sector_size demo_cfg = 4096"
    "unat (page_size demo_cfg) dvd 256" "page_size demo_cfg \<noteq> 0"
    "flash_window_base demo_smc Cs0 + nor_size demo_chip_params \<le> 2 ^ 32"
    by (simp_all add: demo_defs cs_slot_def flash_window_base_def)
  then show ?thesis
    using read_init_makes_flash_usable [OF dev q _ _ _ cap, of demo_cfg 1] granting_grants by fastforce
qed

end
