(* ===== verification/Smc_Init.thy ===== *)
theory Smc_Init
  imports Smc_Update
begin

unbundle bit_operations_syntax

text \<open>
  The initialisation of the controller: the decode segments are encoded so that they cover exactly the configured
  capacities, side by side from the start of the window, and the windows of the chip selects begin where the segments
  do. A device is described by a view of those of its registers that keep what is written to them.
\<close>

section \<open>Segments\<close>

definition seg_range :: "smc_controller \<Rightarrow> u32 \<Rightarrow> nat \<times> nat" where
  "seg_range c seg =
     (case c of
        SmcFmc \<Rightarrow> (unat (push_bit 16 (seg AND 0x0ff8)), unat ((seg AND 0x0ff80000) OR 0x7ffff) + 1)
      | _ \<Rightarrow> (unat (push_bit 16 (seg AND 0xffff)), unat ((seg AND 0xffff0000) OR 0xfffff) + 1))"

lemma seg_masks: "(0x0ff8 :: u32) = push_bit 3 (mask 9)" "(0x0ff80000 :: u32) = push_bit 19 (mask 9)"
  "(0x7ffff :: u32) = mask 19" "(0xffff :: u32) = mask 16" "(0xffff0000 :: u32) = push_bit 16 (mask 16)"
  "(0xfffff :: u32) = mask 20"
  by (simp_all add: mask_eq_exp_minus_1)

lemma of_nat_block:
  assumes "start = 2 ^ k * p"
  shows "(of_nat start :: u32) = push_bit k (of_nat p)"
  using assms by (simp add: push_bit_eq_mult mult.commute)

lemma of_nat_block_end:
  assumes "e = 2 ^ k * (p + 1)"
  shows "(of_nat (e - 1) :: u32) = push_bit k (of_nat p) OR mask k"
proof -
  have e: "e - 1 = p * 2 ^ k + (2 ^ k - 1)" using assms by (simp add: algebra_simps)
  have "push_bit k p OR mask k = push_bit k p + (mask k :: nat)"
    by (rule disjunctive_add [symmetric]) (auto simp: bit_simps)
  then have "e - 1 = push_bit k p OR mask k" using e by (simp add: push_bit_eq_mult mask_eq_exp_minus_1)
  then show ?thesis by (simp add: of_nat_or_eq of_nat_push_bit of_nat_mask_eq)
qed

lemma small_bits: "p < 2 ^ m \<Longrightarrow> bit (p :: nat) n \<Longrightarrow> n < m"
  by (metis bit_take_bit_iff take_bit_nat_eq_self)

lemma unat_u32: "n < 2 ^ 32 \<Longrightarrow> unat (of_nat n :: u32) = n"
  by (simp add: unat_of_nat)

lemma fmc_segment_roundtrip:
  assumes "s = 2 ^ 19 * p" "e = 2 ^ 19 * q" "p < q" "q \<le> 2 ^ 9"
  shows "\<exists>seg. encode_fmc_segment s e = Inr seg \<and> seg_range SmcFmc seg = (s, e)"
proof -
  define r where "r = q - 1"
  have r: "q = r + 1" "r < 2 ^ 9" "p < 2 ^ 9" using assms by (simp_all add: r_def)
  let ?s = "of_nat s :: u32" and ?e = "of_nat (e - 1) :: u32"
  have s: "?s = push_bit 19 (of_nat p)" and e: "?e = push_bit 19 (of_nat r) OR mask 19"
    using of_nat_block [OF assms(1)] of_nat_block_end [OF assms(2) [unfolded r(1)]] by simp_all
  let ?seg = "(drop_bit 16 (push_bit 19 (drop_bit 19 ?s)) AND 0x0ff8) OR (push_bit 19 (drop_bit 19 ?e) AND 0x0ff80000)"
  have enc: "encode_fmc_segment s e = Inr ?seg" using assms by (simp add: encode_fmc_segment_def Let_def)
  have A: "push_bit 16 (?seg AND 0x0ff8) = ?s"
    unfolding seg_masks s e by (rule bit_eqI) (auto simp: bit_simps dest: small_bits [OF r(3)])
  have B: "(?seg AND 0x0ff80000) OR 0x7ffff = ?e"
    unfolding seg_masks s e by (rule bit_eqI) (auto simp: bit_simps dest: small_bits [OF r(2)])
  have "s < 2 ^ 32" "e - 1 < 2 ^ 32" "e - 1 + 1 = e" using assms by simp_all
  then have U: "(unat ?s, unat ?e + 1) = (s, e)" by (simp only: unat_u32)
  have "seg_range SmcFmc ?seg = (s, e)" unfolding seg_range_def smc_controller.case A B U ..
  with enc show ?thesis by blast
qed

lemma spi_segment_roundtrip:
  assumes "s = 2 ^ 20 * p" "e = 2 ^ 20 * q" "p < q" "q \<le> 2 ^ 8"
  shows "\<exists>seg. encode_spi_segment s e = Inr seg \<and> (c \<noteq> SmcFmc \<longrightarrow> seg_range c seg = (s, e))"
proof -
  define r where "r = q - 1"
  have r: "q = r + 1" "r < 2 ^ 8" "p < 2 ^ 8" using assms by (simp_all add: r_def)
  let ?s = "of_nat s :: u32" and ?e = "of_nat (e - 1) :: u32"
  have s: "?s = push_bit 20 (of_nat p)" and e: "?e = push_bit 20 (of_nat r) OR mask 20"
    using of_nat_block [OF assms(1)] of_nat_block_end [OF assms(2) [unfolded r(1)]] by simp_all
  let ?seg = "(drop_bit 16 (push_bit 20 (drop_bit 20 ?s)) AND 0xffff) OR (push_bit 20 (drop_bit 20 ?e) AND 0xffff0000)"
  have enc: "encode_spi_segment s e = Inr ?seg" using assms by (simp add: encode_spi_segment_def Let_def)
  have A: "push_bit 16 (?seg AND 0xffff) = ?s"
    unfolding seg_masks s e by (rule bit_eqI) (auto simp: bit_simps dest: small_bits [OF r(3)])
  have B: "(?seg AND 0xffff0000) OR 0xfffff = ?e"
    unfolding seg_masks s e by (rule bit_eqI) (auto simp: bit_simps dest: small_bits [OF r(2)])
  have "s < 2 ^ 32" "e - 1 < 2 ^ 32" "e - 1 + 1 = e" using assms by simp_all
  then have U: "(unat ?s, unat ?e + 1) = (s, e)" by (simp only: unat_u32)
  have "c \<noteq> SmcFmc \<longrightarrow> seg_range c ?seg = (s, e)"
    by (cases c) (simp_all only: seg_range_def smc_controller.case A B U simp_thms)
  with enc show ?thesis by blast
qed


section \<open>Initialisation\<close>

text \<open>The registers in \<open>R\<close> keep what is written to them.\<close>

definition reg_file :: "'h smc_dev \<Rightarrow> smc_reg set \<Rightarrow> ('h \<Rightarrow> smc_reg \<Rightarrow> u32) \<Rightarrow> bool" where
  "reg_file dev R regs \<longleftrightarrow>
     (\<forall>r v h. \<forall>r' \<in> R. regs (smc_write dev r v h) r' = (if r' = r then v else regs h r'))
   \<and> (\<forall>r h. \<forall>r' \<in> R. regs (fst (smc_read dev r h)) r' = regs h r')"

definition window_of :: "smc \<Rightarrow> chip_select \<Rightarrow> nat \<times> nat" where
  "window_of s cs =
     (let c0 = capacity_or_0 (cfg_cs0 (smc_cfg s)); c1 = capacity_or_0 (cfg_cs1 (smc_cfg s))
      in case cs of Cs0 \<Rightarrow> (0, c0) | Cs1 \<Rightarrow> (c0, c0 + c1))"

definition seg_reg :: "chip_select \<Rightarrow> smc_reg" where
  "seg_reg cs = (case cs of Cs0 \<Rightarrow> FMC030 | Cs1 \<Rightarrow> FMC034)"

lemma all_cs: "(\<forall>cs. Q cs) \<longleftrightarrow> Q Cs0 \<and> Q Cs1"
  by (metis chip_select.exhaust)

lemma capacity_multiple: "\<exists>p. capacity_or_0 c = 2 ^ 20 * p"
  by (cases c) (auto simp: capacity_or_0_def flash_capacity_bytes_def usize_ok_def intro: exI [of _ 0])

lemma encode_segment_exact:
  assumes "a < b" "b \<le> 2 ^ 28" "a = 2 ^ 20 * p" "b = 2 ^ 20 * q"
  shows "\<exists>seg. encode_segment s a b = Inr seg \<and> seg_range (cfg_controller_id (smc_cfg s)) seg = (a, b)"
proof -
  have "a = 2 ^ 19 * (2 * p)" "b = 2 ^ 19 * (2 * q)" "2 * p < 2 * q" "2 * q \<le> 2 ^ 9" "q \<le> 2 ^ 8" "p < q"
    using assms by simp_all
  then show ?thesis
    using fmc_segment_roundtrip [of a "2 * p" b "2 * q"] spi_segment_roundtrip [of a p b q "cfg_controller_id (smc_cfg s)"] assms
    by (auto simp: encode_segment_def split: smc_controller.split)
qed

lemma reg_file_put:
  "reg_file dev R regs \<Longrightarrow> r' \<in> R \<Longrightarrow> smc_put dev r v h = (h', x) \<Longrightarrow> regs h' r' = (if r' = r then v else regs h r')"
  by (auto simp: reg_file_def smc_put_def)

lemma reg_file_get:
  "reg_file dev R regs \<Longrightarrow> r' \<in> R \<Longrightarrow> smc_get dev r h = (h', x) \<Longrightarrow> regs h' r' = regs h r'"
  by (auto simp: reg_file_def smc_get_def get_def case_prod_unfold Let_def)

lemma smc_put_ok: "smc_put dev r v h = (smc_write dev r v h, Inr ())"
  and smc_get_ok: "smc_get dev r h = (fst (smc_read dev r h), Inr (snd (smc_read dev r h)))"
  by (simp_all add: smc_put_def smc_get_def get_def case_prod_unfold Let_def)

lemma setup_segments_run:
  assumes ok: "total_capacity_bytes (cfg_cs0 (smc_cfg s)) (cfg_cs1 (smc_cfg s)) = Inr total'"
    and R: "reg_file dev {FMC030, FMC034} regs"
  shows "\<exists>h'. setup_segments dev s h = (h', Inr ())
    \<and> (\<forall>cs. fst (window_of s cs) < snd (window_of s cs)
          \<longrightarrow> seg_range (cfg_controller_id (smc_cfg s)) (regs h' (seg_reg cs)) = window_of s cs)"
proof -
  obtain m n where c: "flash_capacity_bytes (cfg_cs0 (smc_cfg s)) = Inr m" "flash_capacity_bytes (cfg_cs1 (smc_cfg s)) = Inr n"
    "m + n \<le> 0x10000000" using total_capacity_bound [OF ok] by metis
  have w: "window_of s Cs0 = (0, m)" "window_of s Cs1 = (m, m + n)"
    using c by (simp_all add: window_of_def capacity_or_0_def)
  obtain p where p: "m = 2 ^ 20 * p" using capacity_multiple [of "cfg_cs0 (smc_cfg s)"] c by (auto simp: capacity_or_0_def)
  obtain q where q: "n = 2 ^ 20 * q" using capacity_multiple [of "cfg_cs1 (smc_cfg s)"] c by (auto simp: capacity_or_0_def)
  have e0: "\<exists>seg. encode_segment s 0 m = Inr seg \<and> seg_range (cfg_controller_id (smc_cfg s)) seg = (0, m)" if "0 < m"
    using that c p by (intro encode_segment_exact [of _ _ 0 p]) auto
  have e1: "\<exists>seg. encode_segment s m (m + n) = Inr seg \<and> seg_range (cfg_controller_id (smc_cfg s)) seg = (m, m + n)" if "0 < n"
    using that c p q by (intro encode_segment_exact [of _ _ p "p + q"]) (auto simp: algebra_simps)
  show ?thesis
    using e0 e1 R by (cases "0 < m"; cases "0 < n")
      (auto simp: setup_segments_def c ok w lift_simps smc_put_ok eseq_okI reg_file_def all_cs seg_reg_def)
qed

lemma setup_segments_err:
  assumes "total_capacity_bytes (cfg_cs0 (smc_cfg s)) (cfg_cs1 (smc_cfg s)) = Inl e"
  shows "setup_segments dev s h = (h, Inl SmcInvalidCapacity)"
proof -
  have *: "flash_capacity_bytes c = Inl e' \<Longrightarrow> e' = SmcInvalidCapacity" for c e'
    by (auto simp: flash_capacity_bytes_def usize_ok_def split: option.splits if_splits)
  then have "e = SmcInvalidCapacity"
    using assms by (auto simp: total_capacity_bytes_def usize_ok_def split: sum.splits if_splits)
  with assms * show ?thesis
    by (cases "flash_capacity_bytes (cfg_cs0 (smc_cfg s))"; cases "flash_capacity_bytes (cfg_cs1 (smc_cfg s))")
      (auto simp: setup_segments_def lift_simps)
qed

text \<open>
  C35: Initialisation of the controller succeeds exactly if the configured capacities fit into the 256 MiB window, and then
  maps the flashes side by side: the segment register of each populated chip select decodes to exactly its part of the
  window, the stored window address of the chip select is where its segment starts, the parts do not overlap and end
  below \<open>2 ^ 32\<close>, and the controller is idle. Otherwise it returns \<open>InvalidCapacity\<close> and no segment is written.
\<close>

theorem init_maps_windows:
  assumes "reg_file dev {FMC030, FMC034} regs" "smc_new config = Inr s"
  shows "(case total_capacity_bytes (cfg_cs0 config) (cfg_cs1 config) of
      Inl _ \<Rightarrow> \<exists>h'. smc_init dev s h = (h', Inl SmcInvalidCapacity)
          \<and> regs h' FMC030 = regs h FMC030 \<and> regs h' FMC034 = regs h FMC034
    | Inr n \<Rightarrow> \<exists>h' s'. smc_init dev s h = (h', Inr s') \<and> smc_st s' = SmcIdle \<and> smc_cfg s' = config
          \<and> (\<forall>cs. let w = window_of s' cs; base = flash_window_address (cfg_controller_id config) in
                 flash_window_base s' cs = base + fst w \<and> base + snd w \<le> 2 ^ 32
               \<and> (fst w < snd w \<longrightarrow>
                    seg_range (cfg_controller_id config) (regs h' (seg_reg cs)) = w))
          \<and> snd (window_of s' Cs0) = fst (window_of s' Cs1) \<and> snd (window_of s' Cs1) = n)"
proof -
  have s: "smc_cfg s = config" "smc_controller_id s = cfg_controller_id config"
    using assms(2) by (auto simp: smc_new_def split: if_splits)
  let ?h = "smc_write dev FMC000 (init_conf config) h"
  show ?thesis
  proof (cases "total_capacity_bytes (cfg_cs0 config) (cfg_cs1 config)")
    case (Inl e)
    then have "setup_segments dev s ?h = (?h, Inl SmcInvalidCapacity)" using s by (simp add: setup_segments_err)
    then have "smc_init dev s h = (?h, Inl SmcInvalidCapacity)"
      by (simp add: smc_init_def s eseq_okI [OF smc_put_ok] eseq_errI)
    with Inl assms(1) show ?thesis by (simp add: reg_file_def)
  next
    case (Inr n)
    obtain h1 where h1: "setup_segments dev s ?h = (h1, Inr ())"
      "\<forall>cs. fst (window_of s cs) < snd (window_of s cs)
          \<longrightarrow> seg_range (cfg_controller_id config) (regs h1 (seg_reg cs)) = window_of s cs"
      using setup_segments_run [of s n dev regs ?h] assms(1) Inr s by auto
    let ?h2 = "fst (smc_read dev FMC010 h1)" and ?base = "flash_window_address (cfg_controller_id config)"
    let ?s' = "\<lparr>smc_controller_id = cfg_controller_id config, smc_cfg = config, smc_st = SmcIdle,
       smc_normal_read_ctrl = (snd (smc_read dev FMC010 h1), snd (smc_read dev FMC014 ?h2)),
       smc_flash_window_base = (?base, ?base + capacity_or_0 (cfg_cs0 config))\<rparr>"
    have run: "smc_init dev s h = (fst (smc_read dev FMC014 ?h2), Inr ?s')"
      by (simp add: smc_init_def s eseq_okI [OF smc_put_ok] eseq_okI [where m = "setup_segments dev s", OF h1(1)] ebind_okI [OF smc_get_ok] Let_def)
    have regs: "regs (fst (smc_read dev FMC014 ?h2)) (seg_reg cs) = regs h1 (seg_reg cs)" for cs
      using assms(1) by (cases cs) (simp_all add: reg_file_def seg_reg_def)
    have w: "window_of ?s' cs = window_of s cs" for cs using s by (simp add: window_of_def)
    obtain m k where "flash_capacity_bytes (cfg_cs0 config) = Inr m" "flash_capacity_bytes (cfg_cs1 config) = Inr k"
        "n = m + k" "n \<le> 0x10000000" using total_capacity_bound [OF Inr] by metis
    moreover have "?base + 0x10000000 \<le> 2 ^ 32" by (cases "cfg_controller_id config") (simp_all add: flash_window_address_def)
    ultimately have "flash_window_base ?s' cs = ?base + fst (window_of s cs)" "?base + snd (window_of s cs) \<le> 2 ^ 32"
        "snd (window_of s Cs0) = fst (window_of s Cs1)" "snd (window_of s Cs1) = n" for cs
      using s by (cases cs; simp add: window_of_def capacity_or_0_def flash_window_base_def)+
    with run h1(2) regs show ?thesis by (simp add: Inr w Let_def)
  qed
qed

lemma nor_sim_regs: "reg_file (nor_sim P cs base) R snd"
  by (auto simp: reg_file_def nor_sim_def split: prod.split)

definition two_flashes :: smc_config where
  "two_flashes = \<lparr>cfg_controller_id = SmcFmc, cfg_cs0 = Some winbond_w25q64, cfg_cs1 = Some winbond_w25q256,
     dma_enabled = True, enable_interrupts = False, topology = BootSpi 0\<rparr>"

theorem init_maps_windows_witness:
  "\<exists>s h' s'. smc_new two_flashes = Inr s
     \<and> smc_init demo_dev s (demo_chip, \<lambda>_. 0) = (h', Inr s') \<and> flash_window_base s' Cs1 = 0x80800000
     \<and> seg_range SmcFmc (snd h' FMC034) = (0x800000, 0x2800000)"
proof -
  obtain s where s: "smc_new two_flashes = Inr s" by (simp add: smc_new_def two_flashes_def)
  have cap: "flash_capacity_bytes (cfg_cs0 two_flashes) = Inr 0x800000" "flash_capacity_bytes (cfg_cs1 two_flashes) = Inr 0x2000000"
    by (simp_all add: two_flashes_def flash_capacity_bytes_def usize_ok_def USIZE_LIMIT_def winbond_w25q64_def winbond_w25q256_def)
  have c: "total_capacity_bytes (cfg_cs0 two_flashes) (cfg_cs1 two_flashes) = Inr 0x2800000"
    by (simp add: total_capacity_bytes_def cap usize_ok_def USIZE_LIMIT_def SMC_WINDOW_SIZE_BYTES_def)
  have id: "cfg_controller_id two_flashes = SmcFmc" by (simp add: two_flashes_def)
  obtain h' s' where run: "smc_init demo_dev s (demo_chip, \<lambda>_. 0) = (h', Inr s')" and "smc_cfg s' = two_flashes"
    and w: "\<forall>cs. let w = window_of s' cs; base = flash_window_address SmcFmc in flash_window_base s' cs = base + fst w
        \<and> base + snd w \<le> 2 ^ 32 \<and> (fst w < snd w \<longrightarrow> seg_range SmcFmc (snd h' (seg_reg cs)) = w)"
    using init_maps_windows [OF nor_sim_regs [of demo_chip_params Cs0 "0x80000000"] s, where h = "(demo_chip, \<lambda>_. 0)"]
    unfolding c id by auto
  then have "window_of s' Cs1 = (0x800000, 0x2800000)" by (simp add: window_of_def capacity_or_0_def cap)
  with w have "flash_window_base s' Cs1 = 0x80800000 \<and> seg_range SmcFmc (snd h' FMC034) = (0x800000, 0x2800000)"
    by (auto simp: all_cs Let_def seg_reg_def flash_window_address_def)
  with s run show ?thesis by blast
qed

end
