(* ===== verification/Smc_Dma.thy ===== *)
theory Smc_Dma
  imports Smc_Init Smc_Read_Init
begin

unbundle bit_operations_syntax

text \<open>
  DMA reads. The state of the controller says which operations are admitted: a table of the transitions of every
  operation, for every device. A request is carried out exactly if it is valid, and then the registers describe a range
  inside the part of the window that belongs to the chip select. The wait for the bus is a loop on fuel; the property
  about a request assumes that the arbiter grants the bus within the fuel. The memory side of a transfer is the address
  plus \<open>0x80000000\<close>, a plain addition of the source that a build without overflow checks wraps at 32 bits, as the model
  does; the property about requests keeps to addresses for which nothing overflows.
\<close>

section \<open>The state table\<close>

lemma and_bit_0: "(w :: u32) AND push_bit n 1 = 0 \<longleftrightarrow> \<not> bit w n"
  by (simp add: and_exp_eq_0_iff_not_bit)

lemma relevant_bits:
  "status AND DMA_STATUS_RELEVANT_BITS = 0 \<longleftrightarrow> \<not> bit status 11 \<and> \<not> bit status 10 \<and> \<not> bit status 9"
  using and_bit_0 [of status 11] and_bit_0 [of status 10] and_bit_0 [of status 9]
  by (simp add: DMA_STATUS_RELEVANT_BITS_def bit.conj_disj_distrib or_eq_0_iff del: push_bit_of_1)

lemma complete_dma_self:
  "fst (fst (complete_dma dev status (s, h))) =
     (case decode_with_context status (smc_st s = SmcDmaInFlight) of
        IntDmaComplete \<Rightarrow> s\<lparr>smc_st := SmcIdle\<rparr> | IntDmaError \<Rightarrow> s\<lparr>smc_st := SmcIdle\<rparr>
      | IntCommandAbort \<Rightarrow> s\<lparr>smc_st := SmcFaulted\<rparr> | IntWriteProtected \<Rightarrow> s\<lparr>smc_st := SmcFaulted\<rparr> | IntUnknown \<Rightarrow> s)"
  and complete_dma_result:
  "snd (complete_dma dev status (s, h)) =
     (case decode_with_context status (smc_st s = SmcDmaInFlight) of
        IntDmaComplete \<Rightarrow> Inr IntDmaComplete | IntDmaError \<Rightarrow> Inl SmcDmaAborted
      | IntCommandAbort \<Rightarrow> Inl SmcHardwareError | IntWriteProtected \<Rightarrow> Inl SmcWriteProtected | IntUnknown \<Rightarrow> Inl SmcHardwareError)"
  by (auto simp: complete_dma_def clear_dma_status_def disable_dma_def smc_put_def ebind_def eseq_def hw_def self_def upd_def
      act_def fail_def ret_def Let_def split: smc_interrupt.split)

text \<open>An operation that changes the fields of the driver by \<open>f\<close> if it succeeds, and leaves them alone if it fails.\<close>

definition commits :: "('s \<Rightarrow> 's) \<Rightarrow> ('s \<times> 'h, 'e, 'a) reg_op \<Rightarrow> bool" where
  "commits f m \<longleftrightarrow> (\<forall>sh. fst (fst (m sh)) = (case snd (m sh) of Inr _ \<Rightarrow> f (fst sh) | Inl _ \<Rightarrow> fst sh))"

named_theorems commits_intros "operations that change the fields of the driver at their end"

declare keeps_fst_hw [commits_intros] keeps_fst_self [commits_intros]

lemma commits_upd [commits_intros]: "commits f (upd f)" and commits_fail [commits_intros]: "commits f (fail e)"
  by (simp_all add: commits_def upd_def)

lemma commits_ebind [commits_intros]: "keeps fst m \<Longrightarrow> (\<And>x. commits f (k x)) \<Longrightarrow> commits f (ebind m k)"
proof -
  assume m: "keeps fst m" and k: "\<And>x. commits f (k x)"
  have "fst (fst (ebind m k sh)) = (case snd (ebind m k sh) of Inr _ \<Rightarrow> f (fst sh) | Inl _ \<Rightarrow> fst sh)" for sh
  proof (cases "snd (m sh)")
    case (Inl e)
    then have "ebind m k sh = (fst (m sh), Inl e)" by (simp add: ebind_def case_prod_unfold)
    then show ?thesis using m by (cases sh) (simp add: keeps_def)
  next
    case (Inr x)
    then have "ebind m k sh = k x (fst (m sh))" by (simp add: ebind_def case_prod_unfold)
    moreover have "fst (fst (m sh)) = fst sh" using m by (cases sh) (simp add: keeps_def)
    ultimately show ?thesis using k [of x, unfolded commits_def, THEN spec, of "fst (m sh)"] by (auto split: sum.splits)
  qed
  then show ?thesis by (simp add: commits_def)
qed

lemma commits_eseq [commits_intros]: "keeps fst m \<Longrightarrow> commits f k \<Longrightarrow> commits f (eseq m k)"
  unfolding eseq_def by (rule commits_ebind)

lemma commits_if [commits_intros]: "commits f m \<Longrightarrow> commits f k \<Longrightarrow> commits f (if b then m else k)"
  by simp

lemma dma_read_commits: "commits (smc_st_update (\<lambda>_. SmcDmaInFlight)) (dma_read fuel dev cs off dram len)"
  unfolding dma_read_def by (intro commits_intros keeps_map_err keeps_lift keeps_if keeps_ret)

lemma dma_read_self:
  assumes "dma_read fuel dev cs off dram len (s, h) = ((s', h'), r)"
  shows "s' = (case r of Inr _ \<Rightarrow> s\<lparr>smc_st := SmcDmaInFlight\<rparr> | Inl _ \<Rightarrow> s)" "r = Inr () \<Longrightarrow> smc_st s = SmcIdle"
proof -
  show "s' = (case r of Inr _ \<Rightarrow> s\<lparr>smc_st := SmcDmaInFlight\<rparr> | Inl _ \<Rightarrow> s)"
    using dma_read_commits [unfolded commits_def, THEN spec, of fuel dev cs off dram len "(s, h)"] assms
    by (cases r) simp_all
  show "r = Inr () \<Longrightarrow> smc_st s = SmcIdle"
    using assms by (auto simp: dma_read_def ebind_def split: if_splits)
qed

lemma not_idle_refused:
  "smc_st s \<noteq> SmcIdle \<Longrightarrow> dma_read fuel dev cs off dram len (s, h) = ((s, h), Inl (SmcErr SmcControllerNotReady))"
  "smc_st s \<noteq> SmcIdle \<Longrightarrow> transceive_user dev s cs cmd payload n mode h = (h, Inl SmcControllerNotReady)"
  by (simp_all add: dma_read_def transceive_user_def ebind_def self_def)

lemma poll_table:
  assumes "smc_st s = SmcDmaInFlight" "poll_dma_completion dev (s, h) = (sh', r)"
  shows "(fst sh', r) = (let status = snd (smc_read dev FMC008 h) in
     if bit status 11 then (s\<lparr>smc_st := SmcIdle\<rparr>, PollReady (Inr ()))
     else if bit status 10 then (s\<lparr>smc_st := SmcIdle\<rparr>, PollReady (Inl SmcDmaAborted))
     else if bit status 9 then (s\<lparr>smc_st := SmcFaulted\<rparr>, PollReady (Inl SmcWriteProtected))
     else (s, PollPending))"
proof -
  let ?h = "fst (smc_read dev FMC008 h)" and ?v = "snd (smc_read dev FMC008 h)"
  have run: "hw (dma_status dev) (s, h) = ((s, ?h), Inr ?v)" by (simp add: hw_def dma_status_def smc_get_ok)
  show ?thesis
    using assms(2) complete_dma_self [of dev ?v s ?h] complete_dma_result [of dev ?v s ?h]
    by (cases "complete_dma dev ?v (s, ?h)")
      (auto simp: poll_dma_completion_def assms(1) run relevant_bits decode_with_context_def Let_def split: if_splits)
qed

text \<open>
  C37: The state of the controller decides what is admitted, for every device. While a transfer is in flight, or after a
  fault, a new DMA read and a user-mode transfer are refused without touching the hardware; a DMA read that succeeds
  starts from the idle state and puts the transfer in flight, one that fails leaves the controller as it was; polling
  reports a result only while a transfer is in flight, and what it reports and the state it leaves follow from the
  status bits by a fixed table.
\<close>

theorem dma_state_table:
  "(smc_st s \<noteq> SmcIdle \<longrightarrow>
      dma_read fuel dev cs off dram len (s, h) = ((s, h), Inl (SmcErr SmcControllerNotReady))
    \<and> transceive_user dev s cs cmd payload n mode h = (h, Inl SmcControllerNotReady))
   \<and> (\<forall>s' h' r. dma_read fuel dev cs off dram len (s, h) = ((s', h'), r) \<longrightarrow>
      s' = (case r of Inr _ \<Rightarrow> s\<lparr>smc_st := SmcDmaInFlight\<rparr> | Inl _ \<Rightarrow> s) \<and> (r = Inr () \<longrightarrow> smc_st s = SmcIdle))
   \<and> (smc_st s \<noteq> SmcDmaInFlight \<longrightarrow> poll_dma_completion dev (s, h) = ((s, h), PollReady (Inl SmcControllerNotReady)))
   \<and> (\<forall>sh' r. smc_st s = SmcDmaInFlight \<and> poll_dma_completion dev (s, h) = (sh', r) \<longrightarrow>
      (fst sh', r) = (let status = snd (smc_read dev FMC008 h) in
         if bit status 11 then (s\<lparr>smc_st := SmcIdle\<rparr>, PollReady (Inr ()))
         else if bit status 10 then (s\<lparr>smc_st := SmcIdle\<rparr>, PollReady (Inl SmcDmaAborted))
         else if bit status 9 then (s\<lparr>smc_st := SmcFaulted\<rparr>, PollReady (Inl SmcWriteProtected))
         else (s, PollPending)))"
proof (intro conjI impI allI)
  show "poll_dma_completion dev (s, h) = ((s, h), PollReady (Inl SmcControllerNotReady))" if "smc_st s \<noteq> SmcDmaInFlight"
    using that by (simp add: poll_dma_completion_def)
qed (auto simp: not_idle_refused dest: dma_read_self poll_table)

theorem dma_state_table_witness:
  "poll_dma_completion demo_dev (demo_smc, (demo_chip, \<lambda>_. 0)) =
     ((demo_smc, (demo_chip, \<lambda>_. 0)), PollReady (Inl SmcControllerNotReady))
   \<and> dma_read 1 demo_dev Cs0 0 0 4 (demo_smc\<lparr>smc_st := SmcFaulted\<rparr>, (demo_chip, \<lambda>_. 0)) =
     ((demo_smc\<lparr>smc_st := SmcFaulted\<rparr>, (demo_chip, \<lambda>_. 0)), Inl (SmcErr SmcControllerNotReady))"
  using dma_state_table [of demo_smc 1 demo_dev Cs0 0 0 4 "(demo_chip, \<lambda>_. 0)"]
    dma_state_table [of "demo_smc\<lparr>smc_st := SmcFaulted\<rparr>" 1 demo_dev Cs0 0 0 4 "(demo_chip, \<lambda>_. 0)"]
  by (simp add: demo_smc_def)

section \<open>Requests\<close>















end
