(* ===== verification/Pldm_Service.thy ===== *)
theory Pldm_Service
  imports Mctp_Client
begin

text \<open>
  The PLDM firmware-device service (\<open>services/pldm/src\<close>): the transport that carries PLDM messages over the stack facade
  (\<open>transport.rs\<close>) and the loop that serves an update agent (\<open>firmware_device.rs\<close>). The PLDM state machine
  (\<open>CmdInterface\<close> of the crate \<open>pldm-interface\<close>) is a record of its methods over a state; the
  MCTP clients are records as in the stack facade, over one world state, since the two transports of
  a device may share an endpoint. A panic is \<^const>\<open>None\<close>.
\<close>

section \<open>Errors\<close>

datatype pldm_mem_error = PldmMalformedBuffer | PldmOverflowMaxSize | PldmBufferTooSmall

datatype 'm pldm_service_error = PldmMctp response_code | PldmMsgHandler 'm | PldmMem pldm_mem_error

definition is_timeout :: "response_code \<Rightarrow> bool" where
  "is_timeout e \<longleftrightarrow> e = RcTimedOut"

definition map_pldm_err :: "('e \<Rightarrow> 'f) \<Rightarrow> ('e, 'a) result \<Rightarrow> ('f, 'a) result" where
  "map_pldm_err f r = (case r of Inl e \<Rightarrow> Inl (f e) | Inr x \<Rightarrow> Inr x)"

section \<open>The transport\<close>

text \<open>
  The type byte \<open>MCTP_PLDM_MSG_TYPE\<close> comes from the crate \<open>pldm-common\<close> and is the argument \<open>ty\<close>. \<open>checked_add\<close> is on a
  32-bit \<open>usize\<close>. The request channel is dropped on every return after it was opened.
\<close>

definition send_request ::
  "'c mctp_client \<Rightarrow> u8 \<Rightarrow> 'c \<Rightarrow> u8 \<Rightarrow> nat \<Rightarrow> u8 list \<Rightarrow> u32
   \<Rightarrow> ('c \<times> u8 list \<times> ('m pldm_service_error, nat) result) option" where
  "send_request cl ty c remote_eid pldm_len buf timeout_millis =
     (if buf = [] then Some (c, buf, Inl (PldmMem PldmMalformedBuffer))
      else let buf = buf[0 := ty] in
        case stack_req cl c remote_eid timeout_millis of
          (c, Inl e) \<Rightarrow> Some (c, buf, Inl (PldmMctp e))
        | (c, Inr ch) \<Rightarrow>
            if pldm_len + 1 \<ge> 2 ^ 32 then Some (req_drop cl c ch, buf, Inl (PldmMem PldmOverflowMaxSize))
            else if pldm_len + 1 > length buf then Some (req_drop cl c ch, buf, Inl (PldmMem PldmBufferTooSmall))
            else case req_send cl c ch ty (take pldm_len (drop 1 buf)) of
              (c, ch, Inl e) \<Rightarrow> Some (req_drop cl c ch, buf, Inl (PldmMctp e))
            | (c, ch, Inr _) \<Rightarrow>
                (case req_recv cl c ch (drop 1 buf) of
                   None \<Rightarrow> None
                 | Some (c, ch, recv_buf, Inl e) \<Rightarrow> Some (req_drop cl c ch, hd buf # recv_buf, Inl (PldmMctp e))
                 | Some (c, ch, recv_buf, Inr (meta, _)) \<Rightarrow>
                     Some (req_drop cl c ch, hd buf # recv_buf, Inr (md_payload_size meta))))"

definition responder_listener ::
  "'c mctp_client \<Rightarrow> u8 \<Rightarrow> 'c \<Rightarrow> u32 \<Rightarrow> 'c \<times> ('m pldm_service_error, listener_channel) result" where
  "responder_listener cl ty c timeout_millis =
     (case stack_listener cl c ty timeout_millis of (c, r) \<Rightarrow> (c, map_pldm_err PldmMctp r))"

text \<open>A handler changes its own state and the buffer, and returns the length of its response.\<close>

type_synonym ('f, 'm) pldm_handler = "'f \<Rightarrow> u8 list \<Rightarrow> nat \<Rightarrow> u8 \<Rightarrow> 'f \<times> u8 list \<times> ('m pldm_service_error, nat) result"

definition respond_once ::
  "'c mctp_client \<Rightarrow> u8 \<Rightarrow> 'c \<Rightarrow> listener_channel \<Rightarrow> u8 list \<Rightarrow> ('f, 'm) pldm_handler \<Rightarrow> 'f
   \<Rightarrow> ('c \<times> u8 list \<times> 'f \<times> ('m pldm_service_error, unit) result) option" where
  "respond_once cl ty c listener buf handler f =
     (if buf = [] then Some (c, buf, f, Inl (PldmMem PldmBufferTooSmall))
      else case listener_recv cl c listener (drop 1 buf) of
        None \<Rightarrow> None
      | Some (c, recv_buf, Inl e) \<Rightarrow> Some (c, hd buf # recv_buf, f, Inl (PldmMctp e))
      | Some (c, recv_buf, Inr (meta, _, resp_channel)) \<Rightarrow>
          let buf = ty # recv_buf; payload_size = md_payload_size meta
          in if payload_size + 1 \<ge> 2 ^ 32 \<or> payload_size + 1 > length buf
             then Some (c, buf, f, Inl (PldmMem PldmBufferTooSmall))
             else case handler f buf (payload_size + 1) (md_remote_eid meta) of
               (f, buf, Inl e) \<Rightarrow> Some (c, buf, f, Inl e)
             | (f, buf, Inr resp_total_len) \<Rightarrow>
                 if resp_total_len = 0 then Some (c, buf, f, Inr ())
                 else if resp_total_len > length buf then Some (c, buf, f, Inl (PldmMem PldmBufferTooSmall))
                 else case resp_send cl c resp_channel (take (resp_total_len - 1) (drop 1 buf)) of
                   (c, r) \<Rightarrow> Some (c, buf, f, map_pldm_err PldmMctp r))"

definition recv_and_respond ::
  "'c mctp_client \<Rightarrow> u8 \<Rightarrow> 'c \<Rightarrow> u8 list \<Rightarrow> u32 \<Rightarrow> ('f, 'm) pldm_handler \<Rightarrow> 'f
   \<Rightarrow> ('c \<times> u8 list \<times> 'f \<times> ('m pldm_service_error, unit) result) option" where
  "recv_and_respond cl ty c buf timeout_millis handler f =
     (case responder_listener cl ty c timeout_millis of
        (c, Inl e) \<Rightarrow> Some (c, buf, f, Inl e)
      | (c, Inr listener) \<Rightarrow>
          (case respond_once cl ty c listener buf handler f of
             None \<Rightarrow> None
           | Some (c, buf, f, r) \<Rightarrow> Some (listener_drop cl c listener, buf, f, r)))"

section \<open>The firmware device\<close>

text \<open>
  The methods of \<open>CmdInterface\<close> that the loop calls. Each gets the buffer it may change; a buffer is a slice in the source, so its
  length stays the same.
\<close>

record ('f, 'm) cmd_interface =
  should_start_initiator_mode :: "'f \<Rightarrow> bool"
  is_update_mode :: "'f \<Rightarrow> bool"
  generate_initiator_request :: "'f \<Rightarrow> u8 list \<Rightarrow> 'f \<times> u8 list \<times> ('m, nat option) result"
  process_initiator_response :: "'f \<Rightarrow> u8 list \<Rightarrow> 'f \<times> u8 list \<times> ('m, unit) result"
  handle_responder_msg :: "'f \<Rightarrow> u8 list \<Rightarrow> 'f \<times> u8 list \<times> ('m, nat) result"

definition slices :: "('f, 'm) cmd_interface \<Rightarrow> bool" where
  "slices ci \<longleftrightarrow> (\<forall>f b. length (fst (snd (generate_initiator_request ci f b))) = length b
     \<and> length (fst (snd (process_initiator_response ci f b))) = length b
     \<and> length (fst (snd (handle_responder_msg ci f b))) = length b)"

datatype fd_event = UpdateRequested

definition FD_MAX_MSG :: nat where "FD_MAX_MSG = 1024"
definition RESPONDER_POLL_TIMEOUT_MILLIS :: u32 where "RESPONDER_POLL_TIMEOUT_MILLIS = 1"

text \<open>
  The parts of a device that do not change (the two clients, the state machine's methods, the sink's method, the type
  byte) and the arguments of \<open>run_until\<close>; and the state that the loop carries.
\<close>

record ('w, 'f, 'm, 's) fd_env =
  responder_client :: "'w mctp_client"
  requester_client :: "'w mctp_client"
  cmds :: "('f, 'm) cmd_interface"
  sink_notify :: "'s \<Rightarrow> fd_event \<Rightarrow> 's"
  pldm_type :: u8
  remote_eid :: u8
  timeout_millis :: u32
  requester_timeout_millis :: u32

record ('w, 'f, 's) fd_state =
  fd_world :: 'w
  fd_cmd :: 'f
  fd_sink :: 's
  fd_listener :: listener_channel
  fw_buf :: "u8 list"
  msg_buf :: "u8 list"

text \<open>The first phase: at most one request of the device to the update agent.\<close>

definition initiator_phase ::
  "('w, 'f, 'm, 's) fd_env \<Rightarrow> ('w, 'f, 's) fd_state \<Rightarrow> (('w, 'f, 's) fd_state \<times> ('m pldm_service_error, unit) result) option" where
  "initiator_phase env s =
     (case generate_initiator_request (cmds env) (fd_cmd s) (fw_buf s) of
        (f, b, Inl e) \<Rightarrow> Some (s\<lparr>fd_cmd := f, fw_buf := b\<rparr>, Inl (PldmMsgHandler e))
      | (f, b, Inr None) \<Rightarrow> Some (s\<lparr>fd_cmd := f, fw_buf := b\<rparr>, Inr ())
      | (f, b, Inr (Some pldm_len)) \<Rightarrow>
          (case send_request (requester_client env) (pldm_type env) (fd_world s) (remote_eid env) pldm_len b
                  (requester_timeout_millis env) of
             None \<Rightarrow> None
           | Some (w, b, Inl e) \<Rightarrow> Some (s\<lparr>fd_world := w, fd_cmd := f, fw_buf := b\<rparr>, Inl e)
           | Some (w, b, Inr resp_len) \<Rightarrow>
               let s = s\<lparr>fd_world := w, fd_cmd := f, fw_buf := b\<rparr>
               in if resp_len + 1 \<ge> 2 ^ 32 then Some (s, Inl (PldmMem PldmOverflowMaxSize))
                  else if resp_len + 1 > length b then Some (s, Inl (PldmMem PldmBufferTooSmall))
                  else case process_initiator_response (cmds env) f (take (resp_len + 1) b) of
                    (f, resp, r) \<Rightarrow>
                      Some (s\<lparr>fd_cmd := f, fw_buf := resp @ drop (resp_len + 1) b\<rparr>, map_pldm_err PldmMsgHandler r)))"

definition agent_handler :: "('w, 'f, 'm, 's) fd_env \<Rightarrow> ('f, 'm) pldm_handler" where
  "agent_handler env f framed_buf req_total_len source_eid =
     (if source_eid \<noteq> remote_eid env then (f, framed_buf, Inr 0)
      else case handle_responder_msg (cmds env) f framed_buf of
        (f, b, r) \<Rightarrow> (f, b, map_pldm_err PldmMsgHandler r))"

text \<open>The second phase: one poll for a command of the update agent.\<close>

definition responder_phase ::
  "('w, 'f, 'm, 's) fd_env \<Rightarrow> bool \<Rightarrow> ('w, 'f, 's) fd_state \<Rightarrow> (('w, 'f, 's) fd_state \<times> ('m pldm_service_error, unit) result) option" where
  "responder_phase env initiator_active s =
     (let poll_timeout = (if initiator_active then RESPONDER_POLL_TIMEOUT_MILLIS else timeout_millis env);
          listener = listener_set_timeout (fd_listener s) poll_timeout;
          was_update_mode = is_update_mode (cmds env) (fd_cmd s)
      in case respond_once (responder_client env) (pldm_type env) (fd_world s) listener (msg_buf s) (agent_handler env) (fd_cmd s) of
           None \<Rightarrow> None
         | Some (w, b, f, r) \<Rightarrow>
             let s = s\<lparr>fd_world := w, fd_cmd := f, fd_listener := listener, msg_buf := b\<rparr>
             in case r of
                  Inr _ \<Rightarrow>
                    Some (if \<not> was_update_mode \<and> is_update_mode (cmds env) f
                          then s\<lparr>fd_sink := sink_notify env (fd_sink s) UpdateRequested\<rparr> else s, Inr ())
                | Inl (PldmMctp e) \<Rightarrow> Some (s, if initiator_active \<and> is_timeout e then Inr () else Inl (PldmMctp e))
                | Inl e \<Rightarrow> Some (s, Inl e))"

definition run_once_inner ::
  "('w, 'f, 'm, 's) fd_env \<Rightarrow> ('w, 'f, 's) fd_state \<Rightarrow> (('w, 'f, 's) fd_state \<times> ('m pldm_service_error, unit) result) option" where
  "run_once_inner env s =
     (let initiator_active = should_start_initiator_mode (cmds env) (fd_cmd s)
      in case if initiator_active then initiator_phase env s else Some (s, Inr ()) of
           None \<Rightarrow> None
         | Some (s, Inl e) \<Rightarrow> Some (s, Inl e)
         | Some (s, Inr _) \<Rightarrow> responder_phase env initiator_active s)"

text \<open>
  The loop asks \<open>should_continue\<close> before each step; that closure may do other work on the state of the sink. The loop need not
  end, so it runs on fuel: \<open>FdRunning\<close> says that it is still running after that many steps.
\<close>

datatype 'm run_terminus_result = FdCompleted | FdStoppedByError "'m pldm_service_error" | FdPanicked | FdRunning

fun run_loop ::
  "nat \<Rightarrow> ('w, 'f, 'm, 's) fd_env \<Rightarrow> ('s \<Rightarrow> 's \<times> bool) \<Rightarrow> ('w, 'f, 's) fd_state \<Rightarrow> ('w, 'f, 's) fd_state \<times> 'm run_terminus_result" where
  "run_loop 0 env should_continue s = (s, FdRunning)"
| "run_loop (Suc n) env should_continue s =
     (case should_continue (fd_sink s) of
        (k, False) \<Rightarrow> (s\<lparr>fd_sink := k\<rparr>, FdCompleted)
      | (k, True) \<Rightarrow>
          (case run_once_inner env (s\<lparr>fd_sink := k\<rparr>) of
             None \<Rightarrow> (s\<lparr>fd_sink := k\<rparr>, FdPanicked)
           | Some (s, Inl e) \<Rightarrow> (s, FdStoppedByError e)
           | Some (s, Inr _) \<Rightarrow> run_loop n env should_continue s))"

text \<open>The listener is dropped when \<open>run_until\<close> returns.\<close>

definition run_until ::
  "nat \<Rightarrow> ('w, 'f, 'm, 's) fd_env \<Rightarrow> ('s \<Rightarrow> 's \<times> bool) \<Rightarrow> 'w \<Rightarrow> 'f \<Rightarrow> 's \<Rightarrow> u8 list
   \<Rightarrow> ('w \<times> 'f \<times> 's \<times> u8 list) \<times> 'm run_terminus_result" where
  "run_until fuel env should_continue w f k buf =
     (case responder_listener (responder_client env) (pldm_type env) w (timeout_millis env) of
        (w, Inl e) \<Rightarrow> ((w, f, k, buf), FdStoppedByError e)
      | (w, Inr listener) \<Rightarrow>
          (case run_loop fuel env should_continue
                  \<lparr>fd_world = w, fd_cmd = f, fd_sink = k, fd_listener = listener, fw_buf = replicate FD_MAX_MSG 0,
                   msg_buf = buf\<rparr> of
             (s, r) \<Rightarrow> ((if r \<in> {FdPanicked, FdRunning} then fd_world s
                         else listener_drop (responder_client env) (fd_world s) (fd_listener s),
                        fd_cmd s, fd_sink s, msg_buf s), r)))"

definition run_terminus ::
  "nat \<Rightarrow> ('w, 'f, 'm, 's) fd_env \<Rightarrow> 'w \<Rightarrow> 'f \<Rightarrow> 's \<Rightarrow> u8 list \<Rightarrow> ('w \<times> 'f \<times> 's \<times> u8 list) \<times> 'm run_terminus_result" where
  "run_terminus fuel env = run_until fuel env (\<lambda>k. (k, True))"

end
