(* ===== verification/Pldm_Properties.thy ===== *)
theory Pldm_Properties
  imports Pldm_Service
begin

text \<open>
  Properties of the PLDM service. A client promises not to change the length of a buffer and not to report a
  payload that the wire protocol cannot carry (the locale \<open>bounded_client\<close>); the IPC client keeps this promise
  over every channel, and then a device with buffers of 1024 bytes never panics. Commands reach the PLDM state machine only
  from the configured update agent.
\<close>

section \<open>Bounded clients\<close>

locale bounded_client =
  fixes cl :: "'c mctp_client"
  assumes recv_bounded: "cl_recv cl c h t buf = (c', buf', r) \<Longrightarrow>
      length buf' = length buf \<and> (\<forall>meta. r = Inr meta \<longrightarrow> md_payload_size meta \<le> MAX_PAYLOAD_SIZE)"
begin

lemma listener_recv_total:
  assumes "MAX_PAYLOAD_SIZE \<le> length buf"
  shows "\<exists>c' buf' r. listener_recv cl c lc buf = Some (c', buf', r) \<and> length buf' = length buf"
proof -
  obtain c' buf' r where "cl_recv cl c (lc_handle lc) (lc_timeout lc) buf = (c', buf', r)" by (metis prod_cases3)
  with recv_bounded [OF this] assms show ?thesis
    by (cases r) (auto simp: listener_recv_def slice_to_def)
qed

lemma req_recv_total:
  assumes "MAX_PAYLOAD_SIZE \<le> length buf"
  shows "\<exists>c' ch' buf' r. req_recv cl c ch buf = Some (c', ch', buf', r) \<and> length buf' = length buf"
proof -
  obtain c' buf' r where "cl_recv cl c (rc_handle ch) (rc_timeout ch) buf = (c', buf', r)" by (metis prod_cases3)
  with recv_bounded [OF this] assms show ?thesis
    by (cases r) (auto simp: req_recv_def slice_to_def)
qed

lemma send_request_total:
  assumes "MAX_PAYLOAD_SIZE < length buf"
  shows "\<exists>c' buf' r. send_request cl ty c eid n buf t = Some (c', buf', r) \<and> length buf' = length buf"
proof -
  have ne: "buf \<noteq> []" "MAX_PAYLOAD_SIZE \<le> length (drop 1 (buf[0 := ty]))" using assms by auto
  show ?thesis
  proof (cases "stack_req cl c eid t")
    case (Pair c1 res)
    show ?thesis
    proof (cases "req_send cl c1 (projr res) ty (take n (drop 1 (buf[0 := ty])))")
      case (fields c2 ch2 sent)
      from req_recv_total [OF ne(2), of c2 ch2] Pair fields ne(1) show ?thesis
        by (cases res; cases sent) (auto simp: send_request_def Let_def split: sum.splits option.splits)
    qed
  qed
qed

lemma respond_once_total:
  assumes "MAX_PAYLOAD_SIZE < length buf" "\<And>f b n e. length (fst (snd (handler f b n e))) = length b"
  shows "\<exists>c' buf' f' r. respond_once cl ty c lc buf handler f = Some (c', buf', f', r) \<and> length buf' = length buf"
proof -
  have ne: "buf \<noteq> []" "MAX_PAYLOAD_SIZE \<le> length (drop 1 buf)" using assms(1) by auto
  from listener_recv_total [OF ne(2), of c lc] obtain c1 b1 res
    where r: "listener_recv cl c lc (drop 1 buf) = Some (c1, b1, res)" "length b1 = length (drop 1 buf)" by auto
  show ?thesis
  proof (cases res)
    case (Inr x)
    obtain meta p pc where x: "x = (meta, p, pc)" by (cases x)
    obtain f2 b2 r2 where h: "handler f (ty # b1) (md_payload_size meta + 1) (md_remote_eid meta) = (f2, b2, r2)"
      by (metis prod_cases3)
    have "length b2 = length buf" using assms(2) [of f "ty # b1"] h r(2) ne(1) by (metis fst_conv snd_conv length_Cons length_drop Suc_diff_1 One_nat_def length_greater_0_conv)
    then show ?thesis using r ne(1) Inr x h
      by (cases r2) (auto simp: respond_once_def Let_def split: prod.splits)
  qed (use r ne in \<open>auto simp: respond_once_def\<close>)
qed

end

text \<open>The IPC client, over any channel.\<close>

lemma ipc_recv_bounded:
  assumes "ipc_recv ch c h t buf = (c', buf', r)"
  shows "length buf' = length buf \<and> (\<forall>meta. r = Inr meta \<longrightarrow> md_payload_size meta \<le> MAX_PAYLOAD_SIZE)"
proof -
  have len: "n \<le> MAX_RESPONSE_SIZE \<and> RESP_SIZE \<le> n" if "transact ch c1 m = (c2, Inr (hdr, n))" for c1 m c2 hdr n
    using that by (auto simp: transact_def split: prod.splits sum.splits if_splits)
  have pay: "length p \<le> n - RESP_SIZE" if "get_response_payload (take n b) hdr = Inr p" for n b hdr p
    using that by (auto simp: get_response_payload_def Let_def split: if_splits)
  show ?thesis
    using assms len pay
    by (fastforce simp: ipc_recv_def Let_def MAX_RESPONSE_SIZE_def split: prod.splits sum.splits)
qed

interpretation ipc_bounded: bounded_client "ipc_client_ops ch" for ch
  by unfold_locales (simp add: ipc_client_ops_def ipc_recv_bounded)

text \<open>
  A device has two clients. Each is a part of the world of the device: \<open>client_at\<close> runs the operations of a client on its part.
\<close>

definition client_at :: "('w \<Rightarrow> 'c) \<Rightarrow> ('c \<Rightarrow> 'w \<Rightarrow> 'w) \<Rightarrow> 'c mctp_client \<Rightarrow> 'w mctp_client" where
  "client_at g p cl =
     \<lparr>cl_req = (\<lambda>w e. case cl_req cl (g w) e of (c, r) \<Rightarrow> (p c w, r)),
      cl_listener = (\<lambda>w ty. case cl_listener cl (g w) ty of (c, r) \<Rightarrow> (p c w, r)),
      cl_get_eid = (\<lambda>w. case cl_get_eid cl (g w) of (c, r) \<Rightarrow> (p c w, r)),
      cl_set_eid = (\<lambda>w e. case cl_set_eid cl (g w) e of (c, r) \<Rightarrow> (p c w, r)),
      cl_recv = (\<lambda>w h t b. case cl_recv cl (g w) h t b of (c, r) \<Rightarrow> (p c w, r)),
      cl_send = (\<lambda>w oh ty oe tg ic b. case cl_send cl (g w) oh ty oe tg ic b of (c, r) \<Rightarrow> (p c w, r)),
      cl_drop_handle = (\<lambda>w h. p (cl_drop_handle cl (g w) h) w)\<rparr>"

lemma client_at_bounded: "bounded_client cl \<Longrightarrow> bounded_client (client_at g p cl)"
  by (auto simp: bounded_client_def client_at_def split: prod.splits)

lemma client_at_ipc_bounded: "bounded_client (client_at g p (ipc_client_ops ch))"
  by (rule client_at_bounded) unfold_locales

section \<open>The loop\<close>

definition fd_bufs_ok :: "('w, 'f, 's) fd_state \<Rightarrow> bool" where
  "fd_bufs_ok s \<longleftrightarrow> length (fw_buf s) = FD_MAX_MSG \<and> length (msg_buf s) \<ge> FD_MAX_MSG"

lemma FD_MAX_MSG_payload: "FD_MAX_MSG = Suc MAX_PAYLOAD_SIZE"
  by (simp add: FD_MAX_MSG_def MAX_PAYLOAD_SIZE_def)

lemma slicesD:
  assumes "slices ci"
  shows "generate_initiator_request ci f b = (f', b', g) \<Longrightarrow> length b' = length b"
    "process_initiator_response ci f b = (f', b', r) \<Longrightarrow> length b' = length b"
    "handle_responder_msg ci f b = (f', b', h) \<Longrightarrow> length b' = length b"
  using assms [unfolded slices_def, rule_format, of f b] by auto

lemma initiator_phase_total:
  fixes env :: "('w, 'f, 'm, 's) fd_env"
  assumes "bounded_client (requester_client env)" "slices (cmds env)" "fd_bufs_ok s"
  shows "\<exists>s' r. initiator_phase env s = Some (s', r) \<and> fd_bufs_ok s'"
proof -
  obtain f b g where gen: "generate_initiator_request (cmds env) (fd_cmd s) (fw_buf s) = (f, b, g)" by (metis prod_cases3)
  then have b: "length b = FD_MAX_MSG" using slicesD(1) [OF assms(2)] assms(3) by (simp add: fd_bufs_ok_def)
  have "\<exists>w' b' r. send_request (requester_client env) (pldm_type env) (fd_world s) (remote_eid env) n b
      (requester_timeout_millis env) = Some (w', b', r :: ('m pldm_service_error, nat) result) \<and> length b' = FD_MAX_MSG" for n
    using bounded_client.send_request_total [OF assms(1), of b] b by (simp add: FD_MAX_MSG_payload)
  then obtain w' b' and r :: "('m pldm_service_error, nat) result" where req: "send_request (requester_client env) (pldm_type env) (fd_world s) (remote_eid env) (the (projr g)) b
      (requester_timeout_millis env) = Some (w', b', r)" "length b' = FD_MAX_MSG" by blast
  obtain f2 b2 r2 where proc: "process_initiator_response (cmds env) f (take (projr r + 1) b') = (f2, b2, r2)" by (metis prod_cases3)
  have "length b2 = length (take (projr r + 1) b')" using slicesD(2) [OF assms(2) proc] .
  with gen b req proc assms(3) show ?thesis
    by (cases g; cases "projr g"; cases r) (auto simp: initiator_phase_def fd_bufs_ok_def Let_def)
qed

lemma responder_phase_total:
  assumes "bounded_client (responder_client env)" "slices (cmds env)" "fd_bufs_ok s"
  shows "\<exists>s' r. responder_phase env a s = Some (s', r) \<and> fd_bufs_ok s'"
proof -
  have "length (fst (snd (agent_handler env f b n e))) = length b" for f b n e
    using slicesD(3) [OF assms(2)] by (auto simp: agent_handler_def split: prod.splits)
  moreover have "MAX_PAYLOAD_SIZE < length (msg_buf s)" using assms(3) by (simp add: fd_bufs_ok_def FD_MAX_MSG_payload)
  ultimately obtain w b f r where "respond_once (responder_client env) (pldm_type env) (fd_world s)
      (listener_set_timeout (fd_listener s) (if a then RESPONDER_POLL_TIMEOUT_MILLIS else timeout_millis env)) (msg_buf s)
      (agent_handler env) (fd_cmd s) = Some (w, b, f, r)" "length b = length (msg_buf s)"
    using bounded_client.respond_once_total [OF assms(1), of "msg_buf s" "agent_handler env"] by metis
  then show ?thesis using assms(3)
    by (auto simp: responder_phase_def fd_bufs_ok_def Let_def split: sum.splits pldm_service_error.splits)
qed

lemma run_once_total:
  assumes "bounded_client (requester_client env)" "bounded_client (responder_client env)" "slices (cmds env)" "fd_bufs_ok s"
  shows "\<exists>s' r. run_once_inner env s = Some (s', r) \<and> fd_bufs_ok s'"
proof (cases "should_start_initiator_mode (cmds env) (fd_cmd s)")
  case True
  obtain s1 r where 1: "initiator_phase env s = Some (s1, r)" "fd_bufs_ok s1"
    using initiator_phase_total [OF assms(1,3,4)] by blast
  with True responder_phase_total [OF assms(2,3) 1(2), of True] show ?thesis
    by (cases r) (auto simp: run_once_inner_def)
next
  case False
  with responder_phase_total [OF assms(2,3,4), of False] show ?thesis by (simp add: run_once_inner_def)
qed

lemma run_loop_never_panics:
  assumes "bounded_client (requester_client env)" "bounded_client (responder_client env)" "slices (cmds env)"
  shows "fd_bufs_ok s \<Longrightarrow> snd (run_loop n env cont s) \<noteq> FdPanicked"
proof (induction n arbitrary: s)
  case (Suc n)
  obtain k b where k: "cont (fd_sink s) = (k, b)" by (cases "cont (fd_sink s)")
  have "fd_bufs_ok (s\<lparr>fd_sink := k\<rparr>)" using Suc.prems by (simp add: fd_bufs_ok_def)
  then obtain s' r where 1: "run_once_inner env (s\<lparr>fd_sink := k\<rparr>) = Some (s', r)" "fd_bufs_ok s'"
    using run_once_total [OF assms] by blast
  with k Suc.IH [OF 1(2)] show ?case by (cases b; cases r) simp_all
qed simp

text \<open>
  C19: The PLDM service never panics. With IPC clients on both sides, over any channels (whatever the server answers), any PLDM
  state machine and any caller of \<open>run_until\<close>, and a message buffer of at least 1024 bytes, the loop
  never reaches a panic, however long it runs: the scratch buffer of \<open>FD_MAX_MSG\<close> bytes and the caller's buffer hold
  the largest payload of the wire protocol and the type byte.
\<close>

theorem pldm_never_panics:
  assumes "responder_client env = client_at g1 p1 (ipc_client_ops ch1)"
    and "requester_client env = client_at g2 p2 (ipc_client_ops ch2)"
    and "slices (cmds env)" "length buf \<ge> 1024"
  shows "snd (run_until fuel env cont w f k buf) \<noteq> FdPanicked"
proof -
  have "fd_bufs_ok \<lparr>fd_world = w1, fd_cmd = f, fd_sink = k, fd_listener = l, fw_buf = replicate FD_MAX_MSG 0, msg_buf = buf\<rparr>"
    for w1 l using assms(4) by (simp add: fd_bufs_ok_def FD_MAX_MSG_def)
  from run_loop_never_panics [OF _ _ assms(3) this] show ?thesis
    by (auto simp: run_until_def assms(1,2) client_at_ipc_bounded split: prod.split sum.split) (metis snd_conv)
qed

text \<open>Two IPC clients of one process: each has buffers of its own and both reach the same kernel.\<close>

definition put_responder :: "'w ipc_client \<Rightarrow> 'w ipc_client \<times> 'w ipc_client \<Rightarrow> 'w ipc_client \<times> 'w ipc_client" where
  "put_responder c ab = (c, (snd ab)\<lparr>ic_world := ic_world c\<rparr>)"

definition put_requester :: "'w ipc_client \<Rightarrow> 'w ipc_client \<times> 'w ipc_client \<Rightarrow> 'w ipc_client \<times> 'w ipc_client" where
  "put_requester c ab = ((fst ab)\<lparr>ic_world := ic_world c\<rparr>, c)"

text \<open>A small PLDM state machine: command 1 requests an update and is answered with two bytes.\<close>

definition demo_cmds :: "(bool, unit) cmd_interface" where
  "demo_cmds = \<lparr>should_start_initiator_mode = (\<lambda>_. False), is_update_mode = id,
     generate_initiator_request = (\<lambda>f b. (f, b, Inr None)), process_initiator_response = (\<lambda>f b. (f, b, Inr ())),
     handle_responder_msg = (\<lambda>f b. (f \<or> (length b > 1 \<and> b ! 1 = 1), b, Inr 3))\<rparr>"

lemma demo_cmds_slices: "slices demo_cmds"
  by (simp add: slices_def demo_cmds_def)

definition demo_env :: "'w mctp_client \<Rightarrow> 'w mctp_client \<Rightarrow> ('s \<Rightarrow> fd_event \<Rightarrow> 's) \<Rightarrow> ('w, bool, unit, 's) fd_env" where
  "demo_env rc qc n = \<lparr>responder_client = rc, requester_client = qc, cmds = demo_cmds, sink_notify = n, pldm_type = 1,
     remote_eid = 8, timeout_millis = 0, requester_timeout_millis = 100\<rparr>"

theorem pldm_never_panics_witness:
  "snd (run_until 1000000
      (demo_env (client_at fst put_responder (ipc_client_ops (served_channel queue_router 16 0)))
         (client_at snd put_requester (ipc_client_ops (served_channel queue_router 16 0))) (\<lambda>n _. n + (1 :: nat)))
      (\<lambda>n. (n, n < 7)) (fresh_client (server_new []), fresh_client (server_new [])) False 0 (replicate 1024 0)) \<noteq> FdPanicked"
  by (rule pldm_never_panics) (simp_all add: demo_env_def demo_cmds_slices)

section \<open>Foreign traffic\<close>

text \<open>The service as it would run with another requester, another way to send and another sink.\<close>

definition rewired ::
  "'w mctp_client \<Rightarrow> ('w \<Rightarrow> handle option \<Rightarrow> u8 \<Rightarrow> u8 option \<Rightarrow> u8 option \<Rightarrow> bool \<Rightarrow> u8 list \<Rightarrow> 'w \<times> (response_code, u8) result)
   \<Rightarrow> ('s \<Rightarrow> fd_event \<Rightarrow> 's) \<Rightarrow> ('w, 'f, 'm, 's) fd_env \<Rightarrow> ('w, 'f, 'm, 's) fd_env" where
  "rewired q sd n env =
     env\<lparr>requester_client := q, responder_client := (responder_client env)\<lparr>cl_send := sd\<rparr>, sink_notify := n\<rparr>"

definition foreign_only :: "('w, 'f, 'm, 's) fd_env \<Rightarrow> bool" where
  "foreign_only env \<longleftrightarrow> (\<forall>w h t b w' b' meta. cl_recv (responder_client env) w h t b = (w', b', Inr meta)
     \<longrightarrow> md_remote_eid meta \<noteq> remote_eid env)"

lemma rewired_simps [simp]:
  "responder_client (rewired q sd n env) = (responder_client env)\<lparr>cl_send := sd\<rparr>" "cmds (rewired q sd n env) = cmds env"
  "pldm_type (rewired q sd n env) = pldm_type env" "remote_eid (rewired q sd n env) = remote_eid env"
  "timeout_millis (rewired q sd n env) = timeout_millis env" "agent_handler (rewired q sd n env) = agent_handler env"
  by (simp_all add: rewired_def agent_handler_def fun_eq_iff)

lemma listener_recv_foreign:
  "listener_recv (cl\<lparr>cl_send := sd\<rparr>) c lc b = listener_recv cl c lc b"
  "foreign_only env \<Longrightarrow> listener_recv (responder_client env) c lc b = Some (c', b', Inr (meta, x)) \<Longrightarrow> md_remote_eid meta \<noteq> remote_eid env"
  by (auto simp: listener_recv_def foreign_only_def split: prod.splits sum.splits)

lemma respond_once_foreign:
  assumes "foreign_only env"
  shows "respond_once ((responder_client env)\<lparr>cl_send := sd\<rparr>) ty c lc b (agent_handler env) f =
      respond_once (responder_client env) ty c lc b (agent_handler env) f"
    "respond_once (responder_client env) ty c lc b (agent_handler env) f = Some (c', b', f', r) \<Longrightarrow> f' = f"
proof -
  have foreign: "agent_handler env f b' n (md_remote_eid meta) = (f, b', Inr 0)"
    if "listener_recv (responder_client env) c lc (drop 1 b) = Some (c', b'', Inr (meta, x))" for c' b'' meta x b' n
    using listener_recv_foreign(2) [OF assms that] by (simp add: agent_handler_def)
  show "respond_once ((responder_client env)\<lparr>cl_send := sd\<rparr>) ty c lc b (agent_handler env) f =
      respond_once (responder_client env) ty c lc b (agent_handler env) f"
    using foreign by (auto simp: respond_once_def listener_recv_foreign(1) Let_def split: option.split sum.split)
  show "f' = f" if "respond_once (responder_client env) ty c lc b (agent_handler env) f = Some (c', b', f', r)"
    using that foreign by (auto simp: respond_once_def Let_def split: option.splits sum.splits if_splits)
qed

lemma responder_phase_foreign:
  assumes "foreign_only env"
  shows "responder_phase (rewired q sd n env) a s = responder_phase env a s"
    "responder_phase env a s = Some (s', r) \<Longrightarrow> fd_cmd s' = fd_cmd s"
proof -
  let ?l = "listener_set_timeout (fd_listener s) (if a then RESPONDER_POLL_TIMEOUT_MILLIS else timeout_millis env)"
  let ?o = "respond_once (responder_client env) (pldm_type env) (fd_world s) ?l (msg_buf s) (agent_handler env) (fd_cmd s)"
  note once = respond_once_foreign [OF assms]
  have "responder_phase (rewired q sd n env) a s = responder_phase env a s
      \<and> (\<forall>s' r. responder_phase env a s = Some (s', r) \<longrightarrow> fd_cmd s' = fd_cmd s)"
  proof (cases ?o)
    case (Some x)
    obtain w b f r where x: "x = (w, b, f, r)" by (cases x)
    then have "f = fd_cmd s" using once(2) Some by simp
    with Some x show ?thesis
      by (cases r) (auto simp: responder_phase_def once(1) Let_def split: pldm_service_error.split)
  qed (cases a; simp add: responder_phase_def once(1) Let_def)
  then show "responder_phase (rewired q sd n env) a s = responder_phase env a s"
    "responder_phase env a s = Some (s', r) \<Longrightarrow> fd_cmd s' = fd_cmd s" by blast+
qed

lemma run_once_foreign:
  assumes "foreign_only env" "\<not> should_start_initiator_mode (cmds env) (fd_cmd s)"
  shows "run_once_inner (rewired q sd n env) s = run_once_inner env s"
    "run_once_inner env s = Some (s', r) \<Longrightarrow> fd_cmd s' = fd_cmd s"
  using assms(2) responder_phase_foreign [OF assms(1)] by (simp_all add: run_once_inner_def)

lemma run_loop_foreign:
  assumes "foreign_only env"
  shows "\<not> should_start_initiator_mode (cmds env) (fd_cmd s) \<Longrightarrow>
    run_loop m (rewired q sd n env) cont s = run_loop m env cont s \<and> fd_cmd (fst (run_loop m env cont s)) = fd_cmd s"
proof (induction m arbitrary: s)
  case (Suc m)
  obtain k b where k: "cont (fd_sink s) = (k, b)" by (cases "cont (fd_sink s)")
  let ?s = "s\<lparr>fd_sink := k\<rparr>"
  have idle: "\<not> should_start_initiator_mode (cmds env) (fd_cmd ?s)" using Suc.prems by simp
  note once = run_once_foreign [OF assms idle]
  show ?case
  proof (cases "run_once_inner env ?s")
    case (Some x)
    obtain s' r where x: "x = (s', r)" by (cases x)
    then have "fd_cmd s' = fd_cmd s" using once(2) Some by simp
    with Suc.IH [of s'] Suc.prems show ?thesis using k Some x by (cases b; cases r) (simp_all add: once(1))
  qed (use k in \<open>cases b; simp add: once(1)\<close>)
qed simp

text \<open>
  C20: Traffic from other endpoints is inert. If no message that the responder receives comes from the configured
  update agent, an idle device serves such messages for any number of steps without its PLDM state machine changing; and
  the run is the same whatever sending a response, notifying the sink or using the requester would do, since none of
  them happens.
\<close>

theorem foreign_traffic_inert:
  assumes "foreign_only env" "\<not> should_start_initiator_mode (cmds env) f"
  shows "run_until fuel (rewired q sd n env) cont w f k buf = run_until fuel env cont w f k buf
    \<and> fst (snd (fst (run_until fuel env cont w f k buf))) = f"
proof (cases "stack_listener (responder_client env) w (pldm_type env) (timeout_millis env)")
  case (Pair w1 r)
  have eq: "stack_listener ((responder_client env)\<lparr>cl_send := sd\<rparr>) w ty t = stack_listener (responder_client env) w ty t"
    "listener_drop ((responder_client env)\<lparr>cl_send := sd\<rparr>) w2 l = listener_drop (responder_client env) w2 l" for ty t w2 l
    by (simp_all add: stack_listener_def listener_drop_def)
  let ?s = "\<lparr>fd_world = w1, fd_cmd = f, fd_sink = k, fd_listener = projr r, fw_buf = replicate FD_MAX_MSG 0, msg_buf = buf\<rparr>"
  have "run_loop fuel (rewired q sd n env) cont ?s = run_loop fuel env cont ?s \<and> fd_cmd (fst (run_loop fuel env cont ?s)) = f"
    using run_loop_foreign [OF assms(1), of ?s] assms(2) by simp
  with Pair show ?thesis
    by (cases r) (auto simp: run_until_def responder_listener_def map_pldm_err_def eq split: prod.split)
qed

definition noise_client :: "nat mctp_client" where
  "noise_client =
     \<lparr>cl_req = (\<lambda>c e. (c, Inr 1)), cl_listener = (\<lambda>c ty. (c, Inr 2)), cl_get_eid = (\<lambda>c. (c, 0)), cl_set_eid = (\<lambda>c e. (c, Inr ())),
      cl_recv = (\<lambda>c h t b. (c + 1, b, Inr \<lparr>md_msg_type = 1, md_msg_ic = False, md_msg_tag = 0, md_remote_eid = 9, md_payload_size = 1\<rparr>)),
      cl_send = (\<lambda>c oh ty oe tg ic b. (c + 100, Inr 0)), cl_drop_handle = (\<lambda>c h. c)\<rparr>"

theorem foreign_traffic_inert_witness:
  "run_until 3 (demo_env noise_client noise_client (\<lambda>n _. n + (1 :: nat))) (\<lambda>k. (k, True)) 0 False 0 [0, 1] =
     ((3, False, 0, [1, 1]), FdRunning)"
proof -
  let ?env = "demo_env noise_client noise_client (\<lambda>n _. n + (1 :: nat))"
  have "foreign_only ?env" "\<not> should_start_initiator_mode (cmds ?env) False"
    by (auto simp: foreign_only_def demo_env_def noise_client_def demo_cmds_def)
  from foreign_traffic_inert [OF this, of 3 noise_client "cl_send noise_client" "\<lambda>n _. n" "\<lambda>k. (k, True)" 0 0 "[0, 1]"]
  have "fst (snd (fst (run_until 3 ?env (\<lambda>k. (k, True)) 0 False 0 [0, 1]))) = False" by blast
  then show ?thesis
    by (simp add: run_until_def responder_listener_def stack_listener_def map_pldm_err_def run_once_inner_def responder_phase_def
        respond_once_def listener_recv_def slice_to_def agent_handler_def demo_env_def noise_client_def demo_cmds_def
        numeral_3_eq_3 Let_def)
qed

section \<open>Short buffers\<close>

text \<open>
  A buffer that cannot hold a waiting request makes the responder panic. The transport has a check that returns
  \<open>BufferTooSmall\<close> for a payload that does not fit behind the type byte, but the stack facade has sliced the
  caller's buffer to the reported payload size before that check runs.
\<close>

theorem short_pldm_buffer_panics:
  assumes "wired c" "rt_recv ops (stack (server_at c)) (ucast (lc_handle lc)) = (r, Some msg)"
    and "buf \<noteq> []" "length buf < length (mm_payload msg) + 1" "length (mm_payload msg) \<le> 1023"
  shows "respond_once (ipc_client_ops (served_channel ops N now)) ty c lc buf handler f = None"
proof -
  have "length (drop 1 buf) < length (mm_payload msg)" "length (mm_payload msg) \<le> MAX_PAYLOAD_SIZE"
    using assms(3,4,5) by (cases buf; simp add: MAX_PAYLOAD_SIZE_def)+
  from ipc.small_buffer_panics(1) [OF assms(1,2) this] assms(3) show ?thesis by (simp add: respond_once_def)
qed

theorem short_pldm_buffer_panics_witness:
  "respond_once (ipc_client_ops (served_channel queue_router 16 0)) 1
     (fresh_client \<lparr>stack = [(5, sample_message [7, 8])], outstanding = []\<rparr>) \<lparr>lc_handle = 5, lc_timeout = 0\<rparr> [0, 0]
     (agent_handler (demo_env noise_client noise_client (\<lambda>n _. n + (1 :: nat)))) False = None"
  by (rule short_pldm_buffer_panics [OF wired_fresh, where r = "[]" and msg = "sample_message [7, 8]"])
    (simp_all add: fresh_client_def ipc_new_def queue_router_def sample_message_def lm_remove_def swap_remove_def)

section \<open>Notifications\<close>

lemma respond_once_send_fails:
  assumes "listener_recv cl c lc (drop 1 buf) = Some (c1, rb, Inr (meta, p, pc))" "buf \<noteq> []"
    and "md_payload_size meta + 1 < 2 ^ 32" "md_payload_size meta \<le> length rb"
    and "handler f (ty # rb) (md_payload_size meta + 1) (md_remote_eid meta) = (f', b', Inr n)" "0 < n" "n \<le> length b'"
    and "resp_send cl c1 pc (take (n - 1) (drop 1 b')) = (c2, Inl e)"
  shows "respond_once cl ty c lc buf handler f = Some (c2, b', f', Inl (PldmMctp e))"
  using assms by (simp add: respond_once_def Let_def map_pldm_err_def)

lemma update_mode_not_notified:
  "is_update_mode (cmds env) (fd_cmd t) \<Longrightarrow> responder_phase env a t = Some (t', r) \<Longrightarrow> fd_sink t' = fd_sink t"
  by (auto simp: responder_phase_def Let_def split: option.splits sum.splits pldm_service_error.splits)

text \<open>
  An accepted update request is not notified if its response cannot be sent. When an idle device receives a command of
  the update agent, the PLDM state machine accepts it and enters update mode, and sending the response fails, the
  service stops with that error: the device is in update mode and the sink was not notified. It is not notified later either: no
  poll that starts in update mode notifies the sink, whatever it receives.
\<close>

theorem unanswered_request_not_notified:
  assumes "\<not> should_start_initiator_mode (cmds env) (fd_cmd s)" "msg_buf s \<noteq> []"
    and "listener_recv (responder_client env) (fd_world s) (listener_set_timeout (fd_listener s) (timeout_millis env)) (drop 1 (msg_buf s)) =
           Some (w1, rb, Inr (meta, p, pc))" "md_remote_eid meta = remote_eid env"
    and "md_payload_size meta + 1 < 2 ^ 32" "md_payload_size meta \<le> length rb"
    and "handle_responder_msg (cmds env) (fd_cmd s) (pldm_type env # rb) = (f', b', Inr n)" "0 < n" "n \<le> length b'"
    and "is_update_mode (cmds env) f'"
    and "resp_send (responder_client env) w1 pc (take (n - 1) (drop 1 b')) = (w2, Inl e)"
  shows "\<exists>s'. run_once_inner env s = Some (s', Inl (PldmMctp e)) \<and> is_update_mode (cmds env) (fd_cmd s') \<and> fd_sink s' = fd_sink s
    \<and> (\<forall>a t t' r. is_update_mode (cmds env) (fd_cmd t) \<and> responder_phase env a t = Some (t', r) \<longrightarrow> fd_sink t' = fd_sink t)"
proof -
  have h: "agent_handler env (fd_cmd s) (pldm_type env # rb) (md_payload_size meta + 1) (md_remote_eid meta) = (f', b', Inr n)"
    using assms(4,7) by (simp add: agent_handler_def map_pldm_err_def)
  have "\<exists>s'. run_once_inner env s = Some (s', Inl (PldmMctp e)) \<and> is_update_mode (cmds env) (fd_cmd s') \<and> fd_sink s' = fd_sink s"
    using respond_once_send_fails [where handler = "agent_handler env", OF assms(3,2,5,6) h assms(8,9,11)] assms(1,10)
    by (simp add: run_once_inner_def responder_phase_def Let_def)
  with update_mode_not_notified show ?thesis by metis
qed

definition mute_client :: "nat mctp_client" where
  "mute_client = noise_client\<lparr>cl_send := (\<lambda>c oh ty oe tg ic b. (c, Inl RcNoSpace))\<rparr>"

theorem unanswered_request_not_notified_witness:
  "\<exists>s'. run_once_inner (demo_env mute_client mute_client (\<lambda>n _. n + (1 :: nat))\<lparr>remote_eid := 9\<rparr>)
      \<lparr>fd_world = 0, fd_cmd = False, fd_sink = 0, fd_listener = \<lparr>lc_handle = 2, lc_timeout = 0\<rparr>, fw_buf = [], msg_buf = [0, 1, 0]\<rparr> =
      Some (s', Inl (PldmMctp RcNoSpace)) \<and> fd_cmd s' \<and> fd_sink s' = 0"
proof -
  let ?env = "demo_env mute_client mute_client (\<lambda>n _. n + (1 :: nat))\<lparr>remote_eid := 9\<rparr>"
  let ?s = "\<lparr>fd_world = 0 :: nat, fd_cmd = False, fd_sink = 0 :: nat, fd_listener = \<lparr>lc_handle = 2, lc_timeout = 0\<rparr>, fw_buf = [], msg_buf = [0, 1, 0]\<rparr>"
  have "\<exists>s'. run_once_inner ?env ?s = Some (s', Inl (PldmMctp RcNoSpace)) \<and> is_update_mode (cmds ?env) (fd_cmd s') \<and> fd_sink s' = fd_sink ?s
    \<and> (\<forall>a t t' r. is_update_mode (cmds ?env) (fd_cmd t) \<and> responder_phase ?env a t = Some (t', r) \<longrightarrow> fd_sink t' = fd_sink t)"
    by (rule unanswered_request_not_notified [where rb = "[1, 0]" and f' = True and b' = "[1, 1, 0]" and n = 3])
      (auto simp: demo_env_def demo_cmds_def mute_client_def noise_client_def listener_recv_def listener_set_timeout_def slice_to_def resp_send_def)
  then show ?thesis by (auto simp: demo_env_def demo_cmds_def)
qed

end
