(* ===== verification/Pldm_System.thy ===== *)
theory Pldm_System
  imports Pldm_Properties Sm_Machine
begin

text \<open>
  From an update agent to the orchestrator. The adapter \<open>services/orchestrator/adapters/pldm\<close> latches the accepted request of the
  PLDM service until the run loop of the orchestrator takes it as an event. The property follows one
  request from the message queue of the MCTP server through the IPC client, the PLDM service and the latch into the state machine.
\<close>

section \<open>The latch\<close>






section \<open>The orchestrator\<close>


section \<open>The path of a request\<close>




end
