(* ===== verification/Blocking_Flash.thy ===== *)
theory Blocking_Flash
  imports Prelude
begin

unbundle bit_operations_syntax

text \<open>
  The blocking flash layer of the HAL (\<open>hal/blocking/flash\<close>): \<open>BlockingFlash\<close> turns the start-and-complete operations of
  a \<open>FlashDriver\<close> into blocking reads, erases and programs of any length. A driver is a record of its constants and methods over a
  state; its methods may panic (\<^const>\<open>None\<close>). What the layer relies on is the locale \<open>flash_memory\<close>, the documented contract of
  the trait, which the driver of the repository's own tests implements. Addresses are 32-bit words; a sum that does not
  fit panics, as the plain addition of the source does with overflow checks.
\<close>

section \<open>Drivers\<close>

record ('d, 'e) flash_driver =
  PAGE_SIZE :: nat
  PROGRAM_WINDOW_SIZE :: nat
  MAX_READ_SIZE :: nat
  READ_ALIGNMENT :: nat
  PROGRAM_ALIGNMENT :: nat
  drv_size :: "'d \<Rightarrow> nat"
  drv_erasable_sizes_bitmap :: "'d \<Rightarrow> ('d \<times> ('e, u32) result) option"
  drv_read :: "'d \<Rightarrow> u32 \<Rightarrow> u8 list \<Rightarrow> ('d \<times> u8 list \<times> ('e, unit) result) option"
  drv_start_erase :: "'d \<Rightarrow> u32 \<Rightarrow> nat \<Rightarrow> ('d \<times> ('e, unit) result) option"
  drv_start_program :: "'d \<Rightarrow> u32 \<Rightarrow> u8 list \<Rightarrow> ('d \<times> ('e, unit) result) option"
  drv_is_busy :: "'d \<Rightarrow> ('d \<times> bool) option"
  drv_complete_op :: "'d \<Rightarrow> ('d \<times> ('e, unit) result) option"

text \<open>\<open>FlashAddress + usize\<close> and \<open>+=\<close>: the right operand is cast to 32 bits, and a sum beyond them panics.\<close>

definition flash_address_add :: "u32 \<Rightarrow> nat \<Rightarrow> u32 option" where
  "flash_address_add a n =
     (let n' = of_nat n :: u32 in if unat a + unat n' < 2 ^ 32 then Some (a + n') else None)"

lemma flash_address_add_ok: "unat a + n < 2 ^ 32 \<Longrightarrow> flash_address_add a n = Some (a + of_nat n) \<and> unat (a + of_nat n) = unat a + n"
  by (simp add: flash_address_add_def unat_of_nat unat_word_ariths Let_def)

text \<open>The page size that the blocking layer reports is the one of its driver.\<close>

definition flash_page_size :: "('d, 'e) flash_driver \<Rightarrow> nat" where
  "flash_page_size drv = PAGE_SIZE drv"

definition power_of_2_new :: "nat \<Rightarrow> nat option" where
  "power_of_2_new val = (if val \<noteq> 0 \<and> (\<exists>k < 32. val = 2 ^ k) then Some val else None)"

definition PREFIX_BUF_LEN :: nat where "PREFIX_BUF_LEN = 16"

section \<open>The blocking layer\<close>

text \<open>
  The number of trailing zeros of the bitmap; \<open>1 << 32\<close> for an empty one overflows a 32-bit \<open>usize\<close> and panics.
\<close>

definition trailing_zeros :: "u32 \<Rightarrow> nat" where
  "trailing_zeros w = (case position (\<lambda>i. bit w i) [0..<32] of Some i \<Rightarrow> i | None \<Rightarrow> 32)"

definition geometry :: "('d, 'e) flash_driver \<Rightarrow> 'd \<Rightarrow> ('d \<times> ('e, nat \<times> nat \<times> u32) result) option" where
  "geometry drv d =
     (case drv_erasable_sizes_bitmap drv d of
        None \<Rightarrow> None
      | Some (d, Inl e) \<Rightarrow> Some (d, Inl e)
      | Some (d, Inr bitmap) \<Rightarrow>
          if trailing_zeros bitmap \<ge> 32 then None
          else map_option (\<lambda>page_size. (d, Inr (drv_size drv d, page_size, bitmap))) (power_of_2_new (2 ^ trailing_zeros bitmap)))"

text \<open>The loop over \<open>buf.chunks_mut(MAX_READ_SIZE)\<close>; a chunk size of 0 panics.\<close>

function read_chunks :: "('d, 'e) flash_driver \<Rightarrow> 'd \<Rightarrow> u32 \<Rightarrow> u8 list \<Rightarrow> ('d \<times> u8 list \<times> ('e, unit) result) option" where
  "read_chunks drv d addr buf =
     (if MAX_READ_SIZE drv = 0 then None
      else if buf = [] then Some (d, [], Inr ())
      else case drv_read drv d addr (take (MAX_READ_SIZE drv) buf) of
        None \<Rightarrow> None
      | Some (d, chunk, Inl e) \<Rightarrow> Some (d, chunk @ drop (MAX_READ_SIZE drv) buf, Inl e)
      | Some (d, chunk, Inr _) \<Rightarrow>
          (case flash_address_add addr (length (take (MAX_READ_SIZE drv) buf)) of
             None \<Rightarrow> None
           | Some addr \<Rightarrow>
               (case read_chunks drv d addr (drop (MAX_READ_SIZE drv) buf) of
                  None \<Rightarrow> None
                | Some (d, rest, r) \<Rightarrow> Some (d, chunk @ rest, r))))"
  by pat_completeness auto
termination
  by (relation "measure (\<lambda>(drv, d, addr, buf). length buf)") auto

declare read_chunks.simps [simp del]

definition flash_read :: "('d, 'e) flash_driver \<Rightarrow> 'd \<Rightarrow> u32 \<Rightarrow> u8 list \<Rightarrow> ('d \<times> u8 list \<times> ('e, unit) result) option" where
  "flash_read drv d start_addr buf =
     (let align_mask = of_nat (READ_ALIGNMENT drv) - 1 :: u32;
          align_skip_len = unat (start_addr AND align_mask)
      in if align_skip_len \<noteq> 0
         then let prefix_count = min (READ_ALIGNMENT drv - align_skip_len) (length buf)
              in case drv_read drv d (start_addr AND NOT align_mask) (replicate PREFIX_BUF_LEN 0) of
                   None \<Rightarrow> None
                 | Some (d, tmp, Inl e) \<Rightarrow> Some (d, buf, Inl e)
                 | Some (d, tmp, Inr _) \<Rightarrow>
                     (case flash_address_add start_addr prefix_count of
                        None \<Rightarrow> None
                      | Some addr \<Rightarrow>
                          (case read_chunks drv d addr (drop prefix_count buf) of
                             None \<Rightarrow> None
                           | Some (d, rest, r) \<Rightarrow> Some (d, take prefix_count (drop align_skip_len tmp) @ rest, r)))
         else read_chunks drv d start_addr buf)"

text \<open>
  \<open>wait_for_notification\<close> of the blocking mechanism returns nothing; what the hardware does meanwhile is the argument \<open>wait\<close>.
\<close>

definition flash_erase ::
  "('d, 'e) flash_driver \<Rightarrow> ('d \<Rightarrow> 'd) \<Rightarrow> 'd \<Rightarrow> u32 \<Rightarrow> nat \<Rightarrow> ('d \<times> ('e, unit) result) option" where
  "flash_erase drv wait d start_addr size' =
     (case drv_start_erase drv d start_addr size' of
        None \<Rightarrow> None
      | Some (d, Inl e) \<Rightarrow> Some (d, Inl e)
      | Some (d, Inr _) \<Rightarrow> drv_complete_op drv (wait d))"

definition window_chunk :: "('d, 'e) flash_driver \<Rightarrow> u32 \<Rightarrow> nat \<Rightarrow> nat" where
  "window_chunk drv addr n =
     min n (PROGRAM_WINDOW_SIZE drv - unat (addr AND (of_nat (PROGRAM_WINDOW_SIZE drv - 1))))"

text \<open>
  A compile-time assertion makes the window a power of two, so that a chunk is never empty and the loop ends; a definition for
  every number needs the guard.
\<close>

function flash_program ::
  "('d, 'e) flash_driver \<Rightarrow> ('d \<Rightarrow> 'd) \<Rightarrow> 'd \<Rightarrow> u32 \<Rightarrow> u8 list \<Rightarrow> ('d \<times> ('e, unit) result) option" where
  "flash_program drv wait d addr data =
     (if data = [] then Some (d, Inr ())
      else let n = window_chunk drv addr (length data)
           in if n = 0 then None
              else case drv_start_program drv d addr (take n data) of
                None \<Rightarrow> None
              | Some (d, Inl e) \<Rightarrow> Some (d, Inl e)
              | Some (d, Inr _) \<Rightarrow>
                  (case drv_complete_op drv (wait d) of
                     None \<Rightarrow> None
                   | Some (d, Inl e) \<Rightarrow> Some (d, Inl e)
                   | Some (d, Inr _) \<Rightarrow>
                       (case flash_address_add addr n of
                          None \<Rightarrow> None
                        | Some addr \<Rightarrow> flash_program drv wait d addr (drop n data))))"
  by pat_completeness auto
termination
  by (relation "measure (\<lambda>(drv, wait, d, addr, data). length data)") auto

declare flash_program.simps [simp del]

definition random_read :: "('d, 'e) flash_driver \<Rightarrow> 'd \<Rightarrow> nat \<Rightarrow> u8 list \<Rightarrow> ('d \<times> u8 list \<times> ('e, unit) result) option" where
  "random_read drv d start_addr buf = flash_read drv d (of_nat start_addr) buf"

section \<open>The contract of a driver\<close>

lemma take_drop_map_upt: "a + s = b \<Longrightarrow> b + p \<le> a + n \<Longrightarrow> take p (drop s (map f [a..<a + n])) = map f [b..<b + p]"
  by (auto simp: drop_map take_map)

lemma unat_and_not_mask: "unat ((a :: u32) AND NOT (of_nat (2 ^ k - 1))) = unat a - unat a mod 2 ^ k"
proof -
  have m: "of_nat (2 ^ k - 1) = (mask k :: u32)" by (simp add: mask_eq_exp_minus_1)
  have "unat (a AND NOT (mask k)) = push_bit k (drop_bit k (unat a))"
    by (rule bit_eqI) (auto simp: bit_simps dest: bit_imp_le_length)
  then show ?thesis unfolding m by (simp add: push_bit_eq_mult drop_bit_eq_div minus_mod_eq_div_mult)
qed

lemma unat_and_mask: "unat ((a :: u32) AND of_nat (2 ^ k - 1)) = unat a mod 2 ^ k"
proof -
  have "a AND of_nat (2 ^ k - 1) = take_bit k a" by (simp add: take_bit_eq_mask mask_eq_exp_minus_1)
  then have "unat (a AND of_nat (2 ^ k - 1)) = take_bit k (unat a)" by (simp only: unsigned_take_bit_eq)
  then show ?thesis by (simp only: take_bit_eq_mod)
qed

definition programmed :: "nat \<Rightarrow> u8 list \<Rightarrow> (nat \<Rightarrow> u8) \<Rightarrow> nat \<Rightarrow> u8" where
  "programmed a data m x = (if a \<le> x \<and> x < a + length data then m x AND data ! (x - a) else m x)"

definition erased :: "nat \<Rightarrow> nat \<Rightarrow> (nat \<Rightarrow> u8) \<Rightarrow> nat \<Rightarrow> u8" where
  "erased a n m x = (if a \<le> x \<and> x < a + n then 0xFF else m x)"

text \<open>
  The documented contract, for a driver that is idle (\<open>ok\<close>) and has the contents \<open>mem\<close>: reads with address and length
  aligned to \<open>READ_ALIGNMENT\<close>, up to the maximal size; programs with address and length aligned to \<open>PROGRAM_ALIGNMENT\<close>, inside one
  window; erases of aligned blocks of a supported size. The alignments fit the sizes: the prefix buffer is a legal
  read, a maximal read is aligned, and so is a window. The size of the flash is a 32-bit \<open>usize\<close>.
\<close>

locale flash_memory =
  fixes drv :: "('d, 'e) flash_driver" and wait :: "'d \<Rightarrow> 'd" and mem :: "'d \<Rightarrow> nat \<Rightarrow> u8" and ok :: "'d \<Rightarrow> bool"
    and block_ok :: "'d \<Rightarrow> nat \<Rightarrow> bool"
  assumes geom: "\<exists>k. READ_ALIGNMENT drv = 2 ^ k" "READ_ALIGNMENT drv \<le> PREFIX_BUF_LEN" "PREFIX_BUF_LEN \<le> MAX_READ_SIZE drv"
      "READ_ALIGNMENT drv dvd MAX_READ_SIZE drv" "\<exists>k \<le> 32. PROGRAM_WINDOW_SIZE drv = 2 ^ k"
      "PROGRAM_ALIGNMENT drv dvd PROGRAM_WINDOW_SIZE drv"
    and size_bound: "ok d \<Longrightarrow> drv_size drv d < 2 ^ 32"
    and read_law: "ok d \<Longrightarrow> READ_ALIGNMENT drv dvd unat a \<Longrightarrow> READ_ALIGNMENT drv dvd length buf \<Longrightarrow>
      length buf \<le> MAX_READ_SIZE drv \<Longrightarrow> unat a + length buf \<le> drv_size drv d \<Longrightarrow>
      \<exists>d'. drv_read drv d a buf = Some (d', map (mem d) [unat a..<unat a + length buf], Inr ())
        \<and> ok d' \<and> mem d' = mem d \<and> drv_size drv d' = drv_size drv d"
    and program_law: "ok d \<Longrightarrow> data \<noteq> [] \<Longrightarrow> PROGRAM_ALIGNMENT drv dvd unat a \<Longrightarrow> PROGRAM_ALIGNMENT drv dvd length data \<Longrightarrow>
      unat a + length data \<le> drv_size drv d \<Longrightarrow>
      unat a div PROGRAM_WINDOW_SIZE drv = (unat a + length data - 1) div PROGRAM_WINDOW_SIZE drv \<Longrightarrow>
      \<exists>d1 d2. drv_start_program drv d a data = Some (d1, Inr ()) \<and> drv_complete_op drv (wait d1) = Some (d2, Inr ())
        \<and> ok d2 \<and> mem d2 = programmed (unat a) data (mem d) \<and> drv_size drv d2 = drv_size drv d"
    and erase_law: "ok d \<Longrightarrow> block_ok d n \<Longrightarrow> n dvd unat a \<Longrightarrow> unat a + n \<le> drv_size drv d \<Longrightarrow>
      \<exists>d1 d2. drv_start_erase drv d a n = Some (d1, Inr ()) \<and> drv_complete_op drv (wait d1) = Some (d2, Inr ())
        \<and> ok d2 \<and> mem d2 = erased (unat a) n (mem d) \<and> drv_size drv d2 = drv_size drv d"
begin

lemma add_in_flash:
  assumes "ok d" "unat (a :: u32) + n \<le> drv_size drv d"
  shows "flash_address_add a n = Some (a + of_nat n)" "unat (a + of_nat n) = unat a + n"
proof -
  have "unat a + n < 2 ^ 32" using assms size_bound [OF assms(1)] by linarith
  then show "flash_address_add a n = Some (a + of_nat n)" "unat (a + of_nat n) = unat a + n"
    by (simp_all add: flash_address_add_ok)
qed

lemma read_chunks_exact:
  "ok d \<Longrightarrow> READ_ALIGNMENT drv dvd unat a \<Longrightarrow> READ_ALIGNMENT drv dvd length buf \<Longrightarrow> unat a + length buf \<le> drv_size drv d \<Longrightarrow>
   \<exists>d'. read_chunks drv d a buf = Some (d', map (mem d) [unat a..<unat a + length buf], Inr ())
     \<and> ok d' \<and> mem d' = mem d \<and> drv_size drv d' = drv_size drv d"
proof (induction "length buf" arbitrary: d a buf rule: less_induct)
  case less
  let ?m = "MAX_READ_SIZE drv"
  have m: "0 < ?m" using geom(3) by (simp add: PREFIX_BUF_LEN_def)
  show ?case
  proof (cases "length buf \<le> ?m")
    case True
    show ?thesis
    proof (cases "buf = []")
      case False
      obtain d1 where "drv_read drv d a buf = Some (d1, map (mem d) [unat a..<unat a + length buf], Inr ())"
          "ok d1" "mem d1 = mem d" "drv_size drv d1 = drv_size drv d"
        using read_law [OF less.prems(1-3) True less.prems(4)] by blast
      then show ?thesis using True False m add_in_flash(1) [OF less.prems(1,4)]
        by (subst read_chunks.simps) (simp add: read_chunks.simps [of drv d1 _ "[]"])
    qed (use m less.prems in \<open>simp add: read_chunks.simps\<close>)
  next
    case False
    then have chunk: "length (take ?m buf) = ?m" and lt: "length (drop ?m buf) < length buf" using m by auto
    obtain d1 where r: "drv_read drv d a (take ?m buf) = Some (d1, map (mem d) [unat a..<unat a + ?m], Inr ())"
        and d1: "ok d1" "mem d1 = mem d" "drv_size drv d1 = drv_size drv d"
      using read_law [OF less.prems(1,2), of "take ?m buf"] chunk geom(4) less.prems(4) False by auto
    have a: "flash_address_add a ?m = Some (a + of_nat ?m)" "unat (a + of_nat ?m) = unat a + ?m"
      using add_in_flash [OF less.prems(1), of a ?m] False less.prems(4) by simp_all
    have "READ_ALIGNMENT drv dvd unat (a + of_nat ?m)" using a(2) less.prems(2) geom(4) by simp
    moreover have "READ_ALIGNMENT drv dvd length (drop ?m buf)" using less.prems(3) geom(4) by simp
    moreover have "unat (a + of_nat ?m) + length (drop ?m buf) \<le> drv_size drv d1" using a(2) False less.prems(4) d1 by simp
    ultimately obtain d2 where "read_chunks drv d1 (a + of_nat ?m) (drop ?m buf) =
        Some (d2, map (mem d) [unat a + ?m..<unat a + length buf], Inr ())" "ok d2" "mem d2 = mem d" "drv_size drv d2 = drv_size drv d"
      using less.hyps [OF lt d1(1)] a(2) d1 False by fastforce
    moreover have "[unat a..<unat a + length buf] = [unat a..<unat a + ?m] @ [unat a + ?m..<unat a + length buf]"
      using False upt_add_eq_append [of "unat a" "unat a + ?m" "length buf - ?m"] by simp
    ultimately show ?thesis using r m False a(1) chunk by (subst read_chunks.simps) auto
  qed
qed

lemma program_step:
  assumes "ok d" "data \<noteq> []" "PROGRAM_ALIGNMENT drv dvd unat a" "PROGRAM_ALIGNMENT drv dvd length data"
    and "unat a + length data \<le> drv_size drv d" "n = window_chunk drv a (length data)"
  shows "0 < n \<and> n \<le> length data \<and> PROGRAM_ALIGNMENT drv dvd n \<and> (\<exists>d1 d2. drv_start_program drv d a (take n data) = Some (d1, Inr ())
    \<and> drv_complete_op drv (wait d1) = Some (d2, Inr ()) \<and> ok d2 \<and> mem d2 = programmed (unat a) (take n data) (mem d)
    \<and> drv_size drv d2 = drv_size drv d)"
proof -
  obtain k where k: "k \<le> 32" "PROGRAM_WINDOW_SIZE drv = 2 ^ k" using geom(5) by blast
  have off: "unat (a AND of_nat (PROGRAM_WINDOW_SIZE drv - 1)) = unat a mod 2 ^ k" by (simp only: k(2) unat_and_mask)
  have n: "n = min (length data) (2 ^ k - unat a mod 2 ^ k)" using assms(6) k off by (simp add: window_chunk_def)
  have lt: "unat a mod 2 ^ k < 2 ^ k" by simp
  then have pos: "0 < n" "n \<le> length data" using n assms(2) by auto
  have "PROGRAM_ALIGNMENT drv dvd 2 ^ k - unat a mod 2 ^ k"
    using geom(6) assms(3) k(2) by (intro dvd_diff_nat dvd_mod) simp_all
  then have al: "PROGRAM_ALIGNMENT drv dvd n" using n assms(4) by (simp add: min_def)
  have "(unat a + n - 1) div 2 ^ k = unat a div 2 ^ k"
  proof -
    have "unat a + n - 1 = 2 ^ k * (unat a div 2 ^ k) + (unat a mod 2 ^ k + n - 1)" using pos by simp
    moreover have "unat a mod 2 ^ k + n - 1 < 2 ^ k" using n lt pos by linarith
    ultimately show ?thesis by (metis div_mult_self4 div_less add.right_neutral lt pos(1) power_eq_0_iff zero_neq_numeral add.commute)
  qed
  with program_law [OF assms(1), of "take n data" a] pos al assms(2,3,5) k show ?thesis by auto
qed

lemma programmed_append:
  "n \<le> length data \<Longrightarrow> programmed (a + n) (drop n data) (programmed a (take n data) m) = programmed a data m"
  by (auto simp: programmed_def fun_eq_iff not_less)

lemma program_exact:
  "ok d \<Longrightarrow> PROGRAM_ALIGNMENT drv dvd unat a \<Longrightarrow> PROGRAM_ALIGNMENT drv dvd length data \<Longrightarrow> unat a + length data \<le> drv_size drv d \<Longrightarrow>
   \<exists>d'. flash_program drv wait d a data = Some (d', Inr ()) \<and> ok d' \<and> mem d' = programmed (unat a) data (mem d)
     \<and> drv_size drv d' = drv_size drv d"
proof (induction "length data" arbitrary: d a data rule: less_induct)
  case less
  show ?case
  proof (cases "data = []")
    case False
    define n where "n = window_chunk drv a (length data)"
    obtain d1 d2 where n: "0 < n" "n \<le> length data" "PROGRAM_ALIGNMENT drv dvd n"
      and st: "drv_start_program drv d a (take n data) = Some (d1, Inr ())" "drv_complete_op drv (wait d1) = Some (d2, Inr ())"
      and d2: "ok d2" "mem d2 = programmed (unat a) (take n data) (mem d)" "drv_size drv d2 = drv_size drv d"
      using program_step [OF less.prems(1) False less.prems(2-4) n_def] by blast
    have a: "flash_address_add a n = Some (a + of_nat n)" "unat (a + of_nat n) = unat a + n"
      using add_in_flash [OF less.prems(1), of a n] n less.prems(4) by simp_all
    then have "unat (a + of_nat n) + length (drop n data) \<le> drv_size drv d2" using n less.prems(4) d2(3) by simp
    moreover have "PROGRAM_ALIGNMENT drv dvd unat (a + of_nat n)" "PROGRAM_ALIGNMENT drv dvd length (drop n data)"
      using a(2) n less.prems(2,3) by simp_all
    ultimately have "\<exists>d'. flash_program drv wait d2 (a + of_nat n) (drop n data) = Some (d', Inr ()) \<and> ok d'
        \<and> mem d' = programmed (unat a) data (mem d) \<and> drv_size drv d' = drv_size drv d"
      using less.hyps [of "drop n data" d2 "a + of_nat n"] n a d2 by (simp add: programmed_append)
    then show ?thesis using False n(1) st a(1) by (subst flash_program.simps) (auto simp: Let_def simp flip: n_def)
  qed (use less.prems in \<open>auto simp: flash_program.simps programmed_def fun_eq_iff\<close>)
qed

lemma erase_exact:
  assumes "ok d" "block_ok d n" "n dvd unat a" "unat a + n \<le> drv_size drv d"
  shows "\<exists>d'. flash_erase drv wait d a n = Some (d', Inr ()) \<and> ok d' \<and> mem d' = erased (unat a) n (mem d)
    \<and> drv_size drv d' = drv_size drv d"
  using erase_law [OF assms] by (auto simp: flash_erase_def)

text \<open>
  A read may start anywhere but has to end at an aligned address, since its last part is handed to the driver as it is. An
  unaligned one fetches the whole prefix buffer, so its aligned start must lie 16 bytes before the end of the flash.
\<close>

lemma read_exact:
  assumes "ok d" "unat a + length buf \<le> drv_size drv d" "READ_ALIGNMENT drv dvd unat a + length buf"
    and "READ_ALIGNMENT drv dvd unat a \<or> unat a - unat a mod READ_ALIGNMENT drv + PREFIX_BUF_LEN \<le> drv_size drv d"
  shows "\<exists>d'. flash_read drv d a buf = Some (d', map (mem d) [unat a..<unat a + length buf], Inr ()) \<and> ok d' \<and> mem d' = mem d"
proof -
  let ?r = "READ_ALIGNMENT drv" and ?m = "of_nat (READ_ALIGNMENT drv) - 1 :: u32" and ?a0 = "unat a - unat a mod READ_ALIGNMENT drv"
  obtain k where k: "?r = 2 ^ k" using geom(1) by blast
  have mask: "?m = of_nat (2 ^ k - 1)" using k by simp
  have skip: "unat (a AND ?m) = unat a mod ?r" using unat_and_mask [of a k] k mask by simp
  have base: "unat (a AND NOT ?m) = ?a0" using unat_and_not_mask [of a k] k mask by simp
  show ?thesis
  proof (cases "?r dvd unat a")
    case True
    then have "?r dvd length buf" using assms(3) by (simp add: dvd_add_right_iff)
    then show ?thesis using read_chunks_exact [OF assms(1) True _ assms(2)] skip True
      by (auto simp: flash_read_def Let_def dvd_eq_mod_eq_0)
  next
    case False
    define s where "s = unat a mod ?r"
    have s: "0 < s" "s < ?r" "?a0 + s = unat a" using False k by (auto simp: s_def dvd_eq_mod_eq_0)
    define p where "p = min (?r - s) (length buf)"
    have "?r dvd ?a0" by (simp add: minus_mod_eq_mult_div)
    moreover have "?a0 + PREFIX_BUF_LEN \<le> drv_size drv d" using assms(4) False by blast
    moreover have "?r dvd PREFIX_BUF_LEN"
    proof -
      have "(2 :: nat) ^ k \<le> 2 ^ 4" using geom(2) k by (simp add: PREFIX_BUF_LEN_def)
      then have "k \<le> 4" by (simp only: power_increasing_iff)
      then have "(2 :: nat) ^ k dvd 2 ^ 4" by (rule le_imp_power_dvd)
      then show ?thesis using k by (simp add: PREFIX_BUF_LEN_def)
    qed
    ultimately obtain d1 where rd: "drv_read drv d (a AND NOT ?m) (replicate PREFIX_BUF_LEN 0) =
        Some (d1, map (mem d) [?a0..<?a0 + PREFIX_BUF_LEN], Inr ())" and d1: "ok d1" "mem d1 = mem d" "drv_size drv d1 = drv_size drv d"
      using read_law [OF assms(1), of "a AND NOT ?m" "replicate PREFIX_BUF_LEN 0"] geom(3) base by auto
    have front: "take p (drop s (map (mem d) [?a0..<?a0 + PREFIX_BUF_LEN])) = map (mem d) [unat a..<unat a + p]"
    proof -
      have "s + p \<le> PREFIX_BUF_LEN" using s(2) geom(2) by (simp add: p_def)
      with s(3) have "unat a + p \<le> ?a0 + PREFIX_BUF_LEN" by linarith
      with s(3) show ?thesis by (rule take_drop_map_upt)
    qed
    have a: "flash_address_add a p = Some (a + of_nat p)" "unat (a + of_nat p) = unat a + p"
      using add_in_flash [OF assms(1), of a p] assms(2) by (simp_all add: p_def)
    have "\<exists>d2. read_chunks drv d1 (a + of_nat p) (drop p buf) = Some (d2, map (mem d) [unat a + p..<unat a + length buf], Inr ())
        \<and> ok d2 \<and> mem d2 = mem d"
    proof (cases "p = length buf")
      case True
      then show ?thesis using d1 geom(3) by (simp add: read_chunks.simps PREFIX_BUF_LEN_def)
    next
      case pl: False
      then have p: "p = ?r - s" "p < length buf" by (auto simp: p_def)
      have "unat a + p = ?a0 + ?r" using p(1) s by linarith
      moreover have "?r dvd ?a0 + ?r" using \<open>?r dvd ?a0\<close> by (rule dvd_add) simp
      ultimately have al: "?r dvd unat a + p" by simp
      have "?r dvd (unat a + length buf) - (unat a + p)" using assms(3) al by (rule dvd_diff_nat)
      then have "?r dvd length (drop p buf)" by simp
      from read_chunks_exact [OF d1(1) _ this, of "a + of_nat p"] a p al assms(2) d1 show ?thesis by fastforce
    qed
    moreover have "[unat a..<unat a + length buf] = [unat a..<unat a + p] @ [unat a + p..<unat a + length buf]"
      using upt_add_eq_append [of "unat a" "unat a + p" "length buf - p"] by (simp add: p_def)
    ultimately show ?thesis using rd front s skip a(1)
      by (auto simp: flash_read_def Let_def simp flip: s_def p_def)
  qed
qed

end

section \<open>The driver of the tests\<close>

text \<open>
  \<open>FakeFlashDriver\<close> keeps the flash in a vector; a failed assertion is a panic.
\<close>

record fake_flash_driver =
  fake_data :: "u8 list"
  check_err_result :: "(unit, unit) result"

definition fake_read :: "fake_flash_driver \<Rightarrow> u32 \<Rightarrow> u8 list \<Rightarrow> (fake_flash_driver \<times> u8 list \<times> (unit, unit) result) option" where
  "fake_read d a buf =
     (let start = unat a
      in if start + length buf < 2 ^ 32 \<and> start + length buf \<le> length (fake_data d) \<and> length buf \<le> 4096 \<and> start mod 4 = 0
         then Some (d, take (length buf) (drop start (fake_data d)), Inr ()) else None)"

definition fake_start_erase :: "fake_flash_driver \<Rightarrow> u32 \<Rightarrow> nat \<Rightarrow> (fake_flash_driver \<times> (unit, unit) result) option" where
  "fake_start_erase d a n =
     (let start = unat a
      in if n = 2048 \<and> start + n < 2 ^ 32 \<and> start + n \<le> length (fake_data d) \<and> start mod n = 0
         then Some (d\<lparr>fake_data := write_at start (replicate n 0xFF) (fake_data d)\<rparr>, Inr ()) else None)"

definition fake_start_program :: "fake_flash_driver \<Rightarrow> u32 \<Rightarrow> u8 list \<Rightarrow> (fake_flash_driver \<times> (unit, unit) result) option" where
  "fake_start_program d a data =
     (let start = unat a; end_addr = start + length data
      in if end_addr < 2 ^ 32 \<and> end_addr \<le> length (fake_data d) \<and> length data \<le> 64 \<and> end_addr \<noteq> 0
            \<and> start div 64 = (end_addr - 1) div 64
         then Some (d\<lparr>fake_data := write_at start (map2 (AND) (take (length data) (drop start (fake_data d))) data) (fake_data d)\<rparr>, Inr ())
         else None)"

definition fake_driver :: "(fake_flash_driver, unit) flash_driver" where
  "fake_driver = \<lparr>PAGE_SIZE = 2048, PROGRAM_WINDOW_SIZE = 64, MAX_READ_SIZE = 4096, READ_ALIGNMENT = 4, PROGRAM_ALIGNMENT = 8,
     drv_size = (\<lambda>d. length (fake_data d)), drv_erasable_sizes_bitmap = (\<lambda>d. Some (d, Inr (push_bit 11 1))),
     drv_read = fake_read, drv_start_erase = fake_start_erase, drv_start_program = fake_start_program,
     drv_is_busy = (\<lambda>d. Some (d, False)),
     drv_complete_op = (\<lambda>d. Some (d, check_err_result d))\<rparr>"

definition fake_mem :: "fake_flash_driver \<Rightarrow> nat \<Rightarrow> u8" where
  "fake_mem d x = (if x < length (fake_data d) then fake_data d ! x else 0)"

definition fake_ok :: "fake_flash_driver \<Rightarrow> bool" where
  "fake_ok d \<longleftrightarrow> check_err_result d = Inr () \<and> length (fake_data d) < 2 ^ 32"

lemma nth_write_at:
  assumes "at + length bytes \<le> length buf" "x < length buf"
  shows "write_at at bytes buf ! x = (if at \<le> x \<and> x < at + length bytes then bytes ! (x - at) else buf ! x)"
  using assms by (auto simp: write_at_def nth_append)

interpretation fake: flash_memory fake_driver id fake_mem fake_ok "\<lambda>d n. n = 2048"
proof unfold_locales
  show "\<exists>k. READ_ALIGNMENT fake_driver = 2 ^ k" by (rule exI [of _ 2]) (simp add: fake_driver_def)
  show "\<exists>k \<le> 32. PROGRAM_WINDOW_SIZE fake_driver = 2 ^ k" by (rule exI [of _ 6]) (simp add: fake_driver_def)
  show "\<exists>d'. drv_read fake_driver d a buf = Some (d', map (fake_mem d) [unat a..<unat a + length buf], Inr ())
      \<and> fake_ok d' \<and> fake_mem d' = fake_mem d \<and> drv_size fake_driver d' = drv_size fake_driver d"
    if "fake_ok d" "READ_ALIGNMENT fake_driver dvd unat a" "READ_ALIGNMENT fake_driver dvd length buf" "length buf \<le> MAX_READ_SIZE fake_driver"
      "unat a + length buf \<le> drv_size fake_driver d" for d a buf
    using that by (auto simp: fake_driver_def fake_read_def fake_ok_def fake_mem_def Let_def dvd_eq_mod_eq_0 intro!: nth_equalityI)
  show "\<exists>d1 d2. drv_start_program fake_driver d a data = Some (d1, Inr ()) \<and> drv_complete_op fake_driver (id d1) = Some (d2, Inr ())
      \<and> fake_ok d2 \<and> fake_mem d2 = programmed (unat a) data (fake_mem d) \<and> drv_size fake_driver d2 = drv_size fake_driver d"
    if "fake_ok d" "data \<noteq> []" "PROGRAM_ALIGNMENT fake_driver dvd unat a" "PROGRAM_ALIGNMENT fake_driver dvd length data"
      "unat a + length data \<le> drv_size fake_driver d"
      "unat a div PROGRAM_WINDOW_SIZE fake_driver = (unat a + length data - 1) div PROGRAM_WINDOW_SIZE fake_driver" for d data a
  proof -
    have w: "unat a div 64 = (unat a + length data - 1) div 64" using that(6) by (simp add: fake_driver_def)
    moreover have "64 * (unat a div 64) \<le> unat a" by simp
    moreover have "unat a + length data - 1 < 64 * ((unat a + length data - 1) div 64) + 64"
      using mult_div_mod_eq [of 64 "unat a + length data - 1"] mod_less_divisor [of 64 "unat a + length data - 1"] by linarith
    ultimately have "length data \<le> 64" by linarith
    with w that(1,2,5) show ?thesis
      by (auto simp: fake_driver_def fake_start_program_def fake_ok_def fake_mem_def programmed_def Let_def nth_write_at fun_eq_iff)
  qed
  show "\<exists>d1 d2. drv_start_erase fake_driver d a n = Some (d1, Inr ()) \<and> drv_complete_op fake_driver (id d1) = Some (d2, Inr ())
      \<and> fake_ok d2 \<and> fake_mem d2 = erased (unat a) n (fake_mem d) \<and> drv_size fake_driver d2 = drv_size fake_driver d"
    if "fake_ok d" "n = 2048" "n dvd unat a" "unat a + n \<le> drv_size fake_driver d" for d n a
    using that by (auto simp: fake_driver_def fake_start_erase_def fake_ok_def fake_mem_def erased_def Let_def dvd_eq_mod_eq_0 nth_write_at fun_eq_iff)
qed (simp_all add: fake_driver_def fake_ok_def PREFIX_BUF_LEN_def)

section \<open>Properties\<close>

text \<open>
  C40: Erasing, programming and reading back. On every driver with the documented contract (\<open>flash_memory\<close>: reads aligned to
  \<open>READ_ALIGNMENT\<close> and programs aligned to \<open>PROGRAM_ALIGNMENT\<close>, addresses and lengths, succeed), take an aligned block of a
  supported size, data whose address and length are aligned to \<open>PROGRAM_ALIGNMENT\<close> and that lies in the block, and a part of
  it to be read back that may start anywhere but ends at an address aligned to \<open>READ_ALIGNMENT\<close>. Erasing the block,
  programming the data and reading the part gives exactly those bytes of the data, although the program is split at the
  windows and the read at the alignment and the maximal read size; none of the steps fails or panics, and outside the
  block the contents are the ones before. An unaligned read needs 16 readable bytes from its aligned start on.
\<close>

theorem flash_write_read_roundtrip:
  assumes "flash_memory drv wait mem ok block_ok" "ok d" "block_ok d n" "n dvd unat b" "unat b + n \<le> drv_size drv d"
    and "unat b \<le> unat a" "unat a + length data \<le> unat b + n"
    and "PROGRAM_ALIGNMENT drv dvd unat a" "PROGRAM_ALIGNMENT drv dvd length data"
    and "unat a \<le> unat r" "unat r + length buf \<le> unat a + length data" "READ_ALIGNMENT drv dvd unat r + length buf"
    and "READ_ALIGNMENT drv dvd unat r \<or> unat r - unat r mod READ_ALIGNMENT drv + 16 \<le> drv_size drv d"
  shows "\<exists>d1 d2 d3. flash_erase drv wait d b n = Some (d1, Inr ()) \<and> flash_program drv wait d1 a data = Some (d2, Inr ())
    \<and> flash_read drv d2 r buf = Some (d3, take (length buf) (drop (unat r - unat a) data), Inr ())
    \<and> (\<forall>x. x < unat b \<or> unat b + n \<le> x \<longrightarrow> mem d3 x = mem d x)"
proof -
  obtain d1 where e: "flash_erase drv wait d b n = Some (d1, Inr ())" and d1: "ok d1" "mem d1 = erased (unat b) n (mem d)"
      "drv_size drv d1 = drv_size drv d"
    using flash_memory.erase_exact [OF assms(1-5)] by blast
  have "unat a + length data \<le> drv_size drv d1" using assms(5,7) d1(3) by linarith
  then obtain d2 where p: "flash_program drv wait d1 a data = Some (d2, Inr ())" and d2: "ok d2"
      "mem d2 = programmed (unat a) data (mem d1)" "drv_size drv d2 = drv_size drv d1"
    using flash_memory.program_exact [OF assms(1) d1(1) assms(8,9)] by blast
  have "unat r + length buf \<le> drv_size drv d2" using assms(5,7,11) d1(3) d2(3) by linarith
  then obtain d3 where r: "flash_read drv d2 r buf = Some (d3, map (mem d2) [unat r..<unat r + length buf], Inr ())" "mem d3 = mem d2"
    using flash_memory.read_exact [OF assms(1) d2(1), of r buf] assms(12,13) d1(3) d2(3) by (auto simp: PREFIX_BUF_LEN_def)
  have "(0xFF :: u8) = - 1" by simp
  then have "(0xFF :: u8) AND y = y" for y by (simp only: and.left_neutral)
  then have "map (mem d2) [unat r..<unat r + length buf] = take (length buf) (drop (unat r - unat a) data)"
    using assms(6,7,10,11) d1(2) d2(2) by (intro nth_equalityI) (auto simp: programmed_def erased_def)
  moreover have "mem d3 x = mem d x" if "x < unat b \<or> unat b + n \<le> x" for x
    using that assms(6,7) r(2) d1(2) d2(2) by (auto simp: programmed_def erased_def)
  ultimately show ?thesis using e p r(1) by auto
qed

text \<open>The program crosses the window boundary at \<open>0x840\<close>; the read starts at an unaligned address.\<close>

theorem flash_write_read_roundtrip_witness:
  "\<exists>d1 d2 d3. flash_erase fake_driver id \<lparr>fake_data = replicate 4096 0x42, check_err_result = Inr ()\<rparr> 2048 2048 = Some (d1, Inr ())
    \<and> flash_program fake_driver id d1 0x838 [1, 2, 3, 4, 5, 6, 7, 8, 9, 10, 11, 12, 13, 14, 15, 16] = Some (d2, Inr ())
    \<and> flash_read fake_driver d2 0x83E (replicate 6 0) = Some (d3, [7, 8, 9, 10, 11, 12], Inr ())"
proof -
  let ?d = "\<lparr>fake_data = replicate 4096 0x42, check_err_result = Inr ()\<rparr>"
  have "fake_ok ?d" "drv_size fake_driver ?d = 4096" "PROGRAM_ALIGNMENT fake_driver = 8" "READ_ALIGNMENT fake_driver = 4"
    by (simp_all add: fake_ok_def fake_driver_def)
  moreover have "PROGRAM_ALIGNMENT fake_driver dvd length [1 :: u8, 2, 3, 4, 5, 6, 7, 8, 9, 10, 11, 12, 13, 14, 15, 16]"
    by (simp add: fake_driver_def dvd_eq_mod_eq_0)
  note flash_write_read_roundtrip [OF fake.flash_memory_axioms _ _ _ _ _ _ _ this, of ?d 2048 2048 "0x838" "0x83E" "replicate 6 0"]
  ultimately show ?thesis by auto
qed

text \<open>
  A short unaligned read at the end of the flash reads past it: the prefix buffer is fetched whole, whatever the alignment and
  the length of the request, so on the driver of the tests such a read panics although every requested byte exists.
\<close>

theorem unaligned_read_at_end_panics:
  assumes "unat a mod 4 \<noteq> 0" "length (fake_data d) < unat a - unat a mod 4 + 16"
  shows "flash_read fake_driver d a buf = None"
proof -
  have "unat (a AND of_nat (2 ^ 2 - 1)) = unat a mod 4" "unat (a AND NOT (of_nat (2 ^ 2 - 1))) = unat a - unat a mod 4"
    using unat_and_mask [of a 2] unat_and_not_mask [of a 2] by simp_all
  with assms show ?thesis by (simp add: flash_read_def fake_driver_def fake_read_def PREFIX_BUF_LEN_def Let_def)
qed

end
