(* ===== verification/Spec2Isabelle.thy ===== *)
theory Spec2Isabelle
  imports I3c_Session Orchestrator_System Device_Config Mctp_Client I2c_Runtime Swmbx Otp_Straps Spim_System Smc_Read_Init Smc_Dma Pldm_System Blocking_Flash
begin

text \<open>
  A verification development of OpenPRoT, a platform root of trust written in Rust.

  \<^bold>\<open>The program.\<close> A root of trust holds the devices of a platform in reset, verifies the firmware of
  each, releases it, watches it boot, and recovers or isolates it when it fails. The repository has
  these parts with logic of their own:

  \<^item> the \<^emph>\<open>orchestrator\<close> (\<open>services/orchestrator\<close>): a hierarchical state machine that receives events
    and emits effects (\<open>sm\<close>), the driver that executes the effects on a board through capability
    traits (\<open>driver\<close>, \<open>capabilities\<close>), the walk over the boot checkpoints of a device
    (\<open>adapters/walk\<close>), the static device table (\<open>config\<close>), the watchdog timers (\<open>timer\<close>, \<open>server\<close>);
  \<^item> the \<^emph>\<open>MCTP service\<close> (\<open>services/mctp\<close>): a server process around a third-party router, a binary
    request and response protocol over a kernel channel, and a client with a socket-like facade;
  \<^item> the \<^emph>\<open>I2C service\<close> (\<open>services/i2c\<close>): a server process that owns the buses, a protocol that carries
    one whole bus transaction per round trip, slave-mode notification by a latch, and a client;
  \<^item> the \<^emph>\<open>software mailbox\<close> of the AST10x0 (\<open>target/ast10x0/pfr/swmbx_ctrl.rs\<close>): a register file shared
    with the host, with write protection, notification and FIFOs;
  \<^item> the \<^emph>\<open>OTP driver\<close> of the AST10x0 (\<open>target/ast10x0/peripherals/otp\<close>): reading and burning the one-time
    programmable memory that holds keys, configuration, straps and protection bits;
  \<^item> the \<^emph>\<open>SPI monitor\<close> of the AST10x0 (\<open>target/ast10x0/peripherals/spimonitor\<close>, \<open>peripherals/scu\<close>,
    \<open>board/src\<close>): filters that sit between a host and its flash, with a table of admitted commands and a
    bitmap of readable and writable blocks, programmed from a policy and then locked, and the pins, routes and
    multiplexers around them;
  \<^item> the \<^emph>\<open>flash driver\<close> of the AST10x0 (\<open>target/ast10x0/peripherals/smc\<close>): the static memory controllers with their
    windows onto the flash chips, read timing calibration and DMA, and on top of them erasing, programming and verifying SPI-NOR flash;
  \<^item> the \<^emph>\<open>I3C driver\<close> of the AST10x0 (\<open>target/ast10x0/peripherals/i3c\<close>): tables of addresses and devices, dynamic address assignment, the
    common command codes, and queues of in-band interrupts between the interrupt handler and the driver;
  \<^item> the \<^emph>\<open>blocking flash layer\<close> of the HAL (\<open>hal/blocking/flash\<close>): reads and programs of any length over a driver
    with alignments and program windows;
  \<^item> the \<^emph>\<open>PLDM firmware-device service\<close> (\<open>services/pldm\<close>): a loop that serves firmware-update commands over the MCTP stack, with the
    latch that hands an accepted update to the orchestrator (\<open>services/orchestrator/adapters/pldm\<close>).

  The orchestrator drives the board through the capabilities; the PLDM service talks through the MCTP stack and its latch raises an event
  of the orchestrator; the MCTP server sends and receives its
  packets through the I2C service; each service is reached through a channel of the kernel.

  \<^bold>\<open>How the sources are modelled.\<close> A struct is a \<open>record\<close>, an enum a \<open>datatype\<close>, a function or
  method one definition with the state passed explicitly. \<open>Result\<close> is a sum with the error on the
  left. A panic (an index out of range, an \<open>unwrap\<close>) is \<^const>\<open>None\<close>, wherever the code can reach one.
  Machine integers are words; \<open>usize\<close> values that are lengths of buffers are natural numbers.
  A \<open>heapless\<close> container is a list with its capacity as an argument. Code outside the repository is a
  parameter: the MCTP router (a record of functions), the board capabilities and the evidence reader,
  the clock, the I2C bus driver, the channel of the kernel, the PLDM state machine (\<open>CmdInterface\<close>), the OTP device, the registers of the SPI monitor,
  of the memory controllers and of the SoC, the flash chips behind them, the I3C hardware layer. What the proofs use of it is a named
  hypothesis of the property (for example \<^const>\<open>keeps_shape\<close>, \<^const>\<open>driver_ok\<close>, \<^const>\<open>channel_rendezvous\<close>,
  \<^const>\<open>fuse_device\<close>, \<^const>\<open>spipf_device\<close>, \<^const>\<open>board_device\<close>, \<^const>\<open>nor_device\<close>, \<^const>\<open>reg_file\<close>, \<^const>\<open>arbiter_grants\<close>, the locale
  \<open>flash_memory\<close>), the text of the property says which, and the witness of the property instantiates it. Three of these deserve a remark:
  \<^const>\<open>prompt_device\<close> is an OTP device whose status is idle whenever it is read; the fuse bank of the SVN floor is the
  one the repository ships for host tests, its only implementation of \<open>SvnFloor\<close>; additions that the source leaves unchecked wrap as in a
  build without overflow checks (the deadline of a pending receive, the DMA address), except where the text of the theory says that they panic.

  \<^bold>\<open>The theories.\<close>

  \<^item> \<open>Prelude\<close>: integers, saturating and checked arithmetic, slices, fixed-capacity sequences, and the
    locales \<open>invariant_machine\<close> and \<open>monitored_machine\<close> of step functions with outputs. \<open>Bytes\<close>: little-endian
    encodings, bounds-checked slices and the locale \<open>header_codec\<close>, interpreted by the two MCTP headers
    and the three I2C structs.
  \<^item> \<open>Sm_Model\<close> (\<open>sm/src/model.rs\<close>): identifiers, attributes, events, effects, the chain and its
    validation. \<open>Sm_Storage\<close> and \<open>Sm_Machine\<close> (\<open>sm/src/lib.rs\<close>): the shared storage with gating,
    cascade and cursor; the handlers of the states, the super-state, the entry actions, \<open>step\<close> and
    the dispatch loop that feeds follow-up events back. \<open>Sm_Lemmas\<close>, \<open>Sm_Invariant\<close>, \<open>Sm_Dispatch\<close>: the
    storage invariant, the ledger of outputs (which component is verified, released, held), the
    bounds on the effects of a step and the termination argument of the loop. \<open>Sm_Properties\<close>: the
    properties - nothing is released before it was verified, isolation is permanent, a failed effect
    stops the batch and locks down, the effect buffer is large enough, the loop terminates and equals
    a run of the pure step function over the events that the executor answered, a clean boot reaches the ready state.
  \<^item> \<open>Capabilities\<close> (\<open>capabilities/src\<close>): the contracts \<open>BootWatch\<close> and \<open>SvnFloor\<close> as locales.
    \<open>Checkpoint_Walk\<close> (\<open>adapters/walk\<close>) and \<open>Otp_Floor\<close> (the fuse bank of \<open>test/otp.rs\<close>) interpret them.
    \<open>Device_Config\<close> (\<open>config\<close>): the compile-time validation of the device table. \<open>Timer_Manager\<close>
    (\<open>timer\<close>, \<open>server/src/runtime.rs\<close>): the watchdogs. \<open>Platform_Driver\<close> (\<open>driver\<close>): the executor of
    every effect; a committed floor is that of the verified image. \<open>Orchestrator_System\<close>: machine and driver together on a healthy board.
  \<^item> \<open>Mctp_Wire\<close> (\<open>mctp/api/src/wire.rs\<close>, \<open>error.rs\<close>), \<open>Mctp_Server\<close> (\<open>server.rs\<close>), \<open>Mctp_Dispatch\<close>
    (\<open>dispatch.rs\<close>), \<open>Mctp_Client\<close> (\<open>client-ipc\<close>, \<open>stack.rs\<close>): round trips of the encodings, the
    table of pending receives, totality of the dispatcher, and transparency - a call through the
    client, the channel and the dispatcher is the call of the server method.
  \<^item> \<open>I2c_Protocol\<close>, \<open>I2c_Server\<close>, \<open>I2c_Client\<close>, \<open>I2c_Runtime\<close> (\<open>services/i2c\<close>): the same for one
    transaction on a bus, with the error kinds preserved; the loop of the server answers every
    request once and never panics; bytes latched for a slave reach the client.
  \<^item> \<open>Swmbx\<close> (\<open>pfr/swmbx_ctrl.rs\<close>): well-formedness of the controller, immutability of protected
    bytes under bus traffic, FIFO order of the mailboxes, exactness of the protection bit maps.
  \<^item> \<open>Otp_Controller\<close> and \<open>Otp_Api\<close> (\<open>peripherals/otp\<close>): every operation of the OTP driver over a device whose
    registers are written and read. \<open>Otp_Fuses\<close>: the contract \<^const>\<open>fuse_device\<close> (only a program command
    changes fuses, and only one way; a read whose completion was seen reports them) and what each operation does to the fuses.
    \<open>Otp_Properties\<close>: a successful programming leaves exactly the requested data, it succeeds on a device
    that carries out every command (\<^const>\<open>prompt_device\<close>), and the effects of a read that fails while
    verifying. \<open>Otp_Straps\<close>: strap bits as parities of their options; a request is carried out
    exactly or refused before a fuse is burnt.
  \<^item> \<open>Reg_Monad\<close>: operations on registers that may fail, rules for what they keep, for their results and for success, and simulation of
    an operation on a device by the same operation on an abstract one. \<open>Spim_Policy\<close> (\<open>commands.rs\<close>, \<open>types.rs\<close>, \<open>policy.rs\<close>, \<open>profile.rs\<close>) and
    \<open>Spim_Controller\<close> (\<open>controller.rs\<close>, \<open>registers.rs\<close>): policies and every operation of the monitor. \<open>Spim_Block\<close>:
    the register block with its locks, the contract \<^const>\<open>spipf_device\<close>, and the simulation of the driver.
    \<open>Spim_Properties\<close>: an applied policy filters exactly as it says, it is applied completely or not at all, a region update
    changes exactly the touched blocks, a locked policy is final. \<open>Scu_Routing\<close> (\<open>peripherals/scu\<close>) and
    \<open>Spim_Wiring\<close> (\<open>board/src\<close>): routing, pin control, the wiring of a monitor and its facade. \<open>Spim_System\<close>: a wired monitor
    enforces its policy whatever is written to it afterwards; when the wiring succeeds; the external multiplexer reads back as set.
  \<^item> \<open>Smc_Types\<close> (\<open>types.rs\<close>, \<open>helpers.rs\<close>, \<open>interrupts.rs\<close>), \<open>Smc_Controller\<close> (\<open>controller.rs\<close>, \<open>registers.rs\<close>) and \<open>Smc_Flash\<close>
    (\<open>device/flash.rs\<close>, \<open>device/block_device.rs\<close>): every operation of the memory controller and of the flash driver. \<open>Smc_Nor\<close>: a SPI-NOR
    chip with write-enable latch, page wrap, bit clearing and busy time behind the contract \<^const>\<open>nor_device\<close>. \<open>Smc_Flash_Runs\<close> and
    \<open>Smc_Update\<close>: what each command does to the chip; an update changes exactly the requested bytes of the sectors, and the case in
    which it destroys them. \<open>Smc_Init\<close>: the segment registers decode to windows side by side. \<open>Smc_Read_Init\<close>: read initialisation
    succeeds and leaves the configured read mode. \<open>Smc_Dma\<close>: what is committed to the DMA engine, and the state machine of a transfer.
  \<^item> \<open>I3c_Config\<close> (\<open>i3c/config.rs\<close>, \<open>error.rs\<close>), \<open>I3c_Ccc\<close> (\<open>ccc.rs\<close>) and \<open>I3c_Controller\<close> (\<open>controller.rs\<close>): the tables, the command
    codes and every operation of the controller over a record of hardware operations. \<open>I3c_Tables\<close>: what the tables mean together.
    \<open>I3c_Outcome\<close>, \<open>I3c_Invariant\<close>, \<open>I3c_Daa\<close>: rules for operations over an arbitrary hardware, every operation keeps the tables, the
    walk that assigns addresses. \<open>I3c_Session\<close>: the tables after any sequence of calls, and completeness of a walk that returns success. \<open>I3c_Ibi\<close> (\<open>ibi.rs\<close>): the
    interrupt queues refine lists that drop and report the oldest items.
  \<^item> \<open>Blocking_Flash\<close> (\<open>hal/blocking/flash\<close>): the blocking layer over the locale \<open>flash_memory\<close>, the documented contract of \<open>FlashDriver\<close> with
    its alignments, interpreted by the driver of the unit tests; what is erased and programmed is read back.
  \<^item> \<open>Pldm_Service\<close> (\<open>services/pldm/src\<close>, \<open>adapters/pldm\<close>): the transport, the service loop and the latch. \<open>Pldm_Properties\<close>: the
    service never panics on clients that fit its buffers (locale \<open>bounded_client\<close>), and foreign traffic does not reach the state machine. \<open>Pldm_System\<close>: an
    accepted request starts the update of the orchestrator.

  \<^bold>\<open>Bounds and fuel.\<close> The dispatch loop of the state machine is a \<open>partial_function\<close> in the option
  type; that it returns is a theorem, not an assumption. The wait for the DMA arbiter and the loop of the PLDM
  service, which the source does not bound, run on fuel and report running out (\<open>SmcHang\<close>, \<open>FdRunning\<close>); the
  theorems on the memory controller show that the fuel suffices on a device whose arbiter grants within it. Clearing an
  interrupt queue is a \<open>partial_function\<close> that is proved to return; the walk over the I3C bus has the budget of the source. All other loops are structural recursions on
  the data or on the number of iterations the source bounds. The sizes of buffers and tables are
  those of the source; the const generics of the orchestrator and the capacity of the mailbox queues
  are arguments of the definitions.

  \<^bold>\<open>Not modelled.\<close> Logging, delays, \<open>Display\<close> implementations and registration with the wait group have no effect
  on the state. The SPDM service binds an external crate; the register definitions of the
  targets, the Earlgrey tooling and the VeeR entry points are generated code and glue. The scoped SPI transaction of the memory controllers,
  the register level and the interrupt handlers of the I3C driver, the other peripheral drivers of the AST10x0 (I2C, HACE, GPIO, UART), the adapters of the orchestrator to the HAL, the MCTP framing over I2C, the MCTP echo service, the
  kernel transport of the I2C client and the USART driver are left out.
\<close>

end
